(* ===== verification/Prelude.thy ===== *)
theory Prelude
  imports Complex_Main
begin

text \<open>
  The prelude: the collections of rewrite rules the components share, the error type, and the
  machine-level vocabulary of Go that is not floating point: 64-bit signed integers with their
  wrap-around, and the string functions of package \<^verbatim>\<open>strings\<close> that the sources call.

  Integers.  Go's \<^verbatim>\<open>int\<close> and \<^verbatim>\<open>int64\<close> (the sources are built for 64-bit targets) are
  values of \<open>int\<close>; arithmetic that can leave the range is followed by \<open>wrap64\<close>, and the
  integer division and remainder of Go, which truncate towards zero, are \<open>godiv\<close> and
  \<open>gomod\<close>.

  Errors.  A Go function that returns \<^verbatim>\<open>(T, error)\<close> is modelled with result type
  \<open>error + 'a\<close>.  An error is the text the source puts in it; where the source wraps an error
  with \<^verbatim>\<open>%w\<close> the model keeps the wrapped error.
\<close>

named_theorems go_defs \<open>definitions of the language level that component proofs unfold\<close>
named_theorems f64_simps \<open>evaluation of floating-point operations on concrete values\<close>

section \<open>Errors\<close>

datatype error = Err string | Wrap string error

type_synonym 'a result = "error + 'a"

abbreviation Fail :: "string \<Rightarrow> 'a result" where
  "Fail msg \<equiv> Inl (Err msg)"

abbreviation Ok :: "'a \<Rightarrow> 'a result" where
  "Ok v \<equiv> Inr v"

text \<open>The early return \<^verbatim>\<open>if err != nil { return err }\<close>.\<close>

definition bindr :: "'a result \<Rightarrow> ('a \<Rightarrow> 'b result) \<Rightarrow> 'b result" where
  "bindr r k = (case r of Inl e \<Rightarrow> Inl e | Inr v \<Rightarrow> k v)"

lemma bindr_simps [simp]: "bindr (Inl e) k = Inl e" "bindr (Inr v) k = k v"
  by (simp_all add: bindr_def)

lemma bindr_Ok_iff: "bindr r k = Inr w \<longleftrightarrow> (\<exists>v. r = Inr v \<and> k v = Inr w)"
  by (cases r) auto

text \<open>The same with \<^verbatim>\<open>fmt.Errorf("msg: %w", err)\<close>.\<close>

definition wrapr :: "string \<Rightarrow> 'a result \<Rightarrow> 'a result" where
  "wrapr msg r = (case r of Inl e \<Rightarrow> Inl (Wrap msg e) | Inr v \<Rightarrow> Inr v)"

lemma wrapr_simps [simp]: "wrapr m (Inl e) = Inl (Wrap m e)" "wrapr m (Inr v) = Inr v"
  by (simp_all add: wrapr_def)

lemma wrapr_Ok_iff [simp]: "wrapr m r = Inr v \<longleftrightarrow> r = Inr v"
  by (cases r) auto

text \<open>A chain of guards: the first one that fires is reported.\<close>

fun first_error :: "(bool \<times> string) list \<Rightarrow> unit result" where
  "first_error [] = Ok ()"
| "first_error ((bad, msg) # cs) = (if bad then Fail msg else first_error cs)"

lemma first_error_Ok [simp]: "first_error cs = Inr u \<longleftrightarrow> (\<forall>c \<in> set cs. \<not> fst c)"
  by (induction cs rule: first_error.induct) auto

lemma first_error_Inl: "first_error cs = Inl e \<Longrightarrow> \<exists>c \<in> set cs. fst c \<and> e = Err (snd c)"
  by (induction cs rule: first_error.induct) (auto split: if_splits)

section \<open>64-bit signed integers\<close>

definition min_int64 :: int where "min_int64 = - (2 ^ 63)"
definition max_int64 :: int where "max_int64 = 2 ^ 63 - 1"

definition wrap64 :: "int \<Rightarrow> int" where
  "wrap64 i = (i + 2 ^ 63) mod 2 ^ 64 - 2 ^ 63"

definition is_int64 :: "int \<Rightarrow> bool" where
  "is_int64 i \<longleftrightarrow> min_int64 \<le> i \<and> i \<le> max_int64"

definition godiv :: "int \<Rightarrow> int \<Rightarrow> int" where
  "godiv a b = sgn a * sgn b * (\<bar>a\<bar> div \<bar>b\<bar>)"

definition gomod :: "int \<Rightarrow> int \<Rightarrow> int" where
  "gomod a b = a - b * godiv a b"

lemmas [go_defs] = min_int64_def max_int64_def

lemma wrap64_id [simp]: "is_int64 i \<Longrightarrow> wrap64 i = i"
  by (simp add: wrap64_def is_int64_def go_defs)

lemma is_int64_wrap64 [simp]: "is_int64 (wrap64 i)"
  by (simp add: wrap64_def is_int64_def go_defs)

lemma wrap64_cong: "\<exists>k. wrap64 i = i + k * 2 ^ 64"
proof -
  have "(i + 2 ^ 63) mod 2 ^ 64 = i + 2 ^ 63 - 2 ^ 64 * ((i + 2 ^ 63) div 2 ^ 64)"
    by (rule minus_mult_div_eq_mod [symmetric])
  then have "wrap64 i = i + (- ((i + 2 ^ 63) div 2 ^ 64)) * 2 ^ 64"
    by (simp add: wrap64_def)
  then show ?thesis by blast
qed

lemma gomod_pos: "0 \<le> a \<Longrightarrow> 0 < b \<Longrightarrow> gomod a b = a mod b"
  by (cases "a = 0") (auto simp: gomod_def godiv_def minus_mult_div_eq_mod)

lemma gomod_neg: "a < 0 \<Longrightarrow> 0 < b \<Longrightarrow> gomod a b = - ((- a) mod b)"
  by (simp add: gomod_def godiv_def minus_mult_div_eq_mod [symmetric])

lemma godiv_pos: "0 \<le> a \<Longrightarrow> 0 < b \<Longrightarrow> godiv a b = a div b"
  by (cases "a = 0") (auto simp: godiv_def)

section \<open>Strings\<close>

text \<open>
  \<^verbatim>\<open>strings.ToLower\<close> and \<^verbatim>\<open>strings.ToUpper\<close> on bytes: the inputs of the sources are chain
  names, addresses and token symbols, which are ASCII; bytes outside A-Z and a-z are left alone.
\<close>

definition ascii_lower :: "char \<Rightarrow> char" where
  "ascii_lower c = (if 65 \<le> (of_char c :: nat) \<and> (of_char c :: nat) \<le> 90
                    then char_of ((of_char c :: nat) + 32) else c)"

definition ascii_upper :: "char \<Rightarrow> char" where
  "ascii_upper c = (if 97 \<le> (of_char c :: nat) \<and> (of_char c :: nat) \<le> 122
                    then char_of ((of_char c :: nat) - 32) else c)"

definition ToLower :: "string \<Rightarrow> string" where "ToLower = map ascii_lower"
definition ToUpper :: "string \<Rightarrow> string" where "ToUpper = map ascii_upper"

lemma ascii_lower_idem [simp]: "ascii_lower (ascii_lower c) = ascii_lower c"
  by (simp add: ascii_lower_def)

lemma ToLower_idem [simp]: "ToLower (ToLower s) = ToLower s"
  by (simp add: ToLower_def comp_def)

definition is_space :: "char \<Rightarrow> bool" where
  "is_space c \<longleftrightarrow> (of_char c :: nat) \<in> {9, 10, 11, 12, 13, 32}"

text \<open>\<^verbatim>\<open>strings.TrimSpace\<close> on ASCII text.\<close>

definition TrimSpace :: "string \<Rightarrow> string" where
  "TrimSpace s = rev (dropWhile is_space (rev (dropWhile is_space s)))"

lemma TrimSpace_empty_iff: "TrimSpace s = [] \<longleftrightarrow> (\<forall>c \<in> set s. is_space c)"
proof
  assume "TrimSpace s = []"
  then have "\<forall>c \<in> set (dropWhile is_space s). is_space c"
    by (simp add: TrimSpace_def)
  then have "dropWhile is_space s = []"
    by (metis dropWhile_eq_Nil_conv hd_dropWhile hd_in_set)
  then show "\<forall>c \<in> set s. is_space c" by simp
next
  assume "\<forall>c \<in> set s. is_space c"
  then have "dropWhile is_space s = []" by simp
  then show "TrimSpace s = []" unfolding TrimSpace_def by (simp only: rev.simps dropWhile.simps)
qed

lemma TrimSpace_ends: "t = TrimSpace s \<Longrightarrow> t \<noteq> [] \<Longrightarrow> \<not> is_space (hd t) \<and> \<not> is_space (last t)"
proof -
  assume t: "t = TrimSpace s" and ne: "t \<noteq> []"
  let ?u = "dropWhile is_space s"
  have r: "rev t = dropWhile is_space (rev ?u)" using t by (simp add: TrimSpace_def)
  then have "\<not> is_space (hd (rev t))" using ne by (metis hd_dropWhile rev_is_Nil_conv)
  then have l: "\<not> is_space (last t)" by (simp add: hd_rev)
  obtain w where w: "rev ?u = w @ rev t" using r by (metis takeWhile_dropWhile_id)
  then have "?u = t @ rev w" by (metis rev_append rev_rev_ident)
  then have "hd t = hd ?u" "?u \<noteq> []" using ne by auto
  then have "\<not> is_space (hd t)" using hd_dropWhile [of is_space s] by simp
  with l show ?thesis by blast
qed

lemma TrimSpace_idem [simp]: "TrimSpace (TrimSpace s) = TrimSpace s"
proof (cases "TrimSpace s = []")
  case False
  then have "\<not> is_space (hd (TrimSpace s))" "\<not> is_space (hd (rev (TrimSpace s)))"
    using TrimSpace_ends [OF refl False] by (simp_all add: hd_rev)
  then have "dropWhile is_space (TrimSpace s) = TrimSpace s" "dropWhile is_space (rev (TrimSpace s)) = rev (TrimSpace s)"
    by (metis dropWhile_eq_self_iff)+
  then show ?thesis by (subst TrimSpace_def) simp
next
  case True
  have "TrimSpace [] = []" by (simp add: TrimSpace_def)
  then show ?thesis by (simp only: True)
qed

text \<open>\<^verbatim>\<open>%d\<close> of package \<^verbatim>\<open>fmt\<close>.\<close>

fun digits :: "nat \<Rightarrow> string" where
  "digits n = (if n < 10 then [char_of (48 + n)] else digits (n div 10) @ [char_of (48 + n mod 10)])"

declare digits.simps [simp del]

definition itoa :: "int \<Rightarrow> string" where
  "itoa i = (if i < 0 then CHR ''-'' # digits (nat (- i)) else digits (nat i))"

end
