(* ===== verification/Float64.thy ===== *)
theory Float64
  imports Prelude "HOL-Library.Product_Lexorder"
begin

text \<open>
  IEEE 754 binary64, the \<^verbatim>\<open>float64\<close> of Go, as an executable model: every amount, rate, price and
  score of the sources is one, and several properties (and several defects) of the program are
  about rounding, NaN and infinities.

  A value is NaN, an infinity, negative zero, or \<open>Fin r\<close> with \<open>r\<close> the exact rational it
  denotes (\<open>Fin 0\<close> is positive zero).  \<open>is_f64\<close> says that \<open>r\<close> is one of the binary64
  numbers; every operation returns such values.  Sums, products and quotients of finite values are
  computed exactly on \<open>rat\<close> and rounded once by \<open>rnd\<close>: to nearest, ties to even, 53 bits of
  precision, gradual underflow below \<open>2 powi -1022\<close>, overflow to infinity.  An untyped constant
  of the source such as \<^verbatim>\<open>0.15\<close> is \<open>rnd (15 / 100)\<close>, as Go's constant conversion rounds it.
  Fused multiply-add, which the Go specification permits on some targets, is not modelled: the
  amd64 baseline the Dockerfile builds for does not fuse.

  The main facts are that \<open>rnd\<close> is monotone (\<open>rnd_mono\<close>), is the identity on binary64 numbers
  (\<open>is_f64_rnd_fval\<close>, \<open>rnd_exact\<close>), and the order facts of the operations that follow
  (\<open>fmul_frac_le\<close>, \<open>fdiv_le_1\<close>, \<open>fsub_le\<close> and so on), which the component
  theories use instead of unfolding the arithmetic.
\<close>

section \<open>Values\<close>

datatype f64 = NaN | PInf | NInf | NegZero | Fin rat

fun is_nan :: "f64 \<Rightarrow> bool" where
  "is_nan NaN = True"
| "is_nan _ = False"

fun is_fin :: "f64 \<Rightarrow> bool" where
  "is_fin (Fin r) = True"
| "is_fin NegZero = True"
| "is_fin _ = False"

fun fval :: "f64 \<Rightarrow> rat" where
  "fval (Fin r) = r"
| "fval _ = 0"

fun fsign :: "f64 \<Rightarrow> bool" where
  "fsign NInf = True"
| "fsign NegZero = True"
| "fsign (Fin r) = (r < 0)"
| "fsign _ = False"

section \<open>Rounding\<close>

function blen :: "int \<Rightarrow> int" where
  "blen n = (if n \<le> 0 then 0 else 1 + blen (n div 2))"
  by pat_completeness auto
termination
  by (relation "measure nat") auto

declare blen.simps [simp del]

lemma blen_bounds: "0 < n \<Longrightarrow> 1 \<le> blen n \<and> 2 powi (blen n - 1) \<le> (of_int n :: rat) \<and> (of_int n :: rat) < 2 powi (blen n)"
proof (induction n rule: blen.induct)
  case (1 n)
  show ?case
  proof (cases "n = 1")
    case True
    then show ?thesis by (simp add: blen.simps)
  next
    case False
    with 1 have n: "0 < n div 2" by linarith
    define b where "b = blen (n div 2)"
    have ih: "1 \<le> b" "2 powi (b - 1) \<le> (of_int (n div 2) :: rat)" "(of_int (n div 2) :: rat) < 2 powi b"
      using 1 n by (auto simp: b_def)
    have bn: "blen n = 1 + b" using "1.prems" by (simp add: blen.simps [of n] b_def)
    define B where "B = (2::int) ^ nat (b - 1)"
    have B: "(2::rat) powi (b - 1) = of_int B" "(2::rat) powi b = of_int (2 * B)" "(2::rat) powi (1 + b) = of_int (4 * B)"
    proof -
      obtain k where k: "b = 1 + int k" using ih(1) by (metis zle_iff_zadd)
      show "(2::rat) powi (b - 1) = of_int B" "(2::rat) powi b = of_int (2 * B)" "(2::rat) powi (1 + b) = of_int (4 * B)"
        by (simp_all add: k B_def power_int_add)
    qed
    have "B \<le> n div 2" "n div 2 < 2 * B" using ih(2,3) unfolding B by (simp_all only: of_int_le_iff of_int_less_iff)
    then have "2 * B \<le> n" "n < 4 * B" by linarith+
    then show ?thesis using ih(1) unfolding bn by (simp add: B del: of_int_mult)
  qed
qed

definition ilog2 :: "rat \<Rightarrow> int" where
  "ilog2 a = (let (n, d) = quotient_of a; k = blen n - blen d
              in if a < 2 powi k then k - 1 else k)"

lemma powi2_pos [simp]: "0 < (2::rat) powi k"
  by (simp add: power_int_def)

lemma powi2_mono: "i \<le> j \<Longrightarrow> (2::rat) powi i \<le> 2 powi j"
  by (rule power_int_increasing) auto

lemma powi2_less_iff [simp]: "(2::rat) powi i < 2 powi j \<longleftrightarrow> i < j"
  by (metis linorder_not_le one_less_numeral_iff power_int_strict_increasing powi2_mono semiring_norm(76))

lemma powi2_Suc: "(2::rat) powi (k + 1) = 2 * 2 powi k"
  by (simp add: power_int_add)

lemma powi2_quotient: "e \<le> k \<Longrightarrow> (2::rat) powi k / 2 powi e = of_int (2 ^ nat (k - e))"
proof -
  assume "e \<le> k"
  then obtain n where "k = e + int n" by (metis zle_iff_zadd)
  then show ?thesis by (simp add: power_int_add)
qed

lemma ilog2_bounds:
  assumes "0 < a"
  shows "2 powi (ilog2 a) \<le> a \<and> a < 2 powi (ilog2 a + 1)"
proof -
  obtain n d where q: "quotient_of a = (n, d)" by fastforce
  then have d: "0 < d" and a: "a = of_int n / of_int d"
    by (auto dest: quotient_of_denom_pos quotient_of_div)
  with assms have n: "0 < n" by (simp add: zero_less_divide_iff)
  define k where "k = blen n - blen d"
  let ?n = "of_int n :: rat" and ?d = "of_int d :: rat"
  have "a < 2 powi (k + 1)"
  proof -
    have "a < 2 powi (blen n) / 2 powi (blen d - 1)"
      unfolding a using blen_bounds [OF n] blen_bounds [OF d] n
      by (intro frac_less) auto
    also have "\<dots> = 2 powi (k + 1)" by (simp add: k_def power_int_diff power_int_add)
    finally show ?thesis .
  qed
  moreover have "2 powi (k - 1) \<le> a"
  proof -
    have "(2::rat) powi (k - 1) = 2 powi (blen n - 1) / 2 powi (blen d)" by (simp add: k_def power_int_diff power_int_add)
    also have "\<dots> \<le> a" unfolding a using blen_bounds [OF n] blen_bounds [OF d] d n
      by (intro frac_le) auto
    finally show ?thesis .
  qed
  ultimately show ?thesis by (auto simp: ilog2_def q k_def [symmetric] Let_def)
qed

lemma ilog2_eq: "2 powi k \<le> a \<Longrightarrow> a < 2 powi (k + 1) \<Longrightarrow> ilog2 a = k"
proof -
  assume a: "2 powi k \<le> a" "a < 2 powi (k + 1)"
  then have "0 < a" by (meson less_le_trans powi2_pos)
  from ilog2_bounds [OF this] a have "(2::rat) powi k < 2 powi (ilog2 a + 1)" "(2::rat) powi (ilog2 a) < 2 powi (k + 1)"
    using le_less_trans by blast+
  then show ?thesis by simp
qed

lemma ilog2_mono: "0 < a \<Longrightarrow> a \<le> b \<Longrightarrow> ilog2 a \<le> ilog2 b"
proof -
  assume a: "0 < a" "a \<le> b"
  then have "(2::rat) powi (ilog2 a) < 2 powi (ilog2 b + 1)"
    using ilog2_bounds [of a] ilog2_bounds [of b] by (metis le_less_trans less_le_trans order_trans)
  then show ?thesis by simp
qed

definition rhe :: "rat \<Rightarrow> int" where
  "rhe x = (let f = \<lfloor>x\<rfloor>; d = x - of_int f
            in if d < 1 / 2 then f else if 1 / 2 < d then f + 1
               else if even f then f else f + 1)"

lemma rhe_int [simp]: "rhe (of_int k) = k"
  by (simp add: rhe_def)

lemma rhe_mono:
  assumes "x \<le> y" shows "rhe x \<le> rhe y"
proof (cases "\<lfloor>x\<rfloor> = \<lfloor>y\<rfloor>")
  case True
  with assms show ?thesis by (auto simp: rhe_def Let_def)
next
  case False
  with assms have "\<lfloor>x\<rfloor> + 1 \<le> \<lfloor>y\<rfloor>" using floor_mono [OF assms] by linarith
  then show ?thesis by (auto simp: rhe_def Let_def)
qed

definition fexp :: "rat \<Rightarrow> int" where
  "fexp a = max (- 1074) (ilog2 a - 52)"

definition rmag :: "rat \<Rightarrow> rat" where
  "rmag a = of_int (rhe (a / 2 powi (fexp a))) * 2 powi (fexp a)"

definition overflow :: rat where
  "overflow = 2 ^ 1024"

lemma overflow_pos [simp]: "0 < overflow" "\<not> overflow \<le> 0"
  by (simp_all add: overflow_def)

lemma overflow_code [code]:
  "overflow = (let b = 18446744073709551616; c = b * b * b * b in c * c * c * c)"
  by (simp add: overflow_def)

definition rnd :: "rat \<Rightarrow> f64" where
  "rnd x = (let v = rmag \<bar>x\<bar>
            in if overflow \<le> v then (if x < 0 then NInf else PInf)
               else if v = 0 then (if x < 0 then NegZero else Fin 0)
               else Fin (if x < 0 then - v else v))"

lemma rhe_le_int: "x \<le> of_int k \<Longrightarrow> rhe x \<le> k"
  using rhe_mono [of x "of_int k"] by simp

lemma rhe_ge_int: "of_int k \<le> x \<Longrightarrow> k \<le> rhe x"
  using rhe_mono [of "of_int k" x] by simp

lemma rmag_0 [simp]: "rmag 0 = 0"
  using rhe_int [of 0] by (simp add: rmag_def)

lemma rmag_nonneg: "0 \<le> a \<Longrightarrow> 0 \<le> rmag a"
  using rhe_ge_int [of 0 "a / 2 powi (fexp a)"] by (simp add: rmag_def)

lemma rmag_le_powi:
  assumes "0 < a" "a \<le> 2 powi k" "fexp a \<le> k"
  shows "rmag a \<le> 2 powi k"
proof -
  have p: "(2::rat) powi k / 2 powi (fexp a) = of_int (2 ^ nat (k - fexp a))"
    by (rule powi2_quotient [OF assms(3)])
  have "a / 2 powi (fexp a) \<le> of_int (2 ^ nat (k - fexp a))"
    using assms(2) by (metis p divide_right_mono less_imp_le powi2_pos)
  then have "rhe (a / 2 powi (fexp a)) \<le> 2 ^ nat (k - fexp a)" by (rule rhe_le_int)
  then have "of_int (rhe (a / 2 powi (fexp a))) \<le> (of_int (2 ^ nat (k - fexp a)) :: rat)" by (simp only: of_int_le_iff)
  then show ?thesis unfolding p [symmetric] rmag_def by (simp add: pos_le_divide_eq)
qed

lemma rmag_ge_powi:
  assumes "0 < a" "2 powi k \<le> a" "fexp a \<le> k"
  shows "2 powi k \<le> rmag a"
proof -
  have p: "(2::rat) powi k / 2 powi (fexp a) = of_int (2 ^ nat (k - fexp a))"
    by (rule powi2_quotient [OF assms(3)])
  have "of_int (2 ^ nat (k - fexp a)) \<le> a / 2 powi (fexp a)"
    using assms(2) by (metis p divide_right_mono less_imp_le powi2_pos)
  then have "2 ^ nat (k - fexp a) \<le> rhe (a / 2 powi (fexp a))" by (rule rhe_ge_int)
  then have "(of_int (2 ^ nat (k - fexp a)) :: rat) \<le> of_int (rhe (a / 2 powi (fexp a)))" by (simp only: of_int_le_iff)
  then show ?thesis unfolding p [symmetric] rmag_def by (simp add: pos_divide_le_eq)
qed

lemma rmag_mono:
  assumes "0 \<le> a" "a \<le> b" shows "rmag a \<le> rmag b"
proof (cases "a = 0")
  case True
  with assms show ?thesis by (simp add: rmag_nonneg)
next
  case False
  with assms have a: "0 < a" "0 < b" by auto
  show ?thesis
  proof (cases "fexp a = fexp b")
    case True
    have "a / 2 powi (fexp b) \<le> b / 2 powi (fexp b)"
      by (rule divide_right_mono [OF assms(2) less_imp_le [OF powi2_pos]])
    then have "rhe (a / 2 powi (fexp b)) \<le> rhe (b / 2 powi (fexp b))" by (rule rhe_mono)
    then show ?thesis by (simp add: rmag_def True mult_right_mono less_imp_le)
  next
    case False
    have l: "ilog2 a \<le> ilog2 b" by (rule ilog2_mono [OF a(1) assms(2)])
    with False have e: "fexp b = ilog2 b - 52" "ilog2 a + 1 \<le> ilog2 b" by (auto simp: fexp_def)
    have "rmag a \<le> 2 powi (ilog2 b)"
      by (rule rmag_le_powi [OF a(1)])
        (use ilog2_bounds [OF a(1)] powi2_mono [OF e(2)] e l False in \<open>auto simp: fexp_def\<close>)
    also have "\<dots> \<le> rmag b"
      by (rule rmag_ge_powi [OF a(2)]) (use ilog2_bounds [OF a(2)] e in auto)
    finally show ?thesis .
  qed
qed

lemma rmag_exact:
  assumes "0 \<le> k" "k \<le> 2 ^ 53" "- 1074 \<le> e"
  shows "rmag (of_int k * 2 powi e) = of_int k * 2 powi e"
proof (cases "k = 0")
  case False
  define a where "a = (of_int k :: rat) * 2 powi e"
  have a0: "0 < a" using assms(1) False by (simp add: a_def)
  have "(of_int k :: rat) \<le> of_int (2 ^ 53)" using assms(2) by (simp only: of_int_le_iff)
  then have "a \<le> of_int (2 ^ 53) * 2 powi e" unfolding a_def by (rule mult_right_mono) (simp add: less_imp_le)
  also have "\<dots> = 2 powi (e + 53)" by (simp add: power_int_add)
  finally have a1: "a \<le> 2 powi (e + 53)" .
  have "(2::rat) powi ilog2 a < 2 powi (e + 53 + 1)"
    using ilog2_bounds [OF a0] a1 powi2_less_iff [of "e + 53" "e + 53 + 1"] by linarith
  then have l: "ilog2 a \<le> e + 53" by simp
  have "\<exists>j. a / 2 powi (fexp a) = of_int j"
  proof (cases "ilog2 a \<le> e + 52")
    case True
    with assms(3) have "fexp a \<le> e" by (simp add: fexp_def)
    then have "a / 2 powi (fexp a) = of_int (k * 2 ^ nat (e - fexp a))"
      using powi2_quotient [of "fexp a" e] unfolding a_def by (metis of_int_mult times_divide_eq_right)
    then show ?thesis by blast
  next
    case False
    with l have i: "ilog2 a = e + 53" by simp
    with ilog2_bounds [OF a0] a1 have "a = 2 powi (e + 53)" by simp
    moreover have "fexp a = e + 1" using i assms(3) by (simp add: fexp_def)
    ultimately have "a / 2 powi (fexp a) = of_int (2 ^ nat (e + 53 - (e + 1)))"
      using powi2_quotient [of "e + 1" "e + 53"] by simp
    then show ?thesis by blast
  qed
  then show ?thesis by (metis a_def rmag_def rhe_int nonzero_eq_divide_eq order_less_irrefl powi2_pos)
qed simp

lemma rmag_form:
  assumes "0 \<le> a"
  obtains k e where "0 \<le> k" "k \<le> 2 ^ 53" "- 1074 \<le> e" "rmag a = of_int k * 2 powi e"
proof (cases "a = 0")
  case True
  then show ?thesis using that [of 0 0] by simp
next
  case False
  with assms have a: "0 < a" by simp
  have e: "ilog2 a + 1 \<le> fexp a + 53" by (simp add: fexp_def)
  have "a < 2 powi (fexp a + 53)"
    using ilog2_bounds [OF a] powi2_mono [OF e] by linarith
  then have "a / 2 powi (fexp a) \<le> of_int (2 ^ 53)"
    by (simp add: pos_divide_le_eq power_int_add mult.commute)
  then have "rhe (a / 2 powi (fexp a)) \<le> 2 ^ 53" by (rule rhe_le_int)
  moreover have "0 \<le> rhe (a / 2 powi (fexp a))" using a by (intro rhe_ge_int) simp
  ultimately show ?thesis using that [of "rhe (a / 2 powi (fexp a))" "fexp a"]
    by (simp add: rmag_def fexp_def)
qed

lemma rmag_idem: "0 \<le> a \<Longrightarrow> rmag (rmag a) = rmag a"
  by (metis rmag_form rmag_exact)

lemma rnd_exact:
  assumes "\<bar>k\<bar> \<le> 2 ^ 53" "- 1074 \<le> e" "\<bar>of_int k * 2 powi e\<bar> < overflow"
  shows "rnd (of_int k * 2 powi e) = Fin (of_int k * 2 powi e)"
proof -
  have "\<bar>of_int k * 2 powi e\<bar> = of_int \<bar>k\<bar> * (2::rat) powi e" by (simp add: abs_mult)
  with assms rmag_exact [of "\<bar>k\<bar>" e] have "rmag \<bar>of_int k * 2 powi e\<bar> = \<bar>of_int k * 2 powi e\<bar>" by simp
  with assms(3) show ?thesis by (auto simp: rnd_def Let_def)
qed

definition is_f64 :: "f64 \<Rightarrow> bool" where
  "is_f64 x = (case x of Fin r \<Rightarrow> rnd r = Fin r | _ \<Rightarrow> True)"

lemma is_f64_simps [simp]: "is_f64 NaN" "is_f64 PInf" "is_f64 NInf" "is_f64 NegZero"
  by (simp_all add: is_f64_def)

lemma is_f64_Fin: "is_f64 (Fin r) \<longleftrightarrow> rnd r = Fin r"
  by (simp add: is_f64_def)

lemma is_f64_rnd [simp]: "is_f64 (rnd x)"
proof -
  have "rmag (rmag \<bar>x\<bar>) = rmag \<bar>x\<bar>" "0 \<le> rmag \<bar>x\<bar>" by (simp_all add: rmag_idem rmag_nonneg)
  then show ?thesis by (auto simp: is_f64_def rnd_def Let_def)
qed

lemma rnd_not_nan [simp]: "\<not> is_nan (rnd x)" "rnd x \<noteq> NaN"
  by (auto simp: rnd_def Let_def)

lemma rnd_int: "\<bar>k\<bar> \<le> 2 ^ 53 \<Longrightarrow> rnd (of_int k) = Fin (of_int k)"
proof -
  assume k: "\<bar>k\<bar> \<le> 2 ^ 53"
  then have "(of_int \<bar>k\<bar> :: rat) \<le> of_int (2 ^ 53)" by (simp only: of_int_le_iff)
  also have "\<dots> < overflow" unfolding overflow_def of_int_power of_int_numeral
    by (rule power_strict_increasing) simp_all
  finally show ?thesis using rnd_exact [OF k, of 0] by simp
qed

lemma rnd_0 [simp]: "rnd 0 = Fin 0" and rnd_1 [simp]: "rnd 1 = Fin 1"
  using rnd_int [of 0] rnd_int [of 1] by simp_all

lemma rnd_numeral: "(numeral n :: int) \<le> 2 ^ 53 \<Longrightarrow> rnd (numeral n) = Fin (numeral n)"
  using rnd_int [of "numeral n"] by simp

lemma rnd_neg_numeral: "(numeral n :: int) \<le> 2 ^ 53 \<Longrightarrow> rnd (- numeral n) = Fin (- numeral n)"
  using rnd_int [of "- numeral n"] by simp

section \<open>Comparison\<close>

fun fkey :: "f64 \<Rightarrow> int \<times> rat" where
  "fkey NInf = (- 1, 0)"
| "fkey (Fin r) = (0, r)"
| "fkey NegZero = (0, 0)"
| "fkey PInf = (1, 0)"
| "fkey NaN = (2, 0)"

definition flt :: "f64 \<Rightarrow> f64 \<Rightarrow> bool" where
  "flt x y \<longleftrightarrow> \<not> is_nan x \<and> \<not> is_nan y \<and> fkey x < fkey y"

definition fle :: "f64 \<Rightarrow> f64 \<Rightarrow> bool" where
  "fle x y \<longleftrightarrow> \<not> is_nan x \<and> \<not> is_nan y \<and> fkey x \<le> fkey y"

definition feq :: "f64 \<Rightarrow> f64 \<Rightarrow> bool" where
  "feq x y \<longleftrightarrow> \<not> is_nan x \<and> \<not> is_nan y \<and> fkey x = fkey y"

lemmas fcmp_defs = flt_def fle_def feq_def

lemma fcmp_Fin [simp]:
  "flt (Fin a) (Fin b) \<longleftrightarrow> a < b" "fle (Fin a) (Fin b) \<longleftrightarrow> a \<le> b" "feq (Fin a) (Fin b) \<longleftrightarrow> a = b"
  by (simp_all add: fcmp_defs)

lemma fcmp_NaN [simp]:
  "\<not> flt NaN x" "\<not> flt x NaN" "\<not> fle NaN x" "\<not> fle x NaN" "\<not> feq NaN x" "\<not> feq x NaN"
  by (simp_all add: fcmp_defs)

lemma fle_refl [simp]: "\<not> is_nan x \<Longrightarrow> fle x x"
  by (simp add: fle_def)

lemma fle_trans [trans]: "fle x y \<Longrightarrow> fle y z \<Longrightarrow> fle x z"
  by (auto simp: fle_def)

lemma fle_flt_trans [trans]: "fle x y \<Longrightarrow> flt y z \<Longrightarrow> flt x z"
  by (auto simp: fcmp_defs)

lemma flt_fle_trans [trans]: "flt x y \<Longrightarrow> fle y z \<Longrightarrow> flt x z"
  by (auto simp: fcmp_defs)

lemma flt_imp_fle: "flt x y \<Longrightarrow> fle x y"
  by (auto simp: fcmp_defs)

lemma flt_not_fle: "\<not> is_nan x \<Longrightarrow> \<not> is_nan y \<Longrightarrow> \<not> flt x y \<longleftrightarrow> fle y x"
  by (auto simp: fcmp_defs)

lemma fle_not_flt: "\<not> is_nan x \<Longrightarrow> \<not> is_nan y \<Longrightarrow> \<not> fle x y \<longleftrightarrow> flt y x"
  by (auto simp: fcmp_defs)

lemma flt_irrefl [simp]: "\<not> flt x x"
  by (simp add: flt_def)

lemma fle_nan: "fle x y \<Longrightarrow> \<not> is_nan x \<and> \<not> is_nan y"
  and flt_nan: "flt x y \<Longrightarrow> \<not> is_nan x \<and> \<not> is_nan y"
  by (auto simp: fcmp_defs)

lemma flt_asym: "flt x y \<Longrightarrow> \<not> fle y x"
  by (auto simp: fcmp_defs)

lemma rnd_key_mono:
  assumes "x \<le> y" shows "fkey (rnd x) \<le> fkey (rnd y)"
proof -
  consider "0 \<le> x" | "x < 0" "0 \<le> y" | "y < 0" by linarith
  then show ?thesis
  proof cases
    case 1
    then have "rmag \<bar>x\<bar> \<le> rmag \<bar>y\<bar>" "0 \<le> rmag \<bar>x\<bar>" using assms by (auto intro: rmag_mono rmag_nonneg)
    with 1 assms show ?thesis by (auto simp: rnd_def Let_def)
  next
    case 2
    then have "0 \<le> rmag \<bar>x\<bar>" "0 \<le> rmag \<bar>y\<bar>" by (auto intro: rmag_nonneg)
    with 2 show ?thesis by (auto simp: rnd_def Let_def)
  next
    case 3
    then have "rmag \<bar>y\<bar> \<le> rmag \<bar>x\<bar>" "0 \<le> rmag \<bar>y\<bar>" using assms by (auto intro: rmag_mono rmag_nonneg)
    with 3 assms show ?thesis by (auto simp: rnd_def Let_def)
  qed
qed

lemma rnd_mono: "x \<le> y \<Longrightarrow> fle (rnd x) (rnd y)"
  by (simp add: fle_def rnd_key_mono)

lemma rnd_nonneg: "0 \<le> x \<Longrightarrow> fle (Fin 0) (rnd x)"
  using rnd_mono [of 0 x] by simp

section \<open>Arithmetic\<close>

definition fzero :: "bool \<Rightarrow> f64" where "fzero s = (if s then NegZero else Fin 0)"
definition finf :: "bool \<Rightarrow> f64" where "finf s = (if s then NInf else PInf)"

fun fneg :: "f64 \<Rightarrow> f64" where
  "fneg NaN = NaN"
| "fneg PInf = NInf"
| "fneg NInf = PInf"
| "fneg NegZero = Fin 0"
| "fneg (Fin r) = (if r = 0 then NegZero else Fin (- r))"

definition fadd :: "f64 \<Rightarrow> f64 \<Rightarrow> f64" where
  "fadd x y =
     (if is_nan x \<or> is_nan y then NaN
      else if is_fin x \<and> is_fin y then
        (let r = fval x + fval y in if r = 0 then fzero (fsign x \<and> fsign y) else rnd r)
      else if is_fin x then y
      else if is_fin y then x
      else if x = y then x else NaN)"

definition fsub :: "f64 \<Rightarrow> f64 \<Rightarrow> f64" where
  "fsub x y = fadd x (fneg y)"

definition fmul :: "f64 \<Rightarrow> f64 \<Rightarrow> f64" where
  "fmul x y =
     (let s = (fsign x \<noteq> fsign y) in
      if is_nan x \<or> is_nan y then NaN
      else if is_fin x \<and> is_fin y then
        (let r = fval x * fval y in if r = 0 then fzero s else rnd r)
      else if is_fin x \<and> fval x = 0 \<or> is_fin y \<and> fval y = 0 then NaN
      else finf s)"

definition fdiv :: "f64 \<Rightarrow> f64 \<Rightarrow> f64" where
  "fdiv x y =
     (let s = (fsign x \<noteq> fsign y) in
      if is_nan x \<or> is_nan y then NaN
      else if is_fin x \<and> is_fin y then
        (if fval y = 0 then (if fval x = 0 then NaN else finf s)
         else let r = fval x / fval y in if r = 0 then fzero s else rnd r)
      else if is_fin x then fzero s
      else if is_fin y then finf s
      else NaN)"

definition f64_of_int :: "int \<Rightarrow> f64" where "f64_of_int i = rnd (of_int i)"

lemmas farith_defs = fadd_def fsub_def fmul_def fdiv_def

lemma fval_nonfin [simp]: "\<not> is_fin x \<Longrightarrow> fval x = 0"
  by (cases x) auto

lemma is_fin_not_nan: "is_fin x \<Longrightarrow> \<not> is_nan x"
  by (cases x) auto

lemma is_fin_fzero [simp]: "is_fin (fzero s)" "fval (fzero s) = 0" "\<not> is_nan (fzero s)" "is_f64 (fzero s)"
  by (auto simp: fzero_def is_f64_Fin)

lemma finf_simps [simp]: "\<not> is_fin (finf s)" "\<not> is_nan (finf s)" "is_f64 (finf s)"
  by (auto simp: finf_def)

lemma fkey_fzero [simp]: "fkey (fzero s) = (0, 0)"
  by (simp add: fzero_def)

lemma fneg_simps [simp]: "is_nan (fneg x) = is_nan x" "is_fin (fneg x) = is_fin x" "fval (fneg x) = - fval x"
  by (cases x; simp)+

lemma is_f64_fneg: "is_f64 x \<Longrightarrow> is_f64 (fneg x)"
  by (cases x) (auto simp: is_f64_def rnd_def Let_def split: if_splits)

lemma is_f64_ops [simp]:
  "is_f64 x \<Longrightarrow> is_f64 y \<Longrightarrow> is_f64 (fadd x y)"
  "is_f64 x \<Longrightarrow> is_f64 y \<Longrightarrow> is_f64 (fsub x y)"
  "is_f64 (fmul x y)" "is_f64 (fdiv x y)" "is_f64 (f64_of_int i)"
  by (auto simp: farith_defs f64_of_int_def Let_def is_f64_fneg)

lemma fkey_fin: "is_fin x \<Longrightarrow> fkey x = (0, fval x)"
  by (cases x) auto

lemma fle_fin: "is_fin x \<Longrightarrow> is_fin y \<Longrightarrow> fle x y \<longleftrightarrow> fval x \<le> fval y"
  and flt_fin: "is_fin x \<Longrightarrow> is_fin y \<Longrightarrow> flt x y \<longleftrightarrow> fval x < fval y"
  and feq_fin: "is_fin x \<Longrightarrow> is_fin y \<Longrightarrow> feq x y \<longleftrightarrow> fval x = fval y"
  by (auto simp: fcmp_defs fkey_fin is_fin_not_nan)

text \<open>A finite value is its own rounding, up to the sign of zero.\<close>

lemma is_f64_rnd_fval: "is_f64 x \<Longrightarrow> is_fin x \<Longrightarrow> fkey (rnd (fval x)) = fkey x"
  by (cases x) (auto simp: is_f64_Fin)

lemma fadd_key: "is_fin x \<Longrightarrow> is_fin y \<Longrightarrow> fkey (fadd x y) = fkey (rnd (fval x + fval y))"
  by (auto simp: fadd_def Let_def is_fin_not_nan)

lemma fsub_key: "is_fin x \<Longrightarrow> is_fin y \<Longrightarrow> fkey (fsub x y) = fkey (rnd (fval x - fval y))"
  by (simp add: fsub_def fadd_key)

lemma fmul_key: "is_fin x \<Longrightarrow> is_fin y \<Longrightarrow> fkey (fmul x y) = fkey (rnd (fval x * fval y))"
  by (auto simp: fmul_def Let_def is_fin_not_nan)

lemma fdiv_key: "is_fin x \<Longrightarrow> is_fin y \<Longrightarrow> fval y \<noteq> 0 \<Longrightarrow> fkey (fdiv x y) = fkey (rnd (fval x / fval y))"
  by (auto simp: fdiv_def Let_def is_fin_not_nan)

lemma fin_op_not_nan [simp]:
  "is_fin x \<Longrightarrow> is_fin y \<Longrightarrow> \<not> is_nan (fadd x y)"
  "is_fin x \<Longrightarrow> is_fin y \<Longrightarrow> \<not> is_nan (fsub x y)"
  "is_fin x \<Longrightarrow> is_fin y \<Longrightarrow> \<not> is_nan (fmul x y)"
  "is_fin x \<Longrightarrow> is_fin y \<Longrightarrow> fval y \<noteq> 0 \<Longrightarrow> \<not> is_nan (fdiv x y)"
  by (auto simp: farith_defs Let_def is_fin_not_nan)

lemma fle_keyI: "\<not> is_nan x \<Longrightarrow> \<not> is_nan y \<Longrightarrow> fkey x = fkey (rnd a) \<Longrightarrow> fkey y = fkey (rnd b) \<Longrightarrow> a \<le> b \<Longrightarrow> fle x y"
  by (simp add: fle_def rnd_key_mono)

text \<open>The operations are monotone on finite operands.\<close>

lemma fadd_mono:
  "is_fin x \<Longrightarrow> is_fin x' \<Longrightarrow> is_fin y \<Longrightarrow> is_fin y' \<Longrightarrow> fle x x' \<Longrightarrow> fle y y' \<Longrightarrow> fle (fadd x y) (fadd x' y')"
  by (rule fle_keyI [OF _ _ fadd_key fadd_key]) (auto simp: fle_fin)

lemma fsub_mono:
  "is_fin x \<Longrightarrow> is_fin x' \<Longrightarrow> is_fin y \<Longrightarrow> is_fin y' \<Longrightarrow> fle x x' \<Longrightarrow> fle y' y \<Longrightarrow> fle (fsub x y) (fsub x' y')"
  by (rule fle_keyI [OF _ _ fsub_key fsub_key]) (auto simp: fle_fin)

lemma fmul_mono:
  "is_fin x \<Longrightarrow> is_fin x' \<Longrightarrow> is_fin y \<Longrightarrow> is_fin y' \<Longrightarrow> fle x x' \<Longrightarrow> fle y y' \<Longrightarrow>
   fle (Fin 0) x' \<Longrightarrow> fle (Fin 0) y \<Longrightarrow> fle (fmul x y) (fmul x' y')"
  by (rule fle_keyI [OF _ _ fmul_key fmul_key]) (auto simp: fle_fin intro: mult_mono)

lemma fmul_nonneg: "is_fin x \<Longrightarrow> is_fin y \<Longrightarrow> fle (Fin 0) x \<Longrightarrow> fle (Fin 0) y \<Longrightarrow> fle (Fin 0) (fmul x y)"
  by (rule fle_keyI [of _ _ 0, OF _ _ _ fmul_key]) (auto simp: fle_fin)

lemma fadd_nonneg: "is_fin x \<Longrightarrow> is_fin y \<Longrightarrow> fle (Fin 0) x \<Longrightarrow> fle (Fin 0) y \<Longrightarrow> fle (Fin 0) (fadd x y)"
  by (rule fle_keyI [of _ _ 0, OF _ _ _ fadd_key]) (auto simp: fle_fin)

lemma fdiv_nonneg: "is_fin x \<Longrightarrow> is_fin y \<Longrightarrow> fle (Fin 0) x \<Longrightarrow> flt (Fin 0) y \<Longrightarrow> fle (Fin 0) (fdiv x y)"
  by (rule fle_keyI [of _ _ 0, OF _ _ _ fdiv_key]) (auto simp: fle_fin flt_fin)

lemma fsub_nonneg: "is_fin x \<Longrightarrow> is_fin y \<Longrightarrow> fle y x \<Longrightarrow> fle (Fin 0) (fsub x y)"
  by (rule fle_keyI [of _ _ 0, OF _ _ _ fsub_key]) (auto simp: fle_fin)

lemma fsub_le: "is_f64 x \<Longrightarrow> is_fin x \<Longrightarrow> is_fin y \<Longrightarrow> fle (Fin 0) y \<Longrightarrow> fle (fsub x y) x"
  by (rule fle_keyI [OF _ _ fsub_key is_f64_rnd_fval [symmetric]]) (auto simp: fle_fin is_fin_not_nan)

lemma fadd_ge: "is_f64 x \<Longrightarrow> is_fin x \<Longrightarrow> is_fin y \<Longrightarrow> fle (Fin 0) y \<Longrightarrow> fle x (fadd x y)"
  by (rule fle_keyI [OF _ _ is_f64_rnd_fval [symmetric] fadd_key]) (auto simp: fle_fin is_fin_not_nan)

text \<open>A fraction of a non-negative amount lies between zero and the amount.\<close>

lemma fmul_frac_le:
  "is_f64 x \<Longrightarrow> is_fin p \<Longrightarrow> is_fin x \<Longrightarrow> fle p (Fin 1) \<Longrightarrow> fle (Fin 0) x \<Longrightarrow> fle (fmul p x) x"
  by (rule fle_keyI [OF _ _ fmul_key is_f64_rnd_fval [symmetric]])
    (use mult_right_mono [of "fval p" 1 "fval x"] in \<open>auto simp: fle_fin is_fin_not_nan\<close>)

lemma fdiv_le_1:
  "is_fin x \<Longrightarrow> is_fin y \<Longrightarrow> fle x y \<Longrightarrow> flt (Fin 0) y \<Longrightarrow> fle (fdiv x y) (Fin 1)"
  by (rule fle_keyI [of _ _ _ 1, OF _ _ fdiv_key]) (auto simp: fle_fin flt_fin)

lemma f64_of_int_fin: "\<bar>i\<bar> \<le> 2 ^ 53 \<Longrightarrow> f64_of_int i = Fin (of_int i)"
  by (simp add: f64_of_int_def rnd_int)

lemma f64_of_int_mono: "i \<le> j \<Longrightarrow> fle (f64_of_int i) (f64_of_int j)"
  by (simp add: f64_of_int_def rnd_mono)

lemma f64_of_int_nonneg: "0 \<le> i \<Longrightarrow> fle (Fin 0) (f64_of_int i)"
  using f64_of_int_mono [of 0 i] by (simp add: f64_of_int_def)

lemma fle_between_fin: "fle x y \<Longrightarrow> fle y z \<Longrightarrow> is_fin x \<Longrightarrow> is_fin z \<Longrightarrow> is_fin y"
  by (cases y; cases x; cases z) (auto simp: fcmp_defs)

lemma is_fin_rnd: "\<bar>x\<bar> \<le> 2 ^ 1000 \<Longrightarrow> is_fin (rnd x)"
proof -
  assume x: "\<bar>x\<bar> \<le> 2 ^ 1000"
  have "rmag (of_int 1 * 2 powi 1000) = of_int 1 * 2 powi 1000" by (rule rmag_exact) simp_all
  then have "rmag (2 ^ 1000) = 2 ^ 1000" by (simp only: of_int_1 mult_1 power_int_numeral)
  then have "rmag \<bar>x\<bar> \<le> 2 ^ 1000" using rmag_mono [OF abs_ge_zero x] by (simp only:)
  also have "(2::rat) ^ 1000 < overflow" unfolding overflow_def by (rule power_strict_increasing) simp_all
  finally show ?thesis by (auto simp: rnd_def Let_def)
qed

lemma is_fin_f64_of_int: "is_int64 i \<Longrightarrow> is_fin (f64_of_int i)"
proof -
  assume "is_int64 i"
  then have "\<bar>i\<bar> \<le> 2 ^ 63" by (auto simp: is_int64_def go_defs)
  then have "(of_int \<bar>i\<bar> :: rat) \<le> of_int (2 ^ 63)" by (simp only: of_int_le_iff)
  also have "\<dots> = 2 ^ 63" by simp
  also have "(2::rat) ^ 63 \<le> 2 ^ 1000" by (rule power_increasing) simp_all
  finally have "\<bar>of_int i :: rat\<bar> \<le> 2 ^ 1000" by (simp only: of_int_abs)
  then show ?thesis unfolding f64_of_int_def by (rule is_fin_rnd)
qed

lemma rnd_const_bounds: "a \<le> b \<Longrightarrow> rnd b = Fin b \<Longrightarrow> fle (rnd a) (Fin b)"
  and rnd_const_bounds': "b \<le> a \<Longrightarrow> rnd b = Fin b \<Longrightarrow> fle (Fin b) (rnd a)"
  using rnd_mono by fastforce+

text \<open>
  Conversion to an integer truncates; where the value does not fit (NaN, infinities, out of
  range) the Go specification leaves the result to the implementation, which is the parameter
  \<open>oob\<close>.
\<close>

definition rtrunc :: "rat \<Rightarrow> int" where
  "rtrunc r = (if r < 0 then - \<lfloor>- r\<rfloor> else \<lfloor>r\<rfloor>)"

definition f64_to_int :: "(f64 \<Rightarrow> int) \<Rightarrow> f64 \<Rightarrow> int" where
  "f64_to_int oob x = (if is_fin x \<and> is_int64 (rtrunc (fval x)) then rtrunc (fval x) else oob x)"

lemma rnd_half [simp]: "rnd (1 / 2) = Fin (1 / 2)"
proof -
  have "(of_int 1 :: rat) * 2 powi - 1 = 1 / 2" by (simp add: power_int_minus)
  moreover have "(1 :: rat) / 2 < overflow" unfolding overflow_def by (rule less_trans [of _ 1]) simp_all
  ultimately show ?thesis using rnd_exact [of 1 "- 1"] by (simp only: abs_of_pos) simp
qed

lemma rnd_dyadic:
  assumes "\<bar>k\<bar> \<le> 2 ^ 53" "n \<le> 1074"
  shows "rnd (of_int k / 2 ^ n) = Fin (of_int k / 2 ^ n)"
proof -
  have e: "of_int k / 2 ^ n = of_int k * (2::rat) powi - int n"
    by (simp add: power_int_minus divide_inverse)
  have "\<bar>of_int k * (2::rat) powi - int n\<bar> \<le> 2 ^ 53"
  proof -
    have "\<bar>of_int k :: rat\<bar> \<le> 2 ^ 53" using assms(1) by (metis of_int_abs of_int_le_iff of_int_numeral of_int_power)
    moreover have "(2::rat) powi - int n \<le> 1" by (simp add: power_int_minus inverse_le_1_iff)
    ultimately have "\<bar>of_int k\<bar> * (2::rat) powi - int n \<le> 2 ^ 53 * 1" by (intro mult_mono) simp_all
    then show ?thesis by (simp add: abs_mult)
  qed
  also have "(2::rat) ^ 53 < overflow" by (simp add: overflow_def)
  finally show ?thesis unfolding e using assms by (intro rnd_exact) simp_all
qed

lemma rnd_pos: "1 / 2 \<le> x \<Longrightarrow> flt (Fin 0) (rnd x)"
proof -
  assume "1 / 2 \<le> x"
  from rnd_mono [OF this] have "fle (Fin (1 / 2)) (rnd x)" by simp
  moreover have "flt (Fin 0) (Fin (1 / 2))" by simp
  ultimately show ?thesis by (blast intro: flt_fle_trans)
qed

lemma f64_of_int_pos: "0 < n \<Longrightarrow> flt (Fin 0) (f64_of_int n)"
  unfolding f64_of_int_def using of_int_le_iff [of 1 n, where ?'a = rat] by (intro rnd_pos) simp

lemma rnd_powi_pos:
  assumes "2 powi k \<le> x" "- 1074 \<le> k" "k \<le> 1000"
  shows "flt (Fin 0) (rnd x)"
proof -
  have "(2::rat) powi k \<le> 2 powi 1000" by (rule powi2_mono [OF assms(3)])
  also have "\<dots> < overflow" unfolding overflow_def power_int_numeral by (rule power_strict_increasing) simp_all
  finally have "rnd (2 powi k) = Fin (2 powi k)" using rnd_exact [of 1 k] assms(2) by (simp add: abs_of_pos)
  with rnd_mono [OF assms(1)] have "fle (Fin (2 powi k)) (rnd x)" by simp
  moreover have "flt (Fin 0) (Fin (2 powi k))" by simp
  ultimately show ?thesis by (blast intro: flt_fle_trans)
qed

text \<open>Non-negative results, infinite operands included.\<close>

lemma fle_0_cases: "fle (Fin 0) x \<Longrightarrow> x = PInf \<or> is_fin x \<and> 0 \<le> fval x"
  by (cases x) (auto simp: fle_def)

lemma fadd_nonneg_ext:
  assumes "fle (Fin 0) x" "fle (Fin 0) y" shows "fle (Fin 0) (fadd x y)"
proof (cases "is_fin x \<and> is_fin y")
  case True
  with assms show ?thesis by (simp add: fadd_nonneg)
next
  case False
  with fle_0_cases [OF assms(1)] fle_0_cases [OF assms(2)] have "fadd x y = PInf"
    by (auto simp: fadd_def is_fin_not_nan)
  then show ?thesis by (simp add: fle_def)
qed

lemma fmul_nonneg_pos:
  assumes "fle (Fin 0) x" "flt (Fin 0) y" "is_fin y" shows "fle (Fin 0) (fmul x y)"
proof (cases "is_fin x")
  case True
  with assms show ?thesis by (simp add: fmul_nonneg flt_imp_fle)
next
  case False
  with fle_0_cases [OF assms(1)] have "x = PInf" by blast
  moreover from assms have "0 < fval y" "\<not> fsign y" by (cases y; auto simp: flt_def)+
  ultimately show ?thesis using assms(3) by (simp add: fmul_def finf_def fle_def is_fin_not_nan)
qed

lemma fmul_comm: "fmul x y = fmul y x"
  by (cases x; cases y) (auto simp: fmul_def Let_def mult.commute fzero_def finf_def)

section \<open>The unit interval\<close>

definition in_unit :: "f64 \<Rightarrow> bool" where "in_unit c \<longleftrightarrow> is_f64 c \<and> fle (Fin 0) c \<and> fle c (Fin 1)"

lemma in_unit_fin: "in_unit c \<Longrightarrow> is_fin c" and in_unit_nan: "in_unit c \<Longrightarrow> \<not> is_nan c"
  using fle_between_fin [of "Fin 0" c "Fin 1"] fle_nan [of c] by (auto simp: in_unit_def)

lemma rnd_unit: "0 \<le> x \<Longrightarrow> x \<le> 1 \<Longrightarrow> in_unit (rnd x)"
  using rnd_mono [of 0 x] rnd_mono [of x 1] by (simp add: in_unit_def)

lemma fmul_in_unit: "in_unit x \<Longrightarrow> in_unit y \<Longrightarrow> in_unit (fmul x y) \<and> fle (fmul x y) y"
proof -
  assume a: "in_unit x" "in_unit y"
  note fin = in_unit_fin [OF a(1)] in_unit_fin [OF a(2)]
  have "fle (fmul x y) y" using a fin by (auto simp: in_unit_def intro: fmul_frac_le)
  moreover have "fle (Fin 0) (fmul x y)" using a fin by (auto simp: in_unit_def intro: fmul_nonneg)
  ultimately show ?thesis using a by (auto simp: in_unit_def intro: fle_trans)
qed

lemma in_unit_const [simp]: "in_unit (Fin 0)" "in_unit (Fin 1)"
  by (simp_all add: in_unit_def is_f64_Fin)

lemmas [f64_simps] = farith_defs fzero_def finf_def f64_of_int_def Let_def rnd_numeral rnd_neg_numeral

end
