(* ===== verification/GoTime.thy ===== *)
theory GoTime
  imports Float64
begin

text \<open>
  Package \<^verbatim>\<open>time\<close> as far as the sources use it.  A \<^verbatim>\<open>time.Time\<close> is the number of nanoseconds
  since the zero time, January 1 of year 1 UTC, so that \<^verbatim>\<open>IsZero\<close> is \<open>t = 0\<close> and comparison is
  comparison of integers; a \<^verbatim>\<open>time.Duration\<close> is an \<^verbatim>\<open>int64\<close> of nanoseconds.  \<^verbatim>\<open>Time.Sub\<close>
  saturates at the ends of the duration range (about 292 years), which matters for the zero time.
  \<open>monthOf\<close> is the calendar computation of the budget tracker: the start of the calendar month
  (proleptic Gregorian, UTC) that contains the instant, with \<open>month_floor\<close> and
  \<open>monthOf_mono\<close> as its characteristic facts.
\<close>

type_synonym time = int
type_synonym duration = int

abbreviation (input) zero_time :: time where "zero_time \<equiv> 0"

definition Nanosecond :: duration where "Nanosecond = 1"
definition Second :: duration where "Second = 1000000000"
definition Minute :: duration where "Minute = 60 * Second"
definition Hour :: duration where "Hour = 60 * Minute"
definition Day :: duration where "Day = 24 * Hour"

lemmas duration_defs [go_defs] = Second_def Minute_def Hour_def Day_def

definition time_sub :: "time \<Rightarrow> time \<Rightarrow> duration" where
  "time_sub t u = max min_int64 (min max_int64 (t - u))"

definition Seconds :: "duration \<Rightarrow> f64" where
  "Seconds d = fadd (f64_of_int (godiv d Second)) (fdiv (f64_of_int (gomod d Second)) (rnd 1000000000))"

definition Hours :: "duration \<Rightarrow> f64" where
  "Hours d = fadd (f64_of_int (godiv d Hour)) (fdiv (f64_of_int (gomod d Hour)) (rnd 3600000000000))"

lemma time_sub_mono: "t \<le> t' \<Longrightarrow> u' \<le> u \<Longrightarrow> time_sub t u \<le> time_sub t' u'"
  by (simp add: time_sub_def)

lemma time_sub_self [simp]: "time_sub t t = 0"
  by (simp add: time_sub_def go_defs)

lemma time_sub_exact: "is_int64 (t - u) \<Longrightarrow> time_sub t u = t - u"
  by (simp add: time_sub_def is_int64_def)

lemma is_int64_time_sub [simp]: "is_int64 (time_sub t u)"
  by (auto simp: time_sub_def is_int64_def go_defs)

lemma godiv_bounds: "is_int64 d \<Longrightarrow> 0 < b \<Longrightarrow> is_int64 (godiv d b)"
proof -
  assume d: "is_int64 d" and b: "0 < b"
  have "\<bar>d\<bar> div b \<le> \<bar>d\<bar>" using zdiv_mono2 [of "\<bar>d\<bar>" 1 b] b by simp
  moreover have "0 \<le> \<bar>d\<bar> div b" using b by (simp add: pos_imp_zdiv_nonneg_iff)
  ultimately show ?thesis using d b by (auto simp: godiv_def is_int64_def go_defs sgn_if)
qed

lemma Seconds_nonneg: "0 \<le> d \<Longrightarrow> is_int64 d \<Longrightarrow> fle (Fin 0) (Seconds d)"
proof -
  assume d: "0 \<le> d" "is_int64 d"
  have q: "godiv d Second = d div Second" "gomod d Second = d mod Second"
    using d by (simp_all add: godiv_pos gomod_pos Second_def)
  have "fle (Fin 0) (f64_of_int (d div Second))" "fle (Fin 0) (f64_of_int (d mod Second))"
    unfolding f64_of_int_def using d(1) by (auto intro!: rnd_nonneg simp: Second_def pos_imp_zdiv_nonneg_iff)
  moreover have "f64_of_int (d mod Second) = Fin (of_int (d mod Second))"
    using pos_mod_bound [of Second d] pos_mod_sign [of Second d] by (intro f64_of_int_fin) (simp add: Second_def)
  ultimately show ?thesis unfolding Seconds_def q
    by (intro fadd_nonneg_ext fdiv_nonneg) (auto simp: rnd_numeral)
qed

lemma Hours_nonneg: "0 \<le> d \<Longrightarrow> is_int64 d \<Longrightarrow> fle (Fin 0) (Hours d)"
proof -
  assume d: "0 \<le> d" "is_int64 d"
  have q: "godiv d Hour = d div Hour" "gomod d Hour = d mod Hour"
    using d by (simp_all add: godiv_pos gomod_pos go_defs)
  have "fle (Fin 0) (f64_of_int (d div Hour))" "fle (Fin 0) (f64_of_int (d mod Hour))"
    unfolding f64_of_int_def using d(1) by (auto intro!: rnd_nonneg simp: go_defs pos_imp_zdiv_nonneg_iff)
  moreover have "f64_of_int (d mod Hour) = Fin (of_int (d mod Hour))"
    using pos_mod_bound [of Hour d] pos_mod_sign [of Hour d] by (intro f64_of_int_fin) (simp add: go_defs)
  ultimately show ?thesis unfolding Hours_def q
    by (intro fadd_nonneg_ext fdiv_nonneg) (auto simp: rnd_numeral)
qed

section \<open>The calendar\<close>

definition days_before_year :: "int \<Rightarrow> int" where
  "days_before_year y = 365 * (y - 1) + (y - 1) div 4 - (y - 1) div 100 + (y - 1) div 400"

definition year_of_day :: "int \<Rightarrow> int" where
  "year_of_day d = (let y = d * 400 div 146097 + 1
                    in if days_before_year (y + 1) \<le> d then y + 1 else y)"

definition is_leap :: "int \<Rightarrow> bool" where
  "is_leap y \<longleftrightarrow> y mod 4 = 0 \<and> y mod 100 \<noteq> 0 \<or> y mod 400 = 0"

definition month_starts :: "int \<Rightarrow> int list" where
  "month_starts y = (let l = (if is_leap y then 1 else 0)
     in [0, 31, 59 + l, 90 + l, 120 + l, 151 + l, 181 + l, 212 + l, 243 + l, 273 + l, 304 + l, 334 + l])"

definition monthOf :: "time \<Rightarrow> time" where
  "monthOf t = (let d = t div Day; y = year_of_day d; b = days_before_year y
                in (b + last (filter (\<lambda>s. s \<le> d - b) (month_starts y))) * Day)"

lemma days_before_year_linear:
  "400 * days_before_year (m + 1) \<le> 146097 * m + 396" "146097 * m - 699 \<le> 400 * days_before_year (m + 1)"
proof -
  have "4 * (m div 4) \<le> m" "m - 3 \<le> 4 * (m div 4)" "100 * (m div 100) \<le> m" "m - 99 \<le> 100 * (m div 100)"
    "400 * (m div 400) \<le> m" "m - 399 \<le> 400 * (m div 400)" by presburger+
  then show "400 * days_before_year (m + 1) \<le> 146097 * m + 396" "146097 * m - 699 \<le> 400 * days_before_year (m + 1)"
    unfolding days_before_year_def by simp_all
qed

lemma year_of_day_bounds: "days_before_year (year_of_day d) \<le> d \<and> d < days_before_year (year_of_day d + 1)"
proof -
  define m where "m = d * 400 div 146097"
  define r where "r = d * 400 mod 146097"
  have r: "d * 400 = m * 146097 + r" "0 \<le> r" "r < 146097" unfolding m_def r_def by simp_all
  have m: "146097 * m \<le> 400 * d" using r by linarith
  have m': "400 * d < 146097 * m + 146097" using r by linarith
  have "days_before_year (m + 1) \<le> d" using m days_before_year_linear(1) [of m] by linarith
  moreover have "d < days_before_year (m + 3)" using m' days_before_year_linear(2) [of "m + 2"] by (simp add: add.commute)
  ultimately show ?thesis unfolding year_of_day_def m_def [symmetric] Let_def by (simp add: add.commute)
qed

lemma div100_step: "(u::int) + 1 \<le> v \<Longrightarrow> v div 100 \<le> u div 100 + (v - u)"
  by linarith

lemma days_before_year_mono: "y \<le> z \<Longrightarrow> days_before_year y \<le> days_before_year z"
proof (cases "y = z")
  case False
  assume "y \<le> z"
  with False have yz: "y - 1 + 1 \<le> z - 1" by simp
  have "(y - 1) div 4 \<le> (z - 1) div 4" "(y - 1) div 400 \<le> (z - 1) div 400"
    using yz by (simp_all add: zdiv_mono1)
  moreover have "(z - 1) div 100 \<le> (y - 1) div 100 + ((z - 1) - (y - 1))"
    by (rule div100_step [OF yz])
  ultimately show ?thesis using yz unfolding days_before_year_def by simp
qed simp

lemma year_of_day_mono: "d \<le> d' \<Longrightarrow> year_of_day d \<le> year_of_day d'"
  using year_of_day_bounds [of d] year_of_day_bounds [of d']
    days_before_year_mono [of "year_of_day d' + 1" "year_of_day d"] by fastforce

lemma month_start_sel:
  assumes "0 \<le> x"
  shows "last (filter (\<lambda>s. s \<le> x) (month_starts y)) \<in> set (month_starts y)"
    and "0 \<le> last (filter (\<lambda>s. s \<le> x) (month_starts y))"
    and "last (filter (\<lambda>s. s \<le> x) (month_starts y)) \<le> x"
proof -
  have "filter (\<lambda>s. s \<le> x) (month_starts y) \<noteq> []" using assms by (simp add: month_starts_def Let_def)
  from last_in_set [OF this] have "last (filter (\<lambda>s. s \<le> x) (month_starts y)) \<in> {s \<in> set (month_starts y). s \<le> x}" by simp
  then show "last (filter (\<lambda>s. s \<le> x) (month_starts y)) \<in> set (month_starts y)"
    "0 \<le> last (filter (\<lambda>s. s \<le> x) (month_starts y))" "last (filter (\<lambda>s. s \<le> x) (month_starts y)) \<le> x"
    by (auto simp: month_starts_def Let_def)
qed

lemma sorted_le_last: "sorted xs \<Longrightarrow> x \<in> set xs \<Longrightarrow> x \<le> last xs"
  by (induction xs) auto

lemma last_filter_mono:
  assumes s: "sorted xs" and ne: "filter (\<lambda>s. s \<le> x) xs \<noteq> []" and xy: "x \<le> y"
  shows "last (filter (\<lambda>s. s \<le> x) xs) \<le> last (filter (\<lambda>s. s \<le> (y :: int)) xs)"
proof (rule sorted_le_last)
  show "sorted (filter (\<lambda>s. s \<le> y) xs)" using s by (rule sorted_wrt_filter)
  show "last (filter (\<lambda>s. s \<le> x) xs) \<in> set (filter (\<lambda>s. s \<le> y) xs)"
    using last_in_set [OF ne] xy by simp
qed

lemma month_starts_sorted: "sorted (month_starts y)"
  by (simp add: month_starts_def Let_def)

lemma month_floor: "monthOf t \<le> t"
proof -
  let ?d = "t div Day" and ?b = "days_before_year (year_of_day (t div Day))"
  have "0 \<le> ?d - ?b" using year_of_day_bounds [of ?d] by simp
  from month_start_sel(3) [OF this, of "year_of_day ?d"]
  have "monthOf t \<le> ?d * Day" by (simp add: monthOf_def Let_def duration_defs)
  also have "?d * Day \<le> t" by (simp add: duration_defs)
  finally show ?thesis .
qed

lemma monthOf_mono:
  assumes "t \<le> t'" shows "monthOf t \<le> monthOf t'"
proof -
  let ?d = "t div Day" and ?d' = "t' div Day"
  let ?y = "year_of_day ?d" and ?y' = "year_of_day ?d'"
  have d: "?d \<le> ?d'" using assms by (simp add: zdiv_mono1 duration_defs)
  have b: "0 \<le> ?d - days_before_year ?y" "0 \<le> ?d' - days_before_year ?y'"
    using year_of_day_bounds by simp_all
  show ?thesis
  proof (cases "?y = ?y'")
    case True
    have "filter (\<lambda>s. s \<le> ?d - days_before_year ?y) (month_starts ?y) \<noteq> []"
      using b(1) by (simp add: month_starts_def Let_def)
    from last_filter_mono [OF month_starts_sorted this, of "?d' - days_before_year ?y"] d True
    show ?thesis by (simp add: monthOf_def Let_def duration_defs)
  next
    case False
    with year_of_day_mono [OF d] have y: "?y + 1 \<le> ?y'" by simp
    have "days_before_year ?y + last (filter (\<lambda>s. s \<le> ?d - days_before_year ?y) (month_starts ?y)) \<le> ?d"
      using month_start_sel(3) [OF b(1), of ?y] by simp
    also have "?d \<le> days_before_year ?y'"
      using year_of_day_bounds [of ?d] days_before_year_mono [OF y] by linarith
    also have "\<dots> \<le> days_before_year ?y' + last (filter (\<lambda>s. s \<le> ?d' - days_before_year ?y') (month_starts ?y'))"
      using month_start_sel(2) [OF b(2), of ?y'] by simp
    finally show ?thesis by (simp add: monthOf_def Let_def duration_defs)
  qed
qed

lemmas monthOf_eval = monthOf_def year_of_day_def days_before_year_def month_starts_def is_leap_def duration_defs Let_def

end
