(* ===== verification/Gates.thy ===== *)
theory Gates
  imports GoTime
begin

text \<open>
  The contract of an admission gate, shared by the budget tracker's once-per-month hooks and by
  the notification throttle's per-type cooldown: a request names a key and carries the current
  time, and the gate either admits it and remembers the time for that key, or refuses it and
  remembers nothing.  \<open>conflict u t\<close> says that an admission at \<open>u\<close> forbids one at \<open>t\<close>
  (same calendar month; within the cooldown).  From the laws of one step the locale derives the
  guarantee for whole runs under a clock that does not go back: no two admitted requests for the
  same key conflict, however many other requests lie between them.
\<close>

text \<open>The admitted requests of a run, in order.\<close>

fun admitted :: "('s \<Rightarrow> 'k \<Rightarrow> time \<Rightarrow> 's \<times> bool) \<Rightarrow> 's \<Rightarrow> ('k \<times> time) list \<Rightarrow> ('k \<times> time) list" where
  "admitted step s [] = []"
| "admitted step s ((k, t) # rs) =
     (case step s k t of (s', b) \<Rightarrow> if b then (k, t) # admitted step s' rs else admitted step s' rs)"

lemma admitted_subset: "set (admitted step s rs) \<subseteq> set rs"
proof (induction rs arbitrary: s)
  case Nil
  then show ?case by simp
next
  case (Cons r rs)
  obtain k t where r: "r = (k, t)" by fastforce
  obtain s' b where "step s k t = (s', b)" by fastforce
  then show ?case using Cons.IH [of s'] by (auto simp: r)
qed

fun gate_final :: "('s \<Rightarrow> 'k \<Rightarrow> time \<Rightarrow> 's \<times> bool) \<Rightarrow> 's \<Rightarrow> ('k \<times> time) list \<Rightarrow> 's" where
  "gate_final step s [] = s"
| "gate_final step s ((k, t) # rs) = gate_final step (fst (step s k t)) rs"

lemma admitted_append:
  "admitted step s (rs @ rs') = admitted step s rs @ admitted step (gate_final step s rs) rs'"
  by (induction step s rs rule: admitted.induct) (auto split: prod.splits)

locale admission_gate =
  fixes step :: "'s \<Rightarrow> 'k \<Rightarrow> time \<Rightarrow> 's \<times> bool"
    and last_at :: "'s \<Rightarrow> 'k \<Rightarrow> time option"
    and conflict :: "time \<Rightarrow> time \<Rightarrow> bool"
    and invar :: "'s \<Rightarrow> bool"
  assumes invar_step: "invar s \<Longrightarrow> step s k t = (s', b) \<Longrightarrow> invar s'"
    and admitted_last: "invar s \<Longrightarrow> step s k t = (s', True) \<Longrightarrow> last_at s' k = Some t"
    and other_last: "invar s \<Longrightarrow> step s k t = (s', b) \<Longrightarrow> k' \<noteq> k \<or> \<not> b \<Longrightarrow> last_at s' k' = last_at s k'"
    and admitted_free: "invar s \<Longrightarrow> step s k t = (s', True) \<Longrightarrow> last_at s k = Some u \<Longrightarrow> \<not> conflict u t"
    and conflict_later: "u \<le> v \<Longrightarrow> v \<le> t \<Longrightarrow> conflict u t \<Longrightarrow> conflict v t"
begin

text \<open>While the clock does not go back, later admissions of a key respect its last admission.\<close>

lemma admitted_after_last:
  assumes "invar s" "last_at s k = Some u" "\<forall>(_, t) \<in> set rs. u \<le> t"
    "sorted (map snd rs)" "(k, t) \<in> set (admitted step s rs)"
  shows "\<not> conflict u t"
  using assms
proof (induction rs arbitrary: s u)
  case Nil
  then show ?case by simp
next
  case (Cons r rs)
  obtain k' t' where r: "r = (k', t')" by fastforce
  obtain s' b where st: "step s k' t' = (s', b)" by fastforce
  have inv: "invar s'" by (rule invar_step [OF Cons.prems(1) st])
  show ?case
  proof (cases "b \<and> k' = k")
    case True
    with st have st': "step s k t' = (s', True)" by simp
    have l: "last_at s' k = Some t'" by (rule admitted_last [OF Cons.prems(1) st'])
    have nc: "\<not> conflict u t'" by (rule admitted_free [OF Cons.prems(1) st' Cons.prems(2)])
    show ?thesis
    proof
      assume c: "conflict u t"
      with nc have "t \<noteq> t'" by auto
      with Cons.prems(5) r st True have m: "(k, t) \<in> set (admitted step s' rs)" by auto
      with admitted_subset [of step s' rs] have "(k, t) \<in> set rs" by blast
      with Cons.prems(3,4) r have "u \<le> t'" "t' \<le> t" by force+
      then have "conflict t' t" using c by (rule conflict_later)
      moreover have "\<not> conflict t' t"
        by (rule Cons.IH [OF inv l _ _ m]) (use Cons.prems(3,4) r in \<open>force+\<close>)
      ultimately show False by simp
    qed
  next
    case False
    then have l: "last_at s' k = Some u"
      using other_last [OF Cons.prems(1) st, of k] Cons.prems(2) by auto
    from False Cons.prems(5) r st have m: "(k, t) \<in> set (admitted step s' rs)" by (auto split: if_splits)
    show ?thesis by (rule Cons.IH [OF inv l _ _ m]) (use Cons.prems(3,4) r in auto)
  qed
qed

text \<open>No two admissions of one key conflict.\<close>

theorem admitted_conflict_free:
  assumes "invar s" "sorted (map snd rs)" "admitted step s rs = xs @ (k, u) # ys" "(k, t) \<in> set ys"
  shows "\<not> conflict u t"
  using assms
proof (induction rs arbitrary: s xs)
  case Nil
  then show ?case by simp
next
  case (Cons r rs)
  obtain k' t' where r: "r = (k', t')" by fastforce
  obtain s' b where st: "step s k' t' = (s', b)" by fastforce
  have inv: "invar s'" by (rule invar_step [OF Cons.prems(1) st])
  from Cons.prems(2) r have so: "sorted (map snd rs)" "\<forall>(_, t) \<in> set rs. t' \<le> t" by auto
  show ?case
  proof (cases "b \<and> xs = []")
    case True
    with Cons.prems(3) r st have eq: "k' = k" "t' = u" "ys = admitted step s' rs" by auto
    with st True have "step s k u = (s', True)" by simp
    from admitted_last [OF Cons.prems(1) this] have l: "last_at s' k = Some u" .
    show ?thesis
      by (rule admitted_after_last [OF inv l _ so(1)]) (use so(2) eq Cons.prems(4) in auto)
  next
    case False
    with Cons.prems(3) r st have "\<exists>zs. admitted step s' rs = zs @ (k, u) # ys"
      by (cases xs) (auto split: if_splits)
    then obtain zs where "admitted step s' rs = zs @ (k, u) # ys" ..
    then show ?thesis by (rule Cons.IH [OF inv so(1) _ Cons.prems(4)])
  qed
qed

end

end
