(* ===== verification/Budget.thy ===== *)
theory Budget
  imports Gates
begin

text \<open>
  \<^verbatim>\<open>internal/orchestrator/budget.go\<close>: the monthly budget tracker.  The spend store and the fallback
  actions are interfaces whose implementations are outside this component: a refresh takes what
  the store returned and a function \<open>act\<close> that says what each action call returns during it.
  The result of \<open>fireOnce\<close> and \<open>Refresh\<close> includes the hooks that fired with the actions that
  were called, in order.  The mutex only serialises the accesses, which the state passing does too.
\<close>

section \<open>Model\<close>

datatype BudgetState = BudgetHealthy | BudgetTight | BudgetBreached

fun budget_rank :: "BudgetState \<Rightarrow> nat" where
  "budget_rank BudgetHealthy = 0"
| "budget_rank BudgetTight = 1"
| "budget_rank BudgetBreached = 2"

lemma budget_rank_inject [simp]: "budget_rank x = budget_rank y \<longleftrightarrow> x = y"
  by (cases x; cases y) auto

instantiation BudgetState :: linorder
begin

definition less_eq_BudgetState :: "BudgetState \<Rightarrow> BudgetState \<Rightarrow> bool" where
  "less_eq_BudgetState x y \<longleftrightarrow> budget_rank x \<le> budget_rank y"

definition less_BudgetState :: "BudgetState \<Rightarrow> BudgetState \<Rightarrow> bool" where
  "less_BudgetState x y \<longleftrightarrow> budget_rank x < budget_rank y"

instance
  by standard (auto simp: less_eq_BudgetState_def less_BudgetState_def)

end

datatype budget_action = HalveStrategistFrequencies | DisableShadowStrategists | FreezeOffspringProposals

record BudgetConfig =
  MonthlyBudgetUSD :: f64
  TightThreshold :: f64
  BreachedThreshold :: f64
  RefreshInterval :: duration

record BudgetTracker =
  bt_cfg :: BudgetConfig
  bt_actions :: bool
  cachedState :: BudgetState
  cachedSpend :: f64
  fireHistory :: "BudgetState \<Rightarrow> time option"

definition NewBudgetTracker :: "bool \<Rightarrow> bool \<Rightarrow> BudgetConfig \<Rightarrow> BudgetTracker result" where
  "NewBudgetTracker store actions cfg =
     (if \<not> store then Fail ''budget: nil store'' else
      let c1 = (if fle (MonthlyBudgetUSD cfg) (Fin 0) then cfg\<lparr>MonthlyBudgetUSD := rnd 100\<rparr> else cfg);
          c2 = (if fle (TightThreshold c1) (Fin 0) then c1\<lparr>TightThreshold := rnd (80 / 100)\<rparr> else c1);
          c3 = (if fle (BreachedThreshold c2) (Fin 0) then c2\<lparr>BreachedThreshold := rnd 1\<rparr> else c2)
      in if fle (BreachedThreshold c3) (TightThreshold c3)
         then Fail ''budget: tight threshold must be < breached''
         else
           let c4 = (if RefreshInterval c3 \<le> 0 then c3\<lparr>RefreshInterval := 60 * Second\<rparr> else c3)
           in Ok \<lparr>bt_cfg = c4, bt_actions = actions, cachedState = BudgetHealthy, cachedSpend = Fin 0,
                  fireHistory = (\<lambda>_. None)\<rparr>)"

definition classify :: "BudgetTracker \<Rightarrow> f64 \<Rightarrow> BudgetState" where
  "classify b spend =
     (let tight = fmul (MonthlyBudgetUSD (bt_cfg b)) (TightThreshold (bt_cfg b));
          breach = fmul (MonthlyBudgetUSD (bt_cfg b)) (BreachedThreshold (bt_cfg b))
      in if fle breach spend then BudgetBreached
         else if fle tight spend then BudgetTight
         else BudgetHealthy)"

type_synonym act_env = "budget_action \<Rightarrow> error option"
type_synonym hook = "BudgetState \<times> budget_action list"

text \<open>The switch of \<open>fireOnce\<close>: the actions called, and the error of the one that failed.\<close>

fun run_hooks :: "act_env \<Rightarrow> BudgetState \<Rightarrow> budget_action list \<times> error option" where
  "run_hooks act BudgetTight =
     (case act HalveStrategistFrequencies of
        Some e \<Rightarrow> ([HalveStrategistFrequencies], Some (Wrap ''budget: halve frequencies'' e))
      | None \<Rightarrow>
         (case act DisableShadowStrategists of
            Some e \<Rightarrow> ([HalveStrategistFrequencies, DisableShadowStrategists], Some (Wrap ''budget: disable shadow'' e))
          | None \<Rightarrow> ([HalveStrategistFrequencies, DisableShadowStrategists], None)))"
| "run_hooks act BudgetBreached =
     (case act FreezeOffspringProposals of
        Some e \<Rightarrow> ([FreezeOffspringProposals], Some (Wrap ''budget: freeze offspring'' e))
      | None \<Rightarrow> ([FreezeOffspringProposals], None))"
| "run_hooks act BudgetHealthy = ([], None)"

definition hook_due :: "BudgetTracker \<Rightarrow> BudgetState \<Rightarrow> time \<Rightarrow> bool" where
  "hook_due b st now = (case fireHistory b st of None \<Rightarrow> True | Some prev \<Rightarrow> monthOf prev \<noteq> monthOf now)"

definition fireOnce :: "act_env \<Rightarrow> BudgetTracker \<Rightarrow> BudgetState \<Rightarrow> time
    \<Rightarrow> BudgetTracker \<times> hook list \<times> error option" where
  "fireOnce act b st now =
     (if \<not> hook_due b st now then (b, [], None)
      else let b' = b\<lparr>fireHistory := (fireHistory b)(st := Some now)\<rparr>
           in if \<not> bt_actions b then (b', [(st, [])], None)
              else case run_hooks act st of (calls, e) \<Rightarrow> (b', [(st, calls)], e))"

definition Refresh :: "act_env \<Rightarrow> f64 result \<Rightarrow> time \<Rightarrow> BudgetTracker
    \<Rightarrow> BudgetTracker \<times> hook list \<times> BudgetState \<times> error option" where
  "Refresh act spend now b =
     (case spend of
        Inl e \<Rightarrow> (b, [], BudgetHealthy, Some (Wrap ''budget.Refresh'' e))
      | Inr s \<Rightarrow>
         (let state = classify b s; b1 = b\<lparr>cachedSpend := s, cachedState := state\<rparr>
          in case state of
               BudgetBreached \<Rightarrow>
                 (case fireOnce act b1 BudgetBreached now of
                    (b2, h, Some e) \<Rightarrow> (b2, h, state, Some e)
                  | (b2, h, None) \<Rightarrow>
                     (case fireOnce act b2 BudgetTight now of (b3, h', e) \<Rightarrow> (b3, h @ h', state, e)))
             | BudgetTight \<Rightarrow> (case fireOnce act b1 BudgetTight now of (b2, h, e) \<Rightarrow> (b2, h, state, e))
             | BudgetHealthy \<Rightarrow> (b1, [], state, None)))"

text \<open>A sequence of refreshes, as \<open>Run\<close> makes them, and the hooks that fired with their times.\<close>

fun refresh_run :: "BudgetTracker \<Rightarrow> (act_env \<times> f64 result \<times> time) list \<Rightarrow> (BudgetState \<times> time \<times> budget_action list) list" where
  "refresh_run b [] = []"
| "refresh_run b ((act, spend, now) # evs) =
     (case Refresh act spend now b of
        (b', hs, _, _) \<Rightarrow> map (\<lambda>(st, calls). (st, now, calls)) hs @ refresh_run b' evs)"

section \<open>Threshold classification\<close>

lemma classify_mono: "fle s s' \<Longrightarrow> classify b s \<le> classify b s'"
  by (auto simp: classify_def Let_def less_eq_BudgetState_def intro: fle_trans)

lemma NewBudgetTracker_cfg:
  assumes "NewBudgetTracker st ac cfg = Ok b"
  shows "\<not> fle (BreachedThreshold (bt_cfg b)) (TightThreshold (bt_cfg b))"
    and "\<not> fle (MonthlyBudgetUSD (bt_cfg b)) (Fin 0)" "\<not> fle (TightThreshold (bt_cfg b)) (Fin 0)"
    and "0 < RefreshInterval (bt_cfg b)" "fireHistory b = (\<lambda>_. None)" "cachedState b = BudgetHealthy"
proof -
  have "\<not> fle (rnd (80 / 100)) (Fin 0)" "\<not> fle (rnd 100) (Fin 0)"
    using rnd_pos [of "80 / 100"] rnd_pos [of 100] flt_asym by (auto simp: )
  then show "\<not> fle (BreachedThreshold (bt_cfg b)) (TightThreshold (bt_cfg b))"
    "\<not> fle (MonthlyBudgetUSD (bt_cfg b)) (Fin 0)" "\<not> fle (TightThreshold (bt_cfg b)) (Fin 0)"
    "0 < RefreshInterval (bt_cfg b)" "fireHistory b = (\<lambda>_. None)" "cachedState b = BudgetHealthy"
    using assms by (auto simp: NewBudgetTracker_def Let_def Second_def split: if_splits)
qed

section \<open>Once per month\<close>

definition budget_gate :: "BudgetTracker \<Rightarrow> BudgetState \<Rightarrow> time \<Rightarrow> BudgetTracker \<times> bool" where
  "budget_gate b st now = (fst (fireOnce (\<lambda>_. None) b st now), hook_due b st now)"

lemma budget_gate_eq:
  "budget_gate b st now =
     (if hook_due b st now then (b\<lparr>fireHistory := (fireHistory b)(st := Some now)\<rparr>, True) else (b, False))"
  by (auto simp: budget_gate_def fireOnce_def Let_def split: prod.splits)

lemma fireOnce_due:
  "hook_due b st now \<Longrightarrow>
   \<exists>calls e. fireOnce act b st now = (b\<lparr>fireHistory := (fireHistory b)(st := Some now)\<rparr>, [(st, calls)], e)"
  by (auto simp: fireOnce_def Let_def split: prod.splits)

lemma fireOnce_not_due: "\<not> hook_due b st now \<Longrightarrow> fireOnce act b st now = (b, [], None)"
  by (simp add: fireOnce_def)

lemma hook_due_history: "fireHistory b = fireHistory b' \<Longrightarrow> hook_due b st now = hook_due b' st now"
  by (simp add: hook_due_def)

interpretation month_gate: admission_gate budget_gate fireHistory "\<lambda>u t. monthOf u = monthOf t" "\<lambda>_. True"
proof
  fix u v t :: time
  assume "u \<le> v" "v \<le> t" "monthOf u = monthOf t"
  then show "monthOf v = monthOf t" using monthOf_mono [of u v] monthOf_mono [of v t] by simp
qed (auto simp: budget_gate_eq hook_due_def split: if_splits option.splits)

fun refresh_requests :: "act_env \<Rightarrow> f64 result \<Rightarrow> time \<Rightarrow> BudgetTracker \<Rightarrow> (BudgetState \<times> time) list" where
  "refresh_requests act (Inl e) now b = []"
| "refresh_requests act (Inr s) now b =
     (case classify b s of
        BudgetBreached \<Rightarrow>
          (BudgetBreached, now) #
            (if snd (snd (fireOnce act (b\<lparr>cachedSpend := s, cachedState := BudgetBreached\<rparr>) BudgetBreached now)) = None
             then [(BudgetTight, now)] else [])
      | BudgetTight \<Rightarrow> [(BudgetTight, now)]
      | BudgetHealthy \<Rightarrow> [])"

fun run_requests :: "BudgetTracker \<Rightarrow> (act_env \<times> f64 result \<times> time) list \<Rightarrow> (BudgetState \<times> time) list" where
  "run_requests b [] = []"
| "run_requests b ((act, spend, now) # evs) =
     refresh_requests act spend now b @ run_requests (fst (Refresh act spend now b)) evs"

lemma budget_gate_history:
  "fireHistory b = fireHistory b' \<Longrightarrow>
     snd (budget_gate b st t) = snd (budget_gate b' st t) \<and>
     fireHistory (fst (budget_gate b st t)) = fireHistory (fst (budget_gate b' st t))"
  by (simp add: budget_gate_eq hook_due_history [of b b'])

lemma admitted_history:
  "fireHistory b = fireHistory b' \<Longrightarrow> admitted budget_gate b rs = admitted budget_gate b' rs"
proof (induction rs arbitrary: b b')
  case (Cons r rs)
  obtain st t where r: "r = (st, t)" by fastforce
  obtain c d where g: "budget_gate b st t = (c, d)" by fastforce
  obtain c' d' where g': "budget_gate b' st t = (c', d')" by fastforce
  from budget_gate_history [OF Cons.prems, of st t] g g' have "d = d'" "fireHistory c = fireHistory c'" by auto
  with Cons.IH [of c c'] g g' show ?case by (simp add: r)
qed simp

lemma gate_final_history:
  "fireHistory b = fireHistory b' \<Longrightarrow> fireHistory (gate_final budget_gate b rs) = fireHistory (gate_final budget_gate b' rs)"
proof (induction rs arbitrary: b b')
  case (Cons r rs)
  obtain st t where r: "r = (st, t)" by fastforce
  from budget_gate_history [OF Cons.prems, of st t]
  have "fireHistory (fst (budget_gate b st t)) = fireHistory (fst (budget_gate b' st t))" ..
  from Cons.IH [OF this] show ?case by (simp add: r)
qed simp

lemma Refresh_gate:
  assumes "Refresh act spend now b = (b', hs, st, e)"
  shows "map (\<lambda>(st, _). (st, now)) hs = admitted budget_gate b (refresh_requests act spend now b) \<and>
         fireHistory b' = fireHistory (gate_final budget_gate b (refresh_requests act spend now b))"
proof (cases spend)
  case (Inl err)
  with assms show ?thesis by (auto simp: Refresh_def)
next
  case (Inr s)
  define c where "c = classify b s"
  define b1 where "b1 = b\<lparr>cachedSpend := s, cachedState := c\<rparr>"
  have h: "fireHistory b1 = fireHistory b" by (simp add: b1_def)
  have R: "Refresh act spend now b = (case c of
       BudgetBreached \<Rightarrow>
         (case fireOnce act b1 BudgetBreached now of
            (b2, h, Some e) \<Rightarrow> (b2, h, c, Some e)
          | (b2, h, None) \<Rightarrow>
             (case fireOnce act b2 BudgetTight now of (b3, h', e) \<Rightarrow> (b3, h @ h', c, e)))
     | BudgetTight \<Rightarrow> (case fireOnce act b1 BudgetTight now of (b2, h, e) \<Rightarrow> (b2, h, c, e))
     | BudgetHealthy \<Rightarrow> (b1, [], c, None))"
    by (simp only: Refresh_def Inr sum.case Let_def c_def b1_def)
  have G: "admitted budget_gate b rs = admitted budget_gate b1 rs"
    "fireHistory (gate_final budget_gate b rs) = fireHistory (gate_final budget_gate b1 rs)" for rs
    by (simp_all add: admitted_history [OF h] gate_final_history [OF h])
  show ?thesis
  proof (cases c)
    case BudgetHealthy
    with assms R show ?thesis by (auto simp: Inr c_def h)
  next
    case BudgetTight
    with assms R show ?thesis
      using fireOnce_due [of b1 BudgetTight now act] fireOnce_not_due [of b1 BudgetTight now act]
      unfolding G by (cases "hook_due b1 BudgetTight now") (auto simp: Inr c_def budget_gate_eq)
  next
    case BudgetBreached
    obtain b2 h2 e2 where f: "fireOnce act b1 BudgetBreached now = (b2, h2, e2)" by (metis prod_cases3)
    have b1': "b\<lparr>cachedSpend := s, cachedState := BudgetBreached\<rparr> = b1" by (simp add: b1_def BudgetBreached)
    have q: "refresh_requests act spend now b = (BudgetBreached, now) # (if e2 = None then [(BudgetTight, now)] else [])"
      using BudgetBreached f by (simp add: Inr c_def [symmetric] b1')
    have g2: "budget_gate b1 BudgetBreached now = (b2, h2 \<noteq> [])" "map (\<lambda>(st, _). (st, now)) h2 = (if h2 \<noteq> [] then [(BudgetBreached, now)] else [])"
      using f fireOnce_due [of b1 BudgetBreached now act] fireOnce_not_due [of b1 BudgetBreached now act]
      by (cases "hook_due b1 BudgetBreached now"; auto simp: budget_gate_eq)+
    obtain b3 h3 e3 where f3: "fireOnce act b2 BudgetTight now = (b3, h3, e3)" by (metis prod_cases3)
    have g3: "budget_gate b2 BudgetTight now = (b3, h3 \<noteq> [])" "map (\<lambda>(st, _). (st, now)) h3 = (if h3 \<noteq> [] then [(BudgetTight, now)] else [])"
      using f3 fireOnce_due [of b2 BudgetTight now act] fireOnce_not_due [of b2 BudgetTight now act]
      by (cases "hook_due b2 BudgetTight now"; auto simp: budget_gate_eq)+
    from assms R BudgetBreached f f3 show ?thesis unfolding G q
      using g2 g3 by (cases e2) auto
  qed
qed

lemma run_gate:
  "map (\<lambda>(st, t, _). (st, t)) (refresh_run b evs) = admitted budget_gate b (run_requests b evs)"
proof (induction evs arbitrary: b)
  case (Cons ev evs)
  obtain act spend now where ev: "ev = (act, spend, now)" by (metis prod_cases3)
  obtain b' hs st e where R: "Refresh act spend now b = (b', hs, st, e)" by (metis prod_cases4)
  have "map ((\<lambda>(st, t, _). (st, t)) \<circ> (\<lambda>(st, calls). (st, now, calls))) hs = map (\<lambda>(st, _). (st, now)) hs" by auto
  then show ?case using Refresh_gate [OF R] Cons.IH [of b']
      admitted_history [of b' "gate_final budget_gate b (refresh_requests act spend now b)"]
    by (simp add: ev R admitted_append)
qed simp

lemma refresh_requests_now: "(st, t) \<in> set (refresh_requests act spend now b) \<Longrightarrow> t = now"
  by (cases spend) (auto split: BudgetState.splits if_splits)

lemma sorted_run_requests:
  "sorted (map (\<lambda>(_, _, t). t) evs) \<Longrightarrow> sorted (map snd (run_requests b evs)) \<and>
     snd ` set (run_requests b evs) \<subseteq> (\<lambda>(_, _, t). t) ` set evs"
proof (induction evs arbitrary: b)
  case (Cons ev evs)
  obtain act spend now where ev: "ev = (act, spend, now)" by (metis prod_cases3)
  let ?rq = "refresh_requests act spend now b" and ?b = "fst (Refresh act spend now b)"
  have n: "\<forall>x \<in> set (map snd ?rq). x = now" by (auto dest: refresh_requests_now)
  then have "map snd ?rq = replicate (length ?rq) now" by (metis length_map replicate_eqI)
  moreover from Cons ev have "sorted (map snd (run_requests ?b evs))"
    "snd ` set (run_requests ?b evs) \<subseteq> (\<lambda>(_, _, t). t) ` set evs" "\<forall>t \<in> (\<lambda>(_, _, t). t) ` set evs. now \<le> t" by auto
  moreover from n have "snd ` set ?rq \<subseteq> {now}" by auto
  moreover have "\<forall>t \<in> snd ` set (run_requests ?b evs). now \<le> t" using calculation(3,4) by blast
  ultimately show ?case by (auto simp: ev sorted_append)
qed simp

section \<open>Properties\<close>

text \<open>
  C14: however the spend oscillates and whichever actions fail, in any run of refreshes under a
  clock that does not go back, the hook of one state never fires twice in the same calendar month
  (the claim of the comments on \<^verbatim>\<open>BudgetTracker\<close> and \<^verbatim>\<open>Refresh\<close>).
\<close>

theorem budget_hook_once_per_month:
  assumes "sorted (map (\<lambda>(_, _, t). t) evs)"
    and "refresh_run b evs = xs @ (st, u, cs) # ys" and "(st, t, cs') \<in> set ys"
  shows "monthOf u \<noteq> monthOf t"
proof -
  have "admitted budget_gate b (run_requests b evs) =
      map (\<lambda>(st, t, _). (st, t)) xs @ (st, u) # map (\<lambda>(st, t, _). (st, t)) ys"
    unfolding run_gate [symmetric] assms(2) by simp
  moreover have "(st, t) \<in> set (map (\<lambda>(st, t, _). (st, t)) ys)" using assms(3) by force
  ultimately show ?thesis
    using month_gate.admitted_conflict_free sorted_run_requests [OF assms(1)] by blast
qed

definition sample_tracker :: BudgetTracker where
  "sample_tracker = \<lparr>bt_cfg = \<lparr>MonthlyBudgetUSD = Fin 100, TightThreshold = Fin (1 / 2),
      BreachedThreshold = Fin 1, RefreshInterval = 60000000000\<rparr>, bt_actions = True,
    cachedState = BudgetHealthy, cachedSpend = Fin 0, fireHistory = (\<lambda>_. None)\<rparr>"

text \<open>Three refreshes at 60, 10 and 120 dollars on January 1, January 2 and February 1 of year 1.\<close>

theorem budget_hook_once_per_month_witness:
  "refresh_run sample_tracker
     [(\<lambda>_. None, Inr (Fin 60), 0), (\<lambda>_. None, Inr (Fin 10), 86400000000000),
      (\<lambda>_. None, Inr (Fin 120), 2678400000000000)] =
   [(BudgetTight, 0, [HalveStrategistFrequencies, DisableShadowStrategists]),
    (BudgetBreached, 2678400000000000, [FreezeOffspringProposals]),
    (BudgetTight, 2678400000000000, [HalveStrategistFrequencies, DisableShadowStrategists])] \<and>
   monthOf 0 \<noteq> monthOf 2678400000000000"
  (is "?run = ?log \<and> _")
proof
  have m: "monthOf 0 = 0" "monthOf 2678400000000000 = 2678400000000000" by code_simp+
  show run: "?run = ?log"
    by (simp add: Refresh_def classify_def fireOnce_def hook_due_def sample_tracker_def f64_simps m)
  show "monthOf 0 \<noteq> monthOf 2678400000000000"
  proof (rule budget_hook_once_per_month)
    show "?run = [] @ ?log" unfolding append_Nil by (rule run)
  qed simp_all
qed

text \<open>
  A tracker built by the constructor from finite settings sorts every spend into exactly one of
  three bands separated by the two products of the monthly budget with the thresholds, which are in
  order: below the first is healthy, from the first up to the second tight, from the second on
  breached.  A larger spend is never in a healthier state.
\<close>

theorem budget_bands:
  assumes "NewBudgetTracker True ac cfg = Ok b"
    and "is_fin (MonthlyBudgetUSD (bt_cfg b))" "is_fin (TightThreshold (bt_cfg b))" "is_fin (BreachedThreshold (bt_cfg b))"
    and "\<not> is_nan s"
  defines "tight \<equiv> fmul (MonthlyBudgetUSD (bt_cfg b)) (TightThreshold (bt_cfg b))"
    and "breach \<equiv> fmul (MonthlyBudgetUSD (bt_cfg b)) (BreachedThreshold (bt_cfg b))"
  shows "fle (Fin 0) tight \<and> fle tight breach \<and>
    (classify b s = BudgetHealthy \<longleftrightarrow> flt s tight) \<and>
    (classify b s = BudgetTight \<longleftrightarrow> fle tight s \<and> flt s breach) \<and>
    (classify b s = BudgetBreached \<longleftrightarrow> fle breach s) \<and>
    (fle s s' \<longrightarrow> classify b s \<le> classify b s')"
proof -
  note cfg = NewBudgetTracker_cfg(1-3) [OF assms(1)]
  have m: "fle (Fin 0) (MonthlyBudgetUSD (bt_cfg b))" "fle (Fin 0) (TightThreshold (bt_cfg b))"
    "fle (TightThreshold (bt_cfg b)) (BreachedThreshold (bt_cfg b))"
    using cfg assms(2-4) by (auto simp: fle_fin)
  have t: "fle (Fin 0) tight" unfolding tight_def by (rule fmul_nonneg [OF assms(2,3) m(1,2)])
  have tb: "fle tight breach" unfolding tight_def breach_def
    by (rule fmul_mono [OF assms(2,2,3,4) _ m(3) m(1,2)]) (simp add: is_fin_not_nan assms(2))
  from tb have "\<not> is_nan tight" "\<not> is_nan breach" by (auto dest: fle_nan)
  with assms(5) have n: "\<not> fle tight s \<longleftrightarrow> flt s tight" "\<not> fle breach s \<longleftrightarrow> flt s breach"
    by (auto simp: fle_not_flt)
  have c: "classify b s = (if fle breach s then BudgetBreached else if fle tight s then BudgetTight else BudgetHealthy)"
    by (simp add: classify_def tight_def breach_def)
  have "fle breach s \<Longrightarrow> fle tight s" using tb by (blast intro: fle_trans)
  with t tb n c show ?thesis using classify_mono [of s s' b] by auto
qed

theorem budget_bands_witness:
  "NewBudgetTracker True True
      \<lparr>MonthlyBudgetUSD = Fin 100, TightThreshold = Fin (1 / 2), BreachedThreshold = Fin 1, RefreshInterval = 0\<rparr> =
     Ok sample_tracker \<and>
   classify sample_tracker (Fin 60) = BudgetTight"
proof
  show n: "NewBudgetTracker True True
      \<lparr>MonthlyBudgetUSD = Fin 100, TightThreshold = Fin (1 / 2), BreachedThreshold = Fin 1, RefreshInterval = 0\<rparr> =
     Ok sample_tracker"
    by (simp add: NewBudgetTracker_def sample_tracker_def Second_def)
  show "classify sample_tracker (Fin 60) = BudgetTight"
    using budget_bands [OF n, of "Fin 60" "Fin 60"] by (simp add: sample_tracker_def f64_simps)
qed

text \<open>
  After a refresh that returns breached without an error, both the offspring freeze and the
  strategist-frequency hooks are on record as fired in the current month, so breached implies the
  tight measures too.
\<close>

theorem budget_breached_implies_tight:
  assumes "Refresh act spend now b = (b', hs, BudgetBreached, None)"
  shows "(\<exists>u. fireHistory b' BudgetBreached = Some u \<and> monthOf u = monthOf now) \<and>
         (\<exists>u. fireHistory b' BudgetTight = Some u \<and> monthOf u = monthOf now) \<and>
         cachedState b' = BudgetBreached"
proof -
  have rec: "\<exists>u. fireHistory c st = Some u \<and> monthOf u = monthOf now"
    if "fireOnce act a st now = (c, h, None)" for a c st h
    using that by (auto simp: fireOnce_def Let_def hook_due_def split: if_splits option.splits prod.splits)
  have keep: "fireHistory c BudgetBreached = fireHistory a BudgetBreached \<and> cachedState c = cachedState a"
    if "fireOnce act a BudgetTight now = (c, h, e)" for a c h e
    using that by (auto simp: fireOnce_def Let_def split: if_splits prod.splits)
  have keep': "cachedState c = cachedState a"
    if "fireOnce act a BudgetBreached now = (c, h, e)" for a c h e
    using that by (auto simp: fireOnce_def Let_def split: if_splits prod.splits)
  obtain s b1 b2 h2 h3 where
    "fireOnce act b1 BudgetBreached now = (b2, h2, None)" "cachedState b1 = BudgetBreached"
    "fireOnce act b2 BudgetTight now = (b', h3, None)"
    using assms by (auto simp: Refresh_def Let_def split: sum.splits BudgetState.splits prod.splits option.splits)
  then show ?thesis using rec keep keep' by metis
qed

theorem budget_breached_implies_tight_witness:
  "\<exists>b'. Refresh (\<lambda>_. None) (Inr (Fin 120)) 5 sample_tracker =
     (b', [(BudgetBreached, [FreezeOffspringProposals]),
           (BudgetTight, [HalveStrategistFrequencies, DisableShadowStrategists])], BudgetBreached, None) \<and>
     (\<exists>u. fireHistory b' BudgetTight = Some u \<and> monthOf u = monthOf 5)"
proof -
  have "\<exists>b'. Refresh (\<lambda>_. None) (Inr (Fin 120)) 5 sample_tracker =
     (b', [(BudgetBreached, [FreezeOffspringProposals]),
           (BudgetTight, [HalveStrategistFrequencies, DisableShadowStrategists])], BudgetBreached, None)"
    by (simp add: Refresh_def classify_def fireOnce_def hook_due_def sample_tracker_def f64_simps)
  then show ?thesis using budget_breached_implies_tight by meson
qed

text \<open>
  A hook is recorded as fired before its actions run, so when an action fails no refresh later
  in the same month calls it again, or the actions after it: a failed frequency cut leaves shadow
  strategists enabled until the next month.
\<close>

theorem budget_failed_hook_not_retried:
  assumes "fireOnce act b st now = (b', hs, Some e)" and "monthOf now' = monthOf now"
  shows "fireOnce act' b' st now' = (b', [], None)"
proof -
  have "fireHistory b' st = Some now"
    using assms(1) by (auto simp: fireOnce_def Let_def split: if_splits prod.splits)
  with assms(2) have "\<not> hook_due b' st now'" by (simp add: hook_due_def)
  then show ?thesis by (rule fireOnce_not_due)
qed

theorem budget_failed_hook_not_retried_witness:
  "\<exists>b' e. fireOnce (\<lambda>a. if a = HalveStrategistFrequencies then Some (Err ''rpc'') else None) sample_tracker BudgetTight 5 =
        (b', [(BudgetTight, [HalveStrategistFrequencies])], Some e) \<and>
     fireOnce (\<lambda>_. None) b' BudgetTight 6 = (b', [], None)"
proof -
  obtain b' e where f: "fireOnce (\<lambda>a. if a = HalveStrategistFrequencies then Some (Err ''rpc'') else None) sample_tracker BudgetTight 5 =
        (b', [(BudgetTight, [HalveStrategistFrequencies])], Some e)"
    by (simp add: fireOnce_def hook_due_def sample_tracker_def)
  have "monthOf 6 = monthOf 5" by code_simp
  with f show ?thesis using budget_failed_hook_not_retried by blast
qed

end
