(* ===== verification/Notify.thy ===== *)
theory Notify
  imports Gates
begin

text \<open>
  \<^verbatim>\<open>internal/notifications/throttle.go\<close>: the token bucket and the per-type cooldown in front of the
  Telegram notifier.  The clock reading of a call is its argument.
\<close>

section \<open>Model\<close>

record Throttle =
  hourlyCap :: f64
  tokens :: f64
  refillRate :: f64
  th_cooldown :: duration
  lastByType :: "string \<Rightarrow> time option"
  lastRefill :: time

definition NewThrottle :: "int \<Rightarrow> duration \<Rightarrow> time \<Rightarrow> Throttle" where
  "NewThrottle cap cd now =
     (let n = (if cap \<le> 0 then 20 else cap); c = f64_of_int n
      in \<lparr>hourlyCap = c, tokens = c, refillRate = fdiv c (rnd 3600),
          th_cooldown = (if cd \<le> 0 then 60 * Second else cd), lastByType = (\<lambda>_. None), lastRefill = now\<rparr>)"

definition refillLocked :: "time \<Rightarrow> Throttle \<Rightarrow> Throttle" where
  "refillLocked now t =
     (if now < lastRefill t then t\<lparr>lastRefill := now\<rparr>
      else let elapsed = Seconds (time_sub now (lastRefill t))
           in if fle elapsed (Fin 0) then t
              else let tk = fadd (tokens t) (fmul elapsed (refillRate t))
                   in t\<lparr>tokens := (if flt (hourlyCap t) tk then hourlyCap t else tk), lastRefill := now\<rparr>)"

definition Allow :: "string \<Rightarrow> time \<Rightarrow> Throttle \<Rightarrow> Throttle \<times> bool \<times> string" where
  "Allow eventType now t0 =
     (let t = refillLocked now t0 in
      if (case lastByType t eventType of Some prev \<Rightarrow> time_sub now prev < th_cooldown t | None \<Rightarrow> False)
      then (t, False, ''cooldown'')
      else if flt (tokens t) (Fin 1) then (t, False, ''hourly_cap'')
      else (t\<lparr>tokens := fsub (tokens t) (Fin 1), lastByType := (lastByType t)(eventType := Some now)\<rparr>, True, []))"

definition Tokens :: "time \<Rightarrow> Throttle \<Rightarrow> Throttle \<times> f64" where
  "Tokens now t = (let t' = refillLocked now t in (t', tokens t'))"

text \<open>A sequence of requests: event types with their times, and which of them were let through.\<close>

fun allow_run :: "Throttle \<Rightarrow> (string \<times> time) list \<Rightarrow> Throttle \<times> bool list" where
  "allow_run t [] = (t, [])"
| "allow_run t ((k, now) # rs) =
     (case Allow k now t of (t', b, _) \<Rightarrow> case allow_run t' rs of (t'', bs) \<Rightarrow> (t'', b # bs))"

section \<open>The bucket stays within its bounds\<close>

definition throttle_ok :: "Throttle \<Rightarrow> bool" where
  "throttle_ok t \<longleftrightarrow> is_f64 (hourlyCap t) \<and> is_fin (hourlyCap t) \<and> is_f64 (tokens t) \<and> is_fin (tokens t) \<and>
     fle (Fin 0) (tokens t) \<and> fle (tokens t) (hourlyCap t) \<and> is_fin (refillRate t) \<and> flt (Fin 0) (refillRate t)"

lemma throttle_okD:
  assumes "throttle_ok t"
  shows "is_f64 (hourlyCap t)" "is_fin (hourlyCap t)" "is_f64 (tokens t)" "is_fin (tokens t)"
    "fle (Fin 0) (tokens t)" "fle (tokens t) (hourlyCap t)" "is_fin (refillRate t)" "flt (Fin 0) (refillRate t)"
  using assms by (simp_all add: throttle_ok_def)

lemma refill_fields [simp]:
  "hourlyCap (refillLocked now t) = hourlyCap t" "refillRate (refillLocked now t) = refillRate t"
  "th_cooldown (refillLocked now t) = th_cooldown t" "lastByType (refillLocked now t) = lastByType t"
  by (simp_all add: refillLocked_def Let_def)

lemma refill_ok:
  assumes "throttle_ok t" shows "throttle_ok (refillLocked now t)"
proof (cases "now < lastRefill t \<or> fle (Seconds (time_sub now (lastRefill t))) (Fin 0)")
  case True
  with assms show ?thesis by (auto simp: refillLocked_def throttle_ok_def Let_def)
next
  case False
  note t = throttle_okD [OF assms]
  let ?e = "Seconds (time_sub now (lastRefill t))"
  let ?tk = "fadd (tokens t) (fmul ?e (refillRate t))"
  from False have "0 \<le> time_sub now (lastRefill t)" by (auto simp: time_sub_def go_defs)
  then have "fle (Fin 0) ?e" by (rule Seconds_nonneg) simp
  then have tk: "fle (Fin 0) ?tk" using t by (intro fadd_nonneg_ext fmul_nonneg_pos)
  have f: "is_f64 ?tk" using t by simp
  show ?thesis
  proof (cases "flt (hourlyCap t) ?tk")
    case True
    moreover have "fle (Fin 0) (hourlyCap t)" using t(5,6) by (rule fle_trans)
    ultimately show ?thesis using False t
      by (auto simp: refillLocked_def throttle_ok_def Let_def is_fin_not_nan)
  next
    case le: False
    then have "fle ?tk (hourlyCap t)"
      using flt_not_fle [of "hourlyCap t" ?tk] is_fin_not_nan [OF t(2)] fle_nan [OF tk] by blast
    moreover have "is_fin ?tk" by (rule fle_between_fin [OF tk calculation]) (use t in simp_all)
    ultimately show ?thesis using False le t tk f by (auto simp: refillLocked_def throttle_ok_def Let_def)
  qed
qed

lemma Allow_ok:
  assumes "throttle_ok t" shows "throttle_ok (fst (Allow k now t))"
proof -
  let ?t = "refillLocked now t"
  have ok: "throttle_ok ?t" by (rule refill_ok [OF assms])
  note t = throttle_okD [OF ok]
  show ?thesis
  proof (cases "flt (tokens ?t) (Fin 1)")
    case False
    let ?s = "fsub (tokens ?t) (Fin 1)"
    from False have one: "fle (Fin 1) (tokens ?t)"
      using flt_not_fle [of "tokens ?t" "Fin 1"] is_fin_not_nan [OF t(4)] by simp
    then have s: "fle (Fin 0) ?s" using t by (intro fsub_nonneg) simp_all
    have le: "fle ?s (tokens ?t)" using t by (intro fsub_le) simp_all
    have "is_fin ?s" by (rule fle_between_fin [OF s le]) (use t in simp_all)
    moreover have "fle ?s (hourlyCap ?t)" using le t(6) by (rule fle_trans)
    moreover have "is_f64 ?s" using t by (simp add: is_f64_Fin)
    ultimately have "throttle_ok (?t\<lparr>tokens := ?s, lastByType := m\<rparr>)" for m
      using t s by (simp add: throttle_ok_def)
    with ok show ?thesis by (simp add: Allow_def Let_def)
  qed (use ok in \<open>simp add: Allow_def Let_def\<close>)
qed

lemma New_ok:
  assumes "is_int64 cap" shows "throttle_ok (NewThrottle cap cd now)"
proof -
  define n where "n = (if cap \<le> 0 then 20 else cap)"
  have n: "1 \<le> n" "is_int64 n" using assms by (auto simp: n_def is_int64_def go_defs)
  let ?c = "f64_of_int n"
  have fin: "is_fin ?c" by (rule is_fin_f64_of_int [OF n(2)])
  have c1: "fle (Fin 1) ?c" using n(1) f64_of_int_mono [of 1 n] by (simp add: f64_of_int_def)
  with fin have v: "1 \<le> fval ?c" by (simp add: fle_fin)
  have k: "fkey (fdiv ?c (rnd 3600)) = fkey (rnd (fval ?c / 3600))"
    by (subst fdiv_key) (simp_all add: fin rnd_numeral)
  have nn: "\<not> is_nan (fdiv ?c (rnd 3600))" using fin by (intro fin_op_not_nan) (simp_all add: rnd_numeral)
  have "(2::rat) powi - 12 \<le> fval ?c / 3600" using v by (simp add: power_int_minus field_simps)
  then have "flt (Fin 0) (rnd (fval ?c / 3600))" by (rule rnd_powi_pos) simp_all
  then have pos: "flt (Fin 0) (fdiv ?c (rnd 3600))" using nn by (simp add: flt_def k)
  have "fkey (rnd (fval ?c / 3600)) \<le> fkey ?c"
    using rnd_key_mono [of "fval ?c / 3600" "fval ?c"] is_f64_rnd_fval [OF is_f64_ops(5) fin] v by simp
  then have "fle (fdiv ?c (rnd 3600)) ?c" using nn fin by (simp add: fle_def k is_fin_not_nan)
  then have "is_fin (fdiv ?c (rnd 3600))"
    by (rule fle_between_fin [OF flt_imp_fle [OF pos]]) (simp_all add: fin)
  moreover have "fle (Fin 0) ?c" using c1 by (rule fle_trans [of _ "Fin 1", rotated]) simp
  ultimately show ?thesis using pos fin
    by (auto simp: NewThrottle_def n_def [symmetric] Let_def throttle_ok_def is_fin_not_nan)
qed

section \<open>Per-type cooldown\<close>

definition throttle_gate :: "Throttle \<Rightarrow> string \<Rightarrow> time \<Rightarrow> Throttle \<times> bool" where
  "throttle_gate t k now = (case Allow k now t of (t', b, _) \<Rightarrow> (t', b))"

interpretation cooldown_gate: admission_gate throttle_gate lastByType
  "\<lambda>u t. time_sub t u < cd" "\<lambda>s. th_cooldown s = cd" for cd
proof
  fix u v t :: time
  assume "u \<le> v" "v \<le> t" "time_sub t u < cd"
  then show "time_sub t v < cd" using time_sub_mono [of t t u v] by simp
qed (auto simp: throttle_gate_def Allow_def Let_def split: if_splits option.splits)

lemma allow_run_admitted:
  "allow_run t rs = (t', bs) \<Longrightarrow>
     length bs = length rs \<and> admitted throttle_gate t rs = map fst (filter snd (zip rs bs))"
proof (induction rs arbitrary: t t' bs)
  case (Cons r rs)
  obtain k now where r: "r = (k, now)" by fastforce
  obtain t1 b why where a: "Allow k now t = (t1, b, why)" by (metis prod_cases3)
  obtain t2 cs where c: "allow_run t1 rs = (t2, cs)" by fastforce
  from Cons.prems Cons.IH [OF c] show ?case by (auto simp: r a c throttle_gate_def)
qed simp

lemma allow_run_ok: "throttle_ok t \<Longrightarrow> throttle_ok (fst (allow_run t rs))"
proof (induction rs arbitrary: t)
  case (Cons r rs)
  obtain k now where r: "r = (k, now)" by fastforce
  obtain t1 b why where a: "Allow k now t = (t1, b, why)" by (metis prod_cases3)
  from Allow_ok [OF Cons.prems, of k now] a have "throttle_ok t1" by simp
  from Cons.IH [OF this] show ?case by (cases "allow_run t1 rs") (simp add: r a)
qed simp

section \<open>Bursts\<close>

lemma Allow_burst:
  assumes "Allow k now t = (t', b, why)" "lastRefill t = now" "tokens t = Fin (of_int n)" "0 \<le> n" "n \<le> 2 ^ 53"
  shows "lastRefill t' = now \<and> tokens t' = Fin (of_int (n - (if b then 1 else 0))) \<and> (b \<longrightarrow> 1 \<le> n)"
proof -
  have "Seconds 0 = Fin 0" by (simp add: Seconds_def godiv_def gomod_def f64_simps)
  then have r: "refillLocked now t = t" using assms(2) by (simp add: refillLocked_def)
  have "(of_int n :: rat) < 1 \<longleftrightarrow> n < 1" using of_int_less_iff [of n 1, where ?'a = rat] by simp
  moreover have "1 \<le> n \<Longrightarrow> fsub (Fin (of_int n)) (Fin 1) = Fin (of_int (n - 1))"
    using rnd_int [of "n - 1"] assms(5) by (auto simp: fsub_def fadd_def Let_def fzero_def)
  ultimately show ?thesis using assms r by (auto simp: Allow_def Let_def split: if_splits option.splits)
qed

lemma burst_bound:
  "allow_run t rs = (t', bs) \<Longrightarrow> \<forall>(_, now') \<in> set rs. now' = now \<Longrightarrow> lastRefill t = now \<Longrightarrow>
   tokens t = Fin (of_int n) \<Longrightarrow> 0 \<le> n \<Longrightarrow> n \<le> 2 ^ 53 \<Longrightarrow> int (length (filter (\<lambda>b. b) bs)) \<le> n"
proof (induction rs arbitrary: t t' bs n)
  case (Cons r rs)
  obtain k where r: "r = (k, now)" using Cons.prems(2) by (cases r) auto
  obtain t1 b why where a: "Allow k now t = (t1, b, why)" by (metis prod_cases3)
  obtain t2 cs where c: "allow_run t1 rs = (t2, cs)" by fastforce
  note st = Allow_burst [OF a Cons.prems(3-6)]
  have "int (length (filter (\<lambda>b. b) cs)) \<le> n - (if b then 1 else 0)"
    by (rule Cons.IH [OF c]) (use st Cons.prems in auto)
  then show ?case using Cons.prems(1) by (auto simp: r a c)
qed simp

lemmas throttle_eval = NewThrottle_def Allow_def refillLocked_def Seconds_def godiv_def gomod_def
  time_sub_def f64_simps go_defs

section \<open>Properties\<close>

text \<open>
  Under a clock that does not go back, no two messages of the same event type are let through
  less than the cooldown apart, whatever other requests come between them.
\<close>

theorem throttle_cooldown:
  assumes "sorted (map snd rs)" and "allow_run t rs = (t', bs)"
    and "map fst (filter snd (zip rs bs)) = xs @ (k, u) # ys" and "(k, v) \<in> set ys"
  shows "th_cooldown t \<le> time_sub v u"
proof -
  have "admitted throttle_gate t rs = xs @ (k, u) # ys"
    using allow_run_admitted [OF assms(2)] assms(3) by simp
  from cooldown_gate.admitted_conflict_free [OF refl assms(1) this assms(4)] show ?thesis by simp
qed

theorem throttle_cooldown_witness:
  "snd (allow_run (NewThrottle 3600 60000000000 0) [(''a'', 0), (''a'', 0), (''b'', 0), (''a'', 60000000000)]) = [True, False, True, True] \<and>
   (60000000000 :: int) \<le> time_sub 60000000000 0"
proof -
  let ?rs = "[(''a'', 0), (''a'', 0), (''b'', 0), (''a'', 60000000000)]"
  have run: "snd (allow_run (NewThrottle 3600 60000000000 0) ?rs) = [True, False, True, True]"
    by (simp add: throttle_eval)
  obtain t' where r: "allow_run (NewThrottle 3600 60000000000 0) ?rs = (t', [True, False, True, True])"
    using run by (metis prod.collapse)
  have "th_cooldown (NewThrottle 3600 60000000000 0) \<le> time_sub 60000000000 0"
    by (rule throttle_cooldown [OF _ r, of "[]" "''a''" 0 "[(''b'', 0), (''a'', 60000000000)]"]) simp_all
  with run show ?thesis by (simp add: NewThrottle_def Let_def)
qed

text \<open>
  From a new throttle, after any sequence of requests at any times, the bucket holds between
  zero and its cap of tokens (no NaN, no overflow), and a burst at one instant never lets more than
  the configured cap through.
\<close>

theorem throttle_bucket_bounds:
  assumes "is_int64 cap" and "allow_run (NewThrottle cap cd now) rs = (t', bs)"
  shows "fle (Fin 0) (tokens t') \<and> fle (tokens t') (hourlyCap t') \<and>
    ((\<forall>(_, now') \<in> set rs. now' = now) \<longrightarrow> 0 < cap \<longrightarrow> cap \<le> 2 ^ 53 \<longrightarrow>
       int (length (filter (\<lambda>b. b) bs)) \<le> cap)"
proof -
  have "throttle_ok t'" using allow_run_ok [OF New_ok [OF assms(1)], of cd now rs] assms(2) by simp
  moreover have "tokens (NewThrottle cap cd now) = Fin (of_int cap)" if "0 < cap" "cap \<le> 2 ^ 53"
    using that f64_of_int_fin [of cap] by (simp add: NewThrottle_def Let_def)
  moreover have "lastRefill (NewThrottle cap cd now) = now" by (simp add: NewThrottle_def Let_def)
  ultimately show ?thesis using burst_bound [OF assms(2), of now cap] by (auto dest: throttle_okD)
qed

theorem throttle_bucket_bounds_witness:
  "snd (allow_run (NewThrottle 2 60000000000 9) [(''a'', 9), (''b'', 9), (''c'', 9)]) = [True, True, False] \<and>
   int (length (filter (\<lambda>b. b) (snd (allow_run (NewThrottle 2 60000000000 9) [(''a'', 9), (''b'', 9), (''c'', 9)])))) \<le> 2"
proof -
  let ?rs = "[(''a'', 9), (''b'', 9), (''c'', 9)]"
  obtain t' bs where r: "allow_run (NewThrottle 2 60000000000 9) ?rs = (t', bs)" by fastforce
  have "is_int64 2" by (simp add: is_int64_def go_defs)
  from throttle_bucket_bounds [OF this r] have "int (length (filter (\<lambda>b. b) bs)) \<le> 2" by simp
  moreover have "snd (allow_run (NewThrottle 2 60000000000 9) ?rs) = [True, True, False]"
    by (simp add: throttle_eval)
  ultimately show ?thesis using r by simp
qed

text \<open>
  The cap is not a bound on deliveries per rolling hour, as the comment on \<^verbatim>\<open>Throttle\<close> says:
  the bucket starts full and refills while it drains, so a throttle with a cap of two lets three
  messages through within 2048 seconds.
\<close>

theorem throttle_exceeds_hourly_cap:
  "snd (allow_run (NewThrottle 2 60000000000 0) [(''a'', 0), (''b'', 0), (''c'', 2048000000000)]) = [True, True, True]"
proof -
  let ?r = "rnd (1 / 1800)"
  have "fle (rnd (1 / 2048)) ?r" "fle ?r (rnd 1)" by (rule rnd_mono; simp)+
  moreover have "rnd (1 / 2048) = Fin (1 / 2048)" using rnd_dyadic [of 1 11] by simp
  ultimately have r: "fle (Fin (1 / 2048)) ?r" "fle ?r (Fin 1)" by simp_all
  then have fin: "is_fin ?r" by (rule fle_between_fin) simp_all
  then obtain v where v: "?r = Fin v \<or> ?r = NegZero" by (cases ?r) auto
  with r obtain v where v: "?r = Fin v" "1 / 2048 \<le> v" "v \<le> 1" by (auto simp: fle_def)
  have "fle (rnd 1) (rnd (2048 * v))" "fle (rnd (2048 * v)) (rnd 2048)"
    by (rule rnd_mono; use v in simp)+
  then have w: "fle (Fin 1) (rnd (2048 * v))" "fle (rnd (2048 * v)) (Fin 2048)" by (simp_all add: rnd_numeral)
  then have "is_fin (rnd (2048 * v))" by (rule fle_between_fin) simp_all
  with w obtain u where u: "rnd (2048 * v) = Fin u" "1 \<le> u" by (cases "rnd (2048 * v)") (auto simp: fle_def)
  then have "rnd u = Fin u" by (metis is_f64_Fin is_f64_rnd)
  with u v show ?thesis by (simp add: throttle_eval)
qed

end
