(* ===== verification/Genome.thy ===== *)
theory Genome
  imports Float64
begin

text \<open>
  \<^verbatim>\<open>internal/agent/genome.go\<close> and \<^verbatim>\<open>genome_validate.go\<close>: the genome of an agent with its modules
  and its validation, and \<^verbatim>\<open>internal/llm/rates.go\<close>: the table of model prices that validation
  consults.

  A strategy configuration (\<^verbatim>\<open>map[string]interface{}\<close>) is an association list: the keys are
  distinct and the list order stands for the order in which a \<^verbatim>\<open>range\<close> over the map visits it,
  which Go leaves open.  A nil map is \<open>None\<close>.
\<close>

section \<open>Model prices\<close>

record ModelRate =
  InputPerToken :: f64
  OutputPerToken :: f64

text \<open>The quotients are constant expressions: exact, then rounded once.\<close>

definition per_million :: "rat \<Rightarrow> rat \<Rightarrow> ModelRate" where
  "per_million i out = \<lparr>InputPerToken = rnd (i / 1000000), OutputPerToken = rnd (out / 1000000)\<rparr>"

definition modelRates :: "(string \<times> ModelRate) list" where
  "modelRates =
     [(''claude-haiku-4-5-20251001'', per_million 1 5),
      (''claude-sonnet-4-6'', per_million 3 15),
      (''claude-opus-4-7'', per_million 15 75),
      (''gpt-4o'', per_million (5 / 2) 10),
      (''gpt-4o-mini'', per_million (15 / 100) (60 / 100))]"

definition RateFor :: "string \<Rightarrow> ModelRate option" where
  "RateFor model = map_of modelRates model"

definition computeCost :: "string \<Rightarrow> int \<Rightarrow> int \<Rightarrow> f64" where
  "computeCost model inputTokens outputTokens =
     (case RateFor model of
        None \<Rightarrow> Fin 0
      | Some r \<Rightarrow> fadd (fmul (f64_of_int inputTokens) (InputPerToken r))
                       (fmul (f64_of_int outputTokens) (OutputPerToken r)))"

section \<open>The genome\<close>

datatype jval = JFloat f64 | JInt int | JStr string | JBool bool | JMap "(string \<times> jval) list" | JList "jval list" | JOther string

type_synonym strategy_config = "(string \<times> jval) list option"

record LearnedRule =
  lr_ID :: string
  lr_Text :: string
  lr_Confidence :: f64

record SleepSchedule =
  AwakeWindowMinutes :: int
  SleepBetween :: bool
  WakeForBacktest :: bool

record ReproductionPolicy =
  MinProfitableEpochs :: int
  MinRealizedNetProfitUSD :: f64
  OffspringSeedCapitalUSD :: f64
  OffspringAPIReserveUSD :: f64
  OffspringFailureBufferUSD :: f64
  MaxDescendantsPerEpoch :: int
  AllowTaskTypeMutation :: bool
  AllowChainMutation :: bool
  AllowModelMutation :: bool

record CostPolicy =
  MonthlyLLMBudgetUSD :: f64
  MonthlyInfraRentBudgetUSD :: f64
  PauseOnBudgetBreach :: bool

record CommunicationPolicy =
  SubscribeChannels :: "string list"
  PublishChannels :: "string list"
  MaxBroadcastsPerCycle :: int
  IntelSummaryMaxItems :: int
  RequireBullBearTag :: bool

record AgentGenome =
  g_Name :: string
  g_Generation :: int
  g_LineageDepth :: int
  g_TaskType :: string
  g_Chain :: string
  g_StrategyConfig :: strategy_config
  g_StrategistPrompt :: string
  g_StrategistModel :: string
  g_StrategistIntervalSeconds :: int
  g_BanditPolicies :: "string list"
  g_LearnedRules :: "LearnedRule list"
  g_CapitalAllocation :: f64
  g_ReproductionPolicy :: ReproductionPolicy
  g_CostPolicy :: CostPolicy
  g_CommunicationPolicy :: CommunicationPolicy
  g_SleepSchedule :: SleepSchedule

section \<open>Validation\<close>

definition validTaskTypes :: "string list" where
  "validTaskTypes = [''cross_chain_yield'', ''liquidity_provision'', ''liquidation_hunting'', ''momentum'']"

definition validChains :: "string list" where
  "validChains = [''solana'', ''base'']"

definition rp_validate :: "ReproductionPolicy \<Rightarrow> unit result" where
  "rp_validate p = first_error
     [(MinProfitableEpochs p < 0, ''genome: reproduction_policy.min_profitable_epochs must be >= 0''),
      (MaxDescendantsPerEpoch p < 0, ''genome: reproduction_policy.max_descendants_per_epoch must be >= 0''),
      (flt (MinRealizedNetProfitUSD p) (Fin 0), ''genome: reproduction_policy.min_realized_net_profit_usd must be >= 0''),
      (flt (OffspringSeedCapitalUSD p) (Fin 0), ''genome: reproduction_policy.offspring_seed_capital_usd must be >= 0''),
      (flt (OffspringAPIReserveUSD p) (Fin 0), ''genome: reproduction_policy.offspring_api_reserve_usd must be >= 0''),
      (flt (OffspringFailureBufferUSD p) (Fin 0), ''genome: reproduction_policy.offspring_failure_buffer_usd must be >= 0'')]"

definition cost_validate :: "CostPolicy \<Rightarrow> unit result" where
  "cost_validate p = first_error
     [(flt (MonthlyLLMBudgetUSD p) (Fin 0), ''genome: cost_policy.monthly_llm_budget_usd must be >= 0''),
      (flt (MonthlyInfraRentBudgetUSD p) (Fin 0), ''genome: cost_policy.monthly_infra_rent_budget_usd must be >= 0'')]"

definition comm_validate :: "CommunicationPolicy \<Rightarrow> unit result" where
  "comm_validate p = first_error
     [(MaxBroadcastsPerCycle p < 0, ''genome: communication_policy.max_broadcasts_per_cycle must be >= 0''),
      (IntelSummaryMaxItems p < 0, ''genome: communication_policy.intel_summary_max_items must be >= 0'')]"

definition sleep_validate :: "SleepSchedule \<Rightarrow> unit result" where
  "sleep_validate s = first_error
     [(AwakeWindowMinutes s < 0, ''genome: sleep_schedule.awake_window_minutes must be >= 0'')]"

definition Validate :: "AgentGenome option \<Rightarrow> unit result" where
  "Validate gp =
     (case gp of
        None \<Rightarrow> Fail ''genome: nil''
      | Some g \<Rightarrow>
          bindr (first_error
             [(g_Name g = [], ''genome: name is required''),
              (g_Generation g < 0, ''genome: generation must be >= 0''),
              (g_LineageDepth g < 0, ''genome: lineage_depth must be >= 0''),
              (g_TaskType g \<notin> set validTaskTypes, ''genome: task_type not in registry''),
              (g_Chain g \<notin> set validChains, ''genome: chain must be solana or base''),
              (RateFor (g_StrategistModel g) = None, ''genome: strategist_model not in llm registry''),
              (g_StrategistIntervalSeconds g < 0, ''genome: strategist_interval_seconds must be >= 0''),
              (flt (g_CapitalAllocation g) (Fin 0) \<or> flt (Fin 1) (g_CapitalAllocation g), ''genome: capital_allocation must be in [0, 1]'')])
          (\<lambda>_. bindr (rp_validate (g_ReproductionPolicy g))
          (\<lambda>_. bindr (cost_validate (g_CostPolicy g))
          (\<lambda>_. bindr (comm_validate (g_CommunicationPolicy g))
          (\<lambda>_. sleep_validate (g_SleepSchedule g))))))"

section \<open>What a valid genome is\<close>

text \<open>Amounts that are not negative, the way the comparisons see it: NaN is not below zero.\<close>

definition usd_ok :: "f64 \<Rightarrow> bool" where "usd_ok x \<longleftrightarrow> \<not> flt x (Fin 0)"

definition rp_ok :: "ReproductionPolicy \<Rightarrow> bool" where
  "rp_ok p \<longleftrightarrow> 0 \<le> MinProfitableEpochs p \<and> 0 \<le> MaxDescendantsPerEpoch p \<and> usd_ok (MinRealizedNetProfitUSD p) \<and>
     usd_ok (OffspringSeedCapitalUSD p) \<and> usd_ok (OffspringAPIReserveUSD p) \<and> usd_ok (OffspringFailureBufferUSD p)"

definition genome_ok :: "AgentGenome \<Rightarrow> bool" where
  "genome_ok g \<longleftrightarrow> g_Name g \<noteq> [] \<and> 0 \<le> g_Generation g \<and> 0 \<le> g_LineageDepth g \<and>
     g_TaskType g \<in> set validTaskTypes \<and> g_Chain g \<in> set validChains \<and> g_StrategistModel g \<in> set (map fst modelRates) \<and>
     0 \<le> g_StrategistIntervalSeconds g \<and> usd_ok (g_CapitalAllocation g) \<and> \<not> flt (Fin 1) (g_CapitalAllocation g) \<and>
     rp_ok (g_ReproductionPolicy g) \<and> usd_ok (MonthlyLLMBudgetUSD (g_CostPolicy g)) \<and>
     usd_ok (MonthlyInfraRentBudgetUSD (g_CostPolicy g)) \<and> 0 \<le> MaxBroadcastsPerCycle (g_CommunicationPolicy g) \<and>
     0 \<le> IntelSummaryMaxItems (g_CommunicationPolicy g) \<and> 0 \<le> AwakeWindowMinutes (g_SleepSchedule g)"

lemma RateFor_None: "RateFor m = None \<longleftrightarrow> m \<notin> set (map fst modelRates)"
  by (simp add: RateFor_def map_of_eq_None_iff)

lemma rp_validate_Ok: "rp_validate p = Inr u \<longleftrightarrow> rp_ok p"
  by (auto simp: rp_validate_def rp_ok_def usd_ok_def)

lemma Validate_genome_ok: "Validate (Some g) = Ok () \<longleftrightarrow> genome_ok g"
  by (simp add: Validate_def genome_ok_def bindr_Ok_iff rp_validate_Ok cost_validate_def comm_validate_def
      sleep_validate_def usd_ok_def RateFor_None not_less conj_ac)

text \<open>NaN amounts are accepted: every check is a comparison that is false on NaN.\<close>

lemma genome_ok_nan: "genome_ok g \<Longrightarrow> genome_ok (g\<lparr>g_CapitalAllocation := NaN\<rparr>)"
  by (simp add: genome_ok_def usd_ok_def)

lemma rates_pos:
  assumes "RateFor m = Some r"
  shows "is_fin (InputPerToken r) \<and> is_fin (OutputPerToken r) \<and> flt (Fin 0) (InputPerToken r) \<and> flt (Fin 0) (OutputPerToken r)"
proof -
  obtain i out where r: "r = per_million i out" "15 / 100 \<le> i" "i \<le> 15" "60 / 100 \<le> out" "out \<le> 75"
    using assms by (auto simp: RateFor_def modelRates_def split: if_splits)
  have b: "is_fin (rnd (x / 1000000)) \<and> flt (Fin 0) (rnd (x / 1000000))" if "15 / 100 \<le> x" "x \<le> 75" for x :: rat
  proof
    have "\<bar>x / 1000000\<bar> \<le> 1" using that by simp
    also have "(1::rat) \<le> 2 ^ 1000" by (rule one_le_power) simp
    finally show "is_fin (rnd (x / 1000000))" by (rule is_fin_rnd)
    have "(2::rat) powi - 30 \<le> x / 1000000" using that by (simp add: power_int_minus field_simps)
    then show "flt (Fin 0) (rnd (x / 1000000))" by (rule rnd_powi_pos) simp_all
  qed
  show ?thesis using b [of i] b [of out] r by (simp add: per_million_def)
qed

lemma computeCost_nonneg:
  assumes "0 \<le> i" "0 \<le> out" "is_int64 i" "is_int64 out"
  shows "fle (Fin 0) (computeCost m i out)"
proof (cases "RateFor m")
  case (Some r)
  have nn: "fle (Fin 0) (f64_of_int k)" if "0 \<le> k" for k
    using f64_of_int_mono [OF that] by (simp add: f64_of_int_def)
  from rates_pos [OF Some] nn [OF assms(1)] nn [OF assms(2)] Some show ?thesis
    by (auto simp: computeCost_def intro!: fadd_nonneg_ext fmul_nonneg_pos)
qed (simp add: computeCost_def)

end
