(* ===== verification/GoSort.thy ===== *)
theory GoSort
  imports Prelude "HOL-Library.Multiset"
begin

text \<open>
  \<^verbatim>\<open>sort.SliceStable\<close> of the Go library.  Up to a block of twenty elements it is an
  insertion sort, which \<open>stable_sort\<close> is; on longer slices it merges such blocks, which for a
  strict weak order gives the same (unique) stable result.  The interface \<open>weak_order\<close> states
  what a comparison function must promise on the elements that occur (NaN keys break it), and the
  lemmas inside it what the sorted slice then is.
\<close>

fun ins_right :: "('a \<Rightarrow> 'a \<Rightarrow> bool) \<Rightarrow> 'a \<Rightarrow> 'a list \<Rightarrow> 'a list" where
  "ins_right lt x [] = [x]"
| "ins_right lt x (y # ys) = (if lt x y then y # ins_right lt x ys else x # y # ys)"

definition stable_sort :: "('a \<Rightarrow> 'a \<Rightarrow> bool) \<Rightarrow> 'a list \<Rightarrow> 'a list" where
  "stable_sort lt xs = rev (fold (ins_right lt) xs [])"

lemma mset_ins_right [simp]: "mset (ins_right lt x ys) = add_mset x (mset ys)"
  by (induction ys) auto

lemma mset_fold_ins: "mset (fold (ins_right lt) xs ys) = mset xs + mset ys"
  by (induction xs arbitrary: ys) auto

lemma mset_stable_sort [simp]: "mset (stable_sort lt xs) = mset xs"
  by (simp add: stable_sort_def mset_fold_ins)

lemma set_stable_sort [simp]: "set (stable_sort lt xs) = set xs"
  by (metis mset_stable_sort set_mset_mset)

lemma length_stable_sort [simp]: "length (stable_sort lt xs) = length xs"
  by (metis mset_stable_sort size_mset)

lemma set_ins_right [simp]: "set (ins_right lt x ys) = insert x (set ys)"
  by (induction ys) auto

lemma distinct_stable_sort [simp]: "distinct (stable_sort lt xs) = distinct xs"
  by (metis mset_eq_imp_distinct_iff mset_stable_sort)

locale weak_order =
  fixes lt :: "'a \<Rightarrow> 'a \<Rightarrow> bool" and ok :: "'a \<Rightarrow> bool"
  assumes asym: "ok x \<Longrightarrow> ok y \<Longrightarrow> lt x y \<Longrightarrow> \<not> lt y x"
    and neg_trans: "ok x \<Longrightarrow> ok y \<Longrightarrow> ok z \<Longrightarrow> \<not> lt x y \<Longrightarrow> \<not> lt y z \<Longrightarrow> \<not> lt x z"
begin

lemma ins_sorted:
  "\<forall>z \<in> set (x # ys). ok z \<Longrightarrow> sorted_wrt (\<lambda>a b. \<not> lt a b) ys \<Longrightarrow> sorted_wrt (\<lambda>a b. \<not> lt a b) (ins_right lt x ys)"
proof (induction ys)
  case (Cons y ys)
  show ?case
  proof (cases "lt x y")
    case True
    with Cons show ?thesis by (auto dest: asym)
  next
    case False
    then show ?thesis using Cons.prems neg_trans [of x y] by auto
  qed
qed simp

lemma fold_sorted:
  "\<forall>z \<in> set xs \<union> set ys. ok z \<Longrightarrow> sorted_wrt (\<lambda>a b. \<not> lt a b) ys \<Longrightarrow> sorted_wrt (\<lambda>a b. \<not> lt a b) (fold (ins_right lt) xs ys)"
proof (induction xs arbitrary: ys)
  case (Cons x xs)
  then show ?case using ins_sorted [of x ys] by (auto intro!: Cons.IH)
qed simp

lemma stable_sort_sorted:
  assumes "\<forall>z \<in> set xs. ok z" shows "sorted_wrt (\<lambda>a b. \<not> lt b a) (stable_sort lt xs)"
  using fold_sorted [of xs "[]"] assms by (simp add: stable_sort_def sorted_wrt_rev)

lemma ins_stable:
  "\<forall>z \<in> set (c # x # ys). ok z \<Longrightarrow>
   filter (\<lambda>y. \<not> lt c y \<and> \<not> lt y c) (ins_right lt x ys) = filter (\<lambda>y. \<not> lt c y \<and> \<not> lt y c) (x # ys)"
proof (induction ys)
  case (Cons y ys)
  show ?case
  proof (cases "lt x y \<and> \<not> lt c x \<and> \<not> lt x c \<and> \<not> lt c y \<and> \<not> lt y c")
    case True
    with Cons.prems neg_trans [of x c y] show ?thesis by auto
  next
    case False
    with Cons show ?thesis by auto
  qed
qed simp

lemma fold_stable:
  "\<forall>z \<in> insert c (set xs \<union> set ys). ok z \<Longrightarrow>
   filter (\<lambda>y. \<not> lt c y \<and> \<not> lt y c) (fold (ins_right lt) xs ys) =
   rev (filter (\<lambda>y. \<not> lt c y \<and> \<not> lt y c) xs) @ filter (\<lambda>y. \<not> lt c y \<and> \<not> lt y c) ys"
proof (induction xs arbitrary: ys)
  case (Cons x xs)
  have "filter (\<lambda>y. \<not> lt c y \<and> \<not> lt y c) (fold (ins_right lt) xs (ins_right lt x ys)) =
    rev (filter (\<lambda>y. \<not> lt c y \<and> \<not> lt y c) xs) @ filter (\<lambda>y. \<not> lt c y \<and> \<not> lt y c) (ins_right lt x ys)"
    by (rule Cons.IH) (use Cons.prems in auto)
  also have "filter (\<lambda>y. \<not> lt c y \<and> \<not> lt y c) (ins_right lt x ys) = filter (\<lambda>y. \<not> lt c y \<and> \<not> lt y c) (x # ys)"
    by (rule ins_stable) (use Cons.prems in auto)
  finally show ?case by simp
qed simp

lemma stable_sort_stable:
  assumes "\<forall>z \<in> set xs. ok z" "ok c"
  shows "filter (\<lambda>y. \<not> lt c y \<and> \<not> lt y c) (stable_sort lt xs) = filter (\<lambda>y. \<not> lt c y \<and> \<not> lt y c) xs"
  using fold_stable [of c xs "[]"] assms by (simp add: stable_sort_def rev_filter [symmetric])

text \<open>A prefix of the sorted slice holds smallest elements: none outside is smaller.\<close>

lemma take_smallest:
  assumes "\<forall>z \<in> set xs. ok z" "x \<in> set (take n (stable_sort lt xs))" "y \<in> set (drop n (stable_sort lt xs))"
  shows "\<not> lt y x"
proof -
  have "sorted_wrt (\<lambda>a b. \<not> lt b a) (take n (stable_sort lt xs) @ drop n (stable_sort lt xs))"
    using stable_sort_sorted [OF assms(1)] by simp
  with assms(2,3) show ?thesis by (auto simp only: sorted_wrt_append)
qed

end

end
