(* ===== verification/LearnedRules.thy ===== *)
theory LearnedRules
  imports Genome GoSort
begin

text \<open>
  \<^verbatim>\<open>internal/agent/learned_rules.go\<close>: the bounded list of procedural rules of an agent.  The
  random bytes that \<^verbatim>\<open>newRuleID\<close> reads, the draws of the random generator and the answers of the
  language model that rewrites a rule are arguments, one per call.
\<close>

section \<open>Model\<close>

definition MaxLearnedRules :: nat where "MaxLearnedRules = 10"
definition EMAAlpha :: rat where "EMAAlpha = 1 / 10"
definition InheritanceRegression :: f64 where "InheritanceRegression = rnd (7 / 10)"
definition DefaultMutationProbability :: f64 where "DefaultMutationProbability = rnd (5 / 100)"

definition hex_digit :: "nat \<Rightarrow> char" where
  "hex_digit n = (if n < 10 then char_of (48 + n) else char_of (87 + n))"

definition hex_encode :: "nat list \<Rightarrow> string" where
  "hex_encode bs = concat (map (\<lambda>b. [hex_digit (b div 16), hex_digit (b mod 16)]) bs)"

definition newRuleID :: "nat list option \<Rightarrow> string" where
  "newRuleID entropy = (case entropy of None \<Rightarrow> ''rule-fallback'' | Some bs \<Rightarrow> ''rule-'' @ hex_encode bs)"

definition clamp01 :: "f64 \<Rightarrow> f64" where
  "clamp01 v = (if flt v (Fin 0) then Fin 0 else if flt (Fin 1) v then Fin 1 else v)"

definition victim :: "LearnedRule list \<Rightarrow> nat" where
  "victim rules = fold (\<lambda>i v. if flt (lr_Confidence (rules ! i)) (lr_Confidence (rules ! v)) then i else v)
     [1..<length rules] 0"

definition evictLowest :: "LearnedRule list \<Rightarrow> LearnedRule list" where
  "evictLowest rules =
     (if rules = [] then rules else take (victim rules) rules @ drop (victim rules + 1) rules)"

definition Add :: "nat list option \<Rightarrow> LearnedRule list \<Rightarrow> LearnedRule \<Rightarrow> LearnedRule list result" where
  "Add entropy rules rule =
     (if TrimSpace (lr_Text rule) = [] then Fail ''learned_rules: rule text required''
      else let rule1 = (if lr_ID rule = [] then rule\<lparr>lr_ID := newRuleID entropy\<rparr> else rule);
               rule2 = rule1\<lparr>lr_Confidence := clamp01 (lr_Confidence rule1)\<rparr>;
               out = (if MaxLearnedRules \<le> length rules then evictLowest rules else rules)
           in Ok (out @ [rule2]))"

definition ema :: "bool \<Rightarrow> f64 \<Rightarrow> f64" where
  "ema success c = clamp01 (fadd (fmul (rnd (1 - EMAAlpha)) c) (fmul (rnd EMAAlpha) (if success then Fin 1 else Fin 0)))"

fun RecordOutcome :: "LearnedRule list \<Rightarrow> string \<Rightarrow> bool \<Rightarrow> LearnedRule list" where
  "RecordOutcome [] ruleID success = []"
| "RecordOutcome (r # rs) ruleID success =
     (if lr_ID r = ruleID then r\<lparr>lr_Confidence := ema success (lr_Confidence r)\<rparr> # rs
      else r # RecordOutcome rs ruleID success)"

definition stronger :: "LearnedRule \<Rightarrow> LearnedRule \<Rightarrow> bool" where
  "stronger r s \<longleftrightarrow> flt (lr_Confidence s) (lr_Confidence r)"

definition inherit_one :: "nat list option \<Rightarrow> LearnedRule \<Rightarrow> LearnedRule" where
  "inherit_one entropy r = \<lparr>lr_ID = newRuleID entropy, lr_Text = lr_Text r,
     lr_Confidence = clamp01 (fmul (lr_Confidence r) InheritanceRegression)\<rparr>"

definition Inherit :: "(nat \<Rightarrow> nat list option) \<Rightarrow> LearnedRule list \<Rightarrow> LearnedRule list" where
  "Inherit entropy parent =
     (let out = map (\<lambda>(i, r). inherit_one (entropy i) r) (enumerate 0 parent)
      in if MaxLearnedRules < length out then take MaxLearnedRules (stable_sort stronger out) else out)"

record MutateConfig =
  mc_Probability :: f64
  mc_Rewriter :: "(nat \<Rightarrow> string \<Rightarrow> string result) option"

definition mutation_probability :: "f64 \<Rightarrow> f64" where
  "mutation_probability p0 =
     (let p = (if fle p0 (Fin 0) then DefaultMutationProbability else p0) in if flt (Fin 1) p then Fin 1 else p)"

definition mutate_one :: "f64 \<Rightarrow> f64 \<Rightarrow> (string \<Rightarrow> string result) \<Rightarrow> LearnedRule \<Rightarrow> LearnedRule \<times> error list" where
  "mutate_one p draw rewrite r =
     (if fle p draw then (r, [])
      else case rewrite (lr_Text r) of
             Inl e \<Rightarrow> (r, [Wrap (''mutate rule '' @ lr_ID r) e])
           | Inr t \<Rightarrow> (if TrimSpace t = [] then (r, []) else (r\<lparr>lr_Text := TrimSpace t\<rparr>, [])))"

definition Mutate :: "(nat \<Rightarrow> f64) \<Rightarrow> LearnedRule list \<Rightarrow> MutateConfig \<Rightarrow> LearnedRule list \<times> error list" where
  "Mutate draws rules cfg =
     (case mc_Rewriter cfg of
        None \<Rightarrow> (rules, [])
      | Some rw \<Rightarrow>
          let p = mutation_probability (mc_Probability cfg);
              res = map (\<lambda>(i, r). mutate_one p (draws i) (rw i) r) (enumerate 0 rules)
          in (map fst res, concat (map snd res)))"

section \<open>Confidence stays in the unit interval\<close>

definition rules_ok :: "LearnedRule list \<Rightarrow> bool" where
  "rules_ok rs \<longleftrightarrow> length rs \<le> MaxLearnedRules \<and> (\<forall>r \<in> set rs. in_unit (lr_Confidence r))"

lemma clamp01_ok: "is_f64 v \<Longrightarrow> \<not> is_nan v \<Longrightarrow> in_unit (clamp01 v)"
  using flt_not_fle [of v "Fin 0"] flt_not_fle [of "Fin 1" v]
  by (auto simp: clamp01_def in_unit_def is_f64_Fin)

lemma clamp01_id: "in_unit c \<Longrightarrow> clamp01 c = c"
  using in_unit_nan [of c] flt_not_fle [of c "Fin 0"] flt_not_fle [of "Fin 1" c]
  by (auto simp: clamp01_def in_unit_def)

lemma clamp01_mono: "fle x y \<Longrightarrow> fle (clamp01 x) (clamp01 y)"
  using fle_nan [of x y] flt_not_fle [of x "Fin 0"] flt_not_fle [of "Fin 1" x] flt_not_fle [of y "Fin 0"]
    flt_not_fle [of "Fin 1" y]
  by (auto simp: clamp01_def intro: fle_trans fle_flt_trans flt_fle_trans flt_imp_fle dest: fle_flt_trans)

lemma ema_parts: "in_unit (rnd (1 - EMAAlpha))" "in_unit (rnd EMAAlpha)"
  by (rule rnd_unit; simp add: EMAAlpha_def)+

lemma fmul_nan_free: "in_unit p \<Longrightarrow> in_unit c \<Longrightarrow> is_fin (fmul p c) \<and> \<not> is_nan (fmul p c)"
  using fmul_in_unit [of p c] in_unit_fin in_unit_nan by blast

lemma ema_unit: "in_unit c \<Longrightarrow> in_unit (ema b c)"
  unfolding ema_def using fmul_nan_free [OF ema_parts(1)] fmul_nan_free [OF ema_parts(2)]
  by (intro clamp01_ok) (auto simp: fin_op_not_nan)

lemma ema_failure_le: "in_unit c \<Longrightarrow> fle (ema False c) c"
proof -
  assume c: "in_unit c"
  let ?p = "fmul (rnd (1 - EMAAlpha)) c" and ?z = "fmul (rnd EMAAlpha) (Fin 0)"
  have p: "in_unit ?p" "fle ?p c" using fmul_in_unit [OF ema_parts(1) c] by auto
  have z: "in_unit ?z" "fle ?z (Fin 0)" using fmul_in_unit [OF ema_parts(2), of "Fin 0"] by auto
  have "fle (fadd ?p ?z) (fadd ?p (Fin 0))"
    using p z in_unit_fin in_unit_nan by (intro fadd_mono) auto
  moreover have "fle (fadd ?p (Fin 0)) ?p"
    using p(1) in_unit_fin [OF p(1)] in_unit_nan [OF p(1)] is_f64_rnd_fval [of ?p]
    by (simp add: fle_def fadd_key in_unit_def fin_op_not_nan)
  ultimately have "fle (fadd ?p ?z) c" using p(2) by (blast intro: fle_trans)
  from clamp01_mono [OF this] clamp01_id [OF c] show ?thesis by (simp add: ema_def)
qed

lemma ema_success_ge: "in_unit c \<Longrightarrow> fle (ema False c) (ema True c)"
proof -
  assume c: "in_unit c"
  let ?a = "rnd EMAAlpha"
  have "fle (fmul ?a (Fin 0)) (fmul ?a (Fin 1))"
    using fmul_mono [of ?a ?a "Fin 0" "Fin 1"] ema_parts(2) in_unit_fin [OF ema_parts(2)] by (simp add: in_unit_def)
  then show ?thesis unfolding ema_def
    using fmul_nan_free [OF ema_parts(1) c] fmul_nan_free [OF ema_parts(2)] by (intro clamp01_mono) (auto intro!: fadd_mono)
qed

section \<open>Eviction\<close>

lemma victim_scan:
  assumes "k \<le> length rules" "0 < k" "\<forall>r \<in> set rules. \<not> is_nan (lr_Confidence r)"
  defines "v \<equiv> fold (\<lambda>i v. if flt (lr_Confidence (rules ! i)) (lr_Confidence (rules ! v)) then i else v) [1..<k] 0"
  shows "v < k \<and> (\<forall>i < k. fle (lr_Confidence (rules ! v)) (lr_Confidence (rules ! i))) \<and>
    (\<forall>i < v. flt (lr_Confidence (rules ! v)) (lr_Confidence (rules ! i)))"
  using assms(1,2) unfolding v_def
proof (induction k)
  case (Suc k)
  show ?case
  proof (cases k)
    case 0
    with Suc.prems assms(3) show ?thesis by (cases rules) auto
  next
    case (Suc m)
    let ?c = "\<lambda>i. lr_Confidence (rules ! i)"
    let ?w = "fold (\<lambda>i v. if flt (?c i) (?c v) then i else v) [1..<k] 0"
    have nn: "\<not> is_nan (?c i)" if "i \<le> k" for i using assms(3) that Suc.prems(1) by (auto dest: nth_mem)
    from Suc.IH Suc.prems Suc have w: "?w < k" "\<forall>i < k. fle (?c ?w) (?c i)" "\<forall>i < ?w. flt (?c ?w) (?c i)" by auto
    have s: "fold (\<lambda>i v. if flt (?c i) (?c v) then i else v) [1..<Suc k] 0 = (if flt (?c k) (?c ?w) then k else ?w)"
      using Suc by (simp add: upt_Suc)
    have "fle (?c ?w) (?c k)" if "\<not> flt (?c k) (?c ?w)" using that flt_not_fle [of "?c k" "?c ?w"] nn w(1) by simp
    moreover have "flt (?c k) (?c i)" if "flt (?c k) (?c ?w)" "i < k" for i using that w(2) flt_fle_trans by blast
    ultimately show ?thesis unfolding s using w nn by (auto simp: less_Suc_eq intro: flt_imp_fle)
  qed
qed simp

lemma evictLowest_split:
  assumes "rules \<noteq> []" "\<forall>r \<in> set rules. \<not> is_nan (lr_Confidence r)"
  obtains xs r ys where "rules = xs @ r # ys" "evictLowest rules = xs @ ys"
    "\<forall>s \<in> set rules. fle (lr_Confidence r) (lr_Confidence s)" "\<forall>s \<in> set xs. flt (lr_Confidence r) (lr_Confidence s)"
proof
  let ?v = "victim rules"
  have v: "?v < length rules" "\<forall>i < length rules. fle (lr_Confidence (rules ! ?v)) (lr_Confidence (rules ! i))"
    "\<forall>i < ?v. flt (lr_Confidence (rules ! ?v)) (lr_Confidence (rules ! i))"
    using victim_scan [of "length rules" rules] assms by (auto simp: victim_def)
  show "rules = take ?v rules @ rules ! ?v # drop (Suc ?v) rules" using v(1) by (rule id_take_nth_drop)
  show "evictLowest rules = take ?v rules @ drop (Suc ?v) rules" using assms(1) by (simp add: evictLowest_def)
  show "\<forall>s \<in> set rules. fle (lr_Confidence (rules ! ?v)) (lr_Confidence s)" using v(2) by (auto simp: in_set_conv_nth)
  show "\<forall>s \<in> set (take ?v rules). flt (lr_Confidence (rules ! ?v)) (lr_Confidence s)"
    using v(1,3) by (auto simp: in_set_conv_nth)
qed

section \<open>Sorting by confidence\<close>

interpretation by_confidence: weak_order stronger "\<lambda>r. \<not> is_nan (lr_Confidence r)"
proof
  fix x y z :: LearnedRule
  assume "\<not> is_nan (lr_Confidence x)" "\<not> is_nan (lr_Confidence y)" "\<not> is_nan (lr_Confidence z)"
    "\<not> stronger x y" "\<not> stronger y z"
  then show "\<not> stronger x z" unfolding stronger_def using flt_not_fle fle_trans by meson
qed (auto simp: stronger_def dest: flt_asym flt_imp_fle)

lemma regression_unit: "in_unit InheritanceRegression"
  unfolding InheritanceRegression_def by (rule rnd_unit) simp_all

lemma inherit_one_ok:
  assumes "in_unit (lr_Confidence r)"
  shows "in_unit (lr_Confidence (inherit_one e r)) \<and> fle (lr_Confidence (inherit_one e r)) (lr_Confidence r)"
  using fmul_in_unit [OF regression_unit assms]
  by (simp add: inherit_one_def fmul_comm [of "lr_Confidence r"] clamp01_id)

lemma length_evict: "rules \<noteq> [] \<Longrightarrow> \<forall>r \<in> set rules. \<not> is_nan (lr_Confidence r) \<Longrightarrow> Suc (length (evictLowest rules)) = length rules"
  by (rule evictLowest_split [of rules]) auto

lemma set_evict: "set (evictLowest rules) \<subseteq> set rules"
  by (auto simp: evictLowest_def dest: in_set_takeD in_set_dropD)

lemma rules_ok_nan: "rules_ok rs \<Longrightarrow> \<forall>r \<in> set rs. \<not> is_nan (lr_Confidence r)"
  using in_unit_nan by (auto simp: rules_ok_def)

lemma in_unit_refl: "in_unit c \<Longrightarrow> fle c c"
  by (simp add: in_unit_nan)

section \<open>Properties\<close>

text \<open>
  Adding a rule to a list within its bounds keeps at most ten rules with confidences in the unit
  interval and puts the rule last; when the list was full, exactly one rule goes, one of lowest
  confidence and the oldest among those, and the others keep their order.
\<close>

theorem rules_add_evicts_weakest:
  assumes "rules_ok rules" "is_f64 (lr_Confidence rule)" "\<not> is_nan (lr_Confidence rule)"
    and "Add entropy rules rule = Ok out"
  shows "rules_ok out \<and> lr_Text (last out) = lr_Text rule \<and>
    (if length rules < MaxLearnedRules then butlast out = rules
     else \<exists>xs r ys. rules = xs @ r # ys \<and> butlast out = xs @ ys \<and>
       (\<forall>s \<in> set rules. fle (lr_Confidence r) (lr_Confidence s)) \<and> (\<forall>s \<in> set xs. flt (lr_Confidence r) (lr_Confidence s)))"
proof -
  note nn = rules_ok_nan [OF assms(1)]
  obtain nr where nr: "out = (if MaxLearnedRules \<le> length rules then evictLowest rules else rules) @ [nr]"
    "lr_Text nr = lr_Text rule" "lr_Confidence nr = clamp01 (lr_Confidence rule)"
    using assms(4) by (auto simp: Add_def Let_def split: if_splits)
  have c: "in_unit (lr_Confidence nr)" using clamp01_ok [OF assms(2,3)] nr(3) by simp
  show ?thesis
  proof (cases "length rules < MaxLearnedRules")
    case True
    with nr c assms(1) show ?thesis by (auto simp: rules_ok_def)
  next
    case False
    then have ne: "rules \<noteq> []" by (auto simp: MaxLearnedRules_def)
    have "rules_ok out" using length_evict [OF ne nn] set_evict [of rules] nr(1) c False assms(1)
      by (auto simp: rules_ok_def)
    moreover obtain xs r ys where "rules = xs @ r # ys" "evictLowest rules = xs @ ys"
      "\<forall>s \<in> set rules. fle (lr_Confidence r) (lr_Confidence s)" "\<forall>s \<in> set xs. flt (lr_Confidence r) (lr_Confidence s)"
      by (rule evictLowest_split [OF ne nn])
    moreover have "butlast out = evictLowest rules" "last out = nr" using False nr(1) by simp_all
    ultimately show ?thesis using False nr(2) by (simp only: if_False) blast
  qed
qed

theorem rules_add_evicts_weakest_witness:
  "Add None (map (\<lambda>i. \<lparr>lr_ID = ''r'', lr_Text = replicate i CHR ''x'', lr_Confidence = (if i = 3 then Fin 0 else Fin 1)\<rparr>) [0..<10])
     \<lparr>lr_ID = [], lr_Text = ''new'', lr_Confidence = Fin 7\<rparr> =
   Ok (map (\<lambda>i. \<lparr>lr_ID = ''r'', lr_Text = replicate i CHR ''x'', lr_Confidence = Fin 1\<rparr>) [0, 1, 2, 4, 5, 6, 7, 8, 9] @
       [\<lparr>lr_ID = ''rule-fallback'', lr_Text = ''new'', lr_Confidence = Fin 1\<rparr>]) \<and>
   rules_ok (map (\<lambda>i. \<lparr>lr_ID = ''r'', lr_Text = replicate i CHR ''x'', lr_Confidence = Fin 1\<rparr>) [0, 1, 2, 4, 5, 6, 7, 8, 9] @
       [\<lparr>lr_ID = ''rule-fallback'', lr_Text = ''new'', lr_Confidence = Fin 1\<rparr>])" (is "Add None ?rs ?r = Ok ?out \<and> _")
proof
  show a: "Add None ?rs ?r = Ok ?out"
    by (simp add: Add_def Let_def TrimSpace_def is_space_def MaxLearnedRules_def evictLowest_def victim_def
        upt_rec numeral_eq_Suc newRuleID_def clamp01_def)
  have "rules_ok ?rs" by (auto simp: rules_ok_def MaxLearnedRules_def)
  moreover have "is_f64 (lr_Confidence ?r)" "\<not> is_nan (lr_Confidence ?r)" by (simp_all add: is_f64_Fin rnd_numeral)
  ultimately show "rules_ok ?out" using rules_add_evicts_weakest [OF _ _ _ a] by blast
qed

text \<open>
  Recording an outcome changes the confidence of the first rule with that identifier and nothing
  else; confidences stay in the unit interval, a failure never raises one, and a success leaves it at
  least as high as a failure would.
\<close>

theorem rules_record_outcome:
  assumes "rules_ok rules"
  shows "rules_ok (RecordOutcome rules i b) \<and>
    map (\<lambda>r. (lr_ID r, lr_Text r)) (RecordOutcome rules i b) = map (\<lambda>r. (lr_ID r, lr_Text r)) rules \<and>
    (i \<notin> lr_ID ` set rules \<longrightarrow> RecordOutcome rules i b = rules) \<and>
    list_all2 (\<lambda>r r'. fle (lr_Confidence r') (lr_Confidence r)) rules (RecordOutcome rules i False) \<and>
    list_all2 (\<lambda>r r'. fle (lr_Confidence r) (lr_Confidence r')) (RecordOutcome rules i False) (RecordOutcome rules i True)"
proof -
  have "(\<forall>r \<in> set rules. in_unit (lr_Confidence r)) \<Longrightarrow>
    (\<forall>r \<in> set (RecordOutcome rules i b). in_unit (lr_Confidence r)) \<and> length (RecordOutcome rules i b) = length rules \<and>
    map (\<lambda>r. (lr_ID r, lr_Text r)) (RecordOutcome rules i b) = map (\<lambda>r. (lr_ID r, lr_Text r)) rules \<and>
    (i \<notin> lr_ID ` set rules \<longrightarrow> RecordOutcome rules i b = rules) \<and>
    list_all2 (\<lambda>r r'. fle (lr_Confidence r') (lr_Confidence r)) rules (RecordOutcome rules i False) \<and>
    list_all2 (\<lambda>r r'. fle (lr_Confidence r) (lr_Confidence r')) (RecordOutcome rules i False) (RecordOutcome rules i True)"
    by (induction rules)
      (auto intro: ema_unit ema_failure_le ema_success_ge in_unit_refl simp: list_all2_same)
  with assms show ?thesis by (simp add: rules_ok_def)
qed

theorem rules_record_outcome_witness:
  "rules_ok (RecordOutcome [\<lparr>lr_ID = ''a'', lr_Text = ''t'', lr_Confidence = Fin 1\<rparr>] ''a'' False)"
  using rules_record_outcome [of "[\<lparr>lr_ID = ''a'', lr_Text = ''t'', lr_Confidence = Fin 1\<rparr>]" "''a''" False]
  by (simp add: rules_ok_def MaxLearnedRules_def)

text \<open>
  An offspring inherits at most ten rules, each a rule text of the parent with a confidence in
  the unit interval that is not above the parent's; when the parent has more than ten, none that was
  left out is stronger than one that was kept.
\<close>

theorem rules_inherit:
  assumes "\<forall>r \<in> set parent. in_unit (lr_Confidence r)"
  shows "rules_ok (Inherit entropy parent) \<and>
    length (Inherit entropy parent) = min (length parent) MaxLearnedRules \<and>
    (\<forall>c \<in> set (Inherit entropy parent). \<exists>r \<in> set parent. lr_Text c = lr_Text r \<and> fle (lr_Confidence c) (lr_Confidence r)) \<and>
    (\<exists>rest. mset (Inherit entropy parent) + mset rest = mset (map (\<lambda>(i, r). inherit_one (entropy i) r) (enumerate 0 parent)) \<and>
       (\<forall>d \<in> set rest. \<forall>c \<in> set (Inherit entropy parent). \<not> stronger d c))"
proof -
  let ?all = "map (\<lambda>(i, r). inherit_one (entropy i) r) (enumerate 0 parent)"
  let ?S = "stable_sort stronger ?all"
  have e: "\<exists>i r. r \<in> set parent \<and> c = inherit_one (entropy i) r" if "c \<in> set ?all" for c
    proof -
    from that obtain i where "i < length parent" "c = inherit_one (entropy i) (parent ! i)"
      by (auto simp: in_set_enumerate_eq)
    then show ?thesis using nth_mem by blast
  qed
  have all: "in_unit (lr_Confidence c) \<and> (\<exists>r \<in> set parent. lr_Text c = lr_Text r \<and> fle (lr_Confidence c) (lr_Confidence r))"
    if c: "c \<in> set ?all" for c
    using e [OF c] inherit_one_ok assms by (auto simp: inherit_one_def)
  show ?thesis
  proof (cases "MaxLearnedRules < length parent")
    case True
    then have i: "Inherit entropy parent = take MaxLearnedRules ?S" by (simp add: Inherit_def Let_def)
    have sub: "set (take MaxLearnedRules ?S) \<subseteq> set ?all" using set_take_subset [of MaxLearnedRules ?S] by simp
    have "mset (take MaxLearnedRules ?S) + mset (drop MaxLearnedRules ?S) = mset ?all"
      by (metis append_take_drop_id mset_append mset_stable_sort)
    moreover have "\<not> stronger d c" if "d \<in> set (drop MaxLearnedRules ?S)" "c \<in> set (take MaxLearnedRules ?S)" for c d
      using by_confidence.take_smallest [OF _ that(2,1)] all in_unit_nan by blast
    ultimately show ?thesis using all sub True unfolding i rules_ok_def by (auto simp del: set_map intro!: exI [of _ "drop MaxLearnedRules ?S"])
  next
    case False
    then have i: "Inherit entropy parent = ?all" by (simp add: Inherit_def Let_def)
    show ?thesis using all False unfolding i rules_ok_def by (auto simp del: set_map intro!: exI [of _ "[]"])
  qed
qed

theorem rules_inherit_witness:
  "length (Inherit (\<lambda>_. None) (replicate 12 \<lparr>lr_ID = ''a'', lr_Text = ''t'', lr_Confidence = Fin 1\<rparr>)) = 10"
  using rules_inherit [of "replicate 12 \<lparr>lr_ID = ''a'', lr_Text = ''t'', lr_Confidence = Fin 1\<rparr>" "\<lambda>_. None"]
  by (auto simp: MaxLearnedRules_def)

text \<open>Rewriting leaves identifiers and confidences alone and never blanks a rule.\<close>

lemma mutate_one_keeps:
  "mutate_one p d rw r = (r', es) \<Longrightarrow> lr_ID r' = lr_ID r \<and> lr_Confidence r' = lr_Confidence r \<and> length es \<le> 1 \<and>
     (lr_Text r' = lr_Text r \<or> TrimSpace (lr_Text r') \<noteq> [])"
  using TrimSpace_idem [of "case rw (lr_Text r) of Inr t \<Rightarrow> t | _ \<Rightarrow> []"]
  by (auto simp: mutate_one_def split: if_splits sum.splits)

lemma mutate_one_fst:
  "lr_ID (fst (mutate_one p d rw r)) = lr_ID r" "lr_Confidence (fst (mutate_one p d rw r)) = lr_Confidence r"
  by (simp_all add: mutate_one_keeps [OF surjective_pairing])

lemma Mutate_rules_keeps:
  "map (\<lambda>r. (lr_ID r, lr_Confidence r)) (fst (Mutate draws rules cfg)) = map (\<lambda>r. (lr_ID r, lr_Confidence r)) rules"
proof (cases "mc_Rewriter cfg")
  case (Some rw)
  let ?p = "mutation_probability (mc_Probability cfg)"
  have "map (\<lambda>x. (lr_ID (f x), lr_Confidence (f x))) (enumerate n rules) = map (\<lambda>r. (lr_ID r, lr_Confidence r)) rules"
    if "\<And>i r. lr_ID (f (i, r)) = lr_ID r \<and> lr_Confidence (f (i, r)) = lr_Confidence r" for f :: "nat \<times> LearnedRule \<Rightarrow> LearnedRule" and n
    using that by (induction rules arbitrary: n) simp_all
  from this [of "\<lambda>(i, r). fst (mutate_one ?p (draws i) (rw i) r)" 0] Some
  show ?thesis by (simp add: mutate_one_fst Mutate_def Let_def comp_def case_prod_beta)
qed (simp add: Mutate_def)

end
