(* ===== verification/Economics.thy ===== *)
theory Economics
  imports GoTime
begin

text \<open>
  The money side of an epoch: \<^verbatim>\<open>internal/orchestrator/economics.go\<close> (the realized net profit of an
  agent and the ledger row it becomes), \<^verbatim>\<open>cost_attribution.go\<close> (the share of the monthly
  infrastructure bill) and \<^verbatim>\<open>treasury.go\<close> (the profit sweep).  The stores are interfaces whose
  answers are arguments; what a call writes is part of its result.
\<close>

section \<open>Settlement\<close>

record Ledger =
  l_AgentID :: string
  l_EpochID :: string
  l_RealizedTradingPnL :: f64
  l_TradingFees :: f64
  l_SlippageCost :: f64
  l_LLMCost :: f64
  l_InfraRent :: f64
  l_RPCCost :: f64
  l_UpstreamPaidToParent :: f64
  l_UpstreamPaidToRoot :: f64
  l_RealizedNetProfit :: f64

record TradeAggregates =
  ta_PnL :: f64
  ta_Fees :: f64
  ta_Slippage :: f64

record EconomicsStore =
  EpochWindow :: "string \<Rightarrow> (time \<times> time) result"
  AggregateTrades :: "string \<Rightarrow> string \<Rightarrow> TradeAggregates result"
  AggregateStrategistCost :: "string \<Rightarrow> time \<Rightarrow> time \<Rightarrow> f64 result"
  CarriedDebt :: "string \<Rightarrow> f64 result"
  InsertLedger :: "Ledger \<Rightarrow> unit result"

type_synonym CostAttributor = "string \<Rightarrow> time \<Rightarrow> time \<Rightarrow> (f64 \<times> f64) result"

definition net_profit :: "TradeAggregates \<Rightarrow> f64 \<Rightarrow> f64 \<Rightarrow> f64 \<Rightarrow> f64 \<Rightarrow> f64" where
  "net_profit agg llmCost infra rpc debt =
     fsub (fsub (fsub (fsub (fsub (fsub (ta_PnL agg) (ta_Fees agg)) (ta_Slippage agg)) llmCost) infra) rpc) debt"

definition settle_row :: "EconomicsStore \<Rightarrow> CostAttributor \<Rightarrow> string \<Rightarrow> string \<Rightarrow> Ledger result" where
  "settle_row store costs agentID epochID =
     bindr (wrapr ''economics.Settle: epoch window'' (EpochWindow store epochID)) (\<lambda>(start, stop).
     if \<not> start < stop then Fail ''economics.Settle: epoch window has non-positive duration'' else
     bindr (wrapr ''economics.Settle: aggregate trades'' (AggregateTrades store agentID epochID)) (\<lambda>agg.
     bindr (wrapr ''economics.Settle: aggregate strategist cost'' (AggregateStrategistCost store agentID start stop)) (\<lambda>llmCost.
     bindr (wrapr ''economics.Settle: attribute costs'' (costs agentID start stop)) (\<lambda>(infra, rpc).
     bindr (wrapr ''economics.Settle: carried debt'' (CarriedDebt store agentID)) (\<lambda>debt.
     Ok \<lparr>l_AgentID = agentID, l_EpochID = epochID, l_RealizedTradingPnL = ta_PnL agg, l_TradingFees = ta_Fees agg,
         l_SlippageCost = ta_Slippage agg, l_LLMCost = llmCost, l_InfraRent = infra, l_RPCCost = rpc,
         l_UpstreamPaidToParent = Fin 0, l_UpstreamPaidToRoot = Fin 0,
         l_RealizedNetProfit = net_profit agg llmCost infra rpc debt\<rparr>)))))"

text \<open>\<^verbatim>\<open>Settle\<close>, with the rows that reach the ledger table.\<close>

definition Settle :: "EconomicsStore option \<Rightarrow> CostAttributor option \<Rightarrow> string \<Rightarrow> string \<Rightarrow> Ledger list \<times> Ledger result" where
  "Settle store_p costs_p agentID epochID =
     (case (store_p, costs_p) of
        (None, _) \<Rightarrow> ([], Fail ''economics.Settle: nil store'')
      | (_, None) \<Rightarrow> ([], Fail ''economics.Settle: nil cost attributor'')
      | (Some store, Some costs) \<Rightarrow>
          if agentID = [] \<or> epochID = [] then ([], Fail ''economics.Settle: agent_id and epoch_id required'')
          else (case settle_row store costs agentID epochID of
                  Inl e \<Rightarrow> ([], Inl e)
                | Inr l \<Rightarrow> (case InsertLedger store l of
                    Inl e \<Rightarrow> ([], Inl (Wrap ''economics.Settle: insert ledger'' e))
                  | Inr _ \<Rightarrow> ([l], Ok l))))"

section \<open>Attribution of shared costs\<close>

record MonthlyCostInputs =
  MonthlyInfraUSD :: f64
  MonthlyRPCUSD :: f64
  MonthHours :: f64

record ActivityCounts =
  StrategistCalls :: int
  MonitorTicks :: int

record ActivityStore =
  AgentActivity :: "string \<Rightarrow> time \<Rightarrow> time \<Rightarrow> ActivityCounts result"
  SwarmActivity :: "time \<Rightarrow> time \<Rightarrow> ActivityCounts result"

record MonthlyAttributor =
  ma_store :: ActivityStore
  ma_cfg :: MonthlyCostInputs

definition NewMonthlyAttributor :: "ActivityStore option \<Rightarrow> MonthlyCostInputs \<Rightarrow> MonthlyAttributor result" where
  "NewMonthlyAttributor store cfg =
     (case store of
        None \<Rightarrow> Fail ''cost_attribution: nil store''
      | Some st \<Rightarrow>
          if fle (MonthHours cfg) (Fin 0) then Fail ''cost_attribution: MonthHours must be > 0''
          else if flt (MonthlyInfraUSD cfg) (Fin 0) \<or> flt (MonthlyRPCUSD cfg) (Fin 0)
          then Fail ''cost_attribution: negative monthly cost''
          else Ok \<lparr>ma_store = st, ma_cfg = cfg\<rparr>)"

definition activity :: "ActivityCounts \<Rightarrow> f64" where
  "activity c = f64_of_int (wrap64 (StrategistCalls c + MonitorTicks c))"

definition Attribute :: "MonthlyAttributor \<Rightarrow> string \<Rightarrow> time \<Rightarrow> time \<Rightarrow> (f64 \<times> f64) result" where
  "Attribute m agentID since until =
     (if agentID = [] then Fail ''cost_attribution: agent_id required''
      else if \<not> since < until then Ok (Fin 0, Fin 0)
      else let windowHours = Hours (time_sub until since);
               frac0 = fdiv windowHours (MonthHours (ma_cfg m));
               frac = (if flt frac0 (Fin 0) then Fin 0 else frac0);
               infraForWindow = fmul (MonthlyInfraUSD (ma_cfg m)) frac;
               rpcForWindow = fmul (MonthlyRPCUSD (ma_cfg m)) frac
           in bindr (wrapr ''cost_attribution: agent activity'' (AgentActivity (ma_store m) agentID since until)) (\<lambda>ag.
              bindr (wrapr ''cost_attribution: swarm activity'' (SwarmActivity (ma_store m) since until)) (\<lambda>sw.
              let denom = activity sw in
              if fle denom (Fin 0) then Ok (Fin 0, Fin 0)
              else let share = fdiv (activity ag) denom
                   in Ok (fmul infraForWindow share, fmul rpcForWindow share))))"

section \<open>Profit sweep\<close>

record Sweep =
  sw_AgentID :: string
  sw_ParentAgentID :: string
  AmountToParent :: f64
  AmountToRoot :: f64
  AmountRetained :: f64

record SweepInputs =
  in_AgentID :: string
  in_ParentAgentID :: string
  NetProfit :: f64
  in_CarriedDebt :: f64
  LineageReserveBalance :: f64
  LineageReserveFloor :: f64
  ParentSplitPct :: f64
  RootSplitPct :: f64

record SweepDecision =
  sd_Sweep :: Sweep
  sd_Skipped :: bool
  sd_Reason :: string

definition zero_sweep :: Sweep where
  "zero_sweep = \<lparr>sw_AgentID = [], sw_ParentAgentID = [], AmountToParent = Fin 0, AmountToRoot = Fin 0, AmountRetained = Fin 0\<rparr>"

abbreviation skip :: "string \<Rightarrow> SweepDecision result" where
  "skip reason \<equiv> Ok \<lparr>sd_Sweep = zero_sweep, sd_Skipped = True, sd_Reason = reason\<rparr>"

definition sweep_split :: "SweepInputs \<Rightarrow> Sweep" where
  "sweep_split i =
     (let parent0 = fmul (ParentSplitPct i) (NetProfit i);
          root0 = fmul (RootSplitPct i) (NetProfit i);
          rootShare = (if in_ParentAgentID i = [] then fadd root0 parent0 else root0);
          parentShare = (if in_ParentAgentID i = [] then Fin 0 else parent0);
          retained0 = fsub (fsub (NetProfit i) parentShare) rootShare;
          retained = (if flt retained0 (Fin 0) then Fin 0 else retained0)
      in \<lparr>sw_AgentID = in_AgentID i, sw_ParentAgentID = in_ParentAgentID i, AmountToParent = parentShare,
          AmountToRoot = rootShare, AmountRetained = retained\<rparr>)"

definition ComputeSweep :: "SweepInputs \<Rightarrow> SweepDecision result" where
  "ComputeSweep i =
     (if in_AgentID i = [] then Fail ''treasury.Sweep: agent_id required''
      else if flt (ParentSplitPct i) (Fin 0) \<or> flt (Fin 1) (ParentSplitPct i) then Fail ''treasury.Sweep: ParentSplitPct out of [0,1]''
      else if flt (RootSplitPct i) (Fin 0) \<or> flt (Fin 1) (RootSplitPct i) then Fail ''treasury.Sweep: RootSplitPct out of [0,1]''
      else if flt (Fin 1) (fadd (ParentSplitPct i) (RootSplitPct i)) then Fail ''treasury.Sweep: splits sum > 1''
      else if fle (NetProfit i) (Fin 0) then skip ''insolvent''
      else if flt (Fin 0) (in_CarriedDebt i) then skip ''carrying_debt''
      else if flt (LineageReserveBalance i) (LineageReserveFloor i) then skip ''below_reserve''
      else Ok \<lparr>sd_Sweep = sweep_split i, sd_Skipped = False, sd_Reason = []\<rparr>)"

text \<open>\<^verbatim>\<open>PersistSweep\<close>, with the rows that reach the sweep table.\<close>

definition PersistSweep :: "(Sweep \<Rightarrow> unit result) option \<Rightarrow> SweepDecision \<Rightarrow> Sweep list \<times> unit result" where
  "PersistSweep store d =
     (if sd_Skipped d then ([], Ok ())
      else case store of
             None \<Rightarrow> ([], Fail ''treasury.PersistSweep: nil store'')
           | Some ins \<Rightarrow> (case ins (sd_Sweep d) of Inl e \<Rightarrow> ([], Inl e) | Inr _ \<Rightarrow> ([sd_Sweep d], Ok ())))"

section \<open>Arithmetic of shares\<close>

text \<open>Amounts of money that are not negative and finite.\<close>

definition money :: "f64 \<Rightarrow> bool" where
  "money x \<longleftrightarrow> is_f64 x \<and> is_fin x \<and> fle (Fin 0) x"

lemma share_of_money: "money x \<Longrightarrow> in_unit p \<Longrightarrow> money (fmul p x) \<and> fle (fmul p x) x"
proof -
  assume x: "money x" and p: "in_unit p"
  note pf = in_unit_fin [OF p]
  have le: "fle (fmul p x) x" using x p pf by (auto simp: money_def in_unit_def intro: fmul_frac_le)
  have nn: "fle (Fin 0) (fmul p x)" using x p pf by (auto simp: money_def in_unit_def intro: fmul_nonneg)
  have "is_fin (fmul p x)" by (rule fle_between_fin [OF nn le]) (use x in \<open>simp_all add: money_def\<close>)
  with le nn show ?thesis by (simp add: money_def)
qed

lemma fsub_money_le: "is_f64 x \<Longrightarrow> is_fin x \<Longrightarrow> money y \<Longrightarrow> fle (fsub x y) x"
  by (rule fsub_le) (auto simp: money_def)

lemma fsub_neg_or_fin: "is_fin x \<Longrightarrow> is_f64 x \<Longrightarrow> money y \<Longrightarrow> is_fin (fsub x y) \<or> fsub x y = NInf"
  using fsub_money_le [of x y] by (cases "fsub x y"; cases x) (auto simp: fcmp_defs)

text \<open>Subtracting costs from a figure that may already be minus infinity never raises it.\<close>

definition below :: "f64 \<Rightarrow> f64 \<Rightarrow> bool" where
  "below x p \<longleftrightarrow> is_f64 x \<and> (is_fin x \<or> x = NInf) \<and> fle x p"

lemma below_fsub: "below x p \<Longrightarrow> is_fin p \<Longrightarrow> money y \<Longrightarrow> below (fsub x y) p"
proof -
  assume x: "below x p" and p: "is_fin p" and y: "money y"
  show ?thesis
  proof (cases "x = NInf")
    case True
    have "fsub NInf y = NInf" using y by (cases y) (auto simp: money_def fsub_def fadd_def)
    then show ?thesis using p by (cases p) (auto simp: True below_def fcmp_defs)
  next
    case False
    with x have f: "is_fin x" "is_f64 x" "fle x p" by (auto simp: below_def)
    have "is_f64 (fsub x y)" using f y by (simp add: money_def)
    then show ?thesis using fsub_neg_or_fin [OF f(1,2) y] fle_trans [OF fsub_money_le [OF f(2,1) y] f(3)]
      by (auto simp: below_def)
  qed
qed

lemma net_profit_below:
  assumes "is_f64 (ta_PnL agg)" "is_fin (ta_PnL agg)" "money (ta_Fees agg)" "money (ta_Slippage agg)"
    "money llm" "money infra" "money rpc" "money debt"
  shows "below (net_profit agg llm infra rpc debt) (ta_PnL agg)"
proof -
  have "below (ta_PnL agg) (ta_PnL agg)" using assms(1,2) by (simp add: below_def is_fin_not_nan)
  then show ?thesis unfolding net_profit_def by (intro below_fsub assms)
qed

lemma frac_unit: "fle (Fin 0) h \<Longrightarrow> is_f64 h \<Longrightarrow> fle h m \<Longrightarrow> is_fin m \<Longrightarrow> flt (Fin 0) m \<Longrightarrow> in_unit (fdiv h m)"
proof -
  assume h: "fle (Fin 0) h" "is_f64 h" "fle h m" "is_fin m" "flt (Fin 0) m"
  then have "is_fin h" using fle_between_fin [of "Fin 0" h m] by simp
  with h show ?thesis by (simp add: in_unit_def fdiv_nonneg fdiv_le_1)
qed

lemma in_unit_not_neg: "in_unit p \<Longrightarrow> \<not> flt p (Fin 0)"
  using flt_asym by (auto simp: in_unit_def)

lemma in_unit_iff_guard: "is_f64 p \<Longrightarrow> \<not> is_nan p \<Longrightarrow> in_unit p \<longleftrightarrow> \<not> (flt p (Fin 0) \<or> flt (Fin 1) p)"
  using flt_not_fle [of p "Fin 0"] flt_not_fle [of "Fin 1" p] by (auto simp: in_unit_def)

lemma settle_row_OkD:
  assumes "settle_row store costs a e = Ok l"
  obtains start stop agg llm infra rpc debt where
    "EpochWindow store e = Ok (start, stop)" "start < stop" "AggregateTrades store a e = Ok agg"
    "AggregateStrategistCost store a start stop = Ok llm" "costs a start stop = Ok (infra, rpc)" "CarriedDebt store a = Ok debt"
    "l = \<lparr>l_AgentID = a, l_EpochID = e, l_RealizedTradingPnL = ta_PnL agg, l_TradingFees = ta_Fees agg,
         l_SlippageCost = ta_Slippage agg, l_LLMCost = llm, l_InfraRent = infra, l_RPCCost = rpc,
         l_UpstreamPaidToParent = Fin 0, l_UpstreamPaidToRoot = Fin 0, l_RealizedNetProfit = net_profit agg llm infra rpc debt\<rparr>"
  using assms that unfolding settle_row_def by (auto simp: bindr_Ok_iff split: if_splits)

section \<open>Properties\<close>

text \<open>
  Settling an epoch writes the ledger row it returns, or it returns an error and writes nothing;
  the row is for the agent and epoch asked for, its window has positive length, the upstream columns
  are still zero, and with costs and debt that are not negative the net profit never exceeds the
  trading profit.
\<close>

theorem settle_all_or_nothing:
  assumes "Settle (Some store) (Some costs) a e = (rows, r)"
  shows "case r of
      Inl err \<Rightarrow> rows = []
    | Inr l \<Rightarrow> rows = [l] \<and> l_AgentID l = a \<and> l_EpochID l = e \<and> a \<noteq> [] \<and> e \<noteq> [] \<and> InsertLedger store l = Ok () \<and>
        (\<exists>start stop. EpochWindow store e = Ok (start, stop) \<and> start < stop) \<and>
        l_UpstreamPaidToParent l = Fin 0 \<and> l_UpstreamPaidToRoot l = Fin 0 \<and>
        (is_f64 (l_RealizedTradingPnL l) \<and> is_fin (l_RealizedTradingPnL l) \<and>
         list_all money [l_TradingFees l, l_SlippageCost l, l_LLMCost l, l_InfraRent l, l_RPCCost l] \<and>
         (\<forall>debt. CarriedDebt store a = Ok debt \<longrightarrow> money debt) \<longrightarrow>
         fle (l_RealizedNetProfit l) (l_RealizedTradingPnL l))"
proof (cases r)
  case (Inl err)
  then show ?thesis using assms by (auto simp: Settle_def split: if_splits sum.splits)
next
  case (Inr l)
  then have s: "settle_row store costs a e = Ok l" "rows = [l]" "InsertLedger store l = Ok ()" "a \<noteq> []" "e \<noteq> []"
    using assms by (auto simp: Settle_def split: if_splits sum.splits)
  from s(1) show ?thesis
  proof (cases rule: settle_row_OkD)
    case (1 start stop agg llm infra rpc debt)
    then show ?thesis using net_profit_below [of agg llm infra rpc debt] Inr s by (auto simp: below_def)
  qed
qed

theorem settle_all_or_nothing_witness:
  "\<exists>l. Settle (Some \<lparr>EpochWindow = (\<lambda>_. Ok (0, Hour)), AggregateTrades = (\<lambda>_ _. Ok \<lparr>ta_PnL = Fin 10, ta_Fees = Fin 1, ta_Slippage = Fin 1\<rparr>),
        AggregateStrategistCost = (\<lambda>_ _ _. Ok (Fin 2)), CarriedDebt = (\<lambda>_. Ok (Fin 0)), InsertLedger = (\<lambda>_. Ok ())\<rparr>)
      (Some (\<lambda>_ _ _. Ok (Fin 1, Fin 1))) ''a'' ''e'' = ([l], Ok l) \<and> l_RealizedNetProfit l = Fin 4 \<and>
    fle (l_RealizedNetProfit l) (l_RealizedTradingPnL l)"
proof -
  let ?st = "\<lparr>EpochWindow = (\<lambda>_. Ok (0, Hour)), AggregateTrades = (\<lambda>_ _. Ok \<lparr>ta_PnL = Fin 10, ta_Fees = Fin 1, ta_Slippage = Fin 1\<rparr>),
        AggregateStrategistCost = (\<lambda>_ _ _. Ok (Fin 2)), CarriedDebt = (\<lambda>_. Ok (Fin 0)), InsertLedger = (\<lambda>_. Ok ())\<rparr>"
  obtain rows r where s: "Settle (Some ?st) (Some (\<lambda>_ _ _. Ok (Fin 1, Fin 1))) ''a'' ''e'' = (rows, r)" by fastforce
  then obtain l where l: "r = Ok l" "l_RealizedNetProfit l = Fin 4" "l_RealizedTradingPnL l = Fin 10" "l_TradingFees l = Fin 1"
      "l_SlippageCost l = Fin 1" "l_LLMCost l = Fin 2" "l_InfraRent l = Fin 1" "l_RPCCost l = Fin 1"
    by (auto simp: Settle_def settle_row_def net_profit_def go_defs f64_simps)
  from settle_all_or_nothing [OF s] l have "rows = [l] \<and> fle (l_RealizedNetProfit l) (l_RealizedTradingPnL l)"
    by (simp add: money_def is_f64_Fin rnd_numeral)
  with s l show ?thesis by blast
qed

text \<open>
  An agent never pays more than its part of the bill: with activity counts that are not negative
  and not above the swarm's, over a window no longer than the month, both attributed amounts lie
  between zero and the configured monthly amount.
\<close>

theorem attribution_bounded:
  assumes "NewMonthlyAttributor store cfg = Ok m" "is_fin (MonthHours cfg)"
    "is_f64 (MonthlyInfraUSD cfg)" "is_fin (MonthlyInfraUSD cfg)" "is_f64 (MonthlyRPCUSD cfg)" "is_fin (MonthlyRPCUSD cfg)"
    and "fle (Hours (time_sub until since)) (MonthHours cfg)"
    and "AgentActivity (ma_store m) a since until = Ok ag" "SwarmActivity (ma_store m) since until = Ok sw"
    and "0 \<le> StrategistCalls ag + MonitorTicks ag" "StrategistCalls ag + MonitorTicks ag \<le> StrategistCalls sw + MonitorTicks sw"
      "StrategistCalls sw + MonitorTicks sw \<le> max_int64"
    and "a \<noteq> []"
  shows "\<exists>infra rpc. Attribute m a since until = Ok (infra, rpc) \<and> fle (Fin 0) infra \<and> fle infra (MonthlyInfraUSD cfg) \<and>
    fle (Fin 0) rpc \<and> fle rpc (MonthlyRPCUSD cfg)"
proof -
  from assms(1) have m: "ma_cfg m = cfg" "\<not> fle (MonthHours cfg) (Fin 0)" "\<not> flt (MonthlyInfraUSD cfg) (Fin 0)" "\<not> flt (MonthlyRPCUSD cfg) (Fin 0)"
    by (auto simp: NewMonthlyAttributor_def split: option.splits if_splits)
  have mon: "money (MonthlyInfraUSD cfg)" "money (MonthlyRPCUSD cfg)"
    using m(3,4) assms(3-6) flt_not_fle [of _ "Fin 0"] by (auto simp: money_def is_fin_not_nan)
  show ?thesis
  proof (cases "since < until")
    case False
    then show ?thesis using assms(13) mon by (auto simp: Attribute_def money_def)
  next
    case True
    let ?h = "Hours (time_sub until since)"
    have pos: "flt (Fin 0) (MonthHours cfg)" using m(2) fle_not_flt [of "MonthHours cfg" "Fin 0"] assms(2) by (simp add: is_fin_not_nan)
    have "0 \<le> time_sub until since" using True by (simp add: time_sub_def go_defs)
    then have "fle (Fin 0) ?h" by (rule Hours_nonneg) simp
    then have fr: "in_unit (fdiv ?h (MonthHours cfg))"
      using assms(7,2) pos by (intro frac_unit) (simp_all add: Hours_def)
    have w: "wrap64 (StrategistCalls ag + MonitorTicks ag) = StrategistCalls ag + MonitorTicks ag"
      "wrap64 (StrategistCalls sw + MonitorTicks sw) = StrategistCalls sw + MonitorTicks sw"
      using assms(10-12) by (auto intro!: wrap64_id simp: is_int64_def go_defs)
    have "is_int64 (StrategistCalls sw + MonitorTicks sw)" using assms(10-12) by (simp add: is_int64_def go_defs)
    then have act: "fle (Fin 0) (activity ag)" "fle (activity ag) (activity sw)" "is_fin (activity sw)" "is_f64 (activity ag)"
      unfolding activity_def w using assms(10,11) by (simp_all add: f64_of_int_nonneg f64_of_int_mono is_fin_f64_of_int del: of_int_add)
    let ?sh = "fdiv (activity ag) (activity sw)"
    have sh: "in_unit ?sh" if "\<not> fle (activity sw) (Fin 0)"
      using that act fle_not_flt [of "activity sw" "Fin 0"] by (intro frac_unit) (auto simp: is_fin_not_nan)
    have b: "fle (Fin 0) (fmul (fmul c fr) s) \<and> fle (fmul (fmul c fr) s) c" if "money c" "in_unit fr" "in_unit s" for c fr s
      using share_of_money [OF that(1,2)] share_of_money [of "fmul c fr" s] that(3)
      by (auto simp: fmul_comm [of c fr] fmul_comm [of "fmul fr c" s] money_def intro: fle_trans)
    show ?thesis using assms(8,9,13) True m(1) mon fr sh b [OF mon(1) fr sh] b [OF mon(2) fr sh] in_unit_not_neg [OF fr]
      by (cases "fle (activity sw) (Fin 0)") (auto simp: Attribute_def Let_def money_def)
  qed
qed

theorem attribution_bounded_witness:
  "\<exists>infra rpc. Attribute \<lparr>ma_store = \<lparr>AgentActivity = (\<lambda>_ _ _. Ok \<lparr>StrategistCalls = 1, MonitorTicks = 1\<rparr>), SwarmActivity = (\<lambda>_ _. Ok \<lparr>StrategistCalls = 2, MonitorTicks = 2\<rparr>)\<rparr>,
       ma_cfg = \<lparr>MonthlyInfraUSD = Fin 64, MonthlyRPCUSD = Fin 32, MonthHours = Fin 512\<rparr>\<rparr> ''a'' 0 (256 * Hour) = Ok (infra, rpc) \<and>
     fle infra (Fin 64) \<and> fle rpc (Fin 32)"
proof -
  let ?st = "\<lparr>AgentActivity = (\<lambda>_ _ _. Ok \<lparr>StrategistCalls = 1, MonitorTicks = 1\<rparr>), SwarmActivity = (\<lambda>_ _. Ok \<lparr>StrategistCalls = 2, MonitorTicks = 2\<rparr>)\<rparr> :: ActivityStore"
  let ?cfg = "\<lparr>MonthlyInfraUSD = Fin 64, MonthlyRPCUSD = Fin 32, MonthHours = Fin 512\<rparr> :: MonthlyCostInputs"
  have n: "NewMonthlyAttributor (Some ?st) ?cfg = Ok \<lparr>ma_store = ?st, ma_cfg = ?cfg\<rparr>" by (simp add: NewMonthlyAttributor_def)
  have "Hours (time_sub (256 * Hour) 0) = Fin 256"
    by (simp add: Hours_def time_sub_def godiv_def gomod_def go_defs f64_simps)
  then show ?thesis
    using attribution_bounded [OF n, of "256 * Hour" 0 "''a''" "\<lparr>StrategistCalls = 1, MonitorTicks = 1\<rparr>" "\<lparr>StrategistCalls = 2, MonitorTicks = 2\<rparr>"]
    by (auto simp: is_f64_Fin rnd_numeral go_defs)
qed

lemma sweep_amounts:
  assumes "ComputeSweep i = Ok d" "is_f64 (NetProfit i)" "is_fin (NetProfit i)"
    "is_f64 (ParentSplitPct i)" "\<not> is_nan (ParentSplitPct i)" "is_f64 (RootSplitPct i)" "\<not> is_nan (RootSplitPct i)"
  shows "if sd_Skipped d then sd_Sweep d = zero_sweep \<and> sd_Reason d \<noteq> []
    else flt (Fin 0) (NetProfit i) \<and> \<not> flt (Fin 0) (in_CarriedDebt i) \<and> \<not> flt (LineageReserveBalance i) (LineageReserveFloor i) \<and>
      fle (Fin 0) (AmountToParent (sd_Sweep d)) \<and> fle (AmountToParent (sd_Sweep d)) (NetProfit i) \<and>
      fle (Fin 0) (AmountToRoot (sd_Sweep d)) \<and>
      (if in_ParentAgentID i = [] then AmountToParent (sd_Sweep d) = Fin 0 else fle (AmountToRoot (sd_Sweep d)) (NetProfit i)) \<and>
      fle (Fin 0) (AmountRetained (sd_Sweep d)) \<and> fle (AmountRetained (sd_Sweep d)) (NetProfit i)"
proof (cases "sd_Skipped d")
  case True
  then show ?thesis using assms(1) by (auto simp: ComputeSweep_def split: if_splits)
next
  case False
  with assms(1) have d: "sd_Sweep d = sweep_split i" and
    g: "\<not> (flt (ParentSplitPct i) (Fin 0) \<or> flt (Fin 1) (ParentSplitPct i))" "\<not> (flt (RootSplitPct i) (Fin 0) \<or> flt (Fin 1) (RootSplitPct i))"
      "\<not> fle (NetProfit i) (Fin 0)" "\<not> flt (Fin 0) (in_CarriedDebt i)" "\<not> flt (LineageReserveBalance i) (LineageReserveFloor i)"
    by (auto simp: ComputeSweep_def split: if_splits)
  have u: "in_unit (ParentSplitPct i)" "in_unit (RootSplitPct i)"
    using in_unit_iff_guard assms(4-7) g(1,2) by blast+
  have pos: "flt (Fin 0) (NetProfit i)" using g(3) fle_not_flt [of "NetProfit i" "Fin 0"] assms(3) by (simp add: is_fin_not_nan)
  then have mon: "money (NetProfit i)" using assms(2,3) by (simp add: money_def flt_imp_fle)
  note p = share_of_money [OF mon u(1)] and r = share_of_money [OF mon u(2)]
  let ?p = "AmountToParent (sweep_split i)" and ?r = "AmountToRoot (sweep_split i)"
  have ps: "money ?p" "fle ?p (NetProfit i)"
    using p mon by (auto simp: sweep_split_def Let_def money_def is_f64_Fin)
  have rs: "fle (Fin 0) ?r" "in_ParentAgentID i \<noteq> [] \<longrightarrow> fle ?r (NetProfit i)" "is_f64 ?r"
    using p r by (auto simp: sweep_split_def Let_def money_def fadd_nonneg_ext)
  have "below (NetProfit i) (NetProfit i)" using assms(2,3) by (simp add: below_def is_fin_not_nan)
  from below_fsub [OF this assms(3) ps(1)] have b1: "below (fsub (NetProfit i) ?p) (NetProfit i)" .
  have b2: "\<not> flt (fsub (fsub (NetProfit i) ?p) ?r) (Fin 0) \<Longrightarrow> below (fsub (fsub (NetProfit i) ?p) ?r) (NetProfit i)"
  proof (cases "is_fin ?r")
    case True
    then show ?thesis using below_fsub [OF b1 assms(3)] rs by (simp add: money_def)
  next
    case False
    then have "?r = PInf" using fle_0_cases [OF rs(1)] by blast
    moreover assume "\<not> flt (fsub (fsub (NetProfit i) ?p) ?r) (Fin 0)"
    ultimately show ?thesis using b1 by (cases "fsub (NetProfit i) ?p") (auto simp: below_def fsub_def fadd_def fcmp_defs)
  qed
  have ret: "AmountRetained (sweep_split i) = (let x = fsub (fsub (NetProfit i) ?p) ?r in if flt x (Fin 0) then Fin 0 else x)"
    by (simp add: sweep_split_def Let_def)
  have "fle (Fin 0) (AmountRetained (sweep_split i)) \<and> fle (AmountRetained (sweep_split i)) (NetProfit i)"
    using b2 mon flt_not_fle [of "fsub (fsub (NetProfit i) ?p) ?r" "Fin 0"] fle_nan [of "fsub (fsub (NetProfit i) ?p) ?r" "NetProfit i"]
    by (auto simp: ret Let_def below_def money_def)
  moreover have "in_ParentAgentID i = [] \<Longrightarrow> ?p = Fin 0" by (simp add: sweep_split_def Let_def)
  ultimately show ?thesis using False d g pos ps rs by (simp add: money_def)
qed

section \<open>Rounding errors of a split\<close>

lemma rhe_err: "\<bar>of_int (rhe x) - x\<bar> \<le> 1 / 2"
proof -
  have "of_int \<lfloor>x\<rfloor> \<le> x" "x < of_int \<lfloor>x\<rfloor> + 1" by linarith+
  then show ?thesis unfolding rhe_def Let_def abs_le_iff
    by (simp only: of_int_add of_int_1 split: if_split) (intro conjI impI; linarith)
qed

lemma rmag_err: "\<bar>rmag a - a\<bar> \<le> 2 powi (fexp a) / 2"
proof -
  let ?q = "2 powi (fexp a) :: rat"
  have q: "0 < ?q" by (rule powi2_pos)
  then have "rmag a - a = (of_int (rhe (a / ?q)) - a / ?q) * ?q" by (simp add: rmag_def algebra_simps)
  then have "\<bar>rmag a - a\<bar> = \<bar>of_int (rhe (a / ?q)) - a / ?q\<bar> * ?q" using q by (simp add: abs_mult)
  also have "\<dots> \<le> 1 / 2 * ?q" by (rule mult_right_mono [OF rhe_err]) (use q in simp)
  finally show ?thesis by simp
qed

text \<open>Rounding a value of at most twice an ordinary amount moves it by at most that amount divided by \<open>2 ^ 52\<close>.\<close>

definition ordinary :: "rat \<Rightarrow> bool" where
  "ordinary n \<longleftrightarrow> 2 powi (- 1000) \<le> n \<and> n \<le> 2 ^ 900"

lemma fexp_small:
  assumes "ordinary n" "0 < a" "a \<le> 2 * n"
  shows "2 powi (fexp a) / 2 \<le> n / 2 ^ 52"
proof (cases "ilog2 a - 52 \<le> - 1074")
  case True
  define m where "m = (- 1000 :: int)"
  have f: "fexp a = m - 74" using True by (simp add: fexp_def m_def)
  have "(2::rat) powi (m - 74) = 2 powi m / 2 powi 74" by (rule power_int_diff) simp
  also have "\<dots> \<le> n / 2 powi 74" using assms(1) by (intro divide_right_mono) (simp_all add: ordinary_def m_def [symmetric])
  finally have "2 powi (fexp a) \<le> n / 2 ^ 74" by (simp add: f)
  moreover have "n / 2 ^ 74 \<le> n / 2 ^ 52" using assms(2,3) by (intro divide_left_mono power_increasing) simp_all
  ultimately show ?thesis using powi2_pos [of "fexp a"] by linarith
next
  case False
  then have "fexp a = ilog2 a - 52" by (simp add: fexp_def)
  moreover have "(2::rat) powi (ilog2 a - 52) = 2 powi (ilog2 a) / 2 powi 52" by (rule power_int_diff) simp
  ultimately have "2 powi (fexp a) = (2 powi (ilog2 a) :: rat) / 2 powi 52" by (simp only:)
  also have "\<dots> \<le> a / 2 powi 52" using ilog2_bounds [OF assms(2)] by (intro divide_right_mono) simp_all
  also have "\<dots> \<le> 2 * n / 2 powi 52" using assms(3) by (intro divide_right_mono) simp_all
  finally have "2 powi (fexp a) \<le> 2 * n / 2 ^ 52" by simp
  then show ?thesis by simp
qed

lemma fval_rnd: "is_fin (rnd x) \<Longrightarrow> fval (rnd x) = (if x < 0 then - rmag \<bar>x\<bar> else rmag \<bar>x\<bar>)"
  by (auto simp: rnd_def Let_def split: if_splits)

lemma rnd_near:
  assumes "ordinary n" "\<bar>x\<bar> \<le> 2 * n"
  shows "is_fin (rnd x) \<and> \<bar>fval (rnd x) - x\<bar> \<le> n / 2 ^ 52"
proof -
  have "2 * n \<le> 2 * 2 ^ 900" using assms(1) by (simp add: ordinary_def)
  also have "(2::rat) * 2 ^ 900 \<le> 2 ^ 1000" by simp
  finally have fin: "is_fin (rnd x)" using assms(2) by (intro is_fin_rnd) simp
  have "\<bar>rmag \<bar>x\<bar> - \<bar>x\<bar>\<bar> \<le> n / 2 ^ 52"
  proof (cases "x = 0")
    case True
    with assms(2) show ?thesis by simp
  next
    case False
    then show ?thesis using order_trans [OF rmag_err fexp_small [OF assms(1) _ assms(2)]] by simp
  qed
  with fin show ?thesis by (auto simp: fval_rnd abs_if split: if_splits)
qed

lemma op_near:
  assumes "ordinary n" "is_fin x" "is_fin y"
  shows "\<bar>fval x + fval y\<bar> \<le> 2 * n \<Longrightarrow> is_fin (fadd x y) \<and> \<bar>fval (fadd x y) - (fval x + fval y)\<bar> \<le> n / 2 ^ 52"
    "\<bar>fval x - fval y\<bar> \<le> 2 * n \<Longrightarrow> is_fin (fsub x y) \<and> \<bar>fval (fsub x y) - (fval x - fval y)\<bar> \<le> n / 2 ^ 52"
    "\<bar>fval x * fval y\<bar> \<le> 2 * n \<Longrightarrow> is_fin (fmul x y) \<and> \<bar>fval (fmul x y) - fval x * fval y\<bar> \<le> n / 2 ^ 52"
proof -
  have k: "is_fin a \<and> fval a = fval b" if "fkey a = fkey b" "is_fin b" "\<not> is_nan a" for a b
    using that by (cases a; cases b) auto
  show "is_fin (fadd x y) \<and> \<bar>fval (fadd x y) - (fval x + fval y)\<bar> \<le> n / 2 ^ 52" if "\<bar>fval x + fval y\<bar> \<le> 2 * n"
    using rnd_near [OF assms(1) that] k [OF fadd_key [OF assms(2,3)]] assms by simp
  show "is_fin (fsub x y) \<and> \<bar>fval (fsub x y) - (fval x - fval y)\<bar> \<le> n / 2 ^ 52" if "\<bar>fval x - fval y\<bar> \<le> 2 * n"
    using rnd_near [OF assms(1) that] k [OF fsub_key [OF assms(2,3)]] assms by simp
  show "is_fin (fmul x y) \<and> \<bar>fval (fmul x y) - fval x * fval y\<bar> \<le> n / 2 ^ 52" if "\<bar>fval x * fval y\<bar> \<le> 2 * n"
    using rnd_near [OF assms(1) that] k [OF fmul_key [OF assms(2,3)]] assms by simp
qed

text \<open>What is kept is the rest of the profit, so that the parts add up to it.\<close>

lemma rest_adds_up:
  assumes n: "ordinary (fval x)" "is_fin x" and p: "is_fin p" "0 \<le> fval p" and r: "is_fin r" "0 \<le> fval r"
    and s: "fval p + fval r \<le> fval x + 4 * (fval x / 2 ^ 52)"
    and k: "k = (let y = fsub (fsub x p) r in if flt y (Fin 0) then Fin 0 else y)"
  shows "is_fin k \<and> \<bar>fval p + fval r + fval k - fval x\<bar> \<le> fval x / 2 ^ 50"
proof -
  define n where "n = fval x"
  define e where "e = n / 2 ^ 52"
  have n0: "0 < n" using n(1) less_le_trans [OF powi2_pos] by (simp add: ordinary_def n_def)
  have e: "0 < e" "8 * e \<le> n" "4 * e = n / 2 ^ 50" using n0 by (simp_all add: e_def)
  have s': "fval p + fval r \<le> n + 4 * e" using s by (simp only: n_def e_def)
  have "\<bar>n - fval p\<bar> \<le> 2 * n" using s' p r e unfolding abs_le_iff by linarith
  from op_near(2) [OF n(1,2) p(1), folded n_def, folded e_def, OF this] have
    t1: "is_fin (fsub x p)" and t1': "\<bar>fval (fsub x p) - (n - fval p)\<bar> \<le> e" by blast+
  have "\<bar>fval (fsub x p) - fval r\<bar> \<le> 2 * n" using t1' s' p r e unfolding abs_le_iff by linarith
  from op_near(2) [OF n(1) t1 r(1), folded n_def, folded e_def, OF this] have
    t2: "is_fin (fsub (fsub x p) r)" and t2': "\<bar>fval (fsub (fsub x p) r) - (fval (fsub x p) - fval r)\<bar> \<le> e" by blast+
  have "flt (fsub (fsub x p) r) (Fin 0) \<longleftrightarrow> fval (fsub (fsub x p) r) < 0" using flt_fin [OF t2, of "Fin 0"] by simp
  then have k': "is_fin k" "fval k = (if fval (fsub (fsub x p) r) < 0 then 0 else fval (fsub (fsub x p) r))" using t2 by (auto simp: k Let_def)
  have "\<bar>fval p + fval r + fval k - n\<bar> \<le> 4 * e"
    using t1' t2' s' e(1) unfolding k'(2) abs_le_iff by (cases "fval (fsub (fsub x p) r) < 0") (simp_all only: if_True if_False, linarith+)
  with k'(1) show ?thesis by (simp only: e(3) n_def)
qed

lemma sweep_parts:
  assumes n: "ordinary (fval (NetProfit i))" "is_fin (NetProfit i)" and u: "in_unit (ParentSplitPct i)" "in_unit (RootSplitPct i)"
    and s: "\<not> flt (Fin 1) (fadd (ParentSplitPct i) (RootSplitPct i))"
  defines "d \<equiv> sweep_split i" and "e \<equiv> fval (NetProfit i) / 2 ^ 52"
  shows "is_fin (AmountToParent d) \<and> is_fin (AmountToRoot d) \<and> is_fin (AmountRetained d) \<and>
    \<bar>fval (AmountToParent d) + fval (AmountToRoot d) + fval (AmountRetained d) - fval (NetProfit i)\<bar> \<le> fval (NetProfit i) / 2 ^ 50 \<and>
    (in_ParentAgentID i \<noteq> [] \<longrightarrow> \<bar>fval (AmountToParent d) - fval (ParentSplitPct i) * fval (NetProfit i)\<bar> \<le> e \<and>
       \<bar>fval (AmountToRoot d) - fval (RootSplitPct i) * fval (NetProfit i)\<bar> \<le> e) \<and>
    (in_ParentAgentID i = [] \<longrightarrow> \<bar>fval (AmountToRoot d) - (fval (ParentSplitPct i) + fval (RootSplitPct i)) * fval (NetProfit i)\<bar> \<le> 3 * e)"
proof -
  define n where "n = fval (NetProfit i)"
  define a where "a = fval (ParentSplitPct i)"
  define b where "b = fval (RootSplitPct i)"
  have n0: "0 < n" using n(1) less_le_trans [OF powi2_pos] by (simp add: ordinary_def n_def)
  have en: "e = n / 2 ^ 52" by (simp only: e_def n_def)
  have e: "0 < e" "8 * e \<le> n" using n0 by (simp_all add: en)
  note fin = in_unit_fin [OF u(1)] in_unit_fin [OF u(2)]
  have ab: "0 \<le> a" "a \<le> 1" "0 \<le> b" "b \<le> 1" using u fin by (auto simp: in_unit_def fle_fin a_def b_def)
  have o: "ordinary 1" by (simp add: ordinary_def power_int_minus divide_simps)
  have "\<bar>a + b\<bar> \<le> 2 * 1" using ab unfolding abs_le_iff by linarith
  from op_near(1) [OF o fin, folded a_def b_def, OF this] have f: "is_fin (fadd (ParentSplitPct i) (RootSplitPct i))"
    "\<bar>fval (fadd (ParentSplitPct i) (RootSplitPct i)) - (a + b)\<bar> \<le> 1 / 2 ^ 52" by blast+
  have "fval (fadd (ParentSplitPct i) (RootSplitPct i)) \<le> 1" using s flt_fin [of "Fin 1", OF _ f(1)] by simp
  then have "a + b \<le> 1 + 1 / 2 ^ 52" using f(2) unfolding abs_le_iff by linarith
  then have "(a + b) * n \<le> (1 + 1 / 2 ^ 52) * n" using n0 by (intro mult_right_mono) simp_all
  also have "\<dots> = n + e" by (simp add: en algebra_simps)
  finally have sum: "a * n + b * n \<le> n + e" by (simp only: distrib_right)
  have an: "0 \<le> a * n" "a * n \<le> n" "0 \<le> b * n" "b * n \<le> n"
    using ab n0 mult_right_mono [of a 1 n] mult_right_mono [of b 1 n] by simp_all
  let ?p = "fmul (ParentSplitPct i) (NetProfit i)" and ?r = "fmul (RootSplitPct i) (NetProfit i)"
  have "\<bar>a * n\<bar> \<le> 2 * n" "\<bar>b * n\<bar> \<le> 2 * n" using an n0 unfolding abs_le_iff by linarith+
  with op_near(3) [OF n(1) fin(1) n(2)] op_near(3) [OF n(1) fin(2) n(2)]
  have p: "is_fin ?p" "\<bar>fval ?p - a * n\<bar> \<le> e" and r: "is_fin ?r" "\<bar>fval ?r - b * n\<bar> \<le> e"
    by (simp_all only: a_def b_def n_def e_def simp_thms)
  have nn: "0 \<le> fval ?p" "0 \<le> fval ?r"
    using fmul_nonneg [of "ParentSplitPct i" "NetProfit i"] fmul_nonneg [of "RootSplitPct i" "NetProfit i"] ab n0 fin n(2) p(1) r(1)
    by (auto simp: fle_fin a_def b_def n_def)
  show ?thesis
  proof (cases "in_ParentAgentID i = []")
    case False
    have "fval ?p + fval ?r \<le> n + 4 * e" using p(2) r(2) sum e unfolding abs_le_iff by linarith
    from rest_adds_up [OF n p(1) nn(1) r(1) nn(2), folded n_def, folded en, OF this refl]
    have "is_fin (AmountRetained d)" "\<bar>fval ?p + fval ?r + fval (AmountRetained d) - n\<bar> \<le> n / 2 ^ 50"
      using False by (simp_all only: d_def sweep_split_def Let_def if_False Sweep.select_convs)
    moreover have "AmountToParent d = ?p" "AmountToRoot d = ?r" using False by (simp_all add: d_def sweep_split_def Let_def)
    ultimately show ?thesis using False p r by (simp only: a_def b_def n_def simp_thms not_False_eq_True)
  next
    case True
    have "\<bar>fval ?r + fval ?p\<bar> \<le> 2 * n" using nn p(2) r(2) sum e unfolding abs_le_iff by linarith
    from op_near(1) [OF n(1) r(1) p(1), folded n_def, folded en, OF this] have
      t: "is_fin (fadd ?r ?p)" "\<bar>fval (fadd ?r ?p) - (fval ?r + fval ?p)\<bar> \<le> e" by blast+
    have "fle (Fin 0) (fadd ?r ?p)" using nn p(1) r(1) by (intro fadd_nonneg) (simp_all add: fle_fin)
    then have t0: "0 \<le> fval (fadd ?r ?p)" using t(1) by (simp add: fle_fin)
    have "0 + fval (fadd ?r ?p) \<le> n + 4 * e" using t(2) p(2) r(2) sum e unfolding abs_le_iff by linarith
    then have le: "fval (Fin 0) + fval (fadd ?r ?p) \<le> n + 4 * e" by simp
    have z: "is_fin (Fin 0)" "0 \<le> fval (Fin 0)" by simp_all
    have am: "AmountToParent d = Fin 0" "AmountToRoot d = fadd ?r ?p"
      "AmountRetained d = (let y = fsub (fsub (NetProfit i) (Fin 0)) (fadd ?r ?p) in if flt y (Fin 0) then Fin 0 else y)"
      using True by (simp_all add: d_def sweep_split_def Let_def)
    from rest_adds_up [OF n z t(1) t0, folded n_def, folded en, OF le am(3)]
    have "is_fin (AmountRetained d) \<and> \<bar>fval (Fin 0) + fval (fadd ?r ?p) + fval (AmountRetained d) - n\<bar> \<le> n / 2 ^ 50" .
    moreover have "\<bar>fval (fadd ?r ?p) - (a + b) * n\<bar> \<le> 3 * e" using t(2) p(2) r(2) unfolding abs_le_iff distrib_right by linarith
    ultimately show ?thesis using True t(1) am(1,2) z(1) by (simp only: a_def b_def n_def simp_thms)
  qed
qed

text \<open>
  C11: a sweep divides the profit.  For a finite profit and splits that are numbers, a decision that is not skipped has a positive profit,
  no debt and enough reserve; the amounts to the parent and retained, and the amount to the root of an agent with a
  parent, lie between zero and the profit; and for a profit between \<open>2 powi -1000\<close> and \<open>2 ^ 900\<close> the three amounts are finite
  and add up to it within a part in \<open>2 ^ 50\<close>, the parent and the root getting their splits of it, or the root both splits when there is
  no parent.  A skipped decision carries no amount.
\<close>

theorem sweep_within_profit:
  assumes "ComputeSweep i = Ok d" "is_f64 (NetProfit i)" "is_fin (NetProfit i)"
    "is_f64 (ParentSplitPct i)" "\<not> is_nan (ParentSplitPct i)" "is_f64 (RootSplitPct i)" "\<not> is_nan (RootSplitPct i)"
  shows "if sd_Skipped d then sd_Sweep d = zero_sweep \<and> sd_Reason d \<noteq> []
    else let p = AmountToParent (sd_Sweep d); r = AmountToRoot (sd_Sweep d); k = AmountRetained (sd_Sweep d); n = fval (NetProfit i) in
      flt (Fin 0) (NetProfit i) \<and> \<not> flt (Fin 0) (in_CarriedDebt i) \<and> \<not> flt (LineageReserveBalance i) (LineageReserveFloor i) \<and>
      fle (Fin 0) p \<and> fle p (NetProfit i) \<and> fle (Fin 0) r \<and> fle (Fin 0) k \<and> fle k (NetProfit i) \<and>
      (if in_ParentAgentID i = [] then p = Fin 0 else fle r (NetProfit i)) \<and>
      (ordinary n \<longrightarrow> is_fin p \<and> is_fin r \<and> is_fin k \<and> \<bar>fval p + fval r + fval k - n\<bar> \<le> n / 2 ^ 50 \<and>
         (in_ParentAgentID i \<noteq> [] \<longrightarrow> \<bar>fval p - fval (ParentSplitPct i) * n\<bar> \<le> n / 2 ^ 52 \<and> \<bar>fval r - fval (RootSplitPct i) * n\<bar> \<le> n / 2 ^ 52) \<and>
         (in_ParentAgentID i = [] \<longrightarrow> \<bar>fval r - (fval (ParentSplitPct i) + fval (RootSplitPct i)) * n\<bar> \<le> 3 * (n / 2 ^ 52)))"
proof (cases "sd_Skipped d")
  case True
  then show ?thesis using sweep_amounts [OF assms] by simp
next
  case False
  with assms(1) have d: "sd_Sweep d = sweep_split i" and
    g: "\<not> (flt (ParentSplitPct i) (Fin 0) \<or> flt (Fin 1) (ParentSplitPct i))" "\<not> (flt (RootSplitPct i) (Fin 0) \<or> flt (Fin 1) (RootSplitPct i))"
      "\<not> flt (Fin 1) (fadd (ParentSplitPct i) (RootSplitPct i))"
    by (auto simp: ComputeSweep_def split: if_splits)
  have u: "in_unit (ParentSplitPct i)" "in_unit (RootSplitPct i)" using in_unit_iff_guard assms(4-7) g(1,2) by blast+
  show ?thesis using False sweep_amounts [OF assms] sweep_parts [OF _ assms(3) u g(3)] by (auto simp: Let_def d)
qed

theorem sweep_within_profit_witness:
  "\<exists>d. ComputeSweep \<lparr>in_AgentID = ''a'', in_ParentAgentID = ''p'', NetProfit = Fin 8, in_CarriedDebt = Fin 0, LineageReserveBalance = Fin 1,
      LineageReserveFloor = Fin 1, ParentSplitPct = Fin (1/2), RootSplitPct = Fin (1/2)\<rparr> = Ok d \<and> \<not> sd_Skipped d \<and>
    AmountToParent (sd_Sweep d) = Fin 4 \<and> fle (AmountRetained (sd_Sweep d)) (Fin 8)"
proof -
  let ?i = "\<lparr>in_AgentID = ''a'', in_ParentAgentID = ''p'', NetProfit = Fin 8, in_CarriedDebt = Fin 0, LineageReserveBalance = Fin 1,
      LineageReserveFloor = Fin 1, ParentSplitPct = Fin (1/2), RootSplitPct = Fin (1/2)\<rparr> :: SweepInputs"
  obtain d where d: "ComputeSweep ?i = Ok d" "\<not> sd_Skipped d" "AmountToParent (sd_Sweep d) = Fin 4"
    by (auto simp: ComputeSweep_def sweep_split_def f64_simps)
  with sweep_within_profit [OF d(1)] show ?thesis by (auto simp: is_f64_Fin rnd_numeral Let_def)
qed

text \<open>
  The range checks of a sweep do not see NaN: a split that is not a number passes all of them and
  the amounts of the resulting sweep are not numbers.
\<close>

theorem sweep_nan_split_accepted:
  "\<exists>d. ComputeSweep \<lparr>in_AgentID = ''a'', in_ParentAgentID = ''p'', NetProfit = Fin 8, in_CarriedDebt = Fin 0, LineageReserveBalance = Fin 1,
      LineageReserveFloor = Fin 1, ParentSplitPct = NaN, RootSplitPct = Fin 1\<rparr> = Ok d \<and> \<not> sd_Skipped d \<and>
    AmountToParent (sd_Sweep d) = NaN \<and> AmountRetained (sd_Sweep d) = NaN"
  by (simp add: ComputeSweep_def sweep_split_def f64_simps)

lemma skipped_sweep_not_written: "sd_Skipped d \<Longrightarrow> PersistSweep store d = ([], Ok ())"
  by (simp add: PersistSweep_def)

lemma persist_sweep_writes: "PersistSweep store d = (rows, Ok ()) \<Longrightarrow> rows = (if sd_Skipped d then [] else [sd_Sweep d])"
  by (auto simp: PersistSweep_def split: if_splits option.splits sum.splits)

end
