(* ===== verification/Json.thy ===== *)
theory Json
  imports Float64
begin

text \<open>
  Reading the answers of a language model.  \<open>extractJSONObject\<close> is the balanced-brace scanner that
  \<^verbatim>\<open>internal/agent/strategist.go\<close> and \<^verbatim>\<open>internal/orchestrator/quality_check.go\<close> both define; the
  rest is what they use of \<^verbatim>\<open>encoding/json\<close>: the grammar of RFC 8259, and decoding of an object into
  a struct of string fields (keys match up to letter case, a null leaves the field alone, the last of
  several equal keys wins, a value of another type is an error).  Text is a list of bytes; input
  strings are taken to be valid UTF-8.
\<close>

section \<open>Finding the object\<close>

text \<open>The scanner state: brace depth, inside a string, after a backslash.\<close>

fun scan_object :: "string \<Rightarrow> int \<Rightarrow> bool \<Rightarrow> bool \<Rightarrow> string option" where
  "scan_object [] depth inString escape = None"
| "scan_object (c # cs) depth inString escape =
     map_option ((#) c)
       (if escape then scan_object cs depth inString False
        else if inString then
          (if c = CHR 0x5C then scan_object cs depth True True
           else if c = CHR 0x22 then scan_object cs depth False False
           else scan_object cs depth True False)
        else if c = CHR 0x22 then scan_object cs depth True False
        else if c = CHR ''{'' then scan_object cs (depth + 1) False False
        else if c = CHR ''}'' then (if depth - 1 = 0 then Some [] else scan_object cs (depth - 1) False False)
        else scan_object cs depth False False)"

definition extractJSONObject :: "string \<Rightarrow> string" where
  "extractJSONObject s =
     (case dropWhile (\<lambda>c. c \<noteq> CHR ''{'') s of
        [] \<Rightarrow> []
      | t \<Rightarrow> (case scan_object t 0 False False of None \<Rightarrow> [] | Some body \<Rightarrow> body))"

section \<open>The grammar\<close>

datatype json = JsNull | JsBool bool | JsNum string | JsStr string | JsArr "json list" | JsObj "(string \<times> json) list"

definition is_ws :: "char \<Rightarrow> bool" where
  "is_ws c \<longleftrightarrow> (of_char c :: nat) \<in> {9, 10, 13, 32}"

definition skip_ws :: "string \<Rightarrow> string" where "skip_ws = dropWhile is_ws"

definition is_digit :: "char \<Rightarrow> bool" where
  "is_digit c \<longleftrightarrow> 48 \<le> (of_char c :: nat) \<and> (of_char c :: nat) \<le> 57"

definition hex_val :: "char \<Rightarrow> nat option" where
  "hex_val c = (let n = (of_char c :: nat) in
     if 48 \<le> n \<and> n \<le> 57 then Some (n - 48)
     else if 97 \<le> n \<and> n \<le> 102 then Some (n - 87)
     else if 65 \<le> n \<and> n \<le> 70 then Some (n - 55) else None)"

definition hex4 :: "string \<Rightarrow> (nat \<times> string) option" where
  "hex4 s = (case s of
     a # b # c # d # rest \<Rightarrow>
       (case (hex_val a, hex_val b, hex_val c, hex_val d) of
          (Some w, Some x, Some y, Some z) \<Rightarrow> Some (((w * 16 + x) * 16 + y) * 16 + z, rest)
        | _ \<Rightarrow> None)
   | _ \<Rightarrow> None)"

definition utf8 :: "nat \<Rightarrow> string" where
  "utf8 n =
     (if n < 0x80 then [char_of n]
      else if n < 0x800 then [char_of (0xC0 + n div 64), char_of (0x80 + n mod 64)]
      else if n < 0x10000 then [char_of (0xE0 + n div 4096), char_of (0x80 + n div 64 mod 64), char_of (0x80 + n mod 64)]
      else [char_of (0xF0 + n div 262144), char_of (0x80 + n div 4096 mod 64), char_of (0x80 + n div 64 mod 64), char_of (0x80 + n mod 64)])"

text \<open>A \<^verbatim>\<open>\u\<close> escape: surrogate pairs are joined, a lone surrogate becomes U+FFFD.\<close>

definition unicode_escape :: "string \<Rightarrow> (string \<times> string) option" where
  "unicode_escape s = (case hex4 s of None \<Rightarrow> None
   | Some (n, rest) \<Rightarrow>
      if 0xD800 \<le> n \<and> n < 0xE000 then
        (case rest of
           a # b # rest2 \<Rightarrow>
             (if a = CHR 0x5C \<and> b = CHR ''u'' then
               (case hex4 rest2 of
                  Some (m, rest3) \<Rightarrow>
                    (if n < 0xDC00 \<and> 0xDC00 \<le> m \<and> m < 0xE000
                     then Some (utf8 (0x10000 + (n - 0xD800) * 1024 + (m - 0xDC00)), rest3)
                     else Some (utf8 0xFFFD, rest))
                | None \<Rightarrow> Some (utf8 0xFFFD, rest))
              else Some (utf8 0xFFFD, rest))
         | _ \<Rightarrow> Some (utf8 0xFFFD, rest))
      else Some (utf8 n, rest))"

definition simple_escape :: "char \<Rightarrow> char option" where
  "simple_escape c =
     map_of [(CHR 0x22, CHR 0x22), (CHR 0x5C, CHR 0x5C), (CHR ''/'', CHR ''/''), (CHR ''b'', CHR 0x08),
             (CHR ''f'', CHR 0x0C), (CHR ''n'', CHR 0x0A), (CHR ''r'', CHR 0x0D), (CHR ''t'', CHR 0x09)] c"

text \<open>The recursions on the rest of the input check that it got shorter, which it always does.\<close>

function parse_string_body :: "string \<Rightarrow> (string \<times> string) option" where
  "parse_string_body s =
     (case s of
        [] \<Rightarrow> None
      | c # cs \<Rightarrow>
          if c = CHR 0x22 then Some ([], cs)
          else if c = CHR 0x5C then
            (case cs of
               [] \<Rightarrow> None
             | e # es \<Rightarrow>
                 (case (if e = CHR ''u'' then unicode_escape es else map_option (\<lambda>x. ([x], es)) (simple_escape e)) of
                    None \<Rightarrow> None
                  | Some (u, rest) \<Rightarrow>
                      (if length rest < length s
                       then map_option (\<lambda>(t, r). (u @ t, r)) (parse_string_body rest) else None)))
          else if (of_char c :: nat) < 32 then None
          else map_option (\<lambda>(t, r). (c # t, r)) (parse_string_body cs))"
  by pat_completeness auto
termination by (relation "measure length") auto

definition parse_frac :: "string \<Rightarrow> (string \<times> string) option" where
  "parse_frac s = (case s of
     c # cs \<Rightarrow> if c = CHR ''.'' then (let ds = takeWhile is_digit cs in if ds = [] then None else Some (c # ds, dropWhile is_digit cs))
              else Some ([], s)
   | [] \<Rightarrow> Some ([], s))"

definition parse_exp :: "string \<Rightarrow> (string \<times> string) option" where
  "parse_exp s = (case s of
     c # cs \<Rightarrow> if c = CHR ''e'' \<or> c = CHR ''E'' then
                (let (sg, ds) = (case cs of x # xs \<Rightarrow> if x = CHR ''+'' \<or> x = CHR ''-'' then ([x], xs) else ([], cs) | [] \<Rightarrow> ([], cs));
                     n = takeWhile is_digit ds
                 in if n = [] then None else Some (c # sg @ n, dropWhile is_digit ds))
              else Some ([], s)
   | [] \<Rightarrow> Some ([], s))"

definition parse_number :: "string \<Rightarrow> (string \<times> string) option" where
  "parse_number s =
     (let (sg, t) = (case s of c # cs \<Rightarrow> if c = CHR ''-'' then ([c], cs) else ([], s) | [] \<Rightarrow> ([], s));
          ds = takeWhile is_digit t
      in if ds = [] then None
         else let (i, r) = (if hd ds = CHR ''0'' then ([hd ds], tl t) else (ds, dropWhile is_digit t))
              in (case parse_frac r of None \<Rightarrow> None
                  | Some (f, r2) \<Rightarrow> (case parse_exp r2 of None \<Rightarrow> None
                      | Some (e, r3) \<Rightarrow> Some (sg @ i @ f @ e, r3))))"

definition lit :: "string \<Rightarrow> json \<Rightarrow> string \<Rightarrow> (json \<times> string) option" where
  "lit w v s = (if take (length w) s = w then Some (v, drop (length w) s) else None)"

datatype pmode = PVal | PElems | PMembers

text \<open>
  One function for values, the elements of an array after \<^verbatim>\<open>[\<close> and the members of an object after
  \<^verbatim>\<open>{\<close> (or after a comma); the boolean says that a closing bracket may come at once.
\<close>

function parse_json :: "pmode \<Rightarrow> bool \<Rightarrow> string \<Rightarrow> (json \<times> string) option" where
  "parse_json PVal b s0 =
     (case skip_ws s0 of
        [] \<Rightarrow> None
      | c # cs \<Rightarrow>
          if c = CHR ''{'' then (if length cs < length s0 then parse_json PMembers True cs else None)
          else if c = CHR ''['' then (if length cs < length s0 then parse_json PElems True cs else None)
          else if c = CHR 0x22 then map_option (\<lambda>(t, r). (JsStr t, r)) (parse_string_body cs)
          else if c = CHR ''t'' then lit ''true'' (JsBool True) (c # cs)
          else if c = CHR ''f'' then lit ''false'' (JsBool False) (c # cs)
          else if c = CHR ''n'' then lit ''null'' JsNull (c # cs)
          else map_option (\<lambda>(t, r). (JsNum t, r)) (parse_number (c # cs)))"
| "parse_json PElems first s0 =
     (case skip_ws s0 of
        [] \<Rightarrow> None
      | c # cs \<Rightarrow>
          if first \<and> c = CHR '']'' then Some (JsArr [], cs)
          else (case parse_json PVal False (c # cs) of
                  None \<Rightarrow> None
                | Some (v, r) \<Rightarrow>
                    (case skip_ws r of
                       [] \<Rightarrow> None
                     | d # ds \<Rightarrow>
                         if d = CHR '']'' then Some (JsArr [v], ds)
                         else if d = CHR '','' \<and> length ds < length s0 then
                           (case parse_json PElems False ds of
                              Some (JsArr vs, r2) \<Rightarrow> Some (JsArr (v # vs), r2)
                            | _ \<Rightarrow> None)
                         else None)))"
| "parse_json PMembers first s0 =
     (case skip_ws s0 of
        [] \<Rightarrow> None
      | c # cs \<Rightarrow>
          if first \<and> c = CHR ''}'' then Some (JsObj [], cs)
          else if c \<noteq> CHR 0x22 then None
          else (case parse_string_body cs of
                  None \<Rightarrow> None
                | Some (k, r0) \<Rightarrow>
                    (case skip_ws r0 of
                       [] \<Rightarrow> None
                     | e # es \<Rightarrow>
                         if e = CHR '':'' \<and> length es < length s0 then
                           (case parse_json PVal False es of
                              None \<Rightarrow> None
                            | Some (v, r) \<Rightarrow>
                                (case skip_ws r of
                                   [] \<Rightarrow> None
                                 | d # ds \<Rightarrow>
                                     if d = CHR ''}'' then Some (JsObj [(k, v)], ds)
                                     else if d = CHR '','' \<and> length ds < length s0 then
                                       (case parse_json PMembers False ds of
                                          Some (JsObj ms, r2) \<Rightarrow> Some (JsObj ((k, v) # ms), r2)
                                        | _ \<Rightarrow> None)
                                     else None))
                         else None)))"
  by pat_completeness auto
termination
proof (relation "measure (\<lambda>(m, b, s). 2 * length s + (if m = PVal then 0 else 1))", goal_cases)
  case (4 b s0 c cs)
  have "length (c # cs) \<le> length s0" using 4(1) by (metis length_dropWhile_le skip_ws_def)
  then show ?case by simp
qed (auto simp: length_dropWhile_le)

text \<open>\<^verbatim>\<open>Decoder.Decode\<close>: the first value of the input; what follows it is not read.\<close>

definition decode_json :: "string \<Rightarrow> json option" where
  "decode_json s = map_option fst (parse_json PVal False s)"

section \<open>Decoding into a struct\<close>

definition key_matches :: "string \<Rightarrow> string \<Rightarrow> bool" where
  "key_matches field key \<longleftrightarrow> ToLower field = ToLower key"

text \<open>A field of type \<^verbatim>\<open>string\<close>, starting from the empty string.\<close>

fun string_field :: "string \<Rightarrow> (string \<times> json) list \<Rightarrow> string \<Rightarrow> string option" where
  "string_field f [] cur = Some cur"
| "string_field f ((k, v) # ms) cur =
     (if key_matches f k then
        (case v of JsStr s \<Rightarrow> string_field f ms s | JsNull \<Rightarrow> string_field f ms cur | _ \<Rightarrow> None)
      else string_field f ms cur)"

text \<open>A field of type \<^verbatim>\<open>json.RawMessage\<close>: the last value given, if any.\<close>

fun raw_field :: "string \<Rightarrow> (string \<times> json) list \<Rightarrow> json option \<Rightarrow> json option" where
  "raw_field f [] cur = cur"
| "raw_field f ((k, v) # ms) cur = raw_field f ms (if key_matches f k then Some v else cur)"

declare parse_string_body.simps [simp del] parse_json.simps [simp del]

section \<open>What the scanner finds\<close>

text \<open>The scanner's transition on one byte, without the early return.\<close>

fun brace_step :: "int \<times> bool \<times> bool \<Rightarrow> char \<Rightarrow> int \<times> bool \<times> bool" where
  "brace_step (d, q, e) c =
     (if e then (d, q, False)
      else if q then (d, c \<noteq> CHR 0x22, c = CHR 0x5C)
      else (d + (if c = CHR ''{'' then 1 else if c = CHR ''}'' then - 1 else 0), c = CHR 0x22, False))"

definition depth_at :: "int \<times> bool \<times> bool \<Rightarrow> string \<Rightarrow> int" where
  "depth_at st t = fst (foldl brace_step st t)"

text \<open>A span that opens with a brace and whose braces outside strings first balance at its end.\<close>

definition object_span :: "string \<Rightarrow> bool" where
  "object_span b \<longleftrightarrow> b \<noteq> [] \<and> hd b = CHR ''{'' \<and> depth_at (0, False, False) b = 0 \<and>
     (\<forall>n. 0 < n \<and> n < length b \<longrightarrow> 0 < depth_at (0, False, False) (take n b))"

definition first_zero :: "int \<times> bool \<times> bool \<Rightarrow> string \<Rightarrow> bool" where
  "first_zero st b \<longleftrightarrow> b \<noteq> [] \<and> depth_at st b = 0 \<and> (\<forall>n. 0 < n \<and> n < length b \<longrightarrow> 0 < depth_at st (take n b))"

lemma depth_at_Cons [simp]: "depth_at st (c # t) = depth_at (brace_step st c) t" "depth_at st [] = fst st"
  by (simp_all add: depth_at_def)

lemma first_zero_Cons:
  "first_zero st (c # t) \<longleftrightarrow> (if t = [] then fst (brace_step st c) = 0 else 0 < fst (brace_step st c) \<and> first_zero (brace_step st c) t)"
proof (cases t)
  case (Cons d u)
  have "(\<forall>n. 0 < n \<and> n < Suc (length t) \<longrightarrow> 0 < depth_at st (take n (c # t))) \<longleftrightarrow>
      0 < fst (brace_step st c) \<and> (\<forall>n. 0 < n \<and> n < length t \<longrightarrow> 0 < depth_at (brace_step st c) (take n t))"
  proof (intro iffI conjI allI impI)
    assume h: "\<forall>n. 0 < n \<and> n < Suc (length t) \<longrightarrow> 0 < depth_at st (take n (c # t))"
    show "0 < fst (brace_step st c)" using h [rule_format, of 1] Cons by simp
    fix n assume "0 < n \<and> n < length t"
    then show "0 < depth_at (brace_step st c) (take n t)" using h [rule_format, of "Suc n"] by simp
  next
    fix n assume "0 < fst (brace_step st c) \<and> (\<forall>n. 0 < n \<and> n < length t \<longrightarrow> 0 < depth_at (brace_step st c) (take n t))"
      and "0 < n \<and> n < Suc (length t)"
    then show "0 < depth_at st (take n (c # t))" by (cases n; cases "n - 1") auto
  qed
  then show ?thesis using Cons by (auto simp: first_zero_def)
qed (simp add: first_zero_def)

lemma scan_object_step:
  "\<not> (\<not> e \<and> \<not> q \<and> c = CHR ''}'' \<and> d = 1) \<Longrightarrow>
   scan_object (c # cs) d q e = map_option ((#) c) (case brace_step (d, q, e) c of (d', q', e') \<Rightarrow> scan_object cs d' q' e')"
  by (cases e; cases q) auto

lemma scan_object_Some:
  "1 \<le> d \<Longrightarrow> (q \<or> \<not> e) \<Longrightarrow> scan_object t d q e = Some b \<longleftrightarrow> (\<exists>post. t = b @ post) \<and> first_zero (d, q, e) b"
proof (induction t arbitrary: d q e b)
  case Nil
  then show ?case by (auto simp: first_zero_def)
next
  case (Cons c cs)
  show ?case
  proof (cases b)
    case Nil
    then show ?thesis by (auto simp: first_zero_def)
  next
    case b: (Cons c' b')
    show ?thesis
    proof (cases "\<not> e \<and> \<not> q \<and> c = CHR ''}'' \<and> d = 1")
      case True
      then show ?thesis by (auto simp: b first_zero_Cons first_zero_def)
    next
      case False
      let ?st = "brace_step (d, q, e) c"
      obtain d' q' e' where st: "?st = (d', q', e')" by (metis prod_cases3)
      have ok: "1 \<le> d'" "q' \<or> \<not> e'" using st Cons.prems False by (auto split: if_splits)
      have "scan_object (c # cs) d q e = map_option ((#) c) (scan_object cs d' q' e')"
        using scan_object_step [OF False, of cs] st by simp
      then have "scan_object (c # cs) d q e = Some b \<longleftrightarrow> c = c' \<and> scan_object cs d' q' e' = Some b'"
        unfolding b by (simp only: map_option_eq_Some list.inject) blast
      also have "\<dots> \<longleftrightarrow> c = c' \<and> (\<exists>post. cs = b' @ post) \<and> first_zero (d', q', e') b'" using Cons.IH [OF ok] by simp
      also have "first_zero (d', q', e') b' \<longleftrightarrow> first_zero (d, q, e) (c # b')"
        using ok(1) by (cases "b' = []") (simp_all only: first_zero_Cons st fst_conv, simp_all add: first_zero_def)
      also have "(c = c' \<and> (\<exists>post. cs = b' @ post) \<and> first_zero (d, q, e) (c # b')) \<longleftrightarrow>
          (\<exists>post. c # cs = b @ post) \<and> first_zero (d, q, e) b"
        unfolding b append_Cons list.inject by blast
      finally show ?thesis .
    qed
  qed
qed

lemma scan_object_brace:
  "scan_object (CHR ''{'' # t) 0 False False = Some b \<longleftrightarrow> (\<exists>post. CHR ''{'' # t = b @ post) \<and> object_span b"
proof (cases b)
  case (Cons c b')
  have "object_span (CHR ''{'' # b') \<longleftrightarrow> b' \<noteq> [] \<and> first_zero (1, False, False) b'"
    using first_zero_Cons [of "(0, False, False)" "CHR ''{''" b'] by (auto simp: object_span_def first_zero_def)
  moreover have "first_zero (1, False, False) b' \<Longrightarrow> b' \<noteq> []" by (auto simp: first_zero_def)
  ultimately show ?thesis using Cons scan_object_Some [of 1 False False t b'] by (auto simp: object_span_def)
qed (auto simp: object_span_def)

lemma drop_to_brace:
  assumes "s = pre @ CHR ''{'' # t" "CHR ''{'' \<notin> set pre"
  shows "dropWhile (\<lambda>c. c \<noteq> CHR ''{'') s = CHR ''{'' # t"
  using assms(2) unfolding assms(1) by (induction pre) auto

lemma object_span_Cons: "object_span b \<Longrightarrow> \<exists>b'. b = CHR ''{'' # b'"
  by (cases b) (auto simp: object_span_def)

lemma extract_iff:
  "(extractJSONObject s = b \<and> b \<noteq> []) \<longleftrightarrow> (\<exists>pre post. s = pre @ b @ post \<and> CHR ''{'' \<notin> set pre \<and> object_span b)"
proof
  assume a: "extractJSONObject s = b \<and> b \<noteq> []"
  then obtain c t where t: "dropWhile (\<lambda>c. c \<noteq> CHR ''{'') s = c # t" "scan_object (c # t) 0 False False = Some b"
    by (auto simp: extractJSONObject_def split: list.splits option.splits)
  have c: "c = CHR ''{''" using hd_dropWhile [of "\<lambda>c. c \<noteq> CHR ''{''" s] t(1) by simp
  with t(2) obtain post where "CHR ''{'' # t = b @ post" "object_span b" using scan_object_brace by blast
  moreover have "s = takeWhile (\<lambda>c. c \<noteq> CHR ''{'') s @ c # t" using t(1) by (metis takeWhile_dropWhile_id)
  moreover have "CHR ''{'' \<notin> set (takeWhile (\<lambda>c. c \<noteq> CHR ''{'') s)" by (auto dest: set_takeWhileD)
  ultimately show "\<exists>pre post. s = pre @ b @ post \<and> CHR ''{'' \<notin> set pre \<and> object_span b" using c by metis
next
  assume "\<exists>pre post. s = pre @ b @ post \<and> CHR ''{'' \<notin> set pre \<and> object_span b"
  then obtain pre post b' where p: "s = pre @ b @ post" "CHR ''{'' \<notin> set pre" "object_span b" "b = CHR ''{'' # b'"
    using object_span_Cons by blast
  then have "dropWhile (\<lambda>c. c \<noteq> CHR ''{'') s = CHR ''{'' # (b' @ post)" by (intro drop_to_brace [of s pre]) simp_all
  moreover have "scan_object (CHR ''{'' # (b' @ post)) 0 False False = Some b"
    using scan_object_brace p by (metis append_Cons)
  ultimately have "extractJSONObject s = b" unfolding extractJSONObject_def by (simp only: list.case option.case)
  then show "extractJSONObject s = b \<and> b \<noteq> []" using p(4) by simp
qed

lemma extract_again: "extractJSONObject (extractJSONObject s) = extractJSONObject s"
proof (cases "extractJSONObject s = []")
  case False
  then have "object_span (extractJSONObject s)" using extract_iff [of s] by blast
  then have "extractJSONObject s = [] @ extractJSONObject s @ [] \<and> CHR ''{'' \<notin> set [] \<and> object_span (extractJSONObject s)" by simp
  then show ?thesis using extract_iff [of "extractJSONObject s" "extractJSONObject s"] by blast
qed (simp add: extractJSONObject_def)

section \<open>Properties\<close>

text \<open>
  The extractor returns a span exactly when the text from its first opening brace on begins with
  a brace-balanced object (braces inside string literals, with their escapes, do not count), and then
  it returns that object: surrounding prose, markdown fences and anything after the object make no
  difference.
\<close>

theorem json_extract_exact:
  "(extractJSONObject s = b \<and> b \<noteq> []) \<longleftrightarrow> (\<exists>pre post. s = pre @ b @ post \<and> CHR ''{'' \<notin> set pre \<and> object_span b)"
  by (rule extract_iff)

end
