(* ===== verification/Review.thy ===== *)
theory Review
  imports Genome Json
begin

text \<open>
  The language-model reviews of an offspring: \<^verbatim>\<open>internal/orchestrator/quality_check.go\<close>,
  \<^verbatim>\<open>adversarial.go\<close> and \<^verbatim>\<open>postmortem.go\<close>.

  The model is an argument, a function from the prompt and the token limit to a response or a
  transport error.  A prompt carries the data that the source renders into it; rendering is
  \<^verbatim>\<open>json.Marshal\<close>, which matters in one way: it fails on a float that is NaN or infinite.
\<close>

section \<open>Requests\<close>

record LLMResponse =
  r_Content :: string
  r_InputTokens :: int
  r_OutputTokens :: int
  r_CostUSD :: f64
  r_Model :: string

record GenomeSummary =
  gs_Name :: string
  gs_TaskType :: string
  gs_Chain :: string
  gs_Model :: string
  gs_Generation :: int

record SwarmContext =
  sc_DiversityScore :: f64
  sc_ExistingGenomes :: "GenomeSummary list"

record PostmortemInput =
  pi_AgentID :: string
  pi_Name :: string
  pi_TaskType :: string
  pi_Chain :: string
  pi_Model :: string
  pi_Generation :: int
  pi_KillReason :: string
  pi_FinalBalanceUSD :: f64
  pi_FinalDrawdown :: f64
  pi_LifetimeNetProfitUSD :: f64
  pi_LifetimeLLMCostUSD :: f64
  pi_EpochsLived :: int
  pi_LastStrategistNote :: string

datatype prompt =
    QualityPrompt AgentGenome SwarmContext
  | BullPrompt AgentGenome SwarmContext
  | BearPrompt AgentGenome SwarmContext
  | SynthesisPrompt AgentGenome SwarmContext string string
  | RewritePrompt string string
  | PostmortemPrompt PostmortemInput

type_synonym LLMClient = "prompt \<Rightarrow> int \<Rightarrow> LLMResponse result"

definition marshal_floats :: "f64 list \<Rightarrow> unit result" where
  "marshal_floats xs = (if list_all is_fin xs then Ok () else Fail ''json: unsupported value'')"

fun jval_floats :: "jval \<Rightarrow> f64 list" where
  "jval_floats (JFloat x) = [x]"
| "jval_floats (JMap kvs) = concat (map (\<lambda>(k, v). jval_floats v) kvs)"
| "jval_floats (JList vs) = concat (map jval_floats vs)"
| "jval_floats _ = []"

definition genome_floats :: "AgentGenome \<Rightarrow> f64 list" where
  "genome_floats g =
     concat (map (jval_floats \<circ> snd) (case g_StrategyConfig g of None \<Rightarrow> [] | Some kvs \<Rightarrow> kvs)) @
     map lr_Confidence (g_LearnedRules g) @ [g_CapitalAllocation g] @
     (let p = g_ReproductionPolicy g in [MinRealizedNetProfitUSD p, OffspringSeedCapitalUSD p, OffspringAPIReserveUSD p, OffspringFailureBufferUSD p]) @
     [MonthlyLLMBudgetUSD (g_CostPolicy g), MonthlyInfraRentBudgetUSD (g_CostPolicy g)]"

definition truncate_str :: "string \<Rightarrow> nat \<Rightarrow> string" where
  "truncate_str s n = (if length s \<le> n then s else take n s @ ''...'')"

section \<open>Quality check\<close>

datatype verdict = VerdictApprove | VerdictReject | VerdictRevise

definition normalizeVerdict :: "string \<Rightarrow> verdict" where
  "normalizeVerdict s =
     (let v = ToLower (TrimSpace s) in
      if v = ''approve'' then VerdictApprove else if v = ''reject'' then VerdictReject else VerdictRevise)"

record QualityResult =
  q_Verdict :: verdict
  q_Reasoning :: string
  q_SuggestedRevisions :: "json option"
  q_CostUSD :: f64
  q_ModelUsed :: string
  q_InputTokens :: int
  q_OutputTokens :: int

record rawQualityResponse =
  rq_Verdict :: string
  rq_Reasoning :: string
  rq_SuggestedRevisions :: "json option"

text \<open>An object with its members; anything else does not decode into a struct.\<close>

definition decode_object :: "string \<Rightarrow> (string \<times> json) list option" where
  "decode_object body = (case decode_json body of Some (JsObj ms) \<Rightarrow> Some ms | _ \<Rightarrow> None)"

definition parseQualityResponse :: "string \<Rightarrow> rawQualityResponse result" where
  "parseQualityResponse s =
     (let body = extractJSONObject s in
      if body = [] then Fail ''no JSON object found''
      else case decode_object body of
          None \<Rightarrow> Fail ''invalid JSON''
        | Some ms \<Rightarrow>
            (case (string_field ''verdict'' ms [], string_field ''reasoning'' ms []) of
               (Some v, Some r) \<Rightarrow>
                 if v = [] then Fail ''missing verdict''
                 else if r = [] then Fail ''missing reasoning''
                 else Ok \<lparr>rq_Verdict = v, rq_Reasoning = r, rq_SuggestedRevisions = raw_field ''suggested_revisions'' ms None\<rparr>
             | _ \<Rightarrow> Fail ''invalid JSON''))"

definition buildQualityUserPrompt :: "AgentGenome \<Rightarrow> SwarmContext \<Rightarrow> unit result" where
  "buildQualityUserPrompt candidate swarm = marshal_floats (genome_floats candidate @ [sc_DiversityScore swarm])"

fun error_text :: "error \<Rightarrow> string" where
  "error_text (Err s) = s"
| "error_text (Wrap s e) = s @ '': '' @ error_text e"

definition quality_of_response :: "LLMResponse \<Rightarrow> QualityResult" where
  "quality_of_response resp =
     (let base = \<lparr>q_Verdict = VerdictRevise, q_Reasoning = [], q_SuggestedRevisions = None, q_CostUSD = r_CostUSD resp,
                  q_ModelUsed = r_Model resp, q_InputTokens = r_InputTokens resp, q_OutputTokens = r_OutputTokens resp\<rparr>
      in case parseQualityResponse (r_Content resp) of
           Inl e \<Rightarrow> base\<lparr>q_Reasoning := ''parse_error: '' @ error_text e @ ''; raw='' @ truncate_str (r_Content resp) 240\<rparr>
         | Inr raw \<Rightarrow>
             let v = normalizeVerdict (rq_Verdict raw)
             in base\<lparr>q_Verdict := v,
                     q_Reasoning := (if v = VerdictRevise \<and> rq_Reasoning raw = []
                                     then ''verdict downgraded to revise: '' @ truncate_str (rq_Verdict raw) 80 else rq_Reasoning raw),
                     q_SuggestedRevisions := rq_SuggestedRevisions raw\<rparr>)"

definition QualityCheck :: "LLMClient option \<Rightarrow> AgentGenome \<Rightarrow> SwarmContext \<Rightarrow> int \<Rightarrow> QualityResult result" where
  "QualityCheck client candidate swarm maxTokens =
     (case client of
        None \<Rightarrow> Fail ''quality_check: nil llm client''
      | Some ask \<Rightarrow>
          let mt = (if maxTokens \<le> 0 then 1024 else maxTokens) in
          bindr (wrapr ''quality_check: build prompt'' (buildQualityUserPrompt candidate swarm)) (\<lambda>_.
          bindr (wrapr ''quality_check: llm.Complete'' (ask (QualityPrompt candidate swarm) mt)) (\<lambda>resp.
          Ok (quality_of_response resp))))"

definition RewriteStrategistPrompt :: "LLMClient option \<Rightarrow> string \<Rightarrow> string \<Rightarrow> int \<Rightarrow> (string \<times> f64) result" where
  "RewriteStrategistPrompt client parentPrompt marker maxTokens =
     (case client of
        None \<Rightarrow> Fail ''quality_check: nil llm client''
      | Some ask \<Rightarrow>
          if parentPrompt = [] then Fail ''quality_check: empty parent prompt''
          else let mt = (if maxTokens \<le> 0 then 512 else maxTokens) in
            bindr (wrapr ''quality_check: rewrite'' (ask (RewritePrompt parentPrompt marker) mt)) (\<lambda>resp.
            let rewritten = TrimSpace (r_Content resp)
            in Ok (if rewritten = [] then parentPrompt else rewritten, r_CostUSD resp)))"

section \<open>Adversarial review\<close>

record AdversarialResult =
  a_Verdict :: verdict
  a_BullCase :: string
  a_BearCase :: string
  a_Synthesis :: string
  a_CostUSD :: f64
  a_ModelUsed :: string
  a_InputTokens :: int
  a_OutputTokens :: int

definition parseSynthesis :: "string \<Rightarrow> (verdict \<times> string) result" where
  "parseSynthesis s =
     (let body = extractJSONObject s in
      if body = [] then Fail ''no JSON object in synthesis''
      else case decode_object body of
          None \<Rightarrow> Fail ''invalid JSON''
        | Some ms \<Rightarrow>
            (case (string_field ''verdict'' ms [], string_field ''synthesis'' ms []) of
               (Some v, Some y) \<Rightarrow>
                 if v = [] then Fail ''missing verdict''
                 else if y = [] then Fail ''missing synthesis''
                 else Ok (normalizeVerdict v, y)
             | _ \<Rightarrow> Fail ''invalid JSON''))"

definition marshalAdversarialPayload :: "AgentGenome \<Rightarrow> SwarmContext \<Rightarrow> unit result" where
  "marshalAdversarialPayload candidate swarm = marshal_floats (genome_floats candidate @ [sc_DiversityScore swarm])"

definition adversarial_of_responses :: "LLMResponse \<Rightarrow> LLMResponse \<Rightarrow> LLMResponse \<Rightarrow> AdversarialResult" where
  "adversarial_of_responses bull bear synth =
     (let base = \<lparr>a_Verdict = VerdictRevise, a_BullCase = TrimSpace (r_Content bull), a_BearCase = TrimSpace (r_Content bear), a_Synthesis = [],
                  a_CostUSD = fadd (fadd (r_CostUSD bull) (r_CostUSD bear)) (r_CostUSD synth), a_ModelUsed = r_Model synth,
                  a_InputTokens = wrap64 (wrap64 (r_InputTokens bull + r_InputTokens bear) + r_InputTokens synth),
                  a_OutputTokens = wrap64 (wrap64 (r_OutputTokens bull + r_OutputTokens bear) + r_OutputTokens synth)\<rparr>
      in case parseSynthesis (r_Content synth) of
           Inl e \<Rightarrow> base\<lparr>a_Synthesis := ''parse_error: '' @ error_text e @ ''; raw='' @ truncate_str (r_Content synth) 240\<rparr>
         | Inr (v, y) \<Rightarrow> base\<lparr>a_Verdict := v, a_Synthesis := y\<rparr>)"

definition AdversarialReview :: "LLMClient option \<Rightarrow> AgentGenome \<Rightarrow> SwarmContext \<Rightarrow> int \<Rightarrow> AdversarialResult result" where
  "AdversarialReview client candidate swarm maxTokens =
     (case client of
        None \<Rightarrow> Fail ''adversarial: nil llm client''
      | Some ask \<Rightarrow>
          let mt = (if maxTokens \<le> 0 then 1024 else maxTokens) in
          bindr (wrapr ''adversarial: build payload'' (marshalAdversarialPayload candidate swarm)) (\<lambda>_.
          bindr (wrapr ''adversarial: bull call'' (ask (BullPrompt candidate swarm) mt)) (\<lambda>bull.
          bindr (wrapr ''adversarial: bear call'' (ask (BearPrompt candidate swarm) mt)) (\<lambda>bear.
          bindr (wrapr ''adversarial: synthesis call''
                  (ask (SynthesisPrompt candidate swarm (TrimSpace (r_Content bull)) (TrimSpace (r_Content bear))) mt)) (\<lambda>synth.
          Ok (adversarial_of_responses bull bear synth))))))"

section \<open>Postmortems\<close>

datatype LessonCategory = LessonStrategyDrift | LessonRegimeMismatch | LessonCostBreach | LessonUnrecoverableLoss | LessonUnknown

definition normalizeLessonCategory :: "string \<Rightarrow> LessonCategory" where
  "normalizeLessonCategory s =
     (let c = ToLower (TrimSpace s) in
      if c = ''strategy_drift'' then LessonStrategyDrift
      else if c = ''regime_mismatch'' then LessonRegimeMismatch
      else if c = ''cost_breach'' then LessonCostBreach
      else if c = ''unrecoverable_loss'' then LessonUnrecoverableLoss
      else LessonUnknown)"

record PostmortemResult =
  pm_Category :: LessonCategory
  pm_Summary :: string
  pm_Diagnosis :: string
  pm_CostUSD :: f64
  pm_ModelUsed :: string
  pm_InputTokens :: int
  pm_OutputTokens :: int

definition postmortem_of_response :: "LLMResponse \<Rightarrow> PostmortemResult" where
  "postmortem_of_response resp =
     (let base = \<lparr>pm_Category = LessonUnknown, pm_Summary = [], pm_Diagnosis = [], pm_CostUSD = r_CostUSD resp,
                  pm_ModelUsed = r_Model resp, pm_InputTokens = r_InputTokens resp, pm_OutputTokens = r_OutputTokens resp\<rparr>;
          body = extractJSONObject (r_Content resp)
      in if body = [] then base\<lparr>pm_Diagnosis := ''parse_error: no JSON object; raw='' @ truncate_str (r_Content resp) 240\<rparr>
         else case decode_object body of
             None \<Rightarrow> base\<lparr>pm_Diagnosis := ''parse_error: invalid JSON; raw='' @ truncate_str (r_Content resp) 240\<rparr>
           | Some ms \<Rightarrow>
               (case (string_field ''category'' ms [], string_field ''summary'' ms [], string_field ''diagnosis'' ms []) of
                  (Some c, Some y, Some d) \<Rightarrow>
                    if c = [] \<or> y = [] \<or> d = []
                    then base\<lparr>pm_Summary := y, pm_Diagnosis := ''incomplete_response: '' @ truncate_str (r_Content resp) 240\<rparr>
                    else base\<lparr>pm_Category := normalizeLessonCategory c, pm_Summary := y, pm_Diagnosis := d\<rparr>
                | _ \<Rightarrow> base\<lparr>pm_Diagnosis := ''parse_error: invalid JSON; raw='' @ truncate_str (r_Content resp) 240\<rparr>))"

definition postmortem_floats :: "PostmortemInput \<Rightarrow> f64 list" where
  "postmortem_floats i = [pi_FinalBalanceUSD i, pi_FinalDrawdown i, pi_LifetimeNetProfitUSD i, pi_LifetimeLLMCostUSD i]"

definition GeneratePostmortem :: "LLMClient option \<Rightarrow> PostmortemInput \<Rightarrow> int \<Rightarrow> PostmortemResult result" where
  "GeneratePostmortem client i maxTokens =
     (case client of
        None \<Rightarrow> Fail ''postmortem: nil llm client''
      | Some ask \<Rightarrow>
          if pi_AgentID i = [] then Fail ''postmortem: empty agent id''
          else let mt = (if maxTokens \<le> 0 then 768 else maxTokens) in
            bindr (wrapr ''postmortem: marshal input'' (marshal_floats (postmortem_floats i))) (\<lambda>_.
            bindr (wrapr ''postmortem: llm.Complete'' (ask (PostmortemPrompt i) mt)) (\<lambda>resp.
            Ok (postmortem_of_response resp))))"

section \<open>Only a clear answer approves or rejects\<close>

text \<open>The raw text of a response, read as the field of the object it contains.\<close>

definition answer_field :: "string \<Rightarrow> string \<Rightarrow> string option" where
  "answer_field f content =
     (if extractJSONObject content = [] then None
      else case decode_object (extractJSONObject content) of None \<Rightarrow> None | Some ms \<Rightarrow> string_field f ms [])"

lemma quality_verdict_cases:
  assumes "q_Verdict (quality_of_response resp) \<noteq> VerdictRevise"
  shows "\<exists>v. answer_field ''verdict'' (r_Content resp) = Some v \<and> normalizeVerdict v = q_Verdict (quality_of_response resp)"
  using assms
  by (auto simp: quality_of_response_def parseQualityResponse_def answer_field_def Let_def
      split: sum.splits option.splits if_splits)

lemma adversarial_verdict_cases:
  assumes "a_Verdict (adversarial_of_responses x y resp) \<noteq> VerdictRevise"
  shows "\<exists>v. answer_field ''verdict'' (r_Content resp) = Some v \<and> normalizeVerdict v = a_Verdict (adversarial_of_responses x y resp)"
  using assms
  by (auto simp: adversarial_of_responses_def parseSynthesis_def answer_field_def Let_def
      split: sum.splits option.splits if_splits)

lemma marshal_nan: "\<not> list_all is_fin (genome_floats g) \<Longrightarrow> \<exists>e. QualityCheck c g swarm n = Inl e" 
  by (auto simp: QualityCheck_def buildQualityUserPrompt_def marshal_floats_def Let_def split: option.split)

lemma adversarial_nan: "\<not> list_all is_fin (genome_floats g) \<Longrightarrow> \<exists>e. AdversarialReview c g swarm n = Inl e" 
  by (auto simp: AdversarialReview_def marshalAdversarialPayload_def marshal_floats_def Let_def split: option.split)

end
