(* ===== verification/Tables.thy ===== *)
theory Tables
  imports Economics Review
begin

text \<open>
  The tables of \<^verbatim>\<open>internal/db/migrations\<close> that the modelled statements read and write.  Tables are
  lists of rows in insertion order (which is the order of their \<^verbatim>\<open>created_at\<close>), nullable columns are
  options, each statement may fail with an error of the database, and an amount is stored as the
  nearest value of its \<^verbatim>\<open>NUMERIC\<close> column; both are given by the parameter \<open>pg\<close>.  A JSON column
  holds the text it was given, except that a proposed genome is the genome it decodes to (the zero
  genome when it does not, since the error is dropped).
\<close>

section \<open>Tables\<close>

record agent_row =
  ar_id :: string
  ar_name :: string
  ar_status :: string
  ar_node_class :: string
  ar_chain :: string
  ar_task_type :: string
  ar_current_balance :: "f64 option"
  ar_consecutive_negative_epochs :: "int option"
  ar_unpaid_operating_debt :: "f64 option"
  ar_last_heartbeat_at :: "time option"
  ar_total_pnl :: "f64 option"
  ar_peak_balance :: "f64 option"
  ar_strategist_prompt :: string
  ar_strategist_model :: string
  ar_strategist_interval :: "int option"
  ar_generation :: int
  ar_lineage_depth :: int
  ar_capital_allocated :: "f64 option"
  ar_total_trades :: "int option"
  ar_strategy_config :: string
  ar_bandit_state :: "string option"
  ar_wallet_address :: string
  ar_wallet_key_encrypted :: string
  ar_bandit_policies :: string
  ar_learned_rules :: string
  ar_sleep_schedule :: string
  ar_reproduction_policy :: string
  ar_cost_policy :: string
  ar_communication_policy :: string
  ar_kill_reason :: "string option"
  ar_killed_at :: "time option"

record proposal_row =
  pr_id :: string
  pr_proposing_agent :: string
  pr_seed_capital :: f64
  pr_api_reserve :: f64
  pr_failure_buffer :: f64
  pr_genome :: AgentGenome
  pr_status :: string
  pr_rejection_reason :: "string option"
  pr_quality_verdict :: "verdict option"
  pr_quality_reasoning :: "string option"
  pr_bull_case :: "string option"
  pr_bear_case :: "string option"
  pr_synthesis :: "string option"

record ledger_row =
  lr_epoch :: "string option"
  lr_ledger :: Ledger

record sweep_row =
  sr_agent :: string
  sr_parent :: "string option"
  sr_to_parent :: f64
  sr_to_root :: f64
  sr_retained :: f64

record postmortem_row =
  pmr_agent :: string
  pmr_name :: string
  pmr_lifespan_epochs :: int
  pmr_total_trades :: int
  pmr_total_pnl :: f64
  pmr_llm_cost :: f64
  pmr_strategy_config :: string
  pmr_strategist_prompt :: string
  pmr_bandit_state :: "string option"
  pmr_analysis :: string
  pmr_lessons_summary :: string
  pmr_failure_category :: LessonCategory

record epoch_row =
  ep_id :: string
  ep_number :: int
  ep_started_at :: time
  ep_ended_at :: time
  ep_total_agents :: int
  ep_killed :: int
  ep_promoted :: int
  ep_spawned :: int
  ep_treasury_balance :: f64
  ep_total_pnl :: f64
  ep_breaker :: bool

record trade_row =
  tr_agent :: string
  tr_epoch :: "string option"
  tr_chain :: string
  tr_type :: string
  tr_token_pair :: string
  tr_dex :: string
  tr_amount_in :: f64
  tr_amount_out :: f64
  tr_fee_paid :: f64
  tr_pnl :: f64
  tr_tx_signature :: "string option"
  tr_is_paper :: bool
  tr_bandit_policy :: "string option"
  tr_metadata :: string

record decision_row =
  dr_agent :: string
  dr_input_summary :: string
  dr_output_raw :: string
  dr_config_changes :: "string option"
  dr_reasoning :: "string option"
  dr_intel_broadcasts :: "string option"
  dr_offspring_submitted :: bool
  dr_new_learned_rule :: "string option"
  dr_model_used :: string
  dr_input_tokens :: int
  dr_output_tokens :: int
  dr_cost_usd :: f64

record price_row =
  px_chain :: string
  px_token_pair :: string
  px_price :: f64
  px_volume_24h :: "f64 option"
  px_recorded_at :: time

record db =
  t_agents :: "agent_row list"
  t_proposals :: "proposal_row list"
  t_ledgers :: "ledger_row list"
  t_sweeps :: "sweep_row list"
  t_postmortems :: "postmortem_row list"
  t_epochs :: "epoch_row list"
  t_trades :: "trade_row list"
  t_decisions :: "decision_row list"
  t_prices :: "price_row list"

record postgres =
  pg_fault :: "string \<Rightarrow> error option"
  pg_numeric :: "f64 \<Rightarrow> f64"

text \<open>\<^verbatim>\<open>COALESCE(column, default)\<close>.\<close>

definition coalesce :: "'a option \<Rightarrow> 'a \<Rightarrow> 'a" where
  "coalesce x d = (case x of Some v \<Rightarrow> v | None \<Rightarrow> d)"

abbreviation (input) null_if_empty :: "string \<Rightarrow> string option" where
  "null_if_empty s \<equiv> (if s = [] then None else Some s)"

section \<open>Statements\<close>

definition exec :: "postgres \<Rightarrow> string \<Rightarrow> string \<Rightarrow> db \<Rightarrow> db \<Rightarrow> db \<times> unit result" where
  "exec pg stmt msg d d' = (case pg_fault pg stmt of Some e \<Rightarrow> (d, Inl (Wrap msg e)) | None \<Rightarrow> (d', Ok ()))"

lemma exec_Ok: "exec pg stmt msg d d' = (x, Inr u) \<Longrightarrow> x = d' \<and> pg_fault pg stmt = None"
  by (auto simp: exec_def split: option.splits)

lemma exec_Inl: "exec pg stmt msg d d' = (x, Inl e) \<Longrightarrow> x = d"
  by (auto simp: exec_def split: option.splits)

text \<open>A database that answers every statement and stores small amounts as they are.\<close>

definition pg_ok :: postgres where
  "pg_ok = \<lparr>pg_fault = (\<lambda>_. None), pg_numeric = (\<lambda>x. x)\<rparr>"

end
