(* ===== verification/LifecyclePolicy.thy ===== *)
theory LifecyclePolicy
  imports GoTime "HOL-Library.Sublist"
begin

text \<open>
  \<^verbatim>\<open>internal/orchestrator/kill_pause.go\<close>: the deterministic kill/pause/resume policy of an epoch.
\<close>

section \<open>Model\<close>

datatype LifecycleActionKind = ActionKill | ActionPause | ActionResume

record LifecycleAction =
  la_AgentID :: string
  la_Kind :: LifecycleActionKind
  la_Reason :: string

record AgentSnapshot =
  s_AgentID :: string
  s_Status :: string
  s_BalanceUSD :: f64
  s_Drawdown :: f64
  s_ConsecutiveLosingEpochs :: int
  s_OperatingDebtUSD :: f64
  s_LastHeartbeat :: time
  s_LastStrategistVerdict :: string
  s_NetProfitWindowUSD :: f64
  s_NodeClass :: string

record LifecyclePolicyConfig =
  MinBalanceUSD :: f64
  MaxDrawdownFraction :: f64
  MaxConsecutiveLosingEpochs :: int
  MaxOperatingDebtUSD :: f64
  HeartbeatGracePeriod :: duration
  WeakNetProfitThresholdUSD :: f64

definition DefaultLifecyclePolicyConfig :: LifecyclePolicyConfig where
  "DefaultLifecyclePolicyConfig =
     \<lparr>MinBalanceUSD = Fin 1, MaxDrawdownFraction = rnd (2 / 5), MaxConsecutiveLosingEpochs = 5,
      MaxOperatingDebtUSD = Fin 5, HeartbeatGracePeriod = 10 * Minute, WeakNetProfitThresholdUSD = rnd (1 / 10)\<rparr>"

definition f64_or :: "f64 \<Rightarrow> f64 \<Rightarrow> f64" where
  "f64_or x d = (if feq x (Fin 0) then d else x)"

definition applyDefaults :: "LifecyclePolicyConfig \<Rightarrow> LifecyclePolicyConfig" where
  "applyDefaults cfg =
     (let d = DefaultLifecyclePolicyConfig in
      \<lparr>MinBalanceUSD = f64_or (MinBalanceUSD cfg) (MinBalanceUSD d),
       MaxDrawdownFraction = f64_or (MaxDrawdownFraction cfg) (MaxDrawdownFraction d),
       MaxConsecutiveLosingEpochs = (if MaxConsecutiveLosingEpochs cfg = 0 then MaxConsecutiveLosingEpochs d else MaxConsecutiveLosingEpochs cfg),
       MaxOperatingDebtUSD = f64_or (MaxOperatingDebtUSD cfg) (MaxOperatingDebtUSD d),
       HeartbeatGracePeriod = (if HeartbeatGracePeriod cfg = 0 then HeartbeatGracePeriod d else HeartbeatGracePeriod cfg),
       WeakNetProfitThresholdUSD = f64_or (WeakNetProfitThresholdUSD cfg) (WeakNetProfitThresholdUSD d)\<rparr>)"

definition killReason :: "time \<Rightarrow> LifecyclePolicyConfig \<Rightarrow> AgentSnapshot \<Rightarrow> string option" where
  "killReason now cfg s =
     (if flt (s_BalanceUSD s) (MinBalanceUSD cfg) then Some ''balance_below_minimum''
      else if fle (MaxDrawdownFraction cfg) (s_Drawdown s) then Some ''max_drawdown_exceeded''
      else if MaxConsecutiveLosingEpochs cfg \<le> s_ConsecutiveLosingEpochs s then Some ''consecutive_losing_epochs''
      else if flt (MaxOperatingDebtUSD cfg) (s_OperatingDebtUSD s) then Some ''operating_debt_exceeded''
      else if s_LastHeartbeat s \<noteq> zero_time \<and> HeartbeatGracePeriod cfg < time_sub now (s_LastHeartbeat s) then Some ''heartbeat_missing''
      else None)"

definition pauseReason :: "LifecyclePolicyConfig \<Rightarrow> AgentSnapshot \<Rightarrow> bool \<Rightarrow> string option" where
  "pauseReason cfg s budgetTight =
     (if s_LastStrategistVerdict s = ''pause'' then Some ''strategy_regime_mismatch''
      else if s_LastStrategistVerdict s = ''defensive'' \<and> s_NodeClass s = ''shadow'' then Some ''strategy_defensive''
      else if budgetTight \<and> s_NodeClass s = ''shadow'' then Some ''budget_tight''
      else if flt (Fin 0) (s_BalanceUSD s) \<and> flt (s_NetProfitWindowUSD s) (WeakNetProfitThresholdUSD cfg) then Some ''solvent_but_weak''
      else None)"

fun policy_loop :: "time \<Rightarrow> LifecyclePolicyConfig \<Rightarrow> bool \<Rightarrow> AgentSnapshot list \<Rightarrow> LifecycleAction list" where
  "policy_loop now cfg budgetTight [] = []"
| "policy_loop now cfg budgetTight (s # ss) =
     (if s_Status s = ''dead'' then policy_loop now cfg budgetTight ss
      else case killReason now cfg s of
        Some r \<Rightarrow> \<lparr>la_AgentID = s_AgentID s, la_Kind = ActionKill, la_Reason = r\<rparr> # policy_loop now cfg budgetTight ss
      | None \<Rightarrow> (case pauseReason cfg s budgetTight of
          Some r \<Rightarrow> (if s_Status s = ''paused'' then policy_loop now cfg budgetTight ss
                     else \<lparr>la_AgentID = s_AgentID s, la_Kind = ActionPause, la_Reason = r\<rparr> # policy_loop now cfg budgetTight ss)
        | None \<Rightarrow> (if s_Status s = ''paused''
                   then \<lparr>la_AgentID = s_AgentID s, la_Kind = ActionResume, la_Reason = ''policy_healthy''\<rparr> # policy_loop now cfg budgetTight ss
                   else policy_loop now cfg budgetTight ss)))"

definition DeterministicLifecyclePolicy :: "time \<Rightarrow> LifecyclePolicyConfig \<Rightarrow> AgentSnapshot list \<Rightarrow> bool \<Rightarrow> LifecycleAction list" where
  "DeterministicLifecyclePolicy now cfg snapshots budgetTight = policy_loop now (applyDefaults cfg) budgetTight snapshots"

section \<open>One decision per snapshot\<close>

text \<open>The specification: what one snapshot asks for, read off the rules and their precedence.\<close>

definition wanted :: "time \<Rightarrow> LifecyclePolicyConfig \<Rightarrow> bool \<Rightarrow> AgentSnapshot \<Rightarrow> LifecycleActionKind option" where
  "wanted now cfg tight s =
     (if s_Status s = ''dead'' then None
      else if killReason now cfg s \<noteq> None then Some ActionKill
      else if pauseReason cfg s tight \<noteq> None then (if s_Status s = ''paused'' then None else Some ActionPause)
      else if s_Status s = ''paused'' then Some ActionResume else None)"

lemma policy_loop_step:
  "policy_loop now cfg tight (s # ss) =
     (case wanted now cfg tight s of
        None \<Rightarrow> policy_loop now cfg tight ss
      | Some k \<Rightarrow> \<lparr>la_AgentID = s_AgentID s, la_Kind = k,
           la_Reason = (case k of ActionKill \<Rightarrow> the (killReason now cfg s) | ActionPause \<Rightarrow> the (pauseReason cfg s tight)
                        | ActionResume \<Rightarrow> ''policy_healthy'')\<rparr> # policy_loop now cfg tight ss)"
  by (auto simp: wanted_def split: option.split)

lemma policy_loop_ids: "map la_AgentID (policy_loop now cfg tight ss) = map s_AgentID (filter (\<lambda>s. wanted now cfg tight s \<noteq> None) ss)"
  by (induction ss) (auto simp only: policy_loop_step list.map filter.simps split: option.split, simp_all)

lemma policy_loop_kind:
  "a \<in> set (policy_loop now cfg tight ss) \<longleftrightarrow>
     (\<exists>s \<in> set ss. la_AgentID a = s_AgentID s \<and> wanted now cfg tight s = Some (la_Kind a) \<and>
        la_Reason a = (case la_Kind a of ActionKill \<Rightarrow> the (killReason now cfg s) | ActionPause \<Rightarrow> the (pauseReason cfg s tight)
                       | ActionResume \<Rightarrow> ''policy_healthy''))"
  by (induction ss) (auto simp del: policy_loop.simps(2) simp: policy_loop_step split: option.split)

lemma f64_or_idem: "\<not> feq d (Fin 0) \<Longrightarrow> f64_or (f64_or x d) d = f64_or x d"
  by (simp add: f64_or_def)

lemma default_nonzero:
  "\<not> feq (rnd (2 / 5)) (Fin 0)" "\<not> feq (rnd (1 / 10)) (Fin 0)"
proof -
  have "flt (Fin 0) (rnd x)" if "1 / 16 \<le> x" for x
    by (rule rnd_powi_pos [of "- 4"]) (use that in \<open>simp_all add: power_int_minus\<close>)
  from this [of "2 / 5"] this [of "1 / 10"]
  show "\<not> feq (rnd (2 / 5)) (Fin 0)" "\<not> feq (rnd (1 / 10)) (Fin 0)" by (auto simp: feq_def flt_def)
qed

lemma applyDefaults_idem: "applyDefaults (applyDefaults cfg) = applyDefaults cfg"
  by (simp add: applyDefaults_def Let_def DefaultLifecyclePolicyConfig_def f64_or_idem default_nonzero go_defs)

lemma killReason_iff:
  "killReason now cfg s \<noteq> None \<longleftrightarrow> flt (s_BalanceUSD s) (MinBalanceUSD cfg) \<or> fle (MaxDrawdownFraction cfg) (s_Drawdown s) \<or>
     MaxConsecutiveLosingEpochs cfg \<le> s_ConsecutiveLosingEpochs s \<or> flt (MaxOperatingDebtUSD cfg) (s_OperatingDebtUSD s) \<or>
     (s_LastHeartbeat s \<noteq> 0 \<and> HeartbeatGracePeriod cfg < time_sub now (s_LastHeartbeat s))"
  by (auto simp: killReason_def)

lemma wanted_iff:
  "wanted now cfg tight s = Some ActionKill \<longleftrightarrow> s_Status s \<noteq> ''dead'' \<and> killReason now cfg s \<noteq> None"
  "wanted now cfg tight s = Some ActionPause \<longleftrightarrow> s_Status s \<notin> {''dead'', ''paused''} \<and> killReason now cfg s = None \<and> pauseReason cfg s tight \<noteq> None"
  "wanted now cfg tight s = Some ActionResume \<longleftrightarrow> s_Status s = ''paused'' \<and> killReason now cfg s = None \<and> pauseReason cfg s tight = None"
  by (auto simp: wanted_def)

lemma policy_action_iff:
  assumes "distinct (map s_AgentID snaps)" "s \<in> set snaps"
  shows "(\<exists>a \<in> set (DeterministicLifecyclePolicy now cfg snaps tight). la_AgentID a = s_AgentID s \<and> la_Kind a = k) \<longleftrightarrow>
    wanted now (applyDefaults cfg) tight s = Some k"
  (is "?L \<longleftrightarrow> ?R")
proof
  assume ?L
  then obtain t where "t \<in> set snaps" "s_AgentID t = s_AgentID s" "wanted now (applyDefaults cfg) tight t = Some k"
    by (auto simp: DeterministicLifecyclePolicy_def policy_loop_kind)
  then show ?R using assms by (metis distinct_map inj_onD)
next
  let ?r = "case k of ActionKill \<Rightarrow> the (killReason now (applyDefaults cfg) s) | ActionPause \<Rightarrow> the (pauseReason (applyDefaults cfg) s tight)
    | ActionResume \<Rightarrow> ''policy_healthy''"
  assume ?R
  then have "\<lparr>la_AgentID = s_AgentID s, la_Kind = k, la_Reason = ?r\<rparr> \<in> set (DeterministicLifecyclePolicy now cfg snaps tight)" using assms(2)
    unfolding DeterministicLifecyclePolicy_def policy_loop_kind by auto
  then show ?L by force
qed

section \<open>Properties\<close>

text \<open>
  C15: the policy takes at most one action per agent, in the order of the snapshots, and takes it by
  the stated precedence: an agent is killed exactly when it is not dead and one of the five kill
  conditions holds under the configuration with its defaults; it is paused exactly when it runs, no
  kill condition holds and a pause reason does; it is resumed exactly when it is paused and no reason
  of either kind holds.
\<close>

theorem lifecycle_policy_exact:
  assumes "distinct (map s_AgentID snaps)" "s \<in> set snaps"
    and acts_def: "acts = DeterministicLifecyclePolicy now cfg snaps tight" and c_def: "c = applyDefaults cfg"
  shows "distinct (map la_AgentID acts) \<and> subseq (map la_AgentID acts) (map s_AgentID snaps) \<and>
    ((\<exists>a \<in> set acts. la_AgentID a = s_AgentID s \<and> la_Kind a = ActionKill) \<longleftrightarrow>
       s_Status s \<noteq> ''dead'' \<and>
       (flt (s_BalanceUSD s) (MinBalanceUSD c) \<or> fle (MaxDrawdownFraction c) (s_Drawdown s) \<or>
        MaxConsecutiveLosingEpochs c \<le> s_ConsecutiveLosingEpochs s \<or> flt (MaxOperatingDebtUSD c) (s_OperatingDebtUSD s) \<or>
        (s_LastHeartbeat s \<noteq> 0 \<and> HeartbeatGracePeriod c < time_sub now (s_LastHeartbeat s)))) \<and>
    ((\<exists>a \<in> set acts. la_AgentID a = s_AgentID s \<and> la_Kind a = ActionPause) \<longleftrightarrow>
       s_Status s \<notin> {''dead'', ''paused''} \<and> killReason now c s = None \<and> pauseReason c s tight \<noteq> None) \<and>
    ((\<exists>a \<in> set acts. la_AgentID a = s_AgentID s \<and> la_Kind a = ActionResume) \<longleftrightarrow>
       s_Status s = ''paused'' \<and> killReason now c s = None \<and> pauseReason c s tight = None)"
proof -
  have k: "(\<exists>a \<in> set acts. la_AgentID a = s_AgentID s \<and> la_Kind a = k) \<longleftrightarrow> wanted now c tight s = Some k" for k
    unfolding acts_def c_def by (rule policy_action_iff [OF assms(1,2)])
  have ids: "map la_AgentID acts = map s_AgentID (filter (\<lambda>s. wanted now c tight s \<noteq> None) snaps)"
    by (simp add: acts_def c_def DeterministicLifecyclePolicy_def policy_loop_ids)
  have "subseq (map la_AgentID acts) (map s_AgentID snaps)" unfolding ids by (rule subseq_map) simp
  moreover have "distinct (map la_AgentID acts)" unfolding ids using assms(1) by (simp add: distinct_map_filter)
  ultimately show ?thesis unfolding k wanted_iff killReason_iff by blast
qed

definition healthy_snapshot :: AgentSnapshot where
  "healthy_snapshot = \<lparr>s_AgentID = ''a'', s_Status = ''paused'', s_BalanceUSD = Fin 100, s_Drawdown = Fin 0,
     s_ConsecutiveLosingEpochs = 0, s_OperatingDebtUSD = Fin 0, s_LastHeartbeat = 0, s_LastStrategistVerdict = ''continue'',
     s_NetProfitWindowUSD = Fin 5, s_NodeClass = ''shadow''\<rparr>"

theorem lifecycle_policy_exact_witness:
  "\<exists>a \<in> set (DeterministicLifecyclePolicy 0 DefaultLifecyclePolicyConfig [healthy_snapshot\<lparr>s_ConsecutiveLosingEpochs := 5\<rparr>] False).
     la_AgentID a = ''a'' \<and> la_Kind a = ActionKill"
  using lifecycle_policy_exact [OF _ _ refl refl, of "[healthy_snapshot\<lparr>s_ConsecutiveLosingEpochs := 5\<rparr>]"
      "healthy_snapshot\<lparr>s_ConsecutiveLosingEpochs := 5\<rparr>" 0 DefaultLifecyclePolicyConfig False]
  by (simp add: healthy_snapshot_def applyDefaults_def DefaultLifecyclePolicyConfig_def Let_def)

text \<open>
  A tight budget pauses shadow nodes only: a funded agent gets the same action whether or not the
  budget is tight, and applying the defaults twice is applying them once.
\<close>

theorem lifecycle_policy_budget_spares_funded:
  assumes "\<forall>s \<in> set snaps. s_NodeClass s \<noteq> ''shadow''"
  shows "DeterministicLifecyclePolicy now cfg snaps tight = DeterministicLifecyclePolicy now cfg snaps tight' \<and>
    DeterministicLifecyclePolicy now (applyDefaults cfg) snaps tight = DeterministicLifecyclePolicy now cfg snaps tight"
proof -
  have "\<forall>s \<in> set snaps. s_NodeClass s \<noteq> ''shadow'' \<Longrightarrow> policy_loop now c tight snaps = policy_loop now c tight' snaps" for c
    by (induction snaps) (auto simp: pauseReason_def split: option.split)
  with assms show ?thesis by (simp add: DeterministicLifecyclePolicy_def applyDefaults_idem)
qed

theorem lifecycle_policy_budget_spares_funded_witness:
  "DeterministicLifecyclePolicy 0 DefaultLifecyclePolicyConfig [healthy_snapshot\<lparr>s_NodeClass := ''funded''\<rparr>] True =
   DeterministicLifecyclePolicy 0 DefaultLifecyclePolicyConfig [healthy_snapshot\<lparr>s_NodeClass := ''funded''\<rparr>] False"
  using lifecycle_policy_budget_spares_funded [of "[healthy_snapshot\<lparr>s_NodeClass := ''funded''\<rparr>]" 0 DefaultLifecyclePolicyConfig True False]
  by (simp add: healthy_snapshot_def)

end
