(* ===== verification/EpochStore.thy ===== *)
theory EpochStore
  imports Tables LifecyclePolicy
begin

text \<open>
  \<^verbatim>\<open>internal/orchestrator/db_store.go\<close>: the Postgres store behind an epoch, on the tables of
  \<open>Tables\<close>, with the data of an epoch from \<^verbatim>\<open>parent.go\<close>.
\<close>

section \<open>Epoch data\<close>

datatype OffspringOutcome = OffspringApproved | OffspringRejected | OffspringRevise

record OffspringProposal =
  p_ProposalID :: string
  p_ParentID :: string
  p_Candidate :: AgentGenome
  p_ReproductionReserveUSD :: f64
  p_ParentLedger :: Ledger
  p_ParentCarriedDebt :: f64

record OffspringDecision =
  d_ProposalID :: string
  d_ParentID :: string
  d_Outcome :: OffspringOutcome
  d_RejectTag :: string
  d_CostUSD :: f64
  d_Quality :: "QualityResult option"
  d_Adversarial :: "AdversarialResult option"

record EpochState =
  e_EpochID :: string
  e_StartedAt :: time
  e_Snapshots :: "AgentSnapshot list"
  e_Genomes :: "string \<Rightarrow> AgentGenome option"
  e_SwarmGenomes :: "AgentGenome list"
  e_CarriedDebt :: "string \<Rightarrow> f64 option"
  e_BudgetTight :: bool
  e_OffspringProposals :: "OffspringProposal list"
  e_DeadAgents :: "PostmortemInput list"

record EpochResult =
  er_EpochID :: string
  er_Ledgers :: "Ledger list"
  er_Sweeps :: "SweepDecision list"
  er_LifecycleActions :: "LifecycleAction list"
  er_OffspringDecisions :: "OffspringDecision list"
  er_Postmortems :: "PostmortemResult list"
  er_BreakerTripped :: bool
  er_BreakerReason :: string
  er_EndedAt :: time

section \<open>Loading an epoch\<close>

definition drawdown_of :: "f64 \<Rightarrow> f64 \<Rightarrow> f64" where
  "drawdown_of peak balance =
     (if flt (Fin 0) peak then
        let dd0 = fdiv (fsub peak balance) peak;
            dd1 = (if flt dd0 (Fin 0) then Fin 0 else dd0)
        in if flt (Fin 1) dd1 then Fin 1 else dd1
      else Fin 0)"

definition snapshot_of_row :: "agent_row \<Rightarrow> AgentSnapshot" where
  "snapshot_of_row r =
     (let balance = coalesce (ar_current_balance r) (Fin 0) in
      \<lparr>s_AgentID = ar_id r, s_Status = ar_status r, s_BalanceUSD = balance,
       s_Drawdown = drawdown_of (coalesce (ar_peak_balance r) (Fin 0)) balance,
       s_ConsecutiveLosingEpochs = coalesce (ar_consecutive_negative_epochs r) 0,
       s_OperatingDebtUSD = coalesce (ar_unpaid_operating_debt r) (Fin 0),
       s_LastHeartbeat = coalesce (ar_last_heartbeat_at r) zero_time,
       s_LastStrategistVerdict = [], s_NetProfitWindowUSD = Fin 0, s_NodeClass = ar_node_class r\<rparr>)"

definition zero_genome :: AgentGenome where
  "zero_genome = \<lparr>g_Name = [], g_Generation = 0, g_LineageDepth = 0, g_TaskType = [], g_Chain = [], g_StrategyConfig = None,
     g_StrategistPrompt = [], g_StrategistModel = [], g_StrategistIntervalSeconds = 0, g_BanditPolicies = [], g_LearnedRules = [],
     g_CapitalAllocation = Fin 0,
     g_ReproductionPolicy = \<lparr>MinProfitableEpochs = 0, MinRealizedNetProfitUSD = Fin 0, OffspringSeedCapitalUSD = Fin 0, OffspringAPIReserveUSD = Fin 0,
       OffspringFailureBufferUSD = Fin 0, MaxDescendantsPerEpoch = 0, AllowTaskTypeMutation = False, AllowChainMutation = False, AllowModelMutation = False\<rparr>,
     g_CostPolicy = \<lparr>MonthlyLLMBudgetUSD = Fin 0, MonthlyInfraRentBudgetUSD = Fin 0, PauseOnBudgetBreach = False\<rparr>,
     g_CommunicationPolicy = \<lparr>SubscribeChannels = [], PublishChannels = [], MaxBroadcastsPerCycle = 0, IntelSummaryMaxItems = 0, RequireBullBearTag = False\<rparr>,
     g_SleepSchedule = \<lparr>AwakeWindowMinutes = 0, SleepBetween = False, WakeForBacktest = False\<rparr>\<rparr>"

definition genome_of_row :: "agent_row \<Rightarrow> AgentGenome" where
  "genome_of_row r = zero_genome\<lparr>g_Name := ar_name r, g_TaskType := ar_task_type r, g_Chain := ar_chain r,
     g_StrategistPrompt := ar_strategist_prompt r, g_StrategistModel := ar_strategist_model r,
     g_StrategistIntervalSeconds := coalesce (ar_strategist_interval r) 14400, g_Generation := ar_generation r,
     g_LineageDepth := ar_lineage_depth r, g_CapitalAllocation := coalesce (ar_capital_allocated r) (Fin 0)\<rparr>"

definition empty_ledger :: "string \<Rightarrow> Ledger" where
  "empty_ledger a = \<lparr>l_AgentID = a, l_EpochID = [], l_RealizedTradingPnL = Fin 0, l_TradingFees = Fin 0, l_SlippageCost = Fin 0, l_LLMCost = Fin 0,
     l_InfraRent = Fin 0, l_RPCCost = Fin 0, l_UpstreamPaidToParent = Fin 0, l_UpstreamPaidToRoot = Fin 0, l_RealizedNetProfit = Fin 0\<rparr>"

text \<open>The query does not select the epoch column.\<close>

definition latestLedgerFor :: "postgres \<Rightarrow> db \<Rightarrow> string \<Rightarrow> Ledger" where
  "latestLedgerFor pg d agentID =
     (case pg_fault pg ''latest ledger'' of
        Some _ \<Rightarrow> empty_ledger agentID
      | None \<Rightarrow> (case filter (\<lambda>r. l_AgentID (lr_ledger r) = agentID) (t_ledgers d) of
                  [] \<Rightarrow> empty_ledger agentID
                | rs \<Rightarrow> (lr_ledger (last rs))\<lparr>l_EpochID := []\<rparr>))"

definition proposal_of_row :: "postgres \<Rightarrow> db \<Rightarrow> proposal_row \<Rightarrow> OffspringProposal" where
  "proposal_of_row pg d r =
     \<lparr>p_ProposalID = pr_id r, p_ParentID = pr_proposing_agent r, p_Candidate = pr_genome r,
      p_ReproductionReserveUSD = fadd (fadd (pr_seed_capital r) (pr_api_reserve r)) (pr_failure_buffer r),
      p_ParentLedger = latestLedgerFor pg d (pr_proposing_agent r),
      p_ParentCarriedDebt =
        (case find (\<lambda>a. ar_id a = pr_proposing_agent r) (t_agents d) of
           None \<Rightarrow> Fin 0 | Some a \<Rightarrow> coalesce (ar_unpaid_operating_debt a) (Fin 0))\<rparr>"

definition live_agents :: "db \<Rightarrow> agent_row list" where
  "live_agents d = filter (\<lambda>r. ar_status r \<in> {''active'', ''paused''}) (t_agents d)"

definition open_proposals :: "db \<Rightarrow> proposal_row list" where
  "open_proposals d = filter (\<lambda>r. pr_status r \<in> {''pending'', ''quality_check'', ''adversarial_review''}) (t_proposals d)"

definition LoadEpochState :: "postgres \<Rightarrow> time \<Rightarrow> db \<Rightarrow> string \<Rightarrow> EpochState result" where
  "LoadEpochState pg now d epochID =
     (case pg_fault pg ''epoch'' of Some e \<Rightarrow> Inl (Wrap (''load epoch '' @ epochID) e)
      | None \<Rightarrow>
     (case pg_fault pg ''agents'' of Some e \<Rightarrow> Inl (Wrap ''load agents'' e)
      | None \<Rightarrow>
     (case pg_fault pg ''scan agents'' of Some e \<Rightarrow> Inl (Wrap ''scan agent snapshot'' e)
      | None \<Rightarrow>
     (case pg_fault pg ''agent rows'' of Some e \<Rightarrow> Inl e
      | None \<Rightarrow>
     (case pg_fault pg ''offspring'' of Some e \<Rightarrow> Inl (Wrap ''load offspring'' e)
      | None \<Rightarrow>
     (case pg_fault pg ''scan offspring'' of Some e \<Rightarrow> Inl (Wrap ''scan offspring'' e)
      | None \<Rightarrow>
     (case pg_fault pg ''offspring rows'' of Some e \<Rightarrow> Inl e
      | None \<Rightarrow>
        Ok \<lparr>e_EpochID = epochID,
            e_StartedAt = (case find (\<lambda>r. ep_id r = epochID) (t_epochs d) of None \<Rightarrow> now | Some r \<Rightarrow> ep_started_at r),
            e_Snapshots = map snapshot_of_row (live_agents d),
            e_Genomes = map_of (rev (map (\<lambda>r. (ar_id r, genome_of_row r)) (live_agents d))),
            e_SwarmGenomes = map genome_of_row (live_agents d),
            e_CarriedDebt = map_of (rev (map (\<lambda>r. (ar_id r, coalesce (ar_unpaid_operating_debt r) (Fin 0))) (live_agents d))),
            e_BudgetTight = False,
            e_OffspringProposals = map (proposal_of_row pg d) (open_proposals d),
            e_DeadAgents = []\<rparr>)))))))"

section \<open>Writing\<close>

definition numeric_ledger :: "(f64 \<Rightarrow> f64) \<Rightarrow> Ledger \<Rightarrow> Ledger" where
  "numeric_ledger num l = l\<lparr>l_RealizedTradingPnL := num (l_RealizedTradingPnL l), l_TradingFees := num (l_TradingFees l), l_SlippageCost := num (l_SlippageCost l),
     l_LLMCost := num (l_LLMCost l), l_InfraRent := num (l_InfraRent l), l_RPCCost := num (l_RPCCost l),
     l_UpstreamPaidToParent := num (l_UpstreamPaidToParent l), l_UpstreamPaidToRoot := num (l_UpstreamPaidToRoot l),
     l_RealizedNetProfit := num (l_RealizedNetProfit l)\<rparr>"

definition PersistLedger :: "postgres \<Rightarrow> Ledger \<Rightarrow> db \<Rightarrow> db \<times> unit result" where
  "PersistLedger pg l d =
     (if l_AgentID l = [] then (d, Fail ''orchestrator: PersistLedger requires agent_id'')
      else exec pg ''insert ledger'' ''orchestrator: persist ledger'' d
             (d\<lparr>t_ledgers := t_ledgers d @ [\<lparr>lr_epoch = null_if_empty (l_EpochID l), lr_ledger = numeric_ledger (pg_numeric pg) l\<rparr>]\<rparr>))"

definition PersistSweepRow :: "postgres \<Rightarrow> SweepDecision \<Rightarrow> db \<Rightarrow> db \<times> unit result" where
  "PersistSweepRow pg dec d =
     (if sd_Skipped dec then (d, Ok ())
      else if sw_AgentID (sd_Sweep dec) = [] then (d, Fail ''orchestrator: PersistSweep requires agent_id'')
      else exec pg ''insert sweep'' ''orchestrator: persist sweep'' d
             (d\<lparr>t_sweeps := t_sweeps d @ [\<lparr>sr_agent = sw_AgentID (sd_Sweep dec), sr_parent = null_if_empty (sw_ParentAgentID (sd_Sweep dec)),
                
                sr_to_parent = pg_numeric pg (AmountToParent (sd_Sweep dec)), sr_to_root = pg_numeric pg (AmountToRoot (sd_Sweep dec)),
                sr_retained = pg_numeric pg (AmountRetained (sd_Sweep dec))\<rparr>]\<rparr>))"

definition outcome_status :: "OffspringOutcome \<Rightarrow> string" where
  "outcome_status oc = (case oc of OffspringApproved \<Rightarrow> ''approved'' | OffspringRejected \<Rightarrow> ''rejected'' | OffspringRevise \<Rightarrow> ''pending'')"

definition update_proposal :: "OffspringDecision \<Rightarrow> proposal_row \<Rightarrow> proposal_row" where
  "update_proposal dec r =
     (if pr_id r = d_ProposalID dec then
        r\<lparr>pr_status := outcome_status (d_Outcome dec), pr_rejection_reason := null_if_empty (d_RejectTag dec),
          pr_quality_verdict := (case d_Quality dec of Some q \<Rightarrow> Some (q_Verdict q) | None \<Rightarrow> pr_quality_verdict r),
          pr_quality_reasoning := (case d_Quality dec of Some q \<Rightarrow> Some (q_Reasoning q) | None \<Rightarrow> pr_quality_reasoning r),
          pr_bull_case := (case d_Adversarial dec of Some a \<Rightarrow> Some (a_BullCase a) | None \<Rightarrow> pr_bull_case r),
          pr_bear_case := (case d_Adversarial dec of Some a \<Rightarrow> Some (a_BearCase a) | None \<Rightarrow> pr_bear_case r),
          pr_synthesis := (case d_Adversarial dec of Some a \<Rightarrow> Some (a_Synthesis a) | None \<Rightarrow> pr_synthesis r)\<rparr>
      else r)"

definition PersistOffspringDecision :: "postgres \<Rightarrow> OffspringDecision \<Rightarrow> db \<Rightarrow> db \<times> unit result" where
  "PersistOffspringDecision pg dec d =
     (if d_ProposalID dec = [] then (d, Fail ''orchestrator: PersistOffspringDecision requires proposal_id'')
      else exec pg ''update proposal'' ''orchestrator: persist offspring decision'' d
             (d\<lparr>t_proposals := map (update_proposal dec) (t_proposals d)\<rparr>))"

definition PersistPostmortem :: "postgres \<Rightarrow> PostmortemResult \<Rightarrow> string \<Rightarrow> db \<Rightarrow> db \<times> unit result" where
  "PersistPostmortem pg p agentID d =
     (if agentID = [] then (d, Fail ''orchestrator: PersistPostmortem requires agent_id'')
      else case pg_fault pg ''select agent'' of
        Some e \<Rightarrow> (d, Inl (Wrap ''orchestrator: load agent for postmortem'' e))
      | None \<Rightarrow> (case find (\<lambda>r. ar_id r = agentID) (t_agents d) of
          None \<Rightarrow> (d, Inl (Wrap ''orchestrator: load agent for postmortem'' (Err ''no rows in result set'')))
        | Some r \<Rightarrow> exec pg ''insert postmortem'' ''orchestrator: persist postmortem'' d
            (d\<lparr>t_postmortems := t_postmortems d @ [\<lparr>pmr_agent = agentID, pmr_name = ar_name r, pmr_lifespan_epochs = 0,
               pmr_total_trades = coalesce (ar_total_trades r) 0, pmr_total_pnl = coalesce (ar_total_pnl r) (Fin 0), pmr_llm_cost = pg_numeric pg (pm_CostUSD p),
               pmr_strategy_config = ar_strategy_config r, pmr_strategist_prompt = ar_strategist_prompt r, pmr_bandit_state = ar_bandit_state r,
               pmr_analysis = pm_Diagnosis p, pmr_lessons_summary = pm_Summary p, pmr_failure_category = pm_Category p\<rparr>]\<rparr>)))"

definition count_actions :: "LifecycleActionKind \<Rightarrow> EpochResult \<Rightarrow> int" where
  "count_actions k r = int (length (filter (\<lambda>a. la_Kind a = k) (er_LifecycleActions r)))"

definition count_approved :: "EpochResult \<Rightarrow> int" where
  "count_approved r = int (length (filter (\<lambda>d. d_Outcome d = OffspringApproved) (er_OffspringDecisions r)))"

definition upsert_epoch :: "epoch_row \<Rightarrow> epoch_row list \<Rightarrow> epoch_row list" where
  "upsert_epoch n rows =
     (if ep_id n \<in> set (map ep_id rows)
      then map (\<lambda>r. if ep_id r = ep_id n then r\<lparr>ep_ended_at := ep_ended_at n, ep_killed := ep_killed n, ep_promoted := ep_promoted n,
                      ep_spawned := ep_spawned n, ep_breaker := ep_breaker n\<rparr> else r) rows
      else rows @ [n])"

definition next_epoch_number :: "epoch_row list \<Rightarrow> int" where
  "next_epoch_number rows = coalesce (if rows = [] then None else Some (Max (set (map ep_number rows)))) 0 + 1"

definition LogEpoch :: "postgres \<Rightarrow> EpochResult \<Rightarrow> db \<Rightarrow> db \<times> unit result" where
  "LogEpoch pg r d =
     (if er_EpochID r = [] then (d, Fail ''orchestrator: LogEpoch requires epoch_id'')
      else let killed = count_actions ActionKill r; paused = count_actions ActionPause r; resumed = count_actions ActionResume r;
               approved = count_approved r
           in exec pg ''upsert epoch'' ''orchestrator: log epoch'' d
             (d\<lparr>t_epochs := upsert_epoch \<lparr>ep_id = er_EpochID r, ep_number = next_epoch_number (t_epochs d), ep_started_at = er_EndedAt r - Minute, ep_ended_at = er_EndedAt r,
                 ep_total_agents = killed + paused + resumed + approved, ep_killed = killed, ep_promoted = 0, ep_spawned = approved, ep_treasury_balance = Fin 0, ep_total_pnl = Fin 0,
                 ep_breaker = er_BreakerTripped r\<rparr> (t_epochs d)\<rparr>))"

section \<open>Lemmas\<close>

lemma LoadEpochState_OkD:
  assumes "LoadEpochState pg now d eid = Ok st"
  shows "e_Snapshots st = map snapshot_of_row (live_agents d)" "e_BudgetTight st = False"
    "e_OffspringProposals st = map (proposal_of_row pg d) (open_proposals d)" "e_DeadAgents st = []"
  using assms by (auto simp: LoadEpochState_def split: option.splits)

lemma drawdown_unit:
  assumes "is_f64 p" "is_fin p" "is_f64 b" "is_fin b" shows "in_unit (drawdown_of p b)"
proof (cases "flt (Fin 0) p")
  case True
  let ?n = "fsub p b" and ?d = "fdiv (fsub p b) p"
  have nn: "\<not> is_nan ?n" using assms by (intro fin_op_not_nan)
  have "\<not> is_nan ?d" using nn True assms(2) by (cases ?n; cases p) (auto simp: fdiv_def flt_fin)
  then show ?thesis using True flt_not_fle [of ?d "Fin 0"] flt_not_fle [of "Fin 1" ?d]
    by (auto simp: drawdown_of_def Let_def in_unit_def is_f64_Fin)
qed (simp add: drawdown_of_def)

lemma snapshot_pause:
  assumes "\<not> is_nan (coalesce (ar_current_balance r) (Fin 0))"
  shows "killReason now (applyDefaults DefaultLifecyclePolicyConfig) (snapshot_of_row r) \<noteq> None \<or>
    pauseReason (applyDefaults DefaultLifecyclePolicyConfig) (snapshot_of_row r) tight \<noteq> None"
proof (cases "flt (coalesce (ar_current_balance r) (Fin 0)) (Fin 1)")
  case True
  then show ?thesis by (simp add: killReason_def snapshot_of_row_def Let_def applyDefaults_def DefaultLifecyclePolicyConfig_def f64_or_def)
next
  case False
  then have "fle (Fin 1) (coalesce (ar_current_balance r) (Fin 0))" using flt_not_fle [of _ "Fin 1"] assms by simp
  then have "flt (Fin 0) (coalesce (ar_current_balance r) (Fin 0))" by (rule flt_fle_trans [rotated]) simp
  moreover have "flt (Fin 0) (rnd (1 / 10))" by (rule rnd_powi_pos [of "- 4"]) (simp_all add: power_int_minus)
  ultimately show ?thesis
    by (auto simp: pauseReason_def snapshot_of_row_def Let_def applyDefaults_def DefaultLifecyclePolicyConfig_def f64_or_def feq_def flt_def)
qed

lemma distinct_snapshots: "distinct (map ar_id (t_agents d)) \<Longrightarrow> distinct (map s_AgentID (map snapshot_of_row (live_agents d)))"
  by (simp add: live_agents_def snapshot_of_row_def Let_def comp_def distinct_map_filter)

lemma update_proposal_id [simp]: "pr_id (update_proposal dec r) = pr_id r" "pr_genome (update_proposal dec r) = pr_genome r"
  by (simp_all add: update_proposal_def)

lemma filter_map_closed:
  "(\<And>x. Q x \<Longrightarrow> f x = x) \<Longrightarrow> (\<And>x. \<not> Q x \<Longrightarrow> \<not> P (f x)) \<Longrightarrow> filter P (map f xs) = filter Q (filter P xs)"
  by (induction xs) auto

lemma latestLedgerFor_alt:
  "latestLedgerFor pg d a =
     (let rs = filter (\<lambda>r. l_AgentID (lr_ledger r) = a) (t_ledgers d)
      in if pg_fault pg ''latest ledger'' \<noteq> None \<or> rs = [] then empty_ledger a else (lr_ledger (last rs))\<lparr>l_EpochID := []\<rparr>)"
  by (auto simp: latestLedgerFor_def Let_def split: option.split list.split)

section \<open>Properties\<close>

text \<open>
  C34: with the data that the production store loads, the policy never lets an agent run: every active
  agent whose balance is a number is killed or paused at every epoch, and no paused agent is ever
  resumed.  The store leaves the windowed net profit at zero, which is below the threshold of the
  weak-profit rule, so missing data is a pause signal.
\<close>

theorem loaded_agents_never_run:
  assumes "LoadEpochState pg now d eid = Ok st" "distinct (map ar_id (t_agents d))"
    "r \<in> set (live_agents d)" "\<not> is_nan (coalesce (ar_current_balance r) (Fin 0))"
    and acts: "acts = DeterministicLifecyclePolicy now' DefaultLifecyclePolicyConfig (e_Snapshots st) (e_BudgetTight st)"
  shows "(ar_status r = ''active'' \<longrightarrow> (\<exists>a \<in> set acts. la_AgentID a = ar_id r \<and> la_Kind a \<in> {ActionKill, ActionPause})) \<and>
    \<not> (\<exists>a \<in> set acts. la_AgentID a = ar_id r \<and> la_Kind a = ActionResume)"
proof -
  let ?s = "snapshot_of_row r" and ?c = "applyDefaults DefaultLifecyclePolicyConfig"
  have s: "?s \<in> set (e_Snapshots st)" "distinct (map s_AgentID (e_Snapshots st))"
    using assms(1-3) by (simp_all add: LoadEpochState_OkD distinct_snapshots del: map_map)
  have id: "s_AgentID ?s = ar_id r" "s_Status ?s = ar_status r" by (simp_all add: snapshot_of_row_def Let_def)
  have k: "(\<exists>a \<in> set acts. la_AgentID a = ar_id r \<and> la_Kind a = k) \<longleftrightarrow> wanted now' ?c (e_BudgetTight st) ?s = Some k" for k
    using policy_action_iff [OF s(2,1), of now' DefaultLifecyclePolicyConfig "e_BudgetTight st" k] acts id by simp
  have "wanted now' ?c (e_BudgetTight st) ?s \<noteq> Some ActionResume"
    using snapshot_pause [OF assms(4)] by (auto simp: wanted_iff)
  moreover have "ar_status r = ''active'' \<Longrightarrow> wanted now' ?c (e_BudgetTight st) ?s \<in> {Some ActionKill, Some ActionPause}"
    using snapshot_pause [OF assms(4), of now' "e_BudgetTight st"] id(2) by (auto simp: wanted_def)
  ultimately show ?thesis using k by blast
qed

definition sample_row :: agent_row where
  "sample_row = \<lparr>ar_id = ''a'', ar_name = ''n'', ar_status = ''active'', ar_node_class = ''funded'', ar_chain = ''base'', ar_task_type = ''momentum'',
     ar_current_balance = Some (Fin 500), ar_consecutive_negative_epochs = Some 0, ar_unpaid_operating_debt = None, ar_last_heartbeat_at = None,
     ar_total_pnl = Some (Fin 100), ar_peak_balance = Some (Fin 500), ar_strategist_prompt = ''p'', ar_strategist_model = ''gpt-4o'',
     ar_strategist_interval = None, ar_generation = 0, ar_lineage_depth = 0, ar_capital_allocated = None, ar_total_trades = Some 3, ar_strategy_config = ''{}'', ar_bandit_state = None,
     ar_wallet_address = ''0xa'', ar_wallet_key_encrypted = ''k'', ar_bandit_policies = ''[]'', ar_learned_rules = ''[]'', ar_sleep_schedule = ''{}'',
     ar_reproduction_policy = ''{}'', ar_cost_policy = ''{}'', ar_communication_policy = ''{}'', ar_kill_reason = None, ar_killed_at = None\<rparr>"

definition sample_db :: db where
  "sample_db = \<lparr>t_agents = [sample_row], t_proposals = [], t_ledgers = [], t_sweeps = [], t_postmortems = [], t_epochs = [], t_trades = [], t_decisions = [], t_prices = []\<rparr>"

theorem loaded_agents_never_run_witness:
  "\<exists>st. LoadEpochState pg_ok 0 sample_db ''e'' = Ok st \<and>
     (\<exists>a \<in> set (DeterministicLifecyclePolicy 0 DefaultLifecyclePolicyConfig (e_Snapshots st) (e_BudgetTight st)).
        la_AgentID a = ''a'' \<and> la_Kind a \<in> {ActionKill, ActionPause})"
proof -
  obtain st where st: "LoadEpochState pg_ok 0 sample_db ''e'' = Ok st" by (simp add: LoadEpochState_def pg_ok_def)
  have "sample_row \<in> set (live_agents sample_db)" "distinct (map ar_id (t_agents sample_db))"
    "\<not> is_nan (coalesce (ar_current_balance sample_row) (Fin 0))" "ar_status sample_row = ''active''" "ar_id sample_row = ''a''"
    by (simp_all add: live_agents_def sample_db_def sample_row_def coalesce_def)
  then show ?thesis using loaded_agents_never_run [OF st _ _ _ refl, of sample_row 0] st by fastforce
qed

text \<open>
  A decision that approves or rejects takes its proposal out of the queue that later epochs load,
  and changes no other; a decision to revise leaves the proposal in the queue with the same candidate,
  so that it is reviewed again at every epoch.  A decision that cannot be written changes nothing.
\<close>

theorem offspring_decision_queue:
  assumes "PersistOffspringDecision pg dec d = (d', res)"
  shows "case res of
      Inl e \<Rightarrow> d' = d
    | Inr _ \<Rightarrow>
       (d_Outcome dec \<noteq> OffspringRevise \<longrightarrow> open_proposals d' = filter (\<lambda>r. pr_id r \<noteq> d_ProposalID dec) (open_proposals d)) \<and>
       (d_Outcome dec = OffspringRevise \<longrightarrow>
          (\<forall>r \<in> set (open_proposals d). \<exists>r' \<in> set (open_proposals d'). pr_id r' = pr_id r \<and> pr_genome r' = pr_genome r)) \<and>
       (\<forall>r \<in> set (t_proposals d). pr_id r \<noteq> d_ProposalID dec \<longrightarrow> r \<in> set (t_proposals d'))"
proof (cases res)
  case (Inl e)
  then show ?thesis using assms by (auto simp: PersistOffspringDecision_def split: if_splits dest: exec_Inl)
next
  case (Inr u)
  then have d': "d' = d\<lparr>t_proposals := map (update_proposal dec) (t_proposals d)\<rparr>"
    using assms by (auto simp: PersistOffspringDecision_def split: if_splits dest: exec_Ok)
  let ?open = "\<lambda>r. pr_status r \<in> {''pending'', ''quality_check'', ''adversarial_review''}"
  have same: "pr_id r \<noteq> d_ProposalID dec \<Longrightarrow> update_proposal dec r = r" for r by (simp add: update_proposal_def)
  have fin: "\<not> ?open (update_proposal dec r)" if "pr_id r = d_ProposalID dec" "d_Outcome dec \<noteq> OffspringRevise" for r
    using that by (cases "d_Outcome dec") (simp_all add: update_proposal_def outcome_status_def)
  have closed: "filter ?open (map (update_proposal dec) rs) = filter (\<lambda>r. pr_id r \<noteq> d_ProposalID dec) (filter ?open rs)"
    if "d_Outcome dec \<noteq> OffspringRevise" for rs
    by (rule filter_map_closed) (use same fin that in blast)+
  have "\<exists>r' \<in> set (open_proposals d'). pr_id r' = pr_id r \<and> pr_genome r' = pr_genome r"
    if "r \<in> set (open_proposals d)" "d_Outcome dec = OffspringRevise" for r
  proof
    show "update_proposal dec r \<in> set (open_proposals d')"
      using that unfolding open_proposals_def d' by (simp add: update_proposal_def outcome_status_def)
  qed simp
  moreover have "pr_id r \<noteq> d_ProposalID dec \<Longrightarrow> r \<in> set (t_proposals d) \<Longrightarrow> r \<in> set (t_proposals d')" for r
    unfolding d' using same by force
  ultimately show ?thesis using Inr closed [of "t_proposals d"] by (simp add: open_proposals_def d')
qed

definition sample_proposal :: proposal_row where
  "sample_proposal = \<lparr>pr_id = ''p'', pr_proposing_agent = ''a'', pr_seed_capital = Fin 1, pr_api_reserve = Fin 1, pr_failure_buffer = Fin 1,
     pr_genome = zero_genome, pr_status = ''pending'', pr_rejection_reason = None, pr_quality_verdict = None, pr_quality_reasoning = None,
     pr_bull_case = None, pr_bear_case = None, pr_synthesis = None\<rparr>"

theorem offspring_decision_queue_witness:
  "\<exists>d'. PersistOffspringDecision pg_ok \<lparr>d_ProposalID = ''p'', d_ParentID = ''a'', d_Outcome = OffspringApproved, d_RejectTag = [],
       d_CostUSD = Fin 0, d_Quality = None, d_Adversarial = None\<rparr> (sample_db\<lparr>t_proposals := [sample_proposal]\<rparr>) = (d', Ok ()) \<and>
     open_proposals (sample_db\<lparr>t_proposals := [sample_proposal]\<rparr>) = [sample_proposal] \<and> open_proposals d' = []"
proof -
  let ?dec = "\<lparr>d_ProposalID = ''p'', d_ParentID = ''a'', d_Outcome = OffspringApproved, d_RejectTag = [],
       d_CostUSD = Fin 0, d_Quality = None, d_Adversarial = None\<rparr> :: OffspringDecision"
  let ?d = "sample_db\<lparr>t_proposals := [sample_proposal]\<rparr>"
  obtain d' where d': "PersistOffspringDecision pg_ok ?dec ?d = (d', Ok ())"
    by (simp add: PersistOffspringDecision_def exec_def pg_ok_def)
  have op: "open_proposals ?d = [sample_proposal]" by (simp add: open_proposals_def sample_proposal_def)
  from offspring_decision_queue [OF d'] op d' show ?thesis by (simp add: sample_proposal_def)
qed

text \<open>
  The ledger a store returns for an agent is the one that was written for it last (without its
  epoch and with its amounts as the column holds them), writing for another agent does not change it, and logging an epoch leaves exactly one row
  for its id and the other rows as they were.
\<close>

theorem store_roundtrip:
  assumes "PersistLedger pg l d = (d1, Ok ())" "LogEpoch pg r d1 = (d2, Ok ())" "distinct (map ep_id (t_epochs d))"
    "pg_fault pg ''latest ledger'' = None"
  shows "latestLedgerFor pg d2 (l_AgentID l) = (numeric_ledger (pg_numeric pg) l)\<lparr>l_EpochID := []\<rparr> \<and>
    (\<forall>a. a \<noteq> l_AgentID l \<longrightarrow> latestLedgerFor pg d2 a = latestLedgerFor pg d a) \<and>
    distinct (map ep_id (t_epochs d2)) \<and> er_EpochID r \<in> set (map ep_id (t_epochs d2)) \<and>
    filter (\<lambda>x. ep_id x \<noteq> er_EpochID r) (t_epochs d2) = filter (\<lambda>x. ep_id x \<noteq> er_EpochID r) (t_epochs d)"
proof -
  have d1: "t_ledgers d1 = t_ledgers d @ [\<lparr>lr_epoch = null_if_empty (l_EpochID l), lr_ledger = numeric_ledger (pg_numeric pg) l\<rparr>]" "t_epochs d1 = t_epochs d"
    using assms(1) by (auto simp: PersistLedger_def split: if_splits dest!: exec_Ok)
  obtain n where d2: "t_ledgers d2 = t_ledgers d1" "t_epochs d2 = upsert_epoch n (t_epochs d1)" "ep_id n = er_EpochID r"
    using assms(2) by (auto simp: LogEpoch_def Let_def split: if_splits dest!: exec_Ok)
  have ids: "map ep_id (upsert_epoch n rows) = (if ep_id n \<in> set (map ep_id rows) then map ep_id rows else map ep_id rows @ [ep_id n])" for rows
    by (auto simp: upsert_epoch_def)
  have others: "filter (\<lambda>x. ep_id x \<noteq> ep_id n) (upsert_epoch n rows) = filter (\<lambda>x. ep_id x \<noteq> ep_id n) rows" for rows
  proof -
    have "filter (\<lambda>x. ep_id x \<noteq> i) (map (\<lambda>x. if ep_id x = i then f x else x) rs) = filter (\<lambda>x. ep_id x \<noteq> i) rs"
      if "\<And>x. ep_id (f x) = ep_id x" for i rs and f :: "epoch_row \<Rightarrow> epoch_row" using that by (induction rs) auto
    then show ?thesis by (simp add: upsert_epoch_def)
  qed
  have "latestLedgerFor pg d2 (l_AgentID l) = (numeric_ledger (pg_numeric pg) l)\<lparr>l_EpochID := []\<rparr>"
    by (simp add: latestLedgerFor_alt assms(4) d1 d2 numeric_ledger_def)
  moreover have "latestLedgerFor pg d2 a = latestLedgerFor pg d a" if "a \<noteq> l_AgentID l" for a
    using that by (simp add: latestLedgerFor_alt d1 d2 numeric_ledger_def)
  ultimately show ?thesis using ids [of "t_epochs d1"] others [of "t_epochs d1"] assms(3) d1 d2 by (auto split: if_splits)
qed

theorem store_roundtrip_witness:
  "\<exists>d1 d2. PersistLedger pg_ok (empty_ledger ''a'') sample_db = (d1, Ok ()) \<and>
     LogEpoch pg_ok \<lparr>er_EpochID = ''e'', er_Ledgers = [], er_Sweeps = [], er_LifecycleActions = [], er_OffspringDecisions = [], er_Postmortems = [], er_BreakerTripped = False,
       er_BreakerReason = [], er_EndedAt = Hour\<rparr> d1 = (d2, Ok ()) \<and> latestLedgerFor pg_ok d2 ''a'' = empty_ledger ''a''"
proof -
  let ?r = "\<lparr>er_EpochID = ''e'', er_Ledgers = [], er_Sweeps = [], er_LifecycleActions = [], er_OffspringDecisions = [], er_Postmortems = [], er_BreakerTripped = False,
       er_BreakerReason = [], er_EndedAt = Hour\<rparr> :: EpochResult"
  obtain d1 where d1: "PersistLedger pg_ok (empty_ledger ''a'') sample_db = (d1, Ok ())"
    by (simp add: PersistLedger_def exec_def empty_ledger_def pg_ok_def)
  obtain d2 where d2: "LogEpoch pg_ok ?r d1 = (d2, Ok ())" by (simp add: LogEpoch_def exec_def Let_def pg_ok_def)
  from store_roundtrip [OF d1 d2] d1 d2 show ?thesis by (simp add: sample_db_def empty_ledger_def numeric_ledger_def pg_ok_def)
qed

end
