(* ===== verification/Rng.thy ===== *)
theory Rng
  imports Float64 "HOL-Library.State_Monad"
begin

text \<open>
  The random generator of \<^verbatim>\<open>math/rand/v2\<close> as the sources use it: an opaque state with \<^verbatim>\<open>Float64\<close>
  and \<^verbatim>\<open>IntN\<close>.  The generator is a parameter; \<open>rng_ok\<close> is its documented contract (a float in
  the half-open unit interval, an integer below the bound).  Code that draws is a computation of the
  state monad over the generator's state.
\<close>

record 'r rng =
  rng_float :: "'r \<Rightarrow> f64 \<times> 'r"
  rng_intn :: "int \<Rightarrow> 'r \<Rightarrow> int \<times> 'r"

definition rng_ok :: "'r rng \<Rightarrow> bool" where
  "rng_ok R \<longleftrightarrow> (\<forall>s. is_f64 (fst (rng_float R s)) \<and> fle (Fin 0) (fst (rng_float R s)) \<and> flt (fst (rng_float R s)) (Fin 1)) \<and>
     (\<forall>n s. 0 < n \<longrightarrow> 0 \<le> fst (rng_intn R n s) \<and> fst (rng_intn R n s) < n)"

definition rfloat :: "'r rng \<Rightarrow> ('r, f64) state" where "rfloat R = State (rng_float R)"
definition rintn :: "'r rng \<Rightarrow> int \<Rightarrow> ('r, int) state" where "rintn R n = State (rng_intn R n)"

text \<open>A generator that always draws the same numbers, for evaluation.\<close>

definition const_rng :: "f64 \<Rightarrow> int \<Rightarrow> unit rng" where
  "const_rng x i = \<lparr>rng_float = (\<lambda>s. (x, s)), rng_intn = (\<lambda>n s. (i mod n, s))\<rparr>"

lemma const_rng_ok: "in_unit x \<Longrightarrow> flt x (Fin 1) \<Longrightarrow> rng_ok (const_rng x i)"
  by (auto simp: rng_ok_def const_rng_def in_unit_def)

named_theorems post_intros \<open>rules for what every run of a computation returns\<close>

lemma rfloat_post [post_intros]: "rng_ok R \<Longrightarrow> (\<And>u. in_unit u \<Longrightarrow> P u) \<Longrightarrow> pred_state P (rfloat R)"
  by (rule pred_stateI) (metis rfloat_def rng_ok_def state.sel fst_conv flt_imp_fle in_unit_def)

lemma rintn_post: "rng_ok R \<Longrightarrow> 0 < n \<Longrightarrow> (\<And>i. 0 \<le> i \<Longrightarrow> i < n \<Longrightarrow> P i) \<Longrightarrow> pred_state P (rintn R n)"
  by (rule pred_stateI) (metis rintn_def rng_ok_def state.sel fst_conv)

lemma bind_post: "pred_state Q m \<Longrightarrow> (\<And>x. Q x \<Longrightarrow> pred_state P (f x)) \<Longrightarrow> pred_state P (State_Monad.bind m f)"
  by (rule bind_predI) (metis state.pred_mono_strong)

lemma return_post [post_intros]: "P x \<Longrightarrow> pred_state P (State_Monad.return x)"
  by (rule pred_stateI) auto

lemma if_post [post_intros]: "(b \<Longrightarrow> pred_state P m) \<Longrightarrow> (\<not> b \<Longrightarrow> pred_state P m') \<Longrightarrow> pred_state P (if b then m else m')"
  by simp

lemma post_weaken: "pred_state Q m \<Longrightarrow> (\<And>x. Q x \<Longrightarrow> P x) \<Longrightarrow> pred_state P m"
  by (rule state.pred_mono_strong)

lemma post_run: "pred_state P m \<Longrightarrow> P (fst (run_state m s))"
  by (rule pred_state_run_state)

text \<open>A draw followed by a use.\<close>

lemma rfloat_bind_post [post_intros]:
  "rng_ok R \<Longrightarrow> (\<And>u. in_unit u \<Longrightarrow> pred_state P (f u)) \<Longrightarrow> pred_state P (State_Monad.bind (rfloat R) f)"
  by (rule bind_post [where Q = in_unit]) (auto intro: rfloat_post)

text \<open>\<^verbatim>\<open>options[rng.IntN(len(options))]\<close> of a non-empty slice.\<close>

definition pick :: "'r rng \<Rightarrow> 'a list \<Rightarrow> ('r, 'a) state" where
  "pick R xs = do { i \<leftarrow> rintn R (int (length xs)); State_Monad.return (xs ! nat i) }"

lemma pick_post: "rng_ok R \<Longrightarrow> xs \<noteq> [] \<Longrightarrow> (\<And>x. x \<in> set xs \<Longrightarrow> P x) \<Longrightarrow> pred_state P (pick R xs)"
  unfolding pick_def
  by (rule bind_post [where Q = "\<lambda>i. 0 \<le> i \<and> i < int (length xs)"])
    (auto intro!: rintn_post return_post simp: nat_less_iff)

end
