(* ===== verification/Evolution.thy ===== *)
theory Evolution
  imports Genome Rng "HOL-Library.List_Lexorder" "HOL-Library.Char_ord"
begin

text \<open>
  \<^verbatim>\<open>internal/orchestrator/evolution.go\<close> (mutation), \<^verbatim>\<open>crossover.go\<close> and \<^verbatim>\<open>diversity.go\<close>.
  Everything that draws random numbers is a computation over the generator; conversion of a float
  outside the range of \<^verbatim>\<open>int\<close> is implementation-defined in Go and is the parameter \<open>oob\<close>.  The
  order in which a map is visited is the order of its association list.
\<close>

section \<open>Mutation\<close>

definition half :: f64 where "half = Fin (1 / 2)"

definition uniform :: "'r rng \<Rightarrow> f64 \<Rightarrow> f64 \<Rightarrow> ('r, f64) state" where
  "uniform R lo hi = do { u \<leftarrow> rfloat R; State_Monad.return (fadd lo (fmul u (fsub hi lo))) }"

abbreviation twenty_percent :: "'r rng \<Rightarrow> ('r, f64) state" where
  "twenty_percent R \<equiv> uniform R (rnd (4 / 5)) (rnd (6 / 5))"

definition clampFloat :: "f64 \<Rightarrow> f64" where
  "clampFloat v = (if flt v (Fin 0) then Fin 0 else v)"

definition clampUnit :: "f64 \<Rightarrow> f64" where
  "clampUnit v = (if flt v (Fin 0) then Fin 0 else if flt (Fin 1) v then Fin 1 else v)"

definition perturbUSD :: "'r rng \<Rightarrow> f64 \<Rightarrow> ('r, f64) state" where
  "perturbUSD R v = do {
     u \<leftarrow> rfloat R;
     if fle half u then State_Monad.return v
     else do { w \<leftarrow> twenty_percent R; State_Monad.return (clampFloat (fmul v w)) } }"

definition perturbCountNonNeg :: "(f64 \<Rightarrow> int) \<Rightarrow> 'r rng \<Rightarrow> int \<Rightarrow> ('r, int) state" where
  "perturbCountNonNeg oob R v = do {
     w \<leftarrow> twenty_percent R;
     let scaled = fmul (f64_of_int v) w;
     State_Monad.return (if flt scaled (Fin 0) then 0 else f64_to_int oob (fadd scaled half)) }"

definition swapChain :: "'r rng \<Rightarrow> string \<Rightarrow> ('r, string) state" where
  "swapChain R current = pick R [''solana'', ''base'']"

definition swapTaskType :: "'r rng \<Rightarrow> string \<Rightarrow> ('r, string) state" where
  "swapTaskType R current = pick R [''cross_chain_yield'', ''liquidity_provision'', ''liquidation_hunting'', ''momentum'']"

definition swapModel :: "'r rng \<Rightarrow> string \<Rightarrow> ('r, string) state" where
  "swapModel R current = pick R [''claude-haiku-4-5-20251001'', ''claude-sonnet-4-6'', ''claude-opus-4-7'', ''gpt-4o'', ''gpt-4o-mini'']"

definition bandit_candidates :: "string list" where
  "bandit_candidates = [''default'', ''aggressive'', ''defensive'', ''momentum'', ''mean_revert'', ''trend_follow'']"

definition add_policy :: "'r rng \<Rightarrow> string list \<Rightarrow> ('r, string list) state" where
  "add_policy R out =
     (let missing = sort (filter (\<lambda>c. c \<notin> set out) bandit_candidates)
      in if missing = [] then State_Monad.return out
         else do { c \<leftarrow> pick R missing; State_Monad.return (out @ [c]) })"

definition drop_policy :: "'r rng \<Rightarrow> string list \<Rightarrow> ('r, string list) state" where
  "drop_policy R out = do {
     idx \<leftarrow> rintn R (int (length out));
     State_Monad.return (take (nat idx) out @ drop (nat idx + 1) out) }"

definition mutateBanditPolicies :: "'r rng \<Rightarrow> string list \<Rightarrow> ('r, string list) state" where
  "mutateBanditPolicies R out =
     (if length out \<le> 1 then add_policy R out
      else do { u \<leftarrow> rfloat R; if flt u half then add_policy R out else drop_policy R out })"

definition appendMutationMarker :: "string \<Rightarrow> int \<Rightarrow> string" where
  "appendMutationMarker prompt generation = prompt @ [CHR 0x0A] @ ''// mut-v'' @ itoa (wrap64 (generation + 1))"

fun mutate_value :: "(f64 \<Rightarrow> int) \<Rightarrow> 'r rng \<Rightarrow> jval \<Rightarrow> ('r, jval) state" where
  "mutate_value oob R (JFloat x) = do {
     u \<leftarrow> rfloat R;
     if flt u half then do { w \<leftarrow> twenty_percent R; State_Monad.return (JFloat (clampFloat (fmul x w))) }
     else State_Monad.return (JFloat x) }"
| "mutate_value oob R (JInt x) = do {
     u \<leftarrow> rfloat R;
     if flt u half then do {
       w \<leftarrow> twenty_percent R;
       let scaled = (let s = fmul (f64_of_int x) w in if flt s (Fin 0) then Fin 0 else s);
       State_Monad.return (JInt (f64_to_int oob (fadd scaled half))) }
     else State_Monad.return (JInt x) }"
| "mutate_value oob R v = State_Monad.return v"

fun mutate_config :: "(f64 \<Rightarrow> int) \<Rightarrow> 'r rng \<Rightarrow> (string \<times> jval) list \<Rightarrow> ('r, (string \<times> jval) list) state" where
  "mutate_config oob R [] = State_Monad.return []"
| "mutate_config oob R ((k, v) # kvs) = do {
     v' \<leftarrow> mutate_value oob R v;
     kvs' \<leftarrow> mutate_config oob R kvs;
     State_Monad.return ((k, v') # kvs') }"

definition mutate_chain :: "'r rng \<Rightarrow> AgentGenome \<Rightarrow> ('r, AgentGenome) state" where
  "mutate_chain R g =
     (if AllowChainMutation (g_ReproductionPolicy g) then do {
        u \<leftarrow> rfloat R;
        if flt u (rnd (5 / 100)) then do { c \<leftarrow> swapChain R (g_Chain g); State_Monad.return (g\<lparr>g_Chain := c\<rparr>) }
        else State_Monad.return g }
      else State_Monad.return g)"

definition mutate_task_type :: "'r rng \<Rightarrow> AgentGenome \<Rightarrow> ('r, AgentGenome) state" where
  "mutate_task_type R g =
     (if AllowTaskTypeMutation (g_ReproductionPolicy g) then do {
        u \<leftarrow> rfloat R;
        if flt u (rnd (5 / 100)) then do { t \<leftarrow> swapTaskType R (g_TaskType g); State_Monad.return (g\<lparr>g_TaskType := t\<rparr>) }
        else State_Monad.return g }
      else State_Monad.return g)"

definition mutate_strategy :: "(f64 \<Rightarrow> int) \<Rightarrow> 'r rng \<Rightarrow> AgentGenome \<Rightarrow> ('r, AgentGenome) state" where
  "mutate_strategy oob R g =
     (case g_StrategyConfig g of
        None \<Rightarrow> State_Monad.return g
      | Some kvs \<Rightarrow> do { out \<leftarrow> mutate_config oob R kvs; State_Monad.return (g\<lparr>g_StrategyConfig := Some out\<rparr>) })"

definition mutateTaskModule :: "(f64 \<Rightarrow> int) \<Rightarrow> 'r rng \<Rightarrow> AgentGenome \<Rightarrow> ('r, AgentGenome) state" where
  "mutateTaskModule oob R g0 = do {
     g1 \<leftarrow> mutate_strategy oob R g0;
     g2 \<leftarrow> mutate_chain R g1;
     mutate_task_type R g2 }"

definition mutate_interval :: "(f64 \<Rightarrow> int) \<Rightarrow> 'r rng \<Rightarrow> int \<Rightarrow> ('r, int) state" where
  "mutate_interval oob R secs = do {
     u \<leftarrow> rfloat R;
     if flt u half \<and> 0 < secs then do {
       w \<leftarrow> twenty_percent R;
       let scaled = (let s = fmul (f64_of_int secs) w in if flt s (Fin 60) then Fin 60 else s);
       State_Monad.return (f64_to_int oob (fadd scaled half)) }
     else State_Monad.return secs }"

definition mutate_model :: "'r rng \<Rightarrow> AgentGenome \<Rightarrow> ('r, AgentGenome) state" where
  "mutate_model R g =
     (if AllowModelMutation (g_ReproductionPolicy g) then do {
        u \<leftarrow> rfloat R;
        if flt u (rnd (10 / 100)) then do { m \<leftarrow> swapModel R (g_StrategistModel g); State_Monad.return (g\<lparr>g_StrategistModel := m\<rparr>) }
        else State_Monad.return g }
      else State_Monad.return g)"

definition mutate_bandits :: "'r rng \<Rightarrow> AgentGenome \<Rightarrow> ('r, AgentGenome) state" where
  "mutate_bandits R g = do {
     u \<leftarrow> rfloat R;
     if flt u (rnd (15 / 100)) then do {
       bp \<leftarrow> mutateBanditPolicies R (g_BanditPolicies g);
       State_Monad.return (g\<lparr>g_BanditPolicies := bp\<rparr>) }
     else State_Monad.return g }"

definition mutateBrainModule :: "(f64 \<Rightarrow> int) \<Rightarrow> 'r rng \<Rightarrow> AgentGenome \<Rightarrow> ('r, AgentGenome) state" where
  "mutateBrainModule oob R g0 = do {
     g1 \<leftarrow> mutate_model R (g0\<lparr>g_StrategistPrompt := appendMutationMarker (g_StrategistPrompt g0) (g_Generation g0)\<rparr>);
     secs \<leftarrow> mutate_interval oob R (g_StrategistIntervalSeconds g1);
     mutate_bandits R (g1\<lparr>g_StrategistIntervalSeconds := secs\<rparr>) }"

definition mutateEconomicsModule :: "'r rng \<Rightarrow> AgentGenome \<Rightarrow> ('r, AgentGenome) state" where
  "mutateEconomicsModule R g = do {
     u \<leftarrow> rfloat R;
     ca \<leftarrow> (if flt u half then do { w \<leftarrow> twenty_percent R; State_Monad.return (clampUnit (fmul (g_CapitalAllocation g) w)) }
            else State_Monad.return (g_CapitalAllocation g));
     let rp = g_ReproductionPolicy g;
     let cp = g_CostPolicy g;
     a \<leftarrow> perturbUSD R (MinRealizedNetProfitUSD rp);
     b \<leftarrow> perturbUSD R (OffspringSeedCapitalUSD rp);
     c \<leftarrow> perturbUSD R (OffspringAPIReserveUSD rp);
     d \<leftarrow> perturbUSD R (OffspringFailureBufferUSD rp);
     e \<leftarrow> perturbUSD R (MonthlyLLMBudgetUSD cp);
     f \<leftarrow> perturbUSD R (MonthlyInfraRentBudgetUSD cp);
     State_Monad.return (g\<lparr>g_CapitalAllocation := ca,
       g_ReproductionPolicy := rp\<lparr>MinRealizedNetProfitUSD := a, OffspringSeedCapitalUSD := b,
         OffspringAPIReserveUSD := c, OffspringFailureBufferUSD := d\<rparr>,
       g_CostPolicy := cp\<lparr>MonthlyLLMBudgetUSD := e, MonthlyInfraRentBudgetUSD := f\<rparr>\<rparr>) }"

definition mutateCommunicationModule :: "(f64 \<Rightarrow> int) \<Rightarrow> 'r rng \<Rightarrow> AgentGenome \<Rightarrow> ('r, AgentGenome) state" where
  "mutateCommunicationModule oob R g = do {
     let cp = g_CommunicationPolicy g;
     u \<leftarrow> rfloat R;
     mb \<leftarrow> (if flt u half then perturbCountNonNeg oob R (MaxBroadcastsPerCycle cp) else State_Monad.return (MaxBroadcastsPerCycle cp));
     v \<leftarrow> rfloat R;
     im \<leftarrow> (if flt v half then perturbCountNonNeg oob R (IntelSummaryMaxItems cp) else State_Monad.return (IntelSummaryMaxItems cp));
     w \<leftarrow> rfloat R;
     State_Monad.return (g\<lparr>g_CommunicationPolicy := cp\<lparr>MaxBroadcastsPerCycle := mb, IntelSummaryMaxItems := im,
       RequireBullBearTag := (if flt w (rnd (5 / 100)) then \<not> RequireBullBearTag cp else RequireBullBearTag cp)\<rparr>\<rparr>) }"

definition MutateGenome :: "(f64 \<Rightarrow> int) \<Rightarrow> 'r rng \<Rightarrow> AgentGenome \<Rightarrow> ('r, AgentGenome) state" where
  "MutateGenome oob R parent = do {
     let child = parent\<lparr>g_Generation := wrap64 (g_Generation parent + 1), g_LineageDepth := wrap64 (g_LineageDepth parent + 1)\<rparr>;
     c1 \<leftarrow> mutateTaskModule oob R child;
     c2 \<leftarrow> mutateBrainModule oob R c1;
     c3 \<leftarrow> mutateEconomicsModule R c2;
     mutateCommunicationModule oob R c3 }"

section \<open>Crossover\<close>

record ModulePerformance =
  TaskPnL :: f64
  BrainEfficiency :: f64
  EconomicsHealth :: f64
  CommunicationAccuracy :: f64

record CrossoverInheritance =
  ci_Task :: string
  ci_Brain :: string
  ci_Economics :: string
  ci_Communication :: string

definition crossoverWinnerProbability :: f64 where "crossoverWinnerProbability = rnd (8 / 10)"

definition pickWinner :: "'r rng \<Rightarrow> f64 \<Rightarrow> f64 \<Rightarrow> ('r, bool) state" where
  "pickWinner R scoreA scoreB = do {
     u \<leftarrow> rfloat R;
     let winnerWins = flt u crossoverWinnerProbability;
     State_Monad.return (if flt scoreB scoreA then winnerWins else if flt scoreA scoreB then \<not> winnerWins else winnerWins) }"

definition letter :: "bool \<Rightarrow> string" where
  "letter fromA = (if fromA then ''A'' else ''B'')"

definition copyStrategyConfig :: "strategy_config \<Rightarrow> strategy_config" where
  "copyStrategyConfig src = (case src of None \<Rightarrow> None | Some kvs \<Rightarrow> Some (map (\<lambda>(k, v). (k, v)) kvs))"

definition cross_genomes :: "bool \<Rightarrow> bool \<Rightarrow> bool \<Rightarrow> bool \<Rightarrow> AgentGenome \<Rightarrow> AgentGenome \<Rightarrow> AgentGenome" where
  "cross_genomes taskFromA brainFromA econFromA commsFromA A B =
     (let T = (if taskFromA then A else B); Br = (if brainFromA then A else B);
          E = (if econFromA then A else B); C = (if commsFromA then A else B)
      in \<lparr>g_Name = g_Name A, g_Generation = wrap64 (max (g_Generation A) (g_Generation B) + 1),
          g_LineageDepth = wrap64 (max (g_LineageDepth A) (g_LineageDepth B) + 1),
          g_TaskType = g_TaskType T, g_Chain = g_Chain T, g_StrategyConfig = copyStrategyConfig (g_StrategyConfig T),
          g_StrategistPrompt = g_StrategistPrompt Br, g_StrategistModel = g_StrategistModel Br,
          g_StrategistIntervalSeconds = g_StrategistIntervalSeconds Br, g_BanditPolicies = g_BanditPolicies Br,
          g_LearnedRules = g_LearnedRules Br, g_CapitalAllocation = g_CapitalAllocation E,
          g_ReproductionPolicy = g_ReproductionPolicy E, g_CostPolicy = g_CostPolicy E,
          g_CommunicationPolicy = g_CommunicationPolicy C, g_SleepSchedule = g_SleepSchedule C\<rparr>)"

definition Crossover :: "'r rng \<Rightarrow> AgentGenome \<Rightarrow> AgentGenome \<Rightarrow> ModulePerformance \<Rightarrow> ModulePerformance \<Rightarrow>
    ('r, AgentGenome \<times> CrossoverInheritance) state" where
  "Crossover R parentA parentB perfA perfB = do {
     t \<leftarrow> pickWinner R (TaskPnL perfA) (TaskPnL perfB);
     b \<leftarrow> pickWinner R (BrainEfficiency perfA) (BrainEfficiency perfB);
     e \<leftarrow> pickWinner R (EconomicsHealth perfA) (EconomicsHealth perfB);
     c \<leftarrow> pickWinner R (CommunicationAccuracy perfA) (CommunicationAccuracy perfB);
     State_Monad.return (cross_genomes t b e c parentA parentB,
       \<lparr>ci_Task = letter t, ci_Brain = letter b, ci_Economics = letter e, ci_Communication = letter c\<rparr>) }"

section \<open>Diversity\<close>

definition tripleKey :: "string \<Rightarrow> string \<Rightarrow> string \<Rightarrow> string" where
  "tripleKey task chain model = task @ ''|'' @ chain @ ''|'' @ model"

definition genome_key :: "AgentGenome \<Rightarrow> string" where
  "genome_key g = tripleKey (g_TaskType g) (g_Chain g) (g_StrategistModel g)"

text \<open>The counts, listed in an order of the distinct keys (Go visits the map in any order).\<close>

definition tripleCounts :: "AgentGenome list \<Rightarrow> (string \<times> int) list" where
  "tripleCounts swarm = map (\<lambda>k. (k, int (length (filter (\<lambda>g. genome_key g = k) swarm)))) (remdups (map genome_key swarm))"

definition score_of_counts :: "int \<Rightarrow> int list \<Rightarrow> f64" where
  "score_of_counts n counts =
     (let total = f64_of_int n;
          sumSq = foldl (\<lambda>s c. let p = fdiv (f64_of_int c) total in fadd s (fmul p p)) (Fin 0) counts
      in fsub (Fin 1) sumSq)"

definition DiversityScore :: "AgentGenome list \<Rightarrow> f64" where
  "DiversityScore swarm =
     (if length swarm \<le> 1 then Fin 0 else score_of_counts (int (length swarm)) (map snd (tripleCounts swarm)))"

definition DiversityBonus :: "AgentGenome \<Rightarrow> AgentGenome list \<Rightarrow> f64" where
  "DiversityBonus candidate swarm =
     (if swarm = [] then Fin 1
      else let matches = length (filter (\<lambda>g. genome_key g = genome_key candidate) swarm)
           in fsub (Fin 1) (fdiv (f64_of_int (int matches)) (f64_of_int (int (length swarm)))))"

section \<open>What a mutation can draw\<close>

definition scale_ok :: "f64 \<Rightarrow> bool" where
  "scale_ok w \<longleftrightarrow> is_fin w \<and> fle (Fin 0) w \<and> fle w (Fin 2)"

lemma scale_bounds:
  assumes "in_unit u" shows "scale_ok (fadd (rnd (4 / 5)) (fmul u (fsub (rnd (6 / 5)) (rnd (4 / 5)))))"
proof -
  let ?lo = "rnd (4 / 5)" and ?hi = "rnd (6 / 5)"
  have lo: "in_unit ?lo" by (rule rnd_unit) simp_all
  have lo2: "fle (rnd (1 / 2)) ?lo" by (rule rnd_mono) simp
  have hi: "fle ?lo ?hi" "fle ?hi (rnd (3 / 2))" by (rule rnd_mono; simp)+
  have r32: "rnd (3 / 2) = Fin (3 / 2)" using rnd_dyadic [of 3 1] by simp
  have hf: "is_fin ?hi" by (rule fle_between_fin [OF hi]) (simp_all add: r32 in_unit_fin [OF lo])
  have w1: "fle (Fin 0) (fsub ?hi ?lo)" using hf in_unit_fin [OF lo] hi(1) by (rule fsub_nonneg)
  have "fle (fsub ?hi ?lo) (fsub (Fin (3 / 2)) (Fin (1 / 2)))"
    by (rule fsub_mono) (use hf in_unit_fin [OF lo] hi lo2 in \<open>simp_all add: r32\<close>)
  then have "fle (fsub ?hi ?lo) (Fin 1)" by (simp add: f64_simps)
  with w1 have wu: "in_unit (fsub ?hi ?lo)" by (simp add: in_unit_def)
  have m: "in_unit (fmul u (fsub ?hi ?lo))" using fmul_in_unit [OF assms wu] by simp
  let ?s = "fadd ?lo (fmul u (fsub ?hi ?lo))"
  have s0: "fle (Fin 0) ?s" using lo m by (intro fadd_nonneg) (simp_all add: in_unit_fin in_unit_def [of ?lo] in_unit_def [of "fmul u (fsub ?hi ?lo)"])
  have "fle ?s (fadd (Fin 1) (Fin 1))"
    using lo m in_unit_fin [OF lo] in_unit_fin [OF m] by (intro fadd_mono) (simp_all add: in_unit_def)
  then have s2: "fle ?s (Fin 2)" by (simp add: f64_simps)
  have "is_fin ?s" by (rule fle_between_fin [OF s0 s2]) simp_all
  with s0 s2 show ?thesis by (simp add: scale_ok_def)
qed

lemma scale_post: "rng_ok R \<Longrightarrow> (\<And>w. scale_ok w \<Longrightarrow> P w) \<Longrightarrow> pred_state P (twenty_percent R)"
  unfolding uniform_def by (intro post_intros scale_bounds) (auto intro: scale_bounds)

lemma scale_bind_post [post_intros]:
  "rng_ok R \<Longrightarrow> (\<And>w. scale_ok w \<Longrightarrow> pred_state P (f w)) \<Longrightarrow> pred_state P (State_Monad.bind (twenty_percent R) f)"
  by (rule bind_post [where Q = scale_ok]) (auto intro: scale_post)

lemma usd_clamp: "usd_ok (clampFloat v)"
  by (simp add: usd_ok_def clampFloat_def)

lemma perturbUSD_post: "rng_ok R \<Longrightarrow> usd_ok v \<Longrightarrow> pred_state usd_ok (perturbUSD R v)"
  unfolding perturbUSD_def by (intro post_intros usd_clamp) assumption+

lemma perturbUSD_bind [post_intros]:
  "rng_ok R \<Longrightarrow> usd_ok v \<Longrightarrow> (\<And>w. usd_ok w \<Longrightarrow> pred_state P (f w)) \<Longrightarrow> pred_state P (State_Monad.bind (perturbUSD R v) f)"
  by (rule bind_post [OF perturbUSD_post])

text \<open>Integers small enough that scaling and rounding stay exact in range.\<close>

definition small :: "int \<Rightarrow> bool" where "small v \<longleftrightarrow> 0 \<le> v \<and> v \<le> 2 ^ 52"

lemma to_int_nonneg:
  assumes "fle (Fin 0) x" "fle x (Fin (2 ^ 53))"
  shows "0 \<le> f64_to_int oob (fadd x half)"
proof -
  have fx: "is_fin x" by (rule fle_between_fin [OF assms]) simp_all
  have a: "fle (Fin 0) (fadd x half)" using fx assms(1) by (intro fadd_nonneg) (simp_all add: half_def)
  have "rnd (2 ^ 53 + 2 ^ 53) = Fin (2 ^ 54)" using rnd_exact [of 1 54] by (simp add: overflow_def)
  then have "fadd (Fin (2 ^ 53)) (Fin (2 ^ 53)) = Fin (2 ^ 54)" by (simp add: fadd_def Let_def)
  moreover have "fle (fadd x half) (fadd (Fin (2 ^ 53)) (Fin (2 ^ 53)))"
    using fx assms(2) by (intro fadd_mono) (simp_all add: half_def)
  ultimately have b: "fle (fadd x half) (Fin (2 ^ 54))" by simp
  have f: "is_fin (fadd x half)" by (rule fle_between_fin [OF a b]) simp_all
  have v: "0 \<le> fval (fadd x half)" "fval (fadd x half) \<le> 2 ^ 54" using a b f by (simp_all add: fle_fin)
  have "rtrunc (fval (fadd x half)) = \<lfloor>fval (fadd x half)\<rfloor>" using v(1) by (simp add: rtrunc_def)
  moreover have "0 \<le> \<lfloor>fval (fadd x half)\<rfloor>" using v(1) by simp
  moreover have "\<lfloor>fval (fadd x half)\<rfloor> \<le> 2 ^ 54" using v(2) by (simp add: floor_le_iff)
  ultimately show ?thesis using f by (simp add: f64_to_int_def is_int64_def go_defs)
qed

lemma scaled_small:
  assumes "small v" "scale_ok w"
  shows "fle (Fin 0) (fmul (f64_of_int v) w) \<and> fle (fmul (f64_of_int v) w) (Fin (2 ^ 53))"
proof
  have v: "f64_of_int v = Fin (of_int v)" "(0::rat) \<le> of_int v" "(of_int v :: rat) \<le> 2 ^ 52"
    using assms(1) f64_of_int_fin [of v] of_int_le_iff [of v "2 ^ 52", where ?'a = rat] by (simp_all add: small_def)
  show "fle (Fin 0) (fmul (f64_of_int v) w)" using v assms(2) by (intro fmul_nonneg) (simp_all add: scale_ok_def)
  have "fle (fmul (f64_of_int v) w) (fmul (Fin (2 ^ 52)) (Fin 2))"
    using v assms(2) by (intro fmul_mono) (simp_all add: scale_ok_def)
  also have "fmul (Fin (2 ^ 52)) (Fin 2) = Fin (2 ^ 53)" by (simp add: f64_simps)
  finally show "fle (fmul (f64_of_int v) w) (Fin (2 ^ 53))" .
qed

lemma perturbCount_post: "rng_ok R \<Longrightarrow> small v \<Longrightarrow> pred_state (\<lambda>n. 0 \<le> n) (perturbCountNonNeg oob R v)"
  unfolding perturbCountNonNeg_def Let_def
  by (intro post_intros) (auto dest!: scaled_small intro: to_int_nonneg)

lemma interval_post: "rng_ok R \<Longrightarrow> small v \<Longrightarrow> pred_state (\<lambda>n. 0 \<le> n) (mutate_interval oob R v)"
  unfolding mutate_interval_def Let_def
  using scaled_small [of v] by (intro post_intros to_int_nonneg) (auto simp: small_def)

lemma add_policy_post: "rng_ok R \<Longrightarrow> pred_state (\<lambda>b. b \<noteq> [] \<and> (distinct ps \<longrightarrow> distinct b)) (add_policy R ps)"
  unfolding add_policy_def Let_def
proof (intro post_intros, goal_cases)
  case 1
  then show ?case by (auto simp: bandit_candidates_def split: if_splits)
next
  case 2
  then show ?case
    by (intro bind_post [OF pick_post [where P = "\<lambda>c. c \<notin> set ps"]] post_intros) auto
qed

lemma drop_policy_post:
  assumes "rng_ok R" "2 \<le> length ps"
  shows "pred_state (\<lambda>b. b \<noteq> [] \<and> (distinct ps \<longrightarrow> distinct b)) (drop_policy R ps)"
proof -
  have "take (nat x) ps @ drop (nat x + 1) ps \<noteq> [] \<and> (distinct ps \<longrightarrow> distinct (take (nat x) ps @ drop (nat x + 1) ps))"
    if "0 \<le> x \<and> x < int (length ps)" for x
    using that assms(2) by (auto simp: set_take_disj_set_drop_if_distinct nat_eq_iff)
  then show ?thesis unfolding drop_policy_def using assms
    by (intro bind_post [OF rintn_post [where P = "\<lambda>i. 0 \<le> i \<and> i < int (length ps)"]] return_post) auto
qed

lemma bandit_post: "rng_ok R \<Longrightarrow> pred_state (\<lambda>b. b \<noteq> [] \<and> (distinct ps \<longrightarrow> distinct b)) (mutateBanditPolicies R ps)"
  unfolding mutateBanditPolicies_def
  by (intro post_intros add_policy_post) (auto intro: add_policy_post drop_policy_post)

text \<open>What each module may change: putting its fields back gives the genome it started from.\<close>

definition task_post :: "AgentGenome \<Rightarrow> AgentGenome \<Rightarrow> bool" where
  "task_post g h \<longleftrightarrow> h\<lparr>g_StrategyConfig := g_StrategyConfig g, g_Chain := g_Chain g, g_TaskType := g_TaskType g\<rparr> = g \<and>
     (g_Chain h = g_Chain g \<or> AllowChainMutation (g_ReproductionPolicy g) \<and> g_Chain h \<in> set validChains) \<and>
     (g_TaskType h = g_TaskType g \<or> AllowTaskTypeMutation (g_ReproductionPolicy g) \<and> g_TaskType h \<in> set validTaskTypes)"

definition brain_post :: "AgentGenome \<Rightarrow> AgentGenome \<Rightarrow> bool" where
  "brain_post g h \<longleftrightarrow> h\<lparr>g_StrategistPrompt := g_StrategistPrompt g, g_StrategistModel := g_StrategistModel g,
       g_StrategistIntervalSeconds := g_StrategistIntervalSeconds g, g_BanditPolicies := g_BanditPolicies g\<rparr> = g \<and>
     g_StrategistPrompt h = appendMutationMarker (g_StrategistPrompt g) (g_Generation g) \<and>
     (g_StrategistModel h = g_StrategistModel g \<or> AllowModelMutation (g_ReproductionPolicy g) \<and> g_StrategistModel h \<in> set (map fst modelRates)) \<and>
     0 \<le> g_StrategistIntervalSeconds h \<and> (g_BanditPolicies g \<noteq> [] \<longrightarrow> g_BanditPolicies h \<noteq> []) \<and>
     (distinct (g_BanditPolicies g) \<longrightarrow> distinct (g_BanditPolicies h))"

lemma mutate_strategy_post: "pred_state (\<lambda>h. h\<lparr>g_StrategyConfig := g_StrategyConfig g\<rparr> = g) (mutate_strategy oob R g)"
  unfolding mutate_strategy_def
  by (auto split: option.split intro!: return_post bind_post [OF pred_stateI [of _ "\<lambda>_. True"]])

lemma mutate_chain_post:
  "rng_ok R \<Longrightarrow> pred_state (\<lambda>h. h\<lparr>g_Chain := g_Chain g\<rparr> = g \<and>
     (g_Chain h = g_Chain g \<or> AllowChainMutation (g_ReproductionPolicy g) \<and> g_Chain h \<in> set validChains)) (mutate_chain R g)"
  unfolding mutate_chain_def swapChain_def
  by (intro post_intros bind_post [OF pick_post [where P = "\<lambda>c. c \<in> set validChains"]]) (auto simp: validChains_def)

lemma mutate_task_type_post:
  "rng_ok R \<Longrightarrow> pred_state (\<lambda>h. h\<lparr>g_TaskType := g_TaskType g\<rparr> = g \<and>
     (g_TaskType h = g_TaskType g \<or> AllowTaskTypeMutation (g_ReproductionPolicy g) \<and> g_TaskType h \<in> set validTaskTypes)) (mutate_task_type R g)"
  unfolding mutate_task_type_def swapTaskType_def
  by (intro post_intros bind_post [OF pick_post [where P = "\<lambda>c. c \<in> set validTaskTypes"]]) (auto simp: validTaskTypes_def)

lemma mutate_model_post:
  "rng_ok R \<Longrightarrow> pred_state (\<lambda>h. h\<lparr>g_StrategistModel := g_StrategistModel g\<rparr> = g \<and>
     (g_StrategistModel h = g_StrategistModel g \<or> AllowModelMutation (g_ReproductionPolicy g) \<and> g_StrategistModel h \<in> set (map fst modelRates)))
     (mutate_model R g)"
  unfolding mutate_model_def swapModel_def
  by (intro post_intros bind_post [OF pick_post [where P = "\<lambda>c. c \<in> set (map fst modelRates)"]]) (auto simp: modelRates_def)

lemma mutate_bandits_post:
  "rng_ok R \<Longrightarrow> pred_state (\<lambda>h. h\<lparr>g_BanditPolicies := g_BanditPolicies g\<rparr> = g \<and>
     (g_BanditPolicies g \<noteq> [] \<longrightarrow> g_BanditPolicies h \<noteq> []) \<and> (distinct (g_BanditPolicies g) \<longrightarrow> distinct (g_BanditPolicies h)))
     (mutate_bandits R g)"
  unfolding mutate_bandits_def by (intro post_intros bind_post [OF bandit_post]) auto

lemma task_module_post: "rng_ok R \<Longrightarrow> pred_state (task_post g) (mutateTaskModule oob R g)"
  unfolding mutateTaskModule_def
proof (rule bind_post [OF mutate_strategy_post], rule bind_post [OF mutate_chain_post], assumption,
    rule post_weaken [OF mutate_task_type_post], assumption, goal_cases)
  case (1 g1 g2 h)
  then show ?case by (cases g; cases g1; cases g2; cases h) (auto simp: task_post_def)
qed

lemma brain_module_post:
  "rng_ok R \<Longrightarrow> small (g_StrategistIntervalSeconds g) \<Longrightarrow> pred_state (brain_post g) (mutateBrainModule oob R g)"
  unfolding mutateBrainModule_def
proof (rule bind_post [OF mutate_model_post], assumption, rule bind_post [OF interval_post], assumption, goal_cases)
  case (1 g1)
  then show ?case by (cases g; cases g1) auto
next
  case (2 g1 secs)
  show ?case
  proof (rule post_weaken [OF mutate_bandits_post], goal_cases)
    case (2 h)
    with \<open>0 \<le> secs\<close> \<open>(g1 :: AgentGenome)\<lparr>g_StrategistModel := _\<rparr> = _ \<and> _\<close>
    show ?case by (cases g; cases g1; cases h) (auto simp: brain_post_def)
  qed (use 2 in simp)
qed

definition econ_post :: "AgentGenome \<Rightarrow> AgentGenome \<Rightarrow> bool" where
  "econ_post g h \<longleftrightarrow> h\<lparr>g_CapitalAllocation := g_CapitalAllocation g, g_ReproductionPolicy := g_ReproductionPolicy g, g_CostPolicy := g_CostPolicy g\<rparr> = g \<and>
     usd_ok (g_CapitalAllocation h) \<and> \<not> flt (Fin 1) (g_CapitalAllocation h) \<and> rp_ok (g_ReproductionPolicy h) \<and>
     usd_ok (MonthlyLLMBudgetUSD (g_CostPolicy h)) \<and> usd_ok (MonthlyInfraRentBudgetUSD (g_CostPolicy h)) \<and>
     AllowChainMutation (g_ReproductionPolicy h) = AllowChainMutation (g_ReproductionPolicy g) \<and>
     AllowTaskTypeMutation (g_ReproductionPolicy h) = AllowTaskTypeMutation (g_ReproductionPolicy g) \<and>
     AllowModelMutation (g_ReproductionPolicy h) = AllowModelMutation (g_ReproductionPolicy g)"

definition econ_ok :: "AgentGenome \<Rightarrow> bool" where
  "econ_ok g \<longleftrightarrow> usd_ok (g_CapitalAllocation g) \<and> \<not> flt (Fin 1) (g_CapitalAllocation g) \<and> rp_ok (g_ReproductionPolicy g) \<and>
     usd_ok (MonthlyLLMBudgetUSD (g_CostPolicy g)) \<and> usd_ok (MonthlyInfraRentBudgetUSD (g_CostPolicy g))"

lemma clampUnit_ok: "usd_ok (clampUnit v) \<and> \<not> flt (Fin 1) (clampUnit v)"
  by (auto simp: clampUnit_def usd_ok_def)

lemma econ_module_post: "rng_ok R \<Longrightarrow> econ_ok g \<Longrightarrow> pred_state (econ_post g) (mutateEconomicsModule R g)"
  unfolding mutateEconomicsModule_def Let_def
  by (rule rfloat_bind_post, assumption,
      rule bind_post [where Q = "\<lambda>ca. usd_ok ca \<and> \<not> flt (Fin 1) ca"],
      (intro post_intros clampUnit_ok; simp add: econ_ok_def),
      intro post_intros) (auto simp: econ_ok_def econ_post_def rp_ok_def)

definition comm_post :: "AgentGenome \<Rightarrow> AgentGenome \<Rightarrow> bool" where
  "comm_post g h \<longleftrightarrow> h\<lparr>g_CommunicationPolicy := g_CommunicationPolicy g\<rparr> = g \<and>
     0 \<le> MaxBroadcastsPerCycle (g_CommunicationPolicy h) \<and> 0 \<le> IntelSummaryMaxItems (g_CommunicationPolicy h)"

lemma comm_module_post:
  "rng_ok R \<Longrightarrow> small (MaxBroadcastsPerCycle (g_CommunicationPolicy g)) \<Longrightarrow> small (IntelSummaryMaxItems (g_CommunicationPolicy g)) \<Longrightarrow>
   pred_state (comm_post g) (mutateCommunicationModule oob R g)"
  unfolding mutateCommunicationModule_def Let_def
  by (rule rfloat_bind_post, assumption, rule bind_post [where Q = "\<lambda>n. 0 \<le> n"],
      (intro post_intros perturbCount_post; simp add: small_def),
      rule rfloat_bind_post, assumption, rule bind_post [where Q = "\<lambda>n. 0 \<le> n"],
      (intro post_intros perturbCount_post; simp add: small_def),
      intro post_intros) (auto simp: comm_post_def)

lemma task_postD:
  assumes "task_post g h"
  shows "g_Name h = g_Name g" "g_Generation h = g_Generation g" "g_LineageDepth h = g_LineageDepth g" "g_StrategistPrompt h = g_StrategistPrompt g"
    "g_StrategistModel h = g_StrategistModel g" "g_StrategistIntervalSeconds h = g_StrategistIntervalSeconds g" "g_BanditPolicies h = g_BanditPolicies g"
    "g_LearnedRules h = g_LearnedRules g" "g_CapitalAllocation h = g_CapitalAllocation g" "g_ReproductionPolicy h = g_ReproductionPolicy g"
    "g_CostPolicy h = g_CostPolicy g" "g_CommunicationPolicy h = g_CommunicationPolicy g" "g_SleepSchedule h = g_SleepSchedule g"
  using assms by (cases g; cases h; simp add: task_post_def)+

lemma brain_postD:
  assumes "brain_post g h"
  shows "g_Name h = g_Name g" "g_Generation h = g_Generation g" "g_LineageDepth h = g_LineageDepth g" "g_TaskType h = g_TaskType g" "g_Chain h = g_Chain g"
    "g_LearnedRules h = g_LearnedRules g" "g_CapitalAllocation h = g_CapitalAllocation g" "g_ReproductionPolicy h = g_ReproductionPolicy g"
    "g_CostPolicy h = g_CostPolicy g" "g_CommunicationPolicy h = g_CommunicationPolicy g" "g_SleepSchedule h = g_SleepSchedule g"
  using assms by (cases g; cases h; simp add: brain_post_def)+

lemma econ_postD:
  assumes "econ_post g h"
  shows "g_Name h = g_Name g" "g_Generation h = g_Generation g" "g_LineageDepth h = g_LineageDepth g" "g_TaskType h = g_TaskType g" "g_Chain h = g_Chain g"
    "g_StrategistModel h = g_StrategistModel g" "g_StrategistIntervalSeconds h = g_StrategistIntervalSeconds g" "g_BanditPolicies h = g_BanditPolicies g"
    "g_StrategistPrompt h = g_StrategistPrompt g" "g_LearnedRules h = g_LearnedRules g" "g_CommunicationPolicy h = g_CommunicationPolicy g" "g_SleepSchedule h = g_SleepSchedule g"
  using assms by (cases g; cases h; simp add: econ_post_def)+

lemma comm_postD:
  assumes "comm_post g h"
  shows "g_Name h = g_Name g" "g_Generation h = g_Generation g" "g_LineageDepth h = g_LineageDepth g" "g_TaskType h = g_TaskType g" "g_Chain h = g_Chain g"
    "g_StrategistModel h = g_StrategistModel g" "g_StrategistIntervalSeconds h = g_StrategistIntervalSeconds g" "g_BanditPolicies h = g_BanditPolicies g"
    "g_StrategistPrompt h = g_StrategistPrompt g" "g_LearnedRules h = g_LearnedRules g" "g_CapitalAllocation h = g_CapitalAllocation g"
    "g_ReproductionPolicy h = g_ReproductionPolicy g" "g_CostPolicy h = g_CostPolicy g" "g_SleepSchedule h = g_SleepSchedule g"
  using assms by (cases g; cases h; simp add: comm_post_def)+

lemma mutate_chain_of_posts:
  assumes "rng_ok R" "econ_ok g" "small (g_StrategistIntervalSeconds g)"
    "small (MaxBroadcastsPerCycle (g_CommunicationPolicy g))" "small (IntelSummaryMaxItems (g_CommunicationPolicy g))"
  defines "c0 \<equiv> g\<lparr>g_Generation := wrap64 (g_Generation g + 1), g_LineageDepth := wrap64 (g_LineageDepth g + 1)\<rparr>"
  shows "pred_state (\<lambda>h. \<exists>c1 c2 c3. task_post c0 c1 \<and> brain_post c1 c2 \<and> econ_post c2 c3 \<and> comm_post c3 h) (MutateGenome oob R g)"
  unfolding MutateGenome_def Let_def c0_def [symmetric]
proof (rule bind_post [OF task_module_post [OF assms(1)]], rule bind_post [OF brain_module_post [OF assms(1)]], goal_cases)
  case (1 c1)
  then show ?case using assms(3) by (simp add: task_postD c0_def)
next
  case (2 c1 c2)
  have "econ_ok c2" using assms(2) 2 by (simp add: econ_ok_def brain_postD task_postD c0_def)
  then show ?case
  proof (rule bind_post [OF econ_module_post [OF assms(1)]], goal_cases)
    case (1 c3)
    with 2 have "small (MaxBroadcastsPerCycle (g_CommunicationPolicy c3))" "small (IntelSummaryMaxItems (g_CommunicationPolicy c3))"
      using assms(4,5) by (simp_all add: econ_postD brain_postD task_postD c0_def)
    then show ?case using 1 2 by (intro post_weaken [OF comm_module_post [OF assms(1)]]) auto
  qed
qed

section \<open>Properties\<close>

text \<open>
  C32: mutation turns a valid genome into a valid genome, whatever the generator draws within its
  contract: one generation and one lineage step further, the same name, learned rules and sleep
  schedule, at least one bandit policy and no new duplicate, and with chain, task type and model
  unchanged unless the reproduction policy allows their mutation.
\<close>

theorem mutate_keeps_validity:
  assumes "rng_ok R" "Validate (Some g) = Ok ()" "g_Generation g < max_int64" "g_LineageDepth g < max_int64"
    "g_StrategistIntervalSeconds g \<le> 2 ^ 52" "MaxBroadcastsPerCycle (g_CommunicationPolicy g) \<le> 2 ^ 52"
    "IntelSummaryMaxItems (g_CommunicationPolicy g) \<le> 2 ^ 52"
    and h: "h = fst (run_state (MutateGenome oob R g) s)"
  shows "Validate (Some h) = Ok () \<and> g_Name h = g_Name g \<and> g_Generation h = g_Generation g + 1 \<and> g_LineageDepth h = g_LineageDepth g + 1 \<and>
    g_LearnedRules h = g_LearnedRules g \<and> g_SleepSchedule h = g_SleepSchedule g \<and>
    (g_BanditPolicies g \<noteq> [] \<longrightarrow> g_BanditPolicies h \<noteq> []) \<and> (distinct (g_BanditPolicies g) \<longrightarrow> distinct (g_BanditPolicies h)) \<and>
    (\<not> AllowChainMutation (g_ReproductionPolicy g) \<longrightarrow> g_Chain h = g_Chain g) \<and>
    (\<not> AllowTaskTypeMutation (g_ReproductionPolicy g) \<longrightarrow> g_TaskType h = g_TaskType g) \<and>
    (\<not> AllowModelMutation (g_ReproductionPolicy g) \<longrightarrow> g_StrategistModel h = g_StrategistModel g)"
proof -
  let ?c0 = "g\<lparr>g_Generation := wrap64 (g_Generation g + 1), g_LineageDepth := wrap64 (g_LineageDepth g + 1)\<rparr>"
  have ok: "genome_ok g" using assms(2) Validate_genome_ok by blast
  then have e: "econ_ok g" "small (g_StrategistIntervalSeconds g)" "small (MaxBroadcastsPerCycle (g_CommunicationPolicy g))"
    "small (IntelSummaryMaxItems (g_CommunicationPolicy g))"
    using assms(5-7) by (simp_all add: genome_ok_def econ_ok_def small_def)
  have w: "wrap64 (g_Generation g + 1) = g_Generation g + 1" "wrap64 (g_LineageDepth g + 1) = g_LineageDepth g + 1"
    using ok assms(3,4) by (auto intro!: wrap64_id simp: genome_ok_def is_int64_def go_defs)
  obtain c1 c2 c3 where p: "task_post ?c0 c1" "brain_post c1 c2" "econ_post c2 c3" "comm_post c3 h"
    using post_run [OF mutate_chain_of_posts [OF assms(1) e, where oob = oob], where s = s] h by blast
  note D = task_postD [OF p(1)] brain_postD [OF p(2)] econ_postD [OF p(3)] comm_postD [OF p(4)]
  have "g_Chain h \<in> set validChains" "g_TaskType h \<in> set validTaskTypes"
    using p(1) ok by (auto simp: D task_post_def genome_ok_def)
  moreover have "g_StrategistModel h \<in> set (map fst modelRates)" "0 \<le> g_StrategistIntervalSeconds h"
    using p(2) ok by (auto simp: D brain_post_def genome_ok_def simp del: set_map)
  moreover have "usd_ok (g_CapitalAllocation h)" "\<not> flt (Fin 1) (g_CapitalAllocation h)" "rp_ok (g_ReproductionPolicy h)"
    "usd_ok (MonthlyLLMBudgetUSD (g_CostPolicy h))" "usd_ok (MonthlyInfraRentBudgetUSD (g_CostPolicy h))"
    using p(3) by (simp_all add: D econ_post_def)
  moreover have "0 \<le> MaxBroadcastsPerCycle (g_CommunicationPolicy h)" "0 \<le> IntelSummaryMaxItems (g_CommunicationPolicy h)"
    using p(4) by (simp_all add: comm_post_def)
  moreover have same: "g_Name h = g_Name g" "g_Generation h = g_Generation g + 1" "g_LineageDepth h = g_LineageDepth g + 1"
    "g_LearnedRules h = g_LearnedRules g" "g_SleepSchedule h = g_SleepSchedule g" by (simp_all add: D w)
  ultimately have "genome_ok h" using ok unfolding genome_ok_def by (simp only: same) simp
  moreover have "\<not> AllowChainMutation (g_ReproductionPolicy g) \<longrightarrow> g_Chain h = g_Chain g"
    "\<not> AllowTaskTypeMutation (g_ReproductionPolicy g) \<longrightarrow> g_TaskType h = g_TaskType g"
    using p(1) by (auto simp: D task_post_def)
  moreover have "\<not> AllowModelMutation (g_ReproductionPolicy g) \<longrightarrow> g_StrategistModel h = g_StrategistModel g"
    "(g_BanditPolicies g \<noteq> [] \<longrightarrow> g_BanditPolicies h \<noteq> []) \<and> (distinct (g_BanditPolicies g) \<longrightarrow> distinct (g_BanditPolicies h))"
    using p(2) by (auto simp: D brain_post_def)
  ultimately show ?thesis using same by (simp only: Validate_genome_ok) blast
qed

definition sample_genome :: AgentGenome where
  "sample_genome = \<lparr>g_Name = ''n'', g_Generation = 0, g_LineageDepth = 0, g_TaskType = ''momentum'', g_Chain = ''base'',
     g_StrategyConfig = Some [(''size'', JFloat (Fin 1)), (''slots'', JInt 4)], g_StrategistPrompt = ''p'', g_StrategistModel = ''gpt-4o'',
     g_StrategistIntervalSeconds = 3600, g_BanditPolicies = [''default''], g_LearnedRules = [], g_CapitalAllocation = Fin (1/2),
     g_ReproductionPolicy = \<lparr>MinProfitableEpochs = 1, MinRealizedNetProfitUSD = Fin 1, OffspringSeedCapitalUSD = Fin 1, OffspringAPIReserveUSD = Fin 1,
       OffspringFailureBufferUSD = Fin 1, MaxDescendantsPerEpoch = 1, AllowTaskTypeMutation = False, AllowChainMutation = False, AllowModelMutation = False\<rparr>,
     g_CostPolicy = \<lparr>MonthlyLLMBudgetUSD = Fin 10, MonthlyInfraRentBudgetUSD = Fin 10, PauseOnBudgetBreach = True\<rparr>,
     g_CommunicationPolicy = \<lparr>SubscribeChannels = [], PublishChannels = [], MaxBroadcastsPerCycle = 2, IntelSummaryMaxItems = 2, RequireBullBearTag = False\<rparr>,
     g_SleepSchedule = \<lparr>AwakeWindowMinutes = 0, SleepBetween = False, WakeForBacktest = False\<rparr>\<rparr>"

lemma sample_genome_valid: "Validate (Some sample_genome) = Ok ()"
  by (simp add: Validate_def sample_genome_def rp_validate_def cost_validate_def comm_validate_def sleep_validate_def
      validTaskTypes_def validChains_def RateFor_def modelRates_def)

theorem mutate_keeps_validity_witness:
  "Validate (Some (fst (run_state (MutateGenome (\<lambda>_. 0) (const_rng (Fin 0) 1) sample_genome) ()))) = Ok () \<and>
   g_Chain (fst (run_state (MutateGenome (\<lambda>_. 0) (const_rng (Fin 0) 1) sample_genome) ())) = ''base''"
  using mutate_keeps_validity [OF const_rng_ok [of "Fin 0" 1] sample_genome_valid, of _ "\<lambda>_. 0" "()"]
  by (simp add: sample_genome_def go_defs)

lemma Crossover_run:
  assumes "fst (run_state (Crossover R A B pa pb) s) = (child, inh)"
  obtains t b e c where "child = cross_genomes t b e c A B"
    "inh = \<lparr>ci_Task = letter t, ci_Brain = letter b, ci_Economics = letter e, ci_Communication = letter c\<rparr>"
    "\<forall>s. flt (fst (rng_float R s)) crossoverWinnerProbability \<Longrightarrow> t = (\<not> flt (TaskPnL pa) (TaskPnL pb)) \<and>
       b = (\<not> flt (BrainEfficiency pa) (BrainEfficiency pb)) \<and> e = (\<not> flt (EconomicsHealth pa) (EconomicsHealth pb)) \<and>
       c = (\<not> flt (CommunicationAccuracy pa) (CommunicationAccuracy pb))"
proof -
  have w: "fst (run_state (pickWinner R x y) s) = (\<not> flt x y)"
    if "\<forall>s. flt (fst (rng_float R s)) crossoverWinnerProbability" for x y s
    using that flt_asym [of x y] flt_imp_fle [of y x]
    by (auto simp: pickWinner_def rfloat_def Let_def split: prod.split dest: spec [of _ s])
  show ?thesis
    using assms by (auto simp: Crossover_def split: prod.splits intro!: that) (metis w fst_conv)+
qed

lemma copyStrategyConfig_id [simp]: "copyStrategyConfig sc = sc"
  by (simp add: copyStrategyConfig_def split: option.split)

lemma letter_A [simp]: "letter b = ''A'' \<longleftrightarrow> b"
  by (simp add: letter_def)

text \<open>
  Crossover takes each of the four modules whole from the parent its inheritance record names,
  one generation and lineage step after the later parent; the child of two valid genomes is valid;
  and when every draw is below the winner probability each module comes from the parent with the
  higher score, ties going to the first.
\<close>

theorem crossover_modules_whole:
  assumes "fst (run_state (Crossover R A B pa pb) s) = (child, inh)"
    and "Validate (Some A) = Ok ()" "Validate (Some B) = Ok ()"
    and "g_Generation A < max_int64" "g_Generation B < max_int64" "g_LineageDepth A < max_int64" "g_LineageDepth B < max_int64"
  shows "Validate (Some child) = Ok () \<and> g_Generation child = max (g_Generation A) (g_Generation B) + 1 \<and>
    (let T = (if ci_Task inh = ''A'' then A else B) in
       g_TaskType child = g_TaskType T \<and> g_Chain child = g_Chain T \<and> g_StrategyConfig child = g_StrategyConfig T) \<and>
    (let T = (if ci_Brain inh = ''A'' then A else B) in
       g_StrategistPrompt child = g_StrategistPrompt T \<and> g_StrategistModel child = g_StrategistModel T \<and>
       g_StrategistIntervalSeconds child = g_StrategistIntervalSeconds T \<and> g_BanditPolicies child = g_BanditPolicies T \<and> g_LearnedRules child = g_LearnedRules T) \<and>
    (let T = (if ci_Economics inh = ''A'' then A else B) in
       g_CapitalAllocation child = g_CapitalAllocation T \<and> g_ReproductionPolicy child = g_ReproductionPolicy T \<and> g_CostPolicy child = g_CostPolicy T) \<and>
    (let T = (if ci_Communication inh = ''A'' then A else B) in
       g_CommunicationPolicy child = g_CommunicationPolicy T \<and> g_SleepSchedule child = g_SleepSchedule T) \<and>
    ((\<forall>s. flt (fst (rng_float R s)) crossoverWinnerProbability) \<longrightarrow>
       (ci_Task inh = ''B'' \<longleftrightarrow> flt (TaskPnL pa) (TaskPnL pb)) \<and> (ci_Brain inh = ''B'' \<longleftrightarrow> flt (BrainEfficiency pa) (BrainEfficiency pb)) \<and>
       (ci_Economics inh = ''B'' \<longleftrightarrow> flt (EconomicsHealth pa) (EconomicsHealth pb)) \<and>
       (ci_Communication inh = ''B'' \<longleftrightarrow> flt (CommunicationAccuracy pa) (CommunicationAccuracy pb)))"
  using assms(1)
proof (rule Crossover_run)
  fix t b e c
  assume ch: "child = cross_genomes t b e c A B"
    "inh = \<lparr>ci_Task = letter t, ci_Brain = letter b, ci_Economics = letter e, ci_Communication = letter c\<rparr>"
    and win: "\<forall>s. flt (fst (rng_float R s)) crossoverWinnerProbability \<Longrightarrow> t = (\<not> flt (TaskPnL pa) (TaskPnL pb)) \<and>
       b = (\<not> flt (BrainEfficiency pa) (BrainEfficiency pb)) \<and> e = (\<not> flt (EconomicsHealth pa) (EconomicsHealth pb)) \<and>
       c = (\<not> flt (CommunicationAccuracy pa) (CommunicationAccuracy pb))"
  have ok: "genome_ok A" "genome_ok B" using assms(2,3) Validate_genome_ok by blast+
  have w: "wrap64 (max (g_Generation A) (g_Generation B) + 1) = max (g_Generation A) (g_Generation B) + 1"
    "wrap64 (max (g_LineageDepth A) (g_LineageDepth B) + 1) = max (g_LineageDepth A) (g_LineageDepth B) + 1"
    using ok assms(4-7) by (auto intro!: wrap64_id simp: genome_ok_def is_int64_def go_defs)
  have "genome_ok child" using ok unfolding ch(1) by (simp add: cross_genomes_def Let_def w genome_ok_def le_max_iff_disj add_nonneg_nonneg)
  moreover have "letter x = ''B'' \<longleftrightarrow> \<not> x" for x by (simp add: letter_def)
  ultimately show ?thesis using win by (simp add: Validate_genome_ok ch cross_genomes_def Let_def w)
qed

theorem crossover_modules_whole_witness:
  "\<exists>child inh. fst (run_state (Crossover (const_rng (Fin 0) 0) sample_genome (sample_genome\<lparr>g_Chain := ''solana''\<rparr>)
      \<lparr>TaskPnL = Fin 1, BrainEfficiency = Fin 1, EconomicsHealth = Fin 1, CommunicationAccuracy = Fin 1\<rparr>
      \<lparr>TaskPnL = Fin 2, BrainEfficiency = Fin 1, EconomicsHealth = Fin 1, CommunicationAccuracy = Fin 1\<rparr>) ()) = (child, inh) \<and>
    g_Chain child = ''solana'' \<and> Validate (Some child) = Ok ()"
proof -
  let ?B = "sample_genome\<lparr>g_Chain := ''solana''\<rparr>"
  let ?x = "fst (run_state (Crossover (const_rng (Fin 0) 0) sample_genome ?B
      \<lparr>TaskPnL = Fin 1, BrainEfficiency = Fin 1, EconomicsHealth = Fin 1, CommunicationAccuracy = Fin 1\<rparr>
      \<lparr>TaskPnL = Fin 2, BrainEfficiency = Fin 1, EconomicsHealth = Fin 1, CommunicationAccuracy = Fin 1\<rparr>) ())"
  obtain child inh where x: "?x = (child, inh)" by fastforce
  have "genome_ok sample_genome" using sample_genome_valid Validate_genome_ok by blast
  then have B: "Validate (Some ?B) = Ok ()" by (simp add: Validate_genome_ok genome_ok_def validChains_def)
  have "flt (Fin 0) crossoverWinnerProbability"
    unfolding crossoverWinnerProbability_def by (rule rnd_pos) simp
  then have d: "\<forall>s. flt (fst (rng_float (const_rng (Fin 0) 0) s)) crossoverWinnerProbability" by (simp add: const_rng_def)
  from crossover_modules_whole [OF x sample_genome_valid B] d show ?thesis unfolding x
    by (auto simp: sample_genome_def go_defs Let_def)
qed

lemma one_minus_unit: "in_unit x \<Longrightarrow> in_unit (fsub (Fin 1) x)"
proof -
  assume x: "in_unit x"
  note f = in_unit_fin [OF x]
  have "fle (Fin 0) (fsub (Fin 1) x)" using x f by (intro fsub_nonneg) (simp_all add: in_unit_def)
  moreover have "fle (fsub (Fin 1) x) (Fin 1)" using x f by (intro fsub_le) (simp_all add: in_unit_def is_f64_Fin)
  ultimately show ?thesis using x by (simp add: in_unit_def is_f64_Fin)
qed

lemma ratio_unit: "0 \<le> m \<Longrightarrow> m \<le> n \<Longrightarrow> 0 < n \<Longrightarrow> is_int64 n \<Longrightarrow> in_unit (fdiv (f64_of_int m) (f64_of_int n))"
proof -
  assume mn: "0 \<le> m" "m \<le> n" "0 < n" "is_int64 n"
  then have fin: "is_fin (f64_of_int n)" "is_fin (f64_of_int m)" by (auto intro!: is_fin_f64_of_int simp: is_int64_def go_defs)
  have "flt (Fin 0) (f64_of_int n)" using mn(3) by (rule f64_of_int_pos)
  with fin mn show ?thesis by (simp add: in_unit_def fdiv_nonneg fdiv_le_1 f64_of_int_nonneg f64_of_int_mono)
qed

definition matches :: "AgentGenome \<Rightarrow> AgentGenome list \<Rightarrow> int" where
  "matches c swarm = int (length (filter (\<lambda>g. genome_key g = genome_key c) swarm))"

lemma matches_bounds: "0 \<le> matches c swarm" "matches c swarm \<le> int (length swarm)"
  by (simp_all add: matches_def)

lemma bonus_eq: "swarm \<noteq> [] \<Longrightarrow> DiversityBonus c swarm = fsub (Fin 1) (fdiv (f64_of_int (matches c swarm)) (f64_of_int (int (length swarm))))"
  by (simp add: DiversityBonus_def Let_def matches_def)

text \<open>
  The diversity bonus is a number between zero and one; it is one for a candidate whose triple
  does not occur in the swarm, zero when everyone has it, and it never falls as the triple gets rarer
  in swarms of one size.
\<close>

theorem diversity_bonus_rarity:
  assumes "is_int64 (int (length swarm))"
  shows "in_unit (DiversityBonus c swarm) \<and> (matches c swarm = 0 \<longrightarrow> DiversityBonus c swarm = Fin 1) \<and>
    (swarm \<noteq> [] \<and> matches c swarm = int (length swarm) \<longrightarrow> DiversityBonus c swarm = Fin 0) \<and>
    (length swarm' = length swarm \<and> matches d swarm' \<le> matches c swarm \<longrightarrow> fle (DiversityBonus c swarm) (DiversityBonus d swarm'))"
proof (cases "swarm = []")
  case True
  then show ?thesis by (auto simp: DiversityBonus_def)
next
  case False
  let ?n = "int (length swarm)" and ?r = "\<lambda>m. fdiv (f64_of_int m) (f64_of_int (int (length swarm)))"
  have n: "0 < ?n" using False by simp
  have u: "in_unit (?r m)" if "0 \<le> m" "m \<le> ?n" for m using ratio_unit [OF that n assms] .
  have fin: "is_fin (f64_of_int m)" if "0 \<le> m" "m \<le> ?n" for m
    using that assms by (intro is_fin_f64_of_int) (simp add: is_int64_def go_defs)
  have pos: "flt (Fin 0) (f64_of_int ?n)" using n by (rule f64_of_int_pos)
  have "fval (f64_of_int ?n) \<noteq> 0" using pos fin [of ?n] by (simp add: flt_fin)
  then have one: "?r ?n = Fin 1" using fin [of ?n] by (cases "f64_of_int ?n") (auto simp: fdiv_def)
  have "f64_of_int 0 = Fin 0" by (simp add: f64_of_int_def)
  then have zero: "?r 0 = Fin 0" using pos fin [of ?n] by (cases "f64_of_int ?n") (auto simp: fdiv_def flt_fin fzero_def)
  have mono: "fle (fsub (Fin 1) (?r b)) (fsub (Fin 1) (?r a))" if "0 \<le> a" "a \<le> b" "b \<le> ?n" for a b
  proof (rule fsub_mono)
    have "fle (f64_of_int a) (f64_of_int b)" using that by (simp add: f64_of_int_mono)
    then show "fle (?r a) (?r b)" using fin [of a] fin [of b] fin [of ?n] that pos n
      by (intro fle_keyI [OF _ _ fdiv_key fdiv_key]) (auto simp: fle_fin flt_fin intro!: divide_right_mono)
  qed (use that u [of a] u [of b] in \<open>simp_all add: in_unit_fin\<close>)
  have "length swarm' = length swarm \<Longrightarrow> swarm' \<noteq> []" using False by auto
  then show ?thesis using one_minus_unit [OF u, of "matches c swarm"] matches_bounds [of c swarm] matches_bounds [of d swarm'] zero one mono False
    by (auto simp: bonus_eq f64_simps)
qed

theorem diversity_bonus_rarity_witness:
  "DiversityBonus (sample_genome\<lparr>g_Chain := ''solana''\<rparr>) [sample_genome] = Fin 1"
  using diversity_bonus_rarity [of "[sample_genome]" "sample_genome\<lparr>g_Chain := ''solana''\<rparr>" "[]" sample_genome]
  by (simp add: is_int64_def go_defs matches_def genome_key_def tripleKey_def sample_genome_def)

end
