(* ===== verification/Orchestrator.thy ===== *)
theory Orchestrator
  imports EpochStore Evolution
begin

text \<open>
  \<^verbatim>\<open>internal/orchestrator/parent.go\<close>: one epoch of the root orchestrator, and the breaker verdict that
  \<^verbatim>\<open>cmd/swarm/main.go\<close> plugs into it.  The collaborators (lifecycle executor, breaker, language model,
  backtest, event bus) are arguments; the store is that of \<open>EpochStore\<close>.  An epoch returns its
  result with the trace of everything it did, in order.
\<close>

section \<open>Model\<close>

record EpochBreakerOutcome =
  eb_FundedNodes :: int
  eb_NodesHitStopLoss :: int
  eb_RPCRequests :: int
  eb_RPCErrors :: int
  eb_WindowDuration :: duration

record LifecycleExecutor =
  lx_Kill :: "string \<Rightarrow> string \<Rightarrow> unit result"
  lx_Pause :: "string \<Rightarrow> string \<Rightarrow> unit result"
  lx_Resume :: "string \<Rightarrow> string \<Rightarrow> unit result"

record RootOrchestratorConfig =
  rc_Lifecycle :: LifecycleExecutor
  rc_Breaker :: "EpochBreakerOutcome \<Rightarrow> string"
  rc_LLM :: LLMClient
  rc_Backtest :: "(AgentGenome \<Rightarrow> bool result) option"
  rc_LifecyclePolicyCfg :: LifecyclePolicyConfig
  rc_MaxLLMTokens :: int

text \<open>What \<^verbatim>\<open>NewRootOrchestrator\<close> does to the configuration, given which dependencies are present.\<close>

definition NewRootOrchestrator :: "bool \<Rightarrow> bool \<Rightarrow> bool \<Rightarrow> bool \<Rightarrow> bool \<Rightarrow> RootOrchestratorConfig \<Rightarrow> RootOrchestratorConfig result" where
  "NewRootOrchestrator store lifecycle breaker bus llm cfg =
     bindr (first_error
       [(\<not> store, ''root: store required''), (\<not> lifecycle, ''root: lifecycle executor required''),
        (\<not> breaker, ''root: breaker required''), (\<not> bus, ''root: event bus required''), (\<not> llm, ''root: llm client required'')])
     (\<lambda>_. Ok (if rc_MaxLLMTokens cfg \<le> 0 then cfg\<lparr>rc_MaxLLMTokens := 1024\<rparr> else cfg))"

datatype epoch_event =
    EvAction LifecycleAction bool
  | EvDecision OffspringDecision
  | EvPostmortem string PostmortemResult
  | EvBreaker EpochBreakerOutcome
  | EvLog EpochResult
  | EvPublish string

definition summarizeSwarm :: "AgentGenome list \<Rightarrow> GenomeSummary list" where
  "summarizeSwarm swarm = map (\<lambda>g. \<lparr>gs_Name = g_Name g, gs_TaskType = g_TaskType g, gs_Chain = g_Chain g, gs_Model = g_StrategistModel g, gs_Generation = g_Generation g\<rparr>) swarm"

definition insolvent :: "OffspringProposal \<Rightarrow> bool" where
  "insolvent prop \<longleftrightarrow> fle (l_RealizedNetProfit (p_ParentLedger prop)) (Fin 0) \<or> flt (Fin 0) (p_ParentCarriedDebt prop) \<or>
     flt (l_RealizedNetProfit (p_ParentLedger prop)) (p_ReproductionReserveUSD prop)"

definition swarm_context :: "EpochState \<Rightarrow> SwarmContext" where
  "swarm_context st = \<lparr>sc_DiversityScore = DiversityScore (e_SwarmGenomes st), sc_ExistingGenomes = summarizeSwarm (e_SwarmGenomes st)\<rparr>"

definition reject :: "string \<Rightarrow> OffspringDecision \<Rightarrow> OffspringDecision" where
  "reject tag d = d\<lparr>d_Outcome := OffspringRejected, d_RejectTag := tag\<rparr>"

definition final_outcome :: "OffspringDecision \<Rightarrow> OffspringOutcome" where
  "final_outcome d =
     (if (\<exists>q. d_Quality d = Some q \<and> q_Verdict q = VerdictRevise) \<or> (\<exists>a. d_Adversarial d = Some a \<and> a_Verdict a = VerdictRevise)
      then OffspringRevise else OffspringApproved)"

lemma final_outcome_code [code]:
  "final_outcome d =
     (if (case d_Quality d of Some q \<Rightarrow> q_Verdict q = VerdictRevise | None \<Rightarrow> False) \<or>
         (case d_Adversarial d of Some a \<Rightarrow> a_Verdict a = VerdictRevise | None \<Rightarrow> False)
      then OffspringRevise else OffspringApproved)"
  by (auto simp: final_outcome_def split: option.splits)

definition backtest_gate :: "RootOrchestratorConfig \<Rightarrow> OffspringProposal \<Rightarrow> OffspringDecision \<Rightarrow> OffspringDecision" where
  "backtest_gate cfg prop d =
     (case rc_Backtest cfg of
        None \<Rightarrow> d\<lparr>d_Outcome := final_outcome d\<rparr>
      | Some run \<Rightarrow> (case run (p_Candidate prop) of
          Inr True \<Rightarrow> d\<lparr>d_Outcome := final_outcome d\<rparr>
        | _ \<Rightarrow> reject ''backtest_failed'' d))"

definition adversarial_gate :: "RootOrchestratorConfig \<Rightarrow> EpochState \<Rightarrow> OffspringProposal \<Rightarrow> OffspringDecision \<Rightarrow> OffspringDecision" where
  "adversarial_gate cfg st prop d =
     (case AdversarialReview (Some (rc_LLM cfg)) (p_Candidate prop) (swarm_context st) (rc_MaxLLMTokens cfg) of
        Inl _ \<Rightarrow> backtest_gate cfg prop d
      | Inr a \<Rightarrow> let d' = d\<lparr>d_Adversarial := Some a, d_CostUSD := fadd (d_CostUSD d) (a_CostUSD a)\<rparr>
                 in if a_Verdict a = VerdictReject then reject ''adversarial_reject'' d' else backtest_gate cfg prop d')"

definition quality_gate :: "RootOrchestratorConfig \<Rightarrow> EpochState \<Rightarrow> OffspringProposal \<Rightarrow> OffspringDecision \<Rightarrow> OffspringDecision" where
  "quality_gate cfg st prop d =
     (case QualityCheck (Some (rc_LLM cfg)) (p_Candidate prop) (swarm_context st) (rc_MaxLLMTokens cfg) of
        Inl _ \<Rightarrow> adversarial_gate cfg st prop d
      | Inr q \<Rightarrow> let d' = d\<lparr>d_Quality := Some q, d_CostUSD := fadd (d_CostUSD d) (q_CostUSD q)\<rparr>
                 in if q_Verdict q = VerdictReject then reject ''quality_reject'' d' else adversarial_gate cfg st prop d')"

text \<open>The decision starts as the zero value of its struct; its outcome is set on every path.\<close>

definition processOffspring :: "RootOrchestratorConfig \<Rightarrow> EpochState \<Rightarrow> OffspringProposal \<Rightarrow> OffspringDecision" where
  "processOffspring cfg st prop =
     (let d = \<lparr>d_ProposalID = p_ProposalID prop, d_ParentID = p_ParentID prop, d_Outcome = OffspringRejected, d_RejectTag = [],
               d_CostUSD = Fin 0, d_Quality = None, d_Adversarial = None\<rparr>
      in if insolvent prop then reject ''insolvent'' d else quality_gate cfg st prop d)"

definition zero_snapshot :: AgentSnapshot where
  "zero_snapshot = \<lparr>s_AgentID = [], s_Status = [], s_BalanceUSD = Fin 0, s_Drawdown = Fin 0, s_ConsecutiveLosingEpochs = 0, s_OperatingDebtUSD = Fin 0,
     s_LastHeartbeat = 0, s_LastStrategistVerdict = [], s_NetProfitWindowUSD = Fin 0, s_NodeClass = []\<rparr>"

definition postmortemInputFor :: "EpochState \<Rightarrow> LifecycleAction \<Rightarrow> PostmortemInput option" where
  "postmortemInputFor st a =
     (case e_Genomes st (la_AgentID a) of
        None \<Rightarrow> None
      | Some g \<Rightarrow>
          let snap = (case find (\<lambda>s. s_AgentID s = la_AgentID a) (e_Snapshots st) of None \<Rightarrow> zero_snapshot | Some s \<Rightarrow> s)
          in Some \<lparr>pi_AgentID = la_AgentID a, pi_Name = g_Name g, pi_TaskType = g_TaskType g, pi_Chain = g_Chain g, pi_Model = g_StrategistModel g,
               pi_Generation = g_Generation g, pi_KillReason = la_Reason a, pi_FinalBalanceUSD = s_BalanceUSD snap, pi_FinalDrawdown = s_Drawdown snap,
               pi_LifetimeNetProfitUSD = s_NetProfitWindowUSD snap, pi_LifetimeLLMCostUSD = Fin 0, pi_EpochsLived = 0,
               pi_LastStrategistNote = s_LastStrategistVerdict snap\<rparr>)"

definition breakerOutcome :: "EpochState \<Rightarrow> LifecycleAction list \<Rightarrow> EpochBreakerOutcome" where
  "breakerOutcome st actions =
     \<lparr>eb_FundedNodes = int (length (filter (\<lambda>s. s_NodeClass s = ''funded'') (e_Snapshots st))),
      eb_NodesHitStopLoss = int (length (filter (\<lambda>a. la_Kind a = ActionKill \<and> la_Reason a = ''max_drawdown_exceeded'') actions)),
      eb_RPCRequests = 0, eb_RPCErrors = 0, eb_WindowDuration = 5 * Minute\<rparr>"

definition executeAction :: "RootOrchestratorConfig \<Rightarrow> LifecycleAction \<Rightarrow> unit result" where
  "executeAction cfg a =
     (case la_Kind a of
        ActionKill \<Rightarrow> lx_Kill (rc_Lifecycle cfg) (la_AgentID a) (la_Reason a)
      | ActionPause \<Rightarrow> lx_Pause (rc_Lifecycle cfg) (la_AgentID a) (la_Reason a)
      | ActionResume \<Rightarrow> lx_Resume (rc_Lifecycle cfg) (la_AgentID a) (la_Reason a))"

fun run_actions :: "RootOrchestratorConfig \<Rightarrow> EpochState \<Rightarrow> LifecycleAction list \<Rightarrow> epoch_event list \<times> PostmortemInput list" where
  "run_actions cfg st [] = ([], [])"
| "run_actions cfg st (a # as) =
     (let ok = (case executeAction cfg a of Inr _ \<Rightarrow> True | Inl _ \<Rightarrow> False);
          dead = (if ok \<and> la_Kind a = ActionKill then (case postmortemInputFor st a of Some p \<Rightarrow> [p] | None \<Rightarrow> []) else []);
          (evs, ds) = run_actions cfg st as
      in (EvAction a ok # evs, dead @ ds))"

fun run_postmortems :: "RootOrchestratorConfig \<Rightarrow> PostmortemInput list \<Rightarrow> (string \<times> PostmortemResult) list" where
  "run_postmortems cfg [] = []"
| "run_postmortems cfg (i # js) =
     (case GeneratePostmortem (Some (rc_LLM cfg)) i (rc_MaxLLMTokens cfg) of
        Inl _ \<Rightarrow> run_postmortems cfg js
      | Inr p \<Rightarrow> (pi_AgentID i, p) # run_postmortems cfg js)"

text \<open>
  \<^verbatim>\<open>RunEpoch\<close>: \<open>load\<close> and \<open>log\<close> are the store's answers, \<open>startedAt\<close> and \<open>endedAt\<close> the two
  clock readings.  Errors of the other writes are dropped by the code.
\<close>

definition zero_result :: EpochResult where
  "zero_result = \<lparr>er_EpochID = [], er_Ledgers = [], er_Sweeps = [], er_LifecycleActions = [], er_OffspringDecisions = [], er_Postmortems = [], er_BreakerTripped = False,
     er_BreakerReason = [], er_EndedAt = 0\<rparr>"

definition RunEpoch :: "RootOrchestratorConfig \<Rightarrow> (string \<Rightarrow> EpochState result) \<Rightarrow> (EpochResult \<Rightarrow> unit result) \<Rightarrow> time \<Rightarrow> time \<Rightarrow> string \<Rightarrow>
    epoch_event list \<times> EpochResult \<times> error option" where
  "RunEpoch cfg load log_ep startedAt endedAt epochID =
     (case load epochID of
        Inl e \<Rightarrow> ([], zero_result, Some (Wrap (''run epoch '' @ epochID @ '': load state'') e))
      | Inr st \<Rightarrow>
          let actions = DeterministicLifecyclePolicy startedAt (rc_LifecyclePolicyCfg cfg) (e_Snapshots st) (e_BudgetTight st);
              acted = run_actions cfg st actions;
              decisions = map (processOffspring cfg st) (e_OffspringProposals st);
              pms = run_postmortems cfg (e_DeadAgents st @ snd acted);
              outcome = breakerOutcome st actions;
              reason = rc_Breaker cfg outcome;
              result = \<lparr>er_EpochID = epochID, er_Ledgers = [], er_Sweeps = [], er_LifecycleActions = actions, er_OffspringDecisions = decisions, er_Postmortems = map snd pms,
                        er_BreakerTripped = (reason \<noteq> []), er_BreakerReason = reason, er_EndedAt = endedAt\<rparr>;
              evs = fst acted @ map EvDecision decisions @ map (\<lambda>(i, p). EvPostmortem i p) pms @ [EvBreaker outcome, EvLog result]
          in (case log_ep result of
                Inl e \<Rightarrow> (evs, result, Some (Wrap (''run epoch '' @ epochID @ '': log'') e))
              | Inr _ \<Rightarrow> (evs @ [EvPublish epochID], result, None)))"

text \<open>
  What the events of an epoch do to the database; write errors of the first two are ignored.  The
  lifecycle executor only changes the status of agents, which no later statement of the epoch reads.
\<close>

fun apply_event :: "postgres \<Rightarrow> epoch_event \<Rightarrow> db \<Rightarrow> db" where
  "apply_event pg (EvDecision dec) d = fst (PersistOffspringDecision pg dec d)"
| "apply_event pg (EvPostmortem i p) d = fst (PersistPostmortem pg p i d)"
| "apply_event pg (EvLog r) d = fst (LogEpoch pg r d)"
| "apply_event pg _ d = d"

definition run_epoch_db :: "postgres \<Rightarrow> RootOrchestratorConfig \<Rightarrow> time \<Rightarrow> time \<Rightarrow> string \<Rightarrow> db \<Rightarrow> db \<times> EpochResult \<times> error option" where
  "run_epoch_db pg cfg startedAt endedAt epochID d =
     (case RunEpoch cfg (LoadEpochState pg startedAt d) (\<lambda>r. snd (LogEpoch pg r d)) startedAt endedAt epochID of
        (evs, r, e) \<Rightarrow> (fold (apply_event pg) evs d, r, e))"

text \<open>The verdict of \<^verbatim>\<open>cmd/swarm/main.go\<close>'s adapter.\<close>

definition breakerAdapter :: "EpochBreakerOutcome \<Rightarrow> string" where
  "breakerAdapter out =
     (if 0 < eb_FundedNodes out \<and> fle half (fdiv (f64_of_int (eb_NodesHitStopLoss out)) (f64_of_int (eb_FundedNodes out)))
      then ''mass_stop_out'' else [])"

section \<open>Gates\<close>

lemma reject_simps [simp]: "d_Outcome (reject t d) = OffspringRejected" "d_RejectTag (reject t d) = t" "d_ProposalID (reject t d) = d_ProposalID d"
  by (simp_all add: reject_def)

definition backtest_passes :: "RootOrchestratorConfig \<Rightarrow> OffspringProposal \<Rightarrow> bool" where
  "backtest_passes cfg prop \<longleftrightarrow> (case rc_Backtest cfg of None \<Rightarrow> True | Some run \<Rightarrow> run (p_Candidate prop) = Ok True)"

lemma backtest_gate_outcome:
  "d_Outcome (backtest_gate cfg prop d) = (if backtest_passes cfg prop then final_outcome d else OffspringRejected)"
  "d_RejectTag (backtest_gate cfg prop d) = (if backtest_passes cfg prop then d_RejectTag d else ''backtest_failed'')"
  "d_ProposalID (backtest_gate cfg prop d) = d_ProposalID d"
  by (auto simp: backtest_gate_def backtest_passes_def split: option.split sum.split bool.split)

definition tagged :: "OffspringDecision \<Rightarrow> OffspringOutcome \<times> string" where
  "tagged d = (d_Outcome d, d_RejectTag d)"

text \<open>The verdict of a review that took place.\<close>

definition quality_verdict :: "RootOrchestratorConfig \<Rightarrow> EpochState \<Rightarrow> OffspringProposal \<Rightarrow> verdict option" where
  "quality_verdict cfg st prop =
     (case QualityCheck (Some (rc_LLM cfg)) (p_Candidate prop) (swarm_context st) (rc_MaxLLMTokens cfg) of Inl _ \<Rightarrow> None | Inr q \<Rightarrow> Some (q_Verdict q))"

definition adversarial_verdict :: "RootOrchestratorConfig \<Rightarrow> EpochState \<Rightarrow> OffspringProposal \<Rightarrow> verdict option" where
  "adversarial_verdict cfg st prop =
     (case AdversarialReview (Some (rc_LLM cfg)) (p_Candidate prop) (swarm_context st) (rc_MaxLLMTokens cfg) of Inl _ \<Rightarrow> None | Inr a \<Rightarrow> Some (a_Verdict a))"

text \<open>
  The gates of a proposal in their order, each with its answer: yes, no, or none when the review did not take place.  The documents ask
  of every descendant that it pass all of them.
\<close>

definition gate_answers :: "bool \<Rightarrow> RootOrchestratorConfig \<Rightarrow> EpochState \<Rightarrow> OffspringProposal \<Rightarrow> (string \<times> bool option) list" where
  "gate_answers solvent cfg st prop =
     [(''insolvent'', Some solvent),
      (''quality_reject'', map_option (\<lambda>v. v \<noteq> VerdictReject) (quality_verdict cfg st prop)),
      (''adversarial_reject'', map_option (\<lambda>v. v \<noteq> VerdictReject) (adversarial_verdict cfg st prop)),
      (''backtest_failed'', Some (backtest_passes cfg prop))]"

text \<open>Solvency as documented: the parent is in profit, owes nothing and its profit covers the reserve.\<close>

definition solvent_parent :: "OffspringProposal \<Rightarrow> bool" where
  "solvent_parent prop \<longleftrightarrow> flt (Fin 0) (l_RealizedNetProfit (p_ParentLedger prop)) \<and> fle (p_ParentCarriedDebt prop) (Fin 0) \<and>
     fle (p_ReproductionReserveUSD prop) (l_RealizedNetProfit (p_ParentLedger prop))"

definition asked_to_revise :: "RootOrchestratorConfig \<Rightarrow> EpochState \<Rightarrow> OffspringProposal \<Rightarrow> bool" where
  "asked_to_revise cfg st prop \<longleftrightarrow> Some VerdictRevise \<in> {quality_verdict cfg st prop, adversarial_verdict cfg st prop}"

lemma solvent_parent_iff:
  assumes "\<not> is_nan (l_RealizedNetProfit (p_ParentLedger prop))" "\<not> is_nan (p_ParentCarriedDebt prop)" "\<not> is_nan (p_ReproductionReserveUSD prop)"
  shows "solvent_parent prop \<longleftrightarrow> \<not> insolvent prop"
  using assms by (auto simp: solvent_parent_def insolvent_def fcmp_defs)

lemma adversarial_gate_outcome:
  assumes "d_Adversarial d = None" "d_RejectTag d = []"
  shows "tagged (adversarial_gate cfg st prop d) =
    (if adversarial_verdict cfg st prop = Some VerdictReject then (OffspringRejected, ''adversarial_reject'')
     else if \<not> backtest_passes cfg prop then (OffspringRejected, ''backtest_failed'')
     else (if (case d_Quality d of Some q \<Rightarrow> q_Verdict q = VerdictRevise | None \<Rightarrow> False) \<or> adversarial_verdict cfg st prop = Some VerdictRevise
           then OffspringRevise else OffspringApproved, []))"
    "d_ProposalID (adversarial_gate cfg st prop d) = d_ProposalID d"
  using assms
  by (auto simp: tagged_def adversarial_gate_def adversarial_verdict_def backtest_gate_outcome Let_def final_outcome_code split: sum.split option.split)

lemma reject_tagged: "tagged (reject t d) = (OffspringRejected, t)"
  by (simp add: tagged_def)

lemma processOffspring_gates:
  "tagged (processOffspring cfg st prop) =
     (case find (\<lambda>g. snd g = Some False) (gate_answers (\<not> insolvent prop) cfg st prop) of
        Some g \<Rightarrow> (OffspringRejected, fst g) | None \<Rightarrow> (if asked_to_revise cfg st prop then OffspringRevise else OffspringApproved, []))"
proof (cases "insolvent prop")
  case True
  then show ?thesis by (simp add: processOffspring_def gate_answers_def reject_tagged)
next
  case False
  have a: "map_option (\<lambda>v. v \<noteq> VerdictReject) x = Some False \<longleftrightarrow> x = Some VerdictReject" for x by (cases x) simp_all
  show ?thesis
  proof (cases "QualityCheck (Some (rc_LLM cfg)) (p_Candidate prop) (swarm_context st) (rc_MaxLLMTokens cfg)")
    case (Inl e)
    then show ?thesis using False
      by (auto simp: processOffspring_def quality_gate_def gate_answers_def asked_to_revise_def quality_verdict_def Let_def adversarial_gate_outcome a)
  next
    case (Inr q)
    then show ?thesis using False
      by (auto simp: processOffspring_def quality_gate_def gate_answers_def asked_to_revise_def quality_verdict_def Let_def adversarial_gate_outcome reject_tagged a)
  qed
qed

lemma processOffspring_id: "d_ProposalID (processOffspring cfg st prop) = p_ProposalID prop"
  by (simp add: processOffspring_def quality_gate_def Let_def adversarial_gate_outcome split: sum.split)

section \<open>Traces\<close>

lemma run_actions_events: "fst (run_actions cfg st as) = map (\<lambda>a. EvAction a (executeAction cfg a = Ok ())) as"
  by (induction as) (auto simp: Let_def split: sum.split prod.split)

lemma postmortemInputFor_id: "postmortemInputFor st a = Some p \<Longrightarrow> pi_AgentID p = la_AgentID a \<and> pi_KillReason p = la_Reason a"
  by (auto simp: postmortemInputFor_def Let_def split: option.splits)

lemma run_actions_snd:
  "snd (run_actions cfg st (a # as)) =
     (if executeAction cfg a = Ok () \<and> la_Kind a = ActionKill then (case postmortemInputFor st a of Some p \<Rightarrow> [p] | None \<Rightarrow> []) else []) @
     snd (run_actions cfg st as)"
  by (cases "executeAction cfg a") (simp_all add: Let_def case_prod_beta)

lemma in_guarded_singleton: "x \<in> set (if c then (case m of Some q \<Rightarrow> [q] | None \<Rightarrow> []) else []) \<longleftrightarrow> c \<and> m = Some x"
  by (cases m; cases c) (simp_all add: eq_commute [of x])

lemma run_actions_dead:
  "p \<in> set (snd (run_actions cfg st as)) \<Longrightarrow> \<exists>a \<in> set as. la_Kind a = ActionKill \<and> executeAction cfg a = Ok () \<and> postmortemInputFor st a = Some p"
proof (induction as)
  case (Cons a as)
  have "p \<in> set (snd (run_actions cfg st (a # as))) \<longleftrightarrow>
      (executeAction cfg a = Ok () \<and> la_Kind a = ActionKill) \<and> postmortemInputFor st a = Some p \<or> p \<in> set (snd (run_actions cfg st as))"
    by (simp only: run_actions_snd set_append Un_iff in_guarded_singleton)
  with Cons show ?case by (meson list.set_intros)
qed simp

lemma run_postmortems_ids: "(i, p) \<in> set (run_postmortems cfg js) \<Longrightarrow> \<exists>j \<in> set js. pi_AgentID j = i"
  by (induction js) (auto split: sum.splits)

lemma fold_other_events:
  "list_all (\<lambda>e. case e of EvDecision _ \<Rightarrow> False | _ \<Rightarrow> True) evs \<Longrightarrow> t_proposals (fold (apply_event pg) evs d) = t_proposals d"
proof (induction evs arbitrary: d)
  case (Cons e evs)
  have "t_proposals (apply_event pg e d) = t_proposals d" using Cons.prems
    by (cases e) (auto simp: PersistPostmortem_def LogEpoch_def exec_def Let_def split: option.split)
  then show ?case using Cons by simp
qed simp

lemma fold_decisions:
  "pg_fault pg ''update proposal'' = None \<Longrightarrow> \<forall>dec \<in> set ds. d_ProposalID dec \<noteq> [] \<Longrightarrow>
   t_proposals (fold (apply_event pg) (map EvDecision ds) d) = map (\<lambda>r. fold update_proposal ds r) (t_proposals d)"
proof (induction ds arbitrary: d)
  case (Cons dec ds)
  then show ?case by (simp add: PersistOffspringDecision_def exec_def comp_def)
qed simp

lemma fold_update_id: "pr_id (fold update_proposal ds r) = pr_id r"
  by (induction ds arbitrary: r) simp_all

lemma fold_update_other: "pr_id r \<notin> set (map d_ProposalID ds) \<Longrightarrow> fold update_proposal ds r = r"
  by (induction ds) (auto simp: update_proposal_def)

lemma fold_update_status:
  "distinct (map d_ProposalID ds) \<Longrightarrow> dec \<in> set ds \<Longrightarrow> pr_id r = d_ProposalID dec \<Longrightarrow>
   pr_status (fold update_proposal ds r) = outcome_status (d_Outcome dec)"
proof (induction ds arbitrary: r)
  case (Cons x ds)
  show ?case
  proof (cases "x = dec")
    case True
    with Cons.prems have "pr_id (update_proposal dec r) \<notin> set (map d_ProposalID ds)" by auto
    then have "fold update_proposal ds (update_proposal dec r) = update_proposal dec r" by (rule fold_update_other)
    moreover have "pr_status (update_proposal dec r) = outcome_status (d_Outcome dec)" using Cons.prems(3) by (simp add: update_proposal_def)
    ultimately show ?thesis using True by simp
  next
    case False
    with Cons.prems have "pr_id r \<noteq> d_ProposalID x" "dec \<in> set ds" by (auto simp: image_iff)
    moreover from this(1) have "update_proposal x r = r" by (simp add: update_proposal_def)
    ultimately show ?thesis using Cons by simp
  qed
qed simp

lemma run_epoch_trace:
  assumes "RunEpoch cfg load log_ep t0 t1 eid = (evs, res, err)"
  shows "case load eid of
      Inl e \<Rightarrow> evs = [] \<and> err \<noteq> None
    | Inr st \<Rightarrow> \<exists>pms. evs = map (\<lambda>a. EvAction a (executeAction cfg a = Ok ())) (er_LifecycleActions res) @
          map (\<lambda>p. EvDecision (processOffspring cfg st p)) (e_OffspringProposals st) @ map (\<lambda>(i, p). EvPostmortem i p) pms @
          [EvBreaker (breakerOutcome st (er_LifecycleActions res)), EvLog res] @ (if err = None then [EvPublish eid] else []) \<and>
        (err = None \<longleftrightarrow> log_ep res = Ok ()) \<and>
        (\<forall>(i, p) \<in> set pms. i \<in> pi_AgentID ` set (e_DeadAgents st) \<or>
           (\<exists>a \<in> set (er_LifecycleActions res). la_AgentID a = i \<and> la_Kind a = ActionKill \<and> executeAction cfg a = Ok ()))"
proof (cases "load eid")
  case (Inl e)
  then show ?thesis using assms by (auto simp: RunEpoch_def)
next
  case (Inr st)
  let ?acts = "DeterministicLifecyclePolicy t0 (rc_LifecyclePolicyCfg cfg) (e_Snapshots st) (e_BudgetTight st)"
  let ?pms = "run_postmortems cfg (e_DeadAgents st @ snd (run_actions cfg st ?acts))"
  have r: "er_LifecycleActions res = ?acts" and evs: "evs = map (\<lambda>a. EvAction a (executeAction cfg a = Ok ())) ?acts @
      map (\<lambda>p. EvDecision (processOffspring cfg st p)) (e_OffspringProposals st) @ map (\<lambda>(i, p). EvPostmortem i p) ?pms @
      [EvBreaker (breakerOutcome st ?acts), EvLog res] @ (if err = None then [EvPublish eid] else [])"
    and err: "err = None \<longleftrightarrow> log_ep res = Ok ()"
    using assms Inr by (auto simp: RunEpoch_def Let_def run_actions_events comp_def split: sum.splits)
  have "i \<in> pi_AgentID ` set (e_DeadAgents st) \<or> (\<exists>a \<in> set ?acts. la_AgentID a = i \<and> la_Kind a = ActionKill \<and> executeAction cfg a = Ok ())"
    if ip: "(i, p) \<in> set ?pms" for i p
  proof -
    obtain j where j: "j \<in> set (e_DeadAgents st) \<or> j \<in> set (snd (run_actions cfg st ?acts))" "pi_AgentID j = i"
      using run_postmortems_ids [OF ip] by auto
    from j(1) show ?thesis
    proof
      assume "j \<in> set (snd (run_actions cfg st ?acts))"
      then obtain a where "a \<in> set ?acts" "la_Kind a = ActionKill" "executeAction cfg a = Ok ()" "postmortemInputFor st a = Some j"
        using run_actions_dead by blast
      moreover from this(4) have "la_AgentID a = i" using j(2) by (simp add: postmortemInputFor_id)
      ultimately show ?thesis by blast
    qed (use j(2) in auto)
  qed
  then show ?thesis using Inr r evs err by (auto intro!: exI [of _ ?pms])
qed

section \<open>Properties\<close>

text \<open>
  C3: the offspring pipeline and the documented rule.  The documents ask that every descendant pass solvency, quality check, adversarial
  review and backtest.  The code rejects with the name of the first gate that says no, and otherwise asks for a revision if one of the
  reviews did and approves if none did.  This departs from the rule in one way, and only so: a review that fails to take place
  counts as passed.  A proposal is let through against the rule exactly when no gate says no and the quality check or the
  adversarial review ended in an error.
\<close>

theorem offspring_pipeline_spec:
  assumes "\<not> is_nan (l_RealizedNetProfit (p_ParentLedger prop))" "\<not> is_nan (p_ParentCarriedDebt prop)" "\<not> is_nan (p_ReproductionReserveUSD prop)"
  shows "let gates = gate_answers (solvent_parent prop) cfg st prop; refused = find (\<lambda>g. snd g = Some False) gates in
    tagged (processOffspring cfg st prop) = (case refused of
       Some g \<Rightarrow> (OffspringRejected, fst g) | None \<Rightarrow> (if asked_to_revise cfg st prop then OffspringRevise else OffspringApproved, [])) \<and>
    (d_Outcome (processOffspring cfg st prop) \<noteq> OffspringRejected \<and> \<not> list_all (\<lambda>g. snd g = Some True) gates \<longleftrightarrow>
       refused = None \<and> (quality_verdict cfg st prop = None \<or> adversarial_verdict cfg st prop = None))"
proof -
  let ?gs = "gate_answers (solvent_parent prop) cfg st prop"
  have t: "tagged (processOffspring cfg st prop) = (case find (\<lambda>g. snd g = Some False) ?gs of
       Some g \<Rightarrow> (OffspringRejected, fst g) | None \<Rightarrow> (if asked_to_revise cfg st prop then OffspringRevise else OffspringApproved, []))"
    using processOffspring_gates [of cfg st "prop"] solvent_parent_iff [OF assms] by simp
  then have o: "d_Outcome (processOffspring cfg st prop) \<noteq> OffspringRejected \<longleftrightarrow> find (\<lambda>g. snd g = Some False) ?gs = None"
    unfolding tagged_def by (cases "find (\<lambda>g. snd g = Some False) ?gs") (auto split: if_splits)
  have "list_all (\<lambda>g. snd g = Some True) ?gs \<longleftrightarrow> find (\<lambda>g. snd g = Some False) ?gs = None \<and>
      quality_verdict cfg st prop \<noteq> None \<and> adversarial_verdict cfg st prop \<noteq> None"
    unfolding gate_answers_def by (cases "quality_verdict cfg st prop"; cases "adversarial_verdict cfg st prop") (auto split: if_splits)
  with t o show ?thesis unfolding Let_def by blast
qed

text \<open>
  The review gates fail open: when every call to the language model fails, or when the candidate
  contains a float that JSON cannot render (which validation accepts), a proposal of a solvent parent
  is approved without any review, unless a backtest is configured and fails.
\<close>

theorem offspring_gates_fail_open:
  assumes "\<not> insolvent prop" "backtest_passes cfg prop"
    "(\<forall>p n. \<exists>e. rc_LLM cfg p n = Inl e) \<or> \<not> list_all is_fin (genome_floats (p_Candidate prop))"
  shows "tagged (processOffspring cfg st prop) = (OffspringApproved, [])"
proof -
  have "\<exists>e. QualityCheck (Some (rc_LLM cfg)) (p_Candidate prop) c n = Inl e" for c n
  proof (cases "list_all is_fin (genome_floats (p_Candidate prop))")
    case True
    with assms(3) have all: "\<forall>p n. \<exists>e. rc_LLM cfg p n = Inl e" by blast
    from all [rule_format, of "QualityPrompt (p_Candidate prop) c" "if n \<le> 0 then 1024 else n"]
    obtain e where "rc_LLM cfg (QualityPrompt (p_Candidate prop) c) (if n \<le> 0 then 1024 else n) = Inl e" by blast
    then show ?thesis by (cases "buildQualityUserPrompt (p_Candidate prop) c") (auto simp: QualityCheck_def Let_def)
  qed (rule marshal_nan)
  moreover have "\<exists>e. AdversarialReview (Some (rc_LLM cfg)) (p_Candidate prop) c n = Inl e" for c n
  proof (cases "list_all is_fin (genome_floats (p_Candidate prop))")
    case True
    with assms(3) have all: "\<forall>p n. \<exists>e. rc_LLM cfg p n = Inl e" by blast
    from all [rule_format, of "BullPrompt (p_Candidate prop) c" "if n \<le> 0 then 1024 else n"]
    obtain e where "rc_LLM cfg (BullPrompt (p_Candidate prop) c) (if n \<le> 0 then 1024 else n) = Inl e" by blast
    then show ?thesis by (cases "marshalAdversarialPayload (p_Candidate prop) c") (auto simp: AdversarialReview_def Let_def)
  qed (rule adversarial_nan)
  ultimately have "quality_verdict cfg st prop = None" "adversarial_verdict cfg st prop = None"
    by (auto simp: quality_verdict_def adversarial_verdict_def split: sum.split) (metis Inl_Inr_False sum.distinct(1))+
  then show ?thesis using assms(1,2) by (simp add: processOffspring_gates gate_answers_def asked_to_revise_def)
qed

definition sample_cfg :: RootOrchestratorConfig where
  "sample_cfg = \<lparr>rc_Lifecycle = \<lparr>lx_Kill = (\<lambda>_ _. Ok ()), lx_Pause = (\<lambda>_ _. Ok ()), lx_Resume = (\<lambda>_ _. Ok ())\<rparr>, rc_Breaker = breakerAdapter,
     rc_LLM = (\<lambda>_ _. Fail ''connection refused''), rc_Backtest = None, rc_LifecyclePolicyCfg = DefaultLifecyclePolicyConfig, rc_MaxLLMTokens = 1024\<rparr>"

definition sample_state :: EpochState where
  "sample_state = \<lparr>e_EpochID = ''e'', e_StartedAt = 0, e_Snapshots = [], e_Genomes = (\<lambda>_. None), e_SwarmGenomes = [], e_CarriedDebt = (\<lambda>_. None),
     e_BudgetTight = False, e_OffspringProposals = [], e_DeadAgents = []\<rparr>"

definition solvent_proposal :: OffspringProposal where
  "solvent_proposal = \<lparr>p_ProposalID = ''p'', p_ParentID = ''a'', p_Candidate = zero_genome, p_ReproductionReserveUSD = Fin 3,
     p_ParentLedger = (empty_ledger ''a'')\<lparr>l_RealizedNetProfit := Fin 10\<rparr>, p_ParentCarriedDebt = Fin 0\<rparr>"

theorem offspring_pipeline_spec_witness:
  "d_Outcome (processOffspring sample_cfg sample_state solvent_proposal) \<noteq> OffspringRejected \<and>
   \<not> list_all (\<lambda>g. snd g = Some True) (gate_answers (solvent_parent solvent_proposal) sample_cfg sample_state solvent_proposal)"
proof -
  have n: "\<not> is_nan (l_RealizedNetProfit (p_ParentLedger solvent_proposal))" "\<not> is_nan (p_ParentCarriedDebt solvent_proposal)"
    "\<not> is_nan (p_ReproductionReserveUSD solvent_proposal)" by (simp_all add: solvent_proposal_def empty_ledger_def)
  have s: "solvent_parent solvent_proposal" by (simp add: solvent_parent_def solvent_proposal_def empty_ledger_def flt_def fle_def)
  have v: "quality_verdict sample_cfg sample_state solvent_proposal = None" "adversarial_verdict sample_cfg sample_state solvent_proposal = None"
    by (auto simp: quality_verdict_def adversarial_verdict_def QualityCheck_def AdversarialReview_def sample_cfg_def Let_def bindr_def wrapr_def split: sum.splits option.splits if_splits)
  show ?thesis using offspring_pipeline_spec [OF n, of sample_cfg sample_state] v s
    by (simp add: Let_def gate_answers_def backtest_passes_def sample_cfg_def)
qed

theorem offspring_gates_fail_open_witness:
  "tagged (processOffspring sample_cfg sample_state solvent_proposal) = (OffspringApproved, [])"
  by (rule offspring_gates_fail_open) (auto simp: insolvent_def solvent_proposal_def backtest_passes_def sample_cfg_def)

text \<open>
  C12: an epoch that loads its state does everything in the fixed order (lifecycle actions, one
  decision per proposal, postmortems, breaker, log), publishes exactly when the log was written, and
  writes a postmortem only for agents that died before or that it killed successfully; an epoch that
  cannot load its state does nothing.
\<close>

theorem epoch_trace:
  assumes "RunEpoch cfg load log_ep t0 t1 eid = (evs, res, err)"
  shows "case load eid of
      Inl e \<Rightarrow> evs = [] \<and> err \<noteq> None
    | Inr st \<Rightarrow> \<exists>pms. evs = map (\<lambda>a. EvAction a (executeAction cfg a = Ok ())) (er_LifecycleActions res) @
          map (\<lambda>p. EvDecision (processOffspring cfg st p)) (e_OffspringProposals st) @ map (\<lambda>(i, p). EvPostmortem i p) pms @
          [EvBreaker (breakerOutcome st (er_LifecycleActions res)), EvLog res] @ (if err = None then [EvPublish eid] else []) \<and>
        (err = None \<longleftrightarrow> log_ep res = Ok ()) \<and>
        (\<forall>(i, p) \<in> set pms. i \<in> pi_AgentID ` set (e_DeadAgents st) \<or>
           (\<exists>a \<in> set (er_LifecycleActions res). la_AgentID a = i \<and> la_Kind a = ActionKill \<and> executeAction cfg a = Ok ()))"
  using assms by (rule run_epoch_trace)

theorem epoch_trace_witness:
  "\<exists>res. RunEpoch sample_cfg (\<lambda>_. Ok sample_state) (\<lambda>_. Ok ()) 0 1 ''e'' = ([EvBreaker (breakerOutcome sample_state []), EvLog res, EvPublish ''e''], res, None)"
proof -
  obtain evs res err where r: "RunEpoch sample_cfg (\<lambda>_. Ok sample_state) (\<lambda>_. Ok ()) 0 1 ''e'' = (evs, res, err)" by (metis prod_cases3)
  then have "er_LifecycleActions res = []" by (auto simp: RunEpoch_def Let_def sample_state_def DeterministicLifecyclePolicy_def)
  with epoch_trace [OF r] have "\<exists>pms. evs = map (\<lambda>(i, p). EvPostmortem i p) pms @ [EvBreaker (breakerOutcome sample_state []), EvLog res, EvPublish ''e''] \<and>
      err = None \<and> pms = []"
    by (auto simp: sample_state_def) (metis list.set_intros(1) list.exhaust surj_pair)
  with r show ?thesis by auto
qed

text \<open>
  C31: after an epoch on the production store without database errors, exactly the proposals whose
  decision was to revise are still in the queue that the next epoch loads.
\<close>

theorem epoch_leaves_revised_proposals:
  assumes "pg_fault pg = (\<lambda>_. None)" "run_epoch_db pg cfg t0 t1 eid d = (d', res, None)" "distinct (map pr_id (t_proposals d))" "\<forall>r \<in> set (t_proposals d). pr_id r \<noteq> []"
  shows "map pr_id (open_proposals d') = map d_ProposalID (filter (\<lambda>dec. d_Outcome dec = OffspringRevise) (er_OffspringDecisions res)) \<and>
    map d_ProposalID (er_OffspringDecisions res) = map pr_id (open_proposals d)"
proof -
  obtain evs where run: "RunEpoch cfg (LoadEpochState pg t0 d) (\<lambda>r. snd (LogEpoch pg r d)) t0 t1 eid = (evs, res, None)"
    and d': "d' = fold (apply_event pg) evs d"
    using assms(2) by (auto simp: run_epoch_db_def split: prod.splits)
  obtain st where st: "LoadEpochState pg t0 d eid = Ok st" "e_OffspringProposals st = map (proposal_of_row pg d) (open_proposals d)"
    by (simp add: LoadEpochState_def assms(1))
  let ?ds = "map (processOffspring cfg st) (e_OffspringProposals st)"
  have res: "er_OffspringDecisions res = ?ds" using run st(1) by (auto simp: RunEpoch_def Let_def split: sum.splits)
  obtain pre post where evs: "evs = pre @ map EvDecision ?ds @ post"
    "list_all (\<lambda>e. case e of EvDecision _ \<Rightarrow> False | _ \<Rightarrow> True) pre" "list_all (\<lambda>e. case e of EvDecision _ \<Rightarrow> False | _ \<Rightarrow> True) post"
  proof -
    from run_epoch_trace [OF run] st(1) obtain pms where e: "evs = map (\<lambda>a. EvAction a (executeAction cfg a = Ok ())) (er_LifecycleActions res) @
          map EvDecision ?ds @ map (\<lambda>(i, p). EvPostmortem i p) pms @
          [EvBreaker (breakerOutcome st (er_LifecycleActions res)), EvLog res] @ [EvPublish eid]"
      by (auto simp: comp_def)
    show ?thesis by (rule that [OF e]) (auto simp: list_all_iff)
  qed
  have ids: "map d_ProposalID ?ds = map pr_id (open_proposals d)"
    by (simp add: st(2) comp_def processOffspring_id proposal_of_row_def)
  have "\<forall>dec \<in> set ?ds. d_ProposalID dec \<noteq> []"
  proof
    fix dec assume "dec \<in> set ?ds"
    then have "d_ProposalID dec \<in> set (map pr_id (open_proposals d))" using ids by (metis image_eqI list.set_map)
    then show "d_ProposalID dec \<noteq> []" using assms(4) by (auto simp: open_proposals_def)
  qed
  then have props: "t_proposals d' = map (fold update_proposal ?ds) (t_proposals d)"
    unfolding d' evs(1) by (simp add: fold_other_events evs(2,3) fold_decisions assms(1) del: map_map)
  let ?g = "\<lambda>r. processOffspring cfg st (proposal_of_row pg d r)" and ?F = "fold update_proposal ?ds"
  let ?open = "\<lambda>r. pr_status r \<in> {''pending'', ''quality_check'', ''adversarial_review''}"
  have g: "?ds = map ?g (filter ?open (t_proposals d))" by (simp add: st(2) open_proposals_def)
  have gid: "d_ProposalID (?g r) = pr_id r" for r by (simp add: processOffspring_id proposal_of_row_def)
  have dist: "distinct (map d_ProposalID ?ds)" unfolding ids using assms(3) by (simp add: open_proposals_def distinct_map_filter)
  have stat: "?open (?F r) \<longleftrightarrow> ?open r \<and> d_Outcome (?g r) = OffspringRevise" if r: "r \<in> set (t_proposals d)" for r
  proof (cases "?open r")
    case True
    then have "?g r \<in> set ?ds" using r unfolding g by auto
    from fold_update_status [OF dist this, of r] gid have "pr_status (?F r) = outcome_status (d_Outcome (?g r))" by simp
    then show ?thesis using True by (cases "d_Outcome (?g r)") (simp_all add: outcome_status_def)
  next
    case False
    have "pr_id r \<notin> set (map pr_id (open_proposals d))"
    proof
      assume "pr_id r \<in> set (map pr_id (open_proposals d))"
      then obtain r' where "r' \<in> set (t_proposals d)" "pr_id r' = pr_id r" "?open r'" by (auto simp: open_proposals_def)
      moreover from this(1,2) r assms(3) have "r' = r" by (metis distinct_map inj_onD)
      ultimately show False using False by blast
    qed
    then have "?F r = r" using ids by (intro fold_update_other) simp
    then show ?thesis using False by simp
  qed
  have "map pr_id (open_proposals d') = map pr_id (filter (\<lambda>r. ?open (?F r)) (t_proposals d))"
    unfolding open_proposals_def props by (simp add: filter_map comp_def fold_update_id del: insert_iff)
  also have "filter (\<lambda>r. ?open (?F r)) (t_proposals d) = filter (\<lambda>r. ?open r \<and> d_Outcome (?g r) = OffspringRevise) (t_proposals d)"
    using stat by (intro filter_cong) blast+
  also have "map pr_id \<dots> = map d_ProposalID (filter (\<lambda>dec. d_Outcome dec = OffspringRevise) ?ds)"
    unfolding g by (simp add: filter_map comp_def gid conj_commute del: insert_iff)
  finally show ?thesis using ids res by simp
qed


definition queue_db :: db where
  "queue_db = \<lparr>t_agents = [], t_proposals = [\<lparr>pr_id = ''p'', pr_proposing_agent = ''a'', pr_seed_capital = Fin 1, pr_api_reserve = Fin 1, pr_failure_buffer = Fin 1,
     pr_genome = zero_genome, pr_status = ''pending'', pr_rejection_reason = None, pr_quality_verdict = None, pr_quality_reasoning = None,
     pr_bull_case = None, pr_bear_case = None, pr_synthesis = None\<rparr>], t_ledgers = [], t_sweeps = [], t_postmortems = [], t_epochs = [], t_trades = [], t_decisions = [], t_prices = []\<rparr>"

lemma queue_db_insolvent: "insolvent (proposal_of_row pg_ok queue_db r)"
  by (simp add: insolvent_def proposal_of_row_def latestLedgerFor_def pg_ok_def queue_db_def empty_ledger_def)

theorem epoch_leaves_revised_proposals_witness:
  "\<exists>d' res. run_epoch_db pg_ok sample_cfg 0 1 ''e'' queue_db = (d', res, None) \<and> map d_ProposalID (er_OffspringDecisions res) = [''p''] \<and>
     open_proposals d' = []"
proof -
  obtain d' res err where r: "run_epoch_db pg_ok sample_cfg 0 1 ''e'' queue_db = (d', res, err)" by (metis prod_cases3)
  then have err: "err = None" and rej: "\<forall>dec \<in> set (er_OffspringDecisions res). d_Outcome dec = OffspringRejected"
    by (auto simp: run_epoch_db_def RunEpoch_def LoadEpochState_def LogEpoch_def exec_def Let_def processOffspring_def queue_db_insolvent pg_ok_def [THEN arg_cong [where f = pg_fault]] split: prod.splits)
  have "map pr_id (open_proposals d') = map d_ProposalID (filter (\<lambda>dec. d_Outcome dec = OffspringRevise) (er_OffspringDecisions res)) \<and>
    map d_ProposalID (er_OffspringDecisions res) = map pr_id (open_proposals queue_db)"
    by (rule epoch_leaves_revised_proposals) (use r err in \<open>auto simp: queue_db_def pg_ok_def\<close>)
  moreover have "filter (\<lambda>dec. d_Outcome dec = OffspringRevise) (er_OffspringDecisions res) = []" using rej by (auto simp: filter_empty_conv)
  ultimately show ?thesis using r err by (simp add: queue_db_def open_proposals_def)
qed

text \<open>A quotient of two counts is at least one half in floating point exactly if it is.\<close>

lemma count_ratio_half:
  assumes "0 \<le> s" "0 < f" "s \<le> 2 ^ 53" "f \<le> 2 ^ 53"
  shows "fle half (fdiv (f64_of_int s) (f64_of_int f)) \<longleftrightarrow> f \<le> 2 * s"
proof -
  let ?r = "of_int s / of_int f :: rat" and ?k = "2 ^ 53 - 1 :: int"
  have fin: "f64_of_int s = Fin (of_int s)" "f64_of_int f = Fin (of_int f)" using assms by (simp_all add: f64_of_int_fin)
  have nn: "\<not> is_nan (fdiv (f64_of_int s) (f64_of_int f))" using assms unfolding fin by (simp add: fdiv_def Let_def)
  have key: "fkey (fdiv (f64_of_int s) (f64_of_int f)) = fkey (rnd ?r)" using assms by (simp add: fin fdiv_key)
  have below: "?r \<le> of_int ?k / 2 ^ 54" if "\<not> f \<le> 2 * s"
  proof -
    have "2 ^ 54 * s \<le> ?k * f" using that assms by simp
    then have "2 ^ 54 * (of_int s :: rat) \<le> of_int ?k * of_int f" by (metis of_int_le_iff of_int_mult of_int_numeral of_int_power)
    then show ?thesis using assms(2) by (simp add: field_simps)
  qed
  show ?thesis
  proof (cases "f \<le> 2 * s")
    case True
    then have "(of_int f :: rat) \<le> of_int (2 * s)" by (simp only: of_int_le_iff)
    then have "1 / 2 \<le> ?r" using assms(2) by (simp add: field_simps)
    then have "fle half (fdiv (f64_of_int s) (f64_of_int f))" using nn key by (intro fle_keyI [of _ _ "1 / 2" ?r]) (simp_all add: half_def)
    then show ?thesis using True by simp
  next
    case False
    have "fle (fdiv (f64_of_int s) (f64_of_int f)) (rnd (of_int ?k / 2 ^ 54))"
      using nn key below [OF False] by (intro fle_keyI [of _ _ ?r "of_int ?k / 2 ^ 54"]) simp_all
    also have "rnd (of_int ?k / 2 ^ 54) = Fin (of_int ?k / 2 ^ 54)" by (rule rnd_dyadic) simp_all
    finally have "flt (fdiv (f64_of_int s) (f64_of_int f)) half" by (rule fle_flt_trans) (simp add: flt_fin half_def)
    then show ?thesis using False flt_asym by blast
  qed
qed

definition count_node_class :: "string \<Rightarrow> EpochState \<Rightarrow> nat" where
  "count_node_class c st = length (filter (\<lambda>s. s_NodeClass s = c) (e_Snapshots st))"

definition stop_outs :: "LifecycleAction list \<Rightarrow> nat" where
  "stop_outs acts = length (filter (\<lambda>a. la_Kind a = ActionKill \<and> la_Reason a = ''max_drawdown_exceeded'') acts)"

text \<open>
  With at most 2^53 agents the breaker verdict of an epoch is exact in spite of the floating-point
  division: it trips exactly if there is a funded node and the drawdown kills of the epoch are at least
  half as many as the funded nodes.  The kills are those of all agents, so shadow agents alone can trip it.
\<close>

theorem epoch_breaker_exact:
  assumes "count_node_class ''funded'' st \<le> 2 ^ 53" "stop_outs acts \<le> 2 ^ 53"
  shows "breakerAdapter (breakerOutcome st acts) =
    (if 0 < count_node_class ''funded'' st \<and> count_node_class ''funded'' st \<le> 2 * stop_outs acts then ''mass_stop_out'' else [])"
proof (cases "count_node_class ''funded'' st = 0")
  case False
  have "int (count_node_class ''funded'' st) \<le> 2 ^ 53" "int (stop_outs acts) \<le> 2 ^ 53" using assms by simp_all
  with False count_ratio_half [of "int (stop_outs acts)" "int (count_node_class ''funded'' st)"]
  have "fle half (fdiv (f64_of_int (int (stop_outs acts))) (f64_of_int (int (count_node_class ''funded'' st)))) \<longleftrightarrow>
      count_node_class ''funded'' st \<le> 2 * stop_outs acts" by simp linarith
  then show ?thesis using False by (simp add: breakerAdapter_def breakerOutcome_def count_node_class_def stop_outs_def)
qed (simp add: breakerAdapter_def breakerOutcome_def count_node_class_def)

definition two_node_state :: EpochState where
  "two_node_state = sample_state\<lparr>e_Snapshots := [zero_snapshot\<lparr>s_AgentID := ''a'', s_NodeClass := ''funded''\<rparr>, zero_snapshot\<lparr>s_AgentID := ''b'', s_NodeClass := ''shadow''\<rparr>]\<rparr>"

theorem epoch_breaker_exact_witness:
  "breakerAdapter (breakerOutcome two_node_state [\<lparr>la_AgentID = ''b'', la_Kind = ActionKill, la_Reason = ''max_drawdown_exceeded''\<rparr>]) = ''mass_stop_out''"
proof -
  let ?acts = "[\<lparr>la_AgentID = ''b'', la_Kind = ActionKill, la_Reason = ''max_drawdown_exceeded''\<rparr>]"
  have "count_node_class ''funded'' two_node_state = 1" "stop_outs ?acts = 1" by (simp_all add: count_node_class_def two_node_state_def stop_outs_def sample_state_def)
  with epoch_breaker_exact [of two_node_state ?acts] show ?thesis by simp
qed

end
