(* ===== verification/Security.thy ===== *)
theory Security
  imports Float64 "HOL-Library.Word"
begin

text \<open>
  \<^verbatim>\<open>internal/security\<close>: the gate in front of every broadcast (\<^verbatim>\<open>policy.go\<close>, \<^verbatim>\<open>tx_validator.go\<close>),
  wallet keys at rest (\<^verbatim>\<open>key_manager.go\<close>) and the redaction of log fields (\<^verbatim>\<open>log_redactor.go\<close>).
  Galois/counter mode is modelled down to the block cipher of \<^verbatim>\<open>crypto/aes\<close>, which is an argument:
  every theorem about keys at rest holds for every block function.
\<close>

unbundle bit_operations_syntax

section \<open>Destination allowlists\<close>

text \<open>\<^verbatim>\<open>destinationAllowlists\<close>: chain name to set of addresses.\<close>

type_synonym allowlists = "string \<Rightarrow> string list option"

definition destinationAllowlists :: allowlists where
  "destinationAllowlists = map_of
     [(''solana'',
        [''JUP6LkbZbjS1jKKwapdHNy74zcZ3tLUZoi5QNyVTaV4'', ''TokenkegQfeZyiNwAJbNbGKPFXCWuBvf9Ss623VQ5DA'',
         ''MFv2hWf31Z9kbCa1snEPYctwafyhdvnV7FZnsebVacA'', ''KLend2g3cP87fffoy8q1mQqGKjrxjC8boSyAYavgmjD'']),
      (''base'',
        [''0x111111125421ca6dc452d289314280a0f8842a65'', ''0xa238dd80c259a72e81d7e4664a9801593f98d1c5'',
         ''0xbbbbbbbbbb9cc5e90e3b3af64bdaf62c37eeffcb'', ''0x4200000000000000000000000000000000000006''])]"

definition IsDestinationAllowed :: "allowlists \<Rightarrow> string \<Rightarrow> string \<Rightarrow> bool" where
  "IsDestinationAllowed al chainName address =
     (case al (ToLower chainName) of
        None \<Rightarrow> False
      | Some s \<Rightarrow> if List.member s address then True else if List.member s (ToLower address) then True else False)"

definition AllowDestination :: "string \<Rightarrow> string \<Rightarrow> allowlists \<Rightarrow> allowlists" where
  "AllowDestination chainName address al =
     (let cn = ToLower chainName;
          al' = (case al cn of None \<Rightarrow> al(cn \<mapsto> []) | Some _ \<Rightarrow> al)
      in al'(cn \<mapsto> List.insert address (case al' cn of Some s \<Rightarrow> s | None \<Rightarrow> [])))"

definition ResetDestinationAllowlistsForTest :: "allowlists \<Rightarrow> allowlists" where
  "ResetDestinationAllowlistsForTest _ = destinationAllowlists"

section \<open>Transaction validation\<close>

record Transaction =
  tx_Chain :: string
  tx_Raw :: "8 word list"
  tx_Meta :: "(string \<times> string) list"

record SimResult =
  WouldSucceed :: bool
  ExpectedOutput :: f64
  GasEstimate :: "64 word"
  ErrorMsg :: string

record ValidationInput =
  Tx :: "Transaction option"
  Sim :: "SimResult option"
  Destination :: string
  EstimatedSlippagePct :: f64
  MaxAllowedSlippagePct :: f64

text \<open>The text of a slippage error prints two floats; the model keeps the floats.\<close>

datatype detail = Plain string | SlippageOver f64 f64

datatype ValidationReason =
    ReasonNilTx | ReasonNilSim | ReasonSimRevert | ReasonSlippageExceeded | ReasonDestinationDenied | ReasonMissingDestination

type_synonym ValidationError = "ValidationReason \<times> detail"

text \<open>\<open>None\<close> is the nil error.\<close>

definition ValidateTx :: "allowlists \<Rightarrow> ValidationInput \<Rightarrow> ValidationError option" where
  "ValidateTx al inp =
     (case Tx inp of
        None \<Rightarrow> Some (ReasonNilTx, Plain ''ValidationInput.Tx is nil'')
      | Some tx \<Rightarrow>
     (case Sim inp of
        None \<Rightarrow> Some (ReasonNilSim, Plain ''ValidationInput.Sim is nil'')
      | Some sim \<Rightarrow>
        if \<not> WouldSucceed sim then Some (ReasonSimRevert, Plain (ErrorMsg sim))
        else if fle (MaxAllowedSlippagePct inp) (Fin 0)
          then Some (ReasonSlippageExceeded, Plain ''MaxAllowedSlippagePct must be > 0'')
        else if fle (MaxAllowedSlippagePct inp) (EstimatedSlippagePct inp)
          then Some (ReasonSlippageExceeded, SlippageOver (EstimatedSlippagePct inp) (MaxAllowedSlippagePct inp))
        else if Destination inp = []
          then Some (ReasonMissingDestination, Plain ''Destination required for allowlist check'')
        else if \<not> IsDestinationAllowed al (tx_Chain tx) (Destination inp)
          then Some (ReasonDestinationDenied,
                 Plain (''destination '' @ Destination inp @ '' not on '' @ tx_Chain tx @ '' allowlist''))
        else None))"

section \<open>Keys at rest\<close>

type_synonym bytes = "8 word list"

text \<open>The block cipher: a key and a block of sixteen bytes to a block of sixteen bytes.\<close>

type_synonym block_cipher = "bytes \<Rightarrow> bytes \<Rightarrow> bytes"

definition MasterKeySize :: nat where "MasterKeySize = 32"
definition nonceSize :: nat where "nonceSize = 12"
definition tagSize :: nat where "tagSize = 16"

definition xor_bytes :: "bytes \<Rightarrow> bytes \<Rightarrow> bytes" where
  "xor_bytes xs ys = map2 (XOR) xs ys"

definition be32 :: "32 word \<Rightarrow> bytes" where
  "be32 w = [ucast (drop_bit 24 w), ucast (drop_bit 16 w), ucast (drop_bit 8 w), ucast w]"

definition be64 :: "64 word \<Rightarrow> bytes" where
  "be64 w = map (\<lambda>i. ucast (drop_bit (8 * (7 - i)) w)) [0..<8]"

text \<open>The keystream: the counter starts at two, in 32 bits, after the block for the tag.\<close>

fun keystream :: "block_cipher \<Rightarrow> bytes \<Rightarrow> bytes \<Rightarrow> 32 word \<Rightarrow> nat \<Rightarrow> bytes" where
  "keystream E key nonce ctr 0 = []"
| "keystream E key nonce ctr (Suc n) = E key (nonce @ be32 ctr) @ keystream E key nonce (ctr + 1) n"

definition blocks :: "nat \<Rightarrow> nat" where "blocks n = (n + 15) div 16"

definition gctr :: "block_cipher \<Rightarrow> bytes \<Rightarrow> bytes \<Rightarrow> bytes \<Rightarrow> bytes" where
  "gctr E key nonce xs = xor_bytes xs (keystream E key nonce 2 (blocks (length xs)))"

text \<open>Multiplication in the field of the tag, bit 0 being the most significant.\<close>

fun gf_loop :: "nat \<Rightarrow> 128 word \<Rightarrow> 128 word \<Rightarrow> 128 word \<Rightarrow> 128 word" where
  "gf_loop 0 x v z = z"
| "gf_loop (Suc n) x v z =
     gf_loop n x (if bit v 0 then drop_bit 1 v XOR push_bit 120 0xE1 else drop_bit 1 v) (if bit x n then z XOR v else z)"

definition gf_mul :: "128 word \<Rightarrow> 128 word \<Rightarrow> 128 word" where
  "gf_mul x y = gf_loop 128 x y 0"

definition block_of :: "bytes \<Rightarrow> 128 word" where
  "block_of bs = foldl (\<lambda>w b. push_bit 8 w OR ucast b) 0 bs"

definition bytes_of :: "128 word \<Rightarrow> bytes" where
  "bytes_of w = map (\<lambda>i. ucast (drop_bit (8 * (15 - i)) w)) [0..<16]"

fun ghash :: "128 word \<Rightarrow> 128 word \<Rightarrow> bytes \<Rightarrow> 128 word" where
  "ghash h y [] = y"
| "ghash h y (b # bs) =
     (let blk = take 16 (b # bs) @ replicate (16 - length (take 16 (b # bs))) 0
      in ghash h (gf_mul (y XOR block_of blk) h) (drop 15 bs))"

definition gcm_tag :: "block_cipher \<Rightarrow> bytes \<Rightarrow> bytes \<Rightarrow> bytes \<Rightarrow> bytes" where
  "gcm_tag E key nonce ct =
     (let h = block_of (E key (replicate 16 0));
          s = ghash h (ghash h 0 ct) (be64 0 @ be64 (of_nat (8 * length ct)))
      in xor_bytes (bytes_of s) (E key (nonce @ be32 1)))"

definition max_message :: nat where "max_message = (2 ^ 32 - 2) * 16"

text \<open>
  \<^verbatim>\<open>gcm.Seal\<close> and \<^verbatim>\<open>gcm.Open\<close> of \<^verbatim>\<open>crypto/cipher\<close> without additional data; sealing an
  over-long message panics, which the model reports as an error.
\<close>

definition gcm_seal :: "block_cipher \<Rightarrow> bytes \<Rightarrow> bytes \<Rightarrow> bytes \<Rightarrow> bytes result" where
  "gcm_seal E key nonce pt =
     (if max_message < length pt then Fail ''crypto/cipher: message too large for GCM''
      else let ct = gctr E key nonce pt in Ok (ct @ gcm_tag E key nonce ct))"

definition gcm_open :: "block_cipher \<Rightarrow> bytes \<Rightarrow> bytes \<Rightarrow> bytes \<Rightarrow> bytes result" where
  "gcm_open E key nonce c =
     (if length c < tagSize \<or> max_message + tagSize < length c then Fail ''cipher: message authentication failed''
      else let ct = take (length c - tagSize) c; tag = drop (length c - tagSize) c
           in if gcm_tag E key nonce ct = tag then Ok (gctr E key nonce ct) else Fail ''cipher: message authentication failed'')"

text \<open>The entropy source delivers the nonce or an error.\<close>

definition Encrypt :: "block_cipher \<Rightarrow> bytes result \<Rightarrow> bytes \<Rightarrow> bytes \<Rightarrow> bytes result" where
  "Encrypt E entropy plaintext masterKey =
     (if length masterKey \<noteq> MasterKeySize
      then Fail (''security: master key must be 32 bytes, got '' @ itoa (int (length masterKey)))
      else bindr (wrapr ''security: nonce'' entropy)
             (\<lambda>nonce. bindr (gcm_seal E masterKey nonce plaintext) (\<lambda>sealed. Ok (nonce @ sealed))))"

definition Decrypt :: "block_cipher \<Rightarrow> bytes \<Rightarrow> bytes \<Rightarrow> bytes result" where
  "Decrypt E ciphertext masterKey =
     (if length masterKey \<noteq> MasterKeySize
      then Fail (''security: master key must be 32 bytes, got '' @ itoa (int (length masterKey)))
      else if length ciphertext < nonceSize then Fail ''security: ciphertext too short''
      else wrapr ''security: open'' (gcm_open E masterKey (take nonceSize ciphertext) (drop nonceSize ciphertext)))"

definition LoadMasterKey :: "(string \<Rightarrow> string) \<Rightarrow> string \<Rightarrow> bytes result" where
  "LoadMasterKey Getenv envName =
     (let envName' = (if envName = [] then ''MASTER_ENCRYPTION_KEY'' else envName); raw = Getenv envName'
      in if raw = [] then Fail (''security: '' @ envName' @ '' not set'')
         else if length raw \<noteq> MasterKeySize
         then Fail (''security: '' @ envName' @ '' must be 32 bytes, got '' @ itoa (int (length raw)))
         else Ok (map of_char raw))"

section \<open>Log redaction\<close>

text \<open>
  \<^verbatim>\<open>(?i)^(.*key|.*secret|.*token|wallet.*|signature)$\<close>: the dot matches every character but a
  line feed, and the letters match in either case; as Go folds letters, the Kelvin sign U+212A is a k and the long s U+017F an s.
\<close>

fun fold_letters :: "string \<Rightarrow> string" where
  "fold_letters [] = []"
| "fold_letters (c # cs) =
     (if c = CHR 0xE2 \<and> take 2 cs = [CHR 0x84, CHR 0xAA] then CHR ''k'' # fold_letters (drop 2 cs)
      else if c = CHR 0xC5 \<and> take 1 cs = [CHR 0xBF] then CHR ''s'' # fold_letters (drop 1 cs)
      else ascii_lower c # fold_letters cs)"

definition no_newline :: "string \<Rightarrow> bool" where
  "no_newline s \<longleftrightarrow> CHR 0x0A \<notin> set s"

definition ends_with :: "string \<Rightarrow> string \<Rightarrow> bool" where
  "ends_with suf s \<longleftrightarrow>
     length suf \<le> length s \<and> drop (length s - length suf) s = suf \<and> no_newline (take (length s - length suf) s)"

definition starts_with :: "string \<Rightarrow> string \<Rightarrow> bool" where
  "starts_with pre s \<longleftrightarrow> take (length pre) s = pre \<and> no_newline (drop (length pre) s)"

definition SecretFieldRegex :: "string \<Rightarrow> bool" where
  "SecretFieldRegex key \<longleftrightarrow>
     (let s = fold_letters key in
      ends_with ''key'' s \<or> ends_with ''secret'' s \<or> ends_with ''token'' s \<or> starts_with ''wallet'' s \<or> s = ''signature'')"

datatype 'v log_value = StringValue string | OtherValue 'v

definition redactedValue :: string where "redactedValue = ''<redacted>''"

definition redactFields :: "(string \<times> 'v log_value) list \<Rightarrow> (string \<times> 'v log_value) list" where
  "redactFields fs = map (\<lambda>(k, v). if SecretFieldRegex k then (k, StringValue redactedValue) else (k, v)) fs"

datatype level = DebugLevel | InfoLevel | WarnLevel | ErrorLevel

definition parseLevel :: "string \<Rightarrow> level result" where
  "parseLevel l =
     (if List.member [[], ''info'', ''INFO'', ''Info''] l then Ok InfoLevel
      else if List.member [''debug'', ''DEBUG'', ''Debug''] l then Ok DebugLevel
      else if List.member [''warn'', ''WARN'', ''Warn'', ''warning'', ''WARNING''] l then Ok WarnLevel
      else if List.member [''error'', ''ERROR'', ''Error''] l then Ok ErrorLevel
      else Fail (''security: unknown log level '' @ l))"

text \<open>
  The core of \<^verbatim>\<open>zapcore\<close> that is wrapped: a core carries the fields attached with \<^verbatim>\<open>With\<close>, \<^verbatim>\<open>Write\<close> emits an entry, and
  a level may be disabled.  The redacting core redacts what it passes on to both.
\<close>

record ('c, 'v, 'o) zap_core =
  zc_With :: "(string \<times> 'v log_value) list \<Rightarrow> 'c \<Rightarrow> 'c"
  zc_Write :: "'c \<Rightarrow> level \<times> string \<Rightarrow> (string \<times> 'v log_value) list \<Rightarrow> 'o"
  zc_Enabled :: "'c \<Rightarrow> level \<Rightarrow> bool"

definition redact_With :: "('c, 'v, 'o) zap_core \<Rightarrow> (string \<times> 'v log_value) list \<Rightarrow> 'c \<Rightarrow> 'c" where
  "redact_With z fs c = zc_With z (redactFields fs) c"

definition redact_Write :: "('c, 'v, 'o) zap_core \<Rightarrow> 'c \<Rightarrow> level \<times> string \<Rightarrow> (string \<times> 'v log_value) list \<Rightarrow> 'o" where
  "redact_Write z c ent fs = zc_Write z c ent (redactFields fs)"

text \<open>\<^verbatim>\<open>Check\<close> followed by \<^verbatim>\<open>Write\<close>: what one log call emits.\<close>

definition redact_log :: "('c, 'v, 'o) zap_core \<Rightarrow> 'c \<Rightarrow> level \<Rightarrow> string \<Rightarrow> (string \<times> 'v log_value) list \<Rightarrow> 'o option" where
  "redact_log z c lv msg fs = (if zc_Enabled z c lv then Some (redact_Write z c (lv, msg) fs) else None)"

text \<open>The wrapped core is the one \<^verbatim>\<open>zapcore.NewCore\<close> makes for the level.\<close>

definition NewLogger :: "(level \<Rightarrow> 'c) \<Rightarrow> string \<Rightarrow> 'c result" where
  "NewLogger NewCore l = bindr (parseLevel l) (\<lambda>lv. Ok (NewCore lv))"

text \<open>
  What the documentation of \<^verbatim>\<open>zapcore.Core\<close> promises: \<^verbatim>\<open>With\<close> adds fields to those a core carries, and an entry has the fields
  carried and those of the call, in this order.  \<open>carried\<close> and \<open>emitted\<close> read the fields off a core and an entry.
\<close>

definition core_carries :: "('c, 'v, 'o) zap_core \<Rightarrow> ('c \<Rightarrow> (string \<times> 'v log_value) list) \<Rightarrow> ('o \<Rightarrow> (string \<times> 'v log_value) list) \<Rightarrow> bool" where
  "core_carries z carried emitted \<longleftrightarrow>
     (\<forall>fs c. carried (zc_With z fs c) = carried c @ fs) \<and> (\<forall>c ent fs. emitted (zc_Write z c ent fs) = carried c @ fs)"

section \<open>Lemmas\<close>

lemma ToLower_length [simp]: "length (ToLower s) = length s"
  by (simp add: ToLower_def)

text \<open>The gate passes exactly when every check does.\<close>

lemma ValidateTx_None_iff:
  "ValidateTx al inp = None \<longleftrightarrow>
     (\<exists>tx sim. Tx inp = Some tx \<and> Sim inp = Some sim \<and> WouldSucceed sim \<and>
        \<not> fle (MaxAllowedSlippagePct inp) (Fin 0) \<and> \<not> fle (MaxAllowedSlippagePct inp) (EstimatedSlippagePct inp) \<and>
        Destination inp \<noteq> [] \<and> IsDestinationAllowed al (tx_Chain tx) (Destination inp))"
  by (auto simp: ValidateTx_def split: option.splits if_splits)

lemma allowlist_lookup:
  "destinationAllowlists c = Some s \<Longrightarrow> (c = ''solana'' \<or> c = ''base'') \<and> length s = 4"
  by (auto simp: destinationAllowlists_def split: if_splits)

lemma IsDestinationAllowed_Allow:
  "IsDestinationAllowed (AllowDestination c a al) c' a' \<longleftrightarrow>
     IsDestinationAllowed al c' a' \<or> ToLower c = ToLower c' \<and> (a' = a \<or> ToLower a' = a)"
  by (auto simp: IsDestinationAllowed_def AllowDestination_def Let_def split: option.split if_splits)

subsection \<open>Counter mode\<close>

lemma xor_bytes_length [simp]: "length (xor_bytes xs ys) = min (length xs) (length ys)"
  by (simp add: xor_bytes_def)

lemma xor_bytes_cancel: "length xs \<le> length ys \<Longrightarrow> xor_bytes (xor_bytes xs ys) ys = xs"
  by (auto simp: xor_bytes_def intro!: nth_equalityI bit_word_eqI simp: bit_simps)

definition block_sized :: "block_cipher \<Rightarrow> bool" where
  "block_sized E \<longleftrightarrow> (\<forall>k b. length (E k b) = 16)"

lemma keystream_length: "block_sized E \<Longrightarrow> length (keystream E k n c m) = 16 * m"
  by (induction m arbitrary: c) (simp_all add: block_sized_def)

lemma blocks_cover: "n \<le> 16 * blocks n"
  by (simp add: blocks_def)

lemma gctr_length [simp]: "block_sized E \<Longrightarrow> length (gctr E k n xs) = length xs"
  using blocks_cover [of "length xs"] by (simp add: gctr_def keystream_length)

lemma gctr_involution: "block_sized E \<Longrightarrow> gctr E k n (gctr E k n xs) = xs"
proof -
  assume E: "block_sized E"
  have "gctr E k n (gctr E k n xs) = xor_bytes (gctr E k n xs) (keystream E k n 2 (blocks (length (gctr E k n xs))))"
    by (rule gctr_def)
  also have "\<dots> = xor_bytes (xor_bytes xs (keystream E k n 2 (blocks (length xs)))) (keystream E k n 2 (blocks (length xs)))"
    using E by (simp only: gctr_length) (simp only: gctr_def)
  also have "\<dots> = xs" using E blocks_cover [of "length xs"] by (simp add: xor_bytes_cancel keystream_length)
  finally show ?thesis .
qed

lemma gcm_tag_length: "block_sized E \<Longrightarrow> length (gcm_tag E k n ct) = tagSize"
  by (simp add: gcm_tag_def Let_def bytes_of_def block_sized_def tagSize_def)

text \<open>What opens under a nonce is exactly what was sealed under it.\<close>

lemma gcm_open_iff:
  assumes E: "block_sized E"
  shows "gcm_open E k n c = Ok p \<longleftrightarrow> gcm_seal E k n p = Ok c"
proof
  assume op: "gcm_open E k n c = Ok p"
  let ?ct = "take (length c - tagSize) c"
  have c: "tagSize \<le> length c" "length c \<le> max_message + tagSize" "gcm_tag E k n ?ct = drop (length c - tagSize) c" "p = gctr E k n ?ct"
    using op by (auto simp: gcm_open_def Let_def split: if_splits)
  have "gctr E k n p = ?ct" using c(4) E by (simp only: gctr_involution)
  moreover have "length p \<le> max_message" using c E by simp
  ultimately show "gcm_seal E k n p = Ok c" using c(3) by (simp add: gcm_seal_def Let_def)
next
  assume s: "gcm_seal E k n p = Ok c"
  let ?ct = "gctr E k n p"
  have c: "c = ?ct @ gcm_tag E k n ?ct" "length p \<le> max_message" using s by (auto simp: gcm_seal_def Let_def split: if_splits)
  have "take (length c - tagSize) c = ?ct" "drop (length c - tagSize) c = gcm_tag E k n ?ct" "length c = length p + tagSize"
    using c(1) gcm_tag_length [OF E, of k n ?ct] E by simp_all
  then show "gcm_open E k n c = Ok p" using c(2) E by (simp add: gcm_open_def Let_def gctr_involution)
qed

subsection \<open>Redaction\<close>

lemma redactFields_append: "redactFields (xs @ ys) = redactFields xs @ redactFields ys"
  by (simp add: redactFields_def)

lemma redactFields_idem [simp]: "redactFields (redactFields fs) = redactFields fs"
  by (simp add: redactFields_def comp_def case_prod_beta)

lemma redactFields_fixed_iff: "redactFields fs = fs \<longleftrightarrow> (\<forall>(k, v) \<in> set fs. SecretFieldRegex k \<longrightarrow> v = StringValue redactedValue)"
  by (induction fs) (auto simp: redactFields_def)

section \<open>Properties\<close>

text \<open>
  C2: a blob decrypts to a plaintext exactly if encrypting that plaintext under the same key with
  some nonce produced the blob.  So decryption undoes encryption, and no blob with a changed
  nonce, body or tag decrypts unless it is itself the encryption of what it decrypts to.
\<close>

theorem decrypt_inverts_encrypt:
  assumes "block_sized E"
  shows "Decrypt E c k = Ok p \<longleftrightarrow> (\<exists>nonce. length nonce = nonceSize \<and> Encrypt E (Ok nonce) p k = Ok c)"
proof (cases "length k = MasterKeySize")
  case True
  have "Decrypt E c k = Ok p \<longleftrightarrow> nonceSize \<le> length c \<and> gcm_seal E k (take nonceSize c) p = Ok (drop nonceSize c)"
    using True by (auto simp: Decrypt_def gcm_open_iff [OF assms])
  also have "\<dots> \<longleftrightarrow> (\<exists>nonce. length nonce = nonceSize \<and> (\<exists>s. gcm_seal E k nonce p = Ok s \<and> c = nonce @ s))"
  proof
    assume "nonceSize \<le> length c \<and> gcm_seal E k (take nonceSize c) p = Ok (drop nonceSize c)"
    then show "\<exists>nonce. length nonce = nonceSize \<and> (\<exists>s. gcm_seal E k nonce p = Ok s \<and> c = nonce @ s)"
      by (intro exI [of _ "take nonceSize c"]) auto
  qed auto
  finally show ?thesis using True by (auto simp: Encrypt_def bindr_Ok_iff)
qed (simp add: Decrypt_def Encrypt_def)

definition xor_cipher :: block_cipher where
  "xor_cipher k b = take 16 (map2 (XOR) (b @ replicate 16 0) (take 16 (k @ replicate 16 0)))"

lemma xor_cipher_sized: "block_sized xor_cipher"
  by (auto simp: block_sized_def xor_cipher_def min_def)

theorem decrypt_inverts_encrypt_witness:
  "\<exists>c. Encrypt xor_cipher (Ok (replicate 12 7)) [1, 2, 3] (replicate 32 5) = Ok c \<and> Decrypt xor_cipher c (replicate 32 5) = Ok [1, 2, 3]"
proof -
  obtain c where c: "Encrypt xor_cipher (Ok (replicate 12 7)) [1, 2, 3] (replicate 32 5) = Ok c"
    by (simp add: Encrypt_def MasterKeySize_def gcm_seal_def max_message_def Let_def)
  moreover have "length (replicate 12 (7 :: 8 word)) = nonceSize" by (simp add: nonceSize_def)
  ultimately show ?thesis using decrypt_inverts_encrypt [OF xor_cipher_sized] by blast
qed

text \<open>
  C35: whatever fields are attached to a redacting logger or passed to a log call, an emitted entry
  contains the placeholder in every field whose name matches the secret pattern, and the other
  fields of the call as they are.  The core that is wrapped is any that carries and emits fields as documented, and starts with none.
\<close>

theorem redacting_logger_hides_secrets:
  assumes "core_carries z carried emitted" "\<And>lv. carried (NewCore lv) = []"
    and "NewLogger NewCore l = Ok c" "redact_log z (fold (redact_With z) fss c) lv msg fs = Some entry"
  shows "(\<forall>(k, v) \<in> set (emitted entry). SecretFieldRegex k \<longrightarrow> v = StringValue redactedValue) \<and>
    map fst (emitted entry) = concat (map (map fst) fss) @ map fst fs \<and>
    filter (\<lambda>(k, v). \<not> SecretFieldRegex k) (emitted entry) = filter (\<lambda>(k, v). \<not> SecretFieldRegex k) (concat fss @ fs)"
proof -
  have c: "carried c = []" using assms(2,3) by (auto simp: NewLogger_def bindr_Ok_iff)
  have w: "carried (fold (redact_With z) fss d) = carried d @ redactFields (concat fss)" for d
    using assms(1) by (induction fss arbitrary: d) (simp_all add: redact_With_def core_carries_def redactFields_append, simp add: redactFields_def)
  have out: "emitted entry = redactFields (concat fss @ fs)"
    using assms(1,4) w [of c] c by (auto simp: redact_log_def redact_Write_def core_carries_def redactFields_append split: if_splits)
  have "map fst (redactFields xs) = map fst xs" for xs :: "(string \<times> 'b log_value) list" by (auto simp: redactFields_def)
  moreover have "filter (\<lambda>(k, v). \<not> SecretFieldRegex k) (redactFields xs) = filter (\<lambda>(k, v). \<not> SecretFieldRegex k) xs"
    for xs :: "(string \<times> 'b log_value) list" by (induction xs) (auto simp: redactFields_def)
  moreover have "\<forall>(k, v) \<in> set (emitted entry). SecretFieldRegex k \<longrightarrow> v = StringValue redactedValue"
    using redactFields_idem [of "concat fss @ fs"] unfolding out redactFields_fixed_iff .
  ultimately show ?thesis by (simp add: out map_concat)
qed

fun level_rank :: "level \<Rightarrow> int" where
  "level_rank DebugLevel = - 1" | "level_rank InfoLevel = 0" | "level_rank WarnLevel = 1" | "level_rank ErrorLevel = 2"

text \<open>A core that keeps the level and the fields, and whose entries are the message with all fields.\<close>

definition list_core :: "(level \<times> (string \<times> 'v log_value) list, 'v, string \<times> (string \<times> 'v log_value) list) zap_core" where
  "list_core = \<lparr>zc_With = (\<lambda>fs (lv, gs). (lv, gs @ fs)), zc_Write = (\<lambda>(lv, gs) (_, msg) fs. (msg, gs @ fs)),
     zc_Enabled = (\<lambda>(lv, gs) lv1. level_rank lv \<le> level_rank lv1)\<rparr>"

theorem redacting_logger_hides_secrets_witness:
  "\<exists>out. redact_log list_core (fold (redact_With list_core) [[(''api_key'', StringValue ''sk-1'')]] (InfoLevel, [])) WarnLevel ''boot''
      [(''user_id'', OtherValue (7 :: int))] = Some (''boot'', out) \<and>
     (\<forall>(k, v) \<in> set out. SecretFieldRegex k \<longrightarrow> v = StringValue redactedValue) \<and> map fst out = [''api_key'', ''user_id'']"
proof -
  let ?new = "\<lambda>lv. (lv, []) :: level \<times> (string \<times> int log_value) list" and ?fss = "[[(''api_key'', StringValue ''sk-1'')]] :: (string \<times> int log_value) list list"
  have k: "core_carries (list_core :: (_, int, _) zap_core) snd snd" by (auto simp: core_carries_def list_core_def case_prod_beta)
  have l: "NewLogger ?new [] = Ok (?new InfoLevel)" by (simp add: NewLogger_def parseLevel_def)
  obtain out where o: "redact_log list_core (fold (redact_With list_core) ?fss (?new InfoLevel)) WarnLevel ''boot'' [(''user_id'', OtherValue 7)] = Some (''boot'', out)"
    by (simp add: redact_log_def redact_Write_def redact_With_def list_core_def)
  show ?thesis using redacting_logger_hides_secrets [OF k _ l o] o by simp
qed

lemma secret_names:
  "SecretFieldRegex ''MASTER_KEY''" "SecretFieldRegex ''client_secret''" "SecretFieldRegex ''auth_token''" "SecretFieldRegex ''wallet_seed''"
  "SecretFieldRegex ''Signature''" "\<not> SecretFieldRegex ''user_id''" "\<not> SecretFieldRegex ''tx_hash''" "\<not> SecretFieldRegex ''private_key_pem''"
  "SecretFieldRegex (''api_'' @ [CHR 0xE2, CHR 0x84, CHR 0xAA] @ ''ey'')"
  by code_simp+

end
