(* ===== verification/Queries.thy ===== *)
theory Queries
  imports EpochStore
begin

text \<open>
  \<^verbatim>\<open>internal/db/queries.go\<close>: the statements of the runtime, on the tables of \<open>Tables\<close>, and the
  treasury bootstrap of \<^verbatim>\<open>cmd/init-treasury/main.go\<close>.  The identifier a new row gets and the reading of the database clock are
  arguments.
\<close>

section \<open>Rows as the callers see them\<close>

record Agent =
  ag_ID :: string
  ag_Name :: string
  ag_Chain :: string
  ag_WalletAddress :: string
  ag_WalletKeyEncrypted :: string
  ag_TaskType :: string
  ag_StrategyConfig :: string
  ag_StrategistPrompt :: string
  ag_StrategistModel :: string
  ag_StrategistIntervalSeconds :: int
  ag_BanditPolicies :: string
  ag_LearnedRules :: string
  ag_SleepSchedule :: string
  ag_ReproductionPolicy :: string
  ag_CostPolicy :: string
  ag_CommunicationPolicy :: string
  ag_NodeClass :: string
  ag_Generation :: int
  ag_LineageDepth :: int
  ag_CapitalAllocated :: f64

record Trade =
  td_AgentID :: string
  td_EpochID :: string
  td_Chain :: string
  td_TradeType :: string
  td_TokenPair :: string
  td_DEX :: string
  td_AmountIn :: f64
  td_AmountOut :: f64
  td_FeePaid :: f64
  td_PnL :: f64
  td_TxSignature :: string
  td_IsPaperTrade :: bool
  td_BanditPolicyUsed :: string
  td_Metadata :: string

record StrategistDecision =
  sdn_AgentID :: string
  sdn_InputSummary :: string
  sdn_OutputRaw :: string
  sdn_ConfigChanges :: string
  sdn_Reasoning :: string
  sdn_IntelBroadcasts :: string
  sdn_OffspringProposalSubmitted :: bool
  sdn_NewLearnedRule :: string
  sdn_ModelUsed :: string
  sdn_InputTokens :: int
  sdn_OutputTokens :: int
  sdn_CostUSD :: f64

section \<open>Statements\<close>

definition defaultJSON :: "string \<Rightarrow> string \<Rightarrow> string" where
  "defaultJSON raw fallback = (if raw = [] then fallback else raw)"

definition nullableText :: "string \<Rightarrow> string option" where
  "nullableText s = (if s = [] then None else Some s)"

definition valid_status :: "string \<Rightarrow> bool" where
  "valid_status st \<longleftrightarrow> st \<in> {''active'', ''paused'', ''dead''}"

definition valid_class :: "string \<Rightarrow> bool" where
  "valid_class cls \<longleftrightarrow> cls \<in> {''funded'', ''shadow'', ''paused'', ''dead''}"

definition valid_chain :: "string \<Rightarrow> bool" where
  "valid_chain chain \<longleftrightarrow> chain \<in> {''solana'', ''base''}"

text \<open>The constraints of table \<^verbatim>\<open>agents\<close> (\<^verbatim>\<open>0001_init.up.sql\<close>).\<close>

definition agents_accept :: "agent_row \<Rightarrow> agent_row list \<Rightarrow> bool" where
  "agents_accept r rows \<longleftrightarrow>
     valid_class (ar_node_class r) \<and> valid_chain (ar_chain r) \<and>
     ar_task_type r \<in> {''cross_chain_yield'', ''liquidity_provision'', ''liquidation_hunting'', ''momentum''} \<and>
     ar_id r \<notin> set (map ar_id rows) \<and> ar_wallet_address r \<notin> set (map ar_wallet_address rows)"

text \<open>The row an insert creates: the columns it names, and the defaults of the others.\<close>

definition inserted_row :: "postgres \<Rightarrow> string \<Rightarrow> Agent \<Rightarrow> agent_row" where
  "inserted_row pg uuid a =
     \<lparr>ar_id = uuid, ar_name = ag_Name a, ar_status = ''active'',
      ar_node_class = (if ag_NodeClass a = [] then ''funded'' else ag_NodeClass a),
      ar_chain = (if ag_Chain a = [] then ''solana'' else ag_Chain a), ar_task_type = ag_TaskType a,
      ar_current_balance = Some (Fin 0), ar_consecutive_negative_epochs = Some 0, ar_unpaid_operating_debt = Some (Fin 0),
      ar_last_heartbeat_at = None, ar_total_pnl = Some (Fin 0), ar_peak_balance = Some (Fin 0),
      ar_strategist_prompt = ag_StrategistPrompt a,
      ar_strategist_model = (if ag_StrategistModel a = [] then ''claude-haiku-4-5-20251001'' else ag_StrategistModel a),
      ar_strategist_interval = Some (if ag_StrategistIntervalSeconds a \<le> 0 then 14400 else ag_StrategistIntervalSeconds a),
      ar_generation = ag_Generation a, ar_lineage_depth = ag_LineageDepth a, ar_capital_allocated = Some (pg_numeric pg (ag_CapitalAllocated a)),
      ar_total_trades = Some 0, ar_strategy_config = defaultJSON (ag_StrategyConfig a) ''{}'', ar_bandit_state = Some ''{}'',
      ar_wallet_address = ag_WalletAddress a, ar_wallet_key_encrypted = ag_WalletKeyEncrypted a,
      ar_bandit_policies = defaultJSON (ag_BanditPolicies a) (CHR ''['' # CHR 0x22 # ''default'' @ [CHR 0x22, CHR '']'']),
      ar_learned_rules = defaultJSON (ag_LearnedRules a) ''[]'', ar_sleep_schedule = defaultJSON (ag_SleepSchedule a) ''{}'',
      ar_reproduction_policy = defaultJSON (ag_ReproductionPolicy a) ''{}'', ar_cost_policy = defaultJSON (ag_CostPolicy a) ''{}'',
      ar_communication_policy = defaultJSON (ag_CommunicationPolicy a) ''{}'', ar_kill_reason = None, ar_killed_at = None\<rparr>"

definition InsertAgent :: "postgres \<Rightarrow> string \<Rightarrow> Agent \<Rightarrow> db \<Rightarrow> db \<times> string result" where
  "InsertAgent pg uuid a d =
     (case first_error
        [(ag_Name a = [], ''db: agent name required''), (ag_WalletAddress a = [], ''db: agent wallet_address required''),
         (ag_WalletKeyEncrypted a = [], ''db: agent wallet_key_encrypted required''), (ag_TaskType a = [], ''db: agent task_type required'')] of
        Inl e \<Rightarrow> (d, Inl e)
      | Inr _ \<Rightarrow>
          let msg = ''db: insert agent '' @ ag_Name a; r = inserted_row pg uuid a in
          (case pg_fault pg ''insert agent'' of
             Some e \<Rightarrow> (d, Inl (Wrap msg e))
           | None \<Rightarrow> if agents_accept r (t_agents d) then (d\<lparr>t_agents := t_agents d @ [r]\<rparr>, Ok uuid)
                     else (d, Inl (Wrap msg (Err ''constraint violation'')))))"

text \<open>A name is not unique; without an order the database returns some row, here the first.\<close>

definition GetAgentByName :: "postgres \<Rightarrow> string \<Rightarrow> db \<Rightarrow> agent_row option result" where
  "GetAgentByName pg name d =
     (case pg_fault pg ''get agent'' of
        Some e \<Rightarrow> Inl (Wrap (''db: get agent '' @ name) e)
      | None \<Rightarrow> Ok (find (\<lambda>r. ar_name r = name) (t_agents d)))"

definition TreasuryInitialized :: "postgres \<Rightarrow> db \<Rightarrow> bool result" where
  "TreasuryInitialized pg d =
     (case pg_fault pg ''treasury check'' of
        Some e \<Rightarrow> Inl (Wrap ''db: treasury check'' e)
      | None \<Rightarrow> Ok (2 \<le> length (filter (\<lambda>r. ar_name r \<in> {''root_treasury_solana'', ''root_treasury_base''}) (t_agents d))))"

definition agent_of_row :: "agent_row \<Rightarrow> Agent" where
  "agent_of_row r =
     \<lparr>ag_ID = ar_id r, ag_Name = ar_name r, ag_Chain = ar_chain r, ag_WalletAddress = ar_wallet_address r,
      ag_WalletKeyEncrypted = ar_wallet_key_encrypted r, ag_TaskType = ar_task_type r, ag_StrategyConfig = ar_strategy_config r,
      ag_StrategistPrompt = ar_strategist_prompt r, ag_StrategistModel = ar_strategist_model r,
      ag_StrategistIntervalSeconds = coalesce (ar_strategist_interval r) 0, ag_BanditPolicies = ar_bandit_policies r,
      ag_LearnedRules = ar_learned_rules r, ag_SleepSchedule = ar_sleep_schedule r, ag_ReproductionPolicy = ar_reproduction_policy r,
      ag_CostPolicy = ar_cost_policy r, ag_CommunicationPolicy = ar_communication_policy r, ag_NodeClass = ar_node_class r,
      ag_Generation = ar_generation r, ag_LineageDepth = ar_lineage_depth r, ag_CapitalAllocated = coalesce (ar_capital_allocated r) (Fin 0)\<rparr>"

definition ListActiveAgents :: "postgres \<Rightarrow> db \<Rightarrow> Agent list result" where
  "ListActiveAgents pg d =
     (case pg_fault pg ''list active'' of
        Some e \<Rightarrow> Inl (Wrap ''db: list active agents'' e)
      | None \<Rightarrow> (case pg_fault pg ''scan active'' of
          Some e \<Rightarrow> Inl (Wrap ''db: scan active agent'' e)
        | None \<Rightarrow> Ok (map agent_of_row (filter (\<lambda>r. ar_status r = ''active'') (t_agents d)))))"

definition LogTrade :: "postgres \<Rightarrow> Trade \<Rightarrow> db \<Rightarrow> db \<times> unit result" where
  "LogTrade pg t d =
     (if td_AgentID t = [] then (d, Fail ''db: LogTrade requires agent_id'')
      else exec pg ''insert trade'' ''db: log trade'' d
        (d\<lparr>t_trades := t_trades d @ [\<lparr>tr_agent = td_AgentID t, tr_epoch = nullableText (td_EpochID t), tr_chain = td_Chain t, tr_type = td_TradeType t,
           tr_token_pair = td_TokenPair t, tr_dex = td_DEX t, tr_amount_in = pg_numeric pg (td_AmountIn t), tr_amount_out = pg_numeric pg (td_AmountOut t),
           tr_fee_paid = pg_numeric pg (td_FeePaid t), tr_pnl = pg_numeric pg (td_PnL t), tr_tx_signature = nullableText (td_TxSignature t),
           tr_is_paper = td_IsPaperTrade t, tr_bandit_policy = nullableText (td_BanditPolicyUsed t), tr_metadata = defaultJSON (td_Metadata t) ''null''\<rparr>]\<rparr>))"

definition LogStrategistDecision :: "postgres \<Rightarrow> StrategistDecision \<Rightarrow> db \<Rightarrow> db \<times> unit result" where
  "LogStrategistDecision pg s d =
     (if sdn_AgentID s = [] then (d, Fail ''db: LogStrategistDecision requires agent_id'')
      else if sdn_ModelUsed s = [] then (d, Fail ''db: LogStrategistDecision requires model_used'')
      else exec pg ''insert decision'' ''db: log strategist decision'' d
        (d\<lparr>t_decisions := t_decisions d @ [\<lparr>dr_agent = sdn_AgentID s, dr_input_summary = defaultJSON (sdn_InputSummary s) ''{}'', dr_output_raw = sdn_OutputRaw s,
           dr_config_changes = nullableText (sdn_ConfigChanges s), dr_reasoning = nullableText (sdn_Reasoning s),
           dr_intel_broadcasts = nullableText (sdn_IntelBroadcasts s), dr_offspring_submitted = sdn_OffspringProposalSubmitted s,
           dr_new_learned_rule = nullableText (sdn_NewLearnedRule s), dr_model_used = sdn_ModelUsed s, dr_input_tokens = sdn_InputTokens s,
           dr_output_tokens = sdn_OutputTokens s, dr_cost_usd = pg_numeric pg (sdn_CostUSD s)\<rparr>]\<rparr>))"

definition update_agent :: "string \<Rightarrow> (agent_row \<Rightarrow> agent_row) \<Rightarrow> db \<Rightarrow> db" where
  "update_agent agentID f d = d\<lparr>t_agents := map (\<lambda>r. if ar_id r = agentID then f r else r) (t_agents d)\<rparr>"

definition UpdateHeartbeat :: "postgres \<Rightarrow> time \<Rightarrow> string \<Rightarrow> db \<Rightarrow> db \<times> unit result" where
  "UpdateHeartbeat pg now agentID d =
     (if agentID = [] then (d, Fail ''db: UpdateHeartbeat requires agent_id'')
      else exec pg ''heartbeat'' ''db: update heartbeat'' d (update_agent agentID (\<lambda>r. r\<lparr>ar_last_heartbeat_at := Some now\<rparr>) d))"

definition SetAgentStatus :: "postgres \<Rightarrow> time \<Rightarrow> string \<Rightarrow> string \<Rightarrow> string \<Rightarrow> db \<Rightarrow> db \<times> unit result" where
  "SetAgentStatus pg now agentID status reason d =
     (if agentID = [] then (d, Fail ''db: SetAgentStatus requires agent_id'')
      else if \<not> valid_status status then (d, Fail (''db: SetAgentStatus invalid status '' @ status))
      else exec pg ''set status'' ''db: set agent status'' d
        (update_agent agentID (\<lambda>r. r\<lparr>ar_status := status,
            ar_kill_reason := (case nullableText reason of Some k \<Rightarrow> Some k | None \<Rightarrow> ar_kill_reason r),
            ar_killed_at := (if status = ''dead'' then Some now else ar_killed_at r)\<rparr>) d))"

definition SetAgentNodeClass :: "postgres \<Rightarrow> string \<Rightarrow> string \<Rightarrow> db \<Rightarrow> db \<times> unit result" where
  "SetAgentNodeClass pg agentID cls d =
     (if agentID = [] then (d, Fail ''db: SetAgentNodeClass requires agent_id'')
      else if \<not> valid_class cls then (d, Fail (''db: SetAgentNodeClass invalid class '' @ cls))
      else exec pg ''set class'' ''db: set node class'' d (update_agent agentID (\<lambda>r. r\<lparr>ar_node_class := cls\<rparr>) d))"

definition InsertPriceHistoryRow :: "postgres \<Rightarrow> string \<Rightarrow> string \<Rightarrow> f64 \<Rightarrow> f64 \<Rightarrow> time \<Rightarrow> db \<Rightarrow> db \<times> unit result" where
  "InsertPriceHistoryRow pg chain tokenPair price volume24h recordedAt d =
     (if chain = [] \<or> tokenPair = [] then (d, Fail ''db: InsertPriceHistoryRow requires chain + token_pair'')
      else exec pg ''insert price'' ''db: insert price history'' d
        (d\<lparr>t_prices := t_prices d @ [\<lparr>px_chain = chain, px_token_pair = tokenPair, px_price = pg_numeric pg price,
           px_volume_24h = (if flt (Fin 0) volume24h then Some (pg_numeric pg volume24h) else None), px_recorded_at = recordedAt\<rparr>]\<rparr>))"

text \<open>\<^verbatim>\<open>ensureTreasury\<close>; the new wallet (address and encrypted key) is an argument.\<close>

definition treasury_agent :: "string \<Rightarrow> string \<Rightarrow> string \<times> string \<Rightarrow> Agent" where
  "treasury_agent name chain wallet =
     \<lparr>ag_ID = [], ag_Name = name, ag_Chain = chain, ag_WalletAddress = fst wallet, ag_WalletKeyEncrypted = snd wallet,
      ag_TaskType = ''cross_chain_yield'', ag_StrategyConfig = [], ag_StrategistPrompt = ''root treasury - not a strategist'',
      ag_StrategistModel = ''claude-haiku-4-5-20251001'', ag_StrategistIntervalSeconds = 14400, ag_BanditPolicies = [], ag_LearnedRules = [],
      ag_SleepSchedule = [], ag_ReproductionPolicy = [], ag_CostPolicy = [], ag_CommunicationPolicy = [], ag_NodeClass = ''funded'',
      ag_Generation = 0, ag_LineageDepth = 0, ag_CapitalAllocated = Fin 0\<rparr>"

definition ensureTreasury :: "postgres \<Rightarrow> string \<Rightarrow> (string \<times> string) result \<Rightarrow> string \<Rightarrow> string \<Rightarrow> db \<Rightarrow> db \<times> (string \<times> bool) result" where
  "ensureTreasury pg uuid newWallet name chain d =
     (case GetAgentByName pg name d of
        Inl e \<Rightarrow> (d, Inl (Wrap (''check '' @ name) e))
      | Inr (Some r) \<Rightarrow> (d, Ok (ar_wallet_address r, False))
      | Inr None \<Rightarrow> (case newWallet of
          Inl e \<Rightarrow> (d, Inl e)
        | Inr w \<Rightarrow> (case InsertAgent pg uuid (treasury_agent name chain w) d of
            (d', Inl e) \<Rightarrow> (d', Inl (Wrap (''insert '' @ name) e))
          | (d', Inr _) \<Rightarrow> (d', Ok (fst w, True)))))"

definition row_ok :: "agent_row \<Rightarrow> bool" where
  "row_ok r \<longleftrightarrow> valid_status (ar_status r) \<and> valid_class (ar_node_class r) \<and> valid_chain (ar_chain r)"

definition agents_ok :: "db \<Rightarrow> bool" where
  "agents_ok d \<longleftrightarrow> distinct (map ar_id (t_agents d)) \<and> distinct (map ar_wallet_address (t_agents d)) \<and> (\<forall>r \<in> set (t_agents d). row_ok r)"

section \<open>Lemmas\<close>

lemma exec_fst: "fst (exec pg stmt msg d d') = (case pg_fault pg stmt of None \<Rightarrow> d' | Some _ \<Rightarrow> d)"
  by (simp add: exec_def split: option.split)

text \<open>What every write to the agents does to the table: nothing, one row changed in place, or a row added.\<close>

lemma update_agent_ids:
  assumes "\<And>r. ar_id (f r) = ar_id r" "\<And>r. ar_wallet_address (f r) = ar_wallet_address r"
  shows "map ar_id (t_agents (update_agent i f d)) = map ar_id (t_agents d)"
    "map ar_wallet_address (t_agents (update_agent i f d)) = map ar_wallet_address (t_agents d)"
  using assms by (auto simp: update_agent_def)

lemma agents_ok_update:
  assumes "agents_ok d" "\<And>r. ar_id (f r) = ar_id r" "\<And>r. ar_wallet_address (f r) = ar_wallet_address r" "\<And>r. row_ok r \<Longrightarrow> row_ok (f r)"
  shows "agents_ok (update_agent i f d)"
proof -
  have "\<forall>r \<in> set (t_agents (update_agent i f d)). row_ok r"
    using assms(1,4) by (auto simp: agents_ok_def update_agent_def)
  then show ?thesis using assms(1) update_agent_ids [of f, OF assms(2,3)] by (simp add: agents_ok_def)
qed

lemma exec_keeps: "P d \<Longrightarrow> P d' \<Longrightarrow> P (fst (exec pg stmt msg d d'))"
  by (simp add: exec_fst split: option.split)


lemma InsertAgent_OkD:
  assumes "InsertAgent pg uuid a d = (d', Ok i)"
  shows "i = uuid" "d' = d\<lparr>t_agents := t_agents d @ [inserted_row pg uuid a]\<rparr>" "agents_accept (inserted_row pg uuid a) (t_agents d)"
    "ag_Name a \<noteq> []" "ag_WalletAddress a \<noteq> []" "ag_WalletKeyEncrypted a \<noteq> []" "ag_TaskType a \<noteq> []"
  using assms by (auto simp: InsertAgent_def Let_def split: sum.splits option.splits if_splits)

lemma InsertAgent_cases:
  "fst (InsertAgent pg uuid a d) = d \<or> (\<exists>i. InsertAgent pg uuid a d = (fst (InsertAgent pg uuid a d), Ok i))"
  by (auto simp: InsertAgent_def Let_def split: sum.splits option.splits)

lemma inserted_row_simps [simp]:
  "ar_id (inserted_row pg u a) = u" "ar_name (inserted_row pg u a) = ag_Name a" "ar_status (inserted_row pg u a) = ''active''"
  "ar_wallet_address (inserted_row pg u a) = ag_WalletAddress a" "ar_current_balance (inserted_row pg u a) = Some (Fin 0)"
  by (simp_all add: inserted_row_def)

lemma agents_ok_append:
  assumes "agents_ok d" "agents_accept r (t_agents d)" "valid_status (ar_status r)"
  shows "agents_ok (d\<lparr>t_agents := t_agents d @ [r]\<rparr>)"
  using assms by (auto simp: agents_ok_def agents_accept_def row_ok_def)

lemma valid_names [simp]: "valid_status ''active''" "valid_status ''paused''" "valid_status ''dead''" "valid_class ''funded''" "valid_class ''shadow''"
  by (simp_all add: valid_status_def valid_class_def)

text \<open>One write to the table of agents.\<close>

inductive agent_write :: "db \<Rightarrow> db \<Rightarrow> bool" where
  aw_insert: "agent_write d (fst (InsertAgent pg uuid a d))"
| aw_status: "agent_write d (fst (SetAgentStatus pg now i st reason d))"
| aw_class: "agent_write d (fst (SetAgentNodeClass pg i cls d))"
| aw_heartbeat: "agent_write d (fst (UpdateHeartbeat pg now i d))"

inductive_cases agent_writeE: "agent_write d d'"

lemma agent_write_ok:
  assumes "agent_write d d'" "agents_ok d" shows "agents_ok d'"
  using assms(1)
proof cases
  case (aw_insert pg uuid a)
  show ?thesis using InsertAgent_cases [of pg uuid a d]
  proof
    assume "\<exists>i. InsertAgent pg uuid a d = (fst (InsertAgent pg uuid a d), Ok i)"
    then obtain i where "InsertAgent pg uuid a d = (d', Ok i)" using aw_insert by auto
    from InsertAgent_OkD [OF this] show ?thesis using agents_ok_append [OF assms(2), of "inserted_row pg uuid a"] by simp
  qed (use assms(2) aw_insert in simp)
next
  case (aw_status pg now i st reason)
  then show ?thesis using assms(2)
    by (auto simp: SetAgentStatus_def row_ok_def intro!: exec_keeps [where P = agents_ok] agents_ok_update)
next
  case (aw_class pg i cls)
  then show ?thesis using assms(2)
    by (auto simp: SetAgentNodeClass_def row_ok_def intro!: exec_keeps [where P = agents_ok] agents_ok_update)
next
  case (aw_heartbeat pg now i)
  then show ?thesis using assms(2)
    by (auto simp: UpdateHeartbeat_def row_ok_def intro!: exec_keeps [where P = agents_ok] agents_ok_update)
qed

section \<open>Properties\<close>

text \<open>
  C13: whatever sequence of inserts, status changes, class changes and heartbeats runs on the table of
  agents, and whichever of them fail, ids and wallet addresses stay unique and every row has a legal
  status, class and chain.
\<close>

theorem agents_table_invariant:
  assumes "agent_write\<^sup>*\<^sup>* d d'" "agents_ok d"
  shows "agents_ok d'"
  using assms by (induction rule: rtranclp_induct) (blast intro: agent_write_ok)+

theorem agents_table_invariant_witness:
  "agents_ok (fst (SetAgentStatus pg_ok 0 ''a'' ''dead'' ''balance'' (fst (UpdateHeartbeat pg_ok 0 ''a'' sample_db))))"
proof (rule agents_table_invariant)
  let ?d = "fst (UpdateHeartbeat pg_ok 0 ''a'' sample_db)"
  have "agent_write sample_db ?d" by (rule aw_heartbeat)
  moreover have "agent_write ?d (fst (SetAgentStatus pg_ok 0 ''a'' ''dead'' ''balance'' ?d))" by (rule aw_status)
  ultimately show "agent_write\<^sup>*\<^sup>* sample_db (fst (SetAgentStatus pg_ok 0 ''a'' ''dead'' ''balance'' ?d))" by (rule converse_rtranclp_into_rtranclp [OF _ r_into_rtranclp])
  show "agents_ok sample_db" by (simp add: agents_ok_def row_ok_def sample_db_def sample_row_def valid_status_def valid_class_def valid_chain_def)
qed

text \<open>
  An inserted agent is the last one the runtime lists, as it was given but for the defaults of
  empty fields and the precision of its capital, and the agents listed before are unchanged.
\<close>

lemma insert_then_list:
  assumes "InsertAgent pg uuid a d = (d', Ok i)" "ListActiveAgents pg d' = Ok as'"
  shows "\<exists>as. ListActiveAgents pg d = Ok as \<and> as' = as @ [agent_of_row (inserted_row pg i a)] \<and>
    ag_ID (last as') = uuid \<and> ag_WalletAddress (last as') = ag_WalletAddress a \<and> ag_NodeClass (last as') \<noteq> [] \<and>
    0 < ag_StrategistIntervalSeconds (last as') \<and> (ag_NodeClass a \<noteq> [] \<longrightarrow> ag_NodeClass (last as') = ag_NodeClass a)"
proof -
  note D = InsertAgent_OkD [OF assms(1)]
  have f: "pg_fault pg ''list active'' = None" "pg_fault pg ''scan active'' = None" "as' = map agent_of_row (filter (\<lambda>r. ar_status r = ''active'') (t_agents d'))"
    using assms(2) by (auto simp: ListActiveAgents_def split: option.splits)
  then have "as' = map agent_of_row (filter (\<lambda>r. ar_status r = ''active'') (t_agents d)) @ [agent_of_row (inserted_row pg i a)]"
    using D(1,2) by simp
  moreover have "ListActiveAgents pg d = Ok (map agent_of_row (filter (\<lambda>r. ar_status r = ''active'') (t_agents d)))"
    using f by (simp add: ListActiveAgents_def)
  ultimately show ?thesis using D(1) by (auto simp: agent_of_row_def inserted_row_def coalesce_def)
qed

lemma fresh_row_wanted:
  assumes "ar_current_balance r = Some (Fin 0)" "ar_status r \<noteq> ''dead''"
  shows "wanted now (applyDefaults DefaultLifecyclePolicyConfig) tight (snapshot_of_row r) = Some ActionKill"
  using assms by (simp add: wanted_def killReason_def snapshot_of_row_def Let_def coalesce_def applyDefaults_def DefaultLifecyclePolicyConfig_def f64_or_def)

text \<open>
  Every agent the code inserts, the two treasuries of the bootstrap included, is killed by the
  first epoch that loads it: its balance column is created as zero, no statement of the program ever
  writes that column, and the policy kills below one dollar.
\<close>

theorem inserted_agents_are_killed:
  assumes "InsertAgent pg uuid a d = (d', Ok i)" "agents_ok d" "LoadEpochState pg now d' eid = Ok st"
  shows "\<exists>act \<in> set (DeterministicLifecyclePolicy t DefaultLifecyclePolicyConfig (e_Snapshots st) (e_BudgetTight st)).
    la_AgentID act = i \<and> la_Kind act = ActionKill"
proof -
  note D = InsertAgent_OkD [OF assms(1)]
  let ?r = "inserted_row pg uuid a"
  have live: "?r \<in> set (live_agents d')" using D(2) by (simp add: live_agents_def)
  have "agents_ok d'" using agents_ok_append [OF assms(2) D(3)] D(2) by simp
  then have dist: "distinct (map ar_id (t_agents d'))" unfolding agents_ok_def by blast
  have s: "snapshot_of_row ?r \<in> set (e_Snapshots st)" "distinct (map s_AgentID (e_Snapshots st))"
    using assms(3) live dist by (simp_all add: LoadEpochState_OkD distinct_snapshots del: map_map)
  have "wanted t (applyDefaults DefaultLifecyclePolicyConfig) (e_BudgetTight st) (snapshot_of_row ?r) = Some ActionKill"
    by (rule fresh_row_wanted) simp_all
  then show ?thesis using policy_action_iff [OF s(2,1), of t DefaultLifecyclePolicyConfig "e_BudgetTight st" ActionKill] D(1)
    by (simp add: snapshot_of_row_def Let_def)
qed

theorem inserted_agents_are_killed_witness:
  "\<exists>d' st. InsertAgent pg_ok ''u'' (treasury_agent ''root_treasury_base'' ''base'' (''0xb'', ''k'')) sample_db = (d', Ok ''u'') \<and>
     LoadEpochState pg_ok 0 d' ''e'' = Ok st \<and>
     (\<exists>act \<in> set (DeterministicLifecyclePolicy 0 DefaultLifecyclePolicyConfig (e_Snapshots st) (e_BudgetTight st)). la_AgentID act = ''u'' \<and> la_Kind act = ActionKill)"
proof -
  let ?a = "treasury_agent ''root_treasury_base'' ''base'' (''0xb'', ''k'')"
  have acc: "agents_accept (inserted_row pg_ok ''u'' ?a) (t_agents sample_db)"
    by (simp add: agents_accept_def inserted_row_def treasury_agent_def sample_db_def sample_row_def valid_class_def valid_chain_def)
  obtain d' where i: "InsertAgent pg_ok ''u'' ?a sample_db = (d', Ok ''u'')"
    using acc by (simp add: InsertAgent_def treasury_agent_def pg_ok_def Let_def)
  have ok: "agents_ok sample_db" by (simp add: agents_ok_def row_ok_def sample_db_def sample_row_def valid_status_def valid_class_def valid_chain_def)
  obtain st where l: "LoadEpochState pg_ok 0 d' ''e'' = Ok st" by (simp add: LoadEpochState_def pg_ok_def)
  show ?thesis using inserted_agents_are_killed [OF i ok l, of 0] i l by blast
qed

text \<open>
  The treasury bootstrap is idempotent: once it has succeeded for a name, running it again, with
  any wallet, returns the same address, creates nothing and changes nothing.
\<close>

lemma treasury_bootstrap_idempotent:
  assumes "ensureTreasury pg u w name c d = (d', Ok (addr, created))"
  shows "ensureTreasury pg u' w' name c' d' = (d', Ok (addr, False)) \<and> (created = (\<forall>r \<in> set (t_agents d). ar_name r \<noteq> name))"
proof -
  have f: "pg_fault pg ''get agent'' = None" using assms by (auto simp: ensureTreasury_def GetAgentByName_def split: option.splits)
  show ?thesis
  proof (cases "find (\<lambda>r. ar_name r = name) (t_agents d)")
    case None
    obtain wa where w: "w = Ok wa" "InsertAgent pg u (treasury_agent name c wa) d = (d', Ok u)" "addr = fst wa" "created"
      using assms None f InsertAgent_OkD(1)
      by (auto simp: ensureTreasury_def GetAgentByName_def split: sum.splits prod.splits)
    then have "find (\<lambda>r. ar_name r = name) (t_agents d') = Some (inserted_row pg u (treasury_agent name c wa))"
      using None InsertAgent_OkD(2) [OF w(2)] by (auto simp: find_None_iff find_Some_iff nth_append treasury_agent_def)
    then show ?thesis using None f w by (auto simp: ensureTreasury_def GetAgentByName_def treasury_agent_def find_None_iff)
  next
    case (Some r)
    then have "d' = d" "addr = ar_wallet_address r" "\<not> created" using assms f by (auto simp: ensureTreasury_def GetAgentByName_def)
    moreover have "\<exists>r \<in> set (t_agents d). ar_name r = name" using Some by (auto simp: find_Some_iff)
    ultimately show ?thesis using Some f by (auto simp: ensureTreasury_def GetAgentByName_def)
  qed
qed

end
