(* ===== verification/Bandit.thy ===== *)
theory Bandit
  imports Rng "HOL-Library.AList" "HOL-Library.Char_ord" "HOL-Library.List_Lexorder" "HOL-Library.Monad_Syntax"
begin

text \<open>
  \<^verbatim>\<open>internal/agent/bandit.go\<close>: the Thompson-sampling bandit over the micro-policies of an agent.
  A Go map is an association list; the code only iterates over sorted keys.  The
  transcendental functions of package \<^verbatim>\<open>math\<close> and the normal draws of \<^verbatim>\<open>math/rand/v2\<close> are a
  parameter; the rejection loop of the gamma sampler takes fuel, and running out of it is \<open>None\<close>.
\<close>

section \<open>Model\<close>

type_synonym weights = "(string \<times> f64) list"

record TickBandit =
  Alphas :: weights
  Betas :: weights

record 'r sampler =
  sm_rng :: "'r rng"
  sm_norm :: "'r \<Rightarrow> f64 \<times> 'r"
  sm_sqrt :: "f64 \<Rightarrow> f64"
  sm_log :: "f64 \<Rightarrow> f64"
  sm_pow :: "f64 \<Rightarrow> f64 \<Rightarrow> f64"

definition keys_of :: "weights \<Rightarrow> string set" where "keys_of w = set (map fst w)"

definition weight :: "weights \<Rightarrow> string \<Rightarrow> f64" where
  "weight w p = (case map_of w p of Some x \<Rightarrow> x | None \<Rightarrow> Fin 0)"

definition NewTickBandit :: "string list \<Rightarrow> TickBandit" where
  "NewTickBandit policies =
     \<lparr>Alphas = fold (\<lambda>p w. AList.update p (Fin 1) w) policies [], Betas = fold (\<lambda>p w. AList.update p (Fin 1) w) policies []\<rparr>"

definition sortedPolicies :: "TickBandit \<Rightarrow> string list" where
  "sortedPolicies b = sort (map fst (Alphas b))"

definition third :: f64 where "third = fdiv (Fin 1) (Fin 3)"
definition squeeze :: f64 where "squeeze = rnd (331 / 10000)"

text \<open>The rejection loop of \<^verbatim>\<open>gammaSample\<close> for a shape of at least one.\<close>

fun gamma_loop :: "'r sampler \<Rightarrow> nat \<Rightarrow> f64 \<Rightarrow> f64 \<Rightarrow> 'r \<Rightarrow> (f64 \<times> 'r) option" where
  "gamma_loop M 0 d c s = None"
| "gamma_loop M (Suc n) d c s =
     (let (x, s1) = sm_norm M s;
          v = fadd (Fin 1) (fmul c x)
      in if fle v (Fin 0) then gamma_loop M n d c s1
         else let v3 = fmul (fmul v v) v;
                  (u, s2) = rng_float (sm_rng M) s1
              in if flt u (fsub (Fin 1) (fmul (fmul (fmul (fmul squeeze x) x) x) x)) then Some (fmul d v3, s2)
                 else if flt (sm_log M u) (fadd (fmul (fmul (Fin (1 / 2)) x) x) (fmul d (fadd (fsub (Fin 1) v3) (sm_log M v3)))) then Some (fmul d v3, s2)
                 else gamma_loop M n d c s2)"

definition gamma_ge1 :: "'r sampler \<Rightarrow> nat \<Rightarrow> f64 \<Rightarrow> 'r \<Rightarrow> (f64 \<times> 'r) option" where
  "gamma_ge1 M n shape s =
     (let d = fsub shape third; c = fdiv (Fin 1) (sm_sqrt M (fmul (Fin 9) d)) in gamma_loop M n d c s)"

text \<open>A positive shape below one is boosted once: adding one makes it at least one.\<close>

definition gammaSample :: "'r sampler \<Rightarrow> nat \<Rightarrow> f64 \<Rightarrow> 'r \<Rightarrow> (f64 \<times> 'r) option" where
  "gammaSample M n shape s =
     (if flt shape (Fin 1) then
        do { (y, s1) \<leftarrow> gamma_ge1 M n (fadd shape (Fin 1)) s;
             let (u, s2) = rng_float (sm_rng M) s1;
             Some (fmul y (sm_pow M u (fdiv (Fin 1) shape)), s2) }
      else gamma_ge1 M n shape s)"

definition betaSample :: "'r sampler \<Rightarrow> nat \<Rightarrow> f64 \<Rightarrow> f64 \<Rightarrow> 'r \<Rightarrow> (f64 \<times> 'r) option" where
  "betaSample M n alpha beta s =
     (if fle alpha (Fin 0) \<or> fle beta (Fin 0) then Some (Fin (1 / 2), s)
      else do { (ga, s1) \<leftarrow> gammaSample M n alpha s;
                (gb, s2) \<leftarrow> gammaSample M n beta s1;
                Some (if feq (fadd ga gb) (Fin 0) then Fin (1 / 2) else fdiv ga (fadd ga gb), s2) })"

definition neg_max :: f64 where "neg_max = Fin (- ((2 ^ 53 - 1) * 2 ^ 971))"

fun select_loop :: "'r sampler \<Rightarrow> nat \<Rightarrow> TickBandit \<Rightarrow> string list \<Rightarrow> string \<Rightarrow> f64 \<Rightarrow> 'r \<Rightarrow> (string \<times> 'r) option" where
  "select_loop M n b [] best bestSample s = Some (best, s)"
| "select_loop M n b (p # ps) best bestSample s =
     do { (x, s1) \<leftarrow> betaSample M n (weight (Alphas b) p) (weight (Betas b) p) s;
          if flt bestSample x then select_loop M n b ps p x s1 else select_loop M n b ps best bestSample s1 }"

definition Select :: "'r sampler \<Rightarrow> nat \<Rightarrow> TickBandit \<Rightarrow> 'r \<Rightarrow> (string \<times> 'r) option" where
  "Select M n b s = (if Alphas b = [] then Some ([], s) else select_loop M n b (sortedPolicies b) [] neg_max s)"

definition Update :: "string \<Rightarrow> f64 \<Rightarrow> TickBandit \<Rightarrow> TickBandit \<times> unit result" where
  "Update policy reward b =
     (if policy \<notin> keys_of (Alphas b) then (b, Fail (''bandit: unknown policy '' @ policy))
      else if flt (Fin 0) reward then (b\<lparr>Alphas := AList.update policy (fadd (weight (Alphas b) policy) (Fin 1)) (Alphas b)\<rparr>, Ok ())
      else (b\<lparr>Betas := AList.update policy (fadd (weight (Betas b) policy) (Fin 1)) (Betas b)\<rparr>, Ok ()))"

definition AddPolicy :: "string \<Rightarrow> TickBandit \<Rightarrow> TickBandit" where
  "AddPolicy policy b =
     (if policy \<in> keys_of (Alphas b) then b
      else b\<lparr>Alphas := AList.update policy (Fin 1) (Alphas b), Betas := AList.update policy (Fin 1) (Betas b)\<rparr>)"

text \<open>
  The state blob is the struct \<^verbatim>\<open>banditState\<close> it encodes: marshalling fails on a float that is not
  finite, and a blob that does not decode is \<open>Inl\<close>.  JSON renders a float so that it reads back as
  the same float.
\<close>

type_synonym banditState = "weights \<times> weights"

definition SaveState :: "TickBandit \<Rightarrow> banditState result" where
  "SaveState b =
     (if list_all (is_fin \<circ> snd) (Alphas b) \<and> list_all (is_fin \<circ> snd) (Betas b) then Ok (Alphas b, Betas b)
      else Fail ''json: unsupported value'')"

definition LoadState :: "banditState result option \<Rightarrow> TickBandit \<Rightarrow> TickBandit \<times> unit result" where
  "LoadState blob b =
     (case blob of
        None \<Rightarrow> (b, Fail ''bandit: empty state'')
      | Some (Inl e) \<Rightarrow> (b, Inl (Wrap ''bandit: decode state'' e))
      | Some (Inr (as, bs)) \<Rightarrow>
          if length as \<noteq> length bs then (b, Fail ''bandit: alpha/beta size mismatch'')
          else (case find (\<lambda>k. k \<notin> keys_of bs) (map fst as) of
                  Some k \<Rightarrow> (b, Fail (''bandit: missing beta for '' @ k))
                | None \<Rightarrow> (b\<lparr>Alphas := as, Betas := bs\<rparr>, Ok ())))"

section \<open>Lemmas\<close>

lemma keys_update [simp]: "keys_of (AList.update k v w) = insert k (keys_of w)"
  by (simp add: keys_of_def dom_update)

lemma weight_update [simp]: "weight (AList.update k v w) p = (if p = k then v else weight w p)"
  by (simp add: weight_def update_conv')

lemma keys_of_map_of: "p \<in> keys_of w \<longleftrightarrow> map_of w p \<noteq> None"
  by (simp add: keys_of_def map_of_eq_None_iff)

lemma fresh_weights:
  "keys_of (fold (\<lambda>p w. AList.update p (Fin 1) w) ps w0) = set ps \<union> keys_of w0 \<and>
   (\<forall>p. weight (fold (\<lambda>p w. AList.update p (Fin 1) w) ps w0) p = (if p \<in> set ps then Fin 1 else weight w0 p))"
  by (induction ps arbitrary: w0) auto

lemma NewTickBandit_simps:
  "keys_of (Alphas (NewTickBandit ps)) = set ps" "keys_of (Betas (NewTickBandit ps)) = set ps"
  "p \<in> set ps \<Longrightarrow> weight (Alphas (NewTickBandit ps)) p = Fin 1" "p \<in> set ps \<Longrightarrow> weight (Betas (NewTickBandit ps)) p = Fin 1"
  using fresh_weights [of ps "[]"] by (simp_all add: NewTickBandit_def keys_of_def)

text \<open>Counting in floating point is exact below 2^53.\<close>

lemma count_up: "k < 2 ^ 53 \<Longrightarrow> 0 \<le> k \<Longrightarrow> fadd (Fin (of_int k)) (Fin 1) = Fin (of_int (k + 1))"
  using rnd_int [of "k + 1"] by (auto simp: fadd_def Let_def)

definition run_updates :: "(string \<times> f64) list \<Rightarrow> TickBandit \<Rightarrow> TickBandit" where
  "run_updates us b = fold (\<lambda>(p, r) b. fst (Update p r b)) us b"

definition wins :: "string \<Rightarrow> (string \<times> f64) list \<Rightarrow> nat" where
  "wins p us = length (filter (\<lambda>(q, r). q = p \<and> flt (Fin 0) r) us)"

definition losses :: "string \<Rightarrow> (string \<times> f64) list \<Rightarrow> nat" where
  "losses p us = length (filter (\<lambda>(q, r). q = p \<and> \<not> flt (Fin 0) r) us)"

lemma Update_keys [simp]:
  "keys_of (Alphas (fst (Update p r b))) = keys_of (Alphas b)"
  "keys_of (Alphas b) = keys_of (Betas b) \<Longrightarrow> keys_of (Betas (fst (Update p r b))) = keys_of (Alphas b)"
  by (auto simp: Update_def insert_absorb)

lemma run_updates_exact:
  assumes "p \<in> keys_of (Alphas b)" "weight (Alphas b) p = Fin (of_int i)" "weight (Betas b) p = Fin (of_int j)"
    "0 \<le> i" "0 \<le> j" "i + int (length us) < 2 ^ 53" "j + int (length us) < 2 ^ 53"
  shows "weight (Alphas (run_updates us b)) p = Fin (of_int (i + int (wins p us))) \<and>
    weight (Betas (run_updates us b)) p = Fin (of_int (j + int (losses p us))) \<and> keys_of (Alphas (run_updates us b)) = keys_of (Alphas b)"
  using assms
proof (induction us arbitrary: b i j)
  case Nil
  then show ?case by (simp add: run_updates_def wins_def losses_def)
next
  case (Cons u us)
  obtain q r where u: "u = (q, r)" by force
  let ?b = "fst (Update q r b)"
  let ?i = "if q = p \<and> flt (Fin 0) r then i + 1 else i" and ?j = "if q = p \<and> \<not> flt (Fin 0) r then j + 1 else j"
  have w: "weight (Alphas ?b) p = Fin (of_int ?i)" "weight (Betas ?b) p = Fin (of_int ?j)"
    using Cons.prems count_up [of i] count_up [of j] by (auto simp: Update_def)
  have "weight (Alphas (run_updates us ?b)) p = Fin (of_int (?i + int (wins p us))) \<and>
    weight (Betas (run_updates us ?b)) p = Fin (of_int (?j + int (losses p us))) \<and> keys_of (Alphas (run_updates us ?b)) = keys_of (Alphas ?b)"
    by (rule Cons.IH [OF _ w]) (use Cons.prems in auto)
  moreover have "run_updates (u # us) b = run_updates us ?b" by (simp add: run_updates_def u)
  moreover have "wins p (u # us) = wins p us + (if q = p \<and> flt (Fin 0) r then 1 else 0)"
    "losses p (u # us) = losses p us + (if q = p \<and> \<not> flt (Fin 0) r then 1 else 0)"
    by (simp_all add: wins_def losses_def u)
  ultimately show ?case by (auto simp: algebra_simps)
qed

text \<open>What is selected is one of the arms, or nothing if no sample beats the starting value.\<close>

lemma select_loop_mem: "select_loop M n b ps best x s = Some (p, s') \<Longrightarrow> p = best \<or> p \<in> set ps"
proof (induction ps arbitrary: best x s)
  case (Cons q ps)
  from Cons.prems obtain y s1 where "(if flt x y then select_loop M n b ps q y s1 else select_loop M n b ps best x s1) = Some (p, s')"
    by (auto simp: bind_eq_Some_conv)
  then show ?case using Cons.IH by (cases "flt x y") fastforce+
qed simp

lemma Select_mem: "Select M n b s = Some (p, s') \<Longrightarrow> p = [] \<or> p \<in> keys_of (Alphas b)"
  by (auto simp: Select_def sortedPolicies_def keys_of_def split: if_splits dest!: select_loop_mem)

text \<open>A saved state loads again, into any bandit.\<close>

lemma state_roundtrip:
  assumes "SaveState b = Ok blob" "keys_of (Alphas b) = keys_of (Betas b)" "length (Alphas b) = length (Betas b)"
  shows "LoadState (Some (Ok blob)) b' = (b'\<lparr>Alphas := Alphas b, Betas := Betas b\<rparr>, Ok ())"
proof -
  have "find (\<lambda>k. k \<notin> keys_of (Betas b)) (map fst (Alphas b)) = None"
    using assms(2) by (auto simp: find_None_iff keys_of_def)
  then show ?thesis using assms(1,3) by (auto simp: SaveState_def LoadState_def split: if_splits)
qed

section \<open>Properties\<close>

text \<open>
  After any sequence of fewer than 2^53 - 1 outcomes, in any order and with unknown policies among
  them, the posterior of each arm is exactly one plus its successes and one plus its failures, and
  the set of arms has not changed.
\<close>

theorem bandit_counts_outcomes:
  assumes "p \<in> set ps" "int (length us) < 2 ^ 53 - 1"
  shows "weight (Alphas (run_updates us (NewTickBandit ps))) p = Fin (of_int (1 + int (wins p us))) \<and>
    weight (Betas (run_updates us (NewTickBandit ps))) p = Fin (of_int (1 + int (losses p us))) \<and>
    keys_of (Alphas (run_updates us (NewTickBandit ps))) = set ps"
  using run_updates_exact [of p "NewTickBandit ps" 1 1 us] assms NewTickBandit_simps(1) [of ps]
    NewTickBandit_simps(3,4) [OF assms(1)] by simp

theorem bandit_counts_outcomes_witness:
  "weight (Alphas (run_updates [(''a'', Fin 2), (''b'', Fin 1), (''a'', Fin (- 1)), (''a'', Fin 3)] (NewTickBandit [''a'', ''b'']))) ''a'' = Fin 3"
  using bandit_counts_outcomes [of "''a''" "[''a'', ''b'']" "[(''a'', Fin 2), (''b'', Fin 1), (''a'', Fin (- 1)), (''a'', Fin 3)]"]
  by (simp add: wins_def flt_fin)

end
