(* ===== verification/Strategist.thy ===== *)
theory Strategist
  imports Queries Bandit
begin

text \<open>
  \<^verbatim>\<open>internal/agent/strategist.go\<close>: the slow loop of one agent.  The language model and the task are
  arguments; the task's state is threaded through.  Rendering JSON to text is an argument too
  (\<open>render\<close>), but whether it fails is not: \<^verbatim>\<open>json.Marshal\<close> rejects a float that is not finite.
\<close>

section \<open>Reading the answer\<close>

text \<open>A value of \<^verbatim>\<open>config_changes\<close> after \<^verbatim>\<open>normalizeNumbers\<close>: numbers at the top level are floats.\<close>

datatype adjustment = AdjFloat f64 | AdjJson json

record StrategistResponse =
  sp_Reasoning :: string
  sp_ConfigChanges :: "(string \<times> adjustment) list option"
  sp_ActionSignal :: string
  sp_OffspringProposal :: "json option"
  sp_IntelBroadcasts :: "json option"
  sp_NewLearnedRule :: "json option"

definition validActionSignals :: "string list" where
  "validActionSignals = [''continue'', ''pause'', ''aggressive'', ''defensive'']"

definition digits_value :: "string \<Rightarrow> int" where
  "digits_value ds = foldl (\<lambda>n c. n * 10 + (int (of_char c) - 48)) 0 ds"

text \<open>The value of a number literal of the JSON grammar.\<close>

definition decimal_value :: "string \<Rightarrow> rat" where
  "decimal_value s =
     (let neg = (s \<noteq> [] \<and> hd s = CHR ''-'');
          t = (if neg then tl s else s);
          ip = takeWhile is_digit t; r = dropWhile is_digit t;
          fp = (if r \<noteq> [] \<and> hd r = CHR ''.'' then takeWhile is_digit (tl r) else []);
          r2 = (if r \<noteq> [] \<and> hd r = CHR ''.'' then dropWhile is_digit (tl r) else r);
          ex = (if r2 = [] then 0
                else let q = tl r2 in
                     if q \<noteq> [] \<and> hd q = CHR ''-'' then - digits_value (tl q)
                     else if q \<noteq> [] \<and> hd q = CHR ''+'' then digits_value (tl q) else digits_value q);
          m = of_int (digits_value (ip @ fp)) * 10 powi (ex - int (length fp))
      in if neg then - m else m)"

text \<open>\<^verbatim>\<open>json.Number.Float64\<close>: correctly rounded, an error when the value is out of range.\<close>

definition number_float :: "string \<Rightarrow> f64 option" where
  "number_float s =
     (let v = decimal_value s in
      if v = 0 then Some (fzero (s \<noteq> [] \<and> hd s = CHR ''-''))
      else let x = rnd v in if is_fin x then Some x else None)"

fun normalize_value :: "json \<Rightarrow> adjustment" where
  "normalize_value (JsNum s) = (case number_float s of Some x \<Rightarrow> AdjFloat x | None \<Rightarrow> AdjJson (JsNum s))"
| "normalize_value v = AdjJson v"

definition normalizeNumbers :: "(string \<times> json) list \<Rightarrow> (string \<times> adjustment) list" where
  "normalizeNumbers m = map (\<lambda>(k, v). (k, normalize_value v)) m"

text \<open>
  A field of type \<^verbatim>\<open>map[string]interface{}\<close>: a null empties it, an object is merged into what is
  already there, anything else is an error.
\<close>

fun map_field :: "string \<Rightarrow> (string \<times> json) list \<Rightarrow> (string \<times> json) list option \<Rightarrow> (string \<times> json) list option option" where
  "map_field f [] cur = Some cur"
| "map_field f ((k, v) # ms) cur =
     (if key_matches f k then
        (case v of
           JsObj kvs \<Rightarrow> map_field f ms (Some (fold (\<lambda>(a, b). AList.update a b) kvs (case cur of Some m \<Rightarrow> m | None \<Rightarrow> [])))
         | JsNull \<Rightarrow> map_field f ms None
         | _ \<Rightarrow> None)
      else map_field f ms cur)"

definition parseStrategistResponse :: "string \<Rightarrow> StrategistResponse result" where
  "parseStrategistResponse s =
     (let body = extractJSONObject s in
      if body = [] then Fail ''no JSON object found in response''
      else case decode_object body of
          None \<Rightarrow> Fail ''invalid JSON''
        | Some ms \<Rightarrow>
            (case (string_field ''reasoning'' ms [], map_field ''config_changes'' ms None, string_field ''action_signal'' ms []) of
               (Some r, Some cc, Some a) \<Rightarrow>
                 Ok \<lparr>sp_Reasoning = r, sp_ConfigChanges = map_option normalizeNumbers cc, sp_ActionSignal = a,
                     sp_OffspringProposal = raw_field ''offspring_proposal'' ms None, sp_IntelBroadcasts = raw_field ''intel_broadcasts'' ms None,
                     sp_NewLearnedRule = raw_field ''new_learned_rule'' ms None\<rparr>
             | _ \<Rightarrow> Fail ''invalid JSON''))"

definition appendNote :: "string \<Rightarrow> string \<Rightarrow> string" where
  "appendNote prev note = (if prev = [] then note else prev @ '' | '' @ note)"

section \<open>One cycle\<close>

record StrategistInput =
  in_AgentName :: string
  in_TaskType :: string
  in_Chain :: string
  in_State :: "(string \<times> jval) list"
  in_Bandit :: "banditState option"
  in_LearnedRules :: "LearnedRule list"

record 't task =
  tk_GetStateSummary :: "'t \<Rightarrow> (string \<times> jval) list result"
  tk_ApplyAdjustments :: "(string \<times> adjustment) list \<Rightarrow> 't \<Rightarrow> 't \<times> unit result"

record render =
  rd_input :: "StrategistInput \<Rightarrow> string"
  rd_changes :: "(string \<times> adjustment) list \<Rightarrow> string"
  rd_raw :: "json \<Rightarrow> string"

record Strategist =
  st_AgentID :: string
  st_AgentName :: string
  st_Genome :: AgentGenome
  st_Bandit :: "TickBandit option"
  st_MaxOutputTokens :: int

type_synonym strategist_llm = "string \<Rightarrow> StrategistInput \<Rightarrow> int \<Rightarrow> LLMResponse result"

definition buildInput :: "'t task \<Rightarrow> Strategist \<Rightarrow> 't \<Rightarrow> StrategistInput result" where
  "buildInput T s t =
     bindr (wrapr ''task.GetStateSummary'' (tk_GetStateSummary T t)) (\<lambda>state.
       Ok \<lparr>in_AgentName = st_AgentName s, in_TaskType = g_TaskType (st_Genome s), in_Chain = g_Chain (st_Genome s), in_State = state,
           in_Bandit = (case st_Bandit s of None \<Rightarrow> None | Some b \<Rightarrow> (case SaveState b of Inr raw \<Rightarrow> Some raw | Inl _ \<Rightarrow> None)),
           in_LearnedRules = g_LearnedRules (st_Genome s)\<rparr>)"

definition input_floats :: "StrategistInput \<Rightarrow> f64 list" where
  "input_floats inp = concat (map (jval_floats \<circ> snd) (in_State inp)) @ map lr_Confidence (in_LearnedRules inp)"

definition prompt_lines :: "string list" where
  "prompt_lines =
    [''You are a strategist for a DeFi agent in an evolutionary swarm.'',
     [],
     ''You receive the agent'' @ [CHR 0x27] @ ''s current task state, bandit performance data,'',
     ''and learned rules. You return a JSON object with these fields:'',
     [],
     ''  - reasoning: brief diagnosis (1-3 sentences)'',
     ''  - config_changes: object of config keys to adjust (empty if no change)'',
     ''  - action_signal: one of '' @ [CHR 0x22] @ ''continue'' @ [CHR 0x22] @ '', '' @ [CHR 0x22] @ ''pause'' @ [CHR 0x22] @ '', '' @ [CHR 0x22] @ ''aggressive'' @ [CHR 0x22] @ '', '' @ [CHR 0x22] @ ''defensive'' @ [CHR 0x22],
     ''  - offspring_proposal: optional object'',
     ''  - intel_broadcasts: optional array'',
     ''  - new_learned_rule: optional object'',
     [],
     ''Constraints:'',
     ''  - Make exactly one adjustment per call (or none).'',
     ''  - Output only the JSON object, no surrounding prose.'',
     ''  - Never adjust keys you don'' @ [CHR 0x27] @ ''t recognize.'']"

definition defaultStrategistSystem :: string where
  "defaultStrategistSystem = concat (map (\<lambda>l. l @ [CHR 0x0A]) prompt_lines)"

definition base_decision :: "render \<Rightarrow> Strategist \<Rightarrow> StrategistInput \<Rightarrow> LLMResponse \<Rightarrow> StrategistDecision" where
  "base_decision R s inp resp =
     \<lparr>sdn_AgentID = st_AgentID s, sdn_InputSummary = rd_input R inp, sdn_OutputRaw = r_Content resp, sdn_ConfigChanges = [], sdn_Reasoning = [],
      sdn_IntelBroadcasts = [], sdn_OffspringProposalSubmitted = False, sdn_NewLearnedRule = [], sdn_ModelUsed = r_Model resp,
      sdn_InputTokens = r_InputTokens resp, sdn_OutputTokens = r_OutputTokens resp, sdn_CostUSD = r_CostUSD resp\<rparr>"

definition noted_reasoning :: "StrategistResponse \<Rightarrow> string" where
  "noted_reasoning p =
     (if sp_ActionSignal p \<noteq> [] \<and> \<not> List.member validActionSignals (sp_ActionSignal p)
      then appendNote (sp_Reasoning p) (''unknown_action_signal='' @ sp_ActionSignal p) else sp_Reasoning p)"

text \<open>Applying the changes: the task's new state, and what the decision says of it.\<close>

definition apply_changes :: "render \<Rightarrow> 't task \<Rightarrow> StrategistResponse \<Rightarrow> 't \<Rightarrow> StrategistDecision \<Rightarrow> 't \<times> StrategistDecision" where
  "apply_changes R T p t dec =
     (case sp_ConfigChanges p of
        None \<Rightarrow> (t, dec)
      | Some ch \<Rightarrow>
          if ch = [] then (t, dec)
          else (case tk_ApplyAdjustments T ch t of
                  (t', Inl e) \<Rightarrow> (t', dec\<lparr>sdn_Reasoning := appendNote (sdn_Reasoning dec) (''apply_error: '' @ error_text e)\<rparr>)
                | (t', Inr _) \<Rightarrow> (t', dec\<lparr>sdn_ConfigChanges := rd_changes R ch\<rparr>)))"

definition raw_or :: "render \<Rightarrow> json option \<Rightarrow> string \<Rightarrow> string" where
  "raw_or R j cur = (case j of Some v \<Rightarrow> rd_raw R v | None \<Rightarrow> cur)"

definition decide :: "render \<Rightarrow> 't task \<Rightarrow> StrategistResponse \<Rightarrow> 't \<Rightarrow> StrategistDecision \<Rightarrow> 't \<times> StrategistDecision" where
  "decide R T p t base =
     (let (t', dec) = apply_changes R T p t (base\<lparr>sdn_Reasoning := noted_reasoning p\<rparr>)
      in (t', dec\<lparr>sdn_IntelBroadcasts := raw_or R (sp_IntelBroadcasts p) (sdn_IntelBroadcasts dec),
                  sdn_OffspringProposalSubmitted := (sp_OffspringProposal p \<noteq> None),
                  sdn_NewLearnedRule := raw_or R (sp_NewLearnedRule p) (sdn_NewLearnedRule dec)\<rparr>))"

text \<open>The dependencies may be nil; the receiver is not.\<close>

definition Run :: "postgres \<Rightarrow> render \<Rightarrow> strategist_llm option \<Rightarrow> 't task option \<Rightarrow> bool \<Rightarrow> Strategist \<Rightarrow> db \<Rightarrow> 't \<Rightarrow> db \<times> 't \<times> error option" where
  "Run pg R llm task has_store s d t =
     (case llm of None \<Rightarrow> (d, t, Some (Err ''strategist: nil LLM client''))
      | Some complete_call \<Rightarrow>
     (case task of None \<Rightarrow> (d, t, Some (Err ''strategist: nil task''))
      | Some T \<Rightarrow>
      if \<not> has_store then (d, t, Some (Err ''strategist: nil store''))
      else let maxTokens = (if st_MaxOutputTokens s \<le> 0 then 1024 else st_MaxOutputTokens s);
               system = (if g_StrategistPrompt (st_Genome s) = [] then defaultStrategistSystem else g_StrategistPrompt (st_Genome s))
      in (case buildInput T s t of
            Inl e \<Rightarrow> (d, t, Some (Wrap ''strategist: build input'' e))
          | Inr inp \<Rightarrow>
         (case marshal_floats (input_floats inp) of
            Inl e \<Rightarrow> (d, t, Some (Wrap ''strategist: marshal input'' e))
          | Inr _ \<Rightarrow>
         (case complete_call system inp maxTokens of
            Inl e \<Rightarrow> (d, t, Some (Wrap ''strategist: llm.Complete'' e))
          | Inr resp \<Rightarrow>
              let base = base_decision R s inp resp in
              (case parseStrategistResponse (r_Content resp) of
                 Inl e \<Rightarrow> (fst (LogStrategistDecision pg (base\<lparr>sdn_Reasoning := ''parse_error: '' @ error_text e\<rparr>) d), t, None)
               | Inr p \<Rightarrow>
                   (case decide R T p t base of
                      (t', dec) \<Rightarrow> (case LogStrategistDecision pg dec d of
                         (d', Inl e) \<Rightarrow> (d', t', Some (Wrap ''strategist: persist decision'' e))
                       | (d', Inr _) \<Rightarrow> (d', t', None)))))))))"

section \<open>Lemmas\<close>

definition decision_rows :: "postgres \<Rightarrow> StrategistDecision \<Rightarrow> decision_row list" where
  "decision_rows pg s =
     (if sdn_AgentID s = [] \<or> sdn_ModelUsed s = [] \<or> pg_fault pg ''insert decision'' \<noteq> None then []
      else [\<lparr>dr_agent = sdn_AgentID s, dr_input_summary = defaultJSON (sdn_InputSummary s) ''{}'', dr_output_raw = sdn_OutputRaw s,
           dr_config_changes = nullableText (sdn_ConfigChanges s), dr_reasoning = nullableText (sdn_Reasoning s),
           dr_intel_broadcasts = nullableText (sdn_IntelBroadcasts s), dr_offspring_submitted = sdn_OffspringProposalSubmitted s,
           dr_new_learned_rule = nullableText (sdn_NewLearnedRule s), dr_model_used = sdn_ModelUsed s, dr_input_tokens = sdn_InputTokens s,
           dr_output_tokens = sdn_OutputTokens s, dr_cost_usd = pg_numeric pg (sdn_CostUSD s)\<rparr>])"

lemma LogStrategistDecision_rows:
  "fst (LogStrategistDecision pg s d) = d\<lparr>t_decisions := t_decisions d @ decision_rows pg s\<rparr>"
  "snd (LogStrategistDecision pg s d) = Ok () \<longleftrightarrow> decision_rows pg s \<noteq> []"
  by (auto simp: LogStrategistDecision_def decision_rows_def exec_def split: option.split)

lemma apply_changes_frame:
  "apply_changes R T p t dec = (t', dec') \<Longrightarrow>
     sdn_AgentID dec' = sdn_AgentID dec \<and> sdn_ModelUsed dec' = sdn_ModelUsed dec \<and> sdn_OutputRaw dec' = sdn_OutputRaw dec"
  by (auto simp: apply_changes_def split: option.splits if_splits prod.splits sum.splits)

lemma decide_frame:
  "decide R T p t base = (t', dec) \<Longrightarrow>
     sdn_AgentID dec = sdn_AgentID base \<and> sdn_ModelUsed dec = sdn_ModelUsed base \<and> sdn_OutputRaw dec = sdn_OutputRaw base"
  by (auto simp: decide_def Let_def split: prod.splits dest!: apply_changes_frame)

lemma decide_task:
  assumes "decide R T p t base = (t', dec)" "sdn_ConfigChanges base = []"
  shows "case sp_ConfigChanges p of
      None \<Rightarrow> t' = t \<and> sdn_ConfigChanges dec = []
    | Some ch \<Rightarrow> if ch = [] then t' = t \<and> sdn_ConfigChanges dec = []
        else t' = fst (tk_ApplyAdjustments T ch t) \<and>
             sdn_ConfigChanges dec = (if snd (tk_ApplyAdjustments T ch t) = Ok () then rd_changes R ch else [])"
  using assms by (auto simp: decide_def apply_changes_def Let_def split: option.splits if_splits prod.splits sum.splits)

text \<open>The answer of the model in a cycle, if the cycle gets that far.\<close>

definition answer :: "strategist_llm \<Rightarrow> 't task \<Rightarrow> Strategist \<Rightarrow> 't \<Rightarrow> (StrategistInput \<times> LLMResponse) option" where
  "answer complete_call T s t =
     (case bindr (buildInput T s t) (\<lambda>inp. bindr (marshal_floats (input_floats inp)) (\<lambda>_.
        bindr (complete_call (if g_StrategistPrompt (st_Genome s) = [] then defaultStrategistSystem else g_StrategistPrompt (st_Genome s)) inp
                 (if st_MaxOutputTokens s \<le> 0 then 1024 else st_MaxOutputTokens s)) (\<lambda>resp. Ok (inp, resp)))) of
        Inr r \<Rightarrow> Some r | Inl _ \<Rightarrow> None)"

lemma Run_cases:
  "case answer llm T s t of
     None \<Rightarrow> \<exists>e. Run pg R (Some llm) (Some T) True s d t = (d, t, Some e)
   | Some (inp, resp) \<Rightarrow>
       (case parseStrategistResponse (r_Content resp) of
          Inl e \<Rightarrow> Run pg R (Some llm) (Some T) True s d t =
            (fst (LogStrategistDecision pg ((base_decision R s inp resp)\<lparr>sdn_Reasoning := ''parse_error: '' @ error_text e\<rparr>) d), t, None)
        | Inr p \<Rightarrow>
            (case decide R T p t (base_decision R s inp resp) of
               (t', dec) \<Rightarrow> \<exists>err. Run pg R (Some llm) (Some T) True s d t = (fst (LogStrategistDecision pg dec d), t', err) \<and>
                 (err = None \<longleftrightarrow> snd (LogStrategistDecision pg dec d) = Ok ())))"
proof (cases "buildInput T s t")
  case (Inl e)
  then show ?thesis by (simp add: answer_def Run_def)
next
  case inp: (Inr inp)
  show ?thesis
  proof (cases "marshal_floats (input_floats inp)")
    case (Inl e)
    then show ?thesis using inp by (simp add: answer_def Run_def)
  next
    case m: (Inr u)
    let ?call = "llm (if g_StrategistPrompt (st_Genome s) = [] then defaultStrategistSystem else g_StrategistPrompt (st_Genome s)) inp
                 (if st_MaxOutputTokens s \<le> 0 then 1024 else st_MaxOutputTokens s)"
    show ?thesis
    proof (cases ?call)
      case (Inl e)
      then show ?thesis using inp m by (simp add: answer_def Run_def Let_def)
    next
      case (Inr resp)
      then have "answer llm T s t = Some (inp, resp)" using inp m by (simp add: answer_def)
      then show ?thesis using inp m Inr
        by (auto simp: Run_def Let_def split: sum.split prod.split)
    qed
  qed
qed

section \<open>Properties\<close>

text \<open>
  C6: a strategist cycle writes at most one decision row, for its own agent, and nothing else.  If the
  model answered with a named model and the database accepts the row, exactly one row is written with
  the raw answer in it and the cycle succeeds; if the model did not answer, nothing is written and the
  cycle fails.  The task only ever changes by applying the non-empty changes of an answer that parsed,
  and the row says so only if the task accepted them.
\<close>

theorem strategist_cycle:
  assumes "Run pg R (Some llm) (Some T) True s d t = (d', t', err)"
  shows "case answer llm T s t of
      None \<Rightarrow> d' = d \<and> t' = t \<and> err \<noteq> None
    | Some (inp, resp) \<Rightarrow>
        (\<exists>rows. d' = d\<lparr>t_decisions := t_decisions d @ rows\<rparr> \<and>
           length rows = (if st_AgentID s = [] \<or> r_Model resp = [] \<or> pg_fault pg ''insert decision'' \<noteq> None then 0 else 1) \<and>
           (\<forall>row \<in> set rows. dr_agent row = st_AgentID s \<and> dr_output_raw row = r_Content resp \<and>
              (dr_config_changes row \<noteq> None \<longrightarrow> (\<exists>p ch. parseStrategistResponse (r_Content resp) = Ok p \<and> sp_ConfigChanges p = Some ch \<and>
                 snd (tk_ApplyAdjustments T ch t) = Ok ())))) \<and>
        (t' \<noteq> t \<longrightarrow> (\<exists>p ch. parseStrategistResponse (r_Content resp) = Ok p \<and> sp_ConfigChanges p = Some ch \<and> ch \<noteq> [] \<and>
           t' = fst (tk_ApplyAdjustments T ch t)))"
proof (cases "answer llm T s t")
  case None
  then show ?thesis using Run_cases [where llm = llm and T = T and s = s and t = t and pg = pg and R = R and d = d] assms by auto
next
  case (Some ir)
  obtain inp resp where ir: "ir = (inp, resp)" by force
  let ?base = "base_decision R s inp resp"
  have rows: "length (decision_rows pg dec) = (if st_AgentID s = [] \<or> r_Model resp = [] \<or> pg_fault pg ''insert decision'' \<noteq> None then 0 else 1) \<and>
      (\<forall>row \<in> set (decision_rows pg dec). dr_agent row = st_AgentID s \<and> dr_output_raw row = r_Content resp \<and>
         dr_config_changes row = nullableText (sdn_ConfigChanges dec))"
    if "sdn_AgentID dec = st_AgentID s" "sdn_ModelUsed dec = r_Model resp" "sdn_OutputRaw dec = r_Content resp" for dec
    using that by (simp add: decision_rows_def)
  show ?thesis
  proof (cases "parseStrategistResponse (r_Content resp)")
    case (Inl e)
    let ?dec = "?base\<lparr>sdn_Reasoning := ''parse_error: '' @ error_text e\<rparr>"
    have "d' = d\<lparr>t_decisions := t_decisions d @ decision_rows pg ?dec\<rparr>" "t' = t"
      using Run_cases [where llm = llm and T = T and s = s and t = t and pg = pg and R = R and d = d] assms Some ir Inl by (simp_all add: LogStrategistDecision_rows(1))
    then show ?thesis using rows [of ?dec] Some ir
      by (auto simp: base_decision_def nullableText_def intro!: exI [of _ "decision_rows pg ?dec"])
  next
    case (Inr p)
    obtain t1 dec where dec: "decide R T p t ?base = (t1, dec)" by force
    have res: "d' = d\<lparr>t_decisions := t_decisions d @ decision_rows pg dec\<rparr>" "t' = t1"
      using Run_cases [where llm = llm and T = T and s = s and t = t and pg = pg and R = R and d = d] assms Some ir Inr dec by (auto simp: LogStrategistDecision_rows(1))
    have fr: "sdn_AgentID dec = st_AgentID s" "sdn_ModelUsed dec = r_Model resp" "sdn_OutputRaw dec = r_Content resp"
      using decide_frame [OF dec] by (simp_all add: base_decision_def)
    have tk: "case sp_ConfigChanges p of None \<Rightarrow> t1 = t \<and> sdn_ConfigChanges dec = []
      | Some ch \<Rightarrow> if ch = [] then t1 = t \<and> sdn_ConfigChanges dec = []
        else t1 = fst (tk_ApplyAdjustments T ch t) \<and> sdn_ConfigChanges dec = (if snd (tk_ApplyAdjustments T ch t) = Ok () then rd_changes R ch else [])"
      by (rule decide_task [OF dec]) (simp add: base_decision_def)
    have chg: "\<exists>ch. sp_ConfigChanges p = Some ch \<and> snd (tk_ApplyAdjustments T ch t) = Ok ()" if "nullableText (sdn_ConfigChanges dec) \<noteq> None"
      using that tk by (auto simp: nullableText_def split: option.splits if_splits)
    have "\<exists>rows. d' = d\<lparr>t_decisions := t_decisions d @ rows\<rparr> \<and>
           length rows = (if st_AgentID s = [] \<or> r_Model resp = [] \<or> pg_fault pg ''insert decision'' \<noteq> None then 0 else 1) \<and>
           (\<forall>row \<in> set rows. dr_agent row = st_AgentID s \<and> dr_output_raw row = r_Content resp \<and>
              (dr_config_changes row \<noteq> None \<longrightarrow> (\<exists>p ch. parseStrategistResponse (r_Content resp) = Ok p \<and> sp_ConfigChanges p = Some ch \<and>
                 snd (tk_ApplyAdjustments T ch t) = Ok ())))"
      using rows [OF fr] chg Inr res(1) by (intro exI [of _ "decision_rows pg dec"]) auto
    moreover have "t' \<noteq> t \<Longrightarrow> \<exists>ch. sp_ConfigChanges p = Some ch \<and> ch \<noteq> [] \<and> t' = fst (tk_ApplyAdjustments T ch t)"
      using tk res(2) by (auto split: option.splits if_splits)
    ultimately show ?thesis using Some ir Inr by auto
  qed
qed

definition sample_strategist :: Strategist where
  "sample_strategist = \<lparr>st_AgentID = ''a'', st_AgentName = ''n'', st_Genome = zero_genome, st_Bandit = Some (NewTickBandit [''default'']), st_MaxOutputTokens = 0\<rparr>"

definition idle_task :: "unit task" where
  "idle_task = \<lparr>tk_GetStateSummary = (\<lambda>_. Ok [(''pnl'', JFloat (Fin 3))]), tk_ApplyAdjustments = (\<lambda>_ t. (t, Ok ()))\<rparr>"

definition plain_render :: render where
  "plain_render = \<lparr>rd_input = (\<lambda>_. ''{}''), rd_changes = (\<lambda>_. ''{}''), rd_raw = (\<lambda>_. ''null'')\<rparr>"

definition terse_llm :: strategist_llm where
  "terse_llm sys inp n = Ok \<lparr>r_Content = ''{}'', r_InputTokens = 10, r_OutputTokens = 1, r_CostUSD = Fin 1, r_Model = ''gpt-4o''\<rparr>"

theorem strategist_cycle_witness:
  "\<exists>d' t' err. Run pg_ok plain_render (Some terse_llm) (Some idle_task) True sample_strategist sample_db () = (d', t', err) \<and> length (t_decisions d') = 1"
proof -
  obtain d' t' err where r: "Run pg_ok plain_render (Some terse_llm) (Some idle_task) True sample_strategist sample_db () = (d', t', err)"
    by (metis prod_cases3)
  have "\<exists>inp resp. answer terse_llm idle_task sample_strategist () = Some (inp, resp) \<and> r_Model resp = ''gpt-4o''"
    by (simp add: answer_def buildInput_def idle_task_def sample_strategist_def zero_genome_def input_floats_def marshal_floats_def terse_llm_def)
  then obtain inp resp where a: "answer terse_llm idle_task sample_strategist () = Some (inp, resp)" "r_Model resp = ''gpt-4o''" by blast
  obtain rows where "d' = sample_db\<lparr>t_decisions := t_decisions sample_db @ rows\<rparr>" "length rows = 1"
    using strategist_cycle [OF r] a by (auto simp: sample_strategist_def pg_ok_def)
  then show ?thesis using r by (auto simp: sample_db_def)
qed

text \<open>
  A valid action signal changes nothing: not the row, not the task.  And a proposal that the model
  sends as an explicit null is recorded as submitted.
\<close>

lemma valid_signal_ignored:
  assumes "List.member validActionSignals (sp_ActionSignal p)" "List.member validActionSignals a"
  shows "decide R T (p\<lparr>sp_ActionSignal := a\<rparr>) t base = decide R T p t base"
  using assms by (simp add: decide_def apply_changes_def noted_reasoning_def)

lemma null_proposal_submitted:
  assumes "raw_field ''offspring_proposal'' ms None = Some JsNull" "p = \<lparr>sp_Reasoning = r, sp_ConfigChanges = cc, sp_ActionSignal = a,
     sp_OffspringProposal = raw_field ''offspring_proposal'' ms None, sp_IntelBroadcasts = i, sp_NewLearnedRule = n\<rparr>"
  shows "sdn_OffspringProposalSubmitted (snd (decide R T p t base))"
  using assms by (simp add: decide_def Let_def case_prod_beta)

end
