(* ===== verification/GoFmt.thy ===== *)
theory GoFmt
  imports GoTime GoSort "HOL-Library.Sublist"
begin

text \<open>
  The parts of \<^verbatim>\<open>fmt\<close>, \<^verbatim>\<open>strings\<close>, \<^verbatim>\<open>sort\<close> and \<^verbatim>\<open>time\<close> that the intelligence, backtesting and
  task packages use: \<^verbatim>\<open>%.nf\<close> (exact decimal value of the float, rounded once, half to even),
  \<^verbatim>\<open>%06d\<close>, the date layouts, \<^verbatim>\<open>strings.Split\<close>, byte-wise string comparison, and \<^verbatim>\<open>sort.Slice\<close>.

  \<^verbatim>\<open>sort.Slice\<close> is not stable.  What it returns is the stable sort of some rearrangement of its
  input, so \<open>sort_Slice\<close> takes the rearrangement as a parameter \<open>p\<close>, and results are stated
  for every \<open>p\<close> that is a rearrangement (\<open>rearranges\<close>).  The unspecified order in which
  \<^verbatim>\<open>range\<close> visits a map is a parameter of the same kind.
\<close>

section \<open>Rearrangements and sorting\<close>

definition rearranges :: "('a list \<Rightarrow> 'a list) \<Rightarrow> bool" where
  "rearranges p \<longleftrightarrow> (\<forall>xs. mset (p xs) = mset xs)"

definition sort_Slice :: "('a list \<Rightarrow> 'a list) \<Rightarrow> ('a \<Rightarrow> 'a \<Rightarrow> bool) \<Rightarrow> 'a list \<Rightarrow> 'a list" where
  "sort_Slice p lt xs = stable_sort lt (p xs)"

lemma rearranges_id [simp]: "rearranges (\<lambda>xs. xs)" and rearranges_rev [simp]: "rearranges rev"
  by (simp_all add: rearranges_def)

lemma rearranges_mset: "rearranges p \<Longrightarrow> mset (p xs) = mset xs"
  by (simp add: rearranges_def)

lemma rearranges_set [simp]: "rearranges p \<Longrightarrow> set (p xs) = set xs"
  by (metis rearranges_mset set_mset_mset)

lemma rearranges_length: "rearranges p \<Longrightarrow> length (p xs) = length xs"
  by (metis rearranges_mset size_mset)

lemma rearranges_distinct: "rearranges p \<Longrightarrow> distinct (p xs) = distinct xs"
  by (metis rearranges_mset mset_eq_imp_distinct_iff)

lemma mset_sort_Slice: "rearranges p \<Longrightarrow> mset (sort_Slice p lt xs) = mset xs"
  by (simp add: sort_Slice_def rearranges_mset)

lemma set_sort_Slice [simp]: "rearranges p \<Longrightarrow> set (sort_Slice p lt xs) = set xs"
  by (simp add: sort_Slice_def)

lemma length_sort_Slice [simp]: "rearranges p \<Longrightarrow> length (sort_Slice p lt xs) = length xs"
  by (simp add: sort_Slice_def rearranges_length)

text \<open>Two lists with the same elements, both sorted by a relation that is antisymmetric on them, are equal.\<close>

lemma sorted_wrt_unique:
  assumes "\<And>x y. x \<in> set xs \<Longrightarrow> y \<in> set xs \<Longrightarrow> R x y \<Longrightarrow> R y x \<Longrightarrow> x = y"
    and "sorted_wrt R xs" "sorted_wrt R ys" "mset xs = mset ys"
  shows "xs = ys"
  using assms
proof (induction xs arbitrary: ys)
  case (Cons x xs)
  then obtain y ys' where ys: "ys = y # ys'" by (cases ys) auto
  have sets: "set (x # xs) = set ys" using Cons.prems(4) by (metis set_mset_mset)
  have "x = y"
  proof (rule ccontr)
    assume "x \<noteq> y"
    then have "y \<in> set xs" "x \<in> set ys'" using sets ys by auto
    then have "R x y" "R y x" using Cons.prems(2,3) ys by auto
    with Cons.prems(1) \<open>y \<in> set xs\<close> \<open>x \<noteq> y\<close> show False by auto
  qed
  with ys Cons.prems have "xs = ys'" by (intro Cons.IH) auto
  with \<open>x = y\<close> ys show ?case by simp
qed simp

context weak_order
begin

lemma sort_Slice_sorted:
  "rearranges p \<Longrightarrow> \<forall>z \<in> set xs. ok z \<Longrightarrow> sorted_wrt (\<lambda>a b. \<not> lt b a) (sort_Slice p lt xs)"
  unfolding sort_Slice_def by (rule stable_sort_sorted) simp

text \<open>Where no two elements are tied the result does not depend on the rearrangement.\<close>

lemma sort_Slice_unique:
  assumes p: "rearranges p" "rearranges q" and eq: "mset xs = mset ys" and ok: "\<forall>z \<in> set xs. ok z"
    and tie: "\<And>x y. x \<in> set xs \<Longrightarrow> y \<in> set xs \<Longrightarrow> \<not> lt x y \<Longrightarrow> \<not> lt y x \<Longrightarrow> x = y"
  shows "sort_Slice p lt xs = sort_Slice q lt ys"
proof (rule sorted_wrt_unique [where R = "\<lambda>a b. \<not> lt b a"])
  have s: "set ys = set xs" using eq by (metis set_mset_mset)
  show "sorted_wrt (\<lambda>a b. \<not> lt b a) (sort_Slice p lt xs)" "sorted_wrt (\<lambda>a b. \<not> lt b a) (sort_Slice q lt ys)"
    using p ok s by (simp_all add: sort_Slice_sorted)
  show "mset (sort_Slice p lt xs) = mset (sort_Slice q lt ys)" using p eq by (simp add: mset_sort_Slice)
  show "x = y" if "x \<in> set (sort_Slice p lt xs)" "y \<in> set (sort_Slice p lt xs)" "\<not> lt y x" "\<not> lt x y" for x y
    using that p tie by auto
qed

text \<open>What a truncation of the sorted slice keeps is nowhere larger than what it drops.\<close>

lemma take_sort_Slice_smallest:
  assumes "rearranges p" "\<forall>z \<in> set xs. ok z" "x \<in> set (take n (sort_Slice p lt xs))" "y \<in> set (drop n (sort_Slice p lt xs))"
  shows "\<not> lt y x"
  using take_smallest [of "p xs" x n y] assms by (auto simp: sort_Slice_def)

end

text \<open>Lexicographic composition of comparison functions, the shape of every multi-key comparator.\<close>

definition then_by :: "('a \<Rightarrow> 'a \<Rightarrow> bool) \<Rightarrow> ('a \<Rightarrow> 'a \<Rightarrow> bool) \<Rightarrow> 'a \<Rightarrow> 'a \<Rightarrow> bool" where
  "then_by lt1 lt2 x y \<longleftrightarrow> lt1 x y \<or> \<not> lt1 y x \<and> lt2 x y"

lemma weak_order_then_by:
  assumes "weak_order lt1 ok" "weak_order lt2 ok" shows "weak_order (then_by lt1 lt2) ok"
proof
  fix x y z assume ok: "ok x" "ok y" "ok z"
  note a1 = weak_order.asym [OF assms(1)] and a2 = weak_order.asym [OF assms(2)]
  note n1 = weak_order.neg_trans [OF assms(1)] and n2 = weak_order.neg_trans [OF assms(2)]
  show "\<not> then_by lt1 lt2 x z" if "\<not> then_by lt1 lt2 x y" "\<not> then_by lt1 lt2 y z"
    using that ok n1 [of x y z] n1 [of y z x] n1 [of z x y] n2 [of x y z] a1 [of x y] a1 [of y z] a1 [of x z]
      a1 [of y x] a1 [of z y] a1 [of z x]
    unfolding then_by_def by blast
next
  fix x y assume "ok x" "ok y" "then_by lt1 lt2 x y"
  then show "\<not> then_by lt1 lt2 y x"
    using weak_order.asym [OF assms(1), of x y] weak_order.asym [OF assms(2), of x y] by (auto simp: then_by_def)
qed

lemma weak_order_key:
  fixes f :: "'a \<Rightarrow> 'b::linorder"
  shows "weak_order (\<lambda>x y. f x < f y) ok" "weak_order (\<lambda>x y. f y < f x) ok"
  by unfold_locales auto

section \<open>Strings\<close>

text \<open>Byte-wise comparison, the \<^verbatim>\<open><\<close> of Go strings.\<close>

fun str_less :: "string \<Rightarrow> string \<Rightarrow> bool" where
  "str_less s [] = False"
| "str_less [] (d # t) = True"
| "str_less (c # s) (d # t) \<longleftrightarrow> (of_char c :: nat) < of_char d \<or> c = d \<and> str_less s t"

lemma str_less_irrefl [simp]: "\<not> str_less s s"
  by (induction s) auto

lemma str_less_total: "\<not> str_less s t \<Longrightarrow> \<not> str_less t s \<Longrightarrow> s = t"
proof (induction s t rule: str_less.induct)
  case (1 s)
  then show ?case by (cases s) auto
next
  case (3 c s d t)
  then have "(of_char c :: nat) = of_char d" by auto
  then have "c = d" by simp
  with 3 show ?case by auto
qed simp

lemma str_less_trans: "str_less s t \<Longrightarrow> str_less t u \<Longrightarrow> str_less s u"
proof (induction s t arbitrary: u rule: str_less.induct)
  case (2 d t)
  then show ?case by (cases u) auto
next
  case (3 c s d t)
  then show ?case by (cases u) auto
qed auto

lemma str_less_asym: "str_less s t \<Longrightarrow> \<not> str_less t s"
  using str_less_trans str_less_irrefl by blast

lemma weak_order_str: "weak_order (\<lambda>x y. str_less (f x) (f y)) ok"
proof
  fix x y z
  show "\<not> str_less (f x) (f z)" if "\<not> str_less (f x) (f y)" "\<not> str_less (f y) (f z)"
    using that str_less_total str_less_trans by metis
qed (use str_less_asym in blast)

text \<open>\<^verbatim>\<open>strings.Split\<close> at a one-byte separator, \<^verbatim>\<open>strings.HasPrefix\<close>, \<^verbatim>\<open>strings.TrimPrefix\<close>.\<close>

fun Split :: "char \<Rightarrow> string \<Rightarrow> string list" where
  "Split c [] = [[]]"
| "Split c (x # xs) =
     (if x = c then [] # Split c xs
      else case Split c xs of [] \<Rightarrow> [[x]] | y # ys \<Rightarrow> (x # y) # ys)"

definition HasPrefix :: "string \<Rightarrow> string \<Rightarrow> bool" where "HasPrefix s p \<longleftrightarrow> prefix p s"

definition TrimPrefix :: "string \<Rightarrow> string \<Rightarrow> string" where
  "TrimPrefix s p = (if prefix p s then drop (length p) s else s)"

lemma Split_ne [simp]: "Split c s \<noteq> []"
  by (induction s) (auto split: list.split)

lemma Split_none [simp]: "c \<notin> set s \<Longrightarrow> Split c s = [s]"
  by (induction s) auto

lemma Split_append [simp]: "c \<notin> set s \<Longrightarrow> Split c (s @ c # t) = s # Split c t"
  by (induction s) auto

lemma Split_two: "Split c s = [a, b] \<longleftrightarrow> s = a @ c # b \<and> c \<notin> set a \<and> c \<notin> set b"
proof
  have one: "Split c s = [a] \<Longrightarrow> s = a \<and> c \<notin> set a" for s a
    by (induction s arbitrary: a) (auto split: if_splits list.splits)
  show "Split c s = [a, b] \<Longrightarrow> s = a @ c # b \<and> c \<notin> set a \<and> c \<notin> set b"
  proof (induction s arbitrary: a)
    case (Cons x s)
    show ?case
    proof (cases "x = c")
      case True
      with Cons.prems one [of s b] show ?thesis by auto
    next
      case False
      with Cons.prems obtain y where "Split c s = [y, b]" "a = x # y" by (auto split: list.splits)
      with Cons.IH [of y] False show ?thesis by auto
    qed
  qed simp
qed simp

section \<open>Numbers\<close>

definition zpad :: "nat \<Rightarrow> string \<Rightarrow> string" where
  "zpad n s = replicate (n - length s) (CHR ''0'') @ s"

text \<open>\<^verbatim>\<open>%.nf\<close>.\<close>

definition fixed :: "nat \<Rightarrow> rat \<Rightarrow> string" where
  "fixed n a = (let m = nat (rhe (a * 10 ^ n)) in
     digits (m div 10 ^ n) @ (if n = 0 then [] else CHR ''.'' # zpad n (digits (m mod 10 ^ n))))"

fun fmt_f :: "nat \<Rightarrow> f64 \<Rightarrow> string" where
  "fmt_f n NaN = ''NaN''"
| "fmt_f n PInf = ''+Inf''"
| "fmt_f n NInf = ''-Inf''"
| "fmt_f n NegZero = CHR ''-'' # fixed n 0"
| "fmt_f n (Fin r) = (if r < 0 then CHR ''-'' # fixed n (- r) else fixed n r)"

section \<open>Dates\<close>

text \<open>The layouts \<^verbatim>\<open>2006-01-02\<close> and \<^verbatim>\<open>time.RFC3339\<close> of a UTC time.\<close>

definition FormatDate :: "time \<Rightarrow> string" where
  "FormatDate t = (let d = t div Day; y = year_of_day d; doy = d - days_before_year y;
       ms = filter (\<lambda>s. s \<le> doy) (month_starts y)
     in zpad 4 (itoa y) @ ''-'' @ zpad 2 (itoa (int (length ms))) @ ''-'' @ zpad 2 (itoa (doy - last ms + 1)))"

definition FormatRFC3339 :: "time \<Rightarrow> string" where
  "FormatRFC3339 t = (let s = t mod Day in
     FormatDate t @ ''T'' @ zpad 2 (itoa (s div Hour)) @ '':'' @ zpad 2 (itoa (s div Minute mod 60)) @ '':'' @
     zpad 2 (itoa (s div Second mod 60)) @ ''Z'')"

end
