(* ===== verification/TaskCore.thy ===== *)
theory TaskCore
  imports Strategist GoFmt
begin

text \<open>
  The contract of a strategy, \<^verbatim>\<open>internal/agent/tasks/interface.go\<close>, with the task registry, the fake
  task, and the types of \<^verbatim>\<open>internal/chain/types.go\<close> that tasks exchange with a chain client.  A client's answers are
  arguments of the operations that ask for them.
\<close>

section \<open>Chain types\<close>

record Quote =
  qt_Chain :: string
  qt_DEX :: string
  qt_TokenIn :: string
  qt_TokenOut :: string
  qt_AmountIn :: f64
  qt_AmountOut :: f64
  qt_Price :: f64
  qt_PriceImpact :: f64
  qt_FeeAmount :: f64
  qt_SlippageBps :: int
  qt_GeneratedAt :: time
  qt_RouteRaw :: string

record LendingPosition =
  lp_Chain :: string
  lp_Protocol :: string
  lp_Owner :: string
  lp_CollateralAsset :: string
  lp_CollateralAmt :: f64
  lp_DebtAsset :: string
  lp_DebtAmt :: f64
  lp_HealthFactor :: f64
  lp_LiquidationBonus :: f64

record YieldRate =
  yr_Chain :: string
  yr_Protocol :: string
  yr_Asset :: string
  yr_APY :: f64
  yr_TVL :: f64
  yr_UpdatedAt :: time

record TxResult =
  tx_Signature :: string
  tx_Success :: bool
  tx_GasUsed :: int
  tx_GasPriceWei :: int
  tx_FeePaidUSD :: f64
  tx_BlockNumber :: int
  tx_ErrorMsg :: string

record Wallet =
  wl_Chain :: string
  wl_Address :: string
  wl_KeyEncrypted :: string

section \<open>Tasks\<close>

record TaskTrade =
  tt_ID :: string
  tt_AgentID :: string
  tt_EpochID :: string
  tt_Chain :: string
  tt_TradeType :: string
  tt_TokenPair :: string
  tt_DEX :: string
  tt_AmountIn :: f64
  tt_AmountOut :: f64
  tt_FeePaid :: f64
  tt_PnL :: f64
  tt_TxSignature :: string
  tt_IsPaperTrade :: bool
  tt_BanditPolicyUsed :: string
  tt_ExecutedAt :: time
  tt_Metadata :: "(string \<times> jval) list"

text \<open>The zero value, from which composite literals that name some fields start.\<close>

definition zero_trade :: TaskTrade where
  "zero_trade = \<lparr>tt_ID = [], tt_AgentID = [], tt_EpochID = [], tt_Chain = [], tt_TradeType = [], tt_TokenPair = [], tt_DEX = [],
     tt_AmountIn = Fin 0, tt_AmountOut = Fin 0, tt_FeePaid = Fin 0, tt_PnL = Fin 0, tt_TxSignature = [], tt_IsPaperTrade = False,
     tt_BanditPolicyUsed = [], tt_ExecutedAt = zero_time, tt_Metadata = []\<rparr>"

text \<open>
  The operations of a task.  Those the strategist calls come first (\<open>task\<close>); the runner calls
  \<^verbatim>\<open>RunTick\<close> and \<^verbatim>\<open>CloseAllPositions\<close>, the backtest also \<^verbatim>\<open>GetPositionValue\<close>.
\<close>

record 't node_task = "'t task" +
  tk_RunTick :: "'t \<Rightarrow> 't \<times> TaskTrade list result"
  tk_CloseAllPositions :: "'t \<Rightarrow> 't \<times> TaskTrade list result"

section \<open>Registry\<close>

text \<open>A registry maps names to factories; \<open>None\<close> is a panic.\<close>

type_synonym 'f registry = "(string \<times> 'f) list"

definition Register :: "string \<Rightarrow> 'f option \<Rightarrow> 'f registry \<Rightarrow> 'f registry option" where
  "Register name factory reg =
     (if name = [] then None
      else case factory of None \<Rightarrow> None
        | Some f \<Rightarrow> (case map_of reg name of Some _ \<Rightarrow> None | None \<Rightarrow> Some (reg @ [(name, f)])))"

definition Build :: "string \<Rightarrow> 'c \<Rightarrow> ('c \<Rightarrow> 't result) registry \<Rightarrow> 't result" where
  "Build name config reg =
     (case map_of reg name of None \<Rightarrow> Fail ''tasks: unknown task type'' | Some f \<Rightarrow> f config)"

definition Registered :: "(string list \<Rightarrow> string list) \<Rightarrow> 'f registry \<Rightarrow> string list" where
  "Registered p reg = sort_Slice p str_less (map fst reg)"

definition ResetForTest :: "'f registry" where "ResetForTest = []"

text \<open>A registry built by successful registrations answers exactly for the names registered, each with its own factory.\<close>

fun register_all :: "(string \<times> 'f option) list \<Rightarrow> 'f registry \<Rightarrow> 'f registry option" where
  "register_all [] reg = Some reg"
| "register_all ((n, f) # xs) reg = (case Register n f reg of None \<Rightarrow> None | Some reg' \<Rightarrow> register_all xs reg')"

lemma Register_Some:
  "Register n f reg = Some reg' \<longleftrightarrow> n \<noteq> [] \<and> (\<exists>g. f = Some g \<and> map_of reg n = None \<and> reg' = reg @ [(n, g)])"
  by (auto simp: Register_def split: option.splits)

lemma register_all_Some:
  "register_all xs reg = Some reg' \<Longrightarrow> reg' = reg @ map (\<lambda>(n, f). (n, the f)) xs \<and> (distinct (map fst reg) \<longrightarrow> distinct (map fst reg'))"
proof (induction xs arbitrary: reg)
  case (Cons x xs)
  obtain n f where x: "x = (n, f)" by (cases x)
  with Cons.prems obtain r where r: "Register n f reg = Some r" "register_all xs r = Some reg'" by (auto split: option.splits)
  then obtain g where g: "f = Some g" "map_of reg n = None" "r = reg @ [(n, g)]" by (auto simp: Register_Some)
  have "n \<notin> set (map fst reg)" using g(2) by (simp add: map_of_eq_None_iff)
  then have d: "distinct (map fst reg) \<Longrightarrow> distinct (map fst r)" using g(3) by simp
  note IH = conjunct1 [OF Cons.IH [OF r(2)]] conjunct2 [OF Cons.IH [OF r(2)]]
  show ?case
  proof
    show "reg' = reg @ map (\<lambda>(n, f). (n, the f)) (x # xs)" unfolding IH(1) g(3) x g(1) by simp
    show "distinct (map fst reg) \<longrightarrow> distinct (map fst reg')" using d IH(2) by fast
  qed
qed simp

lemma Build_registered:
  assumes "register_all xs ResetForTest = Some reg" "(n, Some f) \<in> set xs"
  shows "Build n config reg = f config"
proof -
  have "reg = map (\<lambda>(n, f). (n, the f)) xs" "distinct (map fst reg)" using register_all_Some [OF assms(1)] by (auto simp: ResetForTest_def)
  moreover from this assms(2) have "(n, f) \<in> set reg" by force
  ultimately show ?thesis by (simp add: Build_def)
qed

lemma Registered_deterministic:
  assumes "rearranges p" "rearranges q" "mset (map fst reg) = mset (map fst reg')"
  shows "Registered p reg = Registered q reg'"
  unfolding Registered_def
  by (rule weak_order.sort_Slice_unique [OF weak_order_str [where f = "\<lambda>x. x" and ok = "\<lambda>_. True"] assms]) (auto dest: str_less_total)

section \<open>The fake task\<close>

record FakeTask =
  fk_TickTrades :: "TaskTrade list"
  fk_TickErr :: "error option"
  fk_Summary :: "(string \<times> jval) list option"
  fk_SummaryErr :: "error option"
  fk_AdjustErr :: "error option"
  fk_LastAdjustments :: "(string \<times> adjustment) list"
  fk_Position :: f64
  fk_PositionErr :: "error option"
  fk_CloseTrades :: "TaskTrade list"
  fk_CloseErr :: "error option"
  fk_RunTickCallCount :: int
  fk_GetSummaryCount :: int
  fk_CloseAllCallCount :: int

definition fake_RunTick :: "FakeTask \<Rightarrow> FakeTask \<times> TaskTrade list result" where
  "fake_RunTick f = (f\<lparr>fk_RunTickCallCount := wrap64 (fk_RunTickCallCount f + 1)\<rparr>, case fk_TickErr f of None \<Rightarrow> Ok (fk_TickTrades f) | Some e \<Rightarrow> Inl e)"

definition fake_GetStateSummary :: "FakeTask \<Rightarrow> FakeTask \<times> (string \<times> jval) list result" where
  "fake_GetStateSummary f = (f\<lparr>fk_GetSummaryCount := wrap64 (fk_GetSummaryCount f + 1)\<rparr>,
     case fk_SummaryErr f of Some e \<Rightarrow> Inl e | None \<Rightarrow> Ok (case fk_Summary f of None \<Rightarrow> [] | Some s \<Rightarrow> s))"

definition fake_ApplyAdjustments :: "(string \<times> adjustment) list \<Rightarrow> FakeTask \<Rightarrow> FakeTask \<times> unit result" where
  "fake_ApplyAdjustments adj f = (f\<lparr>fk_LastAdjustments := adj\<rparr>, case fk_AdjustErr f of None \<Rightarrow> Ok () | Some e \<Rightarrow> Inl e)"

definition fake_GetPositionValue :: "FakeTask \<Rightarrow> f64 result" where
  "fake_GetPositionValue f = (case fk_PositionErr f of None \<Rightarrow> Ok (fk_Position f) | Some e \<Rightarrow> Inl e)"

definition fake_CloseAllPositions :: "FakeTask \<Rightarrow> FakeTask \<times> TaskTrade list result" where
  "fake_CloseAllPositions f = (f\<lparr>fk_CloseAllCallCount := wrap64 (fk_CloseAllCallCount f + 1)\<rparr>, case fk_CloseErr f of None \<Rightarrow> Ok (fk_CloseTrades f) | Some e \<Rightarrow> Inl e)"

definition FakeFactory :: "FakeTask \<Rightarrow> 'c \<Rightarrow> FakeTask result" where
  "FakeFactory seed config = Ok seed"

end
