(* ===== verification/Breaker.thy ===== *)
theory Breaker
  imports GoTime "HOL-Library.Transitive_Closure_Table"
begin

text \<open>
  \<^verbatim>\<open>internal/runtime/circuit_breaker.go\<close>: the process-wide circuit breaker.  The first part is
  the breaker as its methods act when they do not overlap: \<open>Trip\<close>, \<open>Reset\<close>, \<open>maybeReset\<close>
  (one poll of \<open>Run\<close>) and \<open>EvaluateTriggers\<close>; the clock reading of a call is its argument.
  The abstract breaker is the reason and time of the last trip or nothing, and the methods refine
  it.  The second part takes the methods apart into the steps between which other goroutines can
  run, since \<open>Trip\<close> and \<open>Reset\<close> update the locked fields and the atomic flag in two separate
  steps.
\<close>

section \<open>Model\<close>

datatype BreakerReason = BreakerReasonNone | BreakerReasonMarketCrash | BreakerReasonMassStopOut
  | BreakerReasonRPCErrorBurst | BreakerReasonManualOverride

record CircuitBreaker =
  Cooldown :: duration
  halted :: bool
  reason :: BreakerReason
  trippedAt :: time

definition NewCircuitBreaker :: "duration \<Rightarrow> CircuitBreaker" where
  "NewCircuitBreaker cooldown =
     \<lparr>Cooldown = (if cooldown = 0 then 2 * Hour else cooldown), halted = False,
      reason = BreakerReasonNone, trippedAt = zero_time\<rparr>"

definition Trip :: "BreakerReason \<Rightarrow> time \<Rightarrow> CircuitBreaker \<Rightarrow> CircuitBreaker" where
  "Trip r now b = b\<lparr>reason := r, trippedAt := now, halted := True\<rparr>"

definition Reset :: "CircuitBreaker \<Rightarrow> CircuitBreaker" where
  "Reset b = b\<lparr>reason := BreakerReasonNone, trippedAt := zero_time, halted := False\<rparr>"

definition maybeReset :: "time \<Rightarrow> CircuitBreaker \<Rightarrow> CircuitBreaker" where
  "maybeReset now b =
     (if \<not> halted b then b
      else if trippedAt b = zero_time then b
      else if Cooldown b \<le> time_sub now (trippedAt b) then Reset b
      else b)"

definition poll_interval :: "CircuitBreaker \<Rightarrow> duration" where
  "poll_interval b = (let interval = godiv (Cooldown b) 20 in if interval < Second then Second else interval)"

record MarketSnapshot =
  Asset :: string
  Pct1h :: f64
  AbsPct :: f64

record EpochOutcome =
  FundedNodes :: int
  NodesHitStopLoss :: int
  RPCRequests :: int
  RPCErrors :: int
  WindowDuration :: duration
  MarketSnapshots :: "MarketSnapshot list"

definition defaultMarketMovePct :: f64 where "defaultMarketMovePct = rnd (15 / 100)"
definition defaultStopOutFraction :: f64 where "defaultStopOutFraction = rnd (50 / 100)"
definition defaultRPCErrorFraction :: f64 where "defaultRPCErrorFraction = rnd (30 / 100)"
definition defaultRPCErrorWindowFloor :: duration where "defaultRPCErrorWindowFloor = 5 * Minute"

definition snap_abs :: "MarketSnapshot \<Rightarrow> f64" where
  "snap_abs snap =
     (if feq (AbsPct snap) (Fin 0)
      then (if flt (Pct1h snap) (Fin 0) then fneg (Pct1h snap) else Pct1h snap)
      else AbsPct snap)"

fun market_loop :: "MarketSnapshot list \<Rightarrow> bool" where
  "market_loop [] = False"
| "market_loop (snap # snaps) =
     ((Asset snap = ''SOL'' \<or> Asset snap = ''ETH'') \<and> fle defaultMarketMovePct (snap_abs snap) \<or>
      market_loop snaps)"

definition EvaluateTriggers :: "EpochOutcome \<Rightarrow> time \<Rightarrow> CircuitBreaker \<Rightarrow> CircuitBreaker \<times> BreakerReason" where
  "EvaluateTriggers out now b =
     (if halted b then (b, reason b)
      else if market_loop (MarketSnapshots out)
        then (Trip BreakerReasonMarketCrash now b, BreakerReasonMarketCrash)
      else if 0 < FundedNodes out \<and>
              fle defaultStopOutFraction (fdiv (f64_of_int (NodesHitStopLoss out)) (f64_of_int (FundedNodes out)))
        then (Trip BreakerReasonMassStopOut now b, BreakerReasonMassStopOut)
      else if 0 < RPCRequests out \<and> defaultRPCErrorWindowFloor \<le> WindowDuration out \<and>
              fle defaultRPCErrorFraction (fdiv (f64_of_int (RPCErrors out)) (f64_of_int (RPCRequests out)))
        then (Trip BreakerReasonRPCErrorBurst now b, BreakerReasonRPCErrorBurst)
      else (b, BreakerReasonNone))"

section \<open>Abstract breaker\<close>

definition breaker_ok :: "CircuitBreaker \<Rightarrow> bool" where
  "breaker_ok b \<longleftrightarrow> (halted b \<longleftrightarrow> reason b \<noteq> BreakerReasonNone) \<and> (halted b \<longleftrightarrow> trippedAt b \<noteq> zero_time)"

definition tripped :: "CircuitBreaker \<Rightarrow> (BreakerReason \<times> time) option" where
  "tripped b = (if halted b then Some (reason b, trippedAt b) else None)"

text \<open>
  The contract of a breaker towards the loops that ask it: what trips, clears and expires.  The
  clock is past the zero time and a trip names a reason.
\<close>

locale tripwire =
  fixes trip :: "BreakerReason \<Rightarrow> time \<Rightarrow> 'b \<Rightarrow> 'b" and clear :: "'b \<Rightarrow> 'b" and poll :: "time \<Rightarrow> 'b \<Rightarrow> 'b"
    and view :: "'b \<Rightarrow> (BreakerReason \<times> time) option" and window :: "'b \<Rightarrow> duration" and ok :: "'b \<Rightarrow> bool"
  assumes ok_trip: "ok b \<Longrightarrow> r \<noteq> BreakerReasonNone \<Longrightarrow> 0 < now \<Longrightarrow> ok (trip r now b)"
    and ok_clear: "ok b \<Longrightarrow> ok (clear b)"
    and ok_poll: "ok b \<Longrightarrow> ok (poll now b)"
    and view_trip: "view (trip r now b) = Some (r, now)"
    and view_clear: "view (clear b) = None"
    and view_poll: "ok b \<Longrightarrow> view (poll now b) =
        (case view b of None \<Rightarrow> None | Some (r, t) \<Rightarrow> if window b \<le> time_sub now t then None else Some (r, t))"
    and window_poll: "window (poll now b) = window b"
    and window_trip: "window (trip r now b) = window b"
begin

text \<open>Polls before the cooldown has passed leave the trip in place, the first one after clears it.\<close>

lemma polls_early:
  "ok b \<Longrightarrow> view b = Some (r, t) \<Longrightarrow> \<forall>now \<in> set nows. time_sub now t < window b \<Longrightarrow>
   view (fold poll nows b) = Some (r, t) \<and> ok (fold poll nows b) \<and> window (fold poll nows b) = window b"
proof (induction nows arbitrary: b)
  case (Cons now nows)
  have "view (poll now b) = Some (r, t)" using Cons.prems by (simp add: view_poll)
  then show ?case using Cons by (simp add: ok_poll window_poll)
qed simp

lemma polls_cleared: "ok b \<Longrightarrow> view b = None \<Longrightarrow> view (fold poll nows b) = None"
proof (induction nows arbitrary: b)
  case (Cons now nows)
  then show ?case by (simp add: ok_poll view_poll)
qed simp

lemma polls_expire:
  assumes "ok b" "view b = Some (r, t)" "now \<in> set nows" "window b \<le> time_sub now t"
  shows "view (fold poll nows b) = None"
  using assms
proof (induction nows arbitrary: b)
  case (Cons n nows)
  show ?case
  proof (cases "window b \<le> time_sub n t")
    case True
    with Cons.prems have "view (poll n b) = None" by (simp add: view_poll)
    with Cons.prems(1) polls_cleared show ?thesis by (simp add: ok_poll)
  next
    case False
    with Cons.prems have "view (poll n b) = Some (r, t)" "now \<in> set nows" by (auto simp: view_poll)
    with Cons.prems Cons.IH [of "poll n b"] show ?thesis by (simp add: ok_poll window_poll)
  qed
qed simp

end

interpretation breaker: tripwire Trip Reset maybeReset tripped Cooldown breaker_ok
  by unfold_locales (auto simp: breaker_ok_def Trip_def Reset_def maybeReset_def tripped_def)

lemma breaker_ok_New: "breaker_ok (NewCircuitBreaker c)"
  by (simp add: breaker_ok_def NewCircuitBreaker_def)

lemma breaker_ok_Evaluate: "breaker_ok b \<Longrightarrow> 0 < now \<Longrightarrow> breaker_ok (fst (EvaluateTriggers out now b))"
  by (auto simp: EvaluateTriggers_def breaker.ok_trip)

section \<open>Exact thresholds\<close>

lemma market_loop_iff:
  "market_loop snaps \<longleftrightarrow>
     (\<exists>snap \<in> set snaps. (Asset snap = ''SOL'' \<or> Asset snap = ''ETH'') \<and> fle defaultMarketMovePct (snap_abs snap))"
  by (induction snaps) auto

text \<open>
  A quotient of two counts reaches the rounded threshold exactly when the real quotient reaches the
  decimal one, for denominators up to \<open>2 ^ 50\<close>: the gap between a fraction below the threshold and
  the threshold is wider than the rounding error.
\<close>

lemma count_quotient_threshold:
  assumes c: "c = rnd p" "is_fin c" and y: "rnd y = Fin y" "y < fval c"
    and n: "0 \<le> n" "n \<le> 2 ^ 50" and d: "0 < d" "d \<le> 2 ^ 50"
    and gap: "of_int n / of_int d < p \<Longrightarrow> of_int n / of_int d \<le> y"
  shows "fle c (fdiv (f64_of_int n) (f64_of_int d)) \<longleftrightarrow> p \<le> of_int n / of_int d"
proof -
  have "\<bar>n\<bar> \<le> 2 ^ 53" "\<bar>d\<bar> \<le> 2 ^ 53" using n d by auto
  then have f: "f64_of_int n = Fin (of_int n)" "f64_of_int d = Fin (of_int d)" by (simp_all add: f64_of_int_fin)
  have k: "fkey (fdiv (f64_of_int n) (f64_of_int d)) = fkey (rnd (of_int n / of_int d))"
    using d unfolding f by (subst fdiv_key) auto
  have nn: "\<not> is_nan (fdiv (f64_of_int n) (f64_of_int d))" using d unfolding f by (intro fin_op_not_nan) auto
  show ?thesis
  proof (cases "p \<le> of_int n / of_int d")
    case True
    then show ?thesis using nn by (simp add: fle_def c(1) k rnd_key_mono)
  next
    case False
    then have "of_int n / of_int d \<le> y" using gap by simp
    then have "fkey (rnd (of_int n / of_int d)) \<le> fkey (Fin y)" using rnd_key_mono y(1) by metis
    also have "\<dots> < fkey c" using y(2) c(2) by (simp add: fkey_fin)
    finally show ?thesis using False by (auto simp: fle_def k)
  qed
qed

lemma stop_out_threshold:
  assumes "0 \<le> n" "n \<le> 2 ^ 50" "0 < d" "d \<le> 2 ^ 50"
  shows "fle defaultStopOutFraction (fdiv (f64_of_int n) (f64_of_int d)) \<longleftrightarrow> d \<le> 2 * n"
proof -
  let ?y = "9007199254740991 / 18014398509481984 :: rat"
  have "fle defaultStopOutFraction (fdiv (f64_of_int n) (f64_of_int d)) \<longleftrightarrow> 1 / 2 \<le> (of_int n / of_int d :: rat)"
  proof (rule count_quotient_threshold [where y = ?y])
    show "defaultStopOutFraction = rnd (1 / 2)" "is_fin defaultStopOutFraction" "?y < fval defaultStopOutFraction"
      by (simp_all add: defaultStopOutFraction_def)
    show "rnd ?y = Fin ?y" by code_simp
    assume "of_int n / of_int d < (1 / 2 :: rat)"
    then have "(of_int (2 * n) :: rat) < of_int d" using assms(3) by (simp add: pos_divide_less_eq)
    then have "2 * n + 1 \<le> d" unfolding of_int_less_iff by simp
    with assms(4) have "18014398509481984 * n \<le> 9007199254740991 * d" by simp
    then have "(of_int (18014398509481984 * n) :: rat) \<le> of_int (9007199254740991 * d)" unfolding of_int_le_iff .
    then show "of_int n / of_int d \<le> ?y" using assms(3) by (simp add: pos_divide_le_eq)
  qed (use assms in auto)
  also have "\<dots> \<longleftrightarrow> (of_int d :: rat) \<le> of_int (2 * n)" using assms(3) by (simp add: pos_le_divide_eq mult.commute)
  finally show ?thesis unfolding of_int_le_iff .
qed

lemma rpc_error_threshold:
  assumes "0 \<le> n" "n \<le> 2 ^ 50" "0 < d" "d \<le> 2 ^ 50"
  shows "fle defaultRPCErrorFraction (fdiv (f64_of_int n) (f64_of_int d)) \<longleftrightarrow> 3 * d \<le> 10 * n"
proof -
  let ?y = "5404319552844594 / 18014398509481984 :: rat"
  have c: "defaultRPCErrorFraction = Fin (5404319552844595 / 18014398509481984)"
    unfolding defaultRPCErrorFraction_def by code_simp
  have "fle defaultRPCErrorFraction (fdiv (f64_of_int n) (f64_of_int d)) \<longleftrightarrow> 30 / 100 \<le> (of_int n / of_int d :: rat)"
  proof (rule count_quotient_threshold [where y = ?y])
    show "defaultRPCErrorFraction = rnd (30 / 100)" by (rule defaultRPCErrorFraction_def)
    show "is_fin defaultRPCErrorFraction" "?y < fval defaultRPCErrorFraction" unfolding c by simp_all
    show "rnd ?y = Fin ?y" by code_simp
    assume "of_int n / of_int d < (30 / 100 :: rat)"
    then have "(of_int (10 * n) :: rat) < of_int (3 * d)" using assms(3) by (simp add: pos_divide_less_eq)
    then have "10 * n + 1 \<le> 3 * d" unfolding of_int_less_iff by simp
    with assms(4) have "18014398509481984 * n \<le> 5404319552844594 * d" by simp
    then have "(of_int (18014398509481984 * n) :: rat) \<le> of_int (5404319552844594 * d)" unfolding of_int_le_iff .
    then show "of_int n / of_int d \<le> ?y" using assms(3) by (simp add: pos_divide_le_eq)
  qed (use assms in auto)
  also have "\<dots> \<longleftrightarrow> (of_int (3 * d) :: rat) \<le> of_int (10 * n)" using assms(3) by (simp add: pos_le_divide_eq mult.commute)
  finally show ?thesis unfolding of_int_le_iff .
qed

section \<open>Interleavings\<close>

text \<open>
  A goroutine inside one of the methods, at the points between which others can run: the section
  under the mutex, the store to the atomic flag, and for a poll also the load of the flag and the
  read of \<^verbatim>\<open>trippedAt\<close> under the mutex.
\<close>

datatype pc = TripLocked BreakerReason time | TripStore | ResetLocked | ResetStore
  | PollHalted time | PollRead time | PollTest time time | Done

fun pc_step :: "CircuitBreaker \<Rightarrow> pc \<Rightarrow> CircuitBreaker \<times> pc" where
  "pc_step b (TripLocked r now) = (b\<lparr>reason := r, trippedAt := now\<rparr>, TripStore)"
| "pc_step b TripStore = (b\<lparr>halted := True\<rparr>, Done)"
| "pc_step b ResetLocked = (b\<lparr>reason := BreakerReasonNone, trippedAt := zero_time\<rparr>, ResetStore)"
| "pc_step b ResetStore = (b\<lparr>halted := False\<rparr>, Done)"
| "pc_step b (PollHalted now) = (b, if halted b then PollRead now else Done)"
| "pc_step b (PollRead now) = (b, if trippedAt b = zero_time then Done else PollTest now (trippedAt b))"
| "pc_step b (PollTest now t) = (b, if Cooldown b \<le> time_sub now t then ResetLocked else Done)"
| "pc_step b Done = (b, Done)"

inductive sys_step :: "CircuitBreaker \<times> pc list \<Rightarrow> CircuitBreaker \<times> pc list \<Rightarrow> bool" where
  move: "i < length ps \<Longrightarrow> ps ! i \<noteq> Done \<Longrightarrow> pc_step b (ps ! i) = (b', p') \<Longrightarrow>
     sys_step (b, ps) (b', ps[i := p'])"

inductive_cases sys_stepE: "sys_step (b, ps) s"

fun run_alone :: "nat \<Rightarrow> CircuitBreaker \<times> pc \<Rightarrow> CircuitBreaker \<times> pc" where
  "run_alone 0 s = s"
| "run_alone (Suc n) (b, p) = run_alone n (pc_step b p)"

text \<open>Run without interruption, the steps of a method are the method.\<close>

lemma Trip_steps: "run_alone 2 (b, TripLocked r now) = (Trip r now b, Done)"
  by (simp add: numeral_eq_Suc Trip_def)

lemma Reset_steps: "run_alone 2 (b, ResetLocked) = (Reset b, Done)"
  by (simp add: numeral_eq_Suc Reset_def)

lemma maybeReset_steps: "run_alone 5 (b, PollHalted now) = (maybeReset now b, Done)"
  by (simp add: numeral_eq_Suc maybeReset_def Reset_def)

lemma sys_step_at:
  "i < length ps \<Longrightarrow> ps ! i \<noteq> Done \<Longrightarrow> s' = (fst (pc_step b (ps ! i)), ps[i := snd (pc_step b (ps ! i))]) \<Longrightarrow>
   sys_step (b, ps) s'"
  by (metis prod.collapse sys_step.move)

declare rtranclp.rtrancl_into_rtrancl [trans]

definition stuck :: "CircuitBreaker \<Rightarrow> bool" where
  "stuck b \<longleftrightarrow> halted b \<and> trippedAt b = zero_time"

lemma stuck_poll: "stuck b \<Longrightarrow> maybeReset now b = b"
  by (simp add: stuck_def maybeReset_def)

lemma stuck_evaluate: "stuck b \<Longrightarrow> EvaluateTriggers out now b = (b, reason b)"
  by (simp add: stuck_def EvaluateTriggers_def)

section \<open>Sequences of operations\<close>

datatype breaker_op = OpTrip BreakerReason time | OpReset | OpPoll time | OpEvaluate EpochOutcome time

fun breaker_op_ok :: "breaker_op \<Rightarrow> bool" where
  "breaker_op_ok (OpTrip r t) = (r \<noteq> BreakerReasonNone \<and> 0 < t)"
| "breaker_op_ok (OpEvaluate out t) = (0 < t)"
| "breaker_op_ok _ = True"

fun breaker_run :: "breaker_op \<Rightarrow> CircuitBreaker \<Rightarrow> CircuitBreaker" where
  "breaker_run (OpTrip r t) b = Trip r t b"
| "breaker_run OpReset b = Reset b"
| "breaker_run (OpPoll t) b = maybeReset t b"
| "breaker_run (OpEvaluate out t) b = fst (EvaluateTriggers out t b)"

lemma breaker_run_ok: "breaker_ok b \<Longrightarrow> breaker_op_ok x \<Longrightarrow> breaker_ok (breaker_run x b)"
  by (cases x) (auto intro: breaker.ok_trip breaker.ok_clear breaker.ok_poll breaker_ok_Evaluate)

lemma breaker_runs_ok: "breaker_ok b \<Longrightarrow> \<forall>x \<in> set xs. breaker_op_ok x \<Longrightarrow> breaker_ok (fold breaker_run xs b)"
  by (induction xs arbitrary: b) (auto intro: breaker_run_ok)

section \<open>Properties\<close>

text \<open>
  On a breaker that is not tripped, \<^verbatim>\<open>EvaluateTriggers\<close> trips for exactly the documented
  conditions, in this precedence: SOL or ETH moved by at least the market threshold; at least half
  of the funded nodes hit their stop; at least 30 per cent of the RPC requests of a window of at
  least five minutes failed.  The two fractions are decided exactly despite the floating-point
  division (for counts up to \<open>2 ^ 50\<close>).
\<close>

theorem evaluate_triggers_spec:
  assumes "\<not> halted b"
    and "0 \<le> NodesHitStopLoss out" "NodesHitStopLoss out \<le> 2 ^ 50" "FundedNodes out \<le> 2 ^ 50"
    and "0 \<le> RPCErrors out" "RPCErrors out \<le> 2 ^ 50" "RPCRequests out \<le> 2 ^ 50"
  defines "crash \<equiv> \<exists>snap \<in> set (MarketSnapshots out).
      (Asset snap = ''SOL'' \<or> Asset snap = ''ETH'') \<and> fle (rnd (15 / 100)) (snap_abs snap)"
    and "stops \<equiv> 0 < FundedNodes out \<and> FundedNodes out \<le> 2 * NodesHitStopLoss out"
    and "rpc \<equiv> 0 < RPCRequests out \<and> 300000000000 \<le> WindowDuration out \<and> 3 * RPCRequests out \<le> 10 * RPCErrors out"
  shows "EvaluateTriggers out now b =
    (if crash then (Trip BreakerReasonMarketCrash now b, BreakerReasonMarketCrash)
     else if stops then (Trip BreakerReasonMassStopOut now b, BreakerReasonMassStopOut)
     else if rpc then (Trip BreakerReasonRPCErrorBurst now b, BreakerReasonRPCErrorBurst)
     else (b, BreakerReasonNone))"
proof -
  have "0 < FundedNodes out \<and> fle defaultStopOutFraction (fdiv (f64_of_int (NodesHitStopLoss out)) (f64_of_int (FundedNodes out))) \<longleftrightarrow> stops"
    using assms(2-4) stop_out_threshold unfolding stops_def by blast
  moreover have "0 < RPCRequests out \<and> defaultRPCErrorWindowFloor \<le> WindowDuration out \<and>
      fle defaultRPCErrorFraction (fdiv (f64_of_int (RPCErrors out)) (f64_of_int (RPCRequests out))) \<longleftrightarrow> rpc"
    using assms(5-7) rpc_error_threshold unfolding rpc_def
    by (auto simp: defaultRPCErrorWindowFloor_def duration_defs)
  ultimately show ?thesis using assms(1)
    by (simp add: EvaluateTriggers_def market_loop_iff crash_def defaultMarketMovePct_def)
qed

definition sample_outcome :: EpochOutcome where
  "sample_outcome = \<lparr>FundedNodes = 4, NodesHitStopLoss = 2, RPCRequests = 100, RPCErrors = 0,
     WindowDuration = 300000000000, MarketSnapshots = []\<rparr>"

theorem evaluate_triggers_spec_witness:
  "snd (EvaluateTriggers sample_outcome 7 (NewCircuitBreaker 0)) = BreakerReasonMassStopOut"
  using evaluate_triggers_spec [of "NewCircuitBreaker 0" sample_outcome 7]
  by (simp add: sample_outcome_def NewCircuitBreaker_def)

text \<open>
  Whatever sequence of trips, resets, polls and evaluations runs, one after the other, with
  clock readings past the zero time, the flag the node loops read agrees with the recorded reason
  and time, and after a trip the automatic reset keeps the swarm halted through every poll made
  before the cooldown has passed and has cleared it after any poll made once it has.
\<close>

theorem breaker_auto_reset:
  assumes "\<forall>x \<in> set xs. breaker_op_ok x" and "b = fold breaker_run xs (NewCircuitBreaker c)"
  shows "breaker_ok b \<and>
    (halted b \<longrightarrow>
       (\<forall>nows. (\<forall>n \<in> set nows. time_sub n (trippedAt b) < Cooldown b) \<longrightarrow> halted (fold maybeReset nows b)) \<and>
       (\<forall>nows. (\<exists>n \<in> set nows. Cooldown b \<le> time_sub n (trippedAt b)) \<longrightarrow> \<not> halted (fold maybeReset nows b)))"
proof -
  have ok: "breaker_ok b" unfolding assms(2) by (rule breaker_runs_ok [OF breaker_ok_New assms(1)])
  have view: "halted b \<Longrightarrow> tripped b = Some (reason b, trippedAt b)" "\<And>b'. halted b' \<longleftrightarrow> tripped b' \<noteq> None"
    by (auto simp: tripped_def)
  show ?thesis
    using ok view breaker.polls_early [OF ok] breaker.polls_expire [OF ok] by (metis option.distinct(1))
qed

theorem breaker_auto_reset_witness:
  "halted (fold maybeReset [10, 20] (fold breaker_run [OpTrip BreakerReasonManualOverride 5] (NewCircuitBreaker 100))) \<and>
   \<not> halted (fold maybeReset [10, 105] (fold breaker_run [OpTrip BreakerReasonManualOverride 5] (NewCircuitBreaker 100)))"
  using breaker_auto_reset [of "[OpTrip BreakerReasonManualOverride 5]" _ 100]
  by (simp add: NewCircuitBreaker_def Trip_def Reset_def maybeReset_def time_sub_def go_defs)

text \<open>
  C33: because \<^verbatim>\<open>Trip\<close> and \<^verbatim>\<open>Reset\<close> store the flag after releasing the mutex, two overlapping
  calls can leave the breaker halted with no trip time.  In that state no poll ever resets it and
  no evaluation changes it, and the reported reason is none: the swarm stays halted until an
  operator intervenes.
\<close>

theorem breaker_race_halts_forever:
  "\<exists>b. sys_step\<^sup>*\<^sup>* (NewCircuitBreaker c, [TripLocked r t, ResetLocked]) (b, [Done, Done]) \<and>
       halted b \<and> reason b = BreakerReasonNone \<and>
       (\<forall>nows. fold maybeReset nows b = b) \<and> (\<forall>out now. EvaluateTriggers out now b = (b, BreakerReasonNone))"
proof -
  define b where "b = (NewCircuitBreaker c)\<lparr>reason := BreakerReasonNone, trippedAt := zero_time, halted := True\<rparr>"
  let ?b1 = "(NewCircuitBreaker c)\<lparr>reason := r, trippedAt := t\<rparr>"
  let ?b2 = "(NewCircuitBreaker c)\<lparr>reason := BreakerReasonNone, trippedAt := zero_time\<rparr>"
  have "sys_step\<^sup>*\<^sup>* (NewCircuitBreaker c, [TripLocked r t, ResetLocked]) (?b1, [TripStore, ResetLocked])"
    by (rule r_into_rtranclp, rule sys_step_at [of 0]) simp_all
  also have "sys_step (?b1, [TripStore, ResetLocked]) (?b2, [TripStore, ResetStore])"
    by (rule sys_step_at [of 1]) simp_all
  also have "sys_step (?b2, [TripStore, ResetStore]) (?b2\<lparr>halted := False\<rparr>, [TripStore, Done])"
    by (rule sys_step_at [of 1]) simp_all
  also have "sys_step (?b2\<lparr>halted := False\<rparr>, [TripStore, Done]) (b, [Done, Done])"
    by (rule sys_step_at [of 0]) (simp_all add: b_def)
  finally have "sys_step\<^sup>*\<^sup>* (NewCircuitBreaker c, [TripLocked r t, ResetLocked]) (b, [Done, Done])" by simp
  moreover have st: "stuck b" "halted b" "reason b = BreakerReasonNone" by (simp_all add: b_def stuck_def)
  moreover have "fold maybeReset nows b = b" for nows by (induction nows) (simp_all add: stuck_poll st(1))
  ultimately show ?thesis using stuck_evaluate by metis
qed

text \<open>
  An overlap of the automatic reset with a fresh trip can also lose the trip: the breaker ends
  not halted although its reason and time say that it has just been tripped.
\<close>

theorem breaker_race_loses_trip:
  assumes "halted b" "trippedAt b \<noteq> zero_time" "Cooldown b \<le> time_sub now (trippedAt b)"
  shows "\<exists>b'. sys_step\<^sup>*\<^sup>* (b, [PollHalted now, TripLocked r t]) (b', [Done, Done]) \<and>
     \<not> halted b' \<and> reason b' = r \<and> trippedAt b' = t"
proof -
  let ?b1 = "b\<lparr>reason := BreakerReasonNone, trippedAt := zero_time\<rparr>"
  let ?b2 = "b\<lparr>reason := r, trippedAt := t\<rparr>"
  have "sys_step\<^sup>*\<^sup>* (b, [PollHalted now, TripLocked r t]) (b, [PollRead now, TripLocked r t])"
    by (rule r_into_rtranclp, rule sys_step_at [of 0]) (simp_all add: assms)
  also have "sys_step (b, [PollRead now, TripLocked r t]) (b, [PollTest now (trippedAt b), TripLocked r t])"
    by (rule sys_step_at [of 0]) (simp_all add: assms)
  also have "sys_step (b, [PollTest now (trippedAt b), TripLocked r t]) (b, [ResetLocked, TripLocked r t])"
    by (rule sys_step_at [of 0]) (simp_all add: assms)
  also have "sys_step (b, [ResetLocked, TripLocked r t]) (?b1, [ResetStore, TripLocked r t])"
    by (rule sys_step_at [of 0]) simp_all
  also have "sys_step (?b1, [ResetStore, TripLocked r t]) (?b2, [ResetStore, TripStore])"
    by (rule sys_step_at [of 1]) simp_all
  also have "sys_step (?b2, [ResetStore, TripStore]) (?b2\<lparr>halted := True\<rparr>, [ResetStore, Done])"
    by (rule sys_step_at [of 1]) simp_all
  also have "sys_step (?b2\<lparr>halted := True\<rparr>, [ResetStore, Done]) (?b2\<lparr>halted := False\<rparr>, [Done, Done])"
    by (rule sys_step_at [of 0]) simp_all
  finally have "sys_step\<^sup>*\<^sup>* (b, [PollHalted now, TripLocked r t]) (?b2\<lparr>halted := False\<rparr>, [Done, Done])" by simp
  then show ?thesis by (intro exI [of _ "?b2\<lparr>halted := False\<rparr>"]) simp
qed

theorem breaker_race_loses_trip_witness:
  "\<exists>b'. sys_step\<^sup>*\<^sup>* (Trip BreakerReasonMarketCrash 5 (NewCircuitBreaker 100), [PollHalted 105, TripLocked BreakerReasonMassStopOut 106])
        (b', [Done, Done]) \<and> \<not> halted b' \<and> reason b' = BreakerReasonMassStopOut \<and> trippedAt b' = 106"
  by (rule breaker_race_loses_trip) (simp_all add: Trip_def NewCircuitBreaker_def time_sub_def go_defs)

end
