(* ===== verification/Hibernation.thy ===== *)
theory Hibernation
  imports GoTime Genome
begin

text \<open>
  \<^verbatim>\<open>internal/runtime/hibernation.go\<close>: the sleep/wake cycle of shadow agents.  The scheduler keeps
  nothing but its clock; the reading of that clock is the argument \<open>now\<close>.
\<close>

section \<open>Model\<close>

record HibernationDecision =
  hd_Awake :: bool
  hd_Reason :: string

definition isAwakeAt :: "time \<Rightarrow> time \<Rightarrow> duration \<Rightarrow> duration \<Rightarrow> bool" where
  "isAwakeAt now anchor interval window =
     (if interval \<le> 0 then True
      else let elapsed = time_sub now anchor;
               phase0 = gomod elapsed interval;
               phase = (if phase0 < 0 then phase0 + interval else phase0);
               half = godiv window 2
           in phase < half \<or> wrap64 (interval - half) \<le> phase)"

definition Decide :: "time \<Rightarrow> string \<Rightarrow> SleepSchedule \<Rightarrow> time \<Rightarrow> duration \<Rightarrow> HibernationDecision" where
  "Decide now nodeClass sched anchor strategistInterval =
     (if nodeClass \<noteq> ''shadow'' then \<lparr>hd_Awake = True, hd_Reason = ''funded''\<rparr>
      else if \<not> SleepBetween sched then \<lparr>hd_Awake = True, hd_Reason = ''hibernation_disabled''\<rparr>
      else if AwakeWindowMinutes sched \<le> 0 then \<lparr>hd_Awake = True, hd_Reason = ''shadow_no_window''\<rparr>
      else if strategistInterval \<le> 0 then \<lparr>hd_Awake = True, hd_Reason = ''hibernation_disabled''\<rparr>
      else let window = wrap64 (AwakeWindowMinutes sched * Minute) in
        if strategistInterval \<le> window then \<lparr>hd_Awake = True, hd_Reason = ''shadow_awake''\<rparr>
        else if isAwakeAt now anchor strategistInterval window then \<lparr>hd_Awake = True, hd_Reason = ''shadow_awake''\<rparr>
        else \<lparr>hd_Awake = False, hd_Reason = ''shadow_asleep''\<rparr>)"

definition IsAwake :: "time \<Rightarrow> string \<Rightarrow> SleepSchedule \<Rightarrow> time \<Rightarrow> duration \<Rightarrow> bool" where
  "IsAwake now nodeClass sched anchor strategistInterval = hd_Awake (Decide now nodeClass sched anchor strategistInterval)"

definition AwakeFractionOver24h :: "string \<Rightarrow> SleepSchedule \<Rightarrow> time \<Rightarrow> time \<Rightarrow> duration \<Rightarrow> f64" where
  "AwakeFractionOver24h nodeClass sched anchor start strategistInterval =
     (if strategistInterval \<le> 0 \<or> AwakeWindowMinutes sched \<le> 0 \<or> \<not> SleepBetween sched \<or> nodeClass \<noteq> ''shadow'' then Fin 1
      else let window = wrap64 (AwakeWindowMinutes sched * Minute);
               awakeCount = length (filter (\<lambda>i. isAwakeAt (start + int i * Minute) anchor strategistInterval window) [0..<1440])
           in fdiv (f64_of_int (int awakeCount)) (f64_of_int 1440))"

section \<open>The phase of the cycle\<close>

lemma phase_mod:
  assumes "0 < i"
  shows "(if gomod e i < 0 then gomod e i + i else gomod e i) = e mod i"
proof -
  have "e mod i = (e - godiv e i * i) mod i"
    using mod_mult_self1 [of "e - godiv e i * i" "godiv e i" i] by simp
  then have m: "e mod i = gomod e i mod i" by (simp add: gomod_def mult.commute)
  have "- i < gomod e i \<and> gomod e i < i"
  proof (cases "0 \<le> e")
    case True
    then have "gomod e i = e mod i" using assms by (rule gomod_pos)
    then show ?thesis using pos_mod_bound [OF assms, of e] pos_mod_sign [OF assms, of e] assms by linarith
  next
    case False
    then have "gomod e i = - ((- e) mod i)" using assms by (simp add: gomod_neg)
    then show ?thesis using pos_mod_bound [OF assms, of "- e"] pos_mod_sign [OF assms, of "- e"] assms by linarith
  qed
  then show ?thesis
    using m mod_pos_pos_trivial [of "gomod e i" i] mod_pos_pos_trivial [of "gomod e i + i" i] by auto
qed

lemma isAwakeAt_phase:
  assumes "0 < interval" "0 \<le> window" "window < interval" "interval \<le> max_int64"
  shows "isAwakeAt now anchor interval window \<longleftrightarrow>
    time_sub now anchor mod interval < window div 2 \<or> interval - window div 2 \<le> time_sub now anchor mod interval"
proof -
  have "is_int64 (interval - window div 2)" using assms unfolding is_int64_def min_int64_def max_int64_def by linarith
  then show ?thesis using assms phase_mod [OF assms(1), of "time_sub now anchor"]
    by (simp add: isAwakeAt_def Let_def godiv_pos)
qed

lemma near_tick:
  fixes d :: int
  assumes "0 < i" "0 \<le> h" "2 * h \<le> i"
  shows "(d mod i < h \<or> i - h \<le> d mod i) \<longleftrightarrow> (\<exists>k. k * i - h \<le> d \<and> d < k * i + h)"
proof
  have d: "d = (d div i) * i + d mod i" by simp
  assume "d mod i < h \<or> i - h \<le> d mod i"
  then show "\<exists>k. k * i - h \<le> d \<and> d < k * i + h"
  proof
    assume "d mod i < h"
    moreover have "0 \<le> d mod i" using assms(1) by simp
    ultimately have "(d div i) * i - h \<le> d \<and> d < (d div i) * i + h" using d assms(2) by linarith
    then show ?thesis by blast
  next
    assume "i - h \<le> d mod i"
    moreover have "d mod i < i" using assms(1) by simp
    ultimately have "(d div i + 1) * i - h \<le> d \<and> d < (d div i + 1) * i + h"
      using d assms(2) unfolding distrib_right mult_1 by linarith
    then show ?thesis by blast
  qed
next
  assume "\<exists>k. k * i - h \<le> d \<and> d < k * i + h"
  then obtain k where k: "k * i - h \<le> d" "d < k * i + h" by blast
  show "d mod i < h \<or> i - h \<le> d mod i"
  proof (cases "k * i \<le> d")
    case True
    have "d mod i = (d - k * i) mod i" using mod_mult_self1 [of "d - k * i" k i] by simp
    also have "\<dots> = d - k * i" using True k assms by (intro mod_pos_pos_trivial) auto
    finally show ?thesis using k by simp
  next
    case False
    have "d mod i = (d - k * i + i) mod i" using mod_mult_self1 [of "d - k * i + i" "k - 1" i] by (simp add: algebra_simps)
    also have "\<dots> = d - k * i + i" using False k assms by (intro mod_pos_pos_trivial) auto
    finally show ?thesis using k by simp
  qed
qed

section \<open>Awake time per cycle\<close>

lemma mod_shift_bij: "0 < i \<Longrightarrow> bij_betw (\<lambda>t. (t - a) mod i) {t0..<t0 + i} {0..<i::int}"
proof -
  assume i: "0 < i"
  have "inj_on (\<lambda>t. (t - a) mod i) {t0..<t0 + i}"
  proof
    fix t u
    assume tu: "t \<in> {t0..<t0 + i}" "u \<in> {t0..<t0 + i}" "(t - a) mod i = (u - a) mod i"
    then have "i dvd (t - a) - (u - a)" by (simp add: mod_eq_dvd_iff)
    then have "i dvd t - u" by simp
    moreover have "\<bar>t - u\<bar> < i" using tu by auto
    ultimately show "t = u" using dvd_imp_le_int [of "t - u" i] i by fastforce
  qed
  moreover have "(\<lambda>t. (t - a) mod i) ` {t0..<t0 + i} \<subseteq> {0..<i}" using i by auto
  ultimately show ?thesis using i by (simp add: bij_betw_def card_image card_subset_eq)
qed

lemma image_filter_bij: "bij_betw f A B \<Longrightarrow> f ` {t \<in> A. P (f t)} = {p \<in> B. P p}"
  unfolding bij_betw_def by blast

lemma card_phase:
  assumes "0 < i" "0 \<le> h" "2 * h \<le> i"
  shows "card {t \<in> {t0..<t0 + i}. (t - a) mod i < h \<or> i - h \<le> (t - a) mod i} = nat (2 * h)"
proof -
  let ?f = "\<lambda>t. (t - a) mod i" and ?P = "\<lambda>p. p < h \<or> i - h \<le> p"
  have b: "bij_betw ?f {t0..<t0 + i} {0..<i}" by (rule mod_shift_bij [OF assms(1)])
  have im: "?f ` {t \<in> {t0..<t0 + i}. ?P (?f t)} = {p \<in> {0..<i}. ?P p}"
    by (rule image_filter_bij [OF b])
  have "card {t \<in> {t0..<t0 + i}. ?P (?f t)} = card (?f ` {t \<in> {t0..<t0 + i}. ?P (?f t)})"
    using b by (intro card_image [symmetric]) (auto simp: bij_betw_def intro: inj_on_subset)
  also have "\<dots> = card ({0..<h} \<union> {i - h..<i})" unfolding im using assms by (intro arg_cong [of _ _ card]) auto
  also have "\<dots> = card {0..<h} + card {i - h..<i}" using assms by (intro card_Un_disjoint) auto
  finally show ?thesis using assms by (simp add: nat_mult_distrib)
qed

section \<open>Properties\<close>

text \<open>
  A hibernating shadow agent is awake exactly when the current time is within half the awake
  window of a strategist tick, a multiple of the interval counted from the anchor; every other kind
  of agent, and every schedule without a positive window, is always awake.
\<close>

theorem hibernation_awake_iff_near_tick:
  assumes "is_int64 (now - anchor)" "0 < interval" "interval \<le> max_int64" "0 \<le> AwakeWindowMinutes sched"
    "AwakeWindowMinutes sched * Minute < interval"
  shows "IsAwake now nodeClass sched anchor interval \<longleftrightarrow>
    nodeClass \<noteq> ''shadow'' \<or> \<not> SleepBetween sched \<or> AwakeWindowMinutes sched = 0 \<or>
    (\<exists>k. anchor + k * interval - AwakeWindowMinutes sched * Minute div 2 \<le> now \<and>
         now < anchor + k * interval + AwakeWindowMinutes sched * Minute div 2)"
proof -
  let ?w = "AwakeWindowMinutes sched * Minute"
  have w: "0 \<le> ?w" using assms(4) by (simp add: go_defs)
  then have "is_int64 ?w" using assms by (simp add: is_int64_def go_defs)
  then have wr: "wrap64 ?w = ?w" by simp
  have "isAwakeAt now anchor interval ?w \<longleftrightarrow> (\<exists>k. k * interval - ?w div 2 \<le> now - anchor \<and> now - anchor < k * interval + ?w div 2)"
    using isAwakeAt_phase [OF assms(2) w assms(5,3), of now anchor] near_tick [of interval "?w div 2" "now - anchor"] assms w
    by (simp add: time_sub_exact)
  also have "\<dots> \<longleftrightarrow> (\<exists>k. anchor + k * interval - ?w div 2 \<le> now \<and> now < anchor + k * interval + ?w div 2)"
    by (simp add: algebra_simps)
  finally show ?thesis using assms wr by (auto simp: IsAwake_def Decide_def Let_def)
qed

theorem hibernation_awake_iff_near_tick_witness:
  "IsAwake (59 * Minute) ''shadow'' \<lparr>AwakeWindowMinutes = 120, SleepBetween = True, WakeForBacktest = False\<rparr> 0 (12 * Hour)"
  by (subst hibernation_awake_iff_near_tick)
    (auto simp: is_int64_def go_defs intro!: exI [of _ 0])

text \<open>
  In any full cycle such an agent is awake for exactly twice half the window, in nanoseconds,
  wherever the cycle is cut: the awake share of the time is the window over the interval.
\<close>

theorem hibernation_awake_time_per_cycle:
  assumes "0 < AwakeWindowMinutes sched" "AwakeWindowMinutes sched * Minute < interval" "interval \<le> max_int64"
    "SleepBetween sched" "is_int64 (t0 - anchor)" "is_int64 (t0 + interval - anchor)"
  shows "card {t \<in> {t0..<t0 + interval}. IsAwake t ''shadow'' sched anchor interval} = nat (AwakeWindowMinutes sched * Minute)"
proof -
  let ?w = "AwakeWindowMinutes sched * Minute"
  have w: "0 \<le> ?w" "0 < interval" "is_int64 ?w" "2 * (?w div 2) = ?w" using assms by (auto simp: is_int64_def go_defs)
  have "IsAwake t ''shadow'' sched anchor interval \<longleftrightarrow> (t - anchor) mod interval < ?w div 2 \<or> interval - ?w div 2 \<le> (t - anchor) mod interval"
    if "t \<in> {t0..<t0 + interval}" for t
  proof -
    have "is_int64 (t - anchor)" using that assms(5,6) by (auto simp: is_int64_def)
    then show ?thesis using isAwakeAt_phase [OF w(2,1) assms(2,3), of t anchor] assms w
      by (simp add: IsAwake_def Decide_def Let_def time_sub_exact)
  qed
  then have "{t \<in> {t0..<t0 + interval}. IsAwake t ''shadow'' sched anchor interval} =
    {t \<in> {t0..<t0 + interval}. (t - anchor) mod interval < ?w div 2 \<or> interval - ?w div 2 \<le> (t - anchor) mod interval}"
    by auto
  then show ?thesis using card_phase [of interval "?w div 2" t0 anchor] w assms(2) by simp
qed

theorem hibernation_awake_time_per_cycle_witness:
  "card {t \<in> {0..<12 * Hour}. IsAwake t ''shadow'' \<lparr>AwakeWindowMinutes = 120, SleepBetween = True, WakeForBacktest = False\<rparr> 0 (12 * Hour)} =
   nat (120 * Minute)"
  using hibernation_awake_time_per_cycle
    [of "\<lparr>AwakeWindowMinutes = 120, SleepBetween = True, WakeForBacktest = False\<rparr>" "12 * Hour" 0 0]
  by (simp add: is_int64_def go_defs)

text \<open>
  With the zero time as anchor the cycle does not move: \<^verbatim>\<open>now.Sub(anchor)\<close> saturates, so for all
  instants past the year 293 the decision is the same, and an agent is asleep for ever or awake for ever.
\<close>

theorem hibernation_zero_anchor_frozen:
  assumes "max_int64 \<le> t" "max_int64 \<le> u"
  shows "Decide t nodeClass sched 0 interval = Decide u nodeClass sched 0 interval"
proof -
  have "time_sub t 0 = time_sub u 0" using assms by (simp add: time_sub_def)
  then show ?thesis by (simp add: Decide_def isAwakeAt_def Let_def)
qed

theorem hibernation_zero_anchor_frozen_witness:
  "Decide (738000 * Day) ''shadow'' \<lparr>AwakeWindowMinutes = 120, SleepBetween = True, WakeForBacktest = False\<rparr> 0 (12 * Hour) =
   Decide (738000 * Day + 6 * Hour) ''shadow'' \<lparr>AwakeWindowMinutes = 120, SleepBetween = True, WakeForBacktest = False\<rparr> 0 (12 * Hour)"
  by (rule hibernation_zero_anchor_frozen) (simp_all add: go_defs)

lemma awake_fraction_unit: "in_unit (AwakeFractionOver24h c s a t i)"
proof -
  let ?n = "length (filter (\<lambda>k. isAwakeAt (t + int k * Minute) a i (wrap64 (AwakeWindowMinutes s * Minute))) [0..<1440])"
  have "?n \<le> 1440" using length_filter_le [of _ "[0..<1440]"] by (metis diff_zero length_upt)
  then have n: "f64_of_int (int ?n) = Fin (of_int (int ?n))" "f64_of_int 1440 = Fin 1440" "int ?n \<le> 1440"
    using f64_of_int_fin [of "int ?n"] by (simp_all add: f64_of_int_def rnd_numeral)
  have "in_unit (fdiv (Fin (of_int (int ?n))) (Fin 1440))"
    using n(3) fdiv_le_1 [of "Fin (of_int (int ?n))" "Fin 1440"]
    by (simp add: in_unit_def fdiv_nonneg fle_fin)
  then show ?thesis using n by (simp add: AwakeFractionOver24h_def Let_def)
qed

end
