(* ===== verification/NodeRunner.thy ===== *)
theory NodeRunner
  imports TaskCore Breaker Hibernation
begin

text \<open>
  \<^verbatim>\<open>internal/runtime/scheduler.go\<close> and \<^verbatim>\<open>node_runner.go\<close>: the three loops of one agent.  A loop is the
  sequence of its ticks; the ticks of the three loops and the calls of \<^verbatim>\<open>Pause\<close> and \<^verbatim>\<open>Resume\<close>
  interleave arbitrarily, which a run of \<open>node_event\<close>s is.  An event carries what the code reads at
  that moment: the clock, the circuit breaker, and the outcome of waiting for a strategist slot.
\<close>

section \<open>Scheduler\<close>

definition Millisecond :: duration where "Millisecond = 1000000"

record Scheduler =
  sch_staggerStep :: duration
  sch_maxLLM :: int

definition NewScheduler :: "int \<Rightarrow> duration \<Rightarrow> Scheduler" where
  "NewScheduler maxConcurrentLLM staggerStep =
     \<lparr>sch_staggerStep = (if staggerStep \<le> 0 then 500 * Millisecond else staggerStep),
      sch_maxLLM = (if maxConcurrentLLM \<le> 0 then 4 else maxConcurrentLLM)\<rparr>"

definition StaggerOffset :: "Scheduler option \<Rightarrow> int \<Rightarrow> duration" where
  "StaggerOffset s i = (case s of None \<Rightarrow> 0 | Some sch \<Rightarrow> if i < 0 then 0 else wrap64 (i * sch_staggerStep sch))"

definition MaxStrategistConcurrency :: "Scheduler option \<Rightarrow> int" where
  "MaxStrategistConcurrency s = (case s of None \<Rightarrow> 0 | Some sch \<Rightarrow> sch_maxLLM sch)"

section \<open>Runner\<close>

record NodeRunnerConfig =
  nc_AgentID :: string
  nc_Genome :: AgentGenome
  nc_Bandit :: "TickBandit option"
  nc_Scheduler :: "Scheduler option"
  nc_MonitorInterval :: duration
  nc_StrategistInterval :: duration
  nc_HeartbeatInterval :: duration
  nc_MaxOutputTokens :: int
  nc_Breaker :: bool
  nc_Hibernation :: bool
  nc_NodeClass :: string
  nc_HibernationAnchor :: time

record NodeRunner =
  nr_cfg :: NodeRunnerConfig
  nr_paused :: bool
  nr_tickCount :: int
  nr_stratCount :: int
  nr_beatCount :: int

text \<open>The defaults that \<^verbatim>\<open>NewNodeRunner\<close> fills in; a zero interval of the genome means four hours.\<close>

definition runner_defaults :: "NodeRunnerConfig \<Rightarrow> NodeRunnerConfig" where
  "runner_defaults cfg =
     cfg\<lparr>nc_MonitorInterval := (if nc_MonitorInterval cfg = 0 then 30 * Second else nc_MonitorInterval cfg),
         nc_StrategistInterval :=
           (if nc_StrategistInterval cfg = 0 then
              (let secs = g_StrategistIntervalSeconds (nc_Genome cfg) in if 0 < secs then wrap64 (secs * Second) else 4 * Hour)
            else nc_StrategistInterval cfg),
         nc_HeartbeatInterval := (if nc_HeartbeatInterval cfg = 0 then 30 * Second else nc_HeartbeatInterval cfg),
         nc_MaxOutputTokens := (if nc_MaxOutputTokens cfg \<le> 0 then 1024 else nc_MaxOutputTokens cfg)\<rparr>"

definition NewNodeRunner :: "bool \<Rightarrow> bool \<Rightarrow> bool \<Rightarrow> NodeRunnerConfig \<Rightarrow> NodeRunner result" where
  "NewNodeRunner has_task has_llm has_store cfg =
     bindr (first_error
       [(nc_AgentID cfg = [], ''noderunner: agent id required''), (\<not> has_task, ''noderunner: task required''),
        (\<not> has_llm, ''noderunner: llm client required''), (\<not> has_store, ''noderunner: store required'')])
     (\<lambda>_. Ok \<lparr>nr_cfg = runner_defaults cfg, nr_paused = False, nr_tickCount = 0, nr_stratCount = 0, nr_beatCount = 0\<rparr>)"

definition node_Pause :: "NodeRunner \<Rightarrow> NodeRunner" where "node_Pause n = n\<lparr>nr_paused := True\<rparr>"
definition node_Resume :: "NodeRunner \<Rightarrow> NodeRunner" where "node_Resume n = n\<lparr>nr_paused := False\<rparr>"

definition node_isAwake :: "time \<Rightarrow> NodeRunner \<Rightarrow> bool" where
  "node_isAwake now n =
     (let c = nr_cfg n in
      if \<not> nc_Hibernation c then True
      else IsAwake now (nc_NodeClass c) (g_SleepSchedule (nc_Genome c)) (nc_HibernationAnchor c) (nc_StrategistInterval c))"

text \<open>The gate in front of both working loops.\<close>

definition gate_open :: "time \<Rightarrow> CircuitBreaker \<Rightarrow> NodeRunner \<Rightarrow> bool" where
  "gate_open now br n \<longleftrightarrow> \<not> nr_paused n \<and> \<not> (nc_Breaker (nr_cfg n) \<and> halted br) \<and> node_isAwake now n"

definition marshalMetadata :: "((string \<times> jval) list \<Rightarrow> string) \<Rightarrow> (string \<times> jval) list \<Rightarrow> string" where
  "marshalMetadata rd m =
     (if m = [] then [] else case marshal_floats (concat (map (jval_floats \<circ> snd) m)) of Inl _ \<Rightarrow> [] | Inr _ \<Rightarrow> rd m)"

definition trade_of :: "((string \<times> jval) list \<Rightarrow> string) \<Rightarrow> string \<Rightarrow> TaskTrade \<Rightarrow> Trade" where
  "trade_of rd agentID t =
     \<lparr>td_AgentID = agentID, td_EpochID = [], td_Chain = tt_Chain t, td_TradeType = tt_TradeType t, td_TokenPair = tt_TokenPair t, td_DEX = tt_DEX t,
      td_AmountIn = tt_AmountIn t, td_AmountOut = tt_AmountOut t, td_FeePaid = tt_FeePaid t, td_PnL = tt_PnL t, td_TxSignature = tt_TxSignature t,
      td_IsPaperTrade = tt_IsPaperTrade t, td_BanditPolicyUsed = tt_BanditPolicyUsed t, td_Metadata = marshalMetadata rd (tt_Metadata t)\<rparr>"

text \<open>The world a runner acts on: its own counters, the database and the task.\<close>

type_synonym 't world = "NodeRunner \<times> db \<times> 't"

definition log_trades :: "postgres \<Rightarrow> ((string \<times> jval) list \<Rightarrow> string) \<Rightarrow> string \<Rightarrow> TaskTrade list \<Rightarrow> db \<Rightarrow> db" where
  "log_trades pg rd agentID trades d = fold (\<lambda>t d. fst (LogTrade pg (trade_of rd agentID t) d)) trades d"

definition monitor_tick :: "postgres \<Rightarrow> ((string \<times> jval) list \<Rightarrow> string) \<Rightarrow> 't node_task \<Rightarrow> time \<Rightarrow> CircuitBreaker \<Rightarrow> 't world \<Rightarrow> 't world" where
  "monitor_tick pg rd T now br w =
     (case w of (n, d, t) \<Rightarrow>
        if \<not> gate_open now br n then (n, d, t)
        else let n' = n\<lparr>nr_tickCount := wrap64 (nr_tickCount n + 1)\<rparr> in
          (case tk_RunTick T t of
             (t', Inl _) \<Rightarrow> (n', d, t')
           | (t', Inr trades) \<Rightarrow> (n', log_trades pg rd (nc_AgentID (nr_cfg n)) trades d, t')))"

definition runner_strategist :: "NodeRunner \<Rightarrow> Strategist" where
  "runner_strategist n = \<lparr>st_AgentID = nc_AgentID (nr_cfg n), st_AgentName = g_Name (nc_Genome (nr_cfg n)), st_Genome = nc_Genome (nr_cfg n),
     st_Bandit = nc_Bandit (nr_cfg n), st_MaxOutputTokens = nc_MaxOutputTokens (nr_cfg n)\<rparr>"

text \<open>\<open>slot\<close> is the outcome of waiting for a slot when there is a scheduler.\<close>

definition runStrategistOnce ::
    "postgres \<Rightarrow> render \<Rightarrow> strategist_llm \<Rightarrow> 't node_task \<Rightarrow> unit result \<Rightarrow> 't world \<Rightarrow> 't world \<times> error option" where
  "runStrategistOnce pg R llm T slot w =
     (case w of (n, d, t) \<Rightarrow>
        (case (if nc_Scheduler (nr_cfg n) = None then Ok () else slot) of
           Inl e \<Rightarrow> ((n, d, t), Some (Wrap ''acquire strategist slot'' e))
         | Inr _ \<Rightarrow> (case Run pg R (Some llm) (Some (task.truncate T)) True (runner_strategist n) d t of
             (d', t', err) \<Rightarrow> ((n\<lparr>nr_stratCount := wrap64 (nr_stratCount n + 1)\<rparr>, d', t'), err))))"

definition strategist_tick ::
    "postgres \<Rightarrow> render \<Rightarrow> strategist_llm \<Rightarrow> 't node_task \<Rightarrow> time \<Rightarrow> CircuitBreaker \<Rightarrow> unit result \<Rightarrow> 't world \<Rightarrow> 't world" where
  "strategist_tick pg R llm T now br slot w =
     (if \<not> gate_open now br (fst w) then w else fst (runStrategistOnce pg R llm T slot w))"

definition heartbeat_tick :: "postgres \<Rightarrow> time \<Rightarrow> 't world \<Rightarrow> 't world" where
  "heartbeat_tick pg now w =
     (case w of (n, d, t) \<Rightarrow>
        (case UpdateHeartbeat pg now (nc_AgentID (nr_cfg n)) d of
           (d', Inl _) \<Rightarrow> (n, d', t)
         | (d', Inr _) \<Rightarrow> (n\<lparr>nr_beatCount := wrap64 (nr_beatCount n + 1)\<rparr>, d', t)))"

datatype node_event =
    MonitorTick time CircuitBreaker
  | StrategistTick time CircuitBreaker strategist_llm "unit result"
  | HeartbeatTick time
  | PauseCall
  | ResumeCall

fun node_step :: "postgres \<Rightarrow> render \<Rightarrow> ((string \<times> jval) list \<Rightarrow> string) \<Rightarrow> 't node_task \<Rightarrow> node_event \<Rightarrow> 't world \<Rightarrow> 't world" where
  "node_step pg R rd T (MonitorTick now br) w = monitor_tick pg rd T now br w"
| "node_step pg R rd T (StrategistTick now br llm slot) w = strategist_tick pg R llm T now br slot w"
| "node_step pg R rd T (HeartbeatTick now) w = heartbeat_tick pg now w"
| "node_step pg R rd T PauseCall w = (node_Pause (fst w), snd w)"
| "node_step pg R rd T ResumeCall w = (node_Resume (fst w), snd w)"

text \<open>
  \<^verbatim>\<open>Run\<close>: a heartbeat at the start, the loops until the context is cancelled (the loops then return
  nil), and the task's positions closed; the trades of closing are dropped by the code.
\<close>

definition node_Run ::
    "postgres \<Rightarrow> render \<Rightarrow> ((string \<times> jval) list \<Rightarrow> string) \<Rightarrow> 't node_task \<Rightarrow> time \<Rightarrow> node_event list \<Rightarrow> 't world \<Rightarrow> 't world" where
  "node_Run pg R rd T start evs w =
     (case fold (node_step pg R rd T) evs (heartbeat_tick pg start w) of
        (n, d, t) \<Rightarrow> (n, d, fst (tk_CloseAllPositions T t)))"

section \<open>Lemmas\<close>

lemma LogTrade_other:
  "\<exists>rows. fst (LogTrade pg t d) = d\<lparr>t_trades := t_trades d @ rows\<rparr> \<and> (\<forall>r \<in> set rows. tr_agent r = td_AgentID t)"
proof -
  consider "fst (LogTrade pg t d) = d" | r where "fst (LogTrade pg t d) = d\<lparr>t_trades := t_trades d @ [r]\<rparr>" "tr_agent r = td_AgentID t"
    by (cases "td_AgentID t = []"; cases "pg_fault pg ''insert trade''") (auto simp: LogTrade_def exec_def)
  then show ?thesis by cases (auto intro: exI [of _ "[]"])
qed

lemma log_trades_rows:
  "\<exists>rows. log_trades pg rd i ts d = d\<lparr>t_trades := t_trades d @ rows\<rparr> \<and> (\<forall>r \<in> set rows. tr_agent r = i)"
proof (induction ts arbitrary: d)
  case Nil
  show ?case by (rule exI [of _ "[]"]) (simp add: log_trades_def)
next
  case (Cons t ts)
  obtain r1 where r1: "fst (LogTrade pg (trade_of rd i t) d) = d\<lparr>t_trades := t_trades d @ r1\<rparr>" "\<forall>r \<in> set r1. tr_agent r = i"
    using LogTrade_other [of pg "trade_of rd i t" d] by (auto simp: trade_of_def)
  obtain r2 where r2: "log_trades pg rd i ts (d\<lparr>t_trades := t_trades d @ r1\<rparr>) = d\<lparr>t_trades := t_trades d @ r1\<rparr>\<lparr>t_trades := t_trades (d\<lparr>t_trades := t_trades d @ r1\<rparr>) @ r2\<rparr>"
    "\<forall>r \<in> set r2. tr_agent r = i"
    using Cons.IH [of "d\<lparr>t_trades := t_trades d @ r1\<rparr>"] by blast
  have "log_trades pg rd i (t # ts) d = d\<lparr>t_trades := t_trades d @ (r1 @ r2)\<rparr>"
    using r1(1) r2(1) by (simp add: log_trades_def)
  with r1(2) r2(2) show ?case by (intro exI [of _ "r1 @ r2"]) auto
qed


text \<open>The effect a node may have on the database: its own trades, decisions and heartbeat.\<close>

definition own_effect :: "string \<Rightarrow> db \<Rightarrow> db \<Rightarrow> bool" where
  "own_effect i d d' \<longleftrightarrow>
     (\<exists>tr. t_trades d' = t_trades d @ tr \<and> (\<forall>r \<in> set tr. tr_agent r = i)) \<and>
     (\<exists>dr. t_decisions d' = t_decisions d @ dr \<and> (\<forall>r \<in> set dr. dr_agent r = i)) \<and>
     map (\<lambda>r. if ar_id r = i then r\<lparr>ar_last_heartbeat_at := None\<rparr> else r) (t_agents d') =
       map (\<lambda>r. if ar_id r = i then r\<lparr>ar_last_heartbeat_at := None\<rparr> else r) (t_agents d) \<and>
     d'\<lparr>t_agents := [], t_trades := [], t_decisions := []\<rparr> = d\<lparr>t_agents := [], t_trades := [], t_decisions := []\<rparr>"

lemma own_effect_refl [simp]: "own_effect i d d"
  by (simp add: own_effect_def)

lemma appends_trans:
  "(\<exists>x. b = a @ x \<and> (\<forall>r \<in> set x. P r)) \<Longrightarrow> (\<exists>y. c = b @ y \<and> (\<forall>r \<in> set y. P r)) \<Longrightarrow> \<exists>z. c = a @ z \<and> (\<forall>r \<in> set z. P r)"
  by force

lemma own_effect_trans [trans]: "own_effect i d d1 \<Longrightarrow> own_effect i d1 d2 \<Longrightarrow> own_effect i d d2"
  unfolding own_effect_def by (elim conjE, intro conjI) (erule (1) appends_trans | simp)+

lemma own_effect_trades: "\<forall>r \<in> set tr. tr_agent r = i \<Longrightarrow> own_effect i d (d\<lparr>t_trades := t_trades d @ tr\<rparr>)"
  by (auto simp: own_effect_def)

lemma own_effect_decisions: "\<forall>r \<in> set dr. dr_agent r = i \<Longrightarrow> own_effect i d (d\<lparr>t_decisions := t_decisions d @ dr\<rparr>)"
  by (auto simp: own_effect_def)

lemma own_effect_heartbeat: "own_effect i d (fst (UpdateHeartbeat pg now i d))"
proof -
  have "own_effect i d (update_agent i (\<lambda>r. r\<lparr>ar_last_heartbeat_at := Some now\<rparr>) d)"
    by (auto simp: own_effect_def update_agent_def)
  then show ?thesis by (simp add: UpdateHeartbeat_def exec_fst split: option.split)
qed

lemma Run_own_effect:
  assumes "Run pg R (Some llm) (Some T) True s d t = (d', t', err)" shows "own_effect (st_AgentID s) d d'"
proof -
  have "\<exists>dec. sdn_AgentID dec = st_AgentID s \<and> d' = d\<lparr>t_decisions := t_decisions d @ decision_rows pg dec\<rparr> \<or> d' = d"
  proof (cases "answer llm T s t")
    case None
    then show ?thesis using Run_cases [where llm = llm and T = T and s = s and t = t and pg = pg and R = R and d = d] assms by auto
  next
    case (Some ir)
    obtain inp resp where ir: "ir = (inp, resp)" by force
    show ?thesis
    proof (cases "parseStrategistResponse (r_Content resp)")
      case (Inl e)
      then show ?thesis using Run_cases [where llm = llm and T = T and s = s and t = t and pg = pg and R = R and d = d] assms Some ir
        by (intro exI [of _ "(base_decision R s inp resp)\<lparr>sdn_Reasoning := ''parse_error: '' @ error_text e\<rparr>"])
          (simp add: LogStrategistDecision_rows(1) base_decision_def)
    next
      case (Inr p)
      obtain t1 dec where dec: "decide R T p t (base_decision R s inp resp) = (t1, dec)" by force
      then show ?thesis using Run_cases [where llm = llm and T = T and s = s and t = t and pg = pg and R = R and d = d] assms Some ir Inr decide_frame [OF dec]
        by (intro exI [of _ dec]) (auto simp: LogStrategistDecision_rows(1) base_decision_def)
    qed
  qed
  then obtain dec where "sdn_AgentID dec = st_AgentID s" "d' = d\<lparr>t_decisions := t_decisions d @ decision_rows pg dec\<rparr> \<or> d' = d" 
    by (metis (mono_tags, lifting) StrategistDecision.select_convs(1))
  then show ?thesis using own_effect_decisions [of "decision_rows pg dec" "st_AgentID s" d] by (auto simp: decision_rows_def split: if_splits)
qed

lemma monitor_own_effect:
  assumes "monitor_tick pg rd T now br (n, d, t) = (n', d', t')"
  shows "nr_cfg n' = nr_cfg n \<and> own_effect (nc_AgentID (nr_cfg n)) d d'"
proof (cases "gate_open now br n")
  case True
  obtain t1 res where rt: "tk_RunTick T t = (t1, res)" by force
  show ?thesis
  proof (cases res)
    case (Inr trades)
    obtain rows where "log_trades pg rd (nc_AgentID (nr_cfg n)) trades d = d\<lparr>t_trades := t_trades d @ rows\<rparr>" "\<forall>r \<in> set rows. tr_agent r = nc_AgentID (nr_cfg n)"
      using log_trades_rows by blast
    then show ?thesis using assms True rt Inr own_effect_trades [of rows "nc_AgentID (nr_cfg n)" d] by (auto simp: monitor_tick_def)
  qed (use assms True rt in \<open>auto simp: monitor_tick_def\<close>)
qed (use assms in \<open>simp add: monitor_tick_def\<close>)

lemma strategist_own_effect:
  assumes "strategist_tick pg R llm T now br slot (n, d, t) = (n', d', t')"
  shows "nr_cfg n' = nr_cfg n \<and> own_effect (nc_AgentID (nr_cfg n)) d d'"
proof -
  obtain d1 t1 err where r: "Run pg R (Some llm) (Some (task.truncate T)) True (runner_strategist n) d t = (d1, t1, err)" by (metis prod_cases3)
  have "own_effect (nc_AgentID (nr_cfg n)) d d1" using Run_own_effect [OF r] by (simp add: runner_strategist_def)
  then show ?thesis using assms r by (auto simp: strategist_tick_def runStrategistOnce_def split: if_splits sum.splits)
qed

lemma heartbeat_own_effect:
  assumes "heartbeat_tick pg now (n, d, t) = (n', d', t')"
  shows "nr_cfg n' = nr_cfg n \<and> own_effect (nc_AgentID (nr_cfg n)) d d' \<and> t' = t \<and> nr_paused n' = nr_paused n"
  using assms own_effect_heartbeat [of "nc_AgentID (nr_cfg n)" d pg now]
  by (cases "UpdateHeartbeat pg now (nc_AgentID (nr_cfg n)) d") (auto simp: heartbeat_tick_def split: sum.splits)

lemma node_step_own_effect:
  assumes "node_step pg R rd T e (n, d, t) = (n', d', t')"
  shows "nr_cfg n' = nr_cfg n \<and> own_effect (nc_AgentID (nr_cfg n)) d d'"
  using assms
  by (cases e) (auto simp: node_Pause_def node_Resume_def dest: monitor_own_effect strategist_own_effect heartbeat_own_effect)

lemma node_run_own_effect:
  "fold (node_step pg R rd T) evs (n, d, t) = (n', d', t') \<Longrightarrow> nr_cfg n' = nr_cfg n \<and> own_effect (nc_AgentID (nr_cfg n)) d d'"
proof (induction evs arbitrary: n d t)
  case (Cons e evs)
  obtain n1 d1 t1 where st: "node_step pg R rd T e (n, d, t) = (n1, d1, t1)" by (metis prod_cases3)
  from node_step_own_effect [OF st] Cons.IH [of n1 d1 t1] Cons.prems st show ?case by (auto intro: own_effect_trans)
qed simp

section \<open>Properties\<close>

text \<open>
  C7: whatever the interleaving of its loops, with whatever failures, a node's run from start to
  shutdown affects the database only by adding trades and decisions of its own agent and by moving that
  agent's heartbeat; the rows of all other agents and all other tables stay as they are.
\<close>

theorem node_run_isolated:
  "own_effect (nc_AgentID (nr_cfg n)) d (fst (snd (node_Run pg R rd T start evs (n, d, t))))"
proof -
  obtain n1 d1 t1 where h: "heartbeat_tick pg start (n, d, t) = (n1, d1, t1)" by (metis prod_cases3)
  obtain n2 d2 t2 where f: "fold (node_step pg R rd T) evs (n1, d1, t1) = (n2, d2, t2)" by (metis prod_cases3)
  from heartbeat_own_effect [OF h] node_run_own_effect [OF f] have "own_effect (nc_AgentID (nr_cfg n)) d d2"
    by (auto intro: own_effect_trans)
  then show ?thesis by (simp add: node_Run_def h f)
qed

fun beats :: "node_event list \<Rightarrow> time list" where
  "beats [] = []"
| "beats (HeartbeatTick now # evs) = now # beats evs"
| "beats (_ # evs) = beats evs"

text \<open>
  While a node is paused its working loops do nothing: the task is not run or adjusted, neither loop
  is counted, and the database sees exactly the heartbeats that fell due, so no trade or decision is written.
\<close>

theorem paused_node_inert:
  assumes "fold (node_step pg R rd T) evs (n, d, t) = (n', d', t')" "nr_paused n" "ResumeCall \<notin> set evs"
  shows "t' = t \<and> d' = fold (\<lambda>now d. fst (UpdateHeartbeat pg now (nc_AgentID (nr_cfg n)) d)) (beats evs) d \<and> nr_paused n' \<and>
    nr_tickCount n' = nr_tickCount n \<and> nr_stratCount n' = nr_stratCount n"
  using assms
proof (induction evs arbitrary: n d t)
  case (Cons e evs)
  obtain n1 d1 t1 where st: "node_step pg R rd T e (n, d, t) = (n1, d1, t1)" by (metis prod_cases3)
  have "\<not> gate_open now br n" for now br using Cons.prems(2) by (simp add: gate_open_def)
  then have s1: "t1 = t \<and> fold (\<lambda>now d. fst (UpdateHeartbeat pg now (nc_AgentID (nr_cfg n)) d)) (beats [e]) d = d1 \<and> nr_paused n1 \<and>
      nr_cfg n1 = nr_cfg n \<and> nr_tickCount n1 = nr_tickCount n \<and> nr_stratCount n1 = nr_stratCount n"
    using st Cons.prems(2,3)
    by (cases e) (auto simp: monitor_tick_def strategist_tick_def heartbeat_tick_def node_Pause_def split: prod.splits sum.splits)
  have "beats (e # evs) = beats [e] @ beats evs" by (cases e) simp_all
  then show ?case using Cons.IH [of n1 d1 t1] Cons.prems st s1 by (auto simp del: beats.simps)
qed simp

definition busy_task :: "nat node_task" where
  "busy_task = \<lparr>tk_GetStateSummary = (\<lambda>_. Ok []), tk_ApplyAdjustments = (\<lambda>_ t. (t, Ok ())), tk_RunTick = (\<lambda>t. (Suc t, Ok [])),
     tk_CloseAllPositions = (\<lambda>t. (0, Ok []))\<rparr>"

definition sample_runner :: NodeRunner where
  "sample_runner = \<lparr>nr_cfg = \<lparr>nc_AgentID = ''a'', nc_Genome = zero_genome, nc_Bandit = None, nc_Scheduler = None, nc_MonitorInterval = Second,
     nc_StrategistInterval = Hour, nc_HeartbeatInterval = Second, nc_MaxOutputTokens = 10, nc_Breaker = False, nc_Hibernation = False, nc_NodeClass = [],
     nc_HibernationAnchor = 0\<rparr>, nr_paused = True, nr_tickCount = 0, nr_stratCount = 0, nr_beatCount = 0\<rparr>"

theorem paused_node_inert_witness:
  "\<exists>n' d'. fold (node_step pg_ok plain_render (\<lambda>_. ''{}'') busy_task) [MonitorTick 0 (NewCircuitBreaker 0), HeartbeatTick 1] (sample_runner, sample_db, 5) = (n', d', 5)"
proof -
  obtain n' d' t' where f: "fold (node_step pg_ok plain_render (\<lambda>_. ''{}'') busy_task) [MonitorTick 0 (NewCircuitBreaker 0), HeartbeatTick 1] (sample_runner, sample_db, 5) = (n', d', t')"
    by (metis prod_cases3)
  have "t' = 5" using paused_node_inert [OF f] by (simp add: sample_runner_def)
  then show ?thesis using f by blast
qed

end
