(* ===== verification/Swarm.thy ===== *)
theory Swarm
  imports NodeRunner
begin

text \<open>
  \<^verbatim>\<open>internal/runtime/lifecycle.go\<close> and \<^verbatim>\<open>swarm.go\<close>: the lifecycle manager writes the agents table and
  publishes an event; the swarm runtime receives the events and starts, stops, pauses and resumes the
  runners.  A message on the bus is its channel with the decoded event, or \<open>None\<close> when the payload
  does not decode.  Waiting for a stopped runner to finish is not modelled.
\<close>

section \<open>Lifecycle manager\<close>

record LifecycleEvent =
  ev_AgentID :: string
  ev_Reason :: string
  ev_NodeClass :: string
  ev_CorrelationID :: string
  ev_Timestamp :: time

type_synonym message = "string \<times> LifecycleEvent option"

text \<open>The bus: absent, or with the error of publishing on a channel.\<close>

type_synonym bus = "(string \<Rightarrow> error option) option"

text \<open>The database and the messages published so far.\<close>

type_synonym control = "db \<times> message list"

definition publish :: "bus \<Rightarrow> string \<Rightarrow> LifecycleEvent \<Rightarrow> message list \<Rightarrow> message list" where
  "publish bus channel ev q =
     (case bus of None \<Rightarrow> q | Some fault \<Rightarrow> (case fault channel of Some _ \<Rightarrow> q | None \<Rightarrow> q @ [(channel, Some ev)]))"

definition plain_event :: "string \<Rightarrow> string \<Rightarrow> time \<Rightarrow> LifecycleEvent" where
  "plain_event agentID why now = \<lparr>ev_AgentID = agentID, ev_Reason = why, ev_NodeClass = [], ev_CorrelationID = [], ev_Timestamp = now\<rparr>"

definition lm_Spawn :: "postgres \<Rightarrow> bus \<Rightarrow> string \<Rightarrow> time \<Rightarrow> Agent \<Rightarrow> string \<Rightarrow> control \<Rightarrow> control \<times> string result" where
  "lm_Spawn pg bus uuid now row why c =
     (case InsertAgent pg uuid row (fst c) of
        (d, Inl e) \<Rightarrow> ((d, snd c), Inl (Wrap ''lifecycle.Spawn: insert'' e))
      | (d, Inr i) \<Rightarrow> ((d, publish bus ''lifecycle:spawn'' ((plain_event i why now)\<lparr>ev_NodeClass := ag_NodeClass row\<rparr>) (snd c)), Ok i))"

definition set_status_and_emit :: "postgres \<Rightarrow> bus \<Rightarrow> time \<Rightarrow> string \<Rightarrow> string \<Rightarrow> string \<Rightarrow> string \<Rightarrow> string \<Rightarrow> control \<Rightarrow> control \<times> unit result" where
  "set_status_and_emit pg bus now opname status channel agentID why c =
     (if agentID = [] then (c, Fail (''lifecycle: '' @ opname @ '' requires agent_id''))
      else case SetAgentStatus pg now agentID status why (fst c) of
        (d, Inl e) \<Rightarrow> ((d, snd c), Inl (Wrap (''lifecycle.'' @ opname) e))
      | (d, Inr _) \<Rightarrow> ((d, publish bus channel (plain_event agentID why now) (snd c)), Ok ()))"

definition lm_Kill :: "postgres \<Rightarrow> bus \<Rightarrow> time \<Rightarrow> string \<Rightarrow> string \<Rightarrow> control \<Rightarrow> control \<times> unit result" where
  "lm_Kill pg bus now = set_status_and_emit pg bus now ''Kill'' ''dead'' ''lifecycle:kill''"

definition lm_Pause :: "postgres \<Rightarrow> bus \<Rightarrow> time \<Rightarrow> string \<Rightarrow> string \<Rightarrow> control \<Rightarrow> control \<times> unit result" where
  "lm_Pause pg bus now = set_status_and_emit pg bus now ''Pause'' ''paused'' ''lifecycle:pause''"

definition lm_Resume :: "postgres \<Rightarrow> bus \<Rightarrow> time \<Rightarrow> string \<Rightarrow> string \<Rightarrow> control \<Rightarrow> control \<times> unit result" where
  "lm_Resume pg bus now = set_status_and_emit pg bus now ''Resume'' ''active'' ''lifecycle:resume''"

definition setClassAndEmit :: "postgres \<Rightarrow> bus \<Rightarrow> time \<Rightarrow> string \<Rightarrow> string \<Rightarrow> string \<Rightarrow> string \<Rightarrow> control \<Rightarrow> control \<times> unit result" where
  "setClassAndEmit pg bus now agentID cls why channel c =
     (if agentID = [] then (c, Fail ''lifecycle: agent_id required'')
      else case SetAgentNodeClass pg agentID cls (fst c) of
        (d, Inl e) \<Rightarrow> ((d, snd c), Inl e)
      | (d, Inr _) \<Rightarrow> ((d, publish bus channel ((plain_event agentID why now)\<lparr>ev_NodeClass := cls\<rparr>) (snd c)), Ok ()))"

definition lm_Promote :: "postgres \<Rightarrow> bus \<Rightarrow> time \<Rightarrow> string \<Rightarrow> string \<Rightarrow> control \<Rightarrow> control \<times> unit result" where
  "lm_Promote pg bus now agentID why c =
     (let (c', r) = setClassAndEmit pg bus now agentID ''funded'' why ''lifecycle:promote'' c in (c', wrapr ''lifecycle.Promote'' r))"

definition lm_Demote :: "postgres \<Rightarrow> bus \<Rightarrow> time \<Rightarrow> string \<Rightarrow> string \<Rightarrow> control \<Rightarrow> control \<times> unit result" where
  "lm_Demote pg bus now agentID why c =
     (let (c', r) = setClassAndEmit pg bus now agentID ''shadow'' why ''lifecycle:demote'' c in (c', wrapr ''lifecycle.Demote'' r))"

section \<open>Swarm runtime\<close>

record SwarmRuntime =
  sw_runners :: "string \<Rightarrow> NodeRunner option"
  sw_offsets :: "string \<Rightarrow> duration"
  sw_staged :: int
  sw_cancelled :: "string set"
  sw_scheduler :: Scheduler
  sw_monitorInterval :: duration
  sw_heartbeatInterval :: duration
  sw_strategistInterval :: duration

text \<open>Building a task and resolving a model, and the database.\<close>

record swarm_env =
  se_pg :: postgres
  se_build :: "string \<Rightarrow> string \<Rightarrow> unit result"
  se_llm :: "string \<Rightarrow> unit result"

definition NewSwarm :: "bool \<Rightarrow> bool \<Rightarrow> Scheduler option \<Rightarrow> duration \<Rightarrow> duration \<Rightarrow> duration \<Rightarrow> SwarmRuntime result" where
  "NewSwarm has_store has_llms sch mi hi si =
     bindr (first_error [(\<not> has_store, ''swarm: store required''), (\<not> has_llms, ''swarm: llm registry required'')])
       (\<lambda>_. Ok \<lparr>sw_runners = (\<lambda>_. None), sw_offsets = (\<lambda>_. 0), sw_staged = 0, sw_cancelled = {},
          sw_scheduler = (case sch of Some s \<Rightarrow> s | None \<Rightarrow> NewScheduler 0 0), sw_monitorInterval = mi, sw_heartbeatInterval = hi,
          sw_strategistInterval = si\<rparr>)"

definition genome_of_agent :: "Agent \<Rightarrow> AgentGenome" where
  "genome_of_agent row = zero_genome\<lparr>g_Name := ag_Name row, g_Generation := ag_Generation row, g_LineageDepth := ag_LineageDepth row,
     g_TaskType := ag_TaskType row, g_Chain := ag_Chain row, g_StrategistPrompt := ag_StrategistPrompt row, g_StrategistModel := ag_StrategistModel row,
     g_StrategistIntervalSeconds := ag_StrategistIntervalSeconds row, g_CapitalAllocation := ag_CapitalAllocated row\<rparr>"

fun string_values :: "json list \<Rightarrow> string list option" where
  "string_values [] = Some []"
| "string_values (JsStr s # js) = map_option ((#) s) (string_values js)"
| "string_values (JsNull # js) = map_option ((#) []) (string_values js)"
| "string_values (_ # js) = None"

text \<open>\<^verbatim>\<open>json.Unmarshal\<close> into a list of strings; a null element is the empty string, a trailing text an error.\<close>

definition parse_names :: "string \<Rightarrow> string list option" where
  "parse_names raw =
     (case parse_json PVal False raw of
        Some (JsArr js, rest) \<Rightarrow> if skip_ws rest = [] then string_values js else None
      | _ \<Rightarrow> None)"

definition bandit_of :: "string \<Rightarrow> TickBandit option" where
  "bandit_of raw =
     (if raw = [] then None
      else case parse_names raw of Some names \<Rightarrow> if names = [] then None else Some (NewTickBandit names) | None \<Rightarrow> None)"

text \<open>The breaker, the hibernation scheduler and the node class are left at their zero values.\<close>

definition runner_config :: "SwarmRuntime \<Rightarrow> Agent \<Rightarrow> NodeRunnerConfig" where
  "runner_config sw row =
     \<lparr>nc_AgentID = ag_ID row, nc_Genome = genome_of_agent row, nc_Bandit = bandit_of (ag_BanditPolicies row), nc_Scheduler = Some (sw_scheduler sw),
      nc_MonitorInterval = sw_monitorInterval sw, nc_StrategistInterval = sw_strategistInterval sw, nc_HeartbeatInterval = sw_heartbeatInterval sw,
      nc_MaxOutputTokens = 0, nc_Breaker = False, nc_Hibernation = False, nc_NodeClass = [], nc_HibernationAnchor = zero_time\<rparr>"

definition startFromRow :: "swarm_env \<Rightarrow> Agent \<Rightarrow> SwarmRuntime \<Rightarrow> SwarmRuntime \<times> unit result" where
  "startFromRow env row sw =
     (if ag_ID row = [] then (sw, Fail ''agent row missing id'')
      else case se_build env (ag_TaskType row) (ag_StrategyConfig row) of
        Inl e \<Rightarrow> (sw, Inl (Wrap ''build task'' e))
      | Inr _ \<Rightarrow> (case se_llm env (ag_StrategistModel row) of
          Inl e \<Rightarrow> (sw, Inl (Wrap ''resolve llm'' e))
        | Inr _ \<Rightarrow> (case NewNodeRunner True True True (runner_config sw row) of
            Inl e \<Rightarrow> (sw, Inl (Wrap ''new runner'' e))
          | Inr nr \<Rightarrow> (sw\<lparr>sw_runners := (sw_runners sw)(ag_ID row \<mapsto> nr),
                           sw_offsets := (sw_offsets sw)(ag_ID row := StaggerOffset (Some (sw_scheduler sw)) (sw_staged sw)),
                           sw_staged := wrap64 (sw_staged sw + 1)\<rparr>, Ok ()))))"

fun start_rows :: "swarm_env \<Rightarrow> Agent list \<Rightarrow> SwarmRuntime \<Rightarrow> SwarmRuntime \<times> int" where
  "start_rows env [] sw = (sw, 0)"
| "start_rows env (row # rows) sw =
     (case startFromRow env row sw of
        (sw', Inl _) \<Rightarrow> start_rows env rows sw'
      | (sw', Inr _) \<Rightarrow> (let (sw2, k) = start_rows env rows sw' in (sw2, k + 1)))"

definition LoadAndStart :: "swarm_env \<Rightarrow> db \<Rightarrow> SwarmRuntime \<Rightarrow> SwarmRuntime \<times> int result" where
  "LoadAndStart env d sw =
     (case ListActiveAgents (se_pg env) d of
        Inl e \<Rightarrow> (sw, Inl (Wrap ''swarm: list active agents'' e))
      | Inr rows \<Rightarrow> (let (sw', k) = start_rows env rows sw in (sw', Ok k)))"

definition spawnByID :: "swarm_env \<Rightarrow> db \<Rightarrow> string \<Rightarrow> SwarmRuntime \<Rightarrow> SwarmRuntime \<times> unit result" where
  "spawnByID env d agentID sw =
     (if sw_runners sw agentID \<noteq> None then (sw, Ok ())
      else case ListActiveAgents (se_pg env) d of
        Inl e \<Rightarrow> (sw, Inl e)
      | Inr rows \<Rightarrow> (case find (\<lambda>r. ag_ID r = agentID) rows of
          Some row \<Rightarrow> startFromRow env row sw
        | None \<Rightarrow> (sw, Fail (''agent '' @ agentID @ '' not found among active''))))"

definition stop_runner :: "string \<Rightarrow> SwarmRuntime \<Rightarrow> SwarmRuntime" where
  "stop_runner agentID sw =
     (if sw_runners sw agentID = None then sw
      else sw\<lparr>sw_runners := (sw_runners sw)(agentID := None), sw_cancelled := insert agentID (sw_cancelled sw)\<rparr>)"

definition stopAll :: "SwarmRuntime \<Rightarrow> SwarmRuntime" where
  "stopAll sw = sw\<lparr>sw_runners := (\<lambda>_. None), sw_cancelled := dom (sw_runners sw) \<union> sw_cancelled sw\<rparr>"

definition withRunner :: "string \<Rightarrow> (NodeRunner \<Rightarrow> NodeRunner) \<Rightarrow> SwarmRuntime \<Rightarrow> SwarmRuntime" where
  "withRunner agentID f sw =
     (case sw_runners sw agentID of None \<Rightarrow> sw | Some h \<Rightarrow> sw\<lparr>sw_runners := (sw_runners sw)(agentID \<mapsto> f h)\<rparr>)"

definition dispatch :: "swarm_env \<Rightarrow> db \<Rightarrow> message \<Rightarrow> SwarmRuntime \<Rightarrow> SwarmRuntime" where
  "dispatch env d m sw =
     (case snd m of
        None \<Rightarrow> sw
      | Some ev \<Rightarrow>
          if ev_AgentID ev = [] then sw
          else if fst m = ''lifecycle:spawn'' then fst (spawnByID env d (ev_AgentID ev) sw)
          else if fst m = ''lifecycle:kill'' then stop_runner (ev_AgentID ev) sw
          else if fst m = ''lifecycle:pause'' then withRunner (ev_AgentID ev) node_Pause sw
          else if fst m = ''lifecycle:resume'' then withRunner (ev_AgentID ev) node_Resume sw
          else sw)"

text \<open>The channels \<^verbatim>\<open>Run\<close> subscribes to, and its loop over the messages it receives.\<close>

definition subscribed :: "string list" where
  "subscribed = [''lifecycle:spawn'', ''lifecycle:kill'', ''lifecycle:pause'', ''lifecycle:resume'']"

definition receive :: "swarm_env \<Rightarrow> db \<Rightarrow> message list \<Rightarrow> SwarmRuntime \<Rightarrow> SwarmRuntime" where
  "receive env d q sw = fold (dispatch env d) (filter (\<lambda>m. fst m \<in> set subscribed) q) sw"

text \<open>\<^verbatim>\<open>Run\<close>: without a bus the runtime only waits; otherwise it receives until cancelled, then stops everything.\<close>

definition swarm_Run :: "swarm_env \<Rightarrow> bool \<Rightarrow> error option \<Rightarrow> db \<Rightarrow> message list \<Rightarrow> SwarmRuntime \<Rightarrow> SwarmRuntime \<times> unit result" where
  "swarm_Run env has_bus sub_err d q sw =
     (if \<not> has_bus then (stopAll sw, Ok ())
      else case sub_err of
        Some e \<Rightarrow> (sw, Inl (Wrap ''swarm: subscribe'' e))
      | None \<Rightarrow> (stopAll (receive env d q sw), Ok ()))"

section \<open>The table and the runners\<close>

definition status_of :: "db \<Rightarrow> string \<Rightarrow> string option" where
  "status_of d i = map_option ar_status (find (\<lambda>r. ar_id r = i) (t_agents d))"

text \<open>Which runner a status calls for: none, a running one or a paused one.\<close>

definition called_for :: "string option \<Rightarrow> bool option" where
  "called_for st = (if st = Some ''active'' then Some False else if st = Some ''paused'' then Some True else None)"

definition synced :: "db \<Rightarrow> SwarmRuntime \<Rightarrow> bool" where
  "synced d sw \<longleftrightarrow> (\<forall>i. map_option nr_paused (sw_runners sw i) = called_for (status_of d i))"

lemma find_map_row:
  "(\<And>r. ar_id (f r) = ar_id r) \<Longrightarrow>
   find (\<lambda>r. ar_id r = j) (map (\<lambda>r. if ar_id r = i then f r else r) rows) =
     map_option (\<lambda>r. if j = i then f r else r) (find (\<lambda>r. ar_id r = j) rows)"
  by (induction rows) auto

lemma status_of_update:
  "(\<And>r. ar_id (f r) = ar_id r) \<Longrightarrow>
   status_of (update_agent i f d) j = map_option (\<lambda>r. ar_status (if j = i then f r else r)) (find (\<lambda>r. ar_id r = j) (t_agents d))"
  by (simp add: status_of_def update_agent_def find_map_row option.map_comp comp_def)

lemma status_of_SetAgentStatus:
  assumes "SetAgentStatus pg now i st why d = (d', Ok ())"
  shows "status_of d' j = (if j = i \<and> status_of d i \<noteq> None then Some st else status_of d j)" "i \<noteq> []"
proof -
  let ?f = "\<lambda>r. r\<lparr>ar_status := st, ar_kill_reason := (case nullableText why of Some k \<Rightarrow> Some k | None \<Rightarrow> ar_kill_reason r),
            ar_killed_at := (if st = ''dead'' then Some now else ar_killed_at r)\<rparr>"
  have d': "d' = update_agent i ?f d" "i \<noteq> []"
    using assms by (auto simp: SetAgentStatus_def split: if_splits dest!: exec_Ok)
  have "status_of d' j = map_option (\<lambda>r. ar_status (if j = i then ?f r else r)) (find (\<lambda>r. ar_id r = j) (t_agents d))"
    unfolding d'(1) by (rule status_of_update) simp
  then show "status_of d' j = (if j = i \<and> status_of d i \<noteq> None then Some st else status_of d j)"
    by (cases "find (\<lambda>r. ar_id r = j) (t_agents d)") (auto simp: status_of_def)
  show "i \<noteq> []" by (rule d'(2))
qed

lemma status_of_class:
  assumes "SetAgentNodeClass pg i cls d = (d', r)" shows "status_of d' j = status_of d j"
proof -
  have "status_of (update_agent i (\<lambda>r. r\<lparr>ar_node_class := cls\<rparr>) d) j = status_of d j"
    by (subst status_of_update) (auto simp: status_of_def intro!: option.map_cong)
  then have "status_of (fst (SetAgentNodeClass pg i cls d)) j = status_of d j"
    by (simp add: SetAgentNodeClass_def exec_fst split: option.split)
  then show ?thesis using assms by simp
qed

lemma status_of_insert:
  assumes "InsertAgent pg u a d = (d', Ok i)"
  shows "status_of d' j = (if j = i then Some ''active'' else status_of d j)" "status_of d i = None" "i = u"
proof -
  note D = InsertAgent_OkD [OF assms]
  have none: "find (\<lambda>r. ar_id r = i) (t_agents d) = None" using D(1,3) by (auto simp: agents_accept_def find_None_iff)
  have app: "find P (xs @ [x]) = (case find P xs of Some y \<Rightarrow> Some y | None \<Rightarrow> if P x then Some x else None)" for P and xs :: "agent_row list" and x
    by (induction xs) auto
  show "status_of d' j = (if j = i then Some ''active'' else status_of d j)"
    using D(1,2) none by (auto simp: status_of_def app split: option.split)
  show "status_of d i = None" using none by (simp add: status_of_def)
  show "i = u" by (rule D(1))
qed

lemma set_status_emit_OkD:
  assumes "set_status_and_emit pg (Some (\<lambda>_. None)) now opn st ch i why (d, []) = ((d', q), Ok ())"
  shows "SetAgentStatus pg now i st why d = (d', Ok ())" "q = [(ch, Some (plain_event i why now))]"
  using assms by (auto simp: set_status_and_emit_def publish_def split: if_splits prod.splits sum.splits)

lemma synced_upd:
  assumes "synced d sw" "\<And>j. j \<noteq> i \<Longrightarrow> sw_runners sw' j = sw_runners sw j \<and> status_of d' j = status_of d j"
    "map_option nr_paused (sw_runners sw' i) = called_for (status_of d' i)"
  shows "synced d' sw'"
  using assms unfolding synced_def by metis

lemma startFromRow_ok:
  assumes "ag_ID row \<noteq> []" "se_build env (ag_TaskType row) (ag_StrategyConfig row) = Ok ()" "se_llm env (ag_StrategistModel row) = Ok ()"
  shows "\<exists>nr. sw_runners (fst (startFromRow env row sw)) = (sw_runners sw)(ag_ID row \<mapsto> nr) \<and> \<not> nr_paused nr \<and> snd (startFromRow env row sw) = Ok ()"
proof -
  have "\<exists>nr. NewNodeRunner True True True (runner_config sw row) = Ok nr \<and> \<not> nr_paused nr"
    using assms(1) by (simp add: NewNodeRunner_def runner_config_def)
  then obtain nr where "NewNodeRunner True True True (runner_config sw row) = Ok nr" "\<not> nr_paused nr" by blast
  then show ?thesis using assms by (intro exI [of _ nr]) (simp add: startFromRow_def)
qed

lemma startFromRow_other: "j \<noteq> ag_ID row \<Longrightarrow> sw_runners (fst (startFromRow env row sw)) j = sw_runners sw j"
  by (simp add: startFromRow_def split: sum.split)

lemma start_rows_other: "j \<notin> ag_ID ` set rows \<Longrightarrow> sw_runners (fst (start_rows env rows sw)) j = sw_runners sw j"
proof (induction rows arbitrary: sw)
  case (Cons row rows)
  obtain sw1 r where st: "startFromRow env row sw = (sw1, r)" by force
  then have "sw_runners sw1 j = sw_runners sw j" using startFromRow_other [of j row env sw] Cons.prems by simp
  then show ?case using Cons st by (cases r) (auto simp: Let_def case_prod_beta)
qed simp

lemma receive_one: "ch \<in> set subscribed \<Longrightarrow> receive env d [(ch, ev)] sw = dispatch env d (ch, ev) sw"
  by (simp add: receive_def)

lemma subscribed_mem [simp]: "''lifecycle:spawn'' \<in> set subscribed" "''lifecycle:kill'' \<in> set subscribed"
  "''lifecycle:pause'' \<in> set subscribed" "''lifecycle:resume'' \<in> set subscribed"
  "''lifecycle:promote'' \<notin> set subscribed" "''lifecycle:demote'' \<notin> set subscribed"
  by (simp_all add: subscribed_def)

datatype lifecycle_op = OpSpawn string Agent | OpKill string | OpPause string | OpResume string | OpPromote string | OpDemote string

fun run_op :: "postgres \<Rightarrow> bus \<Rightarrow> time \<Rightarrow> string \<Rightarrow> lifecycle_op \<Rightarrow> control \<Rightarrow> control \<times> unit result" where
  "run_op pg bus now why (OpSpawn u a) c = (let (c', r) = lm_Spawn pg bus u now a why c in (c', bindr r (\<lambda>_. Ok ())))"
| "run_op pg bus now why (OpKill i) c = lm_Kill pg bus now i why c"
| "run_op pg bus now why (OpPause i) c = lm_Pause pg bus now i why c"
| "run_op pg bus now why (OpResume i) c = lm_Resume pg bus now i why c"
| "run_op pg bus now why (OpPromote i) c = lm_Promote pg bus now i why c"
| "run_op pg bus now why (OpDemote i) c = lm_Demote pg bus now i why c"

text \<open>
  What an operation needs to be followed by the runtime: a dead agent is not paused or resumed, and a
  spawned one has an id, a task that builds and a model that resolves, and can be listed.
\<close>

fun legal_op :: "swarm_env \<Rightarrow> db \<Rightarrow> lifecycle_op \<Rightarrow> bool" where
  "legal_op env d (OpSpawn u a) \<longleftrightarrow> u \<noteq> [] \<and> (\<forall>ty c. se_build env ty c = Ok ()) \<and> (\<forall>m. se_llm env m = Ok ()) \<and> (\<forall>d'. \<exists>as. ListActiveAgents (se_pg env) d' = Ok as)"
| "legal_op env d (OpPause i) \<longleftrightarrow> status_of d i \<noteq> Some ''dead''"
| "legal_op env d (OpResume i) \<longleftrightarrow> status_of d i \<noteq> Some ''dead''"
| "legal_op env d _ \<longleftrightarrow> True"


text \<open>A failed operation changes neither the table nor the bus.\<close>

lemma run_op_failed:
  assumes "run_op pg bus now why op (d, q) = ((d', q'), Inl e)" shows "d' = d \<and> q' = q"
proof -
  have st: "SetAgentStatus pg now i st w d = (d1, Inl e1) \<Longrightarrow> d1 = d" for i st w d1 e1
    by (auto simp: SetAgentStatus_def split: if_splits dest: exec_Inl)
  have cl: "SetAgentNodeClass pg i cls d = (d1, Inl e1) \<Longrightarrow> d1 = d" for i cls d1 e1
    by (auto simp: SetAgentNodeClass_def split: if_splits dest: exec_Inl)
  have ins: "InsertAgent pg u a d = (d1, Inl e1) \<Longrightarrow> d1 = d" for u a d1 e1
    by (auto simp: InsertAgent_def Let_def split: sum.splits option.splits if_splits)
  show ?thesis using assms
    by (cases op) (auto simp: lm_Spawn_def lm_Kill_def lm_Pause_def lm_Resume_def lm_Promote_def lm_Demote_def set_status_and_emit_def setClassAndEmit_def
        split: prod.splits sum.splits if_splits dest: st cl ins)
qed

lemma sync_set_status:
  assumes "synced d sw" "set_status_and_emit pg (Some (\<lambda>_. None)) now opn st ch i why (d, []) = ((d', q), Ok ())" "ch \<in> set subscribed"
    "\<And>j. j \<noteq> i \<Longrightarrow> sw_runners (dispatch env d' (ch, Some (plain_event i why now)) sw) j = sw_runners sw j"
    "map_option nr_paused (sw_runners (dispatch env d' (ch, Some (plain_event i why now)) sw) i) =
       called_for (if status_of d i \<noteq> None then Some st else None)"
  shows "synced d' (receive env d' q sw)"
proof -
  note S = set_status_emit_OkD [OF assms(2)]
  note T = status_of_SetAgentStatus [OF S(1)]
  have "synced d' (dispatch env d' (ch, Some (plain_event i why now)) sw)"
    by (rule synced_upd [OF assms(1), of i]) (use assms(4,5) T in auto)
  then show ?thesis using S(2) assms(3) by (simp add: receive_one)
qed

lemma withRunner_runners:
  "sw_runners (withRunner i f sw) j = (if j = i then map_option f (sw_runners sw i) else sw_runners sw j)"
  by (simp add: withRunner_def split: option.split)

lemma stop_runners: "sw_runners (stop_runner i sw) j = (if j = i then None else sw_runners sw j)"
  by (auto simp: stop_runner_def)

lemma sync_spawn:
  assumes sy: "synced d sw" and ok: "agents_ok d" and leg: "legal_op env d (OpSpawn u a)"
    and run: "lm_Spawn pg (Some (\<lambda>_. None)) u now a why (d, []) = ((d', q), Ok i)"
  shows "synced d' (receive env d' q sw)"
proof -
  have ins: "InsertAgent pg u a d = (d', Ok i)"
    and q: "q = [(''lifecycle:spawn'', Some ((plain_event i why now)\<lparr>ev_NodeClass := ag_NodeClass a\<rparr>))]"
    using run by (auto simp: lm_Spawn_def publish_def split: prod.splits sum.splits)
  note st = status_of_insert [OF ins]
  have none: "sw_runners sw i = None" using sy st(2) by (auto simp: synced_def called_for_def dest: spec [of _ i])
  obtain as where as: "ListActiveAgents (se_pg env) d' = Ok as" using leg by (metis legal_op.simps(1))
  have asd: "as = map agent_of_row (filter (\<lambda>r. ar_status r = ''active'') (t_agents d'))"
    using as by (auto simp: ListActiveAgents_def split: option.splits)
  have "\<exists>row \<in> set as. ag_ID row = i" using InsertAgent_OkD(1,2) [OF ins] by (force simp: asd agent_of_row_def)
  then obtain row where row: "find (\<lambda>r. ag_ID r = i) as = Some row" "ag_ID row = i"
    by (metis (mono_tags, lifting) find_None_iff find_Some_iff option.exhaust)
  let ?sw = "fst (startFromRow env row sw)"
  have "i \<noteq> []" "\<And>ty c. se_build env ty c = Ok ()" "\<And>m. se_llm env m = Ok ()" using leg st(3) by simp_all
  then obtain nr where nr: "sw_runners ?sw = (sw_runners sw)(i \<mapsto> nr)" "\<not> nr_paused nr"
    using startFromRow_ok [of row env sw] row(2) by auto
  have "dispatch env d' (''lifecycle:spawn'', Some ((plain_event i why now)\<lparr>ev_NodeClass := ag_NodeClass a\<rparr>)) sw = ?sw"
    using none as row(1) \<open>i \<noteq> []\<close> by (simp add: dispatch_def plain_event_def spawnByID_def)
  moreover have "synced d' ?sw"
    by (rule synced_upd [OF sy, of i]) (use nr st(1) in \<open>auto simp: called_for_def\<close>)
  ultimately show ?thesis by (simp only: q receive_one [OF subscribed_mem(1)])
qed

lemma run_op_synced:
  assumes sy: "synced d sw" and ok: "agents_ok d" and leg: "legal_op env d op"
    and run: "run_op pg (Some (\<lambda>_. None)) now why op (d, []) = ((d', q), Ok ())"
  shows "synced d' (receive env d' q sw)"
proof -
  have run_i: "map_option nr_paused (sw_runners sw i) = called_for (status_of d i)" for i using sy by (simp add: synced_def)
  have valid: "status_of d i \<in> {None, Some ''active'', Some ''paused'', Some ''dead''}" for i
  proof (cases "find (\<lambda>r. ar_id r = i) (t_agents d)")
    case (Some r)
    then have "r \<in> set (t_agents d)" by (auto simp: find_Some_iff)
    then have "valid_status (ar_status r)" using ok by (simp add: agents_ok_def row_ok_def)
    then show ?thesis using Some by (simp add: status_of_def valid_status_def)
  qed (simp add: status_of_def)
  have live: "sw_runners sw i \<noteq> None \<longleftrightarrow> status_of d i \<noteq> None" if "status_of d i \<noteq> Some ''dead''" for i
    using run_i [of i] valid [of i] that by (auto simp: called_for_def)
  have classop: "synced d' (receive env d' q sw)" if ce: "setClassAndEmit pg (Some (\<lambda>_. None)) now i cls why ch (d, []) = ((d', q), Ok ())" and ns: "ch \<notin> set subscribed" for i cls ch
  proof -
    obtain ev where "SetAgentNodeClass pg i cls d = (d', Ok ())" "q = [(ch, ev)]"
      using ce by (auto simp: setClassAndEmit_def publish_def split: if_splits prod.splits sum.splits)
    then show ?thesis using sy ns by (simp add: receive_def synced_def status_of_class)
  qed
  show ?thesis
  proof (cases op)
    case (OpSpawn u a)
    then obtain i where "lm_Spawn pg (Some (\<lambda>_. None)) u now a why (d, []) = ((d', q), Ok i)"
      using run by (auto simp: bindr_Ok_iff split: prod.splits)
    then show ?thesis using sync_spawn [OF sy ok] leg OpSpawn by blast
  next
    case (OpKill i)
    then have r: "set_status_and_emit pg (Some (\<lambda>_. None)) now ''Kill'' ''dead'' ''lifecycle:kill'' i why (d, []) = ((d', q), Ok ())" using run by (simp add: lm_Kill_def)
    have "i \<noteq> []" using status_of_SetAgentStatus(2) [OF set_status_emit_OkD(1) [OF r]] .
    then show ?thesis by (intro sync_set_status [OF sy r]) (auto simp: dispatch_def plain_event_def stop_runners called_for_def)
  next
    case (OpPause i)
    then have r: "set_status_and_emit pg (Some (\<lambda>_. None)) now ''Pause'' ''paused'' ''lifecycle:pause'' i why (d, []) = ((d', q), Ok ())" using run by (simp add: lm_Pause_def)
    have "i \<noteq> []" using status_of_SetAgentStatus(2) [OF set_status_emit_OkD(1) [OF r]] .
    then show ?thesis using live [of i] leg OpPause
      by (intro sync_set_status [OF sy r]) (auto simp: dispatch_def plain_event_def withRunner_runners node_Pause_def called_for_def)
  next
    case (OpResume i)
    then have r: "set_status_and_emit pg (Some (\<lambda>_. None)) now ''Resume'' ''active'' ''lifecycle:resume'' i why (d, []) = ((d', q), Ok ())" using run by (simp add: lm_Resume_def)
    have "i \<noteq> []" using status_of_SetAgentStatus(2) [OF set_status_emit_OkD(1) [OF r]] .
    then show ?thesis using live [of i] leg OpResume
      by (intro sync_set_status [OF sy r]) (auto simp: dispatch_def plain_event_def withRunner_runners node_Resume_def called_for_def)
  next
    case (OpPromote i)
    then show ?thesis using run classop [of i "''funded''" "''lifecycle:promote''"] by (auto simp: lm_Promote_def split: prod.splits)
  next
    case (OpDemote i)
    then show ?thesis using run classop [of i "''shadow''" "''lifecycle:demote''"] by (auto simp: lm_Demote_def split: prod.splits)
  qed
qed


text \<open>One lifecycle operation that \<open>legal_op\<close> admits and whose event the runtime receives before the next one.\<close>

inductive prompt_step :: "postgres \<Rightarrow> swarm_env \<Rightarrow> db \<times> SwarmRuntime \<Rightarrow> db \<times> SwarmRuntime \<Rightarrow> bool" for pg env where
  prompt_op: "legal_op env d op \<Longrightarrow> run_op pg (Some (\<lambda>_. None)) now why op (d, []) = ((d', q), r) \<Longrightarrow> prompt_step pg env (d, sw) (d', receive env d' q sw)"

inductive_cases prompt_stepE: "prompt_step pg env s s'"

lemma run_op_writes:
  assumes "run_op pg bus now why op (d, q) = ((d', q'), r)" shows "agent_write d d' \<or> d' = d"
proof -
  have st: "set_status_and_emit pg bus now opn st ch i why (d, q) = ((d', q'), r') \<Longrightarrow> agent_write d d' \<or> d' = d" for opn st ch i r'
    using aw_status [of d pg now i st why] by (auto simp: set_status_and_emit_def split: if_splits prod.splits sum.splits)
  have cl: "setClassAndEmit pg bus now i cls why ch (d, q) = ((d', q'), r') \<Longrightarrow> agent_write d d' \<or> d' = d" for i cls ch r'
    using aw_class [of d pg i cls] by (auto simp: setClassAndEmit_def split: if_splits prod.splits sum.splits)
  have sp: "lm_Spawn pg bus u now a why (d, q) = ((d', q'), r') \<Longrightarrow> agent_write d d' \<or> d' = d" for u a r'
    using aw_insert [of d pg u a] by (auto simp: lm_Spawn_def split: prod.splits sum.splits)
  show ?thesis using assms st cl sp
    by (cases op) (auto simp: lm_Kill_def lm_Pause_def lm_Resume_def lm_Promote_def lm_Demote_def split: prod.splits)
qed

lemma prompt_step_synced:
  assumes "prompt_step pg env (d, sw) (d', sw')" "synced d sw" "agents_ok d" shows "synced d' sw' \<and> agents_ok d'"
  using assms(1)
proof cases
  case (prompt_op op now why q r)
  have "agents_ok d'" using run_op_writes [OF prompt_op(3)] agent_write_ok assms(3) by blast
  moreover have "synced d' sw'"
  proof (cases r)
    case (Inl e)
    with prompt_op(3) have "run_op pg (Some (\<lambda>_. None)) now why op (d, []) = ((d', q), Inl e)" by simp
    from run_op_failed [OF this] show ?thesis using prompt_op(1) assms(2) by (simp add: receive_def)
  qed (use run_op_synced [OF assms(2,3) prompt_op(2)] prompt_op in auto)
  ultimately show ?thesis by blast
qed

lemma prompt_steps_synced:
  assumes "(prompt_step pg env)\<^sup>*\<^sup>* (d, sw) (d', sw')" "synced d sw" "agents_ok d"
  shows "synced d' sw' \<and> agents_ok d'"
  using assms
proof (induction "(d', sw')" arbitrary: d' sw' rule: rtranclp_induct)
  case base
  then show ?case by simp
next
  case (step s)
  then show ?case using prompt_step_synced by (metis surj_pair)
qed

section \<open>Events that arrive late, starts that fail\<close>

text \<open>
  In general the events wait in the order of their publication, and a start fails when the task does not build, the model is not
  known or the table cannot be read; what the environment answers may change from step to step.  An agent is
  spawned under an identifier that no waiting event names.
\<close>

definition names_agent :: "string \<Rightarrow> message \<Rightarrow> bool" where
  "names_agent i m \<longleftrightarrow> (case snd m of None \<Rightarrow> False | Some ev \<Rightarrow> ev_AgentID ev = i)"

fun fresh_op :: "message list \<Rightarrow> lifecycle_op \<Rightarrow> bool" where
  "fresh_op q (OpSpawn u a) \<longleftrightarrow> (\<forall>m \<in> set q. \<not> names_agent u m)"
| "fresh_op q _ \<longleftrightarrow> True"

inductive swarm_step :: "postgres \<Rightarrow> db \<times> message list \<times> SwarmRuntime \<Rightarrow> db \<times> message list \<times> SwarmRuntime \<Rightarrow> bool" for pg where
  swarm_op: "fresh_op q op \<Longrightarrow> run_op pg (Some (\<lambda>_. None)) now why op (d, q) = ((d', q'), r) \<Longrightarrow> swarm_step pg (d, q, sw) (d', q', sw)"
| swarm_deliver: "swarm_step pg (d, m # q, sw) (d, q, receive env d [m] sw)"

text \<open>Every runner is one the table calls for.\<close>

definition follows :: "db \<Rightarrow> SwarmRuntime \<Rightarrow> bool" where
  "follows d sw \<longleftrightarrow> (\<forall>i nr. sw_runners sw i = Some nr \<longrightarrow> called_for (status_of d i) = Some (nr_paused nr))"

text \<open>The status a waiting event commands, and the last one commanded of an agent.\<close>

definition command :: "string \<Rightarrow> message \<Rightarrow> string option" where
  "command i m =
     (if i = [] \<or> \<not> names_agent i m then None
      else if fst m = ''lifecycle:kill'' then Some ''dead''
      else if fst m = ''lifecycle:pause'' then Some ''paused''
      else if fst m = ''lifecycle:resume'' then Some ''active'' else None)"

fun last_command :: "string \<Rightarrow> message list \<Rightarrow> string option" where
  "last_command i [] = None"
| "last_command i (m # q) = (case last_command i q of Some st \<Rightarrow> Some st | None \<Rightarrow> command i m)"

definition lag_at :: "string option \<Rightarrow> NodeRunner option \<Rightarrow> string option \<Rightarrow> bool" where
  "lag_at st rn cmd \<longleftrightarrow> (rn \<noteq> None \<longrightarrow> st \<noteq> None) \<and>
     (case cmd of Some c \<Rightarrow> st = None \<or> st = Some c | None \<Rightarrow> rn = None \<or> called_for st = map_option nr_paused rn)"

definition lags :: "db \<Rightarrow> message list \<Rightarrow> SwarmRuntime \<Rightarrow> bool" where
  "lags d q sw \<longleftrightarrow> (\<forall>i. lag_at (status_of d i) (sw_runners sw i) (last_command i q))"

lemma lagsD: "lags d q sw \<Longrightarrow> lag_at (status_of d i) (sw_runners sw i) (last_command i q)"
  by (simp add: lags_def)

lemma last_command_snoc: "last_command i (q @ [m]) = (case command i m of Some st \<Rightarrow> Some st | None \<Rightarrow> last_command i q)"
  by (induction q) (auto split: option.splits)

lemma last_command_fresh: "\<forall>m \<in> set q. \<not> names_agent i m \<Longrightarrow> last_command i q = None"
  by (induction q) (auto simp: command_def)

lemma lag_at_None: "lag_at st rn None \<longleftrightarrow> (\<forall>nr. rn = Some nr \<longrightarrow> called_for st = Some (nr_paused nr))"
  by (cases rn; cases st) (simp_all add: lag_at_def called_for_def)

lemma lags_Nil: "lags d [] sw \<longleftrightarrow> follows d sw"
  by (simp add: lags_def follows_def lag_at_None)

lemma lags_status:
  assumes l: "lags d q sw" and r: "set_status_and_emit pg (Some (\<lambda>_. None)) now opn st ch i why (d, q) = ((d', q'), r)"
    and ch: "\<And>ev. ev_AgentID ev = i \<Longrightarrow> i \<noteq> [] \<Longrightarrow> command i (ch, Some ev) = Some st"
  shows "lags d' q' sw"
proof (cases r)
  case (Inl e)
  have st: "SetAgentStatus pg now i st why d = (d1, Inl e1) \<Longrightarrow> d1 = d" for d1 e1
    by (auto simp: SetAgentStatus_def split: if_splits dest: exec_Inl)
  from Inl r have "d' = d \<and> q' = q"
    by (auto simp: set_status_and_emit_def split: if_splits prod.splits sum.splits dest: st)
  with l show ?thesis by simp
next
  case (Inr u)
  with r have S: "SetAgentStatus pg now i st why d = (d', Ok ())" and q': "q' = q @ [(ch, Some (plain_event i why now))]"
    by (auto simp: set_status_and_emit_def publish_def split: if_splits prod.splits sum.splits)
  note T = status_of_SetAgentStatus [OF S]
  have c: "command j (ch, Some (plain_event i why now)) = (if j = i then Some st else None)" for j
    using ch [of "plain_event i why now"] T(2) by (auto simp: plain_event_def command_def names_agent_def)
  show ?thesis unfolding lags_def
  proof
    fix j
    show "lag_at (status_of d' j) (sw_runners sw j) (last_command j q')"
    proof (cases "j = i")
      case True
      with T(1) [of i] lagsD [OF l, of i] show ?thesis by (simp add: q' last_command_snoc c lag_at_def)
    next
      case False
      with T(1) [of j] lagsD [OF l, of j] show ?thesis by (simp add: q' last_command_snoc c)
    qed
  qed
qed

lemma lags_class:
  assumes "lags d q sw" "setClassAndEmit pg (Some (\<lambda>_. None)) now i cls why ch (d, q) = ((d', q'), r)"
    and "\<And>j ev. command j (ch, ev) = None"
  shows "lags d' q' sw"
proof -
  have "(\<forall>j. status_of d' j = status_of d j) \<and> (\<forall>j. last_command j q' = last_command j q)"
    using assms(2) status_of_class [of pg i cls d]
    by (auto simp: setClassAndEmit_def publish_def last_command_snoc assms(3) split: if_splits prod.splits sum.splits)
  with assms(1) show ?thesis by (simp add: lags_def)
qed

lemma lags_spawn:
  assumes l: "lags d q sw" and r: "lm_Spawn pg (Some (\<lambda>_. None)) u now a why (d, q) = ((d', q'), r)" and f: "\<forall>m \<in> set q. \<not> names_agent u m"
  shows "lags d' q' sw"
proof (cases r)
  case (Inl e)
  with r have "d' = d \<and> q' = q"
    by (auto simp: lm_Spawn_def InsertAgent_def Let_def split: prod.splits sum.splits option.splits if_splits)
  with l show ?thesis by simp
next
  case (Inr i)
  with r have ins: "InsertAgent pg u a d = (d', Ok i)" and q': "q' = q @ [(''lifecycle:spawn'', Some ((plain_event i why now)\<lparr>ev_NodeClass := ag_NodeClass a\<rparr>))]"
    by (auto simp: lm_Spawn_def publish_def split: prod.splits sum.splits)
  note st = status_of_insert [OF ins]
  have c: "last_command j q' = last_command j q" for j by (simp add: q' last_command_snoc command_def)
  have "last_command i q = None" using last_command_fresh [OF f] st(3) by simp
  moreover have "sw_runners sw i = None" using lagsD [OF l, of i] st(2) by (simp add: lag_at_def)
  moreover have "lag_at (status_of d' j) (sw_runners sw j) (last_command j q)" if "j \<noteq> i" for j using lagsD [OF l, of j] that by (simp add: st(1))
  ultimately show ?thesis unfolding lags_def c by (metis lag_at_def option.case(1))
qed

lemma run_op_lags:
  assumes "lags d q sw" "fresh_op q op" "run_op pg (Some (\<lambda>_. None)) now why op (d, q) = ((d', q'), r)"
  shows "lags d' q' sw"
proof (cases op)
  case (OpSpawn u a)
  with assms(3) obtain r' where "lm_Spawn pg (Some (\<lambda>_. None)) u now a why (d, q) = ((d', q'), r')" by (auto split: prod.splits)
  with assms(1,2) OpSpawn show ?thesis using lags_spawn by simp
next
  case (OpKill i)
  with assms(1,3) show ?thesis by (auto simp: lm_Kill_def command_def names_agent_def elim!: lags_status)
next
  case (OpPause i)
  with assms(1,3) show ?thesis by (auto simp: lm_Pause_def command_def names_agent_def elim!: lags_status)
next
  case (OpResume i)
  with assms(1,3) show ?thesis by (auto simp: lm_Resume_def command_def names_agent_def elim!: lags_status)
next
  case (OpPromote i)
  with assms(1,3) show ?thesis by (auto simp: lm_Promote_def command_def split: prod.splits elim!: lags_class)
next
  case (OpDemote i)
  with assms(1,3) show ?thesis by (auto simp: lm_Demote_def command_def split: prod.splits elim!: lags_class)
qed

lemma startFromRow_runners:
  "sw_runners (fst (startFromRow env row sw)) = sw_runners sw \<or>
   (\<exists>nr. sw_runners (fst (startFromRow env row sw)) = (sw_runners sw)(ag_ID row \<mapsto> nr) \<and> \<not> nr_paused nr)"
proof -
  have "\<not> nr_paused nr" if "NewNodeRunner True True True (runner_config sw row) = Ok nr" for nr
    using that by (auto simp: NewNodeRunner_def bindr_Ok_iff Let_def split: if_splits)
  then show ?thesis by (auto simp: startFromRow_def split: sum.splits)
qed

lemma listed_active:
  assumes "agents_ok d" "find (\<lambda>r. ag_ID r = i) (map agent_of_row (filter (\<lambda>r. ar_status r = ''active'') (t_agents d))) = Some row"
  shows "ag_ID row = i \<and> status_of d i = Some ''active''"
proof -
  have found: "find P xs = Some x \<Longrightarrow> x \<in> set xs \<and> P x" for P and xs :: "Agent list" and x by (induction xs) (auto split: if_splits)
  from found [OF assms(2)] have "row \<in> set (map agent_of_row (filter (\<lambda>r. ar_status r = ''active'') (t_agents d)))" "ag_ID row = i" by simp_all
  then obtain r where r: "r \<in> set (t_agents d)" "ar_status r = ''active''" "ar_id r = i" by (auto simp: agent_of_row_def)
  then obtain r' where r': "find (\<lambda>r. ar_id r = i) (t_agents d) = Some r'" by (cases "find (\<lambda>r. ar_id r = i) (t_agents d)") (auto simp: find_None_iff)
  then have "r' \<in> set (t_agents d)" "ar_id r' = i" by (auto simp: find_Some_iff)
  moreover have "distinct (map ar_id (t_agents d))" using assms(1) by (simp add: agents_ok_def)
  ultimately have "r' = r" using r by (metis distinct_map inj_onD)
  with r r' \<open>ag_ID row = i\<close> show ?thesis by (simp add: status_of_def)
qed

text \<open>What a delivery does to the runner of one agent.\<close>

lemma spawned_runner:
  assumes "agents_ok d"
  shows "sw_runners (fst (spawnByID env d i sw)) j = sw_runners sw j \<or>
    (j = i \<and> status_of d i = Some ''active'' \<and> (\<exists>nr. sw_runners (fst (spawnByID env d i sw)) j = Some nr \<and> \<not> nr_paused nr))"
proof (cases "sw_runners sw i \<noteq> None \<or> (\<exists>e. ListActiveAgents (se_pg env) d = Inl e)")
  case True
  then show ?thesis by (auto simp: spawnByID_def)
next
  case False
  then obtain rows where rows: "ListActiveAgents (se_pg env) d = Ok rows" "sw_runners sw i = None" by (cases "ListActiveAgents (se_pg env) d") auto
  then have r: "rows = map agent_of_row (filter (\<lambda>r. ar_status r = ''active'') (t_agents d))" by (auto simp: ListActiveAgents_def split: option.splits)
  show ?thesis
  proof (cases "find (\<lambda>r. ag_ID r = i) rows")
    case None
    with rows show ?thesis by (simp add: spawnByID_def)
  next
    case (Some row)
    then have sp: "fst (spawnByID env d i sw) = fst (startFromRow env row sw)" using rows by (simp add: spawnByID_def)
    from listed_active [OF assms Some [unfolded r]] have "ag_ID row = i" "status_of d i = Some ''active''" by simp_all
    with startFromRow_runners [of env row sw] show ?thesis unfolding sp by (elim disjE exE conjE) simp_all
  qed
qed

lemma deliver_command:
  assumes "command i m = Some st"
  shows "sw_runners (receive env d [m] sw) i =
    (if st = ''dead'' then None else if st = ''paused'' then map_option node_Pause (sw_runners sw i) else map_option node_Resume (sw_runners sw i))"
proof -
  obtain ch ev where m: "m = (ch, ev)" by force
  from assms obtain e where e: "ev = Some e" "ev_AgentID e = i" "i \<noteq> []" by (auto simp: m command_def names_agent_def split: if_splits option.splits)
  from assms consider "ch = ''lifecycle:kill''" "st = ''dead''" | "ch = ''lifecycle:pause''" "st = ''paused''" | "ch = ''lifecycle:resume''" "st = ''active''"
    by (auto simp: m command_def split: if_splits)
  then show ?thesis using e by cases (simp_all add: m receive_one dispatch_def stop_runners withRunner_runners)
qed

lemma deliver_other:
  assumes "agents_ok d" "command i m = None"
  shows "sw_runners (receive env d [m] sw) i = sw_runners sw i \<or>
    (status_of d i = Some ''active'' \<and> (\<exists>nr. sw_runners (receive env d [m] sw) i = Some nr \<and> \<not> nr_paused nr))"
proof -
  obtain ch ev where m: "m = (ch, ev)" by force
  show ?thesis
  proof (cases "ev = None \<or> ch \<notin> set subscribed \<or> (\<exists>e. ev = Some e \<and> ev_AgentID e = [])")
    case True
    then show ?thesis by (auto simp: m receive_def dispatch_def)
  next
    case False
    then obtain e where e: "ev = Some e" "ch \<in> set subscribed" "ev_AgentID e \<noteq> []" by auto
    show ?thesis
    proof (cases "ch = ''lifecycle:spawn''")
      case True
      with e have "receive env d [m] sw = fst (spawnByID env d (ev_AgentID e) sw)" by (simp add: m receive_one dispatch_def)
      then show ?thesis using spawned_runner [OF assms(1), of env "ev_AgentID e" sw i] by auto
    next
      case False
      with e(2) have ch: "ch = ''lifecycle:kill'' \<or> ch = ''lifecycle:pause'' \<or> ch = ''lifecycle:resume''" by (auto simp: subscribed_def)
      then have ne: "i \<noteq> ev_AgentID e" using assms(2) e by (elim disjE) (auto simp: m command_def names_agent_def)
      from ch e ne have "sw_runners (receive env d [m] sw) i = sw_runners sw i"
        by (elim disjE) (simp_all add: m receive_one dispatch_def stop_runners withRunner_runners)
      then show ?thesis ..
    qed
  qed
qed

lemma deliver_lags:
  assumes ok: "agents_ok d" and l: "lags d (m # q) sw"
  shows "lags d q (receive env d [m] sw)"
  unfolding lags_def
proof
  fix i
  note L = lagsD [OF l, of i]
  let ?rn = "sw_runners (receive env d [m] sw) i"
  show "lag_at (status_of d i) ?rn (last_command i q)"
  proof (cases "command i m")
    case (Some st)
    have "st \<in> {''dead'', ''paused'', ''active''}" using Some by (auto simp: command_def split: if_splits)
    then show ?thesis using L deliver_command [OF Some, of env d sw] Some
      by (cases "last_command i q"; cases "sw_runners sw i") (auto simp: lag_at_def called_for_def node_Pause_def node_Resume_def)
  next
    case None
    from deliver_other [OF ok None, of env sw] show ?thesis
    proof
      assume "?rn = sw_runners sw i"
      with L None show ?thesis by (cases "last_command i q") simp_all
    next
      assume "status_of d i = Some ''active'' \<and> (\<exists>nr. ?rn = Some nr \<and> \<not> nr_paused nr)"
      with L None show ?thesis by (cases "last_command i q") (auto simp: lag_at_def called_for_def)
    qed
  qed
qed

lemma swarm_step_lags:
  assumes "swarm_step pg (d, q, sw) (d', q', sw')" "lags d q sw" "agents_ok d" shows "lags d' q' sw' \<and> agents_ok d'"
  using assms(1)
proof cases
  case (swarm_op op now why r)
  then show ?thesis using run_op_lags [OF assms(2)] run_op_writes agent_write_ok assms(3) by blast
next
  case (swarm_deliver m env)
  then show ?thesis using deliver_lags [OF assms(3)] assms(2,3) by blast
qed

section \<open>Properties\<close>

text \<open>
  Publishing may fail, and the operation then still reports success: the table is changed, nobody hears of it, and the runner of a
  killed agent keeps running.  The property below is about histories without such a failure.
\<close>

lemma unheard_kill:
  assumes "fault ''lifecycle:kill'' = Some e" "run_op pg (Some fault) now why (OpKill i) (d, []) = ((d', q), Ok ())"
    "status_of d i \<noteq> None"
  shows "status_of d' i = Some ''dead'' \<and> q = [] \<and> sw_runners (receive env d' q sw) = sw_runners sw"
proof -
  have "SetAgentStatus pg now i ''dead'' why d = (d', Ok ()) \<and> q = []"
    using assms(1,2) by (auto simp: lm_Kill_def set_status_and_emit_def publish_def split: prod.splits sum.splits if_splits)
  then show ?thesis using status_of_SetAgentStatus(1) [of pg now i "''dead''" why d d'] assms(3)
    by (auto simp: receive_def)
qed

text \<open>
  C1: the runners follow the table, as long as every change of the table is published.  Take any sequence of lifecycle operations and
  deliveries, from a table and runners that agree: operations may fail, events wait in the order of their publication while
  further operations run, and a start may fail because the task does not build, the model is not known or the table cannot be read;
  an identifier drawn for a new agent is one no waiting event names.  Whenever no event is waiting, every runner belongs to an agent
  that is active or paused in the table and is paused exactly if the agent is.  And if each event is received before the next
  operation, starts succeed and dead agents are not paused or resumed, there is a runner for each active and paused agent.
\<close>

theorem swarm_follows_table:
  assumes "agents_ok d"
  shows "(\<forall>q sw d' sw'. (swarm_step pg)\<^sup>*\<^sup>* (d, [], sw) (d', q, sw') \<longrightarrow> follows d sw \<longrightarrow> agents_ok d' \<and> (q = [] \<longrightarrow> follows d' sw')) \<and>
    (\<forall>env sw d' sw'. (prompt_step pg env)\<^sup>*\<^sup>* (d, sw) (d', sw') \<longrightarrow> synced d sw \<longrightarrow> synced d' sw')"
proof (intro conjI allI impI)
  have run: "lags d' q sw' \<and> agents_ok d'" if "(swarm_step pg)\<^sup>*\<^sup>* (d, [], sw) (d', q, sw')" "follows d sw" for q sw d' sw'
    using that
  proof (induction "(d', q, sw')" arbitrary: d' q sw' rule: rtranclp_induct)
    case base
    then show ?case using assms by (simp add: lags_Nil)
  next
    case (step s)
    obtain d1 q1 sw1 where s: "s = (d1, q1, sw1)" by (cases s) auto
    with step show ?case using swarm_step_lags by blast
  qed
  show "agents_ok d'" if "(swarm_step pg)\<^sup>*\<^sup>* (d, [], sw) (d', q, sw')" "follows d sw" for q sw d' sw'
    using run [OF that] by simp
  show "follows d' sw'" if "(swarm_step pg)\<^sup>*\<^sup>* (d, [], sw) (d', q, sw')" "follows d sw" "q = []" for q sw d' sw'
    using run [OF that(1,2)] that(3) by (simp add: lags_Nil)
  show "synced d' sw'" if "(prompt_step pg env)\<^sup>*\<^sup>* (d, sw) (d', sw')" "synced d sw" for env sw d' sw'
    using prompt_steps_synced [OF that assms] by simp
qed

definition sample_env :: swarm_env where
  "sample_env = \<lparr>se_pg = pg_ok, se_build = (\<lambda>_ _. Ok ()), se_llm = (\<lambda>_. Ok ())\<rparr>"

definition sample_swarm :: SwarmRuntime where
  "sample_swarm = \<lparr>sw_runners = [''a'' \<mapsto> sample_runner\<lparr>nr_paused := False\<rparr>], sw_offsets = (\<lambda>_. 0), sw_staged = 1, sw_cancelled = {},
     sw_scheduler = NewScheduler 0 0, sw_monitorInterval = 0, sw_heartbeatInterval = 0, sw_strategistInterval = 0\<rparr>"

lemma sample_db_ok: "agents_ok sample_db" "agents_ok (sample_db\<lparr>t_agents := [sample_row\<lparr>ar_status := ''paused''\<rparr>]\<rparr>)"
  by (simp_all add: agents_ok_def row_ok_def sample_db_def sample_row_def valid_status_def valid_class_def valid_chain_def)

theorem swarm_follows_table_witness:
  "\<exists>d' sw'. (prompt_step pg_ok sample_env)\<^sup>*\<^sup>* (sample_db, sample_swarm) (d', sw') \<and> status_of d' ''a'' = Some ''paused'' \<and>
     map_option nr_paused (sw_runners sw' ''a'') = Some True"
proof -
  obtain d' q where run: "run_op pg_ok (Some (\<lambda>_. None)) 0 ''weak'' (OpPause ''a'') (sample_db, []) = ((d', q), Ok ())"
    by (simp add: lm_Pause_def set_status_and_emit_def SetAgentStatus_def exec_def pg_ok_def valid_status_def)
  have st: "status_of sample_db j = (if j = ''a'' then Some ''active'' else None)" for j
    by (simp add: status_of_def sample_db_def sample_row_def)
  have sy: "synced sample_db sample_swarm" by (simp add: synced_def st called_for_def sample_swarm_def)
  have "prompt_step pg_ok sample_env (sample_db, sample_swarm) (d', receive sample_env d' q sample_swarm)"
    by (rule prompt_op [OF _ run]) (simp add: st)
  then have steps: "(prompt_step pg_ok sample_env)\<^sup>*\<^sup>* (sample_db, sample_swarm) (d', receive sample_env d' q sample_swarm)" by blast
  have "set_status_and_emit pg_ok (Some (\<lambda>_. None)) 0 ''Pause'' ''paused'' ''lifecycle:pause'' ''a'' ''weak'' (sample_db, []) = ((d', q), Ok ())"
    using run by (simp add: lm_Pause_def)
  then have "status_of d' ''a'' = Some ''paused''" using status_of_SetAgentStatus(1) [OF set_status_emit_OkD(1), of _ _ _ _ _ _ _ _ _ _ "''a''"] st by simp
  moreover from this have "map_option nr_paused (sw_runners (receive sample_env d' q sample_swarm) ''a'') = Some True"
    using swarm_follows_table [OF sample_db_ok(1), of pg_ok] steps sy by (auto simp: synced_def called_for_def)
  ultimately show ?thesis using steps by blast
qed

text \<open>
  A paused agent does not survive a restart of the process: a runtime started on the table has no
  runner for it, and resuming it later, with the bus up and the event received, makes it active in
  the table but still gives it no runner.
\<close>

theorem restart_loses_paused_agents:
  assumes "agents_ok d" "status_of d i = Some ''paused''" "NewSwarm True True sch mi hi si = Ok sw0" "LoadAndStart env d sw0 = (sw, res)"
    "lm_Resume pg (Some (\<lambda>_. None)) now i why (d, []) = ((d', q), Ok ())"
  shows "status_of d' i = Some ''active'' \<and> sw_runners (receive env d' q sw) i = None"
proof -
  have none0: "sw_runners sw0 i = None" using assms(3) by (auto simp: NewSwarm_def bindr_Ok_iff)
  have act: "i \<notin> ag_ID ` set (map agent_of_row (filter (\<lambda>r. ar_status r = ''active'') (t_agents d)))"
  proof
    assume "i \<in> ag_ID ` set (map agent_of_row (filter (\<lambda>r. ar_status r = ''active'') (t_agents d)))"
    then obtain r where r: "r \<in> set (t_agents d)" "ar_status r = ''active''" "ar_id r = i" by (auto simp: agent_of_row_def)
    obtain r' where r': "find (\<lambda>r. ar_id r = i) (t_agents d) = Some r'" "ar_status r' = ''paused''" using assms(2) by (auto simp: status_of_def)
    then have "r' \<in> set (t_agents d)" "ar_id r' = i" by (auto simp: find_Some_iff)
    moreover have "distinct (map ar_id (t_agents d))" using assms(1) by (simp add: agents_ok_def)
    ultimately have "r' = r" using r by (metis distinct_map inj_onD)
    then show False using r(2) r'(2) by simp
  qed
  have none: "sw_runners sw i = None"
  proof (cases "ListActiveAgents (se_pg env) d")
    case (Inr rows)
    then have "i \<notin> ag_ID ` set rows" using act by (auto simp: ListActiveAgents_def split: option.splits)
    then show ?thesis using start_rows_other [of i rows env sw0] none0 assms(4) Inr by (auto simp: LoadAndStart_def split: prod.splits)
  qed (use none0 assms(4) in \<open>simp add: LoadAndStart_def\<close>)
  have r: "set_status_and_emit pg (Some (\<lambda>_. None)) now ''Resume'' ''active'' ''lifecycle:resume'' i why (d, []) = ((d', q), Ok ())"
    using assms(5) by (simp add: lm_Resume_def)
  note S = set_status_emit_OkD [OF r]
  note T = status_of_SetAgentStatus [OF S(1)]
  have "sw_runners (dispatch env d' (''lifecycle:resume'', Some (plain_event i why now)) sw) i = None"
    using T(2) none by (simp add: dispatch_def plain_event_def withRunner_runners)
  then show ?thesis using T(1) [of i] assms(2) by (simp add: S(2) receive_one [OF subscribed_mem(4)])
qed

theorem restart_loses_paused_agents_witness:
  "\<exists>sw0 sw res d' q. NewSwarm True True None 0 0 0 = Ok sw0 \<and>
     LoadAndStart sample_env (sample_db\<lparr>t_agents := [sample_row\<lparr>ar_status := ''paused''\<rparr>]\<rparr>) sw0 = (sw, res) \<and>
     status_of d' ''a'' = Some ''active'' \<and> sw_runners (receive sample_env d' q sw) ''a'' = None"
proof -
  let ?d = "sample_db\<lparr>t_agents := [sample_row\<lparr>ar_status := ''paused''\<rparr>]\<rparr>"
  obtain sw0 where n: "NewSwarm True True None 0 0 0 = Ok sw0" by (simp add: NewSwarm_def)
  obtain sw res where l: "LoadAndStart sample_env ?d sw0 = (sw, res)" by force
  have p: "status_of ?d ''a'' = Some ''paused''" by (simp add: status_of_def sample_row_def)
  obtain d' q where r: "lm_Resume pg_ok (Some (\<lambda>_. None)) 0 ''a'' ''ok'' (?d, []) = ((d', q), Ok ())"
    by (simp add: lm_Resume_def set_status_and_emit_def SetAgentStatus_def exec_def pg_ok_def valid_status_def)
  show ?thesis using restart_loses_paused_agents [OF sample_db_ok(2) p n l r] n l by blast
qed

end
