(* ===== verification/Knowledge.thy ===== *)
theory Knowledge
  imports GoFmt "HOL-Library.AList"
begin

text \<open>
  \<^verbatim>\<open>internal/intelligence/knowledge_graph.go\<close> and \<^verbatim>\<open>decay_job.go\<close>: the market knowledge graph.  Both
  Go maps of the graph are association lists with distinct keys; where the code ranges over a map, the
  order of the visit is a parameter, and \<open>Decay_eq_ref\<close> shows that it does not matter for the
  decay pass.  The clock the graph reads is an argument of the operations.
\<close>

section \<open>Data\<close>

type_synonym Direction = string

definition DirectionPositive :: Direction where "DirectionPositive = ''positive''"
definition DirectionNegative :: Direction where "DirectionNegative = ''negative''"
definition DirectionNeutral :: Direction where "DirectionNeutral = ''neutral''"

lemmas direction_defs = DirectionPositive_def DirectionNegative_def DirectionNeutral_def

definition Opposite :: "Direction \<Rightarrow> Direction" where
  "Opposite d = (if d = DirectionPositive then DirectionNegative
                 else if d = DirectionNegative then DirectionPositive else [])"

record Edge =
  ed_EntityA :: string
  ed_Relationship :: string
  ed_EntityB :: string
  ed_Direction :: Direction
  ed_Strength :: f64
  ed_EvidenceCount :: int
  ed_DiscoveredBy :: string
  ed_LastValidated :: time
  ed_CreatedAt :: time

type_synonym EdgeKey = "string \<times> string \<times> string"
type_synonym edgeID = "EdgeKey \<times> Direction"

definition edge_Key :: "Edge \<Rightarrow> EdgeKey" where
  "edge_Key e = (ed_EntityA e, ed_Relationship e, ed_EntityB e)"

definition edge_ID :: "Edge \<Rightarrow> edgeID" where "edge_ID e = (edge_Key e, ed_Direction e)"

definition DecayInterval :: duration where "DecayInterval = 30 * Day"
definition DecayFactor :: f64 where "DecayFactor = rnd (95 / 100)"
definition DeletionThreshold :: f64 where "DeletionThreshold = rnd (1 / 10)"
definition ContradictionPenalty :: f64 where "ContradictionPenalty = rnd (2 / 10)"
definition MaxStrength :: f64 where "MaxStrength = Fin 1"
definition MinStrength :: f64 where "MinStrength = Fin 0"

record UpsertResult =
  ur_Inserted :: bool
  ur_Reinforced :: bool
  ur_ContradictionApplied :: bool
  ur_PrevStrength :: f64
  ur_NewStrength :: f64

record KnowledgeGraph =
  kg_edges :: "(edgeID \<times> Edge) list"
  kg_byKey :: "(EdgeKey \<times> edgeID list) list"

definition NewKnowledgeGraph :: KnowledgeGraph where
  "NewKnowledgeGraph = \<lparr>kg_edges = [], kg_byKey = []\<rparr>"

text \<open>The value a Go map gives for a missing key: here the nil slice.\<close>

definition ids_of :: "KnowledgeGraph \<Rightarrow> EdgeKey \<Rightarrow> edgeID list" where
  "ids_of g k = (case map_of (kg_byKey g) k of None \<Rightarrow> [] | Some l \<Rightarrow> l)"

section \<open>Operations\<close>

definition clampStrength :: "f64 \<Rightarrow> f64" where
  "clampStrength s = (if flt s MinStrength then MinStrength else if flt MaxStrength s then MaxStrength else s)"

definition max1 :: "int \<Rightarrow> int" where "max1 n = (if n < 1 then 1 else n)"

definition known_direction :: "Direction \<Rightarrow> bool" where
  "known_direction d \<longleftrightarrow> d = DirectionPositive \<or> d = DirectionNegative \<or> d = DirectionNeutral"

definition validateEdge :: "Edge \<Rightarrow> unit result" where
  "validateEdge e = first_error
     [(TrimSpace (ed_EntityA e) = [], ''knowledge_graph: entity_a required''),
      (TrimSpace (ed_EntityB e) = [], ''knowledge_graph: entity_b required''),
      (TrimSpace (ed_Relationship e) = [], ''knowledge_graph: relationship required''),
      (\<not> known_direction (ed_Direction e), ''knowledge_graph: direction must be positive/negative/neutral''),
      (flt (ed_Strength e) (Fin 0) \<or> flt (Fin 1) (ed_Strength e), ''knowledge_graph: strength out of [0,1]'')]"

definition removeLocked :: "edgeID \<Rightarrow> KnowledgeGraph \<Rightarrow> KnowledgeGraph" where
  "removeLocked eid g =
     (let k = fst eid;
          g1 = g\<lparr>kg_edges := AList.delete eid (kg_edges g)\<rparr>;
          l = ids_of g1 k;
          g2 = (if eid \<in> set l then g1\<lparr>kg_byKey := AList.update k (remove1 eid l) (kg_byKey g1)\<rparr> else g1)
      in if ids_of g2 k = [] then g2\<lparr>kg_byKey := AList.delete k (kg_byKey g2)\<rparr> else g2)"

definition set_edge :: "edgeID \<Rightarrow> Edge \<Rightarrow> KnowledgeGraph \<Rightarrow> KnowledgeGraph" where
  "set_edge eid e g = g\<lparr>kg_edges := AList.update eid e (kg_edges g)\<rparr>"

text \<open>The first half of \<^verbatim>\<open>Upsert\<close>: evidence weakens the opposite edge, and may remove it.\<close>

definition contradict :: "Edge \<Rightarrow> KnowledgeGraph \<Rightarrow> KnowledgeGraph \<times> bool" where
  "contradict e g =
     (if Opposite (ed_Direction e) = [] then (g, False)
      else let eid = (edge_Key e, Opposite (ed_Direction e)) in
        (case map_of (kg_edges g) eid of
           None \<Rightarrow> (g, False)
         | Some x \<Rightarrow>
             let x' = x\<lparr>ed_Strength := clampStrength (fsub (ed_Strength x) ContradictionPenalty)\<rparr>;
                 g' = set_edge eid x' g
             in (if flt (ed_Strength x') DeletionThreshold then removeLocked eid g' else g', True)))"

definition new_edge :: "time \<Rightarrow> Edge \<Rightarrow> Edge" where
  "new_edge now e =
     \<lparr>ed_EntityA = ed_EntityA e, ed_Relationship = ed_Relationship e, ed_EntityB = ed_EntityB e,
      ed_Direction = ed_Direction e, ed_Strength = clampStrength (ed_Strength e),
      ed_EvidenceCount = max1 (ed_EvidenceCount e), ed_DiscoveredBy = ed_DiscoveredBy e,
      ed_LastValidated = now, ed_CreatedAt = (if ed_CreatedAt e = zero_time then now else ed_CreatedAt e)\<rparr>"

definition reinforced_edge :: "time \<Rightarrow> Edge \<Rightarrow> Edge \<Rightarrow> Edge" where
  "reinforced_edge now e x =
     x\<lparr>ed_EvidenceCount := wrap64 (ed_EvidenceCount x + 1), ed_LastValidated := now,
       ed_Strength := clampStrength (fdiv (fadd (ed_Strength x) (clampStrength (ed_Strength e))) (Fin 2))\<rparr>"

definition Upsert :: "time \<Rightarrow> Edge \<Rightarrow> KnowledgeGraph \<Rightarrow> (KnowledgeGraph \<times> UpsertResult) result" where
  "Upsert now e g =
     bindr (validateEdge e) (\<lambda>_.
       case contradict e g of (g1, c) \<Rightarrow>
       let eid = (edge_Key e, ed_Direction e) in
       (case map_of (kg_edges g1) eid of
          Some x \<Rightarrow>
            let x' = reinforced_edge now e x
            in Ok (set_edge eid x' g1, \<lparr>ur_Inserted = False, ur_Reinforced = True, ur_ContradictionApplied = c,
                     ur_PrevStrength = ed_Strength x, ur_NewStrength = ed_Strength x'\<rparr>)
        | None \<Rightarrow>
            let x = new_edge now e; g2 = set_edge eid x g1
            in Ok (g2\<lparr>kg_byKey := AList.update (edge_Key e) (ids_of g2 (edge_Key e) @ [eid]) (kg_byKey g2)\<rparr>,
                   \<lparr>ur_Inserted = True, ur_Reinforced = False, ur_ContradictionApplied = c,
                    ur_PrevStrength = Fin 0, ur_NewStrength = ed_Strength x\<rparr>)))"

definition kg_Get :: "EdgeKey \<Rightarrow> Direction \<Rightarrow> KnowledgeGraph \<Rightarrow> Edge option" where
  "kg_Get key dir g = map_of (kg_edges g) (key, dir)"

definition kg_Len :: "KnowledgeGraph \<Rightarrow> int" where "kg_Len g = int (length (kg_edges g))"

definition edge_less :: "Edge \<Rightarrow> Edge \<Rightarrow> bool" where
  "edge_less a b =
     (if ed_EntityA a \<noteq> ed_EntityA b then str_less (ed_EntityA a) (ed_EntityA b)
      else if ed_Relationship a \<noteq> ed_Relationship b then str_less (ed_Relationship a) (ed_Relationship b)
      else if ed_EntityB a \<noteq> ed_EntityB b then str_less (ed_EntityB a) (ed_EntityB b)
      else str_less (ed_Direction a) (ed_Direction b))"

definition kg_Edges :: "(Edge list \<Rightarrow> Edge list) \<Rightarrow> KnowledgeGraph \<Rightarrow> Edge list" where
  "kg_Edges p g = sort_Slice p edge_less (map snd (kg_edges g))"

definition other :: "Edge \<Rightarrow> string \<Rightarrow> string" where
  "other e entity = (if ed_EntityA e = entity then ed_EntityB e else ed_EntityA e)"

definition neighbor_less :: "string \<Rightarrow> Edge \<Rightarrow> Edge \<Rightarrow> bool" where
  "neighbor_less entity a b =
     (if \<not> feq (ed_Strength a) (ed_Strength b) then flt (ed_Strength b) (ed_Strength a)
      else if other a entity \<noteq> other b entity then str_less (other a entity) (other b entity)
      else str_less (ed_Direction a) (ed_Direction b))"

definition Neighbors :: "(Edge list \<Rightarrow> Edge list) \<Rightarrow> string \<Rightarrow> KnowledgeGraph \<Rightarrow> Edge list" where
  "Neighbors p entity g =
     sort_Slice p (neighbor_less entity) (filter (\<lambda>e. ed_EntityA e = entity \<or> ed_EntityB e = entity) (map snd (kg_edges g)))"

text \<open>One visit of the loop of \<^verbatim>\<open>Decay\<close>; the counters are \<^verbatim>\<open>decayed\<close> and \<^verbatim>\<open>deleted\<close>.\<close>

definition decayed_edge :: "Edge \<Rightarrow> Edge" where
  "decayed_edge e = e\<lparr>ed_Strength := clampStrength (fmul (ed_Strength e) DecayFactor)\<rparr>"

definition decay_visit :: "time \<Rightarrow> edgeID \<Rightarrow> KnowledgeGraph \<times> int \<times> int \<Rightarrow> KnowledgeGraph \<times> int \<times> int" where
  "decay_visit cutoff eid st =
     (case st of (g, decayed, deleted) \<Rightarrow>
       (case map_of (kg_edges g) eid of
          None \<Rightarrow> st
        | Some e \<Rightarrow>
            if cutoff < ed_LastValidated e then st
            else let e' = decayed_edge e; g' = set_edge eid e' g
              in if flt (ed_Strength e') DeletionThreshold then (removeLocked eid g', decayed + 1, deleted + 1)
                 else (g', decayed + 1, deleted)))"

definition Decay :: "(edgeID list \<Rightarrow> edgeID list) \<Rightarrow> time \<Rightarrow> KnowledgeGraph \<Rightarrow> KnowledgeGraph \<times> int \<times> int" where
  "Decay p now g = fold (decay_visit (now - DecayInterval)) (p (map fst (kg_edges g))) (g, 0, 0)"

section \<open>The decay job\<close>

record DecayJob =
  dj_Graph :: "KnowledgeGraph option"
  dj_Interval :: duration

definition NewDecayJob :: "KnowledgeGraph option \<Rightarrow> duration \<Rightarrow> DecayJob" where
  "NewDecayJob graph interval = \<lparr>dj_Graph = graph, dj_Interval = (if interval \<le> 0 then 24 * Hour else interval)\<rparr>"

definition RunOnce :: "(edgeID list \<Rightarrow> edgeID list) \<Rightarrow> time \<Rightarrow> DecayJob \<Rightarrow> DecayJob \<times> int \<times> int" where
  "RunOnce p now j =
     (case dj_Graph j of
        None \<Rightarrow> (j, 0, 0)
      | Some g \<Rightarrow> (case Decay p now g of (g', decayed, deleted) \<Rightarrow> (j\<lparr>dj_Graph := Some g'\<rparr>, decayed, deleted)))"

text \<open>
  \<^verbatim>\<open>Run\<close> up to the moment its context is cancelled: a pass at the start and one for every tick, each with
  the time the graph reads and the order in which the map is visited.
\<close>

definition DecayJob_Run :: "(edgeID list \<Rightarrow> edgeID list) \<times> time \<Rightarrow> ((edgeID list \<Rightarrow> edgeID list) \<times> time) list \<Rightarrow> DecayJob \<Rightarrow> DecayJob" where
  "DecayJob_Run start ticks j =
     (if dj_Graph j = None then j else fold (\<lambda>(p, now) j. fst (RunOnce p now j)) (start # ticks) j)"

section \<open>Association lists\<close>

lemma AList_update_map:
  "distinct (map fst xs) \<Longrightarrow> map_of xs i = Some e \<Longrightarrow> AList.update i v xs = map (\<lambda>(j, x). (j, if j = i then v else x)) xs"
proof (induction xs)
  case (Cons a xs)
  obtain j x where a: "a = (j, x)" by (cases a)
  show ?case
  proof (cases "j = i")
    case True
    with Cons.prems a have "i \<notin> fst ` set xs" by auto
    then have "map (\<lambda>(j, x). (j, if j = i then v else x)) xs = xs" by (induction xs) auto
    with True a show ?thesis by simp
  next
    case False
    with Cons a show ?thesis by simp
  qed
qed simp

lemma AList_update_new: "i \<notin> fst ` set xs \<Longrightarrow> AList.update i v xs = xs @ [(i, v)]"
  by (induction xs) auto

lemma map_of_dom_iff: "map_of xs i = None \<longleftrightarrow> i \<notin> fst ` set xs"
  by (simp add: map_of_eq_None_iff)

section \<open>Strengths\<close>

lemma clampStrength_unit: "is_f64 s \<Longrightarrow> \<not> is_nan s \<Longrightarrow> in_unit (clampStrength s)"
  by (auto simp: clampStrength_def in_unit_def MinStrength_def MaxStrength_def is_f64_Fin flt_not_fle)

lemma clampStrength_id: "in_unit s \<Longrightarrow> clampStrength s = s"
  by (auto simp: clampStrength_def in_unit_def MinStrength_def MaxStrength_def dest: flt_asym)

lemma DecayFactor_unit [simp]: "in_unit DecayFactor"
  unfolding DecayFactor_def by (rule rnd_unit) simp_all

lemma ContradictionPenalty_unit [simp]: "in_unit ContradictionPenalty"
  unfolding ContradictionPenalty_def by (rule rnd_unit) simp_all

lemma average_unit:
  assumes "in_unit a" "in_unit b" shows "in_unit (clampStrength (fdiv (fadd a b) (Fin 2)))"
proof (rule clampStrength_unit)
  note fin = in_unit_fin [OF assms(1)] in_unit_fin [OF assms(2)]
  have "fle (Fin 0) (fadd a b)" using assms fin by (auto simp: in_unit_def intro: fadd_nonneg)
  moreover have "fle (fadd a b) (fadd (Fin 1) (Fin 1))" using assms fin by (intro fadd_mono) (auto simp: in_unit_def)
  moreover have "is_fin (fadd (Fin 1) (Fin 1))" by (simp add: f64_simps)
  ultimately have "is_fin (fadd a b)" using fle_between_fin by (metis is_fin.simps(1))
  then show "\<not> is_nan (fdiv (fadd a b) (Fin 2))" by simp
qed simp

lemma decayed_unit: "in_unit (ed_Strength e) \<Longrightarrow> in_unit (ed_Strength (decayed_edge e)) \<and> fle (ed_Strength (decayed_edge e)) (ed_Strength e)"
  using fmul_in_unit [OF DecayFactor_unit, of "ed_Strength e"] by (simp add: decayed_edge_def clampStrength_id fmul_comm)

section \<open>Invariant\<close>

text \<open>
  The two maps agree: the index lists, for each tuple, exactly the identifiers present, once each, and
  has no empty entry; an edge is stored under its own identifier; its strength lies in the unit interval.
\<close>

definition edge_ok :: "Edge \<Rightarrow> bool" where
  "edge_ok e \<longleftrightarrow> known_direction (ed_Direction e) \<and> in_unit (ed_Strength e) \<and>
     TrimSpace (ed_EntityA e) \<noteq> [] \<and> TrimSpace (ed_Relationship e) \<noteq> [] \<and> TrimSpace (ed_EntityB e) \<noteq> []"

definition kg_inv :: "KnowledgeGraph \<Rightarrow> bool" where
  "kg_inv g \<longleftrightarrow> distinct (map fst (kg_edges g)) \<and> (\<forall>(i, e) \<in> set (kg_edges g). i = edge_ID e \<and> edge_ok e) \<and>
     distinct (map fst (kg_byKey g)) \<and> (\<forall>(k, l) \<in> set (kg_byKey g). l \<noteq> []) \<and>
     (\<forall>k. distinct (ids_of g k) \<and> set (ids_of g k) = {i \<in> fst ` set (kg_edges g). fst i = k})"

lemma kg_invD:
  assumes "kg_inv g"
  shows "distinct (map fst (kg_edges g))" "distinct (map fst (kg_byKey g))" "distinct (ids_of g k)"
    "i \<in> set (ids_of g k) \<longleftrightarrow> i \<in> fst ` set (kg_edges g) \<and> fst i = k"
    "map_of (kg_edges g) i = Some e \<Longrightarrow> i = edge_ID e \<and> edge_ok e"
    "map_of (kg_byKey g) k = Some l \<Longrightarrow> l \<noteq> []"
proof -
  note a = assms [unfolded kg_inv_def]
  from a show "distinct (map fst (kg_edges g))" "distinct (map fst (kg_byKey g))" by blast+
  from a have k: "distinct (ids_of g k) \<and> set (ids_of g k) = {i \<in> fst ` set (kg_edges g). fst i = k}" by blast
  then show "distinct (ids_of g k)" "i \<in> set (ids_of g k) \<longleftrightarrow> i \<in> fst ` set (kg_edges g) \<and> fst i = k" by blast+
  show "map_of (kg_edges g) i = Some e \<Longrightarrow> i = edge_ID e \<and> edge_ok e" using a by (blast dest: map_of_SomeD)
  show "map_of (kg_byKey g) k = Some l \<Longrightarrow> l \<noteq> []" using a by (blast dest: map_of_SomeD)
qed

section \<open>The decay pass does not depend on the order of the visit\<close>

definition stale :: "time \<Rightarrow> Edge \<Rightarrow> bool" where "stale cutoff e \<longleftrightarrow> \<not> cutoff < ed_LastValidated e"

definition doomed :: "time \<Rightarrow> Edge \<Rightarrow> bool" where
  "doomed cutoff e \<longleftrightarrow> stale cutoff e \<and> flt (ed_Strength (decayed_edge e)) DeletionThreshold"

definition doomed_id :: "time \<Rightarrow> KnowledgeGraph \<Rightarrow> edgeID \<Rightarrow> bool" where
  "doomed_id cutoff g i = (case map_of (kg_edges g) i of None \<Rightarrow> False | Some e \<Rightarrow> doomed cutoff e)"

text \<open>The effect of a pass restricted to the identifiers in \<open>V\<close>.\<close>

definition decay_on :: "(edgeID \<Rightarrow> bool) \<Rightarrow> time \<Rightarrow> KnowledgeGraph \<Rightarrow> KnowledgeGraph" where
  "decay_on V cutoff g =
     \<lparr>kg_edges = map (\<lambda>(i, e). (i, if V i \<and> stale cutoff e then decayed_edge e else e))
                   (filter (\<lambda>(i, e). \<not> (V i \<and> doomed cutoff e)) (kg_edges g)),
      kg_byKey = filter (\<lambda>(k, l). l \<noteq> [])
                   (map (\<lambda>(k, l). (k, filter (\<lambda>i. \<not> (V i \<and> doomed_id cutoff g i)) l)) (kg_byKey g))\<rparr>"

definition decay_ref :: "time \<Rightarrow> KnowledgeGraph \<Rightarrow> KnowledgeGraph \<times> int \<times> int" where
  "decay_ref now g =
     (decay_on (\<lambda>_. True) (now - DecayInterval) g,
      int (length (filter (stale (now - DecayInterval) \<circ> snd) (kg_edges g))),
      int (length (filter (doomed (now - DecayInterval) \<circ> snd) (kg_edges g))))"

lemma map_of_decay:
  "distinct (map fst xs) \<Longrightarrow>
   map_of (map (\<lambda>(i, e). (i, if V i \<and> stale c e then decayed_edge e else e)) (filter (\<lambda>(i, e). \<not> (V i \<and> doomed c e)) xs)) i =
   (case map_of xs i of None \<Rightarrow> None
    | Some e \<Rightarrow> if V i \<and> doomed c e then None else Some (if V i \<and> stale c e then decayed_edge e else e))"
proof (induction xs)
  case (Cons a xs)
  obtain j x where a: "a = (j, x)" by (cases a)
  have "map_of xs j = None" using Cons.prems a by (simp add: map_of_dom_iff)
  with Cons a show ?case by auto
qed simp

lemma map_of_filter_ne:
  "distinct (map fst xs) \<Longrightarrow>
   map_of (filter (\<lambda>(k, l). l \<noteq> []) (map (\<lambda>(k, l). (k, f l)) xs)) k =
   (case map_of xs k of None \<Rightarrow> None | Some l \<Rightarrow> if f l = [] then None else Some (f l))"
proof (induction xs)
  case (Cons a xs)
  obtain j x where a: "a = (j, x)" by (cases a)
  have "map_of xs j = None" using Cons.prems a by (simp add: map_of_dom_iff)
  with Cons a show ?case by auto
qed simp

lemma ids_of_decay_on:
  assumes "kg_inv g"
  shows "ids_of (decay_on V c g) k = filter (\<lambda>i. \<not> (V i \<and> doomed_id c g i)) (ids_of g k)"
  unfolding ids_of_def decay_on_def KnowledgeGraph.simps map_of_filter_ne [OF kg_invD(2) [OF assms]]
  by (auto split: option.splits)

lemma decay_on_empty: "kg_inv g \<Longrightarrow> decay_on (\<lambda>_. False) c g = g"
  by (cases g) (auto simp: decay_on_def kg_inv_def filter_id_conv case_prod_beta cong: map_cong)

lemma decay_on_edges_insert:
  assumes d: "distinct (map fst xs)" and e: "map_of xs i = Some e" and s: "stale c e" and V: "\<not> V i"
  shows "map (\<lambda>(j, x). (j, if j = i then decayed_edge e else x))
       (map (\<lambda>(j, x). (j, if V j \<and> stale c x then decayed_edge x else x)) (filter (\<lambda>(j, x). \<not> (V j \<and> doomed c x)) xs)) =
     map (\<lambda>(j, x). (j, if (V j \<or> j = i) \<and> stale c x then decayed_edge x else x)) (filter (\<lambda>(j, x). \<not> (V j \<and> doomed c x)) xs)"
  unfolding map_map
proof (rule map_cong [OF refl])
  fix y assume "y \<in> set (filter (\<lambda>(j, x). \<not> (V j \<and> doomed c x)) xs)"
  moreover obtain j x where y: "y = (j, x)" by (cases y)
  ultimately have "(j, x) \<in> set xs" by auto
  then have "map_of xs j = Some x" using d by simp
  then show "((\<lambda>(j, x). (j, if j = i then decayed_edge e else x)) \<circ> (\<lambda>(j, x). (j, if V j \<and> stale c x then decayed_edge x else x))) y =
      (case y of (j, x) \<Rightarrow> (j, if (V j \<or> j = i) \<and> stale c x then decayed_edge x else x))"
    using e s V y by auto
qed

lemma filter_doomed_id:
  "distinct (map fst xs) \<Longrightarrow> map_of xs i = Some e \<Longrightarrow>
   filter (\<lambda>(j, x). \<not> ((V j \<or> j = i) \<and> doomed c x)) xs =
   (if doomed c e then filter (\<lambda>(j, x). i \<noteq> j) (filter (\<lambda>(j, x). \<not> (V j \<and> doomed c x)) xs)
    else filter (\<lambda>(j, x). \<not> (V j \<and> doomed c x)) xs)"
  by (auto intro!: filter_cong dest: eq_key_imp_eq_value)

lemma set_edge_decay_on:
  assumes inv: "kg_inv g" and e: "map_of (kg_edges g) i = Some e" and s: "stale c e" and V: "\<not> V i"
  shows "kg_edges (set_edge i (decayed_edge e) (decay_on V c g)) =
     map (\<lambda>(j, x). (j, if (V j \<or> j = i) \<and> stale c x then decayed_edge x else x))
       (filter (\<lambda>(j, x). \<not> (V j \<and> doomed c x)) (kg_edges g))"
    and "kg_byKey (set_edge i (decayed_edge e) (decay_on V c g)) = kg_byKey (decay_on V c g)"
proof -
  let ?xs = "kg_edges (decay_on V c g)"
  have "map_of ?xs i = Some e" using map_of_decay [OF kg_invD(1) [OF inv], of V c i] e V by (simp add: decay_on_def)
  moreover have "distinct (map fst ?xs)" using kg_invD(1) [OF inv]
    by (simp add: decay_on_def comp_def case_prod_beta distinct_map_filter)
  ultimately have "AList.update i (decayed_edge e) ?xs = map (\<lambda>(j, x). (j, if j = i then decayed_edge e else x)) ?xs"
    by (intro AList_update_map)
  then show "kg_edges (set_edge i (decayed_edge e) (decay_on V c g)) =
     map (\<lambda>(j, x). (j, if (V j \<or> j = i) \<and> stale c x then decayed_edge x else x))
       (filter (\<lambda>(j, x). \<not> (V j \<and> doomed c x)) (kg_edges g))"
    using decay_on_edges_insert [OF kg_invD(1) [OF inv] e s, of V] V by (simp add: set_edge_def decay_on_def)
qed (simp add: set_edge_def)

lemma byKey_decay_on:
  assumes inv: "kg_inv g" and e: "map_of (kg_edges g) i = Some e" and V: "\<not> V i"
  shows "kg_byKey (decay_on (\<lambda>j. V j \<or> j = i) c g) =
     (if doomed c e then filter (\<lambda>(k, l). l \<noteq> []) (map (\<lambda>(k, l). (k, if k = fst i then remove1 i l else l)) (kg_byKey (decay_on V c g)))
      else kg_byKey (decay_on V c g))"
proof -
  let ?P = "\<lambda>V j. \<not> (V j \<and> doomed_id c g j)" and ?V = "\<lambda>j. V j \<or> j = i"
  have di: "doomed_id c g i = doomed c e" using e by (simp add: doomed_id_def)
  have l: "distinct l \<and> (k \<noteq> fst i \<longrightarrow> i \<notin> set l)" if "(k, l) \<in> set (kg_byKey g)" for k l
  proof -
    have "ids_of g k = l" using that kg_invD(2) [OF inv] by (simp add: ids_of_def)
    with kg_invD(3,4) [OF inv] show ?thesis by metis
  qed
  have rm: "filter (?P ?V) l = (if doomed c e \<and> k = fst i then remove1 i (filter (?P V) l) else filter (?P V) l)"
    if "(k, l) \<in> set (kg_byKey g)" for k l
  proof (cases "doomed c e")
    case True
    then have "filter (?P ?V) l = filter (\<lambda>j. j \<noteq> i) (filter (?P V) l)" using di by (auto intro: filter_cong)
    also have "\<dots> = remove1 i (filter (?P V) l)" using l [OF that]
      by (simp add: distinct_remove1_removeAll removeAll_filter_not_eq) (auto intro: filter_cong)
    finally show ?thesis using True l [OF that] by (auto simp: remove1_idem)
  next
    case False
    with di show ?thesis by (auto intro: filter_cong)
  qed
  show ?thesis
  proof (cases "doomed c e")
    case True
    have m: "map (\<lambda>(k, l). (k, filter (?P ?V) l)) (kg_byKey g) =
       map (\<lambda>(k, l). (k, if k = fst i then remove1 i l else l)) (map (\<lambda>(k, l). (k, filter (?P V) l)) (kg_byKey g))"
      unfolding map_map
    proof (rule map_cong [OF refl])
      fix y assume y: "y \<in> set (kg_byKey g)"
      obtain k l where kl: "y = (k, l)" by (cases y)
      from rm [of k l] y True show "(case y of (k, l) \<Rightarrow> (k, filter (?P ?V) l)) =
        ((\<lambda>(k, l). (k, if k = fst i then remove1 i l else l)) \<circ> (\<lambda>(k, l). (k, filter (?P V) l))) y"
        unfolding kl by (simp only: comp_def prod.case) simp
    qed
    have f: "filter (\<lambda>(k, l). l \<noteq> []) (map (\<lambda>(k, l). (k, if k = fst i then remove1 i l else l)) xs) =
       filter (\<lambda>(k, l). l \<noteq> []) (map (\<lambda>(k, l). (k, if k = fst i then remove1 i l else l)) (filter (\<lambda>(k, l). l \<noteq> []) xs))"
      for xs :: "(EdgeKey \<times> edgeID list) list" by (induction xs) auto
    show ?thesis using True unfolding decay_on_def KnowledgeGraph.simps m by (simp only: if_True) (rule f)
  next
    case False
    then have m: "map (\<lambda>(k, l). (k, filter (?P ?V) l)) (kg_byKey g) = map (\<lambda>(k, l). (k, filter (?P V) l)) (kg_byKey g)"
      by (intro map_cong refl, clarify) (simp only: rm [of "(_, _, _)"] simp_thms if_False)
    show ?thesis using False unfolding decay_on_def KnowledgeGraph.simps m by (simp only: if_False)
  qed
qed

lemma filter_ne_update:
  "distinct (map fst xs) \<Longrightarrow> map_of xs k = Some l \<Longrightarrow> \<forall>x \<in> set xs. snd x \<noteq> [] \<Longrightarrow>
   filter (\<lambda>(k, x). x \<noteq> []) (map (\<lambda>(j, x). (j, if j = k then remove1 i x else x)) xs) =
   (if remove1 i l = [] then AList.delete k (AList.update k (remove1 i l) xs) else AList.update k (remove1 i l) xs)"
proof (induction xs)
  case (Cons a xs)
  obtain j x where a: "a = (j, x)" by (cases a)
  show ?case
  proof (cases "j = k")
    case True
    with Cons.prems a have k: "k \<notin> fst ` set xs" "x = l" by auto
    then have "map (\<lambda>(j, x). (j, if j = k then remove1 i x else x)) xs = xs" by (induction xs) auto
    moreover have "filter (\<lambda>(k, x). x \<noteq> []) xs = xs" using Cons.prems by (auto simp: filter_id_conv)
    moreover have "AList.delete k xs = xs" using k(1) by (simp add: delete_idem)
    ultimately show ?thesis using True a k(2) by simp
  next
    case False
    with Cons a show ?thesis by simp
  qed
qed simp

lemma removeLocked_eq:
  assumes d: "distinct (map fst (kg_byKey g))" and ne: "\<forall>x \<in> set (kg_byKey g). snd x \<noteq> []"
    and i: "i \<in> set (ids_of g (fst i))"
  shows "removeLocked i g = \<lparr>kg_edges = filter (\<lambda>(j, x). i \<noteq> j) (kg_edges g),
     kg_byKey = filter (\<lambda>(k, l). l \<noteq> []) (map (\<lambda>(k, l). (k, if k = fst i then remove1 i l else l)) (kg_byKey g))\<rparr>"
proof -
  let ?k = "fst i" and ?b = "kg_byKey g"
  obtain l where l: "map_of ?b ?k = Some l" "i \<in> set l" using i by (cases "map_of ?b ?k") (simp_all add: ids_of_def)
  show ?thesis
    unfolding filter_ne_update [OF d l(1) ne] using l
    by (cases g) (simp add: removeLocked_def Let_def ids_of_def update_conv AList.delete_eq)
qed

lemma decay_visit_step:
  assumes inv: "kg_inv g" and e: "map_of (kg_edges g) i = Some e" and V: "\<not> V i"
  shows "decay_visit c i (decay_on V c g, a, b) =
     (decay_on (\<lambda>j. V j \<or> j = i) c g, a + (if stale c e then 1 else 0), b + (if doomed c e then 1 else 0))"
proof -
  let ?V = "\<lambda>j. V j \<or> j = i" and ?h = "decay_on V c g"
  have lk: "map_of (kg_edges ?h) i = Some e"
    using map_of_decay [OF kg_invD(1) [OF inv], of V c i] e V by (simp add: decay_on_def)
  have edges: "kg_edges (decay_on ?V c g) =
      map (\<lambda>(j, x). (j, if ?V j \<and> stale c x then decayed_edge x else x)) (filter (\<lambda>(j, x). \<not> (?V j \<and> doomed c x)) (kg_edges g))"
    by (simp add: decay_on_def)
  note fd = filter_doomed_id [OF kg_invD(1) [OF inv] e, of V c] and bk = byKey_decay_on [where V = V and c = c, OF inv e V]
  consider "\<not> stale c e" | "stale c e" "\<not> doomed c e" | "doomed c e" "stale c e" by (auto simp: doomed_def)
  then show ?thesis
  proof cases
    case 1
    then have nd: "\<not> doomed c e" by (simp add: doomed_def)
    have "kg_edges (decay_on ?V c g) = kg_edges ?h"
      unfolding edges fd if_not_P [OF nd] unfolding decay_on_def KnowledgeGraph.simps
      using 1 e kg_invD(1) [OF inv] by (intro map_cong refl) (auto dest: eq_key_imp_eq_value)
    with bk nd have "decay_on ?V c g = ?h" by (intro KnowledgeGraph.equality) simp_all
    with lk 1 nd show ?thesis by (simp add: decay_visit_def stale_def)
  next
    case 2
    note se = set_edge_decay_on [where V = V and c = c, OF inv e 2(1) V]
    have "set_edge i (decayed_edge e) ?h = decay_on ?V c g"
      using se edges fd bk 2 by (intro KnowledgeGraph.equality) simp_all
    with lk 2 show ?thesis by (simp add: decay_visit_def stale_def doomed_def)
  next
    case 3
    note se = set_edge_decay_on [where V = V and c = c, OF inv e 3(2) V]
    have "removeLocked i (set_edge i (decayed_edge e) ?h) = decay_on ?V c g"
    proof -
      let ?s = "set_edge i (decayed_edge e) ?h"
      have ids: "ids_of ?s (fst i) = ids_of ?h (fst i)" by (simp add: ids_of_def se(2))
      have "i \<in> set (ids_of g (fst i))" using e kg_invD(4) [OF inv] by (auto dest: map_of_SomeD intro: rev_image_eqI)
      then have "i \<in> set (ids_of ?s (fst i))" using V unfolding ids by (simp add: ids_of_decay_on [OF inv])
      moreover have "distinct (map fst (kg_byKey ?s))" unfolding se(2) using kg_invD(2) [OF inv]
        by (simp add: decay_on_def comp_def case_prod_beta distinct_map_filter)
      moreover have "\<forall>x \<in> set (kg_byKey ?s). snd x \<noteq> []" unfolding se(2) by (simp add: decay_on_def case_prod_beta)
      ultimately have "removeLocked i ?s = \<lparr>kg_edges = filter (\<lambda>(j, x). i \<noteq> j) (kg_edges ?s),
        kg_byKey = filter (\<lambda>(k, l). l \<noteq> []) (map (\<lambda>(k, l). (k, if k = fst i then remove1 i l else l)) (kg_byKey ?s))\<rparr>"
        by (intro removeLocked_eq)
      then show ?thesis using edges bk 3(1) unfolding se fd
        by (intro KnowledgeGraph.equality) (simp_all add: filter_map comp_def case_prod_beta)
    qed
    with lk 3 show ?thesis by (simp add: decay_visit_def stale_def doomed_def)
  qed
qed

lemma length_filter_insert:
  "distinct (map fst xs) \<Longrightarrow> map_of xs i = Some e \<Longrightarrow> \<not> V i \<Longrightarrow>
   length (filter (\<lambda>(j, x). (V j \<or> j = i) \<and> P x) xs) = length (filter (\<lambda>(j, x). V j \<and> P x) xs) + (if P e then 1 else 0)"
proof (induction xs)
  case (Cons a xs)
  obtain j x where a: "a = (j, x)" by (cases a)
  show ?case
  proof (cases "j = i")
    case True
    with Cons.prems a have "i \<notin> fst ` set xs" by auto
    then have "filter (\<lambda>(j, x). (V j \<or> j = i) \<and> P x) xs = filter (\<lambda>(j, x). V j \<and> P x) xs"
      by (intro filter_cong) (auto intro: rev_image_eqI)
    with True Cons.prems a show ?thesis by simp
  next
    case False
    with Cons a show ?thesis by simp
  qed
qed simp

lemma fold_decay_visit:
  assumes "kg_inv g" "distinct is" "set is \<subseteq> fst ` set (kg_edges g)" "\<forall>i \<in> set is. \<not> V i"
  shows "fold (decay_visit c) is (decay_on V c g, int (length (filter (\<lambda>(j, x). V j \<and> stale c x) (kg_edges g))),
       int (length (filter (\<lambda>(j, x). V j \<and> doomed c x) (kg_edges g)))) =
     (decay_on (\<lambda>j. V j \<or> j \<in> set is) c g, int (length (filter (\<lambda>(j, x). (V j \<or> j \<in> set is) \<and> stale c x) (kg_edges g))),
       int (length (filter (\<lambda>(j, x). (V j \<or> j \<in> set is) \<and> doomed c x) (kg_edges g))))"
  using assms(2-)
proof (induction "is" arbitrary: V)
  case (Cons i "is")
  obtain e where e: "map_of (kg_edges g) i = Some e" using Cons.prems(2) by (metis map_of_dom_iff insert_subset list.simps(15) option.exhaust)
  let ?V = "\<lambda>j. V j \<or> j = i"
  have V: "\<not> V i" using Cons.prems by simp
  note lf = length_filter_insert [where V = V, OF kg_invD(1) [OF assms(1)] e V]
  have visit: "decay_visit c i (decay_on V c g, int (length (filter (\<lambda>(j, x). V j \<and> stale c x) (kg_edges g))),
       int (length (filter (\<lambda>(j, x). V j \<and> doomed c x) (kg_edges g)))) =
     (decay_on ?V c g, int (length (filter (\<lambda>(j, x). ?V j \<and> stale c x) (kg_edges g))),
       int (length (filter (\<lambda>(j, x). ?V j \<and> doomed c x) (kg_edges g))))"
    by (simp add: decay_visit_step [where V = V and c = c, OF assms(1) e V] lf [of "stale c"] lf [of "doomed c"])
  have IH: "fold (decay_visit c) is (decay_on ?V c g, int (length (filter (\<lambda>(j, x). ?V j \<and> stale c x) (kg_edges g))),
       int (length (filter (\<lambda>(j, x). ?V j \<and> doomed c x) (kg_edges g)))) =
     (decay_on (\<lambda>j. ?V j \<or> j \<in> set is) c g, int (length (filter (\<lambda>(j, x). (?V j \<or> j \<in> set is) \<and> stale c x) (kg_edges g))),
       int (length (filter (\<lambda>(j, x). (?V j \<or> j \<in> set is) \<and> doomed c x) (kg_edges g))))"
    by (rule Cons.IH) (use Cons.prems in auto)
  have "(?V j \<or> j \<in> set is) = (V j \<or> j \<in> set (i # is))" for j by auto
  then show ?case by (simp only: fold_Cons o_apply visit IH)
qed simp

lemma decay_on_all: "decay_on (\<lambda>j. j \<in> fst ` set (kg_edges g)) c g = decay_on (\<lambda>_. True) c g"
proof -
  have "doomed_id c g i \<Longrightarrow> i \<in> fst ` set (kg_edges g)" for i
    by (cases "map_of (kg_edges g) i") (auto simp: doomed_id_def dest: map_of_SomeD intro: rev_image_eqI)
  then have "(\<lambda>j. \<not> (j \<in> fst ` set (kg_edges g) \<and> doomed_id c g j)) = (\<lambda>j. \<not> (True \<and> doomed_id c g j))" by (intro ext) metis
  then have k: "kg_byKey (decay_on (\<lambda>j. j \<in> fst ` set (kg_edges g)) c g) = kg_byKey (decay_on (\<lambda>_. True) c g)"
    by (simp only: decay_on_def KnowledgeGraph.simps)
  have "kg_edges (decay_on (\<lambda>j. j \<in> fst ` set (kg_edges g)) c g) = kg_edges (decay_on (\<lambda>_. True) c g)"
    unfolding decay_on_def KnowledgeGraph.simps by (intro map_cong filter_cong refl) (force simp: case_prod_beta)+
  with k show ?thesis by (intro KnowledgeGraph.equality) simp_all
qed

text \<open>
  A decay pass visits the edges of a Go map in an unspecified order and removes some of them while it
  ranges over the map; the outcome, counters included, is nevertheless the order-free reference.
\<close>

lemma Decay_eq_ref:
  assumes "kg_inv g" "rearranges p" shows "Decay p now g = decay_ref now g"
proof -
  let ?c = "now - DecayInterval" and ?is = "p (map fst (kg_edges g))"
  have s: "set ?is = fst ` set (kg_edges g)" using assms(2) by simp
  have "distinct ?is" using assms kg_invD(1) by (simp add: rearranges_distinct)
  from fold_decay_visit [OF assms(1) this, of "\<lambda>_. False" ?c]
  show ?thesis
    by (simp add: Decay_def decay_ref_def s decay_on_empty [OF assms(1)] decay_on_all)
      (auto intro!: arg_cong [where f = length] filter_cong rev_image_eqI)
qed

section \<open>The operations keep the invariant\<close>

lemma kg_invI:
  assumes "distinct (map fst (kg_edges g))" "\<And>i e. (i, e) \<in> set (kg_edges g) \<Longrightarrow> i = edge_ID e \<and> edge_ok e"
    "distinct (map fst (kg_byKey g))" "\<And>x. x \<in> set (kg_byKey g) \<Longrightarrow> snd x \<noteq> []"
    "\<And>k. distinct (ids_of g k)" "\<And>k i. i \<in> set (ids_of g k) \<longleftrightarrow> i \<in> fst ` set (kg_edges g) \<and> fst i = k"
  shows "kg_inv g"
proof -
  have "set (ids_of g k) = {i \<in> fst ` set (kg_edges g). fst i = k}" for k using assms(6) by blast
  moreover have "\<forall>(i, e) \<in> set (kg_edges g). i = edge_ID e \<and> edge_ok e" using assms(2) by blast
  moreover have "\<forall>(k, l) \<in> set (kg_byKey g). l \<noteq> []" using assms(4) by fastforce
  ultimately show ?thesis using assms(1,3,5) unfolding kg_inv_def by blast
qed

lemma kg_inv_New: "kg_inv NewKnowledgeGraph"
  by (rule kg_invI) (simp_all add: NewKnowledgeGraph_def ids_of_def)

lemma kg_inv_ne: "kg_inv g \<Longrightarrow> \<forall>x \<in> set (kg_byKey g). snd x \<noteq> []"
  by (auto simp: kg_inv_def)

lemma edge_ID_decayed [simp]: "edge_ID (decayed_edge e) = edge_ID e"
  by (simp add: edge_ID_def edge_Key_def decayed_edge_def)

lemma edge_ok_decayed: "edge_ok e \<Longrightarrow> edge_ok (decayed_edge e)"
  using decayed_unit [of e] by (simp add: edge_ok_def decayed_edge_def)

lemma ids_of_filter_ne:
  assumes "distinct (map fst b)"
  shows "ids_of \<lparr>kg_edges = x, kg_byKey = filter (\<lambda>(k, l). l \<noteq> []) (map (\<lambda>(k, l). (k, f k l)) b)\<rparr> k =
    (case map_of b k of None \<Rightarrow> [] | Some l \<Rightarrow> f k l)"
  using assms
proof (induction b)
  case (Cons a b)
  obtain j l where a: "a = (j, l)" by (cases a)
  have "map_of b j = None" using Cons.prems a by (simp add: map_of_dom_iff)
  with Cons a show ?case by (auto simp: ids_of_def)
qed (simp add: ids_of_def)

lemma kg_inv_removeLocked:
  assumes inv: "kg_inv g" and i: "i \<in> fst ` set (kg_edges g)"
  shows "kg_inv (removeLocked i g)" "map_of (kg_edges (removeLocked i g)) = (map_of (kg_edges g))(i := None)"
proof -
  have ii: "i \<in> set (ids_of g (fst i))" using kg_invD(4) [OF inv] i by blast
  note eq = removeLocked_eq [OF kg_invD(2) [OF inv] kg_inv_ne [OF inv] ii]
  have ids: "ids_of (removeLocked i g) k = (if k = fst i then remove1 i (ids_of g k) else ids_of g k)" for k
    unfolding eq ids_of_filter_ne [OF kg_invD(2) [OF inv]] by (simp add: ids_of_def split: option.split)
  have e: "kg_edges (removeLocked i g) = AList.delete i (kg_edges g)" by (simp add: eq AList.delete_eq)
  show "map_of (kg_edges (removeLocked i g)) = (map_of (kg_edges g))(i := None)" by (simp add: e delete_conv')
  show "kg_inv (removeLocked i g)"
  proof (rule kg_invI)
    show "distinct (map fst (kg_edges (removeLocked i g)))" using kg_invD(1) [OF inv] by (simp add: e distinct_delete)
    show "j = edge_ID x \<and> edge_ok x" if "(j, x) \<in> set (kg_edges (removeLocked i g))" for j x
      using that kg_invD(5) [OF inv, of j x] kg_invD(1) [OF inv] by (simp add: eq)
    show "distinct (map fst (kg_byKey (removeLocked i g)))" using kg_invD(2) [OF inv]
      by (simp add: eq comp_def case_prod_beta distinct_map_filter)
    show "snd x \<noteq> []" if "x \<in> set (kg_byKey (removeLocked i g))" for x using that by (auto simp: eq)
    show "distinct (ids_of (removeLocked i g) k)" for k using kg_invD(3) [OF inv] by (simp add: ids)
    show "j \<in> set (ids_of (removeLocked i g) k) \<longleftrightarrow> j \<in> fst ` set (kg_edges (removeLocked i g)) \<and> fst j = k" for k j
    proof -
      have "fst ` set (kg_edges (removeLocked i g)) = fst ` set (kg_edges g) - {i}" unfolding e
        unfolding list.set_map [symmetric] AList.delete_keys by (simp only: set_removeAll)
      then show ?thesis using kg_invD(3) [OF inv, of k] kg_invD(4) [OF inv, of j k] unfolding ids by (cases "j = i") auto
    qed
  qed
qed

lemma kg_inv_set_edge:
  assumes inv: "kg_inv g" and i: "i \<in> fst ` set (kg_edges g)" and e: "i = edge_ID e" "edge_ok e"
  shows "kg_inv (set_edge i e g)"
proof (rule kg_invI)
  have k: "fst ` set (kg_edges (set_edge i e g)) = fst ` set (kg_edges g)"
    using i by (simp add: set_edge_def update_conv' insert_absorb flip: dom_map_of_conv_image_fst)
  show "distinct (map fst (kg_edges (set_edge i e g)))" using kg_invD(1) [OF inv] by (simp add: set_edge_def distinct_update)
  show "j = edge_ID x \<and> edge_ok x" if "(j, x) \<in> set (kg_edges (set_edge i e g))" for j x
  proof -
    have "map_of (kg_edges (set_edge i e g)) j = Some x" using that kg_invD(1) [OF inv] by (simp add: set_edge_def distinct_update)
    then show ?thesis using kg_invD(5) [OF inv] e by (auto simp: set_edge_def update_conv split: if_splits)
  qed
  show "distinct (map fst (kg_byKey (set_edge i e g)))" using kg_invD(2) [OF inv] by (simp add: set_edge_def)
  show "snd x \<noteq> []" if "x \<in> set (kg_byKey (set_edge i e g))" for x using that kg_inv_ne [OF inv] by (simp add: set_edge_def)
  show "distinct (ids_of (set_edge i e g) k)" for k using kg_invD(3) [OF inv, of k] by (simp add: set_edge_def ids_of_def)
  show "j \<in> set (ids_of (set_edge i e g) k) \<longleftrightarrow> j \<in> fst ` set (kg_edges (set_edge i e g)) \<and> fst j = k" for k j
    using kg_invD(4) [OF inv, of j k] unfolding k by (simp add: set_edge_def ids_of_def)
qed

lemma kg_inv_insert:
  assumes inv: "kg_inv g" and new: "i \<notin> fst ` set (kg_edges g)" and e: "i = edge_ID e" "edge_ok e" and k: "k = fst i"
  shows "kg_inv (set_edge i e g\<lparr>kg_byKey := AList.update k (ids_of (set_edge i e g) k @ [i]) (kg_byKey (set_edge i e g))\<rparr>)"
    (is "kg_inv ?h")
proof (rule kg_invI)
  have edges: "kg_edges ?h = kg_edges g @ [(i, e)]" using new by (simp add: set_edge_def AList_update_new)
  have bk: "kg_byKey ?h = AList.update k (ids_of g k @ [i]) (kg_byKey g)" by (simp add: set_edge_def ids_of_def)
  have ids: "ids_of ?h j = (if j = k then ids_of g k @ [i] else ids_of g j)" for j
    by (simp add: ids_of_def bk update_conv' set_edge_def)
  show "distinct (map fst (kg_edges ?h))" using kg_invD(1) [OF inv] new by (simp add: edges)
  show "j = edge_ID x \<and> edge_ok x" if "(j, x) \<in> set (kg_edges ?h)" for j x
    using that kg_invD(1) [OF inv] kg_invD(5) [OF inv, of j x] e unfolding edges by auto
  show "distinct (map fst (kg_byKey ?h))" unfolding bk using kg_invD(2) [OF inv] by (rule distinct_update)
  show "snd x \<noteq> []" if "x \<in> set (kg_byKey ?h)" for x
  proof -
    have "map_of (kg_byKey ?h) (fst x) = Some (snd x)" using that distinct_update [OF kg_invD(2) [OF inv]] unfolding bk by simp
    then show ?thesis using kg_invD(6) [OF inv] by (auto simp: bk update_conv' split: if_splits)
  qed
  have ni: "i \<notin> set (ids_of g k)" using new kg_invD(4) [OF inv] by blast
  show "distinct (ids_of ?h j)" for j using kg_invD(3) [OF inv] ni by (simp add: ids)
  show "j \<in> set (ids_of ?h m) \<longleftrightarrow> j \<in> fst ` set (kg_edges ?h) \<and> fst j = m" for m j
    using kg_invD(4) [OF inv] k unfolding ids edges by auto
qed

lemma Opposite_involution: "Opposite d \<noteq> [] \<Longrightarrow> Opposite d \<noteq> d \<and> Opposite (Opposite d) = d \<and> known_direction (Opposite d)"
  by (auto simp: Opposite_def direction_defs known_direction_def split: if_splits)

lemma contradict_spec:
  assumes inv: "kg_inv g" and c: "contradict e g = (g', b)"
  shows "kg_inv g'"
    "map_of (kg_edges g') i =
       (if Opposite (ed_Direction e) \<noteq> [] \<and> i = (edge_Key e, Opposite (ed_Direction e)) then
          (case map_of (kg_edges g) i of None \<Rightarrow> None
           | Some x \<Rightarrow> let s = clampStrength (fsub (ed_Strength x) ContradictionPenalty)
                        in if flt s DeletionThreshold then None else Some (x\<lparr>ed_Strength := s\<rparr>))
        else map_of (kg_edges g) i)"
proof -
  let ?o = "Opposite (ed_Direction e)" let ?i = "(edge_Key e, ?o)"
  have "kg_inv g' \<and> map_of (kg_edges g') i =
       (if ?o \<noteq> [] \<and> i = ?i then
          (case map_of (kg_edges g) i of None \<Rightarrow> None
           | Some x \<Rightarrow> let s = clampStrength (fsub (ed_Strength x) ContradictionPenalty)
                        in if flt s DeletionThreshold then None else Some (x\<lparr>ed_Strength := s\<rparr>))
        else map_of (kg_edges g) i)"
  proof (cases "?o = [] \<or> map_of (kg_edges g) ?i = None")
    case True
    then have "contradict e g = (g, False)" by (auto simp: contradict_def Let_def)
    with c inv True show ?thesis by auto
  next
    case False
    then obtain x where x: "?o \<noteq> []" "map_of (kg_edges g) ?i = Some x" by auto
    let ?s = "clampStrength (fsub (ed_Strength x) ContradictionPenalty)" let ?x = "x\<lparr>ed_Strength := ?s\<rparr>"
    have ix: "?i = edge_ID x" "edge_ok x" using kg_invD(5) [OF inv x(2)] by auto
    have sx: "in_unit (ed_Strength x)" using ix by (simp add: edge_ok_def)
    have "in_unit ?s" using sx in_unit_fin [OF sx] in_unit_fin [OF ContradictionPenalty_unit] ContradictionPenalty_unit
      by (intro clampStrength_unit is_f64_ops fin_op_not_nan) (simp_all add: in_unit_def)
    then have ok: "?i = edge_ID ?x" "edge_ok ?x" using ix by (simp_all add: edge_ok_def edge_ID_def edge_Key_def)
    have dom: "?i \<in> fst ` set (kg_edges g)" using x(2) by (metis map_of_dom_iff option.distinct(1))
    have inv': "kg_inv (set_edge ?i ?x g)" by (rule kg_inv_set_edge [OF inv dom ok])
    have mo: "map_of (kg_edges (set_edge ?i ?x g)) = (map_of (kg_edges g))(?i \<mapsto> ?x)" by (simp add: set_edge_def update_conv')
    then have dom': "?i \<in> fst ` set (kg_edges (set_edge ?i ?x g))" by (metis map_of_dom_iff fun_upd_same option.distinct(1))
    have g': "g' = (if flt ?s DeletionThreshold then removeLocked ?i (set_edge ?i ?x g) else set_edge ?i ?x g)"
      using c x by (simp add: contradict_def Let_def)
    show ?thesis
      using inv' kg_inv_removeLocked [OF inv' dom'] x unfolding g' by (simp add: mo)
  qed
  then show "kg_inv g'" "map_of (kg_edges g') i =
       (if ?o \<noteq> [] \<and> i = ?i then
          (case map_of (kg_edges g) i of None \<Rightarrow> None
           | Some x \<Rightarrow> let s = clampStrength (fsub (ed_Strength x) ContradictionPenalty)
                        in if flt s DeletionThreshold then None else Some (x\<lparr>ed_Strength := s\<rparr>))
        else map_of (kg_edges g) i)" by blast+
qed

definition proper_evidence :: "Edge \<Rightarrow> bool" where
  "proper_evidence e \<longleftrightarrow> is_f64 (ed_Strength e) \<and> \<not> is_nan (ed_Strength e)"

lemma validateEdge_ok:
  "validateEdge e = Inr u \<Longrightarrow> proper_evidence e \<Longrightarrow> edge_ok e"
  unfolding validateEdge_def first_error_Ok proper_evidence_def edge_ok_def in_unit_def
  by (simp add: flt_not_fle)

lemma kg_inv_Upsert:
  assumes inv: "kg_inv g" and p: "proper_evidence e" and u: "Upsert now e g = Inr (g', r)"
  shows "kg_inv g'"
proof -
  obtain g1 c where c: "contradict e g = (g1, c)" by (cases "contradict e g")
  note inv1 = contradict_spec(1) [OF inv c]
  have v: "validateEdge e = Inr ()" using u by (auto simp: Upsert_def bindr_Ok_iff)
  note ok = validateEdge_ok [OF v p]
  let ?i = "(edge_Key e, ed_Direction e)"
  have su: "in_unit (ed_Strength e)" using ok by (simp add: edge_ok_def)
  show ?thesis
  proof (cases "map_of (kg_edges g1) ?i")
    case None
    then have i: "?i \<notin> fst ` set (kg_edges g1)" by (simp add: map_of_dom_iff)
    have ne: "?i = edge_ID (new_edge now e)" "edge_ok (new_edge now e)"
      using ok su by (simp_all add: new_edge_def edge_ID_def edge_Key_def edge_ok_def clampStrength_id)
    have "edge_Key e = fst ?i" by simp
    from kg_inv_insert [OF inv1 i ne this] show ?thesis using u v c None by (simp add: Upsert_def Let_def)
  next
    case (Some x)
    have ix: "?i = edge_ID x" "edge_ok x" using kg_invD(5) [OF inv1 Some] by auto
    have dom: "?i \<in> fst ` set (kg_edges g1)" using Some by (metis map_of_dom_iff option.distinct(1))
    have "in_unit (ed_Strength (reinforced_edge now e x))"
      using ix su by (simp add: reinforced_edge_def average_unit edge_ok_def clampStrength_id)
    then have "?i = edge_ID (reinforced_edge now e x)" "edge_ok (reinforced_edge now e x)"
      using ix by (simp_all add: reinforced_edge_def edge_ID_def edge_Key_def edge_ok_def)
    from kg_inv_set_edge [OF inv1 dom this] show ?thesis using u v c Some by (simp add: Upsert_def Let_def)
  qed
qed

lemma doomed_id_iff:
  "distinct (map fst (kg_edges g)) \<Longrightarrow> (i, e) \<in> set (kg_edges g) \<Longrightarrow> doomed_id c g i = doomed c e"
  by (simp add: doomed_id_def)

lemma kg_inv_decay_on: assumes inv: "kg_inv g" shows "kg_inv (decay_on (\<lambda>_. True) c g)"
proof (rule kg_invI)
  let ?h = "decay_on (\<lambda>_. True) c g"
  have keys: "fst ` set (kg_edges ?h) = {i \<in> fst ` set (kg_edges g). \<not> doomed_id c g i}"
  proof -
    have "fst ` set (kg_edges ?h) = fst ` {x \<in> set (kg_edges g). \<not> doomed c (snd x)}"
      by (simp add: decay_on_def case_prod_beta image_comp comp_def)
    also have "\<dots> = fst ` {x \<in> set (kg_edges g). \<not> doomed_id c g (fst x)}"
      using doomed_id_iff [OF kg_invD(1) [OF inv]] by (intro arg_cong [where f = "image fst"] Collect_cong) auto
    finally show ?thesis by auto
  qed
  show "distinct (map fst (kg_edges ?h))" using kg_invD(1) [OF inv]
    by (simp add: decay_on_def comp_def case_prod_beta distinct_map_filter)
  show "i = edge_ID x \<and> edge_ok x" if "(i, x) \<in> set (kg_edges ?h)" for i x
    using that kg_invD(1) [OF inv] kg_invD(5) [OF inv, of i] by (auto simp: decay_on_def edge_ok_decayed)
  show "distinct (map fst (kg_byKey ?h))" using kg_invD(2) [OF inv]
    by (simp add: decay_on_def comp_def case_prod_beta distinct_map_filter)
  show "snd x \<noteq> []" if "x \<in> set (kg_byKey ?h)" for x using that by (auto simp: decay_on_def)
  show "distinct (ids_of ?h k)" for k using kg_invD(3) [OF inv] by (simp add: ids_of_decay_on [OF inv])
  show "i \<in> set (ids_of ?h k) \<longleftrightarrow> i \<in> fst ` set (kg_edges ?h) \<and> fst i = k" for k i
    unfolding keys ids_of_decay_on [OF inv] using kg_invD(4) [OF inv, of i k] by (simp only: set_filter mem_Collect_eq) blast
qed

lemma Decay_inv:
  assumes "kg_inv g" "rearranges p" shows "kg_inv (fst (Decay p now g))"
  using assms by (simp add: Decay_eq_ref decay_ref_def kg_inv_decay_on)

datatype kg_op = KgUpsert time Edge | KgDecay "edgeID list \<Rightarrow> edgeID list" time

fun kg_step :: "kg_op \<Rightarrow> KnowledgeGraph \<Rightarrow> KnowledgeGraph" where
  "kg_step (KgUpsert now e) g = (case Upsert now e g of Inl _ \<Rightarrow> g | Inr (g', _) \<Rightarrow> g')"
| "kg_step (KgDecay p now) g = fst (Decay p now g)"

fun kg_op_ok :: "kg_op \<Rightarrow> bool" where
  "kg_op_ok (KgUpsert now e) = proper_evidence e"
| "kg_op_ok (KgDecay p now) = rearranges p"

lemma kg_step_inv: "kg_inv g \<Longrightarrow> kg_op_ok x \<Longrightarrow> kg_inv (kg_step x g)"
  by (cases x) (auto simp: Decay_inv split: sum.split intro: kg_inv_Upsert)

lemma kg_run_inv: "kg_inv g \<Longrightarrow> \<forall>x \<in> set xs. kg_op_ok x \<Longrightarrow> kg_inv (fold kg_step xs g)"
  by (induction xs arbitrary: g) (auto intro: kg_step_inv)

section \<open>Forgetting\<close>

lemma map_of_Decay:
  assumes "kg_inv g" "rearranges p"
  shows "map_of (kg_edges (fst (Decay p now g))) i =
    (case map_of (kg_edges g) i of None \<Rightarrow> None
     | Some e \<Rightarrow> if doomed (now - DecayInterval) e then None
                  else Some (if stale (now - DecayInterval) e then decayed_edge e else e))"
  unfolding Decay_eq_ref [OF assms] decay_ref_def decay_on_def KnowledgeGraph.simps fst_conv map_of_decay [OF kg_invD(1) [OF assms(1)]]
  by (simp only: simp_thms)

text \<open>An integer majorant of the strength: units of \<open>2 ^ - 20\<close>, rounded up.\<close>

definition decay_bound :: "int \<Rightarrow> int" where "decay_bound n = n * 996148 div 1048576 + 1"

lemma DecayFactor_le: "fle DecayFactor (Fin (996148 / 1048576))"
proof -
  have "rnd (of_int 996148 / 2 ^ 20) = Fin (of_int 996148 / 2 ^ 20)" by (rule rnd_dyadic) simp_all
  then have "rnd (996148 / 1048576) = Fin (996148 / 1048576)" by simp
  then show ?thesis unfolding DecayFactor_def by (intro rnd_const_bounds) simp_all
qed

lemma decayed_bound:
  assumes "in_unit s" "fle s (Fin (of_int n / 1048576))" "0 \<le> n" "n \<le> 1048576"
  shows "fle (clampStrength (fmul s DecayFactor)) (Fin (of_int (decay_bound n) / 1048576))"
proof -
  have fin: "is_fin s" "is_fin DecayFactor" using assms(1) by (auto intro: in_unit_fin DecayFactor_unit)
  have m: "in_unit (fmul s DecayFactor)" using fmul_in_unit [OF assms(1) DecayFactor_unit] by simp
  have "fval s * fval DecayFactor \<le> (of_int n / 1048576) * (996148 / 1048576)"
    using assms(1,2) DecayFactor_le fin DecayFactor_unit by (intro mult_mono) (auto simp: fle_fin in_unit_def)
  also have "\<dots> \<le> of_int (decay_bound n) / 1048576"
  proof -
    define q r where "q = n * 996148 div 1048576" and "r = n * 996148 mod 1048576"
    have "n * 996148 = 1048576 * q + r" "r < 1048576" unfolding q_def r_def by (simp_all only: mult_div_mod_eq pos_mod_bound zero_less_numeral)
    then have "n * 996148 \<le> decay_bound n * 1048576" unfolding decay_bound_def q_def [symmetric] by simp
    then have "(of_int (n * 996148) :: rat) \<le> of_int (decay_bound n * 1048576)" by (simp only: of_int_le_iff)
    then show ?thesis by simp
  qed
  finally have le: "fval s * fval DecayFactor \<le> of_int (decay_bound n) / 1048576" .
  have "0 \<le> decay_bound n" "decay_bound n \<le> 1048576" using assms(3,4) unfolding decay_bound_def by linarith+
  then have "\<bar>decay_bound n\<bar> \<le> 2 ^ 53" by simp
  then have "rnd (of_int (decay_bound n) / 2 ^ 20) = Fin (of_int (decay_bound n) / 2 ^ 20)" by (intro rnd_dyadic) simp_all
  then have r: "rnd (of_int (decay_bound n) / 1048576) = Fin (of_int (decay_bound n) / 1048576)" by simp
  have "fle (fmul s DecayFactor) (Fin (of_int (decay_bound n) / 1048576))"
    by (rule fle_keyI [where b = "of_int (decay_bound n) / 1048576", OF _ _ fmul_key [OF fin]])
      (simp_all only: r fin fin_op_not_nan is_nan.simps le simp_thms)
  then show ?thesis using m by (simp add: clampStrength_id)
qed

text \<open>Passes of the decay job: each with its clock and its visiting order.\<close>

definition passes :: "((edgeID list \<Rightarrow> edgeID list) \<times> time) list \<Rightarrow> KnowledgeGraph \<Rightarrow> KnowledgeGraph" where
  "passes ps g = fold (\<lambda>(p, now) g. fst (Decay p now g)) ps g"

lemma passes_bound:
  assumes "kg_inv g" "\<forall>(p, now) \<in> set ps. rearranges p \<and> t \<le> now - DecayInterval" "0 \<le> n" "n \<le> 1048576"
    and "\<And>e. map_of (kg_edges g) i = Some e \<Longrightarrow> ed_LastValidated e \<le> t \<and> fle (ed_Strength e) (Fin (of_int n / 1048576))"
    and "map_of (kg_edges (passes ps g)) i = Some e"
  shows "fle (ed_Strength e) (Fin (of_int ((decay_bound ^^ length ps) n) / 1048576)) \<and> (ps \<noteq> [] \<longrightarrow> \<not> flt (ed_Strength e) DeletionThreshold)"
  using assms
proof (induction ps arbitrary: g n)
  case (Cons a ps)
  obtain p now where a: "a = (p, now)" by (cases a)
  let ?g = "fst (Decay p now g)"
  have p: "rearranges p" "t \<le> now - DecayInterval" using Cons.prems(2) a by auto
  have inv: "kg_inv ?g" by (rule Decay_inv [OF Cons.prems(1) p(1)])
  have b: "0 \<le> decay_bound n" "decay_bound n \<le> 1048576" using Cons.prems(3,4) unfolding decay_bound_def by linarith+
  have step: "ed_LastValidated x \<le> t \<and> fle (ed_Strength x) (Fin (of_int (decay_bound n) / 1048576)) \<and> \<not> flt (ed_Strength x) DeletionThreshold"
    if x: "map_of (kg_edges ?g) i = Some x" for x
  proof -
    obtain y where y: "map_of (kg_edges g) i = Some y" using x map_of_Decay [OF Cons.prems(1) p(1), of now i]
      by (cases "map_of (kg_edges g) i") simp_all
    have "ed_LastValidated y \<le> t" "fle (ed_Strength y) (Fin (of_int n / 1048576))" using Cons.prems(5) [OF y] by auto
    moreover have "in_unit (ed_Strength y)" using kg_invD(5) [OF Cons.prems(1) y] by (simp add: edge_ok_def)
    moreover have "stale (now - DecayInterval) y" using calculation(1) p(2) by (simp add: stale_def)
    ultimately show ?thesis
      using x y map_of_Decay [OF Cons.prems(1) p(1), of now i] decayed_bound [of "ed_Strength y" n] Cons.prems(3,4)
      by (auto simp: doomed_def decayed_edge_def split: if_splits)
  qed
  have run: "passes (a # ps) g = passes ps ?g" by (simp add: passes_def a)
  show ?case
  proof (cases "ps = []")
    case True
    then have "passes (a # ps) g = ?g" by (simp add: passes_def a)
    with step [of e] Cons.prems(6) True show ?thesis by simp
  next
    case False
    have "fle (ed_Strength e) (Fin (of_int ((decay_bound ^^ length ps) (decay_bound n)) / 1048576)) \<and>
        (ps \<noteq> [] \<longrightarrow> \<not> flt (ed_Strength e) DeletionThreshold)"
      by (rule Cons.IH [OF inv _ b]) (use Cons.prems(2,6) step run in auto)
    with False show ?thesis by (simp add: funpow_Suc_right del: funpow.simps)
  qed
qed (auto simp: passes_def)

lemma decay_bound_45: "(decay_bound ^^ 45) 1048576 < 104857"
  by (simp add: decay_bound_def eval_nat_numeral)

lemma decay_bound_mono_iter: "n \<le> 104857 \<Longrightarrow> 0 \<le> n \<Longrightarrow> (decay_bound ^^ k) n \<le> 104857 \<and> 0 \<le> (decay_bound ^^ k) n"
  by (induction k) (auto simp: decay_bound_def)

lemma small_below_threshold: "fle s (Fin (of_int n / 1048576)) \<Longrightarrow> n \<le> 104857 \<Longrightarrow> flt s DeletionThreshold"
proof -
  assume s: "fle s (Fin (of_int n / 1048576))" "n \<le> 104857"
  have "rnd (of_int 107374182 / 2 ^ 30) = Fin (of_int 107374182 / 2 ^ 30)" by (rule rnd_dyadic) simp_all
  then have "rnd (107374182 / 1073741824) = Fin (107374182 / 1073741824)" by simp
  then have "fle (Fin (107374182 / 1073741824)) DeletionThreshold"
    unfolding DeletionThreshold_def by (intro rnd_const_bounds') simp_all
  moreover have "flt (Fin (of_int n / 1048576)) (Fin (107374182 / 1073741824))"
  proof -
    have "(of_int n :: rat) \<le> of_int 104857" using s(2) by (simp only: of_int_le_iff)
    then show ?thesis by (simp add: flt_fin)
  qed
  ultimately show ?thesis using s(1) by (blast intro: fle_flt_trans flt_fle_trans)
qed

lemma passes_forget:
  assumes inv: "kg_inv g" and ps: "\<forall>(p, now) \<in> set ps. rearranges p \<and> t \<le> now - DecayInterval"
    and t: "\<And>e. map_of (kg_edges g) i = Some e \<Longrightarrow> ed_LastValidated e \<le> t" and len: "45 \<le> length ps"
  shows "map_of (kg_edges (passes ps g)) i = None"
proof (rule ccontr)
  assume "map_of (kg_edges (passes ps g)) i \<noteq> None"
  then obtain e where e: "map_of (kg_edges (passes ps g)) i = Some e" by blast
  have unit: "ed_LastValidated x \<le> t \<and> fle (ed_Strength x) (Fin (of_int 1048576 / 1048576))"
    if "map_of (kg_edges g) i = Some x" for x
    using that t kg_invD(5) [OF inv that] by (simp add: edge_ok_def in_unit_def)
  from len obtain k where k: "length ps = k + 45" by (metis add.commute le_iff_add)
  have "(decay_bound ^^ length ps) 1048576 = (decay_bound ^^ k) ((decay_bound ^^ 45) 1048576)"
    by (simp only: k funpow_add o_apply)
  moreover have "0 \<le> (decay_bound ^^ 45) 1048576"
    using decay_bound_45 by (simp add: decay_bound_def eval_nat_numeral)
  ultimately have "(decay_bound ^^ length ps) 1048576 \<le> 104857"
    using decay_bound_mono_iter decay_bound_45 by (metis less_imp_le)
  with passes_bound [OF inv ps _ _ unit e] len small_below_threshold show False by fastforce
qed

lemma DecayJob_Run_passes:
  "DecayJob_Run start ticks \<lparr>dj_Graph = Some g, dj_Interval = d\<rparr> = \<lparr>dj_Graph = Some (passes (start # ticks) g), dj_Interval = d\<rparr>"
proof -
  have "fold (\<lambda>(p, now) j. fst (RunOnce p now j)) ps \<lparr>dj_Graph = Some g, dj_Interval = d\<rparr> = \<lparr>dj_Graph = Some (passes ps g), dj_Interval = d\<rparr>"
    for ps by (induction ps arbitrary: g) (auto simp: passes_def RunOnce_def case_prod_beta)
  from this [of "start # ticks"] show ?thesis unfolding DecayJob_Run_def by (simp only: DecayJob.simps option.distinct if_False)
qed

section \<open>The dump is deterministic\<close>

lemma edge_less_then_by:
  "edge_less = then_by (\<lambda>a b. str_less (ed_EntityA a) (ed_EntityA b)) (then_by (\<lambda>a b. str_less (ed_Relationship a) (ed_Relationship b))
     (then_by (\<lambda>a b. str_less (ed_EntityB a) (ed_EntityB b)) (\<lambda>a b. str_less (ed_Direction a) (ed_Direction b))))"
  unfolding edge_less_def then_by_def by (intro ext) (auto dest: str_less_total str_less_asym)

interpretation edges: weak_order edge_less "\<lambda>_. True"
  unfolding edge_less_then_by by (intro weak_order_then_by weak_order_str)

lemma edge_less_tie: "\<not> edge_less a b \<Longrightarrow> \<not> edge_less b a \<Longrightarrow> edge_ID a = edge_ID b"
  by (auto simp: edge_less_def edge_ID_def edge_Key_def split: if_splits dest: str_less_total)

lemma kg_Edges_deterministic:
  assumes "kg_inv g" "kg_inv g'" "rearranges p" "rearranges q" "mset (kg_edges g) = mset (kg_edges g')"
  shows "kg_Edges p g = kg_Edges q g'"
  unfolding kg_Edges_def
proof (rule edges.sort_Slice_unique [OF assms(3,4)])
  show "mset (map snd (kg_edges g)) = mset (map snd (kg_edges g'))" using assms(5) by simp
  show "x = y" if "x \<in> set (map snd (kg_edges g))" "y \<in> set (map snd (kg_edges g))" "\<not> edge_less x y" "\<not> edge_less y x" for x y
  proof -
    from that(1,2) have "\<exists>i j. (i, x) \<in> set (kg_edges g) \<and> (j, y) \<in> set (kg_edges g)" by (force simp del: split_paired_Ex)
    then obtain i j where "(i, x) \<in> set (kg_edges g)" "(j, y) \<in> set (kg_edges g)" by blast
    then have "map_of (kg_edges g) i = Some x" "map_of (kg_edges g) j = Some y" using kg_invD(1) [OF assms(1)] by simp_all
    moreover from this have "i = edge_ID x" "j = edge_ID y" using kg_invD(5) [OF assms(1)] by blast+
    ultimately show ?thesis using edge_less_tie [OF that(3,4)] by simp
  qed
qed simp

section \<open>Properties\<close>

definition sample_edge :: Edge where
  "sample_edge = \<lparr>ed_EntityA = ''SOL'', ed_Relationship = ''correlates_with'', ed_EntityB = ''ETH'', ed_Direction = ''positive'',
     ed_Strength = Fin (1 / 2), ed_EvidenceCount = 0, ed_DiscoveredBy = ''n1'', ed_LastValidated = 0, ed_CreatedAt = 0\<rparr>"

lemma sample_edge_proper: "proper_evidence sample_edge" "proper_evidence (sample_edge\<lparr>ed_Direction := ''negative''\<rparr>)"
  using rnd_half is_f64_rnd [of "1 / 2"] by (simp_all add: proper_evidence_def sample_edge_def)

text \<open>
  C19: Type invariant of the market knowledge graph.  After any sequence of upserts (of evidence whose
  strength is a number) and decay passes (in any visiting order of the map), starting from the empty graph: both
  maps have distinct keys, every edge is stored under its own (tuple, direction), names are not blank, every strength
  is in [0, 1], and the contradiction index lists, for every tuple, exactly the directions present, each once,
  with no empty entry left behind.
\<close>

theorem knowledge_graph_invariant:
  assumes "\<forall>x \<in> set xs. kg_op_ok x"
  shows "kg_inv (fold kg_step xs NewKnowledgeGraph)"
  using kg_run_inv [OF kg_inv_New assms] .

theorem knowledge_graph_invariant_witness:
  "kg_inv (fold kg_step [KgUpsert 1 sample_edge, KgUpsert 2 (sample_edge\<lparr>ed_Direction := ''negative''\<rparr>), KgDecay rev (90 * Day)] NewKnowledgeGraph)"
  by (rule knowledge_graph_invariant) (simp add: sample_edge_proper)

text \<open>
  C29: The decay pass is equivalent to an order-free reference.  \<^verbatim>\<open>Decay\<close> ranges over a Go map, whose order is
  unspecified, and deletes entries while it does so; the resulting graph, index and both counters are those of
  \<open>decay_ref\<close>, which treats every edge independently: edges validated within the last thirty days are kept
  as they are, every other edge is multiplied by 0.95 and dropped when it falls below 0.1.
\<close>

theorem decay_order_free:
  assumes "kg_inv g" "rearranges p"
  shows "Decay p now g = decay_ref now g"
  using Decay_eq_ref [OF assms] .

theorem decay_order_free_witness:
  "Decay rev 5 (fold kg_step [KgUpsert 1 sample_edge] NewKnowledgeGraph) = decay_ref 5 (fold kg_step [KgUpsert 1 sample_edge] NewKnowledgeGraph)"
  by (rule decay_order_free [OF kg_run_inv [OF kg_inv_New]]) (simp_all add: sample_edge_proper)

text \<open>
  Unvalidated knowledge is forgotten.  If a decay job starts, and its first pass and at least forty-four
  ticks happen thirty days or more after an edge was last validated, then the edge is gone, whatever its
  strength was and in whatever order the passes visited the graph; rounding is taken into account.
\<close>

theorem knowledge_is_forgotten:
  assumes "kg_inv g" "\<forall>(p, now) \<in> set (start # ticks). rearranges p \<and> ed_LastValidated e + DecayInterval \<le> now"
    "kg_Get (edge_Key e) (ed_Direction e) g = Some e" "44 \<le> length ticks"
  shows "\<exists>g'. dj_Graph (DecayJob_Run start ticks (NewDecayJob (Some g) d)) = Some g' \<and> kg_Get (edge_Key e) (ed_Direction e) g' = None"
proof -
  have "map_of (kg_edges (passes (start # ticks) g)) (edge_Key e, ed_Direction e) = None"
    by (rule passes_forget [OF assms(1), of _ "ed_LastValidated e"]) (use assms(2-4) in \<open>auto simp: kg_Get_def\<close>)
  then show ?thesis by (simp add: NewDecayJob_def DecayJob_Run_passes kg_Get_def)
qed

lemma sample_graph_edge:
  "kg_Get (edge_Key sample_edge) ''positive'' (fold kg_step [KgUpsert 1 sample_edge] NewKnowledgeGraph) = Some (new_edge 1 sample_edge)"
  by (simp add: kg_Get_def Upsert_def validateEdge_def sample_edge_def TrimSpace_def is_space_def known_direction_def direction_defs
      contradict_def Opposite_def NewKnowledgeGraph_def edge_Key_def set_edge_def Let_def flt_fin)

theorem knowledge_is_forgotten_witness:
  "\<exists>g'. dj_Graph (DecayJob_Run (rev, 40 * Day) (replicate 44 (rev, 50 * Day)) (NewDecayJob (Some (fold kg_step [KgUpsert 1 sample_edge] NewKnowledgeGraph)) 0)) = Some g' \<and>
     kg_Get (edge_Key (new_edge 1 sample_edge)) (ed_Direction (new_edge 1 sample_edge)) g' = None"
proof (rule knowledge_is_forgotten)
  show "kg_inv (fold kg_step [KgUpsert 1 sample_edge] NewKnowledgeGraph)"
    by (rule kg_run_inv [OF kg_inv_New]) (simp add: sample_edge_proper)
  show "kg_Get (edge_Key (new_edge 1 sample_edge)) (ed_Direction (new_edge 1 sample_edge)) (fold kg_step [KgUpsert 1 sample_edge] NewKnowledgeGraph) =
      Some (new_edge 1 sample_edge)"
    using sample_graph_edge by (simp add: new_edge_def edge_Key_def sample_edge_def)
qed (auto simp: new_edge_def DecayInterval_def duration_defs)

end
