(* ===== verification/Intel.thy ===== *)
theory Intel
  imports Knowledge
begin

text \<open>
  \<^verbatim>\<open>internal/intelligence/accuracy_tracker.go\<close> and \<^verbatim>\<open>aggregator.go\<close>: the rolling accuracy of the
  sources and the snapshot of recent intelligence a strategist is shown.  Go maps are association lists;
  every clock reading is an argument.  The feed the aggregator reads is the interface
  \<open>signal_feed\<close>, which the in-memory feed of the source implements.
\<close>

section \<open>Accuracy tracker\<close>

record SignalOutcome =
  so_SourceAgentID :: string
  so_SignalType :: string
  so_ObservedAt :: time
  so_Correct :: bool

record SourceAccuracy =
  sa_SourceAgentID :: string
  sa_Observations :: int
  sa_Correct :: int
  sa_Accuracy :: f64

record AccuracyTracker =
  at_window :: duration
  at_bySource :: "(string \<times> SignalOutcome list) list"

definition DefaultAccuracyWindow :: duration where "DefaultAccuracyWindow = 30 * 24 * Hour"
definition MinObservations :: int where "MinObservations = 5"

definition NewAccuracyTracker :: "duration \<Rightarrow> AccuracyTracker" where
  "NewAccuracyTracker window = \<lparr>at_window = (if window \<le> 0 then DefaultAccuracyWindow else window), at_bySource = []\<rparr>"

definition obs_of :: "AccuracyTracker \<Rightarrow> string \<Rightarrow> SignalOutcome list" where
  "obs_of t src = (case map_of (at_bySource t) src of None \<Rightarrow> [] | Some l \<Rightarrow> l)"

definition evictExpiredLocked :: "string \<Rightarrow> time \<Rightarrow> AccuracyTracker \<Rightarrow> AccuracyTracker" where
  "evictExpiredLocked source cutoff t =
     (let obs = obs_of t source; remaining = dropWhile (\<lambda>x. \<not> cutoff < so_ObservedAt x) obs in
      if obs = [] then t
      else if length remaining = length obs then t
      else if remaining = [] then t\<lparr>at_bySource := AList.delete source (at_bySource t)\<rparr>
      else t\<lparr>at_bySource := AList.update source remaining (at_bySource t)\<rparr>)"

definition Ingest :: "time \<Rightarrow> SignalOutcome \<Rightarrow> AccuracyTracker \<Rightarrow> AccuracyTracker" where
  "Ingest now x t =
     (if so_SourceAgentID x = [] then t
      else let cutoff = now - at_window t in
        if \<not> cutoff < so_ObservedAt x then t
        else evictExpiredLocked (so_SourceAgentID x) cutoff
          (t\<lparr>at_bySource := AList.update (so_SourceAgentID x) (obs_of t (so_SourceAgentID x) @ [x]) (at_bySource t)\<rparr>))"

definition score_of :: "string \<Rightarrow> SignalOutcome list \<Rightarrow> SourceAccuracy" where
  "score_of src obs =
     (let n = int (length obs); c = int (length (filter so_Correct obs)) in
      \<lparr>sa_SourceAgentID = src, sa_Observations = n, sa_Correct = c,
       sa_Accuracy = (if 0 < n then fdiv (f64_of_int c) (f64_of_int n) else Fin 0)\<rparr>)"

definition Score :: "time \<Rightarrow> string \<Rightarrow> AccuracyTracker \<Rightarrow> AccuracyTracker \<times> SourceAccuracy" where
  "Score now src t = (let t' = evictExpiredLocked src (now - at_window t) t in (t', score_of src (obs_of t' src)))"

definition score_less :: "SourceAccuracy \<Rightarrow> SourceAccuracy \<Rightarrow> bool" where
  "score_less a b =
     (if \<not> feq (sa_Accuracy a) (sa_Accuracy b) then flt (sa_Accuracy b) (sa_Accuracy a)
      else if sa_Observations a \<noteq> sa_Observations b then sa_Observations b < sa_Observations a
      else str_less (sa_SourceAgentID a) (sa_SourceAgentID b))"

text \<open>
  \<^verbatim>\<open>AllScores\<close>: \<open>visit\<close> is the order in which the map is visited, \<open>clk\<close> the clock of the
  later calls of \<^verbatim>\<open>Score\<close>.
\<close>

definition evict_visit :: "time \<Rightarrow> string \<Rightarrow> AccuracyTracker \<times> string list \<Rightarrow> AccuracyTracker \<times> string list" where
  "evict_visit cutoff s st =
     (case st of (t, sources) \<Rightarrow>
        let t' = evictExpiredLocked s cutoff t in (t', if obs_of t' s \<noteq> [] then sources @ [s] else sources))"

definition score_visit :: "(string \<Rightarrow> time) \<Rightarrow> string \<Rightarrow> AccuracyTracker \<times> SourceAccuracy list \<Rightarrow> AccuracyTracker \<times> SourceAccuracy list" where
  "score_visit clk s st = (case st of (t, out) \<Rightarrow> (case Score (clk s) s t of (t', a) \<Rightarrow> (t', out @ [a])))"

definition AllScores ::
    "(string list \<Rightarrow> string list) \<Rightarrow> (SourceAccuracy list \<Rightarrow> SourceAccuracy list) \<Rightarrow> time \<Rightarrow> (string \<Rightarrow> time) \<Rightarrow> AccuracyTracker
     \<Rightarrow> AccuracyTracker \<times> SourceAccuracy list" where
  "AllScores visit p now clk t =
     (case fold (evict_visit (now - at_window t)) (visit (map fst (at_bySource t))) (t, []) of (t1, sources) \<Rightarrow>
      (case fold (score_visit clk) sources (t1, []) of (t2, out) \<Rightarrow> (t2, sort_Slice p score_less out)))"

definition Weight :: "time \<Rightarrow> string \<Rightarrow> AccuracyTracker \<Rightarrow> AccuracyTracker \<times> f64" where
  "Weight now src t =
     (case Score now src t of (t', s) \<Rightarrow> (t', if sa_Observations s < MinObservations then Fin (1 / 2) else sa_Accuracy s))"

section \<open>Signals and their feed\<close>

type_synonym Sentiment = string

definition SentimentBull :: Sentiment where "SentimentBull = ''bull''"
definition SentimentBear :: Sentiment where "SentimentBear = ''bear''"
definition SentimentNeutral :: Sentiment where "SentimentNeutral = ''neutral''"

definition Sentiment_Valid :: "Sentiment \<Rightarrow> bool" where
  "Sentiment_Valid s \<longleftrightarrow> s = SentimentBull \<or> s = SentimentBear \<or> s = SentimentNeutral"

record Signal =
  sg_SourceAgentID :: string
  sg_SignalType :: string
  sg_Sentiment :: Sentiment
  sg_Chain :: string
  sg_TaskType :: string
  sg_Confidence :: f64
  sg_Data :: string
  sg_PublishedAt :: time

type_synonym feed = "(string \<times> Signal list) list"

definition feed_of :: "feed \<Rightarrow> string \<Rightarrow> Signal list" where
  "feed_of f channel = (case map_of f channel of None \<Rightarrow> [] | Some l \<Rightarrow> l)"

definition feed_Append :: "string \<Rightarrow> Signal \<Rightarrow> feed \<Rightarrow> feed" where
  "feed_Append channel sig f = AList.update channel (feed_of f channel @ [sig]) f"

definition feed_Recent :: "(Signal list \<Rightarrow> Signal list) \<Rightarrow> feed \<Rightarrow> string \<Rightarrow> time \<Rightarrow> Signal list" where
  "feed_Recent p f channel since =
     sort_Slice p (\<lambda>a b. sg_PublishedAt b < sg_PublishedAt a) (filter (\<lambda>s. since < sg_PublishedAt s) (feed_of f channel))"

section \<open>Aggregator\<close>

record SignalDigest =
  sd_SourceAgentID :: string
  sd_SignalType :: string
  sd_Sentiment :: Sentiment
  sd_Chain :: string
  sd_Confidence :: f64
  sd_SourceAccuracy :: f64
  sd_Weighted :: f64
  sd_PublishedAt :: time
  sd_Summary :: string

record EdgeDigest =
  eg_EntityA :: string
  eg_Relationship :: string
  eg_EntityB :: string
  eg_Direction :: Direction
  eg_Strength :: f64

record SourceWeight =
  sw_SourceAgentID :: string
  sw_Weight :: f64

record IntelSnapshot =
  is_AgentID :: string
  is_GeneratedAt :: time
  is_TopSignals :: "SignalDigest list"
  is_KnowledgeEdges :: "EdgeDigest list"
  is_SourceWeights :: "SourceWeight list"
  is_EstimatedTokens :: int
  is_Truncated :: bool

record AggregatorConfig =
  ac_MaxSignals :: int
  ac_MaxEdges :: int
  ac_TokenBudget :: int
  ac_SignalFreshness :: duration

definition withDefaults :: "AggregatorConfig \<Rightarrow> AggregatorConfig" where
  "withDefaults c =
     \<lparr>ac_MaxSignals = (if ac_MaxSignals c \<le> 0 then 10 else ac_MaxSignals c),
      ac_MaxEdges = (if ac_MaxEdges c \<le> 0 then 8 else ac_MaxEdges c),
      ac_TokenBudget = (if ac_TokenBudget c \<le> 0 then 1000 else ac_TokenBudget c),
      ac_SignalFreshness = (if ac_SignalFreshness c \<le> 0 then 24 * Hour else ac_SignalFreshness c)\<rparr>"

text \<open>The ellipsis and the multiplication sign of the sources are UTF-8 byte sequences.\<close>

definition ellipsis :: string where "ellipsis = [CHR 0xE2, CHR 0x80, CHR 0xA6]"
definition times_sign :: string where "times_sign = [CHR 0xC3, CHR 0x97]"

definition summarise :: "Signal \<Rightarrow> string" where
  "summarise s =
     (if 0 < length (sg_Data s) then
        (if 160 < length (sg_Data s) then take 160 (sg_Data s) @ ellipsis else sg_Data s)
      else sg_SignalType s @ ''/'' @ sg_Sentiment s)"

text \<open>
  The aggregator's collaborators: the feed (\<open>None\<close> when it is nil), the tracker with the time its clock
  shows, and the graph; \<open>p\<close>-parameters are the rearrangements of \<^verbatim>\<open>sort.Slice\<close> over map values.
\<close>

type_synonym reader = "string \<Rightarrow> time \<Rightarrow> Signal list"

definition digest :: "time \<Rightarrow> Signal \<Rightarrow> AccuracyTracker option \<Rightarrow> AccuracyTracker option \<times> SignalDigest" where
  "digest tnow s acc =
     (let (acc', weight) = (case acc of None \<Rightarrow> (None, Fin (1 / 2))
                            | Some t \<Rightarrow> (case Weight tnow (sg_SourceAgentID s) t of (t', w) \<Rightarrow> (Some t', w)))
      in (acc', \<lparr>sd_SourceAgentID = sg_SourceAgentID s, sd_SignalType = sg_SignalType s, sd_Sentiment = sg_Sentiment s,
                 sd_Chain = sg_Chain s, sd_Confidence = sg_Confidence s, sd_SourceAccuracy = weight,
                 sd_Weighted = fmul (sg_Confidence s) weight, sd_PublishedAt = sg_PublishedAt s, sd_Summary = summarise s\<rparr>))"

type_synonym best = "((string \<times> string) \<times> SignalDigest) list"

definition better :: "SignalDigest \<Rightarrow> SignalDigest option \<Rightarrow> bool" where
  "better d cur = (case cur of None \<Rightarrow> True
     | Some c \<Rightarrow> flt (sd_Weighted c) (sd_Weighted d) \<or>
                  feq (sd_Weighted d) (sd_Weighted c) \<and> sd_PublishedAt c < sd_PublishedAt d)"

definition collect_visit :: "time \<Rightarrow> Signal \<Rightarrow> AccuracyTracker option \<times> best \<Rightarrow> AccuracyTracker option \<times> best" where
  "collect_visit tnow s st =
     (case st of (acc, b) \<Rightarrow>
      (case digest tnow s acc of (acc', d) \<Rightarrow>
        let k = (sd_SourceAgentID d, sd_SignalType d) in
        (acc', if better d (map_of b k) then AList.update k d b else b)))"

definition digest_less :: "SignalDigest \<Rightarrow> SignalDigest \<Rightarrow> bool" where
  "digest_less a b =
     (if \<not> feq (sd_Weighted a) (sd_Weighted b) then flt (sd_Weighted b) (sd_Weighted a)
      else if sd_PublishedAt a \<noteq> sd_PublishedAt b then sd_PublishedAt b < sd_PublishedAt a
      else str_less (sd_SourceAgentID a) (sd_SourceAgentID b))"

definition truncate_to :: "int \<Rightarrow> 'a list \<Rightarrow> 'a list" where
  "truncate_to n xs = (if n < int (length xs) then take (nat n) xs else xs)"

definition collectSignals ::
    "(SignalDigest list \<Rightarrow> SignalDigest list) \<Rightarrow> AggregatorConfig \<Rightarrow> reader \<Rightarrow> time \<Rightarrow> string list \<Rightarrow> time \<Rightarrow> AccuracyTracker option
     \<Rightarrow> AccuracyTracker option \<times> SignalDigest list" where
  "collectSignals p cfg rd tnow channels since acc =
     (case fold (collect_visit tnow) (concat (map (\<lambda>ch. rd ch since) channels)) (acc, []) of (acc', b) \<Rightarrow>
        (acc', truncate_to (ac_MaxSignals cfg) (sort_Slice p digest_less (map snd b))))"

definition edge_digest :: "Edge \<Rightarrow> EdgeDigest" where
  "edge_digest e = \<lparr>eg_EntityA = ed_EntityA e, eg_Relationship = ed_Relationship e, eg_EntityB = ed_EntityB e,
     eg_Direction = ed_Direction e, eg_Strength = ed_Strength e\<rparr>"

definition edge_visit :: "Edge \<Rightarrow> edgeID list \<times> EdgeDigest list \<Rightarrow> edgeID list \<times> EdgeDigest list" where
  "edge_visit e st = (case st of (seen, out) \<Rightarrow>
     if edge_ID e \<in> set seen then st else (edge_ID e # seen, out @ [edge_digest e]))"

definition edge_digest_less :: "EdgeDigest \<Rightarrow> EdgeDigest \<Rightarrow> bool" where
  "edge_digest_less a b =
     (if \<not> feq (eg_Strength a) (eg_Strength b) then flt (eg_Strength b) (eg_Strength a)
      else if eg_EntityA a \<noteq> eg_EntityA b then str_less (eg_EntityA a) (eg_EntityA b)
      else str_less (eg_EntityB a) (eg_EntityB b))"

definition collectEdges ::
    "(Edge list \<Rightarrow> Edge list) \<Rightarrow> (EdgeDigest list \<Rightarrow> EdgeDigest list) \<Rightarrow> AggregatorConfig \<Rightarrow> KnowledgeGraph \<Rightarrow> string list \<Rightarrow> EdgeDigest list" where
  "collectEdges pn pe cfg g entities =
     (if entities = [] then []
      else truncate_to (ac_MaxEdges cfg)
        (sort_Slice pe edge_digest_less (snd (fold edge_visit (concat (map (\<lambda>ent. Neighbors pn ent g) entities)) ([], [])))))"

definition weight_less :: "SourceWeight \<Rightarrow> SourceWeight \<Rightarrow> bool" where
  "weight_less a b =
     (if \<not> feq (sw_Weight a) (sw_Weight b) then flt (sw_Weight b) (sw_Weight a)
      else str_less (sw_SourceAgentID a) (sw_SourceAgentID b))"

definition weightsAudit :: "(SourceWeight list \<Rightarrow> SourceWeight list) \<Rightarrow> SignalDigest list \<Rightarrow> SourceWeight list" where
  "weightsAudit p sigs =
     sort_Slice p weight_less (map (\<lambda>(k, v). \<lparr>sw_SourceAgentID = k, sw_Weight = v\<rparr>)
       (fold (\<lambda>s seen. AList.update (sd_SourceAgentID s) (sd_SourceAccuracy s) seen) sigs []))"

definition nl :: string where "nl = [CHR 0x0A]"

definition signal_line :: "SignalDigest \<Rightarrow> string" where
  "signal_line sig = ''- ['' @ sd_Sentiment sig @ ''] '' @ sd_Chain sig @ ''/'' @ sd_SignalType sig @ '' from='' @ sd_SourceAgentID sig @
     '' w='' @ fmt_f 2 (sd_Weighted sig) @ '' (conf='' @ fmt_f 2 (sd_Confidence sig) @ '' '' @ times_sign @ '' src='' @
     fmt_f 2 (sd_SourceAccuracy sig) @ '') '' @ sd_Summary sig @ nl"

definition edge_line :: "EdgeDigest \<Rightarrow> string" where
  "edge_line e = ''- '' @ eg_EntityA e @ '' --'' @ eg_Relationship e @ ''('' @ eg_Direction e @ '','' @ fmt_f 2 (eg_Strength e) @ '')--> '' @ eg_EntityB e @ nl"

definition Render :: "IntelSnapshot \<Rightarrow> string" where
  "Render s =
     ''# Intel for '' @ is_AgentID s @ '' (generated '' @ FormatRFC3339 (is_GeneratedAt s) @ '')'' @ nl @
     (if is_Truncated s then ''_(truncated to fit token budget)_'' @ nl else []) @
     nl @ ''## Top signals'' @ nl @
     (if is_TopSignals s = [] then ''(none)'' @ nl else []) @ concat (map signal_line (is_TopSignals s)) @
     nl @ ''## Known relationships'' @ nl @
     (if is_KnowledgeEdges s = [] then ''(none)'' @ nl else []) @ concat (map edge_line (is_KnowledgeEdges s))"

definition estimateTokens :: "IntelSnapshot \<Rightarrow> int" where
  "estimateTokens s = godiv (int (length (Render s))) 4"

text \<open>The loop of \<^verbatim>\<open>enforceBudget\<close>.\<close>

function shrink :: "int \<Rightarrow> IntelSnapshot \<Rightarrow> IntelSnapshot" where
  "shrink budget snap =
     (if budget < estimateTokens snap then
        (if is_TopSignals snap \<noteq> [] then shrink budget (snap\<lparr>is_TopSignals := butlast (is_TopSignals snap), is_Truncated := True\<rparr>)
         else if is_KnowledgeEdges snap \<noteq> [] then
           shrink budget (snap\<lparr>is_KnowledgeEdges := butlast (is_KnowledgeEdges snap), is_Truncated := True\<rparr>)
         else snap)
      else snap)"
  by pat_completeness auto
termination
  by (relation "measure (\<lambda>(_, s). length (is_TopSignals s) + length (is_KnowledgeEdges s))") auto

declare shrink.simps [simp del]

definition enforceBudget :: "(SourceWeight list \<Rightarrow> SourceWeight list) \<Rightarrow> AggregatorConfig \<Rightarrow> IntelSnapshot \<Rightarrow> IntelSnapshot" where
  "enforceBudget p cfg snap =
     (let s1 = shrink (ac_TokenBudget cfg) snap;
          s2 = (if is_Truncated s1 then s1\<lparr>is_SourceWeights := weightsAudit p (is_TopSignals s1)\<rparr> else s1)
      in s2\<lparr>is_EstimatedTokens := estimateTokens s2\<rparr>)"

text \<open>The rearrangements one call meets.\<close>

record sort_orders =
  ord_digests :: "SignalDigest list \<Rightarrow> SignalDigest list"
  ord_edges :: "Edge list \<Rightarrow> Edge list"
  ord_edge_digests :: "EdgeDigest list \<Rightarrow> EdgeDigest list"
  ord_weights :: "SourceWeight list \<Rightarrow> SourceWeight list"

definition Summarize ::
    "sort_orders \<Rightarrow> AggregatorConfig \<Rightarrow> reader option \<Rightarrow> time \<Rightarrow> time \<Rightarrow> string \<Rightarrow> string list \<Rightarrow> string list
     \<Rightarrow> AccuracyTracker option \<Rightarrow> KnowledgeGraph option \<Rightarrow> AccuracyTracker option \<times> IntelSnapshot" where
  "Summarize ords cfg feed now tnow agentID channels entities acc graph =
     (let since = now - ac_SignalFreshness cfg;
          (acc', sigs) = (case feed of None \<Rightarrow> (acc, []) | Some rd \<Rightarrow> collectSignals (ord_digests ords) cfg rd tnow channels since acc);
          edges = (case graph of None \<Rightarrow> [] | Some g \<Rightarrow> collectEdges (ord_edges ords) (ord_edge_digests ords) cfg g entities);
          snap = \<lparr>is_AgentID = agentID, is_GeneratedAt = now, is_TopSignals = sigs, is_KnowledgeEdges = edges,
                  is_SourceWeights = weightsAudit (ord_weights ords) sigs, is_EstimatedTokens = 0, is_Truncated = False\<rparr>;
          snap' = snap\<lparr>is_EstimatedTokens := estimateTokens snap\<rparr>
      in (acc', enforceBudget (ord_weights ords) cfg snap'))"

section \<open>The tracker against its window\<close>

lemma dropWhile_length_eq: "length (dropWhile P xs) = length xs \<longleftrightarrow> dropWhile P xs = xs"
proof
  assume l: "length (dropWhile P xs) = length xs"
  have "xs = takeWhile P xs @ dropWhile P xs" by simp
  then have "length xs = length (takeWhile P xs) + length (dropWhile P xs)" by (metis length_append)
  with l have "takeWhile P xs = []" by simp
  then show "dropWhile P xs = xs" by (metis append_Nil takeWhile_dropWhile_id)
qed simp

lemma at_window_evict [simp]: "at_window (evictExpiredLocked s c t) = at_window t"
  by (simp add: evictExpiredLocked_def Let_def)

lemma obs_of_evict:
  "obs_of (evictExpiredLocked src c t) s =
    (if s = src then dropWhile (\<lambda>x. \<not> c < so_ObservedAt x) (obs_of t src) else obs_of t s)"
  by (auto simp: evictExpiredLocked_def Let_def dropWhile_length_eq obs_of_def update_conv' delete_conv' simp del: dropWhile_eq_Nil_conv)

lemma obs_of_New [simp]: "obs_of (NewAccuracyTracker w) s = []"
  by (simp add: obs_of_def NewAccuracyTracker_def)

lemma at_window_New: "at_window (NewAccuracyTracker w) = (if w \<le> 0 then DefaultAccuracyWindow else w)"
  by (simp add: NewAccuracyTracker_def)

lemma at_window_Ingest [simp]: "at_window (Ingest now x t) = at_window t"
  by (simp add: Ingest_def Let_def)

lemma obs_of_Ingest:
  "obs_of (Ingest now x t) s =
    (if so_SourceAgentID x \<noteq> [] \<and> now - at_window t < so_ObservedAt x \<and> s = so_SourceAgentID x
     then dropWhile (\<lambda>y. \<not> now - at_window t < so_ObservedAt y) (obs_of t s @ [x]) else obs_of t s)"
proof (cases "so_SourceAgentID x \<noteq> [] \<and> now - at_window t < so_ObservedAt x")
  case True
  let ?t = "t\<lparr>at_bySource := AList.update (so_SourceAgentID x) (obs_of t (so_SourceAgentID x) @ [x]) (at_bySource t)\<rparr>"
  have "obs_of ?t r = (if r = so_SourceAgentID x then obs_of t r @ [x] else obs_of t r)" for r
    by (simp add: obs_of_def update_conv')
  with True show ?thesis by (simp add: Ingest_def Let_def obs_of_evict)
next
  case False
  then show ?thesis by (auto simp: Ingest_def Let_def)
qed

lemma Score_eq:
  "Score now src t = (let t' = evictExpiredLocked src (now - at_window t) t
     in (t', score_of src (dropWhile (\<lambda>x. \<not> now - at_window t < so_ObservedAt x) (obs_of t src))))"
  by (simp add: Score_def obs_of_evict Let_def)

lemma at_window_Score [simp]: "at_window (fst (Score now src t)) = at_window t"
  by (simp add: Score_def Let_def)

text \<open>A history of the tracker: outcomes reported and scores asked for, each with the clock.\<close>

datatype tracker_op = TrIngest time SignalOutcome | TrScore time string

fun tr_step :: "tracker_op \<Rightarrow> AccuracyTracker \<Rightarrow> AccuracyTracker" where
  "tr_step (TrIngest now x) t = Ingest now x t"
| "tr_step (TrScore now src) t = fst (Score now src t)"

fun tr_time :: "tracker_op \<Rightarrow> time" where
  "tr_time (TrIngest now x) = now"
| "tr_time (TrScore now src) = now"

fun tr_outcomes :: "tracker_op list \<Rightarrow> SignalOutcome list" where
  "tr_outcomes [] = []"
| "tr_outcomes (TrIngest now x # xs) = x # tr_outcomes xs"
| "tr_outcomes (TrScore now src # xs) = tr_outcomes xs"

definition of_source :: "string \<Rightarrow> SignalOutcome list \<Rightarrow> SignalOutcome list" where
  "of_source src xs = filter (\<lambda>x. so_SourceAgentID x = src) xs"

definition after :: "time \<Rightarrow> SignalOutcome list \<Rightarrow> SignalOutcome list" where
  "after c xs = filter (\<lambda>x. c < so_ObservedAt x) xs"

lemma tr_outcomes_append [simp]: "tr_outcomes (xs @ ys) = tr_outcomes xs @ tr_outcomes ys"
  by (induction xs rule: tr_outcomes.induct) auto

lemma at_window_run [simp]: "at_window (fold tr_step xs t) = at_window t"
proof (induction xs arbitrary: t)
  case (Cons x xs)
  then show ?case by (cases x) simp_all
qed simp

lemma dropWhile_sorted_after:
  "sorted (map so_ObservedAt xs) \<Longrightarrow> dropWhile (\<lambda>x. \<not> c < so_ObservedAt x) xs = after c xs"
proof (induction xs)
  case (Cons x xs)
  show ?case
  proof (cases "c < so_ObservedAt x")
    case True
    with Cons.prems have "filter (\<lambda>x. c < so_ObservedAt x) xs = xs" by (auto simp: filter_id_conv)
    with True show ?thesis by (simp add: after_def)
  next
    case False
    with Cons show ?thesis by (simp add: after_def)
  qed
qed (simp add: after_def)

lemma after_after: "c \<le> c' \<Longrightarrow> after c' (after c xs) = after c' xs"
  by (auto simp: after_def intro!: filter_cong)

lemma sorted_after: "sorted (map so_ObservedAt xs) \<Longrightarrow> sorted (map so_ObservedAt (after c xs))"
  by (auto simp: after_def sorted_filter)

text \<open>
  What a tracker that saw \<open>outs\<close> has at time \<open>now\<close>: per source, in order of observation, at least
  everything still inside the window.
\<close>

definition tracks :: "time \<Rightarrow> SignalOutcome list \<Rightarrow> AccuracyTracker \<Rightarrow> bool" where
  "tracks now outs t \<longleftrightarrow> (\<forall>src. src \<noteq> [] \<longrightarrow> sorted (map so_ObservedAt (obs_of t src)) \<and>
     set (obs_of t src) \<subseteq> set (of_source src outs) \<and>
     (\<forall>c \<ge> now - at_window t. after c (obs_of t src) = after c (of_source src outs)))"

lemma tracks_later: "tracks now outs t \<Longrightarrow> now \<le> now' \<Longrightarrow> tracks now' outs t"
  by (auto simp: tracks_def)

lemma tracks_evict:
  assumes "tracks now outs t"
  shows "tracks now outs (evictExpiredLocked s (now - at_window t) t)"
proof -
  have "sorted (map so_ObservedAt (obs_of (evictExpiredLocked s (now - at_window t) t) src)) \<and>
     set (obs_of (evictExpiredLocked s (now - at_window t) t) src) \<subseteq> set (of_source src outs) \<and>
     (\<forall>c \<ge> now - at_window t. after c (obs_of (evictExpiredLocked s (now - at_window t) t) src) = after c (of_source src outs))"
    if "src \<noteq> []" for src
  proof -
    have t: "sorted (map so_ObservedAt (obs_of t src))" "set (obs_of t src) \<subseteq> set (of_source src outs)"
      "\<forall>c \<ge> now - at_window t. after c (obs_of t src) = after c (of_source src outs)"
      using assms that by (auto simp: tracks_def)
    have "obs_of (evictExpiredLocked s (now - at_window t) t) src =
       (if src = s then after (now - at_window t) (obs_of t src) else obs_of t src)"
      using dropWhile_sorted_after [OF t(1)] by (cases "src = s") (simp_all add: obs_of_evict)
    moreover have "set (after (now - at_window t) (obs_of t src)) \<subseteq> set (of_source src outs)" using t(2) by (auto simp: after_def)
    ultimately show ?thesis using t sorted_after [OF t(1)] by (metis after_after)
  qed
  then show ?thesis by (auto simp: tracks_def)
qed

lemma tracks_Ingest:
  assumes tr: "tracks now outs t" and ord: "\<forall>y \<in> set (of_source (so_SourceAgentID x) outs). so_ObservedAt y \<le> so_ObservedAt x"
  shows "tracks now (outs @ [x]) (Ingest now x t)"
proof -
  let ?c = "now - at_window t"
  have "sorted (map so_ObservedAt (obs_of (Ingest now x t) src)) \<and>
     set (obs_of (Ingest now x t) src) \<subseteq> set (of_source src (outs @ [x])) \<and>
     (\<forall>c \<ge> ?c. after c (obs_of (Ingest now x t) src) = after c (of_source src (outs @ [x])))"
    if src: "src \<noteq> []" for src
  proof -
    have t: "sorted (map so_ObservedAt (obs_of t src))" "set (obs_of t src) \<subseteq> set (of_source src outs)"
      "\<forall>c \<ge> ?c. after c (obs_of t src) = after c (of_source src outs)"
      using tr src by (auto simp: tracks_def)
    show ?thesis
    proof (cases "?c < so_ObservedAt x \<and> src = so_SourceAgentID x")
      case True
      have s: "sorted (map so_ObservedAt (obs_of t src @ [x]))" using t(1,2) ord True by (auto simp: sorted_append)
      have "obs_of (Ingest now x t) src = after ?c (obs_of t src @ [x])"
        using True src dropWhile_sorted_after [OF s] by (simp add: obs_of_Ingest)
      moreover have "of_source src (outs @ [x]) = of_source src outs @ [x]" using True by (simp add: of_source_def)
      moreover have "set (after ?c (obs_of t src @ [x])) \<subseteq> set (of_source src outs @ [x])" using t(2) by (auto simp: after_def)
      moreover have "after c (obs_of t src @ [x]) = after c (of_source src outs @ [x])" if "?c \<le> c" for c
        using t(3) that by (simp add: after_def)
      ultimately show ?thesis using sorted_after [OF s] by (metis after_after)
    next
      case False
      then have "obs_of (Ingest now x t) src = obs_of t src" by (auto simp: obs_of_Ingest)
      moreover have "after c (of_source src (outs @ [x])) = after c (of_source src outs)" if "?c \<le> c" for c
        using False that by (auto simp: of_source_def after_def)
      ultimately show ?thesis using t by (auto simp: of_source_def)
    qed
  qed
  then show ?thesis by (auto simp: tracks_def)
qed

lemma tracks_run:
  assumes "sorted (map tr_time xs)" "\<forall>src. sorted (map so_ObservedAt (of_source src (tr_outcomes xs)))" "\<forall>x \<in> set xs. tr_time x \<le> now"
  shows "tracks now (tr_outcomes xs) (fold tr_step xs (NewAccuracyTracker w))"
  using assms
proof (induction xs arbitrary: now rule: rev_induct)
  case Nil
  then show ?case by (simp add: tracks_def NewAccuracyTracker_def obs_of_def of_source_def)
next
  case (snoc x xs)
  let ?t = "fold tr_step xs (NewAccuracyTracker w)" and ?n = "tr_time x"
  have ord: "sorted (map so_ObservedAt (of_source src (tr_outcomes xs)))" for src
    using snoc.prems(2) [rule_format, of src] by (simp add: of_source_def sorted_append)
  have before: "\<forall>y \<in> set xs. tr_time y \<le> ?n" using snoc.prems(1) by (auto simp: sorted_append)
  have IH: "tracks ?n (tr_outcomes xs) ?t"
    by (rule snoc.IH) (use snoc.prems(1) ord before in \<open>auto simp: sorted_append\<close>)
  have "tracks ?n (tr_outcomes (xs @ [x])) (tr_step x ?t)"
  proof (cases x)
    case (TrIngest n y)
    have "\<forall>z \<in> set (of_source (so_SourceAgentID y) (tr_outcomes xs)). so_ObservedAt z \<le> so_ObservedAt y"
      using snoc.prems(2) [rule_format, of "so_SourceAgentID y"] TrIngest by (auto simp: of_source_def sorted_append)
    from tracks_Ingest [OF _ this] IH TrIngest show ?thesis by simp
  next
    case (TrScore n s)
    then show ?thesis using tracks_evict [OF IH, of s] by (simp add: Score_def Let_def)
  qed
  then show ?case using snoc.prems(3) by (auto intro: tracks_later)
qed

section \<open>Weights are fractions\<close>

lemma count_ratio_unit:
  assumes "0 \<le> c" "c \<le> n" "0 < n" "is_int64 n" shows "in_unit (fdiv (f64_of_int c) (f64_of_int n))"
proof -
  have fin: "is_fin (f64_of_int c)" "is_fin (f64_of_int n)"
    using assms by (auto intro!: is_fin_f64_of_int simp: is_int64_def go_defs)
  have "fle (f64_of_int c) (f64_of_int n)" "fle (Fin 0) (f64_of_int c)" "flt (Fin 0) (f64_of_int n)"
    using assms by (auto intro: f64_of_int_mono f64_of_int_nonneg f64_of_int_pos)
  with fin show ?thesis by (auto simp: in_unit_def intro: fdiv_nonneg fdiv_le_1)
qed

lemma score_unit: "is_int64 (int (length obs)) \<Longrightarrow> in_unit (sa_Accuracy (score_of src obs))"
  by (auto simp: score_of_def Let_def intro!: count_ratio_unit)

lemma Weight_unit: "is_int64 (int (length (obs_of t src))) \<Longrightarrow> in_unit (snd (Weight now src t))"
proof -
  assume l: "is_int64 (int (length (obs_of t src)))"
  let ?d = "dropWhile (\<lambda>x. \<not> now - at_window t < so_ObservedAt x) (obs_of t src)"
  have "is_int64 (int (length ?d))" using l length_dropWhile_le [of _ "obs_of t src"]
    by (auto simp: is_int64_def go_defs intro: order_trans)
  then have "in_unit (sa_Accuracy (score_of src ?d))" by (rule score_unit)
  moreover have "in_unit (Fin (1 / 2))" using rnd_unit [of "1 / 2"] by simp
  ultimately show ?thesis by (simp add: Weight_def Score_eq Let_def)
qed

section \<open>The feed\<close>

text \<open>What the aggregator relies on: the documented contract of \<^verbatim>\<open>SignalFeed.Recent\<close>.\<close>

locale signal_feed =
  fixes rd :: reader and sent :: "string \<Rightarrow> Signal set"
  assumes recent_iff: "s \<in> set (rd ch since) \<longleftrightarrow> s \<in> sent ch \<and> since < sg_PublishedAt s"
    and newest_first: "sorted_wrt (\<lambda>a b. sg_PublishedAt b \<le> sg_PublishedAt a) (rd ch since)"
begin

definition seen_on :: "string list \<Rightarrow> time \<Rightarrow> Signal set" where
  "seen_on channels since = {s. \<exists>ch \<in> set channels. s \<in> sent ch \<and> since < sg_PublishedAt s}"

lemma set_read: "set (concat (map (\<lambda>ch. rd ch since) channels)) = seen_on channels since"
  by (auto simp: seen_on_def recent_iff)

end

locale any_order =
  fixes p :: "Signal list \<Rightarrow> Signal list"
  assumes rearr: "rearranges p"

sublocale any_order \<subseteq> mem: signal_feed "feed_Recent p f" "\<lambda>ch. set (feed_of f ch)" for f
proof
  fix s ch since
  show "s \<in> set (feed_Recent p f ch since) \<longleftrightarrow> s \<in> set (feed_of f ch) \<and> since < sg_PublishedAt s"
    by (auto simp: feed_Recent_def rearr)
  have "sorted_wrt (\<lambda>a b. \<not> sg_PublishedAt a < sg_PublishedAt b) (feed_Recent p f ch since)"
    unfolding feed_Recent_def
    by (rule weak_order.sort_Slice_sorted [OF weak_order_key(2) [where ok = "\<lambda>_. True"] rearr]) simp
  then show "sorted_wrt (\<lambda>a b. sg_PublishedAt b \<le> sg_PublishedAt a) (feed_Recent p f ch since)"
    by (rule sorted_wrt_mono_rel [rotated]) simp
qed

interpretation arrival: any_order "\<lambda>xs. xs"
  by unfold_locales simp

section \<open>What the aggregator collects\<close>

definition digest_key :: "SignalDigest \<Rightarrow> string \<times> string" where
  "digest_key d = (sd_SourceAgentID d, sd_SignalType d)"

definition digest_from :: "SignalDigest \<Rightarrow> Signal \<Rightarrow> bool" where
  "digest_from d s \<longleftrightarrow> sd_SourceAgentID d = sg_SourceAgentID s \<and> sd_SignalType d = sg_SignalType s \<and> sd_Sentiment d = sg_Sentiment s \<and>
     sd_Chain d = sg_Chain s \<and> sd_Confidence d = sg_Confidence s \<and> sd_PublishedAt d = sg_PublishedAt s \<and> sd_Summary d = summarise s \<and>
     sd_Weighted d = fmul (sg_Confidence s) (sd_SourceAccuracy d)"

definition best_ok :: "Signal set \<Rightarrow> best \<Rightarrow> bool" where
  "best_ok S b \<longleftrightarrow> distinct (map fst b) \<and> (\<forall>(k, d) \<in> set b. k = digest_key d \<and> (\<exists>s \<in> S. digest_from d s)) \<and>
     (\<forall>s \<in> S. (sg_SourceAgentID s, sg_SignalType s) \<in> fst ` set b)"

lemma digest_digest_from: "digest tnow s acc = (acc', d) \<Longrightarrow> digest_from d s"
  by (auto simp: digest_def digest_from_def Let_def split: option.splits prod.splits)

lemma best_ok_visit:
  assumes "best_ok S b" shows "best_ok (insert s S) (snd (collect_visit tnow s (acc, b)))"
proof -
  obtain acc' d where d: "digest tnow s acc = (acc', d)" by (cases "digest tnow s acc")
  note df = digest_digest_from [OF d]
  let ?k = "(sd_SourceAgentID d, sd_SignalType d)"
  have k: "?k = digest_key d" "?k = (sg_SourceAgentID s, sg_SignalType s)" using df by (simp_all add: digest_key_def digest_from_def)
  show ?thesis
  proof (cases "better d (map_of b ?k)")
    case True
    let ?b = "AList.update ?k d b"
    have "dom (map_of ?b) = insert ?k (dom (map_of b))" by (simp only: update_conv' dom_fun_upd option.distinct if_False)
    then have dom: "fst ` set ?b = insert ?k (fst ` set b)" by (simp only: dom_map_of_conv_image_fst)
    have dist: "distinct (map fst ?b)" using assms by (simp add: best_ok_def distinct_update)
    have "j = digest_key x \<and> (\<exists>s \<in> insert s S. digest_from x s)" if "(j, x) \<in> set ?b" for j x
    proof -
      have "map_of ?b j = Some x" using that dist by simp
      then have "j = ?k \<and> x = d \<or> (j, x) \<in> set b" by (auto simp: update_conv' split: if_splits dest: map_of_SomeD)
      then show ?thesis using assms df k by (auto simp: best_ok_def)
    qed
    then have "\<forall>(j, x) \<in> set ?b. j = digest_key x \<and> (\<exists>s \<in> insert s S. digest_from x s)" by blast
    moreover have "\<forall>r \<in> insert s S. (sg_SourceAgentID r, sg_SignalType r) \<in> fst ` set ?b"
      unfolding dom using assms k(2) by (simp add: best_ok_def)
    moreover have "snd (collect_visit tnow s (acc, b)) = ?b" using d True by (simp add: collect_visit_def Let_def)
    ultimately show ?thesis using dist by (simp only: best_ok_def simp_thms)
  next
    case False
    then have "map_of b ?k \<noteq> None" by (cases "map_of b ?k") (simp_all add: better_def)
    then have "?k \<in> fst ` set b" by (simp add: map_of_dom_iff)
    moreover have "snd (collect_visit tnow s (acc, b)) = b" using d False by (simp add: collect_visit_def Let_def)
    ultimately show ?thesis using assms k(2) by (simp add: best_ok_def) blast
  qed
qed

lemma best_ok_fold: "best_ok S b \<Longrightarrow> best_ok (S \<union> set ss) (snd (fold (collect_visit tnow) ss (acc, b)))"
proof (induction ss arbitrary: S acc b)
  case (Cons s ss)
  obtain acc' b' where v: "collect_visit tnow s (acc, b) = (acc', b')" by (cases "collect_visit tnow s (acc, b)")
  with best_ok_visit [OF Cons.prems, of s tnow acc] have "best_ok (insert s S) b'" by simp
  from Cons.IH [OF this, of acc'] v show ?case by (simp add: insert_absorb2)
qed simp

lemma set_truncate: "set (truncate_to n xs) \<subseteq> set xs"
  by (auto simp: truncate_to_def dest: in_set_takeD)

lemma length_truncate: "0 \<le> n \<Longrightarrow> int (length (truncate_to n xs)) \<le> n"
  by (simp add: truncate_to_def)

lemma truncate_prefix: "prefix (truncate_to n xs) xs"
  by (simp add: truncate_to_def take_is_prefix)

lemma collectSignals_spec:
  assumes "rearranges p" "collectSignals p cfg rd tnow channels since acc = (acc', ds)"
  shows "distinct (map digest_key ds)" "0 \<le> ac_MaxSignals cfg \<Longrightarrow> int (length ds) \<le> ac_MaxSignals cfg"
    "d \<in> set ds \<Longrightarrow> \<exists>s \<in> set (concat (map (\<lambda>ch. rd ch since) channels)). digest_from d s"
proof -
  let ?ss = "concat (map (\<lambda>ch. rd ch since) channels)"
  obtain acc1 b where f: "fold (collect_visit tnow) ?ss (acc, []) = (acc1, b)" by (cases "fold (collect_visit tnow) ?ss (acc, [])")
  have "best_ok {} []" by (simp add: best_ok_def)
  from best_ok_fold [OF this, of ?ss tnow acc] f have b: "best_ok (set ?ss) b" by simp
  have ds: "ds = truncate_to (ac_MaxSignals cfg) (sort_Slice p digest_less (map snd b))" using assms(2) f by (simp add: collectSignals_def)
  have keys: "map digest_key (map snd b) = map fst b" using b by (auto simp: best_ok_def)
  have "distinct (map digest_key (map snd b))" unfolding keys using b by (simp add: best_ok_def)
  moreover have "mset (map digest_key (sort_Slice p digest_less (map snd b))) = mset (map digest_key (map snd b))"
    using mset_sort_Slice [OF assms(1)] by (simp only: mset_map)
  ultimately have "distinct (map digest_key (sort_Slice p digest_less (map snd b)))" by (metis mset_eq_imp_distinct_iff)
  moreover obtain r where r: "sort_Slice p digest_less (map snd b) = ds @ r" using truncate_prefix unfolding ds by (metis prefixE)
  ultimately show "distinct (map digest_key ds)" by simp
  show "0 \<le> ac_MaxSignals cfg \<Longrightarrow> int (length ds) \<le> ac_MaxSignals cfg" unfolding ds by (rule length_truncate)
  show "\<exists>s \<in> set ?ss. digest_from d s" if "d \<in> set ds"
  proof -
    have "d \<in> snd ` set b" using that r set_sort_Slice [OF assms(1), of digest_less "map snd b"] by (metis Un_iff list.set_map set_append)
    then show ?thesis using b by (fastforce simp: best_ok_def)
  qed
qed

context signal_feed
begin

lemma digests_fresh:
  assumes "rearranges q" "collectSignals q cfg rd tnow channels since acc = (acc', ds)" "d \<in> set ds"
  shows "\<exists>ch \<in> set channels. \<exists>s \<in> sent ch. since < sg_PublishedAt s \<and> digest_from d s"
  using collectSignals_spec(3) [OF assms] unfolding set_read by (auto simp: seen_on_def)

end

context any_order
begin

lemmas in_memory_fresh = mem.digests_fresh

end

lemma edge_visit_fold:
  "set (snd (fold edge_visit es (seen, out))) \<subseteq> set out \<union> edge_digest ` set es"
proof (induction es arbitrary: seen out)
  case (Cons e es)
  show ?case
  proof (cases "edge_ID e \<in> set seen")
    case True
    with Cons [of seen out] show ?thesis by (auto simp: edge_visit_def)
  next
    case False
    with Cons [of "edge_ID e # seen" "out @ [edge_digest e]"] show ?thesis by (auto simp: edge_visit_def)
  qed
qed simp

lemma collectEdges_spec:
  assumes "rearranges pn" "rearranges pe" "x \<in> set (collectEdges pn pe cfg g entities)"
  shows "\<exists>(i, e) \<in> set (kg_edges g). x = edge_digest e \<and> (ed_EntityA e \<in> set entities \<or> ed_EntityB e \<in> set entities)"
proof -
  let ?es = "concat (map (\<lambda>ent. Neighbors pn ent g) entities)"
  have "x \<in> set (snd (fold edge_visit ?es ([], [])))"
    using assms(2,3) set_truncate by (force simp: collectEdges_def split: if_splits)
  moreover have "set (snd (fold edge_visit ?es ([], []))) \<subseteq> edge_digest ` set ?es"
    using edge_visit_fold [of ?es "[]" "[]"] by (simp only: list.set Un_empty_left)
  ultimately obtain e where "e \<in> set ?es" "x = edge_digest e" by (meson imageE subsetD)
  then show ?thesis using assms(1) by (fastforce simp: Neighbors_def)
qed

section \<open>The token budget\<close>

text \<open>
  The snapshots the loop tries: \<open>cand s j\<close> has lost \<open>j\<close> items, signals from the end first, then edges.
\<close>

definition cand :: "IntelSnapshot \<Rightarrow> nat \<Rightarrow> IntelSnapshot" where
  "cand s j = (let n = length (is_TopSignals s); m = length (is_KnowledgeEdges s) in
     if j = 0 then s else s\<lparr>is_TopSignals := take (n - j) (is_TopSignals s),
       is_KnowledgeEdges := take (m - (j - n)) (is_KnowledgeEdges s), is_Truncated := True\<rparr>)"

lemma take_butlast_Suc: "xs \<noteq> [] \<Longrightarrow> take (length xs - Suc 0 - j) (butlast xs) = take (length xs - Suc j) xs"
  by (simp add: butlast_conv_take min_def)

lemma cand_signal:
  assumes "is_TopSignals s \<noteq> []"
  shows "cand (s\<lparr>is_TopSignals := butlast (is_TopSignals s), is_Truncated := True\<rparr>) j = cand s (Suc j)"
proof -
  have "j - (length (is_TopSignals s) - 1) = Suc j - length (is_TopSignals s)" using assms by (cases "is_TopSignals s") auto
  then show ?thesis using assms take_butlast_Suc [OF assms, of j] by (auto simp: cand_def Let_def butlast_conv_take)
qed

lemma cand_edge:
  assumes "is_TopSignals s = []" "is_KnowledgeEdges s \<noteq> []"
  shows "cand (s\<lparr>is_KnowledgeEdges := butlast (is_KnowledgeEdges s), is_Truncated := True\<rparr>) j = cand s (Suc j)"
  using assms take_butlast_Suc [OF assms(2), of j] by (auto simp: cand_def Let_def butlast_conv_take)

definition items :: "IntelSnapshot \<Rightarrow> nat" where
  "items s = length (is_TopSignals s) + length (is_KnowledgeEdges s)"

lemma shrink_first_fit:
  "\<exists>j \<le> items s. shrink b s = cand s j \<and> (\<forall>i < j. b < estimateTokens (cand s i)) \<and> (estimateTokens (cand s j) \<le> b \<or> j = items s)"
proof (induction b s rule: shrink.induct)
  case (1 b s)
  consider (fits) "estimateTokens s \<le> b" | (sig) "b < estimateTokens s" "is_TopSignals s \<noteq> []"
    | (edge) "b < estimateTokens s" "is_TopSignals s = []" "is_KnowledgeEdges s \<noteq> []"
    | (none) "b < estimateTokens s" "is_TopSignals s = []" "is_KnowledgeEdges s = []" by linarith
  then show ?case
  proof cases
    case fits
    then show ?thesis by (intro exI [of _ 0]) (simp add: shrink.simps [of b s] cand_def)
  next
    case sig
    let ?s = "s\<lparr>is_TopSignals := butlast (is_TopSignals s), is_Truncated := True\<rparr>"
    from "1.IH"(1) [OF sig] obtain j where j: "j \<le> items ?s" "shrink b ?s = cand ?s j" "\<forall>i < j. b < estimateTokens (cand ?s i)"
      "estimateTokens (cand ?s j) \<le> b \<or> j = items ?s" by blast
    have "Suc (items ?s) = items s" using sig(2) by (simp add: items_def)
    moreover have "b < estimateTokens (cand s i)" if "i < Suc j" for i
      using j(3) that sig(1) cand_signal [OF sig(2)] by (cases i) (auto simp: cand_def)
    moreover have "shrink b s = cand s (Suc j)" using sig j(2) cand_signal [OF sig(2), of j] by (simp add: shrink.simps [of b s])
    ultimately show ?thesis using j(1,4) cand_signal [OF sig(2), of j] by (intro exI [of _ "Suc j"]) auto
  next
    case edge
    let ?s = "s\<lparr>is_KnowledgeEdges := butlast (is_KnowledgeEdges s), is_Truncated := True\<rparr>"
    have "\<not> is_TopSignals s \<noteq> []" using edge by simp
    from "1.IH"(2) [OF edge(1) this edge(3)] obtain j where j: "j \<le> items ?s" "shrink b ?s = cand ?s j" "\<forall>i < j. b < estimateTokens (cand ?s i)"
      "estimateTokens (cand ?s j) \<le> b \<or> j = items ?s" by blast
    have "Suc (items ?s) = items s" using edge(3) by (simp add: items_def)
    moreover have "b < estimateTokens (cand s i)" if "i < Suc j" for i
      using j(3) that edge(1) cand_edge [OF edge(2,3)] by (cases i) (auto simp: cand_def)
    moreover have "shrink b s = cand s (Suc j)" using edge j(2) cand_edge [OF edge(2,3), of j] by (simp add: shrink.simps [of b s])
    ultimately show ?thesis using j(1,4) cand_edge [OF edge(2,3), of j] by (intro exI [of _ "Suc j"]) auto
  next
    case none
    then show ?thesis by (intro exI [of _ 0]) (simp add: shrink.simps [of b s] cand_def items_def)
  qed
qed

lemma cand_sub:
  "\<exists>k m. is_TopSignals (cand s j) = take k (is_TopSignals s) \<and> is_KnowledgeEdges (cand s j) = take m (is_KnowledgeEdges s) \<and>
     (m < length (is_KnowledgeEdges s) \<longrightarrow> k = 0)"
proof (cases "j = 0")
  case True
  then show ?thesis by (intro exI [of _ "length (is_TopSignals s)"] exI [of _ "length (is_KnowledgeEdges s)"]) (simp add: cand_def)
next
  case False
  let ?n = "length (is_TopSignals s)" and ?m = "length (is_KnowledgeEdges s)"
  show ?thesis by (rule exI [of _ "?n - j"], rule exI [of _ "?m - (j - ?n)"]) (use False in \<open>auto simp: cand_def Let_def\<close>)
qed

lemma cand_other [simp]: "is_AgentID (cand s j) = is_AgentID s" "is_GeneratedAt (cand s j) = is_GeneratedAt s"
  "is_Truncated (cand s j) = (is_Truncated s \<or> 0 < j)"
  by (auto simp: cand_def Let_def)

lemma estimate_irrelevant [simp]:
  "estimateTokens (s\<lparr>is_SourceWeights := w\<rparr>) = estimateTokens s" "estimateTokens (s\<lparr>is_EstimatedTokens := n\<rparr>) = estimateTokens s"
  by (simp_all add: estimateTokens_def Render_def)

lemma enforceBudget_spec:
  assumes "is_Truncated s = False"
  obtains j where "j \<le> items s" "enforceBudget p cfg s =
      (cand s j)\<lparr>is_SourceWeights := (if j = 0 then is_SourceWeights s else weightsAudit p (is_TopSignals (cand s j))),
                 is_EstimatedTokens := estimateTokens (cand s j)\<rparr>"
    "\<forall>i < j. ac_TokenBudget cfg < estimateTokens (cand s i)" "estimateTokens (cand s j) \<le> ac_TokenBudget cfg \<or> j = items s"
proof -
  from shrink_first_fit [of s "ac_TokenBudget cfg"] obtain j where
    j: "j \<le> items s" "shrink (ac_TokenBudget cfg) s = cand s j" "\<forall>i < j. ac_TokenBudget cfg < estimateTokens (cand s i)"
      "estimateTokens (cand s j) \<le> ac_TokenBudget cfg \<or> j = items s" by blast
  have "enforceBudget p cfg s =
      (cand s j)\<lparr>is_SourceWeights := (if j = 0 then is_SourceWeights s else weightsAudit p (is_TopSignals (cand s j))),
                 is_EstimatedTokens := estimateTokens (cand s j)\<rparr>"
    using j(2) assms by (auto simp: enforceBudget_def Let_def) (simp add: cand_def)
  with j that show ?thesis by blast
qed

section \<open>Properties\<close>

text \<open>
  C30: The accuracy tracker refines its rolling window.  When outcomes of a source arrive in the order of their
  observation and the clock does not go back, a score is computed over exactly the outcomes of that source observed
  inside the window that ends now, however many scores were asked for (and evictions made) in between.
\<close>

theorem tracker_window_exact:
  assumes "sorted (map tr_time xs)" "\<forall>x \<in> set xs. tr_time x \<le> now" "src \<noteq> []"
    "\<forall>s. sorted (map so_ObservedAt (of_source s (tr_outcomes xs)))"
  shows "snd (Score now src (fold tr_step xs (NewAccuracyTracker w))) =
    score_of src (after (now - at_window (NewAccuracyTracker w)) (of_source src (tr_outcomes xs)))"
proof -
  let ?t = "fold tr_step xs (NewAccuracyTracker w)"
  have "tracks now (tr_outcomes xs) ?t" by (rule tracks_run [OF assms(1,4,2)])
  then have "sorted (map so_ObservedAt (obs_of ?t src))" "after (now - at_window ?t) (obs_of ?t src) = after (now - at_window ?t) (of_source src (tr_outcomes xs))"
    using assms(3) by (simp_all add: tracks_def)
  then show ?thesis by (simp add: Score_eq Let_def dropWhile_sorted_after)
qed

definition outcome_at :: "time \<Rightarrow> bool \<Rightarrow> SignalOutcome" where
  "outcome_at t c = \<lparr>so_SourceAgentID = ''n1'', so_SignalType = ''momentum'', so_ObservedAt = t, so_Correct = c\<rparr>"

theorem tracker_window_exact_witness:
  "snd (Score 16 ''n1'' (fold tr_step [TrIngest 8 (outcome_at 5 True), TrScore 9 ''n1'', TrIngest 10 (outcome_at 9 False)] (NewAccuracyTracker 10))) =
     score_of ''n1'' [outcome_at 9 False]"
proof -
  let ?xs = "[TrIngest 8 (outcome_at 5 True), TrScore 9 ''n1'', TrIngest 10 (outcome_at 9 False)]"
  have "snd (Score 16 ''n1'' (fold tr_step ?xs (NewAccuracyTracker 10))) =
    score_of ''n1'' (after (16 - at_window (NewAccuracyTracker 10)) (of_source ''n1'' (tr_outcomes ?xs)))"
    by (rule tracker_window_exact) (auto simp: outcome_at_def of_source_def)
  then show ?thesis by (simp add: after_def of_source_def outcome_at_def NewAccuracyTracker_def)
qed

text \<open>
  The order matters: only the head of a source's list is trimmed, so an outcome that arrives after a more recent
  one stays in the score past its window.
\<close>

lemma tracker_keeps_expired:
  "sa_Observations (snd (Score 16 ''n1'' (Ingest 10 (outcome_at 5 True) (Ingest 10 (outcome_at 9 False) (NewAccuracyTracker 10))))) = 2"
  by (simp add: Score_eq Let_def obs_of_Ingest outcome_at_def at_window_New score_of_def)

text \<open>
  The token budget loop terminates with the first snapshot that fits.  \<^verbatim>\<open>enforceBudget\<close> drops items one at a time,
  the weakest signal first and edges only once no signal is left; it stops after \<open>j\<close> items, where every shorter
  truncation is over budget, and the result is within budget unless nothing is left to drop.  The stored estimate
  is that of the returned text, and the audit list is recomputed for the signals that remain.
\<close>

theorem token_budget_first_fit:
  assumes "is_Truncated s = False"
  shows "\<exists>j \<le> items s.
     enforceBudget p cfg s =
       (cand s j)\<lparr>is_SourceWeights := (if j = 0 then is_SourceWeights s else weightsAudit p (is_TopSignals (cand s j))),
                  is_EstimatedTokens := estimateTokens (cand s j)\<rparr> \<and>
     (\<forall>i < j. ac_TokenBudget cfg < estimateTokens (cand s i)) \<and>
     (estimateTokens (cand s j) \<le> ac_TokenBudget cfg \<or> j = items s)"
  using enforceBudget_spec [OF assms, of p cfg] by metis

definition sample_snapshot :: IntelSnapshot where
  "sample_snapshot = \<lparr>is_AgentID = ''n1'', is_GeneratedAt = 0,
     is_TopSignals = [\<lparr>sd_SourceAgentID = ''n2'', sd_SignalType = ''price'', sd_Sentiment = ''bull'', sd_Chain = ''base'', sd_Confidence = Fin 1,
        sd_SourceAccuracy = Fin 1, sd_Weighted = Fin 1, sd_PublishedAt = 0, sd_Summary = ''up''\<rparr>],
     is_KnowledgeEdges = [\<lparr>eg_EntityA = ''ETH'', eg_Relationship = ''moves'', eg_EntityB = ''SOL'', eg_Direction = DirectionPositive, eg_Strength = Fin 1\<rparr>],
     is_SourceWeights = [], is_EstimatedTokens = 0, is_Truncated = False\<rparr>"

theorem token_budget_first_fit_witness:
  "is_Truncated sample_snapshot = False \<and>
   (\<exists>j \<le> 2. is_TopSignals (enforceBudget (\<lambda>xs. xs) (withDefaults \<lparr>ac_MaxSignals = 0, ac_MaxEdges = 0, ac_TokenBudget = 0, ac_SignalFreshness = 0\<rparr>) sample_snapshot) =
      take (1 - j) (is_TopSignals sample_snapshot))"
proof -
  have n: "items sample_snapshot = 2" by (simp add: items_def sample_snapshot_def)
  have t: "is_Truncated sample_snapshot = False" by (simp add: sample_snapshot_def)
  have take: "is_TopSignals (cand sample_snapshot j) = take (1 - j) (is_TopSignals sample_snapshot)" for j
    by (simp add: cand_def sample_snapshot_def Let_def)
  from token_budget_first_fit [OF t, of "\<lambda>xs. xs" "withDefaults \<lparr>ac_MaxSignals = 0, ac_MaxEdges = 0, ac_TokenBudget = 0, ac_SignalFreshness = 0\<rparr>"]
  obtain j where "j \<le> 2" "enforceBudget (\<lambda>xs. xs) (withDefaults \<lparr>ac_MaxSignals = 0, ac_MaxEdges = 0, ac_TokenBudget = 0, ac_SignalFreshness = 0\<rparr>) sample_snapshot =
     (cand sample_snapshot j)\<lparr>is_SourceWeights := (if j = 0 then is_SourceWeights sample_snapshot else weightsAudit (\<lambda>xs. xs) (is_TopSignals (cand sample_snapshot j))),
        is_EstimatedTokens := estimateTokens (cand sample_snapshot j)\<rparr>"
    unfolding n by blast
  with t show ?thesis by (auto simp: take)
qed

text \<open>
  What a strategist is shown.  For every order in which maps are visited and ties are sorted, the snapshot has at
  most the configured number of signals and edges; no two signals share source and type; each signal is the digest of one
  that was sent on a subscribed channel within the freshness window; each edge is an edge of the graph incident to a focus
  entity; and the text is within the token budget unless it lists nothing at all.
\<close>

theorem intel_snapshot_spec:
  assumes "rearranges (ord_digests ords)" "rearranges (ord_edges ords)" "rearranges (ord_edge_digests ords)" "rearranges p"
    and "Summarize ords (withDefaults c) (Some (feed_Recent p f)) now tnow agentID channels entities acc (Some g) = (acc', snap)"
  shows "int (length (is_TopSignals snap)) \<le> ac_MaxSignals (withDefaults c) \<and> int (length (is_KnowledgeEdges snap)) \<le> ac_MaxEdges (withDefaults c) \<and>
    distinct (map digest_key (is_TopSignals snap)) \<and>
    (\<forall>d \<in> set (is_TopSignals snap). \<exists>ch \<in> set channels. \<exists>s \<in> set (feed_of f ch).
       now - ac_SignalFreshness (withDefaults c) < sg_PublishedAt s \<and> digest_from d s) \<and>
    (\<forall>x \<in> set (is_KnowledgeEdges snap). \<exists>(i, e) \<in> set (kg_edges g). x = edge_digest e \<and> (ed_EntityA e \<in> set entities \<or> ed_EntityB e \<in> set entities)) \<and>
    is_EstimatedTokens snap = estimateTokens snap \<and>
    (estimateTokens snap \<le> ac_TokenBudget (withDefaults c) \<or> is_TopSignals snap = [] \<and> is_KnowledgeEdges snap = [])"
proof -
  let ?c = "withDefaults c" and ?since = "now - ac_SignalFreshness (withDefaults c)"
  have pos: "0 \<le> ac_MaxSignals ?c" "0 \<le> ac_MaxEdges ?c" by (simp_all add: withDefaults_def)
  obtain acc1 sigs where cs: "collectSignals (ord_digests ords) ?c (feed_Recent p f) tnow channels ?since acc = (acc1, sigs)"
    by (cases "collectSignals (ord_digests ords) ?c (feed_Recent p f) tnow channels ?since acc")
  define edges where "edges = collectEdges (ord_edges ords) (ord_edge_digests ords) ?c g entities"
  define s0 where "s0 = \<lparr>is_AgentID = agentID, is_GeneratedAt = now, is_TopSignals = sigs, is_KnowledgeEdges = edges,
     is_SourceWeights = weightsAudit (ord_weights ords) sigs, is_EstimatedTokens = 0, is_Truncated = False\<rparr>"
  define s1 where "s1 = s0\<lparr>is_EstimatedTokens := estimateTokens s0\<rparr>"
  have snap: "snap = enforceBudget (ord_weights ords) ?c s1"
    using assms(5) cs by (simp add: Summarize_def Let_def s1_def s0_def edges_def)
  have s1: "is_Truncated s1 = False" "is_TopSignals s1 = sigs" "is_KnowledgeEdges s1 = edges" by (simp_all add: s1_def s0_def)
  from enforceBudget_spec [OF s1(1), of "ord_weights ords" ?c] obtain j where j: "j \<le> items s1"
    "snap = (cand s1 j)\<lparr>is_SourceWeights := (if j = 0 then is_SourceWeights s1 else weightsAudit (ord_weights ords) (is_TopSignals (cand s1 j))),
                 is_EstimatedTokens := estimateTokens (cand s1 j)\<rparr>"
    "estimateTokens (cand s1 j) \<le> ac_TokenBudget ?c \<or> j = items s1" unfolding snap by blast
  from cand_sub [of s1 j] obtain k m where km: "is_TopSignals snap = take k sigs" "is_KnowledgeEdges snap = take m edges"
    unfolding j(2) s1 by auto
  have sub: "set (take k sigs) \<subseteq> set sigs" "set (take m edges) \<subseteq> set edges" by (rule set_take_subset)+
  note cs_spec = collectSignals_spec [OF assms(1) cs]
  have "length edges \<le> nat (ac_MaxEdges ?c)" unfolding edges_def collectEdges_def using length_truncate [OF pos(2)] by (auto simp: le_nat_iff pos)
  then have n1: "int (length (take m edges)) \<le> ac_MaxEdges ?c" using pos(2) by simp
  have n2: "int (length (take k sigs)) \<le> ac_MaxSignals ?c" using cs_spec(2) [OF pos(1)] by simp
  have d: "distinct (map digest_key (take k sigs))" using cs_spec(1) by (metis distinct_take take_map)
  have fresh: "\<exists>ch \<in> set channels. \<exists>s \<in> set (feed_of f ch). ?since < sg_PublishedAt s \<and> digest_from x s" if "x \<in> set (take k sigs)" for x
    using any_order.in_memory_fresh [OF any_order.intro [OF assms(4)] assms(1) cs] sub(1) that by blast
  have e: "\<exists>(i, y) \<in> set (kg_edges g). x = edge_digest y \<and> (ed_EntityA y \<in> set entities \<or> ed_EntityB y \<in> set entities)" if "x \<in> set (take m edges)" for x
    using collectEdges_spec [OF assms(2,3)] sub(2) that unfolding edges_def by blast
  have b: "estimateTokens snap \<le> ac_TokenBudget ?c \<or> is_TopSignals snap = [] \<and> is_KnowledgeEdges snap = []"
  proof (cases "j = items s1 \<and> j \<noteq> 0")
    case True
    then have "is_TopSignals (cand s1 j) = [] \<and> is_KnowledgeEdges (cand s1 j) = []" by (simp add: cand_def Let_def items_def)
    then show ?thesis by (simp add: j(2))
  next
    case False
    then show ?thesis using j by (auto simp: items_def cand_def)
  qed
  have t: "is_EstimatedTokens snap = estimateTokens snap" by (simp add: j(2))
  show ?thesis using n1 n2 d fresh e b t unfolding km by blast
qed

definition sample_signal :: Signal where
  "sample_signal = \<lparr>sg_SourceAgentID = ''n1'', sg_SignalType = ''breakout'', sg_Sentiment = ''bull'', sg_Chain = ''solana'', sg_TaskType = [],
     sg_Confidence = Fin 1, sg_Data = [], sg_PublishedAt = 99\<rparr>"

definition plain_orders :: sort_orders where
  "plain_orders = \<lparr>ord_digests = \<lambda>xs. xs, ord_edges = \<lambda>xs. xs, ord_edge_digests = \<lambda>xs. xs, ord_weights = \<lambda>xs. xs\<rparr>"

theorem intel_snapshot_spec_witness:
  "let snap = snd (Summarize plain_orders (withDefaults \<lparr>ac_MaxSignals = 3, ac_MaxEdges = 0, ac_TokenBudget = 0, ac_SignalFreshness = 0\<rparr>)
       (Some (feed_Recent rev (feed_Append ''intel:warnings'' sample_signal []))) 100 100 ''n2'' [''intel:warnings''] [''SOL''] None (Some NewKnowledgeGraph))
   in int (length (is_TopSignals snap)) \<le> 3 \<and> (\<forall>d \<in> set (is_TopSignals snap). digest_from d sample_signal)"
proof -
  let ?c = "\<lparr>ac_MaxSignals = 3, ac_MaxEdges = 0, ac_TokenBudget = 0, ac_SignalFreshness = 0\<rparr>"
  let ?f = "feed_Append ''intel:warnings'' sample_signal []"
  have "rearranges (ord_digests plain_orders)" "rearranges (ord_edges plain_orders)" "rearranges (ord_edge_digests plain_orders)"
    by (simp_all add: plain_orders_def)
  from intel_snapshot_spec [OF this rearranges_rev surjective_pairing, of ?c ?f 100 100 "''n2''" "[''intel:warnings'']" "[''SOL'']" None NewKnowledgeGraph]
  show ?thesis by (auto simp: Let_def withDefaults_def feed_Append_def feed_of_def)
qed

end
