(* ===== verification/Bus.thy ===== *)
theory Bus
  imports Intel
begin

text \<open>
  \<^verbatim>\<open>internal/redis/fake.go\<close>, the in-process implementation of the \<^verbatim>\<open>redis.Client\<close> interface, and
  \<^verbatim>\<open>internal/intelligence/bus.go\<close>, the typed bus on top of it.  A Go channel is a bounded buffer; an inbox is
  named by its index.  The calls are taken one at a time: a \<^verbatim>\<open>Publish\<close> that overlaps a \<^verbatim>\<open>detach\<close> (and may then send on a
  closed Go channel) is not modelled.

  What \<^verbatim>\<open>json.Marshal\<close> and \<^verbatim>\<open>json.Unmarshal\<close> make of a signal is a parameter; \<open>codec_ok\<close>
  states what the bus needs of it.
\<close>

section \<open>The in-process redis\<close>

record Message =
  msg_Channel :: string
  msg_Payload :: string

record inbox =
  ib_buf :: "Message list"
  ib_closed :: bool

record FakeRedis =
  fr_kv :: "(string \<times> string \<times> time) list"
  fr_subs :: "(string \<times> nat list) list"
  fr_inboxes :: "inbox list"
  fr_closed :: bool











definition fr_Set :: "time \<Rightarrow> string \<Rightarrow> string \<Rightarrow> duration \<Rightarrow> FakeRedis \<Rightarrow> FakeRedis \<times> unit result" where
  "fr_Set now key value ttl f =
     (if fr_closed f then (f, Fail ''redis(fake): closed'')
      else (f\<lparr>fr_kv := AList.update key (value, if 0 < ttl then now + ttl else zero_time) (fr_kv f)\<rparr>, Ok ()))"

definition fr_Get :: "time \<Rightarrow> string \<Rightarrow> FakeRedis \<Rightarrow> FakeRedis \<times> (string \<times> bool) result" where
  "fr_Get now key f =
     (if fr_closed f then (f, Fail ''redis(fake): closed'')
      else case map_of (fr_kv f) key of
        None \<Rightarrow> (f, Ok ([], False))
      | Some (v, expiresAt) \<Rightarrow>
          if expiresAt \<noteq> zero_time \<and> expiresAt < now then (f\<lparr>fr_kv := AList.delete key (fr_kv f)\<rparr>, Ok ([], False))
          else (f, Ok (v, True)))"

definition fr_Close :: "FakeRedis \<Rightarrow> FakeRedis" where "fr_Close f = f\<lparr>fr_closed := True\<rparr>"

section \<open>The bus\<close>

definition ChannelSignalsPrefix :: string where "ChannelSignalsPrefix = ''intel:signals:''"
definition ChannelStrategiesPrefix :: string where "ChannelStrategiesPrefix = ''intel:strategies:''"
definition ChannelWarnings :: string where "ChannelWarnings = ''intel:warnings''"
definition ChannelLiquidationsPrefix :: string where "ChannelLiquidationsPrefix = ''intel:liquidations:''"
definition ChannelYieldsPrefix :: string where "ChannelYieldsPrefix = ''intel:yields:''"


definition StrategiesChannel :: "string \<Rightarrow> string" where "StrategiesChannel taskType = ChannelStrategiesPrefix @ taskType"
definition LiquidationsChannel :: "string \<Rightarrow> string" where "LiquidationsChannel chain = ChannelLiquidationsPrefix @ chain"
definition YieldsChannel :: "string \<Rightarrow> string" where "YieldsChannel chain = ChannelYieldsPrefix @ chain"

definition validateSignal :: "string \<Rightarrow> Signal \<Rightarrow> unit result" where
  "validateSignal channel sig =
     (if sg_SourceAgentID sig = [] then Fail ''intelbus: source_agent_id required''
      else if sg_SignalType sig = [] then Fail ''intelbus: signal_type required''
      else if flt (sg_Confidence sig) (Fin 0) \<or> flt (Fin 1) (sg_Confidence sig) then Fail ''intelbus: confidence out of [0,1]''
      else if HasPrefix channel ChannelSignalsPrefix then
        (if \<not> Sentiment_Valid (sg_Sentiment sig) \<or> sg_Sentiment sig = [] then Fail ''intelbus: signals channel requires bull/bear/neutral sentiment''
         else let parts = Split (CHR '':'') (TrimPrefix channel ChannelSignalsPrefix) in
           if length parts \<noteq> 2 \<or> parts ! 0 = [] then Fail ''intelbus: signals channel must be intel:signals:{chain}:{sentiment}''
           else if parts ! 1 \<noteq> sg_Sentiment sig then Fail ''intelbus: channel sentiment does not match signal sentiment''
           else Ok ())
      else if sg_Sentiment sig \<noteq> [] \<and> \<not> Sentiment_Valid (sg_Sentiment sig) then Fail ''intelbus: unknown sentiment''
      else Ok ())"









section \<open>Channel names\<close>

lemma sentiment_no_colon: "Sentiment_Valid s \<Longrightarrow> CHR '':'' \<notin> set s \<and> s \<noteq> []"
  by (auto simp: Sentiment_Valid_def SentimentBull_def SentimentBear_def SentimentNeutral_def)




lemma validate_published [simp]: "validateSignal ch (sig\<lparr>sg_PublishedAt := t\<rparr>) = validateSignal ch sig"
  by (simp add: validateSignal_def Let_def)

section \<open>Runs of the bus\<close>


















section \<open>Codec\<close>









section \<open>Properties\<close>



end
