(* ===== verification/FSqrt.thy ===== *)
theory FSqrt
  imports GoTime
begin

text \<open>
  \<^verbatim>\<open>math.Sqrt\<close>: the correctly rounded square root.  The argument is scaled so that its integer square root has more
  than sixty bits; the root, with a sticky half unit when it is not exact, rounds to the same number as the
  real square root does.
\<close>

function isqrt :: "int \<Rightarrow> int" where
  "isqrt n = (if n \<le> 0 then 0 else let s = 2 * isqrt (n div 4) in if (s + 1) * (s + 1) \<le> n then s + 1 else s)"
  by pat_completeness auto
termination
  by (relation "measure nat") auto

declare isqrt.simps [simp del]

lemma isqrt_bounds: "0 \<le> n \<Longrightarrow> 0 \<le> isqrt n \<and> isqrt n * isqrt n \<le> n \<and> n < (isqrt n + 1) * (isqrt n + 1)"
proof (induction n rule: isqrt.induct)
  case (1 n)
  show ?case
  proof (cases "n = 0")
    case True
    then show ?thesis by (simp add: isqrt.simps)
  next
    case False
    define t where "t = isqrt (n div 4)"
    have t: "0 \<le> t" "t * t \<le> n div 4" "n div 4 < (t + 1) * (t + 1)"
      using 1 False by (auto simp: t_def)
    then have "4 * (t * t) \<le> n" "n < 4 * ((t + 1) * (t + 1))" by linarith+
    then have b: "2 * t * (2 * t) \<le> n" "n < (2 * t + 2) * (2 * t + 2)" by (simp_all add: algebra_simps)
    have "isqrt n = (if (2 * t + 1) * (2 * t + 1) \<le> n then 2 * t + 1 else 2 * t)"
      using 1 False by (simp add: isqrt.simps [of n] t_def Let_def)
    with b t(1) show ?thesis by (auto simp: algebra_simps)
  qed
qed

definition sqrt_exp :: "rat \<Rightarrow> int" where "sqrt_exp r = ilog2 r div 2 - 60"

definition sqrt_int :: "rat \<Rightarrow> int" where "sqrt_int r = isqrt \<lfloor>r / 2 powi (2 * sqrt_exp r)\<rfloor>"

definition sqrt_approx :: "rat \<Rightarrow> rat" where
  "sqrt_approx r = (let e = sqrt_exp r; n = sqrt_int r in
     if of_int (n * n) * 2 powi (2 * e) = r then of_int n * 2 powi e else (of_int n + 1 / 2) * 2 powi e)"

fun fsqrt :: "f64 \<Rightarrow> f64" where
  "fsqrt NaN = NaN"
| "fsqrt PInf = PInf"
| "fsqrt NInf = NaN"
| "fsqrt NegZero = NegZero"
| "fsqrt (Fin r) = (if r < 0 then NaN else if r = 0 then Fin 0 else rnd (sqrt_approx r))"

lemma is_f64_fsqrt: "is_f64 x \<Longrightarrow> is_f64 (fsqrt x)"
  by (cases x) (auto simp: is_f64_Fin)

lemma powi_double: "(2::rat) powi (2 * e) = 2 powi e * 2 powi e"
  using power_int_add [of "2::rat" e e] by simp

lemma sqrt_floor_bounds:
  assumes "0 < r"
  shows "2 ^ 60 \<le> sqrt_int r" "of_int (sqrt_int r) * 2 powi (sqrt_exp r) * (of_int (sqrt_int r) * 2 powi (sqrt_exp r)) \<le> r"
    "r < (of_int (sqrt_int r) + 1) * 2 powi (sqrt_exp r) * ((of_int (sqrt_int r) + 1) * 2 powi (sqrt_exp r))"
proof -
  let ?e = "sqrt_exp r" let ?q = "\<lfloor>r / 2 powi (2 * ?e)\<rfloor>" let ?n = "isqrt ?q" let ?p = "(2::rat) powi ?e"
  have p: "0 < ?p" by simp
  have "(2::rat) ^ 120 \<le> 2 powi (ilog2 r - 2 * ?e)"
    using powi2_mono [of 120 "ilog2 r - 2 * ?e"] by (simp add: sqrt_exp_def)
  also have "\<dots> = 2 powi (ilog2 r) / 2 powi (2 * ?e)" by (simp add: power_int_diff)
  also have "\<dots> \<le> r / 2 powi (2 * ?e)" using ilog2_bounds [OF assms] by (simp add: divide_right_mono)
  finally have q: "2 ^ 120 \<le> ?q" by (simp add: le_floor_iff)
  then have n: "0 \<le> ?n" "?n * ?n \<le> ?q" "?q < (?n + 1) * (?n + 1)" using isqrt_bounds [of ?q] by auto
  show "2 ^ 60 \<le> sqrt_int r"
  proof (rule ccontr)
    assume "\<not> 2 ^ 60 \<le> sqrt_int r"
    then have "?n + 1 \<le> 2 ^ 60" by (simp add: sqrt_int_def)
    then have "(?n + 1) * (?n + 1) \<le> 2 ^ 60 * 2 ^ 60" using n(1) by (intro mult_mono) auto
    also have "(2::int) ^ 60 * 2 ^ 60 = 2 ^ 120" by simp
    finally show False using q n(3) by linarith
  qed
  have "(of_int (?n * ?n) :: rat) \<le> of_int ?q" using n(2) by (simp only: of_int_le_iff)
  also have "\<dots> \<le> r / 2 powi (2 * ?e)" by simp
  finally have "of_int (?n * ?n) * (?p * ?p) \<le> r" by (simp add: powi_double pos_le_divide_eq)
  then show "of_int (sqrt_int r) * 2 powi (sqrt_exp r) * (of_int (sqrt_int r) * 2 powi (sqrt_exp r)) \<le> r"
    by (simp add: sqrt_int_def mult.assoc mult.left_commute)
  have "r / 2 powi (2 * ?e) < of_int (?q + 1)" by (rule floor_less_iff [THEN iffD1]) simp
  also have "\<dots> \<le> (of_int ((?n + 1) * (?n + 1)) :: rat)" using n(3) by (simp only: of_int_le_iff)
  finally have "r < of_int ((?n + 1) * (?n + 1)) * (?p * ?p)" by (simp add: powi_double pos_divide_less_eq)
  then show "r < (of_int (sqrt_int r) + 1) * 2 powi (sqrt_exp r) * ((of_int (sqrt_int r) + 1) * 2 powi (sqrt_exp r))"
    by (simp add: sqrt_int_def mult.assoc mult.left_commute)
qed

text \<open>A sticky half unit does not overtake a strictly larger number when rounding to an integer.\<close>

lemma rhe_sticky:
  assumes a: "a = of_int m / 2 ^ Suc j" and b: "a < b"
  shows "rhe (a + 1 / 2 ^ Suc (Suc j)) \<le> rhe b"
proof -
  let ?J = "(2::int) ^ Suc j" let ?f = "m div ?J" and ?d = "m mod ?J"
  have J: "(2::rat) ^ Suc j = of_int ?J" "0 < ?J" by simp_all
  have m: "m = ?J * ?f + ?d" "0 \<le> ?d" "?d < ?J" by simp_all
  have am: "a = of_int ?f + of_int ?d / of_int ?J"
  proof -
    have "(of_int m :: rat) = of_int ?J * of_int ?f + of_int ?d" by (metis m(1) of_int_add of_int_mult)
    then show ?thesis unfolding a J(1) using J(2) by (simp add: add_divide_distrib del: of_int_power)
  qed
  have half: "of_int (2 ^ j) / (of_int ?J :: rat) = 1 / 2" by simp
  show ?thesis
  proof (cases "?d < 2 ^ j")
    case True
    then have "(of_int (2 * ?d + 2) :: rat) \<le> of_int ?J" by (simp only: of_int_le_iff) simp
    then have "of_int ?d / of_int ?J + 1 / (2 * of_int ?J) < (1 / 2 :: rat)" using J(2)
      by (simp add: field_simps del: of_int_power power_Suc)
    moreover have "1 / (2::rat) ^ Suc (Suc j) = 1 / (2 * of_int ?J)" by simp
    ultimately have up: "a + 1 / 2 ^ Suc (Suc j) < of_int ?f + 1 / 2" unfolding am by linarith
    have lo: "of_int ?f \<le> a" unfolding am using m(2) J(2) by (simp add: divide_nonneg_pos del: of_int_power)
    have "rhe (a + 1 / 2 ^ Suc (Suc j)) \<le> ?f"
    proof -
      have "\<lfloor>a + 1 / 2 ^ Suc (Suc j)\<rfloor> = ?f" using lo up by (simp add: floor_eq_iff add_increasing2)
      with up show ?thesis by (simp add: rhe_def Let_def)
    qed
    also have "?f \<le> rhe b" using lo b by (intro rhe_ge_int) linarith
    finally show ?thesis .
  next
    case False
    then have "(of_int (2 ^ j) :: rat) \<le> of_int ?d" by (simp only: of_int_le_iff)
    then have "of_int (2 ^ j) / (of_int ?J :: rat) \<le> of_int ?d / of_int ?J" using J(2) by (intro divide_right_mono) simp_all
    then have lo: "of_int ?f + 1 / 2 \<le> a" unfolding am half by linarith
    have "rhe (a + 1 / 2 ^ Suc (Suc j)) \<le> ?f + 1"
    proof (rule rhe_le_int)
      have "(of_int (2 * ?d + 2) :: rat) \<le> of_int (2 * ?J)" using m(3) by (simp only: of_int_le_iff)
      then have "of_int ?d / of_int ?J + 1 / (2 * of_int ?J) \<le> (1 :: rat)" using J(2)
        by (simp add: field_simps del: of_int_power power_Suc)
      moreover have "1 / (2::rat) ^ Suc (Suc j) = 1 / (2 * of_int ?J)" by simp
      ultimately show "a + 1 / 2 ^ Suc (Suc j) \<le> of_int (?f + 1)" unfolding am by simp
    qed
    also have "?f + 1 \<le> rhe b"
    proof (cases "of_int (?f + 1) \<le> b")
      case True
      then show ?thesis by (rule rhe_ge_int)
    next
      case False
      then have "\<lfloor>b\<rfloor> = ?f" using lo b by (simp add: floor_eq_iff)
      then show ?thesis using lo b by (simp add: rhe_def Let_def)
    qed
    finally show ?thesis .
  qed
qed

lemma powi2_nat: "(2::rat) powi (int n) = 2 ^ n"
  by simp

text \<open>The arithmetic-geometric mean inequality survives rounding.\<close>

lemma double_sqrt_le:
  assumes r: "2 powi - 1074 \<le> r"
  shows "2 * rmag (sqrt_approx r) \<le> rmag (1 + r)"
proof -
  define e n v where "e = sqrt_exp r" and "n = sqrt_int r" and "v = sqrt_approx r"
  define w where "w = (of_int n :: rat) * 2 powi e"
  define k where "k = ilog2 w"
  have r0: "0 < r" using r by (meson less_le_trans powi2_pos)
  note sb = sqrt_floor_bounds [OF r0, folded e_def n_def]
  have n: "(2::rat) ^ 60 \<le> of_int n" using sb(1) by (metis of_int_le_iff of_int_numeral of_int_power)
  have w0: "0 < w" unfolding w_def using n by (intro mult_pos_pos) (auto intro: less_le_trans [of 0 "2 ^ 60"])
  have ww: "w * w \<le> r" using sb(2) by (simp add: w_def)
  have v: "v = (if w * w = r then w else w + 2 powi e / 2)"
  proof -
    have "of_int (n * n) * 2 powi (2 * e) = w * w" by (simp add: w_def powi_double)
    moreover have "(of_int n + 1 / 2) * 2 powi e = w + 2 powi e / 2" by (simp add: w_def algebra_simps)
    ultimately show ?thesis by (simp only: v_def sqrt_approx_def e_def [symmetric] n_def [symmetric] Let_def w_def [symmetric])
  qed
  have x: "2 * w \<le> 1 + w * w"
  proof -
    have "0 \<le> (1 - w) * (1 - w)" by simp
    then show ?thesis by (simp add: algebra_simps)
  qed
  have kb: "2 powi k \<le> w" "w < 2 powi (k + 1)" using ilog2_bounds [OF w0] by (auto simp: k_def)
  have ke: "60 + e \<le> k"
  proof -
    have "(2::rat) powi (60 + e) = 2 ^ 60 * 2 powi e" by (simp add: power_int_add)
    also have "\<dots> \<le> w" unfolding w_def using n by (intro mult_right_mono) (auto simp: less_imp_le)
    also have "\<dots> < 2 powi (k + 1)" by (rule kb(2))
    finally have "60 + e < k + 1" by (simp only: powi2_less_iff)
    then show ?thesis by simp
  qed
  have vb: "w \<le> v" "v < 2 powi (k + 1)"
  proof -
    show "w \<le> v" unfolding v by (simp add: less_imp_le)
    have "(of_int n :: rat) < 2 powi (k + 1) / 2 powi e" using kb(2) unfolding w_def by (simp add: pos_less_divide_eq)
    also have "\<dots> = of_int (2 ^ nat (k + 1 - e))" using ke by (intro powi2_quotient) simp
    finally have "n + 1 \<le> 2 ^ nat (k + 1 - e)" by (simp only: of_int_less_iff zless_imp_add1_zle)
    then have "(of_int (n + 1) :: rat) \<le> of_int (2 ^ nat (k + 1 - e))" by (simp only: of_int_le_iff)
    also have "\<dots> = 2 powi (k + 1) / 2 powi e" using ke by (intro powi2_quotient [symmetric]) simp
    finally have "w + 2 powi e \<le> 2 powi (k + 1)" unfolding w_def by (simp add: pos_le_divide_eq algebra_simps)
    moreover have "v < w + 2 powi e" unfolding v using powi2_pos [of e] by (simp del: powi2_pos)
    ultimately show "v < 2 powi (k + 1)" by linarith
  qed
  have iv: "ilog2 v = k" using vb kb(1) by (intro ilog2_eq) auto
  have kmin: "- 540 \<le> k"
  proof (rule ccontr)
    assume "\<not> - 540 \<le> k"
    then have "(2::rat) powi (k + 1) \<le> 2 powi - 540" by (intro powi2_mono) simp
    then have "w + 2 powi e \<le> 2 powi - 540 + 2 powi - 600" using kb(2) ke \<open>\<not> - 540 \<le> k\<close> powi2_mono [of e "- 600"] by linarith
    also have "\<dots> \<le> 2 powi - 539"
      using powi2_mono [of "- 600" "- 540"] powi2_Suc [of "- 540"] by simp
    finally have "(w + 2 powi e) * (w + 2 powi e) \<le> 2 powi - 539 * 2 powi - 539" using w0 by (intro mult_mono) (auto simp: less_imp_le)
    also have "\<dots> = 2 powi - 1078" by (simp flip: power_int_add)
    also have "\<dots> < 2 powi - 1074" by (simp only: powi2_less_iff)
    finally show False using r sb(3) by (simp add: w_def algebra_simps)
  qed
  have fv: "fexp v = k - 52" using iv kmin by (simp add: fexp_def)
  show ?thesis
  proof (cases "ilog2 (1 + r) \<le> k + 1")
    case False
    have x0: "0 < 1 + r" using r0 by simp
    have "rmag v \<le> 2 powi (k + 1)" by (rule rmag_le_powi) (use w0 vb fv in auto)
    then have "2 * rmag v \<le> 2 powi (k + 2)" using powi2_Suc [of "k + 1"] by (simp add: add.commute)
    also have "\<dots> \<le> 2 powi (ilog2 (1 + r))" using False by (intro powi2_mono) simp
    also have "\<dots> \<le> rmag (1 + r)"
      by (rule rmag_ge_powi [OF x0]) (use ilog2_bounds [OF x0] False kmin in \<open>auto simp: fexp_def\<close>)
    finally show ?thesis by (simp add: v_def)
  next
    case True
    let ?E = "k - 52"
    define j where "j = nat (?E - e - 1)"
    have j: "?E - e = int (Suc j)" using ke by (simp add: j_def)
    have k1: "ilog2 (1 + r) = k + 1"
    proof -
      have "(2::rat) powi (k + 1) \<le> 1 + r" using powi2_Suc [of k] kb(1) x ww by linarith
      then have "k + 1 \<le> ilog2 (1 + r)" using ilog2_mono [of "2 powi (k + 1)" "1 + r"] ilog2_eq [of "k + 1" "2 powi (k + 1)"] by simp
      with True show ?thesis by simp
    qed
    then have fx: "fexp (1 + r) = ?E + 1" using kmin by (simp add: fexp_def)
    have a0: "w / 2 powi ?E = of_int n / 2 ^ Suc j"
    proof -
      have "(2::rat) powi ?E = 2 powi e * 2 ^ Suc j" using j by (metis add.commute diff_add_cancel power_int_add powi2_nat zero_neq_numeral)
      then show ?thesis by (simp add: w_def)
    qed
    have b: "(1 + r) / 2 powi (?E + 1) = (1 + r) / 2 / 2 powi ?E" using powi2_Suc [of ?E] by simp
    have "rhe (v / 2 powi ?E) \<le> rhe ((1 + r) / 2 powi (?E + 1))"
    proof (cases "w * w = r")
      case True
      then have "v / 2 powi ?E \<le> (1 + r) / 2 / 2 powi ?E" using x v by (intro divide_right_mono) (auto simp: less_imp_le)
      then show ?thesis unfolding b by (rule rhe_mono)
    next
      case False
      with ww have "w * w < r" by simp
      with x have "w < (1 + r) / 2" by simp
      then have lt: "w / 2 powi ?E < (1 + r) / 2 / 2 powi ?E" by (intro divide_strict_right_mono) simp_all
      have "v / 2 powi ?E = w / 2 powi ?E + 1 / 2 ^ Suc (Suc j)"
      proof -
        have "(2::rat) powi ?E = 2 powi e * 2 ^ Suc j" using j by (metis add.commute diff_add_cancel power_int_add powi2_nat zero_neq_numeral)
        then show ?thesis using False unfolding v by (simp add: add_divide_distrib)
      qed
      then show ?thesis using rhe_sticky [OF a0 lt] unfolding b by simp
    qed
    then have "(of_int (rhe (v / 2 powi ?E)) :: rat) \<le> of_int (rhe ((1 + r) / 2 powi (?E + 1)))" by (simp only: of_int_le_iff)
    then have "of_int (rhe (v / 2 powi ?E)) * (2::rat) powi (?E + 1) \<le> of_int (rhe ((1 + r) / 2 powi (?E + 1))) * 2 powi (?E + 1)"
      by (rule mult_right_mono) (simp add: less_imp_le)
    then have "2 * rmag v \<le> rmag (1 + r)" unfolding rmag_def fv fx using powi2_Suc [of ?E] by (simp add: mult.assoc mult.left_commute)
    then show ?thesis by (simp add: v_def)
  qed
qed

lemma f64_min_pos: "is_f64 (Fin r) \<Longrightarrow> 0 < r \<Longrightarrow> 2 powi - 1074 \<le> r"
proof -
  assume r: "is_f64 (Fin r)" "0 < r"
  then have v: "rmag r = r" "0 < rmag r" by (auto simp: is_f64_def rnd_def Let_def split: if_splits)
  obtain k e where ke: "0 \<le> k" "- 1074 \<le> e" "rmag r = of_int k * 2 powi e" using rmag_form [of r] r(2) by (metis less_imp_le)
  with v have "1 \<le> k" by (metis less_le mult_zero_left of_int_0 zless_imp_add1_zle add_0)
  then have "(1::rat) \<le> of_int k" by simp
  then have "1 * 2 powi e \<le> (of_int k :: rat) * 2 powi e" by (intro mult_right_mono) (auto simp: less_imp_le)
  moreover have "(2::rat) powi - 1074 \<le> 2 powi e" using ke(2) by (rule powi2_mono)
  ultimately show ?thesis using ke(3) v(1) by (metis mult_1 order_trans)
qed

lemma sqrt_approx_pos: "0 < r \<Longrightarrow> 0 < sqrt_approx r"
  using sqrt_floor_bounds(1) [of r] by (auto simp: sqrt_approx_def Let_def intro!: mult_pos_pos add_pos_pos)

lemma fsqrt_nonneg: "is_fin x \<Longrightarrow> fle (Fin 0) x \<Longrightarrow> fle (Fin 0) (fsqrt x)"
proof (cases x)
  case (Fin r)
  assume "fle (Fin 0) x"
  then have "0 \<le> r" using Fin by (simp add: fle_fin)
  then show ?thesis using Fin sqrt_approx_pos [of r] by (auto intro: rnd_nonneg simp: less_imp_le)
qed (auto simp: fle_def)

lemma fsqrt_double_le:
  assumes "is_f64 x" "is_fin x" "flt (Fin 0) x" "is_fin (fadd (Fin 1) x)"
  shows "is_fin (fsqrt x) \<and> 2 * fval (fsqrt x) \<le> fval (fadd (Fin 1) x)"
proof -
  obtain r where r: "x = Fin r" "0 < r" using assms(2,3) by (cases x) (auto simp: flt_fin)
  have le: "2 * rmag (sqrt_approx r) \<le> rmag (1 + r)"
    by (rule double_sqrt_le [OF f64_min_pos]) (use assms(1) r in auto)
  have add: "fadd (Fin 1) x = rnd (1 + r)" using r by (simp add: fadd_def Let_def)
  with assms(4) have ov: "rmag (1 + r) < overflow" "fval (rnd (1 + r)) = rmag (1 + r)" using r(2) rmag_nonneg [of "1 + r"]
    by (auto simp: rnd_def Let_def split: if_splits)
  have "0 \<le> rmag (sqrt_approx r)" using sqrt_approx_pos [OF r(2)] by (intro rmag_nonneg) simp
  with le ov(1) have "rmag (sqrt_approx r) < overflow" by linarith
  then have "is_fin (rnd (sqrt_approx r))" "fval (rnd (sqrt_approx r)) = rmag (sqrt_approx r)"
    using sqrt_approx_pos [OF r(2)] by (auto simp: rnd_def Let_def)
  with le ov(2) r(1,2) show ?thesis unfolding add by simp
qed

end
