(* ===== verification/TaskUtil.thy ===== *)
theory TaskUtil
  imports TaskCore FSqrt
begin

text \<open>
  What the four strategies of \<^verbatim>\<open>internal/agent/tasks\<close> share: the clamps, the conversion of strategist values, the
  splitting of token pairs, the polling throttle, and the loop of \<^verbatim>\<open>ApplyAdjustments\<close>.  The loop is an
  interface: a task supplies what one key does, the locale shows that whatever one key preserves is preserved by
  a whole adjustment, also when it stops at a value of the wrong type.
\<close>

definition tasks_clampFloat :: "f64 \<Rightarrow> f64 \<Rightarrow> f64 \<Rightarrow> f64" where
  "tasks_clampFloat v lo hi = (if flt v lo then lo else if flt hi v then hi else v)"

definition clampInt :: "int \<Rightarrow> int \<Rightarrow> int \<Rightarrow> int" where
  "clampInt v lo hi = (if v < lo then lo else if hi < v then hi else v)"

definition toFloat :: "adjustment \<Rightarrow> f64 option" where
  "toFloat v = (case v of AdjFloat x \<Rightarrow> Some x | AdjJson (JsNum s) \<Rightarrow> number_float s | AdjJson _ \<Rightarrow> None)"

definition toBool :: "adjustment \<Rightarrow> bool option" where
  "toBool v = (case v of AdjJson (JsBool b) \<Rightarrow> Some b | _ \<Rightarrow> None)"

text \<open>\<^verbatim>\<open>strings.Index\<close> of a one-byte separator.\<close>

fun index_of :: "char \<Rightarrow> string \<Rightarrow> nat option" where
  "index_of c [] = None"
| "index_of c (x # xs) = (if x = c then Some 0 else map_option Suc (index_of c xs))"

fun split_at_first :: "char list \<Rightarrow> string \<Rightarrow> (string \<times> string) option" where
  "split_at_first [] pair = None"
| "split_at_first (sep # seps) pair =
     (case index_of sep pair of
        Some i \<Rightarrow> if 0 < i \<and> i < length pair - 1 then Some (ToUpper (take i pair), ToUpper (drop (i + 1) pair))
                  else split_at_first seps pair
      | None \<Rightarrow> split_at_first seps pair)"

definition splitTokenPair :: "string \<Rightarrow> (string \<times> string) result" where
  "splitTokenPair pair =
     (case split_at_first [CHR ''/'', CHR ''-'', CHR '':''] pair of
        Some ab \<Rightarrow> Ok ab | None \<Rightarrow> Fail ''liquidity_provision: token_pair must look like TOKEN_A/TOKEN_B'')"

text \<open>The polling throttle: too early since the last check.\<close>

definition secs_duration :: "(f64 \<Rightarrow> int) \<Rightarrow> f64 \<Rightarrow> duration" where
  "secs_duration oob secs = f64_to_int oob (fmul secs (f64_of_int Second))"

definition throttled :: "(f64 \<Rightarrow> int) \<Rightarrow> f64 \<Rightarrow> time \<Rightarrow> time \<Rightarrow> bool" where
  "throttled oob secs lastCheck now \<longleftrightarrow> lastCheck \<noteq> zero_time \<and> time_sub now lastCheck < secs_duration oob secs"

type_synonym quoter = "string \<Rightarrow> string \<Rightarrow> f64 \<Rightarrow> Quote result"

text \<open>A chain that quotes one price.\<close>

definition flat_quote :: "f64 \<Rightarrow> quoter" where
  "flat_quote p a b amt = Ok \<lparr>qt_Chain = ''base'', qt_DEX = ''dex'', qt_TokenIn = a, qt_TokenOut = b, qt_AmountIn = amt, qt_AmountOut = p, qt_Price = p,
     qt_PriceImpact = Fin 0, qt_FeeAmount = Fin 0, qt_SlippageBps = 0, qt_GeneratedAt = 0, qt_RouteRaw = []\<rparr>"

text \<open>\<^verbatim>\<open>math.Abs\<close>.\<close>

fun math_Abs :: "f64 \<Rightarrow> f64" where
  "math_Abs NaN = NaN"
| "math_Abs PInf = PInf"
| "math_Abs NInf = PInf"
| "math_Abs NegZero = Fin 0"
| "math_Abs (Fin r) = Fin \<bar>r\<bar>"

text \<open>A zero field takes its default; a field outside its envelope is refused.\<close>

definition default_f :: "f64 \<Rightarrow> f64 \<Rightarrow> f64" where
  "default_f v d = (if feq v (Fin 0) then d else v)"

definition outside :: "f64 \<Rightarrow> f64 \<Rightarrow> f64 \<Rightarrow> bool" where
  "outside lo hi v \<longleftrightarrow> flt v lo \<or> flt hi v"

definition log_of :: "'t list result \<Rightarrow> 't list" where
  "log_of r = (case r of Inl e \<Rightarrow> [] | Inr ts \<Rightarrow> ts)"

lemma index_of_Some: "index_of c s = Some i \<Longrightarrow> i < length s \<and> s ! i = c \<and> c \<notin> set (take i s)"
  by (induction s arbitrary: i) (auto split: if_splits)

lemma index_of_append: "c \<notin> set a \<Longrightarrow> index_of c (a @ c # b) = Some (length a)"
  by (induction a) auto

text \<open>A pair of two non-empty names around a slash splits into the two names, in upper case.\<close>

lemma splitTokenPair_slash:
  "a \<noteq> [] \<Longrightarrow> b \<noteq> [] \<Longrightarrow> CHR ''/'' \<notin> set a \<Longrightarrow> splitTokenPair (a @ CHR ''/'' # b) = Ok (ToUpper a, ToUpper b)"
  by (simp add: splitTokenPair_def index_of_append)

lemma split_at_first_parts:
  "split_at_first seps pair = Some (x, y) \<Longrightarrow> \<exists>a b sep. sep \<in> set seps \<and> pair = a @ sep # b \<and> a \<noteq> [] \<and> b \<noteq> [] \<and> x = ToUpper a \<and> y = ToUpper b"
proof (induction seps pair rule: split_at_first.induct)
  case (2 sep seps pair)
  show ?case
  proof (cases "\<exists>i. index_of sep pair = Some i \<and> 0 < i \<and> i < length pair - 1")
    case True
    then obtain i where i: "index_of sep pair = Some i" "0 < i" "i < length pair - 1" by blast
    then have "pair = take i pair @ sep # drop (i + 1) pair" using index_of_Some [OF i(1)] id_take_nth_drop [of i pair] by simp
    moreover have "take i pair \<noteq> []" "drop (i + 1) pair \<noteq> []" using i by auto
    moreover have "x = ToUpper (take i pair)" "y = ToUpper (drop (i + 1) pair)" using 2 i by auto
    ultimately show ?thesis by (metis list.set_intros(1))
  next
    case False
    then have "split_at_first (sep # seps) pair = split_at_first seps pair" by (auto split: option.splits)
    with 2 False show ?thesis by (cases "index_of sep pair") (auto split: if_splits)
  qed
qed simp

section \<open>Envelopes\<close>

definition in_range :: "f64 \<Rightarrow> f64 \<Rightarrow> f64 \<Rightarrow> bool" where
  "in_range lo hi v \<longleftrightarrow> fle lo v \<and> fle v hi"

lemma clamp_in_range: "\<not> is_nan v \<Longrightarrow> \<not> is_nan lo \<Longrightarrow> \<not> is_nan hi \<Longrightarrow> fle lo hi \<Longrightarrow> in_range lo hi (tasks_clampFloat v lo hi)"
  by (auto simp: tasks_clampFloat_def in_range_def flt_not_fle dest: flt_imp_fle)

lemma not_out_of_range: "\<not> is_nan v \<Longrightarrow> \<not> is_nan lo \<Longrightarrow> \<not> is_nan hi \<Longrightarrow> \<not> flt v lo \<Longrightarrow> \<not> flt hi v \<Longrightarrow> in_range lo hi v"
  by (simp add: in_range_def flt_not_fle)

lemma clampInt_range: "lo \<le> hi \<Longrightarrow> lo \<le> clampInt v lo hi \<and> clampInt v lo hi \<le> hi"
  by (simp add: clampInt_def)

lemma rnd_mono_range: "a \<le> b \<Longrightarrow> \<not> is_nan (rnd a) \<and> \<not> is_nan (rnd b) \<and> fle (rnd a) (rnd b)"
  using rnd_mono fle_nan by blast

lemma not_outside: "\<not> outside lo hi v \<Longrightarrow> \<not> is_nan v \<Longrightarrow> \<not> is_nan lo \<Longrightarrow> \<not> is_nan hi \<Longrightarrow> in_range lo hi v"
  by (simp add: outside_def not_out_of_range)

lemma clamp_rnd: "\<not> is_nan v \<Longrightarrow> a \<le> b \<Longrightarrow> in_range (rnd a) (rnd b) (tasks_clampFloat v (rnd a) (rnd b))"
  using rnd_mono_range [of a b] by (blast intro: clamp_in_range)

lemma f64_to_int_range:
  assumes "in_range (Fin (of_int a)) (Fin (of_int b)) x" "is_int64 a" "is_int64 b"
  shows "a \<le> f64_to_int oob x \<and> f64_to_int oob x \<le> b"
proof -
  have fin: "is_fin x" using assms(1) fle_between_fin [of "Fin (of_int a)" x "Fin (of_int b)"] by (simp add: in_range_def)
  then have v: "of_int a \<le> fval x" "fval x \<le> of_int b" using assms(1) by (auto simp: in_range_def fle_fin)
  have "a \<le> rtrunc (fval x) \<and> rtrunc (fval x) \<le> b"
  proof (cases "fval x < 0")
    case True
    have "a \<le> - \<lfloor>- fval x\<rfloor>" using v(1) by linarith
    moreover have "- \<lfloor>- fval x\<rfloor> \<le> b" using v(2) by linarith
    ultimately show ?thesis using True by (simp add: rtrunc_def)
  next
    case False
    have "a \<le> \<lfloor>fval x\<rfloor>" using v(1) by (simp add: le_floor_iff)
    moreover have "\<lfloor>fval x\<rfloor> \<le> b" using v(2) by linarith
    ultimately show ?thesis using False by (simp add: rtrunc_def)
  qed
  moreover from this assms(2,3) have "is_int64 (rtrunc (fval x))" by (auto simp: is_int64_def)
  ultimately show ?thesis using fin by (simp add: f64_to_int_def)
qed

text \<open>An integer knob: clamped as a float, then converted.\<close>

lemma clamp_int:
  assumes "\<not> is_nan v" "a \<le> b" "\<bar>a\<bar> \<le> 2 ^ 53" "\<bar>b\<bar> \<le> 2 ^ 53"
  shows "a \<le> f64_to_int oob (tasks_clampFloat v (f64_of_int a) (f64_of_int b)) \<and>
    f64_to_int oob (tasks_clampFloat v (f64_of_int a) (f64_of_int b)) \<le> b"
proof (rule f64_to_int_range)
  have f: "f64_of_int a = Fin (of_int a)" "f64_of_int b = Fin (of_int b)" using assms by (simp_all add: f64_of_int_fin)
  show "in_range (Fin (of_int a)) (Fin (of_int b)) (tasks_clampFloat v (f64_of_int a) (f64_of_int b))"
    unfolding f using assms(1,2) by (intro clamp_in_range) simp_all
qed (use assms in \<open>auto simp: is_int64_def go_defs\<close>)

lemma fdiv_nonneg_ext: "fle (Fin 0) x \<Longrightarrow> is_fin y \<Longrightarrow> flt (Fin 0) y \<Longrightarrow> fle (Fin 0) (fdiv x y)"
proof (cases "is_fin x")
  case False
  assume "fle (Fin 0) x" "is_fin y" "flt (Fin 0) y"
  with False show ?thesis by (cases x; cases y) (auto simp: fdiv_def fcmp_defs finf_def)
qed (simp add: fdiv_nonneg)

lemma default_f_number: "\<not> is_nan v \<Longrightarrow> \<not> is_nan (default_f v (rnd d))"
  by (simp add: default_f_def)

section \<open>The loop of ApplyAdjustments\<close>

fun apply_all :: "(string \<Rightarrow> adjustment \<Rightarrow> 's \<Rightarrow> 's result) \<Rightarrow> (string \<times> adjustment) list \<Rightarrow> 's \<Rightarrow> 's \<times> unit result" where
  "apply_all knob [] s = (s, Ok ())"
| "apply_all knob ((k, v) # xs) s = (case knob k v s of Inl e \<Rightarrow> (s, Inl e) | Inr s' \<Rightarrow> apply_all knob xs s')"

text \<open>A numeric key: a type error, or an update with the number.\<close>

definition numeric :: "string \<Rightarrow> adjustment \<Rightarrow> (f64 \<Rightarrow> 's) \<Rightarrow> 's result" where
  "numeric msg v upd = (case toFloat v of None \<Rightarrow> Fail msg | Some x \<Rightarrow> Ok (upd x))"

definition boolean :: "string \<Rightarrow> adjustment \<Rightarrow> (bool \<Rightarrow> 's) \<Rightarrow> 's result" where
  "boolean msg v upd = (case toBool v of None \<Rightarrow> Fail msg | Some b \<Rightarrow> Ok (upd b))"

text \<open>Values decoded from JSON are never NaN.\<close>

definition proper :: "adjustment \<Rightarrow> bool" where
  "proper v \<longleftrightarrow> (case toFloat v of None \<Rightarrow> True | Some x \<Rightarrow> \<not> is_nan x)"

lemma numeric_Inr: "numeric msg v upd = Inr s' \<longleftrightarrow> (\<exists>x. toFloat v = Some x \<and> s' = upd x)"
  by (auto simp: numeric_def split: option.splits)

lemma boolean_Inr: "boolean msg v upd = Inr s' \<longleftrightarrow> (\<exists>x. toBool v = Some x \<and> s' = upd x)"
  by (auto simp: boolean_def split: option.splits)

lemma proper_Some: "proper v \<Longrightarrow> toFloat v = Some x \<Longrightarrow> \<not> is_nan x"
  by (simp add: proper_def)

text \<open>What no key of the adjustment touches, the adjustment does not touch.\<close>

lemma apply_all_frame:
  assumes "\<And>k v s s'. knob k v s = Inr s' \<Longrightarrow> k \<noteq> key \<Longrightarrow> f s' = f s" "\<forall>(k, v) \<in> set xs. k \<noteq> key"
  shows "f (fst (apply_all knob xs s)) = f s"
  using assms(2)
proof (induction xs arbitrary: s)
  case (Cons x xs)
  obtain k v where x: "x = (k, v)" by (cases x)
  show ?case
  proof (cases "knob k v s")
    case (Inr s')
    with Cons x assms(1) [OF Inr] show ?thesis by auto
  qed (simp add: x)
qed simp

locale task_knobs =
  fixes knob :: "string \<Rightarrow> adjustment \<Rightarrow> 's \<Rightarrow> 's result" and ok :: "'s \<Rightarrow> bool"
  assumes knob_ok: "ok s \<Longrightarrow> proper v \<Longrightarrow> knob k v s = Inr s' \<Longrightarrow> ok s'"
begin

lemma apply_ok: "ok s \<Longrightarrow> \<forall>(k, v) \<in> set xs. proper v \<Longrightarrow> ok (fst (apply_all knob xs s))"
proof (induction xs arbitrary: s)
  case (Cons x xs)
  obtain k v where x: "x = (k, v)" by (cases x)
  show ?case
  proof (cases "knob k v s")
    case (Inl e)
    with Cons.prems x show ?thesis by simp
  next
    case (Inr s')
    with Cons.prems x have "ok s'" by (auto intro: knob_ok)
    with Cons x Inr show ?thesis by auto
  qed
qed simp

end

section \<open>Histories of a task\<close>

text \<open>A task driven by a sequence of calls; the trades are the log of the run.\<close>

fun run_ops :: "('o \<Rightarrow> 's \<Rightarrow> 's \<times> 't list) \<Rightarrow> 'o list \<Rightarrow> 's \<Rightarrow> 's \<times> 't list" where
  "run_ops step [] s = (s, [])"
| "run_ops step (x # xs) s =
     (let r = step x s; q = run_ops step xs (fst r) in (fst q, snd r @ snd q))"

locale task_machine =
  fixes step :: "'o \<Rightarrow> 's \<Rightarrow> 's \<times> 't list" and call :: "'o \<Rightarrow> bool" and inv :: "'s \<Rightarrow> bool"
  assumes step_inv: "inv s \<Longrightarrow> call x \<Longrightarrow> inv (fst (step x s))"
begin

lemma run_inv: "inv s \<Longrightarrow> list_all call xs \<Longrightarrow> inv (fst (run_ops step xs s))"
proof (induction xs arbitrary: s)
  case (Cons x xs)
  then have "inv (fst (step x s))" by (simp add: step_inv)
  with Cons show ?case by (simp add: Let_def)
qed simp

text \<open>What every single call makes of its trades, a whole run makes of its log.\<close>

lemma run_log:
  assumes "\<And>s x. inv s \<Longrightarrow> call x \<Longrightarrow> list_all P (snd (step x s))" "inv s" "list_all call xs"
  shows "list_all P (snd (run_ops step xs s))"
  using assms(2,3)
proof (induction xs arbitrary: s)
  case (Cons x xs)
  then have "inv (fst (step x s))" "list_all P (snd (step x s))" by (simp_all add: step_inv assms(1))
  with Cons show ?case by (simp add: Let_def)
qed simp

end

end
