(* ===== verification/Momentum.thy ===== *)
theory Momentum
  imports TaskUtil
begin

text \<open>
  \<^verbatim>\<open>internal/agent/tasks/momentum.go\<close> and \<^verbatim>\<open>momentum_config.go\<close>: the breakout strategy, a machine with at most
  one open position.  The clock is read at the start of a tick (\<open>now\<close>) and again for the lookback
  window (\<open>snow\<close>); the chain client's quote is an argument.
\<close>

section \<open>Configuration\<close>

record MomentumConfig =
  mc_Chain :: string
  mc_TokenPair :: string
  mc_LookbackMinutes :: int
  mc_EntryThresholdPct :: f64
  mc_ExitThresholdPct :: f64
  mc_VolumeConfirmation :: bool
  mc_CheckIntervalSecs :: f64
  mc_MaxPositionSizePct :: f64
  mc_MaxDrawdownPct :: f64
  mc_StopLossPerTradePct :: f64
  mc_MaxDailyTrades :: int
  mc_MinCapitalToOperate :: f64

definition momLookbackFloor :: int where "momLookbackFloor = 5"
definition momLookbackCeil :: int where "momLookbackCeil = 1440"
definition momEntryThreshFloor :: f64 where "momEntryThreshFloor = rnd (1 / 1000)"
definition momEntryThreshCeil :: f64 where "momEntryThreshCeil = rnd (50 / 100)"
definition momExitThreshFloor :: f64 where "momExitThreshFloor = rnd (1 / 1000)"
definition momExitThreshCeil :: f64 where "momExitThreshCeil = rnd (50 / 100)"
definition momCheckIntervalFloor :: f64 where "momCheckIntervalFloor = rnd 5"
definition momCheckIntervalCeil :: f64 where "momCheckIntervalCeil = rnd 3600"
definition momMaxPosPctFloor :: f64 where "momMaxPosPctFloor = rnd (1 / 100)"
definition momMaxPosPctCeil :: f64 where "momMaxPosPctCeil = rnd 1"
definition momStopLossFloor :: f64 where "momStopLossFloor = rnd (1 / 1000)"
definition momStopLossCeil :: f64 where "momStopLossCeil = rnd (50 / 100)"
definition momMaxDailyFloor :: int where "momMaxDailyFloor = 1"
definition momMaxDailyCeil :: int where "momMaxDailyCeil = 200"

lemmas mom_bounds = momLookbackFloor_def momLookbackCeil_def momEntryThreshFloor_def momEntryThreshCeil_def momExitThreshFloor_def
  momExitThreshCeil_def momCheckIntervalFloor_def momCheckIntervalCeil_def momMaxPosPctFloor_def momMaxPosPctCeil_def momStopLossFloor_def
  momStopLossCeil_def momMaxDailyFloor_def momMaxDailyCeil_def

definition mom_applyDefaults :: "MomentumConfig \<Rightarrow> MomentumConfig" where
  "mom_applyDefaults c =
     c\<lparr>mc_LookbackMinutes := (if mc_LookbackMinutes c = 0 then 60 else mc_LookbackMinutes c),
       mc_EntryThresholdPct := default_f (mc_EntryThresholdPct c) (rnd (2 / 100)),
       mc_ExitThresholdPct := default_f (mc_ExitThresholdPct c) (rnd (1 / 100)),
       mc_CheckIntervalSecs := default_f (mc_CheckIntervalSecs c) (rnd 30),
       mc_MaxPositionSizePct := default_f (mc_MaxPositionSizePct c) (rnd (25 / 100)),
       mc_StopLossPerTradePct := default_f (mc_StopLossPerTradePct c) (rnd (5 / 100)),
       mc_MaxDailyTrades := (if mc_MaxDailyTrades c = 0 then 10 else mc_MaxDailyTrades c)\<rparr>"

definition mom_Validate :: "MomentumConfig \<Rightarrow> unit result" where
  "mom_Validate c =
     (if mc_Chain c = [] then Fail ''momentum: chain required''
      else if mc_Chain c \<noteq> ''solana'' \<and> mc_Chain c \<noteq> ''base'' then Fail ''momentum: chain must be solana or base''
      else if mc_TokenPair c = [] then Fail ''momentum: token_pair required''
      else bindr (splitTokenPair (mc_TokenPair c)) (\<lambda>_. first_error
        [(mc_LookbackMinutes c < momLookbackFloor \<or> momLookbackCeil < mc_LookbackMinutes c, ''momentum: lookback_minutes out of range''),
         (outside momEntryThreshFloor momEntryThreshCeil (mc_EntryThresholdPct c), ''momentum: entry_threshold_pct out of range''),
         (outside momExitThreshFloor momExitThreshCeil (mc_ExitThresholdPct c), ''momentum: exit_threshold_pct out of range''),
         (outside momCheckIntervalFloor momCheckIntervalCeil (mc_CheckIntervalSecs c), ''momentum: check_interval_secs out of range''),
         (outside momMaxPosPctFloor momMaxPosPctCeil (mc_MaxPositionSizePct c), ''momentum: max_position_size_pct out of range''),
         (outside momStopLossFloor momStopLossCeil (mc_StopLossPerTradePct c), ''momentum: stop_loss_per_trade_pct out of range''),
         (mc_MaxDailyTrades c < momMaxDailyFloor \<or> momMaxDailyCeil < mc_MaxDailyTrades c, ''momentum: max_daily_trades out of range''),
         (flt (mc_MinCapitalToOperate c) (Fin 0), ''momentum: min_capital_to_operate must be non-negative'')]))"

section \<open>State\<close>

record priceSample =
  ps_At :: time
  ps_Price :: f64
  ps_Volume :: f64

record momentumPosition =
  mp_OpenedAt :: time
  mp_EntryPrice :: f64
  mp_StopPrice :: f64
  mp_SizeUSD :: f64
  mp_Units :: f64

record Momentum =
  mo_cfg :: MomentumConfig
  mo_tokenA :: string
  mo_tokenB :: string
  mo_freeCapital :: f64
  mo_history :: "priceSample list"
  mo_position :: "momentumPosition option"
  mo_lastCheck :: time
  mo_dailyDate :: string
  mo_dailyTotal :: int
  mo_totalTrades :: int
  mo_totalWins :: int

text \<open>\<open>clients\<close>: the names of the chain clients the runtime wired in, \<open>None\<close> for a nil map.\<close>

definition NewMomentum :: "string list option \<Rightarrow> MomentumConfig \<Rightarrow> Momentum result" where
  "NewMomentum clients cfg0 =
     (let cfg = mom_applyDefaults cfg0 in
      bindr (mom_Validate cfg) (\<lambda>_.
        case clients of
          None \<Rightarrow> Fail ''momentum: deps.Clients required''
        | Some names \<Rightarrow>
            if mc_Chain cfg \<notin> set names then Fail ''momentum: chain missing from deps.Clients''
            else bindr (splitTokenPair (mc_TokenPair cfg)) (\<lambda>(a, b).
              Ok \<lparr>mo_cfg = cfg, mo_tokenA = a, mo_tokenB = b, mo_freeCapital = Fin 0, mo_history = [], mo_position = None,
                  mo_lastCheck = zero_time, mo_dailyDate = [], mo_dailyTotal = 0, mo_totalTrades = 0, mo_totalWins = 0\<rparr>)))"

definition mom_SeedFreeCapital :: "f64 \<Rightarrow> Momentum \<Rightarrow> Momentum" where
  "mom_SeedFreeCapital usd m = m\<lparr>mo_freeCapital := usd\<rparr>"

section \<open>The fast loop\<close>

definition lookbackSamples :: "(f64 \<Rightarrow> int) \<Rightarrow> Momentum \<Rightarrow> int" where
  "lookbackSamples oob m =
     (let n = f64_to_int oob (fdiv (fmul (f64_of_int (mc_LookbackMinutes (mo_cfg m))) (Fin 60)) (mc_CheckIntervalSecs (mo_cfg m)));
          n' = (if n < 5 then 5 else n)
      in wrap64 (n' + 4))"

definition pushSample :: "(f64 \<Rightarrow> int) \<Rightarrow> priceSample \<Rightarrow> Momentum \<Rightarrow> Momentum" where
  "pushSample oob s m =
     (let h = mo_history m @ [s]; cap = lookbackSamples oob m in
      m\<lparr>mo_history := (if cap < int (length h) then drop (length h - nat cap) h else h)\<rparr>)"

definition mom_IngestSample :: "(f64 \<Rightarrow> int) \<Rightarrow> time \<Rightarrow> f64 \<Rightarrow> f64 \<Rightarrow> Momentum \<Rightarrow> Momentum" where
  "mom_IngestSample oob t price volume m = pushSample oob \<lparr>ps_At = t, ps_Price = price, ps_Volume = volume\<rparr> m"

text \<open>The loop over the window: \<open>None\<close> until a first sample is inside it, then high, low, sum of volumes and count.\<close>

fun window_fold :: "time \<Rightarrow> priceSample list \<Rightarrow> (f64 \<times> f64 \<times> f64 \<times> int) option \<Rightarrow> (f64 \<times> f64 \<times> f64 \<times> int) option" where
  "window_fold cutoff [] acc = acc"
| "window_fold cutoff (s # ss) acc =
     (if ps_At s < cutoff then window_fold cutoff ss acc
      else case acc of
        None \<Rightarrow> window_fold cutoff ss (Some (ps_Price s, ps_Price s, fadd (Fin 0) (ps_Volume s), 1))
      | Some (high, low, volSum, n) \<Rightarrow>
          window_fold cutoff ss (Some (if flt high (ps_Price s) then ps_Price s else high, if flt (ps_Price s) low then ps_Price s else low,
            fadd volSum (ps_Volume s), n + 1)))"

definition lookbackStats :: "time \<Rightarrow> Momentum \<Rightarrow> f64 \<times> f64 \<times> f64 \<times> f64" where
  "lookbackStats snow m =
     (if length (mo_history m) < 2 then (Fin 0, Fin 0, Fin 0, Fin 0)
      else let cutoff = snow - mc_LookbackMinutes (mo_cfg m) * Minute in
        (case window_fold cutoff (butlast (mo_history m)) None of
           None \<Rightarrow> (Fin 0, Fin 0, Fin 0, Fin 0)
         | Some (high, low, volSum, n) \<Rightarrow>
             (high, low, fdiv (fadd high low) (Fin 2), if 0 < n then fdiv volSum (f64_of_int n) else Fin 0)))"

definition latestPrice :: "Momentum \<Rightarrow> f64" where
  "latestPrice m = (if mo_history m = [] then Fin 0 else ps_Price (last (mo_history m)))"

definition latestVolume :: "Momentum \<Rightarrow> f64" where
  "latestVolume m = (if mo_history m = [] then Fin 0 else ps_Volume (last (mo_history m)))"

definition mom_exit :: "time \<Rightarrow> f64 \<Rightarrow> string \<Rightarrow> Momentum \<Rightarrow> Momentum \<times> TaskTrade list" where
  "mom_exit now price why m =
     (case mo_position m of
        None \<Rightarrow> (m, [])
      | Some pos \<Rightarrow>
          let proceeds = fmul (mp_Units pos) price; pnl = fsub proceeds (mp_SizeUSD pos)
          in (m\<lparr>mo_freeCapital := fadd (mo_freeCapital m) proceeds, mo_position := None,
                mo_totalWins := (if flt (Fin 0) pnl then wrap64 (mo_totalWins m + 1) else mo_totalWins m)\<rparr>,
              [zero_trade\<lparr>tt_Chain := mc_Chain (mo_cfg m), tt_TradeType := ''momentum_exit'', tt_TokenPair := mc_TokenPair (mo_cfg m), tt_DEX := ''spot'',
                 tt_AmountIn := mp_Units pos, tt_AmountOut := proceeds, tt_PnL := pnl, tt_IsPaperTrade := True, tt_ExecutedAt := now,
                 tt_Metadata := [(''reason'', JStr why), (''entry_price'', JFloat (mp_EntryPrice pos)), (''exit_price'', JFloat price)]\<rparr>]))"

definition maybeExit :: "time \<Rightarrow> time \<Rightarrow> f64 \<Rightarrow> Momentum \<Rightarrow> Momentum \<times> TaskTrade list" where
  "maybeExit now snow price m =
     (case mo_position m of
        None \<Rightarrow> (m, [])
      | Some pos \<Rightarrow>
          if fle price (mp_StopPrice pos) then mom_exit now price ''stop_loss'' m
          else case lookbackStats snow m of (_, _, mid, _) \<Rightarrow>
            if flt (Fin 0) mid \<and> fle price (fmul mid (fsub (Fin 1) (mc_ExitThresholdPct (mo_cfg m)))) then mom_exit now price ''exit_threshold'' m
            else (m, []))"

definition maybeEnter :: "time \<Rightarrow> time \<Rightarrow> f64 \<Rightarrow> Momentum \<Rightarrow> Momentum \<times> TaskTrade list" where
  "maybeEnter now snow price m =
     (if flt (mo_freeCapital m) (mc_MinCapitalToOperate (mo_cfg m)) then (m, [])
      else if mc_MaxDailyTrades (mo_cfg m) \<le> mo_dailyTotal m then (m, [])
      else case lookbackStats snow m of (high, _, _, avgVol) \<Rightarrow>
        if fle high (Fin 0) then (m, [])
        else let trigger = fmul high (fadd (Fin 1) (mc_EntryThresholdPct (mo_cfg m))) in
          if flt price trigger then (m, [])
          else if mc_VolumeConfirmation (mo_cfg m) \<and> fle (latestVolume m) avgVol then (m, [])
          else let notional = fmul (mo_freeCapital m) (mc_MaxPositionSizePct (mo_cfg m)) in
            if fle notional (Fin 0) then (m, [])
            else let units = fdiv notional price;
                     pos = \<lparr>mp_OpenedAt = now, mp_EntryPrice = price,
                            mp_StopPrice = fmul price (fsub (Fin 1) (mc_StopLossPerTradePct (mo_cfg m))), mp_SizeUSD = notional, mp_Units = units\<rparr>
              in (m\<lparr>mo_position := Some pos, mo_freeCapital := fsub (mo_freeCapital m) notional,
                    mo_dailyTotal := wrap64 (mo_dailyTotal m + 1), mo_totalTrades := wrap64 (mo_totalTrades m + 1)\<rparr>,
                  [zero_trade\<lparr>tt_Chain := mc_Chain (mo_cfg m), tt_TradeType := ''momentum_enter'', tt_TokenPair := mc_TokenPair (mo_cfg m), tt_DEX := ''spot'',
                     tt_AmountIn := notional, tt_AmountOut := units, tt_IsPaperTrade := True, tt_ExecutedAt := now,
                     tt_Metadata := [(''entry_price'', JFloat price), (''stop_price'', JFloat (mp_StopPrice pos)), (''window_high'', JFloat high),
                                     (''trigger'', JFloat trigger), (''avg_volume'', JFloat avgVol)]\<rparr>]))"

definition mom_maybeResetDaily :: "time \<Rightarrow> Momentum \<Rightarrow> Momentum" where
  "mom_maybeResetDaily now m =
     (let day = FormatDate now in
      if mo_dailyDate m = [] then m\<lparr>mo_dailyDate := day\<rparr>
      else if day \<noteq> mo_dailyDate m then m\<lparr>mo_dailyDate := day, mo_dailyTotal := 0\<rparr> else m)"

definition mom_price :: "Quote \<Rightarrow> f64" where
  "mom_price q = (if fle (qt_Price q) (Fin 0) \<and> flt (Fin 0) (qt_AmountIn q) then fdiv (qt_AmountOut q) (qt_AmountIn q) else qt_Price q)"

definition mom_RunTick :: "(f64 \<Rightarrow> int) \<Rightarrow> time \<Rightarrow> time \<Rightarrow> quoter \<Rightarrow> Momentum \<Rightarrow> Momentum \<times> TaskTrade list result" where
  "mom_RunTick oob now snow quote m0 =
     (let m1 = mom_maybeResetDaily now m0 in
      if throttled oob (mc_CheckIntervalSecs (mo_cfg m1)) (mo_lastCheck m1) now then (m1, Ok [])
      else let m2 = m1\<lparr>mo_lastCheck := now\<rparr> in
        case quote (mo_tokenA m2) (mo_tokenB m2) (Fin 1) of
          Inl e \<Rightarrow> (m2, Inl (Wrap ''momentum: get quote'' e))
        | Inr q \<Rightarrow>
            let price = mom_price q in
            if fle price (Fin 0) then (m2, Fail ''momentum: non-positive price'')
            else let m3 = pushSample oob \<lparr>ps_At = now, ps_Price = price, ps_Volume = Fin 0\<rparr> m2 in
              (case (if mo_position m3 \<noteq> None then maybeExit now snow price m3 else maybeEnter now snow price m3) of
                 (m4, trades) \<Rightarrow> (m4, Ok trades)))"

section \<open>The other operations\<close>

definition mom_winRate :: "Momentum \<Rightarrow> f64" where
  "mom_winRate m = (if mo_totalTrades m = 0 then Fin 0 else fdiv (f64_of_int (mo_totalWins m)) (f64_of_int (mo_totalTrades m)))"

definition mom_GetStateSummary :: "time \<Rightarrow> Momentum \<Rightarrow> (string \<times> jval) list result" where
  "mom_GetStateSummary snow m =
     (case lookbackStats snow m of (high, low, mid, vol) \<Rightarrow>
        Ok ([(''chain'', JStr (mc_Chain (mo_cfg m))), (''token_pair'', JStr (mc_TokenPair (mo_cfg m))),
             (''lookback_minutes'', JInt (mc_LookbackMinutes (mo_cfg m))), (''window_high'', JFloat high), (''window_low'', JFloat low),
             (''window_mid'', JFloat mid), (''window_avg_volume'', JFloat vol), (''free_capital_usd'', JFloat (mo_freeCapital m)),
             (''trades_today'', JInt (mo_dailyTotal m)), (''max_daily'', JInt (mc_MaxDailyTrades (mo_cfg m))),
             (''total_trades'', JInt (mo_totalTrades m)), (''win_rate'', JFloat (mom_winRate m))] @
            (case mo_position m of None \<Rightarrow> []
             | Some pos \<Rightarrow> [(''position'', JMap [(''entry_price'', JFloat (mp_EntryPrice pos)), (''stop_price'', JFloat (mp_StopPrice pos)),
                 (''size_usd'', JFloat (mp_SizeUSD pos)), (''units'', JFloat (mp_Units pos)), (''opened_at'', JStr (FormatRFC3339 (mp_OpenedAt pos)))])])))"

definition mom_knob :: "(f64 \<Rightarrow> int) \<Rightarrow> string \<Rightarrow> adjustment \<Rightarrow> MomentumConfig \<Rightarrow> MomentumConfig result" where
  "mom_knob oob k raw c =
     (if k = ''entry_threshold_pct'' then numeric ''momentum: entry_threshold_pct not numeric'' raw
        (\<lambda>v. c\<lparr>mc_EntryThresholdPct := tasks_clampFloat v momEntryThreshFloor momEntryThreshCeil\<rparr>)
      else if k = ''exit_threshold_pct'' then numeric ''momentum: exit_threshold_pct not numeric'' raw
        (\<lambda>v. c\<lparr>mc_ExitThresholdPct := tasks_clampFloat v momExitThreshFloor momExitThreshCeil\<rparr>)
      else if k = ''max_position_size_pct'' then numeric ''momentum: max_position_size_pct not numeric'' raw
        (\<lambda>v. c\<lparr>mc_MaxPositionSizePct := tasks_clampFloat v momMaxPosPctFloor momMaxPosPctCeil\<rparr>)
      else if k = ''stop_loss_per_trade_pct'' then numeric ''momentum: stop_loss_per_trade_pct not numeric'' raw
        (\<lambda>v. c\<lparr>mc_StopLossPerTradePct := tasks_clampFloat v momStopLossFloor momStopLossCeil\<rparr>)
      else if k = ''max_daily_trades'' then numeric ''momentum: max_daily_trades not numeric'' raw
        (\<lambda>v. c\<lparr>mc_MaxDailyTrades := f64_to_int oob (tasks_clampFloat v (f64_of_int momMaxDailyFloor) (f64_of_int momMaxDailyCeil))\<rparr>)
      else if k = ''check_interval_secs'' then numeric ''momentum: check_interval_secs not numeric'' raw
        (\<lambda>v. c\<lparr>mc_CheckIntervalSecs := tasks_clampFloat v momCheckIntervalFloor momCheckIntervalCeil\<rparr>)
      else if k = ''volume_confirmation'' then boolean ''momentum: volume_confirmation not boolean'' raw
        (\<lambda>b. c\<lparr>mc_VolumeConfirmation := b\<rparr>)
      else Ok c)"

definition mom_ApplyAdjustments :: "(f64 \<Rightarrow> int) \<Rightarrow> (string \<times> adjustment) list \<Rightarrow> Momentum \<Rightarrow> Momentum \<times> unit result" where
  "mom_ApplyAdjustments oob adj m = (case apply_all (mom_knob oob) adj (mo_cfg m) of (c, r) \<Rightarrow> (m\<lparr>mo_cfg := c\<rparr>, r))"

definition mom_GetPositionValue :: "Momentum \<Rightarrow> f64 result" where
  "mom_GetPositionValue m =
     (case mo_position m of None \<Rightarrow> Ok (Fin 0)
      | Some pos \<Rightarrow> if fle (latestPrice m) (Fin 0) then Ok (mp_SizeUSD pos) else Ok (fmul (mp_Units pos) (latestPrice m)))"

definition mom_CloseAllPositions :: "time \<Rightarrow> Momentum \<Rightarrow> Momentum \<times> TaskTrade list result" where
  "mom_CloseAllPositions now m =
     (if mo_position m = None then (m, Ok []) else case mom_exit now (latestPrice m) ''close_all'' m of (m', ts) \<Rightarrow> (m', Ok ts))"

text \<open>The registered factory; \<open>decode\<close> is \<^verbatim>\<open>json.Unmarshal\<close> into the configuration.\<close>

definition momentumFactory :: "(string \<Rightarrow> MomentumConfig result) \<Rightarrow> MomentumConfig \<Rightarrow> string list option option \<Rightarrow> string \<Rightarrow> Momentum result" where
  "momentumFactory decode zero_cfg deps raw =
     (case deps of
        None \<Rightarrow> Fail ''momentum: SetMomentumDeps not called''
      | Some clients \<Rightarrow>
          bindr (if raw = [] then Ok zero_cfg else wrapr ''momentum: decode config'' (decode raw)) (NewMomentum clients))"

section \<open>The configuration stays inside its envelope\<close>

definition mom_cfg_ok :: "MomentumConfig \<Rightarrow> bool" where
  "mom_cfg_ok c \<longleftrightarrow> momLookbackFloor \<le> mc_LookbackMinutes c \<and> mc_LookbackMinutes c \<le> momLookbackCeil \<and>
     in_range momEntryThreshFloor momEntryThreshCeil (mc_EntryThresholdPct c) \<and>
     in_range momExitThreshFloor momExitThreshCeil (mc_ExitThresholdPct c) \<and>
     in_range momCheckIntervalFloor momCheckIntervalCeil (mc_CheckIntervalSecs c) \<and>
     in_range momMaxPosPctFloor momMaxPosPctCeil (mc_MaxPositionSizePct c) \<and>
     in_range momStopLossFloor momStopLossCeil (mc_StopLossPerTradePct c) \<and>
     momMaxDailyFloor \<le> mc_MaxDailyTrades c \<and> mc_MaxDailyTrades c \<le> momMaxDailyCeil"

lemma mom_clamps:
  assumes "\<not> is_nan v"
  shows "in_range momEntryThreshFloor momEntryThreshCeil (tasks_clampFloat v momEntryThreshFloor momEntryThreshCeil)"
    "in_range momExitThreshFloor momExitThreshCeil (tasks_clampFloat v momExitThreshFloor momExitThreshCeil)"
    "in_range momCheckIntervalFloor momCheckIntervalCeil (tasks_clampFloat v momCheckIntervalFloor momCheckIntervalCeil)"
    "in_range momMaxPosPctFloor momMaxPosPctCeil (tasks_clampFloat v momMaxPosPctFloor momMaxPosPctCeil)"
    "in_range momStopLossFloor momStopLossCeil (tasks_clampFloat v momStopLossFloor momStopLossCeil)"
  unfolding mom_bounds by (rule clamp_rnd [OF assms], simp)+

lemma mom_daily_clamp:
  assumes "\<not> is_nan v"
  shows "momMaxDailyFloor \<le> f64_to_int oob (tasks_clampFloat v (f64_of_int momMaxDailyFloor) (f64_of_int momMaxDailyCeil)) \<and>
    f64_to_int oob (tasks_clampFloat v (f64_of_int momMaxDailyFloor) (f64_of_int momMaxDailyCeil)) \<le> momMaxDailyCeil"
  using clamp_int [OF assms, of momMaxDailyFloor momMaxDailyCeil oob] by (simp add: mom_bounds is_int64_def go_defs)

lemma mom_knob_ok:
  assumes "mom_cfg_ok c" "proper v" "mom_knob oob k v c = Inr c'"
  shows "mom_cfg_ok c'"
  using assms(1) assms(3) proper_Some [OF assms(2)]
  unfolding mom_knob_def by (auto simp: numeric_Inr boolean_Inr mom_cfg_ok_def mom_clamps mom_daily_clamp split: if_splits)

interpretation mom: task_knobs "mom_knob oob" mom_cfg_ok for oob
  by unfold_locales (rule mom_knob_ok)

definition mom_cfg_numbers :: "MomentumConfig \<Rightarrow> bool" where
  "mom_cfg_numbers c \<longleftrightarrow> \<not> is_nan (mc_EntryThresholdPct c) \<and> \<not> is_nan (mc_ExitThresholdPct c) \<and> \<not> is_nan (mc_CheckIntervalSecs c) \<and>
     \<not> is_nan (mc_MaxPositionSizePct c) \<and> \<not> is_nan (mc_StopLossPerTradePct c)"

lemma mom_Validate_ok: "mom_cfg_numbers c \<Longrightarrow> mom_Validate c = Inr u \<Longrightarrow> mom_cfg_ok c"
  unfolding mom_Validate_def mom_cfg_ok_def mom_cfg_numbers_def
  by (auto simp: bindr_Ok_iff outside_def not_less mom_bounds intro!: not_out_of_range split: if_splits)

text \<open>A configuration the decoder accepts is inside the envelope after the defaults.\<close>

lemma mom_New_ok:
  assumes "mom_cfg_numbers cfg" "NewMomentum clients cfg = Inr m"
  shows "mom_cfg_ok (mo_cfg m) \<and> mo_position m = None \<and> mo_dailyTotal m = 0"
proof -
  have n: "mom_cfg_numbers (mom_applyDefaults cfg)"
    using assms(1) by (simp add: mom_cfg_numbers_def mom_applyDefaults_def default_f_number)
  from assms(2) obtain u where "mom_Validate (mom_applyDefaults cfg) = Inr u" "mo_cfg m = mom_applyDefaults cfg" "mo_position m = None" "mo_dailyTotal m = 0"
    by (auto simp: NewMomentum_def Let_def bindr_Ok_iff split: option.splits if_splits)
  with mom_Validate_ok [OF n] show ?thesis by simp
qed

section \<open>Histories\<close>

datatype mom_op = MoTick time time quoter | MoAdjust "(string \<times> adjustment) list" | MoIngest time f64 f64 | MoSeed f64 | MoClose time

fun mom_step :: "(f64 \<Rightarrow> int) \<Rightarrow> mom_op \<Rightarrow> Momentum \<Rightarrow> Momentum \<times> TaskTrade list" where
  "mom_step oob (MoTick now snow quote) m = map_prod (\<lambda>x. x) log_of (mom_RunTick oob now snow quote m)"
| "mom_step oob (MoAdjust adj) m = (fst (mom_ApplyAdjustments oob adj m), [])"
| "mom_step oob (MoIngest t p v) m = (mom_IngestSample oob t p v m, [])"
| "mom_step oob (MoSeed usd) m = (mom_SeedFreeCapital usd m, [])"
| "mom_step oob (MoClose now) m = map_prod (\<lambda>x. x) log_of (mom_CloseAllPositions now m)"

fun mom_call :: "mom_op \<Rightarrow> bool" where
  "mom_call (MoAdjust adj) = (\<forall>(k, v) \<in> set adj. proper v)"
| "mom_call _ = True"

definition mom_inv :: "Momentum \<Rightarrow> bool" where
  "mom_inv m \<longleftrightarrow> mom_cfg_ok (mo_cfg m) \<and> 0 \<le> mo_dailyTotal m \<and> mo_dailyTotal m \<le> momMaxDailyCeil"

lemma mom_RunTick_cases:
  obtains (quiet) m' r where "mom_RunTick oob now snow quote m = (m', r)" "log_of r = []" "mo_cfg m' = mo_cfg m" "mo_position m' = mo_position m"
      "mo_history m' = mo_history m" "mo_dailyTotal m' = mo_dailyTotal (mom_maybeResetDaily now m)"
  | (act) price m3 where "m3 = pushSample oob \<lparr>ps_At = now, ps_Price = price, ps_Volume = Fin 0\<rparr> ((mom_maybeResetDaily now m)\<lparr>mo_lastCheck := now\<rparr>)"
      "\<not> fle price (Fin 0)"
      "mom_RunTick oob now snow quote m = (case (if mo_position m3 \<noteq> None then maybeExit now snow price m3 else maybeEnter now snow price m3) of (m4, ts) \<Rightarrow> (m4, Ok ts))"
proof -
  let ?m1 = "mom_maybeResetDaily now m"
  have k: "mo_cfg ?m1 = mo_cfg m" "mo_position ?m1 = mo_position m" "mo_history ?m1 = mo_history m" by (simp_all add: mom_maybeResetDaily_def Let_def)
  show ?thesis
  proof (cases "throttled oob (mc_CheckIntervalSecs (mo_cfg ?m1)) (mo_lastCheck ?m1) now")
    case True
    then show ?thesis using k by (intro quiet [of ?m1 "Ok []"]) (simp_all add: mom_RunTick_def log_of_def)
  next
    case False
    show ?thesis
    proof (cases "quote (mo_tokenA ?m1) (mo_tokenB ?m1) (Fin 1)")
      case (Inl e)
      with False k show ?thesis by (intro quiet [of "?m1\<lparr>mo_lastCheck := now\<rparr>" "Inl (Wrap ''momentum: get quote'' e)"]) (simp_all add: mom_RunTick_def log_of_def)
    next
      case (Inr q)
      show ?thesis
      proof (cases "fle (mom_price q) (Fin 0)")
        case True
        with False Inr k show ?thesis by (intro quiet [of "?m1\<lparr>mo_lastCheck := now\<rparr>" "Fail ''momentum: non-positive price''"]) (simp_all add: mom_RunTick_def log_of_def)
      next
        case price: False
        show ?thesis by (rule act [OF refl price]) (use False Inr price in \<open>simp add: mom_RunTick_def Let_def\<close>)
      qed
    qed
  qed
qed

lemma pushSample_frame [simp]: "mo_cfg (pushSample oob s m) = mo_cfg m" "mo_position (pushSample oob s m) = mo_position m"
  "mo_dailyTotal (pushSample oob s m) = mo_dailyTotal m" "mo_freeCapital (pushSample oob s m) = mo_freeCapital m"
  by (simp_all add: pushSample_def Let_def)

lemma resetDaily_frame [simp]: "mo_cfg (mom_maybeResetDaily now m) = mo_cfg m" "mo_position (mom_maybeResetDaily now m) = mo_position m"
  "mo_freeCapital (mom_maybeResetDaily now m) = mo_freeCapital m" "mo_history (mom_maybeResetDaily now m) = mo_history m"
  by (simp_all add: mom_maybeResetDaily_def Let_def)

lemma resetDaily_total: "0 \<le> mo_dailyTotal m \<Longrightarrow> mo_dailyTotal m \<le> b \<Longrightarrow> 0 \<le> b \<Longrightarrow>
    0 \<le> mo_dailyTotal (mom_maybeResetDaily now m) \<and> mo_dailyTotal (mom_maybeResetDaily now m) \<le> b"
  by (simp add: mom_maybeResetDaily_def Let_def)

text \<open>The two transitions of the machine.\<close>

lemma mom_exit_cases:
  "mom_exit now price why m = (m', ts) \<Longrightarrow> mo_position m = Some pos \<Longrightarrow>
     mo_position m' = None \<and> mo_cfg m' = mo_cfg m \<and> mo_dailyTotal m' = mo_dailyTotal m \<and>
     mo_freeCapital m' = fadd (mo_freeCapital m) (fmul (mp_Units pos) price) \<and>
     (\<exists>t. ts = [t] \<and> tt_TradeType t = ''momentum_exit'' \<and> tt_AmountIn t = mp_Units pos \<and> tt_AmountOut t = fmul (mp_Units pos) price \<and>
        tt_PnL t = fsub (tt_AmountOut t) (mp_SizeUSD pos))"
  by (auto simp: mom_exit_def Let_def zero_trade_def)

lemma maybeExit_cases:
  "maybeExit now snow price m = (m', ts) \<Longrightarrow> (m', ts) = (m, []) \<or> (mo_position m \<noteq> None \<and> (\<exists>why. mom_exit now price why m = (m', ts)))"
  by (auto simp: maybeExit_def split: option.splits if_splits prod.splits)

lemma maybeEnter_cases:
  assumes "maybeEnter now snow price m = (m', ts)"
  shows "(m', ts) = (m, []) \<or>
    (\<exists>t pos. ts = [t] \<and> mo_position m' = Some pos \<and> mo_cfg m' = mo_cfg m \<and> mo_dailyTotal m' = wrap64 (mo_dailyTotal m + 1) \<and>
       mo_dailyTotal m < mc_MaxDailyTrades (mo_cfg m) \<and> mp_SizeUSD pos = fmul (mo_freeCapital m) (mc_MaxPositionSizePct (mo_cfg m)) \<and>
       \<not> fle (mp_SizeUSD pos) (Fin 0) \<and> mo_freeCapital m' = fsub (mo_freeCapital m) (mp_SizeUSD pos) \<and> mp_EntryPrice pos = price \<and>
       \<not> (mc_VolumeConfirmation (mo_cfg m) \<and> fle (latestVolume m) (snd (snd (snd (lookbackStats snow m))))) \<and>
       \<not> flt price (fmul (fst (lookbackStats snow m)) (fadd (Fin 1) (mc_EntryThresholdPct (mo_cfg m)))) \<and>
       tt_TradeType t = ''momentum_enter'' \<and> tt_AmountIn t = mp_SizeUSD pos \<and> tt_AmountOut t = mp_Units pos)"
  using assms unfolding maybeEnter_def by (auto simp: Let_def zero_trade_def split: if_splits prod.splits)

lemma mom_step_inv:
  assumes "mom_inv m" "mom_call x"
  shows "mom_inv (fst (mom_step oob x m))"
proof (cases x)
  case (MoTick now snow quote)
  have r: "0 \<le> mo_dailyTotal (mom_maybeResetDaily now m) \<and> mo_dailyTotal (mom_maybeResetDaily now m) \<le> momMaxDailyCeil"
    using assms(1) by (intro resetDaily_total) (simp_all add: mom_inv_def mom_bounds)
  show ?thesis
  proof (cases rule: mom_RunTick_cases [of oob now snow quote m])
    case (quiet m' r')
    with MoTick r assms(1) show ?thesis by (simp add: mom_inv_def)
  next
    case (act price m3)
    have m3: "mom_inv m3" using act(1) r assms(1) by (simp add: mom_inv_def)
    obtain m4 ts where 4: "(if mo_position m3 \<noteq> None then maybeExit now snow price m3 else maybeEnter now snow price m3) = (m4, ts)" by force
    have "mom_inv m4"
    proof (cases "mo_position m3")
      case None
      with 4 have "maybeEnter now snow price m3 = (m4, ts)" by simp
      then consider "m4 = m3" | "mo_cfg m4 = mo_cfg m3" "mo_dailyTotal m4 = wrap64 (mo_dailyTotal m3 + 1)" "mo_dailyTotal m3 < mc_MaxDailyTrades (mo_cfg m3)"
        using maybeEnter_cases [of now snow price m3 m4 ts] by blast
      then show ?thesis using m3 by cases (auto simp: mom_inv_def mom_cfg_ok_def mom_bounds is_int64_def go_defs)
    next
      case (Some pos)
      with 4 have "maybeExit now snow price m3 = (m4, ts)" by simp
      from maybeExit_cases [OF this] consider "m4 = m3" | why where "mom_exit now price why m3 = (m4, ts)" by blast
      then show ?thesis using m3 mom_exit_cases [OF _ Some] by cases (auto simp: mom_inv_def)
    qed
    with act(3) MoTick 4 show ?thesis by simp
  qed
next
  case (MoAdjust adj)
  have "mom_cfg_ok (fst (apply_all (mom_knob oob) adj (mo_cfg m)))"
    using assms MoAdjust by (intro mom.apply_ok) (auto simp: mom_inv_def)
  with MoAdjust assms(1) show ?thesis by (auto simp: mom_inv_def mom_ApplyAdjustments_def split: prod.splits)
next
  case (MoClose now)
  show ?thesis
  proof (cases "mo_position m")
    case (Some pos)
    obtain m' ts where e: "mom_exit now (latestPrice m) ''close_all'' m = (m', ts)" by force
    from mom_exit_cases [OF e Some] assms(1) MoClose Some e show ?thesis by (simp add: mom_CloseAllPositions_def mom_inv_def)
  qed (use MoClose assms(1) in \<open>simp add: mom_CloseAllPositions_def\<close>)
qed (use assms(1) in \<open>simp_all add: mom_inv_def mom_IngestSample_def mom_SeedFreeCapital_def\<close>)

interpretation mom_m: task_machine "mom_step oob" mom_call mom_inv for oob
  by unfold_locales (rule mom_step_inv)

section \<open>The log of a run\<close>

text \<open>The contract of the strategy: flat or long, and what was bought is what is sold.\<close>

fun mom_trace :: "f64 option \<Rightarrow> TaskTrade list \<Rightarrow> f64 option option" where
  "mom_trace u [] = Some u"
| "mom_trace u (t # ts) =
     (case u of
        None \<Rightarrow> if tt_TradeType t = ''momentum_enter'' then mom_trace (Some (tt_AmountOut t)) ts else None
      | Some units \<Rightarrow> if tt_TradeType t = ''momentum_exit'' \<and> tt_AmountIn t = units then mom_trace None ts else None)"

definition mom_units :: "Momentum \<Rightarrow> f64 option" where
  "mom_units m = map_option mp_Units (mo_position m)"

lemma mom_trace_append: "mom_trace u a = Some v \<Longrightarrow> mom_trace u (a @ b) = mom_trace v b"
  by (induction u a rule: mom_trace.induct) (auto split: option.splits if_splits)

lemma mom_exit_trace: "mom_exit now price why m = (m', ts) \<Longrightarrow> mo_position m \<noteq> None \<Longrightarrow> mom_trace (mom_units m) ts = Some (mom_units m')"
  using mom_exit_cases [of now price why m m' ts] by (auto simp: mom_units_def)

lemma mom_step_trace: "mom_trace (mom_units m) (snd (mom_step oob x m)) = Some (mom_units (fst (mom_step oob x m)))"
proof (cases x)
  case (MoTick now snow quote)
  show ?thesis
  proof (cases rule: mom_RunTick_cases [of oob now snow quote m])
    case (quiet m' r')
    with MoTick show ?thesis by (simp add: mom_units_def)
  next
    case (act price m3)
    have u: "mom_units m3 = mom_units m" using act(1) by (simp add: mom_units_def)
    obtain m4 ts where 4: "(if mo_position m3 \<noteq> None then maybeExit now snow price m3 else maybeEnter now snow price m3) = (m4, ts)" by force
    have "mom_trace (mom_units m3) ts = Some (mom_units m4)"
    proof (cases "mo_position m3")
      case None
      with 4 maybeEnter_cases [of now snow price m3 m4 ts] show ?thesis by (auto simp: mom_units_def)
    next
      case (Some pos)
      with 4 have "maybeExit now snow price m3 = (m4, ts)" by simp
      from maybeExit_cases [OF this] show ?thesis using mom_exit_trace by auto
    qed
    with act(3) MoTick 4 u show ?thesis by (simp add: log_of_def)
  qed
next
  case (MoClose now)
  show ?thesis
  proof (cases "mo_position m = None")
    case False
    obtain m' ts where e: "mom_exit now (latestPrice m) ''close_all'' m = (m', ts)" by force
    from mom_exit_trace [OF e False] MoClose False e show ?thesis by (simp add: mom_CloseAllPositions_def log_of_def)
  qed (use MoClose in \<open>simp add: mom_CloseAllPositions_def log_of_def\<close>)
qed (simp_all add: mom_units_def mom_IngestSample_def mom_SeedFreeCapital_def mom_ApplyAdjustments_def split: prod.splits)

text \<open>
  C22: the momentum strategy implements the two-state machine \<open>flat / long\<close>.  Over any sequence of ticks, adjustments,
  ingested samples, capital seeds and close-alls, with any quotes and clock readings, the log is an alternation of
  entries and exits that fits the position before and after: an entry only when flat, an exit only when long and
  for exactly the units that the last entry bought.
\<close>

theorem momentum_flat_or_long:
  "mom_trace (mom_units m) (snd (run_ops (mom_step oob) xs m)) = Some (mom_units (fst (run_ops (mom_step oob) xs m)))"
proof (induction xs arbitrary: m)
  case (Cons x xs)
  show ?case using Cons [of "fst (mom_step oob x m)"] mom_trace_append [OF mom_step_trace] by (simp add: Let_def)
qed simp

text \<open>
  Every momentum task the factory builds from a configuration of numbers keeps its parameters inside the hard-coded
  envelope, whatever the strategist sends: after any sequence of calls (adjustments of any numbers, including
  ones that fail half way) each knob lies between its floor and its ceiling, and the trades of the day never exceed the ceiling of 200.
\<close>

theorem momentum_envelope:
  assumes "mom_cfg_numbers cfg" "NewMomentum clients cfg = Inr m" "list_all mom_call xs"
  shows "mom_inv (fst (run_ops (mom_step oob) xs m))"
  using mom_New_ok [OF assms(1,2)] assms(3) by (intro mom_m.run_inv) (simp_all add: mom_inv_def mom_bounds)

definition mom_demo :: MomentumConfig where
  "mom_demo = \<lparr>mc_Chain = ''base'', mc_TokenPair = ''weth/usdc'', mc_LookbackMinutes = 0, mc_EntryThresholdPct = Fin 0, mc_ExitThresholdPct = Fin 0,
     mc_VolumeConfirmation = False, mc_CheckIntervalSecs = Fin 0, mc_MaxPositionSizePct = Fin 0, mc_MaxDrawdownPct = Fin 0,
     mc_StopLossPerTradePct = Fin 0, mc_MaxDailyTrades = 0, mc_MinCapitalToOperate = Fin 10\<rparr>"

lemma mom_demo_builds: "\<exists>m. NewMomentum (Some [''base'']) mom_demo = Inr m"
proof -
  have "case NewMomentum (Some [''base'']) mom_demo of Inl _ \<Rightarrow> False | Inr _ \<Rightarrow> True" by code_simp
  then show ?thesis by (cases "NewMomentum (Some [''base'']) mom_demo") auto
qed

theorem momentum_envelope_witness:
  "\<exists>m. NewMomentum (Some [''base'']) mom_demo = Inr m \<and>
     mom_inv (fst (run_ops (mom_step (\<lambda>_. 0)) [MoAdjust [(''max_daily_trades'', AdjFloat (Fin 1000))]] m))"
proof -
  obtain m where m: "NewMomentum (Some [''base'']) mom_demo = Inr m" using mom_demo_builds by blast
  have "mom_cfg_numbers mom_demo" by (simp add: mom_cfg_numbers_def mom_demo_def)
  moreover have "list_all mom_call [MoAdjust [(''max_daily_trades'', AdjFloat (Fin 1000))]]" by (simp add: proper_def toFloat_def)
  ultimately show ?thesis using momentum_envelope [OF _ m] m by blast
qed

section \<open>Volume confirmation\<close>

text \<open>Calls that leave the volume confirmation alone; ingested volumes are not negative.\<close>

fun mom_vol_call :: "mom_op \<Rightarrow> bool" where
  "mom_vol_call (MoAdjust adj) = (\<forall>(k, v) \<in> set adj. proper v \<and> k \<noteq> ''volume_confirmation'')"
| "mom_vol_call (MoIngest t p v) = fle (Fin 0) v"
| "mom_vol_call _ = True"

definition mom_vol_inv :: "Momentum \<Rightarrow> bool" where
  "mom_vol_inv m \<longleftrightarrow> mom_inv m \<and> mc_VolumeConfirmation (mo_cfg m) \<and> mo_position m = None \<and>
     (\<forall>s \<in> set (mo_history m). fle (Fin 0) (ps_Volume s)) \<and> length (mo_history m) \<le> 2 ^ 63"

lemma pushSample_history:
  "set (mo_history (pushSample oob s m)) \<subseteq> insert s (set (mo_history m))" "length (mo_history (pushSample oob s m)) \<le> 2 ^ 63"
proof -
  show "set (mo_history (pushSample oob s m)) \<subseteq> insert s (set (mo_history m))"
    by (auto simp: pushSample_def Let_def dest: in_set_dropD)
  have "is_int64 (lookbackSamples oob m)" by (simp add: lookbackSamples_def Let_def)
  then have "nat (lookbackSamples oob m) \<le> 2 ^ 63" by (simp add: is_int64_def go_defs nat_le_iff)
  then show "length (mo_history (pushSample oob s m)) \<le> 2 ^ 63"
    by (auto simp: pushSample_def Let_def)
qed

definition fold_ok :: "int \<Rightarrow> (f64 \<times> f64 \<times> f64 \<times> int) option \<Rightarrow> bool" where
  "fold_ok k acc \<longleftrightarrow> 0 \<le> k \<and> (\<forall>h l v n. acc = Some (h, l, v, n) \<longrightarrow> fle (Fin 0) v \<and> 0 < n \<and> n \<le> k)"

lemma window_fold_volume:
  "fold_ok k acc \<Longrightarrow> \<forall>s \<in> set ss. fle (Fin 0) (ps_Volume s) \<Longrightarrow> fold_ok (k + int (length ss)) (window_fold c ss acc)"
proof (induction ss arbitrary: k acc)
  case (Cons s ss)
  let ?acc = "if ps_At s < c then acc else case acc of None \<Rightarrow> Some (ps_Price s, ps_Price s, fadd (Fin 0) (ps_Volume s), 1)
    | Some (high, low, volSum, n) \<Rightarrow> Some (if flt high (ps_Price s) then ps_Price s else high, if flt (ps_Price s) low then ps_Price s else low,
            fadd volSum (ps_Volume s), n + 1)"
  have e: "window_fold c (s # ss) acc = window_fold c ss ?acc" by (simp split: option.splits prod.splits)
  have "fold_ok (k + 1) ?acc"
    using Cons.prems by (cases acc) (auto simp: fold_ok_def fadd_nonneg_ext)
  from Cons.IH [OF this] Cons.prems(2) show ?case unfolding e by (simp add: algebra_simps)
qed simp

lemma lookbackStats_volume:
  assumes "mom_vol_inv m"
  shows "fle (Fin 0) (snd (snd (snd (lookbackStats snow m))))"
proof -
  let ?w = "window_fold (snow - mc_LookbackMinutes (mo_cfg m) * Minute) (butlast (mo_history m)) None"
  have "fold_ok (0 + int (length (butlast (mo_history m)))) ?w"
    using assms by (intro window_fold_volume) (auto simp: fold_ok_def mom_vol_inv_def dest: in_set_butlastD)
  moreover have "int (length (butlast (mo_history m))) \<le> 2 ^ 63" using assms by (auto simp: mom_vol_inv_def)
  moreover have "is_fin (f64_of_int n)" if "0 < n" "n \<le> 2 ^ 63" for n
    unfolding f64_of_int_def using that by (intro is_fin_rnd) (simp add: abs_le_iff)
  ultimately show ?thesis
    by (auto simp: lookbackStats_def Let_def f64_of_int_pos fold_ok_def split: option.splits intro!: fdiv_nonneg_ext)
qed

text \<open>The sample a tick appends carries volume zero, which never exceeds the average.\<close>

lemma mom_vol_blocks:
  assumes "mom_vol_inv m" "latestVolume m = Fin 0" "maybeEnter now snow price m = (m', ts)"
  shows "(m', ts) = (m, [])"
  using maybeEnter_cases [OF assms(3)] lookbackStats_volume [OF assms(1), of snow] assms(1,2) by (auto simp: mom_vol_inv_def)

lemma latestVolume_push: "0 < lookbackSamples oob m \<Longrightarrow> latestVolume (pushSample oob s m) = ps_Volume s"
  by (auto simp: latestVolume_def pushSample_def Let_def)

text \<open>Inside the envelope the window holds between 9 and 17284 samples.\<close>

lemma lookbackSamples_bounds:
  assumes "mom_cfg_ok (mo_cfg m)"
  shows "9 \<le> lookbackSamples oob m \<and> lookbackSamples oob m \<le> 17284"
proof -
  let ?L = "mc_LookbackMinutes (mo_cfg m)" and ?I = "mc_CheckIntervalSecs (mo_cfg m)"
  have L: "5 \<le> ?L" "?L \<le> 1440" using assms by (simp_all add: mom_cfg_ok_def mom_bounds)
  have I0: "fle (Fin 5) ?I" "fle ?I (Fin 3600)" using assms by (simp_all add: mom_cfg_ok_def mom_bounds in_range_def rnd_numeral)
  then have fin: "is_fin ?I" by (rule fle_between_fin) simp_all
  with I0 have I: "5 \<le> fval ?I" by (simp add: fle_fin)
  have "fmul (Fin (of_int ?L)) (Fin 60) = rnd (of_int (?L * 60))" using L by (simp add: fmul_def Let_def)
  also have "\<dots> = Fin (of_int (?L * 60))" using L by (intro rnd_int) simp
  finally have x: "fmul (f64_of_int ?L) (Fin 60) = Fin (of_int (?L * 60))" using L by (simp add: f64_of_int_fin)
  have q: "fval (Fin (of_int (?L * 60))) / fval ?I \<le> 17280"
  proof -
    have "?L * 60 \<le> 1440 * 60" using L by simp
    then have "(of_int (?L * 60) :: rat) \<le> of_int (1440 * 60)" by (simp only: of_int_le_iff)
    with I have "(of_int (?L * 60) :: rat) / fval ?I \<le> of_int (1440 * 60) / 5" by (intro frac_le) simp_all
    then show ?thesis by simp
  qed
  have "in_range (Fin (of_int 0)) (Fin (of_int 17280)) (fdiv (Fin (of_int (?L * 60))) ?I)"
    unfolding in_range_def
  proof
    show "fle (Fin (of_int 0)) (fdiv (Fin (of_int (?L * 60))) ?I)"
      using fin L I by (simp only: of_int_0) (intro fdiv_nonneg; simp add: flt_fin)
    show "fle (fdiv (Fin (of_int (?L * 60))) ?I) (Fin (of_int 17280))"
      using q fin I by (intro fle_keyI [of _ _ _ 17280, OF _ _ fdiv_key]) (simp_all add: rnd_numeral)
  qed
  from f64_to_int_range [OF this, of oob] show ?thesis
    using x by (simp add: lookbackSamples_def Let_def is_int64_def go_defs)
qed


lemma mom_vol_push:
  assumes "mom_vol_inv m" "fle (Fin 0) (ps_Volume s)"
  shows "mom_vol_inv (pushSample oob s m)"
  using assms pushSample_history [of oob s m] by (auto simp: mom_vol_inv_def mom_inv_def)

lemma mom_vol_tick:
  assumes "mom_vol_inv m"
  shows "mom_vol_inv (fst (mom_step oob (MoTick now snow quote) m)) \<and> snd (mom_step oob (MoTick now snow quote) m) = []"
proof -
  have i: "mom_inv (fst (mom_step oob (MoTick now snow quote) m))" using assms by (intro mom_step_inv) (simp_all add: mom_vol_inv_def)
  show ?thesis
  proof (cases rule: mom_RunTick_cases [of oob now snow quote m])
    case (quiet m' r')
    with i assms show ?thesis by (simp add: mom_vol_inv_def)
  next
    case (act price m3)
    let ?m2 = "(mom_maybeResetDaily now m)\<lparr>mo_lastCheck := now\<rparr>"
    have r: "0 \<le> mo_dailyTotal (mom_maybeResetDaily now m) \<and> mo_dailyTotal (mom_maybeResetDaily now m) \<le> momMaxDailyCeil"
      using assms by (intro resetDaily_total) (simp_all add: mom_vol_inv_def mom_inv_def mom_bounds)
    have m2: "mom_vol_inv ?m2" using assms r by (simp add: mom_vol_inv_def mom_inv_def)
    then have "0 < lookbackSamples oob ?m2" using lookbackSamples_bounds [of ?m2 oob] by (simp add: mom_vol_inv_def mom_inv_def)
    then have v: "latestVolume m3 = Fin 0" unfolding act(1) by (subst latestVolume_push) simp_all
    have m3: "mom_vol_inv m3" unfolding act(1) using m2 by (rule mom_vol_push) simp
    obtain m4 ts where 4: "maybeEnter now snow price m3 = (m4, ts)" by force
    from mom_vol_blocks [OF m3 v 4] have "m4 = m3" "ts = []" by simp_all
    moreover have "mo_position m3 = None" using m3 by (simp add: mom_vol_inv_def)
    ultimately show ?thesis using act(3) 4 m3 by (simp add: log_of_def)
  qed
qed

lemma mom_knob_vol: "mom_knob oob k v c = Inr c' \<Longrightarrow> k \<noteq> ''volume_confirmation'' \<Longrightarrow> mc_VolumeConfirmation c' = mc_VolumeConfirmation c"
  unfolding mom_knob_def by (auto simp: numeric_Inr split: if_splits)

lemma mom_adjust_vol:
  "\<forall>(k, v) \<in> set adj. proper v \<and> k \<noteq> ''volume_confirmation'' \<Longrightarrow>
   mc_VolumeConfirmation (fst (apply_all (mom_knob oob) adj c)) = mc_VolumeConfirmation c"
  by (rule apply_all_frame [where key = "''volume_confirmation''"]) (erule (1) mom_knob_vol, auto)

lemma mom_vol_step:
  assumes "mom_vol_inv m" "mom_vol_call x"
  shows "mom_vol_inv (fst (mom_step oob x m)) \<and> snd (mom_step oob x m) = []"
proof (cases x)
  case (MoAdjust adj)
  have i: "mom_inv (fst (mom_step oob x m))" using assms MoAdjust by (intro mom_step_inv) (auto simp: mom_vol_inv_def)
  with assms MoAdjust mom_adjust_vol [of adj oob "mo_cfg m"] show ?thesis
    by (auto simp: mom_vol_inv_def mom_ApplyAdjustments_def split: prod.splits)
next
  case (MoIngest t p v)
  with assms show ?thesis by (simp add: mom_IngestSample_def mom_vol_push)
qed (use assms mom_vol_tick in \<open>auto simp: mom_vol_inv_def mom_inv_def mom_SeedFreeCapital_def mom_CloseAllPositions_def log_of_def\<close>)

interpretation mom_vol: task_machine "mom_step oob" mom_vol_call mom_vol_inv for oob
  using mom_vol_step by unfold_locales blast

text \<open>
  C28: a momentum task built with volume confirmation switched on never trades.  Ticks record every price with volume zero, so
  the newest volume can not exceed the average of the window: over any sequence of ticks, ingested samples with
  volumes that are not negative, seeds, closes and adjustments of the other knobs, for every quote, the log stays empty.
\<close>

theorem momentum_volume_confirmation_never_trades:
  assumes "mom_cfg_numbers cfg" "NewMomentum clients cfg = Inr m" "mc_VolumeConfirmation cfg" "list_all mom_vol_call xs"
  shows "snd (run_ops (mom_step oob) xs m) = []"
proof -
  have "mc_VolumeConfirmation (mo_cfg m)" "mo_history m = []"
    using assms(2,3) by (auto simp: NewMomentum_def Let_def bindr_Ok_iff mom_applyDefaults_def split: option.splits if_splits)
  then have "mom_vol_inv m" using mom_New_ok [OF assms(1,2)] by (simp add: mom_vol_inv_def mom_inv_def mom_bounds)
  then have "list_all (\<lambda>_. False) (snd (run_ops (mom_step oob) xs m))"
    using assms(4) mom_vol_step by (intro mom_vol.run_log) auto
  then show ?thesis by (cases "snd (run_ops (mom_step oob) xs m)") simp_all
qed

definition mom_demo_ops :: "mom_op list" where
  "mom_demo_ops = [MoSeed (Fin 1000), MoIngest Second (Fin 100) (Fin 5), MoTick (60 * Second) (60 * Second) (flat_quote (Fin 128))]"

theorem momentum_volume_confirmation_never_trades_witness:
  "\<exists>m. NewMomentum (Some [''base'']) (mom_demo\<lparr>mc_VolumeConfirmation := True\<rparr>) = Inr m \<and> snd (run_ops (mom_step (\<lambda>_. 0)) mom_demo_ops m) = []"
proof -
  let ?c = "mom_demo\<lparr>mc_VolumeConfirmation := True\<rparr>"
  have "case NewMomentum (Some [''base'']) ?c of Inl _ \<Rightarrow> False | Inr _ \<Rightarrow> True" by code_simp
  then obtain m where m: "NewMomentum (Some [''base'']) ?c = Inr m" by (cases "NewMomentum (Some [''base'']) ?c") auto
  have "mom_cfg_numbers ?c" "mc_VolumeConfirmation ?c" by (simp_all add: mom_cfg_numbers_def mom_demo_def)
  moreover have "list_all mom_vol_call mom_demo_ops" by (simp add: mom_demo_ops_def)
  ultimately show ?thesis using momentum_volume_confirmation_never_trades [OF _ m] m by blast
qed

end
