(* ===== verification/Liquidity.thy ===== *)
theory Liquidity
  imports TaskUtil
begin

text \<open>
  \<^verbatim>\<open>internal/agent/tasks/liquidity_provision.go\<close> and \<^verbatim>\<open>liquidity_provision_config.go\<close>: a band of liquidity around the
  spot price, moved when the price drifts.  Only prices come from the chain; no code of the repository credits
  fees to a position, so the model's histories have none either.
\<close>

section \<open>Configuration\<close>

record LiquidityProvisionConfig =
  lc_Chain :: string
  lc_TokenPair :: string
  lc_PoolAddress :: string
  lc_FeeTier :: string
  lc_RangeWidthPct :: f64
  lc_RebalanceThresholdPct :: f64
  lc_CheckIntervalSecs :: f64
  lc_MaxDrawdownPct :: f64
  lc_MinCapitalToOperate :: f64

definition rangeWidthFloor :: f64 where "rangeWidthFloor = rnd (5 / 1000)"
definition rangeWidthCeil :: f64 where "rangeWidthCeil = rnd 1"
definition rebalanceThreshFloor :: f64 where "rebalanceThreshFloor = rnd (1 / 1000)"
definition rebalanceThreshCeil :: f64 where "rebalanceThreshCeil = rnd (5 / 10)"
definition lpCheckIntervalFloor :: f64 where "lpCheckIntervalFloor = rnd 5"
definition lpCheckIntervalCeil :: f64 where "lpCheckIntervalCeil = rnd 3600"

lemmas lp_bounds = rangeWidthFloor_def rangeWidthCeil_def rebalanceThreshFloor_def rebalanceThreshCeil_def lpCheckIntervalFloor_def lpCheckIntervalCeil_def

definition lp_applyDefaults :: "LiquidityProvisionConfig \<Rightarrow> LiquidityProvisionConfig" where
  "lp_applyDefaults c =
     c\<lparr>lc_RangeWidthPct := default_f (lc_RangeWidthPct c) (rnd (10 / 100)),
       lc_RebalanceThresholdPct := default_f (lc_RebalanceThresholdPct c) (rnd (3 / 100)),
       lc_CheckIntervalSecs := default_f (lc_CheckIntervalSecs c) (rnd 60)\<rparr>"

definition lp_Validate :: "LiquidityProvisionConfig \<Rightarrow> unit result" where
  "lp_Validate c =
     (if lc_Chain c = [] then Fail ''liquidity_provision: chain required''
      else if lc_Chain c \<noteq> ''solana'' \<and> lc_Chain c \<noteq> ''base'' then Fail ''liquidity_provision: chain must be solana or base''
      else if lc_TokenPair c = [] then Fail ''liquidity_provision: token_pair required''
      else bindr (splitTokenPair (lc_TokenPair c)) (\<lambda>_. first_error
        [(outside rangeWidthFloor rangeWidthCeil (lc_RangeWidthPct c), ''liquidity_provision: range_width_pct out of range''),
         (outside rebalanceThreshFloor rebalanceThreshCeil (lc_RebalanceThresholdPct c), ''liquidity_provision: rebalance_threshold_pct out of range''),
         (outside lpCheckIntervalFloor lpCheckIntervalCeil (lc_CheckIntervalSecs c), ''liquidity_provision: check_interval_secs out of range'')]))"

section \<open>State\<close>

record lpPosition =
  lp_OpenedAt :: time
  lp_CenterPrice :: f64
  lp_LowerPrice :: f64
  lp_UpperPrice :: f64
  lp_ValueUSD :: f64
  lp_EntryPrice :: f64
  lp_FeesEarned :: f64

record feeEvent =
  fe_At :: time
  fe_Amount :: f64

record LiquidityProvision =
  li_cfg :: LiquidityProvisionConfig
  li_tokenA :: string
  li_tokenB :: string
  li_position :: "lpPosition option"
  li_freeCapital :: f64
  li_lastCheck :: time
  li_lastPrice :: f64
  li_lastRebalance :: time
  li_feeHistory :: "feeEvent list"

definition NewLiquidityProvision :: "string list option \<Rightarrow> LiquidityProvisionConfig \<Rightarrow> LiquidityProvision result" where
  "NewLiquidityProvision clients cfg0 =
     (let cfg = lp_applyDefaults cfg0 in
      bindr (lp_Validate cfg) (\<lambda>_.
        case clients of
          None \<Rightarrow> Fail ''liquidity_provision: deps.Clients required''
        | Some names \<Rightarrow>
            if lc_Chain cfg \<notin> set names then Fail ''liquidity_provision: chain missing from deps.Clients''
            else bindr (splitTokenPair (lc_TokenPair cfg)) (\<lambda>(a, b).
              Ok \<lparr>li_cfg = cfg, li_tokenA = a, li_tokenB = b, li_position = None, li_freeCapital = Fin 0, li_lastCheck = zero_time,
                  li_lastPrice = Fin 0, li_lastRebalance = zero_time, li_feeHistory = []\<rparr>)))"

definition lp_SeedFreeCapital :: "f64 \<Rightarrow> LiquidityProvision \<Rightarrow> LiquidityProvision" where
  "lp_SeedFreeCapital usd l = l\<lparr>li_freeCapital := usd\<rparr>"

section \<open>Operations\<close>

definition ImpermanentLoss :: "f64 \<Rightarrow> f64 \<Rightarrow> f64" where
  "ImpermanentLoss entry current =
     (if fle entry (Fin 0) \<or> fle current (Fin 0) then Fin 0
      else let r = fdiv current entry in fsub (fdiv (fmul (Fin 2) (fsqrt r)) (fadd (Fin 1) r)) (Fin 1))"

definition lp_totalCapital :: "LiquidityProvision \<Rightarrow> f64" where
  "lp_totalCapital l = (case li_position l of None \<Rightarrow> li_freeCapital l | Some p \<Rightarrow> fadd (li_freeCapital l) (lp_ValueUSD p))"

definition openPosition :: "time \<Rightarrow> f64 \<Rightarrow> LiquidityProvision \<Rightarrow> LiquidityProvision \<times> TaskTrade list" where
  "openPosition now price l =
     (let half = fdiv (lc_RangeWidthPct (li_cfg l)) (Fin 2); deposit = li_freeCapital l in
      if fle deposit (Fin 0) then (l, [])
      else let pos = \<lparr>lp_OpenedAt = now, lp_CenterPrice = price, lp_LowerPrice = fmul price (fsub (Fin 1) half), lp_UpperPrice = fmul price (fadd (Fin 1) half),
                      lp_ValueUSD = deposit, lp_EntryPrice = price, lp_FeesEarned = Fin 0\<rparr>
        in (l\<lparr>li_position := Some pos, li_freeCapital := Fin 0, li_lastRebalance := now\<rparr>,
            [zero_trade\<lparr>tt_Chain := lc_Chain (li_cfg l), tt_TradeType := ''lp_open'', tt_TokenPair := lc_TokenPair (li_cfg l), tt_DEX := lc_PoolAddress (li_cfg l),
               tt_AmountIn := deposit, tt_AmountOut := deposit, tt_IsPaperTrade := True, tt_ExecutedAt := now,
               tt_Metadata := [(''center'', JFloat price), (''lower'', JFloat (lp_LowerPrice pos)), (''upper'', JFloat (lp_UpperPrice pos)),
                               (''fee_tier'', JStr (lc_FeeTier (li_cfg l)))]\<rparr>]))"

definition closePosition :: "time \<Rightarrow> string \<Rightarrow> LiquidityProvision \<Rightarrow> LiquidityProvision \<times> TaskTrade list" where
  "closePosition now why l =
     (case li_position l of
        None \<Rightarrow> (l, [])
      | Some pos \<Rightarrow>
          let il = ImpermanentLoss (lp_EntryPrice pos) (li_lastPrice l);
              net = fadd (fmul (lp_ValueUSD pos) (fadd (Fin 1) il)) (lp_FeesEarned pos);
              netValue = (if flt net (Fin 0) then Fin 0 else net)
          in (l\<lparr>li_freeCapital := fadd (li_freeCapital l) netValue, li_position := None\<rparr>,
              [zero_trade\<lparr>tt_Chain := lc_Chain (li_cfg l), tt_TradeType := ''lp_close'', tt_TokenPair := lc_TokenPair (li_cfg l), tt_DEX := lc_PoolAddress (li_cfg l),
                 tt_AmountIn := lp_ValueUSD pos, tt_AmountOut := netValue, tt_PnL := fsub netValue (lp_ValueUSD pos), tt_IsPaperTrade := True, tt_ExecutedAt := now,
                 tt_Metadata := [(''reason'', JStr why), (''il_fraction'', JFloat il), (''fees_earned'', JFloat (lp_FeesEarned pos)),
                                 (''entry_price'', JFloat (lp_EntryPrice pos)), (''exit_price'', JFloat (li_lastPrice l))]\<rparr>]))"

definition lp_price :: "Quote \<Rightarrow> f64" where
  "lp_price q = (if feq (qt_Price q) (Fin 0) \<and> flt (Fin 0) (qt_AmountIn q) then fdiv (qt_AmountOut q) (qt_AmountIn q) else qt_Price q)"

definition lp_RunTick :: "(f64 \<Rightarrow> int) \<Rightarrow> time \<Rightarrow> quoter \<Rightarrow> LiquidityProvision \<Rightarrow> LiquidityProvision \<times> TaskTrade list result" where
  "lp_RunTick oob now quote l0 =
     (if throttled oob (lc_CheckIntervalSecs (li_cfg l0)) (li_lastCheck l0) now then (l0, Ok [])
      else let l1 = l0\<lparr>li_lastCheck := now\<rparr> in
        if flt (lp_totalCapital l1) (lc_MinCapitalToOperate (li_cfg l1)) then (l1, Ok [])
        else case quote (li_tokenA l1) (li_tokenB l1) (Fin 1) of
          Inl e \<Rightarrow> (l1, Inl (Wrap ''liquidity_provision: get quote'' e))
        | Inr q \<Rightarrow>
            let price = lp_price q in
            if fle price (Fin 0) then (l1, Fail ''liquidity_provision: non-positive price'')
            else let l2 = l1\<lparr>li_lastPrice := price\<rparr> in
              (case li_position l2 of
                 None \<Rightarrow> (case openPosition now price l2 of (l3, ts) \<Rightarrow> (l3, Ok ts))
               | Some pos \<Rightarrow>
                   let drift = fdiv (math_Abs (fsub price (lp_CenterPrice pos))) (lp_CenterPrice pos) in
                   if flt drift (lc_RebalanceThresholdPct (li_cfg l2)) then (l2, Ok [])
                   else case closePosition now ''rebalance'' l2 of
                     (l3, exits) \<Rightarrow> (case openPosition now price l3 of (l4, enters) \<Rightarrow> (l4, Ok (exits @ enters)))))"

fun fees_since :: "time \<Rightarrow> feeEvent list \<Rightarrow> f64 \<Rightarrow> f64" where
  "fees_since cutoff [] acc = acc"
| "fees_since cutoff (e # es) acc = fees_since cutoff es (if cutoff < fe_At e then fadd acc (fe_Amount e) else acc)"

definition feesEarnedSince :: "time \<Rightarrow> duration \<Rightarrow> LiquidityProvision \<Rightarrow> f64" where
  "feesEarnedSince now d l = fees_since (now - d) (li_feeHistory l) (Fin 0)"

definition lp_GetStateSummary :: "time \<Rightarrow> LiquidityProvision \<Rightarrow> (string \<times> jval) list result" where
  "lp_GetStateSummary now l =
     Ok ([(''chain'', JStr (lc_Chain (li_cfg l))), (''token_pair'', JStr (lc_TokenPair (li_cfg l))), (''free_capital_usd'', JFloat (li_freeCapital l)),
          (''last_price'', JFloat (li_lastPrice l)), (''fees_24h_usd'', JFloat (feesEarnedSince now (24 * Hour) l))] @
         (case li_position l of None \<Rightarrow> []
          | Some p \<Rightarrow> [(''band'', JMap [(''center'', JFloat (lp_CenterPrice p)), (''lower'', JFloat (lp_LowerPrice p)), (''upper'', JFloat (lp_UpperPrice p)),
                         (''value'', JFloat (lp_ValueUSD p))]),
                       (''il_estimate'', JFloat (ImpermanentLoss (lp_EntryPrice p) (li_lastPrice l))),
                       (''fees_earned_total_usd'', JFloat (lp_FeesEarned p))]) @
         (if li_lastRebalance l = zero_time then [] else [(''last_rebalance_at'', JStr (FormatRFC3339 (li_lastRebalance l)))]))"

definition lp_knob :: "time \<Rightarrow> string \<Rightarrow> adjustment \<Rightarrow> LiquidityProvision \<Rightarrow> LiquidityProvision result" where
  "lp_knob now k raw l =
     (if k = ''range_width_pct'' then numeric ''liquidity_provision: range_width_pct not numeric'' raw
        (\<lambda>v. l\<lparr>li_cfg := (li_cfg l)\<lparr>lc_RangeWidthPct := tasks_clampFloat v rangeWidthFloor rangeWidthCeil\<rparr>\<rparr>)
      else if k = ''rebalance_threshold_pct'' then numeric ''liquidity_provision: rebalance_threshold_pct not numeric'' raw
        (\<lambda>v. l\<lparr>li_cfg := (li_cfg l)\<lparr>lc_RebalanceThresholdPct := tasks_clampFloat v rebalanceThreshFloor rebalanceThreshCeil\<rparr>\<rparr>)
      else if k = ''check_interval_secs'' then numeric ''liquidity_provision: check_interval_secs not numeric'' raw
        (\<lambda>v. l\<lparr>li_cfg := (li_cfg l)\<lparr>lc_CheckIntervalSecs := tasks_clampFloat v lpCheckIntervalFloor lpCheckIntervalCeil\<rparr>\<rparr>)
      else if k = ''pull_liquidity'' then boolean ''liquidity_provision: pull_liquidity not boolean'' raw
        (\<lambda>b. if b \<and> li_position l \<noteq> None then fst (closePosition now ''pull_liquidity'' l) else l)
      else Ok l)"

definition lp_ApplyAdjustments :: "time \<Rightarrow> (string \<times> adjustment) list \<Rightarrow> LiquidityProvision \<Rightarrow> LiquidityProvision \<times> unit result" where
  "lp_ApplyAdjustments now adj l = apply_all (lp_knob now) adj l"

definition lp_GetPositionValue :: "LiquidityProvision \<Rightarrow> f64 result" where
  "lp_GetPositionValue l = (case li_position l of None \<Rightarrow> Ok (Fin 0) | Some p \<Rightarrow> Ok (lp_ValueUSD p))"

definition lp_CloseAllPositions :: "time \<Rightarrow> LiquidityProvision \<Rightarrow> LiquidityProvision \<times> TaskTrade list result" where
  "lp_CloseAllPositions now l =
     (if li_position l = None then (l, Ok []) else case closePosition now ''close_all'' l of (l', ts) \<Rightarrow> (l', Ok ts))"

definition liquidityProvisionFactory ::
  "(string \<Rightarrow> LiquidityProvisionConfig result) \<Rightarrow> LiquidityProvisionConfig \<Rightarrow> string list option option \<Rightarrow> string \<Rightarrow> LiquidityProvision result" where
  "liquidityProvisionFactory decode zero_cfg deps raw =
     (case deps of
        None \<Rightarrow> Fail ''liquidity_provision: SetLiquidityProvisionDeps not called''
      | Some clients \<Rightarrow>
          bindr (if raw = [] then Ok zero_cfg else wrapr ''liquidity_provision: decode config'' (decode raw)) (NewLiquidityProvision clients))"

section \<open>Impermanent loss\<close>

text \<open>Prices the arithmetic of the ratio handles without overflow.\<close>

definition sane_price :: "f64 \<Rightarrow> bool" where
  "sane_price p \<longleftrightarrow> is_f64 p \<and> in_range (Fin (1 / 2 ^ 400)) (Fin (2 ^ 400)) p"

lemma sane_price_fin:
  assumes "sane_price p"
  shows "is_fin p" "1 / 2 ^ 400 \<le> fval p" "fval p \<le> 2 ^ 400" "0 < fval p" "\<not> fle p (Fin 0)"
proof -
  show f: "is_fin p" using assms fle_between_fin [of "Fin (1 / 2 ^ 400)" p "Fin (2 ^ 400)"] by (simp add: sane_price_def in_range_def)
  with assms show v: "1 / 2 ^ 400 \<le> fval p" "fval p \<le> 2 ^ 400" by (auto simp: sane_price_def in_range_def fle_fin)
  from less_le_trans [OF _ v(1), of 0] show p: "0 < fval p" by simp
  with f show "\<not> fle p (Fin 0)" by (simp add: fle_fin)
qed

lemma rnd_pow2: "- 1074 \<le> k \<Longrightarrow> k \<le> 1000 \<Longrightarrow> rnd (2 powi k) = Fin (2 powi k)"
proof -
  assume k: "- 1074 \<le> k" "k \<le> 1000"
  have "(2::rat) powi k \<le> 2 powi 1000" by (rule powi2_mono [OF k(2)])
  also have "\<dots> < overflow" unfolding overflow_def power_int_numeral by (rule power_strict_increasing) simp_all
  finally show ?thesis using rnd_exact [of 1 k] k(1) by (simp add: abs_of_pos)
qed

lemma ratio_bounds:
  assumes "sane_price p" "sane_price q"
  shows "is_fin (fdiv p q)" "is_f64 (fdiv p q)" "flt (Fin 0) (fdiv p q)" "is_fin (fadd (Fin 1) (fdiv p q))"
proof -
  note P = sane_price_fin [OF assms(1)] and Q = sane_price_fin [OF assms(2)]
  have hi: "fval p / fval q \<le> 2 ^ 800"
  proof -
    have "fval p / fval q \<le> 2 ^ 400 / (1 / 2 ^ 400)" using P Q by (intro frac_le) simp_all
    also have "\<dots> = 2 ^ (400 + 400)" unfolding power_add by simp
    finally show ?thesis by (simp only: numeral_plus_numeral semiring_norm)
  qed
  have lo: "1 / 2 ^ 800 \<le> fval p / fval q"
  proof -
    have "(1 / 2 ^ 400) / 2 ^ 400 \<le> fval p / fval q" using P Q by (intro frac_le) simp_all
    moreover have "(1 / 2 ^ 400) / 2 ^ 400 = (1::rat) / 2 ^ (400 + 400)" unfolding power_add by simp
    ultimately show ?thesis by (simp only: numeral_plus_numeral semiring_norm)
  qed
  have "fval p / fval q \<noteq> 0" "fval q \<noteq> 0" using P Q by simp_all
  then have e: "fdiv p q = rnd (fval p / fval q)" using P Q by (auto simp: fdiv_def Let_def is_fin_not_nan)
  have ab: "\<bar>fval p / fval q\<bar> \<le> 2 ^ 1000"
  proof -
    have "\<bar>fval p / fval q\<bar> \<le> 2 ^ 800" using hi P Q by simp
    also have "\<dots> \<le> (2::rat) ^ 1000" by (rule power_increasing) simp_all
    finally show ?thesis .
  qed
  then show f: "is_fin (fdiv p q)" unfolding e by (rule is_fin_rnd)
  show "is_f64 (fdiv p q)" unfolding e by simp
  show "flt (Fin 0) (fdiv p q)" unfolding e 
    by (rule rnd_powi_pos [of "- 800"]) (use lo in \<open>simp_all add: power_int_minus inverse_eq_divide\<close>)
  have "fle (fdiv p q) (Fin (2 powi 800))"
    using rnd_mono [OF hi] rnd_pow2 [of 800] unfolding e power_int_numeral by simp
  with f have r: "fval (fdiv p q) \<le> 2 ^ 800" by (simp only: fle_fin is_fin.simps fval.simps power_int_numeral)
  have r0: "0 \<le> fval (fdiv p q)" using \<open>flt (Fin 0) (fdiv p q)\<close> f by (simp add: flt_fin)
  have "\<bar>1 + fval (fdiv p q)\<bar> \<le> 1 + 2 ^ 800" using r r0 by linarith
  also have "\<dots> \<le> (2::rat) ^ 801" by simp
  also have "\<dots> \<le> (2::rat) ^ 1000" by (rule power_increasing) simp_all
  finally have s: "\<bar>1 + fval (fdiv p q)\<bar> \<le> 2 ^ 1000" .
  have "1 + fval (fdiv p q) \<noteq> 0" using r0 by linarith
  then have "fadd (Fin 1) (fdiv p q) = rnd (1 + fval (fdiv p q))" using f by (auto simp: fadd_def Let_def is_fin_not_nan)
  then show "is_fin (fadd (Fin 1) (fdiv p q))" using is_fin_rnd [OF s] by simp
qed

text \<open>The loss is a fraction between a total loss and none.\<close>

lemma ImpermanentLoss_range:
  assumes "sane_price entry" "sane_price current"
  shows "is_fin (ImpermanentLoss entry current)" "is_f64 (ImpermanentLoss entry current)"
    "fle (Fin (-1)) (ImpermanentLoss entry current)" "fle (ImpermanentLoss entry current) (Fin 0)"
proof -
  define r where "r = fdiv current entry"
  define n where "n = fmul (Fin 2) (fsqrt r)"
  define d where "d = fadd (Fin 1) r"
  note R = ratio_bounds [OF assms(2,1), folded r_def]
  have il: "ImpermanentLoss entry current = fsub (fdiv n d) (Fin 1)"
    using sane_price_fin(5) [OF assms(1)] sane_price_fin(5) [OF assms(2)] by (simp add: ImpermanentLoss_def n_def d_def r_def Let_def)
  from fsqrt_double_le [OF R(2,1,3,4)] have s: "is_fin (fsqrt r)" "2 * fval (fsqrt r) \<le> fval d" by (simp_all add: d_def)
  have s0: "fle (Fin 0) (fsqrt r)" using R by (intro fsqrt_nonneg) (simp_all add: flt_imp_fle)
  have f: "is_fin d" "is_f64 d" "is_f64 n" using R by (simp_all add: d_def n_def is_f64_fsqrt is_f64_Fin rnd_numeral)
  have "fle (Fin 1) d" unfolding d_def using R by (intro fadd_ge) (simp_all add: is_f64_Fin flt_imp_fle)
  then have d0: "flt (Fin 0) d" by (rule flt_fle_trans [rotated]) simp
  have n0: "fle (Fin 0) n" unfolding n_def using s(1) s0 by (intro fmul_nonneg) simp_all
  have nd: "fle n d" unfolding n_def
    by (rule fle_keyI [OF _ _ fmul_key is_f64_rnd_fval [OF f(2,1), symmetric]]) (use s f in \<open>simp_all add: is_fin_not_nan\<close>)
  have nf: "is_fin n" using fle_between_fin [OF n0 nd] f by simp
  define q where "q = fdiv n d"
  have q: "fle (Fin 0) q" "fle q (Fin 1)" unfolding q_def using nf f n0 nd d0 by (simp_all add: fdiv_nonneg fdiv_le_1)
  then have qf: "is_fin q" by (rule fle_between_fin) simp_all
  have "is_f64 q" using f by (simp add: q_def)
  then show "is_f64 (ImpermanentLoss entry current)" by (simp add: il q_def [symmetric] is_f64_Fin)
  have e: "fsub (Fin 0) (Fin 1) = Fin (-1)" "fsub (Fin 1) (Fin 1) = Fin 0" using rnd_int [of "-1"] by (simp_all add: fsub_def fadd_def Let_def fzero_def)
  show lo: "fle (Fin (-1)) (ImpermanentLoss entry current)" "fle (ImpermanentLoss entry current) (Fin 0)"
    using fsub_mono [of "Fin 0" q "Fin 1" "Fin 1"] fsub_mono [of q "Fin 1" "Fin 1" "Fin 1"] q qf by (simp_all add: il q_def [symmetric] e)
  then show "is_fin (ImpermanentLoss entry current)" by (rule fle_between_fin) simp_all
qed

section \<open>Histories\<close>

datatype lp_op = LpTick time quoter | LpAdjust time "(string \<times> adjustment) list" | LpClose time

fun lp_step :: "(f64 \<Rightarrow> int) \<Rightarrow> lp_op \<Rightarrow> LiquidityProvision \<Rightarrow> LiquidityProvision \<times> TaskTrade list" where
  "lp_step oob (LpTick now quote) l = map_prod (\<lambda>x. x) log_of (lp_RunTick oob now quote l)"
| "lp_step oob (LpAdjust now adj) l = (fst (lp_ApplyAdjustments now adj l), [])"
| "lp_step oob (LpClose now) l = map_prod (\<lambda>x. x) log_of (lp_CloseAllPositions now l)"

fun lp_call :: "lp_op \<Rightarrow> bool" where
  "lp_call (LpTick now quote) = (\<forall>a b x. case quote a b x of Inl e \<Rightarrow> True | Inr q \<Rightarrow> sane_price (lp_price q))"
| "lp_call (LpAdjust now adj) = (\<forall>(k, v) \<in> set adj. proper v)"
| "lp_call (LpClose now) = True"

definition lp_cfg_ok :: "LiquidityProvisionConfig \<Rightarrow> bool" where
  "lp_cfg_ok c \<longleftrightarrow> in_range rangeWidthFloor rangeWidthCeil (lc_RangeWidthPct c) \<and>
     in_range rebalanceThreshFloor rebalanceThreshCeil (lc_RebalanceThresholdPct c) \<and>
     in_range lpCheckIntervalFloor lpCheckIntervalCeil (lc_CheckIntervalSecs c)"

text \<open>With budget \<open>C\<close>: all capital is either free or in the position, and is at most \<open>C\<close>.\<close>

definition usd :: "f64 \<Rightarrow> f64 \<Rightarrow> bool" where
  "usd C v \<longleftrightarrow> is_f64 v \<and> in_range (Fin 0) C v"

definition lp_inv :: "f64 \<Rightarrow> LiquidityProvision \<Rightarrow> bool" where
  "lp_inv C l \<longleftrightarrow> is_fin C \<and> lp_cfg_ok (li_cfg l) \<and>
     (case li_position l of
        None \<Rightarrow> usd C (li_freeCapital l)
      | Some p \<Rightarrow> li_freeCapital l = Fin 0 \<and> usd C (lp_ValueUSD p) \<and> lp_FeesEarned p = Fin 0 \<and> sane_price (lp_EntryPrice p) \<and> sane_price (li_lastPrice l))"

lemma usd_fin: "usd C v \<Longrightarrow> is_fin C \<Longrightarrow> is_fin v"
  unfolding usd_def in_range_def using fle_between_fin [of "Fin 0" v C] by simp

text \<open>What a close pays back.\<close>

lemma net_value:
  assumes "usd C v" "is_fin C" "is_fin il" "is_f64 il" "fle (Fin (-1)) il" "fle il (Fin 0)"
  shows "fle (Fin 0) (fmul v (fadd (Fin 1) il))" "fle (fmul v (fadd (Fin 1) il)) v" "is_f64 (fmul v (fadd (Fin 1) il))"
proof -
  have v: "is_fin v" "is_f64 v" "fle (Fin 0) v" using assms(1,2) by (auto simp: usd_fin) (auto simp: usd_def in_range_def)
  have e: "fadd (Fin 1) (Fin (-1)) = Fin 0" "fadd (Fin 1) (Fin 0) = Fin 1" by (simp_all add: fadd_def Let_def fzero_def)
  define x where "x = fadd (Fin 1) il"
  have x: "fle (Fin 0) x" "fle x (Fin 1)"
    using fadd_mono [of "Fin 1" "Fin 1" "Fin (-1)" il] fadd_mono [of "Fin 1" "Fin 1" il "Fin 0"] assms(3-) by (simp_all add: x_def e)
  then have xf: "is_fin x" by (rule fle_between_fin) simp_all
  show "fle (Fin 0) (fmul v (fadd (Fin 1) il))" unfolding x_def [symmetric] using v xf x by (intro fmul_nonneg)
  show "is_f64 (fmul v (fadd (Fin 1) il))" using v assms(4) by (simp add: is_f64_Fin)
  have "fval v * fval x \<le> fval v" using x xf v by (auto simp: fle_fin intro: mult_left_le)
  then show "fle (fmul v (fadd (Fin 1) il)) v" unfolding x_def [symmetric]
    by (intro fle_keyI [OF _ _ fmul_key is_f64_rnd_fval [OF v(2,1), symmetric]]) (use xf v in \<open>simp_all add: is_fin_not_nan\<close>)
qed

lemma usd_add_zero: "usd C x \<Longrightarrow> is_fin C \<Longrightarrow> usd C (fadd x (Fin 0)) \<and> usd C (fadd (Fin 0) x)"
proof -
  assume x: "usd C x" "is_fin C"
  then have f: "is_fin x" "is_f64 x" using usd_fin by (auto simp: usd_def)
  then have k: "fkey (fadd x (Fin 0)) = fkey x" "fkey (fadd (Fin 0) x) = fkey x" by (simp_all add: fadd_key is_f64_rnd_fval)
  from x f show ?thesis by (simp add: usd_def in_range_def fle_def k is_f64_Fin)
qed

lemma usd_trans: "usd v x \<Longrightarrow> usd C v \<Longrightarrow> usd C x"
  by (auto simp: usd_def in_range_def intro: fle_trans)

lemma closePosition_inv:
  assumes "lp_inv C l" "li_position l = Some p" "closePosition now why l = (l', ts)"
  shows "li_position l' = None \<and> li_cfg l' = li_cfg l \<and> usd C (li_freeCapital l') \<and>
    (\<exists>t. ts = [t] \<and> tt_TradeType t = ''lp_close'' \<and> usd C (tt_AmountIn t) \<and> usd (tt_AmountIn t) (tt_AmountOut t))"
proof -
  let ?v = "lp_ValueUSD p" and ?il = "ImpermanentLoss (lp_EntryPrice p) (li_lastPrice l)"
  let ?net = "fadd (fmul ?v (fadd (Fin 1) ?il)) (Fin 0)"
  have i: "is_fin C" "usd C ?v" "li_freeCapital l = Fin 0" "lp_FeesEarned p = Fin 0" "sane_price (lp_EntryPrice p)" "sane_price (li_lastPrice l)"
    using assms(1,2) by (simp_all add: lp_inv_def)
  note il = ImpermanentLoss_range [OF i(5,6)]
  have "usd ?v (fmul ?v (fadd (Fin 1) ?il))" using net_value [OF i(2,1) il] by (simp add: usd_def in_range_def)
  with usd_fin [OF i(2,1)] have n: "usd ?v ?net" by (simp add: usd_add_zero)
  then have nn: "\<not> flt ?net (Fin 0)" by (auto simp: usd_def in_range_def dest: flt_fle_trans)
  have "usd C (fadd (Fin 0) ?net)" using usd_add_zero [OF usd_trans [OF n i(2)] i(1)] by blast
  then show ?thesis using assms(2,3) i n nn by (auto simp: closePosition_def Let_def zero_trade_def)
qed

lemma openPosition_inv:
  assumes "lp_inv C l" "li_position l = None" "sane_price price" "li_lastPrice l = price" "openPosition now price l = (l', ts)"
  shows "lp_inv C l' \<and> (\<forall>t \<in> set ts. tt_TradeType t = ''lp_open'' \<and> usd C (tt_AmountIn t) \<and> tt_AmountOut t = tt_AmountIn t)"
  using assms by (auto simp: openPosition_def Let_def lp_inv_def zero_trade_def split: if_splits)

text \<open>The trades of the strategy: opens pay in what they get, closes never pay out more than they paid in.\<close>

definition lp_trade_ok :: "f64 \<Rightarrow> TaskTrade \<Rightarrow> bool" where
  "lp_trade_ok C t \<longleftrightarrow> usd C (tt_AmountIn t) \<and>
     (tt_TradeType t = ''lp_open'' \<and> tt_AmountOut t = tt_AmountIn t \<or> tt_TradeType t = ''lp_close'' \<and> usd (tt_AmountIn t) (tt_AmountOut t))"

lemma lp_close_inv:
  assumes "lp_inv C l" "li_position l = Some p" "closePosition now why l = (l', ts)"
  shows "lp_inv C l' \<and> list_all (lp_trade_ok C) ts"
  using closePosition_inv [OF assms] assms(1) by (auto simp: lp_inv_def lp_trade_ok_def)

lemma lp_tick:
  assumes "lp_inv C l" "lp_call (LpTick now quote)"
  shows "lp_inv C (fst (lp_step oob (LpTick now quote) l)) \<and> list_all (lp_trade_ok C) (snd (lp_step oob (LpTick now quote) l))"
proof -
  let ?l1 = "l\<lparr>li_lastCheck := now\<rparr>"
  have i1: "lp_inv C ?l1" using assms(1) by (simp add: lp_inv_def split: option.splits)
  show ?thesis
  proof (cases "throttled oob (lc_CheckIntervalSecs (li_cfg l)) (li_lastCheck l) now \<or> flt (lp_totalCapital ?l1) (lc_MinCapitalToOperate (li_cfg l)) \<or>
      (case quote (li_tokenA l) (li_tokenB l) (Fin 1) of Inl e \<Rightarrow> True | Inr q \<Rightarrow> fle (lp_price q) (Fin 0))")
    case True
    with i1 assms(1) show ?thesis by (auto simp: lp_RunTick_def Let_def log_of_def split: sum.splits)
  next
    case False
    then obtain q where q: "quote (li_tokenA l) (li_tokenB l) (Fin 1) = Inr q" "\<not> fle (lp_price q) (Fin 0)" by (auto split: sum.splits)
    then have sp: "sane_price (lp_price q)" using assms(2) by (auto split: sum.splits)
    let ?l2 = "?l1\<lparr>li_lastPrice := lp_price q\<rparr>"
    have i2: "lp_inv C ?l2" using i1 sp by (simp add: lp_inv_def split: option.splits)
    show ?thesis
    proof (cases "li_position l")
      case None
      obtain l3 ts where o: "openPosition now (lp_price q) ?l2 = (l3, ts)" by force
      have "lp_RunTick oob now quote l = (l3, Ok ts)" using False q None o by (simp add: lp_RunTick_def Let_def)
      with openPosition_inv [OF i2 _ sp _ o] None show ?thesis by (auto simp: log_of_def lp_trade_ok_def list_all_iff)
    next
      case (Some p)
      let ?drift = "fdiv (math_Abs (fsub (lp_price q) (lp_CenterPrice p))) (lp_CenterPrice p)"
      obtain l3 ts where c: "closePosition now ''rebalance'' ?l2 = (l3, ts)" by force
      obtain l4 us where o: "openPosition now (lp_price q) l3 = (l4, us)" by force
      have l3: "lp_inv C l3" "list_all (lp_trade_ok C) ts" using lp_close_inv [OF i2 _ c] Some by simp_all
      have "li_position l3 = None" "li_lastPrice l3 = lp_price q" using c Some by (auto simp: closePosition_def Let_def)
      then have l4: "lp_inv C l4" "list_all (lp_trade_ok C) us"
        using openPosition_inv [OF l3(1) _ sp _ o] by (auto simp: lp_trade_ok_def list_all_iff)
      have "lp_RunTick oob now quote l = (if flt ?drift (lc_RebalanceThresholdPct (li_cfg l)) then (?l2, Ok []) else (l4, Ok (ts @ us)))"
        using False q Some c o by (simp add: lp_RunTick_def Let_def)
      with i2 l3 l4 show ?thesis by (simp add: log_of_def)
    qed
  qed
qed

lemma lp_knob_ok:
  assumes "lp_inv C l" "proper v" "lp_knob now k v l = Inr l'"
  shows "lp_inv C l'"
proof (cases "k = ''pull_liquidity''")
  case True
  then show ?thesis using assms(1,3) lp_close_inv [OF assms(1), of _ now "''pull_liquidity''"]
    by (cases "closePosition now ''pull_liquidity'' l") (auto simp: lp_knob_def boolean_Inr split: if_splits)
next
  case False
  have c: "in_range (rnd (5 / 1000)) (rnd 1) (tasks_clampFloat x (rnd (5 / 1000)) (rnd 1))"
    "in_range (rnd (1 / 1000)) (rnd (5 / 10)) (tasks_clampFloat x (rnd (1 / 1000)) (rnd (5 / 10)))"
    "in_range (rnd 5) (rnd 3600) (tasks_clampFloat x (rnd 5) (rnd 3600))" if "toFloat v = Some x" for x
    by (rule clamp_rnd [OF proper_Some [OF assms(2) that]], simp)+
  from False assms(1,3) c [folded lp_bounds] show ?thesis
    unfolding lp_knob_def by (auto simp: numeric_Inr lp_inv_def lp_cfg_ok_def split: if_splits option.splits)
qed

interpretation lp: task_knobs "lp_knob now" "lp_inv C" for now C
  by unfold_locales (rule lp_knob_ok)

lemma lp_step_ok:
  assumes "lp_inv C l" "lp_call x"
  shows "lp_inv C (fst (lp_step oob x l)) \<and> list_all (lp_trade_ok C) (snd (lp_step oob x l))"
proof (cases x)
  case (LpAdjust now adj)
  with assms lp.apply_ok [of C l adj now] show ?thesis by (simp add: lp_ApplyAdjustments_def)
next
  case (LpClose now)
  with assms show ?thesis using lp_close_inv [OF assms(1), of _ now "''close_all''"]
    by (cases "closePosition now ''close_all'' l") (auto simp: lp_CloseAllPositions_def log_of_def)
qed (use assms lp_tick in blast)

interpretation lp_m: task_machine "lp_step oob" lp_call "lp_inv C" for oob C
  using lp_step_ok by unfold_locales blast

section \<open>Properties\<close>

definition lp_cfg_numbers :: "LiquidityProvisionConfig \<Rightarrow> bool" where
  "lp_cfg_numbers c \<longleftrightarrow> \<not> is_nan (lc_RangeWidthPct c) \<and> \<not> is_nan (lc_RebalanceThresholdPct c) \<and> \<not> is_nan (lc_CheckIntervalSecs c)"

lemma lp_New_ok:
  assumes "lp_cfg_numbers cfg" "NewLiquidityProvision clients cfg = Inr l"
  shows "lp_cfg_ok (li_cfg l) \<and> li_position l = None"
proof -
  have n: "lp_cfg_numbers (lp_applyDefaults cfg)"
    using assms(1) by (simp add: lp_cfg_numbers_def lp_applyDefaults_def default_f_number)
  from assms(2) have "\<exists>u. lp_Validate (lp_applyDefaults cfg) = Inr u" "li_cfg l = lp_applyDefaults cfg" "li_position l = None"
    by (auto simp: NewLiquidityProvision_def Let_def bindr_Ok_iff split: option.splits if_splits)
  with n show ?thesis
    unfolding lp_Validate_def lp_cfg_ok_def lp_cfg_numbers_def lp_bounds
    by (auto simp: bindr_Ok_iff intro!: not_outside split: if_splits)
qed

lemma lp_inv_total:
  assumes "lp_inv C l"
  shows "usd C (lp_totalCapital l)"
proof (cases "li_position l")
  case (Some p)
  with assms usd_add_zero [of C "lp_ValueUSD p"] show ?thesis by (simp add: lp_inv_def lp_totalCapital_def)
qed (use assms in \<open>simp add: lp_inv_def lp_totalCapital_def\<close>)

text \<open>
  C23: A liquidity-provision task can not gain.  Seeded with \<open>C\<close> dollars, over any sequence of ticks, strategist adjustments
  (the pulling of liquidity included) and close-alls, with prices between \<open>2^-400\<close> and \<open>2^400\<close>: the
  total of free capital and position never exceeds \<open>C\<close> and never falls below zero, the knobs stay inside their
  envelope, an open deposits what it records, and every close returns between nothing and what was deposited, rounding included.
\<close>

theorem lp_capital_never_grows:
  assumes "lp_cfg_numbers cfg" "NewLiquidityProvision clients cfg = Inr l" "is_fin C" "usd C C" "list_all lp_call xs"
  shows "case run_ops (lp_step oob) xs (lp_SeedFreeCapital C l) of
    (l', trades) \<Rightarrow> usd C (lp_totalCapital l') \<and> lp_cfg_ok (li_cfg l') \<and> list_all (lp_trade_ok C) trades"
proof -
  define r where "r = run_ops (lp_step oob) xs (lp_SeedFreeCapital C l)"
  have i: "lp_inv C (lp_SeedFreeCapital C l)"
    using lp_New_ok [OF assms(1,2)] assms(3,4) by (simp add: lp_inv_def lp_SeedFreeCapital_def)
  have e: "lp_inv C (fst r)" unfolding r_def using i assms(5) by (rule lp_m.run_inv)
  have "list_all (lp_trade_ok C) (snd r)"
    unfolding r_def using lp_step_ok i assms(5) by (intro lp_m.run_log) blast+
  with e lp_inv_total [OF e] show ?thesis by (simp add: lp_inv_def r_def [symmetric] case_prod_beta)
qed

definition lp_demo :: LiquidityProvisionConfig where
  "lp_demo = \<lparr>lc_Chain = ''solana'', lc_TokenPair = ''SOL/USDC'', lc_PoolAddress = ''pool'', lc_FeeTier = ''30bps'', lc_RangeWidthPct = Fin 0,
     lc_RebalanceThresholdPct = Fin 0, lc_CheckIntervalSecs = Fin 0, lc_MaxDrawdownPct = Fin 0, lc_MinCapitalToOperate = Fin 0\<rparr>"

definition lp_demo_ops :: "lp_op list" where
  "lp_demo_ops = [LpTick Second (flat_quote (Fin 4)), LpTick (100 * Second) (flat_quote (Fin 16)), LpAdjust (200 * Second) [(''pull_liquidity'', AdjJson (JsBool True))]]"

lemma sane_price_small: "1 \<le> n \<Longrightarrow> n \<le> 2 ^ 20 \<Longrightarrow> sane_price (Fin (of_int n))"
proof -
  assume n: "1 \<le> n" "n \<le> 2 ^ 20"
  then have r: "(1::rat) \<le> of_int n" "(of_int n :: rat) \<le> of_int (2 ^ 20)" by (simp_all only: of_int_le_iff of_int_1_le_iff)
  have "1 / 2 ^ 400 \<le> (1::rat)" by simp
  also have "\<dots> \<le> of_int n" by (rule r(1))
  finally have a: "1 / 2 ^ 400 \<le> (of_int n :: rat)" .
  have "(of_int n :: rat) \<le> 2 ^ 20" using r(2) by simp
  also have "(2::rat) ^ 20 \<le> 2 ^ 400" by (rule power_increasing) simp_all
  finally have b: "(of_int n :: rat) \<le> 2 ^ 400" .
  have "rnd (of_int n) = Fin (of_int n)" using n by (intro rnd_int) simp
  with a b show ?thesis by (simp add: sane_price_def in_range_def is_f64_Fin fle_fin)
qed

theorem lp_capital_never_grows_witness:
  "\<exists>l. NewLiquidityProvision (Some [''solana'']) lp_demo = Inr l \<and>
     usd (Fin 1000) (lp_totalCapital (fst (run_ops (lp_step (\<lambda>_. 0)) lp_demo_ops (lp_SeedFreeCapital (Fin 1000) l))))"
proof -
  have "case NewLiquidityProvision (Some [''solana'']) lp_demo of Inl _ \<Rightarrow> False | Inr _ \<Rightarrow> True" by code_simp
  then obtain l where l: "NewLiquidityProvision (Some [''solana'']) lp_demo = Inr l" by (cases "NewLiquidityProvision (Some [''solana'']) lp_demo") auto
  have n: "lp_cfg_numbers lp_demo" by (simp add: lp_cfg_numbers_def lp_demo_def)
  have c: "usd (Fin 1000) (Fin 1000)" by (simp add: usd_def in_range_def is_f64_Fin rnd_numeral)
  have "list_all lp_call lp_demo_ops"
    using sane_price_small [of 4] sane_price_small [of 16]
    by (simp add: lp_demo_ops_def flat_quote_def lp_price_def proper_def toFloat_def)
  from lp_capital_never_grows [OF n l _ c this, of "\<lambda>_. 0"] l show ?thesis by (auto simp: case_prod_beta)
qed

end
