(* ===== verification/Liquidation.thy ===== *)
theory Liquidation
  imports TaskUtil
begin

text \<open>
  \<^verbatim>\<open>internal/agent/tasks/liquidation_hunting.go\<close> and \<^verbatim>\<open>liquidation_hunting_config.go\<close>: scanning lending protocols for
  positions to liquidate, under a quota per UTC day.  The chain client is two arguments: the positions of
  a protocol, and the outcome of the \<open>n\<close>-th liquidation attempted in the tick.
\<close>

section \<open>Configuration\<close>

record LiquidationHuntingConfig =
  hc_Chain :: string
  hc_Protocols :: "string list"
  hc_MinProfitUSD :: f64
  hc_HealthFactorThreshold :: f64
  hc_CheckIntervalSecs :: f64
  hc_MaxPositionSizeUSD :: f64
  hc_MaxDailyLiquidations :: int
  hc_MinCapitalToOperate :: f64

definition liqMinProfitFloor :: f64 where "liqMinProfitFloor = rnd 0"
definition liqMinProfitCeil :: f64 where "liqMinProfitCeil = rnd 100000"
definition liqHFThresholdFloor :: f64 where "liqHFThresholdFloor = rnd (50 / 100)"
definition liqHFThresholdCeil :: f64 where "liqHFThresholdCeil = rnd (150 / 100)"
definition liqCheckIntervalFloor :: f64 where "liqCheckIntervalFloor = rnd 1"
definition liqCheckIntervalCeil :: f64 where "liqCheckIntervalCeil = rnd 600"
definition liqMaxDailyFloor :: int where "liqMaxDailyFloor = 1"
definition liqMaxDailyCeil :: int where "liqMaxDailyCeil = 1000"

lemmas liq_bounds = liqMinProfitFloor_def liqMinProfitCeil_def liqHFThresholdFloor_def liqHFThresholdCeil_def liqCheckIntervalFloor_def
  liqCheckIntervalCeil_def liqMaxDailyFloor_def liqMaxDailyCeil_def

definition liq_applyDefaults :: "LiquidationHuntingConfig \<Rightarrow> LiquidationHuntingConfig" where
  "liq_applyDefaults c =
     c\<lparr>hc_HealthFactorThreshold := default_f (hc_HealthFactorThreshold c) (rnd 1),
       hc_CheckIntervalSecs := default_f (hc_CheckIntervalSecs c) (rnd 10),
       hc_MaxDailyLiquidations := (if hc_MaxDailyLiquidations c = 0 then 20 else hc_MaxDailyLiquidations c),
       hc_MinProfitUSD := default_f (hc_MinProfitUSD c) (rnd 5),
       hc_MaxPositionSizeUSD := default_f (hc_MaxPositionSizeUSD c) (rnd 10000)\<rparr>"

definition liq_Validate :: "LiquidationHuntingConfig \<Rightarrow> unit result" where
  "liq_Validate c =
     (if hc_Chain c = [] then Fail ''liquidation_hunting: chain required''
      else if hc_Chain c \<noteq> ''solana'' \<and> hc_Chain c \<noteq> ''base'' then Fail ''liquidation_hunting: chain must be solana or base''
      else if hc_Protocols c = [] then Fail ''liquidation_hunting: at least one protocol required''
      else first_error
        [(outside liqMinProfitFloor liqMinProfitCeil (hc_MinProfitUSD c), ''liquidation_hunting: min_profit_usd out of range''),
         (outside liqHFThresholdFloor liqHFThresholdCeil (hc_HealthFactorThreshold c), ''liquidation_hunting: health_factor_threshold out of range''),
         (outside liqCheckIntervalFloor liqCheckIntervalCeil (hc_CheckIntervalSecs c), ''liquidation_hunting: check_interval_secs out of range''),
         (hc_MaxDailyLiquidations c < liqMaxDailyFloor \<or> liqMaxDailyCeil < hc_MaxDailyLiquidations c, ''liquidation_hunting: max_daily_liquidations out of range''),
         (fle (hc_MaxPositionSizeUSD c) (Fin 0), ''liquidation_hunting: max_position_size_usd must be positive''),
         (flt (hc_MinCapitalToOperate c) (Fin 0), ''liquidation_hunting: min_capital_to_operate must be non-negative'')])"

section \<open>State\<close>

record LiquidationHunting =
  lh_cfg :: LiquidationHuntingConfig
  lh_freeCapital :: f64
  lh_lastCheck :: time
  lh_dailyDate :: string
  lh_dailyCount :: int
  lh_dailySuccess :: int
  lh_dailyAttempt :: int
  lh_totalSuccess :: int
  lh_totalAttempt :: int
  lh_atRiskSnapshot :: "LendingPosition list"

definition NewLiquidationHunting :: "string list option \<Rightarrow> LiquidationHuntingConfig \<Rightarrow> LiquidationHunting result" where
  "NewLiquidationHunting clients cfg0 =
     (let cfg = liq_applyDefaults cfg0 in
      bindr (liq_Validate cfg) (\<lambda>_.
        case clients of
          None \<Rightarrow> Fail ''liquidation_hunting: deps.Clients required''
        | Some names \<Rightarrow>
            if hc_Chain cfg \<notin> set names then Fail ''liquidation_hunting: chain missing from deps.Clients''
            else Ok \<lparr>lh_cfg = cfg, lh_freeCapital = Fin 0, lh_lastCheck = zero_time, lh_dailyDate = [], lh_dailyCount = 0, lh_dailySuccess = 0,
                     lh_dailyAttempt = 0, lh_totalSuccess = 0, lh_totalAttempt = 0, lh_atRiskSnapshot = []\<rparr>))"

definition liq_SeedFreeCapital :: "f64 \<Rightarrow> LiquidationHunting \<Rightarrow> LiquidationHunting" where
  "liq_SeedFreeCapital usd l = l\<lparr>lh_freeCapital := usd\<rparr>"

section \<open>The scan\<close>

type_synonym lender = "string \<Rightarrow> LendingPosition list result"
type_synonym liquidator = "nat \<Rightarrow> LendingPosition \<Rightarrow> TxResult option result"

text \<open>The variables of a tick: the task, the trades, the positions at risk, the last error and the number of attempts.\<close>

record scan =
  sc_task :: LiquidationHunting
  sc_out :: "TaskTrade list"
  sc_atRisk :: "LendingPosition list"
  sc_lastErr :: "error option"
  sc_tries :: nat

definition estProfit :: "LendingPosition \<Rightarrow> f64" where
  "estProfit pos = fmul (lp_CollateralAmt pos) (fdiv (lp_LiquidationBonus pos) (Fin 10000))"

definition liq_trade :: "time \<Rightarrow> LendingPosition \<Rightarrow> TxResult \<Rightarrow> TaskTrade" where
  "liq_trade now pos res =
     zero_trade\<lparr>tt_Chain := lp_Chain pos, tt_TradeType := ''liquidation'', tt_TokenPair := lp_CollateralAsset pos @ ''/'' @ lp_DebtAsset pos,
       tt_DEX := lp_Protocol pos, tt_AmountIn := lp_CollateralAmt pos, tt_AmountOut := fadd (lp_CollateralAmt pos) (estProfit pos), tt_FeePaid := Fin 0,
       tt_PnL := estProfit pos, tt_TxSignature := tx_Signature res, tt_IsPaperTrade := False, tt_ExecutedAt := now,
       tt_Metadata := [(''protocol'', JStr (lp_Protocol pos)), (''owner'', JStr (lp_Owner pos)), (''health_factor'', JFloat (lp_HealthFactor pos)),
         (''liquidation_bonus_bps'', JFloat (lp_LiquidationBonus pos)), (''collateral_asset'', JStr (lp_CollateralAsset pos)),
         (''debt_asset'', JStr (lp_DebtAsset pos))]\<rparr>"

definition attempt :: "liquidator \<Rightarrow> time \<Rightarrow> LendingPosition \<Rightarrow> scan \<Rightarrow> scan" where
  "attempt act now pos s =
     (let t = sc_task s;
          s1 = s\<lparr>sc_task := t\<lparr>lh_dailyAttempt := wrap64 (lh_dailyAttempt t + 1), lh_totalAttempt := wrap64 (lh_totalAttempt t + 1)\<rparr>, sc_tries := Suc (sc_tries s)\<rparr>
      in case act (sc_tries s) pos of
           Inl e \<Rightarrow> s1\<lparr>sc_lastErr := Some (Wrap ''liquidation_hunting: ExecuteLiquidation'' e)\<rparr>
         | Inr None \<Rightarrow> s1
         | Inr (Some res) \<Rightarrow>
             if \<not> tx_Success res then s1
             else let t1 = sc_task s1 in
               s1\<lparr>sc_task := t1\<lparr>lh_dailyCount := wrap64 (lh_dailyCount t1 + 1), lh_dailySuccess := wrap64 (lh_dailySuccess t1 + 1),
                                lh_totalSuccess := wrap64 (lh_totalSuccess t1 + 1)\<rparr>,
                  sc_out := sc_out s1 @ [liq_trade now pos res]\<rparr>)"

fun hunt_positions :: "liquidator \<Rightarrow> time \<Rightarrow> LendingPosition list \<Rightarrow> scan \<Rightarrow> scan" where
  "hunt_positions act now [] s = s"
| "hunt_positions act now (pos # ps) s =
     (let c = lh_cfg (sc_task s) in
      if fle (hc_HealthFactorThreshold c) (lp_HealthFactor pos) then hunt_positions act now ps s
      else let s1 = s\<lparr>sc_atRisk := sc_atRisk s @ [pos]\<rparr> in
        if flt (hc_MaxPositionSizeUSD c) (lp_CollateralAmt pos) then hunt_positions act now ps s1
        else if flt (estProfit pos) (hc_MinProfitUSD c) then hunt_positions act now ps s1
        else if hc_MaxDailyLiquidations c \<le> lh_dailyCount (sc_task s1) then s1
        else hunt_positions act now ps (attempt act now pos s1))"

fun hunt_protocols :: "lender \<Rightarrow> liquidator \<Rightarrow> time \<Rightarrow> string list \<Rightarrow> scan \<Rightarrow> scan" where
  "hunt_protocols get act now [] s = s"
| "hunt_protocols get act now (proto # ps) s =
     (case get proto of
        Inl e \<Rightarrow> hunt_protocols get act now ps (s\<lparr>sc_lastErr := Some (Wrap (''liquidation_hunting: GetLendingPositions('' @ proto @ '')'') e)\<rparr>)
      | Inr positions \<Rightarrow> hunt_protocols get act now ps (hunt_positions act now positions s))"

definition liq_maybeResetDaily :: "time \<Rightarrow> LiquidationHunting \<Rightarrow> LiquidationHunting" where
  "liq_maybeResetDaily now l =
     (let day = FormatDate now in
      if lh_dailyDate l = [] then l\<lparr>lh_dailyDate := day\<rparr>
      else if day \<noteq> lh_dailyDate l then l\<lparr>lh_dailyDate := day, lh_dailyCount := 0, lh_dailySuccess := 0, lh_dailyAttempt := 0\<rparr> else l)"

definition liq_RunTick :: "(f64 \<Rightarrow> int) \<Rightarrow> time \<Rightarrow> lender \<Rightarrow> liquidator \<Rightarrow> LiquidationHunting \<Rightarrow> LiquidationHunting \<times> TaskTrade list result" where
  "liq_RunTick oob now get act l0 =
     (let l1 = liq_maybeResetDaily now l0 in
      if throttled oob (hc_CheckIntervalSecs (lh_cfg l1)) (lh_lastCheck l1) now then (l1, Ok [])
      else let l2 = l1\<lparr>lh_lastCheck := now\<rparr> in
        if flt (lh_freeCapital l2) (hc_MinCapitalToOperate (lh_cfg l2)) then (l2, Ok [])
        else if hc_MaxDailyLiquidations (lh_cfg l2) \<le> lh_dailyCount l2 then (l2, Ok [])
        else let s = hunt_protocols get act now (hc_Protocols (lh_cfg l2)) \<lparr>sc_task = l2, sc_out = [], sc_atRisk = [], sc_lastErr = None, sc_tries = 0\<rparr>;
                 l3 = (sc_task s)\<lparr>lh_atRiskSnapshot := sc_atRisk s\<rparr>
          in (case sc_lastErr s of
                Some e \<Rightarrow> if sc_out s = [] then (l3, Inl e) else (l3, Ok (sc_out s))
              | None \<Rightarrow> (l3, Ok (sc_out s))))"

section \<open>The other operations\<close>

definition at_risk_entry :: "LendingPosition \<Rightarrow> jval" where
  "at_risk_entry p = JMap [(''protocol'', JStr (lp_Protocol p)), (''owner'', JStr (lp_Owner p)), (''health_factor'', JFloat (lp_HealthFactor p)),
     (''collateral_asset'', JStr (lp_CollateralAsset p)), (''collateral_amt'', JFloat (lp_CollateralAmt p)), (''debt_asset'', JStr (lp_DebtAsset p)),
     (''debt_amt'', JFloat (lp_DebtAmt p)), (''bonus_bps'', JFloat (lp_LiquidationBonus p))]"

definition top_at_risk :: "(LendingPosition list \<Rightarrow> LendingPosition list) \<Rightarrow> LiquidationHunting \<Rightarrow> LendingPosition list" where
  "top_at_risk p l = take 3 (sort_Slice p (\<lambda>a b. flt (lp_HealthFactor a) (lp_HealthFactor b)) (lh_atRiskSnapshot l))"

definition liq_GetStateSummary :: "(LendingPosition list \<Rightarrow> LendingPosition list) \<Rightarrow> LiquidationHunting \<Rightarrow> (string \<times> jval) list result" where
  "liq_GetStateSummary p l =
     (let rate = (if 0 < lh_totalAttempt l then fdiv (f64_of_int (lh_totalSuccess l)) (f64_of_int (lh_totalAttempt l)) else Fin 0) in
      Ok [(''chain'', JStr (hc_Chain (lh_cfg l))), (''protocols'', JList (map JStr (hc_Protocols (lh_cfg l)))),
          (''liquidations_today'', JInt (lh_dailyCount l)), (''max_daily'', JInt (hc_MaxDailyLiquidations (lh_cfg l))), (''success_rate'', JFloat rate),
          (''total_success'', JInt (lh_totalSuccess l)), (''total_attempts'', JInt (lh_totalAttempt l)), (''free_capital_usd'', JFloat (lh_freeCapital l)),
          (''top_at_risk'', JList (map at_risk_entry (top_at_risk p l))), (''daily_quota_used'', JInt (lh_dailyCount l))])"

definition liq_knob :: "(f64 \<Rightarrow> int) \<Rightarrow> string \<Rightarrow> adjustment \<Rightarrow> LiquidationHuntingConfig \<Rightarrow> LiquidationHuntingConfig result" where
  "liq_knob oob k raw c =
     (if k = ''min_profit_usd'' then numeric ''liquidation_hunting: min_profit_usd not numeric'' raw
        (\<lambda>v. c\<lparr>hc_MinProfitUSD := tasks_clampFloat v liqMinProfitFloor liqMinProfitCeil\<rparr>)
      else if k = ''health_factor_threshold'' then numeric ''liquidation_hunting: health_factor_threshold not numeric'' raw
        (\<lambda>v. c\<lparr>hc_HealthFactorThreshold := tasks_clampFloat v liqHFThresholdFloor liqHFThresholdCeil\<rparr>)
      else if k = ''max_daily_liquidations'' then numeric ''liquidation_hunting: max_daily_liquidations not numeric'' raw
        (\<lambda>v. c\<lparr>hc_MaxDailyLiquidations := f64_to_int oob (tasks_clampFloat v (f64_of_int liqMaxDailyFloor) (f64_of_int liqMaxDailyCeil))\<rparr>)
      else if k = ''check_interval_secs'' then numeric ''liquidation_hunting: check_interval_secs not numeric'' raw
        (\<lambda>v. c\<lparr>hc_CheckIntervalSecs := tasks_clampFloat v liqCheckIntervalFloor liqCheckIntervalCeil\<rparr>)
      else Ok c)"

definition liq_ApplyAdjustments :: "(f64 \<Rightarrow> int) \<Rightarrow> (string \<times> adjustment) list \<Rightarrow> LiquidationHunting \<Rightarrow> LiquidationHunting \<times> unit result" where
  "liq_ApplyAdjustments oob adj l = (case apply_all (liq_knob oob) adj (lh_cfg l) of (c, r) \<Rightarrow> (l\<lparr>lh_cfg := c\<rparr>, r))"

definition liq_GetPositionValue :: "LiquidationHunting \<Rightarrow> f64 result" where "liq_GetPositionValue l = Ok (Fin 0)"

definition liq_CloseAllPositions :: "LiquidationHunting \<Rightarrow> LiquidationHunting \<times> TaskTrade list result" where
  "liq_CloseAllPositions l = (l, Ok [])"

definition liquidationHuntingFactory ::
  "(string \<Rightarrow> LiquidationHuntingConfig result) \<Rightarrow> LiquidationHuntingConfig \<Rightarrow> string list option option \<Rightarrow> string \<Rightarrow> LiquidationHunting result" where
  "liquidationHuntingFactory decode zero_cfg deps raw =
     (case deps of
        None \<Rightarrow> Fail ''liquidation_hunting: SetLiquidationHuntingDeps not called''
      | Some clients \<Rightarrow>
          bindr (if raw = [] then Ok zero_cfg else wrapr ''liquidation_hunting: decode config'' (decode raw)) (NewLiquidationHunting clients))"

section \<open>The quota and the guards\<close>

definition liq_cfg_ok :: "LiquidationHuntingConfig \<Rightarrow> bool" where
  "liq_cfg_ok c \<longleftrightarrow> in_range liqMinProfitFloor liqMinProfitCeil (hc_MinProfitUSD c) \<and>
     in_range liqHFThresholdFloor liqHFThresholdCeil (hc_HealthFactorThreshold c) \<and>
     in_range liqCheckIntervalFloor liqCheckIntervalCeil (hc_CheckIntervalSecs c) \<and>
     liqMaxDailyFloor \<le> hc_MaxDailyLiquidations c \<and> hc_MaxDailyLiquidations c \<le> liqMaxDailyCeil"

text \<open>
  What every executed liquidation satisfies under the configuration in force: it is the trade of a position below the health threshold,
  not above the size limit, whose estimated profit reaches the minimum, and the transaction succeeded.
\<close>

definition liq_trade_ok :: "LiquidationHuntingConfig \<Rightarrow> TaskTrade \<Rightarrow> bool" where
  "liq_trade_ok c t \<longleftrightarrow> (\<exists>now pos res. t = liq_trade now pos res \<and> tx_Success res \<and> \<not> fle (hc_HealthFactorThreshold c) (lp_HealthFactor pos) \<and>
     \<not> flt (hc_MaxPositionSizeUSD c) (lp_CollateralAmt pos) \<and> \<not> flt (estProfit pos) (hc_MinProfitUSD c))"

text \<open>The loop invariant: configuration and date are fixed, each trade is counted, and the count stays within the quota.\<close>

definition scan_ok :: "LiquidationHunting \<Rightarrow> scan \<Rightarrow> bool" where
  "scan_ok l s \<longleftrightarrow> lh_cfg (sc_task s) = lh_cfg l \<and> lh_dailyDate (sc_task s) = lh_dailyDate l \<and>
     lh_dailyCount (sc_task s) = lh_dailyCount l + int (length (sc_out s)) \<and>
     lh_dailyCount (sc_task s) \<le> hc_MaxDailyLiquidations (lh_cfg l) \<and> list_all (liq_trade_ok (lh_cfg l)) (sc_out s)"

lemma attempt_ok:
  assumes "scan_ok l s" "liq_cfg_ok (lh_cfg l)" "0 \<le> lh_dailyCount l" "lh_dailyCount (sc_task s) < hc_MaxDailyLiquidations (lh_cfg l)"
    "\<not> fle (hc_HealthFactorThreshold (lh_cfg l)) (lp_HealthFactor pos)" "\<not> flt (hc_MaxPositionSizeUSD (lh_cfg l)) (lp_CollateralAmt pos)"
    "\<not> flt (estProfit pos) (hc_MinProfitUSD (lh_cfg l))"
  shows "scan_ok l (attempt act now pos s)"
proof -
  have "is_int64 (lh_dailyCount (sc_task s) + 1)"
    using assms(1-4) by (auto simp: scan_ok_def liq_cfg_ok_def liq_bounds is_int64_def go_defs)
  moreover have "liq_trade_ok (lh_cfg l) (liq_trade now pos res)" if "tx_Success res" for res
    using assms(5-7) that unfolding liq_trade_ok_def by blast
  ultimately show ?thesis using assms(1,4)
    by (auto simp: scan_ok_def attempt_def Let_def split: sum.splits option.splits)
qed

lemma hunt_positions_ok:
  "scan_ok l s \<Longrightarrow> liq_cfg_ok (lh_cfg l) \<Longrightarrow> 0 \<le> lh_dailyCount l \<Longrightarrow> scan_ok l (hunt_positions act now ps s)"
proof (induction act now ps s rule: hunt_positions.induct)
  case (2 act now pos ps s)
  let ?s1 = "s\<lparr>sc_atRisk := sc_atRisk s @ [pos]\<rparr>" and ?c = "lh_cfg (sc_task s)"
  have c: "?c = lh_cfg l" and s1: "scan_ok l ?s1" using 2 by (simp_all add: scan_ok_def)
  consider "fle (hc_HealthFactorThreshold ?c) (lp_HealthFactor pos)"
    | "\<not> fle (hc_HealthFactorThreshold ?c) (lp_HealthFactor pos)" "flt (hc_MaxPositionSizeUSD ?c) (lp_CollateralAmt pos) \<or> flt (estProfit pos) (hc_MinProfitUSD ?c)"
    | "\<not> fle (hc_HealthFactorThreshold ?c) (lp_HealthFactor pos)" "\<not> flt (hc_MaxPositionSizeUSD ?c) (lp_CollateralAmt pos)" "\<not> flt (estProfit pos) (hc_MinProfitUSD ?c)"
    by blast
  then show ?case
  proof cases
    case 3
    show ?thesis
    proof (cases "hc_MaxDailyLiquidations ?c \<le> lh_dailyCount (sc_task ?s1)")
      case True
      with 3 s1 show ?thesis by (simp add: Let_def)
    next
      case False
      have "scan_ok l (attempt act now pos ?s1)"
        using 2 False c s1 3 by (intro attempt_ok) auto
      with 2 3 False show ?thesis by (simp add: Let_def)
    qed
  qed (use 2 s1 in \<open>auto simp: Let_def\<close>)
qed simp

lemma hunt_protocols_ok:
  "scan_ok l s \<Longrightarrow> liq_cfg_ok (lh_cfg l) \<Longrightarrow> 0 \<le> lh_dailyCount l \<Longrightarrow> scan_ok l (hunt_protocols get act now ps s)"
proof (induction get act now ps s rule: hunt_protocols.induct)
  case (2 get act now proto ps s)
  show ?case
  proof (cases "get proto")
    case (Inl e)
    have "scan_ok l (s\<lparr>sc_lastErr := Some (Wrap (''liquidation_hunting: GetLendingPositions('' @ proto @ '')'') e)\<rparr>)" using 2 by (simp add: scan_ok_def)
    with 2 Inl show ?thesis by simp
  next
    case (Inr ps')
    with 2 show ?thesis by (simp add: hunt_positions_ok)
  qed
qed simp

text \<open>One tick: the day's counter grows by the number of trades and stays within the quota.\<close>

lemma liq_tick:
  assumes "liq_cfg_ok (lh_cfg l)" "0 \<le> lh_dailyCount l" "liq_RunTick oob now get act l = (l', r)"
  defines "l1 \<equiv> liq_maybeResetDaily now l"
  shows "lh_cfg l' = lh_cfg l \<and> lh_dailyDate l' = FormatDate now \<and> lh_dailyCount l' = lh_dailyCount l1 + int (length (log_of r)) \<and>
    (log_of r \<noteq> [] \<longrightarrow> lh_dailyCount l' \<le> hc_MaxDailyLiquidations (lh_cfg l)) \<and> list_all (liq_trade_ok (lh_cfg l)) (log_of r)"
proof -
  have l1: "lh_cfg l1 = lh_cfg l" "lh_dailyDate l1 = FormatDate now" "0 \<le> lh_dailyCount l1"
    using assms(2) by (auto simp: l1_def liq_maybeResetDaily_def Let_def)
  let ?l2 = "l1\<lparr>lh_lastCheck := now\<rparr>"
  let ?s = "hunt_protocols get act now (hc_Protocols (lh_cfg ?l2)) \<lparr>sc_task = ?l2, sc_out = [], sc_atRisk = [], sc_lastErr = None, sc_tries = 0\<rparr>"
  show ?thesis
  proof (cases "hc_MaxDailyLiquidations (lh_cfg l) \<le> lh_dailyCount l1")
    case True
    with assms(3) l1 show ?thesis by (auto simp: liq_RunTick_def Let_def log_of_def l1_def [symmetric] split: if_splits)
  next
    case False
    have "scan_ok ?l2 ?s" using False l1 assms(1) by (intro hunt_protocols_ok) (simp_all add: scan_ok_def)
    with assms(3) l1 False show ?thesis
      by (auto simp: liq_RunTick_def Let_def log_of_def l1_def [symmetric] scan_ok_def split: if_splits option.splits)
  qed
qed

section \<open>Histories\<close>

datatype liq_op = LqTick time lender liquidator | LqAdjust "(string \<times> adjustment) list" | LqSeed f64

text \<open>A call with the trades it executes, each with the configuration in force.\<close>

fun liq_step :: "(f64 \<Rightarrow> int) \<Rightarrow> liq_op \<Rightarrow> LiquidationHunting \<Rightarrow> LiquidationHunting \<times> (LiquidationHuntingConfig \<times> TaskTrade) list" where
  "liq_step oob (LqTick now get act) l = map_prod (\<lambda>x. x) (\<lambda>r. map (Pair (lh_cfg l)) (log_of r)) (liq_RunTick oob now get act l)"
| "liq_step oob (LqAdjust adj) l = (fst (liq_ApplyAdjustments oob adj l), [])"
| "liq_step oob (LqSeed usd) l = (liq_SeedFreeCapital usd l, [])"

text \<open>
  Calls under a quota \<open>Q\<close> for one day: ticks of that day, and adjustments that do not change the quota
  unless \<open>Q\<close> is the ceiling.
\<close>

fun liq_call :: "string \<Rightarrow> int \<Rightarrow> liq_op \<Rightarrow> bool" where
  "liq_call day Q (LqTick now get act) = (FormatDate now = day)"
| "liq_call day Q (LqAdjust adj) = (\<forall>(k, v) \<in> set adj. proper v \<and> (Q = liqMaxDailyCeil \<or> k \<noteq> ''max_daily_liquidations''))"
| "liq_call day Q (LqSeed usd) = True"

definition liq_inv :: "string \<Rightarrow> int \<Rightarrow> f64 \<Rightarrow> LiquidationHunting \<Rightarrow> bool" where
  "liq_inv day Q M l \<longleftrightarrow> liq_cfg_ok (lh_cfg l) \<and> hc_MaxDailyLiquidations (lh_cfg l) \<le> Q \<and> hc_MaxPositionSizeUSD (lh_cfg l) = M \<and>
     (lh_dailyDate l = [] \<or> lh_dailyDate l = day) \<and> 0 \<le> lh_dailyCount l \<and> lh_dailyCount l \<le> Q"

lemma liq_knob_ok:
  assumes "liq_cfg_ok c" "proper v" "liq_knob oob k v c = Inr c'"
  shows "liq_cfg_ok c'"
proof -
  have f: "in_range (rnd 0) (rnd 100000) (tasks_clampFloat x (rnd 0) (rnd 100000))"
    "in_range (rnd (50 / 100)) (rnd (150 / 100)) (tasks_clampFloat x (rnd (50 / 100)) (rnd (150 / 100)))"
    "in_range (rnd 1) (rnd 600) (tasks_clampFloat x (rnd 1) (rnd 600))" if "toFloat v = Some x" for x
    by (rule clamp_rnd [OF proper_Some [OF assms(2) that]], simp)+
  have i: "liqMaxDailyFloor \<le> f64_to_int oob (tasks_clampFloat x (f64_of_int liqMaxDailyFloor) (f64_of_int liqMaxDailyCeil)) \<and>
    f64_to_int oob (tasks_clampFloat x (f64_of_int liqMaxDailyFloor) (f64_of_int liqMaxDailyCeil)) \<le> liqMaxDailyCeil" if "toFloat v = Some x" for x
    using clamp_int [OF proper_Some [OF assms(2) that], of liqMaxDailyFloor liqMaxDailyCeil oob] by (simp add: liq_bounds)
  note f' = f [folded liqMinProfitFloor_def liqMinProfitCeil_def liqHFThresholdFloor_def liqHFThresholdCeil_def liqCheckIntervalFloor_def liqCheckIntervalCeil_def]
  from assms(1,3) f' i show ?thesis
    unfolding liq_knob_def by (auto simp: numeric_Inr liq_cfg_ok_def split: if_splits)
qed

interpretation liq: task_knobs "liq_knob oob" liq_cfg_ok for oob
  by unfold_locales (rule liq_knob_ok)

lemma liq_adjust_frame:
  "hc_MaxPositionSizeUSD (fst (apply_all (liq_knob oob) adj c)) = hc_MaxPositionSizeUSD c"
  "\<forall>(k, v) \<in> set adj. k \<noteq> ''max_daily_liquidations'' \<Longrightarrow>
     hc_MaxDailyLiquidations (fst (apply_all (liq_knob oob) adj c)) = hc_MaxDailyLiquidations c"
proof -
  have k: "hc_MaxPositionSizeUSD c' = hc_MaxPositionSizeUSD c" if "liq_knob oob k v c = Inr c'" for k v c c'
    using that unfolding liq_knob_def by (auto simp: numeric_Inr split: if_splits)
  show "hc_MaxPositionSizeUSD (fst (apply_all (liq_knob oob) adj c)) = hc_MaxPositionSizeUSD c"
  proof (induction adj arbitrary: c)
    case (Cons a adj)
    then show ?case by (cases a) (auto split: sum.splits dest: k)
  qed simp
  show "hc_MaxDailyLiquidations (fst (apply_all (liq_knob oob) adj c)) = hc_MaxDailyLiquidations c"
    if "\<forall>(k, v) \<in> set adj. k \<noteq> ''max_daily_liquidations''"
    by (rule apply_all_frame [OF _ that]) (auto simp: liq_knob_def numeric_Inr split: if_splits)
qed

lemma liq_reset_same_day:
  "lh_dailyDate l = [] \<or> lh_dailyDate l = FormatDate now \<Longrightarrow> lh_dailyCount (liq_maybeResetDaily now l) = lh_dailyCount l"
  by (auto simp: liq_maybeResetDaily_def Let_def)

definition liq_entry_ok :: "f64 \<Rightarrow> LiquidationHuntingConfig \<times> TaskTrade \<Rightarrow> bool" where
  "liq_entry_ok M e \<longleftrightarrow> liq_cfg_ok (fst e) \<and> hc_MaxPositionSizeUSD (fst e) = M \<and> liq_trade_ok (fst e) (snd e)"

lemma liq_step_ok:
  assumes "liq_inv day Q M l" "liq_call day Q x"
  shows "liq_inv day Q M (fst (liq_step oob x l)) \<and> list_all (liq_entry_ok M) (snd (liq_step oob x l)) \<and>
    lh_dailyCount (fst (liq_step oob x l)) = lh_dailyCount l + int (length (snd (liq_step oob x l)))"
proof (cases x)
  case (LqTick now get act)
  obtain l' r where t: "liq_RunTick oob now get act l = (l', r)" by force
  from assms LqTick have i: "liq_cfg_ok (lh_cfg l)" "0 \<le> lh_dailyCount l" "lh_dailyDate l = [] \<or> lh_dailyDate l = FormatDate now" "FormatDate now = day"
    by (auto simp: liq_inv_def)
  from liq_tick [OF i(1,2) t] liq_reset_same_day [OF i(3)] assms(1) LqTick t i(4) show ?thesis
    by (cases "log_of r = []") (auto simp: liq_inv_def list_all_iff liq_entry_ok_def)
next
  case (LqAdjust adj)
  have "liq_cfg_ok (fst (apply_all (liq_knob oob) adj (lh_cfg l)))"
    using assms LqAdjust by (intro liq.apply_ok) (auto simp: liq_inv_def)
  moreover have "hc_MaxDailyLiquidations (fst (apply_all (liq_knob oob) adj (lh_cfg l))) \<le> Q"
  proof (cases "Q = liqMaxDailyCeil")
    case True
    with calculation show ?thesis by (simp add: liq_cfg_ok_def)
  next
    case False
    with assms(2) LqAdjust have "\<forall>(k, v) \<in> set adj. k \<noteq> ''max_daily_liquidations''" by auto
    with assms(1) liq_adjust_frame(2) [of adj oob "lh_cfg l"] show ?thesis by (simp add: liq_inv_def)
  qed
  ultimately show ?thesis using assms(1) LqAdjust liq_adjust_frame(1) [of oob adj "lh_cfg l"]
    by (auto simp: liq_inv_def liq_ApplyAdjustments_def split: prod.splits)
qed (use assms in \<open>simp add: liq_inv_def liq_SeedFreeCapital_def\<close>)

interpretation liq_m: task_machine "liq_step oob" "liq_call day Q" "liq_inv day Q M" for oob day Q M
  using liq_step_ok by unfold_locales blast

lemma liq_run_count:
  "liq_inv day Q M l \<Longrightarrow> list_all (liq_call day Q) xs \<Longrightarrow>
   lh_dailyCount (fst (run_ops (liq_step oob) xs l)) = lh_dailyCount l + int (length (snd (run_ops (liq_step oob) xs l)))"
proof (induction xs arbitrary: l)
  case (Cons x xs)
  with liq_step_ok [of day Q M l x oob] show ?case by (simp add: Let_def)
qed simp

definition liq_cfg_numbers :: "LiquidationHuntingConfig \<Rightarrow> bool" where
  "liq_cfg_numbers c \<longleftrightarrow> \<not> is_nan (hc_MinProfitUSD c) \<and> \<not> is_nan (hc_HealthFactorThreshold c) \<and> \<not> is_nan (hc_CheckIntervalSecs c)"

lemma liq_New_ok:
  assumes "liq_cfg_numbers cfg" "NewLiquidationHunting clients cfg = Inr l"
  shows "liq_cfg_ok (lh_cfg l) \<and> lh_cfg l = liq_applyDefaults cfg \<and> lh_dailyCount l = 0 \<and> lh_dailyDate l = []"
proof -
  have n: "liq_cfg_numbers (liq_applyDefaults cfg)"
    using assms(1) by (simp add: liq_cfg_numbers_def liq_applyDefaults_def default_f_def)
  from assms(2) have v: "\<exists>u. liq_Validate (liq_applyDefaults cfg) = Inr u" and e: "lh_cfg l = liq_applyDefaults cfg" "lh_dailyCount l = 0" "lh_dailyDate l = []"
    by (auto simp: NewLiquidationHunting_def Let_def bindr_Ok_iff split: option.splits if_splits)
  from v n have "liq_cfg_ok (liq_applyDefaults cfg)"
    unfolding liq_Validate_def liq_cfg_ok_def liq_cfg_numbers_def
    by (auto simp: not_less liq_bounds intro!: not_outside split: if_splits)
  with e show ?thesis by simp
qed

text \<open>
  C5: the quota of the liquidation hunter.  Over any sequence of ticks on one UTC day, of adjustments and of capital seeds, with any positions
  on the chain and any outcome of each attempt, at most \<open>max_daily_liquidations\<close> liquidations are executed (at most
  1000 when the strategist may change that knob); each is counted exactly once; and each was of a position below the health
  threshold, not above the size limit and with an estimated profit of at least the minimum of the configuration in force at that tick,
  which lies in its envelope and has the size limit the task was made with.
\<close>

theorem liquidation_daily_quota:
  assumes "liq_cfg_numbers cfg" "NewLiquidationHunting clients cfg = Inr l" "list_all (liq_call day Q) xs"
    "hc_MaxDailyLiquidations (liq_applyDefaults cfg) \<le> Q"
  shows "case run_ops (liq_step oob) xs l of (l', trades) \<Rightarrow>
    int (length trades) = lh_dailyCount l' \<and> int (length trades) \<le> Q \<and> list_all (liq_entry_ok (hc_MaxPositionSizeUSD (liq_applyDefaults cfg))) trades"
proof -
  let ?M = "hc_MaxPositionSizeUSD (liq_applyDefaults cfg)"
  have i: "liq_inv day Q ?M l"
    using liq_New_ok [OF assms(1,2)] assms(4) by (auto simp: liq_inv_def liq_cfg_ok_def liq_bounds)
  have "liq_inv day Q ?M (fst (run_ops (liq_step oob) xs l))" by (rule liq_m.run_inv [OF i assms(3)])
  moreover have "list_all (liq_entry_ok ?M) (snd (run_ops (liq_step oob) xs l))"
    using liq_step_ok i assms(3) by (intro liq_m.run_log) blast+
  moreover have "lh_dailyCount l = 0" using liq_New_ok [OF assms(1,2)] by simp
  ultimately show ?thesis using liq_run_count [OF i assms(3), of oob] by (auto simp: liq_inv_def case_prod_beta)
qed

definition liq_demo :: LiquidationHuntingConfig where
  "liq_demo = \<lparr>hc_Chain = ''solana'', hc_Protocols = [''kamino'', ''marginfi''], hc_MinProfitUSD = Fin 0, hc_HealthFactorThreshold = Fin 0,
     hc_CheckIntervalSecs = Fin 0, hc_MaxPositionSizeUSD = Fin 0, hc_MaxDailyLiquidations = 2, hc_MinCapitalToOperate = Fin 0\<rparr>"

definition liq_demo_position :: LendingPosition where
  "liq_demo_position = \<lparr>lp_Chain = ''solana'', lp_Protocol = ''kamino'', lp_Owner = ''o'', lp_CollateralAsset = ''SOL'', lp_CollateralAmt = Fin 1024,
     lp_DebtAsset = ''USDC'', lp_DebtAmt = Fin 900, lp_HealthFactor = Fin (1 / 2), lp_LiquidationBonus = Fin 500\<rparr>"

definition liq_demo_ops :: "liq_op list" where
  "liq_demo_ops = [LqTick 0 (\<lambda>_. Ok [liq_demo_position, liq_demo_position]) (\<lambda>_ _. Ok (Some \<lparr>tx_Signature = ''s'', tx_Success = True, tx_GasUsed = 0,
     tx_GasPriceWei = 0, tx_FeePaidUSD = Fin 0, tx_BlockNumber = 0, tx_ErrorMsg = []\<rparr>))]"

theorem liquidation_daily_quota_witness:
  "\<exists>l. NewLiquidationHunting (Some [''solana'']) liq_demo = Inr l \<and> int (length (snd (run_ops (liq_step (\<lambda>_. 0)) liq_demo_ops l))) \<le> 2"
proof -
  have "case NewLiquidationHunting (Some [''solana'']) liq_demo of Inl _ \<Rightarrow> False | Inr _ \<Rightarrow> True" by code_simp
  then obtain l where l: "NewLiquidationHunting (Some [''solana'']) liq_demo = Inr l" by (cases "NewLiquidationHunting (Some [''solana'']) liq_demo") auto
  have n: "liq_cfg_numbers liq_demo" by (simp add: liq_cfg_numbers_def liq_demo_def)
  have c: "list_all (liq_call (FormatDate 0) 2) liq_demo_ops" by (simp add: liq_demo_ops_def)
  have "hc_MaxDailyLiquidations (liq_applyDefaults liq_demo) \<le> 2" by (simp add: liq_applyDefaults_def liq_demo_def)
  from liquidation_daily_quota [OF n l c this, of "\<lambda>_. 0"] l show ?thesis by (auto simp: case_prod_beta)
qed

end
