(* ===== verification/CrossYield.thy ===== *)
theory CrossYield
  imports TaskUtil
begin

text \<open>
  \<^verbatim>\<open>internal/agent/tasks/cross_chain_yield.go\<close> and \<^verbatim>\<open>cross_chain_yield_config.go\<close>: capital parked where the yield is
  highest.  Sums over the allocation are sums of floats in the random order of a map, so each loop over a
  map takes the order of its visit as an argument (\<open>ord\<close>, \<open>tord\<close>, indexed by the loop).  Yields are numbers.
\<close>

section \<open>Configuration\<close>

record CrossChainYieldConfig =
  yc_PrimaryChain :: string
  yc_AllowedProtocols :: "string list"
  yc_MinYieldDiffBps :: f64
  yc_MaxSingleProtocolPct :: f64
  yc_RebalanceIntervalSecs :: int
  yc_BridgeCostThreshold :: f64
  yc_MaxDrawdownPct :: f64
  yc_MinCapitalToOperate :: f64
  yc_CheckIntervalSecs :: f64

definition minYieldDiffBpsFloor :: f64 where "minYieldDiffBpsFloor = rnd 1"
definition minYieldDiffBpsCeil :: f64 where "minYieldDiffBpsCeil = rnd 5000"
definition maxSingleProtocolFloor :: f64 where "maxSingleProtocolFloor = rnd (5 / 100)"
definition maxSingleProtocolCeil :: f64 where "maxSingleProtocolCeil = rnd 1"
definition rebalanceIntervalFloor :: int where "rebalanceIntervalFloor = 60"
definition rebalanceIntervalCeil :: int where "rebalanceIntervalCeil = 7 * 24 * 3600"
definition bridgeCostFloor :: f64 where "bridgeCostFloor = rnd 0"
definition bridgeCostCeil :: f64 where "bridgeCostCeil = rnd 10000"
definition checkIntervalSecsFloor :: f64 where "checkIntervalSecsFloor = rnd 5"
definition checkIntervalSecsCeil :: f64 where "checkIntervalSecsCeil = rnd 3600"

lemmas yield_float_bounds = minYieldDiffBpsFloor_def minYieldDiffBpsCeil_def maxSingleProtocolFloor_def maxSingleProtocolCeil_def
  bridgeCostFloor_def bridgeCostCeil_def checkIntervalSecsFloor_def checkIntervalSecsCeil_def

definition yield_applyDefaults :: "CrossChainYieldConfig \<Rightarrow> CrossChainYieldConfig" where
  "yield_applyDefaults c =
     c\<lparr>yc_CheckIntervalSecs := default_f (yc_CheckIntervalSecs c) (rnd 60),
       yc_RebalanceIntervalSecs := (if yc_RebalanceIntervalSecs c = 0 then 3600 else yc_RebalanceIntervalSecs c),
       yc_MaxSingleProtocolPct := default_f (yc_MaxSingleProtocolPct c) (rnd 1),
       yc_MinYieldDiffBps := default_f (yc_MinYieldDiffBps c) (rnd 50)\<rparr>"

definition yield_Validate :: "CrossChainYieldConfig \<Rightarrow> unit result" where
  "yield_Validate c =
     (if yc_PrimaryChain c = [] then Fail ''cross_chain_yield: primary_chain required''
      else if yc_PrimaryChain c \<noteq> ''solana'' \<and> yc_PrimaryChain c \<noteq> ''base'' then Fail ''cross_chain_yield: primary_chain must be solana or base''
      else if yc_AllowedProtocols c = [] then Fail ''cross_chain_yield: allowed_protocols cannot be empty''
      else first_error
        [(outside minYieldDiffBpsFloor minYieldDiffBpsCeil (yc_MinYieldDiffBps c), ''cross_chain_yield: min_yield_diff_bps out of range''),
         (outside maxSingleProtocolFloor maxSingleProtocolCeil (yc_MaxSingleProtocolPct c), ''cross_chain_yield: max_single_protocol_pct out of range''),
         (yc_RebalanceIntervalSecs c < rebalanceIntervalFloor \<or> rebalanceIntervalCeil < yc_RebalanceIntervalSecs c,
            ''cross_chain_yield: rebalance_interval_secs out of range''),
         (outside bridgeCostFloor bridgeCostCeil (yc_BridgeCostThreshold c), ''cross_chain_yield: bridge_cost_threshold out of range''),
         (outside checkIntervalSecsFloor checkIntervalSecsCeil (yc_CheckIntervalSecs c), ''cross_chain_yield: check_interval_secs out of range'')])"

section \<open>State\<close>

record positionState =
  po_Chain :: string
  po_Asset :: string
  po_ValueUSD :: f64
  po_APY :: f64
  po_OpenedAt :: time

record rebalanceEvent =
  re_At :: time
  re_FromProto :: string
  re_ToProto :: string
  re_CapitalUSD :: f64
  re_BridgeCost :: f64
  re_DiffBps :: f64

type_synonym allocation = "(string \<times> positionState) list"
type_synonym yield_target = "(string \<times> YieldRate) list"

record CrossChainYield =
  cy_cfg :: CrossChainYieldConfig
  cy_allocation :: allocation
  cy_freeCapital :: f64
  cy_lastCheck :: time
  cy_lastRebalance :: time
  cy_lastRates :: "YieldRate list"
  cy_rebalanceHistory :: "rebalanceEvent list"

text \<open>A chain client, as far as this task uses it: the yield rates of a list of protocols.\<close>

type_synonym yield_clients = "(string \<times> (string list \<Rightarrow> YieldRate list result)) list"

definition NewCrossChainYield :: "string list option \<Rightarrow> CrossChainYieldConfig \<Rightarrow> CrossChainYield result" where
  "NewCrossChainYield clients cfg0 =
     (let cfg = yield_applyDefaults cfg0 in
      bindr (yield_Validate cfg) (\<lambda>_.
        case clients of
          None \<Rightarrow> Fail ''cross_chain_yield: deps.Clients required''
        | Some names \<Rightarrow>
            if yc_PrimaryChain cfg \<notin> set names then Fail ''cross_chain_yield: primary chain missing from deps.Clients''
            else Ok \<lparr>cy_cfg = cfg, cy_allocation = [], cy_freeCapital = Fin 0, cy_lastCheck = zero_time, cy_lastRebalance = zero_time,
                     cy_lastRates = [], cy_rebalanceHistory = []\<rparr>))"

definition yield_SeedFreeCapital :: "f64 \<Rightarrow> CrossChainYield \<Rightarrow> CrossChainYield" where
  "yield_SeedFreeCapital usd c = c\<lparr>cy_freeCapital := usd\<rparr>"

section \<open>Rates and targets\<close>

definition yield_total :: "(allocation \<Rightarrow> allocation) \<Rightarrow> CrossChainYield \<Rightarrow> f64" where
  "yield_total ord c = foldl (\<lambda>acc e. fadd acc (po_ValueUSD (snd e))) (cy_freeCapital c) (ord (cy_allocation c))"

definition sumValues :: "(allocation \<Rightarrow> allocation) \<Rightarrow> allocation \<Rightarrow> f64" where
  "sumValues ord a = foldl (\<lambda>acc e. fadd acc (po_ValueUSD (snd e))) (Fin 0) (ord a)"

definition currentBlendedAPY :: "(allocation \<Rightarrow> allocation) \<Rightarrow> CrossChainYield \<Rightarrow> f64" where
  "currentBlendedAPY ord c =
     (case foldl (\<lambda>(t, w) e. (fadd t (po_ValueUSD (snd e)), fadd w (fmul (po_ValueUSD (snd e)) (po_APY (snd e))))) (Fin 0, Fin 0) (ord (cy_allocation c)) of
        (t, w) \<Rightarrow> if fle t (Fin 0) then Fin 0 else fdiv w t)"

definition allowed_rates :: "string list \<Rightarrow> string \<Rightarrow> YieldRate list \<Rightarrow> YieldRate list" where
  "allowed_rates allowed name rates =
     map (\<lambda>r. if yr_Chain r = [] then r\<lparr>yr_Chain := name\<rparr> else r) (filter (\<lambda>r. yr_Protocol r \<in> set allowed) rates)"

fun fetch_loop :: "string list \<Rightarrow> yield_clients \<Rightarrow> string list \<Rightarrow> YieldRate list result" where
  "fetch_loop allowed clients [] = Ok []"
| "fetch_loop allowed clients (name # names) =
     (case map_of clients name of
        None \<Rightarrow> fetch_loop allowed clients names
      | Some get \<Rightarrow> bindr (wrapr (name @ ''.GetYieldRates'') (get allowed)) (\<lambda>rates.
          bindr (fetch_loop allowed clients names) (\<lambda>more. Ok (allowed_rates allowed name rates @ more))))"

definition fetchAllowedRates :: "yield_clients \<Rightarrow> CrossChainYield \<Rightarrow> YieldRate list result" where
  "fetchAllowedRates clients c = fetch_loop (yc_AllowedProtocols (cy_cfg c)) clients (stable_sort str_less (map fst clients))"

definition yield_cap :: "CrossChainYieldConfig \<Rightarrow> f64" where
  "yield_cap cfg = (if fle (yc_MaxSingleProtocolPct cfg) (Fin 0) then Fin 1 else yc_MaxSingleProtocolPct cfg)"

fun choose_loop :: "f64 \<Rightarrow> f64 \<Rightarrow> YieldRate list \<Rightarrow> yield_target \<Rightarrow> yield_target" where
  "choose_loop cap needed [] out = out"
| "choose_loop cap needed (r # rs) out =
     (let share = (if flt needed cap then needed else cap);
          out' = AList.update (yr_Protocol r) r out;
          needed' = fsub needed share
      in if fle needed' (Fin 0) then out' else choose_loop cap needed' rs out')"

definition chooseTarget :: "CrossChainYieldConfig \<Rightarrow> YieldRate list \<Rightarrow> yield_target" where
  "chooseTarget cfg rates = choose_loop (yield_cap cfg) (Fin 1) (stable_sort (\<lambda>a b. flt (yr_APY b) (yr_APY a)) rates) []"

definition blendedAPY :: "(yield_target \<Rightarrow> yield_target) \<Rightarrow> yield_target \<Rightarrow> f64" where
  "blendedAPY tord target =
     (if target = [] then Fin 0
      else let share = fdiv (Fin 1) (f64_of_int (int (length target))) in
        (case foldl (\<lambda>(s, w) e. (fadd s (fmul share (yr_APY (snd e))), fadd w share)) (Fin 0, Fin 0) (tord target) of
           (s, w) \<Rightarrow> if feq w (Fin 0) then Fin 0 else fdiv s w))"

definition estimateBridgeCost :: "(allocation \<Rightarrow> allocation) \<Rightarrow> yield_target \<Rightarrow> CrossChainYield \<Rightarrow> f64" where
  "estimateBridgeCost ord target c =
     (if cy_allocation c = [] then Fin 0
      else if \<exists>e \<in> set target. yr_Chain (snd e) \<notin> po_Chain ` snd ` set (cy_allocation c) then fmul (yield_total ord c) (rnd (5 / 1000))
      else Fin 0)"

section \<open>Rebalancing\<close>

definition exit_trade :: "time \<Rightarrow> string \<Rightarrow> string \<times> positionState \<Rightarrow> TaskTrade" where
  "exit_trade now why e = zero_trade\<lparr>tt_Chain := po_Chain (snd e), tt_TradeType := ''yield_exit'', tt_TokenPair := po_Asset (snd e), tt_DEX := fst e,
     tt_AmountIn := po_ValueUSD (snd e), tt_AmountOut := po_ValueUSD (snd e), tt_IsPaperTrade := True, tt_ExecutedAt := now,
     tt_Metadata := [(''protocol'', JStr (fst e)), (''apy'', JFloat (po_APY (snd e))), (''reason'', JStr why)]\<rparr>"

definition bridge_trade :: "time \<Rightarrow> string \<Rightarrow> f64 \<Rightarrow> TaskTrade" where
  "bridge_trade now chain cost = zero_trade\<lparr>tt_Chain := chain, tt_TradeType := ''bridge'', tt_TokenPair := ''USD'', tt_DEX := ''mock_bridge'',
     tt_AmountIn := cost, tt_AmountOut := Fin 0, tt_FeePaid := cost, tt_IsPaperTrade := True, tt_ExecutedAt := now,
     tt_Metadata := [(''reason'', JStr ''cross_chain_rebalance'')]\<rparr>"

definition enter_trade :: "time \<Rightarrow> f64 \<Rightarrow> string \<Rightarrow> YieldRate \<Rightarrow> f64 \<Rightarrow> TaskTrade" where
  "enter_trade now diffBps proto r amount = zero_trade\<lparr>tt_Chain := yr_Chain r, tt_TradeType := ''yield_enter'', tt_TokenPair := yr_Asset r, tt_DEX := proto,
     tt_AmountIn := amount, tt_AmountOut := amount, tt_IsPaperTrade := True, tt_ExecutedAt := now,
     tt_Metadata := [(''protocol'', JStr proto), (''apy'', JFloat (yr_APY r)), (''diff_bps'', JFloat diffBps)]\<rparr>"

text \<open>The opening loop: allocation, free capital, deployed capital and trades.\<close>

fun open_loop :: "time \<Rightarrow> f64 \<Rightarrow> f64 \<Rightarrow> f64 \<Rightarrow> yield_target \<Rightarrow> allocation \<times> f64 \<times> f64 \<times> TaskTrade list \<Rightarrow> allocation \<times> f64 \<times> f64 \<times> TaskTrade list" where
  "open_loop now diffBps tot share [] acc = acc"
| "open_loop now diffBps tot share ((proto, r) # es) (alloc, free, deployed, ts) =
     (let a0 = fmul tot share;
          amount = (if flt (fsub tot deployed) a0 then fsub tot deployed else a0)
      in if fle amount (Fin 0) then open_loop now diffBps tot share es (alloc, free, deployed, ts)
         else open_loop now diffBps tot share es
           (AList.update proto \<lparr>po_Chain = yr_Chain r, po_Asset = yr_Asset r, po_ValueUSD = amount, po_APY = yr_APY r, po_OpenedAt = now\<rparr> alloc,
            fsub free amount, fadd deployed amount, ts @ [enter_trade now diffBps proto r amount]))"

definition capped_share :: "CrossChainYieldConfig \<Rightarrow> yield_target \<Rightarrow> f64" where
  "capped_share cfg target =
     (let share = fdiv (Fin 1) (f64_of_int (int (length target))) in if flt (yield_cap cfg) share then yield_cap cfg else share)"

definition rebalance ::
  "(nat \<Rightarrow> allocation \<Rightarrow> allocation) \<Rightarrow> time \<Rightarrow> f64 \<Rightarrow> yield_target \<Rightarrow> f64 \<Rightarrow> f64 \<Rightarrow> CrossChainYield \<Rightarrow> CrossChainYield \<times> TaskTrade list" where
  "rebalance ord now total0 target bridgeCost diffBps c =
     (let exits = map (exit_trade now ''rebalance'') (ord 3 (cy_allocation c));
          free1 = fadd (cy_freeCapital c) (sumValues (ord 4) (cy_allocation c));
          paid = flt (Fin 0) bridgeCost;
          free2 = (if paid then fsub free1 bridgeCost else free1);
          tot = (if paid then fsub total0 bridgeCost else total0);
          bridges = (if paid then [bridge_trade now (yc_PrimaryChain (cy_cfg c)) bridgeCost] else []);
          protos = stable_sort str_less (map fst target);
          chosen = map (\<lambda>p. (p, the (map_of target p))) protos
      in case open_loop now diffBps tot (capped_share (cy_cfg c) target) chosen ([], free2, Fin 0, []) of
           (alloc, free, deployed, enters) \<Rightarrow>
             (c\<lparr>cy_allocation := alloc, cy_freeCapital := free, cy_lastRebalance := now,
                cy_rebalanceHistory := cy_rebalanceHistory c @
                  [\<lparr>re_At = now, re_FromProto = [], re_ToProto = (case protos of [] \<Rightarrow> [] | p # _ \<Rightarrow> p), re_CapitalUSD = deployed, re_BridgeCost = bridgeCost, re_DiffBps = diffBps\<rparr>]\<rparr>,
              exits @ bridges @ enters))"

definition yield_RunTick ::
  "(f64 \<Rightarrow> int) \<Rightarrow> (nat \<Rightarrow> allocation \<Rightarrow> allocation) \<Rightarrow> (yield_target \<Rightarrow> yield_target) \<Rightarrow> time \<Rightarrow> yield_clients \<Rightarrow> CrossChainYield \<Rightarrow> CrossChainYield \<times> TaskTrade list result" where
  "yield_RunTick oob ord tord now clients c0 =
     (if throttled oob (yc_CheckIntervalSecs (cy_cfg c0)) (cy_lastCheck c0) now then (c0, Ok [])
      else let c1 = c0\<lparr>cy_lastCheck := now\<rparr>; tot = yield_total (ord 0) c1 in
        if flt tot (yc_MinCapitalToOperate (cy_cfg c1)) then (c1, Ok [])
        else case fetchAllowedRates clients c1 of
          Inl e \<Rightarrow> (c1, Inl (Wrap ''cross_chain_yield: fetch rates'' e))
        | Inr rates \<Rightarrow>
            let c2 = c1\<lparr>cy_lastRates := rates\<rparr> in
            if rates = [] then (c2, Ok [])
            else if cy_lastRebalance c2 \<noteq> zero_time \<and> time_sub now (cy_lastRebalance c2) < wrap64 (yc_RebalanceIntervalSecs (cy_cfg c2) * Second) then (c2, Ok [])
            else let target = chooseTarget (cy_cfg c2) rates in
              if target = [] then (c2, Ok [])
              else let diffBps = fmul (fsub (blendedAPY tord target) (currentBlendedAPY (ord 1) c2)) (Fin 10000) in
                if flt diffBps (yc_MinYieldDiffBps (cy_cfg c2)) then (c2, Ok [])
                else let bridgeCost = estimateBridgeCost (ord 2) target c2 in
                  if flt (yc_BridgeCostThreshold (cy_cfg c2)) bridgeCost then (c2, Ok [])
                  else case rebalance ord now tot target bridgeCost diffBps c2 of (c3, ts) \<Rightarrow> (c3, Ok ts))"

section \<open>The other operations\<close>

definition rebalancesInLast :: "time \<Rightarrow> duration \<Rightarrow> CrossChainYield \<Rightarrow> int" where
  "rebalancesInLast now d c = int (length (filter (\<lambda>ev. now - d < re_At ev) (cy_rebalanceHistory c)))"

definition realized_visit :: "time \<Rightarrow> f64 \<Rightarrow> string \<times> positionState \<Rightarrow> f64" where
  "realized_visit now acc e =
     (let cutoff = now - 24 * Hour;
          start = (if po_OpenedAt (snd e) < cutoff then cutoff else po_OpenedAt (snd e));
          elapsed = time_sub now start
      in if elapsed \<le> 0 then acc
         else fadd acc (fmul (fmul (po_ValueUSD (snd e)) (po_APY (snd e))) (fdiv (Hours elapsed) (rnd 8760))))"

definition realizedYield24h :: "(allocation \<Rightarrow> allocation) \<Rightarrow> time \<Rightarrow> CrossChainYield \<Rightarrow> f64" where
  "realizedYield24h ord now c = foldl (realized_visit now) (Fin 0) (ord (cy_allocation c))"

definition rates_by_chain :: "YieldRate list \<Rightarrow> (string \<times> YieldRate list) list" where
  "rates_by_chain rates =
     foldl (\<lambda>m r. AList.update (yr_Chain r) ((case map_of m (yr_Chain r) of None \<Rightarrow> [] | Some rs \<Rightarrow> rs) @ [r]) m) [] rates"

definition top_rates :: "(YieldRate list \<Rightarrow> YieldRate list) \<Rightarrow> YieldRate list \<Rightarrow> (string \<times> jval) list" where
  "top_rates p rates =
     map (\<lambda>(ch, rs). (ch, JList (map (\<lambda>r. JMap [(''protocol'', JStr (yr_Protocol r)), (''asset'', JStr (yr_Asset r)), (''apy'', JFloat (yr_APY r))])
       (take 3 (sort_Slice p (\<lambda>a b. flt (yr_APY b) (yr_APY a)) rs))))) (rates_by_chain rates)"

definition yield_GetStateSummary ::
  "(YieldRate list \<Rightarrow> YieldRate list) \<Rightarrow> (allocation \<Rightarrow> allocation) \<Rightarrow> time \<Rightarrow> time \<Rightarrow> CrossChainYield \<Rightarrow> (string \<times> jval) list result" where
  "yield_GetStateSummary p ord now1 now2 c =
     Ok [(''allocation'', JMap (map (\<lambda>(proto, s). (proto, JMap [(''chain'', JStr (po_Chain s)), (''asset'', JStr (po_Asset s)),
            (''value_usd'', JFloat (po_ValueUSD s)), (''apy'', JFloat (po_APY s))])) (cy_allocation c))),
         (''free_capital_usd'', JFloat (cy_freeCapital c)), (''top_rates'', JMap (top_rates p (cy_lastRates c))),
         (''last_rebalance_at'', JStr (if cy_lastRebalance c = zero_time then [] else FormatRFC3339 (cy_lastRebalance c))),
         (''realized_24h_usd'', JFloat (realizedYield24h ord now1 c)), (''rebalances_24h'', JInt (rebalancesInLast now2 (24 * Hour) c))]"

definition yield_knob :: "(f64 \<Rightarrow> int) \<Rightarrow> string \<Rightarrow> adjustment \<Rightarrow> CrossChainYieldConfig \<Rightarrow> CrossChainYieldConfig result" where
  "yield_knob oob k raw c =
     (if k = ''min_yield_diff_bps'' then numeric ''cross_chain_yield: min_yield_diff_bps not numeric'' raw
        (\<lambda>v. c\<lparr>yc_MinYieldDiffBps := tasks_clampFloat v minYieldDiffBpsFloor minYieldDiffBpsCeil\<rparr>)
      else if k = ''max_single_protocol_pct'' then numeric ''cross_chain_yield: max_single_protocol_pct not numeric'' raw
        (\<lambda>v. c\<lparr>yc_MaxSingleProtocolPct := tasks_clampFloat v maxSingleProtocolFloor maxSingleProtocolCeil\<rparr>)
      else if k = ''bridge_cost_threshold'' then numeric ''cross_chain_yield: bridge_cost_threshold not numeric'' raw
        (\<lambda>v. c\<lparr>yc_BridgeCostThreshold := tasks_clampFloat v bridgeCostFloor bridgeCostCeil\<rparr>)
      else if k = ''rebalance_interval_secs'' then numeric ''cross_chain_yield: rebalance_interval_secs not numeric'' raw
        (\<lambda>v. c\<lparr>yc_RebalanceIntervalSecs := clampInt (f64_to_int oob v) rebalanceIntervalFloor rebalanceIntervalCeil\<rparr>)
      else if k = ''check_interval_secs'' then numeric ''cross_chain_yield: check_interval_secs not numeric'' raw
        (\<lambda>v. c\<lparr>yc_CheckIntervalSecs := tasks_clampFloat v checkIntervalSecsFloor checkIntervalSecsCeil\<rparr>)
      else Ok c)"

definition yield_ApplyAdjustments :: "(f64 \<Rightarrow> int) \<Rightarrow> (string \<times> adjustment) list \<Rightarrow> CrossChainYield \<Rightarrow> CrossChainYield \<times> unit result" where
  "yield_ApplyAdjustments oob adj c = (case apply_all (yield_knob oob) adj (cy_cfg c) of (cfg, r) \<Rightarrow> (c\<lparr>cy_cfg := cfg\<rparr>, r))"

definition yield_GetPositionValue :: "(allocation \<Rightarrow> allocation) \<Rightarrow> CrossChainYield \<Rightarrow> f64 result" where
  "yield_GetPositionValue ord c = Ok (sumValues ord (cy_allocation c))"

definition yield_CloseAllPositions ::
  "(allocation \<Rightarrow> allocation) \<Rightarrow> (TaskTrade list \<Rightarrow> TaskTrade list) \<Rightarrow> time \<Rightarrow> CrossChainYield \<Rightarrow> CrossChainYield \<times> TaskTrade list result" where
  "yield_CloseAllPositions ord p now c =
     (if cy_allocation c = [] then (c, Ok [])
      else let es = ord (cy_allocation c) in
        (c\<lparr>cy_freeCapital := foldl (\<lambda>acc e. fadd acc (po_ValueUSD (snd e))) (cy_freeCapital c) es, cy_allocation := []\<rparr>,
         Ok (sort_Slice p (\<lambda>a b. str_less (tt_DEX a) (tt_DEX b)) (map (exit_trade now ''close_all'') es))))"

definition crossChainYieldFactory ::
  "(string \<Rightarrow> CrossChainYieldConfig result) \<Rightarrow> CrossChainYieldConfig \<Rightarrow> string list option option \<Rightarrow> string \<Rightarrow> CrossChainYield result" where
  "crossChainYieldFactory decode zero_cfg deps raw =
     (case deps of
        None \<Rightarrow> Fail ''cross_chain_yield: SetCrossChainYieldDeps not called''
      | Some clients \<Rightarrow>
          bindr (if raw = [] then Ok zero_cfg else wrapr ''cross_chain_yield: decode config'' (decode raw)) (NewCrossChainYield clients))"

section \<open>What a rebalance opens\<close>

lemma choose_loop_protocols: "fst ` set (choose_loop cap needed rs out) \<subseteq> fst ` set out \<union> yr_Protocol ` set rs"
proof (induction cap needed rs out rule: choose_loop.induct)
  case (2 cap needed r rs out)
  have u: "fst ` set (AList.update (yr_Protocol r) r out) = insert (yr_Protocol r) (fst ` set out)" by (simp add: dom_update)
  show ?case using 2 [OF refl refl refl] u by (auto simp: Let_def)
qed simp

lemma fetch_loop_allowed: "fetch_loop allowed clients names = Inr rates \<Longrightarrow> yr_Protocol ` set rates \<subseteq> set allowed"
proof (induction names arbitrary: rates)
  case (Cons n names)
  show ?case
  proof (cases "map_of clients n")
    case None
    with Cons show ?thesis by simp
  next
    case (Some get)
    with Cons.prems obtain rs more where r: "fetch_loop allowed clients names = Inr more" "rates = allowed_rates allowed n rs @ more"
      by (auto simp: bindr_Ok_iff)
    from Cons.IH [OF r(1)] r(2) show ?thesis by (auto simp: allowed_rates_def)
  qed
qed simp

text \<open>A position a rebalance opens at \<open>now\<close> with \<open>tot\<close> dollars.\<close>

definition opened_ok :: "time \<Rightarrow> f64 \<Rightarrow> f64 \<Rightarrow> string list \<Rightarrow> string \<times> positionState \<Rightarrow> bool" where
  "opened_ok now tot share allowed e \<longleftrightarrow> fst e \<in> set allowed \<and> po_OpenedAt (snd e) = now \<and> \<not> fle (po_ValueUSD (snd e)) (Fin 0) \<and>
     \<not> flt (fmul tot share) (po_ValueUSD (snd e))"

lemma open_loop_ok:
  "\<forall>e \<in> set es. fst e \<in> set allowed \<Longrightarrow> \<forall>e \<in> set (fst acc). opened_ok now tot share allowed e \<Longrightarrow>
   \<forall>e \<in> set (fst (open_loop now d tot share es acc)). opened_ok now tot share allowed e"
proof (induction es arbitrary: acc)
  case (Cons x es)
  obtain proto r where x: "x = (proto, r)" by (cases x)
  obtain alloc free deployed ts where acc: "acc = (alloc, free, deployed, ts)" by (cases acc)
  define amount where "amount = (if flt (fsub tot deployed) (fmul tot share) then fsub tot deployed else fmul tot share)"
  have a: "\<not> flt (fmul tot share) amount" by (auto simp: amount_def fcmp_defs)
  let ?pos = "\<lparr>po_Chain = yr_Chain r, po_Asset = yr_Asset r, po_ValueUSD = amount, po_APY = yr_APY r, po_OpenedAt = now\<rparr>"
  let ?next = "if fle amount (Fin 0) then acc
    else (AList.update proto ?pos alloc, fsub free amount, fadd deployed amount, ts @ [enter_trade now d proto r amount])"
  have s: "open_loop now d tot share (x # es) acc = open_loop now d tot share es ?next"
    by (simp add: x acc Let_def amount_def)
  have "\<forall>e \<in> set (fst ?next). opened_ok now tot share allowed e"
  proof
    fix e assume e: "e \<in> set (fst ?next)"
    have "e \<in> set alloc \<or> (\<not> fle amount (Fin 0) \<and> e = (proto, ?pos))"
    proof (cases "fle amount (Fin 0)")
      case True
      with e acc show ?thesis by simp
    next
      case False
      with e have "e \<in> set (AList.update proto ?pos alloc)" by simp
      then show ?thesis using False by (induction alloc) (auto split: if_splits)
    qed
    then show "opened_ok now tot share allowed e"
      using Cons.prems a x acc by (auto simp: opened_ok_def)
  qed
  then show ?case unfolding s using Cons.prems(1) by (intro Cons.IH) simp_all
qed simp

section \<open>A tick either rebalances or leaves the books alone\<close>

definition rebalance_due :: "time \<Rightarrow> CrossChainYield \<Rightarrow> bool" where
  "rebalance_due now c \<longleftrightarrow> cy_lastRebalance c = zero_time \<or> wrap64 (yc_RebalanceIntervalSecs (cy_cfg c) * Second) \<le> time_sub now (cy_lastRebalance c)"

definition same_books :: "CrossChainYield \<Rightarrow> CrossChainYield \<Rightarrow> bool" where
  "same_books c c' \<longleftrightarrow> cy_cfg c' = cy_cfg c \<and> cy_allocation c' = cy_allocation c \<and> cy_freeCapital c' = cy_freeCapital c \<and>
     cy_lastRebalance c' = cy_lastRebalance c \<and> cy_rebalanceHistory c' = cy_rebalanceHistory c"

definition rebalanced :: "time \<Rightarrow> f64 \<Rightarrow> CrossChainYield \<Rightarrow> CrossChainYield \<Rightarrow> rebalanceEvent \<Rightarrow> bool" where
  "rebalanced now tot0 c c' ev \<longleftrightarrow> cy_cfg c' = cy_cfg c \<and> cy_rebalanceHistory c' = cy_rebalanceHistory c @ [ev] \<and> re_At ev = now \<and> cy_lastRebalance c' = now \<and>
     rebalance_due now c \<and> \<not> flt (re_DiffBps ev) (yc_MinYieldDiffBps (cy_cfg c)) \<and> \<not> flt (yc_BridgeCostThreshold (cy_cfg c)) (re_BridgeCost ev) \<and>
     (\<exists>share. \<not> flt (yield_cap (cy_cfg c)) share \<and>
        (\<forall>e \<in> set (cy_allocation c'). opened_ok now (if flt (Fin 0) (re_BridgeCost ev) then fsub tot0 (re_BridgeCost ev) else tot0) share (yc_AllowedProtocols (cy_cfg c)) e))"

text \<open>
  What a tick needs to have checked and computed before it rebalances: the check interval is over, the capital is enough to operate, the
  clients reported rates, and the gain and the bridge cost it records are those of the target chosen from them.
\<close>

definition warranted ::
  "(f64 \<Rightarrow> int) \<Rightarrow> (nat \<Rightarrow> allocation \<Rightarrow> allocation) \<Rightarrow> (yield_target \<Rightarrow> yield_target) \<Rightarrow> time \<Rightarrow> yield_clients \<Rightarrow> CrossChainYield \<Rightarrow> rebalanceEvent \<Rightarrow> bool" where
  "warranted oob ord tord now clients c ev \<longleftrightarrow>
     \<not> throttled oob (yc_CheckIntervalSecs (cy_cfg c)) (cy_lastCheck c) now \<and>
     \<not> flt (yield_total (ord 0) c) (yc_MinCapitalToOperate (cy_cfg c)) \<and>
     (\<exists>rates. fetchAllowedRates clients c = Inr rates \<and> rates \<noteq> [] \<and>
        (let target = chooseTarget (cy_cfg c) rates
         in re_DiffBps ev = fmul (fsub (blendedAPY tord target) (currentBlendedAPY (ord 1) c)) (Fin 10000) \<and>
            re_BridgeCost ev = estimateBridgeCost (ord 2) target c))"

lemma capped_share_le: "\<not> flt (yield_cap cfg) (capped_share cfg target)"
  by (simp add: capped_share_def Let_def)

lemma rebalance_books:
  assumes "rebalance ord now tot0 target cost diff c = (c', ts)" "fst ` set target \<subseteq> set (yc_AllowedProtocols (cy_cfg c))"
    "rebalance_due now c" "\<not> flt diff (yc_MinYieldDiffBps (cy_cfg c))" "\<not> flt (yc_BridgeCostThreshold (cy_cfg c)) cost"
  shows "\<exists>ev. rebalanced now tot0 c c' ev \<and> re_DiffBps ev = diff \<and> re_BridgeCost ev = cost"
proof -
  let ?tot = "if flt (Fin 0) cost then fsub tot0 cost else tot0"
  let ?free = "let free1 = fadd (cy_freeCapital c) (sumValues (ord 4) (cy_allocation c)) in if flt (Fin 0) cost then fsub free1 cost else free1"
  let ?chosen = "map (\<lambda>p. (p, the (map_of target p))) (stable_sort str_less (map fst target))"
  let ?r = "open_loop now diff ?tot (capped_share (cy_cfg c) target) ?chosen ([], ?free, Fin 0, [])"
  have o: "\<forall>e \<in> set (fst ?r). opened_ok now ?tot (capped_share (cy_cfg c) target) (yc_AllowedProtocols (cy_cfg c)) e"
    using assms(2) by (intro open_loop_ok) auto
  obtain alloc free deployed enters where r: "?r = (alloc, free, deployed, enters)" by (cases ?r)
  define ev where "ev = \<lparr>re_At = now, re_FromProto = [], re_ToProto = (case stable_sort str_less (map fst target) of [] \<Rightarrow> [] | p # _ \<Rightarrow> p),
    re_CapitalUSD = deployed, re_BridgeCost = cost, re_DiffBps = diff\<rparr>"
  have c': "c' = c\<lparr>cy_allocation := alloc, cy_freeCapital := free, cy_lastRebalance := now, cy_rebalanceHistory := cy_rebalanceHistory c @ [ev]\<rparr>"
    using assms(1) r by (auto simp: rebalance_def Let_def ev_def)
  have "rebalanced now tot0 c c' ev"
    unfolding rebalanced_def c' using assms(3-5) o r capped_share_le [of "cy_cfg c" target] by (auto simp: ev_def)
  then show ?thesis by (intro exI [of _ ev]) (simp add: ev_def)
qed

lemma plans_ignore_clock [simp]:
  "fetchAllowedRates clients (c\<lparr>cy_lastCheck := t\<rparr>) = fetchAllowedRates clients c"
  "currentBlendedAPY ord (c\<lparr>cy_lastCheck := t, cy_lastRates := rs\<rparr>) = currentBlendedAPY ord c"
  "estimateBridgeCost ord target (c\<lparr>cy_lastCheck := t, cy_lastRates := rs\<rparr>) = estimateBridgeCost ord target c"
  by (simp_all add: fetchAllowedRates_def currentBlendedAPY_def estimateBridgeCost_def yield_total_def)

lemma yield_tick:
  assumes "yield_RunTick oob ord tord now clients c = (c', r)"
  shows "same_books c c' \<and> log_of r = [] \<or>
    (\<exists>ev. rebalanced now (yield_total (ord 0) c) c c' ev \<and> warranted oob ord tord now clients c ev)"
proof -
  let ?c1 = "c\<lparr>cy_lastCheck := now\<rparr>"
  have tot: "yield_total (ord 0) ?c1 = yield_total (ord 0) c" by (simp add: yield_total_def)
  show ?thesis
  proof (cases "fetchAllowedRates clients ?c1")
    case (Inl e)
    with assms show ?thesis by (auto simp: yield_RunTick_def Let_def same_books_def log_of_def split: if_splits)
  next
    case (Inr rates)
    let ?c2 = "?c1\<lparr>cy_lastRates := rates\<rparr>"
    let ?target = "chooseTarget (cy_cfg ?c2) rates"
    let ?diff = "fmul (fsub (blendedAPY tord ?target) (currentBlendedAPY (ord 1) ?c2)) (Fin 10000)"
    let ?cost = "estimateBridgeCost (ord 2) ?target ?c2"
    have "yr_Protocol ` set rates \<subseteq> set (yc_AllowedProtocols (cy_cfg c))"
      using Inr fetch_loop_allowed by (simp add: fetchAllowedRates_def)
    then have t: "fst ` set ?target \<subseteq> set (yc_AllowedProtocols (cy_cfg ?c2))"
      using choose_loop_protocols [of "yield_cap (cy_cfg ?c2)" "Fin 1" "stable_sort (\<lambda>a b. flt (yr_APY b) (yr_APY a)) rates" "[]"]
      unfolding chooseTarget_def by auto
    obtain c3 ts where b: "rebalance ord now (yield_total (ord 0) c) ?target ?cost ?diff ?c2 = (c3, ts)" by force
    have m: "rebalanced now tot0 ?c2 c3 ev = rebalanced now tot0 c c3 ev" for tot0 ev by (simp add: rebalanced_def rebalance_due_def)
    show ?thesis
    proof (cases "same_books c c' \<and> log_of r = []")
      case False
      then have "c' = c3" and g: "rebalance_due now ?c2" "\<not> flt ?diff (yc_MinYieldDiffBps (cy_cfg ?c2))" "\<not> flt (yc_BridgeCostThreshold (cy_cfg ?c2)) ?cost"
        using assms Inr b tot
        by (auto simp: yield_RunTick_def Let_def same_books_def log_of_def rebalance_due_def simp del: yield_total_def split: if_splits)
      moreover have w: "\<not> throttled oob (yc_CheckIntervalSecs (cy_cfg c)) (cy_lastCheck c) now"
        "\<not> flt (yield_total (ord 0) c) (yc_MinCapitalToOperate (cy_cfg c))" "rates \<noteq> []"
        using False assms Inr tot by (auto simp: yield_RunTick_def Let_def same_books_def log_of_def simp del: yield_total_def split: if_splits)
      moreover obtain ev where "rebalanced now (yield_total (ord 0) c) ?c2 c3 ev" "re_DiffBps ev = ?diff" "re_BridgeCost ev = ?cost"
        using rebalance_books [OF b t g] by blast
      ultimately show ?thesis using m Inr by (auto simp: warranted_def Let_def)
    qed simp
  qed
qed

section \<open>Histories\<close>

datatype yield_op =
    YiTick "nat \<Rightarrow> allocation \<Rightarrow> allocation" "yield_target \<Rightarrow> yield_target" time yield_clients
  | YiAdjust "(string \<times> adjustment) list" | YiSeed f64
  | YiClose "allocation \<Rightarrow> allocation" "TaskTrade list \<Rightarrow> TaskTrade list" time

fun yield_step :: "(f64 \<Rightarrow> int) \<Rightarrow> yield_op \<Rightarrow> CrossChainYield \<Rightarrow> CrossChainYield \<times> TaskTrade list" where
  "yield_step oob (YiTick ord tord now clients) c = map_prod (\<lambda>x. x) log_of (yield_RunTick oob ord tord now clients c)"
| "yield_step oob (YiAdjust adj) c = (fst (yield_ApplyAdjustments oob adj c), [])"
| "yield_step oob (YiSeed usd) c = (yield_SeedFreeCapital usd c, [])"
| "yield_step oob (YiClose ord p now) c = map_prod (\<lambda>x. x) log_of (yield_CloseAllPositions ord p now c)"

fun yield_call :: "yield_op \<Rightarrow> bool" where
  "yield_call (YiTick ord tord now clients) = (now \<noteq> zero_time)"
| "yield_call (YiAdjust adj) = (\<forall>(k, v) \<in> set adj. proper v)"
| "yield_call _ = True"

definition yield_cfg_ok :: "CrossChainYieldConfig \<Rightarrow> bool" where
  "yield_cfg_ok c \<longleftrightarrow> in_range minYieldDiffBpsFloor minYieldDiffBpsCeil (yc_MinYieldDiffBps c) \<and>
     in_range maxSingleProtocolFloor maxSingleProtocolCeil (yc_MaxSingleProtocolPct c) \<and>
     rebalanceIntervalFloor \<le> yc_RebalanceIntervalSecs c \<and> yc_RebalanceIntervalSecs c \<le> rebalanceIntervalCeil \<and>
     in_range bridgeCostFloor bridgeCostCeil (yc_BridgeCostThreshold c) \<and>
     in_range checkIntervalSecsFloor checkIntervalSecsCeil (yc_CheckIntervalSecs c)"

text \<open>Rebalances at least the floor of the interval apart.\<close>

definition spaced :: "rebalanceEvent list \<Rightarrow> bool" where
  "spaced h \<longleftrightarrow> sorted_wrt (\<lambda>a b. re_At a + rebalanceIntervalFloor * Second \<le> re_At b) h"

definition yield_inv :: "string list \<Rightarrow> CrossChainYield \<Rightarrow> bool" where
  "yield_inv allowed c \<longleftrightarrow> yield_cfg_ok (cy_cfg c) \<and> yc_AllowedProtocols (cy_cfg c) = allowed \<and> spaced (cy_rebalanceHistory c) \<and>
     (cy_rebalanceHistory c \<noteq> [] \<longrightarrow> cy_lastRebalance c = re_At (last (cy_rebalanceHistory c)) \<and> re_At (last (cy_rebalanceHistory c)) \<noteq> zero_time) \<and>
     (\<forall>e \<in> set (cy_allocation c). fst e \<in> set allowed \<and> \<not> fle (po_ValueUSD (snd e)) (Fin 0))"

lemma yield_knob_ok:
  assumes "yield_cfg_ok c" "proper v" "yield_knob oob k v c = Inr c'"
  shows "yield_cfg_ok c'"
proof -
  have f: "in_range minYieldDiffBpsFloor minYieldDiffBpsCeil (tasks_clampFloat x minYieldDiffBpsFloor minYieldDiffBpsCeil)"
    "in_range maxSingleProtocolFloor maxSingleProtocolCeil (tasks_clampFloat x maxSingleProtocolFloor maxSingleProtocolCeil)"
    "in_range bridgeCostFloor bridgeCostCeil (tasks_clampFloat x bridgeCostFloor bridgeCostCeil)"
    "in_range checkIntervalSecsFloor checkIntervalSecsCeil (tasks_clampFloat x checkIntervalSecsFloor checkIntervalSecsCeil)" if "toFloat v = Some x" for x
    unfolding yield_float_bounds by (rule clamp_rnd [OF proper_Some [OF assms(2) that]], simp)+
  have i: "rebalanceIntervalFloor \<le> rebalanceIntervalCeil" by (simp add: rebalanceIntervalFloor_def rebalanceIntervalCeil_def)
  from assms(1,3) f clampInt_range [OF i] show ?thesis
    unfolding yield_knob_def by (auto simp: numeric_Inr yield_cfg_ok_def split: if_splits)
qed

interpretation yield: task_knobs "yield_knob oob" yield_cfg_ok for oob
  by unfold_locales (rule yield_knob_ok)

lemma yield_knob_allowed: "yield_knob oob k v c = Inr c' \<Longrightarrow> yc_AllowedProtocols c' = yc_AllowedProtocols c"
  unfolding yield_knob_def by (auto simp: numeric_Inr split: if_splits)

lemma yield_adjust_allowed: "yc_AllowedProtocols (fst (apply_all (yield_knob oob) adj c)) = yc_AllowedProtocols c"
proof (induction adj arbitrary: c)
  case (Cons a adj)
  then show ?case by (cases a) (auto split: sum.splits dest: yield_knob_allowed)
qed simp

lemma spaced_snoc:
  assumes "spaced h" "h \<noteq> [] \<Longrightarrow> re_At (last h) + rebalanceIntervalFloor * Second \<le> re_At ev"
  shows "spaced (h @ [ev])"
proof -
  have "re_At a + rebalanceIntervalFloor * Second \<le> re_At ev" if "a \<in> set h" for a
  proof (cases "a = last h")
    case True
    from that have "h \<noteq> []" by auto
    from assms(2) [OF this] True show ?thesis by simp
  next
    case False
    from that have "h \<noteq> []" by auto
    then have "h = butlast h @ [last h]" by simp
    with assms(1) have "\<forall>b \<in> set (butlast h). re_At b + rebalanceIntervalFloor * Second \<le> re_At (last h)"
      unfolding spaced_def by (metis sorted_wrt_append list.set_intros(1))
    moreover have "a \<in> set (butlast h)" using that False \<open>h \<noteq> []\<close> by (metis \<open>h = butlast h @ [last h]\<close> in_set_conv_decomp set_append Un_iff set_ConsD empty_iff list.set(1))
    moreover have "0 \<le> rebalanceIntervalFloor * Second" by (simp add: rebalanceIntervalFloor_def Second_def)
    ultimately show ?thesis using assms(2) \<open>h \<noteq> []\<close> by fastforce
  qed
  with assms(1) show ?thesis by (auto simp: spaced_def sorted_wrt_append)
qed

lemma due_gap:
  assumes "rebalance_due now c" "cy_lastRebalance c \<noteq> zero_time" "yield_cfg_ok (cy_cfg c)"
  shows "cy_lastRebalance c + rebalanceIntervalFloor * Second \<le> now"
proof -
  have b: "60 \<le> yc_RebalanceIntervalSecs (cy_cfg c)" "yc_RebalanceIntervalSecs (cy_cfg c) \<le> 604800"
    using assms(3) by (simp_all add: yield_cfg_ok_def rebalanceIntervalFloor_def rebalanceIntervalCeil_def)
  then have "wrap64 (yc_RebalanceIntervalSecs (cy_cfg c) * Second) = yc_RebalanceIntervalSecs (cy_cfg c) * Second"
    by (intro wrap64_id) (simp add: is_int64_def go_defs Second_def)
  with assms(1,2) have "yc_RebalanceIntervalSecs (cy_cfg c) * Second \<le> time_sub now (cy_lastRebalance c)" by (simp add: rebalance_due_def)
  moreover have "60 * Second \<le> yc_RebalanceIntervalSecs (cy_cfg c) * Second" using b by (simp add: Second_def)
  ultimately have g: "60 * Second \<le> time_sub now (cy_lastRebalance c)" by linarith
  have "0 < 60 * Second" by (simp add: Second_def)
  with g have "60 * Second \<le> now - cy_lastRebalance c" unfolding time_sub_def by (auto simp: max_def min_def go_defs split: if_splits)
  then show ?thesis by (simp add: rebalanceIntervalFloor_def)
qed

lemma yield_step_inv:
  assumes "yield_inv allowed c" "yield_call x"
  shows "yield_inv allowed (fst (yield_step oob x c))"
proof (cases x)
  case (YiTick ord tord now clients)
  obtain c' r where t: "yield_RunTick oob ord tord now clients c = (c', r)" by force
  from yield_tick [OF t] consider "same_books c c'" | ev where "rebalanced now (yield_total (ord 0) c) c c' ev" by blast
  then have "yield_inv allowed c'"
  proof cases
    case 1
    with assms(1) show ?thesis unfolding yield_inv_def same_books_def by (elim conjE) (simp only: simp_thms)
  next
    case 2
    have "spaced (cy_rebalanceHistory c @ [ev])"
    proof (rule spaced_snoc)
      show "spaced (cy_rebalanceHistory c)" using assms(1) by (simp add: yield_inv_def)
      assume "cy_rebalanceHistory c \<noteq> []"
      with assms(1) 2 due_gap [of now c] show "re_At (last (cy_rebalanceHistory c)) + rebalanceIntervalFloor * Second \<le> re_At ev"
        by (simp add: yield_inv_def rebalanced_def)
    qed
    with assms YiTick 2 show ?thesis by (auto simp: yield_inv_def rebalanced_def opened_ok_def)
  qed
  with YiTick t show ?thesis by simp
next
  case (YiAdjust adj)
  have "yield_cfg_ok (fst (apply_all (yield_knob oob) adj (cy_cfg c)))"
    using assms YiAdjust by (intro yield.apply_ok) (auto simp: yield_inv_def)
  with assms(1) YiAdjust yield_adjust_allowed [of oob adj "cy_cfg c"] show ?thesis
    by (auto simp: yield_inv_def yield_ApplyAdjustments_def split: prod.splits)
qed (use assms(1) in \<open>simp_all add: yield_inv_def yield_SeedFreeCapital_def yield_CloseAllPositions_def Let_def\<close>)

interpretation yield_m: task_machine "yield_step oob" yield_call "yield_inv allowed" for oob allowed
  by unfold_locales (rule yield_step_inv)

section \<open>Properties\<close>


definition yield_cfg_numbers :: "CrossChainYieldConfig \<Rightarrow> bool" where
  "yield_cfg_numbers c \<longleftrightarrow> \<not> is_nan (yc_MinYieldDiffBps c) \<and> \<not> is_nan (yc_MaxSingleProtocolPct c) \<and> \<not> is_nan (yc_BridgeCostThreshold c) \<and>
     \<not> is_nan (yc_CheckIntervalSecs c)"

lemma yield_New_ok:
  assumes "yield_cfg_numbers cfg" "NewCrossChainYield clients cfg = Inr c"
  shows "yield_inv (yc_AllowedProtocols cfg) c"
proof -
  have n: "yield_cfg_numbers (yield_applyDefaults cfg)"
    using assms(1) by (simp add: yield_cfg_numbers_def yield_applyDefaults_def default_f_def)
  from assms(2) have v: "\<exists>u. yield_Validate (yield_applyDefaults cfg) = Inr u"
    and e: "cy_cfg c = yield_applyDefaults cfg" "cy_rebalanceHistory c = []" "cy_allocation c = []"
    by (auto simp: NewCrossChainYield_def Let_def bindr_Ok_iff split: option.splits if_splits)
  from v n have "yield_cfg_ok (yield_applyDefaults cfg)"
    unfolding yield_Validate_def yield_cfg_ok_def yield_cfg_numbers_def
    by (auto simp: not_less yield_float_bounds intro!: not_outside split: if_splits)
  with e show ?thesis by (simp add: yield_inv_def spaced_def yield_applyDefaults_def)
qed

text \<open>
  Whatever the strategist sends and the chains report, over any sequence of ticks, adjustments, seeds and close-alls
  a yield task keeps its knobs inside the envelope, holds positions of positive value in allowed protocols
  only, and any two of its rebalances are at least one minute apart, the floor of the rebalance interval.
\<close>

theorem yield_rebalances_spaced:
  assumes "yield_cfg_numbers cfg" "NewCrossChainYield clients cfg = Inr c" "list_all yield_call xs"
  shows "yield_inv (yc_AllowedProtocols cfg) (fst (run_ops (yield_step oob) xs c))"
  by (rule yield_m.run_inv [OF yield_New_ok [OF assms(1,2)] assms(3)])

definition yield_demo :: CrossChainYieldConfig where
  "yield_demo = \<lparr>yc_PrimaryChain = ''base'', yc_AllowedProtocols = [''aave'', ''morpho''], yc_MinYieldDiffBps = Fin 0, yc_MaxSingleProtocolPct = Fin 0,
     yc_RebalanceIntervalSecs = 0, yc_BridgeCostThreshold = Fin 0, yc_MaxDrawdownPct = Fin 0, yc_MinCapitalToOperate = Fin 0, yc_CheckIntervalSecs = Fin 0\<rparr>"

definition yield_demo_rate :: "string \<Rightarrow> string \<Rightarrow> f64 \<Rightarrow> YieldRate" where
  "yield_demo_rate proto asset apy = \<lparr>yr_Chain = ''base'', yr_Protocol = proto, yr_Asset = asset, yr_APY = apy, yr_TVL = Fin 0, yr_UpdatedAt = 0\<rparr>"

definition yield_demo_ops :: "yield_op list" where
  "yield_demo_ops = [YiSeed (Fin 1000), YiTick (\<lambda>_ a. a) (\<lambda>t. t) Second [(''base'', \<lambda>_. Ok [yield_demo_rate ''aave'' ''USDC'' (Fin (1 / 8))])],
     YiAdjust [(''rebalance_interval_secs'', AdjFloat (Fin 1))]]"

theorem yield_rebalances_spaced_witness:
  "\<exists>c. NewCrossChainYield (Some [''base'']) yield_demo = Inr c \<and>
     yield_inv [''aave'', ''morpho''] (fst (run_ops (yield_step (\<lambda>_. 0)) yield_demo_ops c))"
proof -
  have "case NewCrossChainYield (Some [''base'']) yield_demo of Inl _ \<Rightarrow> False | Inr _ \<Rightarrow> True" by code_simp
  then obtain c where c: "NewCrossChainYield (Some [''base'']) yield_demo = Inr c" by (cases "NewCrossChainYield (Some [''base'']) yield_demo") auto
  have n: "yield_cfg_numbers yield_demo" by (simp add: yield_cfg_numbers_def yield_demo_def)
  have x: "list_all yield_call yield_demo_ops" by (simp add: yield_demo_ops_def proper_def toFloat_def Second_def)
  have "yc_AllowedProtocols yield_demo = [''aave'', ''morpho'']" by (simp add: yield_demo_def)
  with yield_rebalances_spaced [OF n c x, of "\<lambda>_. 0"] c show ?thesis by auto
qed

text \<open>
  One protocol with two assets: the target keeps the asset with the lower yield, since the second entry of the
  protocol overwrites the first.
\<close>

lemma duplicate_protocol_keeps_lower_yield:
  "chooseTarget (yield_demo\<lparr>yc_MaxSingleProtocolPct := Fin (1 / 2)\<rparr>) [yield_demo_rate ''aave'' ''USDC'' (Fin (1 / 8)), yield_demo_rate ''aave'' ''DAI'' (Fin (1 / 64))]
     = [(''aave'', yield_demo_rate ''aave'' ''DAI'' (Fin (1 / 64)))]"
  by code_simp

end
