(* ===== verification/MockChain.thy ===== *)
theory MockChain
  imports TaskCore
begin

text \<open>
  \<^verbatim>\<open>internal/backtesting/mock_chain.go\<close> and \<^verbatim>\<open>price_collector.go\<close>: the chain that replays recorded prices, and the
  collector that records them.  The order of rows with equal times after \<^verbatim>\<open>sort.Slice\<close> is an argument \<open>p\<close>, as in
  \<^verbatim>\<open>GoFmt\<close>.
\<close>

section \<open>Rows and their collection\<close>

record PriceRow =
  pr_Chain :: string
  pr_TokenPair :: string
  pr_Price :: f64
  pr_Volume24h :: f64
  pr_RecordedAt :: time

type_synonym price_store = "PriceRow list"

definition InsertPriceRow :: "PriceRow \<Rightarrow> price_store \<Rightarrow> price_store" where "InsertPriceRow row s = s @ [row]"

definition RowsFor :: "string \<Rightarrow> string \<Rightarrow> price_store \<Rightarrow> PriceRow list" where
  "RowsFor chainName pair s = filter (\<lambda>r. pr_Chain r = chainName \<and> pr_TokenPair r = ToUpper pair) s"

definition collector_interval :: "duration \<Rightarrow> duration" where
  "collector_interval i = (if i \<le> 0 then 60 * Second else i)"

text \<open>
  \<open>None\<close> for a missing dependency.  A pass takes the price cache, the clock at each row and the store's
  insert as arguments; the insert is given the rows written so far.
\<close>

definition NewPriceCollector :: "'cache option \<Rightarrow> 'pairs option \<Rightarrow> 'store option \<Rightarrow> duration \<Rightarrow> duration result" where
  "NewPriceCollector cache pairs store interval =
     (if cache = None then Fail ''backtesting: PriceCollector requires a Cache''
      else if pairs = None then Fail ''backtesting: PriceCollector requires a PairSource''
      else if store = None then Fail ''backtesting: PriceCollector requires a PriceStore''
      else Ok (collector_interval interval))"

fun collect_pairs ::
  "(string \<Rightarrow> string \<Rightarrow> f64 result) \<Rightarrow> (nat \<Rightarrow> time) \<Rightarrow> (PriceRow \<Rightarrow> 's \<Rightarrow> 's \<times> unit result) \<Rightarrow> nat \<Rightarrow> (string \<times> string) list \<Rightarrow> 's \<times> int \<times> error list \<Rightarrow> 's \<times> int \<times> error list" where
  "collect_pairs cache clock ins i [] acc = acc"
| "collect_pairs cache clock ins i ((chainName, pair) # ps) (s, written, errs) =
     collect_pairs cache clock ins (Suc i) ps
       (case cache chainName pair of
          Inl e \<Rightarrow> (s, written, errs @ [e])
        | Inr price \<Rightarrow>
            (case ins \<lparr>pr_Chain = chainName, pr_TokenPair = ToUpper pair, pr_Price = price, pr_Volume24h = Fin 0, pr_RecordedAt = clock i\<rparr> s of
               (s', Inl e) \<Rightarrow> (s', written, errs @ [e])
             | (s', Inr _) \<Rightarrow> (s', wrap64 (written + 1), errs)))"

definition CollectOnce ::
  "(string \<Rightarrow> string \<Rightarrow> f64 result) \<Rightarrow> (nat \<Rightarrow> time) \<Rightarrow> (PriceRow \<Rightarrow> 's \<Rightarrow> 's \<times> unit result) \<Rightarrow> (string \<times> string) list \<Rightarrow> 's \<Rightarrow> 's \<times> int \<times> error list" where
  "CollectOnce cache clock ins pairs s = collect_pairs cache clock ins 0 pairs (s, 0, [])"

text \<open>\<^verbatim>\<open>Run\<close>: one pass at once and one per tick of the timer.\<close>

definition collector_Run ::
  "((string \<Rightarrow> string \<Rightarrow> f64 result) \<times> (nat \<Rightarrow> time) \<times> (string \<times> string) list) \<Rightarrow> ((string \<Rightarrow> string \<Rightarrow> f64 result) \<times> (nat \<Rightarrow> time) \<times> (string \<times> string) list) list \<Rightarrow>
   (PriceRow \<Rightarrow> 's \<Rightarrow> 's \<times> unit result) \<Rightarrow> 's \<Rightarrow> 's" where
  "collector_Run first ticks ins s = fold (\<lambda>(cache, clock, pairs) s. fst (CollectOnce cache clock ins pairs s)) (first # ticks) s"

section \<open>The replay client\<close>

record MockChainConfig =
  mk_ChainName :: string
  mk_NativeToken :: string
  mk_SlippageBps :: int
  mk_FeeBps :: int
  mk_InitialBalance :: f64

record ChainTrade =
  ct_Chain :: string
  ct_DEX :: string
  ct_TokenPair :: string
  ct_AmountIn :: f64
  ct_AmountOut :: f64
  ct_FeePaid :: f64
  ct_PnL :: f64
  ct_TxSignature :: string
  ct_IsPaper :: bool
  ct_ExecutedAt :: time

record MockChainClient =
  mx_cfg :: MockChainConfig
  mx_pricesByPair :: "(string \<times> PriceRow list) list"
  mx_cursor :: time
  mx_balances :: "(string \<times> f64) list"
  mx_tokenBals :: "(string \<times> f64) list"
  mx_trades :: "ChainTrade list"
  mx_txSequence :: int

definition earlier :: "PriceRow \<Rightarrow> PriceRow \<Rightarrow> bool" where
  "earlier a b \<longleftrightarrow> pr_RecordedAt a < pr_RecordedAt b"

definition rows_of :: "(string \<times> PriceRow list) list \<Rightarrow> string \<Rightarrow> PriceRow list" where
  "rows_of m k = (case map_of m k of None \<Rightarrow> [] | Some rs \<Rightarrow> rs)"

definition group_row :: "PriceRow \<Rightarrow> (string \<times> PriceRow list) list \<Rightarrow> (string \<times> PriceRow list) list" where
  "group_row r m = (let k = ToUpper (pr_TokenPair r) in AList.update k (rows_of m k @ [r]) m)"

definition NewMockChainClient :: "(PriceRow list \<Rightarrow> PriceRow list) \<Rightarrow> MockChainConfig \<Rightarrow> PriceRow list \<Rightarrow> MockChainClient" where
  "NewMockChainClient p cfg0 rows =
     (let cfg1 = (if mk_ChainName cfg0 = [] then cfg0\<lparr>mk_ChainName := ''mock''\<rparr> else cfg0);
          cfg = (if mk_NativeToken cfg1 = [] then cfg1\<lparr>mk_NativeToken := ''MOCK''\<rparr> else cfg1)
      in \<lparr>mx_cfg = cfg, mx_pricesByPair = map (\<lambda>(k, rs). (k, sort_Slice p earlier rs)) (fold group_row rows []), mx_cursor = zero_time,
          mx_balances = [], mx_tokenBals = [], mx_trades = [], mx_txSequence = 0\<rparr>)"

definition SetCursor :: "time \<Rightarrow> MockChainClient \<Rightarrow> MockChainClient" where "SetCursor t m = m\<lparr>mx_cursor := t\<rparr>"

definition mock_Trades :: "MockChainClient \<Rightarrow> ChainTrade list" where "mock_Trades m = mx_trades m"

definition mock_GetBalance :: "string \<Rightarrow> MockChainClient \<Rightarrow> f64 result" where
  "mock_GetBalance address m = Ok (case map_of (mx_balances m) address of Some v \<Rightarrow> v | None \<Rightarrow> mk_InitialBalance (mx_cfg m))"

definition token_balance :: "(string \<times> f64) list \<Rightarrow> string \<Rightarrow> f64" where
  "token_balance bals k = (case map_of bals k of None \<Rightarrow> Fin 0 | Some v \<Rightarrow> v)"

definition mock_GetTokenBalance :: "string \<Rightarrow> string \<Rightarrow> MockChainClient \<Rightarrow> f64 result" where
  "mock_GetTokenBalance address tokenAddr m = Ok (token_balance (mx_tokenBals m) (address @ ''|'' @ ToUpper tokenAddr))"

text \<open>The binary search for the last row at or before the cursor.\<close>

function search_rows :: "PriceRow list \<Rightarrow> time \<Rightarrow> nat \<Rightarrow> nat \<Rightarrow> nat" where
  "search_rows rows cursor lo hi =
     (if lo < hi then
        let mid = (lo + hi + 1) div 2 in
        if cursor < pr_RecordedAt (rows ! mid) then search_rows rows cursor lo (mid - 1) else search_rows rows cursor mid hi
      else lo)"
  by pat_completeness auto
termination by (relation "measure (\<lambda>(_, _, lo, hi). hi - lo)") auto

declare search_rows.simps [simp del]

definition priceAtCursor :: "string \<Rightarrow> MockChainClient \<Rightarrow> (f64 \<times> time) result" where
  "priceAtCursor pair m =
     (let rows = rows_of (mx_pricesByPair m) pair; observed = (\<lambda>r. (pr_Price r, pr_RecordedAt r)) in
      if rows = [] then Fail ''mock_chain: no price history for pair''
      else if mx_cursor m = zero_time then Ok (observed (rows ! 0))
      else let lo = search_rows rows (mx_cursor m) 0 (length rows - 1) in
        if mx_cursor m < pr_RecordedAt (rows ! lo) then Ok (observed (rows ! 0)) else Ok (observed (rows ! lo)))"

definition mock_GetQuote :: "MockChainClient \<Rightarrow> string \<Rightarrow> string \<Rightarrow> f64 \<Rightarrow> Quote result" where
  "mock_GetQuote m tokenIn tokenOut amount =
     (if fle amount (Fin 0) then Fail ''mock_chain: amount must be positive''
      else bindr (priceAtCursor (ToUpper (tokenIn @ ''/'' @ tokenOut)) m) (\<lambda>(price, at_time).
        let gross = fmul amount price;
            fee = fdiv (fmul gross (f64_of_int (mk_FeeBps (mx_cfg m)))) (Fin 10000);
            netAfterFee = fsub gross fee;
            slip = fdiv (fmul netAfterFee (f64_of_int (mk_SlippageBps (mx_cfg m)))) (Fin 10000)
        in Ok \<lparr>qt_Chain = mk_ChainName (mx_cfg m), qt_DEX = ''mock'', qt_TokenIn = ToUpper tokenIn, qt_TokenOut = ToUpper tokenOut,
              qt_AmountIn = amount, qt_AmountOut = fsub netAfterFee slip, qt_Price = price,
              qt_PriceImpact = fdiv (f64_of_int (mk_SlippageBps (mx_cfg m))) (Fin 10000), qt_FeeAmount = fee,
              qt_SlippageBps = mk_SlippageBps (mx_cfg m), qt_GeneratedAt = at_time, qt_RouteRaw = []\<rparr>))"

definition mock_sig :: "int \<Rightarrow> string" where "mock_sig n = ''mock-tx-'' @ zpad 6 (itoa n)"

definition mock_tx :: "string \<Rightarrow> bool \<Rightarrow> f64 \<Rightarrow> string \<Rightarrow> TxResult" where
  "mock_tx sig ok fee msg = \<lparr>tx_Signature = sig, tx_Success = ok, tx_GasUsed = 0, tx_GasPriceWei = 0, tx_FeePaidUSD = fee, tx_BlockNumber = 0, tx_ErrorMsg = msg\<rparr>"

definition mock_ExecuteSwap :: "Quote option \<Rightarrow> Wallet option \<Rightarrow> MockChainClient \<Rightarrow> MockChainClient \<times> TxResult result" where
  "mock_ExecuteSwap quote wallet m =
     (case quote of
        None \<Rightarrow> (m, Fail ''mock_chain: nil quote'')
      | Some q \<Rightarrow>
          (case wallet of
             None \<Rightarrow> (m, Fail ''mock_chain: nil wallet'')
           | Some w \<Rightarrow>
               let inKey = wl_Address w @ ''|'' @ qt_TokenIn q; outKey = wl_Address w @ ''|'' @ qt_TokenOut q;
                   b1 = AList.update inKey (fsub (token_balance (mx_tokenBals m) inKey) (qt_AmountIn q)) (mx_tokenBals m);
                   b2 = AList.update outKey (fadd (token_balance b1 outKey) (qt_AmountOut q)) b1;
                   seq = wrap64 (mx_txSequence m + 1)
               in (m\<lparr>mx_tokenBals := b2, mx_txSequence := seq, mx_trades := mx_trades m @
                     [\<lparr>ct_Chain = qt_Chain q, ct_DEX = qt_DEX q, ct_TokenPair = qt_TokenIn q @ ''/'' @ qt_TokenOut q, ct_AmountIn = qt_AmountIn q,
                       ct_AmountOut = qt_AmountOut q, ct_FeePaid = qt_FeeAmount q, ct_PnL = Fin 0, ct_TxSignature = mock_sig seq, ct_IsPaper = True,
                       ct_ExecutedAt = mx_cursor m\<rparr>]\<rparr>,
                   Ok (mock_tx (mock_sig seq) True (qt_FeeAmount q) []))))"

definition mock_SendTransaction :: "MockChainClient \<Rightarrow> MockChainClient \<times> TxResult result" where
  "mock_SendTransaction m = (let seq = wrap64 (mx_txSequence m + 1) in (m\<lparr>mx_txSequence := seq\<rparr>, Ok (mock_tx (mock_sig seq) True (Fin 0) [])))"

definition mock_GetLendingPositions :: "string \<Rightarrow> MockChainClient \<Rightarrow> LendingPosition list result" where "mock_GetLendingPositions proto m = Ok []"
definition mock_GetYieldRates :: "string list \<Rightarrow> MockChainClient \<Rightarrow> YieldRate list result" where "mock_GetYieldRates protos m = Ok []"

definition mock_ExecuteLiquidation :: "MockChainClient \<Rightarrow> TxResult result" where
  "mock_ExecuteLiquidation m = Ok (mock_tx [] False (Fin 0) ''mock_chain: ExecuteLiquidation not supported in backtest'')"

section \<open>The search finds the price a scan would find\<close>

text \<open>The reference: the last row at or before the cursor, in time order, and the first row if there is none.\<close>

definition price_ref :: "PriceRow list \<Rightarrow> time \<Rightarrow> PriceRow" where
  "price_ref rows cursor =
     (let seen = filter (\<lambda>r. pr_RecordedAt r \<le> cursor) rows in if seen = [] then hd rows else last seen)"

interpretation by_time: weak_order earlier "\<lambda>_. True"
  by unfold_locales (auto simp: earlier_def)

definition in_time_order :: "PriceRow list \<Rightarrow> bool" where
  "in_time_order rows \<longleftrightarrow> (\<forall>i j. i \<le> j \<longrightarrow> j < length rows \<longrightarrow> pr_RecordedAt (rows ! i) \<le> pr_RecordedAt (rows ! j))"

lemma sort_in_time_order: "rearranges p \<Longrightarrow> in_time_order (sort_Slice p earlier rs)"
  using by_time.sort_Slice_sorted [of p rs] unfolding in_time_order_def earlier_def sorted_wrt_iff_nth_less
  by (metis le_neq_implies_less not_le order_refl)

lemma search_rows_spec:
  assumes "in_time_order rows" "lo \<le> hi" "hi < length rows"
    "lo = 0 \<or> pr_RecordedAt (rows ! lo) \<le> cursor" "\<forall>j. hi < j \<longrightarrow> j < length rows \<longrightarrow> cursor < pr_RecordedAt (rows ! j)"
  shows "search_rows rows cursor lo hi < length rows \<and>
    (search_rows rows cursor lo hi = 0 \<or> pr_RecordedAt (rows ! search_rows rows cursor lo hi) \<le> cursor) \<and>
    (\<forall>j. search_rows rows cursor lo hi < j \<longrightarrow> j < length rows \<longrightarrow> cursor < pr_RecordedAt (rows ! j))"
  using assms
proof (induction rows cursor lo hi rule: search_rows.induct)
  case (1 rows cursor lo hi)
  show ?case
  proof (cases "lo < hi")
    case False
    then have s: "search_rows rows cursor lo hi = lo" by (subst search_rows.simps) simp
    from 1(4-7) False show ?thesis unfolding s by auto
  next
    case True
    define mid where "mid = (lo + hi + 1) div 2"
    have m: "lo < mid" "mid \<le> hi" using True by (auto simp: mid_def)
    show ?thesis
    proof (cases "cursor < pr_RecordedAt (rows ! mid)")
      case after: True
      have s: "search_rows rows cursor lo hi = search_rows rows cursor lo (mid - 1)"
        using True after by (subst search_rows.simps) (simp add: mid_def Let_def)
      have "\<forall>j. mid - 1 < j \<longrightarrow> j < length rows \<longrightarrow> cursor < pr_RecordedAt (rows ! j)"
        using after 1(3) unfolding in_time_order_def by (metis Suc_pred' less_trans m(1) not_less_eq not_less_zero order_less_le_trans not_le)
      with 1(1) [OF True mid_def after] 1(3-6) m show ?thesis unfolding s by auto
    next
      case False
      have s: "search_rows rows cursor lo hi = search_rows rows cursor mid hi"
        using True False by (subst search_rows.simps) (simp add: mid_def Let_def)
      from 1(2) [OF True mid_def False] 1(3-7) m False show ?thesis unfolding s by auto
    qed
  qed
qed

lemma price_ref_index:
  assumes "in_time_order rows" "k < length rows" "k = 0 \<or> pr_RecordedAt (rows ! k) \<le> cursor"
    "\<forall>j. k < j \<longrightarrow> j < length rows \<longrightarrow> cursor < pr_RecordedAt (rows ! j)"
  shows "price_ref rows cursor = (if cursor < pr_RecordedAt (rows ! k) then rows ! 0 else rows ! k)"
proof (cases "cursor < pr_RecordedAt (rows ! k)")
  case True
  with assms(3) have "k = 0" by auto
  then have "\<forall>r \<in> set rows. \<not> pr_RecordedAt r \<le> cursor"
    using assms(2,4) True by (metis in_set_conv_nth neq0_conv not_le)
  then have "filter (\<lambda>r. pr_RecordedAt r \<le> cursor) rows = []" by simp
  moreover have "hd rows = rows ! 0" using assms(2) by (intro hd_conv_nth) auto
  ultimately show ?thesis using True by (simp add: price_ref_def)
next
  case False
  let ?f = "filter (\<lambda>r. pr_RecordedAt r \<le> cursor)"
  have up: "\<forall>r \<in> set (take (Suc k) rows). pr_RecordedAt r \<le> cursor"
  proof
    fix r assume "r \<in> set (take (Suc k) rows)"
    then obtain i where i: "i < Suc k" "r = rows ! i" by (auto simp: in_set_conv_nth)
    with assms(1,2) have "pr_RecordedAt r \<le> pr_RecordedAt (rows ! k)" by (simp add: in_time_order_def)
    with False show "pr_RecordedAt r \<le> cursor" by simp
  qed
  have down: "\<forall>r \<in> set (drop (Suc k) rows). \<not> pr_RecordedAt r \<le> cursor"
  proof
    fix r assume "r \<in> set (drop (Suc k) rows)"
    then obtain i where i: "i < length rows - Suc k" "r = rows ! (Suc k + i)" by (auto simp: in_set_conv_nth)
    then have "k < Suc k + i" "Suc k + i < length rows" by simp_all
    with assms(4) i show "\<not> pr_RecordedAt r \<le> cursor" by (simp add: not_le)
  qed
  have "?f rows = ?f (take (Suc k) rows) @ ?f (drop (Suc k) rows)" by (metis append_take_drop_id filter_append)
  also have "?f (take (Suc k) rows) = take (Suc k) rows" using up by (rule filter_True)
  also have "?f (drop (Suc k) rows) = []" using down by (rule filter_False)
  finally have "?f rows = take k rows @ [rows ! k]" using assms(2) by (simp add: take_Suc_conv_app_nth)
  then show ?thesis using False by (simp add: price_ref_def)
qed

lemma rows_of_group: "rows_of (group_row r m) k = (if ToUpper (pr_TokenPair r) = k then rows_of m k @ [r] else rows_of m k)"
  by (simp add: group_row_def rows_of_def Let_def update_conv')

lemma rows_of_fold: "rows_of (fold group_row rows m) k = rows_of m k @ filter (\<lambda>r. ToUpper (pr_TokenPair r) = k) rows"
  by (induction rows arbitrary: m) (simp_all add: rows_of_group)

lemma rows_of_map: "f [] = [] \<Longrightarrow> rows_of (map (\<lambda>(k, rs). (k, f rs)) m) k = f (rows_of m k)"
  by (induction m) (auto simp: rows_of_def)

lemma sort_Slice_Nil: "rearranges p \<Longrightarrow> sort_Slice p lt [] = []"
  by (metis length_0_conv length_sort_Slice)

definition observations :: "(PriceRow list \<Rightarrow> PriceRow list) \<Rightarrow> string \<Rightarrow> PriceRow list \<Rightarrow> PriceRow list" where
  "observations p pair rows = sort_Slice p earlier (filter (\<lambda>r. ToUpper (pr_TokenPair r) = pair) rows)"

lemma rows_of_New: "rearranges p \<Longrightarrow> rows_of (mx_pricesByPair (NewMockChainClient p cfg rows)) pair = observations p pair rows"
  by (simp add: NewMockChainClient_def Let_def rows_of_map sort_Slice_Nil rows_of_fold observations_def) (simp add: rows_of_def)

text \<open>
  C25: the replayed price is the latest observation.  For a client built from any rows, in any order, and any cursor
  other than the zero time, the binary search returns the price and the time of the last observation of
  the pair at or before the cursor, of the first one if the cursor precedes them all, and fails exactly for
  a pair without rows: what a scan of the observations in time order returns.
\<close>

theorem replay_price_is_latest_observation:
  assumes "rearranges p" "cursor \<noteq> zero_time"
  shows "priceAtCursor pair (SetCursor cursor (NewMockChainClient p cfg rows)) =
    (let rs = observations p pair rows in
     if rs = [] then Fail ''mock_chain: no price history for pair''
     else Ok (pr_Price (price_ref rs cursor), pr_RecordedAt (price_ref rs cursor)))"
proof -
  let ?rs = "observations p pair rows" and ?m = "SetCursor cursor (NewMockChainClient p cfg rows)"
  have r: "rows_of (mx_pricesByPair ?m) pair = ?rs" "mx_cursor ?m = cursor" using assms(1) by (simp_all add: SetCursor_def rows_of_New)
  show ?thesis
  proof (cases "?rs = []")
    case True
    with r show ?thesis by (simp add: priceAtCursor_def)
  next
    case False
    let ?k = "search_rows ?rs cursor 0 (length ?rs - 1)"
    have o: "in_time_order ?rs" using assms(1) by (simp add: observations_def sort_in_time_order)
    from False have "?k < length ?rs \<and> (?k = 0 \<or> pr_RecordedAt (?rs ! ?k) \<le> cursor) \<and> (\<forall>j. ?k < j \<longrightarrow> j < length ?rs \<longrightarrow> cursor < pr_RecordedAt (?rs ! j))"
      by (intro search_rows_spec [OF o]) auto
    then have "price_ref ?rs cursor = (if cursor < pr_RecordedAt (?rs ! ?k) then ?rs ! 0 else ?rs ! ?k)"
      by (intro price_ref_index [OF o]) auto
    with False r assms(2) show ?thesis by (simp add: priceAtCursor_def Let_def)
  qed
qed

definition demo_row :: "time \<Rightarrow> f64 \<Rightarrow> PriceRow" where
  "demo_row t p = \<lparr>pr_Chain = ''solana'', pr_TokenPair = ''SOL/USDC'', pr_Price = p, pr_Volume24h = Fin 0, pr_RecordedAt = t\<rparr>"

definition demo_mock :: MockChainConfig where
  "demo_mock = \<lparr>mk_ChainName = [], mk_NativeToken = [], mk_SlippageBps = 0, mk_FeeBps = 0, mk_InitialBalance = Fin 0\<rparr>"

theorem replay_price_is_latest_observation_witness:
  "priceAtCursor ''SOL/USDC'' (SetCursor 25 (NewMockChainClient (\<lambda>xs. xs) demo_mock [demo_row 30 (Fin 3), demo_row 10 (Fin 1), demo_row 20 (Fin 2)])) = Ok (Fin 2, 20)"
  using replay_price_is_latest_observation [of "\<lambda>xs. xs" 25 "''SOL/USDC''" demo_mock "[demo_row 30 (Fin 3), demo_row 10 (Fin 1), demo_row 20 (Fin 2)]"]
  by (simp add: observations_def sort_Slice_def stable_sort_def earlier_def demo_row_def price_ref_def ToUpper_def ascii_upper_def Let_def)

end
