(* ===== verification/Backtest.thy ===== *)
theory Backtest
  imports MockChain Liquidity Genome
begin

text \<open>
  \<^verbatim>\<open>internal/backtesting/engine.go\<close>: replaying the fast loop of a task over recorded prices.  The task under test is
  a state \<open>'s\<close> with its two operations; a tick may trade on the mock chain, so it returns a new one.
\<close>

section \<open>Types\<close>

record BacktestPeriod =
  bp_Start :: time
  bp_End :: time
  bp_TickInterval :: duration

record EquityPoint =
  ep_At :: time
  ep_Equity :: f64

record BacktestResult =
  br_GenomeName :: string
  br_Period :: BacktestPeriod
  br_StartCapital :: f64
  br_EndEquity :: f64
  br_TotalPnL :: f64
  br_MaxDrawdown :: f64
  br_WinRate :: f64
  br_Sharpe :: f64
  br_TradeCount :: int
  br_EquityCurve :: "EquityPoint list"
  br_Trades :: "TaskTrade list"
  br_Notes :: string

text \<open>The builder with the operations of what it builds, and the other fields of the configuration.\<close>

record 's TaskBuilder =
  tb_Build :: "MockChainClient \<Rightarrow> AgentGenome \<Rightarrow> 's result"
  tb_RunTick :: "MockChainClient \<Rightarrow> 's \<Rightarrow> MockChainClient \<times> 's \<times> TaskTrade list result"
  tb_GetPositionValue :: "MockChainClient \<Rightarrow> 's \<Rightarrow> f64 result"

record 's BacktestEngine =
  be_Builder :: "'s TaskBuilder option"
  be_MockConfig :: MockChainConfig
  be_PriceRows :: "PriceRow list"
  be_StartCapital :: f64
  be_PnLValuation :: "(MockChainClient \<Rightarrow> f64 result) option"

definition NewBacktestEngine :: "'s BacktestEngine \<Rightarrow> 's BacktestEngine result" where
  "NewBacktestEngine cfg =
     (if be_Builder cfg = None then Fail ''backtesting: engine requires a Builder''
      else if be_PriceRows cfg = [] then Fail ''backtesting: engine requires PriceRows''
      else Ok (if fle (be_StartCapital cfg) (Fin 0) then cfg\<lparr>be_StartCapital := Fin 1000\<rparr> else cfg))"

section \<open>Metrics\<close>

definition sumPnLSlice :: "f64 list \<Rightarrow> f64" where "sumPnLSlice p = foldl fadd (Fin 0) p"

definition computeWinRate :: "f64 list \<Rightarrow> f64" where
  "computeWinRate pnls = (if pnls = [] then Fin 0
     else fdiv (f64_of_int (int (length (filter (flt (Fin 0)) pnls)))) (f64_of_int (int (length pnls))))"

definition drawdown_visit :: "f64 \<times> f64 \<Rightarrow> EquityPoint \<Rightarrow> f64 \<times> f64" where
  "drawdown_visit acc p =
     (case acc of (peak0, worst) \<Rightarrow>
        let peak = (if flt peak0 (ep_Equity p) then ep_Equity p else peak0) in
        if fle peak (Fin 0) then (peak, worst)
        else let d = fdiv (fsub peak (ep_Equity p)) peak in (peak, if flt worst d then d else worst))"

definition computeMaxDrawdown :: "EquityPoint list \<Rightarrow> f64" where
  "computeMaxDrawdown curve = (case curve of [] \<Rightarrow> Fin 0 | p # _ \<Rightarrow> snd (foldl drawdown_visit (ep_Equity p, Fin 0) curve))"

text \<open>The buckets in the order of their first sample, each with its latest one.\<close>

definition bucket_visit :: "(string \<times> f64 \<times> time) list \<Rightarrow> EquityPoint \<Rightarrow> (string \<times> f64 \<times> time) list" where
  "bucket_visit m p =
     (let day = FormatDate (ep_At p) in
      case map_of m day of
        None \<Rightarrow> m @ [(day, ep_Equity p, ep_At p)]
      | Some (e, t) \<Rightarrow> if t < ep_At p then AList.update day (ep_Equity p, ep_At p) m else m)"

definition bucketByDay :: "EquityPoint list \<Rightarrow> f64 list" where
  "bucketByDay curve = map (\<lambda>(d, e, t). e) (foldl bucket_visit [] curve)"

fun daily_returns :: "f64 list \<Rightarrow> f64 list" where
  "daily_returns (prev # cur # bs) = (if fle prev (Fin 0) then [] else [fdiv (fsub cur prev) prev]) @ daily_returns (cur # bs)"
| "daily_returns _ = []"

definition by_at :: "EquityPoint \<Rightarrow> EquityPoint \<Rightarrow> bool" where "by_at a b \<longleftrightarrow> ep_At a < ep_At b"

definition sharpe_of :: "f64 list \<Rightarrow> f64" where
  "sharpe_of returns =
     (let n = f64_of_int (int (length returns));
          mean = fdiv (foldl fadd (Fin 0) returns) n;
          sqSum = foldl (\<lambda>s r. let d = fsub r mean in fadd s (fmul d d)) (Fin 0) returns;
          variance = fdiv sqSum (f64_of_int (int (length returns) - 1))
      in if fle variance (Fin 0) then Fin 0
         else let stdev = fsqrt variance in
           if feq stdev (Fin 0) then Fin 0 else fmul (fdiv mean stdev) (fsqrt (Fin 365)))"

definition computeSharpe :: "(EquityPoint list \<Rightarrow> EquityPoint list) \<Rightarrow> EquityPoint list \<Rightarrow> f64" where
  "computeSharpe p curve =
     (if length curve < 2 then Fin 0
      else let buckets = bucketByDay (sort_Slice p by_at curve) in
        if length buckets < 2 then Fin 0
        else let returns = daily_returns buckets in if length returns < 2 then Fin 0 else sharpe_of returns)"

section \<open>The replay\<close>

record 's replay =
  rp_mock :: MockChainClient
  rp_task :: 's
  rp_curve :: "EquityPoint list"
  rp_trades :: "TaskTrade list"
  rp_pnls :: "f64 list"

text \<open>One tick; the second component is the note and the error that end the run.\<close>

definition replay_tick :: "'s BacktestEngine \<Rightarrow> 's TaskBuilder \<Rightarrow> time \<Rightarrow> 's replay \<Rightarrow> 's replay \<times> (string \<times> error) option" where
  "replay_tick e b cursor s =
     (case tb_RunTick b (SetCursor cursor (rp_mock s)) (rp_task s) of
        (mock, t, Inl err) \<Rightarrow> (s\<lparr>rp_mock := mock, rp_task := t\<rparr>, Some (''RunTick error at '' @ FormatRFC3339 cursor @ '': '' @ error_text err, err))
      | (mock, t, Inr ts) \<Rightarrow>
          let s1 = s\<lparr>rp_mock := mock, rp_task := t, rp_trades := rp_trades s @ ts, rp_pnls := rp_pnls s @ map tt_PnL ts\<rparr> in
          (case (case be_PnLValuation e of
                   Some f \<Rightarrow> f mock
                 | None \<Rightarrow> (case tb_GetPositionValue b mock t of Inl _ \<Rightarrow> Ok (Fin 0) | Inr v \<Rightarrow> Ok v)) of
             Inl err \<Rightarrow> (s1, Some (''PnLValuation error at '' @ FormatRFC3339 cursor @ '': '' @ error_text err, err))
           | Inr posValue \<Rightarrow>
               (s1\<lparr>rp_curve := rp_curve s1 @ [\<lparr>ep_At = cursor, ep_Equity = fadd (fadd (be_StartCapital e) (sumPnLSlice (rp_pnls s1))) posValue\<rparr>]\<rparr>, None)))"

text \<open>The loop; the interval is positive when \<open>Run\<close> reaches it.\<close>

function replay_loop :: "'s BacktestEngine \<Rightarrow> 's TaskBuilder \<Rightarrow> time \<Rightarrow> duration \<Rightarrow> time \<Rightarrow> 's replay \<Rightarrow> 's replay \<times> (string \<times> error) option" where
  "replay_loop e b endt step cursor s =
     (if step \<le> 0 \<or> endt < cursor then (s, None)
      else case replay_tick e b cursor s of
        (s', Some x) \<Rightarrow> (s', Some x)
      | (s', None) \<Rightarrow> replay_loop e b endt step (cursor + step) s')"
  by pat_completeness auto
termination by (relation "measure (\<lambda>(_, _, endt, _, cursor, _). nat (endt + 1 - cursor))") auto

declare replay_loop.simps [simp del]

definition empty_result :: "BacktestResult" where
  "empty_result = \<lparr>br_GenomeName = [], br_Period = \<lparr>bp_Start = zero_time, bp_End = zero_time, bp_TickInterval = 0\<rparr>, br_StartCapital = Fin 0, br_EndEquity = Fin 0,
     br_TotalPnL = Fin 0, br_MaxDrawdown = Fin 0, br_WinRate = Fin 0, br_Sharpe = Fin 0, br_TradeCount = 0, br_EquityCurve = [], br_Trades = [], br_Notes = []\<rparr>"

definition finish :: "(EquityPoint list \<Rightarrow> EquityPoint list) \<Rightarrow> BacktestResult \<Rightarrow> 's replay \<Rightarrow> BacktestResult" where
  "finish p result s =
     (let curve = rp_curve s; endEquity = ep_Equity (last curve) in
      result\<lparr>br_Trades := rp_trades s, br_TradeCount := int (length (rp_trades s)),
             br_EquityCurve := (if length curve < 2 then curve else sort_Slice p by_at curve),
             br_EndEquity := endEquity, br_TotalPnL := fsub endEquity (br_StartCapital result), br_MaxDrawdown := computeMaxDrawdown curve,
             br_WinRate := computeWinRate (rp_pnls s), br_Sharpe := computeSharpe p curve\<rparr>)"

definition engine_Run ::
  "(PriceRow list \<Rightarrow> PriceRow list) \<Rightarrow> (EquityPoint list \<Rightarrow> EquityPoint list) \<Rightarrow> 's BacktestEngine option \<Rightarrow> AgentGenome \<Rightarrow> BacktestPeriod \<Rightarrow> BacktestResult \<times> error option" where
  "engine_Run pr pe engine genome period =
     (case engine of
        None \<Rightarrow> (empty_result, Some (Err ''backtesting: nil engine''))
      | Some e \<Rightarrow>
          if bp_End period \<le> bp_Start period then (empty_result, Some (Err ''backtesting: period end must be after start''))
          else if bp_TickInterval period \<le> 0 then (empty_result, Some (Err ''backtesting: period.TickInterval must be positive''))
          else let mock = SetCursor (bp_Start period) (NewMockChainClient pr (be_MockConfig e) (be_PriceRows e)); b = the (be_Builder e) in
            case tb_Build b mock genome of
              Inl err \<Rightarrow> (empty_result, Some (Wrap ''backtesting: builder'' err))
            | Inr task0 \<Rightarrow>
                let result = empty_result\<lparr>br_GenomeName := g_Name genome, br_Period := period, br_StartCapital := be_StartCapital e, br_EndEquity := be_StartCapital e\<rparr> in
                (case replay_loop e b (bp_End period) (bp_TickInterval period) (bp_Start period)
                        \<lparr>rp_mock = mock, rp_task = task0, rp_curve = [\<lparr>ep_At = bp_Start period, ep_Equity = be_StartCapital e\<rparr>], rp_trades = [], rp_pnls = []\<rparr> of
                   (s, Some (note, err)) \<Rightarrow> (result\<lparr>br_Notes := note\<rparr>, Some err)
                 | (s, None) \<Rightarrow> (finish pe result s, None)))"

definition Passed :: "BacktestResult \<Rightarrow> bool" where
  "Passed r \<longleftrightarrow> flt (Fin 0) (br_TotalPnL r) \<and> flt (br_MaxDrawdown r) (rnd (5 / 10)) \<and> 0 < br_TradeCount r"

definition OffspringRunner_Run ::
  "(PriceRow list \<Rightarrow> PriceRow list) \<Rightarrow> (EquityPoint list \<Rightarrow> EquityPoint list) \<Rightarrow> 's BacktestEngine option \<Rightarrow> BacktestPeriod \<Rightarrow> AgentGenome \<Rightarrow> bool result" where
  "OffspringRunner_Run pr pe engine period candidate =
     (if engine = None then Fail ''backtesting: OffspringRunner missing engine''
      else case engine_Run pr pe engine candidate period of
        (res, Some err) \<Rightarrow> Inl err
      | (res, None) \<Rightarrow> Ok (Passed res))"

section \<open>The ticks of a replay\<close>

definition tick_times :: "time \<Rightarrow> time \<Rightarrow> duration \<Rightarrow> time list" where
  "tick_times start endt step = map (\<lambda>k. start + int k * step) [0..<nat ((endt - start) div step + 1)]"

lemma tick_times_Nil: "0 < step \<Longrightarrow> endt < start \<Longrightarrow> tick_times start endt step = []"
proof -
  assume "0 < step" "endt < start"
  then have "(endt - start) div step < 0" by (simp add: div_neg_pos_less0)
  then show ?thesis by (simp add: tick_times_def)
qed

lemma tick_times_Cons:
  assumes "0 < step" "start \<le> endt" shows "tick_times start endt step = start # tick_times (start + step) endt step"
proof -
  have d: "(endt - start) div step = (endt - (start + step)) div step + 1"
  proof -
    have "((endt - (start + step)) + step) div step = (endt - (start + step)) div step + 1" using assms(1) by (simp only: div_add_self2)
    then show ?thesis by simp
  qed
  have "0 \<le> (endt - start) div step" using assms by (simp add: pos_imp_zdiv_nonneg_iff)
  then have n: "nat ((endt - start) div step + 1) = Suc (nat ((endt - (start + step)) div step + 1))" unfolding d by simp
  have u: "[0..<Suc m] = 0 # map Suc [0..<m]" for m by (simp add: map_Suc_upt upt_conv_Cons del: upt_Suc)
  show ?thesis unfolding tick_times_def n u by (simp add: algebra_simps)
qed

text \<open>
  The run a replay stands for: the task is run once at each time, on the chain set to that time and the state the tick before left, and
  the equity at that time is the starting capital, the profits so far and the value then held.
\<close>

fun ticks_taken :: "'s TaskBuilder \<Rightarrow> time list \<Rightarrow> MockChainClient \<Rightarrow> 's \<Rightarrow> (MockChainClient \<times> 's \<times> TaskTrade list) list \<Rightarrow> bool" where
  "ticks_taken b [] m t rs \<longleftrightarrow> rs = []"
| "ticks_taken b (c # cs) m t rs \<longleftrightarrow> (case rs of
     (m1, t1, ts) # rs' \<Rightarrow> tb_RunTick b (SetCursor c m) t = (m1, t1, Ok ts) \<and> ticks_taken b cs m1 t1 rs' | [] \<Rightarrow> False)"

definition held_value :: "'s BacktestEngine \<Rightarrow> 's TaskBuilder \<Rightarrow> MockChainClient \<Rightarrow> 's \<Rightarrow> f64 result" where
  "held_value e b m t = (case be_PnLValuation e of
     Some f \<Rightarrow> f m | None \<Rightarrow> (case tb_GetPositionValue b m t of Inl _ \<Rightarrow> Ok (Fin 0) | Inr v \<Rightarrow> Ok v))"

fun equity_taken :: "'s BacktestEngine \<Rightarrow> 's TaskBuilder \<Rightarrow> f64 list \<Rightarrow> time list \<Rightarrow> (MockChainClient \<times> 's \<times> TaskTrade list) list \<Rightarrow> EquityPoint list \<Rightarrow> bool" where
  "equity_taken e b pnls [] rs ps \<longleftrightarrow> ps = []"
| "equity_taken e b pnls (c # cs) rs ps \<longleftrightarrow> (case (rs, ps) of
     ((m, t, ts) # rs', p # ps') \<Rightarrow>
        (\<exists>v. held_value e b m t = Ok v \<and>
           p = \<lparr>ep_At = c, ep_Equity = fadd (fadd (be_StartCapital e) (sumPnLSlice (pnls @ map tt_PnL ts))) v\<rparr>) \<and>
        equity_taken e b (pnls @ map tt_PnL ts) cs rs' ps'
   | _ \<Rightarrow> False)"

definition trades_taken :: "(MockChainClient \<times> 's \<times> TaskTrade list) list \<Rightarrow> TaskTrade list" where
  "trades_taken rs = concat (map (\<lambda>(m, t, ts). ts) rs)"

lemma equity_taken_times: "equity_taken e b pnls cs rs ps \<Longrightarrow> map ep_At ps = cs"
proof (induction cs arbitrary: pnls rs ps)
  case (Cons c cs)
  then show ?case by (cases rs; cases ps) auto
qed simp

lemma replay_tick_taken:
  assumes "replay_tick e b cursor s = (s', None)"
  shows "\<exists>ts v. tb_RunTick b (SetCursor cursor (rp_mock s)) (rp_task s) = (rp_mock s', rp_task s', Ok ts) \<and> held_value e b (rp_mock s') (rp_task s') = Ok v \<and>
    rp_trades s' = rp_trades s @ ts \<and> rp_pnls s' = rp_pnls s @ map tt_PnL ts \<and>
    rp_curve s' = rp_curve s @ [\<lparr>ep_At = cursor, ep_Equity = fadd (fadd (be_StartCapital e) (sumPnLSlice (rp_pnls s'))) v\<rparr>]"
  using assms by (auto simp: replay_tick_def held_value_def Let_def split: prod.splits sum.splits option.splits)

lemma replay_loop_taken:
  "replay_loop e b endt step cursor s = (s', None) \<Longrightarrow> 0 < step \<Longrightarrow>
   \<exists>rs ps. ticks_taken b (tick_times cursor endt step) (rp_mock s) (rp_task s) rs \<and> equity_taken e b (rp_pnls s) (tick_times cursor endt step) rs ps \<and>
     rp_trades s' = rp_trades s @ trades_taken rs \<and> rp_curve s' = rp_curve s @ ps"
proof (induction e b endt step cursor s arbitrary: s' rule: replay_loop.induct)
  case (1 e b endt step cursor s)
  show ?case
  proof (cases "endt < cursor")
    case True
    with 1(2,3) show ?thesis by (subst (asm) replay_loop.simps) (simp add: tick_times_Nil trades_taken_def)
  next
    case False
    obtain s1 x where t: "replay_tick e b cursor s = (s1, x)" by force
    with 1(2,3) False have x: "x = None" "replay_loop e b endt step (cursor + step) s1 = (s', None)"
      by (subst (asm) replay_loop.simps, cases x, auto)+
    from replay_tick_taken t x(1) obtain ts v where tick: "tb_RunTick b (SetCursor cursor (rp_mock s)) (rp_task s) = (rp_mock s1, rp_task s1, Ok ts)"
      "held_value e b (rp_mock s1) (rp_task s1) = Ok v" "rp_trades s1 = rp_trades s @ ts" "rp_pnls s1 = rp_pnls s @ map tt_PnL ts"
      "rp_curve s1 = rp_curve s @ [\<lparr>ep_At = cursor, ep_Equity = fadd (fadd (be_StartCapital e) (sumPnLSlice (rp_pnls s1))) v\<rparr>]" by blast
    from 1(1) [OF _ t [symmetric] x(1) x(2) 1(3)] False 1(3) obtain rs ps where
      rest: "ticks_taken b (tick_times (cursor + step) endt step) (rp_mock s1) (rp_task s1) rs" "equity_taken e b (rp_pnls s1) (tick_times (cursor + step) endt step) rs ps"
        "rp_trades s' = rp_trades s1 @ trades_taken rs" "rp_curve s' = rp_curve s1 @ ps" by auto
    let ?p = "\<lparr>ep_At = cursor, ep_Equity = fadd (fadd (be_StartCapital e) (sumPnLSlice (rp_pnls s1))) v\<rparr>"
    from tick rest False 1(3) show ?thesis
      by (intro exI [of _ "(rp_mock s1, rp_task s1, ts) # rs"] exI [of _ "?p # ps"]) (simp add: tick_times_Cons trades_taken_def)
  qed
qed

lemma sorted_tick_times: "0 < step \<Longrightarrow> sorted (start # tick_times start endt step)"
proof -
  assume "0 < step"
  then have "sorted (tick_times start endt step)" "\<forall>t \<in> set (tick_times start endt step). start \<le> t"
    by (auto simp: tick_times_def sorted_wrt_map sorted_wrt_iff_nth_less sorted_map)
  then show ?thesis by simp
qed

interpretation by_at: weak_order by_at "\<lambda>_. True"
  by unfold_locales (auto simp: by_at_def)

lemma sort_curve_times:
  assumes "rearranges pe" "sorted (map ep_At curve)"
  shows "map ep_At (sort_Slice pe by_at curve) = map ep_At curve"
proof -
  have "sorted_wrt (\<lambda>a b. \<not> by_at b a) (sort_Slice pe by_at curve)" using assms(1) by (intro by_at.sort_Slice_sorted) simp_all
  then have "sorted (map ep_At (sort_Slice pe by_at curve))" by (simp add: by_at_def sorted_map not_less)
  moreover have "mset (map ep_At (sort_Slice pe by_at curve)) = mset (map ep_At curve)" using assms(1) by (simp add: mset_sort_Slice)
  ultimately show ?thesis using assms(2) by (metis properties_for_sort sort_key_id_if_sorted)
qed

text \<open>
  C10: a backtest replays every tick exactly once, in order.  A run that ends without an error has run the task once at each time
  \<open>start + k * interval\<close> up to the end, both of them included, on the mock chain set to that time and the state
  the tick before left; the trades it reports are those of these ticks in order; its equity curve holds the starting capital and one point
  for each tick, the starting capital with the profits so far and the value then held; the equity it reports is that of the last
  tick, and the profit is that equity less the starting capital.
\<close>

theorem backtest_replays_every_tick:
  assumes "engine_Run pr pe (Some e) genome period = (r, None)" "rearranges pe"
  shows "\<exists>task0 rs ps. let b = the (be_Builder e); times = tick_times (bp_Start period) (bp_End period) (bp_TickInterval period);
        mock = SetCursor (bp_Start period) (NewMockChainClient pr (be_MockConfig e) (be_PriceRows e));
        curve = \<lparr>ep_At = bp_Start period, ep_Equity = be_StartCapital e\<rparr> # ps
      in tb_Build b mock genome = Ok task0 \<and> ticks_taken b times mock task0 rs \<and> equity_taken e b [] times rs ps \<and>
         br_Trades r = trades_taken rs \<and> br_TradeCount r = int (length (trades_taken rs)) \<and>
         mset (br_EquityCurve r) = mset curve \<and> map ep_At (br_EquityCurve r) = bp_Start period # times \<and>
         br_EndEquity r = ep_Equity (last curve) \<and> br_TotalPnL r = fsub (ep_Equity (last curve)) (be_StartCapital e)"
proof -
  let ?mock = "SetCursor (bp_Start period) (NewMockChainClient pr (be_MockConfig e) (be_PriceRows e))"
  let ?p0 = "\<lparr>ep_At = bp_Start period, ep_Equity = be_StartCapital e\<rparr>" and ?times = "tick_times (bp_Start period) (bp_End period) (bp_TickInterval period)"
  from assms(1) have g: "bp_Start period < bp_End period" "0 < bp_TickInterval period"
    by (auto simp: engine_Run_def split: if_splits)
  with assms(1) obtain task0 s where task0: "tb_Build (the (be_Builder e)) ?mock genome = Ok task0" and
    s: "replay_loop e (the (be_Builder e)) (bp_End period) (bp_TickInterval period) (bp_Start period)
          \<lparr>rp_mock = ?mock, rp_task = task0, rp_curve = [?p0], rp_trades = [], rp_pnls = []\<rparr> = (s, None)"
    and r: "r = finish pe (empty_result\<lparr>br_GenomeName := g_Name genome, br_Period := period, br_StartCapital := be_StartCapital e, br_EndEquity := be_StartCapital e\<rparr>) s"
    by (auto simp: engine_Run_def Let_def split: sum.splits prod.splits option.splits)
  from replay_loop_taken [OF s g(2)] obtain rs ps where
    run: "ticks_taken (the (be_Builder e)) ?times ?mock task0 rs" "equity_taken e (the (be_Builder e)) [] ?times rs ps"
      "rp_trades s = trades_taken rs" "rp_curve s = ?p0 # ps" by auto
  have c: "map ep_At (rp_curve s) = bp_Start period # ?times" using equity_taken_times [OF run(2)] run(4) by simp
  have "map ep_At (sort_Slice pe by_at (rp_curve s)) = map ep_At (rp_curve s)"
    using assms(2) c sorted_tick_times [OF g(2)] by (intro sort_curve_times) simp_all
  moreover have "br_EquityCurve r = (if length (rp_curve s) < 2 then rp_curve s else sort_Slice pe by_at (rp_curve s))"
    "br_Trades r = rp_trades s" "br_TradeCount r = int (length (rp_trades s))" "br_EndEquity r = ep_Equity (last (rp_curve s))"
    "br_TotalPnL r = fsub (ep_Equity (last (rp_curve s))) (be_StartCapital e)"
    by (simp_all add: r finish_def Let_def)
  moreover have "mset (br_EquityCurve r) = mset (rp_curve s)" using assms(2) calculation(2) by (simp add: mset_sort_Slice)
  ultimately have "map ep_At (br_EquityCurve r) = bp_Start period # ?times" "mset (br_EquityCurve r) = mset (?p0 # ps)"
    "br_Trades r = trades_taken rs" "br_TradeCount r = int (length (trades_taken rs))" "br_EndEquity r = ep_Equity (last (?p0 # ps))"
    "br_TotalPnL r = fsub (ep_Equity (last (?p0 # ps))) (be_StartCapital e)"
    using c by (simp_all only: run if_cancel split: if_split) auto
  with run(1,2) task0 show ?thesis by (intro exI [of _ task0] exI [of _ rs] exI [of _ ps]) (simp only: Let_def)
qed

definition idle_engine :: "unit BacktestEngine" where
  "idle_engine = \<lparr>be_Builder = Some \<lparr>tb_Build = (\<lambda>m g. Ok ()), tb_RunTick = (\<lambda>m s. (m, s, Ok [])), tb_GetPositionValue = (\<lambda>m s. Ok (Fin 0))\<rparr>,
     be_MockConfig = demo_mock, be_PriceRows = [demo_row 0 (Fin 4)], be_StartCapital = Fin 64, be_PnLValuation = None\<rparr>"

theorem backtest_replays_every_tick_witness:
  "\<forall>genome. \<exists>r. engine_Run (\<lambda>xs. xs) rev (Some idle_engine) genome \<lparr>bp_Start = 10, bp_End = 35, bp_TickInterval = 10\<rparr> = (r, None) \<and>
     map ep_At (br_EquityCurve r) = [10, 10, 20, 30]"
proof
  fix genome
  let ?period = "\<lparr>bp_Start = 10, bp_End = 35, bp_TickInterval = 10\<rparr>"
  obtain r x where r: "engine_Run (\<lambda>xs. xs) rev (Some idle_engine) genome ?period = (r, x)" by force
  then have "x = None" by (auto simp: engine_Run_def idle_engine_def Let_def replay_loop.simps replay_tick_def)
  with r have e: "engine_Run (\<lambda>xs. xs) rev (Some idle_engine) genome ?period = (r, None)" by simp
  have "tick_times 10 35 10 = [10, 20, 30]" by (simp add: tick_times_def upt_rec)
  with backtest_replays_every_tick [OF e] e
  show "\<exists>r. engine_Run (\<lambda>xs. xs) rev (Some idle_engine) genome ?period = (r, None) \<and> map ep_At (br_EquityCurve r) = [10, 10, 20, 30]"
    by (auto simp: Let_def)
qed

section \<open>A liquidity provider in the backtest\<close>

text \<open>
  \<^verbatim>\<open>TaskBuilder\<close> is a function type: the caller of the engine supplies the value, and the repository has none
  for this task.  The one below is a test input of the engine, not code of the repository: it does with a
  liquidity-provision task what its constructor, \<^verbatim>\<open>SeedFreeCapital\<close> and \<^verbatim>\<open>RunTick\<close> ask of a caller, and binds
  it, seeded with \<open>C\<close> dollars, to the mock chain.
\<close>

definition lp_builder :: "(f64 \<Rightarrow> int) \<Rightarrow> LiquidityProvisionConfig \<Rightarrow> f64 \<Rightarrow> LiquidityProvision TaskBuilder" where
  "lp_builder oob cfg C =
     \<lparr>tb_Build = (\<lambda>mock genome. bindr (NewLiquidityProvision (Some [mk_ChainName (mx_cfg mock)]) cfg) (\<lambda>l. Ok (lp_SeedFreeCapital C l))),
      tb_RunTick = (\<lambda>mock l. case lp_RunTick oob (mx_cursor mock) (mock_GetQuote mock) l of (l', r) \<Rightarrow> (mock, l', r)),
      tb_GetPositionValue = (\<lambda>mock l. lp_GetPositionValue l)\<rparr>"

text \<open>A mock chain on which a pair always costs \<open>P\<close>.\<close>

definition flat_market :: "string \<Rightarrow> f64 \<Rightarrow> MockChainClient \<Rightarrow> bool" where
  "flat_market pair P m \<longleftrightarrow> rows_of (mx_pricesByPair m) pair \<noteq> [] \<and> (\<forall>r \<in> set (rows_of (mx_pricesByPair m) pair). pr_Price r = P)"

lemma search_rows_le: "lo \<le> hi \<Longrightarrow> search_rows rows cursor lo hi \<le> hi"
proof (induction rows cursor lo hi rule: search_rows.induct)
  case (1 rows cursor lo hi)
  show ?case
  proof (cases "lo < hi")
    case True
    define mid where "mid = (lo + hi + 1) div 2"
    have m: "lo < mid" "mid \<le> hi" using True by (auto simp: mid_def)
    have s: "search_rows rows cursor lo hi = (if cursor < pr_RecordedAt (rows ! mid) then search_rows rows cursor lo (mid - 1) else search_rows rows cursor mid hi)"
      using True by (subst search_rows.simps) (simp add: mid_def Let_def)
    have b: "lo \<le> mid - 1" "mid - 1 \<le> hi" using m by auto
    show ?thesis
    proof (cases "cursor < pr_RecordedAt (rows ! mid)")
      case after: True
      from 1(1) [OF True mid_def after b(1)] b(2) show ?thesis unfolding s using after by simp
    next
      case False
      from 1(2) [OF True mid_def False m(2)] show ?thesis unfolding s using False by simp
    qed
  next
    case False
    then show ?thesis using 1(3) by (subst search_rows.simps) simp
  qed
qed

lemma flat_price:
  assumes "flat_market pair P m"
  shows "\<exists>t. priceAtCursor pair m = Ok (P, t)"
proof -
  let ?rows = "rows_of (mx_pricesByPair m) pair"
  have ne: "?rows \<noteq> []" and p: "\<forall>i < length ?rows. pr_Price (?rows ! i) = P" using assms by (auto simp: flat_market_def)
  have "search_rows ?rows (mx_cursor m) 0 (length ?rows - 1) \<le> length ?rows - 1" by (rule search_rows_le) simp
  then have "search_rows ?rows (mx_cursor m) 0 (length ?rows - 1) < length ?rows" using ne by (cases ?rows) auto
  with ne p show ?thesis by (auto simp: priceAtCursor_def Let_def)
qed

lemma flat_quote_price:
  assumes "flat_market (ToUpper (a @ ''/'' @ b)) P m" "sane_price P"
  shows "\<exists>q. mock_GetQuote m a b (Fin 1) = Ok q \<and> lp_price q = P"
proof -
  from flat_price [OF assms(1)] obtain t where "priceAtCursor (ToUpper (a @ ''/'' @ b)) m = Ok (P, t)" by blast
  moreover have "\<not> feq P (Fin 0)" using sane_price_fin [OF assms(2)] by (cases P) (auto simp: fcmp_defs)
  ultimately show ?thesis by (simp add: mock_GetQuote_def Let_def lp_price_def)
qed

text \<open>While the price stays at the center of the band a tick does nothing.\<close>

lemma no_drift: "sane_price P \<Longrightarrow> fdiv (math_Abs (fsub P P)) P = Fin 0"
proof -
  assume P: "sane_price P"
  note p = sane_price_fin [OF P]
  then obtain x where x: "P = Fin x" "0 < x" by (cases P) auto
  have "fsub P P = Fin 0" using x by (simp add: fsub_def fadd_def fzero_def)
  then show ?thesis using x by (simp add: fdiv_def fzero_def)
qed

lemma lp_idle_tick:
  assumes "li_position l = Some pos" "lp_CenterPrice pos = P" "sane_price P" "quote (li_tokenA l) (li_tokenB l) (Fin 1) = Ok q" "lp_price q = P"
    "flt (Fin 0) (lc_RebalanceThresholdPct (li_cfg l))"
  shows "\<exists>l'. lp_RunTick oob now quote l = (l', Ok []) \<and> li_position l' = Some pos \<and> li_cfg l' = li_cfg l \<and> li_tokenA l' = li_tokenA l \<and> li_tokenB l' = li_tokenB l"
  using assms no_drift [OF assms(3)] sane_price_fin(5) [OF assms(3)] by (auto simp: lp_RunTick_def Let_def)

lemma lp_first_tick:
  assumes "li_position l = None" "li_lastCheck l = zero_time" "li_freeCapital l = C" "\<not> flt C (lc_MinCapitalToOperate (li_cfg l))" "\<not> fle C (Fin 0)"
    "quote (li_tokenA l) (li_tokenB l) (Fin 1) = Ok q" "lp_price q = P" "sane_price P"
  shows "\<exists>l' t pos. lp_RunTick oob now quote l = (l', Ok [t]) \<and> tt_PnL t = Fin 0 \<and> li_position l' = Some pos \<and> lp_CenterPrice pos = P \<and> lp_ValueUSD pos = C \<and>
    li_cfg l' = li_cfg l \<and> li_tokenA l' = li_tokenA l \<and> li_tokenB l' = li_tokenB l"
  using assms sane_price_fin(5) [OF assms(8)]
  by (auto simp: lp_RunTick_def Let_def throttled_def lp_totalCapital_def openPosition_def zero_trade_def)

text \<open>The books after the first tick: one open position of value \<open>C\<close>, one trade without profit, equity \<open>E\<close> at every tick.\<close>

definition lp_holds :: "LiquidityProvisionConfig \<Rightarrow> string \<Rightarrow> f64 \<Rightarrow> f64 \<Rightarrow> f64 \<Rightarrow> LiquidityProvision replay \<Rightarrow> bool" where
  "lp_holds cfg pair P C E s \<longleftrightarrow> flat_market pair P (rp_mock s) \<and> li_cfg (rp_task s) = cfg \<and>
     pair = ToUpper (li_tokenA (rp_task s) @ ''/'' @ li_tokenB (rp_task s)) \<and>
     (\<exists>pos. li_position (rp_task s) = Some pos \<and> lp_CenterPrice pos = P \<and> lp_ValueUSD pos = C) \<and>
     length (rp_trades s) = 1 \<and> rp_pnls s = [Fin 0] \<and>
     (\<exists>p ps. rp_curve s = p # ps \<and> ps \<noteq> [] \<and> ep_Equity p = C \<and> (\<forall>q \<in> set ps. ep_Equity q = E))"

lemma flat_cursor [simp]: "flat_market pair P (SetCursor t m) = flat_market pair P m" "mx_cursor (SetCursor t m) = t" "SetCursor t (SetCursor u m) = SetCursor t m"
  by (simp_all add: flat_market_def SetCursor_def)

lemma lp_holds_tick:
  assumes "lp_holds cfg pair P C (fadd (fadd C (fadd (Fin 0) (Fin 0))) C) s" "sane_price P" "flt (Fin 0) (lc_RebalanceThresholdPct cfg)"
    "be_StartCapital e = C" "be_PnLValuation e = None"
  shows "\<exists>s'. replay_tick e (lp_builder oob lcfg C0) cursor s = (s', None) \<and> lp_holds cfg pair P C (fadd (fadd C (fadd (Fin 0) (Fin 0))) C) s'"
proof -
  let ?m = "SetCursor cursor (rp_mock s)" and ?l = "rp_task s"
  from assms(1) obtain pos where h: "flat_market pair P ?m" "li_cfg ?l = cfg" "pair = ToUpper (li_tokenA ?l @ ''/'' @ li_tokenB ?l)"
    "li_position ?l = Some pos" "lp_CenterPrice pos = P" "lp_ValueUSD pos = C" "length (rp_trades s) = 1" "rp_pnls s = [Fin 0]"
    by (auto simp: lp_holds_def)
  from flat_quote_price [of "li_tokenA ?l" "li_tokenB ?l" P ?m] h(1,3) assms(2) obtain q
    where q: "mock_GetQuote ?m (li_tokenA ?l) (li_tokenB ?l) (Fin 1) = Ok q" "lp_price q = P" by auto
  from lp_idle_tick [where quote = "mock_GetQuote ?m" and now = cursor and oob = oob, OF h(4,5) assms(2) q] h(2) assms(3) obtain l' where
    l': "lp_RunTick oob cursor (mock_GetQuote ?m) ?l = (l', Ok [])" "li_position l' = Some pos" "li_cfg l' = cfg" "li_tokenA l' = li_tokenA ?l" "li_tokenB l' = li_tokenB ?l"
    by fastforce
  let ?E = "fadd (fadd C (fadd (Fin 0) (Fin 0))) C"
  let ?s' = "s\<lparr>rp_mock := ?m, rp_task := l', rp_curve := rp_curve s @ [\<lparr>ep_At = cursor, ep_Equity = ?E\<rparr>]\<rparr>"
  have "replay_tick e (lp_builder oob lcfg C0) cursor s = (?s', None)"
    using l' h assms(4,5) by (simp add: replay_tick_def lp_builder_def Let_def lp_GetPositionValue_def sumPnLSlice_def)
  moreover have "lp_holds cfg pair P C ?E ?s'"
    using assms(1) l' h by (auto simp: lp_holds_def)
  ultimately show ?thesis by blast
qed

lemma lp_holds_loop:
  "lp_holds cfg pair P C (fadd (fadd C (fadd (Fin 0) (Fin 0))) C) s \<Longrightarrow> sane_price P \<Longrightarrow> flt (Fin 0) (lc_RebalanceThresholdPct cfg) \<Longrightarrow>
   be_StartCapital e = C \<Longrightarrow> be_PnLValuation e = None \<Longrightarrow>
   \<exists>s'. replay_loop e (lp_builder oob lcfg C0) endt step cursor s = (s', None) \<and> lp_holds cfg pair P C (fadd (fadd C (fadd (Fin 0) (Fin 0))) C) s'"
proof (induction e "lp_builder oob lcfg C0" endt step cursor s rule: replay_loop.induct)
  case (1 e endt step cursor s)
  show ?case
  proof (cases "step \<le> 0 \<or> endt < cursor")
    case True
    with 1(2) show ?thesis by (subst replay_loop.simps) simp
  next
    case False
    from lp_holds_tick [OF 1(2-6)] obtain s1 where
      t: "replay_tick e (lp_builder oob lcfg C0) cursor s = (s1, None)" and h: "lp_holds cfg pair P C (fadd (fadd C (fadd (Fin 0) (Fin 0))) C) s1" by blast
    from 1(1) [OF False t [symmetric] refl h 1(3-6)] False t show ?thesis by (subst replay_loop.simps) simp
  qed
qed

lemma flat_drawdown:
  "\<forall>q \<in> set ps. ep_Equity q = Fin e \<Longrightarrow> 0 < c \<Longrightarrow> c \<le> e \<Longrightarrow> peak = Fin c \<or> peak = Fin e \<Longrightarrow> snd (foldl drawdown_visit (peak, Fin 0) ps) = Fin 0"
proof (induction ps arbitrary: peak)
  case (Cons q ps)
  have z: "fdiv (fsub (Fin x) (Fin x)) (Fin x) = Fin 0" if "0 < x" for x
    using that by (simp add: fsub_def fadd_def fdiv_def fzero_def)
  have "drawdown_visit (peak, Fin 0) q = (Fin e, Fin 0)"
    using Cons.prems z by (auto simp: drawdown_visit_def Let_def)
  with Cons show ?case by simp
qed simp

lemma dollars:
  assumes "0 < n" "n \<le> 2 ^ 52"
  shows "fadd (fadd (Fin (of_int n)) (fadd (Fin 0) (Fin 0))) (Fin (of_int n)) = Fin (of_int (2 * n))"
    "fsub (Fin (of_int (2 * n))) (Fin (of_int n)) = Fin (of_int n)"
proof -
  have r: "rnd (of_int k) = Fin (of_int k)" if "0 < k" "k \<le> 2 ^ 53" for k using that by (intro rnd_int) simp
  have "fadd (Fin 0) (Fin 0) = Fin 0" by (simp add: fadd_def fzero_def)
  moreover have "fadd (Fin (of_int n)) (Fin 0) = Fin (of_int n)" using assms r [of n] by (simp add: fadd_def Let_def)
  moreover have "fadd (Fin (of_int n)) (Fin (of_int n)) = Fin (of_int (2 * n))" using assms r [of "2 * n"] by (simp add: fadd_def Let_def)
  ultimately show "fadd (fadd (Fin (of_int n)) (fadd (Fin 0) (Fin 0))) (Fin (of_int n)) = Fin (of_int (2 * n))" by simp
  have "fneg (Fin (of_int n)) = Fin (- of_int n)" using assms by simp
  then show "fsub (Fin (of_int (2 * n))) (Fin (of_int n)) = Fin (of_int n)" using assms r [of n] by (simp add: fsub_def fadd_def Let_def)
qed

lemma lp_holds_passes:
  assumes "lp_holds cfg pair P (Fin (of_int n)) (Fin (of_int (2 * n))) s" "0 < n" "n \<le> 2 ^ 52" "br_StartCapital r0 = Fin (of_int n)"
  shows "Passed (finish pe r0 s) \<and> br_TotalPnL (finish pe r0 s) = Fin (of_int n) \<and> br_MaxDrawdown (finish pe r0 s) = Fin 0"
proof -
  from assms(1) obtain p ps where c: "rp_curve s = p # ps" "ps \<noteq> []" "ep_Equity p = Fin (of_int n)" "\<forall>q \<in> set ps. ep_Equity q = Fin (of_int (2 * n))"
    and t: "length (rp_trades s) = 1" by (auto simp: lp_holds_def)
  have n: "0 < (of_int n :: rat)" using assms(2) by simp
  have "ep_Equity (last (rp_curve s)) = Fin (of_int (2 * n))" using c by simp
  then have pnl: "br_TotalPnL (finish pe r0 s) = Fin (of_int n)" using assms(4) dollars(2) [OF assms(2,3)] by (simp add: finish_def Let_def)
  have "drawdown_visit (Fin (of_int n), Fin 0) p = (Fin (of_int n), Fin 0)"
    using c(3) n by (simp add: drawdown_visit_def Let_def fsub_def fadd_def fdiv_def fzero_def)
  then have dd: "br_MaxDrawdown (finish pe r0 s) = Fin 0"
    using c(1,3) flat_drawdown [OF c(4) n] assms(2) by (simp add: finish_def Let_def computeMaxDrawdown_def)
  have "br_TradeCount (finish pe r0 s) = 1" using t by (simp add: finish_def Let_def)
  moreover have "flt (Fin 0) (rnd (5 / 10))" using rnd_pos [of "5 / 10"] by simp
  ultimately show ?thesis using pnl dd n by (simp add: Passed_def)
qed

text \<open>
  C24: the backtest counts deposited capital as profit.  A liquidity-provision task is seeded with the starting capital of
  \<open>n\<close> whole dollars and replayed over any rows in which the price of its pair never moves.  It deposits
  the capital at the first tick and does nothing ever after, yet the backtest reports a profit of \<open>n\<close> dollars, that is
  100 percent, no drawdown, and passes the candidate: the equity adds the value of the position to a starting
  capital from which the deposit was never taken.
\<close>

theorem backtest_counts_deposit_as_profit:
  assumes "rearranges pr" "be_Builder e = Some (lp_builder oob cfg (Fin (of_int n)))" "be_StartCapital e = Fin (of_int n)" "be_PnLValuation e = None"
    and "NewLiquidityProvision (Some [mk_ChainName (mx_cfg (NewMockChainClient pr (be_MockConfig e) (be_PriceRows e)))]) cfg = Inr l0" "lp_cfg_numbers cfg"
    and "0 < n" "n \<le> 2 ^ 52" "\<not> flt (Fin (of_int n)) (lc_MinCapitalToOperate cfg)"
    and "observations pr (ToUpper (li_tokenA l0 @ ''/'' @ li_tokenB l0)) (be_PriceRows e) \<noteq> []" "\<forall>r \<in> set (be_PriceRows e). pr_Price r = P" "sane_price P"
    and "bp_Start period < bp_End period" "0 < bp_TickInterval period"
  shows "\<exists>r. engine_Run pr pe (Some e) genome period = (r, None) \<and> Passed r \<and> br_TotalPnL r = Fin (of_int n) \<and> br_MaxDrawdown r = Fin 0"
proof -
  let ?C = "Fin (of_int n)" and ?pair = "ToUpper (li_tokenA l0 @ ''/'' @ li_tokenB l0)" and ?b = "lp_builder oob cfg (Fin (of_int n))"
  let ?m0 = "SetCursor (bp_Start period) (NewMockChainClient pr (be_MockConfig e) (be_PriceRows e))"
  let ?l1 = "lp_SeedFreeCapital ?C l0" and ?E = "fadd (fadd ?C (fadd (Fin 0) (Fin 0))) ?C"
  have ok: "lp_cfg_ok (li_cfg l0)" "li_position l0 = None" using lp_New_ok [OF assms(6,5)] by simp_all
  have cfg: "li_cfg l0 = lp_applyDefaults cfg" "li_lastCheck l0 = zero_time"
    using assms(5) by (auto simp: NewLiquidityProvision_def Let_def bindr_Ok_iff split: option.splits if_splits)
  have thr: "flt (Fin 0) (lc_RebalanceThresholdPct (li_cfg l0))"
  proof -
    have "2 powi (-10) \<le> (1 / 1000 :: rat)" by (simp add: power_int_minus)
    then have "flt (Fin 0) rebalanceThreshFloor" unfolding rebalanceThreshFloor_def by (rule rnd_powi_pos) simp_all
    moreover have "fle rebalanceThreshFloor (lc_RebalanceThresholdPct (li_cfg l0))" using ok(1) by (simp add: lp_cfg_ok_def in_range_def)
    ultimately show ?thesis by (rule flt_fle_trans)
  qed
  have flat: "flat_market ?pair P ?m0"
    using assms(1,10,11) by (auto simp: flat_market_def SetCursor_def rows_of_New observations_def)
  let ?m = "SetCursor (bp_Start period) ?m0"
  from flat_quote_price [of "li_tokenA l0" "li_tokenB l0" P ?m] flat assms(12) obtain q
    where q: "mock_GetQuote ?m (li_tokenA ?l1) (li_tokenB ?l1) (Fin 1) = Ok q" "lp_price q = P" by (auto simp: lp_SeedFreeCapital_def)
  have "\<not> fle ?C (Fin 0)" using assms(7) by simp
  then obtain l' t pos where l': "lp_RunTick oob (bp_Start period) (mock_GetQuote ?m) ?l1 = (l', Ok [t])" "tt_PnL t = Fin 0" "li_position l' = Some pos"
      "lp_CenterPrice pos = P" "lp_ValueUSD pos = ?C" "li_cfg l' = li_cfg l0" "li_tokenA l' = li_tokenA l0" "li_tokenB l' = li_tokenB l0"
    using lp_first_tick [where l = ?l1 and quote = "mock_GetQuote ?m" and now = "bp_Start period" and oob = oob, OF _ _ _ _ _ q assms(12)] ok(2) cfg assms(9)
    by (auto simp: lp_SeedFreeCapital_def lp_applyDefaults_def)
  let ?s0 = "\<lparr>rp_mock = ?m0, rp_task = ?l1, rp_curve = [\<lparr>ep_At = bp_Start period, ep_Equity = ?C\<rparr>], rp_trades = [], rp_pnls = []\<rparr>"
  let ?s1 = "\<lparr>rp_mock = ?m, rp_task = l', rp_curve = [\<lparr>ep_At = bp_Start period, ep_Equity = ?C\<rparr>, \<lparr>ep_At = bp_Start period, ep_Equity = ?E\<rparr>], rp_trades = [t], rp_pnls = [Fin 0]\<rparr>"
  have t1: "replay_tick e ?b (bp_Start period) ?s0 = (?s1, None)"
    using l' assms(3,4) by (simp add: replay_tick_def lp_builder_def Let_def lp_GetPositionValue_def sumPnLSlice_def)
  have "lp_holds (li_cfg l0) ?pair P ?C ?E ?s1" using l' flat by (auto simp: lp_holds_def)
  from lp_holds_loop [OF this assms(12) thr assms(3,4)] obtain s' where
    s': "replay_loop e ?b (bp_End period) (bp_TickInterval period) (bp_Start period + bp_TickInterval period) ?s1 = (s', None)"
      "lp_holds (li_cfg l0) ?pair P ?C ?E s'" by blast
  have loop: "replay_loop e ?b (bp_End period) (bp_TickInterval period) (bp_Start period) ?s0 = (s', None)"
    using t1 s'(1) assms(13,14) by (subst replay_loop.simps) simp
  have build: "tb_Build ?b ?m0 genome = Ok ?l1" using assms(5) by (simp add: lp_builder_def SetCursor_def)
  let ?r0 = "empty_result\<lparr>br_GenomeName := g_Name genome, br_Period := period, br_StartCapital := ?C, br_EndEquity := ?C\<rparr>"
  have "engine_Run pr pe (Some e) genome period = (finish pe ?r0 s', None)"
    using assms(2,3,13,14) build loop by (simp add: engine_Run_def Let_def)
  moreover have "lp_holds (li_cfg l0) ?pair P ?C (Fin (of_int (2 * n))) s'" using s'(2) dollars(1) [OF assms(7,8)] by simp
  ultimately show ?thesis using lp_holds_passes [OF _ assms(7,8), of "li_cfg l0" ?pair P s' ?r0 pe] by simp
qed

definition lp_engine :: "LiquidityProvision BacktestEngine" where
  "lp_engine = \<lparr>be_Builder = Some (lp_builder (\<lambda>_. 0) lp_demo (Fin 1000)), be_MockConfig = demo_mock\<lparr>mk_ChainName := ''solana''\<rparr>,
     be_PriceRows = [demo_row 0 (Fin 4), demo_row 50 (Fin 4)], be_StartCapital = Fin 1000, be_PnLValuation = None\<rparr>"

theorem backtest_counts_deposit_as_profit_witness:
  "\<forall>genome. \<exists>r. engine_Run (\<lambda>xs. xs) (\<lambda>xs. xs) (Some lp_engine) genome \<lparr>bp_Start = 1, bp_End = 10 * Day, bp_TickInterval = Hour\<rparr> = (r, None) \<and>
     Passed r \<and> br_TotalPnL r = Fin 1000"
proof
  fix genome
  let ?period = "\<lparr>bp_Start = 1, bp_End = 10 * Day, bp_TickInterval = Hour\<rparr>"
  have n: "mk_ChainName (mx_cfg (NewMockChainClient (\<lambda>xs. xs) (be_MockConfig lp_engine) (be_PriceRows lp_engine))) = ''solana''"
    by (simp add: NewMockChainClient_def lp_engine_def demo_mock_def Let_def)
  have "case NewLiquidityProvision (Some [''solana'']) lp_demo of Inl _ \<Rightarrow> False | Inr l \<Rightarrow> li_tokenA l = ''SOL'' \<and> li_tokenB l = ''USDC''" by code_simp
  then obtain l where l: "NewLiquidityProvision (Some [''solana'']) lp_demo = Inr l" "li_tokenA l = ''SOL''" "li_tokenB l = ''USDC''"
    by (cases "NewLiquidityProvision (Some [''solana'']) lp_demo") auto
  have o: "observations (\<lambda>xs. xs) (ToUpper (li_tokenA l @ ''/'' @ li_tokenB l)) (be_PriceRows lp_engine) \<noteq> []"
    by (simp add: l observations_def sort_Slice_def stable_sort_def lp_engine_def demo_row_def earlier_def)
  have "\<exists>r. engine_Run (\<lambda>xs. xs) (\<lambda>xs. xs) (Some lp_engine) genome ?period = (r, None) \<and>
     Passed r \<and> br_TotalPnL r = Fin (of_int 1000) \<and> br_MaxDrawdown r = Fin 0"
  proof (rule backtest_counts_deposit_as_profit [where oob = "\<lambda>_. 0" and cfg = lp_demo and ?l0.0 = l and P = "Fin 4"])
    show "NewLiquidityProvision (Some [mk_ChainName (mx_cfg (NewMockChainClient (\<lambda>xs. xs) (be_MockConfig lp_engine) (be_PriceRows lp_engine)))]) lp_demo = Inr l"
      unfolding n by (rule l(1))
    show "observations (\<lambda>xs. xs) (ToUpper (li_tokenA l @ ''/'' @ li_tokenB l)) (be_PriceRows lp_engine) \<noteq> []" by (rule o)
    show "sane_price (Fin 4)" using sane_price_small [of 4] by simp
  qed (simp_all add: lp_engine_def demo_row_def lp_cfg_numbers_def lp_demo_def Day_def Hour_def Minute_def Second_def)
  then show "\<exists>r. engine_Run (\<lambda>xs. xs) (\<lambda>xs. xs) (Some lp_engine) genome ?period = (r, None) \<and> Passed r \<and> br_TotalPnL r = Fin 1000" by auto
qed

end
