(* ===== verification/JsonText.thy ===== *)
theory JsonText
  imports Json
begin

text \<open>
  The writing half of \<^verbatim>\<open>encoding/json\<close>, as far as the sources use it on text: validity of a document and the quoting
  of a string, with the proof that reading what was quoted gives the string back.
\<close>

section \<open>Model\<close>

text \<open>
  \<^verbatim>\<open>json.Valid\<close> is the grammar of \<open>Json\<close> with nothing but white space after the value (its nesting limit of
  10000 is not modelled), and \<open>json_quote\<close> is what \<^verbatim>\<open>json.Marshal\<close> makes of a string in valid UTF-8: quotes,
  backslashes, control characters, the characters of HTML and the separators U+2028 and U+2029 are escaped.
\<close>

definition json_valid :: "string \<Rightarrow> bool" where
  "json_valid s = (case parse_json PVal False s of None \<Rightarrow> False | Some (_, r) \<Rightarrow> skip_ws r = [])"

definition json_hex :: "nat \<Rightarrow> char" where "json_hex k = ''0123456789abcdef'' ! k"

definition escape_char :: "char \<Rightarrow> string" where
  "escape_char c =
     (case map_of [(CHR 0x22, CHR 0x22), (CHR 0x5C, CHR 0x5C), (CHR 0x08, CHR ''b''), (CHR 0x0C, CHR ''f''),
                   (CHR 0x0A, CHR ''n''), (CHR 0x0D, CHR ''r''), (CHR 0x09, CHR ''t'')] c of
        Some e \<Rightarrow> [CHR 0x5C, e]
      | None \<Rightarrow> let n = (of_char c :: nat) in
          if n < 32 \<or> c \<in> {CHR ''<'', CHR ''>'', CHR ''&''}
          then [CHR 0x5C, CHR ''u'', CHR ''0'', CHR ''0'', json_hex (n div 16), json_hex (n mod 16)] else [c])"

fun json_escape :: "string \<Rightarrow> string" where
  "json_escape [] = []"
| "json_escape (c # cs) =
     (if c = CHR 0xE2 \<and> take 2 cs = [CHR 0x80, CHR 0xA8] then [CHR 0x5C] @ ''u2028'' @ json_escape (drop 2 cs)
      else if c = CHR 0xE2 \<and> take 2 cs = [CHR 0x80, CHR 0xA9] then [CHR 0x5C] @ ''u2029'' @ json_escape (drop 2 cs)
      else escape_char c @ json_escape cs)"

definition json_quote :: "string \<Rightarrow> string" where "json_quote s = [CHR 0x22] @ json_escape s @ [CHR 0x22]"

section \<open>Parsing what was quoted\<close>

lemma hex_val_json_hex: "k < 16 \<Longrightarrow> hex_val (json_hex k) = Some k"
proof -
  assume "k < 16"
  then have "k \<in> set [0..<16]" by simp
  moreover have "list_all (\<lambda>k. hex_val (json_hex k) = Some k) [0..<16]" by code_simp
  ultimately show ?thesis by (simp add: list_all_iff)
qed

lemma parse_plain: "c \<noteq> CHR 0x22 \<Longrightarrow> c \<noteq> CHR 0x5C \<Longrightarrow> 32 \<le> (of_char c :: nat) \<Longrightarrow>
    parse_string_body (c # cs) = map_option (\<lambda>(t, r). (c # t, r)) (parse_string_body cs)"
  by (subst parse_string_body.simps) simp

lemma parse_simple: "simple_escape e = Some x \<Longrightarrow> e \<noteq> CHR ''u'' \<Longrightarrow>
    parse_string_body (CHR 0x5C # e # cs) = map_option (\<lambda>(t, r). (x # t, r)) (parse_string_body cs)"
  by (subst parse_string_body.simps) (simp del: parse_string_body.simps)

lemma parse_unicode: "unicode_escape es = Some (u, rest) \<Longrightarrow> length rest < length es \<Longrightarrow>
    parse_string_body (CHR 0x5C # CHR ''u'' # es) = map_option (\<lambda>(t, r). (u @ t, r)) (parse_string_body rest)"
  by (subst parse_string_body.simps) (simp del: parse_string_body.simps)

declare parse_string_body.simps [simp del]

lemma unicode_low: "n < 128 \<Longrightarrow> unicode_escape (CHR ''0'' # CHR ''0'' # json_hex (n div 16) # json_hex (n mod 16) # cs) = Some ([char_of n], cs)"
proof -
  assume n: "n < 128"
  then have "hex_val (json_hex (n div 16)) = Some (n div 16)" "hex_val (json_hex (n mod 16)) = Some (n mod 16)"
    by (auto intro!: hex_val_json_hex simp: less_mult_imp_div_less)
  with n show ?thesis by (simp add: unicode_escape_def hex4_def hex_val_def [of "CHR ''0''"] utf8_def)
qed

lemma parse_escape_char: "parse_string_body (escape_char c @ cs) = map_option (\<lambda>(t, r). (c # t, r)) (parse_string_body cs)"
proof (cases "c \<in> {CHR 0x22, CHR 0x5C, CHR 0x08, CHR 0x0C, CHR 0x0A, CHR 0x0D, CHR 0x09}")
  case True
  then show ?thesis by (auto simp: escape_char_def parse_simple simple_escape_def)
next
  case False
  let ?n = "of_char c :: nat"
  show ?thesis
  proof (cases "?n < 32 \<or> c \<in> {CHR ''<'', CHR ''>'', CHR ''&''}")
    case True
    then have n: "?n < 128" by auto
    have "escape_char c = [CHR 0x5C, CHR ''u'', CHR ''0'', CHR ''0'', json_hex (?n div 16), json_hex (?n mod 16)]"
      using False True by (auto simp: escape_char_def Let_def)
    with parse_unicode [OF unicode_low [OF n]] show ?thesis by simp
  next
    case plain: False
    with False have "escape_char c = [c]" by (auto simp: escape_char_def Let_def)
    with False plain show ?thesis by (auto simp: parse_plain)
  qed
qed

lemma parse_escaped: "parse_string_body (json_escape s @ CHR 0x22 # r) = Some (s, r)"
proof (induction s rule: json_escape.induct)
  case 1
  show ?case by (subst parse_string_body.simps) simp
next
  case (2 c cs)
  have sep: "char_of (226::nat) = CHR 0xE2" "char_of (128::nat) = CHR 0x80" "char_of (168::nat) = CHR 0xA8" "char_of (169::nat) = CHR 0xA9"
    by code_simp+
  have "unicode_escape (''2028'' @ t) = Some ([CHR 0xE2, CHR 0x80, CHR 0xA8], t)"
    "unicode_escape (''2029'' @ t) = Some ([CHR 0xE2, CHR 0x80, CHR 0xA9], t)" for t
    by (simp_all add: unicode_escape_def hex4_def hex_val_def utf8_def sep)
  note u = this [THEN parse_unicode]
  show ?case
  proof (cases "c = CHR 0xE2 \<and> (take 2 cs = [CHR 0x80, CHR 0xA8] \<or> take 2 cs = [CHR 0x80, CHR 0xA9])")
    case True
    then have "cs = take 2 cs @ drop 2 cs" by simp
    with True "2.IH"(1,2) u show ?thesis by (elim conjE disjE) simp_all
  next
    case False
    with "2.IH"(3) parse_escape_char show ?thesis by auto
  qed
qed

lemma decode_quote: "parse_json PVal False (json_quote s @ r) = Some (JsStr s, r)"
  by (subst parse_json.simps) (simp add: json_quote_def skip_ws_def is_ws_def parse_escaped)

lemma json_valid_quote [simp]: "json_valid (json_quote s)"
  using decode_quote [of s "[]"] by (simp add: json_valid_def skip_ws_def)

lemma decode_json_quote [simp]: "decode_json (json_quote s) = Some (JsStr s)"
  using decode_quote [of s "[]"] by (simp add: decode_json_def)

end
