(* ===== verification/WsHub.thy ===== *)
theory WsHub
  imports Bus JsonText "HOL-Library.Sublist"
begin

text \<open>
  \<^verbatim>\<open>internal/api/websocket.go\<close>: the hub that fans redis messages out to the connected dashboards.  Every
  connection has two goroutines: the writer (\<^verbatim>\<open>handleWebsocket\<close>), which drains the buffer of 32 messages to the
  socket, and the reader, which only detects that the socket is gone.  Both, and the hub's \<^verbatim>\<open>broadcast\<close>, share the
  channel \<^verbatim>\<open>done\<close>, and closing a closed channel panics.

  The goroutines interleave freely, so the model is a transition function on the actions of all of them.
  Registration is excluded while a broadcast holds the lock, and what a broadcast does to one client commutes with
  what the goroutines of another client do, so a broadcast is one action; the reader's test of \<^verbatim>\<open>done\<close> and its
  closing of it are two.
\<close>

section \<open>Model\<close>

datatype reader_phase = Reading | Closing | ReaderGone
datatype writer_phase = Serving | WriterGone

record wsClient =
  ws_send :: "string list"
  ws_done :: bool
  ws_reader :: reader_phase
  ws_writer :: writer_phase
  ws_written :: "string list"

definition send_cap :: nat where "send_cap = 32"

text \<open>The clients by their identity, and the registered ones; \<open>ws_written\<close> is what went out on the socket.\<close>

record wsHub =
  hub_conns :: "wsClient list"
  hub_clients :: "nat list"

definition newWSHub :: wsHub where "newWSHub = \<lparr>hub_conns = [], hub_clients = []\<rparr>"

definition new_client :: wsClient where
  "new_client = \<lparr>ws_send = [], ws_done = False, ws_reader = Reading, ws_writer = Serving, ws_written = []\<rparr>"

definition payloadAsJSON :: "string \<Rightarrow> string" where
  "payloadAsJSON b = (if b = [] then ''null'' else if json_valid b then b else json_quote b)"

text \<open>Whatever was published, the client gets valid JSON, and raw text that is none arrives as that text.\<close>

lemma payload_valid: "json_valid (payloadAsJSON b)"
proof -
  have "json_valid ''null''" by code_simp
  then show ?thesis by (simp add: payloadAsJSON_def)
qed

lemma payload_text: "b \<noteq> [] \<Longrightarrow> \<not> json_valid b \<Longrightarrow> decode_json (payloadAsJSON b) = Some (JsStr b)"
  by (simp add: payloadAsJSON_def)

text \<open>The \<^verbatim>\<open>select\<close> of \<^verbatim>\<open>broadcast\<close> for one client; \<open>None\<close> is the panic of closing a closed channel.\<close>

definition offer :: "string \<Rightarrow> wsClient \<Rightarrow> wsClient option" where
  "offer msg c =
     (if length (ws_send c) < send_cap then Some (c\<lparr>ws_send := ws_send c @ [msg]\<rparr>)
      else if ws_done c then None
      else Some (c\<lparr>ws_done := True\<rparr>))"

text \<open>\<^verbatim>\<open>broadcast\<close> visits the clients in the iteration order of the map, which is an argument.\<close>

fun broadcast :: "string \<Rightarrow> nat list \<Rightarrow> wsHub \<Rightarrow> wsHub option" where
  "broadcast msg [] h = Some h"
| "broadcast msg (i # is) h =
     (case offer msg (hub_conns h ! i) of
        None \<Rightarrow> None
      | Some c \<Rightarrow> broadcast msg is (h\<lparr>hub_conns := (hub_conns h)[i := c]\<rparr>))"

definition register :: "nat \<Rightarrow> wsHub \<Rightarrow> wsHub" where
  "register i h = h\<lparr>hub_clients := (if i \<in> set (hub_clients h) then hub_clients h else hub_clients h @ [i])\<rparr>"

definition unregister :: "nat \<Rightarrow> wsHub \<Rightarrow> wsHub" where
  "unregister i h = h\<lparr>hub_clients := filter (\<lambda>j. j \<noteq> i) (hub_clients h)\<rparr>"

definition ClientCount :: "wsHub \<Rightarrow> nat" where "ClientCount h = length (hub_clients h)"

text \<open>
  The actions: a client connects; the hub broadcasts; a reader fails to read and tests \<^verbatim>\<open>done\<close>; it closes \<^verbatim>\<open>done\<close>;
  a writer takes a message and writes it, with success or not; a writer leaves because of \<^verbatim>\<open>done\<close>, the end of the
  request or a failed ping.
\<close>

datatype ws_action =
    Connect
  | Broadcast string "nat list"
  | ReadFails nat
  | ReaderCloses nat
  | Write nat bool
  | WriterLeaves nat

datatype outcome = Blocked | Panic | Next wsHub

definition set_conn :: "nat \<Rightarrow> wsClient \<Rightarrow> wsHub \<Rightarrow> wsHub" where
  "set_conn i c h = h\<lparr>hub_conns := (hub_conns h)[i := c]\<rparr>"

definition handle_connect :: "wsHub \<Rightarrow> wsHub" where
  "handle_connect h = register (length (hub_conns h)) (h\<lparr>hub_conns := hub_conns h @ [new_client]\<rparr>)"

definition reader_fails :: "nat \<Rightarrow> wsHub \<Rightarrow> outcome" where
  "reader_fails i h =
     (let c = hub_conns h ! i in
      if length (hub_conns h) \<le> i \<or> ws_reader c \<noteq> Reading then Blocked
      else Next (set_conn i (c\<lparr>ws_reader := (if ws_done c then ReaderGone else Closing)\<rparr>) h))"

definition reader_closes :: "nat \<Rightarrow> wsHub \<Rightarrow> outcome" where
  "reader_closes i h =
     (let c = hub_conns h ! i in
      if length (hub_conns h) \<le> i \<or> ws_reader c \<noteq> Closing then Blocked
      else if ws_done c then Panic
      else Next (set_conn i (c\<lparr>ws_reader := ReaderGone, ws_done := True\<rparr>) h))"

definition leave :: "nat \<Rightarrow> wsHub \<Rightarrow> wsHub" where
  "leave i h = unregister i (set_conn i ((hub_conns h ! i)\<lparr>ws_writer := WriterGone\<rparr>) h)"

definition writer_writes :: "nat \<Rightarrow> bool \<Rightarrow> wsHub \<Rightarrow> outcome" where
  "writer_writes i written h =
     (let c = hub_conns h ! i in
      if length (hub_conns h) \<le> i \<or> ws_writer c \<noteq> Serving then Blocked
      else case ws_send c of
        [] \<Rightarrow> Blocked
      | msg # rest \<Rightarrow>
          if written then Next (set_conn i (c\<lparr>ws_send := rest, ws_written := ws_written c @ [msg]\<rparr>) h)
          else Next (leave i (set_conn i (c\<lparr>ws_send := rest\<rparr>) h)))"

definition writer_leaves :: "nat \<Rightarrow> wsHub \<Rightarrow> outcome" where
  "writer_leaves i h =
     (if length (hub_conns h) \<le> i \<or> ws_writer (hub_conns h ! i) \<noteq> Serving then Blocked else Next (leave i h))"

fun ws_do :: "ws_action \<Rightarrow> wsHub \<Rightarrow> outcome" where
  "ws_do Connect h = Next (handle_connect h)"
| "ws_do (Broadcast msg order) h =
     (if mset order = mset (hub_clients h) then (case broadcast msg order h of None \<Rightarrow> Panic | Some h' \<Rightarrow> Next h') else Blocked)"
| "ws_do (ReadFails i) h = reader_fails i h"
| "ws_do (ReaderCloses i) h = reader_closes i h"
| "ws_do (Write i written) h = writer_writes i written h"
| "ws_do (WriterLeaves i) h = writer_leaves i h"

fun ws_run :: "ws_action list \<Rightarrow> wsHub \<Rightarrow> outcome" where
  "ws_run [] h = Next h"
| "ws_run (a # as) h = (case ws_do a h of Next h' \<Rightarrow> ws_run as h' | r \<Rightarrow> r)"

section \<open>When a broadcast panics\<close>

text \<open>How many more broadcasts a client takes that nobody drains: the room in its buffer, and one more that closes \<^verbatim>\<open>done\<close>.\<close>

definition room :: "wsClient \<Rightarrow> nat" where
  "room c = (send_cap - length (ws_send c)) + (if ws_done c then 0 else 1)"

definition ws_inv :: "wsHub \<Rightarrow> bool" where
  "ws_inv h \<longleftrightarrow> distinct (hub_clients h) \<and>
     (\<forall>i \<in> set (hub_clients h). i < length (hub_conns h) \<and> ws_writer (hub_conns h ! i) = Serving) \<and>
     (\<forall>c \<in> set (hub_conns h). length (ws_send c) \<le> send_cap \<and> (ws_reader c = ReaderGone \<longrightarrow> ws_done c))"

lemma offer_None: "length (ws_send c) \<le> send_cap \<Longrightarrow> offer msg c = None \<longleftrightarrow> room c = 0"
  by (auto simp: offer_def room_def)

lemma offer_Some:
  assumes "offer msg c = Some c'"
  shows "room c' = room c - 1" "length (ws_send c) \<le> send_cap \<Longrightarrow> length (ws_send c') \<le> send_cap"
    "ws_writer c' = ws_writer c" "ws_reader c' = ws_reader c" "ws_written c' = ws_written c" "ws_done c \<Longrightarrow> ws_done c'"
    "ws_send c' = ws_send c @ [msg] \<or> ws_send c' = ws_send c \<and> ws_done c'"
  using assms by (auto simp: offer_def room_def split: if_splits)

text \<open>A broadcast to distinct clients offers the message to each of them once.\<close>

lemma broadcast_None:
  assumes "distinct order" "\<forall>i \<in> set order. i < length (hub_conns h) \<and> length (ws_send (hub_conns h ! i)) \<le> send_cap"
  shows "broadcast msg order h = None \<longleftrightarrow> (\<exists>i \<in> set order. room (hub_conns h ! i) = 0)"
  using assms
proof (induction order arbitrary: h)
  case (Cons i js)
  have le: "length (ws_send (hub_conns h ! i)) \<le> send_cap" using Cons.prems by simp
  show ?case
  proof (cases "offer msg (hub_conns h ! i)")
    case None
    then have "room (hub_conns h ! i) = 0" using offer_None [OF le] by blast
    with None show ?thesis by simp
  next
    case (Some c)
    then have "room (hub_conns h ! i) \<noteq> 0" using offer_None [OF le, of msg] by auto
    moreover have "(hub_conns h)[i := c] ! j = hub_conns h ! j" if "j \<in> set js" for j
    proof -
      have "j \<noteq> i" using that Cons.prems(1) by auto
      then show ?thesis by simp
    qed
    ultimately show ?thesis using Some Cons.prems by (simp add: Cons.IH)
  qed
qed simp

lemma broadcast_Some:
  assumes "broadcast msg order h = Some h'" "distinct order"
  shows "hub_clients h' = hub_clients h \<and> length (hub_conns h') = length (hub_conns h) \<and>
    (\<forall>i < length (hub_conns h). if i \<in> set order then offer msg (hub_conns h ! i) = Some (hub_conns h' ! i) else hub_conns h' ! i = hub_conns h ! i)"
  using assms
proof (induction order arbitrary: h)
  case (Cons i js)
  from Cons.prems obtain c where c: "offer msg (hub_conns h ! i) = Some c" by (auto split: option.splits)
  with Cons.prems have r: "broadcast msg js (h\<lparr>hub_conns := (hub_conns h)[i := c]\<rparr>) = Some h'" by simp
  have d: "distinct js" "i \<notin> set js" using Cons.prems(2) by auto
  note IH = Cons.IH [OF r d(1)]
  have "if j \<in> set (i # js) then offer msg (hub_conns h ! j) = Some (hub_conns h' ! j) else hub_conns h' ! j = hub_conns h ! j"
    if "j < length (hub_conns h)" for j
    using IH [THEN conjunct2, THEN conjunct2, rule_format, of j] that c d(2) by (cases "j = i") auto
  with IH show ?case by simp
qed simp

lemma ws_invD:
  assumes "ws_inv h"
  shows "distinct (hub_clients h)" "i \<in> set (hub_clients h) \<Longrightarrow> i < length (hub_conns h)"
    "i < length (hub_conns h) \<Longrightarrow> length (ws_send (hub_conns h ! i)) \<le> send_cap"
    "i < length (hub_conns h) \<Longrightarrow> ws_reader (hub_conns h ! i) = ReaderGone \<Longrightarrow> ws_done (hub_conns h ! i)"
    "i \<in> set (hub_clients h) \<Longrightarrow> ws_writer (hub_conns h ! i) = Serving"
  using assms by (auto simp: ws_inv_def)

lemma visiting_order:
  assumes "ws_inv h" "mset order = mset (hub_clients h)"
  shows "distinct order" "set order = set (hub_clients h)"
  using assms(2) ws_invD(1) [OF assms(1)] mset_eq_imp_distinct_iff mset_eq_setD by blast+

lemma ws_inv_broadcast:
  assumes inv: "ws_inv h" and b: "broadcast msg order h = Some h'" and o: "mset order = mset (hub_clients h)"
  shows "ws_inv h'"
proof -
  note d = visiting_order [OF inv o]
  note s = broadcast_Some [OF b d(1)]
  have "length (ws_send (hub_conns h' ! i)) \<le> send_cap \<and> (ws_reader (hub_conns h' ! i) = ReaderGone \<longrightarrow> ws_done (hub_conns h' ! i)) \<and>
      ws_writer (hub_conns h' ! i) = ws_writer (hub_conns h ! i)" if "i < length (hub_conns h)" for i
  proof (cases "i \<in> set order")
    case True
    with s that have "offer msg (hub_conns h ! i) = Some (hub_conns h' ! i)" by simp
    note o = offer_Some [OF this]
    show ?thesis using ws_invD(3,4) [OF inv that] o(2,6) unfolding o(3,4) by simp
  next
    case False
    with s that have "hub_conns h' ! i = hub_conns h ! i" by simp
    with ws_invD(3,4) [OF inv that] show ?thesis by simp
  qed
  note k = this
  show ?thesis unfolding ws_inv_def
  proof (intro conjI ballI)
    show "distinct (hub_clients h')" using s ws_invD(1) [OF inv] by simp
    show "i < length (hub_conns h')" "ws_writer (hub_conns h' ! i) = Serving" if "i \<in> set (hub_clients h')" for i
      using that s k ws_invD(2,5) [OF inv] by auto
    fix c assume "c \<in> set (hub_conns h')"
    then obtain i where "i < length (hub_conns h)" "c = hub_conns h' ! i" using s by (metis in_set_conv_nth)
    with k show "length (ws_send c) \<le> send_cap" "ws_reader c = ReaderGone \<longrightarrow> ws_done c" by auto
  qed
qed

lemma ws_inv_set_conn:
  assumes "ws_inv h" "i < length (hub_conns h)" "length (ws_send c) \<le> send_cap" "ws_reader c = ReaderGone \<Longrightarrow> ws_done c"
    "ws_writer c = ws_writer (hub_conns h ! i)"
  shows "ws_inv (set_conn i c h)"
  using assms by (auto simp: ws_inv_def set_conn_def nth_list_update dest!: set_update_subset_insert [THEN subsetD])

lemma ws_inv_leave:
  assumes "ws_inv h" "i < length (hub_conns h)" shows "ws_inv (leave i h)"
  using assms ws_invD(3,4) [OF assms]
  by (auto simp: ws_inv_def leave_def set_conn_def unregister_def nth_list_update dest!: set_update_subset_insert [THEN subsetD])

lemma handle_connect_inv:
  assumes "ws_inv h"
  shows "handle_connect h = h\<lparr>hub_conns := hub_conns h @ [new_client], hub_clients := hub_clients h @ [length (hub_conns h)]\<rparr>"
    and "ws_inv (handle_connect h)"
proof -
  have n: "length (hub_conns h) \<notin> set (hub_clients h)" using ws_invD(2) [OF assms] by blast
  then show e: "handle_connect h = h\<lparr>hub_conns := hub_conns h @ [new_client], hub_clients := hub_clients h @ [length (hub_conns h)]\<rparr>"
    by (simp add: handle_connect_def register_def)
  show "ws_inv (handle_connect h)"
    using assms n unfolding e by (auto simp: ws_inv_def new_client_def nth_append)
qed

lemma ws_do_inv:
  assumes "ws_inv h" "ws_do a h = Next h'" shows "ws_inv h'"
proof (cases a)
  case Connect
  with assms handle_connect_inv(2) show ?thesis by auto
next
  case (Broadcast msg order)
  with assms show ?thesis by (auto intro: ws_inv_broadcast split: if_splits option.splits)
next
  case (ReadFails i)
  with assms show ?thesis
    by (auto simp: reader_fails_def Let_def ws_invD intro!: ws_inv_set_conn split: if_splits)
next
  case (ReaderCloses i)
  with assms show ?thesis
    by (auto simp: reader_closes_def Let_def ws_invD intro!: ws_inv_set_conn split: if_splits)
next
  case (Write i ok)
  let ?c = "hub_conns h ! i"
  from Write assms(2) obtain msg rest where w: "i < length (hub_conns h)" "ws_send ?c = msg # rest"
    "h' = (if ok then set_conn i (?c\<lparr>ws_send := rest, ws_written := ws_written ?c @ [msg]\<rparr>) h else leave i (set_conn i (?c\<lparr>ws_send := rest\<rparr>) h))"
    by (auto simp: writer_writes_def Let_def split: if_splits list.splits)
  have "ws_inv (set_conn i (?c\<lparr>ws_send := rest, ws_written := x\<rparr>) h)" "ws_inv (set_conn i (?c\<lparr>ws_send := rest\<rparr>) h)" for x
    using w ws_invD(3,4) [OF assms(1) w(1)] by (auto intro!: ws_inv_set_conn assms(1))
  with w show ?thesis by (auto intro!: ws_inv_leave simp: set_conn_def)
next
  case (WriterLeaves i)
  with assms show ?thesis by (auto simp: writer_leaves_def intro: ws_inv_leave split: if_splits)
qed

lemma ws_run_inv: "ws_inv h \<Longrightarrow> ws_run as h = Next h' \<Longrightarrow> ws_inv h'"
  by (induction as arbitrary: h) (auto split: outcome.splits dest: ws_do_inv)

lemma ws_inv_New: "ws_inv newWSHub" by (simp add: ws_inv_def newWSHub_def)

lemma ws_run_append: "ws_run (as @ bs) h = (case ws_run as h of Next h' \<Rightarrow> ws_run bs h' | r \<Rightarrow> r)"
  by (induction as arbitrary: h) (auto split: outcome.splits)

text \<open>Broadcasts with nobody draining: every one takes a place of every registered client.\<close>

lemma broadcasts_step:
  assumes inv: "ws_inv h" and o: "mset order = mset (hub_clients h)"
  shows "broadcast msg order h = None \<longleftrightarrow> (\<exists>i \<in> set (hub_clients h). room (hub_conns h ! i) = 0)"
    and "broadcast msg order h = Some h' \<Longrightarrow> hub_clients h' = hub_clients h \<and>
      (\<forall>i \<in> set (hub_clients h). room (hub_conns h' ! i) = room (hub_conns h ! i) - 1)"
proof -
  note d = visiting_order [OF inv o]
  show "broadcast msg order h = None \<longleftrightarrow> (\<exists>i \<in> set (hub_clients h). room (hub_conns h ! i) = 0)"
    using broadcast_None [OF d(1), of h msg] d ws_invD [OF inv] by simp
  show "hub_clients h' = hub_clients h \<and> (\<forall>i \<in> set (hub_clients h). room (hub_conns h' ! i) = room (hub_conns h ! i) - 1)"
    if "broadcast msg order h = Some h'"
  proof -
    note s = broadcast_Some [OF that d(1)]
    have "offer msg (hub_conns h ! i) = Some (hub_conns h' ! i)" if "i \<in> set (hub_clients h)" for i
      using s that d(2) ws_invD(2) [OF inv that] by simp
    then have "\<forall>i \<in> set (hub_clients h). room (hub_conns h' ! i) = room (hub_conns h ! i) - 1"
      by (intro ballI offer_Some(1))
    with s show ?thesis by simp
  qed
qed

lemma stalled_broadcasts:
  assumes "ws_inv h" "\<forall>(msg, order) \<in> set rounds. mset order = mset (hub_clients h)"
  shows "ws_run (map (\<lambda>(msg, order). Broadcast msg order) rounds) h = Panic \<longleftrightarrow>
    (\<exists>i \<in> set (hub_clients h). room (hub_conns h ! i) < length rounds)"
  using assms
proof (induction rounds arbitrary: h)
  case (Cons r rounds)
  obtain msg order where r: "r = (msg, order)" by (cases r)
  from Cons.prems r have o: "mset order = mset (hub_clients h)" by simp
  note st = broadcasts_step [OF Cons.prems(1) o, of msg]
  show ?case
  proof (cases "broadcast msg order h")
    case None
    with st(1) r o show ?thesis by force
  next
    case (Some h')
    note st' = st(2) [OF Some] and inv = ws_inv_broadcast [OF Cons.prems(1) Some o]
    have "room (hub_conns h' ! i) < length rounds \<longleftrightarrow> room (hub_conns h ! i) < length (r # rounds)" if "i \<in> set (hub_clients h)" for i
      using st' st(1) Some that by (cases "room (hub_conns h ! i)") auto
    then have "(\<exists>i \<in> set (hub_clients h'). room (hub_conns h' ! i) < length rounds) \<longleftrightarrow>
        (\<exists>i \<in> set (hub_clients h). room (hub_conns h ! i) < length (r # rounds))"
      using st' by simp
    with Cons.IH [OF inv] Cons.prems(2) st' r o Some show ?thesis by simp
  qed
qed simp

section \<open>What a client receives\<close>

text \<open>The messages broadcast after the \<open>i\<close>-th connection, when \<open>n\<close> clients have connected already.\<close>

fun sent_since :: "nat \<Rightarrow> nat \<Rightarrow> ws_action list \<Rightarrow> string list" where
  "sent_since i n [] = []"
| "sent_since i n (Connect # as) = sent_since i (Suc n) as"
| "sent_since i n (Broadcast msg _ # as) = (if i < n then [msg] else []) @ sent_since i n as"
| "sent_since i n (_ # as) = sent_since i n as"

definition got :: "wsClient \<Rightarrow> string list" where "got c = ws_written c @ ws_send c"

lemma sent_since_snoc: "sent_since i n (as @ [a]) = sent_since i n as @ sent_since i (n + count_list as Connect) [a]"
proof (induction as arbitrary: n)
  case (Cons b as)
  then show ?case by (cases b) auto
qed simp

lemma length_conns:
  assumes "ws_inv h" "ws_do a h = Next h'"
  shows "length (hub_conns h') = length (hub_conns h) + count_list [a] Connect"
proof (cases a)
  case (Broadcast msg order)
  with assms(2) have "mset order = mset (hub_clients h)" "broadcast msg order h = Some h'" by (auto split: if_splits option.splits)
  with broadcast_Some visiting_order [OF assms(1)] Broadcast show ?thesis by simp
qed (use assms in \<open>auto simp: handle_connect_inv reader_fails_def reader_closes_def writer_writes_def writer_leaves_def leave_def
      unregister_def set_conn_def Let_def split: if_splits list.splits\<close>)

text \<open>One action gives a client a part of what is broadcast, and all of it while it is registered with \<^verbatim>\<open>done\<close> open.\<close>

definition served :: "nat \<Rightarrow> string list \<Rightarrow> wsHub \<Rightarrow> wsHub \<Rightarrow> bool" where
  "served i new h h' \<longleftrightarrow> (let c = hub_conns h ! i; c' = hub_conns h' ! i in
     (i \<in> set (hub_clients h') \<longrightarrow> i \<in> set (hub_clients h)) \<and> (ws_done c \<longrightarrow> ws_done c') \<and>
     subseq (got c') (got c @ new) \<and> (i \<in> set (hub_clients h') \<and> \<not> ws_done c' \<longrightarrow> got c' = got c @ new))"

lemma served_broadcast:
  assumes "ws_inv h" "mset order = mset (hub_clients h)" "broadcast msg order h = Some h'" "i < length (hub_conns h)"
  shows "served i [msg] h h'"
proof -
  note v = visiting_order [OF assms(1,2)] and s = broadcast_Some [OF assms(3) visiting_order(1) [OF assms(1,2)]]
  show ?thesis
  proof (cases "i \<in> set order")
    case True
    with s assms(4) have "offer msg (hub_conns h ! i) = Some (hub_conns h' ! i)" by simp
    note o = offer_Some [OF this]
    from o(7) o(5,6) s show ?thesis by (auto simp: served_def got_def Let_def)
  next
    case False
    with s assms(4) v show ?thesis by (auto simp: served_def got_def Let_def)
  qed
qed

lemma served_step:
  assumes inv: "ws_inv h" and d: "ws_do a h = Next h'" and i: "i < length (hub_conns h)"
  shows "served i (sent_since i (length (hub_conns h)) [a]) h h'"
proof (cases a)
  case Connect
  with d i show ?thesis by (auto simp: served_def handle_connect_inv [OF inv] nth_append)
next
  case (Broadcast msg order)
  with d i show ?thesis by (auto intro: served_broadcast [OF inv] split: if_splits option.splits)
next
  case (Write j ok)
  have "subseq (u @ v) (u @ x # v)" for u v and x :: string
    by (rule list_emb_append_mono) auto
  with Write d i show ?thesis
    by (auto simp: served_def got_def writer_writes_def leave_def unregister_def set_conn_def Let_def nth_list_update
        split: if_splits list.splits)
qed (use d i in \<open>auto simp: served_def got_def reader_fails_def reader_closes_def writer_leaves_def leave_def
      unregister_def set_conn_def Let_def nth_list_update split: if_splits\<close>)

lemma delivered:
  assumes "ws_run as newWSHub = Next h"
  shows "ws_inv h \<and> length (hub_conns h) = count_list as Connect \<and> (\<forall>i < length (hub_conns h).
    subseq (got (hub_conns h ! i)) (sent_since i 0 as) \<and>
    (i \<in> set (hub_clients h) \<and> \<not> ws_done (hub_conns h ! i) \<longrightarrow> got (hub_conns h ! i) = sent_since i 0 as))"
  using assms
proof (induction as arbitrary: h rule: rev_induct)
  case Nil
  with ws_inv_New show ?case by (auto simp: newWSHub_def)
next
  case (snoc a as)
  from snoc.prems obtain h0 where h0: "ws_run as newWSHub = Next h0" "ws_do a h0 = Next h"
    by (auto simp: ws_run_append split: outcome.splits)
  note IH = snoc.IH [OF h0(1)]
  then have inv: "ws_inv h0" by simp
  note len = length_conns [OF inv h0(2)]
  have ss: "sent_since i 0 (as @ [a]) = sent_since i 0 as @ sent_since i (length (hub_conns h0)) [a]" for i
    using IH by (simp add: sent_since_snoc)
  have nil: "sent_since i n bs = []" if "n + count_list bs Connect \<le> i" for i n bs
    using that by (induction i n bs rule: sent_since.induct) auto
  have "subseq (got (hub_conns h ! i)) (sent_since i 0 (as @ [a])) \<and>
      (i \<in> set (hub_clients h) \<and> \<not> ws_done (hub_conns h ! i) \<longrightarrow> got (hub_conns h ! i) = sent_since i 0 (as @ [a]))"
    if i: "i < length (hub_conns h)" for i
  proof (cases "i < length (hub_conns h0)")
    case True
    have sv: "served i (sent_since i (length (hub_conns h0)) [a]) h0 h" by (rule served_step [OF inv h0(2) True])
    have "subseq (got (hub_conns h ! i)) (got (hub_conns h0 ! i) @ sent_since i (length (hub_conns h0)) [a])"
      using sv by (simp add: served_def Let_def)
    moreover have "subseq (got (hub_conns h0 ! i) @ l) (sent_since i 0 as @ l)" for l using IH True by simp
    ultimately have "subseq (got (hub_conns h ! i)) (sent_since i 0 (as @ [a]))" unfolding ss by (rule subseq_order.trans)
    then show ?thesis using sv IH True unfolding ss served_def Let_def by auto
  next
    case False
    with i len have a: "a = Connect" "i = length (hub_conns h0)" by (auto split: if_splits)
    with h0(2) have "got (hub_conns h ! i) = []" by (auto simp: handle_connect_inv [OF inv] new_client_def got_def)
    moreover have "sent_since i 0 as = []" using nil [of 0 as i] IH a by simp
    then have "sent_since i 0 (as @ [a]) = []" by (simp only: ss) (simp add: a(1))
    ultimately show ?thesis by simp
  qed
  with len IH ws_do_inv [OF inv h0(2)] show ?case by simp
qed

text \<open>A reader that found \<^verbatim>\<open>done\<close> open before the hub closed it panics too.\<close>

lemma reader_race_panics:
  assumes "ws_inv h" "mset order = mset (hub_clients h)" "i \<in> set (hub_clients h)" "ws_reader (hub_conns h ! i) = Closing"
    "length (ws_send (hub_conns h ! i)) = send_cap"
  shows "ws_run [Broadcast msg order, ReaderCloses i] h = Panic"
proof (cases "broadcast msg order h")
  case None
  with assms(2) show ?thesis by simp
next
  case (Some h')
  note v = visiting_order [OF assms(1,2)] and s = broadcast_Some [OF Some visiting_order(1) [OF assms(1,2)]] and i = ws_invD(2) [OF assms(1,3)]
  from s i v assms(3) have "offer msg (hub_conns h ! i) = Some (hub_conns h' ! i)" by simp
  with assms(5) have "hub_conns h' ! i = (hub_conns h ! i)\<lparr>ws_done := True\<rparr>" by (simp add: offer_def split: if_splits)
  with Some s i assms(2,4) show ?thesis by (simp add: reader_closes_def)
qed

section \<open>Properties\<close>

text \<open>
  C26: in every interleaving of the goroutines of a hub and its dashboards, what a client has been written or still has
  in its buffer is a subsequence, in order and without repetition, of what was broadcast since it connected; and as
  long as it is registered with \<^verbatim>\<open>done\<close> open it is all of it.
\<close>

theorem hub_delivers_in_order:
  assumes "ws_run as newWSHub = Next h" "i < length (hub_conns h)"
  shows "subseq (got (hub_conns h ! i)) (sent_since i 0 as) \<and>
    (i \<in> set (hub_clients h) \<and> \<not> ws_done (hub_conns h ! i) \<longrightarrow> got (hub_conns h ! i) = sent_since i 0 as)"
  using delivered [OF assms(1)] assms(2) by blast+

lemma hub_delivers_in_order_witness:
  "let c = hub_conns (case ws_run [Connect, Broadcast ''a'' [0], Connect, Broadcast ''b'' [1, 0], Write 0 True] newWSHub of Next h \<Rightarrow> h) ! 0
   in subseq (got c) [''a'', ''b''] \<and> ws_written c = [''a'']"
proof -
  let ?as = "[Connect, Broadcast ''a'' [0], Connect, Broadcast ''b'' [1, 0], Write 0 True]"
  obtain h where h: "ws_run ?as newWSHub = Next h" "0 < length (hub_conns h)" "ws_written (hub_conns h ! 0) = [''a'']"
    by (simp add: newWSHub_def handle_connect_def register_def new_client_def offer_def send_cap_def writer_writes_def set_conn_def)
  from hub_delivers_in_order [OF h(1,2)] h show ?thesis by simp
qed

text \<open>
  C20: the hub does not drop a slow client, it crashes on it.  When nobody drains the sockets, a broadcast that finds a
  full buffer closes \<^verbatim>\<open>done\<close>, and the next one that finds it full closes \<^verbatim>\<open>done\<close> again and panics, which ends the
  process: further broadcasts panic exactly when there are more of them than some registered client has room for, and
  34 of them always suffice.
\<close>

theorem stalled_client_crashes_hub:
  assumes "ws_run as newWSHub = Next h" "\<forall>(msg, order) \<in> set rounds. mset order = mset (hub_clients h)"
  shows "(ws_run (as @ map (\<lambda>(msg, order). Broadcast msg order) rounds) newWSHub = Panic \<longleftrightarrow>
           (\<exists>i \<in> set (hub_clients h). room (hub_conns h ! i) < length rounds)) \<and>
         (hub_clients h \<noteq> [] \<and> 34 \<le> length rounds \<longrightarrow>
           ws_run (as @ map (\<lambda>(msg, order). Broadcast msg order) rounds) newWSHub = Panic)"
proof -
  have inv: "ws_inv h" using delivered [OF assms(1)] by blast
  have iff: "ws_run (as @ map (\<lambda>(msg, order). Broadcast msg order) rounds) newWSHub = Panic \<longleftrightarrow>
      (\<exists>i \<in> set (hub_clients h). room (hub_conns h ! i) < length rounds)"
    unfolding ws_run_append assms(1) outcome.case by (rule stalled_broadcasts [OF inv assms(2)])
  have "room c < 34" for c by (cases "ws_done c") (simp_all add: room_def send_cap_def)
  then show ?thesis unfolding iff by (metis list.set_intros(1) neq_Nil_conv order_less_le_trans)
qed

lemma stalled_client_crashes_hub_witness:
  "ws_run ([Connect] @ map (\<lambda>(msg, order). Broadcast msg order) (replicate 34 (''tick'', [0]))) newWSHub = Panic \<and>
   ws_run ([Connect] @ map (\<lambda>(msg, order). Broadcast msg order) (replicate 33 (''tick'', [0]))) newWSHub \<noteq> Panic"
proof -
  have h: "ws_run [Connect] newWSHub = Next \<lparr>hub_conns = [new_client], hub_clients = [0]\<rparr>"
    by (simp add: newWSHub_def handle_connect_def register_def)
  note st = stalled_client_crashes_hub [OF h, where rounds = "replicate n (''tick'', [0])" for n]
  have "room new_client = 33" by (simp add: room_def new_client_def send_cap_def)
  then show ?thesis using st [of 33] st [of 34] by simp
qed

end
