(* ===== verification/Prices.thy ===== *)
theory Prices
  imports TaskUtil
begin

text \<open>
  \<^verbatim>\<open>internal/chain/prices.go\<close>: the price cache every task reads through.  Its operations are those of one
  goroutine at a time: the lock and \<^verbatim>\<open>golang.org/x/sync/singleflight\<close>, which makes readers that miss on the same key share one
  request, are not modelled, and a read with nobody else in the cache runs the function it hands to \<^verbatim>\<open>Do\<close>.

  What a chain client answers to \<^verbatim>\<open>GetQuote\<close> is an argument of the steps, and so are the clock readings.
\<close>

section \<open>The cache\<close>

record priceEntry =
  pe_price :: f64
  pe_fetchedAt :: time

record PriceCache =
  pc_entries :: "(string \<times> priceEntry) list"
  pc_pinned :: "string list"
  pc_ttl :: duration
  pc_refreshInterval :: duration
  pc_hits :: int
  pc_misses :: int
  pc_fetches :: int

datatype PriceCacheOption = WithTTL duration | WithRefreshInterval duration

fun apply_option :: "PriceCacheOption \<Rightarrow> PriceCache \<Rightarrow> PriceCache" where
  "apply_option (WithTTL d) c = c\<lparr>pc_ttl := d\<rparr>"
| "apply_option (WithRefreshInterval d) c = c\<lparr>pc_refreshInterval := d\<rparr>"

definition NewPriceCache :: "PriceCacheOption list \<Rightarrow> PriceCache" where
  "NewPriceCache opts = fold apply_option opts
     \<lparr>pc_entries = [], pc_pinned = [], pc_ttl = 30 * Second, pc_refreshInterval = 60 * Second,
      pc_hits = 0, pc_misses = 0, pc_fetches = 0\<rparr>"

definition splitPair :: "string \<Rightarrow> (string \<times> string) result" where
  "splitPair pair =
     (case split_at_first [CHR ''/'', CHR ''-'', CHR '':''] pair of
        Some ab \<Rightarrow> Ok ab | None \<Rightarrow> Fail ''price_cache: pair must look like TOKEN_A/TOKEN_B'')"

definition cacheKey :: "string \<Rightarrow> string \<Rightarrow> string" where
  "cacheKey chainName pair = chainName @ ''|'' @ ToUpper pair"

definition splitCacheKey :: "string \<Rightarrow> (string \<times> string) option" where
  "splitCacheKey k =
     (case index_of (CHR ''|'') k of
        None \<Rightarrow> None
      | Some i \<Rightarrow> if i = 0 \<or> length k - 1 \<le> i then None else Some (take i k, drop (i + 1) k))"

definition fetchPrice :: "(string \<Rightarrow> quoter option) \<Rightarrow> string \<Rightarrow> string \<Rightarrow> f64 result" where
  "fetchPrice clients chainName pair =
     (case clients chainName of
        None \<Rightarrow> Fail ''price_cache: no client for chain''
      | Some GetQuote \<Rightarrow>
          bindr (splitPair pair) (\<lambda>(tokenIn, tokenOut).
          bindr (wrapr ''price_cache: GetQuote'' (GetQuote tokenIn tokenOut (Fin 1))) (\<lambda>q.
            let price = (if fle (qt_Price q) (Fin 0) \<and> flt (Fin 0) (qt_AmountIn q) then fdiv (qt_AmountOut q) (qt_AmountIn q) else qt_Price q)
            in if fle price (Fin 0) then Fail ''price_cache: non-positive price'' else Ok price)))"

definition fresh_at :: "time \<Rightarrow> string \<Rightarrow> PriceCache \<Rightarrow> priceEntry option" where
  "fresh_at now key c =
     (case map_of (pc_entries c) key of
        None \<Rightarrow> None
      | Some e \<Rightarrow> if time_sub now (pe_fetchedAt e) < pc_ttl c then Some e else None)"

definition store_price :: "time \<Rightarrow> string \<Rightarrow> f64 \<Rightarrow> PriceCache \<Rightarrow> PriceCache" where
  "store_price now key price c = c\<lparr>pc_entries := AList.update key \<lparr>pe_price = price, pe_fetchedAt = now\<rparr> (pc_entries c)\<rparr>"

definition Pin :: "string \<Rightarrow> string \<Rightarrow> PriceCache \<Rightarrow> PriceCache" where
  "Pin chainName pair c = c\<lparr>pc_pinned := List.insert (cacheKey chainName pair) (pc_pinned c)\<rparr>"

definition Unpin :: "string \<Rightarrow> string \<Rightarrow> PriceCache \<Rightarrow> PriceCache" where
  "Unpin chainName pair c = c\<lparr>pc_pinned := filter (\<lambda>k. k \<noteq> cacheKey chainName pair) (pc_pinned c)\<rparr>"

text \<open>\<^verbatim>\<open>Pinned\<close> ranges over a map, so its order is that of the argument.\<close>

definition Pinned :: "(string list \<Rightarrow> string list) \<Rightarrow> PriceCache \<Rightarrow> (string \<times> string) list" where
  "Pinned order c = List.map_filter splitCacheKey (order (pc_pinned c))"

definition Invalidate :: "string \<Rightarrow> string \<Rightarrow> PriceCache \<Rightarrow> PriceCache" where
  "Invalidate chainName pair c = c\<lparr>pc_entries := AList.delete (cacheKey chainName pair) (pc_entries c)\<rparr>"

definition price_Stats :: "PriceCache \<Rightarrow> int \<times> int \<times> int" where
  "price_Stats c = (pc_hits c, pc_misses c, pc_fetches c)"

text \<open>
  One \<^verbatim>\<open>Get\<close> with nobody else in the cache: the reading of the clock at the test, at the second test inside the flight
  and when the price is stored.
\<close>

definition price_Get :: "(string \<Rightarrow> quoter option) \<Rightarrow> time \<times> time \<times> time \<Rightarrow> string \<Rightarrow> string \<Rightarrow> PriceCache \<Rightarrow> PriceCache \<times> f64 result" where
  "price_Get clients clock chainName pair c =
     (case clock of (now1, now2, now3) \<Rightarrow>
      let key = cacheKey chainName pair in
      case fresh_at now1 key c of
        Some e \<Rightarrow> (c\<lparr>pc_hits := wrap64 (pc_hits c + 1)\<rparr>, Ok (pe_price e))
      | None \<Rightarrow>
          let c1 = c\<lparr>pc_misses := wrap64 (pc_misses c + 1)\<rparr> in
          case fresh_at now2 key c1 of
            Some e \<Rightarrow> (c1, Ok (pe_price e))
          | None \<Rightarrow>
              let c2 = c1\<lparr>pc_fetches := wrap64 (pc_fetches c1 + 1)\<rparr> in
              case fetchPrice clients chainName pair of
                Inl e \<Rightarrow> (c2, Inl e)
              | Inr price \<Rightarrow> (store_price now3 key price c2, Ok price))"

definition refresh_one :: "(string \<Rightarrow> quoter option) \<Rightarrow> time \<times> time \<times> time \<Rightarrow> string \<times> string \<Rightarrow> PriceCache \<Rightarrow> PriceCache" where
  "refresh_one clients clock p c = fst (price_Get clients clock (fst p) (snd p) (Invalidate (fst p) (snd p) c))"

definition refreshPinned :: "(string list \<Rightarrow> string list) \<Rightarrow> (string \<Rightarrow> quoter option) \<Rightarrow> time \<times> time \<times> time \<Rightarrow> PriceCache \<Rightarrow> PriceCache" where
  "refreshPinned order clients clock c = fold (refresh_one clients clock) (Pinned order c) c"

text \<open>\<^verbatim>\<open>refreshLoop\<close>: one refresh per tick until the context or the stop channel ends it.\<close>

definition refreshLoop :: "((string \<Rightarrow> quoter option) \<times> (time \<times> time \<times> time) \<times> (string list \<Rightarrow> string list)) list \<Rightarrow> PriceCache \<Rightarrow> PriceCache" where
  "refreshLoop ticks c = fold (\<lambda>(clients, clock, order). refreshPinned order clients clock) ticks c"

section \<open>Keys\<close>

lemma splitCacheKey_cacheKey:
  "CHR ''|'' \<notin> set chainName \<Longrightarrow> chainName \<noteq> [] \<Longrightarrow> pair \<noteq> [] \<Longrightarrow>
   splitCacheKey (cacheKey chainName pair) = Some (chainName, ToUpper pair)"
  by (simp add: splitCacheKey_def cacheKey_def index_of_append ToUpper_def)

lemma ascii_upper_idem [simp]: "ascii_upper (ascii_upper c) = ascii_upper c"
proof (cases "97 \<le> (of_char c :: nat) \<and> (of_char c :: nat) \<le> 122")
  case True
  then have "(of_char c :: nat) - 32 < 256" by arith
  then have "((of_char c :: nat) - 32) mod 256 = of_char c - 32" by (rule mod_less)
  moreover have "\<not> 97 \<le> (of_char c :: nat) - 32" using True by arith
  ultimately show ?thesis using True by (simp add: ascii_upper_def)
qed (auto simp: ascii_upper_def)

lemma ToUpper_idem [simp]: "ToUpper (ToUpper s) = ToUpper s"
  by (simp add: ToUpper_def comp_def)

lemma cacheKey_upper [simp]: "cacheKey c (ToUpper p) = cacheKey c p"
  by (simp add: cacheKey_def)

text \<open>A price that was just stored is served without a request until its lifetime is over.\<close>

lemma price_Get_served:
  assumes "time_sub now' now3 < pc_ttl c"
  shows "price_Get clients (now', a, b) chainName pair (store_price now3 (cacheKey chainName pair) price c) =
    ((store_price now3 (cacheKey chainName pair) price c)\<lparr>pc_hits := wrap64 (pc_hits c + 1)\<rparr>, Ok price)"
  using assms by (simp add: price_Get_def fresh_at_def store_price_def update_conv')

section \<open>Refreshing\<close>

text \<open>The refresh drops the price before it asks for the new one, so when the chain does not answer the price is gone, however fresh.\<close>

lemma refresh_one_failed:
  assumes "fetchPrice clients (fst p) (snd p) = Inl e"
  shows "map_of (pc_entries (refresh_one clients clock p c)) = (map_of (pc_entries c))(cacheKey (fst p) (snd p) := None)"
  using assms
  by (cases clock) (auto simp: refresh_one_def price_Get_def Invalidate_def fresh_at_def Let_def delete_conv' split: option.splits)

lemma refresh_fold_failed:
  assumes "\<And>ch p. \<exists>e. fetchPrice clients ch p = Inl e"
  shows "map_of (pc_entries (fold (refresh_one clients clock) ps c)) =
    (\<lambda>k. if k \<in> (\<lambda>p. cacheKey (fst p) (snd p)) ` set ps then None else map_of (pc_entries c) k)"
proof (induction ps arbitrary: c)
  case (Cons p ps)
  obtain e where "fetchPrice clients (fst p) (snd p) = Inl e" using assms by blast
  from refresh_one_failed [OF this, of clock c] show ?case by (auto simp: Cons fun_eq_iff)
qed simp

lemma price_Get_missing:
  assumes "map_of (pc_entries c) (cacheKey chainName pair) = None" "fetchPrice clients chainName pair = Inl e"
  shows "snd (price_Get clients clock chainName pair c) = Inl e"
  using assms by (cases clock) (simp add: price_Get_def fresh_at_def Let_def)

section \<open>Properties\<close>

text \<open>
  C18: a refresh during an outage empties the cache.  While no chain answers, one refresh deletes the price of every pinned pair,
  however fresh it was, so that the next read of the pair fails although its price was still within its lifetime; the prices of
  pairs that are not pinned stay.
\<close>

theorem refresh_in_outage_loses_prices:
  assumes "rearranges order" "\<And>ch p. \<exists>e. fetchPrice clients ch p = Inl e"
  shows "(\<forall>(ch, p) \<in> set (Pinned order c). \<exists>e. snd (price_Get clients clock' ch p (refreshPinned order clients clock c)) = Inl e) \<and>
    (\<forall>k. k \<notin> (\<lambda>p. cacheKey (fst p) (snd p)) ` set (Pinned order c) \<longrightarrow>
       map_of (pc_entries (refreshPinned order clients clock c)) k = map_of (pc_entries c) k)"
proof (intro conjI ballI allI impI)
  fix q assume q: "q \<in> set (Pinned order c)"
  obtain e where "fetchPrice clients (fst q) (snd q) = Inl e" using assms(2) by blast
  moreover have "map_of (pc_entries (refreshPinned order clients clock c)) (cacheKey (fst q) (snd q)) = None"
    using q by (auto simp: refreshPinned_def refresh_fold_failed [OF assms(2)])
  ultimately have "snd (price_Get clients clock' (fst q) (snd q) (refreshPinned order clients clock c)) = Inl e" by (rule price_Get_missing [rotated])
  then show "case q of (ch, p) \<Rightarrow> \<exists>e. snd (price_Get clients clock' ch p (refreshPinned order clients clock c)) = Inl e" by (auto simp: case_prod_beta)
next
  fix k assume "k \<notin> (\<lambda>p. cacheKey (fst p) (snd p)) ` set (Pinned order c)"
  then show "map_of (pc_entries (refreshPinned order clients clock c)) k = map_of (pc_entries c) k"
    by (simp add: refreshPinned_def refresh_fold_failed [OF assms(2)])
qed

definition pinned_cache :: PriceCache where
  "pinned_cache = store_price Second (cacheKey ''solana'' ''SOL/USDC'') (Fin 100) (Pin ''solana'' ''SOL/USDC'' (NewPriceCache []))"

theorem refresh_in_outage_loses_prices_witness:
  "snd (price_Get (\<lambda>_. None) (2 * Second, 2 * Second, 2 * Second) ''solana'' ''SOL/USDC'' pinned_cache) = Ok (Fin 100) \<and>
   (\<exists>e. snd (price_Get (\<lambda>_. None) (2 * Second, 2 * Second, 2 * Second) ''solana'' ''SOL/USDC''
      (refreshPinned (\<lambda>xs. xs) (\<lambda>_. None) (2 * Second, 2 * Second, 2 * Second) pinned_cache)) = Inl e)"
proof
  let ?t = "2 * Second"
  have "snd (price_Get (\<lambda>_. None) (?t, ?t, ?t) ''solana'' ''SOL/USDC'' pinned_cache) = Ok (Fin 100)"
    unfolding pinned_cache_def by (subst price_Get_served) (simp_all add: Pin_def NewPriceCache_def time_sub_def go_defs Second_def)
  then show "snd (price_Get (\<lambda>_. None) (?t, ?t, ?t) ''solana'' ''SOL/USDC'' pinned_cache) = Ok (Fin 100)" .
  have f: "\<exists>e. fetchPrice (\<lambda>_. None) ch p = Inl e" for ch p by (simp add: fetchPrice_def)
  have "pc_pinned pinned_cache = [cacheKey ''solana'' ''SOL/USDC'']" by (simp add: pinned_cache_def Pin_def NewPriceCache_def store_price_def List.insert_def)
  moreover have "splitCacheKey (cacheKey ''solana'' ''SOL/USDC'') = Some (''solana'', ToUpper ''SOL/USDC'')" by (rule splitCacheKey_cacheKey) simp_all
  ultimately have p: "(''solana'', ToUpper ''SOL/USDC'') \<in> set (Pinned (\<lambda>xs. xs) pinned_cache)" by (simp add: Pinned_def List.map_filter_def)
  have u: "ToUpper ''SOL/USDC'' = ''SOL/USDC''" by code_simp
  from refresh_in_outage_loses_prices [OF rearranges_id f, of pinned_cache "(?t, ?t, ?t)" "(?t, ?t, ?t)"] p
  show "\<exists>e. snd (price_Get (\<lambda>_. None) (?t, ?t, ?t) ''solana'' ''SOL/USDC'' (refreshPinned (\<lambda>xs. xs) (\<lambda>_. None) (?t, ?t, ?t) pinned_cache)) = Inl e"
    unfolding u by blast
qed

end
