(* ===== verification/FakeChain.thy ===== *)
theory FakeChain
  imports Prices MockChain Security
begin

text \<open>
  \<^verbatim>\<open>internal/chain/fake.go\<close>, the in-memory client that implements every method of \<^verbatim>\<open>ChainClient\<close>, and
  \<^verbatim>\<open>internal/chain/registry.go\<close>, the registry of client factories.

  The three executing methods share a contract, the locale \<open>paper_gate\<close>: in dry-run-only mode a call without the
  dry-run flag of its context is refused and leaves no trace, and every other call is recorded.
\<close>

section \<open>The fake client\<close>

record FakeChainClient =
  fc_chainName :: string
  fc_nativeToken :: string
  fc_dryRunOnly :: bool
  fc_balances :: "(string \<times> f64) list"
  fc_tokenBalances :: "(string \<times> (string \<times> f64) list) list"
  fc_quotes :: "(string \<times> Quote) list"
  fc_yieldRates :: "(string \<times> YieldRate) list"
  fc_positions :: "(string \<times> LendingPosition list) list"
  fc_simResult :: "SimResult option"
  fc_Swaps :: "Quote list"
  fc_Sent :: "Transaction list"
  fc_Liquidations :: "LendingPosition list"

definition NewFakeChain :: "string \<Rightarrow> string \<Rightarrow> FakeChainClient" where
  "NewFakeChain chainName nativeToken =
     \<lparr>fc_chainName = chainName, fc_nativeToken = nativeToken, fc_dryRunOnly = False, fc_balances = [], fc_tokenBalances = [], fc_quotes = [],
      fc_yieldRates = [], fc_positions = [], fc_simResult = None, fc_Swaps = [], fc_Sent = [], fc_Liquidations = []\<rparr>"

definition map_default :: "'b list \<Rightarrow> ('a \<times> 'b list) list \<Rightarrow> 'a \<Rightarrow> 'b list" where
  "map_default d m k = (case map_of m k of None \<Rightarrow> d | Some l \<Rightarrow> l)"

definition quoteKey :: "string \<Rightarrow> string \<Rightarrow> string" where "quoteKey tokenIn tokenOut = tokenIn @ ''|'' @ tokenOut"

definition WithBalance :: "string \<Rightarrow> f64 \<Rightarrow> FakeChainClient \<Rightarrow> FakeChainClient" where
  "WithBalance address amount f = f\<lparr>fc_balances := AList.update address amount (fc_balances f)\<rparr>"

definition WithTokenBalance :: "string \<Rightarrow> string \<Rightarrow> f64 \<Rightarrow> FakeChainClient \<Rightarrow> FakeChainClient" where
  "WithTokenBalance address tokenAddr amount f =
     f\<lparr>fc_tokenBalances := AList.update address (AList.update tokenAddr amount (map_default [] (fc_tokenBalances f) address)) (fc_tokenBalances f)\<rparr>"

definition WithQuote :: "string \<Rightarrow> string \<Rightarrow> Quote \<Rightarrow> FakeChainClient \<Rightarrow> FakeChainClient" where
  "WithQuote tokenIn tokenOut q f = f\<lparr>fc_quotes := AList.update (quoteKey tokenIn tokenOut) q (fc_quotes f)\<rparr>"

definition WithYieldRate :: "string \<Rightarrow> YieldRate \<Rightarrow> FakeChainClient \<Rightarrow> FakeChainClient" where
  "WithYieldRate protocol r f = f\<lparr>fc_yieldRates := AList.update protocol r (fc_yieldRates f)\<rparr>"

definition WithLendingPosition :: "string \<Rightarrow> LendingPosition \<Rightarrow> FakeChainClient \<Rightarrow> FakeChainClient" where
  "WithLendingPosition protocol p f = f\<lparr>fc_positions := AList.update protocol (map_default [] (fc_positions f) protocol @ [p]) (fc_positions f)\<rparr>"

definition WithSimResult :: "SimResult option \<Rightarrow> FakeChainClient \<Rightarrow> FakeChainClient" where
  "WithSimResult s f = f\<lparr>fc_simResult := s\<rparr>"

definition WithDryRunOnly :: "bool \<Rightarrow> FakeChainClient \<Rightarrow> FakeChainClient" where
  "WithDryRunOnly dry f = f\<lparr>fc_dryRunOnly := dry\<rparr>"

text \<open>A context, as far as the clients look at it: whether it carries the paper-trade flag.\<close>

definition WithDryRun :: "bool \<Rightarrow> bool" where "WithDryRun ctx = True"
definition IsDryRun :: "bool \<Rightarrow> bool" where "IsDryRun ctx = ctx"

definition fake_GetBalance :: "FakeChainClient \<Rightarrow> string \<Rightarrow> f64 result" where
  "fake_GetBalance f address = (case map_of (fc_balances f) address of None \<Rightarrow> Fail ''fake: no balance staged'' | Some b \<Rightarrow> Ok b)"

definition fake_GetTokenBalance :: "FakeChainClient \<Rightarrow> string \<Rightarrow> string \<Rightarrow> f64 result" where
  "fake_GetTokenBalance f address tokenAddr =
     (case map_of (fc_tokenBalances f) address of
        None \<Rightarrow> Fail ''fake: no token balances staged''
      | Some byToken \<Rightarrow> (case map_of byToken tokenAddr of None \<Rightarrow> Fail ''fake: no balance staged for token'' | Some b \<Rightarrow> Ok b))"

definition fake_GetQuote :: "time \<Rightarrow> FakeChainClient \<Rightarrow> quoter" where
  "fake_GetQuote now f tokenIn tokenOut amount =
     (case map_of (fc_quotes f) (quoteKey tokenIn tokenOut) of
        None \<Rightarrow> Fail ''fake: no quote staged''
      | Some q \<Rightarrow>
          Ok (q\<lparr>qt_AmountIn := amount,
               qt_AmountOut := (if flt (Fin 0) (qt_AmountIn q) then fmul (qt_AmountOut q) (fdiv amount (qt_AmountIn q)) else qt_AmountOut q),
               qt_GeneratedAt := (if qt_GeneratedAt q = zero_time then now else qt_GeneratedAt q)\<rparr>))"

definition fake_tx :: "string \<Rightarrow> nat \<Rightarrow> f64 \<Rightarrow> TxResult" where
  "fake_tx kind n fee =
     \<lparr>tx_Signature = kind @ itoa (int n), tx_Success = True, tx_GasUsed = 0, tx_GasPriceWei = 0, tx_FeePaidUSD = fee, tx_BlockNumber = 0, tx_ErrorMsg = []\<rparr>"

definition refused :: "bool \<Rightarrow> FakeChainClient \<Rightarrow> bool" where
  "refused ctx f \<longleftrightarrow> fc_dryRunOnly f \<and> \<not> IsDryRun ctx"

definition fake_ExecuteSwap :: "bool \<Rightarrow> Quote option \<Rightarrow> Wallet option \<Rightarrow> FakeChainClient \<Rightarrow> FakeChainClient \<times> TxResult result" where
  "fake_ExecuteSwap ctx quote wallet f =
     (case quote of
        None \<Rightarrow> (f, Fail ''fake: ExecuteSwap nil quote'')
      | Some q \<Rightarrow>
          if wallet = None then (f, Fail ''fake: ExecuteSwap nil wallet'')
          else if refused ctx f then (f, Fail ''fake: dry-run only mode, real execution refused'')
          else let f' = f\<lparr>fc_Swaps := fc_Swaps f @ [q]\<rparr> in (f', Ok (fake_tx ''fake-swap-'' (length (fc_Swaps f')) (Fin 0))))"

definition fake_SimulateTransaction :: "FakeChainClient \<Rightarrow> Transaction option \<Rightarrow> SimResult result" where
  "fake_SimulateTransaction f tx =
     (if tx = None then Fail ''fake: SimulateTransaction nil tx''
      else case fc_simResult f of Some s \<Rightarrow> Ok s | None \<Rightarrow> Ok \<lparr>WouldSucceed = True, ExpectedOutput = Fin 0, GasEstimate = 0, ErrorMsg = []\<rparr>)"

definition fake_SendTransaction :: "bool \<Rightarrow> Transaction option \<Rightarrow> Wallet option \<Rightarrow> FakeChainClient \<Rightarrow> FakeChainClient \<times> TxResult result" where
  "fake_SendTransaction ctx tx wallet f =
     (case tx of
        None \<Rightarrow> (f, Fail ''fake: SendTransaction nil tx'')
      | Some t \<Rightarrow>
          if wallet = None then (f, Fail ''fake: SendTransaction nil wallet'')
          else if refused ctx f then (f, Fail ''fake: dry-run only mode, real execution refused'')
          else let f' = f\<lparr>fc_Sent := fc_Sent f @ [t]\<rparr> in (f', Ok (fake_tx ''fake-tx-'' (length (fc_Sent f')) (Fin 0))))"

definition fake_GetLendingPositions :: "FakeChainClient \<Rightarrow> string \<Rightarrow> LendingPosition list result" where
  "fake_GetLendingPositions f protocol = Ok (map_default [] (fc_positions f) protocol)"

definition fake_GetYieldRates :: "FakeChainClient \<Rightarrow> string list \<Rightarrow> YieldRate list result" where
  "fake_GetYieldRates f protocols = Ok (List.map_filter (map_of (fc_yieldRates f)) protocols)"

definition fake_ExecuteLiquidation :: "bool \<Rightarrow> LendingPosition option \<Rightarrow> Wallet option \<Rightarrow> FakeChainClient \<Rightarrow> FakeChainClient \<times> TxResult result" where
  "fake_ExecuteLiquidation ctx pos wallet f =
     (case pos of
        None \<Rightarrow> (f, Fail ''fake: ExecuteLiquidation nil position'')
      | Some p \<Rightarrow>
          if wallet = None then (f, Fail ''fake: ExecuteLiquidation nil wallet'')
          else if refused ctx f then (f, Fail ''fake: dry-run only mode, real execution refused'')
          else let f' = f\<lparr>fc_Liquidations := fc_Liquidations f @ [p]\<rparr>
            in (f', Ok (fake_tx ''fake-liq-'' (length (fc_Liquidations f')) (fdiv (fmul (lp_CollateralAmt p) (lp_LiquidationBonus p)) (Fin 10000)))))"

section \<open>The factory registry\<close>

text \<open>\<^verbatim>\<open>Register\<close> overrides; registering an empty name or a nil factory panics (\<open>None\<close>).\<close>

definition chain_Register :: "string \<Rightarrow> 'f option \<Rightarrow> 'f registry \<Rightarrow> 'f registry option" where
  "chain_Register name factory reg =
     (if name = [] then None else case factory of None \<Rightarrow> None | Some f \<Rightarrow> Some (AList.update name f reg))"

definition chain_Get :: "string \<Rightarrow> 'f registry \<Rightarrow> 'f result" where
  "chain_Get name reg = (case map_of reg name of None \<Rightarrow> Fail ''chain: no factory registered'' | Some f \<Rightarrow> Ok f)"

definition chain_Names :: "(string list \<Rightarrow> string list) \<Rightarrow> 'f registry \<Rightarrow> string list" where
  "chain_Names p reg = sort_Slice p str_less (map fst reg)"

definition chain_Reset :: "'f registry \<Rightarrow> 'f registry" where "chain_Reset _ = []"

section \<open>Paper trades\<close>

locale paper_gate =
  fixes execute :: "bool \<Rightarrow> 'x option \<Rightarrow> Wallet option \<Rightarrow> FakeChainClient \<Rightarrow> FakeChainClient \<times> TxResult result"
    and recorded :: "FakeChainClient \<Rightarrow> 'x list"
  assumes gate: "refused ctx f \<Longrightarrow> fst (execute ctx x w f) = f \<and> (\<exists>msg. snd (execute ctx x w f) = Fail msg)"
    and kept: "\<not> refused ctx f \<Longrightarrow> recorded (fst (execute ctx x w f)) = recorded f @ (case (x, w) of (Some v, Some _) \<Rightarrow> [v] | _ \<Rightarrow> [])"
    and mode: "fc_dryRunOnly (fst (execute ctx x w f)) = fc_dryRunOnly f"
begin

fun executes :: "(bool \<times> 'x option \<times> Wallet option) list \<Rightarrow> FakeChainClient \<Rightarrow> FakeChainClient" where
  "executes [] f = f"
| "executes ((ctx, x, w) # cs) f = executes cs (fst (execute ctx x w f))"

lemma paper_mode_records_paper_only:
  "fc_dryRunOnly f \<Longrightarrow> recorded (executes cs f) =
     recorded f @ concat (map (\<lambda>(ctx, x, w). if IsDryRun ctx then (case (x, w) of (Some v, Some _) \<Rightarrow> [v] | _ \<Rightarrow> []) else []) cs)"
proof (induction cs f rule: executes.induct)
  case (2 ctx x w cs f)
  have m: "fc_dryRunOnly (fst (execute ctx x w f))" using 2(2) by (simp add: mode)
  show ?case
  proof (cases "IsDryRun ctx")
    case True
    then have "\<not> refused ctx f" by (simp add: refused_def)
    with 2(1) [OF m] True show ?thesis by (simp add: kept)
  next
    case False
    with 2(2) have "refused ctx f" by (simp add: refused_def)
    with gate 2(1) [OF m] False show ?thesis by simp
  qed
qed simp

end

interpretation fake_swap: paper_gate fake_ExecuteSwap fc_Swaps
  by unfold_locales (auto simp: fake_ExecuteSwap_def Let_def split: option.splits)

interpretation fake_send: paper_gate fake_SendTransaction fc_Sent
  by unfold_locales (auto simp: fake_SendTransaction_def Let_def split: option.splits)

interpretation fake_liquidation: paper_gate fake_ExecuteLiquidation fc_Liquidations
  by unfold_locales (auto simp: fake_ExecuteLiquidation_def Let_def split: option.splits)

section \<open>Staging and reading\<close>

lemma staged_reads:
  "fake_GetBalance (WithBalance a v f) b = (if a = b then Ok v else fake_GetBalance f b)"
  "fake_GetTokenBalance (WithTokenBalance a k v f) a k = Ok v"
  "fake_GetLendingPositions (WithLendingPosition p l f) p = Ok (map_default [] (fc_positions f) p @ [l])"
  by (auto simp: fake_GetBalance_def WithBalance_def fake_GetTokenBalance_def WithTokenBalance_def fake_GetLendingPositions_def
      WithLendingPosition_def map_default_def update_conv')

text \<open>The price cache over a fake client reports the price that was staged.\<close>

lemma fake_price:
  assumes "flt (Fin 0) (qt_Price q)"
  shows "fetchPrice [''base'' \<mapsto> fake_GetQuote now (WithQuote ''ETH'' ''USDC'' q f)] ''base'' ''eth/usdc'' = Ok (qt_Price q)"
proof -
  have s: "splitPair ''eth/usdc'' = Ok (''ETH'', ''USDC'')" by code_simp
  have "\<not> fle (qt_Price q) (Fin 0)" using assms by (rule flt_asym)
  then show ?thesis by (simp add: fetchPrice_def s fake_GetQuote_def WithQuote_def quoteKey_def update_conv' Let_def)
qed

text \<open>The key of a staged quote does not keep the two tokens apart.\<close>

lemma quoteKey_ambiguous: "quoteKey ''A|B'' ''C'' = quoteKey ''A'' ''B|C''"
  by (simp add: quoteKey_def)

lemma chain_Get_Register:
  "chain_Register n (Some f) reg = Some reg' \<Longrightarrow> chain_Get k reg' = (if k = n then Ok f else chain_Get k reg)"
  by (auto simp: chain_Register_def chain_Get_def update_conv' split: if_splits)

lemma chain_Names_deterministic:
  assumes "rearranges p" "rearranges q" "mset (map fst reg) = mset (map fst reg')"
  shows "chain_Names p reg = chain_Names q reg'"
  using Registered_deterministic [OF assms] by (simp add: chain_Names_def Registered_def)

end
