(* ===== verification/Api.thy ===== *)
theory Api
  imports GoFmt Review
begin

text \<open>
  \<^verbatim>\<open>internal/api\<close> without its websocket hub (\<open>WsHub\<close>) and its database queries (\<open>ApiQueries\<close>): the
  response types (\<^verbatim>\<open>types.go\<close>), the interface of the store (\<^verbatim>\<open>store.go\<close>), the in-memory store (\<^verbatim>\<open>memory_store.go\<close>),
  and the server with its middlewares, routes and handlers (\<^verbatim>\<open>server.go\<close>, \<^verbatim>\<open>handlers.go\<close>).

  A response carries the Go value that is encoded as JSON.  The dispatch is that of the gin library as its documentation
  states it: the middlewares of the engine run for every request, also one that no route matches (404), the
  middlewares of a group only for its routes; parameters that a query does not have are empty.
\<close>

section \<open>Response types\<close>

record AgentSummary =
  as_ID :: string
  as_Name :: string
  as_Chain :: string
  as_TaskType :: string
  as_NodeClass :: string
  as_Status :: string
  as_HealthState :: string
  as_Generation :: int
  as_LineageDepth :: int
  as_CapitalUSD :: f64
  as_CurrentUSD :: f64
  as_TotalPnLUSD :: f64
  as_TotalTrades :: int
  as_StrategyModel :: string
  as_CreatedAt :: time

record TradeRow =
  rt_ID :: string
  rt_AgentID :: string
  rt_AgentName :: string
  rt_EpochID :: string
  rt_Chain :: string
  rt_TradeType :: string
  rt_TokenPair :: string
  rt_DEX :: string
  rt_AmountIn :: f64
  rt_AmountOut :: f64
  rt_FeePaidUSD :: f64
  rt_PnLUSD :: f64
  rt_TxSignature :: string
  rt_IsPaperTrade :: bool
  rt_ExecutedAt :: time

record AgentDetail =
  ad_Summary :: AgentSummary
  ad_ParentID :: string
  ad_StrategistPrompt :: string
  ad_StrategyConfig :: "(string \<times> json) list"
  ad_BanditPolicies :: "string list"
  ad_LearnedRules :: "json list"
  ad_RecentTrades :: "TradeRow list"

record EpochRow =
  ew_ID :: string
  ew_EpochNumber :: int
  ew_StartedAt :: time
  ew_EndedAt :: time
  ew_TotalAgents :: int
  ew_FundedAgents :: int
  ew_ShadowAgents :: int
  ew_AgentsSpawned :: int
  ew_AgentsKilled :: int
  ew_AgentsPromoted :: int
  ew_TreasuryBalanceUSD :: f64
  ew_TotalPnLUSD :: f64
  ew_TotalLLMCostUSD :: f64
  ew_MonthlySpendUSD :: f64
  ew_SwarmDiversityScore :: f64
  ew_MarketRegime :: string
  ew_ParentReasoning :: string
  ew_CircuitBreakerFired :: bool

record LineageNode =
  ln_AgentID :: string
  ln_Name :: string
  ln_NodeClass :: string
  ln_Status :: string
  ln_Generation :: int
  ln_ParentIDs :: "string list"
  ln_TotalPnLUSD :: f64
  ln_EvolutionType :: string

record TreasuryState =
  ts_ReserveUSD :: f64
  ts_TotalCapitalAllocatedUSD :: f64
  ts_MonthlySpendUSD :: f64
  ts_MonthlyBudgetUSD :: f64
  ts_UsedPct :: f64
  ts_PerChain :: "(string \<times> f64) list"
  ts_UpdatedAt :: time

record PostmortemRow =
  pw_ID :: string
  pw_AgentID :: string
  pw_AgentName :: string
  pw_LifespanEpochs :: int
  pw_TotalTrades :: int
  pw_TotalPnLUSD :: f64
  pw_TotalLLMCostUSD :: f64
  pw_FailureCategory :: string
  pw_LessonsSummary :: string
  pw_Lessons :: "json list"
  pw_CreatedAt :: time

record OffspringRow =
  ow_ID :: string
  ow_ProposingAgentID :: string
  ow_EpochID :: string
  ow_RequestedSeedUSD :: f64
  ow_RequestedReserveUSD :: f64
  ow_Rationale :: string
  ow_QualityVerdict :: string
  ow_BullCase :: string
  ow_BearCase :: string
  ow_AdversarialSynthesis :: string
  ow_Status :: string
  ow_RejectionReason :: string
  ow_CreatedChildID :: string
  ow_CreatedAt :: time

record AgentSpend =
  sp_AgentID :: string
  sp_Name :: string
  sp_SpentUSD :: f64

record ApiBudget =
  ab_MonthStart :: time
  ab_MonthlyBudgetUSD :: f64
  ab_SpentUSD :: f64
  ab_RemainingUSD :: f64
  ab_UsedPct :: f64
  ab_PerCategory :: "(string \<times> f64) list"
  ab_PerAgent :: "AgentSpend list"

record CircuitBreakerState =
  cs_Tripped :: bool
  cs_Reason :: string
  cs_TrippedAt :: time
  cs_State :: string
  cs_ResetAfter :: time

record BacktestRow =
  bw_ID :: string
  bw_Chain :: string
  bw_TokenPair :: string
  bw_PeriodStart :: time
  bw_PeriodEnd :: time
  bw_InitialCapital :: f64
  bw_FinalCapital :: f64
  bw_TotalPnLUSD :: f64
  bw_MaxDrawdownPct :: f64
  bw_TotalTrades :: int
  bw_WinRate :: f64
  bw_Sharpe :: f64
  bw_EquityCurve :: "f64 list"
  bw_CreatedAt :: time

record IntelRow =
  iw_ID :: string
  iw_SourceAgentID :: string
  iw_SourceAgentName :: string
  iw_Channel :: string
  iw_SignalType :: string
  iw_Sentiment :: string
  iw_Confidence :: f64
  iw_SourceAccuracy :: f64
  iw_Data :: "(string \<times> json) list"
  iw_CreatedAt :: time
  iw_ExpiresAt :: time

record ModelPerformance =
  mp_Model :: string
  mp_UsedByAgents :: int
  mp_Decisions :: int
  mp_TotalCostUSD :: f64
  mp_PnLUSD :: f64
  mp_PnLPerDollar :: f64
  mp_AvgInputTokens :: int
  mp_AvgOutputTokens :: int

record EvolutionEvent =
  ee_ChildID :: string
  ee_ChildName :: string
  ee_ParentID :: string
  ee_ParentName :: string
  ee_SecondParentID :: string
  ee_EvolutionMethod :: string
  ee_Mutations :: "string list"
  ee_SpawnReasoning :: string
  ee_CreatedAt :: time

record EquitySample =
  eq_At :: time
  eq_EquityUSD :: f64

record DashboardSnapshot =
  ds_TotalAgents :: int
  ds_FundedAgents :: int
  ds_ShadowAgents :: int
  ds_Treasury :: TreasuryState
  ds_MonthlySpendUSD :: f64
  ds_MonthlyBudgetUSD :: f64
  ds_EquityCurve :: "EquitySample list"
  ds_RecentEpoch :: "EpochRow option"
  ds_OpenProposals :: int
  ds_UpdatedAt :: time

section \<open>The store\<close>

record ListAgentsOpts =
  oa_Chain :: string
  oa_NodeClass :: string
  oa_Status :: string
  oa_TaskType :: string

record ListTradesOpts =
  ot_AgentID :: string
  ot_Chain :: string
  ot_Limit :: int

record ListIntelOpts =
  oi_Channel :: string
  oi_Sentiment :: string
  oi_Limit :: int

text \<open>The sentinel; another error of the same text does not occur.\<close>

definition ErrNotFound :: error where "ErrNotFound = Err ''api: not found''"

fun errors_Is :: "error \<Rightarrow> error \<Rightarrow> bool" where
  "errors_Is (Err s) target = (Err s = target)"
| "errors_Is (Wrap s e) target = (Wrap s e = target \<or> errors_Is e target)"

record Store =
  st_ListAgents :: "ListAgentsOpts \<Rightarrow> AgentSummary list result"
  st_GetAgent :: "string \<Rightarrow> AgentDetail result"
  st_ListTrades :: "ListTradesOpts \<Rightarrow> TradeRow list result"
  st_ListEpochs :: "int \<Rightarrow> EpochRow list result"
  st_GetLineage :: "LineageNode list result"
  st_GetTreasury :: "TreasuryState result"
  st_ListPostmortems :: "int \<Rightarrow> PostmortemRow list result"
  st_ListOffspring :: "string \<Rightarrow> OffspringRow list result"
  st_GetBudget :: "ApiBudget result"
  st_GetCircuitBreaker :: "CircuitBreakerState result"
  st_ListBacktests :: "int \<Rightarrow> BacktestRow list result"
  st_ListIntel :: "ListIntelOpts \<Rightarrow> IntelRow list result"
  st_ListModels :: "ModelPerformance list result"
  st_ListEvolution :: "int \<Rightarrow> EvolutionEvent list result"
  st_GetDashboardSnapshot :: "DashboardSnapshot result"

section \<open>The in-memory store\<close>

record MemoryStore =
  ms_Agents :: "AgentSummary list"
  ms_AgentDetails :: "(string \<times> AgentDetail) list"
  ms_Trades :: "TradeRow list"
  ms_Epochs :: "EpochRow list"
  ms_Lineage :: "LineageNode list"
  ms_Treasury :: TreasuryState
  ms_Postmortems :: "PostmortemRow list"
  ms_Offspring :: "OffspringRow list"
  ms_Budget :: ApiBudget
  ms_Breaker :: CircuitBreakerState
  ms_Backtests :: "BacktestRow list"
  ms_Intel :: "IntelRow list"
  ms_Models :: "ModelPerformance list"
  ms_Evolution :: "EvolutionEvent list"
  ms_Snapshot :: DashboardSnapshot

definition NewMemoryStore :: MemoryStore where
  "NewMemoryStore =
     (let ts = \<lparr>ts_ReserveUSD = Fin 0, ts_TotalCapitalAllocatedUSD = Fin 0, ts_MonthlySpendUSD = Fin 0, ts_MonthlyBudgetUSD = Fin 0, ts_UsedPct = Fin 0,
               ts_PerChain = [], ts_UpdatedAt = zero_time\<rparr> in
      \<lparr>ms_Agents = [], ms_AgentDetails = [], ms_Trades = [], ms_Epochs = [], ms_Lineage = [], ms_Treasury = ts, ms_Postmortems = [], ms_Offspring = [],
       ms_Budget = \<lparr>ab_MonthStart = zero_time, ab_MonthlyBudgetUSD = Fin 0, ab_SpentUSD = Fin 0, ab_RemainingUSD = Fin 0, ab_UsedPct = Fin 0,
                     ab_PerCategory = [], ab_PerAgent = []\<rparr>,
       ms_Breaker = \<lparr>cs_Tripped = False, cs_Reason = [], cs_TrippedAt = zero_time, cs_State = [], cs_ResetAfter = zero_time\<rparr>,
       ms_Backtests = [], ms_Intel = [], ms_Models = [], ms_Evolution = [],
       ms_Snapshot = \<lparr>ds_TotalAgents = 0, ds_FundedAgents = 0, ds_ShadowAgents = 0, ds_Treasury = ts, ds_MonthlySpendUSD = Fin 0,
                       ds_MonthlyBudgetUSD = Fin 0, ds_EquityCurve = [], ds_RecentEpoch = None, ds_OpenProposals = 0, ds_UpdatedAt = zero_time\<rparr>\<rparr>)"

definition wants :: "string \<Rightarrow> string \<Rightarrow> bool" where
  "wants opt value \<longleftrightarrow> \<not> (opt \<noteq> [] \<and> value \<noteq> opt)"

definition mem_ListAgents :: "MemoryStore \<Rightarrow> ListAgentsOpts \<Rightarrow> AgentSummary list result" where
  "mem_ListAgents s opts =
     Ok (stable_sort (\<lambda>a b. flt (as_TotalPnLUSD b) (as_TotalPnLUSD a))
       (filter (\<lambda>a. wants (oa_Chain opts) (as_Chain a) \<and> wants (oa_NodeClass opts) (as_NodeClass a) \<and>
                    wants (oa_Status opts) (as_Status a) \<and> wants (oa_TaskType opts) (as_TaskType a)) (ms_Agents s)))"

definition mem_GetAgent :: "MemoryStore \<Rightarrow> string \<Rightarrow> AgentDetail result" where
  "mem_GetAgent s i = (case map_of (ms_AgentDetails s) i of None \<Rightarrow> Inl ErrNotFound | Some d \<Rightarrow> Ok d)"

text \<open>The loop of \<^verbatim>\<open>ListTrades\<close> and \<^verbatim>\<open>ListIntel\<close>: append what is wanted until the limit is reached.\<close>

fun collect_up_to :: "int \<Rightarrow> ('a \<Rightarrow> bool) \<Rightarrow> 'a list \<Rightarrow> 'a list \<Rightarrow> 'a list" where
  "collect_up_to limit want [] out = out"
| "collect_up_to limit want (x # xs) out =
     (if \<not> want x then collect_up_to limit want xs out
      else let out' = out @ [x] in if limit \<le> int (length out') then out' else collect_up_to limit want xs out')"

definition mem_ListTrades :: "MemoryStore \<Rightarrow> ListTradesOpts \<Rightarrow> TradeRow list result" where
  "mem_ListTrades s opts =
     (let limit = (if ot_Limit opts \<le> 0 then 100 else ot_Limit opts) in
      Ok (collect_up_to limit (\<lambda>t. wants (ot_AgentID opts) (rt_AgentID t) \<and> wants (ot_Chain opts) (rt_Chain t)) (ms_Trades s) []))"

text \<open>The lists that are cut at a limit: all of it when the limit is not positive or too large.\<close>

definition cut_at :: "int \<Rightarrow> 'a list \<Rightarrow> 'a list" where
  "cut_at limit xs = take (nat (if limit \<le> 0 \<or> int (length xs) < limit then int (length xs) else limit)) xs"

definition mem_ListEpochs :: "MemoryStore \<Rightarrow> int \<Rightarrow> EpochRow list result" where
  "mem_ListEpochs s limit = Ok (cut_at limit (ms_Epochs s))"

definition mem_ListPostmortems :: "MemoryStore \<Rightarrow> int \<Rightarrow> PostmortemRow list result" where
  "mem_ListPostmortems s limit = Ok (cut_at limit (ms_Postmortems s))"

definition mem_ListBacktests :: "MemoryStore \<Rightarrow> int \<Rightarrow> BacktestRow list result" where
  "mem_ListBacktests s limit = Ok (cut_at limit (ms_Backtests s))"

definition mem_ListEvolution :: "MemoryStore \<Rightarrow> int \<Rightarrow> EvolutionEvent list result" where
  "mem_ListEvolution s limit = Ok (cut_at limit (ms_Evolution s))"

definition mem_ListOffspring :: "MemoryStore \<Rightarrow> string \<Rightarrow> OffspringRow list result" where
  "mem_ListOffspring s status = Ok (filter (\<lambda>r. wants status (ow_Status r)) (ms_Offspring s))"

definition mem_ListIntel :: "MemoryStore \<Rightarrow> ListIntelOpts \<Rightarrow> IntelRow list result" where
  "mem_ListIntel s opts =
     (let limit = (if oi_Limit opts \<le> 0 then 100 else oi_Limit opts) in
      Ok (collect_up_to limit (\<lambda>r. wants (oi_Channel opts) (iw_Channel r) \<and> wants (oi_Sentiment opts) (iw_Sentiment r)) (ms_Intel s) []))"

definition mem_ListModels :: "MemoryStore \<Rightarrow> ModelPerformance list result" where
  "mem_ListModels s = Ok (stable_sort (\<lambda>a b. flt (mp_PnLPerDollar b) (mp_PnLPerDollar a)) (ms_Models s))"

definition memory_store :: "MemoryStore \<Rightarrow> Store" where
  "memory_store s =
     \<lparr>st_ListAgents = mem_ListAgents s, st_GetAgent = mem_GetAgent s, st_ListTrades = mem_ListTrades s, st_ListEpochs = mem_ListEpochs s,
      st_GetLineage = Ok (ms_Lineage s), st_GetTreasury = Ok (ms_Treasury s), st_ListPostmortems = mem_ListPostmortems s,
      st_ListOffspring = mem_ListOffspring s, st_GetBudget = Ok (ms_Budget s), st_GetCircuitBreaker = Ok (ms_Breaker s),
      st_ListBacktests = mem_ListBacktests s, st_ListIntel = mem_ListIntel s, st_ListModels = mem_ListModels s,
      st_ListEvolution = mem_ListEvolution s, st_GetDashboardSnapshot = Ok (ms_Snapshot s)\<rparr>"

section \<open>The server\<close>

record ServerConfig =
  sc_Store :: "Store option"
  sc_Subscribe :: bool
  sc_APIKey :: string
  sc_AuthRequired :: bool
  sc_WebSocketEnabled :: bool
  sc_CORSOrigins :: "string list"
  sc_Channels :: "string list"
  sc_HeartbeatInterval :: duration

record Server =
  sv_cfg :: ServerConfig
  sv_store :: Store
  sv_hub :: bool

definition NewServer :: "ServerConfig \<Rightarrow> Server result" where
  "NewServer cfg =
     (case sc_Store cfg of
        None \<Rightarrow> Fail ''api: store required''
      | Some store \<Rightarrow>
          if sc_AuthRequired cfg \<and> sc_APIKey cfg = [] then Fail ''api: api key required when auth enabled''
          else Ok \<lparr>sv_cfg = cfg\<lparr>sc_CORSOrigins := (if sc_CORSOrigins cfg = [] then [''http://localhost:3000''] else sc_CORSOrigins cfg),
                 sc_HeartbeatInterval := (if sc_HeartbeatInterval cfg \<le> 0 then 30 * Second else sc_HeartbeatInterval cfg),
                 sc_Channels := (if sc_Channels cfg = [] then [''events:circuit_breaker'', ''events:lifecycle'', ''events:epoch_completed'',
                    ''events:budget'', ''events:intel'', ''events:trade''] else sc_Channels cfg)\<rparr>,
               sv_store = store, sv_hub = False\<rparr>)"

text \<open>\<^verbatim>\<open>Run\<close> makes the hub when the relay is enabled and there is a broker to subscribe to.\<close>

definition api_Run :: "Server \<Rightarrow> Server" where
  "api_Run s = (if sc_WebSocketEnabled (sv_cfg s) \<and> sc_Subscribe (sv_cfg s) then s\<lparr>sv_hub := True\<rparr> else s)"

record request =
  rq_Method :: string
  rq_Path :: "string list"
  rq_Headers :: "(string \<times> string) list"
  rq_Query :: "(string \<times> string) list"

definition GetHeader :: "request \<Rightarrow> string \<Rightarrow> string" where
  "GetHeader rq k = (case map_of (rq_Headers rq) k of None \<Rightarrow> [] | Some v \<Rightarrow> v)"

definition query_param :: "request \<Rightarrow> string \<Rightarrow> string" where
  "query_param rq k = (case map_of (rq_Query rq) k of None \<Rightarrow> [] | Some v \<Rightarrow> v)"

record 'a listResponse =
  ls_Items :: "'a list"
  ls_Count :: int

definition wrapList :: "'a list \<Rightarrow> 'a listResponse" where
  "wrapList items = \<lparr>ls_Items = items, ls_Count = int (length items)\<rparr>"

datatype api_body =
    NoBody
  | ErrorBody string
  | HealthBody
  | Upgraded
  | AgentsBody "AgentSummary listResponse"
  | AgentBody AgentDetail
  | TradesBody "TradeRow listResponse"
  | EpochsBody "EpochRow listResponse"
  | LineageBody "LineageNode listResponse"
  | TreasuryBody TreasuryState
  | PostmortemsBody "PostmortemRow listResponse"
  | OffspringBody "OffspringRow listResponse"
  | BudgetBody ApiBudget
  | BreakerBody CircuitBreakerState
  | BacktestsBody "BacktestRow listResponse"
  | IntelBody "IntelRow listResponse"
  | ModelsBody "ModelPerformance listResponse"
  | EvolutionBody "EvolutionEvent listResponse"
  | DashboardBody DashboardSnapshot

record response =
  rs_Status :: int
  rs_Headers :: "(string \<times> string) list"
  rs_Body :: api_body

definition reply :: "int \<Rightarrow> api_body \<Rightarrow> response" where
  "reply status body = \<lparr>rs_Status = status, rs_Headers = [], rs_Body = body\<rparr>"

text \<open>\<^verbatim>\<open>strconv.Atoi\<close>.\<close>

fun atoi_digits :: "string \<Rightarrow> int \<Rightarrow> int option" where
  "atoi_digits [] acc = Some acc"
| "atoi_digits (c # cs) acc = (if is_digit c then atoi_digits cs (acc * 10 + (of_char c - 48)) else None)"

definition Atoi :: "string \<Rightarrow> int option" where
  "Atoi s =
     (let (neg, ds) = (case s of c # cs \<Rightarrow> if c = CHR ''-'' then (True, cs) else if c = CHR ''+'' then (False, cs) else (False, s) | [] \<Rightarrow> (False, [])) in
      if ds = [] then None
      else case atoi_digits ds 0 of
        None \<Rightarrow> None
      | Some v \<Rightarrow> let n = (if neg then - v else v) in if is_int64 n then Some n else None)"

definition queryInt :: "request \<Rightarrow> string \<Rightarrow> int \<Rightarrow> int" where
  "queryInt rq name mx =
     (let raw = TrimSpace (query_param rq name) in
      if raw = [] then 0
      else case Atoi raw of None \<Rightarrow> 0 | Some n \<Rightarrow> if n < 0 then 0 else if mx < n then mx else n)"

definition respondError :: "error \<Rightarrow> response" where
  "respondError e = (if errors_Is e ErrNotFound then reply 404 (ErrorBody ''not found'') else reply 500 (ErrorBody (''internal: '' @ error_text e)))"

definition respond :: "('a \<Rightarrow> api_body) \<Rightarrow> 'a result \<Rightarrow> response" where
  "respond body r = (case r of Inl e \<Rightarrow> respondError e | Inr v \<Rightarrow> reply 200 (body v))"

definition h_listAgents :: "Server \<Rightarrow> request \<Rightarrow> response" where
  "h_listAgents s rq = respond (AgentsBody \<circ> wrapList) (st_ListAgents (sv_store s)
     \<lparr>oa_Chain = query_param rq ''chain'', oa_NodeClass = query_param rq ''node_class'', oa_Status = query_param rq ''status'',
      oa_TaskType = query_param rq ''task_type''\<rparr>)"

definition h_getAgent :: "Server \<Rightarrow> string \<Rightarrow> response" where
  "h_getAgent s i = respond AgentBody (st_GetAgent (sv_store s) i)"

definition h_listTrades :: "Server \<Rightarrow> request \<Rightarrow> response" where
  "h_listTrades s rq = respond (TradesBody \<circ> wrapList) (st_ListTrades (sv_store s)
     \<lparr>ot_AgentID = query_param rq ''agent_id'', ot_Chain = query_param rq ''chain'', ot_Limit = queryInt rq ''limit'' 1000\<rparr>)"

definition h_listEpochs :: "Server \<Rightarrow> request \<Rightarrow> response" where
  "h_listEpochs s rq = respond (EpochsBody \<circ> wrapList) (st_ListEpochs (sv_store s) (queryInt rq ''limit'' 500))"

definition h_getLineage :: "Server \<Rightarrow> response" where "h_getLineage s = respond (LineageBody \<circ> wrapList) (st_GetLineage (sv_store s))"
definition h_getTreasury :: "Server \<Rightarrow> response" where "h_getTreasury s = respond TreasuryBody (st_GetTreasury (sv_store s))"

definition h_listPostmortems :: "Server \<Rightarrow> request \<Rightarrow> response" where
  "h_listPostmortems s rq = respond (PostmortemsBody \<circ> wrapList) (st_ListPostmortems (sv_store s) (queryInt rq ''limit'' 500))"

definition h_listOffspring :: "Server \<Rightarrow> request \<Rightarrow> response" where
  "h_listOffspring s rq = respond (OffspringBody \<circ> wrapList) (st_ListOffspring (sv_store s) (query_param rq ''status''))"

definition h_getBudget :: "Server \<Rightarrow> response" where "h_getBudget s = respond BudgetBody (st_GetBudget (sv_store s))"
definition h_getCircuitBreaker :: "Server \<Rightarrow> response" where "h_getCircuitBreaker s = respond BreakerBody (st_GetCircuitBreaker (sv_store s))"

definition h_listBacktests :: "Server \<Rightarrow> request \<Rightarrow> response" where
  "h_listBacktests s rq = respond (BacktestsBody \<circ> wrapList) (st_ListBacktests (sv_store s) (queryInt rq ''limit'' 200))"

definition h_listIntel :: "Server \<Rightarrow> request \<Rightarrow> response" where
  "h_listIntel s rq = respond (IntelBody \<circ> wrapList) (st_ListIntel (sv_store s)
     \<lparr>oi_Channel = query_param rq ''channel'', oi_Sentiment = query_param rq ''sentiment'', oi_Limit = queryInt rq ''limit'' 1000\<rparr>)"

definition h_listModels :: "Server \<Rightarrow> response" where "h_listModels s = respond (ModelsBody \<circ> wrapList) (st_ListModels (sv_store s))"

definition h_listEvolution :: "Server \<Rightarrow> request \<Rightarrow> response" where
  "h_listEvolution s rq = respond (EvolutionBody \<circ> wrapList) (st_ListEvolution (sv_store s) (queryInt rq ''limit'' 500))"

definition h_getDashboardSnapshot :: "Server \<Rightarrow> response" where
  "h_getDashboardSnapshot s = respond DashboardBody (st_GetDashboardSnapshot (sv_store s))"

text \<open>The beginning of \<^verbatim>\<open>handleWebsocket\<close>; the connection is in \<open>WsHub\<close>.\<close>

definition h_websocket :: "Server \<Rightarrow> response" where
  "h_websocket s = (if sv_hub s then reply 101 Upgraded else reply 503 (ErrorBody ''websocket disabled''))"

definition h_healthz :: response where "h_healthz = reply 200 HealthBody"

text \<open>The routes: whether the route belongs to a group behind the key, and its handler.\<close>

definition routes :: "Server \<Rightarrow> request \<Rightarrow> (bool \<times> response) option" where
  "routes s rq =
     (if rq_Method rq \<noteq> ''GET'' then None
      else case rq_Path rq of
        [p] \<Rightarrow> if p = ''healthz'' then Some (False, h_healthz) else if p = ''ws'' then Some (True, h_websocket s) else None
      | [p, q] \<Rightarrow> if p = ''api'' then map_option (Pair True) (map_of
          [(''agents'', h_listAgents s rq), (''trades'', h_listTrades s rq), (''epochs'', h_listEpochs s rq), (''lineage'', h_getLineage s),
           (''treasury'', h_getTreasury s), (''postmortems'', h_listPostmortems s rq), (''offspring'', h_listOffspring s rq),
           (''budget'', h_getBudget s), (''circuit-breaker'', h_getCircuitBreaker s), (''backtests'', h_listBacktests s rq),
           (''intelligence'', h_listIntel s rq), (''models'', h_listModels s), (''evolution'', h_listEvolution s rq),
           (''dashboard'', h_getDashboardSnapshot s)] q) else None
      | [p, q, i] \<Rightarrow> if p = ''api'' \<and> q = ''agents'' \<and> i \<noteq> [] then Some (True, h_getAgent s i) else None
      | _ \<Rightarrow> None)"

definition presented_key :: "request \<Rightarrow> string" where
  "presented_key rq = (if GetHeader rq ''X-Api-Key'' = [] then query_param rq ''api_key'' else GetHeader rq ''X-Api-Key'')"

definition authMiddleware :: "string \<Rightarrow> request \<Rightarrow> response \<Rightarrow> response" where
  "authMiddleware key rq next_response =
     (if presented_key rq \<noteq> key then reply 401 (ErrorBody ''unauthorized'') else next_response)"

definition corsMiddleware :: "string list \<Rightarrow> request \<Rightarrow> response \<Rightarrow> response" where
  "corsMiddleware origins rq next_response =
     (let origin = GetHeader rq ''Origin'';
          hs = (if origin \<in> set origins then [(''Access-Control-Allow-Origin'', origin), (''Vary'', ''Origin''),
                 (''Access-Control-Allow-Headers'', ''Content-Type, X-Api-Key''), (''Access-Control-Allow-Methods'', ''GET, OPTIONS'')] else []);
          r = (if rq_Method rq = ''OPTIONS'' then reply 204 NoBody else next_response)
      in r\<lparr>rs_Headers := hs @ rs_Headers r\<rparr>)"

text \<open>
  What Gin makes of a request that no route takes (its page for an unknown path, which goes through the middleware of the engine, or
  its redirect of a trailing slash, which does not) is the argument \<open>unmatched\<close>.
\<close>

type_synonym gin_fallback = "(response \<Rightarrow> response) \<Rightarrow> request \<Rightarrow> response"

definition serve :: "gin_fallback \<Rightarrow> Server \<Rightarrow> request \<Rightarrow> response" where
  "serve unmatched s rq =
     (let cors = corsMiddleware (sc_CORSOrigins (sv_cfg s)) rq in
      case routes s rq of
        None \<Rightarrow> unmatched cors rq
      | Some (guarded, h) \<Rightarrow> cors (if guarded \<and> sc_AuthRequired (sv_cfg s) then authMiddleware (sc_APIKey (sv_cfg s)) rq h else h))"

section \<open>Lists and limits\<close>

lemma collect_up_to_take:
  "int (length out) < limit \<Longrightarrow> collect_up_to limit want xs out = take (nat limit) (out @ filter want xs)"
proof (induction limit want xs out rule: collect_up_to.induct)
  case (2 limit want x xs out)
  show ?case
  proof (cases "want x")
    case False
    with 2 show ?thesis by simp
  next
    case True
    show ?thesis
    proof (cases "limit \<le> int (length (out @ [x]))")
      case full: True
      with 2(3) have "nat limit = length (out @ [x])" by simp
      with True full show ?thesis by simp
    next
      case False
      with 2(2) [OF _ refl] True show ?thesis by simp
    qed
  qed
qed simp

lemma cut_at_take: "cut_at limit xs = (if limit \<le> 0 then xs else take (nat limit) xs)"
  by (auto simp: cut_at_def)

lemma queryInt_range: "0 \<le> mx \<Longrightarrow> 0 \<le> queryInt rq name mx \<and> queryInt rq name mx \<le> mx"
  by (auto simp: queryInt_def Let_def split: option.splits)

definition trades_wanted :: "request \<Rightarrow> TradeRow \<Rightarrow> bool" where
  "trades_wanted rq t \<longleftrightarrow> wants (query_param rq ''agent_id'') (rt_AgentID t) \<and> wants (query_param rq ''chain'') (rt_Chain t)"

definition trades_limit :: "request \<Rightarrow> nat" where
  "trades_limit rq = (if queryInt rq ''limit'' 1000 = 0 then 100 else nat (queryInt rq ''limit'' 1000))"

lemma mem_trades:
  "st_ListTrades (memory_store m) \<lparr>ot_AgentID = query_param rq ''agent_id'', ot_Chain = query_param rq ''chain'', ot_Limit = queryInt rq ''limit'' 1000\<rparr> =
   Ok (take (trades_limit rq) (filter (trades_wanted rq) (ms_Trades m)))"
proof -
  have "0 \<le> queryInt rq ''limit'' 1000" using queryInt_range [of 1000 rq "''limit''"] by simp
  then show ?thesis
    by (auto simp: memory_store_def mem_ListTrades_def collect_up_to_take trades_limit_def trades_wanted_def [abs_def])
qed

lemma trades_limit_le: "trades_limit rq \<le> 1000"
  using queryInt_range [of 1000 rq "''limit''"] by (auto simp: trades_limit_def nat_le_iff)

text \<open>The agents of the in-memory store are those wanted, in descending order of their profit.\<close>

interpretation by_profit: weak_order "\<lambda>a b. flt (as_TotalPnLUSD b) (as_TotalPnLUSD a)" "\<lambda>a. \<not> is_nan (as_TotalPnLUSD a)"
  by unfold_locales (auto simp: fcmp_defs)

lemma mem_ListAgents_sorted:
  assumes "mem_ListAgents m opts = Ok as" "\<forall>a \<in> set (ms_Agents m). \<not> is_nan (as_TotalPnLUSD a)"
  shows "sorted_wrt (\<lambda>a b. fle (as_TotalPnLUSD b) (as_TotalPnLUSD a)) as"
proof -
  define kept where "kept = filter (\<lambda>a. wants (oa_Chain opts) (as_Chain a) \<and> wants (oa_NodeClass opts) (as_NodeClass a) \<and>
      wants (oa_Status opts) (as_Status a) \<and> wants (oa_TaskType opts) (as_TaskType a)) (ms_Agents m)"
  have as: "as = stable_sort (\<lambda>a b. flt (as_TotalPnLUSD b) (as_TotalPnLUSD a)) kept" using assms(1) by (simp add: mem_ListAgents_def kept_def)
  have ok: "\<forall>a \<in> set kept. \<not> is_nan (as_TotalPnLUSD a)" using assms(2) by (simp add: kept_def)
  from by_profit.stable_sort_sorted [OF ok] have "sorted_wrt (\<lambda>a b. \<not> flt (as_TotalPnLUSD a) (as_TotalPnLUSD b)) as" by (simp add: as)
  then show ?thesis by (rule sorted_wrt_mono_rel [rotated]) (use ok in \<open>auto simp: as flt_not_fle\<close>)
qed

section \<open>Properties\<close>

text \<open>The server that holds another store.\<close>

abbreviation with_store :: "Server \<Rightarrow> Store \<Rightarrow> Server" where
  "with_store s st \<equiv> s\<lparr>sv_store := st\<rparr>"

lemma routes_guarded: "routes s rq = Some (False, h) \<Longrightarrow> rq_Path rq = [''healthz''] \<and> h = h_healthz"
  by (auto simp: routes_def split: if_splits list.splits option.splits)

lemma routes_shape: "map_option fst (routes (with_store s a) rq) = map_option fst (routes (with_store s b) rq)"
  by (auto simp: routes_def split: list.splits if_splits)

text \<open>
  C21: nothing of the store is revealed without the key.  When authentication is on, two servers that differ only in
  what their stores hold give the same answer to every request that does not present the key, and that answer carries no
  data: it is empty, the health check, the message that the request is unauthorized, or what Gin answers when no route takes the request.
\<close>

theorem api_reveals_nothing_without_key:
  assumes "NewServer cfg = Ok s" "sc_AuthRequired cfg" "presented_key rq \<noteq> sc_APIKey cfg"
  shows "serve unmatched (api_Run (with_store s a)) rq = serve unmatched (api_Run (with_store s b)) rq \<and>
    (rs_Body (serve unmatched (api_Run (with_store s a)) rq) \<in> {NoBody, HealthBody, ErrorBody ''unauthorized''} \<or>
     serve unmatched (api_Run (with_store s a)) rq = unmatched (corsMiddleware (sc_CORSOrigins (sv_cfg s)) rq) rq)"
proof -
  have c: "sc_AuthRequired (sv_cfg s)" "sc_APIKey (sv_cfg s) = sc_APIKey cfg"
    using assms(1,2) by (auto simp: NewServer_def split: option.splits if_splits)
  define h where "h = (sc_WebSocketEnabled (sv_cfg s) \<and> sc_Subscribe (sv_cfg s) \<or> sv_hub s)"
  have run: "api_Run (with_store s st) = with_store (s\<lparr>sv_hub := h\<rparr>) st" for st
    by (cases s) (auto simp: api_Run_def h_def)
  let ?s = "s\<lparr>sv_hub := h\<rparr>" and ?cors = "corsMiddleware (sc_CORSOrigins (sv_cfg s)) rq"
  have inner: "serve unmatched (with_store ?s st) rq =
      (case map_option fst (routes (with_store ?s a) rq) of None \<Rightarrow> unmatched ?cors rq
        | Some guarded \<Rightarrow> ?cors (if guarded then reply 401 (ErrorBody ''unauthorized'') else h_healthz))" for st
    using routes_shape [where s = ?s and a = st and b = a and rq = rq] c assms(3) routes_guarded [of "with_store ?s st" rq]
    by (cases "routes (with_store ?s st) rq") (auto simp: serve_def Let_def authMiddleware_def split: option.splits)
  show ?thesis unfolding run
    using inner [of a] inner [of b] by (auto simp: corsMiddleware_def Let_def reply_def h_healthz_def split: option.splits)
qed

text \<open>The plain page for an unknown path.\<close>

definition not_found :: gin_fallback where "not_found mw rq = mw (reply 404 (ErrorBody ''404 page not found''))"

definition sample_api :: ServerConfig where
  "sample_api = \<lparr>sc_Store = Some (memory_store NewMemoryStore), sc_Subscribe = True, sc_APIKey = ''secret'', sc_AuthRequired = True,
     sc_WebSocketEnabled = True, sc_CORSOrigins = [], sc_Channels = [], sc_HeartbeatInterval = 0\<rparr>"

definition get_trades :: "string \<Rightarrow> request" where
  "get_trades key = \<lparr>rq_Method = ''GET'', rq_Path = [''api'', ''trades''], rq_Headers = [(''X-Api-Key'', key)], rq_Query = []\<rparr>"

lemma sample_api_builds: "NewServer sample_api = Ok (case NewServer sample_api of Inr s \<Rightarrow> s)"
  by (simp add: NewServer_def sample_api_def)

lemma api_reveals_nothing_without_key_witness:
  "\<forall>st. let s = (case NewServer sample_api of Inr s \<Rightarrow> s) in
     serve not_found (api_Run (with_store s (memory_store NewMemoryStore))) (get_trades ''guess'') = serve not_found (api_Run (with_store s st)) (get_trades ''guess'')"
proof
  fix st
  have "presented_key (get_trades ''guess'') \<noteq> sc_APIKey sample_api" "sc_AuthRequired sample_api"
    by (simp_all add: sample_api_def presented_key_def get_trades_def GetHeader_def)
  from api_reveals_nothing_without_key [OF sample_api_builds this(2,1), of not_found "memory_store NewMemoryStore" st]
  show "let s = (case NewServer sample_api of Inr s \<Rightarrow> s) in
     serve not_found (api_Run (with_store s (memory_store NewMemoryStore))) (get_trades ''guess'') = serve not_found (api_Run (with_store s st)) (get_trades ''guess'')"
    unfolding Let_def by (rule conjunct1)
qed

text \<open>
  With the key, the list of trades over the in-memory store is exactly the wanted trades in store order, cut at the
  limit of the query, and no query gets more than a thousand of them.
\<close>

theorem api_trades_exact:
  assumes "NewServer cfg = Ok s" "rq_Method rq = ''GET''" "rq_Path rq = [''api'', ''trades'']" "presented_key rq = sc_APIKey cfg"
  shows "rs_Status (serve unmatched (with_store s (memory_store m)) rq) = 200 \<and>
         rs_Body (serve unmatched (with_store s (memory_store m)) rq) = TradesBody (wrapList (take (trades_limit rq) (filter (trades_wanted rq) (ms_Trades m)))) \<and>
         trades_limit rq \<le> 1000"
proof -
  have key: "sc_APIKey (sv_cfg s) = sc_APIKey cfg" using assms(1) by (auto simp: NewServer_def split: option.splits if_splits)
  have r: "routes (with_store s (memory_store m)) rq =
      Some (True, reply 200 (TradesBody (wrapList (take (trades_limit rq) (filter (trades_wanted rq) (ms_Trades m))))))"
    using assms(2,3) mem_trades [of m rq] by (simp add: routes_def h_listTrades_def respond_def)
  show ?thesis using trades_limit_le [of rq]
    by (simp add: serve_def r authMiddleware_def key assms(2,4) corsMiddleware_def Let_def reply_def)
qed

lemma api_trades_exact_witness:
  "rs_Body (serve not_found (with_store (case NewServer sample_api of Inr s \<Rightarrow> s) (memory_store NewMemoryStore)) (get_trades ''secret'')) =
   TradesBody (wrapList [])"
  using api_trades_exact [OF sample_api_builds, of "get_trades ''secret''" not_found NewMemoryStore]
  by (simp add: get_trades_def presented_key_def GetHeader_def sample_api_def NewMemoryStore_def Let_def)

end
