(* ===== verification/ApiQueries.thy ===== *)
theory ApiQueries
  imports Api Queries EpochStore JsonText "HOL-Library.AList"
begin

text \<open>
  \<^verbatim>\<open>internal/api/postgres_store.go\<close>: the queries behind the dashboard, on the tables of \<open>Tables\<close>.

  The statements read columns and tables that no statement of the program writes; they are fields of \<open>dash_db\<close>, and
  \<open>unwritten\<close> is the database in which they hold what the migrations give them.  The identifiers and creation times of
  rows are those of the environment.  Rows come in the order of the statement; where ties are left open, in the order
  given by the environment.  \<^verbatim>\<open>SUM\<close> is exact on \<^verbatim>\<open>NUMERIC\<close> and rounded when it is scanned into a float; amounts are
  finite.
\<close>

section \<open>Tables no statement writes\<close>

record lineage_row =
  lg_child :: string
  lg_parent :: string
  lg_second_parent :: "string option"
  lg_method :: string
  lg_mutations :: string
  lg_reasoning :: "string option"

record intel_row =
  il_agent :: string
  il_channel :: string
  il_signal_type :: string
  il_sentiment :: "string option"
  il_data :: string
  il_confidence :: "f64 option"
  il_accuracy :: "f64 option"
  il_expires_at :: "time option"

record backtest_row =
  bt_chain :: string
  bt_token_pair :: string
  bt_period_start :: time
  bt_period_end :: time
  bt_initial :: f64
  bt_final :: f64
  bt_total_pnl :: f64
  bt_max_drawdown :: f64
  bt_total_trades :: int
  bt_win_rate :: "f64 option"
  bt_sharpe :: "f64 option"
  bt_equity_curve :: string

record epoch_extra =
  ex_funded :: int
  ex_shadow :: int
  ex_llm_cost :: f64
  ex_monthly_spend :: f64
  ex_diversity :: "f64 option"
  ex_regime :: "string option"
  ex_reasoning :: "string option"

record proposal_extra =
  px_epoch :: "string option"
  px_rationale :: string
  px_child :: "string option"

record dash_db =
  dd_db :: db
  dd_lineage :: "lineage_row list"
  dd_intel :: "intel_row list"
  dd_backtests :: "backtest_row list"
  dd_epoch :: "string \<Rightarrow> epoch_extra"
  dd_proposal :: "string \<Rightarrow> proposal_extra"
  dd_parent :: "string \<Rightarrow> string option"
  dd_health :: "string \<Rightarrow> string"

definition epoch_defaults :: epoch_extra where
  "epoch_defaults = \<lparr>ex_funded = 0, ex_shadow = 0, ex_llm_cost = Fin 0, ex_monthly_spend = Fin 0, ex_diversity = None, ex_regime = None, ex_reasoning = None\<rparr>"

definition unwritten :: "(string \<Rightarrow> proposal_extra) \<Rightarrow> db \<Rightarrow> dash_db" where
  "unwritten prop d = \<lparr>dd_db = d, dd_lineage = [], dd_intel = [], dd_backtests = [], dd_epoch = (\<lambda>_. epoch_defaults), dd_proposal = prop,
     dd_parent = (\<lambda>_. None), dd_health = (\<lambda>_. ''healthy'')\<rparr>"

record api_env =
  ae_pg :: postgres
  ae_now :: time
  ae_is_uuid :: "string \<Rightarrow> bool"
  ae_id :: "string \<Rightarrow> nat \<Rightarrow> string"
  ae_at :: "string \<Rightarrow> nat \<Rightarrow> time"
  ae_ties :: "nat list \<Rightarrow> nat list"

section \<open>Statements\<close>

text \<open>A query with a row loop: the statement, the scan of a row and the end of the result can fail.\<close>

definition fetch :: "postgres \<Rightarrow> string \<Rightarrow> string \<Rightarrow> string \<Rightarrow> 'a \<Rightarrow> 'a result" where
  "fetch pg stmt msg scan_msg v =
     (case pg_fault pg stmt of
        Some e \<Rightarrow> Inl (Wrap msg e)
      | None \<Rightarrow> (case pg_fault pg (''scan '' @ stmt) of
          Some e \<Rightarrow> Inl (Wrap scan_msg e)
        | None \<Rightarrow> (case pg_fault pg (''rows '' @ stmt) of Some e \<Rightarrow> Inl e | None \<Rightarrow> Ok v)))"

definition fetch_row :: "postgres \<Rightarrow> string \<Rightarrow> string \<Rightarrow> 'a \<Rightarrow> 'a result" where
  "fetch_row pg stmt msg v = (case pg_fault pg stmt of Some e \<Rightarrow> Inl (Wrap msg e) | None \<Rightarrow> Ok v)"

definition numbered :: "'a list \<Rightarrow> (nat \<times> 'a) list" where "numbered xs = zip [0..<length xs] xs"

text \<open>\<^verbatim>\<open>ORDER BY\<close> with a key, ties in the order of the environment.\<close>

definition order_by :: "(nat list \<Rightarrow> nat list) \<Rightarrow> ('a \<Rightarrow> 'a \<Rightarrow> bool) \<Rightarrow> 'a list \<Rightarrow> 'a list" where
  "order_by ties before xs = map (\<lambda>i. xs ! i) (stable_sort (\<lambda>i j. before (xs ! i) (xs ! j)) (ties [0..<length xs]))"

definition sql_sum :: "f64 list \<Rightarrow> f64" where "sql_sum xs = rnd (sum_list (map fval xs))"

text \<open>\<^verbatim>\<open>AVG(column)::int\<close>: the exact mean, rounded half away from zero.\<close>

definition sql_avg_int :: "int list \<Rightarrow> int" where
  "sql_avg_int xs = (if xs = [] then 0 else
     let m = (of_int (sum_list xs) :: rat) / of_nat (length xs) in if 0 \<le> m then floor (m + 1 / 2) else - floor (- m + 1 / 2))"

definition cost_of_ledger :: "ledger_row \<Rightarrow> f64 list" where
  "cost_of_ledger r = [l_LLMCost (lr_ledger r), l_InfraRent (lr_ledger r), l_RPCCost (lr_ledger r)]"

definition agent_summary :: "api_env \<Rightarrow> dash_db \<Rightarrow> nat \<times> agent_row \<Rightarrow> AgentSummary" where
  "agent_summary env d x = (case x of (i, r) \<Rightarrow>
     \<lparr>as_ID = ar_id r, as_Name = ar_name r, as_Chain = ar_chain r, as_TaskType = ar_task_type r, as_NodeClass = ar_node_class r, as_Status = ar_status r,
      as_HealthState = dd_health d (ar_id r), as_Generation = ar_generation r, as_LineageDepth = ar_lineage_depth r,
      as_CapitalUSD = coalesce (ar_capital_allocated r) (Fin 0), as_CurrentUSD = coalesce (ar_current_balance r) (Fin 0),
      as_TotalPnLUSD = coalesce (ar_total_pnl r) (Fin 0), as_TotalTrades = coalesce (ar_total_trades r) 0,
      as_StrategyModel = ar_strategist_model r, as_CreatedAt = ae_at env ''agents'' i\<rparr>)"

definition pq_ListAgents :: "api_env \<Rightarrow> dash_db \<Rightarrow> ListAgentsOpts \<Rightarrow> AgentSummary list result" where
  "pq_ListAgents env d opts =
     fetch (ae_pg env) ''api agents'' ''api: list agents'' ''api: scan agent''
       (take 500 (order_by (ae_ties env) (\<lambda>a b. flt (as_TotalPnLUSD b) (as_TotalPnLUSD a))
          (filter (\<lambda>a. wants (oa_Chain opts) (as_Chain a) \<and> wants (oa_NodeClass opts) (as_NodeClass a) \<and>
                       wants (oa_Status opts) (as_Status a) \<and> wants (oa_TaskType opts) (as_TaskType a))
             (map (agent_summary env d) (numbered (t_agents (dd_db d)))))))"

definition trade_of_row :: "api_env \<Rightarrow> agent_row \<Rightarrow> nat \<times> trade_row \<Rightarrow> TradeRow" where
  "trade_of_row env a x = (case x of (i, t) \<Rightarrow>
     \<lparr>rt_ID = ae_id env ''trades'' i, rt_AgentID = tr_agent t, rt_AgentName = ar_name a, rt_EpochID = coalesce (tr_epoch t) [], rt_Chain = tr_chain t,
      rt_TradeType = tr_type t, rt_TokenPair = tr_token_pair t, rt_DEX = tr_dex t, rt_AmountIn = tr_amount_in t, rt_AmountOut = tr_amount_out t,
      rt_FeePaidUSD = tr_fee_paid t, rt_PnLUSD = tr_pnl t, rt_TxSignature = coalesce (tr_tx_signature t) [], rt_IsPaperTrade = tr_is_paper t,
      rt_ExecutedAt = ae_at env ''trades'' i\<rparr>)"

definition pq_ListTrades :: "api_env \<Rightarrow> dash_db \<Rightarrow> ListTradesOpts \<Rightarrow> TradeRow list result" where
  "pq_ListTrades env d opts =
     fetch (ae_pg env) ''api trades'' ''api: list trades'' ''api: scan trade''
       (take (nat (if ot_Limit opts \<le> 0 then 100 else ot_Limit opts)) (rev
          (filter (\<lambda>t. wants (ot_AgentID opts) (rt_AgentID t) \<and> wants (ot_Chain opts) (rt_Chain t))
             (concat (map (\<lambda>x. map (\<lambda>a. trade_of_row env a x) (filter (\<lambda>a. ar_id a = tr_agent (snd x)) (t_agents (dd_db d))))
                (numbered (t_trades (dd_db d))))))))"

text \<open>
  \<^verbatim>\<open>json.Unmarshal\<close> of a column into a map, a list of strings and a list: another value leaves them nil, and an element
  that is no string leaves the empty string; the error is dropped.
\<close>

definition column_object :: "string \<Rightarrow> (string \<times> json) list" where
  "column_object raw = (case decode_json raw of Some (JsObj ms) \<Rightarrow> if json_valid raw then fold (\<lambda>(k, v) m. AList.update k v m) ms [] else [] | _ \<Rightarrow> [])"

definition column_list :: "string \<Rightarrow> json list" where
  "column_list raw = (case decode_json raw of Some (JsArr js) \<Rightarrow> if json_valid raw then js else [] | _ \<Rightarrow> [])"

definition column_strings :: "string \<Rightarrow> string list" where
  "column_strings raw = map (\<lambda>j. case j of JsStr s \<Rightarrow> s | _ \<Rightarrow> []) (column_list raw)"

definition pq_GetAgent :: "api_env \<Rightarrow> dash_db \<Rightarrow> string \<Rightarrow> AgentDetail result" where
  "pq_GetAgent env d i =
     (case pg_fault (ae_pg env) ''api agent'' of
        Some e \<Rightarrow> Inl (Wrap ''api: get agent'' e)
      | None \<Rightarrow>
          if \<not> ae_is_uuid env i then Inl (Wrap ''api: get agent'' (Err ''invalid input syntax for type uuid''))
          else case find (\<lambda>x. ar_id (snd x) = i) (numbered (t_agents (dd_db d))) of
            None \<Rightarrow> Inl ErrNotFound
          | Some x \<Rightarrow> Ok
              \<lparr>ad_Summary = agent_summary env d x, ad_ParentID = coalesce (dd_parent d i) [], ad_StrategistPrompt = ar_strategist_prompt (snd x),
               ad_StrategyConfig = column_object (ar_strategy_config (snd x)), ad_BanditPolicies = column_strings (ar_bandit_policies (snd x)),
               ad_LearnedRules = column_list (ar_learned_rules (snd x)),
               ad_RecentTrades = (case pq_ListTrades env d \<lparr>ot_AgentID = i, ot_Chain = [], ot_Limit = 25\<rparr> of Inl _ \<Rightarrow> [] | Inr ts \<Rightarrow> ts)\<rparr>)"

definition epochs_desc :: "dash_db \<Rightarrow> epoch_row list" where
  "epochs_desc d = stable_sort (\<lambda>a b. ep_number b < ep_number a) (t_epochs (dd_db d))"

definition epoch_of_row :: "dash_db \<Rightarrow> epoch_row \<Rightarrow> EpochRow" where
  "epoch_of_row d e = (let x = dd_epoch d (ep_id e) in
     \<lparr>ew_ID = ep_id e, ew_EpochNumber = ep_number e, ew_StartedAt = ep_started_at e, ew_EndedAt = ep_ended_at e, ew_TotalAgents = ep_total_agents e,
      ew_FundedAgents = ex_funded x, ew_ShadowAgents = ex_shadow x, ew_AgentsSpawned = ep_spawned e, ew_AgentsKilled = ep_killed e,
      ew_AgentsPromoted = ep_promoted e, ew_TreasuryBalanceUSD = ep_treasury_balance e, ew_TotalPnLUSD = ep_total_pnl e,
      ew_TotalLLMCostUSD = ex_llm_cost x, ew_MonthlySpendUSD = ex_monthly_spend x, ew_SwarmDiversityScore = coalesce (ex_diversity x) (Fin 0),
      ew_MarketRegime = coalesce (ex_regime x) [], ew_ParentReasoning = coalesce (ex_reasoning x) [], ew_CircuitBreakerFired = ep_breaker e\<rparr>)"

definition or_default :: "int \<Rightarrow> int \<Rightarrow> nat" where
  "or_default limit n = nat (if limit \<le> 0 then n else limit)"

definition pq_ListEpochs :: "api_env \<Rightarrow> dash_db \<Rightarrow> int \<Rightarrow> EpochRow list result" where
  "pq_ListEpochs env d limit =
     fetch (ae_pg env) ''api epochs'' ''api: list epochs'' ''api: scan epoch''
       (map (epoch_of_row d) (take (or_default limit 50) (epochs_desc d)))"

definition lineage_node :: "dash_db \<Rightarrow> agent_row \<Rightarrow> lineage_row option \<Rightarrow> LineageNode" where
  "lineage_node d a l = (let parent = coalesce (dd_parent d (ar_id a)) []; second = (case l of None \<Rightarrow> [] | Some r \<Rightarrow> coalesce (lg_second_parent r) []) in
     \<lparr>ln_AgentID = ar_id a, ln_Name = ar_name a, ln_NodeClass = ar_node_class a, ln_Status = ar_status a, ln_Generation = ar_generation a,
      ln_ParentIDs = filter (\<lambda>s. s \<noteq> []) [parent, second], ln_TotalPnLUSD = coalesce (ar_total_pnl a) (Fin 0),
      ln_EvolutionType = (case l of None \<Rightarrow> [] | Some r \<Rightarrow> lg_method r)\<rparr>)"

definition pq_GetLineage :: "api_env \<Rightarrow> dash_db \<Rightarrow> LineageNode list result" where
  "pq_GetLineage env d =
     fetch (ae_pg env) ''api lineage'' ''api: get lineage'' ''api: scan lineage''
       (map (\<lambda>a. lineage_node d a (find (\<lambda>l. lg_child l = ar_id a) (dd_lineage d)))
          (stable_sort (\<lambda>a b. ar_generation a < ar_generation b) (t_agents (dd_db d))))"

definition active_rows :: "dash_db \<Rightarrow> agent_row list" where
  "active_rows d = filter (\<lambda>a. ar_status a = ''active'') (t_agents (dd_db d))"

definition balance_sum :: "agent_row list \<Rightarrow> f64" where
  "balance_sum rs = sql_sum (map (\<lambda>a. coalesce (ar_current_balance a) (Fin 0)) rs)"

definition unwrapped :: "postgres \<Rightarrow> string \<Rightarrow> unit result" where
  "unwrapped pg stmt = (case pg_fault pg stmt of Some e \<Rightarrow> Inl e | None \<Rightarrow> Ok ())"

definition pq_GetTreasury :: "api_env \<Rightarrow> dash_db \<Rightarrow> TreasuryState result" where
  "pq_GetTreasury env d =
     bindr (fetch_row (ae_pg env) ''api treasury'' ''api: treasury'' ()) (\<lambda>_.
     bindr (fetch_row (ae_pg env) ''api treasury chains'' ''api: treasury per chain'' ()) (\<lambda>_.
     bindr (unwrapped (ae_pg env) ''scan api treasury chains'') (\<lambda>_.
     bindr (unwrapped (ae_pg env) ''rows api treasury chains'') (\<lambda>_. Ok
       \<lparr>ts_ReserveUSD = balance_sum (filter (\<lambda>a. ar_name a \<in> {''root_treasury_solana'', ''root_treasury_base''}) (active_rows d)),
        ts_TotalCapitalAllocatedUSD = sql_sum (map (\<lambda>a. coalesce (ar_capital_allocated a) (Fin 0)) (active_rows d)),
        ts_MonthlySpendUSD = Fin 0, ts_MonthlyBudgetUSD = Fin 0, ts_UsedPct = Fin 0,
        ts_PerChain = map (\<lambda>c. (c, balance_sum (filter (\<lambda>a. ar_chain a = c) (active_rows d)))) (remdups (map ar_chain (active_rows d))),
        ts_UpdatedAt = ae_now env\<rparr>))))"

text \<open>Columns of a postmortem that its statement does not write: the lessons stay the empty list.\<close>

definition category_text :: "LessonCategory \<Rightarrow> string" where
  "category_text c = (case c of LessonStrategyDrift \<Rightarrow> ''strategy_drift'' | LessonRegimeMismatch \<Rightarrow> ''regime_mismatch'' | LessonCostBreach \<Rightarrow> ''cost_breach''
     | LessonUnrecoverableLoss \<Rightarrow> ''unrecoverable_loss'' | LessonUnknown \<Rightarrow> ''unknown'')"

definition postmortem_of_row :: "api_env \<Rightarrow> nat \<times> postmortem_row \<Rightarrow> PostmortemRow" where
  "postmortem_of_row env x = (case x of (i, p) \<Rightarrow>
     \<lparr>pw_ID = ae_id env ''postmortems'' i, pw_AgentID = pmr_agent p, pw_AgentName = pmr_name p, pw_LifespanEpochs = pmr_lifespan_epochs p,
      pw_TotalTrades = pmr_total_trades p, pw_TotalPnLUSD = pmr_total_pnl p, pw_TotalLLMCostUSD = pmr_llm_cost p,
      pw_FailureCategory = category_text (pmr_failure_category p), pw_LessonsSummary = pmr_lessons_summary p, pw_Lessons = [],
      pw_CreatedAt = ae_at env ''postmortems'' i\<rparr>)"

definition pq_ListPostmortems :: "api_env \<Rightarrow> dash_db \<Rightarrow> int \<Rightarrow> PostmortemRow list result" where
  "pq_ListPostmortems env d limit =
     fetch (ae_pg env) ''api postmortems'' ''api: list postmortems'' ''api: scan postmortem''
       (map (postmortem_of_row env) (take (or_default limit 50) (rev (numbered (t_postmortems (dd_db d))))))"

definition verdict_text :: "verdict \<Rightarrow> string" where
  "verdict_text v = (case v of VerdictApprove \<Rightarrow> ''approve'' | VerdictReject \<Rightarrow> ''reject'' | VerdictRevise \<Rightarrow> ''revise'')"

definition offspring_of_row :: "api_env \<Rightarrow> dash_db \<Rightarrow> nat \<times> proposal_row \<Rightarrow> OffspringRow" where
  "offspring_of_row env d x = (case x of (i, p) \<Rightarrow> let e = dd_proposal d (pr_id p) in
     \<lparr>ow_ID = pr_id p, ow_ProposingAgentID = pr_proposing_agent p, ow_EpochID = coalesce (px_epoch e) [], ow_RequestedSeedUSD = pr_seed_capital p,
      ow_RequestedReserveUSD = pr_api_reserve p, ow_Rationale = px_rationale e, ow_QualityVerdict = (case pr_quality_verdict p of None \<Rightarrow> [] | Some v \<Rightarrow> verdict_text v),
      ow_BullCase = coalesce (pr_bull_case p) [], ow_BearCase = coalesce (pr_bear_case p) [], ow_AdversarialSynthesis = coalesce (pr_synthesis p) [],
      ow_Status = pr_status p, ow_RejectionReason = coalesce (pr_rejection_reason p) [], ow_CreatedChildID = coalesce (px_child e) [],
      ow_CreatedAt = ae_at env ''offspring_proposals'' i\<rparr>)"

definition pq_ListOffspring :: "api_env \<Rightarrow> dash_db \<Rightarrow> string \<Rightarrow> OffspringRow list result" where
  "pq_ListOffspring env d status =
     fetch (ae_pg env) ''api offspring'' ''api: list offspring'' ''api: scan offspring''
       (take 200 (rev (map (offspring_of_row env d) (filter (\<lambda>x. wants status (pr_status (snd x))) (numbered (t_proposals (dd_db d)))))))"

definition agent_spend :: "dash_db \<Rightarrow> agent_row \<Rightarrow> AgentSpend" where
  "agent_spend d a = \<lparr>sp_AgentID = ar_id a, sp_Name = ar_name a,
     sp_SpentUSD = sql_sum (concat (map cost_of_ledger (filter (\<lambda>r. l_AgentID (lr_ledger r) = ar_id a) (t_ledgers (dd_db d)))))\<rparr>"

definition category_sum :: "dash_db \<Rightarrow> (Ledger \<Rightarrow> f64) \<Rightarrow> f64" where
  "category_sum d col = sql_sum (map (\<lambda>r. col (lr_ledger r)) (t_ledgers (dd_db d)))"

definition monthly_default :: f64 where "monthly_default = Fin 500"

definition pq_GetBudget :: "api_env \<Rightarrow> dash_db \<Rightarrow> ApiBudget result" where
  "pq_GetBudget env d =
     (case pg_fault (ae_pg env) ''api budget'' of
        Some e \<Rightarrow> Inl (Wrap ''api: budget'' e)
      | None \<Rightarrow> (case epochs_desc d of
          [] \<Rightarrow> Ok \<lparr>ab_MonthStart = ae_now env, ab_MonthlyBudgetUSD = Fin 0, ab_SpentUSD = Fin 0, ab_RemainingUSD = Fin 0, ab_UsedPct = Fin 0,
                   ab_PerCategory = [], ab_PerAgent = []\<rparr>
        | e # _ \<Rightarrow>
            let spent = ex_monthly_spend (dd_epoch d (ep_id e)) in
            Ok \<lparr>ab_MonthStart = ep_started_at e, ab_MonthlyBudgetUSD = monthly_default, ab_SpentUSD = spent,
                ab_RemainingUSD = fsub monthly_default spent, ab_UsedPct = fdiv spent monthly_default,
                ab_PerCategory = (if pg_fault (ae_pg env) ''api budget categories'' \<noteq> None then [] else
                  [(''llm'', category_sum d l_LLMCost), (''infra'', category_sum d l_InfraRent), (''rpc'', category_sum d l_RPCCost)]),
                ab_PerAgent = (if pg_fault (ae_pg env) ''api budget agents'' \<noteq> None then [] else
                  take 20 (order_by (ae_ties env) (\<lambda>x y. flt (sp_SpentUSD y) (sp_SpentUSD x)) (map (agent_spend d) (t_agents (dd_db d)))))\<rparr>))"

definition pq_GetCircuitBreaker :: "api_env \<Rightarrow> dash_db \<Rightarrow> CircuitBreakerState result" where
  "pq_GetCircuitBreaker env d =
     (case pg_fault (ae_pg env) ''api breaker'' of
        Some e \<Rightarrow> Inl (Wrap ''api: circuit breaker'' e)
      | None \<Rightarrow> Ok (case epochs_desc d of
          [] \<Rightarrow> \<lparr>cs_Tripped = False, cs_Reason = [], cs_TrippedAt = zero_time, cs_State = ''untracked'', cs_ResetAfter = zero_time\<rparr>
        | e # _ \<Rightarrow> if ep_breaker e
            then \<lparr>cs_Tripped = True, cs_Reason = coalesce (ex_regime (dd_epoch d (ep_id e))) [], cs_TrippedAt = ep_ended_at e, cs_State = ''tripped'', cs_ResetAfter = zero_time\<rparr>
            else \<lparr>cs_Tripped = False, cs_Reason = [], cs_TrippedAt = zero_time, cs_State = ''armed'', cs_ResetAfter = zero_time\<rparr>))"

text \<open>A curve column decodes to its numbers; \<open>number\<close> is what \<^verbatim>\<open>json.Unmarshal\<close> makes of the text of a number.\<close>

definition backtest_of_row :: "(string \<Rightarrow> f64) \<Rightarrow> api_env \<Rightarrow> nat \<times> backtest_row \<Rightarrow> BacktestRow" where
  "backtest_of_row number env x = (case x of (i, b) \<Rightarrow>
     \<lparr>bw_ID = ae_id env ''backtest_results'' i, bw_Chain = bt_chain b, bw_TokenPair = bt_token_pair b, bw_PeriodStart = bt_period_start b,
      bw_PeriodEnd = bt_period_end b, bw_InitialCapital = bt_initial b, bw_FinalCapital = bt_final b, bw_TotalPnLUSD = bt_total_pnl b,
      bw_MaxDrawdownPct = bt_max_drawdown b, bw_TotalTrades = bt_total_trades b, bw_WinRate = coalesce (bt_win_rate b) (Fin 0),
      bw_Sharpe = coalesce (bt_sharpe b) (Fin 0),
      bw_EquityCurve = map (\<lambda>j. case j of JsNum t \<Rightarrow> number t | _ \<Rightarrow> Fin 0) (column_list (bt_equity_curve b)), bw_CreatedAt = ae_at env ''backtest_results'' i\<rparr>)"

definition pq_ListBacktests :: "(string \<Rightarrow> f64) \<Rightarrow> api_env \<Rightarrow> dash_db \<Rightarrow> int \<Rightarrow> BacktestRow list result" where
  "pq_ListBacktests number env d limit =
     fetch (ae_pg env) ''api backtests'' ''api: list backtests'' ''api: scan backtest''
       (map (backtest_of_row number env) (take (or_default limit 50) (rev (numbered (dd_backtests d)))))"

definition name_of_agent :: "dash_db \<Rightarrow> string \<Rightarrow> string" where
  "name_of_agent d i = (case find (\<lambda>a. ar_id a = i) (t_agents (dd_db d)) of None \<Rightarrow> [] | Some a \<Rightarrow> ar_name a)"

definition intel_of_row :: "api_env \<Rightarrow> dash_db \<Rightarrow> nat \<times> intel_row \<Rightarrow> IntelRow" where
  "intel_of_row env d x = (case x of (i, r) \<Rightarrow>
     \<lparr>iw_ID = ae_id env ''intel_log'' i, iw_SourceAgentID = il_agent r, iw_SourceAgentName = name_of_agent d (il_agent r), iw_Channel = il_channel r,
      iw_SignalType = il_signal_type r, iw_Sentiment = coalesce (il_sentiment r) [], iw_Confidence = coalesce (il_confidence r) (Fin 0),
      iw_SourceAccuracy = coalesce (il_accuracy r) (Fin 0), iw_Data = column_object (il_data r), iw_CreatedAt = ae_at env ''intel_log'' i,
      iw_ExpiresAt = coalesce (il_expires_at r) zero_time\<rparr>)"

definition pq_ListIntel :: "api_env \<Rightarrow> dash_db \<Rightarrow> ListIntelOpts \<Rightarrow> IntelRow list result" where
  "pq_ListIntel env d opts =
     fetch (ae_pg env) ''api intel'' ''api: list intel'' ''api: scan intel''
       (take (or_default (oi_Limit opts) 100) (rev (filter (\<lambda>r. wants (oi_Channel opts) (iw_Channel r) \<and> wants (oi_Sentiment opts) (iw_Sentiment r))
          (map (intel_of_row env d) (numbered (dd_intel d))))))"

text \<open>The decisions made with a model, joined with the agents that made them.\<close>

definition decisions_of :: "dash_db \<Rightarrow> string \<Rightarrow> decision_row list" where
  "decisions_of d m = filter (\<lambda>r. dr_model_used r = m) (t_decisions (dd_db d))"

definition pnl_of_agent :: "dash_db \<Rightarrow> string \<Rightarrow> f64" where
  "pnl_of_agent d i = (case find (\<lambda>a. ar_id a = i) (t_agents (dd_db d)) of None \<Rightarrow> Fin 0 | Some a \<Rightarrow> coalesce (ar_total_pnl a) (Fin 0))"

definition model_row :: "dash_db \<Rightarrow> string \<Rightarrow> ModelPerformance" where
  "model_row d m =
     (let rs = decisions_of d m; cost = sql_sum (map dr_cost_usd rs); pnl = sql_sum (map (\<lambda>r. pnl_of_agent d (dr_agent r)) rs) in
      \<lparr>mp_Model = m, mp_UsedByAgents = int (length (remdups (map dr_agent rs))), mp_Decisions = int (length rs), mp_TotalCostUSD = cost, mp_PnLUSD = pnl,
       mp_PnLPerDollar = (if flt (Fin 0) cost then fdiv pnl cost else Fin 0),
       mp_AvgInputTokens = sql_avg_int (map dr_input_tokens rs), mp_AvgOutputTokens = sql_avg_int (map dr_output_tokens rs)\<rparr>)"

definition pq_ListModels :: "api_env \<Rightarrow> dash_db \<Rightarrow> ModelPerformance list result" where
  "pq_ListModels env d =
     fetch (ae_pg env) ''api models'' ''api: list models'' ''api: scan model''
       (order_by (ae_ties env) (\<lambda>x y. flt (mp_TotalCostUSD y) (mp_TotalCostUSD x))
          (map (model_row d) (remdups (map dr_model_used (t_decisions (dd_db d))))))"

definition evolution_of_row :: "api_env \<Rightarrow> dash_db \<Rightarrow> nat \<times> lineage_row \<Rightarrow> EvolutionEvent" where
  "evolution_of_row env d x = (case x of (i, l) \<Rightarrow>
     \<lparr>ee_ChildID = lg_child l, ee_ChildName = name_of_agent d (lg_child l), ee_ParentID = lg_parent l, ee_ParentName = name_of_agent d (lg_parent l),
      ee_SecondParentID = coalesce (lg_second_parent l) [], ee_EvolutionMethod = lg_method l, ee_Mutations = column_strings (lg_mutations l),
      ee_SpawnReasoning = coalesce (lg_reasoning l) [], ee_CreatedAt = ae_at env ''lineage'' i\<rparr>)"

definition pq_ListEvolution :: "api_env \<Rightarrow> dash_db \<Rightarrow> int \<Rightarrow> EvolutionEvent list result" where
  "pq_ListEvolution env d limit =
     fetch (ae_pg env) ''api evolution'' ''api: list evolution'' ''api: scan evolution''
       (map (evolution_of_row env d) (take (or_default limit 100) (rev (numbered (dd_lineage d)))))"

definition open_statuses :: "string list" where "open_statuses = [''pending'', ''quality_check'', ''adversarial_review'']"

text \<open>
  The snapshot: the first statement and the treasury must succeed, the others are left out when they fail.  The loop
  that swaps the ends of the curve reverses it.
\<close>

fun swap_ends :: "nat \<Rightarrow> nat \<Rightarrow> 'a list \<Rightarrow> 'a list" where
  "swap_ends i j xs = (if i < j then swap_ends (Suc i) (j - 1) (xs[i := xs ! j, j := xs ! i]) else xs)"

declare swap_ends.simps [simp del]

definition equity_points :: "dash_db \<Rightarrow> EquitySample list" where
  "equity_points d = map (\<lambda>e. \<lparr>eq_At = ep_ended_at e, eq_EquityUSD = ep_treasury_balance e\<rparr>) (take 50 (epochs_desc d))"

definition pq_GetDashboardSnapshot :: "api_env \<Rightarrow> dash_db \<Rightarrow> DashboardSnapshot result" where
  "pq_GetDashboardSnapshot env d =
     bindr (fetch_row (ae_pg env) ''api snapshot'' ''api: snapshot agents'' ()) (\<lambda>_.
     bindr (pq_GetTreasury env d) (\<lambda>ts. Ok
       \<lparr>ds_TotalAgents = int (length (active_rows d)),
        ds_FundedAgents = int (length (filter (\<lambda>a. ar_node_class a = ''funded'') (active_rows d))),
        ds_ShadowAgents = int (length (filter (\<lambda>a. ar_node_class a = ''shadow'') (active_rows d))),
        ds_Treasury = ts,
        ds_MonthlySpendUSD = (case pq_GetBudget env d of Inl _ \<Rightarrow> Fin 0 | Inr b \<Rightarrow> ab_SpentUSD b),
        ds_MonthlyBudgetUSD = (case pq_GetBudget env d of Inl _ \<Rightarrow> Fin 0 | Inr b \<Rightarrow> ab_MonthlyBudgetUSD b),
        ds_EquityCurve = (if pg_fault (ae_pg env) ''api equity'' \<noteq> None then [] else swap_ends 0 (length (equity_points d) - 1) (equity_points d)),
        ds_RecentEpoch = (case pq_ListEpochs env d 1 of Inr (e # _) \<Rightarrow> Some e | _ \<Rightarrow> None),
        ds_OpenProposals = (if pg_fault (ae_pg env) ''api open'' \<noteq> None then 0 else
          int (length (filter (\<lambda>p. pr_status p \<in> set open_statuses) (t_proposals (dd_db d))))),
        ds_UpdatedAt = ae_now env\<rparr>))"

definition postgres_store :: "(string \<Rightarrow> f64) \<Rightarrow> api_env \<Rightarrow> dash_db \<Rightarrow> Store" where
  "postgres_store number env d =
     \<lparr>st_ListAgents = pq_ListAgents env d, st_GetAgent = pq_GetAgent env d, st_ListTrades = pq_ListTrades env d, st_ListEpochs = pq_ListEpochs env d,
      st_GetLineage = pq_GetLineage env d, st_GetTreasury = pq_GetTreasury env d, st_ListPostmortems = pq_ListPostmortems env d,
      st_ListOffspring = pq_ListOffspring env d, st_GetBudget = pq_GetBudget env d, st_GetCircuitBreaker = pq_GetCircuitBreaker env d,
      st_ListBacktests = pq_ListBacktests number env d, st_ListIntel = pq_ListIntel env d, st_ListModels = pq_ListModels env d,
      st_ListEvolution = pq_ListEvolution env d, st_GetDashboardSnapshot = pq_GetDashboardSnapshot env d\<rparr>"

section \<open>What the pages show\<close>

lemma set_order_by [simp]: "rearranges ties \<Longrightarrow> set (order_by ties lt xs) = set xs"
proof -
  assume "rearranges ties"
  then have "set (stable_sort (\<lambda>i j. lt (xs ! i) (xs ! j)) (ties [0..<length xs])) = {0..<length xs}" by simp
  then show ?thesis by (auto simp: order_by_def in_set_conv_nth)
qed

lemma mset_order_by [simp]: "rearranges ties \<Longrightarrow> mset (order_by ties lt xs) = mset xs"
proof -
  assume "rearranges ties"
  then have "mset (order_by ties lt xs) = mset (map ((!) xs) [0..<length xs])"
    by (simp only: order_by_def mset_map mset_stable_sort rearranges_mset)
  then show ?thesis by (simp only: map_nth)
qed

lemma swap_ends_nth:
  assumes "j < length xs"
  shows "length (swap_ends i j xs) = length xs \<and>
    (\<forall>k < length xs. swap_ends i j xs ! k = (if i \<le> k \<and> k \<le> j then xs ! (i + j - k) else xs ! k))"
  using assms
proof (induction i j xs rule: swap_ends.induct)
  case (1 i j xs)
  show ?case
  proof (cases "i < j")
    case True
    with 1 have IH: "length (swap_ends (Suc i) (j - 1) (xs[i := xs ! j, j := xs ! i])) = length xs"
      "\<forall>k < length xs. swap_ends (Suc i) (j - 1) (xs[i := xs ! j, j := xs ! i]) ! k =
        (if Suc i \<le> k \<and> k \<le> j - 1 then xs[i := xs ! j, j := xs ! i] ! (Suc i + (j - 1) - k) else xs[i := xs ! j, j := xs ! i] ! k)"
      by simp_all
    have "swap_ends i j xs ! k = (if i \<le> k \<and> k \<le> j then xs ! (i + j - k) else xs ! k)" if "k < length xs" for k
    proof -
      consider "k = i" | "k = j" | "Suc i \<le> k" "k \<le> j - 1" | "k < i" | "j < k" by linarith
      then show ?thesis
        using True 1(2) that IH(2)
        by cases (auto simp: swap_ends.simps [of i j xs] nth_list_update intro!: arg_cong [of _ _ "(!) xs"])
    qed
    with True IH(1) show ?thesis by (simp add: swap_ends.simps [of i j xs])
  next
    case False
    then show ?thesis by (auto simp: swap_ends.simps [of i j xs] intro!: arg_cong [of _ _ "(!) xs"])
  qed
qed

lemma swap_ends_rev: "swap_ends 0 (length xs - 1) xs = rev xs"
proof (cases "xs = []")
  case True
  then show ?thesis by (simp add: swap_ends.simps)
next
  case False
  then have "length xs - 1 < length xs" by simp
  from swap_ends_nth [OF this, of 0] show ?thesis
    by (intro nth_equalityI) (auto simp: rev_nth Suc_le_eq)
qed

interpretation latest: weak_order "\<lambda>a b. ep_number b < ep_number a" "\<lambda>_. True"
  by unfold_locales auto

lemma epochs_desc_sorted: "sorted_wrt (\<lambda>a b. ep_number b \<le> ep_number a) (epochs_desc d)"
  using latest.stable_sort_sorted [of "t_epochs (dd_db d)"] by (simp add: epochs_desc_def not_less)

text \<open>The curve of the snapshot shows the treasury at the end of the fifty latest epochs, oldest first.\<close>

lemma snapshot_curve:
  assumes "pq_GetDashboardSnapshot env d = Ok s" "pg_fault (ae_pg env) ''api equity'' = None"
  shows "\<exists>es. ds_EquityCurve s = map (\<lambda>e. \<lparr>eq_At = ep_ended_at e, eq_EquityUSD = ep_treasury_balance e\<rparr>) es \<and>
    sorted_wrt (\<lambda>a b. ep_number a \<le> ep_number b) es \<and> es = rev (take 50 (epochs_desc d))"
proof -
  from assms have "ds_EquityCurve s = rev (equity_points d)"
    by (auto simp: pq_GetDashboardSnapshot_def swap_ends_rev [simplified] bindr_def split: sum.splits)
  moreover have "sorted_wrt (\<lambda>a b. ep_number a \<le> ep_number b) (rev (take 50 (epochs_desc d)))"
    using epochs_desc_sorted [of d] by (simp add: sorted_wrt_rev sorted_wrt_take)
  ultimately show ?thesis by (simp add: equity_points_def rev_map)
qed

text \<open>No statement writes the column of the month's spend, so the budget page always shows that nothing was spent.\<close>

lemma budget_page_shows_no_spend:
  assumes "pq_GetBudget env (unwritten props d) = Ok b"
  shows "ab_SpentUSD b = Fin 0 \<and> ab_UsedPct b = Fin 0"
  using assms by (auto simp: pq_GetBudget_def unwritten_def epoch_defaults_def Let_def monthly_default_def fdiv_def fzero_def split: option.splits list.splits)

lemma budget_categories_cover_all_ledgers:
  assumes "pq_GetBudget env d = Ok b" "t_epochs (dd_db d) \<noteq> []" "pg_fault (ae_pg env) ''api budget categories'' = None"
  shows "ab_PerCategory b = [(''llm'', category_sum d l_LLMCost), (''infra'', category_sum d l_InfraRent), (''rpc'', category_sum d l_RPCCost)]"
proof -
  from assms(2) have "epochs_desc d \<noteq> []" by (metis epochs_desc_def length_0_conv length_stable_sort)
  with assms(1,3) show ?thesis by (auto simp: pq_GetBudget_def Let_def split: option.splits list.splits)
qed

text \<open>Summing a list of keys is summing over the keys, each with its multiplicity.\<close>

lemma sum_list_by_key: "sum_list (map f xs) = (\<Sum>i \<in> set xs. of_nat (count_list xs i) * (f i :: rat))"
proof -
  have "sum_list (map f xs) = (\<Sum>i \<in> A. of_nat (count_list xs i) * f i)" if "finite A" "set xs \<subseteq> A" for A
    using that
  proof (induction xs)
    case (Cons x xs)
    have "(\<Sum>i \<in> A. of_nat (count_list (x # xs) i) * f i) = (\<Sum>i \<in> A. of_nat (count_list xs i) * f i + (if i = x then f i else 0))"
      by (intro sum.cong) (auto simp: distrib_right)
    with Cons show ?case by (simp add: sum.distrib)
  qed simp
  then show ?thesis by simp
qed

text \<open>
  C27: the page of models lists every model once, and its profit column adds the whole life's profit of an agent once
  per decision of the agent: an agent that decided \<open>n\<close> times counts \<open>n\<close> times.
\<close>

theorem models_page_multiplies_profit:
  assumes "rearranges (ae_ties env)" "pq_ListModels env d = Ok rows"
  shows "mset (map mp_Model rows) = mset (remdups (map dr_model_used (t_decisions (dd_db d)))) \<and>
    (\<forall>r \<in> set rows. let who = map dr_agent (decisions_of d (mp_Model r)) in
       mp_Decisions r = int (length who) \<and> mp_UsedByAgents r = int (card (set who)) \<and>
       mp_PnLUSD r = rnd (\<Sum>i \<in> set who. of_nat (count_list who i) * fval (pnl_of_agent d i)))"
proof -
  let ?ms = "remdups (map dr_model_used (t_decisions (dd_db d)))"
  from assms(2) have rows: "rows = order_by (ae_ties env) (\<lambda>x y. flt (mp_TotalCostUSD y) (mp_TotalCostUSD x)) (map (model_row d) ?ms)"
    by (simp add: pq_ListModels_def fetch_def split: option.splits)
  have m: "mset (map mp_Model (order_by (ae_ties env) lt (map (model_row d) ?ms))) = mset ?ms" for lt
    using assms(1) by (simp add: model_row_def Let_def image_mset.compositionality comp_def)
  have "set rows = model_row d ` set ?ms" using rows assms(1) by simp
  then show ?thesis using m rows
    by (auto simp: model_row_def Let_def sql_sum_def comp_def card_set simp flip: sum_list_by_key)
qed

definition sample_decision :: decision_row where
  "sample_decision = \<lparr>dr_agent = ''a'', dr_input_summary = [], dr_output_raw = [], dr_config_changes = None, dr_reasoning = None, dr_intel_broadcasts = None,
     dr_offspring_submitted = False, dr_new_learned_rule = None, dr_model_used = ''gpt-4o'', dr_input_tokens = 10, dr_output_tokens = 5, dr_cost_usd = Fin 1\<rparr>"

definition sample_extra :: proposal_extra where
  "sample_extra = \<lparr>px_epoch = None, px_rationale = [], px_child = None\<rparr>"

definition sample_api_env :: api_env where
  "sample_api_env = \<lparr>ae_pg = pg_ok, ae_now = 0, ae_is_uuid = (\<lambda>_. True), ae_id = (\<lambda>t _. t), ae_at = (\<lambda>_ _. 0), ae_ties = (\<lambda>xs. xs)\<rparr>"

lemma models_page_multiplies_profit_witness:
  "\<exists>r. pq_ListModels sample_api_env (unwritten (\<lambda>_. sample_extra) (sample_db\<lparr>t_decisions := replicate 3 sample_decision\<rparr>)) = Ok [r] \<and>
     pnl_of_agent (unwritten (\<lambda>_. sample_extra) sample_db) ''a'' = Fin 100 \<and> mp_UsedByAgents r = 1 \<and> mp_PnLUSD r = Fin 300"
proof -
  let ?d = "unwritten (\<lambda>_. sample_extra) (sample_db\<lparr>t_decisions := replicate 3 sample_decision\<rparr>)"
  have r: "rearranges (ae_ties sample_api_env)" by (simp add: sample_api_env_def)
  have p: "pnl_of_agent (unwritten f d) ''a'' = Fin 100" if "t_agents d = t_agents sample_db" for f d
    using that by (simp add: pnl_of_agent_def unwritten_def sample_db_def sample_row_def coalesce_def)
  have dec: "decisions_of ?d ''gpt-4o'' = replicate 3 sample_decision"
    by (simp add: decisions_of_def unwritten_def sample_decision_def)
  obtain rows where rows: "pq_ListModels sample_api_env ?d = Ok rows"
    by (simp add: pq_ListModels_def fetch_def sample_api_env_def pg_ok_def)
  note spec = models_page_multiplies_profit [OF r rows]
  have "remdups (map dr_model_used (t_decisions (dd_db ?d))) = [''gpt-4o'']" by (simp add: unwritten_def sample_decision_def numeral_3_eq_3)
  with spec have "map mp_Model rows = [''gpt-4o'']" by (simp del: mset_map)
  then obtain r where r: "rows = [r]" "mp_Model r = ''gpt-4o''" by (auto simp: Cons_eq_map_conv)
  have "map dr_agent (replicate 3 sample_decision) = replicate 3 ''a''" by (simp add: sample_decision_def)
  with spec r dec p [of "sample_db\<lparr>t_decisions := replicate 3 sample_decision\<rparr>"]
  have "mp_UsedByAgents r = 1 \<and> mp_PnLUSD r = rnd 300" by (simp add: numeral_3_eq_3)
  with rows r p [of sample_db] show ?thesis by (auto simp: rnd_numeral)
qed

end
