(* ===== verification/Wallets.thy ===== *)
theory Wallets
  imports TaskCore Security
begin

text \<open>
  \<^verbatim>\<open>internal/chain/solana_wallet.go\<close> and \<^verbatim>\<open>base_wallet.go\<close>: wallets whose private key is sealed with AES-GCM under the master
  key, on the cipher of \<open>Security\<close>.  The curves and the address formats are those of third-party packages: what the code calls of
  them is a record of functions, and what a round trip relies on is a predicate on it.
\<close>

section \<open>Sealing\<close>

definition gcmNonceSize :: nat where "gcmNonceSize = 12"
definition seedSize :: nat where "seedSize = 32"

text \<open>The bytes of a stored key.\<close>

definition blob_of :: "Wallet \<Rightarrow> bytes" where "blob_of w = map of_char (wl_KeyEncrypted w)"
definition blob_text :: "bytes \<Rightarrow> string" where "blob_text = map (\<lambda>b. char_of (unat b))"

definition NewCipher :: "string \<Rightarrow> bytes \<Rightarrow> unit result" where
  "NewCipher who key = (if length key \<in> {16, 24, 32} then Ok ()
     else Inl (Wrap (who @ '' wallet: aes'') (Err (''crypto/aes: invalid key size '' @ itoa (int (length key))))))"

definition encryptSeed :: "block_cipher \<Rightarrow> bytes result \<Rightarrow> bytes \<Rightarrow> bytes \<Rightarrow> bytes result" where
  "encryptSeed E entropy masterKey seed =
     bindr (NewCipher ''solana'' masterKey) (\<lambda>_.
     bindr (wrapr ''solana wallet: nonce'' entropy) (\<lambda>nonce.
     bindr (gcm_seal E masterKey nonce seed) (\<lambda>sealed. Ok (nonce @ sealed))))"

text \<open>\<^verbatim>\<open>decryptSeed\<close> and \<^verbatim>\<open>decryptBaseKey\<close> differ in the name they report.\<close>

definition decrypt_as :: "string \<Rightarrow> block_cipher \<Rightarrow> bytes \<Rightarrow> bytes \<Rightarrow> bytes result" where
  "decrypt_as who E masterKey blob =
     (if length blob < gcmNonceSize then Fail (who @ '' wallet: ciphertext too short'')
      else bindr (NewCipher who masterKey) (\<lambda>_.
           bindr (wrapr (who @ '' wallet: open'') (gcm_open E masterKey (take gcmNonceSize blob) (drop gcmNonceSize blob))) (\<lambda>pt.
             if length pt \<noteq> seedSize then Fail (who @ '' wallet: decrypted key has wrong size '' @ itoa (int (length pt))) else Ok pt)))"

definition decryptSeed :: "block_cipher \<Rightarrow> bytes \<Rightarrow> bytes \<Rightarrow> bytes result" where "decryptSeed = decrypt_as ''solana''"
definition decryptBaseKey :: "block_cipher \<Rightarrow> bytes \<Rightarrow> bytes \<Rightarrow> bytes result" where "decryptBaseKey = decrypt_as ''base''"

definition master_key_ok :: "string \<Rightarrow> bytes \<Rightarrow> unit result" where
  "master_key_ok who mk = (if length mk \<noteq> MasterKeySize
     then Fail (who @ '' wallet: master key must be 32 bytes, got '' @ itoa (int (length mk))) else Ok ())"

section \<open>Solana\<close>

record 'k ed25519 =
  ed_FromSeed :: "bytes \<Rightarrow> 'k"
  ed_Seed :: "'k \<Rightarrow> bytes"
  ed_Address :: "'k \<Rightarrow> string"

definition solana_wallet :: "block_cipher \<Rightarrow> 'k ed25519 \<Rightarrow> bytes result \<Rightarrow> bytes \<Rightarrow> 'k \<Rightarrow> bytes \<Rightarrow> Wallet result" where
  "solana_wallet E K entropy mk k seed =
     bindr (encryptSeed E entropy mk seed) (\<lambda>enc. Ok \<lparr>wl_Chain = ''solana'', wl_Address = ed_Address K k, wl_KeyEncrypted = blob_text enc\<rparr>)"

definition NewSolanaWallet :: "block_cipher \<Rightarrow> 'k ed25519 \<Rightarrow> 'k result \<Rightarrow> bytes result \<Rightarrow> bytes \<Rightarrow> Wallet result" where
  "NewSolanaWallet E K keygen entropy mk =
     bindr (master_key_ok ''solana'' mk) (\<lambda>_. bindr (wrapr ''solana wallet: keygen'' keygen) (\<lambda>k. solana_wallet E K entropy mk k (ed_Seed K k)))"

definition SolanaWalletFromSeed :: "block_cipher \<Rightarrow> 'k ed25519 \<Rightarrow> bytes result \<Rightarrow> bytes \<Rightarrow> bytes \<Rightarrow> Wallet result" where
  "SolanaWalletFromSeed E K entropy mk seed =
     bindr (master_key_ok ''solana'' mk) (\<lambda>_.
       if length seed \<noteq> seedSize then Fail (''solana wallet: seed must be 32 bytes, got '' @ itoa (int (length seed)))
       else solana_wallet E K entropy mk (ed_FromSeed K seed) seed)"

definition UnsealSolanaWallet :: "block_cipher \<Rightarrow> 'k ed25519 \<Rightarrow> bytes \<Rightarrow> Wallet option \<Rightarrow> 'k result" where
  "UnsealSolanaWallet E K mk ow =
     (case ow of
        None \<Rightarrow> Fail ''solana wallet: nil wallet''
      | Some w \<Rightarrow>
          if wl_Chain w \<noteq> ''solana'' then Fail (''solana wallet: chain mismatch: '' @ wl_Chain w)
          else bindr (decryptSeed E mk (blob_of w)) (\<lambda>seed. Ok (ed_FromSeed K seed)))"

section \<open>Base\<close>

record 'k secp256k1 =
  sp_ToECDSA :: "bytes \<Rightarrow> 'k result"
  sp_FromECDSA :: "'k \<Rightarrow> bytes"
  sp_PubkeyToAddress :: "'k \<Rightarrow> bytes"
  sp_Hex :: "bytes \<Rightarrow> string"
  sp_HexToAddress :: "string \<Rightarrow> bytes"

definition baseWalletFromPriv :: "block_cipher \<Rightarrow> 'k secp256k1 \<Rightarrow> bytes result \<Rightarrow> bytes \<Rightarrow> 'k \<Rightarrow> Wallet result" where
  "baseWalletFromPriv E K entropy mk k =
     bindr (encryptSeed E entropy mk (sp_FromECDSA K k)) (\<lambda>enc. Ok
       \<lparr>wl_Chain = ''base'', wl_Address = sp_Hex K (sp_PubkeyToAddress K k), wl_KeyEncrypted = blob_text enc\<rparr>)"

definition NewBaseWallet :: "block_cipher \<Rightarrow> 'k secp256k1 \<Rightarrow> 'k result \<Rightarrow> bytes result \<Rightarrow> bytes \<Rightarrow> Wallet result" where
  "NewBaseWallet E K keygen entropy mk =
     bindr (master_key_ok ''base'' mk) (\<lambda>_. bindr (wrapr ''base wallet: keygen'' keygen) (\<lambda>k. baseWalletFromPriv E K entropy mk k))"

definition BaseWalletFromPrivKey :: "block_cipher \<Rightarrow> 'k secp256k1 \<Rightarrow> bytes result \<Rightarrow> bytes \<Rightarrow> bytes \<Rightarrow> Wallet result" where
  "BaseWalletFromPrivKey E K entropy mk key =
     bindr (master_key_ok ''base'' mk) (\<lambda>_.
       if length key \<noteq> seedSize then Fail (''base wallet: priv key must be 32 bytes, got '' @ itoa (int (length key)))
       else bindr (wrapr ''base wallet: parse priv'' (sp_ToECDSA K key)) (\<lambda>k. baseWalletFromPriv E K entropy mk k))"

definition UnsealBaseWallet :: "block_cipher \<Rightarrow> 'k secp256k1 \<Rightarrow> bytes \<Rightarrow> Wallet option \<Rightarrow> 'k result" where
  "UnsealBaseWallet E K mk ow =
     (case ow of
        None \<Rightarrow> Fail ''base wallet: nil wallet''
      | Some w \<Rightarrow>
          if wl_Chain w \<noteq> ''base'' then Fail (''base wallet: chain mismatch: '' @ wl_Chain w)
          else bindr (decryptBaseKey E mk (blob_of w)) (\<lambda>raw.
               bindr (wrapr ''base wallet: rebuild priv'' (sp_ToECDSA K raw)) (\<lambda>k.
                 if sp_PubkeyToAddress K k \<noteq> sp_HexToAddress K (wl_Address w)
                 then Fail ''base wallet: decrypted key does not match address'' else Ok k)))"

section \<open>What opens\<close>

lemma byte_of_char_of [simp]: "of_char (char_of (unat b)) = (b :: 8 word)"
proof -
  have "of_char (char_of (unat b)) = (of_nat (of_char (char_of (unat b))) :: 8 word)" by (simp only: of_nat_of_char)
  also have "\<dots> = of_nat (unat b mod 256)" by simp
  also have "unat b mod 256 = unat b" using unsigned_less [of b] by (intro mod_less) simp
  finally show ?thesis by simp
qed

lemma blob_of_text [simp]: "blob_of \<lparr>wl_Chain = c, wl_Address = a, wl_KeyEncrypted = blob_text b\<rparr> = b"
  by (simp add: blob_of_def blob_text_def comp_def)

lemma NewCipher_Ok [simp]: "NewCipher who k = Inr u \<longleftrightarrow> length k \<in> {16, 24, 32}"
  by (auto simp: NewCipher_def)

lemma encryptSeed_Ok:
  "encryptSeed E (Ok nonce) mk seed = Ok blob \<longleftrightarrow> length mk \<in> {16, 24, 32} \<and> (\<exists>s. gcm_seal E mk nonce seed = Ok s \<and> blob = nonce @ s)"
  by (auto simp: encryptSeed_def bindr_Ok_iff)

text \<open>A blob opens to a key exactly if sealing that key with some nonce gave the blob.\<close>

lemma decrypt_as_Ok:
  assumes "block_sized E"
  shows "decrypt_as who E mk blob = Ok pt \<longleftrightarrow>
    length pt = seedSize \<and> (\<exists>nonce. length nonce = gcmNonceSize \<and> encryptSeed E (Ok nonce) mk pt = Ok blob)"
proof -
  have "decrypt_as who E mk blob = Ok pt \<longleftrightarrow> length pt = seedSize \<and> length mk \<in> {16, 24, 32} \<and> gcmNonceSize \<le> length blob \<and>
      gcm_seal E mk (take gcmNonceSize blob) pt = Ok (drop gcmNonceSize blob)"
    by (auto simp: decrypt_as_def bindr_Ok_iff gcm_open_iff [OF assms] split: if_splits)
  also have "\<dots> \<longleftrightarrow> length pt = seedSize \<and> (\<exists>nonce. length nonce = gcmNonceSize \<and> encryptSeed E (Ok nonce) mk pt = Ok blob)"
  proof -
    have "(gcmNonceSize \<le> length blob \<and> gcm_seal E mk (take gcmNonceSize blob) pt = Ok (drop gcmNonceSize blob)) \<longleftrightarrow>
        (\<exists>nonce. length nonce = gcmNonceSize \<and> (\<exists>s. gcm_seal E mk nonce pt = Ok s \<and> blob = nonce @ s))"
    proof
      assume "gcmNonceSize \<le> length blob \<and> gcm_seal E mk (take gcmNonceSize blob) pt = Ok (drop gcmNonceSize blob)"
      then show "\<exists>nonce. length nonce = gcmNonceSize \<and> (\<exists>s. gcm_seal E mk nonce pt = Ok s \<and> blob = nonce @ s)"
        by (intro exI [of _ "take gcmNonceSize blob"]) auto
    qed auto
    then show ?thesis unfolding encryptSeed_Ok by blast
  qed
  finally show ?thesis .
qed

text \<open>The key parser is the inverse of the key printer, and the address printer loses nothing.\<close>

definition secp_faithful :: "'k secp256k1 \<Rightarrow> bool" where
  "secp_faithful K \<longleftrightarrow> (\<forall>k raw. sp_ToECDSA K raw = Ok k \<longleftrightarrow> raw = sp_FromECDSA K k) \<and> (\<forall>k. length (sp_FromECDSA K k) = seedSize) \<and>
     (\<forall>k. sp_HexToAddress K (sp_Hex K (sp_PubkeyToAddress K k)) = sp_PubkeyToAddress K k)"

text \<open>
  C16: a Base wallet unseals to a key exactly if it is a Base wallet, its address is the address of that key, and its blob is a
  sealing of that key under the master key; so every wallet the program makes unseals to the key it was made from.
\<close>

theorem base_wallet_unseals_exactly:
  assumes "block_sized E" "secp_faithful K"
  shows "(UnsealBaseWallet E K mk (Some w) = Ok k \<longleftrightarrow>
     wl_Chain w = ''base'' \<and> sp_HexToAddress K (wl_Address w) = sp_PubkeyToAddress K k \<and>
     (\<exists>nonce. length nonce = gcmNonceSize \<and> encryptSeed E (Ok nonce) mk (sp_FromECDSA K k) = Ok (blob_of w))) \<and>
    (\<forall>nonce w'. length nonce = gcmNonceSize \<and> NewBaseWallet E K (Ok k) (Ok nonce) mk = Ok w' \<longrightarrow> UnsealBaseWallet E K mk (Some w') = Ok k)"
proof -
  have K: "sp_ToECDSA K raw = Ok k' \<longleftrightarrow> raw = sp_FromECDSA K k'" "length (sp_FromECDSA K k') = seedSize"
    "sp_HexToAddress K (sp_Hex K (sp_PubkeyToAddress K k')) = sp_PubkeyToAddress K k'" for raw k'
    using assms(2) by (simp_all add: secp_faithful_def)
  have un: "UnsealBaseWallet E K mk (Some v) = Ok k \<longleftrightarrow>
     wl_Chain v = ''base'' \<and> sp_HexToAddress K (wl_Address v) = sp_PubkeyToAddress K k \<and>
     (\<exists>nonce. length nonce = gcmNonceSize \<and> encryptSeed E (Ok nonce) mk (sp_FromECDSA K k) = Ok (blob_of v))" for v
  proof -
    have "UnsealBaseWallet E K mk (Some v) = Ok k \<longleftrightarrow> wl_Chain v = ''base'' \<and>
        (\<exists>raw. decryptBaseKey E mk (blob_of v) = Ok raw \<and> sp_ToECDSA K raw = Ok k \<and> sp_PubkeyToAddress K k = sp_HexToAddress K (wl_Address v))"
      by (auto simp: UnsealBaseWallet_def bindr_Ok_iff split: if_splits)
    then show ?thesis unfolding decryptBaseKey_def decrypt_as_Ok [OF assms(1)] K(1) using K(2) by metis
  qed
  have "UnsealBaseWallet E K mk (Some w') = Ok k" if "length nonce = gcmNonceSize" "NewBaseWallet E K (Ok k) (Ok nonce) mk = Ok w'" for nonce w'
  proof -
    from that(2) obtain enc where enc: "encryptSeed E (Ok nonce) mk (sp_FromECDSA K k) = Ok enc"
      "w' = \<lparr>wl_Chain = ''base'', wl_Address = sp_Hex K (sp_PubkeyToAddress K k), wl_KeyEncrypted = blob_text enc\<rparr>"
      by (auto simp: NewBaseWallet_def baseWalletFromPriv_def bindr_Ok_iff)
    with that(1) K(3) show ?thesis unfolding un by auto
  qed
  with un show ?thesis by blast
qed

definition sample_secp :: "bool secp256k1" where
  "sample_secp = \<lparr>sp_ToECDSA = (\<lambda>raw. if raw = replicate 32 1 then Ok True else if raw = replicate 32 2 then Ok False else Fail ''invalid key''),
     sp_FromECDSA = (\<lambda>k. replicate 32 (if k then 1 else 2)), sp_PubkeyToAddress = (\<lambda>k. [if k then 1 else 2]), sp_Hex = blob_text, sp_HexToAddress = map of_char\<rparr>"

lemma base_wallet_unseals_exactly_witness:
  "\<exists>w. NewBaseWallet xor_cipher sample_secp (Ok True) (Ok (replicate 12 7)) (replicate 32 5) = Ok w \<and>
     UnsealBaseWallet xor_cipher sample_secp (replicate 32 5) (Some w) = Ok True"
proof -
  have "(replicate 32 (1 :: 8 word)) \<noteq> replicate 32 2" by (simp add: numeral_eq_Suc)
  then have K: "secp_faithful sample_secp"
    by (auto simp: secp_faithful_def sample_secp_def seedSize_def blob_text_def)
  obtain w where w: "NewBaseWallet xor_cipher sample_secp (Ok True) (Ok (replicate 12 7)) (replicate 32 5) = Ok w"
    by (simp add: NewBaseWallet_def master_key_ok_def MasterKeySize_def baseWalletFromPriv_def encryptSeed_def NewCipher_def gcm_seal_def max_message_def
        sample_secp_def Let_def)
  moreover have "length (replicate 12 (7 :: 8 word)) = gcmNonceSize" by (simp add: gcmNonceSize_def)
  ultimately show ?thesis using base_wallet_unseals_exactly [OF xor_cipher_sized K] by blast
qed

text \<open>A Solana wallet opens whatever its address says; the one made from a key opens to the key of its seed.\<close>

lemma solana_unseal_ignores_address: "UnsealSolanaWallet E K mk (Some (w\<lparr>wl_Address := a\<rparr>)) = UnsealSolanaWallet E K mk (Some w)"
  by (simp add: UnsealSolanaWallet_def blob_of_def)

lemma solana_wallet_round_trip:
  assumes "block_sized E" "length nonce = gcmNonceSize" "SolanaWalletFromSeed E K (Ok nonce) mk seed = Ok w"
  shows "UnsealSolanaWallet E K mk (Some w) = Ok (ed_FromSeed K seed)"
proof -
  from assms(3) obtain enc where "encryptSeed E (Ok nonce) mk seed = Ok enc" "length seed = seedSize" "wl_Chain w = ''solana''" "blob_of w = enc"
    by (auto simp: SolanaWalletFromSeed_def solana_wallet_def bindr_Ok_iff split: if_splits)
  with assms(1,2) show ?thesis
    by (auto simp: UnsealSolanaWallet_def decryptSeed_def bindr_Ok_iff decrypt_as_Ok)
qed

text \<open>Without a master key nothing opens.\<close>

lemma no_key_no_wallet:
  "\<exists>e. UnsealBaseWallet E K [] ow = Inl e" "\<exists>e. UnsealSolanaWallet E K' [] ow = Inl e"
  by (auto simp: UnsealBaseWallet_def UnsealSolanaWallet_def decryptBaseKey_def decryptSeed_def decrypt_as_def NewCipher_def split: option.splits)

end
