(* ===== verification/BigNum.thy ===== *)
theory BigNum
  imports Json Security
begin

text \<open>
  The parts of \<^verbatim>\<open>math/big\<close> the chain adapters use: integers read from bytes and from text, and floats of arbitrary
  precision, whose products and quotients are rounded to nearest even at the larger precision of the operands.  On top of them the
  conversions between human amounts and atomic units of \<^verbatim>\<open>internal/chain/base.go\<close>.
\<close>

section \<open>Integers\<close>

definition SetBytes :: "bytes \<Rightarrow> nat" where
  "SetBytes bs = fold (\<lambda>b n. n * 256 + unat b) bs 0"

definition big_digit :: "char \<Rightarrow> nat option" where
  "big_digit c = (let n = (of_char c :: nat) in
     if 48 \<le> n \<and> n \<le> 57 then Some (n - 48)
     else if 97 \<le> n \<and> n \<le> 122 then Some (n - 87)
     else if 65 \<le> n \<and> n \<le> 90 then Some (n - 55) else None)"

text \<open>
  The digit loop: the value so far, the number of digits, whether the last character was an underscore, and whether an
  underscore was misplaced.  Underscores are read only when the base is to be inferred; a character that is no digit of the base
  ends the number, and then the text was not a number.
\<close>

record scan_state =
  bs_value :: nat
  bs_count :: nat
  bs_prev_digit :: bool
  bs_prev_under :: bool
  bs_invalid :: bool

fun scan_digits :: "bool \<Rightarrow> nat \<Rightarrow> string \<Rightarrow> scan_state \<Rightarrow> scan_state option" where
  "scan_digits infer b [] s = Some s"
| "scan_digits infer b (c # cs) s =
     (if c = CHR ''_'' \<and> infer
      then scan_digits infer b cs (s\<lparr>bs_invalid := bs_invalid s \<or> \<not> bs_prev_digit s, bs_prev_digit := False, bs_prev_under := True\<rparr>)
      else case big_digit c of
        None \<Rightarrow> None
      | Some d \<Rightarrow> if b \<le> d then None
          else scan_digits infer b cs (s\<lparr>bs_value := bs_value s * b + d, bs_count := bs_count s + 1, bs_prev_digit := True, bs_prev_under := False\<rparr>))"

definition scan_start :: "bool \<Rightarrow> scan_state" where
  "scan_start after_zero = \<lparr>bs_value = 0, bs_count = 0, bs_prev_digit = after_zero, bs_prev_under = False, bs_invalid = False\<rparr>"

text \<open>The base of a text whose base is to be inferred, the digits after its prefix, and whether the prefix is the octal zero.\<close>

definition infer_base :: "string \<Rightarrow> nat \<times> string \<times> bool \<times> bool" where
  "infer_base s =
     (case s of
        c # p # rest \<Rightarrow>
          if c \<noteq> CHR ''0'' then (10, s, False, False)
          else if p \<in> {CHR ''b'', CHR ''B''} then (2, rest, True, False)
          else if p \<in> {CHR ''o'', CHR ''O''} then (8, rest, True, False)
          else if p \<in> {CHR ''x'', CHR ''X''} then (16, rest, True, False)
          else (8, p # rest, True, True)
      | _ \<Rightarrow> (10, s, False, False))"

definition scan_natural :: "nat \<Rightarrow> string \<Rightarrow> nat option" where
  "scan_natural base s =
     (let (b, ds, zero, octal) = (if base = 0 then infer_base s else (base, s, False, False)) in
      case scan_digits (base = 0) b ds (scan_start zero) of
        None \<Rightarrow> None
      | Some st \<Rightarrow>
          if bs_invalid st \<or> bs_prev_under st then None
          else if bs_count st = 0 then (if octal then Some 0 else None)
          else Some (bs_value st))"

definition SetString :: "nat \<Rightarrow> string \<Rightarrow> int option" where
  "SetString base s =
     (case s of
        c # cs \<Rightarrow> if c = CHR ''-'' then map_option (\<lambda>n. - int n) (scan_natural base cs)
                 else map_option int (scan_natural base (if c = CHR ''+'' then cs else s))
      | [] \<Rightarrow> None)"

section \<open>Floats\<close>

definition round_mag :: "nat \<Rightarrow> rat \<Rightarrow> rat" where
  "round_mag p a = (if a = 0 then 0 else let e = ilog2 a - (int p - 1) in of_int (rhe (a / 2 powi e)) * 2 powi e)"

definition round_prec :: "nat \<Rightarrow> rat \<Rightarrow> rat" where
  "round_prec p x = (if x < 0 then - round_mag p (- x) else round_mag p x)"

text \<open>\<^verbatim>\<open>SetInt\<close> takes the precision from the integer, at least 64; \<^verbatim>\<open>NewFloat\<close> has precision 53.\<close>

definition int_prec :: "int \<Rightarrow> nat" where "int_prec n = max 64 (nat (blen \<bar>n\<bar>))"

definition bigPow10 :: "nat \<Rightarrow> int" where "bigPow10 n = ((\<lambda>x. x * 10) ^^ n) 1"

lemma bigPow10_eq [simp]: "bigPow10 n = 10 ^ n"
proof -
  have "((\<lambda>x. x * 10) ^^ n) y = y * 10 ^ n" for y :: int by (induction n) simp_all
  then show ?thesis by (simp add: bigPow10_def)
qed

definition int_quo :: "int \<Rightarrow> int \<Rightarrow> rat" where
  "int_quo x y = round_prec (max (int_prec x) (int_prec y)) (of_int x / of_int y)"

definition weiToEther :: "int option \<Rightarrow> f64" where
  "weiToEther wei = (case wei of None \<Rightarrow> Fin 0 | Some w \<Rightarrow> rnd (round_prec (max (int_prec w) 53) (of_int w / 10 ^ 18)))"

definition atomicToFloat :: "int option \<Rightarrow> nat \<Rightarrow> f64" where
  "atomicToFloat atomic decimals = (case atomic of None \<Rightarrow> Fin 0 | Some a \<Rightarrow> rnd (int_quo a (bigPow10 decimals)))"

text \<open>
  \<^verbatim>\<open>floatToAtomic\<close> multiplies and cuts the fraction off.  \<^verbatim>\<open>big.NewFloat\<close> panics on NaN; an infinite amount gives a nil
  integer, whose text is \<^verbatim>\<open><nil>\<close>.
\<close>

datatype big_outcome = BigPanic | BigNil | Big int

definition floatToAtomic :: "f64 \<Rightarrow> nat \<Rightarrow> big_outcome" where
  "floatToAtomic amount decimals =
     (if is_nan amount then BigPanic
      else if \<not> is_fin amount then BigNil
      else Big (rtrunc (round_prec (max 53 (int_prec (bigPow10 decimals))) (fval amount * of_int (bigPow10 decimals)))))"

definition big_text :: "int option \<Rightarrow> string" where
  "big_text b = (case b of None \<Rightarrow> ''<nil>'' | Some i \<Rightarrow> itoa i)"

section \<open>Rounding errors\<close>

lemma rhe_half: "\<bar>of_int (rhe x) - x\<bar> \<le> 1 / 2"
proof -
  have "of_int \<lfloor>x\<rfloor> \<le> x" "x < of_int \<lfloor>x\<rfloor> + 1" by linarith+
  then show ?thesis by (auto simp: rhe_def Let_def)
qed

lemma round_mag_error:
  assumes "0 \<le> a" "0 < p"
  shows "\<bar>round_mag p a - a\<bar> \<le> a / 2 ^ p"
proof (cases "a = 0")
  case True
  then show ?thesis by (simp add: round_mag_def)
next
  case False
  with assms have a: "0 < a" by simp
  define e where "e = ilog2 a - (int p - 1)"
  have "\<bar>round_mag p a - a\<bar> = \<bar>of_int (rhe (a / 2 powi e)) - a / 2 powi e\<bar> * 2 powi e"
  proof -
    have "\<bar>X * u - a\<bar> = \<bar>X - a / u\<bar> * u" if "0 < u" for X u :: rat
      using that abs_mult_pos [of u "X - a / u"] by (simp add: left_diff_distrib)
    from this [OF powi2_pos] show ?thesis using False by (simp add: round_mag_def e_def [symmetric] Let_def)
  qed
  also have "\<dots> \<le> 1 / 2 * 2 powi e" by (rule mult_right_mono [OF rhe_half]) (simp add: less_imp_le)
  also have "\<dots> = 2 powi (ilog2 a) / 2 ^ p" by (simp add: e_def power_int_diff power_int_add)
  also have "\<dots> \<le> a / 2 ^ p" using ilog2_bounds [OF a] by (simp add: divide_right_mono)
  finally show ?thesis .
qed

lemma round_mag_nonneg: "0 \<le> a \<Longrightarrow> 0 \<le> round_mag p a"
  using rhe_ge_int [of 0] by (simp add: round_mag_def Let_def)

lemma rtrunc_bounds: "0 \<le> x \<Longrightarrow> of_int (rtrunc x) \<le> x \<and> x < of_int (rtrunc x) + 1"
  by (simp add: rtrunc_def) linarith

lemma int_prec_ge [simp]: "64 \<le> int_prec n"
  by (simp add: int_prec_def)

lemma two_pow_le: "64 \<le> p \<Longrightarrow> a / 2 ^ p \<le> (a :: rat) / 2 ^ 64" if "0 \<le> a"
proof -
  assume "64 \<le> p"
  then have "(2::rat) ^ 64 \<le> 2 ^ p" by (rule power_increasing) simp
  with that show "a / 2 ^ p \<le> a / 2 ^ 64" by (intro divide_left_mono) auto
qed

text \<open>
  C40: a finite amount that is not negative is turned into atomic units with at most one part in \<open>2^64\<close> too much, and with
  less than one unit (and one part in \<open>2^64\<close>) too little.
\<close>

theorem atomic_amount_within_a_unit:
  assumes "is_fin amount" "0 \<le> fval amount"
  shows "\<exists>n. floatToAtomic amount decimals = Big n \<and> 0 \<le> n \<and>
    of_int n \<le> fval amount * 10 ^ decimals * (1 + 1 / 2 ^ 64) \<and> fval amount * 10 ^ decimals * (1 - 1 / 2 ^ 64) - 1 < of_int n"
proof -
  define x where "x = fval amount * 10 ^ decimals"
  define p where "p = max 53 (int_prec (bigPow10 decimals))"
  have x: "0 \<le> x" using assms(2) by (simp add: x_def)
  have p: "64 \<le> p" using int_prec_ge [of "bigPow10 decimals"] unfolding p_def by linarith
  let ?r = "round_prec p x"
  have r: "?r = round_mag p x" using x by (simp add: round_prec_def)
  have "\<bar>?r - x\<bar> \<le> x / 2 ^ p" unfolding r by (rule round_mag_error [OF x]) (use p in simp)
  also have "\<dots> \<le> x / 2 ^ 64" by (rule two_pow_le [OF x p])
  finally have err: "\<bar>?r - x\<bar> \<le> x / 2 ^ 64" .
  have nn: "0 \<le> ?r" unfolding r by (rule round_mag_nonneg [OF x])
  have "floatToAtomic amount decimals = Big (rtrunc ?r)"
    using assms(1) by (cases amount) (simp_all add: floatToAtomic_def p_def x_def)
  moreover have "0 \<le> rtrunc ?r" using nn by (simp add: rtrunc_def)
  moreover have "of_int (rtrunc ?r) \<le> x * (1 + 1 / 2 ^ 64)"
    using rtrunc_bounds [OF nn] err unfolding distrib_left mult_1_right times_divide_eq_right by linarith
  moreover have "x * (1 - 1 / 2 ^ 64) - 1 < of_int (rtrunc ?r)"
    using rtrunc_bounds [OF nn] err unfolding right_diff_distrib mult_1_right times_divide_eq_right by linarith
  ultimately show ?thesis unfolding x_def by blast
qed

lemma atomic_amount_within_a_unit_witness:
  "\<exists>n. floatToAtomic (Fin (3 / 2)) 6 = Big n \<and> n \<in> {1499999, 1500000}"
proof -
  have "is_fin (Fin (3 / 2))" "0 \<le> fval (Fin (3 / 2))" by simp_all
  from atomic_amount_within_a_unit [OF this, of 6] obtain n where n: "floatToAtomic (Fin (3 / 2)) 6 = Big n"
    "of_int n \<le> (1500000 :: rat) * (1 + 1 / 2 ^ 64)" "(1500000 :: rat) * (1 - 1 / 2 ^ 64) - 1 < of_int n" by auto
  have "(1500000 :: rat) * (1 + 1 / 2 ^ 64) < of_int 1500001" "of_int 1499998 < (1500000 :: rat) * (1 - 1 / 2 ^ 64) - 1" by simp_all
  with n have "(of_int n :: rat) < of_int 1500001" "of_int 1499998 < (of_int n :: rat)" by linarith+
  then have "n < 1500001" "1499998 < n" by (simp_all only: of_int_less_iff)
  with n(1) show ?thesis by auto
qed

text \<open>
  The cut is visible: three tenths of a six-decimal token are one unit short, and a balance of 300000 units read as an amount
  and converted back is 299999 units.
\<close>

lemma three_tenths_short: "floatToAtomic (rnd (3 / 10)) 6 = Big 299999"
  by code_simp

lemma balance_round_trip_short: "floatToAtomic (atomicToFloat (Some 300000) 6) 6 = Big 299999"
  by code_simp

text \<open>Text with its hexadecimal prefix cut off is read in another base.\<close>

lemma hex_prefix_lost: "SetString 0 ''0x10'' = Some 16" "SetString 0 ''10'' = Some 10" "SetString 0 ''de0b6b3a7640000'' = None" "SetString 0 ''0123'' = Some 83"
  by code_simp+

end
