(* ===== verification/Http.thy ===== *)
theory Http
  imports GoFmt JsonText "HOL-Library.Sublist"
begin

text \<open>
  HTTP as the chain adapters, the language-model clients and the notifier use it: a request is built and sent, its body read, a
  status outside 200 to 299 turned into an error with the start of the body.  The network is a function from requests to what came
  back; the body of a request is the JSON value the source marshals.  Also the query strings of \<^verbatim>\<open>net/url\<close>.
\<close>

section \<open>Exchanges\<close>

record http_request =
  hq_Method :: string
  hq_URL :: string
  hq_Headers :: "(string \<times> string) list"
  hq_Body :: "json option"

text \<open>Building can fail on a bad URL; sending can fail; reading the body can fail after the status is known.\<close>

record http_client =
  ht_build :: "http_request \<Rightarrow> error option"
  ht_do :: "http_request \<Rightarrow> (int \<times> string result) result"

definition truncate_text :: "string \<Rightarrow> nat \<Rightarrow> string" where
  "truncate_text s n = (if length s \<le> n then s else take n s @ ''...'')"

text \<open>
  The messages differ by their prefix; an error of sending has its own or none.  \<open>shorten\<close> cuts a body that is quoted in an error.
\<close>

definition http_exchange_cut :: "(string \<Rightarrow> nat \<Rightarrow> string) \<Rightarrow> string \<Rightarrow> string option \<Rightarrow> http_client \<Rightarrow> http_request \<Rightarrow> string result" where
  "http_exchange_cut shorten pre doing h rq =
     (case ht_build h rq of
        Some e \<Rightarrow> Inl (Wrap (pre @ ''build request'') e)
      | None \<Rightarrow> (case ht_do h rq of
          Inl e \<Rightarrow> Inl (case doing of None \<Rightarrow> e | Some msg \<Rightarrow> Wrap (pre @ msg) e)
        | Inr (status, body) \<Rightarrow>
            bindr (wrapr (pre @ ''read'') body) (\<lambda>b.
              if godiv status 100 \<noteq> 2 then Fail (pre @ ''status '' @ itoa status @ '': '' @ shorten b 256) else Ok b)))"

definition http_exchange :: "string \<Rightarrow> string option \<Rightarrow> http_client \<Rightarrow> http_request \<Rightarrow> string result" where
  "http_exchange = http_exchange_cut truncate_text"

definition accept_json :: "string \<times> string" where "accept_json = (''Accept'', ''application/json'')"
definition content_json :: "string \<times> string" where "content_json = (''Content-Type'', ''application/json'')"

lemma http_exchange_Ok:
  "http_exchange pre doing h rq = Ok b \<longleftrightarrow> ht_build h rq = None \<and> (\<exists>status. ht_do h rq = Ok (status, Ok b) \<and> godiv status 100 = 2)"
  by (auto simp: http_exchange_def http_exchange_cut_def bindr_Ok_iff split: option.splits sum.splits if_splits)

text \<open>\<^verbatim>\<open>strings.Join\<close>.\<close>

fun Join :: "string \<Rightarrow> string list \<Rightarrow> string" where
  "Join sep [] = []"
| "Join sep [s] = s"
| "Join sep (s # ss) = s @ sep @ Join sep ss"

section \<open>Query strings\<close>

definition unreserved :: "char \<Rightarrow> bool" where
  "unreserved c \<longleftrightarrow> (let n = (of_char c :: nat) in 48 \<le> n \<and> n \<le> 57 \<or> 65 \<le> n \<and> n \<le> 90 \<or> 97 \<le> n \<and> n \<le> 122 \<or> c \<in> {CHR ''-'', CHR ''_'', CHR ''.'', CHR ''~''})"

definition upper_hex :: "nat \<Rightarrow> char" where
  "upper_hex n = (if n < 10 then char_of (48 + n) else char_of (55 + n))"

definition escape_byte :: "char \<Rightarrow> string" where
  "escape_byte c = (if unreserved c then [c] else if c = CHR '' '' then ''+''
     else [CHR ''%'', upper_hex (of_char c div 16), upper_hex (of_char c mod 16)])"

definition QueryEscape :: "string \<Rightarrow> string" where "QueryEscape s = concat (map escape_byte s)"

text \<open>\<^verbatim>\<open>Values.Encode\<close> of values set once per key: sorted by key.\<close>

definition EncodeValues :: "(string \<times> string) list \<Rightarrow> string" where
  "EncodeValues kvs = (case map (\<lambda>(k, v). QueryEscape k @ ''='' @ QueryEscape v) (stable_sort (\<lambda>a b. str_less (fst a) (fst b)) kvs) of
     [] \<Rightarrow> [] | p # ps \<Rightarrow> p @ concat (map (\<lambda>q. ''&'' @ q) ps))"

fun QueryUnescape :: "string \<Rightarrow> string option" where
  "QueryUnescape [] = Some []"
| "QueryUnescape (c # s) =
     (if c = CHR ''%'' then (case s of
          a # b # r \<Rightarrow> (case (hex_val a, hex_val b) of
            (Some x, Some y) \<Rightarrow> map_option ((#) (char_of (16 * x + y))) (QueryUnescape r)
          | _ \<Rightarrow> None)
        | _ \<Rightarrow> None)
      else map_option ((#) (if c = CHR ''+'' then CHR '' '' else c)) (QueryUnescape s))"

lemma hex_val_upper: "n < 16 \<Longrightarrow> hex_val (upper_hex n) = Some n"
  by (auto simp: hex_val_def upper_hex_def)

lemma unescape_byte: "QueryUnescape (escape_byte c @ s) = map_option ((#) c) (QueryUnescape s)"
proof -
  have c: "(of_char c :: nat) < 256" by (metis of_char_mod_256 mod_less_divisor zero_less_numeral)
  then have h: "hex_val (upper_hex (of_char c div 16)) = Some (of_char c div 16)" "hex_val (upper_hex (of_char c mod 16)) = Some (of_char c mod 16)"
    by (auto intro!: hex_val_upper simp: less_mult_imp_div_less)
  have plain: "\<not> unreserved (CHR ''%'')" "\<not> unreserved (CHR ''+'')" by (simp_all add: unreserved_def)
  show ?thesis
  proof (cases "unreserved c")
    case True
    with plain have "c \<noteq> CHR ''%''" "c \<noteq> CHR ''+''" by blast+
    with True show ?thesis by (simp add: escape_byte_def)
  next
    case False
    then show ?thesis using h by (cases "c = CHR '' ''") (simp_all add: escape_byte_def)
  qed
qed

text \<open>What is escaped unescapes to itself, so two values never share an escaped text, and an escaped text has no separator in it.\<close>

lemma QueryUnescape_Escape [simp]: "QueryUnescape (QueryEscape s) = Some s"
  by (induction s) (simp_all add: QueryEscape_def unescape_byte)

lemma QueryEscape_no_separator: "CHR ''&'' \<notin> set (QueryEscape s) \<and> CHR ''='' \<notin> set (QueryEscape s)"
proof -
  have "CHR ''&'' \<notin> set (escape_byte c) \<and> CHR ''='' \<notin> set (escape_byte c)" for c
  proof -
    have "upper_hex n \<noteq> CHR ''&'' \<and> upper_hex n \<noteq> CHR ''=''" if "n < 16" for n
    proof -
      have "hex_val (CHR ''&'') = None" "hex_val (CHR ''='') = None" by (simp_all add: hex_val_def)
      with hex_val_upper [OF that] show ?thesis by (metis option.distinct(1))
    qed
    note u = this
    have "(of_char c :: nat) < 256" by (metis of_char_mod_256 mod_less_divisor zero_less_numeral)
    then have "of_char c div 16 < (16 :: nat)" "of_char c mod 16 < (16 :: nat)" by (simp_all add: less_mult_imp_div_less)
    note u [OF this(1)] u [OF this(2)]
    moreover have "\<not> unreserved (CHR ''&'')" "\<not> unreserved (CHR ''='')" by (simp_all add: unreserved_def)
    ultimately show ?thesis by (cases "unreserved c") (auto simp: escape_byte_def)
  qed
  then show ?thesis by (auto simp: QueryEscape_def)
qed

end
