(* ===== verification/BaseChain.thy ===== *)
theory BaseChain
  imports Wallets BigNum Http "HOL-Library.AList"
begin

text \<open>
  \<^verbatim>\<open>internal/chain/base.go\<close>, \<^verbatim>\<open>base_oneinch.go\<close>, \<^verbatim>\<open>base_aave.go\<close>, \<^verbatim>\<open>base_morpho.go\<close> and \<^verbatim>\<open>base_yield.go\<close>: the client of the Base
  chain.  Third-party calls are fields of an environment: the RPC node, the transaction library, the network, the decoding of answers,
  \<^verbatim>\<open>strconv.ParseFloat\<close> (the value it returns, whatever its error), the shortest text of a float, and the conversion of an
  out-of-range float to an unsigned integer.

  The client's state is its cache of token decimals; what was broadcast is kept beside it.  \<open>None\<close> is a panic.
\<close>

section \<open>Environment\<close>

record dynamic_fee_tx =
  df_ChainID :: nat
  df_Nonce :: int
  df_GasTipCap :: int
  df_GasFeeCap :: int
  df_Gas :: int
  df_To :: bytes
  df_Value :: int
  df_Data :: bytes

record ('k, 't) eth_lib =
  et_IsHexAddress :: "string \<Rightarrow> bool"
  et_HexDecode :: "string \<Rightarrow> bytes result"
  et_NewTx :: "dynamic_fee_tx \<Rightarrow> 't"
  et_SignTx :: "nat \<Rightarrow> 'k \<Rightarrow> 't \<Rightarrow> 't result"
  et_Unmarshal :: "bytes \<Rightarrow> 't result"
  et_Sender :: "nat \<Rightarrow> 't \<Rightarrow> bytes result"
  et_Signed :: "'t \<Rightarrow> bool"
  et_Hash :: "'t \<Rightarrow> string"
  et_Gas :: "'t \<Rightarrow> int"

record 't eth_rpc =
  rp_BalanceAt :: "bytes \<Rightarrow> int result"
  rp_CallContract :: "bytes \<Rightarrow> bytes \<Rightarrow> bytes result"
  rp_PendingNonceAt :: "bytes \<Rightarrow> int result"
  rp_SuggestGasTipCap :: "int result"
  rp_BaseFee :: "int result"
  rp_EstimateGas :: "bytes \<Rightarrow> 't \<Rightarrow> 64 word result"
  rp_SendTransaction :: "'t \<Rightarrow> unit result"

record oneInchQuoteResp =
  oq_DstAmount :: string
  oq_Gas :: int

record oneInchSwapResp =
  os_DstAmount :: string
  os_From :: string
  os_To :: string
  os_Data :: string
  os_Value :: string
  os_Gas :: int
  os_GasPrice :: string

record aave_position =
  av_User :: string
  av_Symbol :: string
  av_Underlying :: string
  av_Bonus :: string
  av_ATokenBalance :: string
  av_TotalDebt :: string

record morpho_position =
  mp_User :: string
  mp_CollateralAsset :: string
  mp_LoanAsset :: string
  mp_LLTV :: string
  mp_Collateral :: string
  mp_BorrowAssets :: string
  mp_Health :: f64

record aave_reserve =
  rv_Symbol :: string
  rv_Underlying :: string
  rv_LiquidityRate :: string
  rv_TotalLiquidity :: string
  rv_Decimals :: int

record morpho_market =
  mk_UniqueKey :: string
  mk_LoanAddress :: string
  mk_SupplyApy :: f64
  mk_SupplyAssetsUsd :: f64

text \<open>A GraphQL answer: the messages of its errors, and its rows.\<close>

record ('k, 't) base_env =
  be_E :: block_cipher
  be_secp :: "'k secp256k1"
  be_eth :: "('k, 't) eth_lib"
  be_rpc :: "'t eth_rpc"
  be_http :: http_client
  be_decode_quote :: "string \<Rightarrow> oneInchQuoteResp result"
  be_decode_swap :: "string \<Rightarrow> oneInchSwapResp result"
  be_decode_paraswap :: "string \<Rightarrow> string result"
  be_decode_aave :: "string \<Rightarrow> (string list \<times> aave_position list) result"
  be_decode_morpho :: "string \<Rightarrow> (string list \<times> morpho_position list) result"
  be_decode_reserves :: "string \<Rightarrow> (string list \<times> aave_reserve list) result"
  be_decode_markets :: "string \<Rightarrow> (string list \<times> morpho_market list) result"
  be_ParseFloat :: "string \<Rightarrow> f64"
  be_shortest :: "f64 \<Rightarrow> string"
  be_oob :: "f64 \<Rightarrow> int"
  be_now :: time

record ChainConfig =
  cc_Network :: string
  cc_RPCURL :: string
  cc_Extra :: "(string \<times> string) list"

definition extra :: "ChainConfig \<Rightarrow> string \<Rightarrow> string" where
  "extra cfg k = (case map_of (cc_Extra cfg) k of None \<Rightarrow> [] | Some v \<Rightarrow> v)"

definition extra_or :: "ChainConfig \<Rightarrow> string \<Rightarrow> string \<Rightarrow> string" where
  "extra_or cfg k d = (if extra cfg k = [] then d else extra cfg k)"

section \<open>The client\<close>

record BaseClient =
  bc_network :: string
  bc_chainID :: nat
  bc_rpcURL :: string
  bc_oneInchURL :: string
  bc_oneInchKey :: string
  bc_paraswapURL :: string
  bc_aaveURL :: string
  bc_morphoURL :: string
  bc_masterKey :: bytes
  bc_decCache :: "(string \<times> nat) list"

definition baseChainIDSepolia :: nat where "baseChainIDSepolia = 84532"
definition nativeETHAddress :: string where "nativeETHAddress = ''0xeeeeeeeeeeeeeeeeeeeeeeeeeeeeeeeeeeeeeeee''"
definition oneInchDefaultBaseURL :: string where "oneInchDefaultBaseURL = ''https://api.1inch.dev/swap/v6.0''"
definition paraswapDefaultBaseURL :: string where "paraswapDefaultBaseURL = ''https://api.paraswap.io/swap''"
definition defaultAaveSubgraphURL :: string where "defaultAaveSubgraphURL = ''https://api.thegraph.com/subgraphs/name/aave/protocol-v3-base''"
definition defaultMorphoGraphqlURL :: string where "defaultMorphoGraphqlURL = ''https://blue-api.morpho.org/graphql''"

text \<open>The optional master key of a factory; \<open>dehex\<close> is \<^verbatim>\<open>hex.DecodeString\<close>.\<close>

definition factory_key :: "string \<Rightarrow> (string \<Rightarrow> bytes result) \<Rightarrow> ChainConfig \<Rightarrow> bytes result" where
  "factory_key who dehex cfg =
     (if extra cfg ''master_key_hex'' = [] then Ok []
      else bindr (wrapr (who @ '': master_key_hex'') (dehex (extra cfg ''master_key_hex''))) (\<lambda>raw.
        if length raw \<noteq> MasterKeySize then Fail (who @ '': master key must be 32 bytes, got '' @ itoa (int (length raw))) else Ok raw))"

definition baseFactory :: "(string \<Rightarrow> unit result) \<Rightarrow> (string \<Rightarrow> bytes result) \<Rightarrow> ChainConfig \<Rightarrow> BaseClient result" where
  "baseFactory dial dehex cfg =
     (let network = (if cc_Network cfg = [] then ''sepolia'' else cc_Network cfg) in
      if cc_Network cfg = ''mainnet'' then Fail ''base: mainnet disabled''
      else if network \<noteq> ''sepolia'' then Fail (''base: unsupported network '' @ network @ '' (only sepolia until launch)'')
      else if cc_RPCURL cfg = [] then Fail ''base: RPCURL required''
      else bindr (wrapr ''base: dial rpc'' (dial (cc_RPCURL cfg))) (\<lambda>_.
           bindr (factory_key ''base'' dehex cfg) (\<lambda>key. Ok
             \<lparr>bc_network = network, bc_chainID = baseChainIDSepolia, bc_rpcURL = cc_RPCURL cfg,
              bc_oneInchURL = extra_or cfg ''oneinch_url'' oneInchDefaultBaseURL, bc_oneInchKey = extra cfg ''oneinch_api_key'',
              bc_paraswapURL = extra_or cfg ''paraswap_url'' paraswapDefaultBaseURL,
              bc_aaveURL = extra_or cfg ''aave_subgraph_url'' defaultAaveSubgraphURL, bc_morphoURL = extra_or cfg ''morpho_url'' defaultMorphoGraphqlURL,
              bc_masterKey = key,
              bc_decCache = [(ToLower nativeETHAddress, 18), (''0x036cbd53842c5426634e7929541ec2318f3dcf7e'', 6),
                (''0x4200000000000000000000000000000000000006'', 18)]\<rparr>)))"

section \<open>Reads\<close>

definition IsHexAddress :: "('k, 't) base_env \<Rightarrow> string \<Rightarrow> bool" where "IsHexAddress env = et_IsHexAddress (be_eth env)"
definition HexToAddress :: "('k, 't) base_env \<Rightarrow> string \<Rightarrow> bytes" where "HexToAddress env = sp_HexToAddress (be_secp env)"

definition base_GetBalance :: "('k, 't) base_env \<Rightarrow> string \<Rightarrow> f64 result" where
  "base_GetBalance env address =
     (if \<not> IsHexAddress env address then Fail (''base: invalid address '' @ address)
      else bindr (wrapr ''base: balanceAt'' (rp_BalanceAt (be_rpc env) (HexToAddress env address))) (\<lambda>wei. Ok (weiToEther (Some wei))))"

definition erc20DecimalsSelector :: bytes where "erc20DecimalsSelector = [0x31, 0x3c, 0xe5, 0x67]"
definition erc20BalanceOfSelector :: bytes where "erc20BalanceOfSelector = [0x70, 0xa0, 0x82, 0x31]"

definition base_decimalsFor :: "('k, 't) base_env \<Rightarrow> string \<Rightarrow> BaseClient \<Rightarrow> BaseClient \<times> nat result" where
  "base_decimalsFor env token c =
     (let key = ToLower token in
      case map_of (bc_decCache c) key of
        Some d \<Rightarrow> (c, Ok d)
      | None \<Rightarrow>
          if \<not> IsHexAddress env token then (c, Fail (''base: invalid token '' @ token))
          else case rp_CallContract (be_rpc env) (HexToAddress env token) erc20DecimalsSelector of
            Inl e \<Rightarrow> (c, Inl (Wrap ''base: decimals()'' e))
          | Inr raw \<Rightarrow>
              if raw = [] then (c, Fail (''base: empty decimals() return for '' @ token))
              else let d = SetBytes raw in
                if 36 < d then (c, Fail (''base: implausible decimals '' @ itoa (int d) @ '' for '' @ token))
                else (c\<lparr>bc_decCache := AList.update key d (bc_decCache c)\<rparr>, Ok d))"

definition LeftPadBytes :: "bytes \<Rightarrow> nat \<Rightarrow> bytes" where "LeftPadBytes bs n = replicate (n - length bs) 0 @ bs"

definition base_GetTokenBalance :: "('k, 't) base_env \<Rightarrow> string \<Rightarrow> string \<Rightarrow> BaseClient \<Rightarrow> BaseClient \<times> f64 result" where
  "base_GetTokenBalance env address tokenAddr c =
     (if \<not> IsHexAddress env address then (c, Fail (''base: invalid owner '' @ address))
      else if ToLower tokenAddr = ToLower nativeETHAddress then (c, base_GetBalance env address)
      else if \<not> IsHexAddress env tokenAddr then (c, Fail (''base: invalid token '' @ tokenAddr))
      else case rp_CallContract (be_rpc env) (HexToAddress env tokenAddr) (erc20BalanceOfSelector @ LeftPadBytes (HexToAddress env address) 32) of
        Inl e \<Rightarrow> (c, Inl (Wrap ''base: balanceOf'' e))
      | Inr raw \<Rightarrow>
          if raw = [] then (c, Ok (Fin 0))
          else (case base_decimalsFor env tokenAddr c of
            (c', Inl e) \<Rightarrow> (c', Inl e)
          | (c', Inr dec) \<Rightarrow> (c', Ok (atomicToFloat (Some (int (SetBytes raw))) dec))))"

section \<open>The aggregator\<close>

definition aggregator_do :: "('k, 't) base_env \<Rightarrow> BaseClient \<Rightarrow> string \<Rightarrow> bool \<Rightarrow> string result" where
  "aggregator_do env c endpoint oneInch =
     http_exchange [] None (be_http env)
       \<lparr>hq_Method = ''GET'', hq_URL = endpoint,
        hq_Headers = accept_json # (if oneInch \<and> bc_oneInchKey c \<noteq> [] then [(''Authorization'', ''Bearer '' @ bc_oneInchKey c)] else []), hq_Body = None\<rparr>"

definition oneInchGetQuote :: "('k, 't) base_env \<Rightarrow> BaseClient \<Rightarrow> string \<Rightarrow> string \<Rightarrow> string \<Rightarrow> (oneInchQuoteResp \<times> string) result" where
  "oneInchGetQuote env c srcMint dstMint amount =
     bindr (wrapr ''1inch quote'' (aggregator_do env c
       (bc_oneInchURL c @ ''/'' @ itoa (int (bc_chainID c)) @ ''/quote?'' @
         EncodeValues [(''src'', srcMint), (''dst'', dstMint), (''amount'', amount), (''includeGas'', ''true'')]) True)) (\<lambda>body.
     bindr (wrapr ''1inch quote: decode'' (be_decode_quote env body)) (\<lambda>parsed. Ok (parsed, body)))"

definition oneInchBuildSwap :: "('k, 't) base_env \<Rightarrow> BaseClient \<Rightarrow> string \<Rightarrow> string \<Rightarrow> string \<Rightarrow> string \<Rightarrow> f64 \<Rightarrow> oneInchSwapResp result" where
  "oneInchBuildSwap env c srcMint dstMint amount fromAddr slippagePct =
     bindr (wrapr ''1inch swap'' (aggregator_do env c
       (bc_oneInchURL c @ ''/'' @ itoa (int (bc_chainID c)) @ ''/swap?'' @
         EncodeValues [(''src'', srcMint), (''dst'', dstMint), (''amount'', amount), (''from'', fromAddr), (''slippage'', be_shortest env slippagePct),
           (''disableEstimate'', ''false'')]) True)) (\<lambda>body.
     bindr (wrapr ''1inch swap: decode'' (be_decode_swap env body)) (\<lambda>parsed.
       if os_To parsed = [] \<or> os_Data parsed = [] then Fail ''1inch swap: empty tx in response'' else Ok parsed))"

definition paraswapGetQuote :: "('k, 't) base_env \<Rightarrow> BaseClient \<Rightarrow> string \<Rightarrow> string \<Rightarrow> string \<Rightarrow> (string \<times> string) result" where
  "paraswapGetQuote env c srcMint dstMint amount =
     bindr (wrapr ''paraswap quote'' (aggregator_do env c
       (bc_paraswapURL c @ ''/prices?'' @
         EncodeValues [(''srcToken'', srcMint), (''destToken'', dstMint), (''amount'', amount), (''network'', itoa (int (bc_chainID c))), (''side'', ''SELL'')])
       False)) (\<lambda>body.
     bindr (wrapr ''paraswap quote: decode'' (be_decode_paraswap env body)) (\<lambda>dest.
       if dest = [] then Fail ''paraswap quote: empty priceRoute'' else Ok (dest, body)))"

text \<open>The decimals of two tokens in turn.\<close>

definition two_decimals :: "('k, 't) base_env \<Rightarrow> string \<Rightarrow> string \<Rightarrow> BaseClient \<Rightarrow> BaseClient \<times> (nat \<times> nat) result" where
  "two_decimals env a b c =
     (case base_decimalsFor env a c of
        (c1, Inl e) \<Rightarrow> (c1, Inl e)
      | (c1, Inr da) \<Rightarrow> (case base_decimalsFor env b c1 of
          (c2, Inl e) \<Rightarrow> (c2, Inl e)
        | (c2, Inr db) \<Rightarrow> (c2, Ok (da, db))))"

text \<open>\<^verbatim>\<open>String\<close> of the result of \<open>floatToAtomic\<close>, which panics on NaN.\<close>

definition atomic_text :: "f64 \<Rightarrow> nat \<Rightarrow> string option" where
  "atomic_text amount decimals =
     (case floatToAtomic amount decimals of BigPanic \<Rightarrow> None | BigNil \<Rightarrow> Some (big_text None) | Big i \<Rightarrow> Some (big_text (Some i)))"

definition quote_of :: "('k, 't) base_env \<Rightarrow> BaseClient \<Rightarrow> string \<Rightarrow> string \<Rightarrow> f64 \<Rightarrow> nat \<Rightarrow> string \<Rightarrow> Quote result" where
  "quote_of env c tokenIn tokenOut amount decOut atomic =
     bindr (oneInchGetQuote env c tokenIn tokenOut atomic) (\<lambda>(parsed, raw).
       case SetString 10 (oq_DstAmount parsed) of
         None \<Rightarrow> Fail (''base: quote: bad dstAmount '' @ oq_DstAmount parsed)
       | Some dst \<Rightarrow> let out = atomicToFloat (Some dst) decOut in Ok
           \<lparr>qt_Chain = ''base'', qt_DEX = ''1inch'', qt_TokenIn = tokenIn, qt_TokenOut = tokenOut, qt_AmountIn = amount, qt_AmountOut = out,
            qt_Price = (if flt (Fin 0) amount then fdiv out amount else Fin 0), qt_PriceImpact = Fin 0, qt_FeeAmount = Fin 0, qt_SlippageBps = 0,
            qt_GeneratedAt = be_now env, qt_RouteRaw = raw\<rparr>)"

definition base_GetQuote :: "('k, 't) base_env \<Rightarrow> string \<Rightarrow> string \<Rightarrow> f64 \<Rightarrow> BaseClient \<Rightarrow> (BaseClient \<times> Quote result) option" where
  "base_GetQuote env tokenIn tokenOut amount c =
     (case two_decimals env tokenIn tokenOut c of
        (c', Inl e) \<Rightarrow> Some (c', Inl e)
      | (c', Inr (decIn, decOut)) \<Rightarrow>
          map_option (\<lambda>atomic. (c', quote_of env c' tokenIn tokenOut amount decOut atomic)) (atomic_text amount decIn))"

section \<open>Transactions\<close>

text \<open>\<^verbatim>\<open>strings.TrimPrefix(value, "0x")\<close> and then base 0: what is left no longer says that it is hexadecimal.\<close>

definition tx_value :: "string \<Rightarrow> int result" where
  "tx_value v =
     (if v = [] \<or> v = ''0'' then Ok 0
      else case SetString 0 (TrimPrefix v ''0x'') of None \<Rightarrow> Fail (''base: bad tx.value '' @ v) | Some i \<Rightarrow> Ok i)"

definition assembleSignedTx :: "('k, 't) base_env \<Rightarrow> BaseClient \<Rightarrow> 'k \<Rightarrow> string \<Rightarrow> oneInchSwapResp \<Rightarrow> 't result" where
  "assembleSignedTx env c priv fromAddr swap =
     (if \<not> IsHexAddress env (os_To swap) then Fail (''base: aggregator returned bad to '' @ os_To swap)
      else bindr (wrapr ''base: decode tx data'' (et_HexDecode (be_eth env) (os_Data swap))) (\<lambda>data.
           bindr (tx_value (os_Value swap)) (\<lambda>value.
           bindr (wrapr ''base: nonce'' (rp_PendingNonceAt (be_rpc env) (HexToAddress env fromAddr))) (\<lambda>nonce.
           bindr (wrapr ''base: gas tip'' (rp_SuggestGasTipCap (be_rpc env))) (\<lambda>tip.
           bindr (wrapr ''base: head'' (rp_BaseFee (be_rpc env))) (\<lambda>baseFee.
           wrapr ''base: sign'' (et_SignTx (be_eth env) (bc_chainID c) priv (et_NewTx (be_eth env)
             \<lparr>df_ChainID = bc_chainID c, df_Nonce = nonce, df_GasTipCap = tip, df_GasFeeCap = tip + baseFee * 2,
              df_Gas = (if os_Gas swap = 0 then 250000 else os_Gas swap), df_To = HexToAddress env (os_To swap), df_Value = value, df_Data = data\<rparr>))))))))"

text \<open>The client and what it has broadcast.\<close>

record 't base_world =
  bw_client :: BaseClient
  bw_sent :: "'t list"

definition dry_result :: TxResult where
  "dry_result = \<lparr>tx_Signature = ''dry-run'', tx_Success = True, tx_GasUsed = 0, tx_GasPriceWei = 0, tx_FeePaidUSD = Fin 0, tx_BlockNumber = 0, tx_ErrorMsg = []\<rparr>"

text \<open>The end of both sending methods: nothing is broadcast in a dry run.\<close>

definition broadcast_tx :: "('k, 't) base_env \<Rightarrow> string \<Rightarrow> bool \<Rightarrow> 't \<Rightarrow> 't base_world \<Rightarrow> 't base_world \<times> TxResult result" where
  "broadcast_tx env msg dry tx w =
     (if dry then (w, Ok dry_result)
      else case rp_SendTransaction (be_rpc env) tx of
        Inl e \<Rightarrow> (w\<lparr>bw_sent := bw_sent w @ [tx]\<rparr>, Inl (Wrap msg e))
      | Inr _ \<Rightarrow> (w\<lparr>bw_sent := bw_sent w @ [tx]\<rparr>, Ok (dry_result\<lparr>tx_Signature := et_Hash (be_eth env) tx, tx_GasUsed := et_Gas (be_eth env) tx\<rparr>)))"

definition slippage_percent :: "int \<Rightarrow> f64" where
  "slippage_percent bps = (let slip = fdiv (f64_of_int bps) (Fin 100) in if fle slip (Fin 0) then rnd (1 / 2) else slip)"

definition swap_with :: "('k, 't) base_env \<Rightarrow> bool \<Rightarrow> 'k \<Rightarrow> Quote \<Rightarrow> Wallet \<Rightarrow> string \<Rightarrow> 't base_world \<Rightarrow> 't base_world \<times> TxResult result" where
  "swap_with env dry priv q wallet atomic w =
     (case bindr (oneInchBuildSwap env (bw_client w) (qt_TokenIn q) (qt_TokenOut q) atomic (wl_Address wallet) (slippage_percent (qt_SlippageBps q)))
             (assembleSignedTx env (bw_client w) priv (wl_Address wallet)) of
        Inl e \<Rightarrow> (w, Inl e)
      | Inr tx \<Rightarrow> broadcast_tx env ''base: sendTransaction'' dry tx w)"

definition base_ExecuteSwap :: "('k, 't) base_env \<Rightarrow> bool \<Rightarrow> Quote option \<Rightarrow> Wallet option \<Rightarrow> 't base_world \<Rightarrow> ('t base_world \<times> TxResult result) option" where
  "base_ExecuteSwap env dry quote wallet w =
     (case (quote, wallet) of
        (None, _) \<Rightarrow> Some (w, Fail ''base: ExecuteSwap nil quote'')
      | (_, None) \<Rightarrow> Some (w, Fail ''base: ExecuteSwap nil wallet'')
      | (Some q, Some wl) \<Rightarrow> (case UnsealBaseWallet (be_E env) (be_secp env) (bc_masterKey (bw_client w)) (Some wl) of
          Inl e \<Rightarrow> Some (w, Inl (Wrap ''base: unseal'' e))
        | Inr priv \<Rightarrow> (case base_decimalsFor env (qt_TokenIn q) (bw_client w) of
            (c', Inl e) \<Rightarrow> Some (w\<lparr>bw_client := c'\<rparr>, Inl e)
          | (c', Inr decIn) \<Rightarrow> map_option (\<lambda>atomic. swap_with env dry priv q wl atomic (w\<lparr>bw_client := c'\<rparr>)) (atomic_text (qt_AmountIn q) decIn))))"

definition base_SimulateTransaction :: "('k, 't) base_env \<Rightarrow> Transaction option \<Rightarrow> BaseClient \<Rightarrow> SimResult result" where
  "base_SimulateTransaction env tw c =
     (case tw of
        None \<Rightarrow> Fail ''base: SimulateTransaction requires Transaction.Raw''
      | Some t \<Rightarrow>
          if tx_Raw t = [] then Fail ''base: SimulateTransaction requires Transaction.Raw''
          else bindr (wrapr ''base: parse tx'' (et_Unmarshal (be_eth env) (tx_Raw t))) (\<lambda>tx.
               bindr (wrapr ''base: sender'' (et_Sender (be_eth env) (bc_chainID c) tx)) (\<lambda>from.
                 case rp_EstimateGas (be_rpc env) from tx of
                   Inl e \<Rightarrow> Ok \<lparr>WouldSucceed = False, ExpectedOutput = Fin 0, GasEstimate = 0, ErrorMsg = error_text e\<rparr>
                 | Inr gas \<Rightarrow> Ok \<lparr>WouldSucceed = True, ExpectedOutput = Fin 0, GasEstimate = gas, ErrorMsg = []\<rparr>)))"

definition base_SendTransaction :: "('k, 't) base_env \<Rightarrow> bool \<Rightarrow> Transaction option \<Rightarrow> Wallet option \<Rightarrow> 't base_world \<Rightarrow> 't base_world \<times> TxResult result" where
  "base_SendTransaction env dry tw wallet w =
     (if (case tw of None \<Rightarrow> True | Some t \<Rightarrow> tx_Raw t = []) then (w, Fail ''base: SendTransaction requires Transaction.Raw'')
      else if wallet = None then (w, Fail ''base: SendTransaction nil wallet'')
      else case et_Unmarshal (be_eth env) (tx_Raw (the tw)) of
        Inl e \<Rightarrow> (w, Inl (Wrap ''base: parse tx'' e))
      | Inr tx \<Rightarrow>
          if et_Signed (be_eth env) tx then broadcast_tx env ''base: send pre-signed'' dry tx w
          else case UnsealBaseWallet (be_E env) (be_secp env) (bc_masterKey (bw_client w)) wallet of
            Inl e \<Rightarrow> (w, Inl (Wrap ''base: unseal'' e))
          | Inr priv \<Rightarrow> (case et_SignTx (be_eth env) (bc_chainID (bw_client w)) priv tx of
              Inl e \<Rightarrow> (w, Inl (Wrap ''base: sign'' e))
            | Inr stx \<Rightarrow> broadcast_tx env ''base: send'' dry stx w))"

text \<open>Liquidations are on paper; the seized bonus travels in cents through \<^verbatim>\<open>GasUsed\<close>.\<close>

definition paper_liquidation :: "(f64 \<Rightarrow> int) \<Rightarrow> LendingPosition \<Rightarrow> TxResult" where
  "paper_liquidation oob pos =
     (let cents = fmul (fdiv (fmul (lp_CollateralAmt pos) (lp_LiquidationBonus pos)) (Fin 10000)) (Fin 100); n = rtrunc (fval cents) in
      dry_result\<lparr>tx_Signature := ''devnet-paper-liq-'' @ ToLower (lp_Protocol pos),
        tx_GasUsed := (if is_fin cents \<and> 0 \<le> n \<and> n < 2 ^ 64 then n else oob cents)\<rparr>)"

definition base_ExecuteLiquidation :: "('k, 't) base_env \<Rightarrow> LendingPosition option \<Rightarrow> Wallet option \<Rightarrow> TxResult result" where
  "base_ExecuteLiquidation env pos wallet =
     (case pos of
        None \<Rightarrow> Fail ''base: ExecuteLiquidation nil position''
      | Some p \<Rightarrow> if wallet = None then Fail ''base: ExecuteLiquidation nil wallet'' else Ok (paper_liquidation (be_oob env) p))"

section \<open>Lending markets\<close>

definition text_lines :: "string list \<Rightarrow> string" where "text_lines ls = concat (map (\<lambda>l. CHR 0x0A # l) ls)"

definition aaveUserReservesQuery :: string where
  "aaveUserReservesQuery = text_lines
     [''query Liquidatable($limit: Int!) {'',
      ''  userReserves(first: $limit, where: {currentTotalDebt_gt: 0}, orderBy: currentTotalDebt, orderDirection: desc) {'',
      ''    user { id }'', ''    reserve {'', ''      symbol'', ''      underlyingAsset'', ''      reserveLiquidationBonus'', ''    }'',
      ''    currentATokenBalance'', ''    currentTotalDebt'', ''  }'', ''}'']"

definition morphoPositionsQuery :: string where
  "morphoPositionsQuery = text_lines
     [''query Liquidatable($limit: Int!, $chainId: Int!, $hfMax: Float!) {'', ''  marketPositions('', ''    first: $limit,'',
      ''    where: {chainId_in: [$chainId], healthFactor_lte: $hfMax},'', ''    orderBy: HealthFactor,'', ''    orderDirection: Asc'', ''  ) {'',
      ''    items {'', ''      user { address }'', ''      market {'', ''        collateralAsset { address }'', ''        loanAsset { address }'',
      ''        lltv'', ''      }'', ''      collateral'', ''      borrowAssets'', ''      healthFactor'', ''    }'', ''  }'', ''}'']"

definition gql_request :: "string \<Rightarrow> json \<Rightarrow> http_request" where
  "gql_request url body = \<lparr>hq_Method = ''POST'', hq_URL = url, hq_Headers = [content_json, accept_json], hq_Body = Some body\<rparr>"

definition no_errors :: "string \<Rightarrow> string list \<times> 'a list \<Rightarrow> 'a list result" where
  "no_errors msg r = (case fst r of [] \<Rightarrow> Ok (snd r) | e # _ \<Rightarrow> Fail (msg @ e))"

definition aave_row :: "(string \<Rightarrow> f64) \<Rightarrow> aave_position \<Rightarrow> LendingPosition" where
  "aave_row ParseFloat r =
     \<lparr>lp_Chain = ''base'', lp_Protocol = ''aave'', lp_Owner = av_User r, lp_CollateralAsset = av_Underlying r,
      lp_CollateralAmt = ParseFloat (av_ATokenBalance r), lp_DebtAsset = av_Underlying r, lp_DebtAmt = ParseFloat (av_TotalDebt r),
      lp_HealthFactor = Fin 0, lp_LiquidationBonus = ParseFloat (av_Bonus r)\<rparr>"

definition aave_fetchPositions :: "('k, 't) base_env \<Rightarrow> BaseClient \<Rightarrow> int \<Rightarrow> LendingPosition list result" where
  "aave_fetchPositions env c limit =
     (let n = (if limit \<le> 0 then 200 else limit) in
      bindr (http_exchange ''aave: '' (Some ''do'') (be_http env) (gql_request (bc_aaveURL c)
        (JsObj [(''query'', JsStr aaveUserReservesQuery), (''variables'', JsObj [(''limit'', JsNum (itoa n))])]))) (\<lambda>body.
      bindr (wrapr ''aave: decode'' (be_decode_aave env body)) (\<lambda>parsed.
      bindr (no_errors ''aave: graphql error: '' parsed) (\<lambda>rows. Ok (map (aave_row (be_ParseFloat env)) rows)))))"

definition morpho_bonus :: "f64 \<Rightarrow> f64" where
  "morpho_bonus lltvRaw = (let lltv = fdiv lltvRaw (rnd (10 ^ 18)) in
     if flt (Fin 0) lltv \<and> flt lltv (Fin 1) then fmul (fsub (Fin 1) lltv) (Fin 10000) else Fin 0)"

definition morpho_row :: "(string \<Rightarrow> f64) \<Rightarrow> morpho_position \<Rightarrow> LendingPosition" where
  "morpho_row ParseFloat r =
     \<lparr>lp_Chain = ''base'', lp_Protocol = ''morpho'', lp_Owner = mp_User r, lp_CollateralAsset = mp_CollateralAsset r,
      lp_CollateralAmt = ParseFloat (mp_Collateral r), lp_DebtAsset = mp_LoanAsset r, lp_DebtAmt = ParseFloat (mp_BorrowAssets r),
      lp_HealthFactor = mp_Health r, lp_LiquidationBonus = morpho_bonus (ParseFloat (mp_LLTV r))\<rparr>"

definition morpho_fetchPositions :: "('k, 't) base_env \<Rightarrow> BaseClient \<Rightarrow> int \<Rightarrow> LendingPosition list result" where
  "morpho_fetchPositions env c limit =
     (let n = (if limit \<le> 0 then 200 else limit) in
      bindr (http_exchange ''morpho: '' (Some ''do'') (be_http env) (gql_request (bc_morphoURL c)
        (JsObj [(''query'', JsStr morphoPositionsQuery),
                (''variables'', JsObj [(''chainId'', JsNum (itoa (int (bc_chainID c)))), (''hfMax'', JsNum ''1.05''), (''limit'', JsNum (itoa n))])]))) (\<lambda>body.
      bindr (wrapr ''morpho: decode'' (be_decode_morpho env body)) (\<lambda>parsed.
      bindr (no_errors ''morpho: graphql error: '' parsed) (\<lambda>rows. Ok (map (morpho_row (be_ParseFloat env)) rows)))))"

definition base_GetLendingPositions :: "('k, 't) base_env \<Rightarrow> BaseClient \<Rightarrow> string \<Rightarrow> LendingPosition list result" where
  "base_GetLendingPositions env c protocol =
     (if ToLower protocol = ''aave'' then aave_fetchPositions env c 0
      else if ToLower protocol = ''morpho'' then morpho_fetchPositions env c 0
      else Fail (''base: unknown lending protocol '' @ protocol))"

section \<open>Yields\<close>

definition aaveReservesQuery :: string where
  "aaveReservesQuery = text_lines
     [''query Reserves {'', ''  reserves(where: {isActive: true, isFrozen: false}) {'', ''    symbol'', ''    underlyingAsset'', ''    liquidityRate'',
      ''    totalLiquidity'', ''    decimals'', ''    price { priceInEth }'', ''  }'', ''}'']"

definition morphoMarketsQuery :: string where
  "morphoMarketsQuery = text_lines
     [''query Markets($chainId: Int!) {'', ''  markets(first: 100, where: {chainId_in: [$chainId]}) {'', ''    items {'', ''      uniqueKey'',
      ''      loanAsset { address symbol decimals }'', ''      state { supplyApy supplyAssetsUsd }'', ''    }'', ''  }'', ''}'']"

definition pow10 :: "int \<Rightarrow> f64" where "pow10 n = ((\<lambda>v. fmul v (Fin 10)) ^^ nat n) (Fin 1)"

definition reserve_rate :: "('k, 't) base_env \<Rightarrow> aave_reserve \<Rightarrow> YieldRate" where
  "reserve_rate env r =
     \<lparr>yr_Chain = ''base'', yr_Protocol = ''aave'', yr_Asset = rv_Underlying r, yr_APY = fdiv (be_ParseFloat env (rv_LiquidityRate r)) (rnd (10 ^ 27)),
      yr_TVL = fdiv (be_ParseFloat env (rv_TotalLiquidity r)) (pow10 (rv_Decimals r)), yr_UpdatedAt = be_now env\<rparr>"

definition fetchAaveRates :: "('k, 't) base_env \<Rightarrow> BaseClient \<Rightarrow> YieldRate list result" where
  "fetchAaveRates env c =
     bindr (wrapr ''aave yield'' (http_exchange [] None (be_http env) (gql_request (bc_aaveURL c) (JsObj [(''query'', JsStr aaveReservesQuery)])))) (\<lambda>body.
     bindr (wrapr ''aave yield: decode'' (be_decode_reserves env body)) (\<lambda>parsed.
     bindr (no_errors ''aave yield: graphql: '' parsed) (\<lambda>rows. Ok (map (reserve_rate env) rows))))"

text \<open>The best market per loan asset, in a map that is then ranged over.\<close>

definition market_rate :: "time \<Rightarrow> morpho_market \<Rightarrow> YieldRate" where
  "market_rate now m = \<lparr>yr_Chain = ''base'', yr_Protocol = ''morpho'', yr_Asset = mk_LoanAddress m, yr_APY = mk_SupplyApy m,
     yr_TVL = mk_SupplyAssetsUsd m, yr_UpdatedAt = now\<rparr>"

definition keep_best :: "time \<Rightarrow> morpho_market \<Rightarrow> (string \<times> YieldRate) list \<Rightarrow> (string \<times> YieldRate) list" where
  "keep_best now m best =
     (case map_of best (mk_LoanAddress m) of
        None \<Rightarrow> AList.update (mk_LoanAddress m) (market_rate now m) best
      | Some cur \<Rightarrow> if flt (yr_APY cur) (mk_SupplyApy m) then AList.update (mk_LoanAddress m) (market_rate now m) best else best)"

definition best_rates :: "time \<Rightarrow> morpho_market list \<Rightarrow> (string \<times> YieldRate) list" where
  "best_rates now items = fold (keep_best now) items []"

definition fetchMorphoRates :: "(YieldRate list \<Rightarrow> YieldRate list) \<Rightarrow> ('k, 't) base_env \<Rightarrow> BaseClient \<Rightarrow> YieldRate list result" where
  "fetchMorphoRates order env c =
     bindr (wrapr ''morpho yield'' (http_exchange [] None (be_http env) (gql_request (bc_morphoURL c)
       (JsObj [(''query'', JsStr morphoMarketsQuery), (''variables'', JsObj [(''chainId'', JsNum (itoa (int (bc_chainID c))))])])))) (\<lambda>body.
     bindr (wrapr ''morpho yield: decode'' (be_decode_markets env body)) (\<lambda>parsed.
     bindr (no_errors ''morpho yield: graphql: '' parsed) (\<lambda>items. Ok (order (map snd (best_rates (be_now env) items))))))"

fun base_yields :: "(YieldRate list \<Rightarrow> YieldRate list) \<Rightarrow> ('k, 't) base_env \<Rightarrow> BaseClient \<Rightarrow> string list \<Rightarrow> YieldRate list \<Rightarrow> YieldRate list result" where
  "base_yields order env c [] out = Ok out"
| "base_yields order env c (p # ps) out =
     (if ToLower p = ''aave'' then bindr (fetchAaveRates env c) (\<lambda>rates. base_yields order env c ps (out @ rates))
      else if ToLower p = ''morpho'' then bindr (fetchMorphoRates order env c) (\<lambda>rates. base_yields order env c ps (out @ rates))
      else Fail (''base: unknown yield protocol '' @ p))"

definition base_GetYieldRates :: "(YieldRate list \<Rightarrow> YieldRate list) \<Rightarrow> ('k, 't) base_env \<Rightarrow> BaseClient \<Rightarrow> string list \<Rightarrow> YieldRate list result" where
  "base_GetYieldRates order env c protocols = base_yields order env c protocols []"

section \<open>What is broadcast\<close>

lemma decimals_keep_key: "bc_masterKey (fst (base_decimalsFor env t c)) = bc_masterKey c" "bc_chainID (fst (base_decimalsFor env t c)) = bc_chainID c"
  by (auto simp: base_decimalsFor_def Let_def split: option.splits sum.splits)

lemma broadcast_tx_sent: "broadcast_tx env msg dry tx w = (w', r) \<Longrightarrow>
    bw_sent w' = (if dry then bw_sent w else bw_sent w @ [tx])"
  by (auto simp: broadcast_tx_def split: if_splits sum.splits)

lemma assembled_signed:
  assumes "assembleSignedTx env c priv addr swap = Ok tx"
  shows "\<exists>d. df_ChainID d = bc_chainID c \<and> df_To d = HexToAddress env (os_To swap) \<and> et_SignTx (be_eth env) (bc_chainID c) priv (et_NewTx (be_eth env) d) = Ok tx"
  using assms by (force simp: assembleSignedTx_def bindr_Ok_iff split: if_splits)

text \<open>
  A swap broadcasts nothing in a dry run, and otherwise at most one transaction, made for the client's chain and signed with
  the key the wallet unseals to, whose address is the wallet's; without a master key it broadcasts nothing at all.
\<close>

theorem base_swap_broadcasts_own:
  assumes "base_ExecuteSwap env dry quote wallet w = Some (w', r)"
  shows "(bw_sent w' = bw_sent w \<or>
     \<not> dry \<and> (\<exists>wl priv d tx. wallet = Some wl \<and> wl_Chain wl = ''base'' \<and>
        sp_PubkeyToAddress (be_secp env) priv = HexToAddress env (wl_Address wl) \<and> df_ChainID d = bc_chainID (bw_client w) \<and>
        et_SignTx (be_eth env) (bc_chainID (bw_client w)) priv (et_NewTx (be_eth env) d) = Ok tx \<and> bw_sent w' = bw_sent w @ [tx])) \<and>
    (bc_masterKey (bw_client w) = [] \<longrightarrow> bw_sent w' = bw_sent w \<and> (\<exists>e. r = Inl e))"
proof (cases "quote = None \<or> wallet = None")
  case True
  with assms show ?thesis by (auto simp: base_ExecuteSwap_def split: option.splits)
next
  case False
  then obtain q wl where qw: "quote = Some q" "wallet = Some wl" by auto
  let ?un = "UnsealBaseWallet (be_E env) (be_secp env) (bc_masterKey (bw_client w)) (Some wl)"
  show ?thesis
  proof (cases ?un)
    case (Inl e)
    with assms qw show ?thesis by (auto simp: base_ExecuteSwap_def)
  next
    case un: (Inr priv)
    then have own: "wl_Chain wl = ''base''" "sp_PubkeyToAddress (be_secp env) priv = HexToAddress env (wl_Address wl)"
      by (auto simp: UnsealBaseWallet_def bindr_Ok_iff HexToAddress_def split: if_splits)
    have key: "bc_masterKey (bw_client w) \<noteq> []" using un no_key_no_wallet(1) [of "be_E env" "be_secp env" "Some wl"] by auto
    obtain c' dr where dec: "base_decimalsFor env (qt_TokenIn q) (bw_client w) = (c', dr)" by fastforce
    have cid: "bc_chainID c' = bc_chainID (bw_client w)" using decimals_keep_key(2) [of env "qt_TokenIn q" "bw_client w"] dec by simp
    show ?thesis
    proof (cases dr)
      case (Inl e)
      with assms qw un dec key show ?thesis by (auto simp: base_ExecuteSwap_def)
    next
      case (Inr d)
      with assms qw un dec obtain atomic where sw: "swap_with env dry priv q wl atomic (w\<lparr>bw_client := c'\<rparr>) = (w', r)"
        by (auto simp: base_ExecuteSwap_def)
      show ?thesis
      proof (cases "bw_sent w' = bw_sent w")
        case False
        from sw False obtain swap tx where a: "assembleSignedTx env c' priv (wl_Address wl) swap = Ok tx"
          "broadcast_tx env ''base: sendTransaction'' dry tx (w\<lparr>bw_client := c'\<rparr>) = (w', r)"
          by (auto simp: swap_with_def bindr_Ok_iff split: sum.splits)
        with False broadcast_tx_sent [OF a(2)] have "\<not> dry" "bw_sent w' = bw_sent w @ [tx]" by (auto split: if_splits)
        with assembled_signed [OF a(1)] own qw key cid show ?thesis by auto
      qed (use key in simp)
    qed
  qed
qed

definition sample_base_client :: BaseClient where
  "sample_base_client = \<lparr>bc_network = ''sepolia'', bc_chainID = baseChainIDSepolia, bc_rpcURL = ''http://node'', bc_oneInchURL = oneInchDefaultBaseURL, bc_oneInchKey = [],
     bc_paraswapURL = paraswapDefaultBaseURL, bc_aaveURL = defaultAaveSubgraphURL, bc_morphoURL = defaultMorphoGraphqlURL, bc_masterKey = [],
     bc_decCache = [(''usdc'', 6)]\<rparr>"

definition sample_base_env :: "(bool, dynamic_fee_tx option) base_env" where
  "sample_base_env = \<lparr>be_E = xor_cipher, be_secp = sample_secp,
     be_eth = \<lparr>et_IsHexAddress = (\<lambda>_. True), et_HexDecode = (\<lambda>_. Ok [1]), et_NewTx = Some, et_SignTx = (\<lambda>_ _ t. Ok t), et_Unmarshal = (\<lambda>_. Fail ''rlp''),
       et_Sender = (\<lambda>_ _. Ok [1]), et_Signed = (\<lambda>_. False), et_Hash = (\<lambda>_. ''0xabc''), et_Gas = (\<lambda>_. 21000)\<rparr>,
     be_rpc = \<lparr>rp_BalanceAt = (\<lambda>_. Ok 0), rp_CallContract = (\<lambda>_ _. Ok [6]), rp_PendingNonceAt = (\<lambda>_. Ok 0), rp_SuggestGasTipCap = Ok 1, rp_BaseFee = Ok 2,
       rp_EstimateGas = (\<lambda>_ _. Ok 21000), rp_SendTransaction = (\<lambda>_. Ok ())\<rparr>,
     be_http = \<lparr>ht_build = (\<lambda>_. None), ht_do = (\<lambda>_. Ok (200, Ok ''{}''))\<rparr>, be_decode_quote = (\<lambda>_. Ok \<lparr>oq_DstAmount = ''5'', oq_Gas = 0\<rparr>),
     be_decode_swap = (\<lambda>_. Ok \<lparr>os_DstAmount = ''5'', os_From = ''0x01'', os_To = ''0x02'', os_Data = ''0x01'', os_Value = ''0'', os_Gas = 0, os_GasPrice = ''1''\<rparr>),
     be_decode_paraswap = (\<lambda>_. Ok ''5''), be_decode_aave = (\<lambda>_. Ok ([], [])), be_decode_morpho = (\<lambda>_. Ok ([], [])), be_decode_reserves = (\<lambda>_. Ok ([], [])),
     be_decode_markets = (\<lambda>_. Ok ([], [])), be_ParseFloat = (\<lambda>_. Fin 0), be_shortest = (\<lambda>_. ''0.5''), be_oob = (\<lambda>_. 0), be_now = 0\<rparr>"

definition sample_base_quote :: Quote where
  "sample_base_quote = \<lparr>qt_Chain = ''base'', qt_DEX = ''1inch'', qt_TokenIn = ''USDC'', qt_TokenOut = ''WETH'', qt_AmountIn = Fin 1, qt_AmountOut = Fin 1, qt_Price = Fin 1,
     qt_PriceImpact = Fin 0, qt_FeeAmount = Fin 0, qt_SlippageBps = 0, qt_GeneratedAt = 0, qt_RouteRaw = []\<rparr>"

lemma base_swap_broadcasts_own_witness:
  "\<exists>w' r. base_ExecuteSwap sample_base_env False (Some sample_base_quote) (Some \<lparr>wl_Chain = ''base'', wl_Address = ''a'', wl_KeyEncrypted = []\<rparr>)
      \<lparr>bw_client = sample_base_client, bw_sent = []\<rparr> = Some (w', r) \<and> bw_sent w' = [] \<and> (\<exists>e. r = Inl e)"
proof -
  let ?w = "\<lparr>bw_client = sample_base_client, bw_sent = []\<rparr> :: (dynamic_fee_tx option) base_world"
  let ?wl = "\<lparr>wl_Chain = ''base'', wl_Address = ''a'', wl_KeyEncrypted = []\<rparr>"
  have key: "bc_masterKey (bw_client ?w) = []" by (simp add: sample_base_client_def)
  obtain w' r where "base_ExecuteSwap sample_base_env False (Some sample_base_quote) (Some ?wl) ?w = Some (w', r)"
    by (auto simp: base_ExecuteSwap_def sample_base_client_def UnsealBaseWallet_def decryptBaseKey_def decrypt_as_def blob_of_def gcmNonceSize_def)
  with base_swap_broadcasts_own [OF this] key show ?thesis by auto
qed

text \<open>A transaction that arrives signed is broadcast whoever signed it: the wallet is not looked at.\<close>

lemma presigned_ignores_wallet:
  assumes "et_Unmarshal (be_eth env) (tx_Raw t) = Ok tx" "et_Signed (be_eth env) tx" "tx_Raw t \<noteq> []"
  shows "bw_sent (fst (base_SendTransaction env False (Some t) (Some wl) w)) = bw_sent w @ [tx]"
  using assms by (auto simp: base_SendTransaction_def broadcast_tx_def split: sum.splits)

lemma value_without_prefix: "tx_value ''0x10'' = Ok 10 \<and> tx_value ''16'' = Ok 16 \<and> (\<exists>e. tx_value ''0xde0b6b3a7640000'' = Inl e)"
proof -
  have "TrimPrefix ''0x10'' ''0x'' = ''10''" "TrimPrefix ''16'' ''0x'' = ''16''" "TrimPrefix ''0xde0b6b3a7640000'' ''0x'' = ''de0b6b3a7640000''"
    by (simp_all add: TrimPrefix_def)
  moreover have "SetString 0 ''16'' = Some 16" by code_simp
  ultimately show ?thesis using hex_prefix_lost by (simp add: tx_value_def)
qed

section \<open>Senders\<close>

text \<open>
  What the clients promise of a call that may broadcast: in a dry run it broadcasts nothing, and otherwise one transaction at
  most.  Both sending methods of both chains keep it.
\<close>

definition calls :: "(bool \<Rightarrow> 'q \<Rightarrow> 'w \<Rightarrow> 'w) \<Rightarrow> (bool \<times> 'q) list \<Rightarrow> 'w \<Rightarrow> 'w" where
  "calls call qs w = fold (\<lambda>(d, q). call d q) qs w"

locale broadcaster =
  fixes call :: "bool \<Rightarrow> 'q \<Rightarrow> 'w \<Rightarrow> 'w"
    and sent :: "'w \<Rightarrow> 't list"
  assumes dry_silent: "sent (call True q w) = sent w"
    and at_most_one: "sent (call False q w) = sent w \<or> (\<exists>t. sent (call False q w) = sent w @ [t])"
begin

lemma call_extend: "\<exists>us. sent (call d q w) = sent w @ us \<and> length us \<le> (if d then 0 else 1)"
proof (cases d)
  case True
  then show ?thesis using dry_silent by simp
next
  case False
  from at_most_one [of q w] consider "sent (call False q w) = sent w @ []" | t where "sent (call False q w) = sent w @ [t]" by auto
  then show ?thesis
  proof cases
    case 1
    with False show ?thesis by (intro exI [of _ "[]"]) simp
  next
    case (2 t)
    with False show ?thesis by (intro exI [of _ "[t]"]) simp
  qed
qed

lemma calls_extend: "\<exists>ts. sent (calls call qs w) = sent w @ ts \<and> length ts \<le> length (filter (\<lambda>(d, q). \<not> d) qs)"
proof (induction qs arbitrary: w)
  case (Cons c qs)
  obtain d q where c: "c = (d, q)" by fastforce
  obtain ts where ts: "sent (calls call qs (call d q w)) = sent (call d q w) @ ts" "length ts \<le> length (filter (\<lambda>(d, q). \<not> d) qs)"
    using Cons by blast
  obtain us where us: "sent (call d q w) = sent w @ us" "length us \<le> (if d then 0 else 1)" using call_extend by blast
  have "calls call (c # qs) w = calls call qs (call d q w)" by (simp add: calls_def c)
  then have "sent (calls call (c # qs) w) = sent w @ (us @ ts)" using ts(1) us(1) by simp
  moreover have "length (us @ ts) \<le> length (filter (\<lambda>(d, q). \<not> d) (c # qs))" using ts(2) us(2) by (simp add: c split: if_splits)
  ultimately show ?case by blast
qed (simp add: calls_def)

lemma dry_calls:
  assumes "\<And>c. c \<in> set qs \<Longrightarrow> fst c"
  shows "sent (calls call qs w) = sent w"
proof -
  have "filter (\<lambda>(d, q). \<not> d) qs = []" using assms by (auto simp: filter_empty_conv)
  then show ?thesis using calls_extend [of qs w] by simp
qed

end

definition base_swap_call :: "('k, 't) base_env \<Rightarrow> bool \<Rightarrow> Quote option \<times> Wallet option \<Rightarrow> 't base_world \<Rightarrow> 't base_world" where
  "base_swap_call env dry q w = (case base_ExecuteSwap env dry (fst q) (snd q) w of None \<Rightarrow> w | Some (w', _) \<Rightarrow> w')"

definition base_send_call :: "('k, 't) base_env \<Rightarrow> bool \<Rightarrow> Transaction option \<times> Wallet option \<Rightarrow> 't base_world \<Rightarrow> 't base_world" where
  "base_send_call env dry q w = fst (base_SendTransaction env dry (fst q) (snd q) w)"

lemma swap_with_sent:
  "swap_with env dry priv q wl atomic w = (w', r) \<Longrightarrow> bw_sent w' = bw_sent w \<or> \<not> dry \<and> (\<exists>tx. bw_sent w' = bw_sent w @ [tx])"
  by (auto simp: swap_with_def broadcast_tx_def split: sum.splits if_splits)

interpretation base_swaps: broadcaster "base_swap_call env" bw_sent
proof
  fix q :: "Quote option \<times> Wallet option" and w :: "'b base_world"
  have "bw_sent (base_swap_call env dry q w) = bw_sent w \<or> \<not> dry \<and> (\<exists>tx. bw_sent (base_swap_call env dry q w) = bw_sent w @ [tx])" for dry
    by (auto simp: base_swap_call_def base_ExecuteSwap_def split: option.splits sum.splits prod.splits dest!: swap_with_sent)
  from this [of True] this [of False]
  show "bw_sent (base_swap_call env True q w) = bw_sent w"
    "bw_sent (base_swap_call env False q w) = bw_sent w \<or> (\<exists>t. bw_sent (base_swap_call env False q w) = bw_sent w @ [t])" by simp_all
qed

interpretation base_sends: broadcaster "base_send_call env" bw_sent
  by unfold_locales (auto simp: base_send_call_def base_SendTransaction_def broadcast_tx_def split: option.splits sum.splits prod.splits)

section \<open>Rates\<close>

definition best_row :: "morpho_market list \<Rightarrow> string \<Rightarrow> YieldRate \<Rightarrow> bool" where
  "best_row items a r \<longleftrightarrow> yr_Asset r = a \<and> (\<exists>m \<in> set items. mk_LoanAddress m = a \<and> yr_APY r = mk_SupplyApy m \<and> yr_TVL r = mk_SupplyAssetsUsd m) \<and>
     (\<forall>m \<in> set items. mk_LoanAddress m = a \<longrightarrow> \<not> flt (yr_APY r) (mk_SupplyApy m))"

definition best_for :: "morpho_market list \<Rightarrow> (string \<times> YieldRate) list \<Rightarrow> bool" where
  "best_for items best \<longleftrightarrow> distinct (map fst best) \<and> fst ` set best = mk_LoanAddress ` set items \<and> (\<forall>(a, r) \<in> set best. best_row items a r)"

lemma flt_trans': "flt x y \<Longrightarrow> flt y z \<Longrightarrow> flt x z"
  by (rule flt_fle_trans [OF _ flt_imp_fle])

lemma keep_best_step:
  assumes "best_for items best"
  shows "best_for (items @ [m]) (keep_best now m best)"
proof -
  let ?a = "mk_LoanAddress m"
  have d: "distinct (map fst best)" and keys: "fst ` set best = mk_LoanAddress ` set items"
    and rows: "\<And>a r. (a, r) \<in> set best \<Longrightarrow> best_row items a r"
    using assms unfolding best_for_def by (simp, simp, blast)
  have more: "best_row (items @ [m]) a r" if "best_row items a r" "?a = a \<Longrightarrow> \<not> flt (yr_APY r) (mk_SupplyApy m)" for a r
    using that by (auto simp: best_row_def)
  have upd: "(a, r) \<in> set (AList.update ?a v best) \<longleftrightarrow> (if a = ?a then r = v else (a, r) \<in> set best)" for a r v
  proof -
    have "(a, r) \<in> set (AList.update ?a v best) \<longleftrightarrow> map_of (AList.update ?a v best) a = Some r"
      using distinct_update [OF d] by simp
    also have "\<dots> \<longleftrightarrow> (if a = ?a then r = v else (a, r) \<in> set best)" using d by (auto simp: update_conv')
    finally show ?thesis .
  qed
  have ukeys: "fst ` set (AList.update ?a v best) = insert ?a (mk_LoanAddress ` set items)" for v
    by (simp add: dom_map_of_conv_image_fst [symmetric] update_conv' keys) (simp add: dom_map_of_conv_image_fst keys)
  have replaced: "best_for (items @ [m]) (AList.update ?a (market_rate now m) best)"
    if "\<And>n. n \<in> set items \<Longrightarrow> mk_LoanAddress n = ?a \<Longrightarrow> \<not> flt (mk_SupplyApy m) (mk_SupplyApy n)"
  proof -
    have "best_row (items @ [m]) ?a (market_rate now m)" using that by (simp add: best_row_def market_rate_def)
    moreover have "best_row (items @ [m]) a r" if "(a, r) \<in> set best" "a \<noteq> ?a" for a r using more rows that by blast
    ultimately have "\<forall>(a, r) \<in> set (AList.update ?a (market_rate now m) best). best_row (items @ [m]) a r"
      by (clarsimp simp: upd split: if_splits)
    then show ?thesis using distinct_update [OF d] unfolding best_for_def ukeys by simp
  qed
  show ?thesis
  proof (cases "map_of best ?a")
    case None
    then have "?a \<notin> mk_LoanAddress ` set items" using keys by (simp add: map_of_eq_None_iff)
    then have "best_for (items @ [m]) (AList.update ?a (market_rate now m) best)" by (intro replaced) (metis image_eqI)
    with None show ?thesis by (simp add: keep_best_def)
  next
    case (Some cur)
    then have cur: "(?a, cur) \<in> set best" by (rule map_of_SomeD)
    show ?thesis
    proof (cases "flt (yr_APY cur) (mk_SupplyApy m)")
      case True
      have "best_for (items @ [m]) (AList.update ?a (market_rate now m) best)"
        by (intro replaced) (use rows [OF cur] flt_trans' [OF True] in \<open>auto simp: best_row_def\<close>)
      with Some True show ?thesis by (simp add: keep_best_def)
    next
      case False
      have "?a \<in> mk_LoanAddress ` set items" using cur keys by force
      moreover have "best_row (items @ [m]) a r" if "(a, r) \<in> set best" for a r
      proof (rule more [OF rows [OF that]])
        assume "?a = a"
        then have "r = cur" using map_of_is_SomeI [OF d that] Some by simp
        with False show "\<not> flt (yr_APY r) (mk_SupplyApy m)" by simp
      qed
      ultimately have "best_for (items @ [m]) best" using d by (auto simp: best_for_def keys)
      with Some False show ?thesis by (simp add: keep_best_def)
    qed
  qed
qed

text \<open>
  Of the markets of an answer, the rates keep exactly one row per loan asset, taken from one of its markets, and no market of
  the asset pays more.
\<close>

theorem morpho_best_per_asset: "best_for items (best_rates now items)"
proof (induction items rule: rev_induct)
  case Nil
  then show ?case by (simp add: best_for_def best_rates_def)
next
  case (snoc m items)
  then show ?case using keep_best_step by (simp add: best_rates_def)
qed

end
