(* ===== verification/SolanaChain.thy ===== *)
theory SolanaChain
  imports BaseChain Liquidation
begin

text \<open>
  \<^verbatim>\<open>internal/chain/solana.go\<close>, \<^verbatim>\<open>solana_jupiter.go\<close>, \<^verbatim>\<open>solana_marginfi.go\<close>, \<^verbatim>\<open>solana_kamino.go\<close> and
  \<^verbatim>\<open>solana_yield.go\<close>: the client of the Solana chain, its aggregator, the decoders of the two lending programs' accounts, and
  the rate services.  The RPC node and the transaction library are fields of an environment.

  A missing route of a quote is the empty text: a route the client stored is a body that was decoded, and so not empty.
\<close>

section \<open>Environment\<close>

record jupiterQuoteResp =
  jq_OutAmount :: string
  jq_SlippageBps :: int
  jq_PriceImpactPct :: string

record marginfi_bank =
  mb_MintSymbol :: string
  mb_LendingAPY :: f64
  mb_TotalDeposits :: f64

record kamino_reserve =
  kr_Symbol :: string
  kr_SupplyAPY :: f64
  kr_TotalSupply :: f64

record ('k, 't) sol_lib =
  so_FromBase58 :: "string \<Rightarrow> bytes result"
  so_Base58 :: "bytes \<Rightarrow> string"
  so_PublicKey :: "'k \<Rightarrow> bytes"
  so_FromBytes :: "bytes \<Rightarrow> 't result"
  so_Sign :: "'t \<Rightarrow> (bytes \<Rightarrow> 'k option) \<Rightarrow> 't result"

text \<open>A simulation may come back empty; otherwise it carries the text of its error, if any.\<close>

record 't sol_rpc =
  sr_GetBalance :: "bytes \<Rightarrow> 64 word result"
  sr_TokenAccounts :: "bytes \<Rightarrow> bytes \<Rightarrow> bytes list result"
  sr_TokenAccountBalance :: "bytes \<Rightarrow> (string \<times> 8 word) result"
  sr_TokenSupply :: "bytes \<Rightarrow> 8 word option result"
  sr_Simulate :: "'t \<Rightarrow> string option option result"
  sr_Send :: "'t \<Rightarrow> string result"
  sr_ProgramAccounts :: "bytes \<Rightarrow> string \<Rightarrow> bytes option list result"

record ('k, 't) sol_env =
  se_E :: block_cipher
  se_ed :: "'k ed25519"
  se_lib :: "('k, 't) sol_lib"
  se_rpc :: "'t sol_rpc"
  se_http :: http_client
  se_decode_quote :: "string \<Rightarrow> jupiterQuoteResp result"
  se_parse_route :: "string \<Rightarrow> json result"
  se_decode_swap :: "string \<Rightarrow> string result"
  se_decode_banks :: "string \<Rightarrow> marginfi_bank list result"
  se_decode_markets :: "string \<Rightarrow> kamino_reserve list list result"
  se_ParseFloat :: "string \<Rightarrow> f64 \<times> error option"
  se_ParseUint :: "string \<Rightarrow> 64 word result"
  se_b64_error :: "string \<Rightarrow> error"
  se_oob :: "f64 \<Rightarrow> int"
  se_now :: time

section \<open>The client\<close>

record yieldClient =
  yc_marginFiURL :: string
  yc_kaminoURL :: string

record SolanaClient =
  sc_network :: string
  sc_rpcURL :: string
  sc_jupiterURL :: string
  sc_yield :: yieldClient
  sc_masterKey :: bytes
  sc_mintCache :: "(string \<times> 8 word) list"

definition wrappedSOLMint :: string where "wrappedSOLMint = ''So11111111111111111111111111111111111111112''"
definition jupiterDefaultBaseURL :: string where "jupiterDefaultBaseURL = ''https://lite-api.jup.ag/swap/v1''"
definition defaultMarginFiYieldURL :: string where "defaultMarginFiYieldURL = ''https://api.marginfi.com/v2/banks''"
definition defaultKaminoYieldURL :: string where "defaultKaminoYieldURL = ''https://api.kamino.finance/v2/markets''"

definition newYieldClient :: "ChainConfig \<Rightarrow> yieldClient" where
  "newYieldClient cfg = \<lparr>yc_marginFiURL = extra_or cfg ''marginfi_yield_url'' defaultMarginFiYieldURL,
     yc_kaminoURL = extra_or cfg ''kamino_yield_url'' defaultKaminoYieldURL\<rparr>"

definition solanaFactory :: "string \<Rightarrow> (string \<Rightarrow> bytes result) \<Rightarrow> ChainConfig \<Rightarrow> SolanaClient result" where
  "solanaFactory DevNet_RPC dehex cfg =
     (if cc_Network cfg = ''mainnet'' then Fail ''solana: mainnet disabled''
      else bindr (factory_key ''solana'' dehex cfg) (\<lambda>key. Ok
        \<lparr>sc_network = (if cc_Network cfg = [] then ''devnet'' else cc_Network cfg),
         sc_rpcURL = (if cc_RPCURL cfg = [] then DevNet_RPC else cc_RPCURL cfg),
         sc_jupiterURL = extra_or cfg ''jupiter_url'' jupiterDefaultBaseURL, sc_yield = newYieldClient cfg, sc_masterKey = key,
         sc_mintCache = [(wrappedSOLMint, 9), (''EPjFWdd5AufqSSqeM2qN1xzybapC8G4wEGGkZwyTDt1v'', 6), (''Es9vMFrzaCERmJfrF4H2FYD4KCoNkY11McCe8BenwNYB'', 6)]\<rparr>))"

section \<open>Reads\<close>

definition uint_f64 :: "64 word \<Rightarrow> f64" where "uint_f64 v = f64_of_int (uint v)"

text \<open>\<^verbatim>\<open>math.Pow10\<close> multiplies an entry of a table by 32 and one of a table by 1; \<^verbatim>\<open>math.Round\<close> rounds halves away from zero.\<close>

definition Pow10 :: "8 word \<Rightarrow> f64" where
  "Pow10 d = (let n = unat d in fmul (rnd (10 ^ (32 * (n div 32)))) (rnd (10 ^ (n mod 32))))"

definition Round :: "f64 \<Rightarrow> f64" where
  "Round x = (if is_fin x \<and> fval x \<noteq> 0 then
     (if fval x < 0 then fneg (Fin (of_int \<lfloor>- fval x + 1 / 2\<rfloor>)) else Fin (of_int \<lfloor>fval x + 1 / 2\<rfloor>)) else x)"

definition to_uint64 :: "(f64 \<Rightarrow> int) \<Rightarrow> f64 \<Rightarrow> 64 word" where
  "to_uint64 oob x = (let n = rtrunc (fval x) in word_of_int (if is_fin x \<and> 0 \<le> n \<and> n < 2 ^ 64 then n else oob x))"

definition sol_GetBalance :: "('k, 't) sol_env \<Rightarrow> string \<Rightarrow> f64 result" where
  "sol_GetBalance env address =
     bindr (wrapr ''solana: parse address'' (so_FromBase58 (se_lib env) address)) (\<lambda>pk.
     bindr (wrapr ''solana: getBalance'' (sr_GetBalance (se_rpc env) pk)) (\<lambda>v. Ok (fdiv (uint_f64 v) (rnd (10 ^ 9)))))"

text \<open>The accounts of an owner for a token, one by one; the decimals of each go into the cache.\<close>

fun sum_accounts :: "('k, 't) sol_env \<Rightarrow> string \<Rightarrow> bytes list \<Rightarrow> f64 \<Rightarrow> SolanaClient \<Rightarrow> SolanaClient \<times> f64 result" where
  "sum_accounts env tok [] acc c = (c, Ok acc)"
| "sum_accounts env tok (a # as) acc c =
     (case sr_TokenAccountBalance (se_rpc env) a of
        Inl e \<Rightarrow> (c, Inl (Wrap ''solana: getTokenAccountBalance'' e))
      | Inr (amount, dec) \<Rightarrow> (case se_ParseFloat env amount of
          (_, Some e) \<Rightarrow> (c, Inl (Wrap ''solana: parse amount'' e))
        | (amt, None) \<Rightarrow> sum_accounts env tok as (fadd acc (fdiv amt (Pow10 dec))) (c\<lparr>sc_mintCache := AList.update tok dec (sc_mintCache c)\<rparr>)))"

definition sol_GetTokenBalance :: "('k, 't) sol_env \<Rightarrow> string \<Rightarrow> string \<Rightarrow> SolanaClient \<Rightarrow> SolanaClient \<times> f64 result" where
  "sol_GetTokenBalance env address tokenAddr c =
     (case bindr (wrapr ''solana: parse owner'' (so_FromBase58 (se_lib env) address)) (\<lambda>owner.
           bindr (wrapr ''solana: parse mint'' (so_FromBase58 (se_lib env) tokenAddr)) (\<lambda>mint.
           wrapr ''solana: getTokenAccountsByOwner'' (sr_TokenAccounts (se_rpc env) owner mint))) of
        Inl e \<Rightarrow> (c, Inl e)
      | Inr accounts \<Rightarrow> sum_accounts env tokenAddr accounts (Fin 0) c)"

definition sol_decimalsFor :: "('k, 't) sol_env \<Rightarrow> string \<Rightarrow> SolanaClient \<Rightarrow> SolanaClient \<times> 8 word result" where
  "sol_decimalsFor env mint c =
     (case map_of (sc_mintCache c) mint of
        Some d \<Rightarrow> (c, Ok d)
      | None \<Rightarrow> (case bindr (wrapr (''solana: parse mint '' @ mint) (so_FromBase58 (se_lib env) mint)) (\<lambda>pk.
             wrapr ''solana: getTokenSupply'' (sr_TokenSupply (se_rpc env) pk)) of
          Inl e \<Rightarrow> (c, Inl e)
        | Inr None \<Rightarrow> (c, Fail (''solana: empty token supply response for '' @ mint))
        | Inr (Some d) \<Rightarrow> (c\<lparr>sc_mintCache := AList.update mint d (sc_mintCache c)\<rparr>, Ok d)))"

section \<open>The aggregator\<close>

definition jupiter_getQuote :: "('k, 't) sol_env \<Rightarrow> string \<Rightarrow> string \<Rightarrow> string \<Rightarrow> 64 word \<Rightarrow> int \<Rightarrow> (jupiterQuoteResp \<times> string) result" where
  "jupiter_getQuote env base inputMint outputMint amountAtomic slippageBps =
     bindr (wrapr ''jupiter quote'' (http_exchange [] None (se_http env)
       \<lparr>hq_Method = ''GET'',
        hq_URL = base @ ''/quote?'' @ EncodeValues [(''inputMint'', inputMint), (''outputMint'', outputMint), (''amount'', itoa (uint amountAtomic)),
          (''slippageBps'', itoa (if slippageBps = 0 then 50 else slippageBps)), (''swapMode'', ''ExactIn''), (''onlyDirectRoutes'', ''false'')],
        hq_Headers = [accept_json], hq_Body = None\<rparr>)) (\<lambda>body.
     bindr (wrapr ''jupiter quote: decode'' (se_decode_quote env body)) (\<lambda>parsed. Ok (parsed, body)))"

text \<open>\<^verbatim>\<open>base64.StdEncoding\<close>: line ends are skipped, padding ends the text, spare bits are not looked at.\<close>

definition b64_digit :: "char \<Rightarrow> nat option" where
  "b64_digit c = (let n = (of_char c :: nat) in
     if 65 \<le> n \<and> n \<le> 90 then Some (n - 65) else if 97 \<le> n \<and> n \<le> 122 then Some (n - 71)
     else if 48 \<le> n \<and> n \<le> 57 then Some (n + 4) else if c = CHR ''+'' then Some 62 else if c = CHR ''/'' then Some 63 else None)"

definition b64_quad :: "nat \<Rightarrow> nat \<Rightarrow> nat \<Rightarrow> nat \<Rightarrow> bytes" where
  "b64_quad a b c d = (let v = ((a * 64 + b) * 64 + c) * 64 + d in [of_nat (v div 65536), of_nat (v div 256), of_nat v])"

fun b64_groups :: "string \<Rightarrow> bytes option" where
  "b64_groups [] = Some []"
| "b64_groups (p # q # r # s # rest) =
     (case (b64_digit p, b64_digit q) of
        (Some a, Some b) \<Rightarrow>
          if r = CHR ''='' \<and> s = CHR ''='' \<and> rest = [] then Some (take 1 (b64_quad a b 0 0))
          else (case b64_digit r of
            None \<Rightarrow> None
          | Some c \<Rightarrow>
              if s = CHR ''='' \<and> rest = [] then Some (take 2 (b64_quad a b c 0))
              else (case b64_digit s of None \<Rightarrow> None | Some d \<Rightarrow> map_option ((@) (b64_quad a b c d)) (b64_groups rest)))
      | _ \<Rightarrow> None)"
| "b64_groups _ = None"

definition b64_decode :: "string \<Rightarrow> bytes option" where
  "b64_decode s = b64_groups (filter (\<lambda>c. c \<noteq> CHR 0x0A \<and> c \<noteq> CHR 0x0D) s)"

definition jupiter_buildSwapTx :: "('k, 't) sol_env \<Rightarrow> string \<Rightarrow> string \<Rightarrow> string \<Rightarrow> bytes result" where
  "jupiter_buildSwapTx env base userPubkey routeRaw =
     bindr (wrapr ''jupiter swap: marshal'' (se_parse_route env routeRaw)) (\<lambda>route.
     bindr (wrapr ''jupiter swap'' (http_exchange [] None (se_http env)
       \<lparr>hq_Method = ''POST'', hq_URL = base @ ''/swap'', hq_Headers = [content_json, accept_json],
        hq_Body = Some (JsObj [(''userPublicKey'', JsStr userPubkey), (''wrapAndUnwrapSol'', JsBool True), (''useSharedAccounts'', JsBool True),
          (''dynamicComputeUnitLimit'', JsBool True), (''quoteResponse'', route)])\<rparr>)) (\<lambda>body.
     bindr (wrapr ''jupiter swap: decode'' (se_decode_swap env body)) (\<lambda>swapTransaction.
       if swapTransaction = [] then Fail ''jupiter swap: empty swapTransaction in response''
       else case b64_decode swapTransaction of
         None \<Rightarrow> Inl (Wrap ''jupiter swap: b64 decode'' (se_b64_error env swapTransaction))
       | Some txBytes \<Rightarrow> Ok txBytes)))"

section \<open>Quotes and transactions\<close>

definition sol_quote_of :: "('k, 't) sol_env \<Rightarrow> SolanaClient \<Rightarrow> string \<Rightarrow> string \<Rightarrow> f64 \<Rightarrow> 8 word \<Rightarrow> 8 word \<Rightarrow> Quote result" where
  "sol_quote_of env c tokenIn tokenOut amount decIn decOut =
     bindr (jupiter_getQuote env (sc_jupiterURL c) tokenIn tokenOut (to_uint64 (se_oob env) (Round (fmul amount (Pow10 decIn)))) 0) (\<lambda>(parsed, raw).
     bindr (wrapr ''solana: parse outAmount'' (se_ParseUint env (jq_OutAmount parsed))) (\<lambda>outAtomic.
       let out = fdiv (uint_f64 outAtomic) (Pow10 decOut) in Ok
       \<lparr>qt_Chain = ''solana'', qt_DEX = ''jupiter'', qt_TokenIn = tokenIn, qt_TokenOut = tokenOut, qt_AmountIn = amount, qt_AmountOut = out,
        qt_Price = (if flt (Fin 0) amount then fdiv out amount else Fin 0), qt_PriceImpact = fst (se_ParseFloat env (jq_PriceImpactPct parsed)),
        qt_FeeAmount = Fin 0, qt_SlippageBps = jq_SlippageBps parsed, qt_GeneratedAt = se_now env, qt_RouteRaw = raw\<rparr>))"

definition sol_GetQuote :: "('k, 't) sol_env \<Rightarrow> string \<Rightarrow> string \<Rightarrow> f64 \<Rightarrow> SolanaClient \<Rightarrow> SolanaClient \<times> Quote result" where
  "sol_GetQuote env tokenIn tokenOut amount c =
     (case sol_decimalsFor env tokenIn c of
        (c1, Inl e) \<Rightarrow> (c1, Inl e)
      | (c1, Inr decIn) \<Rightarrow> (case sol_decimalsFor env tokenOut c1 of
          (c2, Inl e) \<Rightarrow> (c2, Inl e)
        | (c2, Inr decOut) \<Rightarrow> (c2, sol_quote_of env c2 tokenIn tokenOut amount decIn decOut)))"

text \<open>The client and what it has broadcast.\<close>

record 't sol_world =
  sw_client :: SolanaClient
  sw_sent :: "'t list"

text \<open>The signer offers the wallet's key for its own public key and nothing for any other.\<close>

definition own_key :: "('k, 't) sol_env \<Rightarrow> 'k \<Rightarrow> bytes \<Rightarrow> 'k option" where
  "own_key env priv k = (if k = so_PublicKey (se_lib env) priv then Some priv else None)"

definition sol_submit :: "('k, 't) sol_env \<Rightarrow> string \<Rightarrow> 't \<Rightarrow> 't sol_world \<Rightarrow> 't sol_world \<times> TxResult result" where
  "sol_submit env msg tx w =
     (w\<lparr>sw_sent := sw_sent w @ [tx]\<rparr>,
      bindr (wrapr msg (sr_Send (se_rpc env) tx)) (\<lambda>sig. Ok (dry_result\<lparr>tx_Signature := sig\<rparr>)))"

definition sol_signed_swap :: "('k, 't) sol_env \<Rightarrow> SolanaClient \<Rightarrow> Quote \<Rightarrow> Wallet \<Rightarrow> 't result" where
  "sol_signed_swap env c q wallet =
     bindr (wrapr ''solana: unseal'' (UnsealSolanaWallet (se_E env) (se_ed env) (sc_masterKey c) (Some wallet))) (\<lambda>priv.
     bindr (jupiter_buildSwapTx env (sc_jupiterURL c) (wl_Address wallet) (qt_RouteRaw q)) (\<lambda>txBytes.
     bindr (wrapr ''solana: parse swap tx'' (so_FromBytes (se_lib env) txBytes)) (\<lambda>tx.
       wrapr ''solana: sign swap'' (so_Sign (se_lib env) tx (own_key env priv)))))"

definition sol_ExecuteSwap :: "('k, 't) sol_env \<Rightarrow> bool \<Rightarrow> Quote option \<Rightarrow> Wallet option \<Rightarrow> 't sol_world \<Rightarrow> 't sol_world \<times> TxResult result" where
  "sol_ExecuteSwap env dry quote wallet w =
     (case quote of
        None \<Rightarrow> (w, Fail ''solana: ExecuteSwap requires Quote with RouteRaw'')
      | Some q \<Rightarrow> if qt_RouteRaw q = [] then (w, Fail ''solana: ExecuteSwap requires Quote with RouteRaw'')
          else (case wallet of
            None \<Rightarrow> (w, Fail ''solana: ExecuteSwap nil wallet'')
          | Some wl \<Rightarrow> (case sol_signed_swap env (sw_client w) q wl of
              Inl e \<Rightarrow> (w, Inl e)
            | Inr tx \<Rightarrow>
                if dry then (w, bindr (wrapr ''solana: simulate swap'' (sr_Simulate (se_rpc env) tx)) (\<lambda>sim. Ok (dry_result\<lparr>tx_Success := sim = Some None\<rparr>)))
                else sol_submit env ''solana: sendTransaction'' tx w)))"

definition sol_SimulateTransaction :: "('k, 't) sol_env \<Rightarrow> Transaction option \<Rightarrow> SimResult result" where
  "sol_SimulateTransaction env tw =
     (if (case tw of None \<Rightarrow> True | Some t \<Rightarrow> tx_Raw t = []) then Fail ''solana: SimulateTransaction requires Transaction.Raw''
      else bindr (wrapr ''solana: parse tx'' (so_FromBytes (se_lib env) (tx_Raw (the tw)))) (\<lambda>tx.
           bindr (wrapr ''solana: simulate'' (sr_Simulate (se_rpc env) tx)) (\<lambda>sim. Ok (case sim of
             None \<Rightarrow> \<lparr>WouldSucceed = False, ExpectedOutput = Fin 0, GasEstimate = 0, ErrorMsg = ''empty sim response''\<rparr>
           | Some err \<Rightarrow> \<lparr>WouldSucceed = (err = None), ExpectedOutput = Fin 0, GasEstimate = 0, ErrorMsg = (case err of None \<Rightarrow> [] | Some t \<Rightarrow> t)\<rparr>))))"

definition sol_SendTransaction :: "('k, 't) sol_env \<Rightarrow> bool \<Rightarrow> Transaction option \<Rightarrow> Wallet option \<Rightarrow> 't sol_world \<Rightarrow> 't sol_world \<times> TxResult result" where
  "sol_SendTransaction env dry tw wallet w =
     (if (case tw of None \<Rightarrow> True | Some t \<Rightarrow> tx_Raw t = []) then (w, Fail ''solana: SendTransaction requires Transaction.Raw'')
      else if wallet = None then (w, Fail ''solana: SendTransaction nil wallet'')
      else case bindr (wrapr ''solana: unseal'' (UnsealSolanaWallet (se_E env) (se_ed env) (sc_masterKey (sw_client w)) wallet)) (\<lambda>priv.
            bindr (wrapr ''solana: parse tx'' (so_FromBytes (se_lib env) (tx_Raw (the tw)))) (\<lambda>tx.
              wrapr ''solana: sign'' (so_Sign (se_lib env) tx (own_key env priv)))) of
        Inl e \<Rightarrow> (w, Inl e)
      | Inr tx \<Rightarrow> if dry then (w, Ok dry_result) else sol_submit env ''solana: send'' tx w)"

definition sol_ExecuteLiquidation :: "('k, 't) sol_env \<Rightarrow> LendingPosition option \<Rightarrow> Wallet option \<Rightarrow> TxResult result" where
  "sol_ExecuteLiquidation env pos wallet =
     (case pos of
        None \<Rightarrow> Fail ''solana: ExecuteLiquidation nil position''
      | Some p \<Rightarrow> if wallet = None then Fail ''solana: ExecuteLiquidation nil wallet'' else Ok (paper_liquidation (se_oob env) p))"

section \<open>Account data\<close>

definition byte_slice :: "nat \<Rightarrow> nat \<Rightarrow> bytes \<Rightarrow> bytes" where "byte_slice a b xs = take (b - a) (drop a xs)"

text \<open>Adding one to a big-endian number: from the last byte upwards until no byte wraps.\<close>

fun carry_inc :: "bytes \<Rightarrow> bytes" where
  "carry_inc [] = []"
| "carry_inc (b # bs) = (if b + 1 \<noteq> 0 then (b + 1) # bs else 0 # carry_inc bs)"

definition be_inc :: "bytes \<Rightarrow> bytes" where "be_inc be = rev (carry_inc (rev be))"

definition decodeWrappedI80F48 :: "bytes \<Rightarrow> f64" where
  "decodeWrappedI80F48 b =
     (if length b \<noteq> 16 then Fin 0
      else let be = rev b; negative = (hd be AND 0x80 \<noteq> 0);
               mag = (if negative then be_inc (map NOT be) else be);
               out = rnd (int_quo (int (SetBytes mag)) (2 ^ 48)) in
           if negative then fneg out else out)"

definition decodeQ60 :: "bytes \<Rightarrow> f64" where
  "decodeQ60 b = (if length b \<noteq> 16 then Fin 0 else rnd (int_quo (int (SetBytes (rev b))) (2 ^ 60)))"

definition LittleEndianUint64 :: "bytes \<Rightarrow> 64 word" where "LittleEndianUint64 b = of_nat (SetBytes (rev b))"

section \<open>MarginFi\<close>

record MarginFiBalance =
  mf_Bank :: bytes
  mf_AssetShares :: f64
  mf_LiabilityShares :: f64

record MarginFiAccount =
  mf_Group :: bytes
  mf_Authority :: bytes
  mf_Balances :: "MarginFiBalance list"

definition marginFiProgramID :: string where "marginFiProgramID = ''MFv2hWf31Z9kbCa1snEPYctwafyhdvnV7FZnsebVacA''"
definition marginFiBalanceLen :: nat where "marginFiBalanceLen = 104"
definition marginFiBalancesOffset :: nat where "marginFiBalancesOffset = 8 + 32 + 32"
definition marginFiNumBalances :: nat where "marginFiNumBalances = 16"
definition marginFiAccountDiscriminator :: bytes where "marginFiAccountDiscriminator = [0x43, 0xb2, 0x82, 0x6d, 0x7e, 0x72, 0x1c, 0x2a]"

definition marginfi_balance :: "bytes \<Rightarrow> nat \<Rightarrow> MarginFiBalance option" where
  "marginfi_balance data i =
     (let off = marginFiBalancesOffset + i * marginFiBalanceLen in
      if data ! off = 0 then None
      else Some \<lparr>mf_Bank = byte_slice (off + 1) (off + 33) data, mf_AssetShares = decodeWrappedI80F48 (byte_slice (off + 40) (off + 56) data),
        mf_LiabilityShares = decodeWrappedI80F48 (byte_slice (off + 56) (off + 72) data)\<rparr>)"

definition parseMarginFiAccount :: "bytes \<Rightarrow> MarginFiAccount result" where
  "parseMarginFiAccount data =
     (if length data < marginFiBalancesOffset + marginFiNumBalances * marginFiBalanceLen
      then Fail (''marginfi: account too short: '' @ itoa (int (length data)) @ '' bytes'')
      else if take 8 data \<noteq> marginFiAccountDiscriminator then Fail ''marginfi: discriminator mismatch''
      else Ok \<lparr>mf_Group = byte_slice 8 40 data, mf_Authority = byte_slice 40 72 data,
        mf_Balances = List.map_filter (marginfi_balance data) [0..<marginFiNumBalances]\<rparr>)"

definition program_accounts :: "('k, 't) sol_env \<Rightarrow> string \<Rightarrow> string \<Rightarrow> bytes \<Rightarrow> bytes list result" where
  "program_accounts env who programID disc =
     bindr (wrapr (who @ '': program id'') (so_FromBase58 (se_lib env) programID)) (\<lambda>pid.
     bindr (wrapr (who @ '': getProgramAccounts'') (sr_ProgramAccounts (se_rpc env) pid (so_Base58 (se_lib env) disc))) (\<lambda>out.
       Ok (List.map_filter (\<lambda>d. d) out)))"

definition marginfi_row :: "(bytes \<Rightarrow> string) \<Rightarrow> bytes \<Rightarrow> MarginFiBalance \<Rightarrow> LendingPosition" where
  "marginfi_row text authority bal =
     \<lparr>lp_Chain = ''solana'', lp_Protocol = ''marginfi'', lp_Owner = text authority, lp_CollateralAsset = text (mf_Bank bal),
      lp_CollateralAmt = mf_AssetShares bal, lp_DebtAsset = text (mf_Bank bal), lp_DebtAmt = mf_LiabilityShares bal,
      lp_HealthFactor = Fin 0, lp_LiquidationBonus = Fin 0\<rparr>"

definition fetchMarginFiPositions :: "('k, 't) sol_env \<Rightarrow> LendingPosition list result" where
  "fetchMarginFiPositions env =
     bindr (program_accounts env ''marginfi'' marginFiProgramID marginFiAccountDiscriminator) (\<lambda>accts. Ok (concat (map (\<lambda>data.
       case parseMarginFiAccount data of
         Inl _ \<Rightarrow> []
       | Inr a \<Rightarrow> map (marginfi_row (so_Base58 (se_lib env)) (mf_Authority a)) (mf_Balances a)) accts)))"

section \<open>Kamino\<close>

record KaminoCollateral =
  kc_Reserve :: bytes
  kc_DepositedAmount :: "64 word"
  kc_MarketValueUSD :: f64

record KaminoBorrow =
  kb_Reserve :: bytes
  kb_BorrowedAmount :: f64
  kb_MarketValueUSD :: f64

record KaminoObligation =
  ko_LendingMarket :: bytes
  ko_Owner :: bytes
  ko_Deposits :: "KaminoCollateral list"
  ko_Borrows :: "KaminoBorrow list"
  ko_DepositedValue :: f64

definition kaminoProgramID :: string where "kaminoProgramID = ''KLend2g3cP87fffoy8q1mQqGKjrxjC8boSyAYavgmjD''"
definition kaminoObligationHeaderLen :: nat where "kaminoObligationHeaderLen = 96"
definition kaminoNumDeposits :: nat where "kaminoNumDeposits = 8"
definition kaminoCollateralSize :: nat where "kaminoCollateralSize = 136"
definition kaminoNumBorrows :: nat where "kaminoNumBorrows = 5"
definition kaminoBorrowSize :: nat where "kaminoBorrowSize = 160"
definition kaminoBorrowsOffset :: nat where "kaminoBorrowsOffset = kaminoObligationHeaderLen + kaminoNumDeposits * kaminoCollateralSize + 8 + 16"
definition kaminoObligationMinLen :: nat where "kaminoObligationMinLen = kaminoBorrowsOffset + kaminoNumBorrows * kaminoBorrowSize"
definition kaminoObligationDiscriminator :: bytes where "kaminoObligationDiscriminator = [0xa8, 0xce, 0x8d, 0x6a, 0x58, 0x4c, 0xac, 0xa7]"

definition kamino_deposit :: "bytes \<Rightarrow> nat \<Rightarrow> KaminoCollateral option" where
  "kamino_deposit data i =
     (let off = kaminoObligationHeaderLen + i * kaminoCollateralSize; amt = LittleEndianUint64 (byte_slice (off + 32) (off + 40) data) in
      if amt = 0 then None
      else Some \<lparr>kc_Reserve = byte_slice off (off + 32) data, kc_DepositedAmount = amt, kc_MarketValueUSD = decodeQ60 (byte_slice (off + 40) (off + 56) data)\<rparr>)"

definition kamino_borrow :: "bytes \<Rightarrow> nat \<Rightarrow> KaminoBorrow option" where
  "kamino_borrow data i =
     (let off = kaminoBorrowsOffset + i * kaminoBorrowSize; borrowed = decodeQ60 (byte_slice (off + 56) (off + 72) data) in
      if feq borrowed (Fin 0) then None
      else Some \<lparr>kb_Reserve = byte_slice off (off + 32) data, kb_BorrowedAmount = borrowed, kb_MarketValueUSD = decodeQ60 (byte_slice (off + 72) (off + 88) data)\<rparr>)"

definition parseKaminoObligation :: "bytes \<Rightarrow> KaminoObligation result" where
  "parseKaminoObligation data =
     (if length data < kaminoObligationMinLen then Fail (''kamino: account too short: '' @ itoa (int (length data)) @ '' bytes'')
      else if take 8 data \<noteq> kaminoObligationDiscriminator then Fail ''kamino: discriminator mismatch''
      else Ok \<lparr>ko_LendingMarket = byte_slice 32 64 data, ko_Owner = byte_slice 64 96 data,
        ko_Deposits = List.map_filter (kamino_deposit data) [0..<kaminoNumDeposits],
        ko_Borrows = List.map_filter (kamino_borrow data) [0..<kaminoNumBorrows],
        ko_DepositedValue = decodeQ60 (byte_slice 1192 1208 data)\<rparr>)"

definition biggest_of :: "KaminoCollateral \<Rightarrow> KaminoCollateral list \<Rightarrow> KaminoCollateral" where
  "biggest_of d0 ds = fold (\<lambda>d biggest. if flt (kc_MarketValueUSD biggest) (kc_MarketValueUSD d) then d else biggest) ds d0"

definition kamino_health :: "KaminoObligation \<Rightarrow> KaminoBorrow \<Rightarrow> f64" where
  "kamino_health obl b = (if flt (Fin 0) (kb_MarketValueUSD b) \<and> flt (Fin 0) (ko_DepositedValue obl)
     then fdiv (ko_DepositedValue obl) (kb_MarketValueUSD b) else Fin 0)"

definition kamino_rows :: "(bytes \<Rightarrow> string) \<Rightarrow> KaminoObligation \<Rightarrow> LendingPosition list" where
  "kamino_rows text obl =
     (case ko_Deposits obl of
        [] \<Rightarrow> []
      | d # ds \<Rightarrow> let biggest = biggest_of d ds in map (\<lambda>b.
          \<lparr>lp_Chain = ''solana'', lp_Protocol = ''kamino'', lp_Owner = text (ko_Owner obl), lp_CollateralAsset = text (kc_Reserve biggest),
           lp_CollateralAmt = kc_MarketValueUSD biggest, lp_DebtAsset = text (kb_Reserve b), lp_DebtAmt = kb_MarketValueUSD b,
           lp_HealthFactor = kamino_health obl b, lp_LiquidationBonus = Fin 0\<rparr>) (ko_Borrows obl))"

definition fetchKaminoPositions :: "('k, 't) sol_env \<Rightarrow> LendingPosition list result" where
  "fetchKaminoPositions env =
     bindr (program_accounts env ''kamino'' kaminoProgramID kaminoObligationDiscriminator) (\<lambda>accts. Ok (concat (map (\<lambda>data.
       case parseKaminoObligation data of Inl _ \<Rightarrow> [] | Inr obl \<Rightarrow> kamino_rows (so_Base58 (se_lib env)) obl) accts)))"

definition sol_GetLendingPositions :: "('k, 't) sol_env \<Rightarrow> string \<Rightarrow> LendingPosition list result" where
  "sol_GetLendingPositions env protocol =
     (if ToLower protocol = ''marginfi'' then fetchMarginFiPositions env
      else if ToLower protocol = ''kamino'' then fetchKaminoPositions env
      else Fail (''solana: unknown lending protocol '' @ protocol))"

section \<open>Yields\<close>

definition yield_get :: "('k, 't) sol_env \<Rightarrow> string \<Rightarrow> string result" where
  "yield_get env url = http_exchange [] None (se_http env) \<lparr>hq_Method = ''GET'', hq_URL = url, hq_Headers = [accept_json], hq_Body = None\<rparr>"

definition sol_rate :: "time \<Rightarrow> string \<Rightarrow> string \<Rightarrow> f64 \<Rightarrow> f64 \<Rightarrow> YieldRate" where
  "sol_rate now protocol asset apy tvl = \<lparr>yr_Chain = ''solana'', yr_Protocol = protocol, yr_Asset = asset, yr_APY = apy, yr_TVL = tvl, yr_UpdatedAt = now\<rparr>"

definition fetchMarginFi :: "('k, 't) sol_env \<Rightarrow> yieldClient \<Rightarrow> YieldRate list result" where
  "fetchMarginFi env y =
     bindr (wrapr ''marginfi yield'' (yield_get env (yc_marginFiURL y))) (\<lambda>body.
     bindr (wrapr ''marginfi yield: decode'' (se_decode_banks env body)) (\<lambda>banks. Ok
       (map (\<lambda>b. sol_rate (se_now env) ''marginfi'' (mb_MintSymbol b) (mb_LendingAPY b) (mb_TotalDeposits b)) (filter (\<lambda>b. mb_MintSymbol b \<noteq> []) banks))))"

definition fetchKamino :: "('k, 't) sol_env \<Rightarrow> yieldClient \<Rightarrow> YieldRate list result" where
  "fetchKamino env y =
     bindr (wrapr ''kamino yield'' (yield_get env (yc_kaminoURL y))) (\<lambda>body.
     bindr (wrapr ''kamino yield: decode'' (se_decode_markets env body)) (\<lambda>markets. Ok
       (map (\<lambda>r. sol_rate (se_now env) ''kamino'' (kr_Symbol r) (kr_SupplyAPY r) (kr_TotalSupply r)) (filter (\<lambda>r. kr_Symbol r \<noteq> []) (concat markets)))))"

fun yield_fetch :: "('k, 't) sol_env \<Rightarrow> yieldClient \<Rightarrow> string list \<Rightarrow> YieldRate list \<Rightarrow> YieldRate list result" where
  "yield_fetch env y [] out = Ok out"
| "yield_fetch env y (p # ps) out =
     (if ToLower p = ''marginfi'' then bindr (fetchMarginFi env y) (\<lambda>rates. yield_fetch env y ps (out @ rates))
      else if ToLower p = ''kamino'' then bindr (fetchKamino env y) (\<lambda>rates. yield_fetch env y ps (out @ rates))
      else yield_fetch env y ps out)"

definition sol_GetYieldRates :: "('k, 't) sol_env \<Rightarrow> SolanaClient \<Rightarrow> string list \<Rightarrow> YieldRate list result" where
  "sol_GetYieldRates env c protocols = yield_fetch env (sc_yield c) protocols []"

section \<open>What the decoders read\<close>

lemma SetBytes_rev: "SetBytes (rev bs) = foldr (\<lambda>b n. n * 256 + unat b) bs 0"
  by (simp add: SetBytes_def foldr_conv_fold)

lemma SetBytes_rev_Cons: "SetBytes (rev (b # bs)) = SetBytes (rev bs) * 256 + unat b"
  by (simp only: SetBytes_rev foldr.simps comp_def)

lemma SetBytes_rev_Nil: "SetBytes (rev []) = 0"
  by (simp add: SetBytes_def)

lemma SetBytes_bound: "SetBytes (rev bs) < 256 ^ length bs"
proof (induction bs)
  case Nil
  then show ?case by (simp add: SetBytes_def)
next
  case (Cons b bs)
  have "unat b < 256" using unsigned_less [of b] by simp
  then have "SetBytes (rev bs) * 256 + unat b < (SetBytes (rev bs) + 1) * 256" by simp
  also have "\<dots> \<le> 256 ^ length bs * 256" using Cons by (intro mult_right_mono) simp_all
  finally show ?case by (simp only: SetBytes_rev_Cons list.size power_Suc2 add_0_right add_Suc_right)
qed

lemma horner_bytes: "horner_sum uint 256 bs = int (SetBytes (rev bs))"
proof (induction bs)
  case Nil
  then show ?case by (simp add: SetBytes_def)
next
  case (Cons b bs)
  then show ?case unfolding SetBytes_rev_Cons by simp
qed

lemma not_byte: "unat (NOT (b :: 8 word)) + unat b = 255"
proof -
  have u: "unat b < 256" using unsigned_less [of b] by simp
  have "NOT b = 255 - b" by (simp add: not_eq_complement)
  moreover have "b \<le> 255" using u by (simp add: word_le_nat_alt)
  ultimately have "unat (NOT b) = 255 - unat b" by (simp add: unat_sub)
  with u show ?thesis by simp
qed

lemma complement_value: "SetBytes (rev (map NOT bs)) + SetBytes (rev bs) + 1 = 256 ^ length bs"
proof (induction bs)
  case Nil
  then show ?case by (simp add: SetBytes_def)
next
  case (Cons b bs)
  from Cons not_byte [of b] show ?case by (simp only: list.map SetBytes_rev_Cons list.size power_Suc add_0_right add_Suc_right)
qed

lemma carry_inc_value: "SetBytes (rev bs) + 1 < 256 ^ length bs \<Longrightarrow> SetBytes (rev (carry_inc bs)) = SetBytes (rev bs) + 1"
proof (induction bs)
  case Nil
  then show ?case by (simp add: SetBytes_def)
next
  case (Cons b bs)
  show ?case
  proof (cases "b + 1 = 0")
    case True
    then have "b = - 1" by (simp add: eq_neg_iff_add_eq_0)
    then have "b = 255" by simp
    then have b: "unat b = 255" by simp
    with Cons.prems have "SetBytes (rev bs) + 1 < 256 ^ length bs" by (simp add: SetBytes_rev_Cons del: rev.simps)
    with Cons.IH b True show ?thesis by (simp add: SetBytes_rev_Cons del: rev.simps)
  next
    case False
    then have "unat (b + 1) = unat b + 1" by (simp add: unat_plus_simple unatSuc add.commute)
    with False show ?thesis by (simp add: SetBytes_rev_Cons del: rev.simps)
  qed
qed

lemma SetBytes_Cons: "SetBytes (b # bs) = unat b * 256 ^ length bs + SetBytes bs"
proof -
  have "fold (\<lambda>b n. n * 256 + unat b) bs a = a * 256 ^ length bs + fold (\<lambda>b n. n * 256 + unat b) bs 0" for a and bs :: bytes
  proof (induction bs arbitrary: a)
    case (Cons c bs)
    from Cons [of "a * 256 + unat c"] Cons [of "unat c"] show ?case by (simp add: algebra_simps)
  qed simp
  from this [of bs "unat b"] show ?thesis by (simp add: SetBytes_def)
qed

lemma sign_byte: "(L :: 8 word) AND 0x80 \<noteq> 0 \<longleftrightarrow> 128 \<le> unat L"
proof -
  have "L AND 2 ^ 7 \<noteq> 0 \<longleftrightarrow> bit (unat L) 7" by (simp add: and_exp_eq_0_iff_not_bit bit_unsigned_iff del: power_numeral)
  also have "\<dots> \<longleftrightarrow> odd (unat L div 128)" by (simp add: bit_iff_odd)
  also have "\<dots> \<longleftrightarrow> 128 \<le> unat L"
  proof -
    have "unat L < 256" using unsigned_less [of L] by simp
    then have "unat L div 128 < 2" by (simp add: less_mult_imp_div_less)
    then have "unat L div 128 = 0 \<or> unat L div 128 = 1" by linarith
    then show ?thesis by (auto simp: div_eq_0_iff)
  qed
  finally show ?thesis by simp
qed

definition le_word :: "bytes \<Rightarrow> 128 word" where "le_word b = word_rcat (rev b)"

lemma uint_le_word: "length b = 16 \<Longrightarrow> uint (le_word b) = int (SetBytes (rev b))"
  using SetBytes_bound [of b] by (simp add: le_word_def word_rcat_def horner_bytes comp_def unsigned_of_int take_bit_int_eq_self del: of_int_of_nat_eq)

lemma sint_le_word:
  assumes "length b = 16"
  shows "sint (le_word b) = int (SetBytes (rev b)) - (if 2 ^ 127 \<le> SetBytes (rev b) then 2 ^ 128 else 0)"
proof -
  define v where "v = SetBytes (rev b)"
  have v: "v < 2 ^ 128" using SetBytes_bound [of b] assms by (simp add: v_def)
  have "sint (le_word b) = signed_take_bit 127 (int v)" using uint_le_word [OF assms] by (simp add: sint_uint v_def)
  also have "\<dots> = int v - 2 ^ 128 * of_bool (bit (int v) 127)"
    using v by (simp add: signed_take_bit_eq_take_bit_minus take_bit_int_eq_self del: power_numeral)
  also have "bit (int v) 127 \<longleftrightarrow> 2 ^ 127 \<le> v"
  proof -
    have "v div 2 ^ 127 < 2" using v by (simp add: less_mult_imp_div_less)
    then have "v div 2 ^ 127 = 0 \<or> v div 2 ^ 127 = 1" by linarith
    then have "odd (v div 2 ^ 127) \<longleftrightarrow> 2 ^ 127 \<le> v" by (auto simp: div_eq_0_iff)
    then show ?thesis by (simp only: bit_of_nat_iff_bit) (simp add: bit_iff_odd)
  qed
  finally show ?thesis by (simp add: v_def)
qed

lemma dyadic_scale:
  assumes "b \<le> int p"
  shows "(of_int x / 2 ^ k :: rat) / 2 powi (b - int k - int p) = of_int (x * 2 ^ nat (int p - b))"
proof -
  have "(2::rat) powi (b - int k - int p) = 2 powi (- (int p - b) + - int k)" by (simp add: algebra_simps)
  also have "\<dots> = 2 powi (- (int p - b)) / 2 ^ k" by (subst power_int_add) (simp_all add: power_int_minus divide_inverse)
  also have "(2::rat) powi (- (int p - b)) = 1 / 2 ^ nat (int p - b)" using assms by (subst power_int_minus) (simp add: power_int_def divide_inverse)
  finally show ?thesis by simp
qed
lemma rnd_minus: "0 < x \<Longrightarrow> rnd (- x) = fneg (rnd x)"
  by (simp add: rnd_def Let_def)

text \<open>Dividing by a power of two loses nothing at the precision of the dividend.\<close>

lemma round_mag_dyadic:
  assumes "0 \<le> x" "blen x \<le> int p"
  shows "round_mag p (of_int x / 2 ^ k) = of_int x / 2 ^ k"
proof (cases "x = 0")
  case False
  with assms have x: "0 < x" by simp
  let ?a = "of_int x / 2 ^ k :: rat"
  have b: "(2::rat) powi (blen x - 1) \<le> of_int x" "of_int x < (2::rat) powi (blen x)" using blen_bounds [OF x] by simp_all
  have split: "(2::rat) powi (z - int k) = 2 powi z / 2 ^ k" for z by (simp add: power_int_diff)
  have "ilog2 ?a = blen x - 1 - int k"
    using b split [of "blen x - 1"] split [of "blen x"] by (intro ilog2_eq) (simp_all add: divide_right_mono divide_strict_right_mono algebra_simps)
  then have e: "ilog2 ?a - (int p - 1) = blen x - int k - int p" by simp
  have "?a / 2 powi (blen x - int k - int p) = of_int (x * 2 ^ nat (int p - blen x))" by (rule dyadic_scale [OF assms(2)])
  then have "of_int (rhe (?a / 2 powi (blen x - int k - int p))) = ?a / 2 powi (blen x - int k - int p)" by (simp only: rhe_int)
  then show ?thesis using False by (simp add: round_mag_def Let_def e)
qed (simp add: round_mag_def)

lemma int_quo_dyadic:
  assumes "0 \<le> x"
  shows "int_quo x (2 ^ k) = of_int x / 2 ^ k"
proof -
  have "\<not> of_int x / (2::rat) ^ k < 0" using assms by (simp add: not_less)
  moreover have "blen x \<le> int (max (int_prec x) (int_prec (2 ^ k)))" using assms by (simp add: int_prec_def)
  moreover have "(of_int (2 ^ k) :: rat) = 2 ^ k" by simp
  ultimately show ?thesis using round_mag_dyadic [OF assms] unfolding int_quo_def round_prec_def by (simp only: if_False)
qed

lemma top_byte:
  assumes "v = (u::nat) * 256 ^ 15 + r" "r < 256 ^ 15"
  shows "128 \<le> u \<longleftrightarrow> 2 ^ 127 \<le> v"
proof -
  have "(2::nat) ^ 127 = 128 * 256 ^ 15" by (simp only: power_numeral_even power_numeral_odd) simp
  show ?thesis
  proof
    assume "128 \<le> u"
    then have "128 * 256 ^ 15 \<le> u * 256 ^ (15::nat)" by (rule mult_right_mono) simp
    then show "2 ^ 127 \<le> v" using assms(1) by simp
  next
    assume "2 ^ 127 \<le> v"
    show "128 \<le> u"
    proof (rule ccontr)
      assume "\<not> 128 \<le> u"
      then have "u + 1 \<le> 128" by simp
      then have "(u + 1) * 256 ^ 15 \<le> 128 * 256 ^ (15::nat)" by (rule mult_right_mono) simp
      with assms \<open>2 ^ 127 \<le> v\<close> show False by simp
    qed
  qed
qed

lemma fixed_point_value:
  assumes "length b = 16"
  shows "decodeWrappedI80F48 b = rnd (of_int (sint (le_word b)) / 2 ^ 48) \<and> decodeQ60 b = rnd (of_int (uint (le_word b)) / 2 ^ 60)"
proof -
  define v where "v = SetBytes (rev b)"
  have v: "v < 256 ^ 16" using SetBytes_bound [of b] assms by (simp add: v_def)
  have "length (rev b) = Suc 15" using assms by simp
  then obtain L rest where lr: "rev b = L # rest" "length rest = 15" unfolding length_Suc_conv by blast
  have "v = unat L * 256 ^ 15 + SetBytes rest" by (simp add: v_def lr SetBytes_Cons)
  moreover have "SetBytes rest < 256 ^ 15" using SetBytes_bound [of "rev rest"] lr by simp
  ultimately have neg: "hd (rev b) AND 0x80 \<noteq> 0 \<longleftrightarrow> 2 ^ 127 \<le> v" unfolding lr(1) list.sel sign_byte by (rule top_byte)
  have pow: "(256 :: nat) ^ 16 = 2 ^ 128" by simp
  have q: "decodeQ60 b = rnd (of_int (uint (le_word b)) / 2 ^ 60)"
    unfolding uint_le_word [OF assms] using assms by (simp only: decodeQ60_def int_quo_dyadic if_False simp_thms of_nat_0_le_iff)
  have "decodeWrappedI80F48 b = rnd (of_int (sint (le_word b)) / 2 ^ 48)"
  proof (cases "2 ^ 127 \<le> v")
    case True
    have comp: "SetBytes (rev (map NOT b)) + v + 1 = 256 ^ 16" using complement_value [of b] assms by (simp add: v_def)
    have "0 < v" using True by (rule less_le_trans [rotated]) simp
    with comp have "SetBytes (rev (map NOT b)) + 1 < 256 ^ 16" by linarith
    from carry_inc_value [of "map NOT b"] this assms have "SetBytes (be_inc (map NOT (rev b))) = SetBytes (rev (map NOT b)) + 1"
      by (simp add: be_inc_def rev_map)
    with comp pow have "SetBytes (be_inc (map NOT (rev b))) + v = 2 ^ 128" by linarith
    then have "int (SetBytes (be_inc (map NOT (rev b)))) + int v = int (2 ^ 128)" by (simp only: of_nat_add [symmetric])
    then have mag: "int (SetBytes (be_inc (map NOT (rev b)))) = 2 ^ 128 - int v" by simp
    have "int v < int (2 ^ 128)" using v pow by (simp only: of_nat_less_iff)
    then have pos: "0 < 2 ^ 128 - int v" by simp
    have "decodeWrappedI80F48 b = fneg (rnd (int_quo (2 ^ 128 - int v) (2 ^ 48)))"
      using assms neg True by (simp only: decodeWrappedI80F48_def Let_def mag if_True) simp
    also have "\<dots> = rnd (- (of_int (2 ^ 128 - int v) / 2 ^ 48))"
      unfolding int_quo_dyadic [OF less_imp_le [OF pos]] by (rule rnd_minus [symmetric]) (use pos in \<open>simp only: zero_less_divide_iff of_int_0_less_iff zero_less_power zero_less_numeral simp_thms\<close>)
    also have "- (of_int (2 ^ 128 - int v) / 2 ^ 48) = (of_int (sint (le_word b)) / 2 ^ 48 :: rat)"
      using True unfolding sint_le_word [OF assms] v_def [symmetric] by (simp only: if_True of_int_diff minus_diff_eq minus_divide_left)
    finally show ?thesis .
  next
    case False
    then show ?thesis using assms neg unfolding sint_le_word [OF assms] v_def [symmetric]
      by (simp only: decodeWrappedI80F48_def Let_def v_def [symmetric] if_False not_True_eq_False int_quo_dyadic of_nat_0_le_iff) simp
  qed
  then show ?thesis using q by (rule conjI)
qed

text \<open>
  C17: the decoder of MarginFi shares gives the signed 128-bit number its sixteen bytes spell from the lowest byte on, divided by
  \<open>2^48\<close> and rounded once; the decoder of Kamino values gives the unsigned number divided by \<open>2^60\<close>, rounded once.
\<close>

theorem fixed_point_decoded:
  assumes "length b = 16"
  shows "decodeWrappedI80F48 b = rnd (of_int (sint (le_word b)) / 2 ^ 48) \<and> decodeQ60 b = rnd (of_int (uint (le_word b)) / 2 ^ 60)"
  by (rule fixed_point_value [OF assms])

lemma fixed_point_decoded_witness:
  "decodeWrappedI80F48 (replicate 16 255) = rnd (- 1 / 2 ^ 48) \<and> decodeQ60 (replicate 15 0 @ [16]) = rnd (2 ^ 64)"
proof -
  have "sint (le_word (replicate 16 255)) = - 1" "uint (le_word (replicate 15 0 @ [16])) = 2 ^ 124"
    by code_simp+
  then show ?thesis
    using fixed_point_decoded [of "replicate 16 255"] fixed_point_decoded [of "replicate 15 0 @ [16]"] by simp
qed

section \<open>Lending rows\<close>

lemma decoded_fin [simp]: "is_fin (decodeWrappedI80F48 b)" "is_fin (decodeQ60 b)"
proof -
  have bound: "is_fin (rnd (x / 2 ^ k))" if "\<bar>x\<bar> \<le> 2 ^ 128" for x and k :: nat
  proof (rule is_fin_rnd)
    have "\<bar>x / 2 ^ k\<bar> = \<bar>x\<bar> / 2 ^ k" by (simp add: abs_divide)
    also have "\<dots> \<le> \<bar>x\<bar> / 1" by (rule divide_left_mono) simp_all
    also have "\<dots> \<le> 2 ^ 1000" using that by (simp only: div_by_1) (rule order_trans, assumption, rule power_increasing, simp_all)
    finally show "\<bar>x / 2 ^ k\<bar> \<le> 2 ^ 1000" .
  qed
  have "is_fin (rnd (of_int i / 2 ^ k))" if "- (2 ^ 128) \<le> i" "i \<le> 2 ^ 128" for i k
  proof (rule bound)
    have "\<bar>i\<bar> \<le> 2 ^ 128" using that by linarith
    then have "(of_int \<bar>i\<bar> :: rat) \<le> of_int (2 ^ 128)" by (simp only: of_int_le_iff)
    then show "\<bar>of_int i :: rat\<bar> \<le> 2 ^ 128" by simp
  qed
  note small = this
  have "- (2 ^ 128) \<le> uint (le_word b)" by (rule order_trans [of _ 0]) simp_all
  moreover have "uint (le_word b) \<le> 2 ^ 128" using uint_lt2p [of "le_word b"] by simp
  ultimately have "is_fin (rnd (of_int (uint (le_word b)) / 2 ^ 60))" by (rule small)
  moreover have "is_fin (rnd (of_int (sint (le_word b)) / 2 ^ 48))"
    using sint_ge [of "le_word b"] sint_lt [of "le_word b"] by (intro small) simp_all
  ultimately show "is_fin (decodeWrappedI80F48 b)" "is_fin (decodeQ60 b)"
    using fixed_point_value [of b] by (cases "length b = 16"; simp add: decodeWrappedI80F48_def decodeQ60_def)+
qed

lemma decodeQ60_nonneg: "fle (Fin 0) (decodeQ60 b)"
proof (cases "length b = 16")
  case True
  have "0 \<le> (of_int (uint (le_word b)) / 2 ^ 60 :: rat)" by (intro divide_nonneg_pos) (simp_all only: of_int_0_le_iff unsigned_greater_eq zero_less_power zero_less_numeral)
  then show ?thesis unfolding fixed_point_value [OF True, THEN conjunct2] by (rule rnd_nonneg)
qed (simp add: decodeQ60_def)

lemma map_filter_mem: "x \<in> set (List.map_filter f xs) \<longleftrightarrow> (\<exists>y \<in> set xs. f y = Some x)"
  by (auto simp: map_filter_def intro: rev_image_eqI)

lemma biggest_of_mem: "biggest_of d ds \<in> set (d # ds)"
proof (induction ds arbitrary: d)
  case (Cons e ds)
  from Cons [of e] Cons [of d] show ?case by (auto simp: biggest_of_def)
qed (simp add: biggest_of_def)

text \<open>No lending row of Solana has a bonus, and its collateral is a finite number.\<close>

lemma solana_rows_no_bonus:
  assumes "sol_GetLendingPositions env p = Ok rows" "r \<in> set rows"
  shows "lp_LiquidationBonus r = Fin 0 \<and> is_fin (lp_CollateralAmt r)"
proof (cases "ToLower p = ''marginfi''")
  case True
  with assms show ?thesis
    by (auto simp: sol_GetLendingPositions_def fetchMarginFiPositions_def bindr_Ok_iff parseMarginFiAccount_def map_filter_mem marginfi_balance_def marginfi_row_def
        Let_def split: if_splits sum.splits)
next
  case False
  with assms have "\<exists>data obl. parseKaminoObligation data = Ok obl \<and> r \<in> set (kamino_rows (so_Base58 (se_lib env)) obl)"
    by (auto simp: sol_GetLendingPositions_def fetchKaminoPositions_def bindr_Ok_iff split: if_splits sum.splits) metis
  then obtain data obl where o: "parseKaminoObligation data = Ok obl" "r \<in> set (kamino_rows (so_Base58 (se_lib env)) obl)" by blast
  then obtain d ds where d: "ko_Deposits obl = d # ds" by (cases "ko_Deposits obl") (simp_all add: kamino_rows_def)
  have "is_fin (kc_MarketValueUSD c)" if "c \<in> set (ko_Deposits obl)" for c
    using that o(1) by (auto simp: parseKaminoObligation_def map_filter_mem kamino_deposit_def Let_def split: if_splits)
  with biggest_of_mem [of d ds] d have "is_fin (kc_MarketValueUSD (biggest_of d ds))" by metis
  with o(2) d show ?thesis by (auto simp: kamino_rows_def Let_def)
qed

text \<open>A scan whose positions promise less than the configured profit attempts nothing.\<close>

lemma hunt_positions_poor:
  assumes "\<And>p. p \<in> set ps \<Longrightarrow> flt (estProfit p) (hc_MinProfitUSD (lh_cfg (sc_task s)))"
  shows "sc_task (hunt_positions act now ps s) = sc_task s \<and> sc_out (hunt_positions act now ps s) = sc_out s"
  using assms by (induction ps arbitrary: s) (auto simp: Let_def)

lemma hunt_protocols_poor:
  assumes "\<And>p rows r. get p = Ok rows \<Longrightarrow> r \<in> set rows \<Longrightarrow> flt (estProfit r) (hc_MinProfitUSD (lh_cfg (sc_task s)))"
  shows "sc_task (hunt_protocols get act now ps s) = sc_task s \<and> sc_out (hunt_protocols get act now ps s) = sc_out s"
  using assms
proof (induction ps arbitrary: s)
  case (Cons p ps)
  show ?case
  proof (cases "get p")
    case (Inl e)
    then show ?thesis using Cons by simp
  next
    case (Inr rows)
    have h: "sc_task (hunt_positions act now rows s) = sc_task s \<and> sc_out (hunt_positions act now rows s) = sc_out s"
      by (rule hunt_positions_poor) (rule Cons.prems [OF Inr])
    from Cons.IH [of "hunt_positions act now rows s"] Cons.prems h Inr show ?thesis by simp
  qed
qed simp

text \<open>
  On Solana a liquidation hunter whose minimal profit is positive never tries to liquidate anything, whatever the accounts
  hold: a tick makes no trade and leaves its counts of attempts and successes alone.
\<close>

theorem solana_hunter_idle:
  assumes "flt (Fin 0) (hc_MinProfitUSD (lh_cfg l))" "liq_RunTick oob now (sol_GetLendingPositions env) act l = (l', r)"
  shows "(r = Ok [] \<or> (\<exists>e. r = Inl e)) \<and> lh_totalAttempt l' = lh_totalAttempt l \<and> lh_totalSuccess l' = lh_totalSuccess l"
proof -
  have poor: "flt (estProfit p) (hc_MinProfitUSD (lh_cfg l))" if "sol_GetLendingPositions env pr = Ok rows" "p \<in> set rows" for pr rows p
  proof -
    have "fdiv (Fin 0) (Fin 10000) = Fin 0" by (simp add: fdiv_def fzero_def)
    with solana_rows_no_bonus [OF that] have "fkey (estProfit p) = (0, 0)" "\<not> is_nan (estProfit p)"
      by (cases "lp_CollateralAmt p"; simp add: estProfit_def fmul_def fzero_def)+
    with assms(1) show ?thesis by (simp add: flt_def)
  qed
  let ?l = "(liq_maybeResetDaily now l)\<lparr>lh_lastCheck := now\<rparr>"
  have reset: "lh_cfg ?l = lh_cfg l" "lh_totalAttempt (liq_maybeResetDaily now l) = lh_totalAttempt l" "lh_totalSuccess (liq_maybeResetDaily now l) = lh_totalSuccess l"
    by (simp_all add: liq_maybeResetDaily_def Let_def)
  let ?s = "\<lparr>sc_task = ?l, sc_out = [], sc_atRisk = [], sc_lastErr = None, sc_tries = 0\<rparr>"
  have hunt: "sc_task (hunt_protocols (sol_GetLendingPositions env) act now ps ?s) = ?l \<and> sc_out (hunt_protocols (sol_GetLendingPositions env) act now ps ?s) = []" for ps
    using hunt_protocols_poor [of "sol_GetLendingPositions env" ?s act now ps] poor reset(1) by simp
  show ?thesis using assms(2) hunt reset(2,3) unfolding liq_RunTick_def
    by (auto simp: Let_def split: if_splits option.splits)
qed

text \<open>An environment whose node, aggregator and library accept everything; keys are their seeds.\<close>

definition sample_ed :: "bytes ed25519" where
  "sample_ed = \<lparr>ed_FromSeed = (\<lambda>s. s), ed_Seed = (\<lambda>k. k), ed_Address = blob_text\<rparr>"

definition sample_sol_env :: "(bytes, bytes) sol_env" where
  "sample_sol_env = \<lparr>se_E = xor_cipher, se_ed = sample_ed,
     se_lib = \<lparr>so_FromBase58 = (\<lambda>s. Ok (map of_char s)), so_Base58 = blob_text, so_PublicKey = (\<lambda>k. k), so_FromBytes = Ok, so_Sign = (\<lambda>t _. Ok t)\<rparr>,
     se_rpc = \<lparr>sr_GetBalance = (\<lambda>_. Ok 0), sr_TokenAccounts = (\<lambda>_ _. Ok []), sr_TokenAccountBalance = (\<lambda>_. Ok (''0'', 0)), sr_TokenSupply = (\<lambda>_. Ok None),
       sr_Simulate = (\<lambda>_. Ok None), sr_Send = (\<lambda>_. Ok ''sig''), sr_ProgramAccounts = (\<lambda>_ _. Ok [])\<rparr>,
     se_http = \<lparr>ht_build = (\<lambda>_. None), ht_do = (\<lambda>_. Ok (200, Ok ''{}''))\<rparr>,
     se_decode_quote = (\<lambda>_. Ok \<lparr>jq_OutAmount = ''5'', jq_SlippageBps = 50, jq_PriceImpactPct = ''0''\<rparr>), se_parse_route = (\<lambda>_. Ok JsNull),
     se_decode_swap = (\<lambda>_. Ok ''AQID''), se_decode_banks = (\<lambda>_. Ok []), se_decode_markets = (\<lambda>_. Ok []), se_ParseFloat = (\<lambda>_. (Fin 0, None)),
     se_ParseUint = (\<lambda>_. Ok 5), se_b64_error = (\<lambda>_. Err ''illegal base64 data''), se_oob = (\<lambda>_. 0), se_now = 0\<rparr>"


theorem solana_hunter_idle_witness:
  "\<exists>l' r. liq_RunTick (\<lambda>_. 0) 0 (sol_GetLendingPositions sample_sol_env) (\<lambda>_ _. Ok None) \<lparr>lh_cfg = liq_demo\<lparr>hc_MinProfitUSD := Fin 5\<rparr>, lh_freeCapital = Fin 0,
      lh_lastCheck = zero_time, lh_dailyDate = [], lh_dailyCount = 0, lh_dailySuccess = 0, lh_dailyAttempt = 0, lh_totalSuccess = 0, lh_totalAttempt = 7,
      lh_atRiskSnapshot = []\<rparr> = (l', r) \<and> lh_totalAttempt l' = 7"
proof -
  let ?l = "\<lparr>lh_cfg = liq_demo\<lparr>hc_MinProfitUSD := Fin 5\<rparr>, lh_freeCapital = Fin 0, lh_lastCheck = zero_time, lh_dailyDate = [], lh_dailyCount = 0,
      lh_dailySuccess = 0, lh_dailyAttempt = 0, lh_totalSuccess = 0, lh_totalAttempt = 7, lh_atRiskSnapshot = []\<rparr>"
  have p: "flt (Fin 0) (hc_MinProfitUSD (lh_cfg ?l))" by simp
  obtain l' r where run: "liq_RunTick (\<lambda>_. 0) 0 (sol_GetLendingPositions sample_sol_env) (\<lambda>_ _. Ok None) ?l = (l', r)" by fastforce
  from solana_hunter_idle [OF p run] run show ?thesis by (intro exI [of _ l'] exI [of _ r]) simp
qed

text \<open>
  A row of Kamino divides all deposits of the obligation by one of its borrows, so it never shows less health than the
  obligation has over the sum of its borrows, and shows more where there are several.
\<close>

theorem kamino_health_overstated:
  assumes "parseKaminoObligation data = Ok obl" "b \<in> set (ko_Borrows obl)" "flt (Fin 0) (kb_MarketValueUSD b)" "flt (Fin 0) (ko_DepositedValue obl)"
  shows "fle (rnd (fval (ko_DepositedValue obl) / (\<Sum>c \<leftarrow> ko_Borrows obl. fval (kb_MarketValueUSD c)))) (kamino_health obl b)"
proof -
  have dec: "kb_MarketValueUSD c \<in> range decodeQ60" if "c \<in> set (ko_Borrows obl)" for c
    using that assms(1) by (auto simp: parseKaminoObligation_def map_filter_mem kamino_borrow_def Let_def split: if_splits)
  have nn: "0 \<le> fval (kb_MarketValueUSD c)" if c: "c \<in> set (ko_Borrows obl)" for c
  proof -
    obtain x where x: "kb_MarketValueUSD c = decodeQ60 x" using dec [OF c] by blast
    show ?thesis unfolding x using decodeQ60_nonneg [of x] decoded_fin(2) [of x] by (cases "decodeQ60 x") (auto simp: fcmp_defs)
  qed
  have fin: "is_fin (kb_MarketValueUSD b)" "is_fin (ko_DepositedValue obl)" using dec [OF assms(2)] assms(1) by (auto simp: parseKaminoObligation_def split: if_splits)
  have pos: "0 < fval (kb_MarketValueUSD b)" "0 < fval (ko_DepositedValue obl)"
    using assms(3,4) fin by (auto simp: fcmp_defs fkey_fin)
  have le: "fval (kb_MarketValueUSD b) \<le> (\<Sum>c \<leftarrow> ko_Borrows obl. fval (kb_MarketValueUSD c))"
    by (rule member_le_sum_list) (use assms(2) nn in auto)
  have "fval (ko_DepositedValue obl) / (\<Sum>c \<leftarrow> ko_Borrows obl. fval (kb_MarketValueUSD c)) \<le> fval (ko_DepositedValue obl) / fval (kb_MarketValueUSD b)"
    using pos le by (intro divide_left_mono) auto
  then have "fle (rnd (fval (ko_DepositedValue obl) / (\<Sum>c \<leftarrow> ko_Borrows obl. fval (kb_MarketValueUSD c)))) (rnd (fval (ko_DepositedValue obl) / fval (kb_MarketValueUSD b)))"
    by (rule rnd_mono)
  moreover have "kamino_health obl b = rnd (fval (ko_DepositedValue obl) / fval (kb_MarketValueUSD b))"
    using assms(3,4) pos fin by (cases "ko_DepositedValue obl"; cases "kb_MarketValueUSD b") (auto simp: kamino_health_def fdiv_def)
  ultimately show ?thesis by simp
qed

text \<open>An obligation of two borrows of 80 dollars each over deposits of 100 dollars: each row shows more health than the obligation has.\<close>

definition q60_bytes :: "8 word \<Rightarrow> 8 word \<Rightarrow> bytes" where "q60_bytes lo hi = replicate 7 0 @ [lo, hi] @ replicate 7 0"
definition demo_borrow :: bytes where "demo_borrow = replicate 56 0 @ q60_bytes 0 5 @ q60_bytes 0 5 @ replicate 72 0"
definition demo_obligation :: bytes where
  "demo_obligation = kaminoObligationDiscriminator @ replicate 1184 0 @ q60_bytes 0x40 6 @ demo_borrow @ demo_borrow @ replicate 480 0"

lemma demo_lengths [simp]: "length (q60_bytes a b) = 16" "length demo_borrow = 160" "length kaminoObligationDiscriminator = 8" "length demo_obligation = 2008"
  by (simp_all add: q60_bytes_def demo_borrow_def demo_obligation_def kaminoObligationDiscriminator_def)

lemma demo_values: "decodeQ60 (q60_bytes 0 5) = Fin 80" "decodeQ60 (q60_bytes 0x40 6) = Fin 100" "decodeQ60 (replicate 16 0) = Fin 0"
proof -
  have "uint (le_word (q60_bytes 0 5)) = 80 * 2 ^ 60" "uint (le_word (q60_bytes 0x40 6)) = 100 * 2 ^ 60" "uint (le_word (replicate 16 0)) = 0"
    by code_simp+
  then show "decodeQ60 (q60_bytes 0 5) = Fin 80" "decodeQ60 (q60_bytes 0x40 6) = Fin 100" "decodeQ60 (replicate 16 0) = Fin 0"
    using fixed_point_value [of "q60_bytes 0 5"] fixed_point_value [of "q60_bytes 0x40 6"] fixed_point_value [of "replicate 16 0"]
    by (simp_all add: rnd_numeral)
qed

lemmas demo_offsets = kaminoBorrowsOffset_def kaminoObligationHeaderLen_def kaminoNumDeposits_def kaminoCollateralSize_def kaminoBorrowSize_def
  kaminoObligationMinLen_def kaminoNumBorrows_def

lemma demo_slices:
  "byte_slice 1192 1208 demo_obligation = q60_bytes 0x40 6" "byte_slice 1264 1280 demo_obligation = q60_bytes 0 5" "byte_slice 1280 1296 demo_obligation = q60_bytes 0 5"
  "byte_slice 1424 1440 demo_obligation = q60_bytes 0 5" "byte_slice 1440 1456 demo_obligation = q60_bytes 0 5"
  "byte_slice 1584 1600 demo_obligation = replicate 16 0" "byte_slice 1744 1760 demo_obligation = replicate 16 0" "byte_slice 1904 1920 demo_obligation = replicate 16 0"
  by (simp_all add: byte_slice_def demo_obligation_def demo_borrow_def)

lemma demo_borrows:
  "kamino_borrow demo_obligation 0 \<noteq> None \<and> kb_MarketValueUSD (the (kamino_borrow demo_obligation 0)) = Fin 80"
  "kamino_borrow demo_obligation 1 \<noteq> None \<and> kb_MarketValueUSD (the (kamino_borrow demo_obligation 1)) = Fin 80"
  "kamino_borrow demo_obligation 2 = None" "kamino_borrow demo_obligation 3 = None" "kamino_borrow demo_obligation 4 = None"
  by (simp_all add: kamino_borrow_def demo_offsets Let_def demo_slices demo_values)

lemma parse_kamino_fields:
  assumes "\<not> length data < kaminoObligationMinLen" "take 8 data = kaminoObligationDiscriminator"
  shows "\<exists>obl. parseKaminoObligation data = Ok obl \<and> ko_Borrows obl = List.map_filter (kamino_borrow data) [0..<kaminoNumBorrows] \<and>
    ko_DepositedValue obl = decodeQ60 (byte_slice 1192 1208 data)"
  using assms by (simp add: parseKaminoObligation_def)

lemma demo_obligation_parsed:
  "\<exists>obl. parseKaminoObligation demo_obligation = Ok obl \<and> map kb_MarketValueUSD (ko_Borrows obl) = [Fin 80, Fin 80] \<and> ko_DepositedValue obl = Fin 100"
proof -
  have t: "take 8 demo_obligation = kaminoObligationDiscriminator" by (simp add: demo_obligation_def)
  have l: "\<not> length demo_obligation < kaminoObligationMinLen" by (simp add: demo_offsets)
  have "[0..<kaminoNumBorrows] = [0, 1, 2, 3, 4]" unfolding kaminoNumBorrows_def by code_simp
  then have "map kb_MarketValueUSD (List.map_filter (kamino_borrow demo_obligation) [0..<kaminoNumBorrows]) = [Fin 80, Fin 80]"
    using demo_borrows by (auto simp: map_filter_simps)
  moreover have "decodeQ60 (byte_slice 1192 1208 demo_obligation) = Fin 100" by (simp only: demo_slices demo_values)
  ultimately show ?thesis using parse_kamino_fields [OF l t] by metis
qed

theorem kamino_health_overstated_witness:
  "\<exists>obl b. parseKaminoObligation demo_obligation = Ok obl \<and> b \<in> set (ko_Borrows obl) \<and> fle (rnd (100 / 160)) (kamino_health obl b) \<and> kamino_health obl b = Fin (5 / 4)"
proof -
  obtain obl where o: "parseKaminoObligation demo_obligation = Ok obl" "map kb_MarketValueUSD (ko_Borrows obl) = [Fin 80, Fin 80]" "ko_DepositedValue obl = Fin 100"
    using demo_obligation_parsed by (elim exE conjE)
  from o(2) obtain b c where bs: "ko_Borrows obl = [b, c]" "kb_MarketValueUSD b = Fin 80" "kb_MarketValueUSD c = Fin 80"
    unfolding map_eq_Cons_conv by auto
  have "b \<in> set (ko_Borrows obl)" "flt (Fin 0) (kb_MarketValueUSD b)" "flt (Fin 0) (ko_DepositedValue obl)" using bs o(3) by simp_all
  from kamino_health_overstated [OF o(1) this] bs o(3) have "fle (rnd (100 / 160)) (kamino_health obl b)" by simp
  moreover have "rnd (5 / 4) = Fin (5 / 4)" using rnd_dyadic [of 5 2] by simp
  then have "kamino_health obl b = Fin (5 / 4)" using bs(2) o(3) by (simp add: kamino_health_def fdiv_def)
  ultimately show ?thesis using o(1) bs(1) by auto
qed

section \<open>What is broadcast\<close>

definition sol_swap_call :: "('k, 't) sol_env \<Rightarrow> bool \<Rightarrow> Quote option \<times> Wallet option \<Rightarrow> 't sol_world \<Rightarrow> 't sol_world" where
  "sol_swap_call env dry q w = fst (sol_ExecuteSwap env dry (fst q) (snd q) w)"

definition sol_send_call :: "('k, 't) sol_env \<Rightarrow> bool \<Rightarrow> Transaction option \<times> Wallet option \<Rightarrow> 't sol_world \<Rightarrow> 't sol_world" where
  "sol_send_call env dry q w = fst (sol_SendTransaction env dry (fst q) (snd q) w)"

interpretation sol_swaps: broadcaster "sol_swap_call env" sw_sent
  by unfold_locales (auto simp: sol_swap_call_def sol_ExecuteSwap_def sol_submit_def split: option.splits sum.splits)

interpretation sol_sends: broadcaster "sol_send_call env" sw_sent
  by unfold_locales (auto simp: sol_send_call_def sol_SendTransaction_def sol_submit_def split: option.splits sum.splits)

text \<open>
  Whatever swaps and transactions a program asks the two clients for, what they broadcast is at most one transaction per call
  that is not a dry run, after what was broadcast before; a program of dry runs broadcasts nothing.
\<close>

theorem clients_broadcast_per_call:
  "(\<exists>ts. bw_sent (calls (base_swap_call env) qs w) = bw_sent w @ ts \<and> length ts \<le> length (filter (\<lambda>(d, q). \<not> d) qs)) \<and>
   (\<exists>ts. bw_sent (calls (base_send_call env) rs w) = bw_sent w @ ts \<and> length ts \<le> length (filter (\<lambda>(d, q). \<not> d) rs)) \<and>
   (\<exists>ts. sw_sent (calls (sol_swap_call env') qs w') = sw_sent w' @ ts \<and> length ts \<le> length (filter (\<lambda>(d, q). \<not> d) qs)) \<and>
   (\<exists>ts. sw_sent (calls (sol_send_call env') rs w') = sw_sent w' @ ts \<and> length ts \<le> length (filter (\<lambda>(d, q). \<not> d) rs))"
  by (intro conjI base_swaps.calls_extend base_sends.calls_extend sol_swaps.calls_extend sol_sends.calls_extend)



text \<open>Every row of Aave has health zero, so it is below any threshold a hunter accepts.\<close>

lemma aave_rows_at_risk:
  assumes "aave_fetchPositions env c n = Ok rows" "r \<in> set rows"
  shows "lp_HealthFactor r = Fin 0"
proof -
  from assms(1) obtain parsed vs where "no_errors ''aave: graphql error: '' parsed = Ok vs" "rows = map (aave_row (be_ParseFloat env)) vs"
    unfolding aave_fetchPositions_def Let_def bindr_Ok_iff by auto
  with assms(2) show ?thesis by (auto simp: aave_row_def)
qed

lemma marginfi_rows_at_risk:
  assumes "fetchMarginFiPositions env = Ok rows" "r \<in> set rows"
  shows "lp_HealthFactor r = Fin 0"
  using assms by (auto simp: fetchMarginFiPositions_def bindr_Ok_iff marginfi_row_def split: sum.splits)

end
