(* ===== verification/Config.thy ===== *)
theory Config
  imports Security Json GoFmt LearnedRules
begin

text \<open>
  \<^verbatim>\<open>internal/config/config.go\<close>: the settings every program of the repository reads from its environment, and the decoding
  of the master key that follows it in \<^verbatim>\<open>cmd/init-treasury\<close> and \<^verbatim>\<open>cmd/seed-nodes\<close>.

  The environment is a function from names to values, empty when a name is not set.  \<^verbatim>\<open>Load\<close> ranges over a map of required
  names, so which missing name is reported depends on the order given as argument.  \<open>ParseFloat\<close> is \<^verbatim>\<open>strconv.ParseFloat\<close>.
\<close>

section \<open>Model\<close>

record Config =
  cf_Network :: string
  cf_DatabaseURL :: string
  cf_DatabasePoolURL :: string
  cf_RedisURL :: string
  cf_AnthropicAPIKey :: string
  cf_OpenAIAPIKey :: string
  cf_HeliusDevnetURL :: string
  cf_AlchemyBaseSepoliaURL :: string
  cf_TelegramBotToken :: string
  cf_TelegramChatID :: string
  cf_MasterEncryptionKey :: string
  cf_MonthlyBudgetUSD :: f64
  cf_LogLevel :: string
  cf_APIKey :: string

definition required_vars :: "string list" where
  "required_vars = [''NETWORK'', ''DATABASE_URL'', ''REDIS_URL'', ''MASTER_ENCRYPTION_KEY'', ''API_KEY'']"

definition or_else :: "string \<Rightarrow> string \<Rightarrow> string" where
  "or_else v d = (if v = [] then d else v)"

definition budget_setting :: "(string \<Rightarrow> f64 result) \<Rightarrow> string \<Rightarrow> f64 result" where
  "budget_setting ParseFloat v = (if v = [] then Ok (Fin 100) else wrapr (''MONTHLY_BUDGET_USD '' @ v) (ParseFloat v))"

definition settings :: "(string \<Rightarrow> string) \<Rightarrow> f64 \<Rightarrow> Config" where
  "settings Getenv budget =
     \<lparr>cf_Network = Getenv ''NETWORK'', cf_DatabaseURL = Getenv ''DATABASE_URL'',
      cf_DatabasePoolURL = or_else (Getenv ''DATABASE_POOL_URL'') (Getenv ''DATABASE_URL''), cf_RedisURL = Getenv ''REDIS_URL'',
      cf_AnthropicAPIKey = Getenv ''ANTHROPIC_API_KEY'', cf_OpenAIAPIKey = Getenv ''OPENAI_API_KEY'',
      cf_HeliusDevnetURL = Getenv ''HELIUS_DEVNET_URL'', cf_AlchemyBaseSepoliaURL = Getenv ''ALCHEMY_BASE_SEPOLIA_URL'',
      cf_TelegramBotToken = Getenv ''TELEGRAM_BOT_TOKEN'', cf_TelegramChatID = Getenv ''TELEGRAM_CHAT_ID'',
      cf_MasterEncryptionKey = Getenv ''MASTER_ENCRYPTION_KEY'', cf_MonthlyBudgetUSD = budget, cf_LogLevel = or_else (Getenv ''LOG_LEVEL'') ''info'',
      cf_APIKey = Getenv ''API_KEY''\<rparr>"

definition Load :: "(string list \<Rightarrow> string list) \<Rightarrow> (string \<Rightarrow> f64 result) \<Rightarrow> (string \<Rightarrow> string) \<Rightarrow> Config result" where
  "Load order ParseFloat Getenv =
     (case find (\<lambda>n. Getenv n = []) (order required_vars) of
        Some n \<Rightarrow> Fail (''missing required environment variable '' @ n)
      | None \<Rightarrow>
          if Getenv ''NETWORK'' \<notin> {''devnet'', ''mainnet''} then Fail (''invalid NETWORK '' @ Getenv ''NETWORK'' @ '': must be devnet or mainnet'')
          else if length (Getenv ''MASTER_ENCRYPTION_KEY'') \<noteq> 64
          then Fail (''MASTER_ENCRYPTION_KEY must be 64 hex chars (32 bytes), got '' @ itoa (int (length (Getenv ''MASTER_ENCRYPTION_KEY''))) @ '' chars'')
          else bindr (budget_setting ParseFloat (Getenv ''MONTHLY_BUDGET_USD'')) (\<lambda>budget. Ok (settings Getenv budget)))"

text \<open>\<^verbatim>\<open>hex.DecodeString\<close>, and the master key as the programs decode it.\<close>

fun hex_decode :: "string \<Rightarrow> bytes result" where
  "hex_decode [] = Ok []"
| "hex_decode [a] = (if hex_val a = None then Fail ''encoding/hex: invalid byte'' else Fail ''encoding/hex: odd length hex string'')"
| "hex_decode (a # b # s) =
     (case (hex_val a, hex_val b) of
        (Some x, Some y) \<Rightarrow> bindr (hex_decode s) (\<lambda>bs. Ok (word_of_nat (16 * x + y) # bs))
      | _ \<Rightarrow> Fail ''encoding/hex: invalid byte'')"

definition decode_master_key :: "string \<Rightarrow> bytes result" where
  "decode_master_key s =
     bindr (wrapr ''decode MASTER_ENCRYPTION_KEY'' (hex_decode s))
       (\<lambda>k. if length k \<noteq> 32 then Fail (''MASTER_ENCRYPTION_KEY decodes to '' @ itoa (int (length k)) @ '' bytes, want 32'') else Ok k)"

section \<open>What loading settles\<close>

lemma Load_Ok:
  assumes "rearranges order"
  shows "Load order ParseFloat Getenv = Ok c \<longleftrightarrow>
    (\<forall>n \<in> set required_vars. Getenv n \<noteq> []) \<and> Getenv ''NETWORK'' \<in> {''devnet'', ''mainnet''} \<and> length (Getenv ''MASTER_ENCRYPTION_KEY'') = 64 \<and>
    (\<exists>b. budget_setting ParseFloat (Getenv ''MONTHLY_BUDGET_USD'') = Ok b \<and> c = settings Getenv b)"
proof (cases "find (\<lambda>n. Getenv n = []) (order required_vars)")
  case None
  then have all: "\<forall>n \<in> set required_vars. Getenv n \<noteq> []" using assms by (auto simp: find_None_iff)
  have guards: "(if P then Fail a else if Q then Fail b else bindr r (\<lambda>x. Ok (f x))) = Ok c \<longleftrightarrow> \<not> P \<and> \<not> Q \<and> (\<exists>x. r = Ok x \<and> c = f x)"
    for P Q a b and r :: "f64 result" and f
    by (auto simp: bindr_Ok_iff)
  show ?thesis unfolding Load_def None option.case guards not_not using all by fast
next
  case (Some n)
  then have "n \<in> set required_vars" "Getenv n = []" using assms by (auto simp: find_Some_iff dest!: nth_mem)
  with Some show ?thesis by (auto simp only: Load_def option.case sum.simps)
qed

lemma Load_OkD:
  assumes "rearranges order" "Load order ParseFloat Getenv = Ok c"
  shows "cf_Network c = Getenv ''NETWORK''" "cf_Network c \<in> {''devnet'', ''mainnet''}"
    "cf_MasterEncryptionKey c = Getenv ''MASTER_ENCRYPTION_KEY''" "length (cf_MasterEncryptionKey c) = 64"
proof -
  from assms(2) obtain b where b: "Getenv ''NETWORK'' \<in> {''devnet'', ''mainnet''}" "length (Getenv ''MASTER_ENCRYPTION_KEY'') = 64" "c = settings Getenv b"
    unfolding Load_Ok [OF assms(1)] by (elim conjE exE)
  then show "cf_Network c = Getenv ''NETWORK''" "cf_Network c \<in> {''devnet'', ''mainnet''}"
    "cf_MasterEncryptionKey c = Getenv ''MASTER_ENCRYPTION_KEY''" "length (cf_MasterEncryptionKey c) = 64"
    by (simp_all only: settings_def Config.simps)
qed

text \<open>
  Two readers of the same variable disagree about it: a key the configuration accepts, 64 characters, is never one that
  \<^verbatim>\<open>security.LoadMasterKey\<close> accepts, 32 bytes.
\<close>

lemma master_key_readers_disagree:
  assumes "rearranges order" "Load order ParseFloat Getenv = Ok c"
  shows "\<exists>e. LoadMasterKey Getenv [] = Inl e"
  using Load_OkD(3,4) [OF assms] by (auto simp: LoadMasterKey_def Let_def MasterKeySize_def)

section \<open>Hexadecimal text\<close>

definition hex_text :: "bytes \<Rightarrow> string" where "hex_text bs = hex_encode (map unat bs)"

lemma hex_val_of_digit: "n < 16 \<Longrightarrow> hex_val (hex_digit n) = Some n"
  by (auto simp: hex_digit_def hex_val_def)

lemma hex_decode_text: "hex_decode (hex_text bs) = Ok bs"
proof (induction bs)
  case (Cons b bs)
  have "unat b < 256" using unsigned_less [of b] by simp
  then have "unat b div 16 < 16" "unat b mod 16 < 16" "16 * (unat b div 16) + unat b mod 16 = unat b" by auto
  with Cons show ?case by (simp add: hex_text_def hex_encode_def hex_val_of_digit)
qed (simp add: hex_text_def hex_encode_def)

lemma length_hex_decode: "hex_decode s = Ok bs \<Longrightarrow> length s = 2 * length bs"
  by (induction s arbitrary: bs rule: hex_decode.induct) (auto simp: bindr_Ok_iff split: option.splits if_splits)

lemma hex_decode_Ok: "(\<exists>bs. hex_decode s = Ok bs) \<longleftrightarrow> even (length s) \<and> (\<forall>c \<in> set s. hex_val c \<noteq> None)"
proof (induction s rule: hex_decode.induct)
  case (3 a b s)
  show ?case
  proof (cases "hex_val a = None \<or> hex_val b = None")
    case True
    then show ?thesis by (auto split: option.split)
  next
    case False
    then obtain x y where "hex_val a = Some x" "hex_val b = Some y" by auto
    with 3 show ?thesis by (simp add: bindr_Ok_iff)
  qed
qed simp_all

text \<open>A configured key is usable exactly if its 64 characters are hexadecimal digits, which loading does not check.\<close>

lemma configured_key_usable:
  assumes "length s = 64"
  shows "(\<exists>k. decode_master_key s = Ok k) \<longleftrightarrow> (\<forall>c \<in> set s. hex_val c \<noteq> None)"
proof -
  have "length k = 32" if "hex_decode s = Ok k" for k using length_hex_decode [OF that] assms by simp
  then have "(\<exists>k. decode_master_key s = Ok k) \<longleftrightarrow> (\<exists>k. hex_decode s = Ok k)" by (auto simp: decode_master_key_def bindr_Ok_iff)
  with hex_decode_Ok [of s] assms show ?thesis by simp
qed

text \<open>
  Whatever the order in which the required settings are visited, loading succeeds exactly if all of them are set,
  the network is \<^verbatim>\<open>devnet\<close> or \<^verbatim>\<open>mainnet\<close>, the key has 64 characters and the budget, when given, is a number; and the
  settings loaded do not depend on the order.
\<close>

theorem config_load_exact:
  assumes "rearranges order"
  shows "((\<exists>c. Load order ParseFloat Getenv = Ok c) \<longleftrightarrow>
     (\<forall>n \<in> set required_vars. Getenv n \<noteq> []) \<and> Getenv ''NETWORK'' \<in> {''devnet'', ''mainnet''} \<and> length (Getenv ''MASTER_ENCRYPTION_KEY'') = 64 \<and>
     (Getenv ''MONTHLY_BUDGET_USD'' = [] \<or> (\<exists>b. ParseFloat (Getenv ''MONTHLY_BUDGET_USD'') = Ok b))) \<and>
    (\<forall>c. Load order ParseFloat Getenv = Ok c \<longrightarrow> Load (\<lambda>xs. xs) ParseFloat Getenv = Ok c)"
proof -
  have "(\<exists>b. budget_setting ParseFloat v = Ok b) \<longleftrightarrow> v = [] \<or> (\<exists>b. ParseFloat v = Ok b)" for v
    by (simp add: budget_setting_def)
  then show ?thesis unfolding Load_Ok [OF assms] Load_Ok [OF rearranges_id] by blast
qed

definition sample_environment :: "string \<Rightarrow> string" where
  "sample_environment n =
     (case map_of [(''NETWORK'', ''devnet''), (''DATABASE_URL'', ''postgres://db''), (''REDIS_URL'', ''rediss://r''),
        (''MASTER_ENCRYPTION_KEY'', replicate 64 (CHR ''a'')), (''API_KEY'', ''k'')] n of None \<Rightarrow> [] | Some v \<Rightarrow> v)"

lemma config_load_exact_witness:
  "\<exists>c. Load rev (\<lambda>_. Fail ''bad'') sample_environment = Ok c \<and> Load (\<lambda>xs. xs) (\<lambda>_. Fail ''bad'') sample_environment = Ok c"
proof -
  note spec = config_load_exact [OF rearranges_rev, of "\<lambda>_. Fail ''bad''" sample_environment]
  have "(\<forall>n \<in> set required_vars. sample_environment n \<noteq> []) \<and> sample_environment ''NETWORK'' = ''devnet'' \<and>
      sample_environment ''MASTER_ENCRYPTION_KEY'' = replicate 64 (CHR ''a'') \<and> sample_environment ''MONTHLY_BUDGET_USD'' = []"
    by (simp add: required_vars_def sample_environment_def)
  with spec obtain c where "Load rev (\<lambda>_. Fail ''bad'') sample_environment = Ok c" by auto
  with spec show ?thesis by blast
qed

end
