(* ===== verification/Llm.thy ===== *)
theory Llm
  imports Review Http "HOL-Library.AList"
begin

text \<open>
  The language-model clients of \<^verbatim>\<open>internal/llm\<close>: \<^verbatim>\<open>anthropic.go\<close>, \<^verbatim>\<open>openai.go\<close>, the scripted stand-in of
  \<^verbatim>\<open>fake.go\<close>, and the registry of \<^verbatim>\<open>registry.go\<close> that resolves model names.  The network and the decoding of an answer's
  body are arguments; the table of prices and \<^verbatim>\<open>computeCost\<close> are those of \<open>Genome\<close>.
\<close>

section \<open>Clients\<close>

record provider_client =
  lc_baseURL :: string
  lc_apiKey :: string
  lc_model :: string

definition truncateForLog :: "string \<Rightarrow> nat \<Rightarrow> string" where
  "truncateForLog s n = (if length s \<le> n then s else take n s @ [CHR 0xE2, CHR 0x80, CHR 0xA6])"

definition anthropicDefaultBaseURL :: string where "anthropicDefaultBaseURL = ''https://api.anthropic.com/v1''"
definition openaiDefaultBaseURL :: string where "openaiDefaultBaseURL = ''https://api.openai.com/v1''"

definition NewAnthropicClient :: "string \<Rightarrow> string \<Rightarrow> provider_client result" where
  "NewAnthropicClient apiKey model =
     (if apiKey = [] then Fail ''llm/anthropic: api key required''
      else if RateFor model = None then Fail (''llm/anthropic: unknown model '' @ model @ '' (no rate)'')
      else Ok \<lparr>lc_baseURL = anthropicDefaultBaseURL, lc_apiKey = apiKey, lc_model = model\<rparr>)"

definition NewOpenAIClient :: "string \<Rightarrow> string \<Rightarrow> provider_client result" where
  "NewOpenAIClient apiKey model =
     (if apiKey = [] then Fail ''llm/openai: api key required''
      else if RateFor model = None then Fail (''llm/openai: unknown model '' @ model @ '' (no rate)'')
      else Ok \<lparr>lc_baseURL = openaiDefaultBaseURL, lc_apiKey = apiKey, lc_model = model\<rparr>)"

definition WithBaseURL :: "string \<Rightarrow> provider_client \<Rightarrow> provider_client" where
  "WithBaseURL url c = c\<lparr>lc_baseURL := url\<rparr>"

record anthropicMsgResponse =
  ar_Content :: "(string \<times> string) list"
  ar_InputTokens :: int
  ar_OutputTokens :: int
  ar_Type :: string
  ar_ErrorMessage :: string

record openaiChatResponse =
  oc_Choices :: "string list"
  oc_PromptTokens :: int
  oc_CompletionTokens :: int
  oc_ErrorMessage :: string

definition role_message :: "string \<Rightarrow> string \<Rightarrow> json" where
  "role_message role content = JsObj [(''role'', JsStr role), (''content'', JsStr content)]"

definition llm_reply :: "string \<Rightarrow> string \<Rightarrow> int \<Rightarrow> int \<Rightarrow> LLMResponse" where
  "llm_reply model content i out =
     \<lparr>r_Content = content, r_InputTokens = i, r_OutputTokens = out, r_CostUSD = computeCost model i out, r_Model = model\<rparr>"

definition anthropic_request :: "provider_client \<Rightarrow> string \<Rightarrow> string \<Rightarrow> int \<Rightarrow> http_request" where
  "anthropic_request c sys user maxTokens =
     \<lparr>hq_Method = ''POST'', hq_URL = lc_baseURL c @ ''/messages'',
      hq_Headers = [content_json, accept_json, (''x-api-key'', lc_apiKey c), (''anthropic-version'', ''2023-06-01'')],
      hq_Body = Some (JsObj ([(''model'', JsStr (lc_model c)), (''max_tokens'', JsNum (itoa maxTokens))] @
        (if sys = [] then [] else [(''system'', JsStr sys)]) @ [(''messages'', JsArr [role_message ''user'' user])]))\<rparr>"

definition anthropic_Complete :: "http_client \<Rightarrow> (string \<Rightarrow> anthropicMsgResponse result) \<Rightarrow> provider_client \<Rightarrow> string \<Rightarrow> string \<Rightarrow> int \<Rightarrow> LLMResponse result" where
  "anthropic_Complete h decode c sys user maxTokens =
     (if maxTokens \<le> 0 then Fail ''llm/anthropic: maxTokens must be > 0''
      else bindr (http_exchange_cut truncateForLog ''llm/anthropic: '' (Some ''do'') h (anthropic_request c sys user maxTokens)) (\<lambda>body.
           bindr (wrapr ''llm/anthropic: decode'' (decode body)) (\<lambda>parsed.
             if ar_Type parsed = ''error'' \<or> ar_ErrorMessage parsed \<noteq> [] then Fail (''llm/anthropic: api error: '' @ ar_ErrorMessage parsed)
             else Ok (llm_reply (lc_model c) (concat (map snd (filter (\<lambda>p. fst p = ''text'') (ar_Content parsed)))) (ar_InputTokens parsed)
               (ar_OutputTokens parsed)))))"

definition openai_request :: "provider_client \<Rightarrow> string \<Rightarrow> string \<Rightarrow> int \<Rightarrow> http_request" where
  "openai_request c sys user maxTokens =
     \<lparr>hq_Method = ''POST'', hq_URL = lc_baseURL c @ ''/chat/completions'',
      hq_Headers = [content_json, accept_json, (''Authorization'', ''Bearer '' @ lc_apiKey c)],
      hq_Body = Some (JsObj [(''model'', JsStr (lc_model c)),
        (''messages'', JsArr ((if sys = [] then [] else [role_message ''system'' sys]) @ [role_message ''user'' user])), (''max_tokens'', JsNum (itoa maxTokens))])\<rparr>"

definition openai_Complete :: "http_client \<Rightarrow> (string \<Rightarrow> openaiChatResponse result) \<Rightarrow> provider_client \<Rightarrow> string \<Rightarrow> string \<Rightarrow> int \<Rightarrow> LLMResponse result" where
  "openai_Complete h decode c sys user maxTokens =
     (if maxTokens \<le> 0 then Fail ''llm/openai: maxTokens must be > 0''
      else bindr (http_exchange_cut truncateForLog ''llm/openai: '' (Some ''do'') h (openai_request c sys user maxTokens)) (\<lambda>body.
           bindr (wrapr ''llm/openai: decode'' (decode body)) (\<lambda>parsed.
             if oc_ErrorMessage parsed \<noteq> [] then Fail (''llm/openai: api error: '' @ oc_ErrorMessage parsed)
             else case oc_Choices parsed of
               [] \<Rightarrow> Fail ''llm/openai: empty choices''
             | content # _ \<Rightarrow> Ok (llm_reply (lc_model c) content (oc_PromptTokens parsed) (oc_CompletionTokens parsed)))))"

definition llm_CalculateCost :: "provider_client \<Rightarrow> int \<Rightarrow> int \<Rightarrow> f64" where
  "llm_CalculateCost c i out = computeCost (lc_model c) i out"

section \<open>The stand-in\<close>

record FakeLLMClient =
  fl_model :: string
  fl_response :: string
  fl_responseQueue :: "string list"
  fl_inputTokens :: int
  fl_outputTokens :: int
  fl_failNext :: "error option"
  fl_calls :: "(string \<times> string \<times> int) list"

definition NewFakeLLMClient :: "string \<Rightarrow> FakeLLMClient" where
  "NewFakeLLMClient model = \<lparr>fl_model = model, fl_response = [], fl_responseQueue = [], fl_inputTokens = 0, fl_outputTokens = 0, fl_failNext = None, fl_calls = []\<rparr>"

definition fl_WithResponse :: "string \<Rightarrow> FakeLLMClient \<Rightarrow> FakeLLMClient" where "fl_WithResponse s f = f\<lparr>fl_response := s\<rparr>"
definition fl_WithResponseQueue :: "string list \<Rightarrow> FakeLLMClient \<Rightarrow> FakeLLMClient" where "fl_WithResponseQueue rs f = f\<lparr>fl_responseQueue := rs\<rparr>"
definition fl_WithTokenUsage :: "int \<Rightarrow> int \<Rightarrow> FakeLLMClient \<Rightarrow> FakeLLMClient" where
  "fl_WithTokenUsage i out f = f\<lparr>fl_inputTokens := i, fl_outputTokens := out\<rparr>"
definition fl_WithError :: "error option \<Rightarrow> FakeLLMClient \<Rightarrow> FakeLLMClient" where "fl_WithError e f = f\<lparr>fl_failNext := e\<rparr>"

definition fake_Complete :: "FakeLLMClient \<Rightarrow> string \<Rightarrow> string \<Rightarrow> int \<Rightarrow> FakeLLMClient \<times> LLMResponse result" where
  "fake_Complete f0 sys user maxTokens =
     (let f = f0\<lparr>fl_calls := fl_calls f0 @ [(sys, user, maxTokens)]\<rparr> in
      case fl_failNext f of
        Some e \<Rightarrow> (f\<lparr>fl_failNext := None\<rparr>, Inl e)
      | None \<Rightarrow>
          if maxTokens \<le> 0 then (f, Fail ''fake llm: maxTokens must be > 0'')
          else case fl_responseQueue f of
            [] \<Rightarrow> (f, Ok (llm_reply (fl_model f) (fl_response f) (fl_inputTokens f) (fl_outputTokens f)))
          | c # cs \<Rightarrow> (f\<lparr>fl_responseQueue := cs\<rparr>, Ok (llm_reply (fl_model f) c (fl_inputTokens f) (fl_outputTokens f))))"

definition fl_CalculateCost :: "FakeLLMClient \<Rightarrow> int \<Rightarrow> int \<Rightarrow> f64" where
  "fl_CalculateCost f i out = computeCost (fl_model f) i out"

definition fl_ResetCalls :: "FakeLLMClient \<Rightarrow> FakeLLMClient" where "fl_ResetCalls f = f\<lparr>fl_calls := []\<rparr>"

section \<open>The registry\<close>

datatype llm_client = Anthropic provider_client | OpenAI provider_client | Override FakeLLMClient

record llm_registry =
  rg_overrides :: "(string \<times> FakeLLMClient) list"
  rg_anthropicAPIKey :: string
  rg_openaiAPIKey :: string

definition empty_llms :: llm_registry where
  "empty_llms = \<lparr>rg_overrides = [], rg_anthropicAPIKey = [], rg_openaiAPIKey = []\<rparr>"

definition Configure :: "string \<Rightarrow> string \<Rightarrow> llm_registry \<Rightarrow> llm_registry" where
  "Configure anthropicKey openaiKey r = r\<lparr>rg_anthropicAPIKey := anthropicKey, rg_openaiAPIKey := openaiKey\<rparr>"

definition SetClient :: "string \<Rightarrow> FakeLLMClient option \<Rightarrow> llm_registry \<Rightarrow> llm_registry" where
  "SetClient model c r = (case c of
     None \<Rightarrow> r\<lparr>rg_overrides := AList.delete model (rg_overrides r)\<rparr>
   | Some f \<Rightarrow> r\<lparr>rg_overrides := AList.update model f (rg_overrides r)\<rparr>)"

definition ResetOverrides :: "llm_registry \<Rightarrow> llm_registry" where "ResetOverrides r = r\<lparr>rg_overrides := []\<rparr>"

definition Models :: "(string list \<Rightarrow> string list) \<Rightarrow> llm_registry \<Rightarrow> string list" where
  "Models p r = sort_Slice p str_less (remdups (map fst modelRates @ map fst (rg_overrides r)))"

definition llm_Get :: "(string list \<Rightarrow> string list) \<Rightarrow> string \<Rightarrow> llm_registry \<Rightarrow> llm_client result" where
  "llm_Get p model r =
     (case map_of (rg_overrides r) model of
        Some c \<Rightarrow> Ok (Override c)
      | None \<Rightarrow>
          if RateFor model = None then Fail (''llm: unknown model '' @ model @ '' (registered: ['' @ Join '' '' (Models p r) @ ''])'')
          else if HasPrefix model ''claude-''
          then (if rg_anthropicAPIKey r = [] then Fail ''llm: anthropic api key not configured''
                else bindr (NewAnthropicClient (rg_anthropicAPIKey r) model) (\<lambda>c. Ok (Anthropic c)))
          else if HasPrefix model ''gpt-''
          then (if rg_openaiAPIKey r = [] then Fail ''llm: openai api key not configured''
                else bindr (NewOpenAIClient (rg_openaiAPIKey r) model) (\<lambda>c. Ok (OpenAI c)))
          else Fail (''llm: model '' @ model @ '' has no provider mapping''))"

section \<open>What resolves\<close>

lemma modelRates_providers:
  "m \<in> set (map fst modelRates) \<Longrightarrow> HasPrefix m ''claude-'' \<noteq> HasPrefix m ''gpt-''"
  by (auto simp: modelRates_def HasPrefix_def)

text \<open>
  Without overrides a model resolves exactly if it has a price and the key of its provider is configured, and it resolves to a
  client of that provider for that model; every model the registry lists is then one key away from resolving.
\<close>

theorem llm_models_resolve:
  assumes "rg_overrides r = []"
  shows "llm_Get p m r = Ok c \<longleftrightarrow>
     m \<in> set (map fst modelRates) \<and>
     (HasPrefix m ''claude-'' \<and> rg_anthropicAPIKey r \<noteq> [] \<and>
        c = Anthropic \<lparr>lc_baseURL = anthropicDefaultBaseURL, lc_apiKey = rg_anthropicAPIKey r, lc_model = m\<rparr> \<or>
      HasPrefix m ''gpt-'' \<and> rg_openaiAPIKey r \<noteq> [] \<and>
        c = OpenAI \<lparr>lc_baseURL = openaiDefaultBaseURL, lc_apiKey = rg_openaiAPIKey r, lc_model = m\<rparr>)"
proof (cases "m \<in> set (map fst modelRates)")
  case False
  then have "RateFor m = None" by (simp add: RateFor_None)
  with assms False show ?thesis by (simp add: llm_Get_def)
next
  case True
  then have "RateFor m \<noteq> None" "HasPrefix m ''claude-'' \<noteq> HasPrefix m ''gpt-''" using RateFor_None modelRates_providers by blast+
  then show ?thesis using assms True
    by (cases "HasPrefix m ''claude-''") (auto simp: llm_Get_def NewAnthropicClient_def NewOpenAIClient_def)
qed

theorem llm_models_resolve_witness:
  "\<exists>c. llm_Get (\<lambda>xs. xs) ''gpt-4o'' (Configure [] ''k'' empty_llms) = Ok c"
proof -
  have "rg_overrides (Configure [] ''k'' empty_llms) = []" by (simp add: Configure_def empty_llms_def)
  from llm_models_resolve [OF this, of "\<lambda>xs. xs" "''gpt-4o''"]
  show ?thesis by (simp add: Configure_def modelRates_def HasPrefix_def)
qed

lemma override_wins: "llm_Get p m (SetClient m (Some f) r) = Ok (Override f)"
  by (simp add: llm_Get_def SetClient_def update_conv')

lemma reset_forgets: "rg_overrides (ResetOverrides r) = [] \<and> rg_overrides (SetClient m None empty_llms) = []"
  by (simp add: ResetOverrides_def SetClient_def empty_llms_def)

section \<open>What an answer costs\<close>

text \<open>The answers of a run of requests, and an answer that carries the table's price of its tokens.\<close>

fun replies :: "('s \<Rightarrow> string \<Rightarrow> string \<Rightarrow> int \<Rightarrow> 's \<times> LLMResponse result) \<Rightarrow> (string \<times> string \<times> int) list \<Rightarrow> 's \<Rightarrow> LLMResponse list" where
  "replies ask [] s = []"
| "replies ask ((sys, user, n) # qs) s =
     (case ask s sys user n of (s', Inl _) \<Rightarrow> replies ask qs s' | (s', Inr r) \<Rightarrow> r # replies ask qs s')"

definition table_priced :: "string \<Rightarrow> LLMResponse \<Rightarrow> bool" where
  "table_priced m r \<longleftrightarrow> r_Model r = m \<and> r_CostUSD r = computeCost m (r_InputTokens r) (r_OutputTokens r)"

text \<open>What a caller of any client relies on: an answer is the client's and priced, and was asked for with a positive limit.\<close>

locale completion_client =
  fixes ask :: "'s \<Rightarrow> string \<Rightarrow> string \<Rightarrow> int \<Rightarrow> 's \<times> LLMResponse result"
    and model :: "'s \<Rightarrow> string"
  assumes priced: "ask s sys user n = (s', Ok r) \<Longrightarrow> table_priced (model s) r \<and> 0 < n"
    and same_model: "ask s sys user n = (s', x) \<Longrightarrow> model s' = model s"
begin

lemma replies_priced: "r \<in> set (replies ask qs s) \<Longrightarrow> table_priced (model s) r"
proof (induction qs arbitrary: s)
  case (Cons q qs)
  obtain sys user n where q: "q = (sys, user, n)" by (cases q)
  obtain s' x where a: "ask s sys user n = (s', x)" by fastforce
  from Cons.IH [of s'] have "r \<in> set (replies ask qs s') \<Longrightarrow> table_priced (model s) r" unfolding same_model [OF a] .
  with Cons.prems q priced [of s sys user n s'] show ?case by (cases x) (auto simp: a)
qed simp

lemma no_limit_no_reply: "(\<And>q. q \<in> set qs \<Longrightarrow> snd (snd q) \<le> 0) \<Longrightarrow> replies ask qs s = []"
proof (induction qs arbitrary: s)
  case (Cons q qs)
  obtain sys user n where q: "q = (sys, user, n)" by (cases q)
  obtain s' x where a: "ask s sys user n = (s', x)" by fastforce
  have "n \<le> 0" using Cons.prems [of q] q by simp
  then have x: "x \<noteq> Inr r" for r using priced [of s sys user n s' r] a by auto
  have "replies ask qs s' = []" by (rule Cons.IH) (use Cons.prems in auto)
  with x q a show ?case by (cases x) auto
qed simp

end

definition anthropic_ask :: "http_client \<Rightarrow> (string \<Rightarrow> anthropicMsgResponse result) \<Rightarrow> provider_client \<Rightarrow> string \<Rightarrow> string \<Rightarrow> int \<Rightarrow> provider_client \<times> LLMResponse result" where
  "anthropic_ask h decode c sys user n = (c, anthropic_Complete h decode c sys user n)"

definition openai_ask :: "http_client \<Rightarrow> (string \<Rightarrow> openaiChatResponse result) \<Rightarrow> provider_client \<Rightarrow> string \<Rightarrow> string \<Rightarrow> int \<Rightarrow> provider_client \<times> LLMResponse result" where
  "openai_ask h decode c sys user n = (c, openai_Complete h decode c sys user n)"

lemma llm_reply_priced [simp]: "table_priced m (llm_reply m c i out)"
  by (simp add: table_priced_def llm_reply_def)

interpretation anthropic: completion_client "anthropic_ask h decode" lc_model
  by unfold_locales (auto simp: anthropic_ask_def anthropic_Complete_def bindr_Ok_iff split: if_splits)

interpretation openai: completion_client "openai_ask h decode" lc_model
  by unfold_locales (auto simp: openai_ask_def openai_Complete_def bindr_Ok_iff split: if_splits list.splits)

interpretation stand_in: completion_client fake_Complete fl_model
  by unfold_locales (auto simp: fake_Complete_def Let_def split: if_splits list.splits option.splits)

text \<open>
  Every answer any of the three clients gives in a run of requests names the client's own model and costs exactly what the
  table says its tokens cost, whatever model and price the provider's answer states.
\<close>

theorem llm_replies_priced:
  "list_all (table_priced (lc_model c)) (replies (anthropic_ask h decode) qs c) \<and>
   list_all (table_priced (lc_model c)) (replies (openai_ask h decode') qs c) \<and>
   list_all (table_priced (fl_model f)) (replies fake_Complete qs f)"
  by (simp add: list_all_iff anthropic.replies_priced openai.replies_priced stand_in.replies_priced)

text \<open>The stand-in hands out its queue in order, one text per answered request, and logs every request.\<close>

lemma fake_queue_in_order:
  assumes "\<And>q. q \<in> set qs \<Longrightarrow> 0 < snd (snd q)" "length qs \<le> length (fl_responseQueue f)" "fl_failNext f = None"
  shows "map r_Content (replies fake_Complete qs f) = take (length qs) (fl_responseQueue f)"
  using assms
proof (induction qs arbitrary: f)
  case (Cons q qs)
  obtain sys user n where q: "q = (sys, user, n)" by (cases q)
  from Cons.prems obtain c cs where c: "fl_responseQueue f = c # cs" by (cases "fl_responseQueue f") auto
  let ?f = "f\<lparr>fl_calls := fl_calls f @ [(sys, user, n)], fl_responseQueue := cs\<rparr>"
  have n: "0 < n" using Cons.prems(1) [of q] q by simp
  then have step: "fake_Complete f sys user n = (?f, Ok (llm_reply (fl_model f) c (fl_inputTokens f) (fl_outputTokens f)))"
    using c Cons.prems(3) by (simp add: fake_Complete_def)
  have "map r_Content (replies fake_Complete qs ?f) = take (length qs) (fl_responseQueue ?f)"
    by (rule Cons.IH) (use Cons.prems c in auto)
  then show ?case using q c step by (simp add: llm_reply_def)
qed simp

end
