(* ===== verification/Wiring.thy ===== *)
theory Wiring
  imports Swarm Orchestrator Momentum Liquidity CrossYield SolanaChain Config FakeChain MockChain Prices Api Llm
begin

text \<open>
  \<^verbatim>\<open>cmd/swarm/main.go\<close>, the program that boots every subsystem, with \<^verbatim>\<open>internal/db/db.go\<close> and \<^verbatim>\<open>migrate.go\<close> as
  it calls them.  What a subsystem does once it runs is the matter of its own theory; here is what the program constructs, in which
  order, from which settings, and when it gives up.  A resource outside the program (a dialled node, a pool, a broker) is the
  outcome of opening it, given by an environment.
\<close>

section \<open>Database start\<close>

text \<open>The migration library: opening its embedded source, binding it to a URL, and what \<^verbatim>\<open>Up\<close> or \<^verbatim>\<open>Down\<close> reports.\<close>

datatype migrate_outcome = Migrated | NoChange | MigrateFailed error

record migrate_lib =
  ml_source :: "unit result"
  ml_open :: "string \<Rightarrow> unit result"
  ml_Up :: "string \<Rightarrow> migrate_outcome"
  ml_Down :: "string \<Rightarrow> migrate_outcome"

definition stripScheme :: "string \<Rightarrow> string" where
  "stripScheme url =
     (case find (\<lambda>p. length p < length url \<and> HasPrefix url p) [''postgres://'', ''postgresql://''] of
        Some p \<Rightarrow> drop (length p) url
      | None \<Rightarrow> url)"

definition migrate_with :: "string \<Rightarrow> string \<Rightarrow> (migrate_lib \<Rightarrow> string \<Rightarrow> migrate_outcome) \<Rightarrow> migrate_lib \<Rightarrow> string \<Rightarrow> unit result" where
  "migrate_with who direction go m directURL =
     (if directURL = [] then Fail (who @ '': DATABASE_URL is empty'')
      else bindr (wrapr (who @ '': open embedded migrations'') (ml_source m)) (\<lambda>_.
           let target = ''pgx5://'' @ stripScheme directURL in
           bindr (wrapr (who @ '': init migrate'') (ml_open m target)) (\<lambda>_.
             case go m target of
               MigrateFailed e \<Rightarrow> Inl (Wrap (who @ '': apply '' @ direction @ '' migrations'') e)
             | _ \<Rightarrow> Ok ())))"

definition db_Run :: "migrate_lib \<Rightarrow> string \<Rightarrow> unit result" where "db_Run = migrate_with ''db.Run'' ''up'' ml_Up"
definition db_Down :: "migrate_lib \<Rightarrow> string \<Rightarrow> unit result" where "db_Down = migrate_with ''db.Down'' ''down'' ml_Down"

record pool_config =
  po_URL :: string
  po_MaxConns :: int
  po_MaxConnLifetime :: duration
  po_MaxConnIdleTime :: duration
  po_ExecMode :: string

text \<open>Parsing, opening and pinging are the pool library's; the settings in between are the code's.\<close>

definition NewPool :: "(string \<Rightarrow> unit result) \<Rightarrow> (pool_config \<Rightarrow> unit result) \<Rightarrow> (pool_config \<Rightarrow> unit result) \<Rightarrow> string \<Rightarrow> pool_config result" where
  "NewPool parse open_pool ping poolURL =
     (if poolURL = [] then Fail ''db: pool URL is empty''
      else bindr (wrapr ''db: parse pool URL'' (parse poolURL)) (\<lambda>_.
           let cfg = \<lparr>po_URL = poolURL, po_MaxConns = 20, po_MaxConnLifetime = 30 * Minute, po_MaxConnIdleTime = 5 * Minute, po_ExecMode = ''exec''\<rparr> in
           bindr (wrapr ''db: open pool'' (open_pool cfg)) (\<lambda>_. bindr (wrapr ''db: ping'' (ping cfg)) (\<lambda>_. Ok cfg))))"

section \<open>Chain clients\<close>

datatype chain_client = SolClient SolanaClient | EthClient BaseClient

record boot_env =
  bo_Getenv :: "string \<Rightarrow> string"
  bo_order :: "string list \<Rightarrow> string list"
  bo_ParseFloat :: "string \<Rightarrow> f64 result"
  bo_ParseDuration :: "string \<Rightarrow> duration option"
  bo_migrate :: migrate_lib
  bo_parse_pool :: "string \<Rightarrow> unit result"
  bo_open_pool :: "pool_config \<Rightarrow> unit result"
  bo_ping :: "pool_config \<Rightarrow> unit result"
  bo_pg :: postgres
  bo_db :: db
  bo_redis :: "string \<Rightarrow> unit result"
  bo_dial :: "string \<Rightarrow> unit result"
  bo_DevNet :: string
  bo_sort :: "string list \<Rightarrow> string list"
  bo_store :: "pool_config \<Rightarrow> Store"

text \<open>The registry as the package's \<^verbatim>\<open>init\<close> functions leave it.\<close>

definition chain_factories :: "boot_env \<Rightarrow> (ChainConfig \<Rightarrow> chain_client result) registry" where
  "chain_factories env =
     (let base = (\<lambda>cfg. bindr (baseFactory (bo_dial env) hex_decode cfg) (\<lambda>c. Ok (EthClient c)));
          solana = (\<lambda>cfg. bindr (solanaFactory (bo_DevNet env) hex_decode cfg) (\<lambda>c. Ok (SolClient c)))
      in the (Option.bind (chain_Register ''base'' (Some base) []) (chain_Register ''solana'' (Some solana))))"

fun build_clients :: "(ChainConfig \<Rightarrow> chain_client result) registry \<Rightarrow> string \<Rightarrow> (string \<times> string) list \<Rightarrow> (string \<times> chain_client) list \<Rightarrow> (string \<times> chain_client) list result" where
  "build_clients reg network [] out = Ok out"
| "build_clients reg network ((name, rpcURL) # cs) out =
     (case chain_Get name reg of
        Inl e \<Rightarrow> Inl (Wrap (''chain '' @ name) e)
      | Inr factory \<Rightarrow> (case factory \<lparr>cc_Network = network, cc_RPCURL = rpcURL, cc_Extra = []\<rparr> of
          Inl e \<Rightarrow> Inl (Wrap (''chain '' @ name @ '' factory'') e)
        | Inr client \<Rightarrow> build_clients reg network cs (AList.update name client out)))"

definition buildChainClients :: "boot_env \<Rightarrow> Config \<Rightarrow> (string \<times> chain_client) list result" where
  "buildChainClients env cfg =
     build_clients (chain_factories env) (cf_Network cfg) [(''solana'', cf_HeliusDevnetURL cfg), (''base'', cf_AlchemyBaseSepoliaURL cfg)] []"

section \<open>Settings\<close>

definition apiAddr :: "(string \<Rightarrow> string) \<Rightarrow> string" where
  "apiAddr Getenv = or_else (Getenv ''API_ADDR'') '':8080''"

definition epochCadence :: "(string \<Rightarrow> duration option) \<Rightarrow> (string \<Rightarrow> string) \<Rightarrow> duration" where
  "epochCadence ParseDuration Getenv =
     (if Getenv ''EPOCH_INTERVAL'' \<noteq> []
      then (case ParseDuration (Getenv ''EPOCH_INTERVAL'') of Some d \<Rightarrow> if 0 < d then d else Hour | None \<Rightarrow> Hour)
      else Hour)"

datatype log_level = DebugLevel | InfoLevel | WarnLevel | ErrorLevel

definition newLogger :: "string \<Rightarrow> log_level result" where
  "newLogger level = Ok (if level = ''debug'' then DebugLevel else if level = ''warn'' then WarnLevel else if level = ''error'' then ErrorLevel else InfoLevel)"

text \<open>Alternating keys and values; a key that is not a string is printed, a last key without a value dropped.\<close>

fun fieldsFromKV :: "(jval \<Rightarrow> string) \<Rightarrow> jval list \<Rightarrow> (string \<times> jval) list" where
  "fieldsFromKV show (k # v # kv) = ((case k of JStr s \<Rightarrow> s | _ \<Rightarrow> show k), v) # fieldsFromKV show kv"
| "fieldsFromKV show _ = []"

section \<open>Tasks\<close>

text \<open>
  The dependencies of the task packages: one slot per task, filled by a \<^verbatim>\<open>Set...Deps\<close> call.  No file of the program calls one
  of them, so every slot is empty when the registry is used.
\<close>

record task_deps =
  td_crossYield :: "string list option option"
  td_liquidation :: "string list option option"
  td_liquidity :: "string list option option"
  td_momentum :: "string list option option"

definition no_deps :: task_deps where
  "no_deps = \<lparr>td_crossYield = None, td_liquidation = None, td_liquidity = None, td_momentum = None\<rparr>"

record config_decoders =
  cd_crossYield :: "(string \<Rightarrow> CrossChainYieldConfig result) \<times> CrossChainYieldConfig"
  cd_liquidation :: "(string \<Rightarrow> LiquidationHuntingConfig result) \<times> LiquidationHuntingConfig"
  cd_liquidity :: "(string \<Rightarrow> LiquidityProvisionConfig result) \<times> LiquidityProvisionConfig"
  cd_momentum :: "(string \<Rightarrow> MomentumConfig result) \<times> MomentumConfig"

datatype built_task = CrossYieldTask CrossChainYield | LiquidationTask LiquidationHunting | LiquidityTask LiquidityProvision | MomentumTask Momentum

definition task_factories :: "config_decoders \<Rightarrow> task_deps \<Rightarrow> (string \<Rightarrow> built_task result) registry" where
  "task_factories cd deps = the (register_all
     [(''cross_chain_yield'', Some (\<lambda>raw. bindr (crossChainYieldFactory (fst (cd_crossYield cd)) (snd (cd_crossYield cd)) (td_crossYield deps) raw) (\<lambda>t. Ok (CrossYieldTask t)))),
      (''liquidation_hunting'', Some (\<lambda>raw. bindr (liquidationHuntingFactory (fst (cd_liquidation cd)) (snd (cd_liquidation cd)) (td_liquidation deps) raw) (\<lambda>t. Ok (LiquidationTask t)))),
      (''liquidity_provision'', Some (\<lambda>raw. bindr (liquidityProvisionFactory (fst (cd_liquidity cd)) (snd (cd_liquidity cd)) (td_liquidity deps) raw) (\<lambda>t. Ok (LiquidityTask t)))),
      (''momentum'', Some (\<lambda>raw. bindr (momentumFactory (fst (cd_momentum cd)) (snd (cd_momentum cd)) (td_momentum deps) raw) (\<lambda>t. Ok (MomentumTask t))))] [])"

definition production :: "postgres \<Rightarrow> config_decoders \<Rightarrow> (string list \<Rightarrow> string list) \<Rightarrow> llm_registry \<Rightarrow> swarm_env" where
  "production pg cd p llms =
     \<lparr>se_pg = pg, se_build = (\<lambda>name raw. bindr (Build name raw (task_factories cd no_deps)) (\<lambda>_. Ok ())),
      se_llm = (\<lambda>model. bindr (llm_Get p model llms) (\<lambda>_. Ok ()))\<rparr>"

section \<open>Epochs\<close>

text \<open>\<^verbatim>\<open>seedEpochRow\<close>; \<open>uuid\<close> is the identifier the database generates.  A repeated one violates the primary key.\<close>

definition seedEpochRow :: "postgres \<Rightarrow> string \<Rightarrow> time \<Rightarrow> db \<Rightarrow> db \<times> string result" where
  "seedEpochRow pg uuid now d =
     (case pg_fault pg ''seed epoch'' of
        Some e \<Rightarrow> (d, Inl e)
      | None \<Rightarrow>
          if uuid \<in> set (map ep_id (t_epochs d)) then (d, Fail ''constraint violation'')
          else (d\<lparr>t_epochs := t_epochs d @
            [\<lparr>ep_id = uuid, ep_number = next_epoch_number (t_epochs d), ep_started_at = now, ep_ended_at = now,
              ep_total_agents = int (length (filter (\<lambda>r. ar_status r = ''active'') (t_agents d))), ep_killed = 0, ep_promoted = 0, ep_spawned = 0,
              ep_treasury_balance = pg_numeric pg (rnd (\<Sum>r \<leftarrow> filter (\<lambda>r. ar_name r \<in> {''root_treasury_solana'', ''root_treasury_base''}) (t_agents d).
                fval (coalesce (ar_current_balance r) (Fin 0)))),
              ep_total_pnl = Fin 0, ep_breaker = False\<rparr>]\<rparr>, Ok uuid))"

record cron_tick =
  ct_uuid :: string
  ct_seeded :: time
  ct_started :: time
  ct_ended :: time

text \<open>One run: a failed seed ends it; a failed epoch is logged.  The loop does one run at boot and one per tick.\<close>

definition runOne :: "postgres \<Rightarrow> RootOrchestratorConfig \<Rightarrow> cron_tick \<Rightarrow> db \<Rightarrow> db" where
  "runOne pg cfg t d =
     (case seedEpochRow pg (ct_uuid t) (ct_seeded t) d of
        (d', Inl _) \<Rightarrow> d'
      | (d', Inr epochID) \<Rightarrow> fst (run_epoch_db pg cfg (ct_started t) (ct_ended t) epochID d'))"

definition runEpochCron :: "postgres \<Rightarrow> RootOrchestratorConfig \<Rightarrow> cron_tick \<Rightarrow> cron_tick list \<Rightarrow> db \<Rightarrow> db" where
  "runEpochCron pg cfg boot ticks d = fold (runOne pg cfg) (boot # ticks) d"

section \<open>Boot\<close>

record booted =
  bt_level :: log_level
  bt_clients :: "(string \<times> chain_client) list"
  bt_cache :: PriceCache
  bt_swarm :: SwarmRuntime
  bt_started :: "int result"
  bt_collector :: duration
  bt_telegram :: bool
  bt_server :: Server
  bt_addr :: string
  bt_orchestrator :: "RootOrchestratorConfig option"
  bt_cadence :: duration

definition treasury_ready :: "postgres \<Rightarrow> db \<Rightarrow> unit result" where
  "treasury_ready pg d = bindr (wrapr ''treasury check'' (TreasuryInitialized pg d)) (\<lambda>ready.
     if ready then Ok () else Fail ''treasury not initialized: run init-treasury first'')"

definition boot_api :: "boot_env \<Rightarrow> Config \<Rightarrow> pool_config \<Rightarrow> Server result" where
  "boot_api env cfg pool = wrapr ''api'' (NewServer
     \<lparr>sc_Store = Some (bo_store env pool), sc_Subscribe = True, sc_APIKey = cf_APIKey cfg, sc_AuthRequired = True, sc_WebSocketEnabled = True, sc_CORSOrigins = [],
      sc_Channels = [], sc_HeartbeatInterval = 0\<rparr>)"

text \<open>\<open>as_LLM\<close> makes the strategist model's client callable, \<open>lifecycle\<close> is the manager over the database and the broker.\<close>

definition boot_orchestrator :: "boot_env \<Rightarrow> llm_registry \<Rightarrow> (llm_client \<Rightarrow> LLMClient) \<Rightarrow> LifecycleExecutor \<Rightarrow> RootOrchestratorConfig option result" where
  "boot_orchestrator env llms as_LLM lifecycle =
     (case llm_Get (bo_sort env) ''claude-haiku-4-5-20251001'' llms of
        Inl _ \<Rightarrow> Ok None
      | Inr c \<Rightarrow> bindr (wrapr ''orchestrator'' (NewRootOrchestrator True True True True True
          \<lparr>rc_Lifecycle = lifecycle, rc_Breaker = breakerAdapter, rc_LLM = as_LLM c, rc_Backtest = None,
           rc_LifecyclePolicyCfg = DefaultLifecyclePolicyConfig, rc_MaxLLMTokens = 0\<rparr>)) (\<lambda>rc. Ok (Some rc)))"

definition boot :: "boot_env \<Rightarrow> config_decoders \<Rightarrow> (llm_client \<Rightarrow> LLMClient) \<Rightarrow> LifecycleExecutor \<Rightarrow> booted result" where
  "boot env cd as_LLM lifecycle =
     bindr (wrapr ''config'' (Load (bo_order env) (bo_ParseFloat env) (bo_Getenv env))) (\<lambda>cfg.
     bindr (wrapr ''logger'' (newLogger (cf_LogLevel cfg))) (\<lambda>level.
     bindr (wrapr ''migrations'' (db_Run (bo_migrate env) (cf_DatabaseURL cfg))) (\<lambda>_.
     bindr (wrapr ''db pool'' (NewPool (bo_parse_pool env) (bo_open_pool env) (bo_ping env) (cf_DatabasePoolURL cfg))) (\<lambda>pool.
     bindr (treasury_ready (bo_pg env) (bo_db env)) (\<lambda>_.
     bindr (wrapr ''redis'' (bo_redis env (cf_RedisURL cfg))) (\<lambda>_.
     let llms = Configure (cf_AnthropicAPIKey cfg) (cf_OpenAIAPIKey cfg) empty_llms in
     bindr (wrapr ''chain clients'' (buildChainClients env cfg)) (\<lambda>clients.
     bindr (wrapr ''swarm runtime'' (NewSwarm True True None 0 0 0)) (\<lambda>swarm.
     let (swarm', started) = LoadAndStart (production (bo_pg env) cd (bo_sort env) llms) (bo_db env) swarm in
     bindr (wrapr ''price collector'' (NewPriceCollector (Some (NewPriceCache [])) (Some [(''solana'', ''SOL/USDC''), (''base'', ''ETH/USDC'')]) (Some ()) 0)) (\<lambda>interval.
     bindr (boot_api env cfg pool) (\<lambda>server.
     bindr (boot_orchestrator env llms as_LLM lifecycle) (\<lambda>orch. Ok
       \<lparr>bt_level = level, bt_clients = clients, bt_cache = NewPriceCache [], bt_swarm = swarm', bt_started = started, bt_collector = interval,
        bt_telegram = (cf_TelegramBotToken cfg \<noteq> [] \<and> cf_TelegramChatID cfg \<noteq> []), bt_server = server, bt_addr = apiAddr (bo_Getenv env),
        bt_orchestrator = orch, bt_cadence = epochCadence (bo_ParseDuration env) (bo_Getenv env)\<rparr>)))))))))))"

text \<open>
  The group: what its goroutines return, in the order they return.  The first error ends it, and a cancelled context is no error;
  the collector's and the server's own wrappers turn a cancelled context and a closed server into a normal end.
\<close>

definition collector_end :: "error option \<Rightarrow> error option" where "collector_end r = (if r = Some (Err ''context canceled'') then None else r)"
definition server_end :: "error option \<Rightarrow> error option" where "server_end r = (if r = Some (Err ''http: Server closed'') then None else r)"

definition group_wait :: "error option list \<Rightarrow> unit result" where
  "group_wait rs = (case find (\<lambda>r. r \<noteq> None) rs of Some (Some e) \<Rightarrow> if e = Err ''context canceled'' then Ok () else Inl e | _ \<Rightarrow> Ok ())"

definition swarm_main :: "boot_env \<Rightarrow> config_decoders \<Rightarrow> (llm_client \<Rightarrow> LLMClient) \<Rightarrow> LifecycleExecutor \<Rightarrow> (booted \<Rightarrow> error option list) \<Rightarrow> unit result" where
  "swarm_main env cd as_LLM lifecycle ends = bindr (boot env cd as_LLM lifecycle) (\<lambda>b. group_wait (ends b))"

section \<open>The program does not boot\<close>

lemma chain_Get_factories:
  "chain_Get ''base'' (chain_factories env) = Ok (\<lambda>cfg. bindr (baseFactory (bo_dial env) hex_decode cfg) (\<lambda>c. Ok (EthClient c)))"
  "chain_Get ''solana'' (chain_factories env) = Ok (\<lambda>cfg. bindr (solanaFactory (bo_DevNet env) hex_decode cfg) (\<lambda>c. Ok (SolClient c)))"
  by (simp_all add: chain_factories_def chain_Register_def chain_Get_def Let_def)

text \<open>The two factories agree on no network name the configuration lets through.\<close>

lemma no_common_network:
  assumes "cc_Network cfg \<in> {''devnet'', ''mainnet''}"
  shows "\<exists>e. baseFactory dial dehex cfg = Inl e"
  using assms by (auto simp: baseFactory_def Let_def)

lemma buildChainClients_fails:
  assumes "cf_Network cfg \<in> {''devnet'', ''mainnet''}"
  shows "\<exists>e. buildChainClients env cfg = Inl e"
proof -
  obtain e where e: "baseFactory (bo_dial env) hex_decode \<lparr>cc_Network = cf_Network cfg, cc_RPCURL = cf_AlchemyBaseSepoliaURL cfg, cc_Extra = []\<rparr> = Inl e"
    using no_common_network [of "\<lparr>cc_Network = cf_Network cfg, cc_RPCURL = cf_AlchemyBaseSepoliaURL cfg, cc_Extra = []\<rparr>"] assms by auto
  show ?thesis
    by (cases "solanaFactory (bo_DevNet env) hex_decode \<lparr>cc_Network = cf_Network cfg, cc_RPCURL = cf_HeliusDevnetURL cfg, cc_Extra = []\<rparr>")
      (simp_all add: buildChainClients_def chain_Get_factories e)
qed

text \<open>
  C8: the program never boots.  The configuration admits the networks \<open>devnet\<close> and \<open>mainnet\<close> and no other; the Base client
  is built with that same name and admits only \<open>sepolia\<close>; so whatever the environment holds and however its resources answer,
  start-up ends in an error, at the chain clients or before.
\<close>

theorem swarm_never_boots:
  assumes "rearranges (bo_order env)"
  shows "\<exists>e. swarm_main env cd as_LLM lifecycle ends = Inl e"
proof -
  have "boot env cd as_LLM lifecycle \<noteq> Ok b" for b
  proof
    assume "boot env cd as_LLM lifecycle = Ok b"
    then obtain cfg clients where c: "Load (bo_order env) (bo_ParseFloat env) (bo_Getenv env) = Ok cfg" "buildChainClients env cfg = Ok clients"
      unfolding boot_def Let_def bindr_Ok_iff wrapr_Ok_iff by blast
    with buildChainClients_fails [of cfg env] Load_OkD(2) [OF assms c(1)] show False by auto
  qed
  then obtain e where "boot env cd as_LLM lifecycle = Inl e" by (meson sumE)
  then show ?thesis by (simp add: swarm_main_def)
qed

section \<open>No agent starts\<close>

lemma no_task_builds: "\<exists>e. Build name raw (task_factories cd no_deps) = Inl e"
  by (auto simp: Build_def task_factories_def register_all.simps Register_def no_deps_def crossChainYieldFactory_def liquidationHuntingFactory_def
      liquidityProvisionFactory_def momentumFactory_def split: option.splits if_splits)

lemma production_start:
  "fst (startFromRow (production pg cd p llms) row sw) = sw \<and> (\<exists>e. snd (startFromRow (production pg cd p llms) row sw) = Inl e)"
  using no_task_builds [of "ag_TaskType row" "ag_StrategyConfig row" cd] by (auto simp: startFromRow_def production_def)

lemma production_start_rows: "start_rows (production pg cd p llms) rows sw = (sw, 0)"
proof (induction rows)
  case (Cons row rows)
  obtain e where "startFromRow (production pg cd p llms) row sw = (sw, Inl e)" using production_start [of pg cd p llms row sw] by (metis prod.collapse)
  with Cons show ?case by simp
qed simp

lemma production_dispatch:
  assumes "sw_runners sw = Map.empty"
  shows "dispatch (production pg cd p llms) d m sw = sw"
proof -
  have "fst (spawnByID (production pg cd p llms) d i sw) = sw" for i
    using production_start [of pg cd p llms _ sw] by (auto simp: spawnByID_def split: sum.splits option.splits)
  with assms show ?thesis by (auto simp: dispatch_def stop_runner_def withRunner_def split: option.splits)
qed

lemma production_receive:
  assumes "sw_runners sw = Map.empty"
  shows "receive (production pg cd p llms) d q sw = sw"
proof -
  have "fold (dispatch (production pg cd p llms) d) ms sw = sw" for ms by (induction ms) (simp_all add: production_dispatch [OF assms])
  then show ?thesis by (simp add: receive_def)
qed

text \<open>
  The tasks of the program are built from dependencies that nothing sets, so no agent ever runs: at start-up the runtime starts
  none of the active agents, and no spawn message it receives later starts one, whatever the tables and the messages hold.
\<close>

theorem production_starts_no_agent:
  assumes "NewSwarm True True None mi hi si = Ok sw"
  shows "fst (LoadAndStart (production pg cd p llms) d sw) = sw \<and> sw_runners sw = Map.empty \<and>
    (snd (LoadAndStart (production pg cd p llms) d sw) = Ok 0 \<or> (\<exists>e. ListActiveAgents pg d = Inl e)) \<and>
    sw_runners (receive (production pg cd p llms) d' q sw) = Map.empty"
proof -
  have sw: "sw_runners sw = Map.empty" using assms by (auto simp: NewSwarm_def bindr_Ok_iff)
  have pg: "se_pg (production pg cd p llms) = pg" by (simp add: production_def)
  show ?thesis
    by (cases "ListActiveAgents pg d") (simp_all add: LoadAndStart_def pg production_start_rows production_receive [OF sw] sw)
qed

theorem production_starts_no_agent_witness:
  "\<forall>cd q. \<exists>sw. NewSwarm True True None 0 0 0 = Ok sw \<and> sw_runners (receive (production pg_ok cd (\<lambda>xs. xs) empty_llms) sample_db q sw) = Map.empty"
proof (intro allI)
  fix cd q
  obtain sw where sw: "NewSwarm True True None 0 0 0 = Ok sw" by (simp add: NewSwarm_def)
  from production_starts_no_agent [OF sw, of pg_ok cd "\<lambda>xs. xs" empty_llms sample_db sample_db q] sw
  show "\<exists>sw. NewSwarm True True None 0 0 0 = Ok sw \<and> sw_runners (receive (production pg_ok cd (\<lambda>xs. xs) empty_llms) sample_db q sw) = Map.empty" by blast
qed

section \<open>Epoch numbers\<close>

definition epoch_keys :: "db \<Rightarrow> (string \<times> int) list" where
  "epoch_keys d = map (\<lambda>r. (ep_id r, ep_number r)) (t_epochs d)"

lemma exec_epoch_keys: "epoch_keys d' = epoch_keys d \<Longrightarrow> epoch_keys (fst (exec pg stmt msg d d')) = epoch_keys d"
  by (simp add: exec_def split: option.splits)

lemma upsert_keys: "ep_id n \<in> set (map ep_id rows) \<Longrightarrow> map (\<lambda>r. (ep_id r, ep_number r)) (upsert_epoch n rows) = map (\<lambda>r. (ep_id r, ep_number r)) rows"
  by (auto simp: upsert_epoch_def)

lemma apply_event_keys:
  assumes "\<And>r. e = EvLog r \<Longrightarrow> er_EpochID r \<in> set (map ep_id (t_epochs d))"
  shows "epoch_keys (apply_event pg e d) = epoch_keys d"
proof (cases e)
  case (EvDecision dec)
  then show ?thesis by (auto simp: PersistOffspringDecision_def Let_def epoch_keys_def exec_def split: option.splits if_splits)
next
  case (EvPostmortem i p)
  then show ?thesis by (auto simp: PersistPostmortem_def epoch_keys_def exec_def split: option.splits if_splits)
next
  case (EvLog r)
  with assms have "er_EpochID r \<in> set (map ep_id (t_epochs d))" by simp
  then show ?thesis using EvLog by (simp add: LogEpoch_def Let_def exec_def epoch_keys_def upsert_keys split: option.splits)
qed simp_all

lemma fold_events_keys:
  assumes "\<And>r. EvLog r \<in> set evs \<Longrightarrow> er_EpochID r \<in> set (map ep_id (t_epochs d))"
  shows "epoch_keys (fold (apply_event pg) evs d) = epoch_keys d"
  using assms
proof (induction evs arbitrary: d)
  case (Cons e evs)
  have k: "epoch_keys (apply_event pg e d) = epoch_keys d" by (rule apply_event_keys) (use Cons.prems in auto)
  then have "map fst (epoch_keys (apply_event pg e d)) = map fst (epoch_keys d)" by simp
  then have ids: "map ep_id (t_epochs (apply_event pg e d)) = map ep_id (t_epochs d)" by (simp add: epoch_keys_def comp_def)
  have "epoch_keys (fold (apply_event pg) evs (apply_event pg e d)) = epoch_keys (apply_event pg e d)"
    by (rule Cons.IH) (use Cons.prems ids in auto)
  with k show ?case by simp
qed simp

lemma run_actions_no_log: "EvLog r \<notin> set (fst (run_actions cfg st as))"
  by (induction as) (auto simp: Let_def split: prod.splits)

lemma RunEpoch_logs_own:
  assumes "RunEpoch cfg load lg a b i = (evs, res, err)" "EvLog r \<in> set evs"
  shows "er_EpochID r = i"
  using assms run_actions_no_log by (auto simp: RunEpoch_def Let_def split: sum.splits)

lemma run_epoch_db_keys:
  assumes "i \<in> set (map ep_id (t_epochs d))"
  shows "epoch_keys (fst (run_epoch_db pg cfg a b i d)) = epoch_keys d"
proof -
  obtain evs res err where r: "RunEpoch cfg (LoadEpochState pg a d) (\<lambda>r. snd (LogEpoch pg r d)) a b i = (evs, res, err)" by (metis prod_cases3)
  have "epoch_keys (fold (apply_event pg) evs d) = epoch_keys d"
    by (rule fold_events_keys) (use RunEpoch_logs_own [OF r] assms in blast)
  then show ?thesis by (simp add: run_epoch_db_def r)
qed

definition epochs_numbered :: "db \<Rightarrow> bool" where
  "epochs_numbered d \<longleftrightarrow> distinct (map ep_id (t_epochs d)) \<and> map ep_number (t_epochs d) = map int [1..<Suc (length (t_epochs d))]"

lemma numbered_keys: "epoch_keys d' = epoch_keys d \<Longrightarrow> epochs_numbered d \<Longrightarrow> epochs_numbered d' \<and> length (t_epochs d') = length (t_epochs d)"
proof -
  assume k: "epoch_keys d' = epoch_keys d" and n: "epochs_numbered d"
  have "map ep_id (t_epochs x) = map fst (epoch_keys x)" "map ep_number (t_epochs x) = map snd (epoch_keys x)" "length (t_epochs x) = length (epoch_keys x)" for x
    by (simp_all add: epoch_keys_def comp_def)
  with k n show ?thesis by (simp add: epochs_numbered_def)
qed

lemma next_number: "map ep_number rows = map int [1..<Suc (length rows)] \<Longrightarrow> next_epoch_number rows = int (Suc (length rows))"
proof -
  assume m: "map ep_number rows = map int [1..<Suc (length rows)]"
  show ?thesis
  proof (cases "rows = []")
    case False
    have "set (map ep_number rows) = int ` {1..<Suc (length rows)}" unfolding m by (simp only: set_map set_upt)
    moreover have "Max (int ` {1..<Suc (length rows)}) = int (length rows)"
      using False by (intro Max_eqI) (auto simp: image_iff Suc_le_eq)
    ultimately show ?thesis using False by (simp add: next_epoch_number_def coalesce_def)
  qed (simp add: next_epoch_number_def coalesce_def)
qed

lemma runOne_ids:
  assumes "epochs_numbered d"
  shows "epochs_numbered (runOne pg cfg t d) \<and>
    map ep_id (t_epochs (runOne pg cfg t d)) =
      map ep_id (t_epochs d) @ (if pg_fault pg ''seed epoch'' = None \<and> ct_uuid t \<notin> set (map ep_id (t_epochs d)) then [ct_uuid t] else [])"
proof (cases "seedEpochRow pg (ct_uuid t) (ct_seeded t) d")
  case (Pair d' res)
  show ?thesis
  proof (cases res)
    case (Inl e)
    with Pair assms show ?thesis by (auto simp: runOne_def seedEpochRow_def split: option.splits if_splits)
  next
    case (Inr i)
    with Pair have i: "i = ct_uuid t" "pg_fault pg ''seed epoch'' = None" "ct_uuid t \<notin> set (map ep_id (t_epochs d))"
      "map ep_id (t_epochs d') = map ep_id (t_epochs d) @ [ct_uuid t]"
      "map ep_number (t_epochs d') = map ep_number (t_epochs d) @ [next_epoch_number (t_epochs d)]" "length (t_epochs d') = Suc (length (t_epochs d))"
      by (auto simp: seedEpochRow_def split: option.splits if_splits)
    have n: "epochs_numbered d'" using assms i next_number [of "t_epochs d"] by (simp add: epochs_numbered_def)
    have m: "i \<in> set (map ep_id (t_epochs d'))" using i by simp
    have run: "runOne pg cfg t d = fst (run_epoch_db pg cfg (ct_started t) (ct_ended t) i d')" using Pair Inr by (simp add: runOne_def)
    have k: "epoch_keys (runOne pg cfg t d) = epoch_keys d'" unfolding run by (rule run_epoch_db_keys [OF m])
    then have "map fst (epoch_keys (runOne pg cfg t d)) = map fst (epoch_keys d')" by simp
    then have "map ep_id (t_epochs (runOne pg cfg t d)) = map ep_id (t_epochs d')" by (simp add: epoch_keys_def comp_def)
    with numbered_keys [OF k n] i show ?thesis by simp
  qed
qed

text \<open>
  C36: the epoch loop keeps the epochs table numbered from one without gaps and with one row per identifier, whatever the epochs
  themselves do or fail to do; and if the database answers and its identifiers are fresh, every run adds its own row.
\<close>

theorem cron_epochs_consecutive:
  assumes "epochs_numbered d"
  shows "epochs_numbered (runEpochCron pg cfg boot_tick ticks d) \<and>
    (pg_fault pg ''seed epoch'' = None \<and> distinct (map ep_id (t_epochs d) @ map ct_uuid (boot_tick # ticks)) \<longrightarrow>
       map ep_id (t_epochs (runEpochCron pg cfg boot_tick ticks d)) = map ep_id (t_epochs d) @ map ct_uuid (boot_tick # ticks))"
proof -
  have "epochs_numbered (fold (runOne pg cfg) ts x) \<and> (pg_fault pg ''seed epoch'' = None \<and> distinct (map ep_id (t_epochs x) @ map ct_uuid ts) \<longrightarrow>
      map ep_id (t_epochs (fold (runOne pg cfg) ts x)) = map ep_id (t_epochs x) @ map ct_uuid ts)" if "epochs_numbered x" for ts x
    using that
  proof (induction ts arbitrary: x)
    case (Cons t ts)
    from runOne_ids [OF Cons.prems, of pg cfg t] Cons.IH [of "runOne pg cfg t x"] show ?case by auto
  qed simp
  from this [OF assms, of "boot_tick # ticks"] show ?thesis unfolding runEpochCron_def .
qed

theorem cron_epochs_consecutive_witness: "\<forall>cfg t ts. epochs_numbered (runEpochCron pg_ok cfg t ts sample_db)"
proof (intro allI)
  fix cfg t ts
  have "epochs_numbered sample_db" by (simp add: epochs_numbered_def sample_db_def)
  from cron_epochs_consecutive [OF this] show "epochs_numbered (runEpochCron pg_ok cfg t ts sample_db)" by blast
qed

section \<open>Clients without a key\<close>

text \<open>
  The program gives a chain client no master key, so the client it builds can sign nothing: every swap and every transaction it
  is asked for ends in an error and broadcasts nothing, with any wallet.
\<close>

theorem built_client_signs_nothing:
  assumes "solanaFactory node dehex \<lparr>cc_Network = n, cc_RPCURL = url, cc_Extra = []\<rparr> = Ok c" "sw_client w = c"
  shows "(\<exists>e. sol_ExecuteSwap env dry quote wallet w = (w, Inl e)) \<and> (\<exists>e. sol_SendTransaction env dry tx wallet w = (w, Inl e))"
proof -
  have "sc_masterKey c = []" using assms(1) by (auto simp: solanaFactory_def factory_key_def extra_def bindr_Ok_iff split: if_splits)
  then have key: "sc_masterKey (sw_client w) = []" by (simp add: assms(2))
  have un: "\<exists>e. UnsealSolanaWallet (se_E env) (se_ed env) [] ow = Inl e" for ow by (rule no_key_no_wallet(2))
  obtain u where u: "UnsealSolanaWallet (se_E env) (se_ed env) [] wallet = Inl u" using un by blast
  have "\<exists>e. sol_signed_swap env (sw_client w) q wl = Inl e" for q wl
    using un [of "Some wl"] by (auto simp: sol_signed_swap_def key)
  then have never: "sol_signed_swap env (sw_client w) q wl \<noteq> Ok tx" for q wl tx by (metis Inl_Inr_False)
  have "\<exists>e. sol_ExecuteSwap env dry quote wallet w = (w, Inl e)"
    by (cases quote; cases wallet) (auto simp: sol_ExecuteSwap_def never split: sum.splits)
  moreover have "\<exists>e. sol_SendTransaction env dry tx wallet w = (w, Inl e)"
    by (simp add: sol_SendTransaction_def key u)
  ultimately show ?thesis ..
qed

theorem built_client_signs_nothing_witness:
  "\<exists>c e. solanaFactory ''https://api.devnet.solana.com'' hex_decode \<lparr>cc_Network = ''devnet'', cc_RPCURL = [], cc_Extra = []\<rparr> = Ok c \<and>
     sol_SendTransaction sample_sol_env False None (Some \<lparr>wl_Chain = ''solana'', wl_Address = [], wl_KeyEncrypted = []\<rparr>) \<lparr>sw_client = c, sw_sent = []\<rparr> =
       (\<lparr>sw_client = c, sw_sent = []\<rparr>, Inl e)"
proof -
  obtain c where c: "solanaFactory ''https://api.devnet.solana.com'' hex_decode \<lparr>cc_Network = ''devnet'', cc_RPCURL = [], cc_Extra = []\<rparr> = Ok c"
    by (simp add: solanaFactory_def factory_key_def extra_def)
  have w: "sw_client \<lparr>sw_client = c, sw_sent = [] :: bytes list\<rparr> = c" by simp
  from built_client_signs_nothing [OF c w] c show ?thesis by blast
qed

section \<open>Settings of the pool\<close>

lemma cadence_positive: "0 < epochCadence ParseDuration Getenv"
  by (auto simp: epochCadence_def go_defs split: option.splits)

lemma scheme_stripped:
  "stripScheme (''postgres://'' @ c # rest) = c # rest" "stripScheme (''postgresql://'' @ c # rest) = c # rest" "stripScheme ''postgres://'' = ''postgres://''"
  by (simp_all add: stripScheme_def HasPrefix_def)

text \<open>A program whose environment is complete and whose resources all answer: it fails at the chain clients.\<close>

definition sample_boot :: "Store \<Rightarrow> boot_env" where
  "sample_boot st = \<lparr>bo_Getenv = (\<lambda>n. if n = ''NETWORK'' then ''devnet'' else if n = ''MASTER_ENCRYPTION_KEY'' then replicate 64 (CHR ''a'') else
       if n \<in> {''DATABASE_URL'', ''REDIS_URL'', ''API_KEY''} then ''x'' else []),
     bo_order = (\<lambda>xs. xs), bo_ParseFloat = (\<lambda>_. Ok (Fin 1)), bo_ParseDuration = (\<lambda>_. None),
     bo_migrate = \<lparr>ml_source = Ok (), ml_open = (\<lambda>_. Ok ()), ml_Up = (\<lambda>_. NoChange), ml_Down = (\<lambda>_. NoChange)\<rparr>,
     bo_parse_pool = (\<lambda>_. Ok ()), bo_open_pool = (\<lambda>_. Ok ()), bo_ping = (\<lambda>_. Ok ()), bo_pg = pg_ok,
     bo_db = sample_db\<lparr>t_agents := [sample_row\<lparr>ar_name := ''root_treasury_solana''\<rparr>, sample_row\<lparr>ar_name := ''root_treasury_base''\<rparr>]\<rparr>,
     bo_redis = (\<lambda>_. Ok ()), bo_dial = (\<lambda>_. Ok ()), bo_DevNet = ''https://api.devnet.solana.com'', bo_sort = (\<lambda>xs. xs), bo_store = (\<lambda>_. st)\<rparr>"

theorem swarm_never_boots_witness:
  "\<forall>st cd as_LLM lifecycle ends. \<exists>e. swarm_main (sample_boot st) cd as_LLM lifecycle ends = Inl e"
  by (intro allI swarm_never_boots) (simp add: sample_boot_def)

end
