(* ===== verification/Commands.thy ===== *)
theory Commands
  imports Wiring
begin

text \<open>
  The other programs: \<^verbatim>\<open>cmd/seed-nodes\<close>, which fills the agents table from a file, \<^verbatim>\<open>cmd/init-treasury\<close>, which makes
  the two treasury wallets, and \<^verbatim>\<open>cmd/devnet-fund\<close>, which asks the test networks' faucets for money.  The YAML package, the
  nodes and the faucets are arguments; what a run draws at random (keys and nonces, and the identifiers the database generates) is
  given per wallet.
\<close>

section \<open>Wallets\<close>

record ('k, 'e) wallet_env =
  we_E :: block_cipher
  we_ed :: "'k ed25519"
  we_secp :: "'e secp256k1"

record ('k, 'e) draws =
  dw_uuid :: string
  dw_now :: time
  dw_ed :: "'k result"
  dw_secp :: "'e result"
  dw_nonce :: "bytes result"

definition newWallet :: "('k, 'e) wallet_env \<Rightarrow> ('k, 'e) draws \<Rightarrow> string \<Rightarrow> bytes \<Rightarrow> Wallet result" where
  "newWallet env dw chainName masterKey =
     (if chainName = ''solana'' then NewSolanaWallet (we_E env) (we_ed env) (dw_ed dw) (dw_nonce dw) masterKey
      else if chainName = ''base'' then NewBaseWallet (we_E env) (we_secp env) (dw_secp dw) (dw_nonce dw) masterKey
      else Fail (''unknown chain '' @ chainName))"

section \<open>Seed nodes\<close>

record SeedSpec =
  sd_Name :: string
  sd_TaskType :: string
  sd_Chain :: string
  sd_NodeClass :: string
  sd_CapitalUSD :: f64
  sd_StrategistModel :: string
  sd_StrategistPrompt :: string
  sd_StrategistInterval :: int

record SeedReport =
  sp_Spawned :: int
  sp_Skipped :: int
  sp_Lines :: "string list"

fun check_names :: "int \<Rightarrow> string list \<Rightarrow> string list \<Rightarrow> unit result" where
  "check_names i seen [] = Ok ()"
| "check_names i seen (n # ns) =
     (if n = [] then Fail (''nodes['' @ itoa i @ '']: name required'')
      else if n \<in> set seen then Fail (''nodes['' @ itoa i @ '']: duplicate name '' @ n)
      else check_names (i + 1) (n # seen) ns)"

definition ParseSeedYAML :: "(string \<Rightarrow> SeedSpec list result) \<Rightarrow> string \<Rightarrow> SeedSpec list result" where
  "ParseSeedYAML unmarshal raw =
     (if raw = [] then Fail ''empty seed file''
      else bindr (wrapr ''yaml'' (unmarshal raw)) (\<lambda>nodes.
        if nodes = [] then Fail ''seed file: nodes list is empty''
        else bindr (check_names 0 [] (map sd_Name nodes)) (\<lambda>_. Ok nodes)))"

definition seed_Validate :: "SeedSpec \<Rightarrow> unit result" where
  "seed_Validate s =
     (if sd_Name s = [] then Fail ''name required''
      else if sd_Chain s \<notin> {''solana'', ''base''} then Fail (''chain '' @ sd_Chain s @ '': must be solana or base'')
      else if sd_TaskType s \<notin> {''cross_chain_yield'', ''liquidity_provision'', ''liquidation_hunting'', ''momentum''}
      then Fail (''task_type '' @ sd_TaskType s @ '': must be one of cross_chain_yield, liquidity_provision, liquidation_hunting, momentum'')
      else if sd_NodeClass s \<notin> {''funded'', ''shadow''} then Fail (''node_class '' @ sd_NodeClass s @ '': must be funded or shadow'')
      else if flt (sd_CapitalUSD s) (Fin 0) then Fail (''capital_usd '' @ fmt_f 2 (sd_CapitalUSD s) @ '': must be >= 0'')
      else Ok ())"

definition defaultStrategyConfigJSON :: "string \<Rightarrow> string" where "defaultStrategyConfigJSON _ = ''{}''"

definition defaultPromptFor :: "string \<Rightarrow> string" where
  "defaultPromptFor taskType =
     (if taskType = ''cross_chain_yield''
      then ''you scan cross-chain yield. raise rates beat fees-plus-slippage; rebalance otherwise. be conservative on devnet.''
      else if taskType = ''liquidity_provision'' then ''you manage an LP position. widen ranges in volatile regimes, tighten when IL risk is low.''
      else if taskType = ''liquidation_hunting''
      then ''you hunt under-collateralized positions. take only liquidations whose bonus clears gas + slippage with margin.''
      else if taskType = ''momentum''
      then ''you trade momentum on a single pair. enter on confirmed breakouts, exit on threshold reversal or stop-loss.''
      else ''you are a strategist.'')"

definition ToAgentRow :: "SeedSpec \<Rightarrow> Wallet \<Rightarrow> Agent" where
  "ToAgentRow s w =
     \<lparr>ag_ID = [], ag_Name = sd_Name s, ag_Chain = sd_Chain s, ag_WalletAddress = wl_Address w, ag_WalletKeyEncrypted = wl_KeyEncrypted w,
      ag_TaskType = sd_TaskType s, ag_StrategyConfig = defaultStrategyConfigJSON (sd_TaskType s),
      ag_StrategistPrompt = or_else (sd_StrategistPrompt s) (defaultPromptFor (sd_TaskType s)),
      ag_StrategistModel = or_else (sd_StrategistModel s) ''claude-haiku-4-5-20251001'',
      ag_StrategistIntervalSeconds = (if sd_StrategistInterval s \<le> 0 then 14400 else sd_StrategistInterval s),
      ag_BanditPolicies = [], ag_LearnedRules = [], ag_SleepSchedule = [], ag_ReproductionPolicy = [], ag_CostPolicy = [], ag_CommunicationPolicy = [],
      ag_NodeClass = sd_NodeClass s, ag_Generation = 0, ag_LineageDepth = 0, ag_CapitalAllocated = sd_CapitalUSD s\<rparr>"

definition genomeFromRow :: "Agent \<Rightarrow> AgentGenome" where
  "genomeFromRow row = zero_genome\<lparr>g_Name := ag_Name row, g_TaskType := ag_TaskType row, g_Chain := ag_Chain row, g_StrategistPrompt := ag_StrategistPrompt row,
     g_StrategistModel := ag_StrategistModel row, g_StrategistIntervalSeconds := ag_StrategistIntervalSeconds row, g_CapitalAllocation := ag_CapitalAllocated row\<rparr>"

text \<open>One node: what becomes of the table and the messages, and its line of the report, or the error that ends the run.\<close>

definition seed_one :: "postgres \<Rightarrow> bus \<Rightarrow> ('k, 'e) wallet_env \<Rightarrow> bytes \<Rightarrow> SeedSpec \<times> ('k, 'e) draws \<Rightarrow> control \<Rightarrow> control \<times> (bool \<times> string) result" where
  "seed_one pg bus env masterKey sd c =
     (let (s, dw) = sd in
      case wrapr (''seed '' @ sd_Name s) (seed_Validate s) of
        Inl e \<Rightarrow> (c, Inl e)
      | Inr _ \<Rightarrow> (case GetAgentByName pg (sd_Name s) (fst c) of
          Inl e \<Rightarrow> (c, Inl (Wrap (''check '' @ sd_Name s) e))
        | Inr (Some r) \<Rightarrow> (c, Ok (False, ''- '' @ sd_Name s @ '': skip (existing wallet='' @ ar_wallet_address r @ '')''))
        | Inr None \<Rightarrow> (case wrapr (''wallet '' @ sd_Name s) (newWallet env dw (sd_Chain s) masterKey) of
            Inl e \<Rightarrow> (c, Inl e)
          | Inr w \<Rightarrow> (case lm_Spawn pg bus (dw_uuid dw) (dw_now dw) (ToAgentRow s w) ''seed-nodes'' c of
              (c', Inl e) \<Rightarrow> (c', Inl (Wrap (''spawn '' @ sd_Name s) e))
            | (c', Inr i) \<Rightarrow> (c', Ok (True, ''- '' @ sd_Name s @ '': spawn id='' @ i @ '' wallet='' @ wl_Address w @ '' class='' @ sd_NodeClass s @ '' task='' @ sd_TaskType s))))))"

fun SeedAll :: "postgres \<Rightarrow> bus \<Rightarrow> ('k, 'e) wallet_env \<Rightarrow> bytes \<Rightarrow> (SeedSpec \<times> ('k, 'e) draws) list \<Rightarrow> SeedReport \<Rightarrow> control \<Rightarrow> control \<times> SeedReport \<times> error option" where
  "SeedAll pg bus env mk [] r c = (c, r, None)"
| "SeedAll pg bus env mk (sd # sds) r c =
     (case seed_one pg bus env mk sd c of
        (c', Inl e) \<Rightarrow> (c', r, Some e)
      | (c', Inr (spawned, line)) \<Rightarrow> SeedAll pg bus env mk sds
          (r\<lparr>sp_Spawned := sp_Spawned r + (if spawned then 1 else 0), sp_Skipped := sp_Skipped r + (if spawned then 0 else 1), sp_Lines := sp_Lines r @ [line]\<rparr>) c')"

definition empty_report :: SeedReport where "empty_report = \<lparr>sp_Spawned = 0, sp_Skipped = 0, sp_Lines = []\<rparr>"

text \<open>The program: everything before the first write can fail and leaves the table alone.\<close>

definition seed_prepare :: "boot_env \<Rightarrow> (string \<Rightarrow> string result) \<Rightarrow> (string \<Rightarrow> SeedSpec list result) \<Rightarrow> string list \<Rightarrow> (Config \<times> bytes \<times> SeedSpec list) result" where
  "seed_prepare env read_file unmarshal args =
     (case args of
        [] \<Rightarrow> Fail ''usage: seed-nodes <seed.yaml>''
      | path # _ \<Rightarrow>
          bindr (wrapr ''config'' (Load (bo_order env) (bo_ParseFloat env) (bo_Getenv env))) (\<lambda>cfg.
          bindr (decode_master_key (cf_MasterEncryptionKey cfg)) (\<lambda>masterKey.
          bindr (wrapr (''read '' @ path) (read_file path)) (\<lambda>raw.
          bindr (wrapr (''parse '' @ path) (ParseSeedYAML unmarshal raw)) (\<lambda>specs.
            if specs = [] then Fail ''seed file has no nodes''
            else bindr (wrapr ''db pool'' (NewPool (bo_parse_pool env) (bo_open_pool env) (bo_ping env) (cf_DatabasePoolURL cfg))) (\<lambda>_.
                 bindr (wrapr ''redis'' (bo_redis env (cf_RedisURL cfg))) (\<lambda>_. Ok (cfg, masterKey, specs))))))))"

definition seed_nodes_main ::
  "boot_env \<Rightarrow> bus \<Rightarrow> ('k, 'e) wallet_env \<Rightarrow> (string \<Rightarrow> string result) \<Rightarrow> (string \<Rightarrow> SeedSpec list result) \<Rightarrow> (nat \<Rightarrow> ('k, 'e) draws) \<Rightarrow> string list \<Rightarrow> control \<Rightarrow>
   control \<times> string list result" where
  "seed_nodes_main env bus we read_file unmarshal dws args c =
     (case seed_prepare env read_file unmarshal args of
        Inl e \<Rightarrow> (c, Inl e)
      | Inr (cfg, masterKey, specs) \<Rightarrow> (case SeedAll (bo_pg env) bus we masterKey (map (\<lambda>(i, s). (s, dws i)) (enumerate 0 specs)) empty_report c of
          (c', _, Some e) \<Rightarrow> (c', Inl e)
        | (c', r, None) \<Rightarrow> (c', Ok ((''network='' @ cf_Network cfg @ '' spawned='' @ itoa (sp_Spawned r) @ '' skipped='' @ itoa (sp_Skipped r)) # sp_Lines r))))"

section \<open>Treasuries\<close>

definition treasury_suffix :: "bool \<Rightarrow> string" where
  "treasury_suffix created = (if created then '' (created)'' else '' (existing)'')"

definition treasury_wallet :: "('k, 'e) wallet_env \<Rightarrow> ('k, 'e) draws \<Rightarrow> string \<Rightarrow> bytes \<Rightarrow> (string \<times> string) result" where
  "treasury_wallet env dw chainName mk = bindr (newWallet env dw chainName mk) (\<lambda>w. Ok (wl_Address w, wl_KeyEncrypted w))"

definition init_treasury_main ::
  "boot_env \<Rightarrow> ('k, 'e) wallet_env \<Rightarrow> ('k, 'e) draws \<Rightarrow> ('k, 'e) draws \<Rightarrow> db \<Rightarrow> db \<times> string list result" where
  "init_treasury_main env we dw1 dw2 d =
     (case bindr (wrapr ''config'' (Load (bo_order env) (bo_ParseFloat env) (bo_Getenv env))) (\<lambda>cfg.
           bindr (decode_master_key (cf_MasterEncryptionKey cfg)) (\<lambda>masterKey.
           bindr (wrapr ''db pool'' (NewPool (bo_parse_pool env) (bo_open_pool env) (bo_ping env) (cf_DatabasePoolURL cfg))) (\<lambda>_. Ok (cfg, masterKey)))) of
        Inl e \<Rightarrow> (d, Inl e)
      | Inr (cfg, mk) \<Rightarrow>
          (case ensureTreasury (bo_pg env) (dw_uuid dw1) (treasury_wallet we dw1 ''solana'' mk) ''root_treasury_solana'' ''solana'' d of
             (d1, Inl e) \<Rightarrow> (d1, Inl e)
           | (d1, Inr (solAddr, solCreated)) \<Rightarrow>
               (case ensureTreasury (bo_pg env) (dw_uuid dw2) (treasury_wallet we dw2 ''base'' mk) ''root_treasury_base'' ''base'' d1 of
                  (d2, Inl e) \<Rightarrow> (d2, Inl e)
                | (d2, Inr (baseAddr, baseCreated)) \<Rightarrow> (d2, Ok
                    [''network='' @ cf_Network cfg, ''solana treasury: '' @ solAddr @ treasury_suffix solCreated,
                     ''base treasury:   '' @ baseAddr @ treasury_suffix baseCreated]))))"

section \<open>Faucets\<close>

datatype confirmation = Processed | Confirmed | Finalized

text \<open>A poll of the node: when it is made, what the status is if one came back, and whether the context ends while waiting.\<close>

record poll =
  pl_now :: time
  pl_status :: "(string option \<times> confirmation) option"
  pl_cancelled :: "error option"

fun waitForSignature :: "string \<Rightarrow> time \<Rightarrow> poll list \<Rightarrow> unit result option" where
  "waitForSignature sig deadline [] = None"
| "waitForSignature sig deadline (p # ps) =
     (if deadline < pl_now p then Some (Fail (''timeout waiting for '' @ sig))
      else let wait = (case pl_cancelled p of Some e \<Rightarrow> Some (Inl e) | None \<Rightarrow> waitForSignature sig deadline ps) in
        case pl_status p of
          None \<Rightarrow> wait
        | Some (Some e, _) \<Rightarrow> Some (Fail (''airdrop tx failed: '' @ e))
        | Some (None, s) \<Rightarrow> if s = Processed then wait else Some (Ok ()))"

record faucet_env =
  fc_FromBase58 :: "string \<Rightarrow> bytes result"
  fc_before :: "64 word option"
  fc_airdrop :: "bytes \<Rightarrow> int \<Rightarrow> string result"
  fc_start :: time
  fc_polls :: "poll list"
  fc_after :: "64 word result"

definition solanaAirdropSOL :: int where "solanaAirdropSOL = 5"
definition lamportsPerSOL :: int where "lamportsPerSOL = 1000000000"

definition sol_amount :: "64 word \<Rightarrow> string" where "sol_amount v = fmt_f 4 (fdiv (uint_f64 v) (f64_of_int lamportsPerSOL))"

text \<open>The lines printed and how it ends; \<open>None\<close> while the polls given are not enough.\<close>

definition fundSolana :: "faucet_env \<Rightarrow> string \<Rightarrow> string list \<times> unit result option" where
  "fundSolana f addr =
     (case wrapr ''parse address'' (fc_FromBase58 f addr) of
        Inl e \<Rightarrow> ([], Some (Inl e))
      | Inr pk \<Rightarrow> (case wrapr ''requestAirdrop'' (fc_airdrop f pk (solanaAirdropSOL * lamportsPerSOL)) of
          Inl e \<Rightarrow> ([], Some (Inl e))
        | Inr sig \<Rightarrow>
            let l1 = ''solana: requested '' @ itoa solanaAirdropSOL @ '' SOL airdrop, sig='' @ sig in
            (case waitForSignature sig (fc_start f + 60 * Second) (fc_polls f) of
               None \<Rightarrow> ([l1], None)
             | Some (Inl e) \<Rightarrow> ([l1], Some (Inl (Wrap ''await airdrop'' e)))
             | Some (Inr _) \<Rightarrow> (case wrapr ''post-airdrop balance'' (fc_after f) of
                 Inl e \<Rightarrow> ([l1], Some (Inl e))
               | Inr after \<Rightarrow> ([l1, ''solana: balance '' @ sol_amount (case fc_before f of None \<Rightarrow> 0 | Some v \<Rightarrow> v) @ '' -> '' @ sol_amount after @ '' SOL''], Some (Ok ()))))))"

definition baseFaucetURL :: string where "baseFaucetURL = ''https://faucet.base.org/api/sepolia''"

definition faucet_body :: "string \<Rightarrow> json" where
  "faucet_body addr = JsObj [(''address'', JsStr addr), (''network'', JsStr ''sepolia'')]"

definition attemptBaseFaucet :: "http_client \<Rightarrow> string \<Rightarrow> string \<Rightarrow> unit result" where
  "attemptBaseFaucet h addr key =
     (let rq = \<lparr>hq_Method = ''POST'', hq_URL = baseFaucetURL, hq_Headers = [(''content-type'', ''application/json''), (''authorization'', ''Bearer '' @ key)],
                hq_Body = Some (faucet_body addr)\<rparr> in
      case ht_build h rq of
        Some e \<Rightarrow> Inl e
      | None \<Rightarrow> (case ht_do h rq of
          Inl e \<Rightarrow> Inl e
        | Inr (status, body) \<Rightarrow>
            if 400 \<le> status then Fail (''faucet returned '' @ itoa status @ '': '' @ take 1024 (case body of Inl _ \<Rightarrow> [] | Inr b \<Rightarrow> b)) else Ok ()))"

definition sepolia_instructions :: "string \<Rightarrow> string list" where
  "sepolia_instructions addr =
     [[], ''base sepolia treasury: '' @ addr, ''manual faucet (Coinbase Wallet auth required):'',
      ''  open https://portal.cdp.coinbase.com/products/faucet?network=base-sepolia&address='' @ addr,
      ''alternative (programmatic, rate-limited):'',
      ''  curl -sS -X POST '' @ baseFaucetURL @ '' -H '' @ [CHR 0x27] @ ''content-type: application/json'' @ [CHR 0x27, CHR '' '', CHR 0x5C],
      ''    -d '' @ [CHR 0x27] @ ''{'' @ [CHR 0x22] @ ''address'' @ [CHR 0x22, CHR '':'', CHR 0x22] @ addr @ [CHR 0x22, CHR '','', CHR 0x22] @ ''network'' @
        [CHR 0x22, CHR '':'', CHR 0x22] @ ''sepolia'' @ [CHR 0x22, CHR ''}'', CHR 0x27]]"

text \<open>Its lines, and the error it logs and drops.\<close>

definition printSepoliaInstructions :: "http_client \<Rightarrow> (string \<Rightarrow> string) \<Rightarrow> string \<Rightarrow> string list \<times> error option" where
  "printSepoliaInstructions h Getenv addr =
     (let key = Getenv ''BASE_SEPOLIA_FAUCET_KEY'' in
      if key = [] then (sepolia_instructions addr, None)
      else case attemptBaseFaucet h addr key of
        Inl e \<Rightarrow> (sepolia_instructions addr, Some e)
      | Inr _ \<Rightarrow> (sepolia_instructions addr @ [''base sepolia: faucet accepted request''], None))"

definition found_agent :: "string \<Rightarrow> agent_row option result \<Rightarrow> agent_row result" where
  "found_agent who r =
     (case (case r of Inl e \<Rightarrow> Inl e | Inr None \<Rightarrow> Fail ''db: agent not found'' | Inr (Some a) \<Rightarrow> Ok a) of
        Inl e \<Rightarrow> Fail (who @ '': '' @ error_text e @ '' (run cmd/init-treasury first)'')
      | Inr a \<Rightarrow> Ok a)"

definition devnet_fund_main :: "boot_env \<Rightarrow> faucet_env \<Rightarrow> http_client \<Rightarrow> (string list \<times> unit result option) result" where
  "devnet_fund_main env f h =
     bindr (wrapr ''config'' (Load (bo_order env) (bo_ParseFloat env) (bo_Getenv env))) (\<lambda>cfg.
       if cf_Network cfg \<noteq> ''devnet'' then Fail (''NETWORK='' @ cf_Network cfg @ '': devnet-fund only runs against devnet'')
       else bindr (wrapr ''db pool'' (NewPool (bo_parse_pool env) (bo_open_pool env) (bo_ping env) (cf_DatabasePoolURL cfg))) (\<lambda>_.
            bindr (found_agent ''solana treasury'' (GetAgentByName (bo_pg env) ''root_treasury_solana'' (bo_db env))) (\<lambda>sol.
            bindr (found_agent ''base treasury'' (GetAgentByName (bo_pg env) ''root_treasury_base'' (bo_db env))) (\<lambda>base.
              let (ls, r) = fundSolana f (ar_wallet_address sol) in
              Ok (ls @ (if r = None then [] else fst (printSepoliaInstructions h (bo_Getenv env) (ar_wallet_address base))), map_option (\<lambda>_. Ok ()) r)))))"

section \<open>Seeding twice\<close>

definition agent_names :: "control \<Rightarrow> string set" where "agent_names c = ar_name ` set (t_agents (fst c))"

lemma find_by_name: "n \<in> agent_names c \<Longrightarrow> \<exists>r. find (\<lambda>r. ar_name r = n) (t_agents (fst c)) = Some r"
proof (cases "find (\<lambda>r. ar_name r = n) (t_agents (fst c))")
  case None
  assume "n \<in> agent_names c"
  then obtain x where "x \<in> set (t_agents (fst c))" "ar_name x = n" by (auto simp: agent_names_def)
  with None show ?thesis by (simp add: find_None_iff)
qed simp

lemma seed_one_Ok:
  assumes "seed_one pg bus env mk (s, dw) c = (c', Ok x)"
  shows "seed_Validate s = Ok () \<and> pg_fault pg ''get agent'' = None \<and> sd_Name s \<in> agent_names c' \<and> agent_names c \<subseteq> agent_names c'"
proof -
  have v: "seed_Validate s = Ok ()" using assms by (cases "seed_Validate s") (auto simp: seed_one_def)
  have f: "pg_fault pg ''get agent'' = None" using assms by (auto simp: seed_one_def GetAgentByName_def split: option.splits sum.splits)
  show ?thesis
  proof (cases "find (\<lambda>r. ar_name r = sd_Name s) (t_agents (fst c))")
    case (Some r)
    then have "r \<in> set (t_agents (fst c))" "ar_name r = sd_Name s" by (auto simp: find_Some_iff dest!: nth_mem)
    then have "sd_Name s \<in> agent_names c" unfolding agent_names_def by (metis image_eqI)
    moreover have "c' = c" using Some assms v f by (auto simp: seed_one_def GetAgentByName_def)
    ultimately show ?thesis using v f by simp
  next
    case None
    with assms v f obtain w i where "lm_Spawn pg bus (dw_uuid dw) (dw_now dw) (ToAgentRow s w) ''seed-nodes'' c = (c', Ok i)"
      by (auto simp: seed_one_def GetAgentByName_def split: sum.splits prod.splits)
    then have "InsertAgent pg (dw_uuid dw) (ToAgentRow s w) (fst c) = (fst c', Ok i)"
      by (auto simp: lm_Spawn_def split: sum.splits prod.splits)
    then have "fst c' = (fst c)\<lparr>t_agents := t_agents (fst c) @ [inserted_row pg (dw_uuid dw) (ToAgentRow s w)]\<rparr>"
      by (auto simp: InsertAgent_def Let_def split: sum.splits option.splits if_splits)
    then have "t_agents (fst c') = t_agents (fst c) @ [inserted_row pg (dw_uuid dw) (ToAgentRow s w)]" by simp
    with v f show ?thesis by (auto simp: agent_names_def inserted_row_def ToAgentRow_def)
  qed
qed

lemma seed_one_known:
  assumes "seed_Validate s = Ok ()" "pg_fault pg ''get agent'' = None" "sd_Name s \<in> agent_names c"
  shows "\<exists>line. seed_one pg bus env mk (s, dw) c = (c, Ok (False, line))"
  using find_by_name [OF assms(3)] assms(1,2) by (auto simp: seed_one_def GetAgentByName_def)

lemma SeedAll_names:
  assumes "SeedAll pg bus env mk sds r c = (c', r', None)"
  shows "agent_names c \<subseteq> agent_names c' \<and> (\<forall>s \<in> set (map fst sds). seed_Validate s = Ok () \<and> pg_fault pg ''get agent'' = None \<and> sd_Name s \<in> agent_names c')"
  using assms
proof (induction sds arbitrary: r c)
  case (Cons sd sds)
  obtain s dw where sd: "sd = (s, dw)" by fastforce
  from Cons.prems obtain c1 sp line where one: "seed_one pg bus env mk (s, dw) c = (c1, Ok (sp, line))"
    and rest: "\<exists>r1. SeedAll pg bus env mk sds r1 c1 = (c', r', None)"
    by (auto simp: sd split: prod.splits sum.splits)
  from rest Cons.IH have "agent_names c1 \<subseteq> agent_names c' \<and> (\<forall>s \<in> set (map fst sds). seed_Validate s = Ok () \<and> pg_fault pg ''get agent'' = None \<and> sd_Name s \<in> agent_names c')" by blast
  with seed_one_Ok [OF one] show ?case by (auto simp: sd)
qed simp

lemma SeedAll_known:
  assumes "\<And>s. s \<in> set (map fst sds) \<Longrightarrow> seed_Validate s = Ok () \<and> pg_fault pg ''get agent'' = None \<and> sd_Name s \<in> agent_names c"
  shows "\<exists>ls. SeedAll pg bus env mk sds r c = (c, r\<lparr>sp_Skipped := sp_Skipped r + int (length sds), sp_Lines := sp_Lines r @ ls\<rparr>, None)"
  using assms
proof (induction sds arbitrary: r)
  case (Cons sd sds)
  obtain s dw where sd: "sd = (s, dw)" by fastforce
  from Cons.prems [of s] obtain line where one: "seed_one pg bus env mk (s, dw) c = (c, Ok (False, line))"
    using seed_one_known [of s pg c bus env mk dw] by (auto simp: sd)
  let ?r = "r\<lparr>sp_Skipped := sp_Skipped r + 1, sp_Lines := sp_Lines r @ [line]\<rparr>"
  from Cons.IH [of ?r] Cons.prems obtain ls where
    "SeedAll pg bus env mk sds ?r c = (c, ?r\<lparr>sp_Skipped := sp_Skipped ?r + int (length sds), sp_Lines := sp_Lines ?r @ ls\<rparr>, None)" by auto
  then show ?case using one by (auto simp: sd intro!: exI [of _ "line # ls"])
qed (auto intro: exI [of _ "[]"])

text \<open>
  C38: seeding is idempotent: after a run that ended without an error, a second run over the same nodes, with whatever keys and
  identifiers it draws, writes nothing, publishes nothing, spawns none and skips every node.
\<close>

theorem seeding_twice_skips:
  assumes "SeedAll pg bus env mk sds empty_report c = (c', r, None)" "map fst sds' = map fst sds"
  shows "\<exists>r'. SeedAll pg bus' env' mk' sds' empty_report c' = (c', r', None) \<and> sp_Spawned r' = 0 \<and> sp_Skipped r' = int (length sds)"
proof -
  have "length sds' = length sds" using assms(2) by (metis length_map)
  moreover obtain ls where "SeedAll pg bus' env' mk' sds' empty_report c' =
      (c', empty_report\<lparr>sp_Skipped := sp_Skipped empty_report + int (length sds'), sp_Lines := sp_Lines empty_report @ ls\<rparr>, None)"
    using SeedAll_known [of sds' pg c' bus' env' mk' empty_report] SeedAll_names [OF assms(1)] unfolding assms(2) by blast
  ultimately show ?thesis by (simp add: empty_report_def)
qed

definition sample_seed :: SeedSpec where
  "sample_seed = \<lparr>sd_Name = ''n'', sd_TaskType = ''momentum'', sd_Chain = ''base'', sd_NodeClass = ''funded'', sd_CapitalUSD = Fin 10,
     sd_StrategistModel = [], sd_StrategistPrompt = [], sd_StrategistInterval = 0\<rparr>"

theorem seeding_twice_skips_witness:
  "\<forall>env :: ('k, 'e) wallet_env. \<forall>mk dw. \<exists>r. SeedAll pg_ok None env mk [(sample_seed, dw)] empty_report (sample_db, []) = ((sample_db, []), r, None) \<and>
     (\<exists>r'. SeedAll pg_ok None env mk [(sample_seed, dw)] empty_report (sample_db, []) = ((sample_db, []), r', None) \<and> sp_Spawned r' = 0 \<and> sp_Skipped r' = 1)"
proof (intro allI)
  fix env :: "('k, 'e) wallet_env" and mk dw
  have "seed_Validate sample_seed = Ok ()" by (simp add: seed_Validate_def sample_seed_def flt_def)
  moreover have "sd_Name sample_seed \<in> agent_names (sample_db, [])" by (simp add: agent_names_def sample_db_def sample_row_def sample_seed_def)
  ultimately obtain r where r: "SeedAll pg_ok None env mk [(sample_seed, dw)] empty_report (sample_db, []) = ((sample_db, []), r, None)"
    using SeedAll_known [of "[(sample_seed, dw)]" pg_ok "(sample_db, [])" None env mk empty_report] by (auto simp: pg_ok_def)
  from seeding_twice_skips [OF r refl, of None env mk] r
  show "\<exists>r. SeedAll pg_ok None env mk [(sample_seed, dw)] empty_report (sample_db, []) = ((sample_db, []), r, None) \<and>
     (\<exists>r'. SeedAll pg_ok None env mk [(sample_seed, dw)] empty_report (sample_db, []) = ((sample_db, []), r', None) \<and> sp_Spawned r' = 0 \<and> sp_Skipped r' = 1)"
    by (intro exI [of _ r]) simp
qed

section \<open>What a seeded node can run\<close>

text \<open>Reading \<^verbatim>\<open>{}\<close> leaves a configuration at its zero value, whose chain is empty.\<close>

definition reads_empty_object :: "config_decoders \<Rightarrow> bool" where
  "reads_empty_object cd \<longleftrightarrow>
     fst (cd_crossYield cd) ''{}'' = Ok (snd (cd_crossYield cd)) \<and> yc_PrimaryChain (snd (cd_crossYield cd)) = [] \<and>
     fst (cd_liquidation cd) ''{}'' = Ok (snd (cd_liquidation cd)) \<and> hc_Chain (snd (cd_liquidation cd)) = [] \<and>
     fst (cd_liquidity cd) ''{}'' = Ok (snd (cd_liquidity cd)) \<and> lc_Chain (snd (cd_liquidity cd)) = [] \<and>
     fst (cd_momentum cd) ''{}'' = Ok (snd (cd_momentum cd)) \<and> mc_Chain (snd (cd_momentum cd)) = []"

text \<open>
  A node that was seeded never gets a task: the configuration the seed writes, an empty object, is refused by the factory of
  every task, also when the dependencies are set.
\<close>

theorem seeded_node_never_builds:
  assumes "reads_empty_object cd"
  shows "\<exists>e. Build (ag_TaskType (ToAgentRow s w)) (ag_StrategyConfig (ToAgentRow s w)) (task_factories cd deps) = Inl e"
proof -
  have "\<exists>e. Build n ''{}'' (task_factories cd deps) = Inl e" for n
    using assms unfolding reads_empty_object_def
    by (auto simp: Build_def task_factories_def register_all.simps Register_def crossChainYieldFactory_def liquidationHuntingFactory_def
      liquidityProvisionFactory_def momentumFactory_def NewCrossChainYield_def NewLiquidationHunting_def NewLiquidityProvision_def NewMomentum_def
      yield_Validate_def liq_Validate_def lp_Validate_def mom_Validate_def yield_applyDefaults_def liq_applyDefaults_def lp_applyDefaults_def mom_applyDefaults_def
      Let_def split: option.splits)
  then show ?thesis by (simp add: ToAgentRow_def defaultStrategyConfigJSON_def)
qed

theorem seeded_node_never_builds_witness:
  "\<forall>s w deps y l p m. \<exists>e. Build (ag_TaskType (ToAgentRow s w)) (ag_StrategyConfig (ToAgentRow s w)) (task_factories
     \<lparr>cd_crossYield = (\<lambda>_. Ok (y\<lparr>yc_PrimaryChain := []\<rparr>), y\<lparr>yc_PrimaryChain := []\<rparr>), cd_liquidation = (\<lambda>_. Ok (l\<lparr>hc_Chain := []\<rparr>), l\<lparr>hc_Chain := []\<rparr>),
      cd_liquidity = (\<lambda>_. Ok (p\<lparr>lc_Chain := []\<rparr>), p\<lparr>lc_Chain := []\<rparr>), cd_momentum = (\<lambda>_. Ok (m\<lparr>mc_Chain := []\<rparr>), m\<lparr>mc_Chain := []\<rparr>)\<rparr> deps) = Inl e"
  by (intro allI seeded_node_never_builds) (simp add: reads_empty_object_def)

section \<open>Waiting for an airdrop\<close>

text \<open>
  The wait for the airdrop ends: polls are at least two seconds apart, so the thirty-second one at the latest is past the
  deadline of sixty seconds, whatever the node answers.
\<close>

theorem airdrop_wait_ends:
  assumes "\<And>i. i < length ps \<Longrightarrow> start + int i * (2 * Second) \<le> pl_now (ps ! i)" "32 \<le> length ps"
  shows "\<exists>r. waitForSignature sig (start + 60 * Second) ps = Some r"
proof -
  have late: "\<exists>r. waitForSignature sig dl qs = Some r" if "\<exists>q \<in> set qs. dl < pl_now q" for dl qs
    using that by (induction qs) (auto simp: Let_def split: option.splits)
  have "start + int 31 * (2 * Second) \<le> pl_now (ps ! 31)" using assms(2) by (intro assms(1)) simp
  then have "start + 60 * Second < pl_now (ps ! 31)" by (simp add: go_defs)
  moreover have "ps ! 31 \<in> set ps" using assms(2) by simp
  ultimately show ?thesis using late by blast
qed

theorem airdrop_wait_ends_witness:
  "\<exists>r. waitForSignature ''sig'' (0 + 60 * Second) (map (\<lambda>i. \<lparr>pl_now = int i * (2 * Second), pl_status = None, pl_cancelled = None\<rparr>) [0..<32]) = Some r"
  by (rule airdrop_wait_ends) simp_all

section \<open>Yields of two chains\<close>

lemma base_yields_unknown:
  assumes "p \<in> set ps" "ToLower p \<notin> {''aave'', ''morpho''}"
  shows "\<exists>e. base_yields order env c ps out = Inl e"
  using assms
proof (induction ps arbitrary: out)
  case (Cons q ps)
  have "\<exists>e. bindr x (\<lambda>rates. base_yields order env c ps (out @ rates)) = Inl e" if "p \<in> set ps" for x
    using Cons.IH [OF that Cons.prems(2)] by (cases x) auto
  with Cons.prems show ?case by auto
qed simp

lemma fetch_loop_fails:
  assumes "name \<in> set names" "map_of clients name = Some get" "get allowed = Inl e"
  shows "\<exists>e. fetch_loop allowed clients names = Inl e"
  using assms(1)
proof (induction names)
  case (Cons n names)
  have tail: "\<exists>e. bindr x (\<lambda>rates. bindr (fetch_loop allowed clients names) (f rates)) = Inl e" if "name \<in> set names" for x :: "YieldRate list result" and f :: "YieldRate list \<Rightarrow> YieldRate list \<Rightarrow> YieldRate list result"
    using Cons.IH [OF that] by (cases x) auto
  show ?case
  proof (cases "n = name")
    case True
    then show ?thesis by (simp add: assms wrapr_def)
  next
    case False
    with Cons.prems have "name \<in> set names" by simp
    with tail Cons.IH show ?thesis by (cases "map_of clients n") auto
  qed
qed simp

text \<open>
  C39: an allocator that may use a protocol of Solana never moves once a Base client is among its clients: Base refuses the names it
  does not know where Solana skips them, so every tick that asks for the rates fails, and none trades or changes the allocation.
\<close>

theorem two_chain_yield_never_moves:
  assumes "map_of clients ''base'' = Some (base_GetYieldRates order env bc)"
    "p \<in> set (yc_AllowedProtocols (cy_cfg c))" "ToLower p \<notin> {''aave'', ''morpho''}"
    "yield_RunTick oob ord tord now clients c = (c', r)"
  shows "(r = Ok [] \<or> (\<exists>e. r = Inl e)) \<and> cy_allocation c' = cy_allocation c \<and> cy_freeCapital c' = cy_freeCapital c"
proof -
  have "\<exists>e. fetchAllowedRates clients (c\<lparr>cy_lastCheck := now\<rparr>) = Inl e"
  proof -
    obtain e where "base_GetYieldRates order env bc (yc_AllowedProtocols (cy_cfg c)) = Inl e"
      using base_yields_unknown [OF assms(2,3), of order env bc "[]"] by (auto simp: base_GetYieldRates_def)
    moreover have "''base'' \<in> set (stable_sort str_less (map fst clients))" using map_of_SomeD [OF assms(1)] by force
    ultimately show ?thesis using fetch_loop_fails [OF _ assms(1)] by (simp add: fetchAllowedRates_def)
  qed
  then show ?thesis using assms(4) by (auto simp: yield_RunTick_def Let_def split: if_splits)
qed

theorem two_chain_yield_never_moves_witness:
  "\<forall>c :: CrossChainYield. case yield_RunTick (\<lambda>_. 0) (\<lambda>_ xs. xs) (\<lambda>xs. xs) 7 [(''base'', base_GetYieldRates (\<lambda>xs. xs) sample_base_env sample_base_client)]
     (c\<lparr>cy_cfg := (cy_cfg c)\<lparr>yc_AllowedProtocols := [''aave'', ''kamino'']\<rparr>\<rparr>) of (c', r) \<Rightarrow> cy_allocation c' = cy_allocation c"
proof (intro allI)
  fix c :: CrossChainYield
  let ?c = "c\<lparr>cy_cfg := (cy_cfg c)\<lparr>yc_AllowedProtocols := [''aave'', ''kamino'']\<rparr>\<rparr>"
  obtain c' r where run: "yield_RunTick (\<lambda>_. 0) (\<lambda>_ xs. xs) (\<lambda>xs. xs) 7 [(''base'', base_GetYieldRates (\<lambda>xs. xs) sample_base_env sample_base_client)] ?c = (c', r)"
    by fastforce
  have k: "ToLower ''kamino'' \<notin> {''aave'', ''morpho''}" by code_simp
  have "map_of [(''base'', base_GetYieldRates (\<lambda>xs. xs) sample_base_env sample_base_client)] ''base'' = Some (base_GetYieldRates (\<lambda>xs. xs) sample_base_env sample_base_client)" by simp
  from two_chain_yield_never_moves [OF this _ k run] run
  show "case yield_RunTick (\<lambda>_. 0) (\<lambda>_ xs. xs) (\<lambda>xs. xs) 7 [(''base'', base_GetYieldRates (\<lambda>xs. xs) sample_base_env sample_base_client)] ?c of
      (c', r) \<Rightarrow> cy_allocation c' = cy_allocation c" by simp
qed

end
