(* ===== verification/Telegram.thy ===== *)
theory Telegram
  imports Notify Bus Http
begin

text \<open>
  \<^verbatim>\<open>internal/notifications/formatters.go\<close> and \<^verbatim>\<open>telegram.go\<close>: the texts of the notifications and the notifier that sends them
  through the throttle of \<open>Notify\<close>.  The clock readings of a step, the connection to the service and what the digest provider
  answers are arguments; so is the decoding of a digest's payload and of the service's envelope, which have types of their own.
\<close>

section \<open>Payloads\<close>

text \<open>The value of a JSON number, rounded once; a number too large for a float is an error of the whole payload.\<close>

definition number_digits :: "string \<Rightarrow> nat" where
  "number_digits ds = fold (\<lambda>c n. n * 10 + (of_char c - 48)) ds 0"

definition exponent_value :: "string \<Rightarrow> int" where
  "exponent_value s =
     (case s of
        e # c # cs \<Rightarrow>
          if e \<notin> {CHR ''e'', CHR ''E''} then 0
          else if c = CHR ''-'' then - int (number_digits cs)
          else if c = CHR ''+'' then int (number_digits cs) else int (number_digits (c # cs))
      | _ \<Rightarrow> 0)"

definition json_float :: "string \<Rightarrow> f64 option" where
  "json_float s =
     (let neg = (take 1 s = ''-''); t = (if neg then drop 1 s else s);
          whole = takeWhile is_digit t; r = dropWhile is_digit t;
          frac = (if take 1 r = ''.'' then takeWhile is_digit (drop 1 r) else []);
          ex = exponent_value (if take 1 r = ''.'' then dropWhile is_digit (drop 1 r) else r);
          v = rnd (of_nat (number_digits (whole @ frac)) * 10 powi (ex - int (length frac)))
      in if is_fin v then Some (if neg then fneg v else v) else None)"

primrec numbers_fit :: "json \<Rightarrow> bool" where
  "numbers_fit JsNull = True"
| "numbers_fit (JsBool b) = True"
| "numbers_fit (JsNum t) = (json_float t \<noteq> None)"
| "numbers_fit (JsStr s) = True"
| "numbers_fit (JsArr vs) = list_all (\<lambda>b. b) (map numbers_fit vs)"
| "numbers_fit (JsObj ms) = list_all snd (map (map_prod (\<lambda>k. k) numbers_fit) ms)"

type_synonym payload = "(string \<times> json) list option"

definition parsePayload :: "string \<Rightarrow> payload" where
  "parsePayload raw =
     (if raw = [] \<or> \<not> json_valid raw then None
      else case decode_json raw of
        Some (JsObj ms) \<Rightarrow> if numbers_fit (JsObj ms) then Some ms else None
      | _ \<Rightarrow> None)"

text \<open>Of a repeated key a Go map keeps the last value.\<close>

definition payload_get :: "payload \<Rightarrow> string \<Rightarrow> json option" where
  "payload_get p k = (case p of None \<Rightarrow> None | Some ms \<Rightarrow> map_of (rev ms) k)"

definition strField :: "payload \<Rightarrow> string \<Rightarrow> string \<Rightarrow> string" where
  "strField p key fallback = (case payload_get p key of Some (JsStr v) \<Rightarrow> if v = [] then fallback else v | _ \<Rightarrow> fallback)"

definition number_at :: "payload \<Rightarrow> string \<Rightarrow> f64 option" where
  "number_at p key = (case payload_get p key of Some (JsNum t) \<Rightarrow> json_float t | _ \<Rightarrow> None)"

definition floatField :: "payload \<Rightarrow> string \<Rightarrow> f64 \<Rightarrow> f64" where
  "floatField p key fallback = (case number_at p key of Some v \<Rightarrow> v | None \<Rightarrow> fallback)"

section \<open>Texts\<close>

definition EventCircuitBreaker :: string where "EventCircuitBreaker = ''circuit_breaker''"
definition EventAgentKilled :: string where "EventAgentKilled = ''agent_killed''"
definition EventAgentSpawned :: string where "EventAgentSpawned = ''agent_spawned''"
definition EventEpochCompleted :: string where "EventEpochCompleted = ''epoch_completed''"
definition EventBudgetWarning :: string where "EventBudgetWarning = ''budget_warning''"
definition EventTreasuryLow :: string where "EventTreasuryLow = ''treasury_low''"
definition EventDailyDigest :: string where "EventDailyDigest = ''daily_digest''"

record AgentScore =
  as_AgentID :: string
  as_Name :: string
  as_PnLUSD :: f64

record DigestSummary =
  dg_Date :: string
  dg_TotalPnLUSD :: f64
  dg_BestAgent :: AgentScore
  dg_WorstAgent :: AgentScore
  dg_PromotionsPending :: int
  dg_AgentsActive :: int
  dg_AgentsKilled :: int
  dg_NewAgents :: int

definition dash :: string where "dash = utf8 0x2014"
definition bullet :: string where "bullet = utf8 0x2022"
definition tick_mark :: string where "tick_mark = utf8 0x2705"

definition notify_truncate :: "string \<Rightarrow> nat \<Rightarrow> string" where
  "notify_truncate s n = (if length s \<le> n then s else take n s @ ellipsis)"

definition FormatDigest :: "DigestSummary \<Rightarrow> string" where
  "FormatDigest d =
     ''*Daily digest* '' @ dash @ '' '' @ dg_Date d @ nl @
     ''Total P&L: *$'' @ fmt_f 2 (dg_TotalPnLUSD d) @ ''*'' @ nl @
     (if as_AgentID (dg_BestAgent d) \<noteq> []
      then ''Best: `'' @ as_Name (dg_BestAgent d) @ ''` ('' @ as_AgentID (dg_BestAgent d) @ '')  +$'' @ fmt_f 2 (as_PnLUSD (dg_BestAgent d)) @ nl else []) @
     (if as_AgentID (dg_WorstAgent d) \<noteq> []
      then ''Worst: `'' @ as_Name (dg_WorstAgent d) @ ''` ('' @ as_AgentID (dg_WorstAgent d) @ '')  $'' @ fmt_f 2 (as_PnLUSD (dg_WorstAgent d)) @ nl else []) @
     ''Active agents: '' @ itoa (dg_AgentsActive d) @ ''  '' @ bullet @ ''  Spawned: '' @ itoa (dg_NewAgents d) @ ''  '' @ bullet @ ''  Killed: '' @
       itoa (dg_AgentsKilled d) @ nl @
     (if 0 < dg_PromotionsPending d then ''Promotions pending: '' @ itoa (dg_PromotionsPending d) @ nl else [])"

definition formatCircuitBreaker :: "payload \<Rightarrow> string" where
  "formatCircuitBreaker p =
     (let stamp = strField p ''at'' []; state = strField p ''state'' [] in
      utf8 0x1F6A8 @ '' *Circuit breaker tripped*'' @ nl @ ''Reason: `'' @ strField p ''reason'' ''manual_override'' @ ''`'' @
      (if stamp \<noteq> [] then nl @ ''At: '' @ stamp else []) @ (if state \<noteq> [] then nl @ ''State: '' @ state else []))"

definition formatAgentLifecycle :: "string \<Rightarrow> payload \<Rightarrow> string" where
  "formatAgentLifecycle action p =
     (let name = strField p ''name'' []; reason = strField p ''reason'' []; cls = strField p ''node_class'' [] in
      (if action = ''spawned'' then utf8 0x1F331 else utf8 0x1FAA6) @ '' *Agent '' @ action @ ''*: `'' @ strField p ''agent_id'' ''?'' @ ''`'' @
      (if name \<noteq> [] then '' ('' @ name @ '')'' else []) @ (if cls \<noteq> [] then '' '' @ dash @ '' '' @ cls else []) @
      (if reason \<noteq> [] then nl @ ''Reason: '' @ reason else []))"

definition formatEpochCompleted :: "(f64 \<Rightarrow> int) \<Rightarrow> payload \<Rightarrow> string \<Rightarrow> string" where
  "formatEpochCompleted oob p raw =
     (if p = None then tick_mark @ '' *Epoch completed*: `'' @ TrimSpace raw @ ''`''
      else let i = strField p ''epoch_id'' [] in
        tick_mark @ '' *Epoch completed*'' @ (if i \<noteq> [] then '': `'' @ i @ ''`'' else []) @
        (case number_at p ''realized_pnl_usd'' of Some v \<Rightarrow> nl @ ''Realized P&L: $'' @ fmt_f 2 v | None \<Rightarrow> []) @
        (case number_at p ''promotions'' of Some v \<Rightarrow> if flt (Fin 0) v then nl @ ''Promotions: '' @ itoa (f64_to_int oob v) else [] | None \<Rightarrow> []))"

definition formatBudgetWarning :: "payload \<Rightarrow> string" where
  "formatBudgetWarning p =
     (let i = strField p ''agent_id'' []; limit = floatField p ''limit_usd'' (Fin 0) in
      utf8 0x26A0 @ utf8 0xFE0F @ '' *Budget warning*'' @ (if i \<noteq> [] then '' '' @ dash @ '' agent `'' @ i @ ''`'' else []) @
      nl @ ''Scope: '' @ strField p ''scope'' ''monthly'' @ ''  '' @ bullet @ ''  Used: '' @ fmt_f 1 (fmul (floatField p ''used_pct'' (Fin 0)) (Fin 100)) @ ''%'' @
      (if flt (Fin 0) limit then ''  '' @ bullet @ ''  Limit: $'' @ fmt_f 2 limit else []))"

definition formatTreasuryLow :: "payload \<Rightarrow> string" where
  "formatTreasuryLow p =
     (let threshold = floatField p ''threshold_usd'' (Fin 0); pct = floatField p ''reserve_pct'' (Fin 0) in
      utf8 0x1F4A7 @ '' *Treasury below reserve*'' @ nl @ ''Reserve: $'' @ fmt_f 2 (floatField p ''reserve_usd'' (Fin 0)) @
      (if flt (Fin 0) threshold then ''  '' @ bullet @ ''  Threshold: $'' @ fmt_f 2 threshold else []) @
      (if flt (Fin 0) pct then ''  '' @ bullet @ ''  At: '' @ fmt_f 0 (fmul pct (Fin 100)) @ ''%'' else []))"

definition formatDailyDigestPayload :: "(string \<Rightarrow> DigestSummary option) \<Rightarrow> string \<Rightarrow> string" where
  "formatDailyDigestPayload decode raw =
     (case decode raw of
        Some d \<Rightarrow> if dg_Date d = [] then utf8 0x1F5D3 @ '' *Daily digest*'' @ nl @ ''```'' @ nl @ notify_truncate raw 500 @ nl @ ''```'' else FormatDigest d
      | None \<Rightarrow> utf8 0x1F5D3 @ '' *Daily digest*'' @ nl @ ''```'' @ nl @ notify_truncate raw 500 @ nl @ ''```'')"

definition Format :: "(f64 \<Rightarrow> int) \<Rightarrow> (string \<Rightarrow> DigestSummary option) \<Rightarrow> string \<Rightarrow> string \<Rightarrow> string" where
  "Format oob decode etype raw =
     (let p = parsePayload raw in
      if etype = EventCircuitBreaker then formatCircuitBreaker p
      else if etype = EventAgentKilled then formatAgentLifecycle ''killed'' p
      else if etype = EventAgentSpawned then formatAgentLifecycle ''spawned'' p
      else if etype = EventEpochCompleted then formatEpochCompleted oob p raw
      else if etype = EventBudgetWarning then formatBudgetWarning p
      else if etype = EventTreasuryLow then formatTreasuryLow p
      else if etype = EventDailyDigest then formatDailyDigestPayload decode raw
      else ''*Event* `'' @ etype @ ''`'' @ nl @ ''```'' @ nl @ notify_truncate raw 500 @ nl @ ''```'')"

definition EventTypesAlphabetical :: "string list" where
  "EventTypesAlphabetical = stable_sort str_less
     [EventAgentKilled, EventAgentSpawned, EventBudgetWarning, EventCircuitBreaker, EventDailyDigest, EventEpochCompleted, EventTreasuryLow]"

section \<open>The notifier\<close>

record TelegramConfig =
  tc_BotToken :: string
  tc_ChatID :: string
  tc_BaseURL :: string
  tc_Subscribe :: bool
  tc_Channels :: "string list"
  tc_HourlyCap :: int
  tc_Cooldown :: duration
  tc_DigestHour :: int
  tc_DigestProvider :: "(time \<Rightarrow> DigestSummary result) option"
  tc_LoadEnv :: bool

record TelegramNotifier =
  tn_cfg :: TelegramConfig
  tn_throttle :: Throttle
  tn_channels :: "string list"
  tn_lastDigestDate :: string

definition DefaultChannels :: "string list" where
  "DefaultChannels = [''events:circuit_breaker'', ''events:lifecycle'', ''events:epoch_completed'', ''events:budget'']"

definition lifecycle_type :: "payload \<Rightarrow> string" where
  "lifecycle_type p =
     (case payload_get p ''action'' of
        Some (JsStr v) \<Rightarrow> if ToLower v \<in> {''killed'', ''kill''} then EventAgentKilled else EventAgentSpawned
      | _ \<Rightarrow> EventAgentSpawned)"

definition channelToEventType :: "string \<Rightarrow> string \<Rightarrow> string" where
  "channelToEventType channel raw =
     (if channel = ''events:circuit_breaker'' then EventCircuitBreaker
      else if channel = ''events:epoch_completed'' then EventEpochCompleted
      else if channel = ''events:budget'' then EventBudgetWarning
      else if channel = ''events:lifecycle'' then lifecycle_type (parsePayload raw)
      else if channel = ''events:treasury'' then EventTreasuryLow
      else channel)"

definition telegram_defaults :: "(string \<Rightarrow> string) \<Rightarrow> TelegramConfig \<Rightarrow> TelegramConfig" where
  "telegram_defaults Getenv cfg =
     (if tc_LoadEnv cfg
      then cfg\<lparr>tc_BotToken := (if tc_BotToken cfg = [] then Getenv ''TELEGRAM_BOT_TOKEN'' else tc_BotToken cfg),
               tc_ChatID := (if tc_ChatID cfg = [] then Getenv ''TELEGRAM_CHAT_ID'' else tc_ChatID cfg)\<rparr>
      else cfg)"

definition NewTelegramNotifier :: "(string \<Rightarrow> string) \<Rightarrow> time \<Rightarrow> TelegramConfig \<Rightarrow> TelegramNotifier result" where
  "NewTelegramNotifier Getenv now cfg0 =
     (let cfg = telegram_defaults Getenv cfg0 in
      if tc_BotToken cfg = [] then Fail ''telegram: bot token required''
      else if tc_ChatID cfg = [] then Fail ''telegram: chat id required''
      else if \<not> tc_Subscribe cfg then Fail ''telegram: redis client required''
      else Ok
        \<lparr>tn_cfg = cfg\<lparr>tc_BaseURL := (if tc_BaseURL cfg = [] then ''https://api.telegram.org'' else tc_BaseURL cfg),
                     tc_DigestHour := (if tc_DigestHour cfg < 0 \<or> 23 < tc_DigestHour cfg then 9 else tc_DigestHour cfg)\<rparr>,
         tn_throttle = NewThrottle (tc_HourlyCap cfg) (tc_Cooldown cfg) now,
         tn_channels = (if tc_Channels cfg = [] then DefaultChannels else tc_Channels cfg), tn_lastDigestDate = []\<rparr>)"

text \<open>The service: building a request, sending it, and the envelope of the answer, if its body starts with one.\<close>

record telegram_request =
  tq_URL :: string
  tq_ContentType :: string
  tq_Form :: string

record telegram_service =
  ts_build :: "telegram_request \<Rightarrow> error option"
  ts_do :: "telegram_request \<Rightarrow> (int \<times> string) result"
  ts_envelope :: "string \<Rightarrow> (bool \<times> string) option"

definition message_request :: "TelegramConfig \<Rightarrow> string \<Rightarrow> telegram_request" where
  "message_request cfg body =
     \<lparr>tq_URL = rev (dropWhile (\<lambda>c. c = CHR ''/'') (rev (tc_BaseURL cfg))) @ ''/bot'' @ tc_BotToken cfg @ ''/sendMessage'',
      tq_ContentType = ''application/x-www-form-urlencoded'',
      tq_Form = EncodeValues [(''chat_id'', tc_ChatID cfg), (''text'', body), (''parse_mode'', ''Markdown'')]\<rparr>"

definition SendMessage :: "telegram_service \<Rightarrow> TelegramConfig \<Rightarrow> string \<Rightarrow> unit result" where
  "SendMessage s cfg body =
     (let rq = message_request cfg body in
      case ts_build s rq of
        Some e \<Rightarrow> Inl e
      | None \<Rightarrow> (case ts_do s rq of
          Inl e \<Rightarrow> Inl e
        | Inr (status, raw) \<Rightarrow>
            if 400 \<le> status then Fail (''telegram: sendMessage status '' @ itoa status @ '': '' @ notify_truncate raw 200)
            else (case ts_envelope s raw of
              Some (ok, description) \<Rightarrow> if \<not> ok \<and> description \<noteq> [] then Fail (''telegram: api error: '' @ description) else Ok ()
            | None \<Rightarrow> Ok ())))"

text \<open>What a step sent: its type, the text, and how sending it ended.\<close>

type_synonym attempt_log = "(string \<times> string \<times> unit result) list"

definition handleEvent ::
  "(f64 \<Rightarrow> int) \<Rightarrow> (string \<Rightarrow> DigestSummary option) \<Rightarrow> telegram_service \<Rightarrow> time \<Rightarrow> Message \<Rightarrow> TelegramNotifier \<Rightarrow> TelegramNotifier \<times> attempt_log" where
  "handleEvent oob decode s now m n =
     (let etype = channelToEventType (msg_Channel m) (msg_Payload m) in
      case Allow etype now (tn_throttle n) of (t, allowed, _) \<Rightarrow>
        let n' = n\<lparr>tn_throttle := t\<rparr> in
        if \<not> allowed then (n', [])
        else let body = Format oob decode etype (msg_Payload m) in (n', [(etype, body, SendMessage s (tn_cfg n) body)]))"

definition hour_of_day :: "time \<Rightarrow> int" where "hour_of_day t = t mod Day div Hour"

text \<open>The clock is read twice: once by the digest and once by the throttle.\<close>

definition maybeFireDigest :: "telegram_service \<Rightarrow> time \<Rightarrow> time \<Rightarrow> TelegramNotifier \<Rightarrow> TelegramNotifier \<times> attempt_log" where
  "maybeFireDigest s now now' n =
     (case tc_DigestProvider (tn_cfg n) of
        None \<Rightarrow> (n, [])
      | Some provider \<Rightarrow>
          let today = FormatDate now in
          if today = tn_lastDigestDate n then (n, [])
          else if hour_of_day now < tc_DigestHour (tn_cfg n) then (n, [])
          else (case provider now of
            Inl _ \<Rightarrow> (n, [])
          | Inr d \<Rightarrow> (case Allow EventDailyDigest now' (tn_throttle n) of (t, allowed, _) \<Rightarrow>
              let n1 = n\<lparr>tn_throttle := t\<rparr> in
              if \<not> allowed then (n1, [])
              else (case SendMessage s (tn_cfg n) (FormatDigest d) of
                Inl e \<Rightarrow> (n1, [(EventDailyDigest, FormatDigest d, Inl e)])
              | Inr _ \<Rightarrow> (n1\<lparr>tn_lastDigestDate := today\<rparr>, [(EventDailyDigest, FormatDigest d, Ok ())])))))"

text \<open>The loop of \<^verbatim>\<open>Run\<close> after it subscribed: messages and ticks in the order they come, until the context or the inbox ends it.\<close>

datatype telegram_input = TgMessage time telegram_service Message | TgTick time time telegram_service

fun telegram_step :: "(f64 \<Rightarrow> int) \<Rightarrow> (string \<Rightarrow> DigestSummary option) \<Rightarrow> telegram_input \<Rightarrow> TelegramNotifier \<Rightarrow> TelegramNotifier \<times> attempt_log" where
  "telegram_step oob decode (TgMessage now s m) n = handleEvent oob decode s now m n"
| "telegram_step oob decode (TgTick now now' s) n = maybeFireDigest s now now' n"

fun telegram_Run :: "(f64 \<Rightarrow> int) \<Rightarrow> (string \<Rightarrow> DigestSummary option) \<Rightarrow> telegram_input list \<Rightarrow> TelegramNotifier \<Rightarrow> TelegramNotifier \<times> (telegram_input \<times> attempt_log) list" where
  "telegram_Run oob decode [] n = (n, [])"
| "telegram_Run oob decode (x # xs) n =
     (case telegram_step oob decode x n of (n1, l) \<Rightarrow> case telegram_Run oob decode xs n1 of (n2, ls) \<Rightarrow> (n2, (x, l) # ls))"

text \<open>An attempt whose sending failed still starts the cooldown of its type: the next event of that type in it is dropped.\<close>

lemma failed_send_costs_cooldown:
  assumes "snd (handleEvent oob decode s now m n) = [(k, body, Inl e)]"
    and "channelToEventType (msg_Channel m') (msg_Payload m') = k" "time_sub now' now < th_cooldown (tn_throttle n)"
  shows "snd (handleEvent oob decode s' now' m' (fst (handleEvent oob decode s now m n))) = []"
  using assms by (auto simp: handleEvent_def Allow_def Let_def split: if_splits option.splits)

section \<open>One digest a day\<close>

definition sent_ok :: "attempt_log \<Rightarrow> bool" where
  "sent_ok l = list_ex (\<lambda>(k, body, r). r = Inr ()) l"

fun input_times :: "telegram_input \<Rightarrow> time list" where
  "input_times (TgMessage now s m) = [now]"
| "input_times (TgTick now now' s) = [now, now']"

fun digest_day :: "telegram_input \<times> attempt_log \<Rightarrow> int list" where
  "digest_day (TgMessage now s m, l) = []"
| "digest_day (TgTick now now' s, l) = (if sent_ok l then [now div Day] else [])"

definition digest_days :: "(telegram_input \<times> attempt_log) list \<Rightarrow> int list" where
  "digest_days ls = concat (map digest_day ls)"

lemma digest_days_simps [simp]: "digest_days [] = []" "digest_days (xl # ls) = digest_day xl @ digest_days ls"
  by (simp_all add: digest_days_def)

lemma FormatDate_same_day: "t div Day = t' div Day \<Longrightarrow> FormatDate t = FormatDate t'"
  by (simp add: FormatDate_def)

text \<open>A sent digest carries the text of the provider's summary, not before its hour.\<close>

fun digest_due :: "TelegramConfig \<Rightarrow> telegram_input \<times> attempt_log \<Rightarrow> bool" where
  "digest_due cfg (TgMessage now s m, l) = True"
| "digest_due cfg (TgTick now now' s, l) =
     (l = [] \<or> tc_DigestHour cfg \<le> hour_of_day now \<and>
        (case tc_DigestProvider cfg of
           None \<Rightarrow> False
         | Some provider \<Rightarrow> (case provider now of
             Inl _ \<Rightarrow> False
           | Inr d \<Rightarrow> l = [(EventDailyDigest, FormatDigest d, SendMessage s cfg (FormatDigest d))])))"

lemma handleEvent_keeps:
  "tn_lastDigestDate (fst (handleEvent oob decode s now m n)) = tn_lastDigestDate n"
  "tn_cfg (fst (handleEvent oob decode s now m n)) = tn_cfg n"
  by (simp_all add: handleEvent_def Let_def split: prod.splits)

lemma maybeFireDigest_cfg: "tn_cfg (fst (maybeFireDigest s now now' n)) = tn_cfg n"
  by (simp add: maybeFireDigest_def Let_def split: option.splits sum.splits prod.splits)

lemma maybeFireDigest_due: "digest_due (tn_cfg n) (TgTick now now' s, snd (maybeFireDigest s now now' n))"
  by (simp add: maybeFireDigest_def Let_def split: option.splits sum.splits prod.splits)

lemma maybeFireDigest_unsent:
  "\<not> sent_ok (snd (maybeFireDigest s now now' n)) \<Longrightarrow> tn_lastDigestDate (fst (maybeFireDigest s now now' n)) = tn_lastDigestDate n"
  by (simp add: maybeFireDigest_def sent_ok_def Let_def split: option.splits sum.splits prod.splits if_splits)

lemma maybeFireDigest_sent:
  "sent_ok (snd (maybeFireDigest s now now' n)) \<Longrightarrow>
     tn_lastDigestDate (fst (maybeFireDigest s now now' n)) = FormatDate now \<and> FormatDate now \<noteq> tn_lastDigestDate n"
  by (auto simp add: maybeFireDigest_def sent_ok_def Let_def split: option.splits sum.splits prod.splits if_splits)

definition last_digest :: "time option \<Rightarrow> telegram_input list \<Rightarrow> TelegramNotifier \<Rightarrow> bool" where
  "last_digest lo xs n = (case lo of None \<Rightarrow> True | Some t \<Rightarrow> tn_lastDigestDate n = FormatDate t \<and> (\<forall>u \<in> set (concat (map input_times xs)). t \<le> u))"

lemma telegram_Run_Cons:
  "telegram_Run oob decode (x # xs) n =
     (fst (telegram_Run oob decode xs (fst (telegram_step oob decode x n))),
      (x, snd (telegram_step oob decode x n)) # snd (telegram_Run oob decode xs (fst (telegram_step oob decode x n))))"
  by (simp split: prod.splits)

lemma telegram_Run_digests:
  assumes "sorted (concat (map input_times xs))" "last_digest lo xs n"
  shows "sorted_wrt (<) ((case lo of None \<Rightarrow> [] | Some t \<Rightarrow> [t div Day]) @ digest_days (snd (telegram_Run oob decode xs n)))"
  using assms
proof (induction xs arbitrary: lo n)
  case Nil
  then show ?case by (simp split: option.splits)
next
  case (Cons x xs)
  let ?n = "fst (telegram_step oob decode x n)"
  have srt: "sorted (concat (map input_times xs))" using Cons.prems(1) by (simp add: sorted_append)
  show ?case
  proof (cases "\<exists>now now' s. x = TgTick now now' s \<and> sent_ok (snd (maybeFireDigest s now now' n))")
    case True
    then obtain now now' s where x: "x = TgTick now now' s" and sent: "sent_ok (snd (maybeFireDigest s now now' n))" by blast
    note f = maybeFireDigest_sent [OF sent]
    have "last_digest (Some now) xs ?n" using f Cons.prems(1) by (auto simp: x last_digest_def)
    from Cons.IH [OF srt this]
    have IH: "sorted_wrt (<) (now div Day # digest_days (snd (telegram_Run oob decode xs ?n)))" by simp
    have "case lo of None \<Rightarrow> True | Some t \<Rightarrow> t div Day < now div Day"
    proof (cases lo)
      case (Some t)
      with Cons.prems(2) x have t: "t \<le> now" "tn_lastDigestDate n = FormatDate t" by (simp_all add: last_digest_def)
      have "t div Day \<noteq> now div Day" using f t(2) FormatDate_same_day by metis
      moreover have "t div Day \<le> now div Day" using t(1) by (simp add: zdiv_mono1 go_defs)
      ultimately show ?thesis by (simp add: Some)
    qed simp
    then show ?thesis using IH by (fastforce simp: x sent telegram_Run_Cons simp del: telegram_Run.simps split: option.splits)
  next
    case False
    then have same: "tn_lastDigestDate ?n = tn_lastDigestDate n" "digest_day (x, snd (telegram_step oob decode x n)) = []"
      by (cases x; simp add: handleEvent_keeps maybeFireDigest_unsent)+
    have "last_digest lo xs ?n" using Cons.prems(2) same(1) by (auto simp: last_digest_def split: option.splits)
    from Cons.IH [OF srt this] show ?thesis
      by (simp add: telegram_Run_Cons same(2) del: telegram_Run.simps)
  qed
qed

lemma telegram_step_cfg: "tn_cfg (fst (telegram_step oob decode x n)) = tn_cfg n"
  by (cases x) (simp_all add: handleEvent_keeps maybeFireDigest_cfg)

lemma telegram_step_due: "digest_due (tn_cfg n) (x, snd (telegram_step oob decode x n))"
  by (cases x) (simp_all add: maybeFireDigest_due del: digest_due.simps(2))

lemma telegram_Run_due: "xl \<in> set (snd (telegram_Run oob decode xs n)) \<Longrightarrow> digest_due (tn_cfg n) xl"
proof (induction xs arbitrary: n)
  case (Cons x xs)
  then consider "xl = (x, snd (telegram_step oob decode x n))"
    | "xl \<in> set (snd (telegram_Run oob decode xs (fst (telegram_step oob decode x n))))"
    by (auto simp: telegram_Run_Cons simp del: telegram_Run.simps)
  then show ?case
  proof cases
    case 1 then show ?thesis by (simp add: telegram_step_due)
  next
    case 2 from Cons.IH [OF this] show ?thesis by (simp add: telegram_step_cfg)
  qed
qed simp

definition demo_digest :: DigestSummary where
  "demo_digest = \<lparr>dg_Date = ''1970-01-01'', dg_TotalPnLUSD = Fin 0, dg_BestAgent = \<lparr>as_AgentID = [], as_Name = [], as_PnLUSD = Fin 0\<rparr>,
     dg_WorstAgent = \<lparr>as_AgentID = [], as_Name = [], as_PnLUSD = Fin 0\<rparr>, dg_PromotionsPending = 0, dg_AgentsActive = 0, dg_AgentsKilled = 0, dg_NewAgents = 0\<rparr>"

definition demo_telegram :: TelegramConfig where
  "demo_telegram = \<lparr>tc_BotToken = ''t'', tc_ChatID = ''c'', tc_BaseURL = ''u'', tc_Subscribe = True, tc_Channels = [''ch''], tc_HourlyCap = 2,
     tc_Cooldown = 0, tc_DigestHour = 9, tc_DigestProvider = Some (\<lambda>_. Inr demo_digest), tc_LoadEnv = False\<rparr>"

definition demo_service :: telegram_service where
  "demo_service = \<lparr>ts_build = (\<lambda>_. None), ts_do = (\<lambda>_. Inr (200, [])), ts_envelope = (\<lambda>_. None)\<rparr>"

definition demo_ticks :: "telegram_input list" where
  "demo_ticks = [TgTick (9 * Hour - Minute) (9 * Hour - Minute) demo_service, TgTick (9 * Hour) (9 * Hour) demo_service,
     TgTick (9 * Hour + Minute) (9 * Hour + Minute) demo_service]"

definition demo_notifier :: TelegramNotifier where
  "demo_notifier = \<lparr>tn_cfg = demo_telegram, tn_throttle = NewThrottle 2 0 (9 * Hour), tn_channels = [''ch''], tn_lastDigestDate = []\<rparr>"

lemma demo_digest_sent:
  "digest_days (snd (telegram_Run oob decode demo_ticks
     demo_notifier)) = [0]"
proof -
  let ?T = "NewThrottle 2 0 (9 * Hour)"
  have d: "FormatDate (9 * Hour) \<noteq> []" by (simp add: FormatDate_def Let_def)
  have e: "FormatDate (9 * Hour + Minute) = FormatDate (9 * Hour)" by (rule FormatDate_same_day) (simp add: go_defs)
  have h: "hour_of_day (9 * Hour - Minute) = 8" "hour_of_day (9 * Hour) = 9" "hour_of_day (9 * Hour + Minute) = 9"
    "(9 * Hour - Minute) div Day = 0" "9 * Hour div Day = 0" "(9 * Hour + Minute) div Day = 0"
    by (simp_all add: hour_of_day_def go_defs)
  have a: "fst (snd (Allow EventDailyDigest (9 * Hour) ?T))" by (simp add: throttle_eval)
  have sm: "SendMessage demo_service c body = Ok ()" for c body by (simp add: SendMessage_def demo_service_def Let_def)
  show ?thesis
    by (simp add: demo_ticks_def maybeFireDigest_def demo_telegram_def sm h d e a sent_ok_def Let_def case_prod_beta demo_notifier_def)
qed

text \<open>
  The daily digest.  Over any sequence of messages and ticks read under a clock that never goes back, whatever the service and
  the throttle do, the UTC days on which a digest was accepted are strictly increasing (at most one a day), and every digest that
  was sent was due: not before the configured hour, with the text of the summary the provider gave at that tick.
\<close>

lemma telegram_digest_once_per_day:
  assumes "sorted (concat (map input_times xs))" "NewTelegramNotifier Getenv start cfg = Ok n"
  shows "sorted_wrt (<) (digest_days (snd (telegram_Run oob decode xs n)))"
    "\<forall>xl \<in> set (snd (telegram_Run oob decode xs n)). digest_due (tn_cfg n) xl"
    "0 \<le> tc_DigestHour (tn_cfg n)" "tc_DigestHour (tn_cfg n) \<le> 23"
proof -
  show "sorted_wrt (<) (digest_days (snd (telegram_Run oob decode xs n)))"
    using telegram_Run_digests [OF assms(1), of None n oob decode] by (simp add: last_digest_def)
  show "\<forall>xl \<in> set (snd (telegram_Run oob decode xs n)). digest_due (tn_cfg n) xl"
    using telegram_Run_due by blast
  show "0 \<le> tc_DigestHour (tn_cfg n)" "tc_DigestHour (tn_cfg n) \<le> 23"
    using assms(2) by (auto simp: NewTelegramNotifier_def Let_def split: if_splits)
qed


lemma telegram_digest_once_per_day_witness:
  "digest_days (snd (telegram_Run (\<lambda>_. 0) (\<lambda>_. None) demo_ticks demo_notifier)) = [0] \<and>
   sorted_wrt (<) (digest_days (snd (telegram_Run (\<lambda>_. 0) (\<lambda>_. None) demo_ticks demo_notifier)))"
proof -
  have "sorted (concat (map input_times demo_ticks))" by (simp add: demo_ticks_def go_defs)
  moreover have "NewTelegramNotifier (\<lambda>_. []) (9 * Hour) demo_telegram = Ok demo_notifier"
    by (simp add: NewTelegramNotifier_def telegram_defaults_def demo_telegram_def demo_notifier_def Let_def)
  ultimately show ?thesis using telegram_digest_once_per_day(1) [of demo_ticks "\<lambda>_. []"] demo_digest_sent by blast
qed

end
