(* ===== verification/Spec2Isabelle.thy ===== *)
theory Spec2Isabelle
  imports Budget Notify LearnedRules Orchestrator Security Swarm Bus Momentum Liquidity Liquidation CrossYield Backtest
    WsHub FakeChain ApiQueries Commands Telegram
begin

text \<open>
  This library models \<^emph>\<open>Cambrian\<close>, a Go program that runs a population of trading agents.  Each
  agent has a genome (task, language model, economics, communication), runs a strategy in a fast loop and asks a language
  model for adjustments in a slow loop.  Once per epoch a root orchestrator reads the books, kills, pauses and
  resumes agents, judges the offspring they propose, and writes everything to Postgres.  Agents share
  signals over a bus and a decaying graph of market knowledge.

  \<^bold>\<open>How the parts interact.\<close>  \<^verbatim>\<open>runtime/swarm.go\<close> starts a \<^verbatim>\<open>NodeRunner\<close> per row of the agents table and follows the
  lifecycle events that \<^verbatim>\<open>runtime/lifecycle.go\<close> publishes after each change of that table.  A runner ticks its task
  (\<^verbatim>\<open>agent/tasks\<close>) and its strategist (\<^verbatim>\<open>agent/strategist.go\<close>), both of which write rows through \<^verbatim>\<open>db/queries.go\<close>.
  \<^verbatim>\<open>orchestrator/parent.go\<close> runs an epoch over the store of \<^verbatim>\<open>orchestrator/db_store.go\<close>, with the lifecycle
  policy, the offspring pipeline (reviews, backtest) and the postmortems.  \<^verbatim>\<open>cmd/swarm/main.go\<close> reads the configuration,
  builds the chain clients (\<^verbatim>\<open>chain/base.go\<close>, \<^verbatim>\<open>chain/solana.go\<close>), the language-model registry (\<^verbatim>\<open>llm\<close>) and all of
  the above, and runs an epoch at boot and one per tick; three more programs make the treasuries, seed the table and ask faucets for money.

  \<^bold>\<open>Foundations.\<close>
  \<^item> \<^verbatim>\<open>Prelude\<close>: errors as values (\<open>result\<close>, wrapped errors as \<^verbatim>\<open>fmt.Errorf\<close> makes them), guarded sequences, 64-bit wrap-around, Go's
    division, ASCII case and trimming.
  \<^item> \<^verbatim>\<open>Float64\<close>, \<^verbatim>\<open>FSqrt\<close>: IEEE binary64 as rationals with explicit rounding to nearest even, infinities, NaN and a negative zero; every
    arithmetic operation of the source is an operation with rounding.  \<^verbatim>\<open>FSqrt\<close> adds the correctly rounded square root.
  \<^item> \<^verbatim>\<open>GoTime\<close>: instants and durations in nanoseconds, saturating \<^verbatim>\<open>Sub\<close>, the calendar month.
    \<^verbatim>\<open>GoSort\<close>, \<^verbatim>\<open>GoFmt\<close>: stable and unstable sorting, string splitting, number and date formatting.  \<^verbatim>\<open>Rng\<close>: random draws with postconditions.
  \<^item> \<^verbatim>\<open>Gates\<close>: the interface of everything that lets a request through at most once per period; used by the
    budget hooks and the notification throttle.
  \<^item> \<^verbatim>\<open>Tables\<close>: the rows of the database and statements that may fail.

  \<^bold>\<open>Theories and sources\<close> (under \<^verbatim>\<open>src/internal\<close> unless said otherwise).
  \<^item> \<^verbatim>\<open>Genome\<close>: \<^verbatim>\<open>agent/genome.go\<close>, \<^verbatim>\<open>genome_validate.go\<close>, \<^verbatim>\<open>llm/rates.go\<close>.  \<^verbatim>\<open>LearnedRules\<close>: \<^verbatim>\<open>agent/learned_rules.go\<close>.
  \<^item> \<^verbatim>\<open>Budget\<close>: \<^verbatim>\<open>orchestrator/budget.go\<close>.  \<^verbatim>\<open>Notify\<close>: \<^verbatim>\<open>notifications/throttle.go\<close>.
    \<^verbatim>\<open>Telegram\<close>: \<^verbatim>\<open>notifications/formatters.go\<close>, \<^verbatim>\<open>telegram.go\<close>, the notifier behind that throttle.  \<^verbatim>\<open>Breaker\<close>: \<^verbatim>\<open>runtime/circuit_breaker.go\<close>,
    with the race between \<^verbatim>\<open>Trip\<close> and \<^verbatim>\<open>Reset\<close> as an inductive step relation.  \<^verbatim>\<open>Hibernation\<close>: \<^verbatim>\<open>runtime/hibernation.go\<close>.
  \<^item> \<^verbatim>\<open>Economics\<close>: \<^verbatim>\<open>orchestrator/economics.go\<close>, \<^verbatim>\<open>cost_attribution.go\<close>, \<^verbatim>\<open>treasury.go\<close>.  \<^verbatim>\<open>LifecyclePolicy\<close>: \<^verbatim>\<open>orchestrator/kill_pause.go\<close>.
  \<^item> \<^verbatim>\<open>Json\<close>, \<^verbatim>\<open>Review\<close>: the extraction of an object from a model's answer, \<^verbatim>\<open>orchestrator/quality_check.go\<close>, \<^verbatim>\<open>adversarial.go\<close>, \<^verbatim>\<open>postmortem.go\<close>.
  \<^item> \<^verbatim>\<open>Evolution\<close>: \<^verbatim>\<open>orchestrator/evolution.go\<close>, \<^verbatim>\<open>crossover.go\<close>, \<^verbatim>\<open>diversity.go\<close>.
  \<^item> \<^verbatim>\<open>EpochStore\<close>: \<^verbatim>\<open>orchestrator/db_store.go\<close>.  \<^verbatim>\<open>Orchestrator\<close>: \<^verbatim>\<open>orchestrator/parent.go\<close> and the breaker adapter of \<^verbatim>\<open>src/cmd/swarm/main.go\<close>.
  \<^item> \<^verbatim>\<open>Security\<close>: \<^verbatim>\<open>security/policy.go\<close>, \<^verbatim>\<open>tx_validator.go\<close>, \<^verbatim>\<open>key_manager.go\<close> (AES-GCM down to the block function), \<^verbatim>\<open>log_redactor.go\<close>.
  \<^item> \<^verbatim>\<open>Queries\<close>: \<^verbatim>\<open>db/queries.go\<close> and \<^verbatim>\<open>src/cmd/init-treasury/main.go\<close>.  \<^verbatim>\<open>Bandit\<close>: \<^verbatim>\<open>agent/bandit.go\<close>.  \<^verbatim>\<open>Strategist\<close>: \<^verbatim>\<open>agent/strategist.go\<close>.
  \<^item> \<^verbatim>\<open>NodeRunner\<close>: \<^verbatim>\<open>runtime/node_runner.go\<close>, \<^verbatim>\<open>scheduler.go\<close>.  \<^verbatim>\<open>Swarm\<close>: \<^verbatim>\<open>runtime/lifecycle.go\<close>, \<^verbatim>\<open>swarm.go\<close>.
  \<^item> \<^verbatim>\<open>Knowledge\<close>: \<^verbatim>\<open>intelligence/knowledge_graph.go\<close>, \<^verbatim>\<open>decay_job.go\<close>.  \<^verbatim>\<open>Intel\<close>: \<^verbatim>\<open>intelligence/accuracy_tracker.go\<close>,
    \<^verbatim>\<open>aggregator.go\<close>.  \<^verbatim>\<open>Bus\<close>: \<^verbatim>\<open>intelligence/bus.go\<close> over \<^verbatim>\<open>redis/fake.go\<close>.
  \<^item> \<^verbatim>\<open>TaskCore\<close>, \<^verbatim>\<open>TaskUtil\<close>: \<^verbatim>\<open>agent/tasks/interface.go\<close>, \<^verbatim>\<open>registry.go\<close>, \<^verbatim>\<open>fake.go\<close>, \<^verbatim>\<open>chain/types.go\<close> and the helpers of the strategies.
    \<^verbatim>\<open>Momentum\<close>: \<^verbatim>\<open>agent/tasks/momentum.go\<close>.  \<^verbatim>\<open>Liquidity\<close>: \<^verbatim>\<open>agent/tasks/liquidity_provision.go\<close>.
    \<^verbatim>\<open>Liquidation\<close>: \<^verbatim>\<open>agent/tasks/liquidation_hunting.go\<close>.  \<^verbatim>\<open>CrossYield\<close>: \<^verbatim>\<open>agent/tasks/cross_chain_yield.go\<close>.
  \<^item> \<^verbatim>\<open>MockChain\<close>: \<^verbatim>\<open>backtesting/mock_chain.go\<close>, \<^verbatim>\<open>price_collector.go\<close>.  \<^verbatim>\<open>Backtest\<close>: \<^verbatim>\<open>backtesting/engine.go\<close>, run with the
    liquidity strategy on the replay chain.
  \<^item> \<^verbatim>\<open>Prices\<close>: \<^verbatim>\<open>chain/prices.go\<close>, one call at a time.  \<^verbatim>\<open>FakeChain\<close>: \<^verbatim>\<open>chain/fake.go\<close>, \<^verbatim>\<open>registry.go\<close>.
  \<^item> \<^verbatim>\<open>Api\<close>: \<^verbatim>\<open>api/types.go\<close>, \<^verbatim>\<open>store.go\<close>, \<^verbatim>\<open>memory_store.go\<close>, \<^verbatim>\<open>server.go\<close>, \<^verbatim>\<open>handlers.go\<close>.  \<^verbatim>\<open>ApiQueries\<close>:
    \<^verbatim>\<open>api/postgres_store.go\<close>.  \<^verbatim>\<open>JsonText\<close>, \<^verbatim>\<open>WsHub\<close>: \<^verbatim>\<open>api/websocket.go\<close>, the goroutines of a hub and its clients.
  \<^item> \<^verbatim>\<open>Http\<close>, \<^verbatim>\<open>BigNum\<close>: the HTTP exchange and the parts of \<^verbatim>\<open>math/big\<close> the adapters use, with the amounts of \<^verbatim>\<open>chain/base.go\<close>.
    \<^verbatim>\<open>Wallets\<close>: \<^verbatim>\<open>chain/solana_wallet.go\<close>, \<^verbatim>\<open>base_wallet.go\<close>.  \<^verbatim>\<open>BaseChain\<close>: \<^verbatim>\<open>chain/base.go\<close>, \<^verbatim>\<open>base_oneinch.go\<close>, \<^verbatim>\<open>base_aave.go\<close>,
    \<^verbatim>\<open>base_morpho.go\<close>, \<^verbatim>\<open>base_yield.go\<close>.  \<^verbatim>\<open>SolanaChain\<close>: \<^verbatim>\<open>chain/solana.go\<close>, \<^verbatim>\<open>solana_jupiter.go\<close>, \<^verbatim>\<open>solana_marginfi.go\<close>,
    \<^verbatim>\<open>solana_kamino.go\<close>, \<^verbatim>\<open>solana_yield.go\<close>.
  \<^item> \<^verbatim>\<open>Config\<close>: \<^verbatim>\<open>config/config.go\<close>.  \<^verbatim>\<open>Llm\<close>: \<^verbatim>\<open>llm/anthropic.go\<close>, \<^verbatim>\<open>openai.go\<close>, \<^verbatim>\<open>fake.go\<close>, \<^verbatim>\<open>registry.go\<close>.
    \<^verbatim>\<open>Wiring\<close>: \<^verbatim>\<open>src/cmd/swarm/main.go\<close>, \<^verbatim>\<open>db/db.go\<close>, \<^verbatim>\<open>db/migrate.go\<close>.  \<^verbatim>\<open>Commands\<close>: \<^verbatim>\<open>src/cmd/seed-nodes\<close>,
    \<^verbatim>\<open>src/cmd/init-treasury\<close>, \<^verbatim>\<open>src/cmd/devnet-fund\<close>.

  \<^bold>\<open>Conventions.\<close>  A struct is a record with the source's field names behind a short prefix, a Go map an association list (its
  random iteration order is then the order of the list, or a rearrangement given as argument), an error the left side of \<open>result\<close>.
  Calls under a mutex are functions on the state; where the source leaves the mutex early, the halves are steps of
  their own.  What is not in the repository (language models, chains, Postgres, the clock, random draws,
  \<^verbatim>\<open>encoding/json\<close> of a type, the AES block function, the curves and transaction formats, the logging core of zap, Gin's answer to an unknown path,
  the conversion of an out-of-range float to an integer: \<open>oob\<close>)
  is an argument of the definitions that use it.  Error texts leave out the quotes of \<^verbatim>\<open>%q\<close>.

  \<^bold>\<open>What is shown.\<close>  Invariants of state over arbitrary sequences of calls: the agents table, the knowledge
  graph, the notification bucket, the strategies' envelopes, the validity of genomes under mutation.  Refinement: the runners of the
  swarm implement the status column however late its events arrive, the rolling tracker its window, the
  momentum strategy the machine flat or long.  Exact input-output behaviour of the policy, the triggers, the reviews,
  the epoch, the replay of a backtest, the guards of a rebalance and of a liquidation, decryption after encryption, unsealing of a wallet, the decoding of fixed-point numbers.  Bounds that survive rounding for sweeps, settlement, attribution and liquidity.
  Several theorems state where the code misses its intent (a program that never boots, an epoch that kills every agent it loads, reviews that fail
  open, a race that halts for ever, a strategy that can not trade, a stalled dashboard that ends the process, a refresh that empties the price cache).

  \<^bold>\<open>Interfaces\<close> are locales, each interpreted on the model's own operations: \<^verbatim>\<open>Gates\<close> (requests admitted at most once per period),
  \<^verbatim>\<open>GoSort\<close> and \<^verbatim>\<open>GoFmt\<close> (orders), \<^verbatim>\<open>Breaker\<close> (trip and reset), \<^verbatim>\<open>Intel\<close> (signal feeds),
  \<^verbatim>\<open>FakeChain\<close> (refusal of real execution),
  \<^verbatim>\<open>TaskUtil\<close> (knobs of a task, histories of a task), \<^verbatim>\<open>BaseChain\<close> and \<^verbatim>\<open>SolanaChain\<close> (calls that may broadcast),
  \<^verbatim>\<open>Llm\<close> (completions).

  \<^bold>\<open>Bounds and fuel.\<close>  Loops over data are structural or have a termination proof.  Only the rejection loop of the gamma
  sampler takes fuel, because it ends with probability one but not surely.  The loops of a node, of the budget
  tracker, of the breaker and of the decay job run until their context is cancelled; they are modelled as finite sequences of ticks, of
  any length.  Price bounds of \<open>2^-400\<close> to \<open>2^400\<close> in \<^verbatim>\<open>Liquidity\<close> only keep the ratio of two prices finite.

  \<^bold>\<open>Not modelled.\<close>  The Redis client, the listener of the HTTP server, deadlines and signals are calls of third-party
  packages and network services.  The sharing of one price request among concurrent readers is a third-party package too, so the price cache is modelled one call at a time.  Of the chain clients the constant names (\<^verbatim>\<open>ChainName\<close>, \<^verbatim>\<open>NativeToken\<close>) and the wiping
  of used keys are left out.  Prompt texts are modelled only where rendering can fail or where they are constants.
\<close>

end
